(* ===== verification/Prelude.thy ===== *)
theory Prelude
  imports Main "HOL-Library.Monad_Syntax" "HOL-Library.Multiset" "HOL-Library.Word"
begin

text \<open>
  Generic material shared by the component theories.

  C values.  A function of the program that can run into undefined behaviour (an array
  access out of bounds, a NULL dereference, a string copy past the end of its buffer) is
  modelled by an option valued function, composed with the do notation of Monad_Syntax;
  the value None is exactly the undefined behaviour.  The return codes of the program
  (SPP_RET_OK = 0 and SPP_RET_NG = -1) are integers inside that option.

  Arrays.  A C array is a list whose length is the declared size of the array; rd and wr
  read and write it at a C index and are None outside of it.
\<close>

named_theorems rdwr \<open>reading and writing C arrays\<close>
named_theorems c_bind \<open>taking apart option computations\<close>

definition rd :: "'a list \<Rightarrow> int \<Rightarrow> 'a option" where
  "rd xs i = (if 0 \<le> i \<and> i < int (length xs) then Some (xs ! nat i) else None)"

definition wr :: "'a list \<Rightarrow> int \<Rightarrow> 'a \<Rightarrow> 'a list option" where
  "wr xs i v = (if 0 \<le> i \<and> i < int (length xs) then Some (xs[nat i := v]) else None)"

definition ensure :: "bool \<Rightarrow> unit option" where
  "ensure b = (if b then Some () else None)"

lemma ensure_simps [simp]: "ensure True = Some ()" "ensure False = None"
  by (simp_all add: ensure_def)

lemma ensure_Some_iff [simp, c_bind]: "ensure b = Some u \<longleftrightarrow> b"
  by (simp add: ensure_def)

lemma ensure_None_iff [simp]: "ensure b = None \<longleftrightarrow> \<not> b"
  by (simp add: ensure_def)

lemma ensure_bind [simp]: "(ensure b \<bind> f) = (if b then f () else None)"
  by (simp add: ensure_def)

lemma bind_Some_iff [c_bind]: "(m \<bind> f) = Some y \<longleftrightarrow> (\<exists>x. m = Some x \<and> f x = Some y)"
  by (cases m) auto

lemma bind_SomeE:
  assumes "(m \<bind> f) = Some y"
  obtains x where "m = Some x" and "f x = Some y"
  using assms by (auto simp: bind_Some_iff)

lemma rd_Some_iff [rdwr]:
  "rd xs i = Some v \<longleftrightarrow> 0 \<le> i \<and> i < int (length xs) \<and> xs ! nat i = v"
  by (auto simp: rd_def)

lemma wr_Some_iff [rdwr]:
  "wr xs i v = Some ys \<longleftrightarrow> 0 \<le> i \<and> i < int (length xs) \<and> ys = xs[nat i := v]"
  by (auto simp: wr_def)

lemma rd_None_iff: "rd xs i = None \<longleftrightarrow> i < 0 \<or> int (length xs) \<le> i"
  by (auto simp: rd_def)

lemma wr_None_iff: "wr xs i v = None \<longleftrightarrow> i < 0 \<or> int (length xs) \<le> i"
  by (auto simp: wr_def)

lemma rd_nat [simp]: "n < length xs \<Longrightarrow> rd xs (int n) = Some (xs ! n)"
  by (simp add: rd_def)

lemma wr_nat [simp]: "n < length xs \<Longrightarrow> wr xs (int n) v = Some (xs[n := v])"
  by (simp add: wr_def)

lemma rd_ok: "0 \<le> i \<Longrightarrow> i < int (length xs) \<Longrightarrow> rd xs i = Some (xs ! nat i)"
  by (simp add: rd_def)

lemma wr_ok: "0 \<le> i \<Longrightarrow> i < int (length xs) \<Longrightarrow> wr xs i v = Some (xs[nat i := v])"
  by (simp add: wr_def)

lemma wr_length [rdwr]: "wr xs i v = Some ys \<Longrightarrow> length ys = length xs"
  by (auto simp: wr_def split: if_splits)

lemma rd_wr_same: "wr xs i v = Some ys \<Longrightarrow> rd ys i = Some v"
  by (auto simp: wr_def rd_def split: if_splits)

lemma rd_wr_other: "wr xs i v = Some ys \<Longrightarrow> j \<noteq> i \<Longrightarrow> rd ys j = rd xs j"
  by (auto simp: wr_def rd_def nth_list_update split: if_splits)

lemma rd_in_set: "rd xs i = Some v \<Longrightarrow> v \<in> set xs"
  by (auto simp: rd_Some_iff intro!: nth_mem)

lemma rd_eqI: "length xs = length ys \<Longrightarrow> (\<And>i. rd xs i = rd ys i) \<Longrightarrow> xs = ys"
  by (rule nth_equalityI, simp) (metis option.inject rd_nat)

lemma subset_diff_add: "C + A \<subseteq># B \<Longrightarrow> A \<subseteq># B - C"
  by (metis add_diff_cancel_left' mset_subset_eq_add_left mset_subset_eq_exists_conv union_assoc)

lemma mset_take_drop: "mset xs = mset (take k xs) + mset (drop k xs)"
  by (metis append_take_drop_id mset_append)

lemma replicate_mset_add: "replicate_mset (m + n) x = replicate_mset m x + replicate_mset n x"
  by (induction m) simp_all

text \<open>The signed 32-bit integer that a C conversion to int leaves of a wider value.\<close>

definition to_int32 :: "int \<Rightarrow> int" where
  "to_int32 x = signed_take_bit 31 x"

lemma to_int32_id [simp]: "- (2 ^ 31) \<le> x \<Longrightarrow> x < 2 ^ 31 \<Longrightarrow> to_int32 x = x"
  unfolding to_int32_def by (rule signed_take_bit_int_eq_self) simp_all

lemma to_int32_bounds: "- (2 ^ 31) \<le> to_int32 x \<and> to_int32 x < 2 ^ 31"
  unfolding to_int32_def
  using signed_take_bit_int_greater_eq_minus_exp [of 31 x] signed_take_bit_int_less_exp [of 31 x]
  by simp

text \<open>The unsigned 16-bit integer, the type of the port numbers of DPDK.\<close>

definition to_uint16 :: "int \<Rightarrow> int" where
  "to_uint16 x = x mod 2 ^ 16"

lemma to_uint16_id [simp]: "0 \<le> x \<Longrightarrow> x < 2 ^ 16 \<Longrightarrow> to_uint16 x = x"
  by (simp add: to_uint16_def)

text \<open>The index of the first element that satisfies a predicate, as the search loops of
  the program find it.\<close>

fun first_index :: "('a \<Rightarrow> bool) \<Rightarrow> 'a list \<Rightarrow> nat option" where
  "first_index P [] = None"
| "first_index P (x # xs) = (if P x then Some 0 else map_option Suc (first_index P xs))"

lemma first_index_SomeD:
  "first_index P xs = Some i \<Longrightarrow> i < length xs \<and> P (xs ! i) \<and> (\<forall>j<i. \<not> P (xs ! j))"
proof (induction xs arbitrary: i)
  case (Cons x xs)
  show ?case
  proof (cases "P x")
    case False
    then obtain k where k: "first_index P xs = Some k" and i: "i = Suc k"
      using Cons.prems by auto
    show ?thesis using Cons.IH [OF k] False i by (auto simp: less_Suc_eq_0_disj)
  qed (use Cons.prems in auto)
qed simp

lemma first_index_None_iff: "first_index P xs = None \<longleftrightarrow> (\<forall>x\<in>set xs. \<not> P x)"
  by (induction xs) auto

lemma first_index_unique:
  "i < length xs \<Longrightarrow> P (xs ! i) \<Longrightarrow> (\<And>j. j < i \<Longrightarrow> \<not> P (xs ! j)) \<Longrightarrow> first_index P xs = Some i"
proof (induction xs arbitrary: i)
  case (Cons x xs)
  show ?case
  proof (cases i)
    case 0 then show ?thesis using Cons.prems by simp
  next
    case (Suc k)
    have "\<not> P x" using Cons.prems(3) [of 0] Suc by simp
    moreover have "first_index P xs = Some k"
      using Cons.prems Suc by (intro Cons.IH) (auto, metis Suc_mono nth_Cons_Suc)
    ultimately show ?thesis using Suc by simp
  qed
qed simp

text \<open>A loop that waits for another thread: while the condition holds, the next step of the other
  threads is taken from the schedule; the result is the rest of the schedule and the state.
  When the schedule ends before the condition fails, the wait has not returned (None).\<close>

fun wait_while :: "('s \<Rightarrow> bool option) \<Rightarrow> ('e \<Rightarrow> 's \<Rightarrow> 's option) \<Rightarrow> 'e list \<Rightarrow> 's \<Rightarrow>
    ('e list \<times> 's) option" where
  "wait_while c env [] s = do { b \<leftarrow> c s; if b then None else Some ([], s) }"
| "wait_while c env (e # es) s = do {
     b \<leftarrow> c s;
     if b then do { s' \<leftarrow> env e s; wait_while c env es s' } else Some (e # es, s)
   }"

lemma wait_while_done: "c s = Some False \<Longrightarrow> wait_while c env es s = Some (es, s)"
  by (cases es) simp_all

lemma wait_while_post: "wait_while c env es s = Some (es', s') \<Longrightarrow> c s' = Some False"
  by (induction es arbitrary: s) (auto simp: bind_Some_iff split: if_splits)

lemma wait_while_one:
  assumes "c s = Some True" and "env x s = Some s2" and "c s2 = Some False"
    and "x \<in> set es" and "\<forall>e\<in>set es. e \<noteq> x \<longrightarrow> env e s = Some s"
  shows "\<exists>es'. wait_while c env es s = Some (es', s2)"
  using assms(4,5)
proof (induction es)
  case (Cons e es)
  show ?case
  proof (cases "e = x")
    case True
    then show ?thesis using assms(1-3) by (simp add: wait_while_done)
  qed (use Cons assms(1) in auto)
qed simp

end
