(* ===== verification/CString.thy ===== *)
theory CString
  imports Prelude
begin

text \<open>
  The part of the C string library the program uses, on strings without their terminating
  NUL: the number parsers strtol and strtoul of stdlib.h, the tokenizer strtok of string.h,
  the decimal conversions of sprintf, and the string copies with the size of their
  destination buffer.
\<close>

section \<open>Digits and numbers\<close>

definition ord_of :: "char \<Rightarrow> nat" where
  "ord_of c = of_char c"

definition chr_of :: "nat \<Rightarrow> char" where
  "chr_of n = char_of n"

definition is_space :: "char \<Rightarrow> bool" where
  "is_space c \<longleftrightarrow> ord_of c = 32 \<or> (9 \<le> ord_of c \<and> ord_of c \<le> 13)"

definition digit_val :: "char \<Rightarrow> nat" where
  "digit_val c =
    (let n = ord_of c in
     if 48 \<le> n \<and> n \<le> 57 then n - 48
     else if 97 \<le> n \<and> n \<le> 122 then n - 87
     else if 65 \<le> n \<and> n \<le> 90 then n - 55
     else 36)"

definition is_digit :: "nat \<Rightarrow> char \<Rightarrow> bool" where
  "is_digit b c \<longleftrightarrow> digit_val c < b"

definition digits_val :: "nat \<Rightarrow> string \<Rightarrow> nat" where
  "digits_val b ds = foldl (\<lambda>a c. a * b + digit_val c) 0 ds"

text \<open>The sign and the base prefix of the number parsers.\<close>

definition split_sign :: "string \<Rightarrow> bool \<times> string" where
  "split_sign s =
    (case s of
       c # cs \<Rightarrow> if c = CHR ''-'' then (True, cs) else if c = CHR ''+'' then (False, cs) else (False, s)
     | [] \<Rightarrow> (False, s))"

definition hex_prefix :: "string \<Rightarrow> bool" where
  "hex_prefix s \<longleftrightarrow>
    (case s of
       c # x # h # _ \<Rightarrow> c = CHR ''0'' \<and> (x = CHR ''x'' \<or> x = CHR ''X'') \<and> is_digit 16 h
     | _ \<Rightarrow> False)"

definition split_base :: "nat \<Rightarrow> string \<Rightarrow> nat \<times> string" where
  "split_base b s =
    (if (b = 0 \<or> b = 16) \<and> hex_prefix s then (16, drop 2 s)
     else if b = 0 then (if s \<noteq> [] \<and> hd s = CHR ''0'' then (8, s) else (10, s))
     else (b, s))"

text \<open>The value of the longest number at the front and the rest of the string; when there
  is no number the value is 0 and the rest is the whole string, as with endptr.\<close>

definition scan_number :: "nat \<Rightarrow> string \<Rightarrow> (bool \<times> nat) \<times> string" where
  "scan_number b s =
    (let (neg, s2) = split_sign (dropWhile is_space s);
         (b', s3) = split_base b s2;
         ds = takeWhile (is_digit b') s3
     in if ds = [] then ((False, 0), s)
        else ((neg, digits_val b' ds), dropWhile (is_digit b') s3))"

definition LONG_MAX :: int where "LONG_MAX = 2 ^ 63 - 1"
definition LONG_MIN :: int where "LONG_MIN = - (2 ^ 63)"
definition ULONG_MAX :: int where "ULONG_MAX = 2 ^ 64 - 1"

definition strtol :: "nat \<Rightarrow> string \<Rightarrow> int \<times> string" where
  "strtol b s =
    (case scan_number b s of ((neg, n), rest) \<Rightarrow>
       (if neg then max LONG_MIN (- int n) else min LONG_MAX (int n), rest))"

definition strtoul :: "nat \<Rightarrow> string \<Rightarrow> int \<times> string" where
  "strtoul b s =
    (case scan_number b s of ((neg, n), rest) \<Rightarrow>
       (if ULONG_MAX < int n then ULONG_MAX
        else if neg then (- int n) mod 2 ^ 64 else int n, rest))"

section \<open>Printing numbers\<close>

definition digit_char :: "nat \<Rightarrow> char" where
  "digit_char n = chr_of (48 + n)"

fun show_nat :: "nat \<Rightarrow> string" where
  "show_nat n = (if n < 10 then [digit_char n] else show_nat (n div 10) @ [digit_char (n mod 10)])"

declare show_nat.simps [simp del]

definition show_int :: "int \<Rightarrow> string" where
  "show_int i = (if i < 0 then CHR ''-'' # show_nat (nat (- i)) else show_nat (nat i))"

section \<open>Tokens and copies\<close>

text \<open>The successive results of strtok: the maximal non-empty runs without delimiter.\<close>

function tokens :: "(char \<Rightarrow> bool) \<Rightarrow> string \<Rightarrow> string list" where
  "tokens d [] = []"
| "tokens d (c # cs) =
     (if d c then tokens d cs
      else (c # takeWhile (\<lambda>x. \<not> d x) cs) # tokens d (dropWhile (\<lambda>x. \<not> d x) cs))"
  by pat_completeness auto
termination
  by (relation "measure (length \<circ> snd)") (auto simp: length_dropWhile_le less_Suc_eq_le)

text \<open>A copy into a buffer of the given size; the terminating NUL has to fit.\<close>

definition strcpy_buf :: "nat \<Rightarrow> string \<Rightarrow> string option" where
  "strcpy_buf sz s = (if length s < sz then Some s else None)"

definition starts_with :: "string \<Rightarrow> string \<Rightarrow> bool" where
  "starts_with s p \<longleftrightarrow> take (length p) s = p"

section \<open>Lemmas\<close>

lemma ord_digit_char: "n < 10 \<Longrightarrow> ord_of (digit_char n) = 48 + n"
  by (simp add: ord_of_def digit_char_def chr_of_def)

lemma digit_val_digit_char [simp]: "n < 10 \<Longrightarrow> digit_val (digit_char n) = n"
  by (simp add: digit_val_def ord_digit_char Let_def)

lemma is_digit_digit_char [simp]: "n < 10 \<Longrightarrow> n < b \<Longrightarrow> is_digit b (digit_char n)"
  by (simp add: is_digit_def)

lemma is_space_digit_char [simp]: "n < 10 \<Longrightarrow> \<not> is_space (digit_char n)"
  by (simp add: is_space_def ord_digit_char)

lemma show_nat_nonempty [simp]: "show_nat n \<noteq> []"
  by (subst show_nat.simps) simp

lemma digits_val_snoc: "digits_val b (ds @ [c]) = digits_val b ds * b + digit_val c"
  by (simp add: digits_val_def)

lemma digits_val_show_nat: "digits_val 10 (show_nat n) = n"
proof (induction n rule: show_nat.induct)
  case (1 n)
  show ?case
  proof (cases "n < 10")
    case True
    then show ?thesis by (subst show_nat.simps) (simp add: digits_val_def)
  next
    case False
    then show ?thesis using 1 by (subst show_nat.simps) (simp add: digits_val_snoc)
  qed
qed

lemma show_nat_digits: "c \<in> set (show_nat n) \<Longrightarrow> \<exists>k<10. c = digit_char k"
proof (induction n rule: show_nat.induct)
  case (1 n)
  show ?case
  proof (cases "n < 10")
    case True
    then show ?thesis using "1.prems" by (subst (asm) show_nat.simps) auto
  next
    case False
    have "c \<in> set (show_nat (n div 10)) \<or> c = digit_char (n mod 10)"
      using "1.prems" False by (subst (asm) show_nat.simps) auto
    moreover have "n mod 10 < 10" by simp
    ultimately show ?thesis using "1.IH" [OF False] by blast
  qed
qed

lemma show_nat_hd: "0 < n \<Longrightarrow> \<exists>k<10. 0 < k \<and> hd (show_nat n) = digit_char k"
proof (induction n rule: show_nat.induct)
  case (1 n)
  show ?case
  proof (cases "n < 10")
    case True
    then show ?thesis using "1.prems" by (subst show_nat.simps) auto
  next
    case False
    then have "0 < n div 10" by simp
    then show ?thesis using 1 False by (subst show_nat.simps) simp
  qed
qed

lemma all_digits_show_nat: "\<forall>c\<in>set (show_nat n). is_digit 10 c"
proof
  fix c assume "c \<in> set (show_nat n)"
  then obtain k where "k < 10" "c = digit_char k" using show_nat_digits by blast
  then show "is_digit 10 c" by simp
qed

lemma takeWhile_all: "\<forall>x\<in>set xs. P x \<Longrightarrow> takeWhile P (xs @ ys) = xs @ takeWhile P ys"
  by (induction xs) auto

lemma dropWhile_all: "\<forall>x\<in>set xs. P x \<Longrightarrow> dropWhile P (xs @ ys) = dropWhile P ys"
  by (induction xs) auto

lemma tokens_app:
  assumes "x \<noteq> []" and "\<forall>c\<in>set x. \<not> d c" and "d e"
  shows "tokens d (x @ e # rest) = x # tokens d rest"
proof -
  obtain c cs where x: "x = c # cs" using assms(1) by (cases x) auto
  have "takeWhile (\<lambda>z. \<not> d z) (cs @ e # rest) = cs"
    using takeWhile_all [of cs "\<lambda>z. \<not> d z" "e # rest"] assms x by simp
  moreover have "dropWhile (\<lambda>z. \<not> d z) (cs @ e # rest) = e # rest"
    using dropWhile_all [of cs "\<lambda>z. \<not> d z" "e # rest"] assms x by simp
  ultimately show ?thesis using assms x by simp
qed

lemma tokens_single:
  assumes "x \<noteq> []" and "\<forall>c\<in>set x. \<not> d c"
  shows "tokens d x = [x]"
proof -
  obtain c cs where x: "x = c # cs" using assms(1) by (cases x) auto
  have "takeWhile (\<lambda>z. \<not> d z) cs = cs" and dw: "dropWhile (\<lambda>z. \<not> d z) cs = []"
    using assms x by (simp_all add: takeWhile_eq_all_conv dropWhile_eq_Nil_conv)
  then show ?thesis using assms unfolding x by (simp del: dropWhile_eq_Nil_conv add: dw)
qed

lemma digit_char_neq_sign [simp]:
  "n < 10 \<Longrightarrow> digit_char n \<noteq> CHR ''-''" "n < 10 \<Longrightarrow> digit_char n \<noteq> CHR ''+''"
  using ord_digit_char [of n] by (auto simp: ord_of_def)

lemma digit_char_zero_iff: "n < 10 \<Longrightarrow> digit_char n = CHR ''0'' \<longleftrightarrow> n = 0"
proof
  assume "n < 10" and "digit_char n = CHR ''0''"
  then show "n = 0" using ord_digit_char [of n] by (simp add: ord_of_def)
next
  assume "n = 0" then show "digit_char n = CHR ''0''" by (simp, code_simp)
qed

lemma hex_prefix_show_nat [simp]: "\<not> hex_prefix (show_nat n)"
proof (cases "n = 0")
  case True
  then show ?thesis by (simp add: show_nat.simps [of 0] hex_prefix_def)
next
  case False
  then obtain k where k: "k < 10" "0 < k" "hd (show_nat n) = digit_char k" using show_nat_hd by blast
  then have "hd (show_nat n) \<noteq> CHR ''0''" by (simp add: digit_char_zero_iff)
  then show ?thesis by (auto simp: hex_prefix_def split: list.splits)
qed

lemma split_base_show_nat:
  "split_base 0 (show_nat n) = (if n = 0 then 8 else 10, show_nat n)"
proof (cases "n = 0")
  case True
  then show ?thesis
    by (simp add: split_base_def, simp add: show_nat.simps [of 0] digit_char_zero_iff)
next
  case False
  then obtain k where "k < 10" "0 < k" "hd (show_nat n) = digit_char k" using show_nat_hd by blast
  with False show ?thesis by (simp add: split_base_def digit_char_zero_iff)
qed

lemma split_base_10: "split_base 10 s = (10, s)"
  by (simp add: split_base_def)

text \<open>Scanning a printed number gives it back, up to the first character behind it.\<close>

definition ends_number :: "string \<Rightarrow> bool" where
  "ends_number rest \<longleftrightarrow> rest = [] \<or> \<not> is_digit 10 (hd rest)"

lemma scan_show_nat:
  assumes "0 < n \<or> n = 0 \<and> b = 10" and "b = 0 \<or> b = 10" and "ends_number rest"
    and nohex: "\<not> hex_prefix (show_nat n @ rest)"
  shows "scan_number b (show_nat n @ rest) = ((False, n), rest)"
proof -
  obtain k where k: "k < 10" "hd (show_nat n) = digit_char k"
    using show_nat_digits [of "hd (show_nat n)" n] hd_in_set [OF show_nat_nonempty, of n] by blast
  obtain ds where ds: "show_nat n = digit_char k # ds"
    using k(2) by (metis list.exhaust_sel show_nat_nonempty)
  have sp: "dropWhile is_space (show_nat n @ rest) = show_nat n @ rest"
    using k ds by simp
  have sg: "split_sign (show_nat n @ rest) = (False, show_nat n @ rest)"
    using k ds by (simp add: split_sign_def)
  have base: "split_base b (show_nat n @ rest) = (10, show_nat n @ rest)"
  proof (cases "b = 10")
    case False
    then have "0 < n" "b = 0" using assms by auto
    then obtain j where "j < 10" "0 < j" "hd (show_nat n) = digit_char j" using show_nat_hd by blast
    then show ?thesis using nohex \<open>b = 0\<close> by (simp add: split_base_def digit_char_zero_iff)
  qed (simp add: split_base_10)
  have "takeWhile (is_digit 10) rest = []" "dropWhile (is_digit 10) rest = rest"
    using assms(3) by (cases rest; simp add: ends_number_def)+
  then have tw: "takeWhile (is_digit 10) (show_nat n @ rest) = show_nat n"
    and dw: "dropWhile (is_digit 10) (show_nat n @ rest) = rest"
    using takeWhile_all [OF all_digits_show_nat] dropWhile_all [OF all_digits_show_nat] by auto
  show ?thesis
    by (simp add: scan_number_def sp sg base tw dw digits_val_show_nat)
qed

lemma scan_zero: "scan_number 0 (show_nat 0) = ((False, 0), [])"
  by code_simp

end
