(* ===== verification/Spp_Types.thy ===== *)
theory Spp_Types
  imports CString
begin

text \<open>
  The data of the secondary processes: the enumerations and structures of
  vf/common/spp_proc.h and shared/common.h, the structures of the decoded commands of
  vf/common/command_dec.h, and the global management data of vf/common/spp_proc.c.

  A pointer to a port structure is either NULL (None) or names the array of g_iface_info
  it points into and the index; two such pointers are equal in C exactly when they are
  equal here.  The array sizes RTE_MAX_LCORE and RTE_MAX_ETHPORTS of DPDK are the lengths of
  the lists.
\<close>

section \<open>Enumerations\<close>

datatype port_type = PHY | RING | VHOST | PCAP | NULLPMD | UNDEF

datatype spp_core_status =
    SPP_CORE_UNUSE | SPP_CORE_STOP | SPP_CORE_IDLE | SPP_CORE_FORWARD
  | SPP_CORE_STOP_REQUEST | SPP_CORE_IDLE_REQUEST

datatype spp_component_type =
    SPP_COMPONENT_UNUSE | SPP_COMPONENT_CLASSIFIER_MAC | SPP_COMPONENT_MERGE
  | SPP_COMPONENT_FORWARD | SPP_COMPONENT_MIRROR

datatype spp_classifier_type =
    SPP_CLASSIFIER_TYPE_NONE | SPP_CLASSIFIER_TYPE_MAC | SPP_CLASSIFIER_TYPE_VLAN

datatype spp_port_rxtx =
    SPP_PORT_RXTX_NONE | SPP_PORT_RXTX_RX | SPP_PORT_RXTX_TX | SPP_PORT_RXTX_ALL

datatype spp_port_ability_ope =
    SPP_PORT_ABILITY_OPE_NONE | SPP_PORT_ABILITY_OPE_ADD_VLANTAG | SPP_PORT_ABILITY_OPE_DEL_VLANTAG

datatype copy_mng_flg = COPY_MNG_FLG_NONE | COPY_MNG_FLG_UPDCOPY | COPY_MNG_FLG_ALLCOPY

datatype secondary_type = SECONDARY_TYPE_NONE | SECONDARY_TYPE_VF | SECONDARY_TYPE_MIRROR

text \<open>The return codes.\<close>

abbreviation (input) SPP_RET_OK :: int where "SPP_RET_OK \<equiv> 0"
abbreviation (input) SPP_RET_NG :: int where "SPP_RET_NG \<equiv> - 1"

text \<open>The sizes and limits of spp_proc.h.\<close>

definition SPP_INFO_AREA_MAX :: nat where "SPP_INFO_AREA_MAX = 2"
definition SPP_PORT_ABILITY_MAX :: nat where "SPP_PORT_ABILITY_MAX = 4"
definition SPP_MIN_STR_LEN :: nat where "SPP_MIN_STR_LEN = 32"
definition SPP_NAME_STR_LEN :: nat where "SPP_NAME_STR_LEN = 128"
definition SPP_NUM_VLAN_VID :: nat where "SPP_NUM_VLAN_VID = 4096"
definition SPP_VLAN_PCP_MAX :: int where "SPP_VLAN_PCP_MAX = 7"
definition SPP_DEFAULT_CLASSIFIED_SPEC_STR :: string where
  "SPP_DEFAULT_CLASSIFIED_SPEC_STR = ''default''"
definition SPP_DEFAULT_CLASSIFIED_DMY_ADDR :: "64 word" where
  "SPP_DEFAULT_CLASSIFIED_DMY_ADDR = 0x010000000000"
definition SPP_DEFAULT_CLASSIFIED_DMY_ADDR_STR :: string where
  "SPP_DEFAULT_CLASSIFIED_DMY_ADDR_STR = ''00:00:00:00:00:01''"

text \<open>The largest VLAN identifier and the length of an Ethernet address of DPDK.\<close>

definition ETH_VLAN_ID_MAX :: int where "ETH_VLAN_ID_MAX = 4095"
definition ETHER_ADDR_LEN :: nat where "ETHER_ADDR_LEN = 6"

text \<open>The component types in the order of their enumerators, which the code compares as
  numbers.\<close>

primrec component_type_code :: "spp_component_type \<Rightarrow> int" where
  "component_type_code SPP_COMPONENT_UNUSE = 0"
| "component_type_code SPP_COMPONENT_CLASSIFIER_MAC = 1"
| "component_type_code SPP_COMPONENT_MERGE = 2"
| "component_type_code SPP_COMPONENT_FORWARD = 3"
| "component_type_code SPP_COMPONENT_MIRROR = 4"

lemma component_type_code_inj: "component_type_code a = component_type_code b \<longleftrightarrow> a = b"
  by (cases a; cases b) simp_all

instantiation spp_component_type :: linorder
begin

definition less_eq_spp_component_type :: "spp_component_type \<Rightarrow> spp_component_type \<Rightarrow> bool" where
  "less_eq_spp_component_type a b \<longleftrightarrow> component_type_code a \<le> component_type_code b"

definition less_spp_component_type :: "spp_component_type \<Rightarrow> spp_component_type \<Rightarrow> bool" where
  "less_spp_component_type a b \<longleftrightarrow> component_type_code a < component_type_code b"

instance
  by (intro_classes)
    (auto simp: less_eq_spp_component_type_def less_spp_component_type_def component_type_code_inj)

end

section \<open>Ports\<close>

record spp_port_index =
  pi_iface_type :: port_type
  pi_iface_no :: int

record spp_vlantag_info =
  vid :: int
  pcp :: int
  tci :: int

record spp_port_ability =
  ope :: spp_port_ability_ope
  rxtx :: spp_port_rxtx
  data :: spp_vlantag_info

record spp_port_class_identifier =
  mac_addr :: "64 word"
  mac_addr_str :: string
  vlantag :: spp_vlantag_info

record spp_port_info =
  iface_type :: port_type
  iface_no :: int
  dpdk_port :: int
  class_id :: spp_port_class_identifier
  ability :: "spp_port_ability list"

type_synonym port_ptr = "(port_type \<times> int) option"

record iface_info =
  num_nic :: int
  num_vhost :: int
  num_ring :: int
  nic :: "spp_port_info list"
  vhost :: "spp_port_info list"
  ring :: "spp_port_info list"

section \<open>Components and cores\<close>

record spp_component_info =
  name :: string
  comp_type :: spp_component_type
  lcore_id :: int
  component_id :: int
  num_rx_port :: int
  num_tx_port :: int
  rx_ports :: "port_ptr list"
  tx_ports :: "port_ptr list"

record core_info =
  num :: int
  core_ids :: "int list"

record core_mng_info =
  status :: spp_core_status
  ref_index :: int
  upd_index :: int
  core :: "core_info list"

record startup_param =
  client_id :: int
  server_ip :: string
  server_port :: int
  vhost_client :: int
  secondary_type :: secondary_type

record cancel_backup_info =
  bk_core :: "core_mng_info list"
  bk_component :: "spp_component_info list"
  bk_interface :: iface_info

record manage_data =
  g_startup_param :: startup_param
  g_iface_info :: iface_info
  g_component_info :: "spp_component_info list"
  g_core_info :: "core_mng_info list"
  g_change_core :: "int list"
  g_change_component :: "int list"
  g_backup_info :: cancel_backup_info
  g_main_lcore_id :: nat

text \<open>The values that memset leaves in these structures.\<close>

definition zero_vlantag :: spp_vlantag_info where
  "zero_vlantag = \<lparr>vid = 0, pcp = 0, tci = 0\<rparr>"

definition zero_ability :: spp_port_ability where
  "zero_ability = \<lparr>ope = SPP_PORT_ABILITY_OPE_NONE, rxtx = SPP_PORT_RXTX_NONE, data = zero_vlantag\<rparr>"

definition zero_class_id :: spp_port_class_identifier where
  "zero_class_id = \<lparr>mac_addr = 0, mac_addr_str = [], vlantag = zero_vlantag\<rparr>"

definition zero_port :: spp_port_info where
  "zero_port = \<lparr>iface_type = PHY, iface_no = 0, dpdk_port = 0, class_id = zero_class_id,
     ability = replicate SPP_PORT_ABILITY_MAX zero_ability\<rparr>"

definition zero_component :: "nat \<Rightarrow> spp_component_info" where
  "zero_component n_eth = \<lparr>name = [], comp_type = SPP_COMPONENT_UNUSE, lcore_id = 0,
     component_id = 0, num_rx_port = 0, num_tx_port = 0,
     rx_ports = replicate n_eth None, tx_ports = replicate n_eth None\<rparr>"

definition zero_core_info :: "nat \<Rightarrow> core_info" where
  "zero_core_info n_lcore = \<lparr>num = 0, core_ids = replicate n_lcore 0\<rparr>"

definition zero_core_mng :: "nat \<Rightarrow> core_mng_info" where
  "zero_core_mng n_lcore = \<lparr>status = SPP_CORE_UNUSE, ref_index = 0, upd_index = 0,
     core = replicate SPP_INFO_AREA_MAX (zero_core_info n_lcore)\<rparr>"

section \<open>Decoded commands\<close>

datatype spp_command_action =
    SPP_CMD_ACTION_NONE | SPP_CMD_ACTION_START | SPP_CMD_ACTION_STOP
  | SPP_CMD_ACTION_ADD | SPP_CMD_ACTION_DEL

datatype spp_command_type =
    SPP_CMDTYPE_CLASSIFIER_TABLE_MAC | SPP_CMDTYPE_CLASSIFIER_TABLE_VLAN | SPP_CMDTYPE_CLIENT_ID
  | SPP_CMDTYPE_STATUS | SPP_CMDTYPE_EXIT | SPP_CMDTYPE_COMPONENT | SPP_CMDTYPE_PORT

datatype spp_command_decode_error_code =
    SPP_CMD_DERR_BAD_FORMAT | SPP_CMD_DERR_UNKNOWN_COMMAND | SPP_CMD_DERR_NO_PARAM
  | SPP_CMD_DERR_BAD_TYPE | SPP_CMD_DERR_BAD_VALUE

definition SPP_CMD_MAX_PARAMETERS :: nat where "SPP_CMD_MAX_PARAMETERS = 8"
definition SPP_CMD_MAX_COMMANDS :: nat where "SPP_CMD_MAX_COMMANDS = 32"
definition SPP_CMD_NAME_BUFSZ :: nat where "SPP_CMD_NAME_BUFSZ = 32"
definition SPP_CMD_VALUE_BUFSZ :: nat where "SPP_CMD_VALUE_BUFSZ = 111"

record spp_command_classifier_table =
  ct_action :: spp_command_action
  ct_type :: spp_classifier_type
  ct_vid :: int
  ct_mac :: string
  ct_port :: spp_port_index

record spp_command_component =
  co_action :: spp_command_action
  co_name :: string
  co_core :: int
  co_type :: spp_component_type

record spp_command_port =
  po_action :: spp_command_action
  po_port :: spp_port_index
  po_rxtx :: spp_port_rxtx
  po_name :: string
  po_ability :: spp_port_ability

end
