(* ===== verification/Counted_Array.thy ===== *)
theory Counted_Array
  imports Prelude
begin

text \<open>
  Arrays with an element count, as the component table of a core and the port tables of a
  component are kept: the first num entries are in use.  The loops that search and close up
  such an array are shared by del_component_info, check_port_element and
  get_del_port_element of vf/common/spp_proc.c; the locale counted_array is the contract
  that the deletions promise to the commands that keep those tables.
\<close>

section \<open>The loops\<close>

function find_last_from :: "'a \<Rightarrow> 'a list \<Rightarrow> int \<Rightarrow> int \<Rightarrow> int \<Rightarrow> int option" where
  "find_last_from x arr cnt mx match =
    (if cnt < mx
     then do {
       y \<leftarrow> rd arr cnt;
       find_last_from x arr (cnt + 1) mx (if x = y then cnt else match)
     }
     else Some match)"
  by pat_completeness auto
termination by (relation "measure (\<lambda>(_, _, cnt, mx, _). nat (mx - cnt))") auto

declare find_last_from.simps [simp del]

function shift_down :: "'a list \<Rightarrow> int \<Rightarrow> int \<Rightarrow> (int \<times> 'a list) option" where
  "shift_down arr cnt mx =
    (if cnt < mx
     then do {
       y \<leftarrow> rd arr (cnt + 1);
       arr' \<leftarrow> wr arr cnt y;
       shift_down arr' (cnt + 1) mx
     }
     else Some (cnt, arr))"
  by pat_completeness auto
termination by (relation "measure (\<lambda>(_, cnt, mx). nat (mx - cnt))") auto

declare shift_down.simps [simp del]

text \<open>The deletion: the last match among the first num entries is overwritten by the entries
  behind it, and the entry that becomes free is cleared.\<close>

definition delete_at_match :: "'a \<Rightarrow> int \<Rightarrow> int \<Rightarrow> 'a list \<Rightarrow> (int \<times> 'a list) option" where
  "delete_at_match cleared match num arr =
    (if match < 0 then Some (- 1, arr)
     else do {
       (cnt, arr') \<leftarrow> shift_down arr match (num - 1);
       arr'' \<leftarrow> wr arr' cnt cleared;
       Some (0, arr'')
     })"

section \<open>What the loops compute\<close>

lemma find_last_from_spec:
  assumes "0 \<le> cnt" and "cnt \<le> mx" and "mx \<le> int (length arr)"
  shows "\<exists>m. find_last_from x arr cnt mx match = Some m \<and>
    (m = match \<and> (\<forall>j. cnt \<le> j \<and> j < mx \<longrightarrow> arr ! nat j \<noteq> x) \<or>
     cnt \<le> m \<and> m < mx \<and> arr ! nat m = x \<and> (\<forall>j. m < j \<and> j < mx \<longrightarrow> arr ! nat j \<noteq> x))"
  using assms
proof (induction x arr cnt mx match rule: find_last_from.induct)
  case (1 x arr cnt mx match)
  show ?case
  proof (cases "cnt < mx")
    case False
    then show ?thesis by (subst find_last_from.simps) auto
  next
    case True
    let ?m' = "if x = arr ! nat cnt then cnt else match"
    have r: "rd arr cnt = Some (arr ! nat cnt)" using 1 True by (intro rd_ok) auto
    obtain m where m: "find_last_from x arr (cnt + 1) mx ?m' = Some m"
      and c: "m = ?m' \<and> (\<forall>j. cnt + 1 \<le> j \<and> j < mx \<longrightarrow> arr ! nat j \<noteq> x) \<or>
        cnt + 1 \<le> m \<and> m < mx \<and> arr ! nat m = x \<and> (\<forall>j. m < j \<and> j < mx \<longrightarrow> arr ! nat j \<noteq> x)"
      using "1.IH" [OF True r] "1.prems" True by auto
    have "find_last_from x arr cnt mx match = Some m"
      using m True r by (subst find_last_from.simps) simp
    moreover have "cnt \<le> j \<longleftrightarrow> j = cnt \<or> cnt + 1 \<le> j" for j by auto
    ultimately show ?thesis using c True by (auto split: if_splits)
  qed
qed

lemma shift_down_spec:
  assumes "k \<le> n" and "n < length arr"
  shows "shift_down arr (int k) (int n) =
    Some (int n, take k arr @ drop (Suc k) (take (Suc n) arr) @ drop n arr)"
  using assms
proof (induction "n - k" arbitrary: k arr)
  case 0
  then have "k = n" by simp
  then show ?case by (subst shift_down.simps) (simp add: take_Suc_conv_app_nth Cons_nth_drop_Suc)
next
  case (Suc d)
  then have kn: "k < n" and kl: "k < length arr" "Suc k < length arr" by auto
  define arr' where "arr' = arr[k := arr ! Suc k]"
  have len: "length arr' = length arr" by (simp add: arr'_def)
  have r: "rd arr (int k + 1) = Some (arr ! Suc k)"
    using rd_nat [OF kl(2)] by (simp add: add.commute)
  have "shift_down arr (int k) (int n) = shift_down arr' (int (Suc k)) (int n)"
    using kn kl r by (subst shift_down.simps) (simp add: arr'_def add.commute)
  also have "\<dots> = Some (int n, take (Suc k) arr' @ drop (Suc (Suc k)) (take (Suc n) arr') @ drop n arr')"
    using Suc kn len by (intro Suc.hyps) auto
  also have "take (Suc k) arr' = take k arr @ [arr ! Suc k]"
    using kl by (simp add: arr'_def take_Suc_conv_app_nth)
  also have "drop (Suc (Suc k)) (take (Suc n) arr') = drop (Suc (Suc k)) (take (Suc n) arr)"
    by (simp add: arr'_def drop_take drop_update_cancel)
  also have "drop n arr' = drop n arr" using kn by (simp add: arr'_def)
  also have "(take k arr @ [arr ! Suc k]) @ drop (Suc (Suc k)) (take (Suc n) arr) @ drop n arr =
      take k arr @ drop (Suc k) (take (Suc n) arr) @ drop n arr"
    using kn Suc.prems Cons_nth_drop_Suc [of "Suc k" "take (Suc n) arr"] by simp
  finally show ?case .
qed

lemma delete_at_match_spec:
  assumes "k < n" and "n \<le> length arr"
  shows "delete_at_match cleared (int k) (int n) arr =
    Some (0, take k arr @ drop (Suc k) (take n arr) @ cleared # drop n arr)"
proof -
  obtain n' where n: "n = Suc n'" using assms by (cases n) auto
  have s: "shift_down arr (int k) (int n - 1) =
      Some (int n', take k arr @ drop (Suc k) (take n arr) @ drop n' arr)"
    using shift_down_spec [of k n' arr] assms n by simp
  have l: "length (take k arr @ drop (Suc k) (take n arr)) = n'"
    using assms n by simp
  have d: "drop n' arr = arr ! n' # drop n arr" using assms n Cons_nth_drop_Suc [of n' arr] by simp
  have "wr (take k arr @ drop (Suc k) (take n arr) @ drop n' arr) (int n') cleared =
      Some (take k arr @ drop (Suc k) (take n arr) @ cleared # drop n arr)"
    using l d list_update_length [of "take k arr @ drop (Suc k) (take n arr)"]
    by (subst wr_nat) (auto simp: n)
  then show ?thesis using s by (simp add: delete_at_match_def)
qed

lemma find_last_Some:
  assumes "n \<le> length arr" and "x \<in> set (take n arr)"
  shows "\<exists>k. find_last_from x arr 0 (int n) (- 1) = Some (int k) \<and> k < n \<and> arr ! k = x \<and>
    x \<notin> set (drop (Suc k) (take n arr))"
proof -
  obtain m where m: "find_last_from x arr 0 (int n) (- 1) = Some m"
    and c: "m = - 1 \<and> (\<forall>j. 0 \<le> j \<and> j < int n \<longrightarrow> arr ! nat j \<noteq> x) \<or>
      0 \<le> m \<and> m < int n \<and> arr ! nat m = x \<and> (\<forall>j. m < j \<and> j < int n \<longrightarrow> arr ! nat j \<noteq> x)"
    using find_last_from_spec [of 0 "int n" arr x "- 1"] assms by auto
  obtain i where i: "i < n" "arr ! i = x" using assms by (auto simp: in_set_conv_nth)
  then have k: "0 \<le> m" "m < int n" "arr ! nat m = x"
      "\<And>j. m < j \<Longrightarrow> j < int n \<Longrightarrow> arr ! nat j \<noteq> x"
    using c by (auto dest: spec [of _ "int i"])
  have "x \<notin> set (drop (Suc (nat m)) (take n arr))"
  proof
    assume "x \<in> set (drop (Suc (nat m)) (take n arr))"
    then obtain j where "j < n - Suc (nat m)" "arr ! (Suc (nat m) + j) = x"
      using assms(1) by (auto simp: in_set_conv_nth)
    moreover have "m < int (Suc (nat m) + j)" "int (Suc (nat m) + j) < int n"
      using calculation(1) k(1,2) by auto
    ultimately show False using k(4) unfolding nat_int by (metis nat_int)
  qed
  then show ?thesis using m k by (intro exI [of _ "nat m"]) auto
qed

lemma find_last_None:
  assumes "n \<le> length arr" and "x \<notin> set (take n arr)"
  shows "find_last_from x arr 0 (int n) (- 1) = Some (- 1)"
proof -
  have "arr ! nat j \<noteq> x" if "0 \<le> j" "j < int n" for j
  proof -
    have "nat j < length (take n arr)" using that assms(1) by auto
    then have "take n arr ! nat j \<in> set (take n arr)" by (rule nth_mem)
    then show ?thesis using that assms by auto
  qed
  then show ?thesis using find_last_from_spec [of 0 "int n" arr x "- 1"] assms by fastforce
qed

lemma find_delete_hit:
  assumes "n \<le> length arr" and "x \<in> set (take n arr)"
  shows "\<exists>xs ys. take n arr = xs @ x # ys \<and> x \<notin> set ys \<and>
    (find_last_from x arr 0 (int n) (- 1) \<bind> (\<lambda>m. delete_at_match cl m (int n) arr)) =
      Some (0, xs @ ys @ cl # drop n arr)"
proof -
  obtain k where k: "find_last_from x arr 0 (int n) (- 1) = Some (int k)" "k < n" "arr ! k = x"
      "x \<notin> set (drop (Suc k) (take n arr))"
    using find_last_Some [OF assms] by blast
  have "take n arr = take k arr @ x # drop (Suc k) (take n arr)"
    using k(2,3) assms(1) id_take_nth_drop [of k "take n arr"] by (simp add: min_def)
  then show ?thesis using k delete_at_match_spec [OF k(2) assms(1)] by auto
qed

lemma find_delete_miss:
  assumes "n \<le> length arr" and "x \<notin> set (take n arr)"
  shows "(find_last_from x arr 0 (int n) (- 1) \<bind> (\<lambda>m. delete_at_match cl m (int n) arr)) =
      Some (- 1, arr)"
  using find_last_None [OF assms] by (simp add: delete_at_match_def)

section \<open>The contract of the tables\<close>

locale counted_array =
  fixes del :: "'a \<Rightarrow> int \<Rightarrow> 'a list \<Rightarrow> (int \<times> 'a list) option"
    and cleared :: 'a
  assumes del_hit: "n \<le> length arr \<Longrightarrow> x \<in> set (take n arr) \<Longrightarrow>
      \<exists>xs ys. take n arr = xs @ x # ys \<and> x \<notin> set ys \<and>
        del x (int n) arr = Some (0, xs @ ys @ cleared # drop n arr)"
    and del_miss: "n \<le> length arr \<Longrightarrow> x \<notin> set (take n arr) \<Longrightarrow>
      del x (int n) arr = Some (- 1, arr)"
begin

lemma del_total: "n \<le> length arr \<Longrightarrow> \<exists>r arr'. del x (int n) arr = Some (r, arr') \<and> length arr' = length arr"
proof (cases "x \<in> set (take n arr)")
  case True
  assume n: "n \<le> length arr"
  from del_hit [OF n True] obtain xs ys where
    t: "take n arr = xs @ x # ys" "del x (int n) arr = Some (0, xs @ ys @ cleared # drop n arr)"
    by blast
  have "length (xs @ ys @ cleared # drop n arr) = length arr"
    using n arg_cong [OF t(1), of length] by simp
  then show ?thesis using t(2) by blast
qed (use del_miss in auto)

lemma del_elements:
  assumes "n \<le> length arr" and "del x (int n) arr = Some (0, arr')"
  shows "0 < n \<and> length arr' = length arr \<and> mset (take n arr) = add_mset x (mset (take (n - 1) arr')) \<and>
    arr' ! (n - 1) = cleared \<and> drop n arr' = drop n arr"
proof -
  have x: "x \<in> set (take n arr)" using assms del_miss by fastforce
  from del_hit [OF assms(1) x] assms(2) obtain xs ys where
    t: "take n arr = xs @ x # ys" and a: "arr' = xs @ ys @ cleared # drop n arr"
    by auto
  have l: "n = length xs + length ys + 1" using arg_cong [OF t, of length] assms(1) by simp
  then have "take (n - 1) arr' = xs @ ys" by (simp add: a)
  then show ?thesis using a l assms(1) t by (simp add: nth_append)
qed

lemma del_distinct:
  assumes "n \<le> length arr" and "distinct (take n arr)" and "del x (int n) arr = Some (0, arr')"
  shows "distinct (take (n - 1) arr') \<and> set (take (n - 1) arr') = set (take n arr) - {x}"
proof -
  have m: "mset (take n arr) = mset (x # take (n - 1) arr')"
    using del_elements [OF assms(1,3)] by simp
  have "distinct (x # take (n - 1) arr')" using mset_eq_imp_distinct_iff [OF m] assms(2) by blast
  then show ?thesis using mset_eq_setD [OF m] by auto
qed

end

end
