(* ===== verification/Spp_Proc.thy ===== *)
theory Spp_Proc
  imports Spp_Types Counted_Array
begin

text \<open>
  vf/common/spp_proc.c: the management data of the secondary processes - core status,
  interface, component and core tables, their initialisation, backup and lookups, and the
  string conversions of ports and MAC addresses.  The flush operations of the same file
  are in Spp_Flush, because they call the packet processing components.

  The list slaves is what RTE_LCORE_FOREACH_SLAVE of DPDK enumerates.
\<close>

section \<open>Core status\<close>

definition spp_get_core_status :: "int \<Rightarrow> 'z manage_data_scheme \<Rightarrow> spp_core_status option" where
  "spp_get_core_status lcore s = do { c \<leftarrow> rd (g_core_info s) lcore; Some (status c) }"

fun check_core_status ::
  "int list \<Rightarrow> spp_core_status \<Rightarrow> 'z manage_data_scheme \<Rightarrow> int option" where
  "check_core_status [] st s = Some SPP_RET_OK"
| "check_core_status (l # ls) st s = do {
     c \<leftarrow> rd (g_core_info s) l;
     if status c \<noteq> st then Some SPP_RET_NG else check_core_status ls st s
   }"

definition SPP_CORE_STATUS_CHECK_MAX :: nat where "SPP_CORE_STATUS_CHECK_MAX = 5"

text \<open>What the other threads do to the state while the caller sleeps for the cnt-th time is
  the argument env.\<close>

fun check_core_status_loop ::
  "(nat \<Rightarrow> 'z manage_data_scheme \<Rightarrow> 'z manage_data_scheme) \<Rightarrow> int list \<Rightarrow> spp_core_status \<Rightarrow>
   nat \<Rightarrow> nat \<Rightarrow> 'z manage_data_scheme \<Rightarrow> (int \<times> 'z manage_data_scheme) option" where
  "check_core_status_loop env slaves st cnt 0 s = Some (SPP_RET_NG, s)"
| "check_core_status_loop env slaves st cnt (Suc left) s = (let s' = env cnt s in do {
     r \<leftarrow> check_core_status slaves st s';
     if r = 0 then Some (SPP_RET_OK, s')
     else check_core_status_loop env slaves st (Suc cnt) left s'
   })"

definition check_core_status_wait ::
  "(nat \<Rightarrow> 'z manage_data_scheme \<Rightarrow> 'z manage_data_scheme) \<Rightarrow> int list \<Rightarrow> spp_core_status \<Rightarrow>
   'z manage_data_scheme \<Rightarrow> (int \<times> 'z manage_data_scheme) option" where
  "check_core_status_wait env slaves st s =
    check_core_status_loop env slaves st 0 SPP_CORE_STATUS_CHECK_MAX s"

definition set_core_status ::
  "int \<Rightarrow> spp_core_status \<Rightarrow> 'z manage_data_scheme \<Rightarrow> 'z manage_data_scheme option" where
  "set_core_status lcore st s = do {
     c \<leftarrow> rd (g_core_info s) lcore;
     cs \<leftarrow> wr (g_core_info s) lcore (c\<lparr>status := st\<rparr>);
     Some (s\<lparr>g_core_info := cs\<rparr>)
   }"

fun set_all_core_status ::
  "int list \<Rightarrow> spp_core_status \<Rightarrow> 'z manage_data_scheme \<Rightarrow> 'z manage_data_scheme option" where
  "set_all_core_status [] st s = Some s"
| "set_all_core_status (l # ls) st s = do {
     s' \<leftarrow> set_core_status l st s;
     set_all_core_status ls st s'
   }"

definition SIGINT :: int where "SIGINT = 2"
definition SIGTERM :: int where "SIGTERM = 15"

definition stop_process ::
  "int list \<Rightarrow> int \<Rightarrow> 'z manage_data_scheme \<Rightarrow> 'z manage_data_scheme option" where
  "stop_process slaves signal s =
    (if signal \<noteq> SIGTERM \<and> signal \<noteq> SIGINT then Some s
     else do {
       s' \<leftarrow> set_core_status (int (g_main_lcore_id s)) SPP_CORE_STOP_REQUEST s;
       set_all_core_status slaves SPP_CORE_STOP_REQUEST s'
     })"

section \<open>Ports\<close>

definition get_iface_info :: "port_type \<Rightarrow> int \<Rightarrow> port_ptr" where
  "get_iface_info t no =
    (case t of PHY \<Rightarrow> Some (PHY, no) | VHOST \<Rightarrow> Some (VHOST, no) | RING \<Rightarrow> Some (RING, no)
     | _ \<Rightarrow> None)"

text \<open>Reading and writing the structure behind a port pointer.\<close>

definition load_port :: "'z manage_data_scheme \<Rightarrow> port_ptr \<Rightarrow> spp_port_info option" where
  "load_port s p = do {
     (t, no) \<leftarrow> p;
     case t of
       PHY \<Rightarrow> rd (nic (g_iface_info s)) no
     | VHOST \<Rightarrow> rd (vhost (g_iface_info s)) no
     | RING \<Rightarrow> rd (ring (g_iface_info s)) no
     | _ \<Rightarrow> None
   }"

definition store_port ::
  "port_ptr \<Rightarrow> spp_port_info \<Rightarrow> 'z manage_data_scheme \<Rightarrow> 'z manage_data_scheme option" where
  "store_port p v s = do {
     (t, no) \<leftarrow> p;
     let f = g_iface_info s;
     f' \<leftarrow> (case t of
         PHY \<Rightarrow> map_option (\<lambda>ps. f\<lparr>nic := ps\<rparr>) (wr (nic f) no v)
       | VHOST \<Rightarrow> map_option (\<lambda>ps. f\<lparr>vhost := ps\<rparr>) (wr (vhost f) no v)
       | RING \<Rightarrow> map_option (\<lambda>ps. f\<lparr>ring := ps\<rparr>) (wr (ring f) no v)
       | _ \<Rightarrow> None);
     Some (s\<lparr>g_iface_info := f'\<rparr>)
   }"

section \<open>Backup\<close>

fun copy_upd_cores ::
  "int list \<Rightarrow> core_mng_info list \<Rightarrow> core_mng_info list \<Rightarrow> core_mng_info list option" where
  "copy_upd_cores [] src dst = Some dst"
| "copy_upd_cores (l # ls) src dst = do {
     sc \<leftarrow> rd src l;
     v \<leftarrow> rd (core sc) (upd_index sc);
     dc \<leftarrow> rd dst l;
     cs \<leftarrow> wr (core dc) (upd_index sc) v;
     dst' \<leftarrow> wr dst l (dc\<lparr>core := cs\<rparr>);
     copy_upd_cores ls src dst'
   }"

definition copy_mng_info ::
  "int list \<Rightarrow> cancel_backup_info \<Rightarrow> cancel_backup_info \<Rightarrow> copy_mng_flg \<Rightarrow>
   cancel_backup_info option" where
  "copy_mng_info slaves dst src flg = do {
     cs \<leftarrow> (case flg of
         COPY_MNG_FLG_UPDCOPY \<Rightarrow> copy_upd_cores slaves (bk_core src) (bk_core dst)
       | _ \<Rightarrow> Some (bk_core src));
     Some \<lparr>bk_core = cs, bk_component = bk_component src, bk_interface = bk_interface src\<rparr>
   }"

definition backup_mng_info ::
  "int list \<Rightarrow> 'z manage_data_scheme \<Rightarrow> 'z manage_data_scheme option" where
  "backup_mng_info slaves s = do {
     b \<leftarrow> copy_mng_info slaves (g_backup_info s)
            \<lparr>bk_core = g_core_info s, bk_component = g_component_info s,
             bk_interface = g_iface_info s\<rparr>
            COPY_MNG_FLG_ALLCOPY;
     Some (s\<lparr>g_backup_info := b,
             g_change_core := replicate (length (g_change_core s)) 0,
             g_change_component := replicate (length (g_change_component s)) 0\<rparr>)
   }"

section \<open>Initialisation\<close>

definition init_port :: "nat \<Rightarrow> spp_port_info" where
  "init_port port_cnt = zero_port\<lparr>iface_type := UNDEF, iface_no := int port_cnt, dpdk_port := - 1,
     class_id := zero_class_id\<lparr>vlantag := zero_vlantag\<lparr>vid := ETH_VLAN_ID_MAX\<rparr>\<rparr>\<rparr>"

definition init_iface_info :: "'z manage_data_scheme \<Rightarrow> 'z manage_data_scheme" where
  "init_iface_info s = (let f = g_iface_info s in
     s\<lparr>g_iface_info := \<lparr>num_nic = 0, num_vhost = 0, num_ring = 0,
        nic = List.map init_port [0..<length (nic f)],
        vhost = List.map init_port [0..<length (vhost f)],
        ring = List.map init_port [0..<length (ring f)]\<rparr>\<rparr>)"

definition init_component_info :: "'z manage_data_scheme \<Rightarrow> 'z manage_data_scheme" where
  "init_component_info s =
    s\<lparr>g_component_info :=
        List.map (\<lambda>cnt. (zero_component (length (nic (g_iface_info s))))\<lparr>component_id := int cnt\<rparr>)
          [0..<length (g_component_info s)],
      g_change_component := replicate (length (g_change_component s)) 0\<rparr>"

definition init_core_info ::
  "int list \<Rightarrow> 'z manage_data_scheme \<Rightarrow> 'z manage_data_scheme option" where
  "init_core_info slaves s = do {
     let n = length (g_core_info s);
     s' \<leftarrow> set_all_core_status slaves SPP_CORE_STOP
             (s\<lparr>g_core_info := replicate n (zero_core_mng n)\<rparr>);
     Some (s'\<lparr>g_core_info :=
               List.map (\<lambda>c. c\<lparr>ref_index := 0, upd_index := 1\<rparr>) (g_core_info s'),
             g_change_core := replicate (length (g_change_core s)) 0\<rparr>)
   }"

text \<open>The number of Ethernet devices that DPDK reports is the argument n_avail.\<close>

definition set_nic_interface :: "int \<Rightarrow> 'z manage_data_scheme \<Rightarrow> int \<times> 'z manage_data_scheme" where
  "set_nic_interface n_avail s =
    (let f = g_iface_info s;
         n = min n_avail (int (length (nic f)))
     in (SPP_RET_OK, s\<lparr>g_iface_info := f\<lparr>num_nic := n,
           nic := List.map (\<lambda>(i, p). if int i < n then p\<lparr>iface_type := PHY, dpdk_port := int i\<rparr> else p)
                    (List.zip [0..<length (nic f)] (nic f))\<rparr>\<rparr>))"

definition init_mng_data ::
  "int list \<Rightarrow> int \<Rightarrow> 'z manage_data_scheme \<Rightarrow> (int \<times> 'z manage_data_scheme) option" where
  "init_mng_data slaves n_avail s = do {
     s1 \<leftarrow> init_core_info slaves (init_iface_info s);
     let (ret_nic, s2) = set_nic_interface n_avail (init_component_info s1);
     if ret_nic \<noteq> SPP_RET_OK then Some (SPP_RET_NG, s2) else Some (SPP_RET_OK, s2)
   }"

section \<open>Lookups\<close>

text \<open>The indexes of the vhost interfaces whose socket files are removed.\<close>

definition del_vhost_sockfile :: "'z manage_data_scheme \<Rightarrow> spp_port_info list \<Rightarrow> nat list" where
  "del_vhost_sockfile s vh =
    (if vhost_client (g_startup_param s) \<noteq> 0 then []
     else [cnt \<leftarrow> [0..<length vh]. iface_type (vh ! cnt) \<noteq> UNDEF])"

definition spp_get_component_type :: "'z manage_data_scheme \<Rightarrow> int \<Rightarrow> spp_component_type option" where
  "spp_get_component_type s i = do { c \<leftarrow> rd (g_component_info s) i; Some (comp_type c) }"

definition spp_get_component_core :: "'z manage_data_scheme \<Rightarrow> int \<Rightarrow> int option" where
  "spp_get_component_core s i = do { c \<leftarrow> rd (g_component_info s) i; Some (lcore_id c) }"

definition get_core_info :: "'z manage_data_scheme \<Rightarrow> int \<Rightarrow> core_info option" where
  "get_core_info s lcore = do {
     c \<leftarrow> rd (g_core_info s) lcore;
     rd (core c) (ref_index c)
   }"

definition spp_check_core_update :: "'z manage_data_scheme \<Rightarrow> int \<Rightarrow> int option" where
  "spp_check_core_update s lcore = do {
     c \<leftarrow> rd (g_core_info s) lcore;
     Some (if ref_index c = upd_index c then SPP_RET_OK else SPP_RET_NG)
   }"

function scan_ports :: "port_ptr list \<Rightarrow> port_ptr \<Rightarrow> int \<Rightarrow> int \<Rightarrow> bool option" where
  "scan_ports arr p port_cnt mx =
    (if port_cnt < mx
     then do { q \<leftarrow> rd arr port_cnt; if q = p then Some True else scan_ports arr p (port_cnt + 1) mx }
     else Some False)"
  by pat_completeness auto
termination by (relation "measure (\<lambda>(_, _, cnt, mx). nat (mx - cnt))") auto

declare scan_ports.simps [simp del]

fun used_port_from :: "spp_port_rxtx \<Rightarrow> port_ptr \<Rightarrow> nat \<Rightarrow> spp_component_info list \<Rightarrow> int option" where
  "used_port_from d p cnt [] = Some SPP_RET_NG"
| "used_port_from d p cnt (c # cs) =
    (if comp_type c = SPP_COMPONENT_UNUSE then used_port_from d p (Suc cnt) cs
     else do {
       hit \<leftarrow> (if d = SPP_PORT_RXTX_RX then scan_ports (rx_ports c) p 0 (num_rx_port c)
              else if d = SPP_PORT_RXTX_TX then scan_ports (tx_ports c) p 0 (num_tx_port c)
              else Some False);
       if hit then Some (int cnt) else used_port_from d p (Suc cnt) cs
     })"

definition spp_check_used_port ::
  "'z manage_data_scheme \<Rightarrow> port_type \<Rightarrow> int \<Rightarrow> spp_port_rxtx \<Rightarrow> int option" where
  "spp_check_used_port s t no d =
    (let port = get_iface_info t no in
     if port = None then Some SPP_RET_NG
     else used_port_from d port 0 (g_component_info s))"

definition mark_change_component ::
  "int \<Rightarrow> 'z manage_data_scheme \<Rightarrow> 'z manage_data_scheme option" where
  "mark_change_component i s = do {
     ch \<leftarrow> wr (g_change_component s) i 1;
     Some (s\<lparr>g_change_component := ch\<rparr>)
   }"

definition set_component_change_port ::
  "port_ptr \<Rightarrow> spp_port_rxtx \<Rightarrow> 'z manage_data_scheme \<Rightarrow> 'z manage_data_scheme option" where
  "set_component_change_port p d s = do {
     s1 \<leftarrow> (if d = SPP_PORT_RXTX_RX \<or> d = SPP_PORT_RXTX_ALL
           then do {
             port \<leftarrow> load_port s p;
             ret \<leftarrow> spp_check_used_port s (iface_type port) (iface_no port) SPP_PORT_RXTX_RX;
             if ret \<ge> 0 then mark_change_component ret s else Some s
           }
           else Some s);
     if d = SPP_PORT_RXTX_TX \<or> d = SPP_PORT_RXTX_ALL
     then do {
       port \<leftarrow> load_port s1 p;
       ret \<leftarrow> spp_check_used_port s1 (iface_type port) (iface_no port) SPP_PORT_RXTX_TX;
       if ret \<ge> 0 then mark_change_component ret s1 else Some s1
     }
     else Some s1
   }"

text \<open>The search loops that return the first matching component or SPP_RET_NG.\<close>

definition first_component ::
  "(spp_component_info \<Rightarrow> bool) \<Rightarrow> 'z manage_data_scheme \<Rightarrow> int" where
  "first_component P s =
    (case first_index P (g_component_info s) of Some i \<Rightarrow> int i | None \<Rightarrow> SPP_RET_NG)"

definition get_free_component :: "'z manage_data_scheme \<Rightarrow> int" where
  "get_free_component s = first_component (\<lambda>c. comp_type c = SPP_COMPONENT_UNUSE) s"

definition spp_get_component_id :: "'z manage_data_scheme \<Rightarrow> string \<Rightarrow> int" where
  "spp_get_component_id s nm =
    (if nm = [] then SPP_RET_NG else first_component (\<lambda>c. nm = name c) s)"

section \<open>Counted tables\<close>

definition del_component_info :: "int \<Rightarrow> int \<Rightarrow> int list \<Rightarrow> (int \<times> int list) option" where
  "del_component_info comp_id component_num arr = do {
     match \<leftarrow> find_last_from comp_id arr 0 component_num (- 1);
     delete_at_match 0 match component_num arr
   }"

definition check_port_element :: "port_ptr \<Rightarrow> int \<Rightarrow> port_ptr list \<Rightarrow> int option" where
  "check_port_element info n arr = find_last_from info arr 0 n SPP_RET_NG"

definition get_del_port_element ::
  "port_ptr \<Rightarrow> int \<Rightarrow> port_ptr list \<Rightarrow> (int \<times> port_ptr list) option" where
  "get_del_port_element info n arr = do {
     match \<leftarrow> check_port_element info n arr;
     delete_at_match None match n arr
   }"

section \<open>Strings\<close>

definition spp_format_port_string :: "port_type \<Rightarrow> int \<Rightarrow> int \<times> string" where
  "spp_format_port_string t no =
    (case t of
       PHY \<Rightarrow> (SPP_RET_OK, ''phy'' @ '':'' @ show_int no)
     | RING \<Rightarrow> (SPP_RET_OK, ''ring'' @ '':'' @ show_int no)
     | VHOST \<Rightarrow> (SPP_RET_OK, ''vhost'' @ '':'' @ show_int no)
     | _ \<Rightarrow> (SPP_RET_NG, []))"

fun mac_tokens :: "string list \<Rightarrow> nat \<Rightarrow> 64 word \<Rightarrow> int" where
  "mac_tokens [] token_cnt ret_mac = sint ret_mac"
| "mac_tokens (tok # toks) token_cnt ret_mac =
    (if token_cnt \<ge> ETHER_ADDR_LEN then SPP_RET_NG
     else let (v, rest) = strtol 16 tok; ret_tol = to_int32 v in
       if length rest = length tok \<or> rest \<noteq> [] then sint ret_mac
       else mac_tokens toks (Suc token_cnt)
              (or ret_mac (push_bit (token_cnt * 8) (word_of_int ret_tol))))"

definition spp_change_mac_str_to_int64 :: "string \<Rightarrow> int option" where
  "spp_change_mac_str_to_int64 mac = do {
     str \<leftarrow> strcpy_buf SPP_MIN_STR_LEN mac;
     Some (mac_tokens (tokens (\<lambda>c. c = CHR '':'') str) 0 0)
   }"

section \<open>The counted tables keep their contract\<close>

interpretation core_table: counted_array del_component_info 0
  by (unfold_locales; unfold del_component_info_def; (rule find_delete_hit find_delete_miss); assumption)

interpretation port_table: counted_array get_del_port_element None
  by (unfold_locales; unfold get_del_port_element_def check_port_element_def;
      (rule find_delete_hit find_delete_miss); assumption)

text \<open>Deleting a component id from the component table of a core, a table that holds each
  id once: when the id is among the first n entries the result is SPP_RET_OK, exactly that
  id disappears from the entries in use, which stay without duplicates, the freed entry is
  cleared and the unused rest of the array stays; otherwise the result is SPP_RET_NG and
  the array is unchanged.\<close>
theorem del_component_info_correct:
  assumes "n \<le> length arr" and "distinct (take n arr)"
  shows "if c \<in> set (take n arr)
    then \<exists>arr'. del_component_info c (int n) arr = Some (SPP_RET_OK, arr') \<and>
      length arr' = length arr \<and> distinct (take (n - 1) arr') \<and>
      set (take (n - 1) arr') = set (take n arr) - {c} \<and> arr' ! (n - 1) = 0 \<and>
      drop n arr' = drop n arr
    else del_component_info c (int n) arr = Some (SPP_RET_NG, arr)"
proof (cases "c \<in> set (take n arr)")
  case True
  obtain arr' where "del_component_info c (int n) arr = Some (0, arr')"
    using core_table.del_hit [OF assms(1) True] by blast
  then show ?thesis
    using True core_table.del_elements [OF assms(1)] core_table.del_distinct [OF assms] by auto
qed (use core_table.del_miss assms in auto)

lemma del_component_info_witness:
  "\<exists>arr'. del_component_info 4 3 [7, 4, 9, 0] = Some (0, arr') \<and> set (take 2 arr') = {7, 9}"
  using del_component_info_correct [of 3 "[7, 4, 9, 0]" 4] by auto

text \<open>Deleting a port from a port table of a component, likewise: exactly the entries
  equal to that pointer lose one occurrence, the rest keeps its multiplicity, the freed
  entry becomes NULL; a port that is not registered leaves the table as it is.\<close>
theorem get_del_port_element_correct:
  assumes "n \<le> length arr"
  shows "if p \<in> set (take n arr)
    then \<exists>arr'. get_del_port_element p (int n) arr = Some (SPP_RET_OK, arr') \<and>
      length arr' = length arr \<and> mset (take n arr) = add_mset p (mset (take (n - 1) arr')) \<and>
      arr' ! (n - 1) = None \<and> drop n arr' = drop n arr
    else get_del_port_element p (int n) arr = Some (SPP_RET_NG, arr)"
proof (cases "p \<in> set (take n arr)")
  case True
  obtain arr' where "get_del_port_element p (int n) arr = Some (0, arr')"
    using port_table.del_hit [OF assms True] by blast
  then show ?thesis using True port_table.del_elements [OF assms] by auto
qed (use port_table.del_miss assms in auto)

lemma get_del_port_element_witness:
  "\<exists>arr'. get_del_port_element (Some (PHY, 1)) 2 [Some (PHY, 1), Some (RING, 0), None] =
     Some (0, arr') \<and> mset (take 1 arr') = {#Some (RING, 0)#}"
  using get_del_port_element_correct [of 2 "[Some (PHY, 1), Some (RING, 0), None]" "Some (PHY, 1)"]
  by (auto simp: add_eq_conv_ex)

section \<open>The management data invariant\<close>

text \<open>A port pointer that names a structure of the interface tables.\<close>

definition valid_ptr :: "'z manage_data_scheme \<Rightarrow> port_ptr \<Rightarrow> bool" where
  "valid_ptr s p \<longleftrightarrow> load_port s p \<noteq> None"

definition wf_component :: "'z manage_data_scheme \<Rightarrow> int \<Rightarrow> spp_component_info \<Rightarrow> bool" where
  "wf_component s i c \<longleftrightarrow>
    (comp_type c \<noteq> SPP_COMPONENT_UNUSE \<longrightarrow> component_id c = i) \<and>
    0 \<le> num_rx_port c \<and> num_rx_port c \<le> int (length (rx_ports c)) \<and>
    0 \<le> num_tx_port c \<and> num_tx_port c \<le> int (length (tx_ports c)) \<and>
    length (rx_ports c) = length (nic (g_iface_info s)) \<and>
    length (tx_ports c) = length (nic (g_iface_info s)) \<and>
    (\<forall>p\<in>set (take (nat (num_rx_port c)) (rx_ports c)). valid_ptr s p) \<and>
    (\<forall>p\<in>set (take (nat (num_tx_port c)) (tx_ports c)). valid_ptr s p)"

definition wf_core_info :: "nat \<Rightarrow> core_info \<Rightarrow> bool" where
  "wf_core_info n k \<longleftrightarrow> length (core_ids k) = n \<and> 0 \<le> num k \<and> num k \<le> int n \<and>
    (\<forall>i\<in>set (take (nat (num k)) (core_ids k)). 0 \<le> i \<and> i < int n)"

definition wf_core :: "nat \<Rightarrow> core_mng_info \<Rightarrow> bool" where
  "wf_core n c \<longleftrightarrow> length (core c) = SPP_INFO_AREA_MAX \<and>
    (ref_index c = 0 \<and> upd_index c = 1 \<or> ref_index c = 1 \<and> upd_index c = 0) \<and>
    (\<forall>k\<in>set (core c). wf_core_info n k)"

definition wf_iface :: "iface_info \<Rightarrow> bool" where
  "wf_iface f \<longleftrightarrow> length (vhost f) = length (nic f) \<and> length (ring f) = length (nic f) \<and>
    (\<forall>p\<in>set (nic f @ vhost f @ ring f). length (ability p) = SPP_PORT_ABILITY_MAX)"

definition wf_dims :: "'z manage_data_scheme \<Rightarrow> bool" where
  "wf_dims s \<longleftrightarrow> (let n = length (g_core_info s) in
    length (g_component_info s) = n \<and> length (g_change_core s) = n \<and>
    length (g_change_component s) = n) \<and>
    length (vhost (g_iface_info s)) = length (nic (g_iface_info s)) \<and>
    length (ring (g_iface_info s)) = length (nic (g_iface_info s))"

definition wf_mng :: "'z manage_data_scheme \<Rightarrow> bool" where
  "wf_mng s \<longleftrightarrow> wf_dims s \<and> wf_iface (g_iface_info s) \<and>
    (\<forall>c\<in>set (g_core_info s). wf_core (length (g_core_info s)) c) \<and>
    (\<forall>i<length (g_component_info s). wf_component s (int i) (g_component_info s ! i))"

end
