(* ===== verification/Pkt.thy ===== *)
theory Pkt
  imports Prelude
begin

text \<open>
  Packets and the services of DPDK.  A struct rte_mbuf is its buffer, the offset of the data
  in it and the length of the data; the code under src/ accesses these fields directly.  The
  functions of DPDK are arguments, collected in the record dpdk: they act on an abstract
  world 'w in which the packets live, named by numbers (the mbuf pointers).  What the
  documentation of DPDK promises about them is stated by the predicates io_laws and
  mbuf_laws, which are hypotheses of the theorems that need them.
\<close>

unbundle bit_operations_syntax

record mbuf =
  m_buf :: "8 word list"
  m_off :: nat
  m_len :: nat

record 'w dpdk =
  rte_eth_rx_burst :: "int \<Rightarrow> nat \<Rightarrow> 'w \<Rightarrow> nat list \<times> 'w"
  rte_eth_tx_burst :: "int \<Rightarrow> nat list \<Rightarrow> 'w \<Rightarrow> (nat \<times> 'w) option"
  rte_pktmbuf_free :: "nat \<Rightarrow> 'w \<Rightarrow> 'w option"
  rte_mbuf_refcnt_update :: "nat \<Rightarrow> int \<Rightarrow> 'w \<Rightarrow> 'w"
  mbuf_load :: "'w \<Rightarrow> nat \<Rightarrow> mbuf"
  mbuf_store :: "nat \<Rightarrow> mbuf \<Rightarrow> 'w \<Rightarrow> 'w"
  rte_pktmbuf_prepend :: "mbuf \<Rightarrow> nat \<Rightarrow> mbuf option"
  rte_pktmbuf_adj :: "mbuf \<Rightarrow> nat \<Rightarrow> mbuf option"
  rte_net_crc_calc :: "8 word list \<Rightarrow> 32 word"

section \<open>Documented behaviour\<close>

text \<open>held w is the multiset of packet references the application owns.  A receive burst of at
  most n packets hands over new references; a transmit burst takes over a prefix of the
  packets it is given; a free gives one reference back, and is undefined without one; the
  update of the reference counter by k > 0 adds k references.\<close>

definition io_laws :: "'w dpdk \<Rightarrow> ('w \<Rightarrow> nat multiset) \<Rightarrow> bool" where
  "io_laws D held \<longleftrightarrow>
    (\<forall>p n w. length (fst (rte_eth_rx_burst D p n w)) \<le> n \<and>
       held (snd (rte_eth_rx_burst D p n w)) = held w + mset (fst (rte_eth_rx_burst D p n w))) \<and>
    (\<forall>p ids w. mset ids \<subseteq># held w \<longrightarrow>
       (\<exists>k w'. rte_eth_tx_burst D p ids w = Some (k, w') \<and> k \<le> length ids \<and>
          held w' = held w - mset (take k ids))) \<and>
    (\<forall>i w. i \<in># held w \<longrightarrow> (\<exists>w'. rte_pktmbuf_free D i w = Some w' \<and> held w' = held w - {#i#})) \<and>
    (\<forall>i w. i \<notin># held w \<longrightarrow> rte_pktmbuf_free D i w = None) \<and>
    (\<forall>i k w. i \<in># held w \<longrightarrow>
       held (rte_mbuf_refcnt_update D i (int k) w) = held w + replicate_mset k i) \<and>
    (\<forall>i m w. held (mbuf_store D i m w) = held w)"

text \<open>rte_pktmbuf_prepend and rte_pktmbuf_adj move the start of the data inside the buffer,
  and return NULL when the headroom or the data is shorter than the move.\<close>

definition mbuf_laws :: "'w dpdk \<Rightarrow> bool" where
  "mbuf_laws D \<longleftrightarrow>
    (\<forall>m n. rte_pktmbuf_prepend D m n =
       (if n \<le> m_off m then Some (m\<lparr>m_off := m_off m - n, m_len := m_len m + n\<rparr>) else None)) \<and>
    (\<forall>m n. rte_pktmbuf_adj D m n =
       (if n \<le> m_len m then Some (m\<lparr>m_off := m_off m + n, m_len := m_len m - n\<rparr>) else None)) \<and>
    (\<forall>i m w j. mbuf_load D (mbuf_store D i m w) j = (if j = i then m else mbuf_load D w j))"

text \<open>A burst of received packets consists of distinct packets that were free before.  Packets the
  application still holds are not touched by the device; freeing a reference leaves the
  contents of the other packets alone.\<close>

definition mem_laws :: "'w dpdk \<Rightarrow> ('w \<Rightarrow> nat multiset) \<Rightarrow> bool" where
  "mem_laws D held \<longleftrightarrow>
    (\<forall>p n w. distinct (fst (rte_eth_rx_burst D p n w)) \<and>
       (\<forall>i\<in>set (fst (rte_eth_rx_burst D p n w)). i \<notin># held w) \<and>
       (\<forall>j. j \<in># held w \<longrightarrow> mbuf_load D (snd (rte_eth_rx_burst D p n w)) j = mbuf_load D w j)) \<and>
    (\<forall>p ids w k w' j. rte_eth_tx_burst D p ids w = Some (k, w') \<longrightarrow> j \<in># held w' \<longrightarrow>
       mbuf_load D w' j = mbuf_load D w j) \<and>
    (\<forall>i w w' j. rte_pktmbuf_free D i w = Some w' \<longrightarrow> j \<noteq> i \<longrightarrow> mbuf_load D w' j = mbuf_load D w j) \<and>
    (\<forall>i k w. mbuf_load D (rte_mbuf_refcnt_update D i k w) = mbuf_load D w)"

lemma mem_rx: "mem_laws D held \<Longrightarrow> rte_eth_rx_burst D p n w = (ids, w') \<Longrightarrow>
    distinct ids \<and> (\<forall>i\<in>set ids. i \<notin># held w) \<and>
    (\<forall>j. j \<in># held w \<longrightarrow> mbuf_load D w' j = mbuf_load D w j)"
  unfolding mem_laws_def by (metis fst_conv snd_conv)

lemma mem_tx: "mem_laws D held \<Longrightarrow> rte_eth_tx_burst D p ids w = Some (k, w') \<Longrightarrow> j \<in># held w' \<Longrightarrow>
    mbuf_load D w' j = mbuf_load D w j"
  unfolding mem_laws_def by blast

lemma mem_free: "mem_laws D held \<Longrightarrow> rte_pktmbuf_free D i w = Some w' \<Longrightarrow> j \<noteq> i \<Longrightarrow>
    mbuf_load D w' j = mbuf_load D w j"
  unfolding mem_laws_def by blast

lemma mem_refcnt: "mem_laws D held \<Longrightarrow> mbuf_load D (rte_mbuf_refcnt_update D i k w) = mbuf_load D w"
  unfolding mem_laws_def by blast

lemma io_rx: "io_laws D held \<Longrightarrow> rte_eth_rx_burst D p n w = (ids, w') \<Longrightarrow>
    length ids \<le> n \<and> held w' = held w + mset ids"
  unfolding io_laws_def by (metis fst_conv snd_conv)

lemma io_tx: "io_laws D held \<Longrightarrow> mset ids \<subseteq># held w \<Longrightarrow>
    \<exists>k w'. rte_eth_tx_burst D p ids w = Some (k, w') \<and> k \<le> length ids \<and>
      held w' = held w - mset (take k ids)"
  unfolding io_laws_def by blast

lemma io_free: "io_laws D held \<Longrightarrow> i \<in># held w \<Longrightarrow>
    \<exists>w'. rte_pktmbuf_free D i w = Some w' \<and> held w' = held w - {#i#}"
  unfolding io_laws_def by blast

lemma io_free_not_held: "io_laws D held \<Longrightarrow> i \<notin># held w \<Longrightarrow> rte_pktmbuf_free D i w = None"
  unfolding io_laws_def by blast

lemma io_refcnt: "io_laws D held \<Longrightarrow> i \<in># held w \<Longrightarrow>
    held (rte_mbuf_refcnt_update D i (int k) w) = held w + replicate_mset k i"
  unfolding io_laws_def by blast

lemma io_store: "io_laws D held \<Longrightarrow> held (mbuf_store D i m w) = held w"
  unfolding io_laws_def by blast

lemma mbuf_prepend: "mbuf_laws D \<Longrightarrow> rte_pktmbuf_prepend D m n =
    (if n \<le> m_off m then Some (m\<lparr>m_off := m_off m - n, m_len := m_len m + n\<rparr>) else None)"
  unfolding mbuf_laws_def by blast

lemma mbuf_adj: "mbuf_laws D \<Longrightarrow> rte_pktmbuf_adj D m n =
    (if n \<le> m_len m then Some (m\<lparr>m_off := m_off m + n, m_len := m_len m - n\<rparr>) else None)"
  unfolding mbuf_laws_def by blast

lemma mbuf_load_store: "mbuf_laws D \<Longrightarrow>
    mbuf_load D (mbuf_store D i m w) j = (if j = i then m else mbuf_load D w j)"
  unfolding mbuf_laws_def by blast

section \<open>Memory of a packet\<close>

text \<open>Reading and writing bytes at an offset from the start of the data; None outside of the
  buffer.  Numbers are in the byte order of a little-endian processor.\<close>

definition load_bytes :: "mbuf \<Rightarrow> nat \<Rightarrow> nat \<Rightarrow> 8 word list option" where
  "load_bytes m off n =
    (if m_off m + off + n \<le> length (m_buf m) then Some (take n (drop (m_off m + off) (m_buf m))) else None)"

definition store_bytes :: "mbuf \<Rightarrow> nat \<Rightarrow> 8 word list \<Rightarrow> mbuf option" where
  "store_bytes m off bs =
    (let a = m_off m + off in
     if a + length bs \<le> length (m_buf m)
     then Some (m\<lparr>m_buf := take a (m_buf m) @ bs @ drop (a + length bs) (m_buf m)\<rparr>) else None)"

fun le_word :: "8 word list \<Rightarrow> 'a::len word" where
  "le_word [] = 0"
| "le_word (b # bs) = ucast b OR push_bit 8 (le_word bs)"

definition le_bytes16 :: "16 word \<Rightarrow> 8 word list" where
  "le_bytes16 w = [ucast w, ucast (drop_bit 8 w)]"

definition le_bytes32 :: "32 word \<Rightarrow> 8 word list" where
  "le_bytes32 w = [ucast w, ucast (drop_bit 8 w), ucast (drop_bit 16 w), ucast (drop_bit 24 w)]"

definition load16 :: "mbuf \<Rightarrow> nat \<Rightarrow> 16 word option" where
  "load16 m off = map_option le_word (load_bytes m off 2)"

definition store16 :: "mbuf \<Rightarrow> nat \<Rightarrow> 16 word \<Rightarrow> mbuf option" where
  "store16 m off w = store_bytes m off (le_bytes16 w)"

text \<open>The byte swap of rte_cpu_to_be_16.\<close>

definition cpu_to_be_16 :: "16 word \<Rightarrow> 16 word" where
  "cpu_to_be_16 w = push_bit 8 w OR drop_bit 8 w"

text \<open>The data of a packet.\<close>

definition frame :: "mbuf \<Rightarrow> 8 word list" where
  "frame m = take (m_len m) (drop (m_off m) (m_buf m))"

section \<open>A simulated device\<close>

text \<open>A concrete instance of the DPDK services: receive queues, the packets, the references
  held and the packets accepted by the transmit functions; the witnesses of the theorems
  about packet processing run on it.\<close>

record sim =
  s_rxq :: "(int \<times> nat list) list"
  s_mem :: "nat \<Rightarrow> mbuf"
  s_held :: "nat multiset"
  s_sent :: "(int \<times> nat) list"
  s_txcap :: nat

definition sim_rx :: "int \<Rightarrow> nat \<Rightarrow> sim \<Rightarrow> nat list \<times> sim" where
  "sim_rx p n w =
    (let ids = take n (remdups [i \<leftarrow> concat [q. (p', q) \<leftarrow> s_rxq w, p' = p]. i \<notin># s_held w]) in
     (ids, w\<lparr>s_rxq := [x \<leftarrow> s_rxq w. fst x \<noteq> p], s_held := s_held w + mset ids\<rparr>))"

definition sim_tx :: "int \<Rightarrow> nat list \<Rightarrow> sim \<Rightarrow> (nat \<times> sim) option" where
  "sim_tx p ids w =
    (if mset ids \<subseteq># s_held w
     then let k = min (s_txcap w) (length ids) in
       Some (k, w\<lparr>s_held := s_held w - mset (take k ids),
                  s_sent := s_sent w @ List.map (Pair p) (take k ids)\<rparr>)
     else None)"

definition sim_dpdk :: "sim dpdk" where
  "sim_dpdk = \<lparr>
     rte_eth_rx_burst = sim_rx,
     rte_eth_tx_burst = sim_tx,
     rte_pktmbuf_free = (\<lambda>i w. if i \<in># s_held w then Some (w\<lparr>s_held := s_held w - {#i#}\<rparr>) else None),
     rte_mbuf_refcnt_update = (\<lambda>i k w. w\<lparr>s_held := s_held w + replicate_mset (nat k) i\<rparr>),
     mbuf_load = s_mem,
     mbuf_store = (\<lambda>i m w. w\<lparr>s_mem := (s_mem w)(i := m)\<rparr>),
     rte_pktmbuf_prepend = (\<lambda>m n. if n \<le> m_off m
        then Some (m\<lparr>m_off := m_off m - n, m_len := m_len m + n\<rparr>) else None),
     rte_pktmbuf_adj = (\<lambda>m n. if n \<le> m_len m
        then Some (m\<lparr>m_off := m_off m + n, m_len := m_len m - n\<rparr>) else None),
     rte_net_crc_calc = (\<lambda>bs. le_word (take 4 bs))\<rparr>"

lemma sim_io_laws: "io_laws sim_dpdk s_held"
  by (auto simp: io_laws_def sim_dpdk_def sim_rx_def sim_tx_def Let_def)

lemma sim_mem_laws: "mem_laws sim_dpdk s_held"
  by (auto simp: mem_laws_def sim_dpdk_def sim_rx_def sim_tx_def Let_def distinct_take
      split: if_splits dest!: in_set_takeD)

lemma sim_mbuf_laws: "mbuf_laws sim_dpdk"
  by (simp add: mbuf_laws_def sim_dpdk_def)

section \<open>Lemmas\<close>

lemma store_bytes_frame:
  assumes "off + length bs \<le> m_len m" and "m_off m + m_len m \<le> length (m_buf m)"
  shows "\<exists>m'. store_bytes m off bs = Some m' \<and> m_off m' = m_off m \<and> m_len m' = m_len m \<and>
    length (m_buf m') = length (m_buf m) \<and>
    frame m' = take off (frame m) @ bs @ drop (off + length bs) (frame m)"
proof -
  let ?m = "m\<lparr>m_buf := take (m_off m + off) (m_buf m) @ bs @ drop (m_off m + off + length bs) (m_buf m)\<rparr>"
  have 1: "store_bytes m off bs = Some ?m" using assms by (simp add: store_bytes_def Let_def)
  define d where "d = drop (m_off m) (m_buf m)"
  have ld: "m_len m \<le> length d" using assms(2) by (simp add: d_def)
  have "drop (m_off m) (m_buf ?m) = take off d @ bs @ drop (off + length bs) d"
    using assms by (simp add: d_def drop_take add.commute add.left_commute)
  then have "frame ?m = take off d @ bs @ take (m_len m - (off + length bs)) (drop (off + length bs) d)"
    using assms(1) ld by (simp add: frame_def)
  moreover have "take off (frame m) = take off d" using assms(1) by (simp add: frame_def d_def min_def)
  moreover have "drop (off + length bs) (frame m) =
      take (m_len m - (off + length bs)) (drop (off + length bs) d)"
    by (simp add: frame_def d_def drop_take)
  ultimately have "frame ?m = take off (frame m) @ bs @ drop (off + length bs) (frame m)" by simp
  then show ?thesis using 1 assms by auto
qed

lemma load_bytes_frame:
  assumes "off + n \<le> m_len m" and "m_off m + m_len m \<le> length (m_buf m)"
  shows "load_bytes m off n = Some (take n (drop off (frame m)))"
  using assms by (simp add: load_bytes_def frame_def drop_take min_def add.commute)

lemma bit_byte_high [simp]: "\<not> bit (a :: 8 word) (8 + n)"
  using bit_imp_le_length [of a "8 + n"] by auto

lemma le_bytes16_le_word: "le_bytes16 (le_word [a, b]) = [a, b]"
  unfolding le_bytes16_def le_word.simps
  by (auto intro!: bit_word_eqI simp: bit_simps)

lemma le_word_le_bytes16: "le_word (le_bytes16 w) = w"
  unfolding le_bytes16_def le_word.simps
  by (auto intro!: bit_word_eqI simp: bit_simps)

lemma le_word16_eq_iff: "(le_word [a, b] :: 16 word) = w \<longleftrightarrow> [a, b] = le_bytes16 w"
  by (metis le_bytes16_le_word le_word_le_bytes16)

lemma length_le_bytes [simp]: "length (le_bytes16 w) = 2" "length (le_bytes32 v) = 4"
  by (simp_all add: le_bytes16_def le_bytes32_def)

text \<open>Bytes behind the data do not belong to the frame.\<close>

lemma store_bytes_behind:
  assumes "m_len m \<le> off" and "m_off m + off + length bs \<le> length (m_buf m)"
  shows "\<exists>m'. store_bytes m off bs = Some m' \<and> m_off m' = m_off m \<and> m_len m' = m_len m \<and>
    length (m_buf m') = length (m_buf m) \<and> frame m' = frame m"
  using assms by (auto simp: store_bytes_def Let_def frame_def drop_take min_def)

end
