(* ===== verification/Double_Buffer.thy ===== *)
theory Double_Buffer
  imports Spp_Types
begin

text \<open>
  The index flip that hands configuration from the main thread to the worker threads
  without a lock.  It is used for the core tables (vf/common/spp_proc.c, vf/spp_vf.c), the
  forwarder paths (vf/spp_forward.c), the classifier tables (vf/classifier_mac.c) and the
  port abilities (vf/common/spp_port.c): two areas, an index ref_index that the workers read
  and an index upd_index that the main thread fills; the main thread publishes by setting
  upd_index to ref_index and waits; the worker sees the equal indexes, moves ref_index to the
  other area, and from then on reads there.

  The locale double_buffer states the contract one instance of the pattern keeps; the
  inductive relation flip_step is the protocol between the two threads, instruction by
  instruction.
\<close>

section \<open>The operations of one double buffer\<close>

definition flip_index :: "int \<Rightarrow> int" where
  "flip_index upd = (upd + 1) mod int SPP_INFO_AREA_MAX"

definition other_area :: "int \<Rightarrow> int \<Rightarrow> bool" where
  "other_area r u \<longleftrightarrow> r = 0 \<and> u = 1 \<or> r = 1 \<and> u = 0"

lemma other_area_flip: "other_area r u \<Longrightarrow> flip_index r = u"
  by (auto simp: other_area_def flip_index_def SPP_INFO_AREA_MAX_def)

lemma other_area_sym: "other_area r u \<Longrightarrow> other_area u r"
  by (auto simp: other_area_def)

lemma other_area_neq: "other_area r u \<Longrightarrow> r \<noteq> u"
  by (auto simp: other_area_def)

locale double_buffer =
  fixes ref upd :: "'s \<Rightarrow> int"
    and area :: "'s \<Rightarrow> 'a list"
    and put :: "'a \<Rightarrow> 's \<Rightarrow> 's"
    and publish flip :: "'s \<Rightarrow> 's"
  assumes put_area: "other_area (ref s) (upd s) \<Longrightarrow> length (area s) = SPP_INFO_AREA_MAX \<Longrightarrow>
      ref (put x s) = ref s \<and> upd (put x s) = upd s \<and> area (put x s) = (area s)[nat (upd s) := x]"
    and publish_upd: "ref (publish s) = ref s \<and> upd (publish s) = ref s \<and> area (publish s) = area s"
    and flip_ref: "ref s = upd s \<or> other_area (ref s) (upd s) \<Longrightarrow>
      upd (flip s) = upd s \<and> area (flip s) = area s \<and>
      ref (flip s) = (if ref s = upd s then flip_index (upd s) else ref s)"
begin

definition settled :: "'s \<Rightarrow> bool" where
  "settled s \<longleftrightarrow> other_area (ref s) (upd s) \<and> length (area s) = SPP_INFO_AREA_MAX"

definition in_use :: "'s \<Rightarrow> 'a" where
  "in_use s = area s ! nat (ref s)"

lemma put_settled: "settled s \<Longrightarrow> settled (put x s)"
  using put_area [of s x] by (auto simp: settled_def)

text \<open>Filling and publishing do not change what the workers read.\<close>

lemma put_in_use: "settled s \<Longrightarrow> in_use (put x s) = in_use s"
  using put_area [of s x]
  by (auto simp: settled_def in_use_def other_area_def)

lemma publish_in_use: "in_use (publish s) = in_use s"
  using publish_upd [of s] by (simp add: in_use_def)

lemma publish_pending: "ref (publish s) = upd (publish s)"
  using publish_upd [of s] by simp

lemma flip_settled_id: "settled s \<Longrightarrow> ref (flip s) = ref s \<and> in_use (flip s) = in_use s"
  using flip_ref [of s] by (auto simp: settled_def in_use_def other_area_def)

text \<open>After the flip the workers read the area that was filled, and the main thread is left
  with the area that was in use before.\<close>

lemma flip_publish_put:
  assumes "settled s"
  shows "settled (flip (publish (put x s)))"
    and "in_use (flip (publish (put x s))) = x"
    and "area (flip (publish (put x s))) ! nat (upd (flip (publish (put x s)))) = in_use s"
proof -
  define t where "t = publish (put x s)"
  have t: "ref t = ref s" "upd t = ref s" "area t = (area s)[nat (upd s) := x]"
    using put_area [of s x] publish_upd [of "put x s"] assms by (auto simp: settled_def t_def)
  have o: "other_area (ref s) (upd s)" and l: "length (area s) = 2"
    using assms by (auto simp: settled_def SPP_INFO_AREA_MAX_def)
  have f: "ref (flip t) = upd s" "upd (flip t) = ref s" "area (flip t) = area t"
    using flip_ref [of t] t other_area_flip [OF o] by auto
  show "settled (flip (publish (put x s)))" unfolding t_def [symmetric]
    using f t o l other_area_sym by (auto simp: settled_def SPP_INFO_AREA_MAX_def)
  show "in_use (flip (publish (put x s))) = x" unfolding t_def [symmetric] in_use_def
    using f t o l by (auto simp: other_area_def)
  show "area (flip (publish (put x s))) ! nat (upd (flip (publish (put x s)))) = in_use s"
    unfolding t_def [symmetric] using f t o l by (auto simp: in_use_def other_area_def)
qed

end

text \<open>A table of double buffers, one for every component, inside the state of the process: look e
  is what a worker does before it serves component e.  While only buffer i is published, a look
  at another component changes nothing, and a look at i ends the wait of the main thread.\<close>

locale buffer_table = double_buffer +
  fixes table :: "'t \<Rightarrow> 'a list"
    and set_table :: "'a list \<Rightarrow> 't \<Rightarrow> 't"
    and look :: "int \<Rightarrow> 't \<Rightarrow> 't option"
    and calm :: "'t \<Rightarrow> bool"
  assumes table_set: "table (set_table l t) = l"
    and look_table: "calm t \<Longrightarrow> rd (table t) e = Some b \<Longrightarrow>
      look e t = Some (if ref b = upd b then set_table ((table t)[nat e := flip b]) t else t)"
begin

definition waiting :: "int \<Rightarrow> 't \<Rightarrow> bool option" where
  "waiting i t = do { b \<leftarrow> rd (table t) i; Some (ref b = upd b) }"

lemma wait_for_look:
  assumes "calm t" and b: "rd (table t) i = Some b" and pend: "ref b = upd b" "ref b \<in> {0, 1}"
    and oth: "\<forall>e x. rd (table t) e = Some x \<longrightarrow> e \<noteq> i \<longrightarrow> ref x \<noteq> upd x"
    and sched: "i \<in> set sched" "\<forall>e\<in>set sched. rd (table t) e \<noteq> None"
  shows "\<exists>sched'. wait_while (waiting i) look sched t =
    Some (sched', set_table ((table t)[nat i := flip b]) t)"
proof (rule wait_while_one [OF _ _ _ sched(1)])
  let ?t = "set_table ((table t)[nat i := flip b]) t"
  show "waiting i t = Some True" using b pend by (simp add: waiting_def)
  show "look i t = Some ?t" using look_table [OF assms(1) b] pend by simp
  have "ref (flip b) \<noteq> upd (flip b)"
    using flip_ref [of b] pend by (auto simp: flip_index_def SPP_INFO_AREA_MAX_def)
  moreover have "rd (table ?t) i = Some (flip b)"
    using b by (auto simp: table_set rd_Some_iff intro!: nth_list_update_eq)
  ultimately show "waiting i ?t = Some False" by (simp add: waiting_def)
  show "\<forall>e\<in>set sched. e \<noteq> i \<longrightarrow> look e t = Some t"
  proof (intro ballI impI)
    fix e assume e: "e \<in> set sched" "e \<noteq> i"
    then obtain x where x: "rd (table t) e = Some x" using sched(2) by auto
    then show "look e t = Some t" using oth e(2) look_table [OF assms(1) x] by simp
  qed
qed

end

section \<open>The protocol between the threads\<close>

text \<open>The main thread is filling the update area, or it has published it and spins; a worker
  looks at the indexes, moves ref_index, or reads the area it found there.\<close>

datatype main_pc = Filling | Spinning

datatype worker_pc = Looking | Flipping | Reading int

record flip_state =
  f_ref :: int
  f_upd :: int
  f_main :: main_pc
  f_worker :: worker_pc

definition flip_init :: flip_state where
  "flip_init = \<lparr>f_ref = 0, f_upd = 1, f_main = Filling, f_worker = Looking\<rparr>"

inductive flip_step :: "flip_state \<Rightarrow> flip_state \<Rightarrow> bool" where
  publish: "f_main s = Filling \<Longrightarrow> flip_step s (s\<lparr>f_upd := f_ref s, f_main := Spinning\<rparr>)"
| resume: "f_main s = Spinning \<Longrightarrow> f_ref s \<noteq> f_upd s \<Longrightarrow> flip_step s (s\<lparr>f_main := Filling\<rparr>)"
| look_equal: "f_worker s = Looking \<Longrightarrow> f_ref s = f_upd s \<Longrightarrow> flip_step s (s\<lparr>f_worker := Flipping\<rparr>)"
| look_other: "f_worker s = Looking \<Longrightarrow> f_ref s \<noteq> f_upd s \<Longrightarrow>
    flip_step s (s\<lparr>f_worker := Reading (f_ref s)\<rparr>)"
| flip: "f_worker s = Flipping \<Longrightarrow>
    flip_step s (s\<lparr>f_ref := flip_index (f_upd s), f_worker := Reading (flip_index (f_upd s))\<rparr>)"
| finish: "f_worker s = Reading i \<Longrightarrow> flip_step s (s\<lparr>f_worker := Looking\<rparr>)"

inductive flip_reach :: "flip_state \<Rightarrow> bool" where
  start: "flip_reach flip_init"
| step: "flip_reach s \<Longrightarrow> flip_step s t \<Longrightarrow> flip_reach t"

inductive_cases flip_stepE: "flip_step s t"

text \<open>The main thread fills only when the indexes differ; a worker that is about to flip has
  the main thread waiting for it; a worker reads the area of ref_index.\<close>

definition flip_inv :: "flip_state \<Rightarrow> bool" where
  "flip_inv s \<longleftrightarrow>
    (f_ref s = f_upd s \<and> (f_ref s = 0 \<or> f_ref s = 1) \<or> other_area (f_ref s) (f_upd s)) \<and>
    (f_main s = Filling \<longrightarrow> f_ref s \<noteq> f_upd s) \<and>
    (f_worker s = Flipping \<longrightarrow> f_main s = Spinning \<and> f_ref s = f_upd s) \<and>
    (\<forall>i. f_worker s = Reading i \<longrightarrow> i = f_ref s)"

lemma flip_index_01: "flip_index 0 = 1" "flip_index 1 = 0"
  by (simp_all add: flip_index_def SPP_INFO_AREA_MAX_def)

lemma not_Filling [simp]: "m \<noteq> Filling \<longleftrightarrow> m = Spinning"
  by (cases m) simp_all

lemma flip_inv_step: "flip_step s t \<Longrightarrow> flip_inv s \<Longrightarrow> flip_inv t"
  by (erule flip_stepE) (auto simp: flip_inv_def other_area_def flip_index_01)

lemma flip_inv_reach: "flip_reach s \<Longrightarrow> flip_inv s"
proof (induction rule: flip_reach.induct)
  case start
  show ?case by (simp add: flip_inv_def flip_init_def other_area_def)
next
  case (step s t)
  then show ?case using flip_inv_step by blast
qed

text \<open>C6: In every reachable state of the index flip protocol, under every interleaving of the
  main thread with the worker, the area the worker reads is not the area the main thread
  fills, and both indexes stay inside the two areas.\<close>
theorem flip_no_torn_read:
  assumes "flip_reach s"
  shows "(f_main s = Filling \<and> f_worker s = Reading i \<longrightarrow> i \<noteq> f_upd s) \<and>
    f_ref s \<in> {0, 1} \<and> f_upd s \<in> {0, 1}"
  using flip_inv_reach [OF assms] by (auto simp: flip_inv_def other_area_def)

lemma flip_no_torn_read_witness:
  "\<exists>s. flip_reach s \<and> f_main s = Filling \<and> f_worker s = Reading 1 \<and> (1::int) \<noteq> f_upd s"
proof -
  define s1 where "s1 = flip_init\<lparr>f_upd := 0, f_main := Spinning\<rparr>"
  define s2 where "s2 = s1\<lparr>f_worker := Flipping\<rparr>"
  define s3 where "s3 = s2\<lparr>f_ref := 1, f_worker := Reading 1\<rparr>"
  define s4 where "s4 = s3\<lparr>f_main := Filling\<rparr>"
  have "flip_step flip_init s1"
    using flip_step.publish [of flip_init] by (simp add: s1_def flip_init_def)
  moreover have "flip_step s1 s2"
    using flip_step.look_equal [of s1] by (simp add: s1_def s2_def flip_init_def)
  moreover have "flip_step s2 s3"
    using flip_step.flip [of s2] by (simp add: s1_def s2_def s3_def flip_init_def flip_index_01)
  moreover have "flip_step s3 s4"
    using flip_step.resume [of s3] by (simp add: s1_def s2_def s3_def s4_def flip_init_def)
  ultimately have r: "flip_reach s4" by (meson flip_reach.intros)
  show ?thesis
    using flip_no_torn_read [OF r, of 1] r
    by (intro exI [of _ s4]) (simp add: s1_def s2_def s3_def s4_def flip_init_def)
qed

end
