(* ===== verification/Spp_Port.thy ===== *)
theory Spp_Port
  imports Spp_Proc Pkt Double_Buffer
begin

text \<open>
  vf/common/spp_port.c: the port abilities, VLAN tagging and untagging of packets at the
  ports, the double-buffered table of abilities of each DPDK port, and the receive and
  transmit wrappers that apply them.  The state of the file extends the management data:
  the table g_port_mng_info, the tag protocol identifier g_vlan_tpid, and the static lists
  of ports whose index is still to be changed.
\<close>

unbundle bit_operations_syntax

record port_ability_mng_info =
  pa_ref_index :: int
  pa_upd_index :: int
  pa_ability :: "spp_port_ability list list"

record port_ability_port_mng_info =
  pm_iface_type :: port_type
  pm_iface_no :: int
  pm_rx :: port_ability_mng_info
  pm_tx :: port_ability_mng_info

record port_data = manage_data +
  g_vlan_tpid :: "16 word"
  g_port_mng_info :: "port_ability_port_mng_info list"
  chg_num_rx :: int
  chg_rx_list :: "int list"
  chg_num_tx :: int
  chg_tx_list :: "int list"

text \<open>The EtherType of a VLAN tag (DPDK) and the tag control information.\<close>

definition ETHER_TYPE_VLAN :: "16 word" where "ETHER_TYPE_VLAN = 0x8100"

definition SPP_VLANTAG_CALC_TCI :: "int \<Rightarrow> int \<Rightarrow> int" where
  "SPP_VLANTAG_CALC_TCI vi pc = (push_bit 13 (pc AND 0x07)) OR (vi AND 0x0fff)"

section \<open>The ability tables\<close>

definition zero_ability_mng :: port_ability_mng_info where
  "zero_ability_mng = \<lparr>pa_ref_index = 0, pa_upd_index = 0,
     pa_ability = replicate SPP_INFO_AREA_MAX (replicate SPP_PORT_ABILITY_MAX zero_ability)\<rparr>"

definition spp_port_ability_init :: "'z port_data_scheme \<Rightarrow> 'z port_data_scheme" where
  "spp_port_ability_init s =
    (let mng = zero_ability_mng\<lparr>pa_ref_index := 0, pa_upd_index := 1\<rparr> in
     s\<lparr>g_vlan_tpid := cpu_to_be_16 ETHER_TYPE_VLAN,
       g_port_mng_info := replicate (length (g_port_mng_info s))
         \<lparr>pm_iface_type = PHY, pm_iface_no = 0, pm_rx = mng, pm_tx = mng\<rparr>\<rparr>)"

text \<open>The management structure of one direction of a port; a direction other than RX and TX
  leaves the pointer NULL in the code.\<close>

definition ability_mng ::
  "'z port_data_scheme \<Rightarrow> int \<Rightarrow> spp_port_rxtx \<Rightarrow> port_ability_mng_info option" where
  "ability_mng s port_id d = do {
     pm \<leftarrow> rd (g_port_mng_info s) port_id;
     case d of SPP_PORT_RXTX_RX \<Rightarrow> Some (pm_rx pm) | SPP_PORT_RXTX_TX \<Rightarrow> Some (pm_tx pm) | _ \<Rightarrow> None
   }"

definition set_ability_mng ::
  "int \<Rightarrow> spp_port_rxtx \<Rightarrow> port_ability_mng_info \<Rightarrow> 'z port_data_scheme \<Rightarrow>
   'z port_data_scheme option" where
  "set_ability_mng port_id d mng s = do {
     pm \<leftarrow> rd (g_port_mng_info s) port_id;
     pm' \<leftarrow> (case d of SPP_PORT_RXTX_RX \<Rightarrow> Some (pm\<lparr>pm_rx := mng\<rparr>)
            | SPP_PORT_RXTX_TX \<Rightarrow> Some (pm\<lparr>pm_tx := mng\<rparr>) | _ \<Rightarrow> None);
     pms \<leftarrow> wr (g_port_mng_info s) port_id pm';
     Some (s\<lparr>g_port_mng_info := pms\<rparr>)
   }"

definition spp_port_ability_get_info ::
  "'z port_data_scheme \<Rightarrow> int \<Rightarrow> spp_port_rxtx \<Rightarrow> spp_port_ability list option" where
  "spp_port_ability_get_info s port_id d = do {
     mng \<leftarrow> ability_mng s port_id d;
     rd (pa_ability mng) (pa_ref_index mng)
   }"

section \<open>VLAN tags\<close>

definition set_fcs_packet :: "'w dpdk \<Rightarrow> mbuf \<Rightarrow> mbuf option" where
  "set_fcs_packet D m = store_bytes m (m_len m) (le_bytes32 (rte_net_crc_calc D (frame m)))"

text \<open>The copy of the Ethernet header goes to an overlapping area; the header is read before
  it is written.\<close>

definition add_vlantag_packet ::
  "'w dpdk \<Rightarrow> 16 word \<Rightarrow> mbuf \<Rightarrow> spp_vlantag_info \<Rightarrow> (int \<times> mbuf) option" where
  "add_vlantag_packet D tpid m tag = do {
     ether_type \<leftarrow> load16 m 12;
     if ether_type = tpid
     then do {
       m1 \<leftarrow> store16 m 14 (word_of_int (tci tag));
       m2 \<leftarrow> set_fcs_packet D m1;
       Some (SPP_RET_OK, m2)
     }
     else case rte_pktmbuf_prepend D m 4 of
       None \<Rightarrow> Some (SPP_RET_NG, m)
     | Some m' \<Rightarrow> do {
         old_ether \<leftarrow> load_bytes m 0 14;
         m1 \<leftarrow> store_bytes m' 0 old_ether;
         et \<leftarrow> load16 m1 12;
         m2 \<leftarrow> store16 m1 16 et;
         m3 \<leftarrow> store16 m2 12 tpid;
         m4 \<leftarrow> store16 m3 14 (word_of_int (tci tag));
         m5 \<leftarrow> set_fcs_packet D m4;
         Some (SPP_RET_OK, m5)
       }
   }"

text \<open>new[2] = old[2]; new[1] = old[1]; new[0] = old[0]; old[0] = 0 on 32-bit words, where new
  is four bytes behind old.\<close>

definition copy_word :: "mbuf \<Rightarrow> nat \<Rightarrow> nat \<Rightarrow> mbuf option" where
  "copy_word m from to = do {
     bs \<leftarrow> load_bytes m from 4;
     store_bytes m to bs
   }"

definition del_vlantag_packet ::
  "'w dpdk \<Rightarrow> 16 word \<Rightarrow> mbuf \<Rightarrow> spp_vlantag_info \<Rightarrow> (int \<times> mbuf) option" where
  "del_vlantag_packet D tpid m tag = do {
     ether_type \<leftarrow> load16 m 12;
     if ether_type = tpid
     then case rte_pktmbuf_adj D m 4 of
       None \<Rightarrow> Some (SPP_RET_NG, m)
     | Some m' \<Rightarrow> do {
         m1 \<leftarrow> copy_word m 8 12;
         m2 \<leftarrow> copy_word m1 4 8;
         m3 \<leftarrow> copy_word m2 0 4;
         m4 \<leftarrow> store_bytes m3 0 [0, 0, 0, 0];
         m5 \<leftarrow> set_fcs_packet D (m4\<lparr>m_off := m_off m', m_len := m_len m'\<rparr>);
         Some (SPP_RET_OK, m5)
       }
     else Some (SPP_RET_OK, m)
   }"

text \<open>The loops over a burst stop at the first failure and return its position.\<close>

fun vlantag_all_packets ::
  "(mbuf \<Rightarrow> (int \<times> mbuf) option) \<Rightarrow> 'w dpdk \<Rightarrow> nat list \<Rightarrow> nat \<Rightarrow> 'w \<Rightarrow> (nat \<times> 'w) option" where
  "vlantag_all_packets f D [] cnt w = Some (cnt, w)"
| "vlantag_all_packets f D (i # ids) cnt w = do {
     (ret, m) \<leftarrow> f (mbuf_load D w i);
     let w' = mbuf_store D i m w;
     if ret < 0 then Some (cnt, w') else vlantag_all_packets f D ids (Suc cnt) w'
   }"

definition add_vlantag_all_packets ::
  "'w dpdk \<Rightarrow> 16 word \<Rightarrow> nat list \<Rightarrow> spp_vlantag_info \<Rightarrow> 'w \<Rightarrow> (nat \<times> 'w) option" where
  "add_vlantag_all_packets D tpid pkts tag w =
    vlantag_all_packets (\<lambda>m. add_vlantag_packet D tpid m tag) D pkts 0 w"

definition del_vlantag_all_packets ::
  "'w dpdk \<Rightarrow> 16 word \<Rightarrow> nat list \<Rightarrow> spp_vlantag_info \<Rightarrow> 'w \<Rightarrow> (nat \<times> 'w) option" where
  "del_vlantag_all_packets D tpid pkts tag w =
    vlantag_all_packets (\<lambda>m. del_vlantag_packet D tpid m tag) D pkts 0 w"

section \<open>Changing the index\<close>

datatype port_ability_chg_index_type = PORT_ABILITY_CHG_INDEX_REF | PORT_ABILITY_CHG_INDEX_UPD

definition chg_index_upd ::
  "int \<Rightarrow> spp_port_rxtx \<Rightarrow> 'z port_data_scheme \<Rightarrow> 'z port_data_scheme option" where
  "chg_index_upd port_id d s =
    (case d of
       SPP_PORT_RXTX_RX \<Rightarrow> do {
         mng \<leftarrow> ability_mng s port_id d;
         s1 \<leftarrow> set_ability_mng port_id d (mng\<lparr>pa_upd_index := pa_ref_index mng\<rparr>) s;
         l \<leftarrow> wr (chg_rx_list s1) (chg_num_rx s1) port_id;
         Some (s1\<lparr>chg_rx_list := l, chg_num_rx := chg_num_rx s1 + 1\<rparr>)
       }
     | SPP_PORT_RXTX_TX \<Rightarrow> do {
         mng \<leftarrow> ability_mng s port_id d;
         s1 \<leftarrow> set_ability_mng port_id d (mng\<lparr>pa_upd_index := pa_ref_index mng\<rparr>) s;
         l \<leftarrow> wr (chg_tx_list s1) (chg_num_tx s1) port_id;
         Some (s1\<lparr>chg_tx_list := l, chg_num_tx := chg_num_tx s1 + 1\<rparr>)
       }
     | _ \<Rightarrow> Some s)"

text \<open>One listed port moves to its update area; list entry cnt is cleared.\<close>

definition flip_ability :: "port_ability_mng_info \<Rightarrow> port_ability_mng_info" where
  "flip_ability mng = mng\<lparr>pa_ref_index := flip_index (pa_upd_index mng)\<rparr>"

fun chg_index_ref_loop ::
  "spp_port_rxtx \<Rightarrow> nat \<Rightarrow> int list \<Rightarrow> 'z port_data_scheme \<Rightarrow> (int list \<times> 'z port_data_scheme) option" where
  "chg_index_ref_loop d 0 l s = Some (l, s)"
| "chg_index_ref_loop d (Suc left) l s = do {
     (l', s') \<leftarrow> chg_index_ref_loop d left l s;
     port_id \<leftarrow> rd l' (int left);
     mng \<leftarrow> ability_mng s' port_id d;
     s'' \<leftarrow> set_ability_mng port_id d (flip_ability mng) s';
     l'' \<leftarrow> wr l' (int left) 0;
     Some (l'', s'')
   }"

definition spp_port_ability_change_index ::
  "port_ability_chg_index_type \<Rightarrow> int \<Rightarrow> spp_port_rxtx \<Rightarrow> 'z port_data_scheme \<Rightarrow>
   'z port_data_scheme option" where
  "spp_port_ability_change_index ty port_id d s =
    (if ty = PORT_ABILITY_CHG_INDEX_UPD then chg_index_upd port_id d s
     else do {
       (rl, s1) \<leftarrow> chg_index_ref_loop SPP_PORT_RXTX_RX (nat (chg_num_rx s)) (chg_rx_list s) s;
       (tl, s2) \<leftarrow> chg_index_ref_loop SPP_PORT_RXTX_TX (nat (chg_num_tx s)) (chg_tx_list s) s1;
       Some (s2\<lparr>chg_rx_list := rl, chg_tx_list := tl, chg_num_rx := 0, chg_num_tx := 0\<rparr>)
     })"

section \<open>Setting abilities\<close>

definition set_tci :: "spp_port_ability \<Rightarrow> spp_port_ability" where
  "set_tci a =
    (if ope a = SPP_PORT_ABILITY_OPE_ADD_VLANTAG
     then a\<lparr>data := (data a)\<lparr>tci :=
            uint (cpu_to_be_16 (word_of_int (SPP_VLANTAG_CALC_TCI (vid (data a)) (pcp (data a)))))\<rparr>\<rparr>
     else a)"

definition out_abilities :: "spp_port_rxtx \<Rightarrow> spp_port_ability list \<Rightarrow> spp_port_ability list" where
  "out_abilities d abl = List.map set_tci [a \<leftarrow> take SPP_PORT_ABILITY_MAX abl. rxtx a = d]"

definition port_ability_set_ability ::
  "port_ptr \<Rightarrow> spp_port_rxtx \<Rightarrow> 'z port_data_scheme \<Rightarrow> 'z port_data_scheme option" where
  "port_ability_set_ability p d s = do {
     port \<leftarrow> load_port s p;
     let port_id = dpdk_port port;
     pm \<leftarrow> rd (g_port_mng_info s) port_id;
     pms \<leftarrow> wr (g_port_mng_info s) port_id
              (pm\<lparr>pm_iface_type := iface_type port, pm_iface_no := iface_no port\<rparr>);
     let s1 = s\<lparr>g_port_mng_info := pms\<rparr>;
     mng \<leftarrow> ability_mng s1 port_id d;
     let out = out_abilities d (ability port);
     ab \<leftarrow> wr (pa_ability mng) (pa_upd_index mng)
             (out @ replicate (SPP_PORT_ABILITY_MAX - length out) zero_ability);
     s2 \<leftarrow> set_ability_mng port_id d (mng\<lparr>pa_ability := ab\<rparr>) s1;
     spp_port_ability_change_index PORT_ABILITY_CHG_INDEX_UPD port_id d s2
   }"

fun set_abilities ::
  "spp_port_rxtx \<Rightarrow> port_ptr list \<Rightarrow> 'z port_data_scheme \<Rightarrow> 'z port_data_scheme option" where
  "set_abilities d [] s = Some s"
| "set_abilities d (p # ps) s = do {
     s' \<leftarrow> port_ability_set_ability p d s;
     set_abilities d ps s'
   }"

definition spp_port_ability_update ::
  "spp_component_info \<Rightarrow> 'z port_data_scheme \<Rightarrow> 'z port_data_scheme option" where
  "spp_port_ability_update c s = do {
     ensure (num_rx_port c \<le> int (length (rx_ports c)));
     s1 \<leftarrow> set_abilities SPP_PORT_RXTX_RX (take (nat (num_rx_port c)) (rx_ports c)) s;
     ensure (num_tx_port c \<le> int (length (tx_ports c)));
     set_abilities SPP_PORT_RXTX_TX (take (nat (num_tx_port c)) (tx_ports c)) s1
   }"

section \<open>Receiving and transmitting\<close>

text \<open>port_ability_function_list: no function for NONE (a call would be undefined).\<close>

definition port_ability_function ::
  "spp_port_ability_ope \<Rightarrow> 'w dpdk \<Rightarrow> 16 word \<Rightarrow> nat list \<Rightarrow> spp_vlantag_info \<Rightarrow> 'w \<Rightarrow>
   (nat \<times> 'w) option" where
  "port_ability_function op D tpid pkts tag w =
    (case op of
       SPP_PORT_ABILITY_OPE_NONE \<Rightarrow> None
     | SPP_PORT_ABILITY_OPE_ADD_VLANTAG \<Rightarrow> add_vlantag_all_packets D tpid pkts tag w
     | SPP_PORT_ABILITY_OPE_DEL_VLANTAG \<Rightarrow> del_vlantag_all_packets D tpid pkts tag w)"

text \<open>The loop over the abilities: every operation gets the packets that are still good and
  the data of the first ability (info->data).\<close>

fun ability_ops ::
  "'w dpdk \<Rightarrow> 16 word \<Rightarrow> spp_vlantag_info \<Rightarrow> spp_port_ability list \<Rightarrow> nat list \<Rightarrow> nat \<Rightarrow> 'w \<Rightarrow>
   (nat \<times> 'w) option" where
  "ability_ops D tpid tag [] pkts ok w = Some (ok, w)"
| "ability_ops D tpid tag (a # as) pkts ok w =
    (if ope a = SPP_PORT_ABILITY_OPE_NONE then Some (ok, w)
     else do {
       (ok', w') \<leftarrow> port_ability_function (ope a) D tpid (take ok pkts) tag w;
       ability_ops D tpid tag as pkts ok' w'
     })"

fun free_packets :: "'w dpdk \<Rightarrow> nat list \<Rightarrow> 'w \<Rightarrow> 'w option" where
  "free_packets D [] w = Some w"
| "free_packets D (i # ids) w = do {
     w' \<leftarrow> rte_pktmbuf_free D i w;
     free_packets D ids w'
   }"

definition port_ability_each_operation ::
  "'w dpdk \<Rightarrow> 'z port_data_scheme \<Rightarrow> int \<Rightarrow> nat list \<Rightarrow> spp_port_rxtx \<Rightarrow> 'w \<Rightarrow>
   (nat \<times> 'w) option" where
  "port_ability_each_operation D s port_id pkts d w = do {
     info \<leftarrow> spp_port_ability_get_info s port_id d;
     info0 \<leftarrow> rd info 0;
     if ope info0 = SPP_PORT_ABILITY_OPE_NONE then Some (length pkts, w)
     else do {
       (ok_pkts, w1) \<leftarrow> ability_ops D (g_vlan_tpid s) (data info0) info pkts (length pkts) w;
       w2 \<leftarrow> (if ok_pkts < length pkts then free_packets D (drop ok_pkts pkts) w1 else Some w1);
       Some (ok_pkts, w2)
     }
   }"

text \<open>The receive wrapper fills the array rx_pkts and returns how many of it are good; the
  result holds the whole array.\<close>

definition spp_eth_rx_burst ::
  "'w dpdk \<Rightarrow> 'z port_data_scheme \<Rightarrow> int \<Rightarrow> nat \<Rightarrow> 'w \<Rightarrow> (nat list \<times> nat \<times> 'w) option" where
  "spp_eth_rx_burst D s port_id nb_pkts w =
    (let port = to_uint16 port_id; (rx_pkts, w1) = rte_eth_rx_burst D port nb_pkts w in
     if rx_pkts = [] then Some ([], 0, w1)
     else do {
       (ok, w2) \<leftarrow> port_ability_each_operation D s port rx_pkts SPP_PORT_RXTX_RX w1;
       Some (rx_pkts, ok, w2)
     })"

definition spp_eth_tx_burst ::
  "'w dpdk \<Rightarrow> 'z port_data_scheme \<Rightarrow> int \<Rightarrow> nat list \<Rightarrow> 'w \<Rightarrow> (nat \<times> 'w) option" where
  "spp_eth_tx_burst D s port_id tx_pkts w = do {
     (nb_tx, w1) \<leftarrow> port_ability_each_operation D s (to_uint16 port_id) tx_pkts SPP_PORT_RXTX_TX w;
     if nb_tx = 0 then Some (0, w1)
     else rte_eth_tx_burst D (to_uint16 port_id) (take nb_tx tx_pkts) w1
   }"

section \<open>What the VLAN operations do to a frame\<close>

text \<open>The tag protocol identifier as spp_port_ability_init stores it, and the VLAN header.\<close>

abbreviation tpid_be :: "16 word" where
  "tpid_be \<equiv> cpu_to_be_16 ETHER_TYPE_VLAN"

definition tagged :: "8 word list \<Rightarrow> bool" where
  "tagged f \<longleftrightarrow> take 2 (drop 12 f) = [0x81, 0x00]"

definition tci_bytes :: "spp_vlantag_info \<Rightarrow> 8 word list" where
  "tci_bytes tag = le_bytes16 (word_of_int (tci tag))"

lemma le_bytes_tpid: "le_bytes16 tpid_be = [0x81, 0x00]"
  by (simp add: le_bytes16_def cpu_to_be_16_def ETHER_TYPE_VLAN_def)

lemma length_tci_bytes [simp]: "length (tci_bytes tag) = 2"
  by (simp add: tci_bytes_def)

text \<open>A buffer with the data, the frame check sequence and k more VLAN operations in it.\<close>

definition mbuf_room :: "nat \<Rightarrow> mbuf \<Rightarrow> bool" where
  "mbuf_room k m \<longleftrightarrow> m_off m + m_len m + 4 \<le> length (m_buf m) \<and>
    m_off m + 18 + 4 * k \<le> length (m_buf m)"

lemma load16_ok: "m_off m + off + 2 \<le> length (m_buf m) \<Longrightarrow> \<exists>v. load16 m off = Some v"
  by (simp add: load16_def load_bytes_def)

lemma store_bytes_ok: "m_off m + off + length bs \<le> length (m_buf m) \<Longrightarrow>
    \<exists>b. store_bytes m off bs = Some (m\<lparr>m_buf := b\<rparr>) \<and> length b = length (m_buf m)"
  by (auto simp: store_bytes_def Let_def)

lemma store16_ok: "m_off m + off + 2 \<le> length (m_buf m) \<Longrightarrow>
    \<exists>b. store16 m off v = Some (m\<lparr>m_buf := b\<rparr>) \<and> length b = length (m_buf m)"
  using store_bytes_ok [of m off "le_bytes16 v"] by (simp add: store16_def)

lemma set_fcs_ok: "m_off m + m_len m + 4 \<le> length (m_buf m) \<Longrightarrow>
    \<exists>b. set_fcs_packet D m = Some (m\<lparr>m_buf := b\<rparr>) \<and> length b = length (m_buf m)"
  unfolding set_fcs_packet_def by (rule store_bytes_ok) simp

lemma set_fcs_frame:
  assumes "m_off m + m_len m + 4 \<le> length (m_buf m)"
  shows "\<exists>m'. set_fcs_packet D m = Some m' \<and> m_off m' = m_off m \<and> m_len m' = m_len m \<and>
    length (m_buf m') = length (m_buf m) \<and> frame m' = frame m"
  unfolding set_fcs_packet_def using assms by (intro store_bytes_behind) auto

lemma load16_frame:
  assumes "off + 2 \<le> m_len m" and "m_off m + m_len m \<le> length (m_buf m)"
  shows "load16 m off = Some (le_word (take 2 (drop off (frame m))))"
  using load_bytes_frame [OF assms] by (simp add: load16_def)

lemma frame_length: "m_off m + m_len m \<le> length (m_buf m) \<Longrightarrow> length (frame m) = m_len m"
  by (simp add: frame_def)

lemma two_bytes: "off + 2 \<le> length f \<Longrightarrow> \<exists>a b. take 2 (drop off f) = [a, b]"
proof -
  assume "off + 2 \<le> length f"
  then have "length (take 2 (drop off f)) = 2" by simp
  then show ?thesis
    by (cases "take 2 (drop off f)"; cases "tl (take 2 (drop off f))") auto
qed

lemma load16_tagged:
  assumes "14 \<le> m_len m" and "m_off m + m_len m \<le> length (m_buf m)"
  shows "\<exists>v. load16 m 12 = Some v \<and> (v = tpid_be \<longleftrightarrow> tagged (frame m))"
proof -
  obtain a b where ab: "take 2 (drop 12 (frame m)) = [a, b]"
    using two_bytes [of 12 "frame m"] assms frame_length by auto
  have "(le_word [a, b] = tpid_be) = tagged (frame m)"
    unfolding le_word16_eq_iff le_bytes_tpid tagged_def ab by simp
  then show ?thesis using load16_frame [of 12 m] assms ab by auto
qed

text \<open>Setting the tag of a frame that has one.\<close>

lemma add_vlantag_tagged:
  assumes "m_off m + m_len m + 4 \<le> length (m_buf m)" and "16 \<le> m_len m" and "tagged (frame m)"
  shows "\<exists>m'. add_vlantag_packet D tpid_be m tag = Some (SPP_RET_OK, m') \<and>
    m_off m' = m_off m \<and> m_len m' = m_len m \<and> length (m_buf m') = length (m_buf m) \<and>
    frame m' = take 14 (frame m) @ tci_bytes tag @ drop 16 (frame m)"
proof -
  have b: "m_off m + m_len m \<le> length (m_buf m)" using assms(1) by simp
  obtain v where v: "load16 m 12 = Some v" "v = tpid_be"
    using load16_tagged [OF _ b] assms(2,3) by auto
  obtain m1 where m1: "store16 m 14 (word_of_int (tci tag)) = Some m1" "m_off m1 = m_off m"
      "m_len m1 = m_len m" "length (m_buf m1) = length (m_buf m)"
      "frame m1 = take 14 (frame m) @ tci_bytes tag @ drop 16 (frame m)"
    using store_bytes_frame [of 14 "tci_bytes tag" m] b assms(2) by (auto simp: store16_def tci_bytes_def)
  obtain m2 where "set_fcs_packet D m1 = Some m2" "m_off m2 = m_off m1" "m_len m2 = m_len m1"
      "length (m_buf m2) = length (m_buf m1)" "frame m2 = frame m1"
    using set_fcs_frame [of m1 D] assms(1) m1 by auto
  then show ?thesis using v m1 by (simp add: add_vlantag_packet_def)
qed

lemma frame_prepend:
  assumes "n \<le> m_off m"
  shows "frame (m\<lparr>m_off := m_off m - n, m_len := m_len m + n\<rparr>) =
    take n (drop (m_off m - n) (m_buf m)) @ frame m"
proof -
  have "drop (m_off m - n) (m_buf m) =
      take n (drop (m_off m - n) (m_buf m)) @ drop n (drop (m_off m - n) (m_buf m))"
    by (rule append_take_drop_id [symmetric])
  moreover have "drop n (drop (m_off m - n) (m_buf m)) = drop (m_off m) (m_buf m)"
    using assms by simp
  ultimately show ?thesis
    unfolding frame_def by (simp, metis add.commute take_add)
qed

lemma frame_adj:
  "n \<le> m_len m \<Longrightarrow> frame (m\<lparr>m_off := m_off m + n, m_len := m_len m - n\<rparr>) = drop n (frame m)"
  by (simp add: frame_def drop_take add.commute)

text \<open>A write in the middle of a frame that is given by its parts.\<close>

lemma store_bytes_parts:
  assumes "frame m = xs @ ys @ zs" and "length bs = length ys"
    and "m_off m + m_len m \<le> length (m_buf m)" and "off = length xs"
  shows "\<exists>m'. store_bytes m off bs = Some m' \<and> m_off m' = m_off m \<and> m_len m' = m_len m \<and>
    length (m_buf m') = length (m_buf m) \<and> frame m' = xs @ bs @ zs"
proof -
  have "length (frame m) = m_len m" using assms(3) by (rule frame_length)
  then have "off + length bs \<le> m_len m" using assms by simp
  from store_bytes_frame [OF this assms(3)] show ?thesis using assms by auto
qed

lemma load16_parts:
  assumes "frame m = xs @ [a, b] @ zs" and "m_off m + m_len m \<le> length (m_buf m)" and "off = length xs"
  shows "load16 m off = Some (le_word [a, b])"
proof -
  have "length (frame m) = m_len m" using assms(2) by (rule frame_length)
  then show ?thesis using load16_frame [of off m] assms by simp
qed

lemma store16_parts:
  assumes "frame m = xs @ [y, y'] @ zs"
    and "m_off m + m_len m \<le> length (m_buf m)" and "off = length xs"
  shows "\<exists>m'. store16 m off v = Some m' \<and> m_off m' = m_off m \<and> m_len m' = m_len m \<and>
    length (m_buf m') = length (m_buf m) \<and> frame m' = xs @ le_bytes16 v @ zs"
  unfolding store16_def using assms by (intro store_bytes_parts [of _ _ "[y, y']"]) auto

lemma frame_parts:
  assumes "14 \<le> length f"
  shows "\<exists>p e1 e2 r. f = p @ [e1, e2] @ r \<and> length p = 12"
proof -
  obtain a b where ab: "take 2 (drop 12 f) = [a, b]" using two_bytes [of 12 f] assms by auto
  have "f = take 12 f @ take 2 (drop 12 f) @ drop 2 (drop 12 f)"
    by (simp only: append_take_drop_id)
  then have "f = take 12 f @ [a, b] @ drop 2 (drop 12 f)" by (simp only: ab)
  moreover have "length (take 12 f) = 12" using assms by simp
  ultimately show ?thesis by blast
qed

lemma length2: "length xs = 2 \<Longrightarrow> \<exists>a b. xs = [a, b]"
  by (cases xs; cases "tl xs") auto

text \<open>Adding a tag to a frame that has none.\<close>

lemma add_vlantag_untagged:
  assumes D: "mbuf_laws D" and b4: "m_off m + m_len m + 4 \<le> length (m_buf m)" and "14 \<le> m_len m"
    and "\<not> tagged (frame m)" and h: "4 \<le> m_off m"
  shows "\<exists>m'. add_vlantag_packet D tpid_be m tag = Some (SPP_RET_OK, m') \<and>
    m_off m' = m_off m - 4 \<and> m_len m' = m_len m + 4 \<and> length (m_buf m') = length (m_buf m) \<and>
    frame m' = take 12 (frame m) @ [0x81, 0x00] @ tci_bytes tag @ drop 12 (frame m)"
proof -
  have b: "m_off m + m_len m \<le> length (m_buf m)" using b4 by simp
  obtain v where v: "load16 m 12 = Some v" "v \<noteq> tpid_be"
    using load16_tagged [OF assms(3) b] assms(4) by auto
  obtain p e1 e2 r where f: "frame m = p @ [e1, e2] @ r" and p: "length p = 12"
    using frame_parts [of "frame m"] frame_length [OF b] assms(3) by auto
  define m' where "m' = m\<lparr>m_off := m_off m - 4, m_len := m_len m + 4\<rparr>"
  have pre: "rte_pktmbuf_prepend D m 4 = Some m'" using mbuf_prepend [OF D] h by (simp add: m'_def)
  have oe: "load_bytes m 0 14 = Some (p @ [e1, e2])"
    using load_bytes_frame [of 0 14 m] assms(3) b p by (simp add: f)
  define g where "g = take 4 (drop (m_off m - 4) (m_buf m))"
  have f': "frame m' = g @ p @ [e1, e2] @ r" using frame_prepend [OF h] f by (simp add: m'_def g_def)
  have g: "length g = 4" using b h by (simp add: g_def)
  have b': "m_off m' + m_len m' \<le> length (m_buf m')" using b h by (simp add: m'_def)
  obtain a1 a2 where "drop 10 p = [a1, a2]" using length2 [of "drop 10 p"] p by auto
  then obtain q where a: "p = q @ [a1, a2]" by (metis append_take_drop_id)
  have split1: "frame m' = [] @ (g @ q) @ ([a1, a2] @ [e1, e2] @ r)" using f' a by simp
  obtain m1 where m1: "store_bytes m' 0 (p @ [e1, e2]) = Some m1" "m_off m1 = m_off m'"
      "m_len m1 = m_len m'" "length (m_buf m1) = length (m_buf m')"
      "frame m1 = [] @ (p @ [e1, e2]) @ ([a1, a2] @ [e1, e2] @ r)"
    using store_bytes_parts [OF split1 _ b', of "p @ [e1, e2]" 0] p a g by auto
  have b1: "m_off m1 + m_len m1 \<le> length (m_buf m1)" using b' m1 by simp
  have et: "load16 m1 12 = Some (le_word [e1, e2])"
    using load16_parts [of m1 p e1 e2 "[a1, a2] @ [e1, e2] @ r" 12] m1(5) b1 p by simp
  obtain m2 where m2: "store16 m1 16 (le_word [e1, e2]) = Some m2" "m_off m2 = m_off m1"
      "m_len m2 = m_len m1" "length (m_buf m2) = length (m_buf m1)"
      "frame m2 = (p @ [e1, e2] @ [a1, a2]) @ [e1, e2] @ r"
    using store16_parts [of m1 "p @ [e1, e2] @ [a1, a2]" e1 e2 r 16 "le_word [e1, e2]"] m1(5) b1 p
    by (auto simp: le_bytes16_le_word simp del: le_word.simps)
  have b2: "m_off m2 + m_len m2 \<le> length (m_buf m2)" using b1 m2 by simp
  obtain m3 where m3: "store16 m2 12 tpid_be = Some m3" "m_off m3 = m_off m2"
      "m_len m3 = m_len m2" "length (m_buf m3) = length (m_buf m2)"
      "frame m3 = p @ [0x81, 0x00] @ [a1, a2] @ [e1, e2] @ r"
    using store16_parts [of m2 p e1 e2 "[a1, a2] @ [e1, e2] @ r" 12 tpid_be] m2(5) b2 p
    by (auto simp: le_bytes_tpid)
  have b3: "m_off m3 + m_len m3 \<le> length (m_buf m3)" using b2 m3 by simp
  obtain m4 where m4: "store16 m3 14 (word_of_int (tci tag)) = Some m4" "m_off m4 = m_off m3"
      "m_len m4 = m_len m3" "length (m_buf m4) = length (m_buf m3)"
      "frame m4 = (p @ [0x81, 0x00]) @ tci_bytes tag @ [e1, e2] @ r"
    using store16_parts [of m3 "p @ [0x81, 0x00]" a1 a2 "[e1, e2] @ r" 14 "word_of_int (tci tag)"]
      m3(5) b3 p by (auto simp: tci_bytes_def)
  have "m_off m4 + m_len m4 + 4 \<le> length (m_buf m4)"
    using m1 m2 m3 m4 b4 h by (simp add: m'_def)
  then obtain m5 where "set_fcs_packet D m4 = Some m5" "m_off m5 = m_off m4" "m_len m5 = m_len m4"
      "length (m_buf m5) = length (m_buf m4)" "frame m5 = frame m4"
    using set_fcs_frame [of m4 D] by auto
  moreover have "take 12 (frame m) = p" "drop 12 (frame m) = [e1, e2] @ r" by (simp_all add: f p)
  ultimately show ?thesis using v pre oe et m1 m2 m3 m4
    by (simp add: add_vlantag_packet_def m'_def del: le_word.simps)
qed

text \<open>Removing the tag of a frame that has one.\<close>

lemma copy_word_parts:
  assumes "load_bytes m from 4 = Some bs" and "frame m = xs @ ys @ zs" and "length bs = length ys"
    and "m_off m + m_len m \<le> length (m_buf m)" and "to = length xs"
  shows "\<exists>m'. copy_word m from to = Some m' \<and> m_off m' = m_off m \<and> m_len m' = m_len m \<and>
    length (m_buf m') = length (m_buf m) \<and> frame m' = xs @ bs @ zs"
  using store_bytes_parts [OF assms(2,3,4,5)] assms(1) by (simp add: copy_word_def)

lemma load_word_parts:
  assumes "frame m = xs @ ys @ zs" and "length ys = 4"
    and "m_off m + m_len m \<le> length (m_buf m)" and "off = length xs"
  shows "load_bytes m off 4 = Some ys"
proof -
  have "length (frame m) = m_len m" using assms(3) by (rule frame_length)
  then show ?thesis using load_bytes_frame [of off 4 m] assms by simp
qed

lemma split12:
  assumes "length p = 12"
  shows "\<exists>x y z. p = x @ y @ z \<and> length x = 4 \<and> length y = 4 \<and> length z = 4"
proof -
  have "p = take 4 p @ take 4 (drop 4 p) @ drop 4 (drop 4 p)" by (simp only: append_take_drop_id)
  moreover have "length (take 4 p) = 4" "length (take 4 (drop 4 p)) = 4" "length (drop 4 (drop 4 p)) = 4"
    using assms by simp_all
  ultimately show ?thesis by blast
qed

lemma del_vlantag_tagged:
  assumes D: "mbuf_laws D" and b4: "m_off m + m_len m + 4 \<le> length (m_buf m)" and len: "16 \<le> m_len m"
    and tg: "tagged (frame m)"
  shows "\<exists>m'. del_vlantag_packet D tpid_be m tag = Some (SPP_RET_OK, m') \<and>
    m_off m' = m_off m + 4 \<and> m_len m' = m_len m - 4 \<and> length (m_buf m') = length (m_buf m) \<and>
    frame m' = take 12 (frame m) @ drop 16 (frame m)"
proof -
  have b: "m_off m + m_len m \<le> length (m_buf m)" using b4 by simp
  obtain v where v: "load16 m 12 = Some v" "v = tpid_be"
    using load16_tagged [OF _ b] len tg by auto
  define p r where "p = take 12 (frame m)" and "r = drop 16 (frame m)"
  have lf: "length (frame m) = m_len m" using b by (rule frame_length)
  have lp: "length p = 12" using len lf by (simp add: p_def)
  then obtain x y z where p: "p = x @ y @ z" "length x = 4" "length y = 4" "length z = 4"
    using split12 by blast
  define t where "t = take 4 (drop 12 (frame m))"
  have t: "length t = 4" using len lf by (simp add: t_def)
  have "frame m = take 12 (frame m) @ take 4 (drop 12 (frame m)) @ drop 4 (drop 12 (frame m))"
    by (simp only: append_take_drop_id)
  then have f: "frame m = p @ t @ r" by (simp add: p_def t_def r_def)
  have l1: "load_bytes m 8 4 = Some z"
    by (rule load_word_parts [of m "x @ y" z "t @ r"]) (simp_all add: f p b)
  obtain m1 where m1: "copy_word m 8 12 = Some m1" "m_off m1 = m_off m" "m_len m1 = m_len m"
      "length (m_buf m1) = length (m_buf m)" "frame m1 = p @ z @ r"
    using copy_word_parts [OF l1 f _ b, of 12] p(4) t lp by auto
  have b1: "m_off m1 + m_len m1 \<le> length (m_buf m1)" using b m1 by simp
  have l2: "load_bytes m1 4 4 = Some y"
    by (rule load_word_parts [of m1 x y "z @ z @ r"]) (simp_all add: m1(5) p b1)
  have f1: "frame m1 = (x @ y) @ z @ (z @ r)" by (simp add: m1(5) p(1))
  obtain m2 where m2: "copy_word m1 4 8 = Some m2" "m_off m2 = m_off m1" "m_len m2 = m_len m1"
      "length (m_buf m2) = length (m_buf m1)" "frame m2 = (x @ y) @ y @ z @ r"
    using copy_word_parts [OF l2 f1 _ b1, of 8] p(2-4) by auto
  have b2: "m_off m2 + m_len m2 \<le> length (m_buf m2)" using b1 m2 by simp
  have l3: "load_bytes m2 0 4 = Some x"
    by (rule load_word_parts [of m2 "[]" x "y @ y @ z @ r"]) (simp_all add: m2(5) p b2)
  have f2: "frame m2 = x @ y @ (y @ z @ r)" by (simp add: m2(5))
  have xy: "length x = length y" and x4: "4 = length x" using p(2,3) by simp_all
  obtain m3 where m3: "copy_word m2 0 4 = Some m3" "m_off m3 = m_off m2" "m_len m3 = m_len m2"
      "length (m_buf m3) = length (m_buf m2)" "frame m3 = x @ x @ y @ z @ r"
    using copy_word_parts [OF l3 f2 xy b2 x4] by blast
  have b3: "m_off m3 + m_len m3 \<le> length (m_buf m3)" using b2 m3 by simp
  have f3: "frame m3 = [] @ x @ (x @ y @ z @ r)" using m3(5) by simp
  obtain m4 where m4: "store_bytes m3 0 [0, 0, 0, 0] = Some m4" "m_off m4 = m_off m3"
      "m_len m4 = m_len m3" "length (m_buf m4) = length (m_buf m3)"
      "frame m4 = [] @ [0, 0, 0, 0] @ x @ y @ z @ r"
    using store_bytes_parts [OF f3 _ b3, of "[0, 0, 0, 0]" 0] p(2) by auto
  define m4' where "m4' = m4\<lparr>m_off := m_off m + 4, m_len := m_len m - 4\<rparr>"
  have "frame m4' = drop 4 (frame m4)"
    using frame_adj [of 4 m4] m1 m2 m3 m4 len by (simp add: m4'_def)
  then have f4': "frame m4' = x @ y @ z @ r" using m4(5) by simp
  have "m_off m4' + m_len m4' + 4 \<le> length (m_buf m4')"
    using m1 m2 m3 m4 b4 len by (simp add: m4'_def)
  then obtain m5 where m5: "set_fcs_packet D m4' = Some m5" "m_off m5 = m_off m4'"
      "m_len m5 = m_len m4'" "length (m_buf m5) = length (m_buf m4')" "frame m5 = frame m4'"
    using set_fcs_frame [of m4' D] by auto
  have "rte_pktmbuf_adj D m 4 = Some (m\<lparr>m_off := m_off m + 4, m_len := m_len m - 4\<rparr>)"
    using mbuf_adj [OF D] len by simp
  then have "del_vlantag_packet D tpid_be m tag = Some (SPP_RET_OK, m5)"
    using v m1(1) m2(1) m3(1) m4(1) m5(1) by (simp add: del_vlantag_packet_def m4'_def)
  moreover have "length (m_buf m4') = length (m_buf m)" using m1 m2 m3 m4 by (simp add: m4'_def)
  moreover have "frame m5 = take 12 (frame m) @ drop 16 (frame m)"
    using m5(5) f4' p(1) by (simp add: p_def r_def)
  ultimately show ?thesis using m5 by (simp add: m4'_def)
qed

lemma take_app12: "length p = 12 \<Longrightarrow> take 12 (p @ xs) = p \<and> drop 12 (p @ xs) = xs"
  by simp

text \<open>Adding a VLAN tag to a frame (with room for the tag in front of it): a frame without
  a tag gets the tag protocol identifier 0x8100 and the tag control information between its
  addresses and its EtherType; a frame that already has a tag only gets the new tag control
  information; with less than four bytes of headroom an untagged frame is left as it is and
  the operation fails.\<close>
theorem add_vlantag_packet_frame:
  assumes "mbuf_laws D" and "m_off m + m_len m + 4 \<le> length (m_buf m)" and "16 \<le> m_len m"
  shows "if tagged (frame m)
    then \<exists>m'. add_vlantag_packet D tpid_be m tag = Some (SPP_RET_OK, m') \<and>
      frame m' = take 14 (frame m) @ tci_bytes tag @ drop 16 (frame m)
    else if 4 \<le> m_off m
    then \<exists>m'. add_vlantag_packet D tpid_be m tag = Some (SPP_RET_OK, m') \<and>
      frame m' = take 12 (frame m) @ [0x81, 0x00] @ tci_bytes tag @ drop 12 (frame m)
    else add_vlantag_packet D tpid_be m tag = Some (SPP_RET_NG, m)"
proof -
  have "add_vlantag_packet D tpid_be m tag = Some (SPP_RET_NG, m)"
    if nt: "\<not> tagged (frame m)" and hr: "\<not> 4 \<le> m_off m"
  proof -
    obtain v where "load16 m 12 = Some v" "v \<noteq> tpid_be"
      using load16_tagged [of m] assms(2,3) nt by auto
    then show ?thesis
      using mbuf_prepend [OF assms(1)] hr by (simp add: add_vlantag_packet_def)
  qed
  then show ?thesis
    using add_vlantag_tagged [OF assms(2,3), of D tag] add_vlantag_untagged [OF assms(1,2), of tag]
      assms(3) by auto
qed

text \<open>C7: Deleting the VLAN tag that was added to an untagged frame gives the frame back.\<close>
theorem vlantag_round_trip:
  assumes D: "mbuf_laws D" and room: "m_off m + m_len m + 4 \<le> length (m_buf m)" and "14 \<le> m_len m"
    and "\<not> tagged (frame m)" and "4 \<le> m_off m"
    and "add_vlantag_packet D tpid_be m tag = Some (ret, m')"
  shows "\<exists>m''. del_vlantag_packet D tpid_be m' tag' = Some (SPP_RET_OK, m'') \<and>
    frame m'' = frame m \<and> m_off m'' = m_off m \<and> m_len m'' = m_len m"
proof -
  have m': "m_off m' = m_off m - 4" "m_len m' = m_len m + 4" "length (m_buf m') = length (m_buf m)"
      "frame m' = take 12 (frame m) @ [0x81, 0x00] @ tci_bytes tag @ drop 12 (frame m)"
    using add_vlantag_untagged [OF D room assms(3,4,5), of tag] assms(6) by auto
  have l: "length (take 12 (frame m)) = 12" using frame_length [of m] room assms(3) by simp
  have "tagged (frame m')"
    unfolding tagged_def m'(4) by (subst take_app12 [OF l, THEN conjunct2]) simp
  then obtain m'' where m'': "del_vlantag_packet D tpid_be m' tag' = Some (SPP_RET_OK, m'')"
      "m_off m'' = m_off m' + 4" "m_len m'' = m_len m' - 4"
      "frame m'' = take 12 (frame m') @ drop 16 (frame m')"
    using del_vlantag_tagged [OF D, of m' tag'] m'(1-3) room assms(3,5) by auto
  have "take 12 (frame m') = take 12 (frame m)"
    unfolding m'(4) by (subst take_app12 [OF l, THEN conjunct1]) (rule refl)
  moreover have "drop 16 (frame m') = drop 4 (drop 12 (frame m'))" by simp
  then have "drop 16 (frame m') = drop 12 (frame m)"
    unfolding m'(4) by (subst (asm) take_app12 [OF l, THEN conjunct2]) simp
  ultimately show ?thesis using m'' m' assms(5) by auto
qed

section \<open>The operations never fault on packets with room\<close>

lemma add_vlantag_room:
  assumes D: "mbuf_laws D" and r: "mbuf_room (Suc k) m"
  shows "\<exists>ret m'. add_vlantag_packet D tpid m tag = Some (ret, m') \<and> mbuf_room k m' \<and>
    m_off m \<le> m_off m' + 4 \<and> m_len m \<le> m_len m' + 4 \<and> (4 \<le> m_off m \<and> 4 \<le> m_len m \<longrightarrow> ret = 0)"
proof -
  have o: "m_off m + 22 \<le> length (m_buf m)" "m_off m + m_len m + 4 \<le> length (m_buf m)"
    using r by (auto simp: mbuf_room_def)
  obtain et where et: "load16 m 12 = Some et" using load16_ok [of m 12] o by auto
  show ?thesis
  proof (cases "et = tpid")
    case True
    obtain b1 where b1: "store16 m 14 (word_of_int (tci tag)) = Some (m\<lparr>m_buf := b1\<rparr>)"
        "length b1 = length (m_buf m)"
      using store16_ok [of m 14 "word_of_int (tci tag)"] o by auto
    obtain b2 where b2: "set_fcs_packet D (m\<lparr>m_buf := b1\<rparr>) = Some (m\<lparr>m_buf := b2\<rparr>)"
        "length b2 = length b1"
      using set_fcs_ok [of "m\<lparr>m_buf := b1\<rparr>" D] b1 o by auto
    show ?thesis using et True b1 b2 r by (auto simp: add_vlantag_packet_def mbuf_room_def)
  next
    case False
    show ?thesis
    proof (cases "4 \<le> m_off m")
      case False
      then show ?thesis using et \<open>et \<noteq> tpid\<close> r mbuf_prepend [OF D]
        by (auto simp: add_vlantag_packet_def mbuf_room_def)
    next
      case True
      define m' where "m' = m\<lparr>m_off := m_off m - 4, m_len := m_len m + 4\<rparr>"
      have o': "m_off m' + 18 \<le> length (m_buf m')" "m_off m' + m_len m' + 4 \<le> length (m_buf m')"
        using o True by (auto simp: m'_def)
      obtain oe where oe: "load_bytes m 0 14 = Some oe" "length oe = 14"
        using o by (auto simp: load_bytes_def)
      obtain b1 where b1: "store_bytes m' 0 oe = Some (m'\<lparr>m_buf := b1\<rparr>)" "length b1 = length (m_buf m')"
        using store_bytes_ok [of m' 0 oe] oe o' by auto
      obtain e where e: "load16 (m'\<lparr>m_buf := b1\<rparr>) 12 = Some e"
        using load16_ok [of "m'\<lparr>m_buf := b1\<rparr>" 12] b1 o' by auto
      obtain b2 where b2: "store16 (m'\<lparr>m_buf := b1\<rparr>) 16 e = Some (m'\<lparr>m_buf := b2\<rparr>)" "length b2 = length b1"
        using store16_ok [of "m'\<lparr>m_buf := b1\<rparr>" 16 e] b1 o' by auto
      obtain b3 where b3: "store16 (m'\<lparr>m_buf := b2\<rparr>) 12 tpid = Some (m'\<lparr>m_buf := b3\<rparr>)" "length b3 = length b2"
        using store16_ok [of "m'\<lparr>m_buf := b2\<rparr>" 12 tpid] b1 b2 o' by auto
      obtain b4 where b4: "store16 (m'\<lparr>m_buf := b3\<rparr>) 14 (word_of_int (tci tag)) = Some (m'\<lparr>m_buf := b4\<rparr>)"
          "length b4 = length b3"
        using store16_ok [of "m'\<lparr>m_buf := b3\<rparr>" 14 "word_of_int (tci tag)"] b1 b2 b3 o' by auto
      obtain b5 where b5: "set_fcs_packet D (m'\<lparr>m_buf := b4\<rparr>) = Some (m'\<lparr>m_buf := b5\<rparr>)" "length b5 = length b4"
        using set_fcs_ok [of "m'\<lparr>m_buf := b4\<rparr>" D] b1 b2 b3 b4 o' by auto
      have "add_vlantag_packet D tpid m tag = Some (SPP_RET_OK, m'\<lparr>m_buf := b5\<rparr>)"
        using et \<open>et \<noteq> tpid\<close> mbuf_prepend [OF D, of m 4] True oe b1 e b2 b3 b4 b5
        by (simp add: add_vlantag_packet_def m'_def)
      moreover have "mbuf_room k (m'\<lparr>m_buf := b5\<rparr>)"
        using b1 b2 b3 b4 b5 r True by (auto simp: mbuf_room_def m'_def)
      ultimately show ?thesis using True by (auto simp: m'_def)
    qed
  qed
qed

lemma copy_word_room:
  assumes "m_off m + from + 4 \<le> length (m_buf m)" and "m_off m + to + 4 \<le> length (m_buf m)"
  shows "\<exists>b. copy_word m from to = Some (m\<lparr>m_buf := b\<rparr>) \<and> length b = length (m_buf m)"
proof -
  obtain bs where "load_bytes m from 4 = Some bs" "length bs = 4"
    using assms(1) by (auto simp: load_bytes_def)
  then show ?thesis using store_bytes_ok [of m to bs] assms(2) by (auto simp: copy_word_def)
qed

lemma del_vlantag_room:
  assumes D: "mbuf_laws D" and r: "mbuf_room (Suc k) m"
  shows "\<exists>ret m'. del_vlantag_packet D tpid m tag = Some (ret, m') \<and> mbuf_room k m' \<and>
    m_off m \<le> m_off m' + 4 \<and> m_len m \<le> m_len m' + 4 \<and> (4 \<le> m_off m \<and> 4 \<le> m_len m \<longrightarrow> ret = 0)"
proof -
  have o: "m_off m + 22 \<le> length (m_buf m)" "m_off m + m_len m + 4 \<le> length (m_buf m)"
    using r by (auto simp: mbuf_room_def)
  obtain et where et: "load16 m 12 = Some et" using load16_ok [of m 12] o by auto
  consider "et \<noteq> tpid" | "et = tpid" "\<not> 4 \<le> m_len m" | "et = tpid" "4 \<le> m_len m" by blast
  then show ?thesis
  proof cases
    case 3
    obtain b1 where b1: "copy_word m 8 12 = Some (m\<lparr>m_buf := b1\<rparr>)" "length b1 = length (m_buf m)"
      using copy_word_room [of m 8 12] o by auto
    obtain b2 where b2: "copy_word (m\<lparr>m_buf := b1\<rparr>) 4 8 = Some (m\<lparr>m_buf := b2\<rparr>)" "length b2 = length b1"
      using copy_word_room [of "m\<lparr>m_buf := b1\<rparr>" 4 8] b1 o by auto
    obtain b3 where b3: "copy_word (m\<lparr>m_buf := b2\<rparr>) 0 4 = Some (m\<lparr>m_buf := b3\<rparr>)" "length b3 = length b2"
      using copy_word_room [of "m\<lparr>m_buf := b2\<rparr>" 0 4] b1 b2 o by auto
    obtain b4 where b4: "store_bytes (m\<lparr>m_buf := b3\<rparr>) 0 [0, 0, 0, 0] = Some (m\<lparr>m_buf := b4\<rparr>)"
        "length b4 = length b3"
      using store_bytes_ok [of "m\<lparr>m_buf := b3\<rparr>" 0 "[0, 0, 0, 0]"] b1 b2 b3 o by auto
    define m' where "m' = m\<lparr>m_buf := b4, m_off := m_off m + 4, m_len := m_len m - 4\<rparr>"
    obtain b5 where b5: "set_fcs_packet D m' = Some (m'\<lparr>m_buf := b5\<rparr>)" "length b5 = length b4"
      using set_fcs_ok [of m' D] b1 b2 b3 b4 o 3 by (auto simp: m'_def)
    have "del_vlantag_packet D tpid m tag = Some (SPP_RET_OK, m'\<lparr>m_buf := b5\<rparr>)"
      using et 3 mbuf_adj [OF D, of m 4] b1 b2 b3 b4 b5 by (simp add: del_vlantag_packet_def m'_def)
    moreover have "mbuf_room k (m'\<lparr>m_buf := b5\<rparr>)"
      using b1 b2 b3 b4 b5 r 3 by (auto simp: mbuf_room_def m'_def)
    ultimately show ?thesis using 3 by (auto simp: m'_def)
  qed (use et r mbuf_adj [OF D] in \<open>auto simp: del_vlantag_packet_def mbuf_room_def\<close>)
qed

text \<open>With b the packet also has so much data and headroom in front of it that none of its next
  k VLAN operations fails.\<close>

definition mbuf_fit :: "bool \<Rightarrow> nat \<Rightarrow> mbuf \<Rightarrow> bool" where
  "mbuf_fit b k m \<longleftrightarrow> mbuf_room k m \<and> (b \<longrightarrow> 4 * k \<le> m_off m \<and> 4 * k \<le> m_len m)"

lemma fit_step:
  assumes "\<exists>ret m'. r = Some (ret, m') \<and> mbuf_room k m' \<and> m_off m \<le> m_off m' + 4 \<and>
    m_len m \<le> m_len m' + 4 \<and> (4 \<le> m_off m \<and> 4 \<le> m_len m \<longrightarrow> ret = (0::int))"
    and "mbuf_fit b (Suc k) m"
  shows "\<exists>ret m'. r = Some (ret, m') \<and> mbuf_fit b k m' \<and> (b \<longrightarrow> ret = 0)"
  using assms by (fastforce simp: mbuf_fit_def)

lemma add_vlantag_fit:
  "mbuf_laws D \<Longrightarrow> mbuf_fit b (Suc k) m \<Longrightarrow>
   \<exists>ret m'. add_vlantag_packet D tpid m tag = Some (ret, m') \<and> mbuf_fit b k m' \<and> (b \<longrightarrow> ret = 0)"
  by (rule fit_step [OF add_vlantag_room]) (auto simp: mbuf_fit_def)

lemma del_vlantag_fit:
  "mbuf_laws D \<Longrightarrow> mbuf_fit b (Suc k) m \<Longrightarrow>
   \<exists>ret m'. del_vlantag_packet D tpid m tag = Some (ret, m') \<and> mbuf_fit b k m' \<and> (b \<longrightarrow> ret = 0)"
  by (rule fit_step [OF del_vlantag_room]) (auto simp: mbuf_fit_def)

text \<open>The references the application holds do not change, and packets keep their room.\<close>

lemma vlantag_all_room:
  assumes D: "mbuf_laws D" and H: "io_laws D held"
    and f: "\<And>m. mbuf_fit b (Suc k) m \<Longrightarrow> \<exists>ret m'. f m = Some (ret, m') \<and> mbuf_fit b k m' \<and> (b \<longrightarrow> ret = 0)"
    and "\<forall>i\<in>S. mbuf_fit b k (mbuf_load D w i)"
    and "\<forall>i\<in>set ids. i \<in> S \<and> mbuf_fit b (Suc k) (mbuf_load D w i)" and "distinct ids"
  shows "\<exists>n w'. vlantag_all_packets f D ids cnt w = Some (n, w') \<and> cnt \<le> n \<and> n \<le> cnt + length ids \<and>
    held w' = held w \<and> (\<forall>i\<in>S. mbuf_fit b k (mbuf_load D w' i)) \<and> (b \<longrightarrow> n = cnt + length ids)"
  using assms(4-6)
proof (induction ids arbitrary: cnt w)
  case Nil
  then show ?case by auto
next
  case (Cons i ids)
  obtain ret m' where fm: "f (mbuf_load D w i) = Some (ret, m')" "mbuf_fit b k m'" "b \<longrightarrow> ret = 0"
    using f [of "mbuf_load D w i"] Cons.prems by auto
  define w' where "w' = mbuf_store D i m' w"
  have ld: "mbuf_load D w' j = (if j = i then m' else mbuf_load D w j)" for j
    by (simp add: w'_def mbuf_load_store [OF D])
  have held: "held w' = held w" by (simp add: w'_def io_store [OF H])
  have S: "\<forall>j\<in>S. mbuf_fit b k (mbuf_load D w' j)" using Cons.prems(1) fm ld by auto
  show ?case
  proof (cases "ret < 0")
    case True
    then show ?thesis using fm held S by (auto simp: w'_def [symmetric])
  next
    case False
    have ids: "\<forall>j\<in>set ids. j \<in> S \<and> mbuf_fit b (Suc k) (mbuf_load D w' j)"
      using Cons.prems(2,3) ld by auto
    have "distinct ids" using Cons.prems(3) by simp
    then obtain n w'' where "vlantag_all_packets f D ids (Suc cnt) w' = Some (n, w'')" "Suc cnt \<le> n"
        "n \<le> Suc cnt + length ids" "held w'' = held w'" "\<forall>i\<in>S. mbuf_fit b k (mbuf_load D w'' i)"
        "b \<longrightarrow> n = Suc cnt + length ids"
      using Cons.IH [OF S ids, of "Suc cnt"] by blast
    then show ?thesis using fm False held
      by (auto simp: w'_def [symmetric] Let_def)
  qed
qed

lemma mbuf_fit_mono: "mbuf_fit b k m \<Longrightarrow> j \<le> k \<Longrightarrow> mbuf_fit b j m"
  by (auto simp: mbuf_fit_def mbuf_room_def)

lemma ability_function_room:
  assumes "mbuf_laws D" and "io_laws D held" and "op \<noteq> SPP_PORT_ABILITY_OPE_NONE"
    and "\<forall>i\<in>set pkts. mbuf_fit b (Suc k) (mbuf_load D w i)" and "distinct pkts" and "n \<le> length pkts"
  shows "\<exists>n' w'. port_ability_function op D tpid (take n pkts) tag w = Some (n', w') \<and> n' \<le> n \<and>
    held w' = held w \<and> (\<forall>i\<in>set pkts. mbuf_fit b k (mbuf_load D w' i)) \<and> (b \<longrightarrow> n' = n)"
proof -
  have S: "\<forall>i\<in>set pkts. mbuf_fit b k (mbuf_load D w i)"
    using assms(4) mbuf_fit_mono le_SucI order_refl by blast
  have I: "\<forall>i\<in>set (take n pkts). i \<in> set pkts \<and> mbuf_fit b (Suc k) (mbuf_load D w i)"
    using assms(4) by (auto dest: in_set_takeD)
  have d: "distinct (take n pkts)" using assms(5) by simp
  note go = vlantag_all_room [OF assms(1,2) _ S I d, of _ 0]
  show ?thesis
  proof (cases op)
    case SPP_PORT_ABILITY_OPE_ADD_VLANTAG
    then show ?thesis
      using go [of "\<lambda>m. add_vlantag_packet D tpid m tag"] add_vlantag_fit [OF assms(1)] assms(6)
      by (auto simp: port_ability_function_def add_vlantag_all_packets_def)
  next
    case SPP_PORT_ABILITY_OPE_DEL_VLANTAG
    then show ?thesis
      using go [of "\<lambda>m. del_vlantag_packet D tpid m tag"] del_vlantag_fit [OF assms(1)] assms(6)
      by (auto simp: port_ability_function_def del_vlantag_all_packets_def)
  qed (use assms(3) in simp)
qed

lemma ability_ops_room:
  assumes D: "mbuf_laws D" and H: "io_laws D held"
    and "\<forall>i\<in>set pkts. mbuf_fit b (length as + k) (mbuf_load D w i)" and "distinct pkts"
    and "n \<le> length pkts"
  shows "\<exists>n' w'. ability_ops D tpid tag as pkts n w = Some (n', w') \<and> n' \<le> n \<and>
    held w' = held w \<and> (\<forall>i\<in>set pkts. mbuf_fit b k (mbuf_load D w' i)) \<and> (b \<longrightarrow> n' = n)"
  using assms(3-5)
proof (induction as arbitrary: n w)
  case (Cons a as)
  show ?case
  proof (cases "ope a = SPP_PORT_ABILITY_OPE_NONE")
    case True
    then show ?thesis using Cons.prems mbuf_fit_mono le_add2 by (auto intro: mbuf_fit_mono)
  next
    case False
    have r: "\<forall>i\<in>set pkts. mbuf_fit b (Suc (length as + k)) (mbuf_load D w i)" using Cons.prems by simp
    obtain n1 w1 where 1: "port_ability_function (ope a) D tpid (take n pkts) tag w = Some (n1, w1)"
        "n1 \<le> n" "held w1 = held w" "\<forall>i\<in>set pkts. mbuf_fit b (length as + k) (mbuf_load D w1 i)"
        "b \<longrightarrow> n1 = n"
      using ability_function_room [OF D H False r Cons.prems(2,3)] by blast
    have "n1 \<le> length pkts" using 1(2) Cons.prems(3) by simp
    from Cons.IH [OF 1(4) Cons.prems(2) this] obtain n2 w2 where
      "ability_ops D tpid tag as pkts n1 w1 = Some (n2, w2)" "n2 \<le> n1" "held w2 = held w1"
      "\<forall>i\<in>set pkts. mbuf_fit b k (mbuf_load D w2 i)" "b \<longrightarrow> n2 = n1"
      by blast
    then show ?thesis using 1 False by auto
  qed
qed simp

lemma free_packets_ok:
  assumes "io_laws D held" and "mset ids \<subseteq># held w"
  shows "\<exists>w'. free_packets D ids w = Some w' \<and> held w' = held w - mset ids"
  using assms(2)
proof (induction ids arbitrary: w)
  case (Cons i ids)
  have "i \<in># held w" using Cons.prems by (auto dest: mset_subset_eqD)
  then obtain w1 where w1: "rte_pktmbuf_free D i w = Some w1" "held w1 = held w - {#i#}"
    using io_free [OF assms(1)] by blast
  have "mset ids \<subseteq># held w1"
    using Cons.prems w1(2) by (simp add: insert_subset_eq_iff)
  from Cons.IH [OF this] show ?case using w1 by auto
qed simp

text \<open>The ability table of a port: two areas of four abilities, and indexes inside them.\<close>

definition wf_ability_mng :: "port_ability_mng_info \<Rightarrow> bool" where
  "wf_ability_mng m \<longleftrightarrow> length (pa_ability m) = SPP_INFO_AREA_MAX \<and>
    (\<forall>a\<in>set (pa_ability m). length a = SPP_PORT_ABILITY_MAX) \<and>
    pa_ref_index m \<in> {0, 1} \<and> pa_upd_index m \<in> {0, 1}"

definition wf_ports :: "'z port_data_scheme \<Rightarrow> bool" where
  "wf_ports s \<longleftrightarrow> (\<forall>pm\<in>set (g_port_mng_info s). wf_ability_mng (pm_rx pm) \<and> wf_ability_mng (pm_tx pm))"

lemma get_info_ok:
  assumes "wf_ports s" and "0 \<le> p" and "p < int (length (g_port_mng_info s))"
    and "d = SPP_PORT_RXTX_RX \<or> d = SPP_PORT_RXTX_TX"
  shows "\<exists>info. spp_port_ability_get_info s p d = Some info \<and> length info = SPP_PORT_ABILITY_MAX"
proof -
  have r: "rd (g_port_mng_info s) p = Some (g_port_mng_info s ! nat p)" using assms by (intro rd_ok)
  have "g_port_mng_info s ! nat p \<in> set (g_port_mng_info s)" using assms by (intro nth_mem) auto
  then obtain m where m: "ability_mng s p d = Some m" "wf_ability_mng m"
    using assms r by (auto simp: ability_mng_def wf_ports_def)
  then have "rd (pa_ability m) (pa_ref_index m) = Some (pa_ability m ! nat (pa_ref_index m))"
    by (intro rd_ok) (auto simp: wf_ability_mng_def SPP_INFO_AREA_MAX_def)
  moreover have "pa_ability m ! nat (pa_ref_index m) \<in> set (pa_ability m)"
    using m(2) by (intro nth_mem) (auto simp: wf_ability_mng_def SPP_INFO_AREA_MAX_def)
  ultimately show ?thesis using m by (auto simp: spp_port_ability_get_info_def wf_ability_mng_def)
qed

lemma free_packets_load:
  assumes "mem_laws D held" and "free_packets D ids w = Some w'" and "j \<notin> set ids"
  shows "mbuf_load D w' j = mbuf_load D w j"
  using assms(2,3)
proof (induction ids arbitrary: w)
  case (Cons i ids)
  then obtain w1 where w1: "rte_pktmbuf_free D i w = Some w1" "free_packets D ids w1 = Some w'"
    by (auto elim: bind_SomeE)
  then show ?case using Cons mem_free [OF assms(1) w1(1)] by auto
qed simp

lemma each_operation_ok:
  assumes D: "mbuf_laws D" and H: "io_laws D held" and M: "mem_laws D held" and wf: "wf_ports s"
    and p: "0 \<le> p" "p < int (length (g_port_mng_info s))"
    and d: "d = SPP_PORT_RXTX_RX \<or> d = SPP_PORT_RXTX_TX"
    and pk: "distinct pkts" "mset pkts \<subseteq># held w"
    and room: "\<forall>i\<in>set pkts. mbuf_fit b (SPP_PORT_ABILITY_MAX + k) (mbuf_load D w i)"
  shows "\<exists>ok w'. port_ability_each_operation D s p pkts d w = Some (ok, w') \<and> ok \<le> length pkts \<and>
    held w' = held w - mset (drop ok pkts) \<and>
    (\<forall>i\<in>set (take ok pkts). mbuf_fit b k (mbuf_load D w' i)) \<and> (b \<longrightarrow> ok = length pkts)"
proof -
  obtain info where info: "spp_port_ability_get_info s p d = Some info" "length info = SPP_PORT_ABILITY_MAX"
    using get_info_ok [OF wf p d] by blast
  have i0: "rd info 0 = Some (info ! 0)" using info(2) by (simp add: rd_def SPP_PORT_ABILITY_MAX_def)
  show ?thesis
  proof (cases "ope (info ! 0) = SPP_PORT_ABILITY_OPE_NONE")
    case True
    have "\<forall>i\<in>set pkts. mbuf_fit b k (mbuf_load D w i)" using room mbuf_fit_mono le_add2 by blast
    then show ?thesis using info i0 True by (simp add: port_ability_each_operation_def)
  next
    case False
    obtain ok w1 where ops: "ability_ops D (g_vlan_tpid s) (data (info ! 0)) info pkts (length pkts) w = Some (ok, w1)"
        "ok \<le> length pkts" "held w1 = held w" "\<forall>i\<in>set pkts. mbuf_fit b k (mbuf_load D w1 i)"
        "b \<longrightarrow> ok = length pkts"
      using ability_ops_room [OF D H _ pk(1), of b info k w "length pkts" "g_vlan_tpid s" "data (info ! 0)"]
        room info(2) by auto
    have sub: "mset (drop ok pkts) \<subseteq># held w1"
      using pk(2) ops(3) mset_subset_eq_add_right [of "mset (drop ok pkts)" "mset (take ok pkts)"]
      by (metis append_take_drop_id mset_append subset_mset.dual_order.trans)
    obtain w2 where w2: "free_packets D (drop ok pkts) w1 = Some w2" "held w2 = held w1 - mset (drop ok pkts)"
      using free_packets_ok [OF H sub] by blast
    have "mbuf_fit b k (mbuf_load D w2 i)" if "i \<in> set (take ok pkts)" for i
    proof -
      have "i \<notin> set (drop ok pkts)" using that pk(1) set_take_disj_set_drop_if_distinct [of pkts ok ok] by auto
      then show ?thesis using free_packets_load [OF M w2(1)] ops(4) that by (auto dest: in_set_takeD)
    qed
    then show ?thesis using info i0 False ops w2
      by (auto simp: port_ability_each_operation_def)
  qed
qed

text \<open>The device delivers packets with room for k VLAN operations.\<close>

definition rx_room :: "'w dpdk \<Rightarrow> bool \<Rightarrow> nat \<Rightarrow> bool" where
  "rx_room D b k \<longleftrightarrow> (\<forall>p n w ids w'. rte_eth_rx_burst D p n w = (ids, w') \<longrightarrow>
     (\<forall>i\<in>set ids. mbuf_fit b k (mbuf_load D w' i)))"

lemma spp_eth_rx_ok:
  assumes D: "mbuf_laws D" and H: "io_laws D held" and M: "mem_laws D held" and wf: "wf_ports s"
    and p: "0 \<le> p" "p < int (length (g_port_mng_info s))" "p < 2 ^ 16"
    and room: "rx_room D b (SPP_PORT_ABILITY_MAX + k)"
  shows "\<exists>pkts nb w'. spp_eth_rx_burst D s p n w = Some (pkts, nb, w') \<and> nb \<le> length pkts \<and>
    length pkts \<le> n \<and> distinct pkts \<and> held w' = held w + mset (take nb pkts) \<and>
    (\<forall>i\<in>set (take nb pkts). i \<notin># held w \<and> mbuf_fit b k (mbuf_load D w' i))"
proof -
  obtain pkts w1 where rx: "rte_eth_rx_burst D p n w = (pkts, w1)" by fastforce
  have hl: "length pkts \<le> n" "held w1 = held w + mset pkts" using io_rx [OF H rx] by auto
  have ml: "distinct pkts" "\<forall>i\<in>set pkts. i \<notin># held w" using mem_rx [OF M rx] by auto
  have pid: "to_uint16 p = p" using p by simp
  show ?thesis
  proof (cases "pkts = []")
    case True
    then show ?thesis using rx hl pid by (auto simp: spp_eth_rx_burst_def)
  next
    case False
    have "\<forall>i\<in>set pkts. mbuf_fit b (SPP_PORT_ABILITY_MAX + k) (mbuf_load D w1 i)"
      using room rx by (auto simp: rx_room_def)
    moreover have "mset pkts \<subseteq># held w1" by (simp add: hl(2))
    ultimately obtain ok w2 where e: "port_ability_each_operation D s p pkts SPP_PORT_RXTX_RX w1 = Some (ok, w2)"
        "ok \<le> length pkts" "held w2 = held w1 - mset (drop ok pkts)"
        "\<forall>i\<in>set (take ok pkts). mbuf_fit b k (mbuf_load D w2 i)"
      using each_operation_ok [OF D H M wf p(1,2) _ ml(1)] by blast
    have "held w2 = held w + mset (take ok pkts)"
      using e(3) hl(2) by (metis add_diff_cancel_right' append_take_drop_id mset_append union_assoc)
    then show ?thesis using e hl ml rx False pid
      by (auto simp: spp_eth_rx_burst_def dest: in_set_takeD)
  qed
qed

lemma spp_eth_tx_ok:
  assumes D: "mbuf_laws D" and H: "io_laws D held" and M: "mem_laws D held" and wf: "wf_ports s"
    and p: "0 \<le> p" "p < int (length (g_port_mng_info s))" "p < 2 ^ 16"
    and pk: "distinct pkts" "mset pkts \<subseteq># held w"
    and room: "\<forall>i\<in>set pkts. mbuf_fit b SPP_PORT_ABILITY_MAX (mbuf_load D w i)"
  shows "\<exists>nb ok w'. spp_eth_tx_burst D s p pkts w = Some (nb, w') \<and> nb \<le> ok \<and> ok \<le> length pkts \<and>
    held w' = held w - mset (drop ok pkts) - mset (take nb pkts) \<and> (b \<longrightarrow> ok = length pkts)"
proof -
  obtain ok w1 where e: "port_ability_each_operation D s p pkts SPP_PORT_RXTX_TX w = Some (ok, w1)"
      "ok \<le> length pkts" "held w1 = held w - mset (drop ok pkts)" "b \<longrightarrow> ok = length pkts"
    using each_operation_ok [OF D H M wf p(1,2) _ pk, of SPP_PORT_RXTX_TX b 0] room by auto
  have pid: "to_uint16 p = p" using p by simp
  show ?thesis
  proof (cases "ok = 0")
    case True
    then show ?thesis using e pid by (auto simp: spp_eth_tx_burst_def)
  next
    case False
    have "mset pkts = mset (drop ok pkts) + mset (take ok pkts)"
      by (metis append_take_drop_id mset_append union_commute)
    then have "mset (take ok pkts) \<subseteq># held w1"
      using pk(2) by (simp add: e(3) subset_diff_add)
    then obtain nb w2 where "rte_eth_tx_burst D p (take ok pkts) w1 = Some (nb, w2)" "nb \<le> length (take ok pkts)"
        "held w2 = held w1 - mset (take nb (take ok pkts))"
      using io_tx [OF H] by blast
    moreover from this have "nb \<le> ok" using e(2) by simp
    ultimately have "spp_eth_tx_burst D s p pkts w = Some (nb, w2) \<and> nb \<le> ok \<and> ok \<le> length pkts \<and>
        held w2 = held w - mset (drop ok pkts) - mset (take nb pkts) \<and> (b \<longrightarrow> ok = length pkts)"
      using e False pid by (simp add: spp_eth_tx_burst_def min_def)
    then show ?thesis by blast
  qed
qed

section \<open>Ports without abilities\<close>

text \<open>A port without abilities hands the packets through.\<close>

definition plain_port :: "'z port_data_scheme \<Rightarrow> int \<Rightarrow> spp_port_rxtx \<Rightarrow> bool" where
  "plain_port s p d \<longleftrightarrow> 0 \<le> p \<and> p < 2 ^ 16 \<and>
    (\<exists>a as. spp_port_ability_get_info s p d = Some (a # as) \<and> ope a = SPP_PORT_ABILITY_OPE_NONE)"

lemma plain_operation:
  assumes "plain_port s p d"
  shows "port_ability_each_operation D s p pkts d w = Some (length pkts, w)" and "to_uint16 p = p" and "0 \<le> p"
  using assms by (auto simp: plain_port_def port_ability_each_operation_def rd_def)

lemma plain_tx: "plain_port s p SPP_PORT_RXTX_TX \<Longrightarrow> pkts \<noteq> [] \<Longrightarrow>
    spp_eth_tx_burst D s p pkts w = rte_eth_tx_burst D p pkts w"
  using plain_operation(2) [of s p SPP_PORT_RXTX_TX]
  by (simp add: spp_eth_tx_burst_def plain_operation(1))

lemma plain_rx: "plain_port s p SPP_PORT_RXTX_RX \<Longrightarrow>
    spp_eth_rx_burst D s p n w =
      (let (pkts, w1) = rte_eth_rx_burst D p n w in Some (pkts, length pkts, w1))"
  using plain_operation(2) [of s p SPP_PORT_RXTX_RX]
  by (auto simp: spp_eth_rx_burst_def Let_def plain_operation(1) split: prod.splits)

end
