(* ===== verification/Port_Ability.thy ===== *)
theory Port_Ability
  imports Spp_Port
begin

text \<open>
  The double-buffered ability tables of vf/common/spp_port.c: they keep the contract of
  Double_Buffer, and the abilities set for a port are what the packet operations use after
  the index change, and not before.
\<close>

definition put_ability :: "spp_port_ability list \<Rightarrow> port_ability_mng_info \<Rightarrow> port_ability_mng_info" where
  "put_ability x m = m\<lparr>pa_ability := (pa_ability m)[nat (pa_upd_index m) := x]\<rparr>"

definition publish_ability :: "port_ability_mng_info \<Rightarrow> port_ability_mng_info" where
  "publish_ability m = m\<lparr>pa_upd_index := pa_ref_index m\<rparr>"

interpretation ability_buffer: double_buffer pa_ref_index pa_upd_index pa_ability
  put_ability publish_ability flip_ability
  by unfold_locales
    (auto simp: put_ability_def publish_ability_def flip_ability_def other_area_flip
      dest: other_area_flip [OF other_area_sym])

lemma ability_mng_set_same:
  "set_ability_mng p d m s = Some s' \<Longrightarrow> ability_mng s' p d = Some m"
  by (cases d) (auto simp: set_ability_mng_def ability_mng_def bind_Some_iff rd_wr_same)

lemma ability_mng_rx_tx: "ability_mng s p d = Some m \<Longrightarrow> d = SPP_PORT_RXTX_RX \<or> d = SPP_PORT_RXTX_TX"
  by (cases d) (auto simp: ability_mng_def bind_Some_iff)

lemma set_ability_mng_ok:
  "ability_mng s p d = Some m0 \<Longrightarrow> \<exists>s'. set_ability_mng p d m s = Some s' \<and>
    length (g_port_mng_info s') = length (g_port_mng_info s) \<and>
    g_vlan_tpid s' = g_vlan_tpid s \<and>
    chg_num_rx s' = chg_num_rx s \<and> chg_num_tx s' = chg_num_tx s \<and>
    chg_rx_list s' = chg_rx_list s \<and> chg_tx_list s' = chg_tx_list s"
  by (cases d) (auto simp: set_ability_mng_def ability_mng_def bind_Some_iff rdwr intro!: exI)

lemma ability_mng_lists [simp]:
  "ability_mng (s\<lparr>chg_rx_list := l, chg_num_rx := n\<rparr>) p d = ability_mng s p d"
  "ability_mng (s\<lparr>chg_tx_list := l, chg_num_tx := n\<rparr>) p d = ability_mng s p d"
  "ability_mng (s\<lparr>chg_rx_list := l, chg_tx_list := l', chg_num_rx := n, chg_num_tx := n'\<rparr>) p d =
    ability_mng s p d"
  by (simp_all add: ability_mng_def)

definition pending :: "spp_port_rxtx \<Rightarrow> 'z port_data_scheme \<Rightarrow> int \<times> int list" where
  "pending d s = (if d = SPP_PORT_RXTX_RX then (chg_num_rx s, chg_rx_list s) else (chg_num_tx s, chg_tx_list s))"

text \<open>Publishing one port: its index is published and it is the only entry of the list.\<close>

lemma chg_index_upd_one:
  assumes m: "ability_mng s p d = Some m" and "chg_num_rx s = 0" and "chg_num_tx s = 0"
    and "chg_rx_list s \<noteq> []" and "chg_tx_list s \<noteq> []"
  shows "\<exists>s'. chg_index_upd p d s = Some s' \<and> ability_mng s' p d = Some (publish_ability m) \<and>
    fst (pending d s') = 1 \<and> snd (pending d s') \<noteq> [] \<and> hd (snd (pending d s')) = p \<and>
    (\<forall>d'\<in>{SPP_PORT_RXTX_RX, SPP_PORT_RXTX_TX}. d' \<noteq> d \<longrightarrow> fst (pending d' s') = 0)"
proof -
  obtain s1 where s1: "set_ability_mng p d (publish_ability m) s = Some s1"
      "chg_num_rx s1 = 0" "chg_num_tx s1 = 0" "chg_rx_list s1 \<noteq> []" "chg_tx_list s1 \<noteq> []"
    using set_ability_mng_ok [OF m, of "publish_ability m"] assms(2-5) by auto
  have a: "ability_mng s1 p d = Some (publish_ability m)" using ability_mng_set_same [OF s1(1)] .
  have w: "wr (chg_rx_list s1) 0 p = Some (p # tl (chg_rx_list s1))"
      "wr (chg_tx_list s1) 0 p = Some (p # tl (chg_tx_list s1))"
    using s1(4,5) by (cases "chg_rx_list s1"; cases "chg_tx_list s1"; simp add: wr_def)+
  show ?thesis
    using ability_mng_rx_tx [OF m]
  proof
    assume "d = SPP_PORT_RXTX_RX"
    then show ?thesis using m s1 a w
      by (simp add: chg_index_upd_def publish_ability_def [symmetric] pending_def)
  next
    assume "d = SPP_PORT_RXTX_TX"
    then show ?thesis using m s1 a w
      by (simp add: chg_index_upd_def publish_ability_def [symmetric] pending_def)
  qed
qed

lemma chg_index_ref_one:
  assumes m: "ability_mng s p d = Some m" and l: "fst (pending d s) = 1" "snd (pending d s) \<noteq> []"
      "hd (snd (pending d s)) = p"
    and o: "\<forall>d'\<in>{SPP_PORT_RXTX_RX, SPP_PORT_RXTX_TX}. d' \<noteq> d \<longrightarrow> fst (pending d' s) = 0"
  shows "\<exists>s'. spp_port_ability_change_index PORT_ABILITY_CHG_INDEX_REF 0 d' s = Some s' \<and>
    ability_mng s' p d = Some (flip_ability m) \<and> chg_num_rx s' = 0 \<and> chg_num_tx s' = 0"
proof -
  obtain s1 where s1: "set_ability_mng p d (flip_ability m) s = Some s1"
      "chg_num_rx s1 = chg_num_rx s" "chg_num_tx s1 = chg_num_tx s"
      "chg_rx_list s1 = chg_rx_list s" "chg_tx_list s1 = chg_tx_list s"
    using set_ability_mng_ok [OF m, of "flip_ability m"] by auto
  have a: "ability_mng s1 p d = Some (flip_ability m)" using ability_mng_set_same [OF s1(1)] .
  obtain ps where ps: "snd (pending d s) = p # ps" using l(2,3) by (cases "snd (pending d s)") auto
  have loop: "rd (p # ps) 0 = Some p" "wr (p # ps) 0 0 = Some (0 # ps)"
    by (simp_all add: rd_def wr_def)
  show ?thesis
    using ability_mng_rx_tx [OF m]
  proof
    assume "d = SPP_PORT_RXTX_RX"
    then show ?thesis using l o ps loop s1 a m
      by (simp add: spp_port_ability_change_index_def pending_def)
  next
    assume "d = SPP_PORT_RXTX_TX"
    then show ?thesis using l o ps loop s1 a m
      by (simp add: spp_port_ability_change_index_def pending_def)
  qed
qed

text \<open>Setting the abilities of a port changes nothing for the packets until the worker
  changes the index: before, the table in use is the old one; after the index change it
  holds exactly the abilities of that direction of the port, in their order, with the tag
  control information of the added tags computed, padded with unused entries.\<close>
theorem port_ability_published:
  assumes "load_port s p = Some port" and "dpdk_port port = i"
    and "ability_mng s i d = Some m" and "ability_buffer.settled m"
    and "chg_num_rx s = 0" and "chg_num_tx s = 0" and "chg_rx_list s \<noteq> []" and "chg_tx_list s \<noteq> []"
  shows "\<exists>s1 s2. port_ability_set_ability p d s = Some s1 \<and>
    spp_port_ability_get_info s1 i d = spp_port_ability_get_info s i d \<and>
    spp_port_ability_change_index PORT_ABILITY_CHG_INDEX_REF 0 d' s1 = Some s2 \<and>
    spp_port_ability_get_info s2 i d = Some (out_abilities d (ability port) @
      replicate (SPP_PORT_ABILITY_MAX - length (out_abilities d (ability port))) zero_ability)"
proof -
  define out where "out = out_abilities d (ability port) @
      replicate (SPP_PORT_ABILITY_MAX - length (out_abilities d (ability port))) zero_ability"
  have d: "d = SPP_PORT_RXTX_RX \<or> d = SPP_PORT_RXTX_TX" using ability_mng_rx_tx [OF assms(3)] .
  obtain pm where pm: "rd (g_port_mng_info s) i = Some pm" using assms(3) by (auto simp: ability_mng_def bind_Some_iff)
  obtain pms where pms: "wr (g_port_mng_info s) i
      (pm\<lparr>pm_iface_type := iface_type port, pm_iface_no := iface_no port\<rparr>) = Some pms"
    using pm by (auto simp: rdwr)
  define s0 where "s0 = s\<lparr>g_port_mng_info := pms\<rparr>"
  have m0: "ability_mng s0 i d = Some m"
    using assms(3) pm rd_wr_same [OF pms] d by (auto simp: ability_mng_def s0_def)
  have w: "wr (pa_ability m) (pa_upd_index m) out = Some (pa_ability (put_ability out m))"
    using assms(4) by (auto simp: ability_buffer.settled_def other_area_def put_ability_def
        SPP_INFO_AREA_MAX_def wr_def)
  obtain s1 where s1: "set_ability_mng i d (put_ability out m) s0 = Some s1"
      "chg_num_rx s1 = 0" "chg_num_tx s1 = 0" "chg_rx_list s1 \<noteq> []" "chg_tx_list s1 \<noteq> []"
    using set_ability_mng_ok [OF m0, of "put_ability out m"] assms(5-8) by (auto simp: s0_def)
  obtain s2 where s2: "chg_index_upd i d s1 = Some s2"
      "ability_mng s2 i d = Some (publish_ability (put_ability out m))"
      "fst (pending d s2) = 1" "snd (pending d s2) \<noteq> []" "hd (snd (pending d s2)) = i"
      "\<forall>d'\<in>{SPP_PORT_RXTX_RX, SPP_PORT_RXTX_TX}. d' \<noteq> d \<longrightarrow> fst (pending d' s2) = 0"
    using chg_index_upd_one [OF ability_mng_set_same [OF s1(1)] s1(2-5)] by blast
  obtain s3 where s3: "spp_port_ability_change_index PORT_ABILITY_CHG_INDEX_REF 0 d' s2 = Some s3"
      "ability_mng s3 i d = Some (flip_ability (publish_ability (put_ability out m)))"
    using chg_index_ref_one [OF s2(2-6)] by blast
  have eq: "m\<lparr>pa_ability := pa_ability (put_ability out m)\<rparr> = put_ability out m"
    by (simp add: put_ability_def)
  have run: "port_ability_set_ability p d s = Some s2"
    using assms(1,2) pm pms m0 w s1(1) s2(1)
    by (simp add: port_ability_set_ability_def out_def [symmetric] s0_def [symmetric] Let_def eq
        spp_port_ability_change_index_def)
  have use: "ability_mng t i d = Some a \<Longrightarrow> ability_buffer.settled a \<or> pa_ref_index a = pa_ref_index m \<and> length (pa_ability a) = SPP_INFO_AREA_MAX \<Longrightarrow>
      spp_port_ability_get_info t i d = Some (ability_buffer.in_use a)" for t :: "'a port_data_scheme" and a
    using assms(4)
    by (auto simp: spp_port_ability_get_info_def ability_buffer.settled_def ability_buffer.in_use_def
        other_area_def rd_def SPP_INFO_AREA_MAX_def)
  note fl = ability_buffer.flip_publish_put [OF assms(4), of out]
  have "spp_port_ability_get_info s3 i d = Some out" using use [OF s3(2)] fl by simp
  moreover have "spp_port_ability_get_info s2 i d = spp_port_ability_get_info s i d"
  proof -
    have "pa_ref_index (publish_ability (put_ability out m)) = pa_ref_index m"
      "length (pa_ability (publish_ability (put_ability out m))) = SPP_INFO_AREA_MAX"
      using assms(4) by (auto simp: publish_ability_def put_ability_def ability_buffer.settled_def)
    then show ?thesis
      using use [OF s2(2)] use [OF assms(3)] assms(4) ability_buffer.put_in_use [OF assms(4)]
      by (simp add: ability_buffer.publish_in_use)
  qed
  ultimately show ?thesis using run s3(1) unfolding out_def by blast
qed

end
