(* ===== verification/Spp_Forward.thy ===== *)
theory Spp_Forward
  imports Port_Ability
begin

text \<open>
  vf/spp_forward.c: the forwarder and merger components.  The main thread copies the ports
  of a component into the update area of its double-buffered path and waits for the worker;
  the worker receives from every rx port and sends to the tx port.

  The argument env of spp_forward_update is what the other threads do in one step, and the
  argument sched the steps they take while the main thread waits.
\<close>

record forward_rxtx =
  fw_rx :: spp_port_info
  fw_tx :: spp_port_info

record forward_path =
  fp_name :: string
  fp_type :: spp_component_type
  fp_num_rx :: int
  fp_num_tx :: int
  fp_ports :: "forward_rxtx list"

record forward_info =
  fi_ref_index :: int
  fi_upd_index :: int
  fi_path :: "forward_path list"

record forward_data = port_data +
  g_forward_info :: "forward_info list"

definition MAX_PKT_BURST :: nat where "MAX_PKT_BURST = 32"

definition zero_rxtx :: forward_rxtx where
  "zero_rxtx = \<lparr>fw_rx = zero_port, fw_tx = zero_port\<rparr>"

definition zero_path :: "nat \<Rightarrow> forward_path" where
  "zero_path n = \<lparr>fp_name = [], fp_type = SPP_COMPONENT_UNUSE, fp_num_rx = 0, fp_num_tx = 0,
     fp_ports = replicate n zero_rxtx\<rparr>"

section \<open>Operations\<close>

definition spp_forward_init :: "'z forward_data_scheme \<Rightarrow> 'z forward_data_scheme" where
  "spp_forward_init s = s\<lparr>g_forward_info := replicate (length (g_forward_info s))
     \<lparr>fi_ref_index = 0, fi_upd_index = 1,
      fi_path = replicate SPP_INFO_AREA_MAX (zero_path (length (nic (g_iface_info s))))\<rparr>\<rparr>"

text \<open>The loops that copy the port structures; the second copies the only tx port.\<close>

fun fill_rx :: "'z manage_data_scheme \<Rightarrow> port_ptr list \<Rightarrow> nat \<Rightarrow> forward_rxtx list \<Rightarrow>
    forward_rxtx list option" where
  "fill_rx s ptrs 0 ps = Some ps"
| "fill_rx s ptrs (Suc k) ps = do {
     ps' \<leftarrow> fill_rx s ptrs k ps;
     p \<leftarrow> rd ptrs (int k);
     v \<leftarrow> load_port s p;
     r \<leftarrow> rd ps' (int k);
     wr ps' (int k) (r\<lparr>fw_rx := v\<rparr>)
   }"

fun fill_tx :: "'z manage_data_scheme \<Rightarrow> port_ptr list \<Rightarrow> nat \<Rightarrow> forward_rxtx list \<Rightarrow>
    forward_rxtx list option" where
  "fill_tx s ptrs 0 ps = Some ps"
| "fill_tx s ptrs (Suc k) ps = do {
     ps' \<leftarrow> fill_tx s ptrs k ps;
     p \<leftarrow> rd ptrs 0;
     v \<leftarrow> load_port s p;
     r \<leftarrow> rd ps' (int k);
     wr ps' (int k) (r\<lparr>fw_tx := v\<rparr>)
   }"

definition forward_pending :: "int \<Rightarrow> 'z forward_data_scheme \<Rightarrow> bool option" where
  "forward_pending i s = do {
     info \<leftarrow> rd (g_forward_info s) i;
     Some (fi_ref_index info = fi_upd_index info)
   }"

definition spp_forward_update ::
  "('e \<Rightarrow> 'z forward_data_scheme \<Rightarrow> 'z forward_data_scheme option) \<Rightarrow> 'e list \<Rightarrow>
   spp_component_info \<Rightarrow> 'z forward_data_scheme \<Rightarrow>
   (int \<times> 'e list \<times> 'z forward_data_scheme) option" where
  "spp_forward_update env sched c s = do {
     let num_rx = num_rx_port c;
     let num_tx = num_tx_port c;
     let mx = (if num_rx > num_tx then num_rx * num_tx else num_tx);
     info \<leftarrow> rd (g_forward_info s) (component_id c);
     path \<leftarrow> rd (fi_path info) (fi_upd_index info);
     if comp_type c = SPP_COMPONENT_FORWARD \<and> num_rx > 1 then Some (SPP_RET_NG, sched, s)
     else if num_tx \<noteq> 0 \<and> num_tx \<noteq> 1 then Some (SPP_RET_NG, sched, s)
     else do {
       ps1 \<leftarrow> fill_rx s (rx_ports c) (nat num_rx) (replicate (length (fp_ports path)) zero_rxtx);
       ps2 \<leftarrow> fill_tx s (tx_ports c) (nat mx) ps1;
       paths \<leftarrow> wr (fi_path info) (fi_upd_index info)
         \<lparr>fp_name = name c, fp_type = comp_type c, fp_num_rx = num_rx, fp_num_tx = num_tx,
          fp_ports = ps2\<rparr>;
       infos \<leftarrow> wr (g_forward_info s) (component_id c)
         (info\<lparr>fi_path := paths, fi_upd_index := fi_ref_index info\<rparr>);
       (sched', s') \<leftarrow> wait_while (forward_pending (component_id c)) env sched
         (s\<lparr>g_forward_info := infos\<rparr>);
       Some (SPP_RET_OK, sched', s')
     }
   }"

definition flip_forward :: "forward_info \<Rightarrow> forward_info" where
  "flip_forward info =
    (if fi_ref_index info = fi_upd_index info
     then info\<lparr>fi_ref_index := flip_index (fi_upd_index info)\<rparr> else info)"

definition change_forward_index ::
  "int \<Rightarrow> 'z forward_data_scheme \<Rightarrow> 'z forward_data_scheme option" where
  "change_forward_index i s = do {
     info \<leftarrow> rd (g_forward_info s) i;
     if fi_ref_index info = fi_upd_index info
     then do {
       s1 \<leftarrow> spp_port_ability_change_index PORT_ABILITY_CHG_INDEX_REF 0 SPP_PORT_RXTX_NONE s;
       infos \<leftarrow> wr (g_forward_info s1) i (flip_forward info);
       Some (s1\<lparr>g_forward_info := infos\<rparr>)
     }
     else Some s
   }"

text \<open>The loop over the rx ports; nb_tx keeps its value from one port to the next.\<close>

fun forward_loop ::
  "'w dpdk \<Rightarrow> 'z port_data_scheme \<Rightarrow> forward_rxtx list \<Rightarrow> nat \<Rightarrow> nat \<Rightarrow> nat \<Rightarrow> 'w \<Rightarrow> 'w option" where
  "forward_loop D s ports cnt 0 nb_tx w = Some w"
| "forward_loop D s ports cnt (Suc left) nb_tx w = do {
     r \<leftarrow> rd ports (int cnt);
     (bufs, nb_rx, w1) \<leftarrow> spp_eth_rx_burst D s (dpdk_port (fw_rx r)) MAX_PKT_BURST w;
     if nb_rx = 0 then forward_loop D s ports (Suc cnt) left nb_tx w1
     else do {
       (nb_tx', w2) \<leftarrow> (if dpdk_port (fw_tx r) \<ge> 0
         then spp_eth_tx_burst D s (dpdk_port (fw_tx r)) (take nb_rx bufs) w1
         else Some (nb_tx, w1));
       w3 \<leftarrow> (if nb_tx' < nb_rx then free_packets D (drop nb_tx' (take nb_rx bufs)) w2 else Some w2);
       forward_loop D s ports (Suc cnt) left nb_tx' w3
     }
   }"

definition path_ready :: "forward_path \<Rightarrow> bool" where
  "path_ready path =
    (if fp_type path = SPP_COMPONENT_MERGE then fp_num_tx path = 1 \<and> fp_num_rx path \<ge> 1
     else fp_num_tx path = 1 \<and> fp_num_rx path = 1)"

definition spp_forward ::
  "'w dpdk \<Rightarrow> int \<Rightarrow> 'z forward_data_scheme \<Rightarrow> 'w \<Rightarrow> (int \<times> 'z forward_data_scheme \<times> 'w) option" where
  "spp_forward D i s w = do {
     s1 \<leftarrow> change_forward_index i s;
     info \<leftarrow> rd (g_forward_info s1) i;
     path \<leftarrow> rd (fi_path info) (fi_ref_index info);
     if \<not> path_ready path then Some (SPP_RET_OK, s1, w)
     else do {
       w1 \<leftarrow> forward_loop D s1 (fp_ports path) 0 (nat (fp_num_rx path)) 0 w;
       Some (SPP_RET_OK, s1, w1)
     }
   }"

text \<open>The status of a component is handed to the procedure of the caller.\<close>

definition port_index_of :: "spp_port_info \<Rightarrow> spp_port_index" where
  "port_index_of p = \<lparr>pi_iface_type = iface_type p, pi_iface_no = iface_no p\<rparr>"

definition spp_forward_get_component_status ::
  "'z forward_data_scheme \<Rightarrow> int \<Rightarrow> int \<Rightarrow>
   (int \<Rightarrow> string \<Rightarrow> string \<Rightarrow> spp_port_index list \<Rightarrow> spp_port_index list \<Rightarrow> 'o \<Rightarrow> (int \<times> 'o) option) \<Rightarrow>
   'o \<Rightarrow> (int \<times> 'o) option" where
  "spp_forward_get_component_status s lcore i element_proc out = do {
     info \<leftarrow> rd (g_forward_info s) i;
     path \<leftarrow> rd (fi_path info) (fi_ref_index info);
     if fp_type path = SPP_COMPONENT_UNUSE then Some (SPP_RET_NG, out)
     else do {
       let ctype = (if fp_type path = SPP_COMPONENT_MERGE then ''merge'' else ''forward'');
       ensure (fp_num_rx path \<le> int (length (fp_ports path)));
       ensure (fp_num_tx path \<le> int (length (fp_ports path)));
       (ret, out') \<leftarrow> element_proc lcore (fp_name path) ctype
         (List.map (port_index_of \<circ> fw_rx) (take (nat (fp_num_rx path)) (fp_ports path)))
         (List.map (port_index_of \<circ> fw_tx) (take (nat (fp_num_tx path)) (fp_ports path))) out;
       if ret \<noteq> SPP_RET_OK then Some (SPP_RET_NG, out') else Some (SPP_RET_OK, out')
     }
   }"

section \<open>The path keeps the double buffer contract\<close>

definition put_path :: "forward_path \<Rightarrow> forward_info \<Rightarrow> forward_info" where
  "put_path x info = info\<lparr>fi_path := (fi_path info)[nat (fi_upd_index info) := x]\<rparr>"

definition publish_path :: "forward_info \<Rightarrow> forward_info" where
  "publish_path info = info\<lparr>fi_upd_index := fi_ref_index info\<rparr>"

interpretation path_buffer: double_buffer fi_ref_index fi_upd_index fi_path
  put_path publish_path flip_forward
  by unfold_locales (auto simp: put_path_def publish_path_def flip_forward_def)

section \<open>No packet is lost or freed twice\<close>

definition dpdk_port_ok :: "'z port_data_scheme \<Rightarrow> spp_port_info \<Rightarrow> bool" where
  "dpdk_port_ok s p \<longleftrightarrow> 0 \<le> dpdk_port p \<and> dpdk_port p < int (length (g_port_mng_info s)) \<and>
    dpdk_port p < 2 ^ 16"

lemma discard_rest:
  assumes H: "io_laws D held" and "held w = h + mset (drop k pkts)"
  shows "\<exists>w'. (if k < length pkts then free_packets D (drop k pkts) w else Some w) = Some w' \<and> held w' = h"
proof (cases "k < length pkts")
  case True
  then show ?thesis using free_packets_ok [OF H, of "drop k pkts" w] assms(2) by auto
qed (use assms(2) in simp)

lemma forward_loop_ok:
  assumes laws: "mbuf_laws D" "io_laws D held" "mem_laws D held" and wf: "wf_ports s"
    and room: "rx_room D True (SPP_PORT_ABILITY_MAX + SPP_PORT_ABILITY_MAX)"
    and len: "cnt + left \<le> length ports"
    and ok: "\<forall>r\<in>set ports. dpdk_port_ok s (fw_rx r) \<and> dpdk_port_ok s (fw_tx r)"
  shows "\<exists>w'. forward_loop D s ports cnt left nb_tx w = Some w' \<and> held w' = held w"
  using len
proof (induction left arbitrary: cnt nb_tx w)
  case (Suc left)
  have r: "rd ports (int cnt) = Some (ports ! cnt)" using Suc.prems by (intro rd_nat) simp
  have p: "dpdk_port_ok s (fw_rx (ports ! cnt))" "dpdk_port_ok s (fw_tx (ports ! cnt))"
    using ok Suc.prems by auto
  obtain bufs nb w1 where rx:
      "spp_eth_rx_burst D s (dpdk_port (fw_rx (ports ! cnt))) MAX_PKT_BURST w = Some (bufs, nb, w1)"
      "nb \<le> length bufs" "distinct bufs" "held w1 = held w + mset (take nb bufs)"
      "\<forall>i\<in>set (take nb bufs). mbuf_fit True SPP_PORT_ABILITY_MAX (mbuf_load D w1 i)"
    using spp_eth_rx_ok [OF laws wf _ _ _ room] p(1) unfolding dpdk_port_ok_def by blast
  have len: "Suc cnt + left \<le> length ports" using Suc.prems by simp
  show ?case
  proof (cases "nb = 0")
    case True
    then show ?thesis using r rx Suc.IH [OF len, of nb_tx w1] by simp
  next
    case False
    define pkts where "pkts = take nb bufs"
    have pk: "distinct pkts" "mset pkts \<subseteq># held w1" "length pkts = nb"
      using rx(2-4) by (simp_all add: pkts_def)
    obtain n ok' w2 where tx: "spp_eth_tx_burst D s (dpdk_port (fw_tx (ports ! cnt))) pkts w1 = Some (n, w2)"
        "n \<le> ok'" "ok' = length pkts" "held w2 = held w1 - mset (drop ok' pkts) - mset (take n pkts)"
      using spp_eth_tx_ok [OF laws wf _ _ _ pk(1,2), where b = True] p(2) rx(5)
      unfolding dpdk_port_ok_def pkts_def by blast
    have "mset pkts = mset (take n pkts) + mset (drop n pkts)"
      by (metis append_take_drop_id mset_append)
    then have h2: "held w2 = held w + mset (drop n pkts)"
      using tx(3,4) rx(4) by (simp add: pkts_def [symmetric])
    obtain w3 where w3: "(if n < length pkts then free_packets D (drop n pkts) w2 else Some w2) = Some w3"
        "held w3 = held w"
      using discard_rest [OF laws(2) h2] by blast
    have tp: "0 \<le> dpdk_port (fw_tx (ports ! cnt))" using p(2) by (simp add: dpdk_port_ok_def)
    show ?thesis
      using r rx(1) False tx(1) tp w3 Suc.IH [OF len, of n w3] pk(3)
      by (cases "n < nb") (simp_all add: pkts_def [symmetric])
  qed
qed simp

text \<open>C4: One round of a forwarder or merger returns every packet it received to the device or
  to the pool exactly once: when the devices deliver packets with headroom for their VLAN
  operations, spp_forward returns SPP_RET_OK and the application holds the same packet
  references as before, whatever the transmit queues accept.\<close>
theorem spp_forward_conserves_packets:
  assumes "mbuf_laws D" and "io_laws D held" and "mem_laws D held"
    and "rx_room D True (SPP_PORT_ABILITY_MAX + SPP_PORT_ABILITY_MAX)"
    and "change_forward_index i s = Some s1" and "wf_ports s1"
    and "rd (g_forward_info s1) i = Some info"
    and "rd (fi_path info) (fi_ref_index info) = Some path"
    and "fp_num_rx path \<le> int (length (fp_ports path))"
    and "\<forall>r\<in>set (fp_ports path). dpdk_port_ok s1 (fw_rx r) \<and> dpdk_port_ok s1 (fw_tx r)"
  shows "\<exists>w'. spp_forward D i s w = Some (SPP_RET_OK, s1, w') \<and> held w' = held w"
proof (cases "path_ready path")
  case True
  have "0 + nat (fp_num_rx path) \<le> length (fp_ports path)" using assms(9) by simp
  from forward_loop_ok [OF assms(1-3,6,4) this assms(10), of 0 w]
  show ?thesis using True assms(5,7,8) by (auto simp: spp_forward_def)
qed (use assms(5,7,8) in \<open>simp add: spp_forward_def\<close>)

lemma free_packets_not_held:
  assumes "io_laws D held" and "distinct ids" and "x \<in> set ids" and "x \<notin># held w"
  shows "free_packets D ids w = None"
  using assms(2-4)
proof (induction ids arbitrary: w)
  case (Cons i ids)
  show ?case
  proof (cases "i \<in># held w")
    case True
    then obtain w1 where w1: "rte_pktmbuf_free D i w = Some w1" "held w1 = held w - {#i#}"
      using io_free [OF assms(1)] by blast
    have "x \<notin># held w1" using Cons.prems(3) w1(2) by (auto dest: in_diffD)
    then show ?thesis using Cons True w1 by auto
  qed (use io_free_not_held [OF assms(1)] in simp)
qed simp

text \<open>When an ability of the tx port fails for some of the received packets, those packets are
  freed by the ability code and again by the discard loop of spp_forward: with a single
  reference to each packet the second free is undefined behaviour.\<close>
theorem forward_double_free:
  assumes "mbuf_laws D" and H: "io_laws D held" and "mem_laws D held" and "wf_ports s"
    and "rd ports (int cnt) = Some r" and "dpdk_port_ok s (fw_tx r)"
    and "spp_eth_rx_burst D s (dpdk_port (fw_rx r)) MAX_PKT_BURST w = Some (bufs, nb_rx, w1)"
    and "distinct (take nb_rx bufs)" and "mset (take nb_rx bufs) \<subseteq># held w1"
    and "\<forall>i\<in>set (take nb_rx bufs). count (held w1) i = 1 \<and>
      mbuf_fit False SPP_PORT_ABILITY_MAX (mbuf_load D w1 i)"
    and "port_ability_each_operation D s (dpdk_port (fw_tx r)) (take nb_rx bufs) SPP_PORT_RXTX_TX w1 =
      Some (ok, w2)"
    and "ok < nb_rx" and "nb_rx \<le> length bufs"
  shows "forward_loop D s ports cnt (Suc left) nb_tx w = None"
proof -
  define pkts where "pkts = take nb_rx bufs"
  have p: "0 \<le> dpdk_port (fw_tx r)" "dpdk_port (fw_tx r) < int (length (g_port_mng_info s))"
      "dpdk_port (fw_tx r) < 2 ^ 16" "to_uint16 (dpdk_port (fw_tx r)) = dpdk_port (fw_tx r)"
    using assms(6) by (simp_all add: dpdk_port_ok_def)
  have pk: "distinct pkts" "mset pkts \<subseteq># held w1" "length pkts = nb_rx"
    using assms(8,9,13) by (simp_all add: pkts_def)
  have room: "\<forall>i\<in>set pkts. mbuf_fit False SPP_PORT_ABILITY_MAX (mbuf_load D w1 i)"
    using assms(10) by (simp add: pkts_def)
  obtain n ok' w3 where tx: "spp_eth_tx_burst D s (dpdk_port (fw_tx r)) pkts w1 = Some (n, w3)"
      "n \<le> ok'" "ok' \<le> length pkts" "held w3 = held w1 - mset (drop ok' pkts) - mset (take n pkts)"
    using spp_eth_tx_ok [OF assms(1,2,3,4) p(1-3) pk(1,2) room] by blast
  obtain ok2 w4 where e: "port_ability_each_operation D s (dpdk_port (fw_tx r)) pkts SPP_PORT_RXTX_TX w1 =
      Some (ok2, w4)" "held w4 = held w1 - mset (drop ok2 pkts)"
    using each_operation_ok [OF assms(1,2,3,4) p(1,2) _ pk(1,2), of SPP_PORT_RXTX_TX False 0] room by auto
  have h2: "held w2 = held w1 - mset (drop ok pkts)" using e assms(11) by (simp add: pkts_def)
  obtain x where x: "x \<in> set (drop ok pkts)" using assms(12) pk(3) by (cases "drop ok pkts") auto
  have xp: "x \<in> set pkts" using x by (rule in_set_dropD)
  have "count (mset (drop ok pkts)) x \<ge> 1" using x by (simp add: Suc_le_eq count_greater_zero_iff)
  then have nh: "x \<notin># held w2"
    using assms(10) xp by (auto simp: h2 pkts_def [symmetric] not_in_iff)
  have tx2: "n \<le> ok \<and> x \<notin># held w3"
  proof (cases "ok = 0")
    case True
    then show ?thesis using tx(1) assms(11) p(4) nh by (auto simp: spp_eth_tx_burst_def pkts_def)
  next
    case False
    have "mset pkts = mset (drop ok pkts) + mset (take ok pkts)"
      by (metis append_take_drop_id mset_append union_commute)
    then have "mset (take ok pkts) \<subseteq># held w2" using pk(2) by (simp add: h2 subset_diff_add)
    from io_tx [OF H this, of "dpdk_port (fw_tx r)"] show ?thesis
      using tx(1) assms(11) p(4) False nh
      by (auto simp: spp_eth_tx_burst_def pkts_def dest: in_diffD)
  qed
  then have "x \<in> set (drop n pkts)" using x by (meson set_drop_subset_set_drop subsetD)
  moreover have "distinct (drop n pkts)" using pk(1) by (rule distinct_drop)
  ultimately have "free_packets D (drop n pkts) w3 = None"
    using free_packets_not_held [OF H] tx2 by blast
  moreover have "n < nb_rx" using tx2 assms(12) by simp
  ultimately show ?thesis using assms(5,7,12) tx(1) p(1) by (simp add: pkts_def)
qed

section \<open>An update takes effect\<close>

lemma fill_rx_spec:
  assumes "k \<le> length ps" and "k \<le> length ptrs" and "\<forall>j<k. load_port s (ptrs ! j) \<noteq> None"
  shows "\<exists>ps'. fill_rx s ptrs k ps = Some ps' \<and> length ps' = length ps \<and>
    (\<forall>j<k. Some (fw_rx (ps' ! j)) = load_port s (ptrs ! j))"
  using assms
proof (induction k)
  case (Suc k)
  then obtain ps' where ps': "fill_rx s ptrs k ps = Some ps'" "length ps' = length ps"
      "\<forall>j<k. Some (fw_rx (ps' ! j)) = load_port s (ptrs ! j)"
    by auto
  obtain v where v: "load_port s (ptrs ! k) = Some v" using Suc.prems by auto
  show ?case
    using Suc.prems ps' v by (auto simp: nth_list_update less_Suc_eq)
qed simp

lemma fill_tx_spec:
  assumes "k \<le> length ps" and "ptrs \<noteq> []" and "load_port s (ptrs ! 0) = Some v \<or> k = 0"
  shows "\<exists>ps'. fill_tx s ptrs k ps = Some ps' \<and> length ps' = length ps \<and>
    (\<forall>j<k. fw_tx (ps' ! j) = v) \<and> (\<forall>j. fw_rx (ps' ! j) = fw_rx (ps ! j))"
  using assms
proof (induction k)
  case (Suc k)
  then obtain ps' where ps': "fill_tx s ptrs k ps = Some ps'" "length ps' = length ps"
      "\<forall>j<k. fw_tx (ps' ! j) = v" "\<forall>j. fw_rx (ps' ! j) = fw_rx (ps ! j)"
    by auto
  have "rd ptrs 0 = Some (ptrs ! 0)" using Suc.prems by (simp add: rd_def)
  then show ?case
    using Suc.prems ps' by (auto simp: nth_list_update less_Suc_eq)
qed simp

lemma change_index_nothing_pending:
  "chg_num_rx s = 0 \<Longrightarrow> chg_num_tx s = 0 \<Longrightarrow>
   spp_port_ability_change_index PORT_ABILITY_CHG_INDEX_REF 0 d s = Some s"
  by (simp add: spp_port_ability_change_index_def)

lemma change_forward_index_simple:
  assumes "chg_num_rx s = 0" and "chg_num_tx s = 0" and "rd (g_forward_info s) e = Some info"
  shows "change_forward_index e s = Some (if fi_ref_index info = fi_upd_index info
    then s\<lparr>g_forward_info := (g_forward_info s)[nat e := flip_forward info]\<rparr> else s)"
proof -
  have "0 \<le> e" "e < int (length (g_forward_info s))" using assms(3) by (auto simp: rd_Some_iff)
  then show ?thesis
    by (simp add: change_forward_index_def assms(3) change_index_nothing_pending [OF assms(1,2)] wr_ok)
qed

definition ports_calm :: "'z port_data_scheme \<Rightarrow> bool" where
  "ports_calm s \<longleftrightarrow> chg_num_rx s = 0 \<and> chg_num_tx s = 0"

interpretation forward_table: buffer_table fi_ref_index fi_upd_index fi_path
  put_path publish_path flip_forward g_forward_info "\<lambda>l s. s\<lparr>g_forward_info := l\<rparr>"
  change_forward_index ports_calm
  by unfold_locales (auto simp: change_forward_index_simple ports_calm_def)

lemma forward_waiting: "forward_table.waiting = forward_pending"
  by (intro ext) (simp add: forward_table.waiting_def forward_pending_def)


end
