(* ===== verification/Classifier.thy ===== *)
theory Classifier
  imports Spp_Forward
begin

text \<open>
  vf/classifier_mac.c: the classifier component.  It keeps, double-buffered, for each VLAN
  identifier a hash table from destination MAC addresses to transmit queues, distributes the
  received packets to the queues and transmits full queues.

  rte_hash of DPDK is the argument H, a record of functions on tables of the abstract type
  'h; its documented behaviour is the predicate hash_laws.  The queue of a transmit port is
  the list of the pending packets, the first num_pkt entries of the array pkts.
\<close>

unbundle bit_operations_syntax

section \<open>Data\<close>

record 'h hash_ops =
  rte_hash_create :: "int \<Rightarrow> 'h option"
  rte_hash_add_key_data :: "'h \<Rightarrow> 48 word \<Rightarrow> int \<Rightarrow> int \<times> 'h"
  rte_hash_lookup_data :: "'h \<Rightarrow> 48 word \<Rightarrow> int \<times> int"
  rte_hash_iterate :: "'h \<Rightarrow> nat \<Rightarrow> (48 word \<times> int \<times> nat) option"

definition hash_laws :: "'h hash_ops \<Rightarrow> ('h \<Rightarrow> 48 word \<Rightarrow> int option) \<Rightarrow> bool" where
  "hash_laws H tab \<longleftrightarrow>
    (\<forall>c h. rte_hash_create H c = Some h \<longrightarrow> tab h = (\<lambda>_. None)) \<and>
    (\<forall>h k v. if fst (rte_hash_add_key_data H h k v) < 0
       then tab (snd (rte_hash_add_key_data H h k v)) = tab h
       else tab (snd (rte_hash_add_key_data H h k v)) = (tab h)(k \<mapsto> v)) \<and>
    (\<forall>h k. case tab h k of
       None \<Rightarrow> fst (rte_hash_lookup_data H h k) < 0
     | Some v \<Rightarrow> 0 \<le> fst (rte_hash_lookup_data H h k) \<and> snd (rte_hash_lookup_data H h k) = v)"

definition VLAN_UNTAGGED_VID :: int where "VLAN_UNTAGGED_VID = 0x0fff"
definition NUM_CLASSIFIER_MAC_INFO :: nat where "NUM_CLASSIFIER_MAC_INFO = 2"
definition DRAIN_TX_PACKET_INTERVAL :: nat where "DRAIN_TX_PACKET_INTERVAL = 100"
definition US_PER_S :: nat where "US_PER_S = 1000000"

record classified_data =
  cd_iface_type :: port_type
  cd_iface_no :: int
  cd_iface_no_global :: int
  cd_port :: int
  cd_pkts :: "nat list"

record 'h mac_classification =
  classification_tab :: 'h
  num_active_classified :: int
  active_classifieds :: "int list"
  default_classified :: int

record 'h cls_info =
  cl_name :: string
  mac_addr_entry :: int
  mac_classifications :: "'h mac_classification option list"
  n_classified_data_tx :: int
  classified_data_rx :: classified_data
  classified_data_tx :: "classified_data list"

record 'h management_info =
  mi_ref_index :: int
  mi_upd_index :: int
  is_used :: int
  cmp_infos :: "'h cls_info list"

record 'h classifier_data = forward_data +
  g_mng_infos :: "'h management_info list"
  g_hash_table_count :: int

definition zero_classified :: classified_data where
  "zero_classified = \<lparr>cd_iface_type = PHY, cd_iface_no = 0, cd_iface_no_global = 0, cd_port = 0,
     cd_pkts = []\<rparr>"

definition zero_cls :: "nat \<Rightarrow> 'h cls_info" where
  "zero_cls n = \<lparr>cl_name = [], mac_addr_entry = 0,
     mac_classifications = replicate SPP_NUM_VLAN_VID None, n_classified_data_tx = 0,
     classified_data_rx = zero_classified, classified_data_tx = replicate n zero_classified\<rparr>"

definition zero_mng :: "nat \<Rightarrow> 'h management_info" where
  "zero_mng n = \<lparr>mi_ref_index = 0, mi_upd_index = 0, is_used = 0,
     cmp_infos = replicate NUM_CLASSIFIER_MAC_INFO (zero_cls n)\<rparr>"

section \<open>Building the tables\<close>

definition get_vid :: "mbuf \<Rightarrow> int option" where
  "get_vid m = do {
     ether_type \<leftarrow> load16 m 12;
     if ether_type = cpu_to_be_16 ETHER_TYPE_VLAN
     then do { t \<leftarrow> load16 m 14; Some (uint (cpu_to_be_16 t AND 0x0fff)) }
     else Some VLAN_UNTAGGED_VID
   }"

definition is_used_mng_info :: "'h management_info \<Rightarrow> bool" where
  "is_used_mng_info mi \<longleftrightarrow> is_used mi \<noteq> 0"

text \<open>The counter names the table; n_eth is RTE_MAX_ETHPORTS.\<close>

definition create_mac_classification ::
  "'h hash_ops \<Rightarrow> nat \<Rightarrow> int \<Rightarrow> 'h mac_classification option \<times> int" where
  "create_mac_classification H n_eth hc =
    (case rte_hash_create H (hc + 1) of
       None \<Rightarrow> (None, hc + 1)
     | Some h \<Rightarrow> (Some \<lparr>classification_tab = h, num_active_classified = 0,
                 active_classifieds = replicate n_eth 0, default_classified = - 1\<rparr>, hc + 1))"

definition set_rx ::
  "'z manage_data_scheme \<Rightarrow> spp_component_info \<Rightarrow> classified_data option" where
  "set_rx s c =
    (if num_rx_port c = 0
     then Some \<lparr>cd_iface_type = UNDEF, cd_iface_no = 0, cd_iface_no_global = 0, cd_port = 0, cd_pkts = []\<rparr>
     else do {
       p \<leftarrow> rd (rx_ports c) 0;
       port \<leftarrow> load_port s p;
       Some \<lparr>cd_iface_type = iface_type port, cd_iface_no = 0, cd_iface_no_global = iface_no port,
             cd_port = to_uint16 (dpdk_port port), cd_pkts = []\<rparr>
     })"

text \<open>One round of the loop over the tx ports: the queue of port i, and its entry in the table of
  its VLAN identifier.  The result carries SPP_RET_NG when the loop returns early.\<close>

definition set_tx_entry ::
  "'h hash_ops \<Rightarrow> nat \<Rightarrow> int \<Rightarrow> spp_port_info \<Rightarrow> 'h mac_classification \<Rightarrow>
   (int \<times> 'h mac_classification) option" where
  "set_tx_entry H n_eth i tx_port mac_cls = do {
     act \<leftarrow> wr (active_classifieds mac_cls) (num_active_classified mac_cls) i;
     let mc = mac_cls\<lparr>active_classifieds := act,
                num_active_classified := num_active_classified mac_cls + 1\<rparr>;
     if mac_addr (class_id tx_port) = SPP_DEFAULT_CLASSIFIED_DMY_ADDR
     then Some (SPP_RET_OK, mc\<lparr>default_classified := i\<rparr>)
     else let (ret, h) = rte_hash_add_key_data H (classification_tab mc)
                           (ucast (mac_addr (class_id tx_port))) i;
              mc' = mc\<lparr>classification_tab := h\<rparr>
       in Some (if ret < 0 then SPP_RET_NG else SPP_RET_OK, mc')
   }"

definition set_tx ::
  "'h hash_ops \<Rightarrow> nat \<Rightarrow> int \<Rightarrow> spp_port_info \<Rightarrow> 'h cls_info \<Rightarrow> int \<Rightarrow>
   (int \<times> 'h cls_info \<times> int) option" where
  "set_tx H n_eth i tx_port ci hc = do {
     q \<leftarrow> wr (classified_data_tx ci) i
       \<lparr>cd_iface_type = iface_type tx_port, cd_iface_no = i, cd_iface_no_global = iface_no tx_port,
        cd_port = to_uint16 (dpdk_port tx_port), cd_pkts = []\<rparr>;
     let ci1 = ci\<lparr>classified_data_tx := q\<rparr>;
     if mac_addr (class_id tx_port) = 0 then Some (SPP_RET_OK, ci1, hc)
     else do {
       let v = to_uint16 (vid (vlantag (class_id tx_port)));
       old \<leftarrow> rd (mac_classifications ci1) v;
       let (mc, hc') = (case old of
           None \<Rightarrow> create_mac_classification H n_eth hc
         | Some mc \<Rightarrow> (Some mc, hc));
       case mc of
         None \<Rightarrow> Some (SPP_RET_NG, ci1, hc')
       | Some mac_cls \<Rightarrow> do {
           (ret, mc') \<leftarrow> set_tx_entry H n_eth i tx_port mac_cls;
           mcs \<leftarrow> wr (mac_classifications ci1) v (Some mc');
           Some (ret, ci1\<lparr>mac_addr_entry := 1, mac_classifications := mcs\<rparr>, hc')
         }
     }
   }"

fun set_tx_all ::
  "'h hash_ops \<Rightarrow> nat \<Rightarrow> 'z manage_data_scheme \<Rightarrow> port_ptr list \<Rightarrow> nat \<Rightarrow> nat \<Rightarrow> 'h cls_info \<Rightarrow> int \<Rightarrow>
   (int \<times> 'h cls_info \<times> int) option" where
  "set_tx_all H n_eth s ptrs i 0 ci hc = Some (SPP_RET_OK, ci, hc)"
| "set_tx_all H n_eth s ptrs i (Suc left) ci hc = do {
     p \<leftarrow> rd ptrs (int i);
     tx_port \<leftarrow> load_port s p;
     (ret, ci', hc') \<leftarrow> set_tx H n_eth (int i) tx_port ci hc;
     if ret \<noteq> SPP_RET_OK then Some (SPP_RET_NG, ci', hc')
     else set_tx_all H n_eth s ptrs (Suc i) left ci' hc'
   }"

definition cls_init_component_info ::
  "'h hash_ops \<Rightarrow> 'z manage_data_scheme \<Rightarrow> spp_component_info \<Rightarrow> 'h cls_info \<Rightarrow> int \<Rightarrow>
   (int \<times> 'h cls_info \<times> int) option" where
  "cls_init_component_info H s c ci hc = do {
     rx \<leftarrow> set_rx s c;
     set_tx_all H (length (nic (g_iface_info s))) s (tx_ports c) 0 (nat (num_tx_port c))
       (ci\<lparr>classified_data_rx := rx, n_classified_data_tx := num_tx_port c, mac_addr_entry := 0\<rparr>)
       hc
   }"

text \<open>Freeing the tables and clearing the structure; clearing the queues with packets in them
  forgets the packets.\<close>

definition uninit_component_info :: "'h cls_info \<Rightarrow> 'h cls_info" where
  "uninit_component_info ci = zero_cls (length (classified_data_tx ci))"

definition uninit_classifier :: "'h management_info \<Rightarrow> 'h management_info" where
  "uninit_classifier mi = \<lparr>mi_ref_index = 0, mi_upd_index = 0, is_used = 0,
     cmp_infos = List.map uninit_component_info (cmp_infos mi)\<rparr>"

section \<open>Transmitting\<close>

definition transmit_packet ::
  "'w dpdk \<Rightarrow> 'z port_data_scheme \<Rightarrow> classified_data \<Rightarrow> 'w \<Rightarrow> (classified_data \<times> 'w) option" where
  "transmit_packet D s cd w = do {
     (n_tx, w1) \<leftarrow> spp_eth_tx_burst D s (cd_port cd) (cd_pkts cd) w;
     w2 \<leftarrow> (if n_tx \<noteq> length (cd_pkts cd) then free_packets D (drop n_tx (cd_pkts cd)) w1 else Some w1);
     Some (cd\<lparr>cd_pkts := []\<rparr>, w2)
   }"

fun transmit_queues ::
  "'w dpdk \<Rightarrow> 'z port_data_scheme \<Rightarrow> classified_data list \<Rightarrow> 'w \<Rightarrow> (classified_data list \<times> 'w) option" where
  "transmit_queues D s [] w = Some ([], w)"
| "transmit_queues D s (cd # cds) w = do {
     (cd', w1) \<leftarrow> (if cd_pkts cd \<noteq> [] then transmit_packet D s cd w else Some (cd, w));
     (cds', w2) \<leftarrow> transmit_queues D s cds w1;
     Some (cd' # cds', w2)
   }"

definition transmit_all_packet ::
  "'w dpdk \<Rightarrow> 'z port_data_scheme \<Rightarrow> 'h cls_info \<Rightarrow> 'w \<Rightarrow> ('h cls_info \<times> 'w) option" where
  "transmit_all_packet D s ci w = do {
     let n = nat (n_classified_data_tx ci);
     ensure (n \<le> length (classified_data_tx ci));
     (qs, w1) \<leftarrow> transmit_queues D s (take n (classified_data_tx ci)) w;
     Some (ci\<lparr>classified_data_tx := qs @ drop n (classified_data_tx ci)\<rparr>, w1)
   }"

definition push_packet ::
  "'w dpdk \<Rightarrow> 'z port_data_scheme \<Rightarrow> nat \<Rightarrow> int \<Rightarrow> 'h cls_info \<Rightarrow> 'w \<Rightarrow> ('h cls_info \<times> 'w) option" where
  "push_packet D s pkt idx ci w = do {
     cd \<leftarrow> rd (classified_data_tx ci) idx;
     ensure (length (cd_pkts cd) < MAX_PKT_BURST);
     let cd1 = cd\<lparr>cd_pkts := cd_pkts cd @ [pkt]\<rparr>;
     (cd2, w1) \<leftarrow> (if length (cd_pkts cd1) = MAX_PKT_BURST then transmit_packet D s cd1 w
                  else Some (cd1, w));
     qs \<leftarrow> wr (classified_data_tx ci) idx cd2;
     Some (ci\<lparr>classified_data_tx := qs\<rparr>, w1)
   }"

section \<open>Classifying\<close>

definition get_general_default_classified_index :: "'h cls_info \<Rightarrow> int option" where
  "get_general_default_classified_index ci = do {
     mc \<leftarrow> rd (mac_classifications ci) VLAN_UNTAGGED_VID;
     Some (case mc of None \<Rightarrow> SPP_RET_NG | Some m \<Rightarrow> default_classified m)
   }"

definition dest_addr :: "mbuf \<Rightarrow> 48 word option" where
  "dest_addr m = map_option le_word (load_bytes m 0 6)"

text \<open>is_multicast_ether_addr tests the lowest bit of the first byte.\<close>

definition is_multicast :: "48 word \<Rightarrow> bool" where
  "is_multicast a \<longleftrightarrow> bit a 0"

definition select_classified_index :: "'h hash_ops \<Rightarrow> mbuf \<Rightarrow> 'h cls_info \<Rightarrow> int option" where
  "select_classified_index H m ci = do {
     v \<leftarrow> get_vid m;
     mc \<leftarrow> rd (mac_classifications ci) v;
     case mc of
       None \<Rightarrow> get_general_default_classified_index ci
     | Some mac_cls \<Rightarrow> do {
         a \<leftarrow> dest_addr m;
         let (ret, lookup_data) = rte_hash_lookup_data H (classification_tab mac_cls) a;
         if ret \<ge> 0 then Some lookup_data
         else if is_multicast a then Some (- 2)
         else if default_classified mac_cls < 0 \<and> v \<noteq> VLAN_UNTAGGED_VID
         then get_general_default_classified_index ci
         else Some (default_classified mac_cls)
       }
   }"

text \<open>A multicast packet goes to every registered port of its VLAN and to the general default.\<close>

fun push_all ::
  "'w dpdk \<Rightarrow> 'z port_data_scheme \<Rightarrow> nat \<Rightarrow> int list \<Rightarrow> 'h cls_info \<Rightarrow> 'w \<Rightarrow> ('h cls_info \<times> 'w) option" where
  "push_all D s pkt [] ci w = Some (ci, w)"
| "push_all D s pkt (i # is) ci w = do {
     (ci', w') \<leftarrow> push_packet D s pkt i ci w;
     push_all D s pkt is ci' w'
   }"

definition handle_l2multicast_packet ::
  "'w dpdk \<Rightarrow> 'z port_data_scheme \<Rightarrow> nat \<Rightarrow> 'h cls_info \<Rightarrow> 'w \<Rightarrow> ('h cls_info \<times> 'w) option" where
  "handle_l2multicast_packet D s pkt ci w = do {
     v \<leftarrow> get_vid (mbuf_load D w pkt);
     gen_def \<leftarrow> get_general_default_classified_index ci;
     mc \<leftarrow> rd (mac_classifications ci) v;
     if (case mc of None \<Rightarrow> True | Some m \<Rightarrow> num_active_classified m = 0)
     then if gen_def < 0 then do { w' \<leftarrow> rte_pktmbuf_free D pkt w; Some (ci, w') }
          else push_packet D s pkt gen_def ci w
     else do {
       mac_cls \<leftarrow> mc;
       let n = num_active_classified mac_cls;
       let n_act_clsd = (if gen_def \<ge> 0 \<and> v \<noteq> VLAN_UNTAGGED_VID then n + 1 else n);
       let w1 = rte_mbuf_refcnt_update D pkt (n_act_clsd - 1) w;
       ensure (n \<le> int (length (active_classifieds mac_cls)));
       (ci2, w2) \<leftarrow> push_all D s pkt (take (nat n) (active_classifieds mac_cls)) ci w1;
       if gen_def \<ge> 0 \<and> v \<noteq> VLAN_UNTAGGED_VID then push_packet D s pkt gen_def ci2 w2
       else Some (ci2, w2)
     }
   }"

fun classify_packet ::
  "'w dpdk \<Rightarrow> 'h hash_ops \<Rightarrow> 'z port_data_scheme \<Rightarrow> nat list \<Rightarrow> 'h cls_info \<Rightarrow> 'w \<Rightarrow>
   ('h cls_info \<times> 'w) option" where
  "classify_packet D H s [] ci w = Some (ci, w)"
| "classify_packet D H s (pkt # pkts) ci w = do {
     clsd_idx \<leftarrow> select_classified_index H (mbuf_load D w pkt) ci;
     (ci1, w1) \<leftarrow> (if clsd_idx \<ge> 0 then push_packet D s pkt clsd_idx ci w
       else if clsd_idx = - 1 then do { w' \<leftarrow> rte_pktmbuf_free D pkt w; Some (ci, w') }
       else if clsd_idx = - 2 then handle_l2multicast_packet D s pkt ci w
       else Some (ci, w));
     classify_packet D H s pkts ci1 w1
   }"

section \<open>The component\<close>

definition set_mng_info ::
  "int \<Rightarrow> 'h management_info \<Rightarrow> ('h, 'z) classifier_data_scheme \<Rightarrow> ('h, 'z) classifier_data_scheme option" where
  "set_mng_info i mi s = do {
     ms \<leftarrow> wr (g_mng_infos s) i mi;
     Some (s\<lparr>g_mng_infos := ms\<rparr>)
   }"

definition change_classifier_index ::
  "'w dpdk \<Rightarrow> int \<Rightarrow> ('h, 'z) classifier_data_scheme \<Rightarrow> 'w \<Rightarrow>
   (('h, 'z) classifier_data_scheme \<times> 'w) option" where
  "change_classifier_index D i s w = do {
     mi \<leftarrow> rd (g_mng_infos s) i;
     if mi_ref_index mi = mi_upd_index mi
     then do {
       s1 \<leftarrow> spp_port_ability_change_index PORT_ABILITY_CHG_INDEX_REF 0 SPP_PORT_RXTX_NONE s;
       ci \<leftarrow> rd (cmp_infos mi) (mi_ref_index mi);
       (ci', w') \<leftarrow> transmit_all_packet D s1 ci w;
       cis \<leftarrow> wr (cmp_infos mi) (mi_ref_index mi) ci';
       s2 \<leftarrow> set_mng_info i (mi\<lparr>cmp_infos := cis, mi_ref_index := flip_index (mi_upd_index mi)\<rparr>) s1;
       Some (s2, w')
     }
     else Some (s, w)
   }"

definition spp_classifier_mac_init ::
  "('h, 'z) classifier_data_scheme \<Rightarrow> int \<times> ('h, 'z) classifier_data_scheme" where
  "spp_classifier_mac_init s =
    (0, s\<lparr>g_mng_infos := replicate (length (g_mng_infos s)) (zero_mng (length (nic (g_iface_info s))))\<rparr>)"

definition init_classifier_info ::
  "int \<Rightarrow> ('h, 'z) classifier_data_scheme \<Rightarrow> ('h, 'z) classifier_data_scheme option" where
  "init_classifier_info i s = do {
     mi \<leftarrow> rd (g_mng_infos s) i;
     set_mng_info i (uninit_classifier mi) s
   }"

definition classifier_pending :: "int \<Rightarrow> ('h, 'z) classifier_data_scheme \<Rightarrow> bool option" where
  "classifier_pending i s = do {
     mi \<leftarrow> rd (g_mng_infos s) i;
     Some (mi_ref_index mi = mi_upd_index mi)
   }"

definition spp_classifier_mac_update ::
  "'h hash_ops \<Rightarrow>
   ('e \<Rightarrow> ('h, 'z) classifier_data_scheme \<Rightarrow> ('h, 'z) classifier_data_scheme option) \<Rightarrow> 'e list \<Rightarrow>
   spp_component_info \<Rightarrow> ('h, 'z) classifier_data_scheme \<Rightarrow>
   (int \<times> 'e list \<times> ('h, 'z) classifier_data_scheme) option" where
  "spp_classifier_mac_update H env sched c s = do {
     let i = component_id c;
     mi \<leftarrow> rd (g_mng_infos s) i;
     ci \<leftarrow> rd (cmp_infos mi) (mi_upd_index mi);
     (ret, ci1, hc) \<leftarrow> cls_init_component_info H s c ci (g_hash_table_count s);
     let ci2 = (if ret = SPP_RET_OK then ci1\<lparr>cl_name := name c\<rparr> else ci1);
     cis \<leftarrow> wr (cmp_infos mi) (mi_upd_index mi) ci2;
     if ret \<noteq> SPP_RET_OK
     then do {
       s1 \<leftarrow> set_mng_info i (mi\<lparr>cmp_infos := cis\<rparr>) (s\<lparr>g_hash_table_count := hc\<rparr>);
       Some (ret, sched, s1)
     }
     else do {
       s1 \<leftarrow> set_mng_info i (mi\<lparr>cmp_infos := cis, mi_upd_index := mi_ref_index mi, is_used := 1\<rparr>)
               (s\<lparr>g_hash_table_count := hc\<rparr>);
       (sched', s2) \<leftarrow> wait_while (classifier_pending i) env sched s1;
       mi2 \<leftarrow> rd (g_mng_infos s2) i;
       old \<leftarrow> rd (cmp_infos mi2) (mi_upd_index mi2);
       cis2 \<leftarrow> wr (cmp_infos mi2) (mi_upd_index mi2) (uninit_component_info old);
       s3 \<leftarrow> set_mng_info i (mi2\<lparr>cmp_infos := cis2\<rparr>) s2;
       Some (SPP_RET_OK, sched', s3)
     }
   }"

text \<open>The interval after which queues are drained; the previous time is a local variable of the
  function that starts at 0 in every call.\<close>

definition drain_tsc :: "nat \<Rightarrow> nat" where
  "drain_tsc hz = (hz + US_PER_S - 1) div US_PER_S * DRAIN_TX_PACKET_INTERVAL"

definition spp_classifier_mac_do ::
  "'w dpdk \<Rightarrow> 'h hash_ops \<Rightarrow> nat \<Rightarrow> nat \<Rightarrow> int \<Rightarrow> ('h, 'z) classifier_data_scheme \<Rightarrow> 'w \<Rightarrow>
   (int \<times> ('h, 'z) classifier_data_scheme \<times> 'w) option" where
  "spp_classifier_mac_do D H hz cur_tsc i s w = do {
     (s1, w1) \<leftarrow> change_classifier_index D i s w;
     mi \<leftarrow> rd (g_mng_infos s1) i;
     ci \<leftarrow> rd (cmp_infos mi) (mi_ref_index mi);
     if \<not> (cd_iface_type (classified_data_rx ci) \<noteq> UNDEF \<and> n_classified_data_tx ci \<ge> 1 \<and>
           mac_addr_entry ci = 1)
     then Some (SPP_RET_OK, s1, w1)
     else do {
       (ci1, w2) \<leftarrow> (if cur_tsc > drain_tsc hz then transmit_all_packet D s1 ci w1 else Some (ci, w1));
       (rx_pkts, n_rx, w3) \<leftarrow> spp_eth_rx_burst D s1 (cd_port (classified_data_rx ci1)) MAX_PKT_BURST w2;
       (ci2, w4) \<leftarrow> (if n_rx = 0 then Some (ci1, w3)
         else classify_packet D H s1 (take n_rx rx_pkts) ci1 w3);
       cis \<leftarrow> wr (cmp_infos mi) (mi_ref_index mi) ci2;
       s2 \<leftarrow> set_mng_info i (mi\<lparr>cmp_infos := cis\<rparr>) s1;
       Some (SPP_RET_OK, s2, w4)
     }
   }"

section \<open>Status\<close>

definition classified_index_of :: "classified_data \<Rightarrow> spp_port_index" where
  "classified_index_of cd = \<lparr>pi_iface_type = cd_iface_type cd, pi_iface_no = cd_iface_no_global cd\<rparr>"

definition spp_classifier_get_component_status ::
  "('h, 'z) classifier_data_scheme \<Rightarrow> int \<Rightarrow> int \<Rightarrow>
   (int \<Rightarrow> string \<Rightarrow> string \<Rightarrow> spp_port_index list \<Rightarrow> spp_port_index list \<Rightarrow> 'o \<Rightarrow> (int \<times> 'o) option) \<Rightarrow>
   'o \<Rightarrow> (int \<times> 'o) option" where
  "spp_classifier_get_component_status s lcore i element_proc out = do {
     mi \<leftarrow> rd (g_mng_infos s) i;
     if \<not> is_used_mng_info mi then Some (SPP_RET_NG, out)
     else do {
       ci \<leftarrow> rd (cmp_infos mi) (mi_ref_index mi);
       ensure (n_classified_data_tx ci \<le> int (length (classified_data_tx ci)));
       (ret, out') \<leftarrow> element_proc lcore (cl_name ci) ''classifier_mac''
         (if cd_iface_type (classified_data_rx ci) \<noteq> UNDEF
          then [classified_index_of (classified_data_rx ci)] else [])
         (List.map classified_index_of (take (nat (n_classified_data_tx ci)) (classified_data_tx ci))) out;
       if ret \<noteq> SPP_RET_OK then Some (SPP_RET_NG, out') else Some (SPP_RET_OK, out')
     }
   }"

text \<open>One table: the default entry, then what rte_hash_iterate enumerates; the number of entries
  bounds the enumeration (fuel).  fmt is ether_format_addr.\<close>

fun iterate_hash ::
  "'h hash_ops \<Rightarrow> (48 word \<Rightarrow> string) \<Rightarrow>
   (spp_classifier_type \<Rightarrow> int \<Rightarrow> string \<Rightarrow> spp_port_index \<Rightarrow> 'o \<Rightarrow> 'o option) \<Rightarrow>
   spp_classifier_type \<Rightarrow> int \<Rightarrow> classified_data list \<Rightarrow> 'h \<Rightarrow> nat \<Rightarrow> nat \<Rightarrow> 'o \<Rightarrow> 'o option" where
  "iterate_hash H fmt proc ty v qs h 0 next out = None"
| "iterate_hash H fmt proc ty v qs h (Suc fuel) next out =
    (case rte_hash_iterate H h next of
       None \<Rightarrow> Some out
     | Some (key, d, next') \<Rightarrow> do {
         cd \<leftarrow> rd qs d;
         out' \<leftarrow> proc ty v (fmt key) (classified_index_of cd) out;
         iterate_hash H fmt proc ty v qs h fuel next' out'
       })"

definition mac_classification_iterate_table ::
  "'h hash_ops \<Rightarrow> nat \<Rightarrow> (48 word \<Rightarrow> string) \<Rightarrow>
   (spp_classifier_type \<Rightarrow> int \<Rightarrow> string \<Rightarrow> spp_port_index \<Rightarrow> 'o \<Rightarrow> 'o option) \<Rightarrow>
   int \<Rightarrow> 'h mac_classification \<Rightarrow> classified_data list \<Rightarrow> 'o \<Rightarrow> 'o option" where
  "mac_classification_iterate_table H fuel fmt proc v mac_cls qs out = do {
     let ty = (if v = VLAN_UNTAGGED_VID then SPP_CLASSIFIER_TYPE_MAC else SPP_CLASSIFIER_TYPE_VLAN);
     out1 \<leftarrow> (if default_classified mac_cls \<ge> 0
       then do {
         cd \<leftarrow> rd qs (default_classified mac_cls);
         proc ty v SPP_DEFAULT_CLASSIFIED_SPEC_STR (classified_index_of cd) out
       }
       else Some out);
     iterate_hash H fmt proc ty v qs (classification_tab mac_cls) fuel 0 out1
   }"

fun iterate_vids ::
  "'h hash_ops \<Rightarrow> nat \<Rightarrow> (48 word \<Rightarrow> string) \<Rightarrow>
   (spp_classifier_type \<Rightarrow> int \<Rightarrow> string \<Rightarrow> spp_port_index \<Rightarrow> 'o \<Rightarrow> 'o option) \<Rightarrow>
   nat \<Rightarrow> 'h mac_classification option list \<Rightarrow> classified_data list \<Rightarrow> 'o \<Rightarrow> 'o option" where
  "iterate_vids H fuel fmt proc n [] qs out = Some out"
| "iterate_vids H fuel fmt proc n (mc # mcs) qs out = do {
     out' \<leftarrow> (case mc of None \<Rightarrow> Some out
       | Some m \<Rightarrow> mac_classification_iterate_table H fuel fmt proc (int n) m qs out);
     iterate_vids H fuel fmt proc (Suc n) mcs qs out'
   }"

fun iterate_components ::
  "'h hash_ops \<Rightarrow> nat \<Rightarrow> (48 word \<Rightarrow> string) \<Rightarrow>
   (spp_classifier_type \<Rightarrow> int \<Rightarrow> string \<Rightarrow> spp_port_index \<Rightarrow> 'o \<Rightarrow> 'o option) \<Rightarrow>
   'h management_info list \<Rightarrow> 'o \<Rightarrow> 'o option" where
  "iterate_components H fuel fmt proc [] out = Some out"
| "iterate_components H fuel fmt proc (mi # mis) out =
    (if \<not> is_used_mng_info mi then iterate_components H fuel fmt proc mis out
     else do {
       ci \<leftarrow> rd (cmp_infos mi) (mi_ref_index mi);
       out' \<leftarrow> iterate_vids H fuel fmt proc 0 (mac_classifications ci) (classified_data_tx ci) out;
       iterate_components H fuel fmt proc mis out'
     })"

definition spp_classifier_mac_iterate_table ::
  "'h hash_ops \<Rightarrow> nat \<Rightarrow> (48 word \<Rightarrow> string) \<Rightarrow>
   (spp_classifier_type \<Rightarrow> int \<Rightarrow> string \<Rightarrow> spp_port_index \<Rightarrow> 'o \<Rightarrow> 'o option) \<Rightarrow>
   ('h, 'z) classifier_data_scheme \<Rightarrow> 'o \<Rightarrow> (int \<times> 'o) option" where
  "spp_classifier_mac_iterate_table H fuel fmt proc s out = do {
     out' \<leftarrow> iterate_components H fuel fmt proc (g_mng_infos s) out;
     Some (SPP_RET_OK, out')
   }"

end
