(* ===== verification/Classifier_Table.thy ===== *)
theory Classifier_Table
  imports Classifier
begin

text \<open>
  The tables of vf/classifier_mac.c against an abstract specification: a classifier table is
  the list of its entries (queue index, VLAN identifier, MAC address), and the queue of a
  packet is a function of that list.
\<close>

section \<open>Specification\<close>

type_synonym cls_entry = "int \<times> int \<times> 64 word"

definition port_entry :: "nat \<Rightarrow> spp_port_info \<Rightarrow> cls_entry" where
  "port_entry j p = (int j, to_uint16 (vid (vlantag (class_id p))), mac_addr (class_id p))"

definition port_entries :: "spp_port_info list \<Rightarrow> cls_entry list" where
  "port_entries ps = List.map (\<lambda>(j, p). port_entry j p) (List.zip [0..<length ps] ps)"

text \<open>The entries of a VLAN with an address, its default queue (- 1 when there is none) and the
  queue of an address: the entry added last counts.\<close>

definition active_spec :: "cls_entry list \<Rightarrow> int \<Rightarrow> int list" where
  "active_spec es v = [i. (i, v', a) \<leftarrow> es, v' = v \<and> a \<noteq> 0]"

definition default_spec :: "cls_entry list \<Rightarrow> int \<Rightarrow> int" where
  "default_spec es v = last (- 1 # [i. (i, v', a) \<leftarrow> es, v' = v \<and> a = SPP_DEFAULT_CLASSIFIED_DMY_ADDR])"

definition lookup_spec :: "cls_entry list \<Rightarrow> int \<Rightarrow> 48 word \<Rightarrow> int option" where
  "lookup_spec es v k = last (None #
     [Some i. (i, v', a) \<leftarrow> es, v' = v \<and> a \<noteq> 0 \<and> a \<noteq> SPP_DEFAULT_CLASSIFIED_DMY_ADDR \<and> ucast a = k])"

text \<open>A registered address goes to its queue; an unregistered multicast address on a VLAN with
  entries is distributed (- 2); any other packet goes to the default of its VLAN, or else to
  the default of untagged packets, or else is dropped (- 1).\<close>

definition classify_spec :: "cls_entry list \<Rightarrow> int \<Rightarrow> 48 word \<Rightarrow> int" where
  "classify_spec es v a =
    (case lookup_spec es v a of
       Some i \<Rightarrow> i
     | None \<Rightarrow>
         if active_spec es v \<noteq> [] \<and> is_multicast a then - 2
         else if 0 \<le> default_spec es v then default_spec es v
         else default_spec es VLAN_UNTAGGED_VID)"

section \<open>Adding one entry\<close>

lemma active_snoc:
  "active_spec (es @ [(i, v', a)]) v = active_spec es v @ (if v' = v \<and> a \<noteq> 0 then [i] else [])"
  by (simp add: active_spec_def)

lemma default_snoc:
  "default_spec (es @ [(i, v', a)]) v =
    (if v' = v \<and> a = SPP_DEFAULT_CLASSIFIED_DMY_ADDR then i else default_spec es v)"
  by (simp add: default_spec_def)

lemma lookup_snoc:
  "lookup_spec (es @ [(i, v', a)]) v =
    (if v' = v \<and> a \<noteq> 0 \<and> a \<noteq> SPP_DEFAULT_CLASSIFIED_DMY_ADDR
     then (lookup_spec es v)(ucast a \<mapsto> i) else lookup_spec es v)"
  by (auto simp: lookup_spec_def fun_eq_iff)

lemma port_entries_snoc: "port_entries (ps @ [p]) = port_entries ps @ [port_entry (length ps) p]"
  by (simp add: port_entries_def)

lemma dmy_nonzero: "SPP_DEFAULT_CLASSIFIED_DMY_ADDR \<noteq> 0"
  by (simp add: SPP_DEFAULT_CLASSIFIED_DMY_ADDR_def)

lemma no_active: "active_spec es v = [] \<Longrightarrow> default_spec es v = - 1 \<and> lookup_spec es v = (\<lambda>_. None)"
proof (induction es rule: rev_induct)
  case Nil
  then show ?case by (simp add: default_spec_def lookup_spec_def fun_eq_iff)
next
  case (snoc e es)
  obtain i v' a where "e = (i, v', a)" by (cases e)
  then show ?case using snoc dmy_nonzero
    by (auto simp: active_snoc default_snoc lookup_snoc split: if_splits)
qed

section \<open>The tables represent the entries\<close>

definition cls_rep ::
  "('h \<Rightarrow> 48 word \<Rightarrow> int option) \<Rightarrow> cls_entry list \<Rightarrow> int \<Rightarrow> 'h mac_classification option \<Rightarrow> bool" where
  "cls_rep tab es v mc =
    (case mc of
       None \<Rightarrow> active_spec es v = []
     | Some m \<Rightarrow> active_spec es v \<noteq> [] \<and> num_active_classified m = int (length (active_spec es v)) \<and>
         length (active_spec es v) \<le> length (active_classifieds m) \<and>
         take (length (active_spec es v)) (active_classifieds m) = active_spec es v \<and>
         default_classified m = default_spec es v \<and> tab (classification_tab m) = lookup_spec es v)"

definition cls_rep_all ::
  "('h \<Rightarrow> 48 word \<Rightarrow> int option) \<Rightarrow> nat \<Rightarrow> cls_entry list \<Rightarrow> 'h cls_info \<Rightarrow> bool" where
  "cls_rep_all tab n es ci \<longleftrightarrow> length (mac_classifications ci) = SPP_NUM_VLAN_VID \<and>
    (\<forall>v<SPP_NUM_VLAN_VID. cls_rep tab es (int v) (mac_classifications ci ! v)) \<and>
    (\<forall>v m. v < SPP_NUM_VLAN_VID \<longrightarrow> mac_classifications ci ! v = Some m \<longrightarrow> length (active_classifieds m) = n)"

lemma active_length: "length (active_spec es v) \<le> length es"
proof (induction es rule: rev_induct)
  case (snoc e es)
  obtain i v' a where "e = (i, v', a)" by (cases e)
  then show ?case using snoc by (simp add: active_snoc)
qed (simp add: active_spec_def)

text \<open>Registering a port in the table of its VLAN.\<close>

lemma set_tx_entry_rep:
  assumes laws: "hash_laws H tab"
    and m: "cls_rep tab es v (Some m) \<or>
      active_spec es v = [] \<and> num_active_classified m = 0 \<and> default_classified m = - 1 \<and>
      tab (classification_tab m) = (\<lambda>_. None)"
    and room: "length es < length (active_classifieds m)"
    and a: "mac_addr (class_id p) \<noteq> 0"
  shows "\<exists>ret m'. set_tx_entry H n i p m = Some (ret, m') \<and> (ret = SPP_RET_OK \<or> ret = SPP_RET_NG) \<and>
    length (active_classifieds m') = length (active_classifieds m) \<and>
    (ret = SPP_RET_OK \<longrightarrow> cls_rep tab (es @ [(i, v, mac_addr (class_id p))]) v (Some m')) \<and>
    ((\<forall>h k x. 0 \<le> fst (rte_hash_add_key_data H h k x)) \<longrightarrow> ret = SPP_RET_OK)"
proof -
  define A where "A = active_spec es v"
  have num: "num_active_classified m = int (length A)" and tk: "take (length A) (active_classifieds m) = A"
    and def: "default_classified m = default_spec es v" and tb: "tab (classification_tab m) = lookup_spec es v"
    using m no_active [of es v] by (auto simp: cls_rep_def A_def)
  have lA: "length A < length (active_classifieds m)"
    using room active_length [of es v] by (simp add: A_def)
  define act where "act = (active_classifieds m)[length A := i]"
  have w: "wr (active_classifieds m) (num_active_classified m) i = Some act"
    using lA num by (simp add: act_def)
  have tk': "take (Suc (length A)) act = A @ [i]"
    using lA tk by (simp add: act_def take_Suc_conv_app_nth)
  have sp: "active_spec (es @ [(i, v, mac_addr (class_id p))]) v = A @ [i]"
    using a by (simp add: active_snoc A_def)
  define ki where "ki = (ucast (mac_addr (class_id p)) :: 48 word)"
  obtain ret h where add: "rte_hash_add_key_data H (classification_tab m) ki i = (ret, h)" by fastforce
  have tabh: "0 \<le> ret \<Longrightarrow> tab h = (tab (classification_tab m))(ki \<mapsto> i)"
    using laws add unfolding hash_laws_def by (metis fst_conv snd_conv not_le)
  have pos: "ret < 0 \<Longrightarrow> \<exists>h k x. fst (rte_hash_add_key_data H h k x) < 0"
    using add by (metis fst_conv)
  show ?thesis
    using w add lA tk' num def tb a tabh pos dmy_nonzero
    by (auto simp: not_le set_tx_entry_def Let_def ki_def [symmetric] cls_rep_def sp default_snoc lookup_snoc act_def)
qed

lemma create_rep:
  assumes "hash_laws H tab" and "create_mac_classification H n hc = (Some m, hc')"
  shows "num_active_classified m = 0 \<and> default_classified m = - 1 \<and>
    tab (classification_tab m) = (\<lambda>_. None) \<and> length (active_classifieds m) = n"
  using assms by (auto simp: create_mac_classification_def hash_laws_def split: option.splits)

text \<open>A port of VLAN w leaves the tables of the other VLANs alone.\<close>

lemma cls_rep_other: "v \<noteq> w \<Longrightarrow> cls_rep tab (es @ [(i, w, a)]) v mc = cls_rep tab es v mc"
  by (cases mc) (simp_all add: cls_rep_def active_snoc default_snoc lookup_snoc)

lemma cls_rep_zero: "cls_rep tab (es @ [(i, w, 0)]) v mc = cls_rep tab es v mc"
  using dmy_nonzero [symmetric]
  by (cases mc) (simp_all add: cls_rep_def active_snoc default_snoc lookup_snoc)

lemma cls_rep_all_step:
  assumes R: "cls_rep_all tab n es ci" and v: "0 \<le> v" "v < int SPP_NUM_VLAN_VID"
    and m: "cls_rep tab (es @ [(i, v, a)]) v (Some mc)" "length (active_classifieds mc) = n"
    and ci': "mac_classifications ci' = (mac_classifications ci)[nat v := Some mc]"
  shows "cls_rep_all tab n (es @ [(i, v, a)]) ci'"
  using R v m unfolding cls_rep_all_def ci'
  by (auto simp: nth_list_update cls_rep_other)

lemma cls_rep_all_zero:
  "cls_rep_all tab n es ci \<Longrightarrow> mac_classifications ci' = mac_classifications ci \<Longrightarrow>
   cls_rep_all tab n (es @ [(i, v, 0)]) ci'"
  by (simp add: cls_rep_all_def cls_rep_zero)

lemma set_tx_rep:
  assumes laws: "hash_laws H tab" and R: "cls_rep_all tab n es ci" and len: "length es < n"
    and q: "0 \<le> i" "i < int (length (classified_data_tx ci))"
    and v: "0 \<le> vid (vlantag (class_id p))" "vid (vlantag (class_id p)) < int SPP_NUM_VLAN_VID"
  shows "\<exists>ret ci' hc'. set_tx H n i p ci hc = Some (ret, ci', hc') \<and> (ret = SPP_RET_OK \<or> ret = SPP_RET_NG) \<and>
    length (classified_data_tx ci') = length (classified_data_tx ci) \<and>
    n_classified_data_tx ci' = n_classified_data_tx ci \<and>
    (ret = SPP_RET_OK \<longrightarrow>
       cls_rep_all tab n (es @ [(i, to_uint16 (vid (vlantag (class_id p))), mac_addr (class_id p))]) ci') \<and>
    ((\<forall>c. rte_hash_create H c \<noteq> None) \<and> (\<forall>h k x. 0 \<le> fst (rte_hash_add_key_data H h k x)) \<longrightarrow>
       ret = SPP_RET_OK)"
proof -
  define w where "w = vid (vlantag (class_id p))"
  have w: "0 \<le> w" "w < int SPP_NUM_VLAN_VID" "to_uint16 w = w"
    using v by (auto simp: w_def SPP_NUM_VLAN_VID_def)
  obtain qs where qs: "wr (classified_data_tx ci) i \<lparr>cd_iface_type = iface_type p, cd_iface_no = i,
      cd_iface_no_global = iface_no p, cd_port = to_uint16 (dpdk_port p), cd_pkts = []\<rparr> = Some qs"
      "length qs = length (classified_data_tx ci)"
    using q by (auto simp: wr_ok)
  have lm: "length (mac_classifications ci) = SPP_NUM_VLAN_VID" using R by (simp add: cls_rep_all_def)
  define old where "old = mac_classifications ci ! nat w"
  have old: "rd (mac_classifications ci) w = Some old" using lm w by (simp add: old_def rd_ok)
  have ro: "cls_rep tab es w old" and ra: "\<And>m. old = Some m \<Longrightarrow> length (active_classifieds m) = n"
    using R w by (auto simp: cls_rep_all_def old_def dest: spec [of _ "nat w"])
  show ?thesis
  proof (cases "mac_addr (class_id p) = 0")
    case True
    then show ?thesis using qs cls_rep_all_zero [OF R] by (simp add: set_tx_def)
  next
    case nz: False
    obtain mc hc' where mc: "(case old of None \<Rightarrow> create_mac_classification H n hc | Some mc \<Rightarrow> (Some mc, hc)) = (mc, hc')"
      by fastforce
    show ?thesis
    proof (cases mc)
      case None
      then have "rte_hash_create H (hc + 1) = None"
        using mc by (auto simp: create_mac_classification_def split: option.splits)
      moreover have "set_tx H n i p ci hc = Some (SPP_RET_NG, ci\<lparr>classified_data_tx := qs\<rparr>, hc')"
        using qs nz old mc None w by (simp add: set_tx_def w_def [symmetric])
      ultimately show ?thesis using qs(2) by auto
    next
      case (Some m)
      have pre: "cls_rep tab es w (Some m) \<or> active_spec es w = [] \<and> num_active_classified m = 0 \<and>
          default_classified m = - 1 \<and> tab (classification_tab m) = (\<lambda>_. None)"
        and la: "length (active_classifieds m) = n"
        using mc Some ro ra create_rep [OF laws, of n hc m hc']
        by (auto simp: cls_rep_def split: option.splits)
      obtain ret m' where e: "set_tx_entry H n i p m = Some (ret, m')" "ret = SPP_RET_OK \<or> ret = SPP_RET_NG"
          "length (active_classifieds m') = n"
          "ret = SPP_RET_OK \<longrightarrow> cls_rep tab (es @ [(i, w, mac_addr (class_id p))]) w (Some m')"
          "(\<forall>h k x. 0 \<le> fst (rte_hash_add_key_data H h k x)) \<longrightarrow> ret = SPP_RET_OK"
        using set_tx_entry_rep [OF laws pre len [folded la] nz, of n i] unfolding la by blast
      define ci' where "ci' = ci\<lparr>classified_data_tx := qs, mac_addr_entry := 1,
        mac_classifications := (mac_classifications ci)[nat w := Some m']\<rparr>"
      have "wr (mac_classifications ci) w (Some m') = Some (mac_classifications ci')"
        using lm w by (simp add: wr_ok ci'_def)
      then have run: "set_tx H n i p ci hc = Some (ret, ci', hc')"
        using qs nz old mc Some w e(1) by (simp add: set_tx_def w_def [symmetric] ci'_def)
      have "ret = SPP_RET_OK \<longrightarrow> cls_rep_all tab n (es @ [(i, w, mac_addr (class_id p))]) ci'"
        using cls_rep_all_step [OF R w(1,2) _ e(3)] e(4) by (auto simp: ci'_def)
      then show ?thesis using run e(2,5) qs(2) w(3) by (auto simp: ci'_def w_def)
    qed
  qed
qed

section \<open>Building all the tables\<close>

lemma set_tx_all_rep:
  assumes laws: "hash_laws H tab"
    and "cls_rep_all tab n (port_entries qs) ci" and "length qs = i"
    and "length ps = left" and "i + left \<le> n" and "i + left \<le> length ptrs"
    and "i + left \<le> length (classified_data_tx ci)"
    and "\<forall>j<left. load_port s (ptrs ! (i + j)) = Some (ps ! j)"
    and "\<forall>p\<in>set ps. 0 \<le> vid (vlantag (class_id p)) \<and> vid (vlantag (class_id p)) < int SPP_NUM_VLAN_VID"
  shows "\<exists>ret ci' hc'. set_tx_all H n s ptrs i left ci hc = Some (ret, ci', hc') \<and>
    (ret = SPP_RET_OK \<or> ret = SPP_RET_NG) \<and> n_classified_data_tx ci' = n_classified_data_tx ci \<and>
    (ret = SPP_RET_OK \<longrightarrow> cls_rep_all tab n (port_entries (qs @ ps)) ci') \<and>
    ((\<forall>c. rte_hash_create H c \<noteq> None) \<and> (\<forall>h k x. 0 \<le> fst (rte_hash_add_key_data H h k x)) \<longrightarrow>
       ret = SPP_RET_OK)"
  using assms(2-9)
proof (induction left arbitrary: i qs ps ci hc)
  case (Suc left)
  obtain p ps' where ps: "ps = p # ps'" using Suc.prems(3) by (cases ps) auto
  have ld: "rd ptrs (int i) = Some (ptrs ! i)" "load_port s (ptrs ! i) = Some p"
    using Suc.prems(5,7) ps by (auto dest: spec [of _ 0])
  have le: "length (port_entries qs) < n" using Suc.prems(2,4) by (simp add: port_entries_def)
  have iq: "0 \<le> int i" "int i < int (length (classified_data_tx ci))" using Suc.prems(6) by auto
  have vp: "0 \<le> vid (vlantag (class_id p))" "vid (vlantag (class_id p)) < int SPP_NUM_VLAN_VID"
    using Suc.prems(8) ps by auto
  obtain ret ci1 hc1 where t: "set_tx H n (int i) p ci hc = Some (ret, ci1, hc1)"
      "ret = SPP_RET_OK \<or> ret = SPP_RET_NG"
      "length (classified_data_tx ci1) = length (classified_data_tx ci)"
      "n_classified_data_tx ci1 = n_classified_data_tx ci"
      "ret = SPP_RET_OK \<longrightarrow> cls_rep_all tab n
         (port_entries qs @ [(int i, to_uint16 (vid (vlantag (class_id p))), mac_addr (class_id p))]) ci1"
      "(\<forall>c. rte_hash_create H c \<noteq> None) \<and> (\<forall>h k x. 0 \<le> fst (rte_hash_add_key_data H h k x)) \<longrightarrow> ret = SPP_RET_OK"
    using set_tx_rep [OF laws Suc.prems(1) le iq vp] by blast
  show ?case
  proof (cases "ret = SPP_RET_OK")
    case False
    then show ?thesis using ld t by auto
  next
    case True
    have R: "cls_rep_all tab n (port_entries (qs @ [p])) ci1"
      using t(5) True Suc.prems(2) by (simp add: port_entries_snoc port_entry_def)
    have "\<exists>ret ci' hc'. set_tx_all H n s ptrs (Suc i) left ci1 hc1 = Some (ret, ci', hc') \<and>
      (ret = SPP_RET_OK \<or> ret = SPP_RET_NG) \<and> n_classified_data_tx ci' = n_classified_data_tx ci1 \<and>
      (ret = SPP_RET_OK \<longrightarrow> cls_rep_all tab n (port_entries ((qs @ [p]) @ ps')) ci') \<and>
      ((\<forall>c. rte_hash_create H c \<noteq> None) \<and> (\<forall>h k x. 0 \<le> fst (rte_hash_add_key_data H h k x)) \<longrightarrow>
         ret = SPP_RET_OK)"
    proof (rule Suc.IH [OF R])
      show "\<forall>j<left. load_port s (ptrs ! (Suc i + j)) = Some (ps' ! j)"
        using Suc.prems(7) ps by (auto dest: spec [of _ "Suc _"])
    qed (use Suc.prems ps t(3) in auto)
    then show ?thesis using ld t(1,4) True ps by simp
  qed
qed auto

text \<open>The smallest and largest VLAN identifier of a packet.\<close>

lemma get_vid_range: "get_vid m = Some v \<Longrightarrow> 0 \<le> v \<and> v < int SPP_NUM_VLAN_VID"
proof -
  have "uint (x AND 0x0fff) < 4096" for x :: "16 word"
    using word_and_le1 [of x "0x0fff"] by (simp add: word_le_def)
  then show "get_vid m = Some v \<Longrightarrow> 0 \<le> v \<and> v < int SPP_NUM_VLAN_VID"
    by (auto simp: get_vid_def bind_Some_iff SPP_NUM_VLAN_VID_def VLAN_UNTAGGED_VID_def
        split: if_splits)
qed

lemma general_default:
  assumes "cls_rep_all tab n es ci"
  shows "get_general_default_classified_index ci = Some (default_spec es VLAN_UNTAGGED_VID)"
proof -
  have l: "length (mac_classifications ci) = SPP_NUM_VLAN_VID" using assms by (simp add: cls_rep_all_def)
  have c: "cls_rep tab es VLAN_UNTAGGED_VID (mac_classifications ci ! nat VLAN_UNTAGGED_VID)"
    using assms by (auto simp: cls_rep_all_def VLAN_UNTAGGED_VID_def SPP_NUM_VLAN_VID_def
        dest: spec [of _ "4095::nat"])
  then show ?thesis
    using l no_active [of es VLAN_UNTAGGED_VID]
    by (auto simp: get_general_default_classified_index_def rd_def VLAN_UNTAGGED_VID_def
        SPP_NUM_VLAN_VID_def cls_rep_def split: option.splits)
qed

lemma select_classified_spec:
  assumes laws: "hash_laws H tab" and R: "cls_rep_all tab n es ci"
    and m: "get_vid m = Some v" "dest_addr m = Some a"
  shows "select_classified_index H m ci = Some (classify_spec es v a)"
proof -
  have v: "0 \<le> v" "v < int SPP_NUM_VLAN_VID" using get_vid_range [OF m(1)] by auto
  define mc where "mc = mac_classifications ci ! nat v"
  have rd: "rd (mac_classifications ci) v = Some mc"
    using R v by (simp add: cls_rep_all_def mc_def rd_ok)
  have c: "cls_rep tab es v mc"
    using R v by (auto simp: cls_rep_all_def mc_def dest: spec [of _ "nat v"])
  note g = general_default [OF R]
  show ?thesis
  proof (cases mc)
    case None
    then show ?thesis using m rd g c no_active [of es v]
      by (simp add: select_classified_index_def cls_rep_def classify_spec_def)
  next
    case (Some mac)
    obtain ret d where lk: "rte_hash_lookup_data H (classification_tab mac) a = (ret, d)" by fastforce
    have "case tab (classification_tab mac) a of
        None \<Rightarrow> fst (rte_hash_lookup_data H (classification_tab mac) a) < 0
      | Some v \<Rightarrow> 0 \<le> fst (rte_hash_lookup_data H (classification_tab mac) a) \<and>
          snd (rte_hash_lookup_data H (classification_tab mac) a) = v"
      using laws unfolding hash_laws_def by blast
    then have "case lookup_spec es v a of None \<Rightarrow> ret < 0 | Some x \<Rightarrow> 0 \<le> ret \<and> d = x"
      using c Some lk by (cases "lookup_spec es v a") (simp_all add: cls_rep_def)
    then show ?thesis using m rd g c Some lk
      by (auto simp: select_classified_index_def cls_rep_def classify_spec_def split: option.splits)
  qed
qed

lemma init_component_decides:
  fixes H :: "'h hash_ops"
  assumes "hash_laws H tab" and "num_tx_port c = int (length ps)"
    and "length ps \<le> length (nic (g_iface_info s))" and "length ps \<le> length (tx_ports c)"
    and "\<forall>j<length ps. load_port s (tx_ports c ! j) = Some (ps ! j)"
    and "\<forall>p\<in>set ps. 0 \<le> vid (vlantag (class_id p)) \<and> vid (vlantag (class_id p)) < int SPP_NUM_VLAN_VID"
    and "num_rx_port c = 0 \<or> (\<exists>rp. rd (rx_ports c) 0 = Some rp \<and> load_port s rp \<noteq> None)"
  shows "\<exists>ret ci hc'. cls_init_component_info H s c (zero_cls (length (nic (g_iface_info s)))) hc =
      Some (ret, ci, hc') \<and>
    ((\<forall>x. rte_hash_create H x \<noteq> None) \<and> (\<forall>h k x. 0 \<le> fst (rte_hash_add_key_data H h k x)) \<longrightarrow>
       ret = SPP_RET_OK) \<and>
    (ret = SPP_RET_OK \<longrightarrow> (\<forall>m v a. get_vid m = Some v \<longrightarrow> dest_addr m = Some a \<longrightarrow>
       select_classified_index H m ci = Some (classify_spec (port_entries ps) v a)))"
proof -
  define n where "n = length (nic (g_iface_info s))"
  have "set_rx s c \<noteq> None" using assms(7) by (auto simp: set_rx_def)
  then obtain rx where rx: "set_rx s c = Some rx" by blast
  define ci0 :: "'h cls_info" where "ci0 = (zero_cls n)\<lparr>classified_data_rx := rx,
    n_classified_data_tx := num_tx_port c, mac_addr_entry := 0\<rparr>"
  have R0: "cls_rep_all tab n (port_entries []) ci0"
    by (simp add: cls_rep_all_def ci0_def zero_cls_def port_entries_def cls_rep_def active_spec_def)
  have b: "0 + length ps \<le> n" "0 + length ps \<le> length (tx_ports c)"
      "0 + length ps \<le> length (classified_data_tx ci0)"
      "\<forall>j<length ps. load_port s (tx_ports c ! (0 + j)) = Some (ps ! j)"
    using assms(3-5) by (simp_all add: n_def ci0_def zero_cls_def)
  obtain ret ci hc' where r: "set_tx_all H n s (tx_ports c) 0 (length ps) ci0 hc = Some (ret, ci, hc')"
      "ret = SPP_RET_OK \<longrightarrow> cls_rep_all tab n (port_entries ([] @ ps)) ci"
      "(\<forall>c. rte_hash_create H c \<noteq> None) \<and> (\<forall>h k x. 0 \<le> fst (rte_hash_add_key_data H h k x)) \<longrightarrow> ret = SPP_RET_OK"
    using set_tx_all_rep [OF assms(1) R0 list.size(3) refl b assms(6), of hc] by blast
  have "cls_init_component_info H s c (zero_cls n) hc = Some (ret, ci, hc')"
    using rx r(1) assms(2) by (simp add: cls_init_component_info_def ci0_def n_def [symmetric])
  then show ?thesis
    unfolding n_def [symmetric] using r(2,3) select_classified_spec [OF assms(1)]
    unfolding append_Nil by blast
qed

text \<open>C2: A classifier table built from a cleared area decides as the specification does: building
  it from the tx ports of a component returns SPP_RET_OK whenever the hash tables accept the
  entries, and then for every packet the selected queue is that of the last port registered
  with its VLAN and destination address, or the multicast code, or the default of its VLAN,
  or the default of untagged packets, or - 1.\<close>
theorem classifier_decides_as_specified:
  fixes H :: "'h hash_ops"
  assumes "hash_laws H tab" and "num_tx_port c = int (length ps)"
    and "length ps \<le> length (nic (g_iface_info s))" and "length ps \<le> length (tx_ports c)"
    and "\<forall>j<length ps. load_port s (tx_ports c ! j) = Some (ps ! j)"
    and "\<forall>p\<in>set ps. 0 \<le> vid (vlantag (class_id p)) \<and> vid (vlantag (class_id p)) < int SPP_NUM_VLAN_VID"
    and "num_rx_port c = 0 \<or> (\<exists>rp. rd (rx_ports c) 0 = Some rp \<and> load_port s rp \<noteq> None)"
  shows "\<exists>ret ci hc'. cls_init_component_info H s c (zero_cls (length (nic (g_iface_info s)))) hc =
      Some (ret, ci, hc') \<and>
    ((\<forall>x. rte_hash_create H x \<noteq> None) \<and> (\<forall>h k x. 0 \<le> fst (rte_hash_add_key_data H h k x)) \<longrightarrow>
       ret = SPP_RET_OK) \<and>
    (ret = SPP_RET_OK \<longrightarrow> (\<forall>m v a. get_vid m = Some v \<longrightarrow> dest_addr m = Some a \<longrightarrow>
       select_classified_index H m ci = Some (classify_spec (port_entries ps) v a)))"
  using assms by (rule init_component_decides)

end
