(* ===== verification/Classifier_Run.thy ===== *)
theory Classifier_Run
  imports Classifier_Table
begin

text \<open>
  The packet side of vf/classifier_mac.c: the queues neither lose nor duplicate packet
  references, multicast distribution included; and the control side: updates of the table.
\<close>

section \<open>Queues\<close>

definition pend :: "'h cls_info \<Rightarrow> nat multiset" where
  "pend ci = mset (concat (List.map cd_pkts (classified_data_tx ci)))"

text \<open>A transmit port without VLAN operations.\<close>

definition tx_plain :: "'z port_data_scheme \<Rightarrow> int \<Rightarrow> bool" where
  "tx_plain s p \<longleftrightarrow> 0 \<le> p \<and> p < 2 ^ 16 \<and>
    (\<exists>info. spp_port_ability_get_info s p SPP_PORT_RXTX_TX = Some info \<and> info \<noteq> [] \<and>
       ope (hd info) = SPP_PORT_ABILITY_OPE_NONE)"

definition wf_queues :: "'z port_data_scheme \<Rightarrow> 'h cls_info \<Rightarrow> bool" where
  "wf_queues s ci \<longleftrightarrow> (let n = nat (n_classified_data_tx ci) in
    n \<le> length (classified_data_tx ci) \<and>
    (\<forall>q\<in>set (take n (classified_data_tx ci)). tx_plain s (cd_port q) \<and> length (cd_pkts q) < MAX_PKT_BURST))"

definition same_tables :: "'h cls_info \<Rightarrow> 'h cls_info \<Rightarrow> bool" where
  "same_tables ci ci' \<longleftrightarrow> mac_classifications ci' = mac_classifications ci \<and>
    n_classified_data_tx ci' = n_classified_data_tx ci \<and>
    classified_data_rx ci' = classified_data_rx ci \<and>
    length (classified_data_tx ci') = length (classified_data_tx ci)"

lemma same_tables_trans: "same_tables a b \<Longrightarrow> same_tables b c \<Longrightarrow> same_tables a c"
  by (simp add: same_tables_def)

lemma tx_plain_burst:
  assumes H: "io_laws D held" and p: "tx_plain s p" and "mset pkts \<subseteq># held w"
  shows "\<exists>k w'. spp_eth_tx_burst D s p pkts w = Some (k, w') \<and> k \<le> length pkts \<and>
    held w' = held w - mset (take k pkts) \<and>
    (mem_laws D held \<longrightarrow> (\<forall>j. j \<in># held w' \<longrightarrow> mbuf_load D w' j = mbuf_load D w j))"
proof -
  obtain info where info: "spp_port_ability_get_info s p SPP_PORT_RXTX_TX = Some info" "info \<noteq> []"
      "ope (hd info) = SPP_PORT_ABILITY_OPE_NONE"
    using p by (auto simp: tx_plain_def)
  have i0: "rd info 0 = Some (hd info)" using info(2) by (simp add: rd_def hd_conv_nth)
  have e: "port_ability_each_operation D s p pkts SPP_PORT_RXTX_TX w = Some (length pkts, w)"
    using info i0 by (simp add: port_ability_each_operation_def)
  have pid: "to_uint16 p = p" using p by (simp add: tx_plain_def)
  show ?thesis
  proof (cases "pkts = []")
    case True
    then show ?thesis using e pid by (simp add: spp_eth_tx_burst_def)
  next
    case False
    obtain k w' where "rte_eth_tx_burst D p pkts w = Some (k, w')" "k \<le> length pkts"
        "held w' = held w - mset (take k pkts)"
      using io_tx [OF H assms(3)] by blast
    then show ?thesis using e pid False mem_tx
      by (fastforce simp: spp_eth_tx_burst_def)
  qed
qed

lemma transmit_packet_ok:
  assumes H: "io_laws D held" and M: "mem_laws D held" and p: "tx_plain s (cd_port cd)"
    and h: "held w = h + mset (cd_pkts cd)"
  shows "\<exists>w'. transmit_packet D s cd w = Some (cd\<lparr>cd_pkts := []\<rparr>, w') \<and> held w' = h \<and>
    (\<forall>j. j \<in># h \<longrightarrow> j \<notin> set (cd_pkts cd) \<longrightarrow> mbuf_load D w' j = mbuf_load D w j)"
proof -
  define pkts where "pkts = cd_pkts cd"
  obtain k w1 where tx: "spp_eth_tx_burst D s (cd_port cd) pkts w = Some (k, w1)" "k \<le> length pkts"
      "held w1 = held w - mset (take k pkts)"
      "\<forall>j. j \<in># held w1 \<longrightarrow> mbuf_load D w1 j = mbuf_load D w j"
    using tx_plain_burst [OF H p, of pkts w] h M by (auto simp: pkts_def)
  have "mset pkts = mset (take k pkts) + mset (drop k pkts)"
    by (metis append_take_drop_id mset_append)
  then have h1: "held w1 = h + mset (drop k pkts)" using tx(3) h by (simp add: pkts_def [symmetric])
  have l1: "\<forall>j. j \<in># h \<longrightarrow> mbuf_load D w1 j = mbuf_load D w j" using tx(4) h1 by auto
  show ?thesis
  proof (cases "k = length pkts")
    case True
    then show ?thesis using tx(1) h1 l1 by (simp add: transmit_packet_def pkts_def [symmetric])
  next
    case False
    obtain w2 where w2: "free_packets D (drop k pkts) w1 = Some w2" "held w2 = held w1 - mset (drop k pkts)"
      using free_packets_ok [OF H, of "drop k pkts" w1] h1 by auto
    have "mbuf_load D w2 j = mbuf_load D w j" if j: "j \<in># h" "j \<notin> set pkts" for j
    proof -
      have "j \<notin> set (drop k pkts)" using j(2) by (auto dest: in_set_dropD)
      then show ?thesis using free_packets_load [OF M w2(1)] l1 j(1) by simp
    qed
    then show ?thesis using tx(1) False w2 h1 by (simp add: transmit_packet_def pkts_def [symmetric])
  qed
qed

lemma transmit_queues_ok:
  assumes H: "io_laws D held" and M: "mem_laws D held"
    and "\<forall>q\<in>set qs. tx_plain s (cd_port q)" and "held w = h + mset (concat (List.map cd_pkts qs))"
  shows "\<exists>w'. transmit_queues D s qs w = Some (List.map (\<lambda>q. q\<lparr>cd_pkts := []\<rparr>) qs, w') \<and> held w' = h"
  using assms(3,4)
proof (induction qs arbitrary: w)
  case (Cons q qs)
  have h: "held w = (h + mset (concat (List.map cd_pkts qs))) + mset (cd_pkts q)"
    using Cons.prems(2) by (simp add: ac_simps)
  have "\<exists>w1. (if cd_pkts q \<noteq> [] then transmit_packet D s q w else Some (q, w)) = Some (q\<lparr>cd_pkts := []\<rparr>, w1) \<and>
      held w1 = h + mset (concat (List.map cd_pkts qs))"
  proof (cases "cd_pkts q = []")
    case True
    then have "q\<lparr>cd_pkts := []\<rparr> = q" by simp
    then show ?thesis using h True by simp
  next
    case False
    then show ?thesis using transmit_packet_ok [OF H M _ h, of s] Cons.prems(1) by auto
  qed
  then obtain w1 where w1: "(if cd_pkts q \<noteq> [] then transmit_packet D s q w else Some (q, w)) =
      Some (q\<lparr>cd_pkts := []\<rparr>, w1)" "held w1 = h + mset (concat (List.map cd_pkts qs))" by blast
  then show ?case using Cons.IH [OF _ w1(2)] Cons.prems(1) by (auto split: if_splits)
qed simp

text \<open>After draining the queues in use are empty.\<close>

lemma transmit_all_ok:
  assumes H: "io_laws D held" and M: "mem_laws D held" and wf: "wf_queues s ci"
    and h: "held w = h + pend ci"
  shows "\<exists>ci' w'. transmit_all_packet D s ci w = Some (ci', w') \<and> held w' = h + pend ci' \<and>
    wf_queues s ci' \<and> same_tables ci ci' \<and> mac_addr_entry ci' = mac_addr_entry ci \<and>
    set_mset (pend ci') \<subseteq> set_mset (pend ci)"
proof -
  define n qs where "n = nat (n_classified_data_tx ci)" and "qs = classified_data_tx ci"
  have n: "n \<le> length qs" "\<forall>q\<in>set (take n qs). tx_plain s (cd_port q)"
    using wf by (auto simp: wf_queues_def Let_def n_def qs_def)
  have sp: "concat (List.map cd_pkts qs) =
      concat (List.map cd_pkts (take n qs)) @ concat (List.map cd_pkts (drop n qs))"
    by (metis append_take_drop_id concat_append map_append)
  have h': "held w = (h + mset (concat (List.map cd_pkts (drop n qs)))) +
      mset (concat (List.map cd_pkts (take n qs)))"
    using h by (simp add: pend_def qs_def [symmetric] sp ac_simps)
  obtain w' where w': "transmit_queues D s (take n qs) w =
      Some (List.map (\<lambda>q. q\<lparr>cd_pkts := []\<rparr>) (take n qs), w')"
      "held w' = h + mset (concat (List.map cd_pkts (drop n qs)))"
    using transmit_queues_ok [OF H M n(2) h'] by blast
  define ci' where "ci' = ci\<lparr>classified_data_tx := List.map (\<lambda>q. q\<lparr>cd_pkts := []\<rparr>) (take n qs) @ drop n qs\<rparr>"
  have run: "transmit_all_packet D s ci w = Some (ci', w')"
    using w'(1) n(1) by (simp add: transmit_all_packet_def Let_def n_def qs_def ci'_def)
  have empty: "concat (List.map (cd_pkts \<circ> (\<lambda>q. q\<lparr>cd_pkts := []\<rparr>)) xs) = []" for xs
    by (induction xs) auto
  have p': "pend ci' = mset (concat (List.map cd_pkts (drop n qs)))"
    by (simp add: pend_def ci'_def empty)
  have "wf_queues s ci'"
    using n by (auto simp: wf_queues_def Let_def ci'_def n_def [symmetric] min_def MAX_PKT_BURST_def)
  moreover have "same_tables ci ci'" using n(1) by (simp add: same_tables_def ci'_def qs_def)
  moreover have "set_mset (pend ci') \<subseteq> set_mset (pend ci)"
    unfolding p' unfolding pend_def qs_def [symmetric] sp by auto
  ultimately show ?thesis using run w'(2) p' by (intro exI [of _ ci'] exI [of _ w']) (simp add: ci'_def)
qed

section \<open>Pushing a packet\<close>

text \<open>What a step with packet pkt leaves: its reference and those of the queues are in the queues
  or gone, the other references h are untouched, and so is the memory of packets that are
  neither pkt nor queued.\<close>

definition moved ::
  "'w dpdk \<Rightarrow> ('w \<Rightarrow> nat multiset) \<Rightarrow> 'z port_data_scheme \<Rightarrow> nat multiset \<Rightarrow> nat \<Rightarrow>
   'h cls_info \<Rightarrow> 'w \<Rightarrow> 'h cls_info \<Rightarrow> 'w \<Rightarrow> bool" where
  "moved D held s h pkt ci w ci' w' \<longleftrightarrow>
    held w' = h + pend ci' \<and> set_mset (pend ci') \<subseteq> insert pkt (set_mset (pend ci)) \<and>
    wf_queues s ci' \<and> same_tables ci ci' \<and>
    (\<forall>j. j \<in># h \<longrightarrow> j \<notin># pend ci \<longrightarrow> j \<noteq> pkt \<longrightarrow> mbuf_load D w' j = mbuf_load D w j)"

lemma pend_update:
  assumes "i < length (classified_data_tx ci)"
  shows "pend (ci\<lparr>classified_data_tx := (classified_data_tx ci)[i := q]\<rparr>) + mset (cd_pkts (classified_data_tx ci ! i)) =
    pend ci + mset (cd_pkts q)"
proof -
  define qs where "qs = classified_data_tx ci"
  have i: "i < length qs" using assms by (simp add: qs_def)
  have "qs[i := q] = take i qs @ q # drop (Suc i) qs" using i by (rule upd_conv_take_nth_drop)
  moreover have "qs = take i qs @ qs ! i # drop (Suc i) qs" using i by (rule id_take_nth_drop)
  then have "concat (List.map cd_pkts qs) = concat (List.map cd_pkts (take i qs)) @
      cd_pkts (qs ! i) @ concat (List.map cd_pkts (drop (Suc i) qs))"
    by (metis concat.simps(2) concat_append list.simps(9) map_append)
  ultimately show ?thesis by (simp add: pend_def qs_def [symmetric])
qed

lemma wf_queues_update:
  assumes "wf_queues s ci" and "tx_plain s (cd_port q)" and "length (cd_pkts q) < MAX_PKT_BURST"
  shows "wf_queues s (ci\<lparr>classified_data_tx := (classified_data_tx ci)[i := q]\<rparr>)"
proof -
  have "set (take k ((classified_data_tx ci)[i := q])) \<subseteq> insert q (set (take k (classified_data_tx ci)))" for k
    by (cases "i < k") (auto simp: take_update_swap dest: set_update_subset_insert [THEN subsetD])
  then show ?thesis using assms by (fastforce simp: wf_queues_def Let_def)
qed

lemma push_packet_ok:
  assumes H: "io_laws D held" and M: "mem_laws D held" and wf: "wf_queues s ci"
    and idx: "0 \<le> idx" "idx < n_classified_data_tx ci"
    and h: "held w = h + {#pkt#} + pend ci"
  shows "\<exists>ci' w'. push_packet D s pkt idx ci w = Some (ci', w') \<and> moved D held s h pkt ci w ci' w'"
proof -
  define i where "i = nat idx"
  define cd where "cd = classified_data_tx ci ! i"
  have il: "i < length (classified_data_tx ci)" "i < nat (n_classified_data_tx ci)"
    using idx wf by (auto simp: wf_queues_def Let_def i_def)
  have r: "rd (classified_data_tx ci) idx = Some cd" using il(1) idx by (simp add: rd_def cd_def i_def)
  have "cd \<in> set (take (nat (n_classified_data_tx ci)) (classified_data_tx ci))"
    using il by (auto simp: cd_def in_set_conv_nth intro!: exI [of _ i])
  then have cd: "tx_plain s (cd_port cd)" "length (cd_pkts cd) < MAX_PKT_BURST"
    using wf by (auto simp: wf_queues_def Let_def)
  have cdp: "mset (cd_pkts cd) \<subseteq># pend ci"
    using pend_update [OF il(1), of "cd\<lparr>cd_pkts := []\<rparr>"] by (simp add: cd_def) (metis mset_subset_eq_add_right)
  define cd1 where "cd1 = cd\<lparr>cd_pkts := cd_pkts cd @ [pkt]\<rparr>"
  have upd: "\<And>q. pend (ci\<lparr>classified_data_tx := (classified_data_tx ci)[i := q]\<rparr>) + mset (cd_pkts cd) =
      pend ci + mset (cd_pkts q)"
    using pend_update [OF il(1)] by (simp add: cd_def)
  have w: "\<And>q. wr (classified_data_tx ci) idx q = Some ((classified_data_tx ci)[i := q])"
    using il(1) idx by (simp add: wr_def i_def)
  show ?thesis
  proof (cases "length (cd_pkts cd1) = MAX_PKT_BURST")
    case False
    define ci' where "ci' = ci\<lparr>classified_data_tx := (classified_data_tx ci)[i := cd1]\<rparr>"
    have "pend ci' = pend ci + {#pkt#}" using upd [of cd1] by (simp add: ci'_def cd1_def)
    moreover have "wf_queues s ci'"
      unfolding ci'_def using False cd wf by (intro wf_queues_update) (auto simp: cd1_def)
    ultimately have "moved D held s h pkt ci w ci' w"
      using h by (simp add: moved_def same_tables_def ci'_def)
    moreover have "push_packet D s pkt idx ci w = Some (ci', w)"
      using r w cd(2) False by (simp add: push_packet_def cd1_def Let_def ci'_def)
    ultimately show ?thesis by blast
  next
    case True
    define ci' where "ci' = ci\<lparr>classified_data_tx := (classified_data_tx ci)[i := cd1\<lparr>cd_pkts := []\<rparr>]\<rparr>"
    have p: "pend ci' + mset (cd_pkts cd) = pend ci" using upd [of "cd1\<lparr>cd_pkts := []\<rparr>"] by (simp add: ci'_def)
    have h1: "held w = (h + pend ci') + mset (cd_pkts cd1)"
      using h p [symmetric] by (simp add: cd1_def ac_simps)
    have pl: "tx_plain s (cd_port cd1)" using cd(1) by (simp add: cd1_def)
    obtain w' where w': "transmit_packet D s cd1 w = Some (cd1\<lparr>cd_pkts := []\<rparr>, w')" "held w' = h + pend ci'"
        "\<forall>j. j \<in># h + pend ci' \<longrightarrow> j \<notin> set (cd_pkts cd1) \<longrightarrow> mbuf_load D w' j = mbuf_load D w j"
      using transmit_packet_ok [OF H M pl h1] by blast
    have "j \<notin> set (cd_pkts cd1)" if "j \<notin># pend ci" "j \<noteq> pkt" for j
      using that cdp by (auto simp: cd1_def dest: mset_subset_eqD)
    moreover have "set_mset (pend ci') \<subseteq> set_mset (pend ci)" using p by (metis Un_upper1 set_mset_union)
    moreover have "wf_queues s ci'"
      unfolding ci'_def using cd wf by (intro wf_queues_update) (auto simp: cd1_def MAX_PKT_BURST_def)
    ultimately have "moved D held s h pkt ci w ci' w'"
      using w' by (auto simp: moved_def same_tables_def ci'_def)
    moreover have "push_packet D s pkt idx ci w = Some (ci', w')"
      using r w cd(2) True w'(1) by (simp add: push_packet_def cd1_def Let_def ci'_def)
    ultimately show ?thesis by blast
  qed
qed

section \<open>Classifying packets\<close>

text \<open>Every queue index in the tables is that of a transmit port in use.\<close>

definition cls_ok :: "'h hash_ops \<Rightarrow> 'h cls_info \<Rightarrow> bool" where
  "cls_ok H ci \<longleftrightarrow> length (mac_classifications ci) = SPP_NUM_VLAN_VID \<and>
    (\<forall>m. Some m \<in> set (mac_classifications ci) \<longrightarrow>
       0 \<le> num_active_classified m \<and> num_active_classified m \<le> int (length (active_classifieds m)) \<and>
       (\<forall>i\<in>set (take (nat (num_active_classified m)) (active_classifieds m)).
          0 \<le> i \<and> i < n_classified_data_tx ci) \<and>
       - 1 \<le> default_classified m \<and> default_classified m < n_classified_data_tx ci \<and>
       (\<forall>a. 0 \<le> fst (rte_hash_lookup_data H (classification_tab m) a) \<longrightarrow>
          0 \<le> snd (rte_hash_lookup_data H (classification_tab m) a) \<and>
          snd (rte_hash_lookup_data H (classification_tab m) a) < n_classified_data_tx ci))"

lemma cls_ok_same: "cls_ok H ci \<Longrightarrow> same_tables ci ci' \<Longrightarrow> cls_ok H ci'"
  by (simp add: cls_ok_def same_tables_def)

lemma cls_ok_rd: "cls_ok H ci \<Longrightarrow> 0 \<le> v \<Longrightarrow> v < int SPP_NUM_VLAN_VID \<Longrightarrow>
    \<exists>mc. rd (mac_classifications ci) v = Some mc \<and> mc \<in> set (mac_classifications ci)"
  by (auto simp: cls_ok_def rd_ok intro!: nth_mem)

lemma general_default_range:
  assumes "cls_ok H ci" and "1 \<le> n_classified_data_tx ci"
  shows "\<exists>g. get_general_default_classified_index ci = Some g \<and> - 1 \<le> g \<and> g < n_classified_data_tx ci"
proof -
  obtain mc where mc: "rd (mac_classifications ci) VLAN_UNTAGGED_VID = Some mc" "mc \<in> set (mac_classifications ci)"
    using cls_ok_rd [OF assms(1), of VLAN_UNTAGGED_VID]
    by (auto simp: VLAN_UNTAGGED_VID_def SPP_NUM_VLAN_VID_def)
  then show ?thesis using assms
    by (cases mc) (auto simp: get_general_default_classified_index_def cls_ok_def)
qed

lemma room_loads:
  assumes "mbuf_room 0 m"
  shows "\<exists>v a. get_vid m = Some v \<and> dest_addr m = Some a"
proof -
  have "m_off m + 12 + 2 \<le> length (m_buf m)" "m_off m + 14 + 2 \<le> length (m_buf m)"
    using assms by (auto simp: mbuf_room_def)
  then obtain e t where "load16 m 12 = Some e" "load16 m 14 = Some t" using load16_ok by blast
  moreover have "\<exists>bs. load_bytes m 0 6 = Some bs" using assms by (simp add: load_bytes_def mbuf_room_def)
  ultimately show ?thesis by (auto simp: get_vid_def dest_addr_def)
qed

lemma select_range:
  assumes ok: "cls_ok H ci" and n: "1 \<le> n_classified_data_tx ci" and r: "mbuf_room 0 m"
  shows "\<exists>x. select_classified_index H m ci = Some x \<and> (x = - 2 \<or> x = - 1 \<or> 0 \<le> x \<and> x < n_classified_data_tx ci)"
proof -
  obtain v a where va: "get_vid m = Some v" "dest_addr m = Some a" using room_loads [OF r] by blast
  obtain mc where mc: "rd (mac_classifications ci) v = Some mc" "mc \<in> set (mac_classifications ci)"
    using cls_ok_rd [OF ok] get_vid_range [OF va(1)] by blast
  obtain g where g: "get_general_default_classified_index ci = Some g" "- 1 \<le> g" "g < n_classified_data_tx ci"
    using general_default_range [OF ok n] by blast
  show ?thesis
  proof (cases mc)
    case None
    then show ?thesis using va mc g by (auto simp: select_classified_index_def)
  next
    case (Some m')
    have "- 1 \<le> default_classified m'" "default_classified m' < n_classified_data_tx ci"
        "0 \<le> fst (rte_hash_lookup_data H (classification_tab m') a) \<longrightarrow>
          0 \<le> snd (rte_hash_lookup_data H (classification_tab m') a) \<and>
          snd (rte_hash_lookup_data H (classification_tab m') a) < n_classified_data_tx ci"
      using ok mc(2) Some by (auto simp: cls_ok_def)
    then show ?thesis using va mc g Some
      by (auto simp: select_classified_index_def split: prod.splits)
  qed
qed

lemma push_all_ok:
  assumes H: "io_laws D held" and M: "mem_laws D held"
    and "wf_queues s ci" and "\<forall>i\<in>set is. 0 \<le> i \<and> i < n_classified_data_tx ci"
    and "held w = h + replicate_mset (length is) pkt + pend ci"
  shows "\<exists>ci' w'. push_all D s pkt is ci w = Some (ci', w') \<and> moved D held s h pkt ci w ci' w'"
  using assms(3-5)
proof (induction "is" arbitrary: ci w)
  case Nil
  then show ?case by (auto simp: moved_def same_tables_def)
next
  case (Cons i "is")
  define h1 where "h1 = h + replicate_mset (length is) pkt"
  have "held w = h1 + {#pkt#} + pend ci" using Cons.prems(3) by (simp add: h1_def ac_simps)
  moreover have "0 \<le> i" "i < n_classified_data_tx ci" using Cons.prems(2) by auto
  ultimately obtain ci1 w1 where 1: "push_packet D s pkt i ci w = Some (ci1, w1)"
      "moved D held s h1 pkt ci w ci1 w1"
    using push_packet_ok [OF H M Cons.prems(1)] by blast
  then have m1: "held w1 = h + replicate_mset (length is) pkt + pend ci1" "wf_queues s ci1"
      "n_classified_data_tx ci1 = n_classified_data_tx ci"
    by (simp_all add: moved_def h1_def same_tables_def)
  obtain ci2 w2 where 2: "push_all D s pkt is ci1 w1 = Some (ci2, w2)" "moved D held s h pkt ci1 w1 ci2 w2"
    using Cons.IH [OF m1(2) _ m1(1)] m1(3) Cons.prems(2) by auto
  have "moved D held s h pkt ci w ci2 w2"
    using 1(2) 2(2) unfolding moved_def h1_def by (auto intro: same_tables_trans)
  then show ?case using 1(1) 2(1) by auto
qed

lemma moved_free:
  assumes H: "io_laws D held" and M: "mem_laws D held" and wf: "wf_queues s ci"
    and h: "held w = h + {#pkt#} + pend ci"
  shows "\<exists>w'. rte_pktmbuf_free D pkt w = Some w' \<and> moved D held s h pkt ci w ci w'"
proof -
  have "pkt \<in># held w" by (simp add: h)
  then obtain w' where "rte_pktmbuf_free D pkt w = Some w'" "held w' = held w - {#pkt#}"
    using io_free [OF H] by blast
  then show ?thesis using h wf mem_free [OF M] by (auto simp: moved_def same_tables_def)
qed

lemma handle_multicast_ok:
  assumes H: "io_laws D held" and M: "mem_laws D held" and wf: "wf_queues s ci"
    and ok: "cls_ok H' ci" and n: "1 \<le> n_classified_data_tx ci"
    and r: "mbuf_room 0 (mbuf_load D w pkt)"
    and h: "held w = h + {#pkt#} + pend ci"
  shows "\<exists>ci' w'. handle_l2multicast_packet D s pkt ci w = Some (ci', w') \<and> moved D held s h pkt ci w ci' w'"
proof -
  obtain v where v: "get_vid (mbuf_load D w pkt) = Some v" using room_loads [OF r] by blast
  obtain mc where mc: "rd (mac_classifications ci) v = Some mc" "mc \<in> set (mac_classifications ci)"
    using cls_ok_rd [OF ok] get_vid_range [OF v] by blast
  obtain g where g: "get_general_default_classified_index ci = Some g" "- 1 \<le> g" "g < n_classified_data_tx ci"
    using general_default_range [OF ok n] by blast
  show ?thesis
  proof (cases "case mc of None \<Rightarrow> True | Some m \<Rightarrow> num_active_classified m = 0")
    case True
    show ?thesis
    proof (cases "g < 0")
      case True': True
      then show ?thesis using moved_free [OF H M wf h] v mc g True
        by (auto simp: handle_l2multicast_packet_def)
    next
      case False
      then show ?thesis using push_packet_ok [OF H M wf _ g(3) h] v mc g True
        by (auto simp: handle_l2multicast_packet_def)
    qed
  next
    case False
    then obtain m where m: "mc = Some m" "num_active_classified m \<noteq> 0" by (cases mc) auto
    define a where "a = nat (num_active_classified m)"
    have a: "num_active_classified m = int a" "0 < a" "a \<le> length (active_classifieds m)"
        "\<forall>i\<in>set (take a (active_classifieds m)). 0 \<le> i \<and> i < n_classified_data_tx ci"
      using ok mc(2) m by (auto simp: cls_ok_def a_def)
    define e where "e = (if g \<ge> 0 \<and> v \<noteq> VLAN_UNTAGGED_VID then 1 else 0 :: nat)"
    define w1 where "w1 = rte_mbuf_refcnt_update D pkt
      (if g \<ge> 0 \<and> v \<noteq> VLAN_UNTAGGED_VID then int a else int a - 1) w"
    have w1': "w1 = rte_mbuf_refcnt_update D pkt (int (a + e - 1)) w"
      using a(2) by (simp add: w1_def e_def of_nat_diff)
    have "held w1 = held w + replicate_mset (a + e - 1) pkt"
      unfolding w1' by (rule io_refcnt [OF H]) (simp add: h)
    moreover have "replicate_mset (a + e) pkt = {#pkt#} + replicate_mset (a + e - 1) pkt"
      using a(2) by (cases "a + e") auto
    ultimately have h1: "held w1 = h + replicate_mset e pkt + replicate_mset a pkt + pend ci"
      by (simp add: h replicate_mset_add ac_simps)
    have l1: "mbuf_load D w1 = mbuf_load D w" by (simp add: w1' mem_refcnt [OF M])
    have la: "length (take a (active_classifieds m)) = a" using a(3) by simp
    obtain ci2 w2 where 2: "push_all D s pkt (take a (active_classifieds m)) ci w1 = Some (ci2, w2)"
        "moved D held s (h + replicate_mset e pkt) pkt ci w1 ci2 w2"
      using push_all_ok [OF H M wf a(4), of w1 "h + replicate_mset e pkt" pkt] h1 unfolding la by blast
    have pre: "handle_l2multicast_packet D s pkt ci w =
        (if g \<ge> 0 \<and> v \<noteq> VLAN_UNTAGGED_VID then push_packet D s pkt g ci2 w2 else Some (ci2, w2))"
      using v mc m g a 2(1)
      by (cases "g \<ge> 0"; cases "v = VLAN_UNTAGGED_VID")
        (simp_all add: handle_l2multicast_packet_def Let_def w1_def)
    show ?thesis
    proof (cases "g \<ge> 0 \<and> v \<noteq> VLAN_UNTAGGED_VID")
      case True
      have h2: "held w2 = h + {#pkt#} + pend ci2" "wf_queues s ci2"
          "n_classified_data_tx ci2 = n_classified_data_tx ci"
        using 2(2) True by (auto simp: moved_def e_def same_tables_def)
      obtain ci3 w3 where 3: "push_packet D s pkt g ci2 w2 = Some (ci3, w3)" "moved D held s h pkt ci2 w2 ci3 w3"
        using push_packet_ok [OF H M h2(2) _ _ h2(1), of g] True g(3) h2(3) by auto
      have "moved D held s h pkt ci w ci3 w3"
        using 2(2) 3(2) unfolding moved_def l1 by (auto intro: same_tables_trans)
      then show ?thesis using pre True 3(1) by auto
    next
      case False
      have "moved D held s h pkt ci w ci2 w2"
        using 2(2) False unfolding moved_def l1 by (auto simp: e_def)
      then show ?thesis using pre False by auto
    qed
  qed
qed

lemma classify_packet_ok:
  assumes H: "io_laws D held" and M: "mem_laws D held"
    and "wf_queues s ci" and "cls_ok H' ci" and "1 \<le> n_classified_data_tx ci"
    and "distinct pkts" and "\<forall>p\<in>set pkts. p \<notin># pend ci \<and> mbuf_room 0 (mbuf_load D w p)"
    and "held w = h + mset pkts + pend ci"
  shows "\<exists>ci' w'. classify_packet D H' s pkts ci w = Some (ci', w') \<and> held w' = h + pend ci' \<and>
    wf_queues s ci' \<and> same_tables ci ci'"
  using assms(3-8)
proof (induction pkts arbitrary: ci w)
  case Nil
  then show ?case by (auto simp: same_tables_def)
next
  case (Cons pkt pkts)
  have r: "mbuf_room 0 (mbuf_load D w pkt)" using Cons.prems(5) by simp
  have h1: "held w = (h + mset pkts) + {#pkt#} + pend ci" using Cons.prems(6) by (simp add: ac_simps)
  obtain x where x: "select_classified_index H' (mbuf_load D w pkt) ci = Some x"
      "x = - 2 \<or> x = - 1 \<or> 0 \<le> x \<and> x < n_classified_data_tx ci"
    using select_range [OF Cons.prems(2,3) r] by blast
  have "\<exists>ci1 w1. (if x \<ge> 0 then push_packet D s pkt x ci w
       else if x = - 1 then do { w' \<leftarrow> rte_pktmbuf_free D pkt w; Some (ci, w') }
       else if x = - 2 then handle_l2multicast_packet D s pkt ci w
       else Some (ci, w)) = Some (ci1, w1) \<and> moved D held s (h + mset pkts) pkt ci w ci1 w1"
    using x(2)
  proof (elim disjE)
    assume "x = - 2"
    then show ?thesis using handle_multicast_ok [OF H M Cons.prems(1,2,3) r h1] by simp
  next
    assume "x = - 1"
    then show ?thesis using moved_free [OF H M Cons.prems(1) h1] by auto
  next
    assume "0 \<le> x \<and> x < n_classified_data_tx ci"
    then show ?thesis using push_packet_ok [OF H M Cons.prems(1) _ _ h1] by simp
  qed
  then obtain ci1 w1 where 1: "(if x \<ge> 0 then push_packet D s pkt x ci w
       else if x = - 1 then do { w' \<leftarrow> rte_pktmbuf_free D pkt w; Some (ci, w') }
       else if x = - 2 then handle_l2multicast_packet D s pkt ci w
       else Some (ci, w)) = Some (ci1, w1)" and m: "moved D held s (h + mset pkts) pkt ci w ci1 w1"
    by blast
  have h2: "held w1 = h + mset pkts + pend ci1" and wf1: "wf_queues s ci1" and st: "same_tables ci ci1"
    using m by (simp_all add: moved_def)
  have ok1: "cls_ok H' ci1" and n1: "1 \<le> n_classified_data_tx ci1"
    using cls_ok_same [OF Cons.prems(2) st] st Cons.prems(3) by (simp_all add: same_tables_def)
  have d: "distinct pkts" "pkt \<notin> set pkts" using Cons.prems(4) by auto
  have rest: "\<forall>p\<in>set pkts. p \<notin># pend ci1 \<and> mbuf_room 0 (mbuf_load D w1 p)"
  proof
    fix p assume p: "p \<in> set pkts"
    then have "p \<notin># pend ci" "p \<noteq> pkt" "mbuf_room 0 (mbuf_load D w p)" using Cons.prems(5) d by auto
    then show "p \<notin># pend ci1 \<and> mbuf_room 0 (mbuf_load D w1 p)"
      using m p by (auto simp: moved_def)
  qed
  obtain ci2 w2 where 2: "classify_packet D H' s pkts ci1 w1 = Some (ci2, w2)" "held w2 = h + pend ci2"
      "wf_queues s ci2" "same_tables ci1 ci2"
    using Cons.IH [OF wf1 ok1 n1 d(1) rest h2] by blast
  have "classify_packet D H' s (pkt # pkts) ci w = Some (ci2, w2)"
    using x(1) 1 2(1) by simp
  then show ?case using 2 st same_tables_trans by blast
qed


section \<open>Updates\<close>

definition put_cls :: "'h cls_info \<Rightarrow> 'h management_info \<Rightarrow> 'h management_info" where
  "put_cls x mi = mi\<lparr>cmp_infos := (cmp_infos mi)[nat (mi_upd_index mi) := x]\<rparr>"

definition publish_cls :: "'h management_info \<Rightarrow> 'h management_info" where
  "publish_cls mi = mi\<lparr>mi_upd_index := mi_ref_index mi\<rparr>"

definition flip_cls :: "'h management_info \<Rightarrow> 'h management_info" where
  "flip_cls mi = (if mi_ref_index mi = mi_upd_index mi
     then mi\<lparr>mi_ref_index := flip_index (mi_upd_index mi)\<rparr> else mi)"

interpretation cls_buffer: double_buffer mi_ref_index mi_upd_index cmp_infos put_cls publish_cls flip_cls
  by unfold_locales (auto simp: put_cls_def publish_cls_def flip_cls_def)

text \<open>A worker that looks at component e while it has no packet queued there.\<close>

definition classifier_look ::
  "'w dpdk \<Rightarrow> 'w \<Rightarrow> int \<Rightarrow> ('h, 'z) classifier_data_scheme \<Rightarrow> ('h, 'z) classifier_data_scheme option" where
  "classifier_look D w e s = map_option fst (change_classifier_index D e s w)"

lemma transmit_queues_empty:
  "\<forall>q\<in>set qs. cd_pkts q = [] \<Longrightarrow> transmit_queues D s qs w = Some (qs, w)"
  by (induction qs) auto

lemma transmit_all_empty:
  assumes "nat (n_classified_data_tx ci) \<le> length (classified_data_tx ci)" and "pend ci = {#}"
  shows "transmit_all_packet D s ci w = Some (ci, w)"
proof -
  have "\<forall>q\<in>set (take k (classified_data_tx ci)). cd_pkts q = []" for k
    using assms(2) by (auto simp: pend_def dest: in_set_takeD)
  then show ?thesis using assms(1) by (simp add: transmit_all_packet_def Let_def transmit_queues_empty)
qed

lemma classifier_look_flip:
  assumes "chg_num_rx s = 0" and "chg_num_tx s = 0" and mi: "rd (g_mng_infos s) i = Some mi"
    and "mi_ref_index mi = mi_upd_index mi" and ci: "rd (cmp_infos mi) (mi_ref_index mi) = Some ci"
    and "nat (n_classified_data_tx ci) \<le> length (classified_data_tx ci)" and "pend ci = {#}"
  shows "classifier_look D w i s = Some (s\<lparr>g_mng_infos := (g_mng_infos s)[nat i := flip_cls mi]\<rparr>)"
proof -
  have "wr (cmp_infos mi) (mi_ref_index mi) ci = Some (cmp_infos mi)"
    using ci by (auto simp: wr_def rd_def split: if_splits)
  moreover have "0 \<le> i" "i < int (length (g_mng_infos s))" using mi by (auto simp: rd_Some_iff)
  ultimately show ?thesis
    using mi ci assms(4) change_index_nothing_pending [OF assms(1,2)]
    by (simp add: transmit_all_empty [OF assms(6,7)] classifier_look_def change_classifier_index_def
        set_mng_info_def wr_ok flip_cls_def)
qed

lemma classifier_look_settled:
  "rd (g_mng_infos s) e = Some mi \<Longrightarrow> mi_ref_index mi \<noteq> mi_upd_index mi \<Longrightarrow> classifier_look D w e s = Some s"
  by (simp add: classifier_look_def change_classifier_index_def)

text \<open>The wait of an update: only component i is published.\<close>

lemma wait_classifier:
  assumes "chg_num_rx s = 0" and "chg_num_tx s = 0" and mi: "rd (g_mng_infos s) i = Some mi"
    and pend: "mi_ref_index mi = mi_upd_index mi" "mi_upd_index mi \<in> {0, 1}"
    and ci: "rd (cmp_infos mi) (mi_ref_index mi) = Some ci"
    and "nat (n_classified_data_tx ci) \<le> length (classified_data_tx ci)" and "pend ci = {#}"
    and oth: "\<forall>e\<in>set sched. e \<noteq> i \<longrightarrow>
      (\<exists>m. rd (g_mng_infos s) e = Some m \<and> mi_ref_index m \<noteq> mi_upd_index m)"
    and sched: "i \<in> set sched"
  shows "\<exists>sched'. wait_while (classifier_pending i) (classifier_look D w) sched s =
    Some (sched', s\<lparr>g_mng_infos := (g_mng_infos s)[nat i := flip_cls mi]\<rparr>)"
proof (rule wait_while_one [OF _ _ _ sched])
  let ?s = "s\<lparr>g_mng_infos := (g_mng_infos s)[nat i := flip_cls mi]\<rparr>"
  show "classifier_pending i s = Some True" using mi pend by (simp add: classifier_pending_def)
  show "classifier_look D w i s = Some ?s"
    using classifier_look_flip [OF assms(1-3) pend(1) ci assms(7,8)] .
  have "mi_ref_index (flip_cls mi) \<noteq> mi_upd_index (flip_cls mi)"
    using pend by (auto simp: flip_cls_def flip_index_def SPP_INFO_AREA_MAX_def)
  moreover have "rd (g_mng_infos ?s) i = Some (flip_cls mi)"
    using mi by (auto simp: rd_Some_iff intro!: nth_list_update_eq)
  ultimately show "classifier_pending i ?s = Some False" by (simp add: classifier_pending_def)
  show "\<forall>e\<in>set sched. e \<noteq> i \<longrightarrow> classifier_look D w e s = Some s"
    using oth classifier_look_settled by fastforce
qed

text \<open>The queues of a table that was just built are empty.\<close>

lemma set_tx_queues:
  assumes "set_tx H n i p ci hc = Some (ret, ci', hc')"
  shows "length (classified_data_tx ci') = length (classified_data_tx ci) \<and>
   n_classified_data_tx ci' = n_classified_data_tx ci \<and> (pend ci = {#} \<longrightarrow> pend ci' = {#})"
proof -
  define q where "q = \<lparr>cd_iface_type = iface_type p, cd_iface_no = i, cd_iface_no_global = iface_no p,
    cd_port = to_uint16 (dpdk_port p), cd_pkts = []\<rparr>"
  obtain qs where qs: "wr (classified_data_tx ci) i q = Some qs"
    using assms by (auto simp: set_tx_def q_def bind_Some_iff)
  have "classified_data_tx ci' = qs \<and> n_classified_data_tx ci' = n_classified_data_tx ci"
  proof (cases "mac_addr (class_id p) = 0")
    case True
    then show ?thesis using assms qs by (auto simp: set_tx_def q_def)
  next
    case False
    obtain mc0 h0 where cr: "create_mac_classification H n hc = (mc0, h0)" by fastforce
    obtain x where x: "rd (mac_classifications ci) (to_uint16 (vid (vlantag (class_id p)))) = Some x"
      using assms qs False by (auto simp: set_tx_def q_def Let_def bind_Some_iff)
    show ?thesis
      using assms qs False cr x
      by (cases x; cases mc0) (auto simp: set_tx_def q_def Let_def bind_Some_iff)
  qed
  moreover have "set qs \<subseteq> insert q (set (classified_data_tx ci))"
    using qs set_update_subset_insert by (auto simp: wr_Some_iff dest: set_update_subset_insert [THEN subsetD])
  then have "pend ci = {#} \<Longrightarrow> \<forall>x\<in>set qs. cd_pkts x = []" by (auto simp: pend_def q_def)
  ultimately show ?thesis using wr_length [OF qs] by (auto simp: pend_def)
qed

lemma set_tx_all_queues:
  "set_tx_all H n s ptrs i left ci hc = Some (ret, ci', hc') \<Longrightarrow>
   length (classified_data_tx ci') = length (classified_data_tx ci) \<and>
   n_classified_data_tx ci' = n_classified_data_tx ci \<and> (pend ci = {#} \<longrightarrow> pend ci' = {#})"
proof (induction left arbitrary: i ci hc)
  case (Suc left)
  obtain p q r c1 h1 where 1: "rd ptrs (int i) = Some p" "load_port s p = Some q"
      "set_tx H n (int i) q ci hc = Some (r, c1, h1)"
      "(if r \<noteq> SPP_RET_OK then Some (SPP_RET_NG, c1, h1)
        else set_tx_all H n s ptrs (Suc i) left c1 h1) = Some (ret, ci', hc')"
    using Suc.prems by (auto simp: bind_Some_iff)
  note q = set_tx_queues [OF 1(3)]
  show ?case
  proof (cases "r = SPP_RET_OK")
    case True
    then show ?thesis using Suc.IH [of "Suc i" c1 h1] 1(4) q by auto
  qed (use 1(4) q in auto)
qed auto

lemma init_component_queues:
  assumes "cls_init_component_info H s c (zero_cls n) hc = Some (ret, ci, hc')"
  shows "length (classified_data_tx ci) = n \<and> n_classified_data_tx ci = num_tx_port c \<and> pend ci = {#}"
proof -
  have e: "concat (List.map cd_pkts (replicate k zero_classified)) = []" for k
    by (induction k) (auto simp: zero_classified_def)
  obtain rx where "set_tx_all H (length (nic (g_iface_info s))) s (tx_ports c) 0 (nat (num_tx_port c))
      ((zero_cls n)\<lparr>classified_data_rx := rx, n_classified_data_tx := num_tx_port c, mac_addr_entry := 0\<rparr>) hc =
      Some (ret, ci, hc')"
    using assms by (auto simp: cls_init_component_info_def bind_Some_iff)
  from set_tx_all_queues [OF this] show ?thesis
    by (simp add: zero_cls_def pend_def zero_classified_def)
qed

lemma uninit_zero [simp]: "uninit_component_info (zero_cls n) = zero_cls n"
  by (simp add: uninit_component_info_def zero_cls_def)

text \<open>Building the table and publishing it.\<close>

lemma classifier_update_step:
  fixes s :: "('h, 'z) classifier_data_scheme"
  assumes "chg_num_rx s = 0" and "chg_num_tx s = 0"
    and mi: "rd (g_mng_infos s) (component_id c) = Some mi"
    and idx: "mi_ref_index mi \<in> {0, 1}" "mi_upd_index mi \<in> {0, 1}" "length (cmp_infos mi) = 2"
    and zero: "rd (cmp_infos mi) (mi_upd_index mi) = Some (zero_cls n)"
    and old: "mi_ref_index mi \<noteq> mi_upd_index mi \<longrightarrow>
      (\<exists>q0. rd (cmp_infos mi) (mi_ref_index mi) = Some q0 \<and> pend q0 = {#} \<and>
        nat (n_classified_data_tx q0) \<le> length (classified_data_tx q0))"
    and init: "cls_init_component_info H s c (zero_cls n) (g_hash_table_count s) = Some (SPP_RET_OK, ci, hc)"
    and n: "num_tx_port c \<le> int n"
    and oth: "\<forall>e\<in>set sched. e \<noteq> component_id c \<longrightarrow>
      (\<exists>m. rd (g_mng_infos s) e = Some m \<and> mi_ref_index m \<noteq> mi_upd_index m)"
    and sched: "component_id c \<in> set sched"
  shows "\<exists>sched' s'. spp_classifier_mac_update H (classifier_look D w) sched c s = Some (SPP_RET_OK, sched', s') \<and>
    (let mi1 = (publish_cls (put_cls (ci\<lparr>cl_name := name c\<rparr>) mi))\<lparr>is_used := 1\<rparr>; mi2 = flip_cls mi1 in
     rd (g_mng_infos s') (component_id c) = Some
       (put_cls (uninit_component_info (cmp_infos mi2 ! nat (mi_upd_index mi2))) mi2))"
proof -
  define i where "i = component_id c"
  define ci2 where "ci2 = ci\<lparr>cl_name := name c\<rparr>"
  define mi1 where "mi1 = (publish_cls (put_cls ci2 mi))\<lparr>is_used := 1\<rparr>"
  define s1 where "s1 = s\<lparr>g_hash_table_count := hc, g_mng_infos := (g_mng_infos s)[nat i := mi1]\<rparr>"
  have il: "0 \<le> i" "i < int (length (g_mng_infos s))" using mi by (auto simp: rd_Some_iff i_def)
  note q = init_component_queues [OF init]
  have w1: "wr (cmp_infos mi) (mi_upd_index mi) ci2 = Some (cmp_infos mi1)"
    using idx by (auto simp: wr_def mi1_def publish_cls_def put_cls_def)
  have eq: "mi\<lparr>cmp_infos := cmp_infos mi1, mi_upd_index := mi_ref_index mi, is_used := 1\<rparr> = mi1"
    by (simp add: mi1_def publish_cls_def put_cls_def)
  have w2: "set_mng_info i mi1 (s\<lparr>g_hash_table_count := hc\<rparr>) = Some s1"
    using il by (simp add: set_mng_info_def wr_ok s1_def)
  have r1: "rd (g_mng_infos s1) i = Some mi1" using il by (simp add: s1_def rd_def)
  have p1: "mi_ref_index mi1 = mi_upd_index mi1" "mi_upd_index mi1 \<in> {0, 1}" "length (cmp_infos mi1) = 2"
    using idx by (auto simp: mi1_def publish_cls_def put_cls_def)
  have "\<exists>q0. rd (cmp_infos mi1) (mi_ref_index mi1) = Some q0 \<and> pend q0 = {#} \<and>
      nat (n_classified_data_tx q0) \<le> length (classified_data_tx q0)"
  proof (cases "mi_ref_index mi = mi_upd_index mi")
    case True
    have "rd (cmp_infos mi1) (mi_ref_index mi1) = Some ci2"
      using True idx by (auto simp: mi1_def publish_cls_def put_cls_def rd_def)
    then show ?thesis using q n by (simp add: ci2_def pend_def)
  next
    case False
    have "rd (cmp_infos mi1) (mi_ref_index mi1) = rd (cmp_infos mi) (mi_ref_index mi)"
      using False idx by (auto simp: mi1_def publish_cls_def put_cls_def rd_def)
    then show ?thesis using old False by simp
  qed
  then obtain q0 where q0: "rd (cmp_infos mi1) (mi_ref_index mi1) = Some q0" "pend q0 = {#}"
      "nat (n_classified_data_tx q0) \<le> length (classified_data_tx q0)" by blast
  define mi2 where "mi2 = flip_cls mi1"
  define s2 where "s2 = s1\<lparr>g_mng_infos := (g_mng_infos s1)[nat i := mi2]\<rparr>"
  have oth1: "\<forall>e\<in>set sched. e \<noteq> i \<longrightarrow> (\<exists>m. rd (g_mng_infos s1) e = Some m \<and> mi_ref_index m \<noteq> mi_upd_index m)"
  proof (intro ballI impI)
    fix e assume e: "e \<in> set sched" "e \<noteq> i"
    then obtain m where m: "rd (g_mng_infos s) e = Some m" "mi_ref_index m \<noteq> mi_upd_index m"
      using oth by (auto simp: i_def)
    then have "rd (g_mng_infos s1) e = Some m"
      using e(2) il by (auto simp: s1_def rd_Some_iff nth_list_update)
    then show "\<exists>m. rd (g_mng_infos s1) e = Some m \<and> mi_ref_index m \<noteq> mi_upd_index m" using m(2) by blast
  qed
  have ch: "chg_num_rx s1 = 0" "chg_num_tx s1 = 0" using assms(1,2) by (simp_all add: s1_def)
  have isch: "i \<in> set sched" using sched by (simp add: i_def)
  obtain sched' where wt: "wait_while (classifier_pending i) (classifier_look D w) sched s1 = Some (sched', s2)"
    using wait_classifier [where D = D and w = w, OF ch r1 p1(1,2) q0(1,3,2) oth1 isch] unfolding s2_def mi2_def by blast
  have r2: "rd (g_mng_infos s2) i = Some mi2" using il by (simp add: s2_def s1_def rd_def)
  have idx2: "mi_upd_index mi2 \<in> {0, 1}" "length (cmp_infos mi2) = 2"
    using p1 by (auto simp: mi2_def flip_cls_def)
  have o2: "rd (cmp_infos mi2) (mi_upd_index mi2) = Some (cmp_infos mi2 ! nat (mi_upd_index mi2))"
    using idx2 by (auto simp: rd_def)
  define mi3 where "mi3 = put_cls (uninit_component_info (cmp_infos mi2 ! nat (mi_upd_index mi2))) mi2"
  have w3: "wr (cmp_infos mi2) (mi_upd_index mi2) (uninit_component_info (cmp_infos mi2 ! nat (mi_upd_index mi2))) =
      Some (cmp_infos mi3)" "mi2\<lparr>cmp_infos := cmp_infos mi3\<rparr> = mi3"
    using idx2 by (auto simp: mi3_def put_cls_def wr_def)
  define s3 where "s3 = s2\<lparr>g_mng_infos := (g_mng_infos s2)[nat i := mi3]\<rparr>"
  have l2: "length (g_mng_infos s2) = length (g_mng_infos s)" by (simp add: s2_def s1_def)
  have w4: "set_mng_info i mi3 s2 = Some s3" using il l2 by (simp add: set_mng_info_def wr_ok s3_def)
  have "spp_classifier_mac_update H (classifier_look D w) sched c s = Some (SPP_RET_OK, sched', s3)"
    using mi zero init w1 eq w2 wt r2 o2 w3 w4
    by (simp add: spp_classifier_mac_update_def Let_def i_def [symmetric] ci2_def [symmetric])
  moreover have "rd (g_mng_infos s3) i = Some mi3" using il l2 by (simp add: s3_def rd_def)
  ultimately show ?thesis
    unfolding Let_def i_def [symmetric] ci2_def [symmetric] mi1_def [symmetric] mi2_def [symmetric]
      mi3_def [symmetric]
    by blast
qed

lemma select_classified_name: "select_classified_index H m (ci\<lparr>cl_name := x\<rparr>) = select_classified_index H m ci"
proof -
  have "get_general_default_classified_index (ci\<lparr>cl_name := x\<rparr>) = get_general_default_classified_index ci"
    by (simp add: get_general_default_classified_index_def)
  then show ?thesis unfolding select_classified_index_def by (simp split del: if_split cong: option.case_cong prod.case_cong if_cong)
qed


text \<open>C8: The first update after start-up, when the worker has not looked at the component yet,
  loses the configuration: both indexes are still 0, so the new table is built in the area
  in use, the worker flips to the other, empty area, and the area with the new table is
  cleared as the old one; the update nevertheless returns SPP_RET_OK.\<close>
theorem classifier_first_update_lost:
  fixes s :: "('h, 'z) classifier_data_scheme"
  assumes "chg_num_rx s = 0" and "chg_num_tx s = 0"
    and mi: "rd (g_mng_infos s) (component_id c) = Some (zero_mng n)"
    and init: "cls_init_component_info H s c (zero_cls n) (g_hash_table_count s) = Some (SPP_RET_OK, ci, hc)"
    and nt: "num_tx_port c \<le> int n"
    and oth: "\<forall>e\<in>set sched. e \<noteq> component_id c \<longrightarrow>
      (\<exists>m. rd (g_mng_infos s) e = Some m \<and> mi_ref_index m \<noteq> mi_upd_index m)"
    and sched: "component_id c \<in> set sched"
  shows "\<exists>sched' s' mi'. spp_classifier_mac_update H (classifier_look D w) sched c s = Some (SPP_RET_OK, sched', s') \<and>
    rd (g_mng_infos s') (component_id c) = Some mi' \<and> is_used mi' = 1 \<and>
    cmp_infos mi' = [zero_cls n, zero_cls n]"
proof -
  have m: "mi_ref_index (zero_mng n) \<in> {0, 1}" "mi_upd_index (zero_mng n) \<in> {0, 1}"
      "length (cmp_infos (zero_mng n)) = 2"
      "rd (cmp_infos (zero_mng n)) (mi_upd_index (zero_mng n)) = Some (zero_cls n)"
      "mi_ref_index (zero_mng n) \<noteq> mi_upd_index (zero_mng n) \<longrightarrow>
      (\<exists>q0. rd (cmp_infos (zero_mng n)) (mi_ref_index (zero_mng n)) = Some q0 \<and> pend q0 = {#} \<and>
        nat (n_classified_data_tx q0) \<le> length (classified_data_tx q0))"
    by (simp_all add: zero_mng_def NUM_CLASSIFIER_MAC_INFO_def rd_def)
  have len: "length (classified_data_tx ci) = n" using init_component_queues [OF init] by simp
  have un: "uninit_component_info (ci\<lparr>cl_name := x\<rparr>) = zero_cls n" for x
    by (simp add: uninit_component_info_def len)
  have "\<exists>sched' s'. spp_classifier_mac_update H (classifier_look D w) sched c s = Some (SPP_RET_OK, sched', s') \<and>
    rd (g_mng_infos s') (component_id c) = Some \<lparr>mi_ref_index = 1, mi_upd_index = 0, is_used = 1,
      cmp_infos = [zero_cls n, zero_cls n]\<rparr>"
    using classifier_update_step [OF assms(1,2) mi m init nt oth sched, of D w]
    by (simp add: Let_def put_cls_def publish_cls_def flip_cls_def zero_mng_def flip_index_def
        NUM_CLASSIFIER_MAC_INFO_def SPP_INFO_AREA_MAX_def numeral_2_eq_2 un)
  then show ?thesis by fastforce
qed

end
