(* ===== verification/Demo.thy ===== *)
theory Demo
  imports Classifier_Run
begin

text \<open>
  Concrete states for the witnesses: a process with two cores and two Ethernet ports, the
  simulated device of Pkt, and hash tables that are association lists.  Each witness applies a
  theorem of the library to such a state, where all its hypotheses hold.
\<close>

section \<open>The process\<close>

definition demo_port :: "port_type \<Rightarrow> int \<Rightarrow> int \<Rightarrow> spp_port_info" where
  "demo_port t n d = zero_port\<lparr>iface_type := t, iface_no := n, dpdk_port := d\<rparr>"

definition demo_iface :: iface_info where
  "demo_iface = \<lparr>num_nic = 2, num_vhost = 0, num_ring = 0,
     nic = [demo_port PHY 0 0, demo_port PHY 1 1],
     vhost = [demo_port UNDEF 0 (- 1), demo_port UNDEF 1 (- 1)],
     ring = [demo_port UNDEF 0 (- 1), demo_port UNDEF 1 (- 1)]\<rparr>"

definition demo_core :: core_mng_info where
  "demo_core = (zero_core_mng 2)\<lparr>status := SPP_CORE_FORWARD, upd_index := 1\<rparr>"

definition demo_ability :: "spp_port_ability \<Rightarrow> port_ability_mng_info" where
  "demo_ability a = \<lparr>pa_ref_index = 0, pa_upd_index = 1,
     pa_ability = [[a, zero_ability, zero_ability, zero_ability],
                   [zero_ability, zero_ability, zero_ability, zero_ability]]\<rparr>"

definition demo_ports :: "spp_port_ability \<Rightarrow> port_ability_port_mng_info list" where
  "demo_ports a =
    [\<lparr>pm_iface_type = PHY, pm_iface_no = 0, pm_rx = demo_ability zero_ability, pm_tx = demo_ability zero_ability\<rparr>,
     \<lparr>pm_iface_type = PHY, pm_iface_no = 1, pm_rx = demo_ability zero_ability, pm_tx = demo_ability a\<rparr>]"

definition demo_path :: forward_path where
  "demo_path = \<lparr>fp_name = ''fw1'', fp_type = SPP_COMPONENT_FORWARD, fp_num_rx = 1, fp_num_tx = 1,
     fp_ports = [\<lparr>fw_rx = demo_port PHY 0 0, fw_tx = demo_port PHY 1 1\<rparr>, zero_rxtx]\<rparr>"

definition demo_forward :: forward_info where
  "demo_forward = \<lparr>fi_ref_index = 0, fi_upd_index = 1, fi_path = [demo_path, zero_path 2]\<rparr>"

type_synonym assoc = "(48 word \<times> int) list"

definition demo_hash :: "assoc hash_ops" where
  "demo_hash = \<lparr>rte_hash_create = (\<lambda>_. Some []),
     rte_hash_add_key_data = (\<lambda>h k v. (0, (k, v) # h)),
     rte_hash_lookup_data = (\<lambda>h k. case map_of h k of None \<Rightarrow> (- 1, 0) | Some v \<Rightarrow> (0, v)),
     rte_hash_iterate = (\<lambda>h i. if i < length h then Some (fst (h ! i), snd (h ! i), Suc i) else None)\<rparr>"

lemma demo_hash_laws: "hash_laws demo_hash map_of"
  by (simp add: hash_laws_def demo_hash_def split: option.split)

definition demo_mac :: "assoc mac_classification" where
  "demo_mac = \<lparr>classification_tab = [(0x0a, 1)], num_active_classified = 1,
     active_classifieds = [1, 0], default_classified = - 1\<rparr>"

definition demo_queue :: "int \<Rightarrow> classified_data" where
  "demo_queue n = \<lparr>cd_iface_type = PHY, cd_iface_no = n, cd_iface_no_global = n, cd_port = n, cd_pkts = []\<rparr>"

definition demo_cls :: "assoc cls_info" where
  "demo_cls = \<lparr>cl_name = ''cls1'', mac_addr_entry = 1,
     mac_classifications = (replicate SPP_NUM_VLAN_VID None)[nat VLAN_UNTAGGED_VID := Some demo_mac],
     n_classified_data_tx = 2, classified_data_rx = demo_queue 0,
     classified_data_tx = [demo_queue 0, demo_queue 1]\<rparr>"

definition demo_mng :: "assoc management_info" where
  "demo_mng = \<lparr>mi_ref_index = 0, mi_upd_index = 1, is_used = 1, cmp_infos = [demo_cls, zero_cls 2]\<rparr>"

definition demo_component :: "spp_component_type \<Rightarrow> int \<Rightarrow> spp_component_info" where
  "demo_component t i = \<lparr>name = ''comp'', comp_type = t, lcore_id = 1, component_id = i,
     num_rx_port = 1, num_tx_port = 1,
     rx_ports = [Some (PHY, 0), None], tx_ports = [Some (PHY, 1), None]\<rparr>"

definition demo_manage :: "spp_port_ability \<Rightarrow> assoc classifier_data" where
  "demo_manage a = \<lparr>
     g_startup_param = \<lparr>client_id = 1, server_ip = ''127.0.0.1'', server_port = 6666,
       vhost_client = 0, secondary_type = SECONDARY_TYPE_VF\<rparr>,
     g_iface_info = demo_iface,
     g_component_info = [demo_component SPP_COMPONENT_CLASSIFIER_MAC 0, demo_component SPP_COMPONENT_FORWARD 1],
     g_core_info = [demo_core, demo_core],
     g_change_core = [0, 0], g_change_component = [0, 0],
     g_backup_info = \<lparr>bk_core = [demo_core, demo_core],
       bk_component = [demo_component SPP_COMPONENT_CLASSIFIER_MAC 0, demo_component SPP_COMPONENT_FORWARD 1],
       bk_interface = demo_iface\<rparr>,
     g_main_lcore_id = 0,
     g_vlan_tpid = cpu_to_be_16 ETHER_TYPE_VLAN, g_port_mng_info = demo_ports a,
     chg_num_rx = 0, chg_rx_list = [0, 0], chg_num_tx = 0, chg_tx_list = [0, 0],
     g_forward_info = [demo_forward, demo_forward],
     g_mng_infos = [demo_mng, demo_mng], g_hash_table_count = 2\<rparr>"

definition demo :: "assoc classifier_data" where
  "demo = demo_manage zero_ability"

text \<open>A device that delivers 60 byte frames with 64 bytes of headroom.\<close>

definition demo_mbuf :: mbuf where
  "demo_mbuf = \<lparr>m_buf = replicate 192 0, m_off = 64, m_len = 60\<rparr>"

definition demo_dpdk :: "sim dpdk" where
  "demo_dpdk = sim_dpdk\<lparr>rte_eth_rx_burst := (\<lambda>p n w. let (ids, w') = sim_rx p n w in
     (ids, w'\<lparr>s_mem := (\<lambda>j. if j \<in> set ids then demo_mbuf else s_mem w j)\<rparr>))\<rparr>"

definition demo_world :: sim where
  "demo_world = \<lparr>s_rxq = [(0, [5, 6])], s_mem = (\<lambda>_. demo_mbuf), s_held = {#}, s_sent = [], s_txcap = 1\<rparr>"

lemma demo_dpdk_laws:
  shows "mbuf_laws demo_dpdk" and "io_laws demo_dpdk s_held" and "mem_laws demo_dpdk s_held"
proof -
  show "mbuf_laws demo_dpdk" by (simp add: mbuf_laws_def demo_dpdk_def sim_dpdk_def)
  show "io_laws demo_dpdk s_held"
    by (auto simp: io_laws_def demo_dpdk_def sim_dpdk_def sim_rx_def sim_tx_def Let_def)
  show "mem_laws demo_dpdk s_held"
    by (auto simp: mem_laws_def demo_dpdk_def sim_dpdk_def sim_rx_def sim_tx_def Let_def distinct_take
        split: if_splits dest!: in_set_takeD)
qed

lemma demo_rx_room: "k \<le> 8 \<Longrightarrow> rx_room demo_dpdk b k"
  by (auto simp: rx_room_def demo_dpdk_def sim_dpdk_def sim_rx_def Let_def mbuf_fit_def mbuf_room_def demo_mbuf_def)

lemmas demo_defs = demo_def demo_manage_def demo_iface_def demo_port_def demo_core_def demo_ports_def
  demo_ability_def demo_component_def zero_port_def zero_ability_def zero_class_id_def zero_vlantag_def
  SPP_INFO_AREA_MAX_def SPP_PORT_ABILITY_MAX_def

end
