(* ===== verification/Demo_Packets.thy ===== *)
theory Demo_Packets
  imports Demo
begin

text \<open>
  The witnesses of the theorems about ports, the forwarder and the classifier.
\<close>

lemma demo_frame: "frame demo_mbuf = replicate 60 0"
  by (simp add: frame_def demo_mbuf_def)

lemma demo_untagged: "\<not> tagged (frame demo_mbuf)"
proof -
  have "(0 :: 8 word) \<noteq> 0x81" by simp
  then show ?thesis by (simp add: demo_frame tagged_def numeral_2_eq_2)
qed

lemma add_vlantag_packet_frame_witness:
  "\<exists>m'. add_vlantag_packet demo_dpdk tpid_be demo_mbuf \<lparr>vid = 100, pcp = 0, tci = 0x6400\<rparr> = Some (0, m') \<and>
    frame m' = take 12 (frame demo_mbuf) @ [0x81, 0x00] @
      tci_bytes \<lparr>vid = 100, pcp = 0, tci = 0x6400\<rparr> @ drop 12 (frame demo_mbuf)"
  using add_vlantag_packet_frame [OF demo_dpdk_laws(1), of demo_mbuf "\<lparr>vid = 100, pcp = 0, tci = 0x6400\<rparr>"]
    demo_untagged
  by (simp add: demo_mbuf_def)

lemma vlantag_round_trip_witness:
  "\<exists>ret m' m''. add_vlantag_packet demo_dpdk tpid_be demo_mbuf \<lparr>vid = 100, pcp = 0, tci = 0x6400\<rparr> = Some (ret, m') \<and>
    del_vlantag_packet demo_dpdk tpid_be m' zero_vlantag = Some (0, m'') \<and> frame m'' = frame demo_mbuf"
proof -
  obtain m' where m': "add_vlantag_packet demo_dpdk tpid_be demo_mbuf \<lparr>vid = 100, pcp = 0, tci = 0x6400\<rparr> = Some (0, m')"
    using add_vlantag_untagged [OF demo_dpdk_laws(1), of demo_mbuf "\<lparr>vid = 100, pcp = 0, tci = 0x6400\<rparr>"]
      demo_untagged by (auto simp: demo_mbuf_def)
  have "m_off demo_mbuf + m_len demo_mbuf + 4 \<le> length (m_buf demo_mbuf)" "14 \<le> m_len demo_mbuf" "4 \<le> m_off demo_mbuf"
    by (simp_all add: demo_mbuf_def)
  from vlantag_round_trip [OF demo_dpdk_laws(1) this(1,2) demo_untagged this(3) m', of zero_vlantag]
  show ?thesis using m' by blast
qed

definition demo_add_tag :: spp_port_ability where
  "demo_add_tag = \<lparr>ope = SPP_PORT_ABILITY_OPE_ADD_VLANTAG, rxtx = SPP_PORT_RXTX_TX,
     data = \<lparr>vid = 100, pcp = 0, tci = 0x6400\<rparr>\<rparr>"

definition demo_tagging :: "assoc classifier_data" where
  "demo_tagging = demo\<lparr>g_iface_info := demo_iface\<lparr>nic := [demo_port PHY 0 0,
     (demo_port PHY 1 1)\<lparr>ability := [demo_add_tag, zero_ability, zero_ability, zero_ability]\<rparr>]\<rparr>\<rparr>"

lemma port_ability_published_witness:
  "\<exists>s1 s2. port_ability_set_ability (Some (PHY, 1)) SPP_PORT_RXTX_TX demo_tagging = Some s1 \<and>
    spp_port_ability_get_info s1 1 SPP_PORT_RXTX_TX = spp_port_ability_get_info demo_tagging 1 SPP_PORT_RXTX_TX \<and>
    spp_port_ability_change_index PORT_ABILITY_CHG_INDEX_REF 0 SPP_PORT_RXTX_NONE s1 = Some s2 \<and>
    spp_port_ability_get_info s2 1 SPP_PORT_RXTX_TX =
      Some [set_tci demo_add_tag, zero_ability, zero_ability, zero_ability]"
proof -
  define p where "p = (demo_port PHY 1 1)\<lparr>ability := [demo_add_tag, zero_ability, zero_ability, zero_ability]\<rparr>"
  have 1: "load_port demo_tagging (Some (PHY, 1)) = Some p"
    by (simp add: load_port_def rd_def demo_tagging_def demo_iface_def p_def)
  have 2: "ability_mng demo_tagging 1 SPP_PORT_RXTX_TX = Some (demo_ability zero_ability)"
    by (simp add: ability_mng_def rd_def demo_tagging_def demo_def demo_manage_def demo_ports_def)
  have 3: "ability_buffer.settled (demo_ability zero_ability)"
    by (simp add: ability_buffer.settled_def demo_ability_def other_area_def SPP_INFO_AREA_MAX_def)
  have 4: "out_abilities SPP_PORT_RXTX_TX (ability p) = [set_tci demo_add_tag]"
    by (simp add: out_abilities_def p_def SPP_PORT_ABILITY_MAX_def zero_ability_def demo_add_tag_def)
  have 5: "dpdk_port p = 1" by (simp add: demo_port_def p_def)
  show ?thesis
    using port_ability_published [OF 1 5 2 3, of SPP_PORT_RXTX_NONE] 4
    by (simp add: demo_tagging_def demo_def demo_manage_def SPP_PORT_ABILITY_MAX_def numeral_3_eq_3)
qed

section \<open>The forwarder\<close>

lemma demo_wf_ports: "wf_ports (demo_manage t)"
  by (simp add: wf_ports_def wf_ability_mng_def demo_manage_def demo_ports_def demo_ability_def
      SPP_INFO_AREA_MAX_def SPP_PORT_ABILITY_MAX_def)

lemma demo_dpdk_port_ok: "\<forall>r\<in>set (fp_ports demo_path). dpdk_port_ok (demo_manage t) (fw_rx r) \<and> dpdk_port_ok (demo_manage t) (fw_tx r)"
  by (simp add: demo_path_def dpdk_port_ok_def demo_port_def demo_manage_def demo_ports_def zero_rxtx_def zero_port_def)

lemma spp_forward_conserves_packets_witness:
  "\<exists>w'. spp_forward demo_dpdk 0 demo demo_world = Some (0, demo, w') \<and> s_held w' = {#}"
proof -
  have "change_forward_index 0 demo = Some demo"
    by (simp add: change_forward_index_def rd_def demo_def demo_manage_def demo_forward_def)
  moreover have "rd (g_forward_info demo) 0 = Some demo_forward"
    by (simp add: rd_def demo_def demo_manage_def)
  moreover have "rd (fi_path demo_forward) (fi_ref_index demo_forward) = Some demo_path"
    by (simp add: rd_def demo_forward_def)
  moreover have "fp_num_rx demo_path \<le> int (length (fp_ports demo_path))" by (simp add: demo_path_def)
  moreover have "s_held demo_world = {#}" by (simp add: demo_world_def)
  moreover have "rx_room demo_dpdk True (SPP_PORT_ABILITY_MAX + SPP_PORT_ABILITY_MAX)"
    by (rule demo_rx_room) (simp add: SPP_PORT_ABILITY_MAX_def)
  moreover have "wf_ports demo" unfolding demo_def by (rule demo_wf_ports)
  moreover have "\<forall>r\<in>set (fp_ports demo_path). dpdk_port_ok demo (fw_rx r) \<and> dpdk_port_ok demo (fw_tx r)"
    unfolding demo_def by (rule demo_dpdk_port_ok)
  ultimately show ?thesis
    using spp_forward_conserves_packets [OF demo_dpdk_laws, of 0 demo demo demo_forward demo_path demo_world] by simp
qed

text \<open>A packet without headroom, on a port that adds a tag.\<close>

definition demo_tight :: mbuf where
  "demo_tight = demo_mbuf\<lparr>m_off := 0\<rparr>"

definition demo_tight_world :: sim where
  "demo_tight_world = demo_world\<lparr>s_rxq := [(0, [5])], s_mem := (\<lambda>_. demo_tight)\<rparr>"

definition demo_tight_received :: sim where
  "demo_tight_received = demo_tight_world\<lparr>s_rxq := [], s_held := {#5#}\<rparr>"

lemma demo_tight_add: "add_vlantag_packet sim_dpdk tpid_be demo_tight tag = Some (- 1, demo_tight)"
proof -
  have "load_bytes demo_tight 12 2 = Some (replicate 2 0)"
    by (simp add: load_bytes_def demo_tight_def demo_mbuf_def)
  then have "load16 demo_tight 12 = Some 0"
    by (simp add: load16_def numeral_2_eq_2)
  moreover have "tpid_be = 0x81" by (simp add: cpu_to_be_16_def ETHER_TYPE_VLAN_def)
  moreover have "rte_pktmbuf_prepend sim_dpdk demo_tight 4 = None"
    by (simp add: sim_dpdk_def demo_tight_def)
  ultimately show ?thesis by (simp add: add_vlantag_packet_def)
qed

lemma forward_double_free_witness:
  "forward_loop sim_dpdk (demo_manage demo_add_tag) (fp_ports demo_path) 0 1 0 demo_tight_world = None"
proof -
  let ?s = "demo_manage demo_add_tag"
  define r where "r = \<lparr>fw_rx = demo_port PHY 0 0, fw_tx = demo_port PHY 1 1\<rparr>"
  have wf: "wf_ports ?s" by (rule demo_wf_ports)
  have r: "rd (fp_ports demo_path) (int 0) = Some r" by (simp add: rd_def demo_path_def r_def)
  have ok: "dpdk_port_ok ?s (fw_tx r)"
    using demo_dpdk_port_ok [of demo_add_tag] by (simp add: demo_path_def r_def)
  have ports: "dpdk_port (fw_rx r) = 0" "dpdk_port (fw_tx r) = 1" by (simp_all add: r_def demo_port_def)
  have get: "spp_port_ability_get_info ?s 0 SPP_PORT_RXTX_RX = Some (replicate 4 zero_ability)"
      "spp_port_ability_get_info ?s 1 SPP_PORT_RXTX_TX = Some (demo_add_tag # replicate 3 zero_ability)"
    by (simp_all add: spp_port_ability_get_info_def ability_mng_def rd_def demo_manage_def demo_ports_def
        demo_ability_def numeral_eq_Suc)
  have rxb: "sim_rx 0 MAX_PKT_BURST demo_tight_world = ([5], demo_tight_received)"
    by (simp add: sim_rx_def Let_def demo_tight_received_def demo_tight_world_def demo_world_def MAX_PKT_BURST_def)
  have rx: "spp_eth_rx_burst sim_dpdk ?s (dpdk_port (fw_rx r)) MAX_PKT_BURST demo_tight_world =
      Some ([5], 1, demo_tight_received)"
    using rxb get by (simp add: spp_eth_rx_burst_def ports sim_dpdk_def port_ability_each_operation_def
        rd_def zero_ability_def to_uint16_def numeral_eq_Suc)
  have held: "s_held demo_tight_received = {#5#}" "s_mem demo_tight_received 5 = demo_tight"
    by (simp_all add: demo_tight_received_def demo_tight_world_def)
  have tpid: "g_vlan_tpid ?s = tpid_be" by (simp add: demo_manage_def)
  have load: "mbuf_load sim_dpdk = s_mem" by (simp add: sim_dpdk_def)
  define w1 where "w1 = mbuf_store sim_dpdk 5 demo_tight demo_tight_received"
  have op: "port_ability_function SPP_PORT_ABILITY_OPE_ADD_VLANTAG sim_dpdk tpid_be [5] tag demo_tight_received =
      Some (0, w1)" for tag
    using demo_tight_add held by (simp add: port_ability_function_def add_vlantag_all_packets_def load w1_def)
  have ops: "ability_ops sim_dpdk tpid_be tag (demo_add_tag # replicate 3 zero_ability) [5] 1 demo_tight_received =
      Some (0, w1)" for tag
    using op by (simp add: demo_add_tag_def numeral_3_eq_3 zero_ability_def)
  define w2 where "w2 = w1\<lparr>s_held := {#}\<rparr>"
  have fr: "rte_pktmbuf_free sim_dpdk 5 w1 = Some w2"
    using held by (simp add: w1_def w2_def sim_dpdk_def)
  have nn: "ope demo_add_tag \<noteq> SPP_PORT_ABILITY_OPE_NONE" by (simp add: demo_add_tag_def)
  have e: "port_ability_each_operation sim_dpdk ?s (dpdk_port (fw_tx r)) (take 1 [5]) SPP_PORT_RXTX_TX demo_tight_received =
      Some (0, w2)"
    using get ops fr nn unfolding ports port_ability_each_operation_def by (simp add: rd_def tpid)
  have fit: "mbuf_fit False SPP_PORT_ABILITY_MAX demo_tight"
    by (simp add: mbuf_fit_def mbuf_room_def demo_tight_def demo_mbuf_def SPP_PORT_ABILITY_MAX_def)
  show ?thesis
    using forward_double_free [OF sim_mbuf_laws sim_io_laws sim_mem_laws wf r ok rx, of 0 w2 0 0] held e fit
    by (simp add: load)
qed


section \<open>The classifier\<close>

definition demo_default_port :: spp_port_info where
  "demo_default_port = (demo_port PHY 1 1)\<lparr>class_id := zero_class_id\<lparr>
     mac_addr := SPP_DEFAULT_CLASSIFIED_DMY_ADDR, vlantag := zero_vlantag\<lparr>vid := VLAN_UNTAGGED_VID\<rparr>\<rparr>\<rparr>"

definition demo_default :: "assoc classifier_data" where
  "demo_default = demo\<lparr>g_iface_info := demo_iface\<lparr>nic := [demo_port PHY 0 0, demo_default_port]\<rparr>\<rparr>"

abbreviation demo_classifier :: spp_component_info where
  "demo_classifier \<equiv> demo_component SPP_COMPONENT_CLASSIFIER_MAC 0"

lemma demo_classifier_facts:
  "component_id demo_classifier = 0" "name demo_classifier = ''comp''"
  "num_tx_port demo_classifier = int (length [demo_default_port])"
  "length [demo_default_port] \<le> length (nic (g_iface_info demo_default))"
  "length (nic (g_iface_info demo_default)) = 2"
  "length [demo_default_port] \<le> length (tx_ports demo_classifier)"
  "\<forall>j<length [demo_default_port]. load_port demo_default (tx_ports demo_classifier ! j) = Some ([demo_default_port] ! j)"
  "\<forall>p\<in>set [demo_default_port]. 0 \<le> vid (vlantag (class_id p)) \<and> vid (vlantag (class_id p)) < int SPP_NUM_VLAN_VID"
  "num_rx_port demo_classifier = 0 \<or> (\<exists>rp. rd (rx_ports demo_classifier) 0 = Some rp \<and> load_port demo_default rp \<noteq> None)"
  by (simp_all add: demo_component_def demo_default_def demo_iface_def load_port_def rd_def
      demo_default_port_def VLAN_UNTAGGED_VID_def SPP_NUM_VLAN_VID_def zero_class_id_def zero_vlantag_def)

lemma demo_hash_total: "\<forall>x. rte_hash_create demo_hash x \<noteq> None" "\<forall>h k x. 0 \<le> fst (rte_hash_add_key_data demo_hash h k x)"
  by (simp_all add: demo_hash_def)

lemma demo_packet: "get_vid demo_mbuf = Some VLAN_UNTAGGED_VID" "dest_addr demo_mbuf = Some 0"
proof -
  have "load_bytes demo_mbuf 12 2 = Some (replicate 2 0)" "load_bytes demo_mbuf 0 6 = Some (replicate 6 0)"
    by (simp_all add: load_bytes_def demo_mbuf_def)
  then have l: "load16 demo_mbuf 12 = Some 0" "dest_addr demo_mbuf = Some (le_word (replicate 6 0))"
    by (simp_all add: load16_def dest_addr_def numeral_2_eq_2)
  have "le_word (replicate k (0 :: 8 word)) = (0 :: 48 word)" for k by (induction k) auto
  then show "dest_addr demo_mbuf = Some 0" using l by simp
  have "tpid_be = 0x81" by (simp add: cpu_to_be_16_def ETHER_TYPE_VLAN_def)
  then show "get_vid demo_mbuf = Some VLAN_UNTAGGED_VID" using l by (simp add: get_vid_def)
qed

lemma demo_decision: "classify_spec (port_entries [demo_default_port]) VLAN_UNTAGGED_VID 0 = 0"
  by (simp add: classify_spec_def port_entries_def port_entry_def lookup_spec_def active_spec_def default_spec_def
      demo_default_port_def zero_class_id_def zero_vlantag_def VLAN_UNTAGGED_VID_def to_uint16_def
      SPP_DEFAULT_CLASSIFIED_DMY_ADDR_def is_multicast_def)

lemma classifier_decides_as_specified_witness:
  "\<exists>ci hc. cls_init_component_info demo_hash demo_default demo_classifier (zero_cls 2) 0 = Some (0, ci, hc) \<and>
    select_classified_index demo_hash demo_mbuf ci = Some 0"
  using classifier_decides_as_specified [OF demo_hash_laws demo_classifier_facts(3,4,6-9), of 0]
    demo_hash_total demo_packet demo_decision
  by (metis demo_classifier_facts(5))

lemma demo_mng_at:
  "rd (g_mng_infos demo_default) (component_id demo_classifier) = Some demo_mng"
  "rd (g_mng_infos demo) 0 = Some demo_mng"
  "chg_num_rx demo_default = 0" "chg_num_tx demo_default = 0"
  by (simp_all add: demo_classifier_facts rd_def demo_default_def demo_def demo_manage_def)

lemma demo_mng_settled: "cls_buffer.settled demo_mng" "cls_buffer.in_use demo_mng = demo_cls"
  by (simp_all add: cls_buffer.settled_def cls_buffer.in_use_def demo_mng_def other_area_def SPP_INFO_AREA_MAX_def)

lemma demo_cls_facts: "pend demo_cls = {#}" "length (classified_data_tx demo_cls) = 2" "n_classified_data_tx demo_cls = 2"
  by (simp_all add: pend_def demo_cls_def demo_queue_def)


definition demo_fresh :: "assoc classifier_data" where
  "demo_fresh = demo_default\<lparr>g_mng_infos := [zero_mng 2, zero_mng 2]\<rparr>"

lemma classifier_first_update_lost_witness:
  "\<exists>sched' s' mi'. spp_classifier_mac_update demo_hash (classifier_look demo_dpdk demo_world) [0] demo_classifier demo_fresh =
      Some (0, sched', s') \<and> rd (g_mng_infos s') 0 = Some mi' \<and> cmp_infos mi' = [zero_cls 2, zero_cls 2]"
proof -
  have if': "g_iface_info demo_fresh = g_iface_info demo_default" by (simp add: demo_fresh_def)
  have "load_port demo_fresh = load_port demo_default" unfolding load_port_def if' by (rule refl)
  then have f: "length [demo_default_port] \<le> length (nic (g_iface_info demo_fresh))"
      "\<forall>j<length [demo_default_port]. load_port demo_fresh (tx_ports demo_classifier ! j) = Some ([demo_default_port] ! j)"
      "num_rx_port demo_classifier = 0 \<or> (\<exists>rp. rd (rx_ports demo_classifier) 0 = Some rp \<and> load_port demo_fresh rp \<noteq> None)"
    using demo_classifier_facts(4,7,9) by (simp_all only: if')
  obtain ci hc where init: "cls_init_component_info demo_hash demo_fresh demo_classifier (zero_cls 2)
      (g_hash_table_count demo_fresh) = Some (0, ci, hc)"
    using init_component_decides [OF demo_hash_laws demo_classifier_facts(3) f(1) demo_classifier_facts(6) f(2)
        demo_classifier_facts(8) f(3), of "g_hash_table_count demo_fresh"]
      demo_hash_total demo_classifier_facts(5) by (auto simp: if')
  have "chg_num_rx demo_fresh = 0" "chg_num_tx demo_fresh = 0"
      "rd (g_mng_infos demo_fresh) (component_id demo_classifier) = Some (zero_mng 2)"
    using demo_mng_at(3,4) by (simp_all add: demo_fresh_def rd_def demo_classifier_facts)
  from classifier_first_update_lost [OF this init, of "[0]" demo_dpdk demo_world]
  show ?thesis by (fastforce simp: demo_classifier_facts)
qed


end
