(* ===== verification/Shared_Common.thy ===== *)
theory Shared_Common
  imports CString
begin

text \<open>
  The option parsers and name tables of shared/common.c, shared/common.h and
  shared/secondary/utils.c that all processes share, and the option parsers of vf/spp_vf.c.
  A result None is undefined behaviour (a string operation on NULL).
\<close>

section \<open>Numbers\<close>

text \<open>The 16-bit number of clients and its return code; the argument is NULL or a string.\<close>

definition parse_num_clients :: "string option \<Rightarrow> int \<Rightarrow> int \<times> int" where
  "parse_num_clients clients num_clients =
    (case clients of
       None \<Rightarrow> (- 1, num_clients)
     | Some s \<Rightarrow>
         if s = [] then (- 1, num_clients)
         else let (temp, rest) = strtoul 10 s in
           if rest \<noteq> [] \<or> temp = 0 then (- 1, num_clients) else (0, to_uint16 temp))"

definition spp_atoi :: "string \<Rightarrow> int \<times> int" where
  "spp_atoi str =
    (let (val, rest) = strtol 10 str in (if rest \<noteq> [] then - 1 else 0, to_int32 val))"

section \<open>Addresses\<close>

text \<open>The result is the return code with the address and the port number the code stores.\<close>

definition parse_server :: "string option \<Rightarrow> int \<times> string option \<times> int option" where
  "parse_server server_addr =
    (case server_addr of
       None \<Rightarrow> (- 1, None, None)
     | Some s \<Rightarrow>
         if s = [] then (- 1, None, None)
         else case tokens (\<lambda>c. c = CHR '':'') s of
           [] \<Rightarrow> (- 1, None, None)
         | [ip] \<Rightarrow> (- 1, Some ip, None)
         | ip # token # _ \<Rightarrow> (0, Some ip, Some (to_int32 (fst (strtol 10 token)))))"

text \<open>The type string and the number of a resource such as ring:0.  The second token is NULL
  when there is none, and strtol is then undefined.\<close>

definition parse_resource_uid :: "string \<Rightarrow> (int \<times> (string \<times> int) option) option" where
  "parse_resource_uid str =
    (if CHR '':'' \<notin> set str then Some (- 1, None)
     else case tokens (\<lambda>c. c = CHR '':'') str of
       port_type # token # _ \<Rightarrow>
         (let (v, rest) = strtol 10 token in
          Some (if rest \<noteq> [] then - 1 else 0, Some (port_type, to_int32 v)))
     | _ \<Rightarrow> None)"

definition get_sec_dir :: "string \<Rightarrow> string \<Rightarrow> int \<times> string" where
  "get_sec_dir proc_name dir_name =
    (0, if proc_name = ''spp_nfv'' then ''nfv''
        else if proc_name = ''spp_vf'' then ''vf''
        else if proc_name = ''spp_mirror'' then ''mirror''
        else if proc_name = ''spp_pcap'' then ''pcap''
        else dir_name)"

text \<open>The log type whose level is set; the string user1 to user8 fits its buffer of eight bytes.\<close>

definition set_user_log_level :: "int \<Rightarrow> int \<Rightarrow> int \<times> (string \<times> int) option" where
  "set_user_log_level num_user_log log_level =
    (if num_user_log < 1 \<or> num_user_log > 8 then (- 1, None)
     else (0, Some (''user'' @ show_int num_user_log, log_level)))"

section \<open>Options of spp_vf\<close>

definition parse_app_client_id :: "nat \<Rightarrow> string \<Rightarrow> int \<times> int option" where
  "parse_app_client_id n_lcore client_id_str =
    (let (v, rest) = strtol 0 client_id_str; i = to_int32 v in
     if length rest = length client_id_str \<or> rest \<noteq> [] then (- 1, None)
     else if i \<ge> int n_lcore then (- 1, None)
     else (0, Some i))"

text \<open>The address is copied into a buffer of ip_size bytes (INET_ADDRSTRLEN).\<close>

definition parse_app_server :: "nat \<Rightarrow> string \<Rightarrow> (int \<times> (string \<times> int) option) option" where
  "parse_app_server ip_size server_str =
    (let ip = takeWhile (\<lambda>c. c \<noteq> CHR '':'') server_str;
         pos = length ip in
     if pos \<ge> length server_str then Some (- 1, None)
     else let port_str = drop (pos + 1) server_str; (v, rest) = strtol 0 port_str in
       if length rest = length port_str \<or> rest \<noteq> [] then Some (- 1, None)
       else do {
         dst \<leftarrow> strcpy_buf ip_size ip;
         Some (0, Some (dst, to_int32 v))
       })"

section \<open>Properties\<close>

lemma strtoul_show_nat: "strtoul 10 (show_nat n) = (if ULONG_MAX < int n then ULONG_MAX else int n, [])"
  using scan_show_nat [of n 10 "[]"] by (cases "n = 0") (auto simp: strtoul_def ends_number_def)

lemma strtol_show_nat:
  assumes "0 < n \<or> b = 10" and "b = 0 \<or> b = 10"
  shows "strtol b (show_nat n) = (min LONG_MAX (int n), [])"
  using scan_show_nat [of n b "[]"] assms by (cases "n = 0") (auto simp: strtol_def ends_number_def)

text \<open>The number of clients is parsed modulo 2 to the 16th: the printed number n between 1
  and the largest 64-bit number is accepted, but what is stored is n mod 65536; only below
  65536 is it the number on the command line.\<close>
theorem parse_num_clients_wraps:
  assumes "0 < n" and "int n \<le> ULONG_MAX"
  shows "parse_num_clients (Some (show_nat n)) old = (0, int (n mod 65536))"
  using assms strtoul_show_nat [of n]
  by (simp add: parse_num_clients_def to_uint16_def zmod_int)

lemma parse_num_clients_wraps_witness:
  "parse_num_clients (Some (show_nat 65536)) 7 = (0, 0) \<and> parse_num_clients (Some (show_nat 12)) 7 = (0, 12)"
  using parse_num_clients_wraps [of 65536 7] parse_num_clients_wraps [of 12 7] by (simp add: ULONG_MAX_def)

text \<open>The server option is split at its first colon: an address without a colon that fits
  its buffer followed by a colon and a printed port number below 2 to the 31st gives back
  exactly the address and the number.\<close>
theorem parse_app_server_round_trip:
  assumes "CHR '':'' \<notin> set ip" and "length ip < ip_size" and "0 < n" and "n < 2 ^ 31"
  shows "parse_app_server ip_size (ip @ CHR '':'' # show_nat n) = Some (0, Some (ip, int n))"
proof -
  have "takeWhile (\<lambda>c. c \<noteq> CHR '':'') (ip @ CHR '':'' # show_nat n) = ip"
    using assms(1) by (induction ip) auto
  moreover have "strtol 0 (show_nat n) = (int n, [])"
    using strtol_show_nat [of n 0] assms(3,4) by (simp add: LONG_MAX_def)
  moreover have "to_int32 (int n) = int n" using assms(4) by (intro to_int32_id) simp_all
  ultimately show ?thesis
    using assms(2) by (simp add: parse_app_server_def Let_def strcpy_buf_def)
qed

lemma parse_app_server_round_trip_witness:
  "parse_app_server 16 (''127.0.0.1'' @ CHR '':'' # show_nat 6666) = Some (0, Some (''127.0.0.1'', 6666))"
  using parse_app_server_round_trip [of "''127.0.0.1''" 16 6666] by simp

text \<open>The length of a printed number.\<close>

lemma length_show_nat_mono: "m \<le> n \<Longrightarrow> length (show_nat m) \<le> length (show_nat n)"
proof (induction n arbitrary: m rule: show_nat.induct)
  case (1 n)
  show ?case
  proof (cases "m < 10")
    case True
    then have "length (show_nat m) = 1" by (subst show_nat.simps) simp
    moreover have "1 \<le> length (show_nat n)"
      using show_nat_nonempty [of n] by (cases "show_nat n") simp_all
    ultimately show ?thesis by simp
  next
    case False
    then have n: "\<not> n < 10" using 1 by simp
    have "m div 10 \<le> n div 10" using 1 by (simp add: div_le_mono)
    from "1.IH" [OF n this] show ?thesis
      using False n by (subst (1 2) show_nat.simps) simp
  qed
qed

lemma show_nat_inj: "show_nat m = show_nat n \<longleftrightarrow> m = n"
  using digits_val_show_nat by metis

end
