(* ===== verification/Add_Port.thy ===== *)
theory Add_Port
  imports Shared_Common
begin

text \<open>
  shared/secondary/add_port.c, the attach function of shared/secondary/utils.c and the two
  port constructors of vf/common/spp_proc.c: devices are looked up or attached, configured
  with one queue in each direction, and started.

  The services of DPDK and of the file system are the argument E, a record of functions on a
  world 'v.  A result None is the end of the process (rte_exit, or a string that does not
  fit its buffer).
\<close>

section \<open>Services\<close>

record 'v ethdev =
  rte_ring_lookup :: "string \<Rightarrow> 'v \<Rightarrow> string option"
  rte_eth_from_ring :: "string \<Rightarrow> 'v \<Rightarrow> int \<times> 'v"
  rte_eth_dev_get_port_by_name :: "string \<Rightarrow> 'v \<Rightarrow> int \<times> int option"
  rte_mempool_lookup :: "string \<Rightarrow> 'v \<Rightarrow> bool"
  rte_devargs_parse :: "string \<Rightarrow> (string \<times> string \<times> string) option"
  rte_eal_hotplug_add :: "string \<Rightarrow> string \<Rightarrow> string \<Rightarrow> 'v \<Rightarrow> int \<times> 'v"
  rte_eth_dev_configure :: "int \<Rightarrow> 'v \<Rightarrow> int \<times> 'v"
  rte_eth_rx_queue_setup :: "int \<Rightarrow> nat \<Rightarrow> 'v \<Rightarrow> int \<times> 'v"
  rte_eth_tx_queue_setup :: "int \<Rightarrow> nat \<Rightarrow> 'v \<Rightarrow> int \<times> 'v"
  rte_eth_dev_start :: "int \<Rightarrow> 'v \<Rightarrow> int \<times> 'v"
  fopen_read :: "string \<Rightarrow> 'v \<Rightarrow> bool"
  fopen_write :: "string \<Rightarrow> 'v \<Rightarrow> bool \<times> 'v"
  sys_command :: "string \<Rightarrow> 'v \<Rightarrow> int \<times> 'v"

definition PORT_RESET :: int where "PORT_RESET = 0xffff"
definition PKTMBUF_POOL_NAME :: string where "PKTMBUF_POOL_NAME = ''MProc_pktmbuf_pool''"

text \<open>The bound on device names of DPDK.\<close>

definition RTE_ETH_NAME_MAX_LEN :: nat where "RTE_ETH_NAME_MAX_LEN = 64"

section \<open>Names\<close>

text \<open>snprintf into a buffer of n bytes keeps n - 1 characters; %u prints the number modulo
  2 to the 32nd.\<close>

definition snprintf_buf :: "nat \<Rightarrow> string \<Rightarrow> string" where
  "snprintf_buf n s = take (n - 1) s"

definition show_unsigned :: "int \<Rightarrow> string" where
  "show_unsigned i = show_nat (nat (i mod 2 ^ 32))"

text \<open>The buffers have sizeof(template) + 2 bytes, of which the calls use one less.\<close>

definition unit_name :: "string \<Rightarrow> int \<Rightarrow> string" where
  "unit_name prefix i = snprintf_buf (length prefix + 2 + 1 + 2 - 1) (prefix @ show_unsigned i)"

definition get_rx_queue_name :: "int \<Rightarrow> string" where
  "get_rx_queue_name i = unit_name ''eth_ring'' i"

definition get_vhost_backend_name :: "int \<Rightarrow> string" where
  "get_vhost_backend_name i = unit_name ''eth_vhost'' i"

definition get_vhost_iface_name :: "int \<Rightarrow> string" where
  "get_vhost_iface_name i = unit_name ''/tmp/sock'' i"

definition get_pcap_pmd_name :: "int \<Rightarrow> string" where
  "get_pcap_pmd_name i = unit_name ''eth_pcap'' i"

definition get_null_pmd_name :: "int \<Rightarrow> string" where
  "get_null_pmd_name i = unit_name ''eth_null'' i"

section \<open>Attaching\<close>

definition dev_attach_by_devargs :: "'v ethdev \<Rightarrow> string \<Rightarrow> 'v \<Rightarrow> (int \<times> int option) \<times> 'v" where
  "dev_attach_by_devargs E devargs v =
    (case rte_devargs_parse E devargs of
       None \<Rightarrow> ((- 1, None), v)
     | Some (bus, nm, args) \<Rightarrow>
         let (ret, v1) = rte_eal_hotplug_add E bus nm args v in
         if ret < 0 then ((ret, None), v1) else (rte_eth_dev_get_port_by_name E nm v1, v1))"

text \<open>The steps that every new port goes through: each is done only when the one before succeeded,
  and the first negative result is returned.  There is one queue in each direction.\<close>

definition setup_port :: "'v ethdev \<Rightarrow> int \<Rightarrow> 'v \<Rightarrow> int \<times> 'v" where
  "setup_port E port v =
    (let (r1, v1) = rte_eth_dev_configure E port v in
     if r1 < 0 then (r1, v1)
     else let (r2, v2) = rte_eth_rx_queue_setup E port 0 v1 in
     if r2 < 0 then (r2, v2)
     else let (r3, v3) = rte_eth_tx_queue_setup E port 0 v2 in
     if r3 < 0 then (r3, v3)
     else let (r4, v4) = rte_eth_dev_start E port v3 in
     if r4 < 0 then (r4, v4) else (port, v4))"

text \<open>The port number that dev_attach_by_devargs leaves in the caller's variable; a successful
  attach that does not store it leaves the variable undefined.\<close>

definition attach_and_setup :: "'v ethdev \<Rightarrow> string \<Rightarrow> 'v \<Rightarrow> (int \<times> 'v) option" where
  "attach_and_setup E devargs v =
    (let ((ret, port), v1) = dev_attach_by_devargs E devargs v in
     if ret < 0 then Some (ret, v1)
     else do { p \<leftarrow> port; Some (setup_port E p v1) })"

definition ring_pmd :: "'v ethdev \<Rightarrow> string \<Rightarrow> 'v \<Rightarrow> int \<times> 'v" where
  "ring_pmd E ring_name v =
    (let dev_name = snprintf_buf (RTE_ETH_NAME_MAX_LEN - 1) (''net_ring_'' @ ring_name) in
     case snd (rte_eth_dev_get_port_by_name E dev_name v) of
       None \<Rightarrow> (let (res, v1) = rte_eth_from_ring E ring_name v in
               if res < 0 then (- 1, v1) else (res, v1))
     | Some port_id \<Rightarrow>
         if port_id = PORT_RESET
         then (let (res, v1) = rte_eth_from_ring E ring_name v in
               if res < 0 then (- 1, v1) else (res, v1))
         else (port_id, snd (rte_eth_dev_start E port_id v)))"

definition add_ring_pmd :: "'v ethdev \<Rightarrow> int \<Rightarrow> 'v \<Rightarrow> int \<times> 'v" where
  "add_ring_pmd E ring_id v =
    (case rte_ring_lookup E (get_rx_queue_name ring_id) v of
       None \<Rightarrow> (- 1, v)
     | Some ring_name \<Rightarrow> ring_pmd E ring_name v)"

definition vhost_devargs :: "int \<Rightarrow> int \<Rightarrow> string" where
  "vhost_devargs index client = get_vhost_backend_name index @ '',iface='' @ get_vhost_iface_name index @
     '',queues='' @ show_int 1 @ '',client='' @ show_int client"

definition add_vhost_pmd :: "'v ethdev \<Rightarrow> int \<Rightarrow> int \<Rightarrow> 'v \<Rightarrow> (int \<times> 'v) option" where
  "add_vhost_pmd E g_enable_vhost_cli index v = do {
     ensure (rte_mempool_lookup E PKTMBUF_POOL_NAME v);
     devargs \<leftarrow> strcpy_buf 64 (vhost_devargs index g_enable_vhost_cli);
     attach_and_setup E devargs v
   }"

text \<open>The pcap files: the empty file for text2pcap is created when it cannot be opened.\<close>

definition create_pcap_rx :: "'v ethdev \<Rightarrow> string \<Rightarrow> 'v \<Rightarrow> int \<times> 'v" where
  "create_pcap_rx E rx_fpath v =
    (let template = ''/tmp/spp-emptyfile.txt'';
         (ok, v1) = (if fopen_read E template v then (True, v) else fopen_write E template v)
     in if \<not> ok then (- 1, v1)
        else let (res, v2) = sys_command E (''text2pcap '' @ template @ '' '' @ rx_fpath) v1 in
          if res \<noteq> 0 then (- 1, v2) else (0, v2))"

definition add_pcap_pmd :: "'v ethdev \<Rightarrow> int \<Rightarrow> 'v \<Rightarrow> (int \<times> 'v) option" where
  "add_pcap_pmd E index v =
    (let rx_fpath = ''/tmp/spp-rx'' @ show_int index @ ''.pcap'';
         tx_fpath = ''/tmp/spp-tx'' @ show_int index @ ''.pcap'';
         (ret, v1) = (if fopen_read E rx_fpath v then (0, v) else create_pcap_rx E rx_fpath v)
     in if ret < 0 then Some (ret, v1)
        else do {
          ensure (rte_mempool_lookup E PKTMBUF_POOL_NAME v1);
          devargs \<leftarrow> strcpy_buf 256
            (get_pcap_pmd_name index @ '',rx_pcap='' @ rx_fpath @ '',tx_pcap='' @ tx_fpath);
          attach_and_setup E devargs v1
        })"

definition add_null_pmd :: "'v ethdev \<Rightarrow> int \<Rightarrow> 'v \<Rightarrow> (int \<times> 'v) option" where
  "add_null_pmd E index v = do {
     ensure (rte_mempool_lookup E PKTMBUF_POOL_NAME v);
     devargs \<leftarrow> strcpy_buf 64 (get_null_pmd_name index);
     attach_and_setup E devargs v
   }"

section \<open>The constructors of spp_proc.c\<close>

definition spp_vf_add_ring_pmd :: "'v ethdev \<Rightarrow> int \<Rightarrow> 'v \<Rightarrow> int \<times> 'v" where
  "spp_vf_add_ring_pmd E ring_id v =
    (case rte_ring_lookup E (get_rx_queue_name ring_id) v of
       None \<Rightarrow> (- 1, v)
     | Some ring_name \<Rightarrow> ring_pmd E ring_name v)"

definition spp_vf_add_vhost_pmd :: "'v ethdev \<Rightarrow> int \<Rightarrow> int \<Rightarrow> 'v \<Rightarrow> (int \<times> 'v) option" where
  "spp_vf_add_vhost_pmd E index client v =
    (if \<not> rte_mempool_lookup E PKTMBUF_POOL_NAME v then Some (- 1, v)
     else do {
       devargs \<leftarrow> strcpy_buf 64 (vhost_devargs index client);
       attach_and_setup E devargs v
     })"

section \<open>Properties\<close>

lemma unit_name_small:
  assumes "0 \<le> i" and "i < 1000"
  shows "unit_name prefix i = prefix @ show_nat (nat i)"
proof -
  have "nat i \<le> 999" using assms by simp
  from length_show_nat_mono [OF this] have "length (show_nat (nat i)) \<le> length (show_nat 999)" .
  also have "\<dots> = 3" by code_simp
  finally have "length (show_nat (nat i)) \<le> 3" .
  then show ?thesis using assms by (simp add: unit_name_def snprintf_buf_def show_unsigned_def)
qed

text \<open>The queue names of the rings 0 to 999 are pairwise different and carry the number in
  decimal; from 1000 on the buffer cuts the last digits off, and the ring 1000 gets the queue
  name of the ring 100.\<close>
theorem rx_queue_names:
  "(\<forall>i\<in>{0..999}. get_rx_queue_name i = ''eth_ring'' @ show_nat (nat i)) \<and>
   inj_on get_rx_queue_name {0..999} \<and> get_rx_queue_name 1000 = get_rx_queue_name 100"
proof (intro conjI)
  have n: "\<forall>i\<in>{0..999}. get_rx_queue_name i = ''eth_ring'' @ show_nat (nat i)"
    by (auto simp: get_rx_queue_name_def unit_name_small)
  then show "\<forall>i\<in>{0..999}. get_rx_queue_name i = ''eth_ring'' @ show_nat (nat i)" .
  show "inj_on get_rx_queue_name {0..999}"
    using n by (auto simp: inj_on_def show_nat_inj)
  show "get_rx_queue_name 1000 = get_rx_queue_name 100" by code_simp
qed

lemma rx_queue_names_witness: "get_rx_queue_name 42 = ''eth_ring'' @ show_nat 42"
  using rx_queue_names by simp

text \<open>The calls that a run of setup_port makes, in their order.\<close>

lemma setup_port_done:
  assumes "setup_port E port v = (r, v')" and "0 \<le> r"
  shows "r = port \<and> (\<exists>v1 v2 v3. 0 \<le> fst (rte_eth_dev_configure E port v) \<and>
    v1 = snd (rte_eth_dev_configure E port v) \<and>
    0 \<le> fst (rte_eth_rx_queue_setup E port 0 v1) \<and> v2 = snd (rte_eth_rx_queue_setup E port 0 v1) \<and>
    0 \<le> fst (rte_eth_tx_queue_setup E port 0 v2) \<and> v3 = snd (rte_eth_tx_queue_setup E port 0 v2) \<and>
    0 \<le> fst (rte_eth_dev_start E port v3) \<and> v' = snd (rte_eth_dev_start E port v3))"
  using assms by (auto simp: setup_port_def Let_def split: prod.splits if_splits)

lemma vhost_devargs_fits:
  assumes "0 \<le> client" and "client \<le> 1"
  shows "length (vhost_devargs index client) < 64"
proof -
  have u: "length (unit_name p i) \<le> length p + 3" for p i
    by (simp add: unit_name_def snprintf_buf_def)
  have one: "length (show_int 0) = 1" "length (show_int 1) = 1" by code_simp+
  have "client = 0 \<or> client = 1" using assms by auto
  then have "length (show_int client) = 1" using one by auto
  then show ?thesis
    using u [of "''eth_vhost''" index] u [of "''/tmp/sock''" index] one
    by (simp add: vhost_devargs_def get_vhost_backend_name_def get_vhost_iface_name_def)
qed

text \<open>A vhost port that spp_vf_add_vhost_pmd reports as added (a result that is not
  negative) was found under the name of the attached device, and has been configured, given
  a receive and a transmit queue, and started, in this order, each step successfully; the
  argument string always fits its buffer.\<close>
theorem vhost_port_ready:
  assumes "client \<in> {0, 1}" and "rte_mempool_lookup E PKTMBUF_POOL_NAME v"
    and "dev_attach_by_devargs E (vhost_devargs index client) v = ((a, Some port), v0)"
  shows "\<exists>r v'. spp_vf_add_vhost_pmd E index client v = Some (r, v') \<and>
    (0 \<le> r \<longrightarrow> 0 \<le> a \<and> r = port \<and> (\<exists>v1 v2 v3.
       0 \<le> fst (rte_eth_dev_configure E port v0) \<and> v1 = snd (rte_eth_dev_configure E port v0) \<and>
       0 \<le> fst (rte_eth_rx_queue_setup E port 0 v1) \<and> v2 = snd (rte_eth_rx_queue_setup E port 0 v1) \<and>
       0 \<le> fst (rte_eth_tx_queue_setup E port 0 v2) \<and> v3 = snd (rte_eth_tx_queue_setup E port 0 v2) \<and>
       0 \<le> fst (rte_eth_dev_start E port v3) \<and> v' = snd (rte_eth_dev_start E port v3)))"
proof -
  have "strcpy_buf 64 (vhost_devargs index client) = Some (vhost_devargs index client)"
    using vhost_devargs_fits [of client index] assms(1) by (auto simp: strcpy_buf_def)
  then have *: "spp_vf_add_vhost_pmd E index client v = attach_and_setup E (vhost_devargs index client) v"
    using assms(2) by (simp add: spp_vf_add_vhost_pmd_def)
  show ?thesis
  proof (cases "a < 0")
    case True
    then show ?thesis using assms(3) by (simp add: * attach_and_setup_def)
  next
    case False
    obtain r v' where r: "setup_port E port v0 = (r, v')" by (cases "setup_port E port v0")
    then have "spp_vf_add_vhost_pmd E index client v = Some (r, v')"
      using assms(3) False by (simp add: * attach_and_setup_def)
    then show ?thesis using setup_port_done [OF r] False by auto
  qed
qed

text \<open>A device that accepts every call, numbers the ports and logs the steps.\<close>

definition demo_ethdev :: "(string list) ethdev" where
  "demo_ethdev = \<lparr>rte_ring_lookup = (\<lambda>n v. Some n), rte_eth_from_ring = (\<lambda>n v. (3, v @ [''ring''])),
     rte_eth_dev_get_port_by_name = (\<lambda>n v. (0, Some 4)),
     rte_mempool_lookup = (\<lambda>n v. True), rte_devargs_parse = (\<lambda>a. Some (''vdev'', a, [])),
     rte_eal_hotplug_add = (\<lambda>b n a v. (0, v @ [''add''])),
     rte_eth_dev_configure = (\<lambda>p v. (0, v @ [''configure''])),
     rte_eth_rx_queue_setup = (\<lambda>p q v. (0, v @ [''rx''])),
     rte_eth_tx_queue_setup = (\<lambda>p q v. (0, v @ [''tx''])),
     rte_eth_dev_start = (\<lambda>p v. (0, v @ [''start''])),
     fopen_read = (\<lambda>f v. True), fopen_write = (\<lambda>f v. (True, v)), sys_command = (\<lambda>c v. (0, v))\<rparr>"

lemma vhost_port_ready_witness:
  "\<exists>r v'. spp_vf_add_vhost_pmd demo_ethdev 0 1 [] = Some (r, v') \<and>
     (r < 0 \<or> r = 4 \<and> v' = [''add'', ''configure'', ''rx'', ''tx'', ''start''])"
proof -
  have "dev_attach_by_devargs demo_ethdev (vhost_devargs 0 1) [] = ((0, Some 4), [''add''])"
    "rte_mempool_lookup demo_ethdev PKTMBUF_POOL_NAME []"
    by (simp_all add: dev_attach_by_devargs_def demo_ethdev_def)
  from vhost_port_ready [OF _ this(2,1)] show ?thesis by (auto simp: demo_ethdev_def)
qed

end
