(* ===== verification/Spp_Flush.thy ===== *)
theory Spp_Flush
  imports Classifier_Run Add_Port
begin

text \<open>
  The flush operations of vf/common/spp_proc.c, in the build of spp_vf: devices for the ports
  that were added, the core tables, and the components that were changed.  The argument env
  is what another thread does in one step, sched the steps that are taken while the caller
  waits.
\<close>

section \<open>Ports\<close>

text \<open>One array of ports: a device for every port in use that has none yet; the first failure
  ends the loop.\<close>

fun flush_ifaces ::
  "(int \<Rightarrow> 'v \<Rightarrow> (int \<times> 'v) option) \<Rightarrow> spp_port_info list \<Rightarrow> 'v \<Rightarrow>
   (int \<times> spp_port_info list \<times> 'v) option" where
  "flush_ifaces add [] v = Some (SPP_RET_OK, [], v)"
| "flush_ifaces add (p # ps) v =
    (if iface_type p \<noteq> UNDEF \<and> dpdk_port p < 0
     then do {
       (ret, v1) \<leftarrow> add (iface_no p) v;
       if ret < 0 then Some (SPP_RET_NG, p # ps, v1)
       else do {
         (r, ps', v2) \<leftarrow> flush_ifaces add ps v1;
         Some (r, p\<lparr>dpdk_port := ret\<rparr> # ps', v2)
       }
     }
     else do {
       (r, ps', v2) \<leftarrow> flush_ifaces add ps v;
       Some (r, p # ps', v2)
     })"

definition flush_port ::
  "'v ethdev \<Rightarrow> 'z manage_data_scheme \<Rightarrow> 'v \<Rightarrow> (int \<times> 'z manage_data_scheme \<times> 'v) option" where
  "flush_port E s v = do {
     (r1, vh, v1) \<leftarrow> flush_ifaces
        (\<lambda>i. spp_vf_add_vhost_pmd E i (vhost_client (g_startup_param s))) (vhost (g_iface_info s)) v;
     let s1 = s\<lparr>g_iface_info := (g_iface_info s)\<lparr>vhost := vh\<rparr>\<rparr>;
     if r1 \<noteq> SPP_RET_OK then Some (SPP_RET_NG, s1, v1)
     else do {
       (r2, rg, v2) \<leftarrow> flush_ifaces (\<lambda>i u. Some (add_ring_pmd E i u)) (ring (g_iface_info s1)) v1;
       let s2 = s1\<lparr>g_iface_info := (g_iface_info s1)\<lparr>ring := rg\<rparr>\<rparr>;
       Some (if r2 \<noteq> SPP_RET_OK then SPP_RET_NG else SPP_RET_OK, s2, v2)
     }
   }"

section \<open>Cores\<close>

text \<open>The first loop publishes the changed cores.\<close>

definition publish_core :: "core_mng_info \<Rightarrow> core_mng_info" where
  "publish_core c = c\<lparr>upd_index := ref_index c\<rparr>"

definition publish_cores :: "int list \<Rightarrow> core_mng_info list \<Rightarrow> core_mng_info list" where
  "publish_cores change cores =
    List.map (\<lambda>(ch, c). if ch \<noteq> 0 then publish_core c else c) (List.zip change cores)"

definition core_pending :: "int \<Rightarrow> 'z manage_data_scheme \<Rightarrow> bool option" where
  "core_pending i s = do { c \<leftarrow> rd (g_core_info s) i; Some (ref_index c = upd_index c) }"

text \<open>After the wait the area in use is copied to the update area.\<close>

definition copy_core :: "core_mng_info \<Rightarrow> core_mng_info option" where
  "copy_core c = do {
     x \<leftarrow> rd (core c) (ref_index c);
     cs \<leftarrow> wr (core c) (upd_index c) x;
     Some (c\<lparr>core := cs\<rparr>)
   }"

fun flush_core_wait ::
  "('e \<Rightarrow> 'z manage_data_scheme \<Rightarrow> 'z manage_data_scheme option) \<Rightarrow> nat list \<Rightarrow> 'e list \<Rightarrow>
   'z manage_data_scheme \<Rightarrow> ('e list \<times> 'z manage_data_scheme) option" where
  "flush_core_wait env [] sched s = Some (sched, s)"
| "flush_core_wait env (k # ks) sched s = do {
     ch \<leftarrow> rd (g_change_core s) (int k);
     if ch = 0 then flush_core_wait env ks sched s
     else do {
       (sched', s1) \<leftarrow> wait_while (core_pending (int k)) env sched s;
       c \<leftarrow> rd (g_core_info s1) (int k);
       c' \<leftarrow> copy_core c;
       cs \<leftarrow> wr (g_core_info s1) (int k) c';
       flush_core_wait env ks sched' (s1\<lparr>g_core_info := cs\<rparr>)
     }
   }"

definition flush_core ::
  "('e \<Rightarrow> 'z manage_data_scheme \<Rightarrow> 'z manage_data_scheme option) \<Rightarrow> 'e list \<Rightarrow>
   'z manage_data_scheme \<Rightarrow> ('e list \<times> 'z manage_data_scheme) option" where
  "flush_core env sched s =
    flush_core_wait env [0..<length (g_core_info s)] sched
      (s\<lparr>g_core_info := publish_cores (g_change_core s) (g_core_info s)\<rparr>)"

section \<open>Components\<close>

fun flush_components ::
  "'h hash_ops \<Rightarrow> ('e \<Rightarrow> ('h, 'z) classifier_data_scheme \<Rightarrow> ('h, 'z) classifier_data_scheme option) \<Rightarrow>
   nat list \<Rightarrow> 'e list \<Rightarrow> ('h, 'z) classifier_data_scheme \<Rightarrow>
   (int \<times> 'e list \<times> ('h, 'z) classifier_data_scheme) option" where
  "flush_components H env [] sched s = Some (SPP_RET_OK, sched, s)"
| "flush_components H env (k # ks) sched s = do {
     ch \<leftarrow> rd (g_change_component s) (int k);
     if ch = 0 then flush_components H env ks sched s
     else do {
       c \<leftarrow> rd (g_component_info s) (int k);
       s1 \<leftarrow> spp_port_ability_update c s;
       (ret, sched', s2) \<leftarrow> (if comp_type c = SPP_COMPONENT_CLASSIFIER_MAC
          then spp_classifier_mac_update H env sched c s1
          else spp_forward_update env sched c s1);
       if ret < 0 then Some (SPP_RET_NG, sched', s2)
       else flush_components H env ks sched' s2
     }
   }"

definition flush_component ::
  "'h hash_ops \<Rightarrow> ('e \<Rightarrow> ('h, 'z) classifier_data_scheme \<Rightarrow> ('h, 'z) classifier_data_scheme option) \<Rightarrow>
   'e list \<Rightarrow> ('h, 'z) classifier_data_scheme \<Rightarrow>
   (int \<times> 'e list \<times> ('h, 'z) classifier_data_scheme) option" where
  "flush_component H env sched s =
    flush_components H env [0..<length (g_component_info s)] sched s"

section \<open>The worker's look at its core table\<close>

text \<open>slave_main of vf/spp_vf.c (and of the other processes) looks at its indexes only while it
  forwards.\<close>

definition flip_core :: "core_mng_info \<Rightarrow> core_mng_info" where
  "flip_core c =
    (if ref_index c = upd_index c then c\<lparr>ref_index := flip_index (upd_index c)\<rparr> else c)"

definition slave_look :: "int \<Rightarrow> 'z manage_data_scheme \<Rightarrow> 'z manage_data_scheme option" where
  "slave_look lcore s = do {
     c \<leftarrow> rd (g_core_info s) lcore;
     if status c \<noteq> SPP_CORE_FORWARD then Some s
     else do {
       cs \<leftarrow> wr (g_core_info s) lcore (flip_core c);
       Some (s\<lparr>g_core_info := cs\<rparr>)
     }
   }"

definition put_core :: "core_info \<Rightarrow> core_mng_info \<Rightarrow> core_mng_info" where
  "put_core x c = c\<lparr>core := (core c)[nat (upd_index c) := x]\<rparr>"

interpretation core_buffer: double_buffer ref_index upd_index core put_core publish_core flip_core
  by unfold_locales (auto simp: put_core_def publish_core_def flip_core_def)

section \<open>Flushing ports\<close>

text \<open>The second structure is the first, with a device number where it had none.\<close>

definition port_flushed :: "spp_port_info \<Rightarrow> spp_port_info \<Rightarrow> bool" where
  "port_flushed p p' \<longleftrightarrow> p' = p \<or>
    iface_type p \<noteq> UNDEF \<and> dpdk_port p < 0 \<and> (\<exists>d\<ge>0. p' = p\<lparr>dpdk_port := d\<rparr>)"

definition port_usable :: "spp_port_info \<Rightarrow> bool" where
  "port_usable p \<longleftrightarrow> iface_type p \<noteq> UNDEF \<longrightarrow> 0 \<le> dpdk_port p"

lemma flush_ifaces_ready:
  "flush_ifaces add ps v = Some (r, ps', v') \<Longrightarrow>
   list_all2 port_flushed ps ps' \<and> (r = 0 \<longrightarrow> (\<forall>p\<in>set ps'. port_usable p))"
proof (induction ps arbitrary: v r ps' v')
  case (Cons p ps)
  show ?case
  proof (cases "iface_type p \<noteq> UNDEF \<and> dpdk_port p < 0")
    case True
    then obtain ret v1 where a: "add (iface_no p) v = Some (ret, v1)"
      using Cons.prems by (auto simp: bind_Some_iff)
    show ?thesis
    proof (cases "ret < 0")
      case False
      then obtain ps2 where f: "flush_ifaces add ps v1 = Some (r, ps2, v')" "ps' = p\<lparr>dpdk_port := ret\<rparr> # ps2"
        using Cons.prems True a by (auto simp: bind_Some_iff)
      have "port_flushed p (p\<lparr>dpdk_port := ret\<rparr>)"
        unfolding port_flushed_def using True False not_less by blast
      then show ?thesis using Cons.IH [OF f(1)] False by (simp add: f(2) port_usable_def)
    qed (use Cons.prems True a in \<open>auto simp: port_flushed_def list_all2_refl\<close>)
  next
    case False
    then obtain ps2 where f: "flush_ifaces add ps v = Some (r, ps2, v')" "ps' = p # ps2"
      using Cons.prems by (auto simp: bind_Some_iff split: if_splits)
    show ?thesis using Cons.IH [OF f(1)] False by (auto simp: f(2) port_usable_def port_flushed_def)
  qed
qed simp

text \<open>When flushing the ports succeeds, every vhost and ring port in use has a device, and
  nothing but the device numbers of such ports without one has changed: the NICs and the rest
  of the management data are untouched.\<close>
theorem flush_port_ready:
  assumes "flush_port E s v = Some (SPP_RET_OK, s', v')"
  shows "\<exists>vh rg. s' = s\<lparr>g_iface_info := (g_iface_info s)\<lparr>vhost := vh, ring := rg\<rparr>\<rparr> \<and>
    list_all2 port_flushed (vhost (g_iface_info s)) vh \<and> list_all2 port_flushed (ring (g_iface_info s)) rg \<and>
    (\<forall>p\<in>set vh \<union> set rg. port_usable p)"
proof -
  define add where "add = (\<lambda>i. spp_vf_add_vhost_pmd E i (vhost_client (g_startup_param s)))"
  note run = assms [unfolded flush_port_def add_def [symmetric]]
  obtain r1 vh v1 where 1: "flush_ifaces add (vhost (g_iface_info s)) v = Some (r1, vh, v1)"
    using run by (auto simp: bind_Some_iff)
  have r1: "r1 = 0" using run 1 by (cases "r1 = 0") (simp_all add: Let_def)
  obtain r2 rg v2 where 2: "flush_ifaces (\<lambda>i u. Some (add_ring_pmd E i u)) (ring (g_iface_info s)) v1 = Some (r2, rg, v2)"
      "s' = s\<lparr>g_iface_info := (g_iface_info s)\<lparr>vhost := vh, ring := rg\<rparr>\<rparr>" "r2 = 0"
    using run 1 r1 by (auto simp: bind_Some_iff Let_def split: if_splits)
  show ?thesis using flush_ifaces_ready [OF 1] flush_ifaces_ready [OF 2(1)] r1 2(2,3) by blast
qed

section \<open>Flushing cores\<close>

definition looked :: "core_mng_info \<Rightarrow> core_mng_info" where
  "looked c = (if status c = SPP_CORE_FORWARD then flip_core c else c)"

definition core_ok :: "core_mng_info \<Rightarrow> bool" where
  "core_ok c \<longleftrightarrow> ref_index c \<in> {0, 1} \<and> upd_index c \<in> {0, 1} \<and> length (core c) = SPP_INFO_AREA_MAX"

lemma looked_ok: "core_ok c \<Longrightarrow> core_ok (looked c)"
  by (auto simp: core_ok_def looked_def flip_core_def flip_index_def SPP_INFO_AREA_MAX_def)

lemma looked_idem: "core_ok c \<Longrightarrow> looked (looked c) = looked c"
  by (auto simp: core_ok_def looked_def flip_core_def flip_index_def SPP_INFO_AREA_MAX_def)

lemma looked_settled: "ref_index c \<noteq> upd_index c \<Longrightarrow> looked c = c"
  by (simp add: looked_def flip_core_def)

lemma looked_done: "core_ok c \<Longrightarrow> status c = SPP_CORE_FORWARD \<Longrightarrow> ref_index (looked c) \<noteq> upd_index (looked c)"
  by (auto simp: core_ok_def looked_def flip_core_def flip_index_def SPP_INFO_AREA_MAX_def)

lemma slave_look_eq:
  assumes "e < length (g_core_info s)"
  shows "slave_look (int e) s = Some (s\<lparr>g_core_info := (g_core_info s)[e := looked (g_core_info s ! e)]\<rparr>)"
proof (cases "status (g_core_info s ! e) = SPP_CORE_FORWARD")
  case False
  then have "(g_core_info s)[e := looked (g_core_info s ! e)] = g_core_info s" by (simp add: looked_def)
  then show ?thesis using assms False by (simp add: slave_look_def rd_nat)
qed (use assms in \<open>simp add: slave_look_def rd_nat wr_ok looked_def\<close>)

lemma core_pending_eq: "k < length (g_core_info s) \<Longrightarrow>
    core_pending (int k) s = Some (ref_index (g_core_info s ! k) = upd_index (g_core_info s ! k))"
  by (simp add: core_pending_def rd_nat)

text \<open>While the caller waits for core k, the cores that are scheduled look at their tables.\<close>

lemma wait_core:
  assumes "k < length (g_core_info s)" and "\<forall>c\<in>set (g_core_info s). core_ok c"
    and "\<forall>e\<in>set sched. \<exists>j<length (g_core_info s). e = int j"
    and "ref_index (g_core_info s ! k) = upd_index (g_core_info s ! k) \<longrightarrow>
      status (g_core_info s ! k) = SPP_CORE_FORWARD \<and> int k \<in> set sched"
  shows "\<exists>sched' cs. wait_while (core_pending (int k)) slave_look sched s = Some (sched', s\<lparr>g_core_info := cs\<rparr>) \<and>
    set sched' \<subseteq> set sched \<and> length cs = length (g_core_info s) \<and> ref_index (cs ! k) \<noteq> upd_index (cs ! k) \<and>
    (\<forall>j<length cs. (cs ! j = g_core_info s ! j \<or> cs ! j = looked (g_core_info s ! j)) \<and>
       (int j \<in> set sched \<longrightarrow> int j \<in> set sched' \<or> cs ! j = looked (g_core_info s ! j)))"
  using assms
proof (induction sched arbitrary: s)
  case Nil
  then have "core_pending (int k) s = Some False" by (simp add: core_pending_eq)
  then show ?case using Nil by (intro exI [of _ "[]"] exI [of _ "g_core_info s"]) simp
next
  case (Cons e es)
  let ?G = "g_core_info s"
  show ?case
  proof (cases "ref_index (?G ! k) = upd_index (?G ! k)")
    case False
    then have "core_pending (int k) s = Some False" using Cons.prems(1) by (simp add: core_pending_eq)
    then show ?thesis using False by (intro exI [of _ "e # es"] exI [of _ "g_core_info s"]) simp
  next
    case True
    obtain i where i: "i < length ?G" "e = int i" using Cons.prems(3) by auto
    define s1 where "s1 = s\<lparr>g_core_info := ?G[i := looked (?G ! i)]\<rparr>"
    have st: "slave_look e s = Some s1" using i by (simp add: slave_look_eq s1_def)
    have pd: "core_pending (int k) s = Some True" using True Cons.prems(1) by (simp add: core_pending_eq)
    have ok: "core_ok (?G ! j)" if "j < length ?G" for j using Cons.prems(2) that by simp
    have G1: "g_core_info s1 ! j = (if j = i then looked (?G ! i) else ?G ! j)" "length (g_core_info s1) = length ?G" for j
      using i by (simp_all add: s1_def nth_list_update)
    have 1: "k < length (g_core_info s1)" using Cons.prems(1) G1(2) by simp
    have 2: "\<forall>c\<in>set (g_core_info s1). core_ok c"
      using ok i(1) G1 looked_ok by (auto simp: in_set_conv_nth)
    have 3: "\<forall>e\<in>set es. \<exists>j<length (g_core_info s1). e = int j" using Cons.prems(3) by (simp add: G1(2))
    have 4: "ref_index (g_core_info s1 ! k) = upd_index (g_core_info s1 ! k) \<longrightarrow>
        status (g_core_info s1 ! k) = SPP_CORE_FORWARD \<and> int k \<in> set es"
    proof (cases "k = i")
      case True
      then show ?thesis using looked_done [OF ok [OF i(1)]] Cons.prems(4) \<open>ref_index (?G ! k) = upd_index (?G ! k)\<close>
        by (simp add: G1)
    qed (use Cons.prems(4) \<open>ref_index (?G ! k) = upd_index (?G ! k)\<close> i(2) in \<open>simp add: G1\<close>)
    obtain sched' cs where r: "wait_while (core_pending (int k)) slave_look es s1 = Some (sched', s1\<lparr>g_core_info := cs\<rparr>)"
        "set sched' \<subseteq> set es" "length cs = length (g_core_info s1)" "ref_index (cs ! k) \<noteq> upd_index (cs ! k)"
        "\<forall>j<length cs. (cs ! j = g_core_info s1 ! j \<or> cs ! j = looked (g_core_info s1 ! j)) \<and>
           (int j \<in> set es \<longrightarrow> int j \<in> set sched' \<or> cs ! j = looked (g_core_info s1 ! j))"
      using Cons.IH [OF 1 2 3 4] by blast
    have l1: "looked (g_core_info s1 ! j) = looked (?G ! j)" if "j < length ?G" for j
      using looked_idem [OF ok [OF that]] looked_idem [OF ok [OF i(1)]] by (simp add: G1)
    have run: "wait_while (core_pending (int k)) slave_look (e # es) s = Some (sched', s\<lparr>g_core_info := cs\<rparr>)"
      using r(1) st pd by (simp add: s1_def)
    have each: "(cs ! j = ?G ! j \<or> cs ! j = looked (?G ! j)) \<and>
        (int j \<in> set (e # es) \<longrightarrow> int j \<in> set sched' \<or> cs ! j = looked (?G ! j))" if "j < length cs" for j
    proof -
      have "j < length ?G" using that r(3) G1(2) by simp
      then have lj: "looked (g_core_info s1 ! j) = looked (?G ! j)" by (rule l1)
      have a: "g_core_info s1 ! j = ?G ! j \<or> g_core_info s1 ! j = looked (?G ! j)"
          "int j \<in> set (e # es) \<longrightarrow> int j \<in> set es \<or> g_core_info s1 ! j = looked (?G ! j)"
        unfolding G1(1) using i(2) by auto
      note b = r(5) [rule_format, OF that, unfolded lj]
      show ?thesis
      proof (cases "g_core_info s1 ! j = looked (?G ! j)")
        case True
        then show ?thesis using b by simp
      next
        case False
        then have eq: "g_core_info s1 ! j = ?G ! j" and sub: "int j \<in> set (e # es) \<longrightarrow> int j \<in> set es"
          using a by simp_all
        note b' = b [unfolded eq]
        show ?thesis by (rule conjI [OF conjunct1 [OF b'] impI], rule mp [OF conjunct2 [OF b']], rule mp [OF sub])
      qed
    qed
    have "set sched' \<subseteq> set (e # es)" "length cs = length ?G" using r(2,3) G1(2) by auto
    then show ?thesis using each run r(4) by blast
  qed
qed

text \<open>Copying makes both areas of a core equal to the one in use.\<close>

definition synced :: "core_mng_info \<Rightarrow> core_mng_info" where
  "synced c = put_core (core c ! nat (ref_index c)) c"

lemma copy_core_eq: "core_ok c \<Longrightarrow> copy_core c = Some (synced c)"
  by (auto simp: core_ok_def copy_core_def synced_def put_core_def rd_def wr_def SPP_INFO_AREA_MAX_def)

lemma synced_ok: "core_ok c \<Longrightarrow> core_ok (synced c)"
  by (simp add: core_ok_def synced_def put_core_def)

lemma synced_looked: "ref_index c \<noteq> upd_index c \<Longrightarrow> looked (synced c) = synced c"
  by (simp add: looked_settled synced_def put_core_def)

lemma flush_core_wait_ok:
  assumes "distinct ks" and "\<forall>k\<in>set ks. k < length (g_core_info s)"
    and "length (g_change_core s) = length (g_core_info s)"
    and "\<forall>c\<in>set (g_core_info s). core_ok c"
    and "\<forall>e\<in>set sched. \<exists>j<length (g_core_info s). e = int j"
    and "\<forall>k\<in>set ks. g_change_core s ! k \<noteq> 0 \<longrightarrow> ref_index (g_core_info s ! k) = upd_index (g_core_info s ! k) \<longrightarrow>
      status (g_core_info s ! k) = SPP_CORE_FORWARD \<and> int k \<in> set sched"
  shows "\<exists>sched' cs. flush_core_wait slave_look ks sched s = Some (sched', s\<lparr>g_core_info := cs\<rparr>) \<and>
    length cs = length (g_core_info s) \<and>
    (\<forall>j<length cs. if j \<in> set ks \<and> g_change_core s ! j \<noteq> 0 then cs ! j = synced (looked (g_core_info s ! j))
       else cs ! j = g_core_info s ! j \<or> cs ! j = looked (g_core_info s ! j))"
  using assms
proof (induction ks arbitrary: s sched)
  case Nil
  then show ?case by (intro exI [of _ sched] exI [of _ "g_core_info s"]) simp
next
  case (Cons k ks)
  let ?G = "g_core_info s"
  have k: "k < length ?G" "k \<notin> set ks" "distinct ks" using Cons.prems(1,2) by auto
  have ch: "rd (g_change_core s) (int k) = Some (g_change_core s ! k)" using k Cons.prems(3) by (simp add: rd_nat)
  have ok: "core_ok (?G ! j)" if "j < length ?G" for j using Cons.prems(4) that by simp
  show ?case
  proof (cases "g_change_core s ! k = 0")
    case True
    have "\<exists>sched' cs. flush_core_wait slave_look ks sched s = Some (sched', s\<lparr>g_core_info := cs\<rparr>) \<and>
      length cs = length ?G \<and>
      (\<forall>j<length cs. if j \<in> set ks \<and> g_change_core s ! j \<noteq> 0 then cs ! j = synced (looked (?G ! j))
         else cs ! j = ?G ! j \<or> cs ! j = looked (?G ! j))"
      by (rule Cons.IH) (use Cons.prems k in auto)
    then obtain sched' cs where "flush_core_wait slave_look ks sched s = Some (sched', s\<lparr>g_core_info := cs\<rparr>)"
      "length cs = length ?G"
      "\<And>j. j < length cs \<Longrightarrow> if j \<in> set ks \<and> g_change_core s ! j \<noteq> 0 then cs ! j = synced (looked (?G ! j))
         else cs ! j = ?G ! j \<or> cs ! j = looked (?G ! j)" by blast
    moreover have "j \<in> set (k # ks) \<and> g_change_core s ! j \<noteq> 0 \<longleftrightarrow> j \<in> set ks \<and> g_change_core s ! j \<noteq> 0" for j
      using True by auto
    ultimately show ?thesis using True ch
      by (intro exI [of _ sched'] exI [of _ cs]) (simp del: list.set)
  next
    case False
    obtain sched1 cs where w: "wait_while (core_pending (int k)) slave_look sched s = Some (sched1, s\<lparr>g_core_info := cs\<rparr>)"
        "set sched1 \<subseteq> set sched" "length cs = length ?G" "ref_index (cs ! k) \<noteq> upd_index (cs ! k)"
      and wj: "\<And>j. j < length cs \<Longrightarrow> (cs ! j = ?G ! j \<or> cs ! j = looked (?G ! j)) \<and>
         (int j \<in> set sched \<longrightarrow> int j \<in> set sched1 \<or> cs ! j = looked (?G ! j))"
      using wait_core [OF k(1) Cons.prems(4,5)] Cons.prems(6) False by auto
    have lk: "looked (cs ! j) = looked (?G ! j)" if "j < length cs" for j
      using wj [OF that] looked_idem [OF ok] that w(3) by auto
    have csok: "core_ok (cs ! j)" if "j < length cs" for j
      using wj [OF that] ok looked_ok that w(3) by (metis (no_types))
    have ck: "cs ! k = looked (?G ! k)" using lk [of k] looked_settled [OF w(4)] k(1) w(3) by simp
    define cs1 where "cs1 = cs[k := synced (cs ! k)]"
    define s1 where "s1 = s\<lparr>g_core_info := cs1\<rparr>"
    have cs1: "cs1 ! j = (if j = k then synced (cs ! k) else cs ! j)" "length cs1 = length ?G" for j
      using k(1) w(3) by (simp_all add: cs1_def nth_list_update)
    have s1f: "g_core_info s1 = cs1" "g_change_core s1 = g_change_core s" by (simp_all add: s1_def)
    have "\<exists>sched' cs'. flush_core_wait slave_look ks sched1 s1 = Some (sched', s1\<lparr>g_core_info := cs'\<rparr>) \<and>
      length cs' = length (g_core_info s1) \<and>
      (\<forall>j<length cs'. if j \<in> set ks \<and> g_change_core s1 ! j \<noteq> 0 then cs' ! j = synced (looked (g_core_info s1 ! j))
         else cs' ! j = g_core_info s1 ! j \<or> cs' ! j = looked (g_core_info s1 ! j))"
    proof (rule Cons.IH [OF k(3)])
      show "\<forall>j\<in>set ks. j < length (g_core_info s1)" using Cons.prems(2) cs1(2) by (simp add: s1_def)
      show "length (g_change_core s1) = length (g_core_info s1)" using Cons.prems(3) cs1(2) by (simp add: s1_def)
      show "\<forall>c\<in>set (g_core_info s1). core_ok c"
        using csok synced_ok cs1 k(1) w(3) by (auto simp: s1_def in_set_conv_nth)
      show "\<forall>e\<in>set sched1. \<exists>j<length (g_core_info s1). e = int j"
        using Cons.prems(5) w(2) cs1(2) by (auto simp: s1_def)
      show "\<forall>j\<in>set ks. g_change_core s1 ! j \<noteq> 0 \<longrightarrow> ref_index (g_core_info s1 ! j) = upd_index (g_core_info s1 ! j) \<longrightarrow>
        status (g_core_info s1 ! j) = SPP_CORE_FORWARD \<and> int j \<in> set sched1"
      proof (intro ballI impI)
        fix j assume j: "j \<in> set ks" "g_change_core s1 ! j \<noteq> 0"
          "ref_index (g_core_info s1 ! j) = upd_index (g_core_info s1 ! j)"
        have jl: "j < length cs" "j \<noteq> k" using j(1) Cons.prems(2) w(3) k(2) by auto
        have e: "g_core_info s1 ! j = cs ! j" using jl by (simp add: s1_def cs1)
        have G: "ref_index (?G ! j) = upd_index (?G ! j)"
          using j(3) e wj [OF jl(1)] looked_settled by metis
        have F: "status (?G ! j) = SPP_CORE_FORWARD \<and> int j \<in> set sched"
          using Cons.prems(6) j(1,2) G by (simp add: s1_def)
        have "cs ! j \<noteq> looked (?G ! j)" using looked_done [OF ok] F j(3) e jl(1) w(3) by metis
        then show "status (g_core_info s1 ! j) = SPP_CORE_FORWARD \<and> int j \<in> set sched1"
          using wj [OF jl(1)] F e by auto
      qed
    qed
    then obtain sched' cs' where r: "flush_core_wait slave_look ks sched1 s1 = Some (sched', s1\<lparr>g_core_info := cs'\<rparr>)"
        "length cs' = length ?G"
      and rj: "\<And>j. j < length cs' \<Longrightarrow> if j \<in> set ks \<and> g_change_core s ! j \<noteq> 0 then cs' ! j = synced (looked (cs1 ! j))
         else cs' ! j = cs1 ! j \<or> cs' ! j = looked (cs1 ! j)"
      unfolding s1f cs1(2) by blast
    have run: "flush_core_wait slave_look (k # ks) sched s = Some (sched', s\<lparr>g_core_info := cs'\<rparr>)"
      using ch False w(1,3) k(1) r(1) copy_core_eq [OF csok [of k]]
      by (simp add: rd_nat wr_ok s1_def cs1_def)
    have "if j \<in> set (k # ks) \<and> g_change_core s ! j \<noteq> 0 then cs' ! j = synced (looked (?G ! j))
       else cs' ! j = ?G ! j \<or> cs' ! j = looked (?G ! j)" if "j < length cs'" for j
    proof (cases "j = k")
      case True
      then have "cs' ! j = synced (cs ! k)"
        using rj [OF that] k(2) cs1 synced_looked [OF w(4)] by auto
      then show ?thesis using True False ck by simp
    next
      case nk: False
      then show ?thesis using rj [OF that] wj [of j] lk [of j] that r(2) w(3) by (auto simp: cs1)
    qed
    then show ?thesis using run r(2) by blast
  qed
qed

text \<open>C9: Flushing the cores takes effect: when every changed core forwards and is scheduled at
  least once, in whatever order, the flush returns, each changed core then uses the table
  that was filled, has the same table in its update area, and is ready for the next change;
  the other cores, and the rest of the management data, are as before.\<close>
theorem flush_core_takes_effect:
  assumes "length (g_change_core s) = length (g_core_info s)"
    and "\<forall>c\<in>set (g_core_info s). core_buffer.settled c"
    and "\<forall>e\<in>set sched. \<exists>j<length (g_core_info s). e = int j"
    and "\<forall>j<length (g_core_info s). g_change_core s ! j \<noteq> 0 \<longrightarrow>
      status (g_core_info s ! j) = SPP_CORE_FORWARD \<and> int j \<in> set sched"
  shows "\<exists>sched' cs. flush_core slave_look sched s = Some (sched', s\<lparr>g_core_info := cs\<rparr>) \<and>
    length cs = length (g_core_info s) \<and>
    (\<forall>j<length cs. core_buffer.settled (cs ! j) \<and> status (cs ! j) = status (g_core_info s ! j) \<and>
      (if g_change_core s ! j \<noteq> 0
       then \<forall>x\<in>set (core (cs ! j)). x = core (g_core_info s ! j) ! nat (upd_index (g_core_info s ! j))
       else cs ! j = g_core_info s ! j))"
proof -
  let ?G = "g_core_info s" and ?n = "length (g_core_info s)"
  define P where "P = publish_cores (g_change_core s) ?G"
  have set: "other_area (ref_index (?G ! j)) (upd_index (?G ! j)) \<and> length (core (?G ! j)) = 2" if "j < ?n" for j
    using assms(2) that by (auto simp: core_buffer.settled_def SPP_INFO_AREA_MAX_def)
  have lP: "length P = ?n" using assms(1) by (simp add: P_def publish_cores_def)
  have P: "P ! j = (if g_change_core s ! j \<noteq> 0 then publish_core (?G ! j) else ?G ! j)" if "j < ?n" for j
    using assms(1) that by (simp add: P_def publish_cores_def)
  have okP: "core_ok (P ! j)" if "j < ?n" for j
    using set [OF that] by (auto simp: P [OF that] core_ok_def publish_core_def other_area_def SPP_INFO_AREA_MAX_def)
  have g: "g_core_info (s\<lparr>g_core_info := P\<rparr>) = P" "g_change_core (s\<lparr>g_core_info := P\<rparr>) = g_change_core s"
      "(s\<lparr>g_core_info := P\<rparr>)\<lparr>g_core_info := cs\<rparr> = s\<lparr>g_core_info := cs\<rparr>" "length P = ?n" for cs
    using lP by simp_all
  have "\<exists>sched' cs. flush_core_wait slave_look [0..<?n] sched (s\<lparr>g_core_info := P\<rparr>) =
      Some (sched', (s\<lparr>g_core_info := P\<rparr>)\<lparr>g_core_info := cs\<rparr>) \<and> length cs = length (g_core_info (s\<lparr>g_core_info := P\<rparr>)) \<and>
      (\<forall>j<length cs. if j \<in> set [0..<?n] \<and> g_change_core (s\<lparr>g_core_info := P\<rparr>) ! j \<noteq> 0
        then cs ! j = synced (looked (g_core_info (s\<lparr>g_core_info := P\<rparr>) ! j))
        else cs ! j = g_core_info (s\<lparr>g_core_info := P\<rparr>) ! j \<or> cs ! j = looked (g_core_info (s\<lparr>g_core_info := P\<rparr>) ! j))"
  proof (rule flush_core_wait_ok)
    show "\<forall>k\<in>set [0..<?n]. g_change_core (s\<lparr>g_core_info := P\<rparr>) ! k \<noteq> 0 \<longrightarrow>
        ref_index (g_core_info (s\<lparr>g_core_info := P\<rparr>) ! k) = upd_index (g_core_info (s\<lparr>g_core_info := P\<rparr>) ! k) \<longrightarrow>
        status (g_core_info (s\<lparr>g_core_info := P\<rparr>) ! k) = SPP_CORE_FORWARD \<and> int k \<in> set sched"
      using assms(4) P by (auto simp: publish_core_def)
    show "\<forall>c\<in>set (g_core_info (s\<lparr>g_core_info := P\<rparr>)). core_ok c" using okP lP by (auto simp: in_set_conv_nth)
  qed (use assms(1,3) lP in auto)
  then obtain sched' cs where r: "flush_core slave_look sched s = Some (sched', s\<lparr>g_core_info := cs\<rparr>)" "length cs = ?n"
      and j: "\<And>j. j < ?n \<Longrightarrow> if g_change_core s ! j \<noteq> 0 then cs ! j = synced (looked (P ! j))
        else cs ! j = P ! j \<or> cs ! j = looked (P ! j)"
    unfolding flush_core_def P_def [symmetric] g by auto
  have "core_buffer.settled (cs ! j) \<and> status (cs ! j) = status (?G ! j) \<and>
      (if g_change_core s ! j \<noteq> 0 then \<forall>x\<in>set (core (cs ! j)). x = core (?G ! j) ! nat (upd_index (?G ! j))
       else cs ! j = ?G ! j)" if jl: "j < ?n" for j
  proof (cases "g_change_core s ! j = 0")
    case True
    have "looked (?G ! j) = ?G ! j" using set [OF jl] other_area_neq looked_settled by blast
    then show ?thesis using True j [OF jl] P [OF jl] assms(2) jl by auto
  next
    case False
    have F: "status (?G ! j) = SPP_CORE_FORWARD" using assms(4) jl False by blast
    have "cs ! j = synced (looked (publish_core (?G ! j)))" using j [OF jl] P [OF jl] False by simp
    moreover have "looked (publish_core (?G ! j)) = (?G ! j)\<lparr>ref_index := upd_index (?G ! j), upd_index := ref_index (?G ! j)\<rparr>"
      using set [OF jl] F other_area_flip by (auto simp: looked_def publish_core_def flip_core_def)
    ultimately have c: "cs ! j = (?G ! j)\<lparr>ref_index := upd_index (?G ! j), upd_index := ref_index (?G ! j),
        core := (core (?G ! j))[nat (ref_index (?G ! j)) := core (?G ! j) ! nat (upd_index (?G ! j))]\<rparr>"
      by (simp add: synced_def put_core_def)
    obtain a b where ab: "core (?G ! j) = [a, b]"
      using set [OF jl] by (auto simp: numeral_2_eq_2 length_Suc_conv)
    show ?thesis using set [OF jl] False
      unfolding c by (auto simp: core_buffer.settled_def ab other_area_def SPP_INFO_AREA_MAX_def)
  qed
  then have "\<forall>j<length cs. core_buffer.settled (cs ! j) \<and> status (cs ! j) = status (?G ! j) \<and>
      (if g_change_core s ! j \<noteq> 0 then \<forall>x\<in>set (core (cs ! j)). x = core (?G ! j) ! nat (upd_index (?G ! j))
       else cs ! j = ?G ! j)" unfolding r(2) by blast
  then show ?thesis using r by blast
qed

text \<open>Waiting for a core that does not forward.\<close>

lemma flush_core_stuck:
  assumes "length (g_change_core s) = length (g_core_info s)" and "k < length (g_core_info s)"
    and "g_change_core s ! k \<noteq> 0" and "status (g_core_info s ! k) \<noteq> SPP_CORE_FORWARD"
    and "\<forall>j<k. g_change_core s ! j = 0" and "\<forall>e\<in>set sched. \<exists>j<length (g_core_info s). e = int j"
  shows "flush_core slave_look sched s = None"
proof -
  let ?n = "length (g_core_info s)"
  define P where "P = publish_cores (g_change_core s) (g_core_info s)"
  define s1 where "s1 = s\<lparr>g_core_info := P\<rparr>"
  have lP: "length P = ?n" using assms(1) by (simp add: P_def publish_cores_def)
  have Pk: "status (P ! k) \<noteq> SPP_CORE_FORWARD" "ref_index (P ! k) = upd_index (P ! k)"
    using assms(1-4) by (simp_all add: P_def publish_cores_def publish_core_def)
  have wait: "wait_while (core_pending (int k)) slave_look es t = None"
    if "length (g_core_info t) = ?n" "status (g_core_info t ! k) \<noteq> SPP_CORE_FORWARD"
      "ref_index (g_core_info t ! k) = upd_index (g_core_info t ! k)" "\<forall>e\<in>set es. \<exists>j<?n. e = int j" for es and t :: "'a manage_data_scheme"
    using that
  proof (induction es arbitrary: t)
    case Nil
    then show ?case using assms(2) by (simp add: core_pending_eq)
  next
    case (Cons e es)
    obtain i where i: "i < ?n" "e = int i" using Cons.prems(4) by auto
    let ?t = "t\<lparr>g_core_info := (g_core_info t)[i := looked (g_core_info t ! i)]\<rparr>"
    have "g_core_info ?t ! k = g_core_info t ! k"
      using Cons.prems(2) i(1) Cons.prems(1) by (cases "i = k") (simp_all add: looked_def)
    then have "wait_while (core_pending (int k)) slave_look es ?t = None"
      using Cons.IH [of ?t] Cons.prems by simp
    then show ?case using i Cons.prems(1,3) assms(2) by (simp add: core_pending_eq slave_look_eq)
  qed
  have skip: "flush_core_wait slave_look (ks @ rest) sched s1 = flush_core_wait slave_look rest sched s1"
    if "\<forall>j\<in>set ks. j < k" for ks rest
    using that
  proof (induction ks)
    case (Cons j ks)
    then have "rd (g_change_core s1) (int j) = Some 0"
      using assms(1,2,5) by (simp add: s1_def rd_nat)
    then show ?case using Cons by simp
  qed simp
  have "[0..<?n] = [0..<k] @ k # [Suc k..<?n]"
    using assms(2) by (metis append_Cons append_Nil append_assoc less_imp_add_positive upt_add_eq_append upt_rec zero_le)
  then have "flush_core slave_look sched s = flush_core_wait slave_look (k # [Suc k..<?n]) sched s1"
    using skip [of "[0..<k]" "k # [Suc k..<?n]"] by (simp add: flush_core_def s1_def P_def)
  also have "\<dots> = None"
    using wait [of s1 sched] assms(1-3,6) Pk lP by (simp add: s1_def rd_nat)
  finally show ?thesis .
qed

text \<open>A changed core that does not forward blocks the command thread for ever: its worker
  does not look at the indexes, so whatever is scheduled the flush of the cores does not
  return.  The main core is such a core.\<close>
theorem flush_core_blocks:
  assumes "length (g_change_core s) = length (g_core_info s)" and "k < length (g_core_info s)"
    and "g_change_core s ! k \<noteq> 0" and "status (g_core_info s ! k) \<noteq> SPP_CORE_FORWARD"
    and "\<forall>j<k. g_change_core s ! j = 0" and "\<forall>e\<in>set sched. \<exists>j<length (g_core_info s). e = int j"
  shows "flush_core slave_look sched s = None"
  using assms by (rule flush_core_stuck)

end
