(* ===== verification/Vf_Main.thy ===== *)
theory Vf_Main
  imports Spp_Flush
begin

text \<open>
  vf/spp_vf.c: one iteration of the worker threads (slave_main), and the start of the process
  up to the loop that accepts commands.  The options are parsed in Shared_Common; slaves is
  what RTE_LCORE_FOREACH_SLAVE enumerates and n_avail the number of Ethernet devices that
  DPDK reports.
\<close>

section \<open>The worker\<close>

fun run_components ::
  "'w dpdk \<Rightarrow> 'h hash_ops \<Rightarrow> nat \<Rightarrow> nat \<Rightarrow> int list \<Rightarrow> ('h, 'z) classifier_data_scheme \<Rightarrow> 'w \<Rightarrow>
   (int \<times> ('h, 'z) classifier_data_scheme \<times> 'w) option" where
  "run_components D H hz tsc [] s w = Some (0, s, w)"
| "run_components D H hz tsc (i # is) s w = do {
     ty \<leftarrow> spp_get_component_type s i;
     (ret, s1, w1) \<leftarrow> (if ty = SPP_COMPONENT_CLASSIFIER_MAC then spp_classifier_mac_do D H hz tsc i s w
        else spp_forward D i s w);
     if ret \<noteq> 0 then Some (ret, s1, w1) else run_components D H hz tsc is s1 w1
   }"

text \<open>One turn of the loop of slave_main.  The result Some ret is the end of the thread.  The
  pointer core of the code always points to the area in use, because only this thread moves
  ref_index.\<close>

definition slave_main_turn ::
  "'w dpdk \<Rightarrow> 'h hash_ops \<Rightarrow> nat \<Rightarrow> nat \<Rightarrow> int \<Rightarrow> ('h, 'z) classifier_data_scheme \<Rightarrow> 'w \<Rightarrow>
   (int option \<times> ('h, 'z) classifier_data_scheme \<times> 'w) option" where
  "slave_main_turn D H hz tsc lcore s w = do {
     st \<leftarrow> spp_get_core_status lcore s;
     if st = SPP_CORE_STOP_REQUEST
     then do { s1 \<leftarrow> set_core_status lcore SPP_CORE_STOP s; Some (Some 0, s1, w) }
     else if st \<noteq> SPP_CORE_FORWARD then Some (None, s, w)
     else do {
       s1 \<leftarrow> slave_look lcore s;
       c \<leftarrow> get_core_info s1 lcore;
       ensure (num c \<le> int (length (core_ids c)));
       (ret, s2, w2) \<leftarrow> run_components D H hz tsc (take (nat (num c)) (core_ids c)) s1 w;
       if ret \<noteq> 0
       then do { s3 \<leftarrow> set_core_status lcore SPP_CORE_STOP s2; Some (Some ret, s3, w2) }
       else Some (None, s2, w2)
     }
   }"

section \<open>Starting the process\<close>

definition vf_init ::
  "int list \<Rightarrow> int \<Rightarrow> ('h, 'z) classifier_data_scheme \<Rightarrow> (int \<times> ('h, 'z) classifier_data_scheme) option" where
  "vf_init slaves n_avail s = do {
     (ret_mng, s1) \<leftarrow> init_mng_data slaves n_avail s;
     if ret_mng \<noteq> SPP_RET_OK then Some (SPP_RET_NG, s1)
     else do {
       let (ret_cls, s2) = spp_classifier_mac_init s1;
       if ret_cls \<noteq> SPP_RET_OK then Some (SPP_RET_NG, s2)
       else Some (SPP_RET_OK, spp_port_ability_init (spp_forward_init s2))
     }
   }"

text \<open>The workers are started; the main thread waits until all are idle, lets them forward and
  takes the backup.  env cnt is what the other threads do while the main thread sleeps for the
  cnt-th time.\<close>

definition vf_start_workers ::
  "(nat \<Rightarrow> 'z manage_data_scheme \<Rightarrow> 'z manage_data_scheme) \<Rightarrow> int list \<Rightarrow>
   'z manage_data_scheme \<Rightarrow> (int \<times> 'z manage_data_scheme) option" where
  "vf_start_workers env slaves s = do {
     s1 \<leftarrow> set_core_status (int (g_main_lcore_id s)) SPP_CORE_IDLE s;
     (ret_wait, s2) \<leftarrow> check_core_status_wait env slaves SPP_CORE_IDLE s1;
     if ret_wait \<noteq> SPP_RET_OK then Some (SPP_RET_NG, s2)
     else do {
       s3 \<leftarrow> set_all_core_status slaves SPP_CORE_FORWARD s2;
       s4 \<leftarrow> backup_mng_info slaves s3;
       Some (SPP_RET_OK, s4)
     }
   }"

section \<open>The start-up establishes the invariants\<close>

lemma set_all_status_ok:
  assumes "\<forall>l\<in>set ls. 0 \<le> l \<and> l < int (length (g_core_info s))"
  shows "\<exists>cs. set_all_core_status ls st s = Some (s\<lparr>g_core_info := cs\<rparr>) \<and> length cs = length (g_core_info s) \<and>
    (\<forall>j<length cs. cs ! j = (if int j \<in> set ls then (g_core_info s ! j)\<lparr>status := st\<rparr> else g_core_info s ! j))"
  using assms
proof (induction ls arbitrary: s)
  case Nil
  then show ?case by (intro exI [of _ "g_core_info s"]) simp
next
  case (Cons l ls)
  define s1 where "s1 = s\<lparr>g_core_info := (g_core_info s)[nat l := (g_core_info s ! nat l)\<lparr>status := st\<rparr>]\<rparr>"
  have 1: "set_core_status l st s = Some s1"
    using Cons.prems by (simp add: set_core_status_def rd_ok wr_ok s1_def)
  have "\<forall>l\<in>set ls. 0 \<le> l \<and> l < int (length (g_core_info s1))" using Cons.prems by (simp add: s1_def)
  from Cons.IH [OF this] obtain cs where cs: "set_all_core_status ls st s1 = Some (s1\<lparr>g_core_info := cs\<rparr>)"
      "length cs = length (g_core_info s1)"
      "\<And>j. j < length cs \<Longrightarrow> cs ! j = (if int j \<in> set ls then (g_core_info s1 ! j)\<lparr>status := st\<rparr> else g_core_info s1 ! j)"
    by blast
  have "cs ! j = (if int j \<in> set (l # ls) then (g_core_info s ! j)\<lparr>status := st\<rparr> else g_core_info s ! j)"
    if "j < length cs" for j
  proof -
    have "g_core_info s1 ! j = (if int j = l then (g_core_info s ! j)\<lparr>status := st\<rparr> else g_core_info s ! j)"
      using that cs(2) Cons.prems by (auto simp: s1_def nth_list_update)
    then show ?thesis using cs(3) [OF that] by auto
  qed
  then show ?case using 1 cs(1,2) by (intro exI [of _ cs]) (simp add: s1_def)
qed

lemma wf_zero_component:
  "component_id c = i \<Longrightarrow> num_rx_port c = 0 \<Longrightarrow> num_tx_port c = 0 \<Longrightarrow>
   length (rx_ports c) = length (nic (g_iface_info s)) \<Longrightarrow> length (tx_ports c) = length (nic (g_iface_info s)) \<Longrightarrow>
   wf_component s i c"
  by (simp add: wf_component_def)

lemma init_core_info_ok:
  assumes "\<forall>l\<in>set slaves. 0 \<le> l \<and> l < int (length (g_core_info s))"
  shows "\<exists>cs. init_core_info slaves s = Some (s\<lparr>g_core_info := cs, g_change_core := replicate (length (g_change_core s)) 0\<rparr>) \<and>
    length cs = length (g_core_info s) \<and>
    (\<forall>j<length cs. cs ! j = (zero_core_mng (length cs))\<lparr>status := if int j \<in> set slaves then SPP_CORE_STOP else SPP_CORE_UNUSE,
       ref_index := 0, upd_index := 1\<rparr>)"
proof -
  let ?n = "length (g_core_info s)"
  define s0 where "s0 = s\<lparr>g_core_info := replicate ?n (zero_core_mng ?n)\<rparr>"
  have "\<forall>l\<in>set slaves. 0 \<le> l \<and> l < int (length (g_core_info s0))" using assms by (simp add: s0_def)
  from set_all_status_ok [OF this, of SPP_CORE_STOP] obtain cs where
    cs: "set_all_core_status slaves SPP_CORE_STOP s0 = Some (s0\<lparr>g_core_info := cs\<rparr>)" "length cs = ?n"
    and j: "\<And>j. j < ?n \<Longrightarrow> cs ! j = (if int j \<in> set slaves then (zero_core_mng ?n)\<lparr>status := SPP_CORE_STOP\<rparr> else zero_core_mng ?n)"
    by (auto simp: s0_def)
  define cs' where "cs' = List.map (\<lambda>c. c\<lparr>ref_index := 0, upd_index := 1\<rparr>) cs"
  have "init_core_info slaves s = Some (s\<lparr>g_core_info := cs', g_change_core := replicate (length (g_change_core s)) 0\<rparr>)"
    using cs(1) by (simp add: init_core_info_def s0_def [symmetric] Let_def cs'_def) (simp add: s0_def)
  moreover have "cs' ! j = (zero_core_mng ?n)\<lparr>status := if int j \<in> set slaves then SPP_CORE_STOP else SPP_CORE_UNUSE,
      ref_index := 0, upd_index := 1\<rparr>" if "j < ?n" for j
    using j [OF that] that cs(2) by (simp add: cs'_def zero_core_mng_def)
  ultimately show ?thesis using cs(2) by (intro exI [of _ cs']) (simp add: cs'_def)
qed

text \<open>The state after the initialisation: the management data is well formed, workers are stopped and
  the other cores unused with settled empty core tables, every component slot is free, the first
  Ethernet ports are the devices of DPDK and every other port is undefined, all port abilities are
  empty and all forwarding paths are settled and empty.\<close>

lemma vf_init_state:
  fixes s :: "('h, 'z) classifier_data_scheme"
  assumes "wf_dims s" and "\<forall>l\<in>set slaves. 0 \<le> l \<and> l < int (length (g_core_info s))" and "0 \<le> n_avail"
  shows "\<exists>s'. vf_init slaves n_avail s = Some (SPP_RET_OK, s') \<and> wf_mng s' \<and> wf_ports s' \<and>
    length (g_core_info s') = length (g_core_info s) \<and>
    (\<forall>j<length (g_core_info s). core_buffer.settled (g_core_info s' ! j) \<and>
       status (g_core_info s' ! j) = (if int j \<in> set slaves then SPP_CORE_STOP else SPP_CORE_UNUSE) \<and>
       core (g_core_info s' ! j) = replicate SPP_INFO_AREA_MAX (zero_core_info (length (g_core_info s)))) \<and>
    g_component_info s' = List.map (\<lambda>cnt. (zero_component (length (nic (g_iface_info s))))\<lparr>component_id := int cnt\<rparr>)
      [0..<length (g_component_info s)] \<and>
    (\<forall>j<length (nic (g_iface_info s)).
       iface_type (nic (g_iface_info s') ! j) = (if int j < n_avail then PHY else UNDEF) \<and>
       dpdk_port (nic (g_iface_info s') ! j) = (if int j < n_avail then int j else - 1)) \<and>
    (\<forall>inf\<in>set (g_forward_info s'). path_buffer.settled inf \<and>
       path_buffer.in_use inf = zero_path (length (nic (g_iface_info s)))) \<and>
    (\<forall>mi\<in>set (g_mng_infos s'). mi = zero_mng (length (nic (g_iface_info s)))) \<and>
    g_startup_param s' = g_startup_param s \<and> g_main_lcore_id s' = g_main_lcore_id s"
proof -
  let ?N = "length (nic (g_iface_info s))" and ?n = "length (g_core_info s)"
  define s0 where "s0 = init_iface_info s"
  have s0: "length (g_core_info s0) = ?n" "length (nic (g_iface_info s0)) = ?N"
      "length (vhost (g_iface_info s0)) = ?N" "length (ring (g_iface_info s0)) = ?N"
    using assms(1) by (simp_all add: s0_def init_iface_info_def Let_def wf_dims_def)
  have "\<forall>l\<in>set slaves. 0 \<le> l \<and> l < int (length (g_core_info s0))" using assms(2) s0(1) by simp
  from init_core_info_ok [OF this] obtain cs where
    cs: "init_core_info slaves s0 = Some (s0\<lparr>g_core_info := cs, g_change_core := replicate (length (g_change_core s0)) 0\<rparr>)"
      "length cs = ?n"
    and cj: "\<And>j. j < ?n \<Longrightarrow> cs ! j = (zero_core_mng ?n)\<lparr>status := if int j \<in> set slaves then SPP_CORE_STOP else SPP_CORE_UNUSE,
       ref_index := 0, upd_index := 1\<rparr>"
    using s0(1) by auto
  define s1 where "s1 = init_component_info (s0\<lparr>g_core_info := cs, g_change_core := replicate (length (g_change_core s0)) 0\<rparr>)"
  define s2 where "s2 = snd (set_nic_interface n_avail s1)"
  define s3 where "s3 = spp_port_ability_init (spp_forward_init (snd (spp_classifier_mac_init s2)))"
  have run: "vf_init slaves n_avail s = Some (SPP_RET_OK, s3)"
    using cs(1) by (simp add: vf_init_def init_mng_data_def s0_def [symmetric] s1_def [symmetric] s3_def s2_def
        set_nic_interface_def Let_def spp_classifier_mac_init_def)
  define z where "z = (zero_component ?N)"
  have nicN: "nic (g_iface_info s2) ! j = (if int j < n_avail
      then (init_port j)\<lparr>iface_type := PHY, dpdk_port := int j\<rparr> else init_port j)" if "j < ?N" for j
    using that by (simp add: s2_def set_nic_interface_def Let_def s1_def init_component_info_def s0_def init_iface_info_def)
  have fields: "g_core_info s3 = cs" "g_iface_info s3 = g_iface_info s2"
      "g_component_info s3 = List.map (\<lambda>cnt. z\<lparr>component_id := int cnt\<rparr>) [0..<length (g_component_info s)]"
      "length (g_change_core s3) = length (g_change_core s)" "length (g_change_component s3) = length (g_change_component s)"
      "length (nic (g_iface_info s2)) = ?N" "vhost (g_iface_info s2) = List.map init_port [0..<length (vhost (g_iface_info s))]"
      "ring (g_iface_info s2) = List.map init_port [0..<length (ring (g_iface_info s))]"
    by (simp_all add: s3_def s2_def s1_def s0_def spp_port_ability_init_def spp_forward_init_def spp_classifier_mac_init_def
        set_nic_interface_def init_component_info_def init_iface_info_def Let_def z_def)
  have dims: "length (g_component_info s) = ?n" "length (g_change_core s) = ?n" "length (g_change_component s) = ?n"
      "length (vhost (g_iface_info s)) = ?N" "length (ring (g_iface_info s)) = ?N"
    using assms(1) by (simp_all add: wf_dims_def Let_def)
  have ab: "length (ability (init_port j)) = SPP_PORT_ABILITY_MAX" for j by (simp add: init_port_def zero_port_def)
  have iface: "wf_iface (g_iface_info s3)"
  proof -
    have "length (ability p) = SPP_PORT_ABILITY_MAX" if p: "p \<in> set (nic (g_iface_info s2))" for p
    proof -
      obtain j where "j < ?N" "p = nic (g_iface_info s2) ! j" using p fields(6) by (auto simp: in_set_conv_nth)
      then show ?thesis using nicN ab by simp
    qed
    then show ?thesis using fields dims ab by (auto simp: wf_iface_def)
  qed
  have core: "wf_core ?n (cs ! j) \<and> core_buffer.settled (cs ! j)" if "j < ?n" for j
    using cj [OF that] by (simp add: wf_core_def core_buffer.settled_def zero_core_mng_def wf_core_info_def
        zero_core_info_def other_area_def)
  have comps: "wf_component s3 (int j) (g_component_info s3 ! j)" if "j < ?n" for j
    using that dims fields by (intro wf_zero_component) (simp_all add: z_def zero_component_def)
  have "wf_mng s3"
    unfolding wf_mng_def
  proof (intro conjI)
    show "wf_dims s3" using fields dims cs(2) by (simp add: wf_dims_def)
    show "\<forall>c\<in>set (g_core_info s3). wf_core (length (g_core_info s3)) c"
      using core cs(2) fields(1) by (auto simp: in_set_conv_nth)
    show "\<forall>i<length (g_component_info s3). wf_component s3 (int i) (g_component_info s3 ! i)"
      using comps dims fields(3) by simp
  qed (rule iface)
  moreover have "wf_ports s3"
    by (simp add: s3_def spp_port_ability_init_def wf_ports_def wf_ability_mng_def zero_ability_mng_def Let_def)
  moreover have "\<forall>inf\<in>set (g_forward_info s3). path_buffer.settled inf \<and> path_buffer.in_use inf = zero_path ?N"
    using fields(6) by (simp add: s3_def spp_port_ability_init_def spp_forward_init_def spp_classifier_mac_init_def Let_def
        path_buffer.settled_def path_buffer.in_use_def other_area_def SPP_INFO_AREA_MAX_def)
  moreover have "\<forall>mi\<in>set (g_mng_infos s3). mi = zero_mng ?N"
    using fields(6) by (simp add: s3_def spp_port_ability_init_def spp_forward_init_def spp_classifier_mac_init_def Let_def)
  moreover have "g_component_info s3 = List.map (\<lambda>cnt. (zero_component ?N)\<lparr>component_id := int cnt\<rparr>)
      [0..<length (g_component_info s)]"
    using fields(3) by (simp add: z_def)
  moreover have "g_startup_param s3 = g_startup_param s" "g_main_lcore_id s3 = g_main_lcore_id s"
    by (simp_all add: s3_def s2_def s1_def s0_def spp_port_ability_init_def spp_forward_init_def spp_classifier_mac_init_def
        set_nic_interface_def init_component_info_def init_iface_info_def Let_def)
  moreover have "\<forall>j<?N. iface_type (nic (g_iface_info s3) ! j) = (if int j < n_avail then PHY else UNDEF) \<and>
      dpdk_port (nic (g_iface_info s3) ! j) = (if int j < n_avail then int j else - 1)"
    using nicN fields(2) by (simp add: init_port_def)
  moreover have "\<forall>j<?n. core_buffer.settled (g_core_info s3 ! j) \<and>
      status (g_core_info s3 ! j) = (if int j \<in> set slaves then SPP_CORE_STOP else SPP_CORE_UNUSE) \<and>
      core (g_core_info s3 ! j) = replicate SPP_INFO_AREA_MAX (zero_core_info ?n)"
    using core cj fields(1) by (simp add: zero_core_mng_def)
  moreover have "length (g_core_info s3) = ?n" using cs(2) fields(1) by simp
  ultimately show ?thesis using run by blast
qed

end
