(* ===== verification/Demo_Control.thy ===== *)
theory Demo_Control
  imports Demo Vf_Main
begin

text \<open>
  The witnesses of the theorems about the flush operations, on the states of Demo.
\<close>

section \<open>Flushing\<close>

text \<open>A process with a vhost port that has no device yet, and a change of the second core.\<close>

definition demo_added :: "assoc classifier_data" where
  "demo_added = demo\<lparr>g_iface_info := demo_iface\<lparr>num_vhost := 1,
     vhost := [demo_port VHOST 0 (- 1), demo_port UNDEF 1 (- 1)]\<rparr>\<rparr>"

definition demo_changed :: "assoc classifier_data" where
  "demo_changed = demo\<lparr>g_change_core := [0, 1]\<rparr>"

lemma flush_port_ready_witness:
  "\<exists>s' v'. flush_port demo_ethdev demo_added [] = Some (SPP_RET_OK, s', v') \<and>
    port_usable (vhost (g_iface_info s') ! 0)"
proof -
  obtain r vh v1 where vh: "spp_vf_add_vhost_pmd demo_ethdev 0 0 [] = Some (4, v1)"
    by (simp add: spp_vf_add_vhost_pmd_def demo_ethdev_def attach_and_setup_def dev_attach_by_devargs_def
        setup_port_def strcpy_buf_def vhost_devargs_fits)
  have g: "g_iface_info demo_added = demo_iface\<lparr>num_vhost := 1,
     vhost := [demo_port VHOST 0 (- 1), demo_port UNDEF 1 (- 1)]\<rparr>" "vhost_client (g_startup_param demo_added) = 0"
    by (simp_all add: demo_added_def demo_def demo_manage_def)
  have run: "\<exists>s' v'. flush_port demo_ethdev demo_added [] = Some (SPP_RET_OK, s', v')"
    using vh by (simp add: flush_port_def g demo_iface_def demo_port_def Let_def)
  then obtain s' v' where s': "flush_port demo_ethdev demo_added [] = Some (SPP_RET_OK, s', v')" by blast
  obtain vh' rg where f: "s' = demo_added\<lparr>g_iface_info := (g_iface_info demo_added)\<lparr>vhost := vh', ring := rg\<rparr>\<rparr>"
      "list_all2 port_flushed (vhost (g_iface_info demo_added)) vh'" "\<forall>p\<in>set vh' \<union> set rg. port_usable p"
    using flush_port_ready [OF s'] by blast
  have "length vh' = 2" using f(2) by (auto simp: g dest: list_all2_lengthD)
  then have "vhost (g_iface_info s') ! 0 \<in> set vh'" by (simp add: f(1))
  then show ?thesis using f(3) s' by blast
qed

lemma flush_core_takes_effect_witness:
  "\<exists>sched' cs. flush_core slave_look [0, 1] demo_changed = Some (sched', demo_changed\<lparr>g_core_info := cs\<rparr>) \<and>
    core_buffer.settled (cs ! 1) \<and> cs ! 0 = demo_core"
proof -
  have g: "g_core_info demo_changed = [demo_core, demo_core]" "g_change_core demo_changed = [0, 1]"
    by (simp_all add: demo_changed_def demo_def demo_manage_def)
  have "core_buffer.settled demo_core" "status demo_core = SPP_CORE_FORWARD"
    by (simp_all add: core_buffer.settled_def demo_core_def zero_core_mng_def other_area_def)
  then have h: "length (g_change_core demo_changed) = length (g_core_info demo_changed)"
      "\<forall>c\<in>set (g_core_info demo_changed). core_buffer.settled c"
      "\<forall>e\<in>set [0, 1]. \<exists>j<length (g_core_info demo_changed). e = int j"
      "\<forall>j<length (g_core_info demo_changed). g_change_core demo_changed ! j \<noteq> 0 \<longrightarrow>
        status (g_core_info demo_changed ! j) = SPP_CORE_FORWARD \<and> int j \<in> set [0, 1]"
    by (auto simp: g less_Suc_eq intro: exI [of _ 0] exI [of _ 1])
  from flush_core_takes_effect [OF h] obtain sched' cs where
    r: "flush_core slave_look [0, 1] demo_changed = Some (sched', demo_changed\<lparr>g_core_info := cs\<rparr>)"
      "length cs = length (g_core_info demo_changed)"
    and j: "\<forall>j<length cs. core_buffer.settled (cs ! j) \<and> status (cs ! j) = status (g_core_info demo_changed ! j) \<and>
      (if g_change_core demo_changed ! j \<noteq> 0
       then \<forall>x\<in>set (core (cs ! j)). x = core (g_core_info demo_changed ! j) ! nat (upd_index (g_core_info demo_changed ! j))
       else cs ! j = g_core_info demo_changed ! j)" by blast
  have "core_buffer.settled (cs ! 1) \<and> cs ! 0 = demo_core"
    using r(2) j [rule_format, of 0] j [rule_format, of 1] by (simp add: g)
  then show ?thesis using r(1) by blast
qed

text \<open>The main core is idle.\<close>

lemma flush_core_blocks_witness:
  "flush_core slave_look [0, 1, 0, 1] (demo\<lparr>g_change_core := [1, 0],
     g_core_info := [demo_core\<lparr>status := SPP_CORE_IDLE\<rparr>, demo_core]\<rparr>) = None"
proof -
  let ?s = "demo\<lparr>g_change_core := [1, 0], g_core_info := [demo_core\<lparr>status := SPP_CORE_IDLE\<rparr>, demo_core]\<rparr>"
  have "\<forall>e\<in>set [0, 1, 0, 1]. \<exists>j<length (g_core_info ?s). e = int j"
    by (auto simp: intro: exI [of _ 0] exI [of _ 1])
  then show ?thesis by (intro flush_core_blocks [of _ 0]) simp_all
qed

end
