(* ===== verification/Command_Dec.thy ===== *)
theory Command_Dec
  imports Spp_Proc
begin

text \<open>
  vf/common/command_dec.c: the decoder of the commands that spp-ctl sends.  The union spec of
  struct spp_command is a record with its three members, of which a command only uses the one
  of its type.  A result None is undefined behaviour: a string that does not fit the buffer it
  is copied into, a NULL argument, or a port number outside of the tables.

  The argument m is the process the file is built for (SPP_VF_MODULE or SPP_MIRROR_MODULE).
\<close>

section \<open>Data\<close>

record spp_command =
  sc_type :: spp_command_type
  sc_table :: spp_command_classifier_table
  sc_component :: spp_command_component
  sc_port :: spp_command_port

record spp_command_request =
  num_command :: int
  num_valid_command :: int
  commands :: "spp_command list"
  is_requested_client_id :: int
  is_requested_status :: int
  is_requested_exit :: int

record spp_command_decode_error =
  de_code :: int
  de_value_name :: string
  de_value :: string

primrec decode_error_number :: "spp_command_decode_error_code \<Rightarrow> int" where
  "decode_error_number SPP_CMD_DERR_BAD_FORMAT = 1"
| "decode_error_number SPP_CMD_DERR_UNKNOWN_COMMAND = 2"
| "decode_error_number SPP_CMD_DERR_NO_PARAM = 3"
| "decode_error_number SPP_CMD_DERR_BAD_TYPE = 4"
| "decode_error_number SPP_CMD_DERR_BAD_VALUE = 5"

text \<open>The values that memset leaves.\<close>

definition zero_command :: spp_command where
  "zero_command = \<lparr>sc_type = SPP_CMDTYPE_CLASSIFIER_TABLE_MAC,
     sc_table = \<lparr>ct_action = SPP_CMD_ACTION_NONE, ct_type = SPP_CLASSIFIER_TYPE_NONE, ct_vid = 0,
       ct_mac = [], ct_port = \<lparr>pi_iface_type = PHY, pi_iface_no = 0\<rparr>\<rparr>,
     sc_component = \<lparr>co_action = SPP_CMD_ACTION_NONE, co_name = [], co_core = 0, co_type = SPP_COMPONENT_UNUSE\<rparr>,
     sc_port = \<lparr>po_action = SPP_CMD_ACTION_NONE, po_port = \<lparr>pi_iface_type = PHY, pi_iface_no = 0\<rparr>,
       po_rxtx = SPP_PORT_RXTX_NONE, po_name = [], po_ability = zero_ability\<rparr>\<rparr>"

definition zero_request :: spp_command_request where
  "zero_request = \<lparr>num_command = 0, num_valid_command = 0,
     commands = replicate SPP_CMD_MAX_COMMANDS zero_command,
     is_requested_client_id = 0, is_requested_status = 0, is_requested_exit = 0\<rparr>"

text \<open>The string lists, without their terminations; the position of a string is the number of its
  enumerator.\<close>

definition CLASSIFILER_TYPE_STRINGS :: "(string \<times> spp_classifier_type) list" where
  "CLASSIFILER_TYPE_STRINGS =
    [(''none'', SPP_CLASSIFIER_TYPE_NONE), (''mac'', SPP_CLASSIFIER_TYPE_MAC), (''vlan'', SPP_CLASSIFIER_TYPE_VLAN)]"

definition COMMAND_ACTION_STRINGS :: "(string \<times> spp_command_action) list" where
  "COMMAND_ACTION_STRINGS =
    [(''none'', SPP_CMD_ACTION_NONE), (''start'', SPP_CMD_ACTION_START), (''stop'', SPP_CMD_ACTION_STOP),
     (''add'', SPP_CMD_ACTION_ADD), (''del'', SPP_CMD_ACTION_DEL)]"

definition PORT_RXTX_STRINGS :: "(string \<times> spp_port_rxtx) list" where
  "PORT_RXTX_STRINGS =
    [(''none'', SPP_PORT_RXTX_NONE), (''rx'', SPP_PORT_RXTX_RX), (''tx'', SPP_PORT_RXTX_TX)]"

definition PORT_ABILITY_STRINGS :: "(string \<times> spp_port_ability_ope) list" where
  "PORT_ABILITY_STRINGS =
    [(''none'', SPP_PORT_ABILITY_OPE_NONE), (''add_vlantag'', SPP_PORT_ABILITY_OPE_ADD_VLANTAG),
     (''del_vlantag'', SPP_PORT_ABILITY_OPE_DEL_VLANTAG)]"

section \<open>Checks against the management data\<close>

definition spp_check_classid_used_port ::
  "'z manage_data_scheme \<Rightarrow> int \<Rightarrow> 64 word \<Rightarrow> port_type \<Rightarrow> int \<Rightarrow> bool option" where
  "spp_check_classid_used_port s v mac t no = do {
     port_info \<leftarrow> load_port s (get_iface_info t no);
     Some (mac = mac_addr (class_id port_info) \<and> v = vid (vlantag (class_id port_info)))
   }"

definition spp_check_added_port :: "'z manage_data_scheme \<Rightarrow> port_type \<Rightarrow> int \<Rightarrow> bool option" where
  "spp_check_added_port s t no = do {
     port \<leftarrow> load_port s (get_iface_info t no);
     Some (iface_type port \<noteq> UNDEF)
   }"

section \<open>Values\<close>

text \<open>The interface of a port string; None when the code returns SPP_RET_NG.\<close>

definition spp_convert_port_to_iface :: "string \<Rightarrow> spp_port_index option" where
  "spp_convert_port_to_iface port = do {
     (type, no_str) \<leftarrow>
       (if starts_with port ''phy:'' then Some (PHY, drop 4 port)
        else if starts_with port ''vhost:'' then Some (VHOST, drop 6 port)
        else if starts_with port ''ring:'' then Some (RING, drop 5 port)
        else None);
     let (v, rest) = strtol 0 no_str;
     if length rest = length no_str \<or> rest \<noteq> [] then None
     else Some \<lparr>pi_iface_type = type, pi_iface_no = to_int32 v\<rparr>
   }"

definition spp_convert_component_type :: "secondary_type \<Rightarrow> string \<Rightarrow> spp_component_type" where
  "spp_convert_component_type m type_str =
    (if m = SECONDARY_TYPE_VF \<and> type_str = ''classifier_mac'' then SPP_COMPONENT_CLASSIFIER_MAC
     else if m = SECONDARY_TYPE_VF \<and> type_str = ''merge'' then SPP_COMPONENT_MERGE
     else if m = SECONDARY_TYPE_VF \<and> type_str = ''forward'' then SPP_COMPONENT_FORWARD
     else if m = SECONDARY_TYPE_MIRROR \<and> type_str = ''mirror'' then SPP_COMPONENT_MIRROR
     else SPP_COMPONENT_UNUSE)"

text \<open>An error without a name (NULL) leaves the name as it is.\<close>

definition set_decode_error ::
  "spp_command_decode_error_code \<Rightarrow> string option \<Rightarrow> spp_command_decode_error \<Rightarrow>
   (int \<times> spp_command_decode_error) option" where
  "set_decode_error code nm err = do {
     let err1 = err\<lparr>de_code := decode_error_number code\<rparr>;
     err2 \<leftarrow> (case nm of None \<Rightarrow> Some err1
        | Some x \<Rightarrow> map_option (\<lambda>v. err1\<lparr>de_value_name := v\<rparr>) (strcpy_buf SPP_CMD_NAME_BUFSZ x));
     Some (de_code err2, err2)
   }"

definition set_string_value_decode_error ::
  "string \<Rightarrow> string \<Rightarrow> spp_command_decode_error \<Rightarrow> (int \<times> spp_command_decode_error) option" where
  "set_string_value_decode_error value nm err = do {
     v \<leftarrow> strcpy_buf SPP_CMD_VALUE_BUFSZ value;
     set_decode_error SPP_CMD_DERR_BAD_VALUE (Some nm) (err\<lparr>de_value := v\<rparr>)
   }"

text \<open>The arguments between the spaces; None when there are more than mx.\<close>

definition decode_parameter_value :: "string \<Rightarrow> nat \<Rightarrow> string list option" where
  "decode_parameter_value str mx =
    (let argv = tokens (\<lambda>c. c = CHR '' '') str in if length argv > mx then None else Some argv)"

definition get_arrary_index :: "string \<Rightarrow> (string \<times> 'e) list \<Rightarrow> int" where
  "get_arrary_index match lst =
    (case first_index (\<lambda>(x, _). x = match) lst of Some i \<Rightarrow> int i | None \<Rightarrow> SPP_RET_NG)"

definition enum_at :: "(string \<times> 'e) list \<Rightarrow> int \<Rightarrow> 'e option" where
  "enum_at lst i = map_option snd (rd lst i)"

definition get_int_value :: "string \<Rightarrow> int \<Rightarrow> int \<Rightarrow> int option" where
  "get_int_value arg_val mn mx =
    (let (v, rest) = strtol 0 arg_val; ret = to_int32 v in
     if length rest = length arg_val \<or> rest \<noteq> [] then None
     else if ret < mn \<or> ret > mx then None
     else Some ret)"

definition get_uint_value :: "string \<Rightarrow> int \<Rightarrow> int \<Rightarrow> int option" where
  "get_uint_value arg_val mn mx =
    (let (v, rest) = strtoul 0 arg_val; ret = v mod 2 ^ 32 in
     if length rest = length arg_val \<or> rest \<noteq> [] then None
     else if ret < mn \<or> ret > mx then None
     else Some ret)"

text \<open>The string is checked against the size of a value, but copied into a buffer of sz bytes.\<close>

definition decode_str_value :: "nat \<Rightarrow> string \<Rightarrow> (int \<times> string) option" where
  "decode_str_value sz arg_val =
    (if length arg_val \<ge> SPP_CMD_VALUE_BUFSZ then Some (SPP_RET_NG, [])
     else do { v \<leftarrow> strcpy_buf sz arg_val; Some (SPP_RET_OK, v) })"

definition decode_port_value :: "string \<Rightarrow> spp_port_index option" where
  "decode_port_value arg_val = spp_convert_port_to_iface arg_val"

definition decode_core_value :: "nat \<Rightarrow> string \<Rightarrow> int option" where
  "decode_core_value n_lcore arg_val = get_uint_value arg_val 0 (int n_lcore - 1)"

section \<open>Parameters\<close>

text \<open>Each decoding procedure gets the command decoded so far and returns SPP_RET_OK and the command
  with its value, or SPP_RET_NG.  The last argument is allow_override.\<close>

definition action_value ::
  "spp_command_action set \<Rightarrow> string \<Rightarrow> spp_command_action option" where
  "action_value allowed arg_val =
    (let ret = get_arrary_index arg_val COMMAND_ACTION_STRINGS in
     if ret \<le> 0 then None
     else do {
       a \<leftarrow> enum_at COMMAND_ACTION_STRINGS ret;
       if a \<notin> allowed then None else Some a
     })"

definition decode_component_action_value ::
  "spp_command \<Rightarrow> string \<Rightarrow> int \<Rightarrow> (int \<times> spp_command) option" where
  "decode_component_action_value c arg_val ov =
    (case action_value {SPP_CMD_ACTION_START, SPP_CMD_ACTION_STOP} arg_val of
       None \<Rightarrow> Some (SPP_RET_NG, c)
     | Some a \<Rightarrow> Some (SPP_RET_OK, c\<lparr>sc_component := (sc_component c)\<lparr>co_action := a\<rparr>\<rparr>))"

definition decode_component_name_value ::
  "'z manage_data_scheme \<Rightarrow> spp_command \<Rightarrow> string \<Rightarrow> int \<Rightarrow> (int \<times> spp_command) option" where
  "decode_component_name_value s c arg_val ov =
    (if co_action (sc_component c) = SPP_CMD_ACTION_START \<and> spp_get_component_id s arg_val \<ge> 0
     then Some (SPP_RET_NG, c)
     else do {
       (ret, v) \<leftarrow> decode_str_value SPP_CMD_NAME_BUFSZ arg_val;
       if ret < 0 then Some (SPP_RET_NG, c)
       else Some (SPP_RET_OK, c\<lparr>sc_component := (sc_component c)\<lparr>co_name := v\<rparr>\<rparr>)
     })"

definition decode_component_core_value ::
  "'z manage_data_scheme \<Rightarrow> spp_command \<Rightarrow> string \<Rightarrow> int \<Rightarrow> (int \<times> spp_command) option" where
  "decode_component_core_value s c arg_val ov =
    (if co_action (sc_component c) \<noteq> SPP_CMD_ACTION_START then Some (SPP_RET_OK, c)
     else case decode_core_value (length (g_core_info s)) arg_val of
       None \<Rightarrow> Some (SPP_RET_NG, c)
     | Some v \<Rightarrow> Some (SPP_RET_OK, c\<lparr>sc_component := (sc_component c)\<lparr>co_core := v\<rparr>\<rparr>))"

definition decode_component_type_value ::
  "secondary_type \<Rightarrow> spp_command \<Rightarrow> string \<Rightarrow> int \<Rightarrow> (int \<times> spp_command) option" where
  "decode_component_type_value m c arg_val ov =
    (if co_action (sc_component c) \<noteq> SPP_CMD_ACTION_START then Some (SPP_RET_OK, c)
     else let t = spp_convert_component_type m arg_val in
       if component_type_code t \<le> 0 then Some (SPP_RET_NG, c)
       else Some (SPP_RET_OK, c\<lparr>sc_component := (sc_component c)\<lparr>co_type := t\<rparr>\<rparr>))"

definition decode_port_action_value ::
  "spp_command \<Rightarrow> string \<Rightarrow> int \<Rightarrow> (int \<times> spp_command) option" where
  "decode_port_action_value c arg_val ov =
    (case action_value {SPP_CMD_ACTION_ADD, SPP_CMD_ACTION_DEL} arg_val of
       None \<Rightarrow> Some (SPP_RET_NG, c)
     | Some a \<Rightarrow> Some (SPP_RET_OK, c\<lparr>sc_port := (sc_port c)\<lparr>po_action := a\<rparr>\<rparr>))"

definition decode_port_port_value ::
  "'z manage_data_scheme \<Rightarrow> spp_command \<Rightarrow> string \<Rightarrow> int \<Rightarrow> (int \<times> spp_command) option" where
  "decode_port_port_value s c arg_val ov =
    (case decode_port_value arg_val of
       None \<Rightarrow> Some (SPP_RET_NG, c)
     | Some p \<Rightarrow> do {
         in_use \<leftarrow> (if ov = 0 \<and> po_action (sc_port c) = SPP_CMD_ACTION_ADD
           then do {
             used_rx \<leftarrow> spp_check_used_port s (pi_iface_type p) (pi_iface_no p) SPP_PORT_RXTX_RX;
             if used_rx \<ge> 0
             then do {
               used_tx \<leftarrow> spp_check_used_port s (pi_iface_type p) (pi_iface_no p) SPP_PORT_RXTX_TX;
               Some (used_tx \<ge> 0)
             }
             else Some False
           }
           else Some False);
         if in_use then Some (SPP_RET_NG, c)
         else Some (SPP_RET_OK, c\<lparr>sc_port := (sc_port c)\<lparr>po_port := p\<rparr>\<rparr>)
       })"

definition decode_port_rxtx_value ::
  "'z manage_data_scheme \<Rightarrow> spp_command \<Rightarrow> string \<Rightarrow> int \<Rightarrow> (int \<times> spp_command) option" where
  "decode_port_rxtx_value s c arg_val ov =
    (let ret = get_arrary_index arg_val PORT_RXTX_STRINGS in
     if ret \<le> 0 then Some (SPP_RET_NG, c)
     else do {
       d \<leftarrow> enum_at PORT_RXTX_STRINGS ret;
       in_use \<leftarrow> (if ov = 0 \<and> po_action (sc_port c) = SPP_CMD_ACTION_ADD
         then do {
           used \<leftarrow> spp_check_used_port s (pi_iface_type (po_port (sc_port c)))
                     (pi_iface_no (po_port (sc_port c))) d;
           Some (used \<ge> 0)
         }
         else Some False);
       if in_use then Some (SPP_RET_NG, c)
       else Some (SPP_RET_OK, c\<lparr>sc_port := (sc_port c)\<lparr>po_rxtx := d\<rparr>\<rparr>)
     })"

definition decode_port_name_value ::
  "'z manage_data_scheme \<Rightarrow> spp_command \<Rightarrow> string \<Rightarrow> int \<Rightarrow> (int \<times> spp_command) option" where
  "decode_port_name_value s c arg_val ov =
    (if spp_get_component_id s arg_val < SPP_RET_OK then Some (SPP_RET_NG, c)
     else do {
       (ret, v) \<leftarrow> decode_str_value SPP_CMD_NAME_BUFSZ arg_val;
       if ret < 0 then Some (SPP_RET_NG, c)
       else Some (SPP_RET_OK, c\<lparr>sc_port := (sc_port c)\<lparr>po_name := v\<rparr>\<rparr>)
     })"

definition decode_port_vlan_operation ::
  "spp_command \<Rightarrow> string \<Rightarrow> int \<Rightarrow> (int \<times> spp_command) option" where
  "decode_port_vlan_operation c arg_val ov =
    (let ab = po_ability (sc_port c) in
     if ope ab = SPP_PORT_ABILITY_OPE_NONE
     then let ret = get_arrary_index arg_val PORT_ABILITY_STRINGS in
       if ret \<le> 0 then Some (SPP_RET_NG, c)
       else do {
         op \<leftarrow> enum_at PORT_ABILITY_STRINGS ret;
         Some (SPP_RET_OK, c\<lparr>sc_port := (sc_port c)\<lparr>po_ability := ab\<lparr>ope := op, rxtx := po_rxtx (sc_port c)\<rparr>\<rparr>\<rparr>)
       }
     else Some (SPP_RET_OK, c))"

definition decode_port_vid ::
  "spp_command \<Rightarrow> string \<Rightarrow> int \<Rightarrow> (int \<times> spp_command) option" where
  "decode_port_vid c arg_val ov =
    (let ab = po_ability (sc_port c) in
     if ope ab = SPP_PORT_ABILITY_OPE_ADD_VLANTAG
     then case get_int_value arg_val 0 ETH_VLAN_ID_MAX of
         None \<Rightarrow> Some (SPP_RET_NG, c)
       | Some v \<Rightarrow> Some (SPP_RET_OK, c\<lparr>sc_port := (sc_port c)\<lparr>po_ability :=
           ab\<lparr>data := (data ab)\<lparr>vid := v, pcp := - 1\<rparr>\<rparr>\<rparr>\<rparr>)
     else Some (SPP_RET_OK, c))"

definition decode_port_pcp ::
  "spp_command \<Rightarrow> string \<Rightarrow> int \<Rightarrow> (int \<times> spp_command) option" where
  "decode_port_pcp c arg_val ov =
    (let ab = po_ability (sc_port c) in
     if ope ab = SPP_PORT_ABILITY_OPE_ADD_VLANTAG
     then case get_int_value arg_val 0 SPP_VLAN_PCP_MAX of
         None \<Rightarrow> Some (SPP_RET_NG, c)
       | Some v \<Rightarrow> Some (SPP_RET_OK, c\<lparr>sc_port := (sc_port c)\<lparr>po_ability :=
           ab\<lparr>data := (data ab)\<lparr>pcp := v\<rparr>\<rparr>\<rparr>\<rparr>)
     else Some (SPP_RET_OK, c))"

definition decode_mac_addr_str_value ::
  "spp_command \<Rightarrow> string \<Rightarrow> int \<Rightarrow> (int \<times> spp_command) option" where
  "decode_mac_addr_str_value c arg_val ov =
    (let str_val = (if arg_val = SPP_DEFAULT_CLASSIFIED_SPEC_STR
        then SPP_DEFAULT_CLASSIFIED_DMY_ADDR_STR else arg_val) in do {
     ret \<leftarrow> spp_change_mac_str_to_int64 str_val;
     if ret < SPP_RET_OK then Some (SPP_RET_NG, c)
     else do {
       v \<leftarrow> strcpy_buf SPP_CMD_VALUE_BUFSZ str_val;
       Some (SPP_RET_OK, c\<lparr>sc_table := (sc_table c)\<lparr>ct_mac := v\<rparr>\<rparr>)
     }
   })"

definition decode_classifier_action_value ::
  "spp_command \<Rightarrow> string \<Rightarrow> int \<Rightarrow> (int \<times> spp_command) option" where
  "decode_classifier_action_value c arg_val ov =
    (case action_value {SPP_CMD_ACTION_ADD, SPP_CMD_ACTION_DEL} arg_val of
       None \<Rightarrow> Some (SPP_RET_NG, c)
     | Some a \<Rightarrow> Some (SPP_RET_OK, c\<lparr>sc_table := (sc_table c)\<lparr>ct_action := a\<rparr>\<rparr>))"

definition decode_classifier_type_value ::
  "spp_command \<Rightarrow> string \<Rightarrow> int \<Rightarrow> (int \<times> spp_command) option" where
  "decode_classifier_type_value c arg_val ov =
    (let ret = get_arrary_index arg_val CLASSIFILER_TYPE_STRINGS in
     if ret \<le> 0 then Some (SPP_RET_NG, c)
     else do {
       t \<leftarrow> enum_at CLASSIFILER_TYPE_STRINGS ret;
       Some (SPP_RET_OK, c\<lparr>sc_table := (sc_table c)\<lparr>ct_type := t\<rparr>\<rparr>)
     })"

definition decode_classifier_vid_value ::
  "spp_command \<Rightarrow> string \<Rightarrow> int \<Rightarrow> (int \<times> spp_command) option" where
  "decode_classifier_vid_value c arg_val ov =
    (case get_int_value arg_val 0 ETH_VLAN_ID_MAX of
       None \<Rightarrow> Some (SPP_RET_NG, c)
     | Some v \<Rightarrow> Some (SPP_RET_OK, c\<lparr>sc_table := (sc_table c)\<lparr>ct_vid := v\<rparr>\<rparr>))"

text \<open>The vid is set before the checks, so it stays when they fail.\<close>

definition decode_classifier_port_value ::
  "'z manage_data_scheme \<Rightarrow> spp_command \<Rightarrow> string \<Rightarrow> int \<Rightarrow> (int \<times> spp_command) option" where
  "decode_classifier_port_value s c arg_val ov =
    (case decode_port_value arg_val of
       None \<Rightarrow> Some (SPP_RET_NG, c)
     | Some p \<Rightarrow> do {
         added \<leftarrow> spp_check_added_port s (pi_iface_type p) (pi_iface_no p);
         if \<not> added then Some (SPP_RET_NG, c)
         else do {
           let t0 = sc_table c;
           let t = (if ct_type t0 = SPP_CLASSIFIER_TYPE_MAC then t0\<lparr>ct_vid := ETH_VLAN_ID_MAX\<rparr> else t0);
           let c1 = c\<lparr>sc_table := t\<rparr>;
           ok \<leftarrow> (if ct_action t = SPP_CMD_ACTION_ADD
             then spp_check_classid_used_port s ETH_VLAN_ID_MAX 0 (pi_iface_type p) (pi_iface_no p)
             else if ct_action t = SPP_CMD_ACTION_DEL
             then do {
               mac \<leftarrow> spp_change_mac_str_to_int64 (ct_mac t);
               if mac < 0 then Some False
               else spp_check_classid_used_port s (ct_vid t) (word_of_int mac) (pi_iface_type p) (pi_iface_no p)
             }
             else Some True);
           if \<not> ok then Some (SPP_RET_NG, c1)
           else Some (SPP_RET_OK, c1\<lparr>sc_table := t\<lparr>ct_port := p\<rparr>\<rparr>)
         }
       })"

section \<open>Requests\<close>

type_synonym decode_func = "spp_command \<Rightarrow> string \<Rightarrow> int \<Rightarrow> (int \<times> spp_command) option"

primrec parameter_list ::
  "spp_command_type \<Rightarrow> secondary_type \<Rightarrow> 'z manage_data_scheme \<Rightarrow> (string \<times> decode_func) list" where
  "parameter_list SPP_CMDTYPE_CLASSIFIER_TABLE_MAC m s =
    [(''action'', decode_classifier_action_value), (''type'', decode_classifier_type_value),
     (''mac address'', decode_mac_addr_str_value), (''port'', decode_classifier_port_value s)]"
| "parameter_list SPP_CMDTYPE_CLASSIFIER_TABLE_VLAN m s =
    [(''action'', decode_classifier_action_value), (''type'', decode_classifier_type_value),
     (''vlan id'', decode_classifier_vid_value), (''mac address'', decode_mac_addr_str_value),
     (''port'', decode_classifier_port_value s)]"
| "parameter_list SPP_CMDTYPE_CLIENT_ID m s = []"
| "parameter_list SPP_CMDTYPE_STATUS m s = []"
| "parameter_list SPP_CMDTYPE_EXIT m s = []"
| "parameter_list SPP_CMDTYPE_COMPONENT m s =
    [(''action'', decode_component_action_value), (''component name'', decode_component_name_value s),
     (''core'', decode_component_core_value s), (''component type'', decode_component_type_value m)]"
| "parameter_list SPP_CMDTYPE_PORT m s =
    [(''action'', decode_port_action_value), (''port'', decode_port_port_value s),
     (''port rxtx'', decode_port_rxtx_value s), (''component name'', decode_port_name_value s),
     (''port vlan operation'', decode_port_vlan_operation), (''port vid'', decode_port_vid),
     (''port pcp'', decode_port_pcp)]"

text \<open>The loop over the parameters; it needs an entry of the list for each argument.\<close>

fun decode_parameters ::
  "(string \<times> decode_func) list \<Rightarrow> string list \<Rightarrow> int \<Rightarrow> spp_command \<Rightarrow> spp_command_decode_error \<Rightarrow>
   (int \<times> spp_command \<times> spp_command_decode_error) option" where
  "decode_parameters lst [] flag c err = Some (SPP_RET_OK, c, err)"
| "decode_parameters [] (arg # args) flag c err = None"
| "decode_parameters ((nm, f) # lst) (arg # args) flag c err = do {
     (ret, c1) \<leftarrow> f c arg flag;
     if ret < 0
     then do {
       (code, err1) \<leftarrow> set_string_value_decode_error arg nm err;
       Some (code, c1, err1)
     }
     else decode_parameters lst args flag c1 err
   }"

text \<open>The three handlers of the command list differ in the flag: only the port command with all
  its parameters may override.\<close>

definition decode_command_parameter ::
  "secondary_type \<Rightarrow> 'z manage_data_scheme \<Rightarrow> spp_command_type \<Rightarrow> string list \<Rightarrow> nat \<Rightarrow>
   spp_command \<Rightarrow> spp_command_decode_error \<Rightarrow> (int \<times> spp_command \<times> spp_command_decode_error) option" where
  "decode_command_parameter m s ty argv maxargc c err =
    decode_parameters (parameter_list ty m s) (tl argv)
      (if ty = SPP_CMDTYPE_PORT \<and> length argv = maxargc then 1 else 0) c err"

definition command_list :: "(string \<times> nat \<times> nat \<times> spp_command_type) list" where
  "command_list =
    [(''classifier_table'', 5, 5, SPP_CMDTYPE_CLASSIFIER_TABLE_MAC),
     (''classifier_table'', 6, 6, SPP_CMDTYPE_CLASSIFIER_TABLE_VLAN),
     (''_get_client_id'', 1, 1, SPP_CMDTYPE_CLIENT_ID),
     (''status'', 1, 1, SPP_CMDTYPE_STATUS),
     (''exit'', 1, 1, SPP_CMDTYPE_EXIT),
     (''component'', 3, 5, SPP_CMDTYPE_COMPONENT),
     (''port'', 5, 8, SPP_CMDTYPE_PORT)]"

text \<open>The search of the list: the first entry with the name and a fitting number of arguments,
  and otherwise whether the name was there.\<close>

fun find_command ::
  "(string \<times> nat \<times> nat \<times> spp_command_type) list \<Rightarrow> string \<Rightarrow> nat \<Rightarrow> bool \<Rightarrow>
   bool + (spp_command_type \<times> nat)" where
  "find_command [] nm argc seen = Inl seen"
| "find_command ((x, mn, mx, ty) # lst) nm argc seen =
    (if nm \<noteq> x then find_command lst nm argc seen
     else if argc < mn \<or> mx < argc then find_command lst nm argc True
     else Inr (ty, mx))"

definition set_command0 :: "spp_command \<Rightarrow> spp_command_request \<Rightarrow> spp_command_request" where
  "set_command0 c req = req\<lparr>commands := (commands req)[0 := c]\<rparr>"

definition decode_command_in_list ::
  "secondary_type \<Rightarrow> 'z manage_data_scheme \<Rightarrow> spp_command_request \<Rightarrow> string \<Rightarrow> spp_command_decode_error \<Rightarrow>
   (int \<times> spp_command_request \<times> spp_command_decode_error) option" where
  "decode_command_in_list m s req request_str err = do {
     tmp_str \<leftarrow> strcpy_buf (SPP_CMD_MAX_PARAMETERS * SPP_CMD_VALUE_BUFSZ) request_str;
     case decode_parameter_value tmp_str SPP_CMD_MAX_PARAMETERS of
       None \<Rightarrow> do {
         (code, err1) \<leftarrow> set_decode_error SPP_CMD_DERR_BAD_FORMAT None err;
         Some (code, req, err1)
       }
     | Some [] \<Rightarrow> None
     | Some (nm # args) \<Rightarrow>
         (case find_command command_list nm (Suc (length args)) False of
            Inr (ty, mx) \<Rightarrow> do {
              c0 \<leftarrow> rd (commands req) 0;
              (code, c1, err1) \<leftarrow> decode_command_parameter m s ty (nm # args) mx (c0\<lparr>sc_type := ty\<rparr>) err;
              Some (code, set_command0 c1 req, err1)
            }
          | Inl True \<Rightarrow> do {
              (code, err1) \<leftarrow> set_decode_error SPP_CMD_DERR_BAD_FORMAT None err;
              Some (code, req, err1)
            }
          | Inl False \<Rightarrow> do {
              (code, err1) \<leftarrow> set_string_value_decode_error nm ''command'' err;
              Some (code, req, err1)
            })
   }"

definition spp_command_decode_request ::
  "secondary_type \<Rightarrow> 'z manage_data_scheme \<Rightarrow> spp_command_request \<Rightarrow> string \<Rightarrow> spp_command_decode_error \<Rightarrow>
   (int \<times> spp_command_request \<times> spp_command_decode_error) option" where
  "spp_command_decode_request m s req request_str err = do {
     (ret, req1, err1) \<leftarrow> decode_command_in_list m s (req\<lparr>num_command := 1\<rparr>) request_str err;
     if ret \<noteq> SPP_RET_OK then Some (ret, req1, err1)
     else do {
       c \<leftarrow> rd (commands req1) 0;
       let req2 = req1\<lparr>num_valid_command := 1\<rparr>;
       Some (ret, (case sc_type c of
           SPP_CMDTYPE_CLIENT_ID \<Rightarrow> req2\<lparr>is_requested_client_id := 1\<rparr>
         | SPP_CMDTYPE_STATUS \<Rightarrow> req2\<lparr>is_requested_status := 1\<rparr>
         | SPP_CMDTYPE_EXIT \<Rightarrow> req2\<lparr>is_requested_exit := 1\<rparr>
         | _ \<Rightarrow> req2), err1)
     }
   }"

end
