(* ===== verification/Command_Proc.thy ===== *)
theory Command_Proc
  imports Spp_Flush Command_Dec
begin

text \<open>
  vf/common/command_proc.c, in the build of spp_vf: the update of the management data for each
  command, the flush that publishes it to the workers, the iteration for the status command,
  and the processing of a request line.  The responses are kept as the values that the JSON
  writers get.

  As in Spp_Flush, E are the device services, env is what another thread does in one step
  and sched the steps that are taken while the command thread waits.
\<close>

section \<open>Queries\<close>

definition spp_get_client_id :: "'z manage_data_scheme \<Rightarrow> int" where
  "spp_get_client_id s = client_id (g_startup_param s)"

definition spp_get_process_type :: "'z manage_data_scheme \<Rightarrow> secondary_type" where
  "spp_get_process_type s = secondary_type (g_startup_param s)"

definition spp_check_flush_port :: "'z manage_data_scheme \<Rightarrow> port_type \<Rightarrow> int \<Rightarrow> bool option" where
  "spp_check_flush_port s t no = do {
     port \<leftarrow> load_port s (get_iface_info t no);
     Some (dpdk_port port \<ge> 0)
   }"

definition spp_get_dpdk_port :: "'z manage_data_scheme \<Rightarrow> port_type \<Rightarrow> int \<Rightarrow> int option" where
  "spp_get_dpdk_port s t no =
    (case t of
       PHY \<Rightarrow> map_option dpdk_port (rd (nic (g_iface_info s)) no)
     | RING \<Rightarrow> map_option dpdk_port (rd (ring (g_iface_info s)) no)
     | VHOST \<Rightarrow> map_option dpdk_port (rd (vhost (g_iface_info s)) no)
     | _ \<Rightarrow> Some SPP_RET_NG)"

section \<open>The classifier table\<close>

definition clear_class_id :: "spp_port_class_identifier \<Rightarrow> spp_port_class_identifier" where
  "clear_class_id c =
    c\<lparr>vlantag := (vlantag c)\<lparr>vid := ETH_VLAN_ID_MAX\<rparr>, mac_addr := 0, mac_addr_str := []\<rparr>"

definition spp_update_classifier_table ::
  "spp_command_action \<Rightarrow> int \<Rightarrow> string \<Rightarrow> spp_port_index \<Rightarrow> 'z manage_data_scheme \<Rightarrow>
   (int \<times> 'z manage_data_scheme) option" where
  "spp_update_classifier_table action v mac_str port s = do {
     ret_mac \<leftarrow> spp_change_mac_str_to_int64 mac_str;
     if ret_mac = - 1 then Some (SPP_RET_NG, s)
     else do {
       let mac = word_of_int ret_mac;
       let p = get_iface_info (pi_iface_type port) (pi_iface_no port);
       if p = None then Some (SPP_RET_NG, s)
       else do {
         port_info \<leftarrow> load_port s p;
         let c = class_id port_info;
         if iface_type port_info = UNDEF then Some (SPP_RET_NG, s)
         else if action = SPP_CMD_ACTION_DEL then
           (if vid (vlantag c) \<noteq> 0 \<and> vid (vlantag c) \<noteq> v then Some (SPP_RET_NG, s)
            else if mac_addr c \<noteq> 0 \<and> mac_addr c \<noteq> mac then Some (SPP_RET_NG, s)
            else do {
              s1 \<leftarrow> store_port p (port_info\<lparr>class_id := clear_class_id c\<rparr>) s;
              s2 \<leftarrow> set_component_change_port p SPP_PORT_RXTX_TX s1;
              Some (SPP_RET_OK, s2)
            })
         else if action = SPP_CMD_ACTION_ADD then
           (if vid (vlantag c) \<noteq> ETH_VLAN_ID_MAX then Some (SPP_RET_NG, s)
            else if mac_addr c \<noteq> 0 then Some (SPP_RET_NG, s)
            else do {
              str \<leftarrow> strcpy_buf SPP_MIN_STR_LEN mac_str;
              s1 \<leftarrow> store_port p (port_info\<lparr>class_id := c\<lparr>vlantag := (vlantag c)\<lparr>vid := v\<rparr>,
                       mac_addr := mac, mac_addr_str := str\<rparr>\<rparr>) s;
              s2 \<leftarrow> set_component_change_port p SPP_PORT_RXTX_TX s1;
              Some (SPP_RET_OK, s2)
            })
         else do {
           s2 \<leftarrow> set_component_change_port p SPP_PORT_RXTX_TX s;
           Some (SPP_RET_OK, s2)
         }
       }
     }
   }"

section \<open>Components\<close>

text \<open>The last step of spp_update_component.\<close>

definition mark_change_core :: "int \<Rightarrow> 'z manage_data_scheme \<Rightarrow> 'z manage_data_scheme option" where
  "mark_change_core lcore s = do {
     ch \<leftarrow> wr (g_change_core s) lcore 1;
     Some (s\<lparr>g_change_core := ch\<rparr>)
   }"

text \<open>Storing the update area of a core.\<close>

definition put_upd_core :: "int \<Rightarrow> core_info \<Rightarrow> 'z manage_data_scheme \<Rightarrow> 'z manage_data_scheme option" where
  "put_upd_core lcore k s = do {
     info \<leftarrow> rd (g_core_info s) lcore;
     cs \<leftarrow> wr (core info) (upd_index info) k;
     ci \<leftarrow> wr (g_core_info s) lcore (info\<lparr>core := cs\<rparr>);
     Some (s\<lparr>g_core_info := ci\<rparr>)
   }"

definition start_component ::
  "string \<Rightarrow> int \<Rightarrow> spp_component_type \<Rightarrow> 'z manage_data_scheme \<Rightarrow> (int \<times> 'z manage_data_scheme) option" where
  "start_component nm lcore ty s = do {
     info \<leftarrow> rd (g_core_info s) lcore;
     if status info = SPP_CORE_UNUSE then Some (SPP_RET_NG, s)
     else if spp_get_component_id s nm \<ge> 0 then Some (SPP_RET_NG, s)
     else do {
       let i = get_free_component s;
       if i < 0 then Some (SPP_RET_NG, s)
       else do {
         k \<leftarrow> rd (core info) (upd_index info);
         v \<leftarrow> strcpy_buf SPP_NAME_STR_LEN nm;
         comps \<leftarrow> wr (g_component_info s) i
           ((zero_component (length (nic (g_iface_info s))))
              \<lparr>name := v, comp_type := ty, lcore_id := lcore, component_id := i\<rparr>);
         ids \<leftarrow> wr (core_ids k) (num k) i;
         s1 \<leftarrow> put_upd_core lcore (k\<lparr>core_ids := ids, num := num k + 1\<rparr>) (s\<lparr>g_component_info := comps\<rparr>);
         s2 \<leftarrow> mark_change_component i s1;
         s3 \<leftarrow> mark_change_core lcore s2;
         Some (SPP_RET_OK, s3)
       }
     }
   }"

text \<open>The component is cleared before its type is tested.\<close>

definition stop_component ::
  "string \<Rightarrow> ('h, 'z) classifier_data_scheme \<Rightarrow> (int \<times> ('h, 'z) classifier_data_scheme) option" where
  "stop_component nm s = do {
     let i = spp_get_component_id s nm;
     if i < 0 then Some (SPP_RET_OK, s)
     else do {
       c \<leftarrow> rd (g_component_info s) i;
       comps \<leftarrow> wr (g_component_info s) i (zero_component (length (nic (g_iface_info s))));
       let s1 = s\<lparr>g_component_info := comps\<rparr>;
       info \<leftarrow> rd (g_core_info s1) (lcore_id c);
       k \<leftarrow> rd (core info) (upd_index info);
       c1 \<leftarrow> rd (g_component_info s1) i;
       s2 \<leftarrow> (if comp_type c1 = SPP_COMPONENT_CLASSIFIER_MAC then init_classifier_info i s1 else Some s1);
       (ret_del, ids) \<leftarrow> del_component_info i (num k) (core_ids k);
       s3 \<leftarrow> put_upd_core (lcore_id c)
         (k\<lparr>core_ids := ids, num := if ret_del \<ge> 0 then num k - 1 else num k\<rparr>) s2;
       ch \<leftarrow> wr (g_change_component s3) i 0;
       s4 \<leftarrow> mark_change_core (lcore_id c) (s3\<lparr>g_change_component := ch\<rparr>);
       Some (SPP_RET_OK, s4)
     }
   }"

definition spp_update_component ::
  "spp_command_action \<Rightarrow> string \<Rightarrow> int \<Rightarrow> spp_component_type \<Rightarrow> ('h, 'z) classifier_data_scheme \<Rightarrow>
   (int \<times> ('h, 'z) classifier_data_scheme) option" where
  "spp_update_component action nm lcore ty s =
    (case action of
       SPP_CMD_ACTION_START \<Rightarrow> start_component nm lcore ty s
     | SPP_CMD_ACTION_STOP \<Rightarrow> stop_component nm s
     | _ \<Rightarrow> do { s1 \<leftarrow> mark_change_core 0 s; Some (SPP_RET_NG, s1) })"

section \<open>Ports\<close>

definition check_port_count :: "spp_component_type \<Rightarrow> spp_port_rxtx \<Rightarrow> int \<Rightarrow> int \<Rightarrow> int" where
  "check_port_count ty d num_rx0 num_tx0 =
    (let num_rx = (if d = SPP_PORT_RXTX_RX then num_rx0 + 1 else num_rx0);
         num_tx = (if d = SPP_PORT_RXTX_RX then num_tx0 else num_tx0 + 1) in
     case ty of
       SPP_COMPONENT_FORWARD \<Rightarrow> if num_rx > 1 \<or> num_tx > 1 then SPP_RET_NG else SPP_RET_OK
     | SPP_COMPONENT_MERGE \<Rightarrow> if num_tx > 1 then SPP_RET_NG else SPP_RET_OK
     | SPP_COMPONENT_CLASSIFIER_MAC \<Rightarrow> if num_rx > 1 then SPP_RET_NG else SPP_RET_OK
     | SPP_COMPONENT_MIRROR \<Rightarrow> if num_rx > 1 \<or> num_tx > 2 then SPP_RET_NG else SPP_RET_OK
     | _ \<Rightarrow> SPP_RET_NG)"

text \<open>The table of a component in one direction.\<close>

definition port_table_of :: "spp_port_rxtx \<Rightarrow> spp_component_info \<Rightarrow> int \<times> port_ptr list" where
  "port_table_of d c =
    (if d = SPP_PORT_RXTX_RX then (num_rx_port c, rx_ports c) else (num_tx_port c, tx_ports c))"

definition set_port_table :: "spp_port_rxtx \<Rightarrow> int \<times> port_ptr list \<Rightarrow> spp_component_info \<Rightarrow> spp_component_info" where
  "set_port_table d t c =
    (if d = SPP_PORT_RXTX_RX then c\<lparr>num_rx_port := fst t, rx_ports := snd t\<rparr>
     else c\<lparr>num_tx_port := fst t, tx_ports := snd t\<rparr>)"

definition put_component ::
  "int \<Rightarrow> spp_component_info \<Rightarrow> 'z manage_data_scheme \<Rightarrow> 'z manage_data_scheme option" where
  "put_component i c s = do {
     cs \<leftarrow> wr (g_component_info s) i c;
     Some (s\<lparr>g_component_info := cs\<rparr>)
   }"

text \<open>Writing an ability to the first entry with the operation op.\<close>

definition put_ability_at :: "spp_port_ability_ope \<Rightarrow> spp_port_ability \<Rightarrow> spp_port_info \<Rightarrow> spp_port_info option" where
  "put_ability_at op ab p =
    map_option (\<lambda>cnt. p\<lparr>ability := (ability p)[cnt := ab]\<rparr>) (first_index (\<lambda>a. ope a = op) (ability p))"

definition add_port ::
  "int \<Rightarrow> port_ptr \<Rightarrow> port_type \<Rightarrow> spp_port_rxtx \<Rightarrow> spp_port_ability \<Rightarrow> spp_component_info \<Rightarrow>
   'z manage_data_scheme \<Rightarrow> (int \<times> 'z manage_data_scheme) option" where
  "add_port i p t d ab c s =
    (if check_port_count (comp_type c) d (num_rx_port c) (num_tx_port c) \<noteq> SPP_RET_OK then Some (SPP_RET_NG, s)
     else do {
       let (n, ports) = port_table_of d c;
       ret_check \<leftarrow> check_port_element p n ports;
       if ret_check \<ge> SPP_RET_OK then
         (if ope ab = SPP_PORT_ABILITY_OPE_ADD_VLANTAG
          then do {
            port_info \<leftarrow> load_port s p;
            case put_ability_at SPP_PORT_ABILITY_OPE_ADD_VLANTAG ab port_info of
              None \<Rightarrow> Some (SPP_RET_NG, s)
            | Some q \<Rightarrow> do {
                s1 \<leftarrow> store_port p q s;
                s2 \<leftarrow> mark_change_component i s1;
                Some (SPP_RET_OK, s2)
              }
          }
          else Some (SPP_RET_OK, s))
       else if n \<ge> int (length ports) then Some (SPP_RET_NG, s)
       else do {
         port_info \<leftarrow> load_port s p;
         case (if ope ab = SPP_PORT_ABILITY_OPE_NONE then Some port_info
               else put_ability_at SPP_PORT_ABILITY_OPE_NONE ab port_info) of
           None \<Rightarrow> Some (SPP_RET_NG, s)
         | Some q \<Rightarrow> do {
             s1 \<leftarrow> store_port p (q\<lparr>iface_type := t\<rparr>) s;
             ports' \<leftarrow> wr ports n p;
             s2 \<leftarrow> put_component i (set_port_table d (n + 1, ports') c) s1;
             s3 \<leftarrow> mark_change_component i s2;
             Some (SPP_RET_OK, s3)
           }
       }
     })"

definition clear_abilities :: "spp_port_rxtx \<Rightarrow> spp_port_info \<Rightarrow> spp_port_info" where
  "clear_abilities d p = p\<lparr>ability := List.map
     (\<lambda>a. if ope a \<noteq> SPP_PORT_ABILITY_OPE_NONE \<and> rxtx a = d then zero_ability else a) (ability p)\<rparr>"

definition del_port ::
  "int \<Rightarrow> port_ptr \<Rightarrow> spp_port_rxtx \<Rightarrow> spp_component_info \<Rightarrow>
   'z manage_data_scheme \<Rightarrow> (int \<times> 'z manage_data_scheme) option" where
  "del_port i p d c s = do {
     port_info \<leftarrow> load_port s p;
     s1 \<leftarrow> store_port p (clear_abilities d port_info) s;
     let (n, ports) = port_table_of d c;
     (ret_del, ports') \<leftarrow> get_del_port_element p n ports;
     s2 \<leftarrow> put_component i (set_port_table d (if ret_del = 0 then n - 1 else n, ports') c) s1;
     s3 \<leftarrow> mark_change_component i s2;
     Some (SPP_RET_OK, s3)
   }"

definition spp_update_port ::
  "spp_command_action \<Rightarrow> spp_port_index \<Rightarrow> spp_port_rxtx \<Rightarrow> string \<Rightarrow> spp_port_ability \<Rightarrow>
   'z manage_data_scheme \<Rightarrow> (int \<times> 'z manage_data_scheme) option" where
  "spp_update_port action port d nm ab s = do {
     let i = spp_get_component_id s nm;
     if i < 0 then Some (SPP_RET_NG, s)
     else do {
       c \<leftarrow> rd (g_component_info s) i;
       let p = get_iface_info (pi_iface_type port) (pi_iface_no port);
       case action of
         SPP_CMD_ACTION_ADD \<Rightarrow> add_port i p (pi_iface_type port) d ab c s
       | SPP_CMD_ACTION_DEL \<Rightarrow> del_port i p d c s
       | _ \<Rightarrow> Some (SPP_RET_NG, s)
     }
   }"

section \<open>Flushing\<close>

text \<open>slaves is what RTE_LCORE_FOREACH_SLAVE enumerates.\<close>

definition spp_flush ::
  "'v ethdev \<Rightarrow> 'h hash_ops \<Rightarrow> ('e \<Rightarrow> ('h, 'z) classifier_data_scheme \<Rightarrow> ('h, 'z) classifier_data_scheme option) \<Rightarrow>
   int list \<Rightarrow> 'e list \<Rightarrow> ('h, 'z) classifier_data_scheme \<Rightarrow> 'v \<Rightarrow>
   (int \<times> 'e list \<times> ('h, 'z) classifier_data_scheme \<times> 'v) option" where
  "spp_flush E H env slaves sched s v = do {
     (ret, s1, v1) \<leftarrow> flush_port E s v;
     if ret < SPP_RET_OK then Some (ret, sched, s1, v1)
     else do {
       (sched2, s2) \<leftarrow> flush_core env sched s1;
       (ret3, sched3, s3) \<leftarrow> flush_component H env sched2 s2;
       s4 \<leftarrow> backup_mng_info slaves s3;
       Some (ret3, sched3, s4, v1)
     }
   }"

section \<open>Iterations for the status command\<close>

type_synonym 'o core_element =
  "int \<Rightarrow> string \<Rightarrow> string \<Rightarrow> spp_port_index list \<Rightarrow> spp_port_index list \<Rightarrow> 'o \<Rightarrow> (int \<times> 'o) option"

fun iterate_core_components ::
  "'o core_element \<Rightarrow> ('h, 'z) classifier_data_scheme \<Rightarrow> int \<Rightarrow> int list \<Rightarrow> 'o \<Rightarrow> (int \<times> 'o) option" where
  "iterate_core_components element_proc s lcore [] out = Some (SPP_RET_OK, out)"
| "iterate_core_components element_proc s lcore (i # is) out = do {
     c \<leftarrow> rd (g_component_info s) i;
     (ret, out1) \<leftarrow> (if comp_type c = SPP_COMPONENT_CLASSIFIER_MAC
        then spp_classifier_get_component_status s lcore i element_proc out
        else spp_forward_get_component_status s lcore i element_proc out);
     if ret \<noteq> 0 then Some (SPP_RET_NG, out1) else iterate_core_components element_proc s lcore is out1
   }"

fun spp_iterate_core_info ::
  "'o core_element \<Rightarrow> ('h, 'z) classifier_data_scheme \<Rightarrow> int list \<Rightarrow> 'o \<Rightarrow> (int \<times> 'o) option" where
  "spp_iterate_core_info element_proc s [] out = Some (SPP_RET_OK, out)"
| "spp_iterate_core_info element_proc s (lcore # ls) out = do {
     st \<leftarrow> spp_get_core_status lcore s;
     if st = SPP_CORE_UNUSE then spp_iterate_core_info element_proc s ls out
     else do {
       k \<leftarrow> get_core_info s lcore;
       (ret, out1) \<leftarrow> (if num k = 0 then element_proc lcore [] ''unuse'' [] [] out
         else do {
           ensure (num k \<le> int (length (core_ids k)));
           iterate_core_components element_proc s lcore (take (nat (num k)) (core_ids k)) out
         });
       if ret \<noteq> 0 then Some (SPP_RET_NG, out1) else spp_iterate_core_info element_proc s ls out1
     }
   }"

section \<open>Commands\<close>

text \<open>The update of the management data for one command; the queries change nothing.\<close>

definition update_for_command ::
  "spp_command \<Rightarrow> ('h, 'z) classifier_data_scheme \<Rightarrow> (int \<times> ('h, 'z) classifier_data_scheme) option" where
  "update_for_command c s =
    (case sc_type c of
       SPP_CMDTYPE_COMPONENT \<Rightarrow> spp_update_component (co_action (sc_component c)) (co_name (sc_component c))
         (co_core (sc_component c)) (co_type (sc_component c)) s
     | SPP_CMDTYPE_PORT \<Rightarrow> spp_update_port (po_action (sc_port c)) (po_port (sc_port c)) (po_rxtx (sc_port c))
         (po_name (sc_port c)) (po_ability (sc_port c)) s
     | _ \<Rightarrow> spp_update_classifier_table (ct_action (sc_table c)) (ct_vid (sc_table c))
         (ct_mac (sc_table c)) (ct_port (sc_table c)) s)"

definition is_query :: "spp_command_type \<Rightarrow> bool" where
  "is_query ty \<longleftrightarrow> ty \<in> {SPP_CMDTYPE_CLIENT_ID, SPP_CMDTYPE_STATUS, SPP_CMDTYPE_EXIT}"

definition execute_command ::
  "'v ethdev \<Rightarrow> 'h hash_ops \<Rightarrow> ('e \<Rightarrow> ('h, 'z) classifier_data_scheme \<Rightarrow> ('h, 'z) classifier_data_scheme option) \<Rightarrow>
   int list \<Rightarrow> 'e list \<Rightarrow> spp_command \<Rightarrow> ('h, 'z) classifier_data_scheme \<Rightarrow> 'v \<Rightarrow>
   (int \<times> 'e list \<times> ('h, 'z) classifier_data_scheme \<times> 'v) option" where
  "execute_command E H env slaves sched c s v =
    (if is_query (sc_type c) then Some (SPP_RET_OK, sched, s, v)
     else do {
       (ret, s1) \<leftarrow> update_for_command c s;
       if ret = 0 then spp_flush E H env slaves sched s1 v else Some (ret, sched, s1, v)
     })"

section \<open>Results\<close>

datatype command_result_code = CRES_SUCCESS | CRES_FAILURE | CRES_INVALID

record command_result =
  cr_code :: command_result_code
  cr_result :: string
  cr_error_message :: string

definition CMD_RES_ERR_MSG_SIZE :: nat where "CMD_RES_ERR_MSG_SIZE = 128"

text \<open>What memset leaves in the results.\<close>

definition zero_result :: command_result where
  "zero_result = \<lparr>cr_code = CRES_SUCCESS, cr_result = [], cr_error_message = []\<rparr>"

text \<open>The message is written into a buffer of CMD_RES_ERR_MSG_SIZE bytes.\<close>

definition make_decode_error_message :: "spp_command_decode_error \<Rightarrow> string option" where
  "make_decode_error_message e =
    strcpy_buf CMD_RES_ERR_MSG_SIZE
      (if de_code e = decode_error_number SPP_CMD_DERR_BAD_FORMAT then ''bad message format''
       else if de_code e = decode_error_number SPP_CMD_DERR_UNKNOWN_COMMAND
         then ''unknown command('' @ de_value e @ '')''
       else if de_code e = decode_error_number SPP_CMD_DERR_NO_PARAM
         then ''not enough parameter('' @ de_value_name e @ '')''
       else if de_code e = decode_error_number SPP_CMD_DERR_BAD_TYPE
         then ''bad value type('' @ de_value_name e @ '')''
       else if de_code e = decode_error_number SPP_CMD_DERR_BAD_VALUE
         then ''bad value('' @ de_value_name e @ '')''
       else ''error occur'')"

definition set_command_results ::
  "command_result_code \<Rightarrow> string \<Rightarrow> int \<Rightarrow> command_result list \<Rightarrow> command_result list option" where
  "set_command_results code msg i rs = do {
     r \<leftarrow> rd rs i;
     r' \<leftarrow> (case code of
         CRES_SUCCESS \<Rightarrow> Some (r\<lparr>cr_code := code, cr_result := ''success'', cr_error_message := []\<rparr>)
       | CRES_FAILURE \<Rightarrow> do {
           m \<leftarrow> strcpy_buf CMD_RES_ERR_MSG_SIZE msg;
           Some (r\<lparr>cr_code := code, cr_result := ''error'', cr_error_message := m\<rparr>)
         }
       | CRES_INVALID \<Rightarrow> Some (r\<lparr>cr_code := code, cr_result := ''invalid'', cr_error_message := []\<rparr>));
     wr rs i r'
   }"

text \<open>Setting the results of all commands from position i on.\<close>

fun set_results_from :: "command_result_code \<Rightarrow> nat \<Rightarrow> nat \<Rightarrow> command_result list \<Rightarrow> command_result list option" where
  "set_results_from code i 0 rs = Some rs"
| "set_results_from code i (Suc n) rs = do {
     rs1 \<leftarrow> set_command_results code [] (int i) rs;
     set_results_from code (Suc i) n rs1
   }"

definition set_decode_error_to_results ::
  "command_result list \<Rightarrow> spp_command_request \<Rightarrow> spp_command_decode_error \<Rightarrow> command_result list option" where
  "set_decode_error_to_results rs req e = do {
     rs1 \<leftarrow> set_results_from (if de_code e = 0 then CRES_SUCCESS else CRES_INVALID) 0 (nat (num_command req)) rs;
     if de_code e = 0 then Some rs1
     else do {
       m \<leftarrow> make_decode_error_message e;
       set_command_results CRES_FAILURE m (num_valid_command req) rs1
     }
   }"

section \<open>Requests\<close>

datatype response =
    Decode_Error_Response spp_command_request "command_result list"
  | Command_Result_Response spp_command_request "command_result list"

text \<open>The commands are executed in order up to the first that fails.\<close>

fun execute_commands ::
  "'v ethdev \<Rightarrow> 'h hash_ops \<Rightarrow> ('e \<Rightarrow> ('h, 'z) classifier_data_scheme \<Rightarrow> ('h, 'z) classifier_data_scheme option) \<Rightarrow>
   int list \<Rightarrow> 'e list \<Rightarrow> nat \<Rightarrow> spp_command list \<Rightarrow> command_result list \<Rightarrow> ('h, 'z) classifier_data_scheme \<Rightarrow> 'v \<Rightarrow>
   ('e list \<times> command_result list \<times> ('h, 'z) classifier_data_scheme \<times> 'v) option" where
  "execute_commands E H env slaves sched i [] rs s v = Some (sched, rs, s, v)"
| "execute_commands E H env slaves sched i (c # cs) rs s v = do {
     (ret, sched1, s1, v1) \<leftarrow> execute_command E H env slaves sched c s v;
     if ret \<noteq> SPP_RET_OK
     then do {
       rs1 \<leftarrow> set_command_results CRES_FAILURE ''error occur'' (int i) rs;
       rs2 \<leftarrow> set_results_from CRES_INVALID (Suc i) (length cs) rs1;
       Some (sched1, rs2, s1, v1)
     }
     else do {
       rs1 \<leftarrow> set_command_results CRES_SUCCESS [] (int i) rs;
       execute_commands E H env slaves sched1 (Suc i) cs rs1 s1 v1
     }
   }"

definition process_request ::
  "'v ethdev \<Rightarrow> 'h hash_ops \<Rightarrow> ('e \<Rightarrow> ('h, 'z) classifier_data_scheme \<Rightarrow> ('h, 'z) classifier_data_scheme option) \<Rightarrow>
   int list \<Rightarrow> 'e list \<Rightarrow> string \<Rightarrow> ('h, 'z) classifier_data_scheme \<Rightarrow> 'v \<Rightarrow>
   (int \<times> response \<times> 'e list \<times> ('h, 'z) classifier_data_scheme \<times> 'v) option" where
  "process_request E H env slaves sched request_str s v = do {
     let rs = replicate SPP_CMD_MAX_COMMANDS zero_result;
     (ret, req, e) \<leftarrow> spp_command_decode_request SECONDARY_TYPE_VF s zero_request request_str
        \<lparr>de_code = 0, de_value_name = [], de_value = []\<rparr>;
     if ret \<noteq> SPP_RET_OK
     then do {
       rs1 \<leftarrow> set_decode_error_to_results rs req e;
       Some (SPP_RET_OK, Decode_Error_Response req rs1, sched, s, v)
     }
     else do {
       ensure (num_command req \<le> int (length (commands req)));
       (sched1, rs1, s1, v1) \<leftarrow> execute_commands E H env slaves sched 0
         (take (nat (num_command req)) (commands req)) rs s v;
       if is_requested_exit req \<noteq> 0
       then do {
         rs2 \<leftarrow> set_command_results CRES_SUCCESS [] 0 rs1;
         Some (SPP_RET_NG, Command_Result_Response req rs2, sched1, s1, v1)
       }
       else Some (SPP_RET_OK, Command_Result_Response req rs1, sched1, s1, v1)
     }
   }"

end
