(* ===== verification/Command_Text.thy ===== *)
theory Command_Text
  imports Command_Dec Shared_Common
begin

text \<open>
  Lemmas about the command decoder: the arguments of a joined line, the numbers and port
  names, and the effect of each parameter function when it succeeds.
\<close>

section \<open>Words\<close>

fun join :: "string list \<Rightarrow> string" where
  "join [] = []"
| "join [w] = w"
| "join (w # ws) = w @ CHR '' '' # join ws"

definition word_ok :: "string \<Rightarrow> bool" where
  "word_ok w \<longleftrightarrow> w \<noteq> [] \<and> CHR '' '' \<notin> set w \<and> length w < SPP_CMD_VALUE_BUFSZ"

lemma tokens_word:
  assumes "w \<noteq> []" and "CHR '' '' \<notin> set w" and "rest = [] \<or> hd rest = CHR '' ''"
  shows "tokens (\<lambda>c. c = CHR '' '') (w @ rest) = w # tokens (\<lambda>c. c = CHR '' '') rest"
proof -
  obtain c cs where w: "w = c # cs" using assms(1) by (cases w) auto
  have n: "\<forall>x\<in>set cs. x \<noteq> CHR '' ''" using assms(2) w by auto
  have t: "takeWhile (\<lambda>x. x \<noteq> CHR '' '') rest = []" "dropWhile (\<lambda>x. x \<noteq> CHR '' '') rest = rest"
    using assms(3) by (cases rest; simp)+
  show ?thesis
    using assms(2) w takeWhile_all [OF n, of rest] dropWhile_all [OF n, of rest] t by auto
qed

lemma tokens_join: "\<forall>w\<in>set ws. word_ok w \<Longrightarrow> tokens (\<lambda>c. c = CHR '' '') (join ws) = ws"
proof (induction ws rule: join.induct)
  case (2 w)
  then show ?case using tokens_word [of w "[]"] by (simp add: word_ok_def)
next
  case (3 w v vs)
  then show ?case using tokens_word [of w "CHR '' '' # join (v # vs)"] by (simp add: word_ok_def)
qed simp

lemma length_join: "\<forall>w\<in>set ws. length w \<le> n \<Longrightarrow> length (join ws) \<le> length ws * Suc n"
  by (induction ws rule: join.induct) auto

lemma length_join_ok:
  assumes "\<forall>w\<in>set ws. word_ok w" and "ws \<noteq> []" and "length ws \<le> SPP_CMD_MAX_PARAMETERS"
  shows "length (join ws) < SPP_CMD_MAX_PARAMETERS * SPP_CMD_VALUE_BUFSZ"
proof -
  have b: "length (join us) < length us * SPP_CMD_VALUE_BUFSZ" if "\<forall>w\<in>set us. word_ok w" "us \<noteq> []" for us
    using that
  proof (induction us rule: join.induct)
    case (3 w v vs)
    then show ?case by (simp add: word_ok_def)
  qed (simp_all add: word_ok_def)
  also have "length ws * SPP_CMD_VALUE_BUFSZ \<le> SPP_CMD_MAX_PARAMETERS * SPP_CMD_VALUE_BUFSZ"
    using assms(3) by (rule mult_le_mono1)
  finally show ?thesis using assms(1,2) by simp
qed

lemma decode_words:
  assumes "\<forall>w\<in>set (nm # args). word_ok w" and "Suc (length args) \<le> SPP_CMD_MAX_PARAMETERS"
  shows "decode_command_in_list m s req (join (nm # args)) err =
    (case find_command command_list nm (Suc (length args)) False of
       Inr (ty, mx) \<Rightarrow> do {
         c0 \<leftarrow> rd (commands req) 0;
         (code, c1, err1) \<leftarrow> decode_command_parameter m s ty (nm # args) mx (c0\<lparr>sc_type := ty\<rparr>) err;
         Some (code, set_command0 c1 req, err1)
       }
     | Inl True \<Rightarrow> do {
         (code, err1) \<leftarrow> set_decode_error SPP_CMD_DERR_BAD_FORMAT None err;
         Some (code, req, err1)
       }
     | Inl False \<Rightarrow> do {
         (code, err1) \<leftarrow> set_string_value_decode_error nm ''command'' err;
         Some (code, req, err1)
       })"
  using length_join_ok [OF assms(1)] assms(2) tokens_join [OF assms(1)]
  unfolding decode_command_in_list_def decode_parameter_value_def strcpy_buf_def Let_def
  by (simp split del: if_split)

section \<open>Numbers and ports\<close>

lemma scan_show: "scan_number 0 (show_nat n) = ((False, n), [])"
  using scan_show_nat [of n 0 "[]"] scan_zero by (cases "n = 0") (auto simp: ends_number_def)

lemma strtol0_show: "int n \<le> LONG_MAX \<Longrightarrow> strtol 0 (show_nat n) = (int n, [])"
  by (simp add: strtol_def scan_show)

lemma strtoul0_show: "int n \<le> ULONG_MAX \<Longrightarrow> strtoul 0 (show_nat n) = (int n, [])"
  by (simp add: strtoul_def scan_show)

lemma get_int_value_show:
  assumes "mn \<le> int n" and "int n \<le> mx" and "int n < 2 ^ 31"
  shows "get_int_value (show_nat n) mn mx = Some (int n)"
proof -
  have "strtol 0 (show_nat n) = (int n, [])" using assms(3) by (intro strtol0_show) (simp add: LONG_MAX_def)
  then show ?thesis using assms by (simp add: get_int_value_def)
qed

lemma get_uint_value_show:
  assumes "mn \<le> int n" and "int n \<le> mx" and "int n < 2 ^ 32"
  shows "get_uint_value (show_nat n) mn mx = Some (int n)"
proof -
  have "strtoul 0 (show_nat n) = (int n, [])" using assms(3) by (intro strtoul0_show) (simp add: ULONG_MAX_def)
  then show ?thesis using assms by (simp add: get_uint_value_def)
qed

lemma get_int_value_bounds: "get_int_value a mn mx = Some v \<Longrightarrow> mn \<le> v \<and> v \<le> mx"
  by (auto simp: get_int_value_def Let_def split: prod.splits if_splits)

lemma get_uint_value_bounds: "get_uint_value a mn mx = Some v \<Longrightarrow> mn \<le> v \<and> v \<le> mx \<and> 0 \<le> v"
  by (auto simp: get_uint_value_def Let_def split: prod.splits if_splits)

text \<open>A port name is decoded to the port it was printed from: for the three interface types
  of a command and every number that an int holds.\<close>
theorem port_string_round_trip:
  assumes "t \<in> {PHY, RING, VHOST}" and "0 \<le> no" and "no < 2 ^ 31"
  shows "fst (spp_format_port_string t no) = SPP_RET_OK \<and>
    spp_convert_port_to_iface (snd (spp_format_port_string t no)) = Some \<lparr>pi_iface_type = t, pi_iface_no = no\<rparr>"
proof -
  have "show_int no = show_nat (nat no)" using assms(2) by (simp add: show_int_def)
  moreover have "strtol 0 (show_nat (nat no)) = (no, [])"
    using strtol0_show [of "nat no"] assms(2,3) by (simp add: LONG_MAX_def)
  ultimately show ?thesis using assms
    by (auto simp: spp_format_port_string_def spp_convert_port_to_iface_def starts_with_def)
qed

lemma port_string_round_trip_witness:
  "spp_convert_port_to_iface (snd (spp_format_port_string VHOST 12)) = Some \<lparr>pi_iface_type = VHOST, pi_iface_no = 12\<rparr>"
  using port_string_round_trip [of VHOST 12] by simp

lemma convert_port_type:
  "spp_convert_port_to_iface a = Some p \<Longrightarrow> pi_iface_type p \<in> {PHY, VHOST, RING}"
  by (auto simp: spp_convert_port_to_iface_def Let_def bind_Some_iff split: if_splits prod.splits)

section \<open>The checks against the management data are defined\<close>

lemma scan_ports_total:
  "0 \<le> i \<Longrightarrow> mx \<le> int (length arr) \<Longrightarrow> scan_ports arr p i mx \<noteq> None"
proof (induction arr p i mx rule: scan_ports.induct)
  case (1 arr p i mx)
  show ?case
  proof (cases "i < mx")
    case True
    then have "rd arr i = Some (arr ! nat i)" using 1 by (simp add: rd_ok)
    then show ?thesis using 1 True by (subst scan_ports.simps) (auto intro: exI [of _ True])
  qed (simp add: scan_ports.simps)
qed

lemma used_port_from_total:
  assumes "\<forall>c\<in>set cs. num_rx_port c \<le> int (length (rx_ports c)) \<and> num_tx_port c \<le> int (length (tx_ports c))"
  shows "used_port_from d p cnt cs \<noteq> None"
  using assms
proof (induction cs arbitrary: cnt)
  case (Cons c cs)
  have "\<exists>b. (if d = SPP_PORT_RXTX_RX then scan_ports (rx_ports c) p 0 (num_rx_port c)
      else if d = SPP_PORT_RXTX_TX then scan_ports (tx_ports c) p 0 (num_tx_port c) else Some False) = Some b"
    using Cons.prems scan_ports_total [of 0 _ "rx_ports c" p] scan_ports_total [of 0 _ "tx_ports c" p] by auto
  then show ?case using Cons by auto
qed simp

lemma wf_mng_component:
  assumes "wf_mng s" and "c \<in> set (g_component_info s)"
  shows "\<exists>i<length (g_component_info s). c = g_component_info s ! i \<and> wf_component s (int i) c"
  using assms by (auto simp: wf_mng_def in_set_conv_nth)

lemma check_used_port_total:
  assumes "wf_mng s"
  obtains r where "spp_check_used_port s t no d = Some r"
proof -
  have "\<forall>c\<in>set (g_component_info s). num_rx_port c \<le> int (length (rx_ports c)) \<and> num_tx_port c \<le> int (length (tx_ports c))"
    using wf_mng_component [OF assms] by (auto simp: wf_component_def)
  then have "spp_check_used_port s t no d \<noteq> None"
    using used_port_from_total by (auto simp: spp_check_used_port_def Let_def)
  then show ?thesis using that by auto
qed

section \<open>The text of the commands\<close>

datatype vf_request =
    Component_Start string nat spp_component_type
  | Component_Stop string
  | Port_Op spp_command_action port_type nat spp_port_rxtx string
  | Port_Add_Tag port_type nat spp_port_rxtx string nat nat
  | Port_Del_Tag port_type nat spp_port_rxtx string
  | Table_Mac spp_command_action string port_type nat
  | Table_Vlan spp_command_action nat string port_type nat
  | Get_Client_Id | Get_Status | Do_Exit

primrec action_word :: "spp_command_action \<Rightarrow> string" where
  "action_word SPP_CMD_ACTION_NONE = ''none''"
| "action_word SPP_CMD_ACTION_START = ''start''"
| "action_word SPP_CMD_ACTION_STOP = ''stop''"
| "action_word SPP_CMD_ACTION_ADD = ''add''"
| "action_word SPP_CMD_ACTION_DEL = ''del''"

primrec type_word :: "spp_component_type \<Rightarrow> string" where
  "type_word SPP_COMPONENT_UNUSE = ''unuse''"
| "type_word SPP_COMPONENT_CLASSIFIER_MAC = ''classifier_mac''"
| "type_word SPP_COMPONENT_MERGE = ''merge''"
| "type_word SPP_COMPONENT_FORWARD = ''forward''"
| "type_word SPP_COMPONENT_MIRROR = ''mirror''"

definition rxtx_word :: "spp_port_rxtx \<Rightarrow> string" where
  "rxtx_word d = (if d = SPP_PORT_RXTX_RX then ''rx'' else ''tx'')"

definition port_word :: "port_type \<Rightarrow> nat \<Rightarrow> string" where
  "port_word t no = snd (spp_format_port_string t (int no))"

primrec request_words :: "vf_request \<Rightarrow> string list" where
  "request_words (Component_Start nm lc t) = [''component'', ''start'', nm, show_nat lc, type_word t]"
| "request_words (Component_Stop nm) = [''component'', ''stop'', nm]"
| "request_words (Port_Op a t no d nm) = [''port'', action_word a, port_word t no, rxtx_word d, nm]"
| "request_words (Port_Add_Tag t no d nm v p) =
    [''port'', ''add'', port_word t no, rxtx_word d, nm, ''add_vlantag'', show_nat v, show_nat p]"
| "request_words (Port_Del_Tag t no d nm) =
    [''port'', ''add'', port_word t no, rxtx_word d, nm, ''del_vlantag'']"
| "request_words (Table_Mac a mac t no) = [''classifier_table'', action_word a, ''mac'', mac, port_word t no]"
| "request_words (Table_Vlan a v mac t no) =
    [''classifier_table'', action_word a, ''vlan'', show_nat v, mac, port_word t no]"
| "request_words Get_Client_Id = [''_get_client_id'']"
| "request_words Get_Status = [''status'']"
| "request_words Do_Exit = [''exit'']"

text \<open>The command that each request stands for.\<close>

definition port_index :: "port_type \<Rightarrow> nat \<Rightarrow> spp_port_index" where
  "port_index t no = \<lparr>pi_iface_type = t, pi_iface_no = int no\<rparr>"

definition port_command ::
  "spp_command_action \<Rightarrow> port_type \<Rightarrow> nat \<Rightarrow> spp_port_rxtx \<Rightarrow> string \<Rightarrow> spp_port_ability \<Rightarrow> spp_command" where
  "port_command a t no d nm ab = zero_command\<lparr>sc_type := SPP_CMDTYPE_PORT,
     sc_port := \<lparr>po_action = a, po_port = port_index t no, po_rxtx = d, po_name = nm, po_ability = ab\<rparr>\<rparr>"

definition table_command ::
  "spp_command_type \<Rightarrow> spp_command_action \<Rightarrow> spp_classifier_type \<Rightarrow> int \<Rightarrow> string \<Rightarrow> port_type \<Rightarrow> nat \<Rightarrow> spp_command" where
  "table_command ty a k v mac t no = zero_command\<lparr>sc_type := ty,
     sc_table := \<lparr>ct_action = a, ct_type = k, ct_vid = v, ct_mac = mac, ct_port = port_index t no\<rparr>\<rparr>"

primrec request_command :: "vf_request \<Rightarrow> spp_command" where
  "request_command (Component_Start nm lc t) = zero_command\<lparr>sc_type := SPP_CMDTYPE_COMPONENT,
     sc_component := \<lparr>co_action = SPP_CMD_ACTION_START, co_name = nm, co_core = int lc, co_type = t\<rparr>\<rparr>"
| "request_command (Component_Stop nm) = zero_command\<lparr>sc_type := SPP_CMDTYPE_COMPONENT,
     sc_component := \<lparr>co_action = SPP_CMD_ACTION_STOP, co_name = nm, co_core = 0, co_type = SPP_COMPONENT_UNUSE\<rparr>\<rparr>"
| "request_command (Port_Op a t no d nm) = port_command a t no d nm zero_ability"
| "request_command (Port_Add_Tag t no d nm v p) = port_command SPP_CMD_ACTION_ADD t no d nm
     \<lparr>ope = SPP_PORT_ABILITY_OPE_ADD_VLANTAG, rxtx = d, data = \<lparr>vid = int v, pcp = int p, tci = 0\<rparr>\<rparr>"
| "request_command (Port_Del_Tag t no d nm) = port_command SPP_CMD_ACTION_ADD t no d nm
     \<lparr>ope = SPP_PORT_ABILITY_OPE_DEL_VLANTAG, rxtx = d, data = zero_vlantag\<rparr>"
| "request_command (Table_Mac a mac t no) =
     table_command SPP_CMDTYPE_CLASSIFIER_TABLE_MAC a SPP_CLASSIFIER_TYPE_MAC ETH_VLAN_ID_MAX mac t no"
| "request_command (Table_Vlan a v mac t no) =
     table_command SPP_CMDTYPE_CLASSIFIER_TABLE_VLAN a SPP_CLASSIFIER_TYPE_VLAN (int v) mac t no"
| "request_command Get_Client_Id = zero_command\<lparr>sc_type := SPP_CMDTYPE_CLIENT_ID\<rparr>"
| "request_command Get_Status = zero_command\<lparr>sc_type := SPP_CMDTYPE_STATUS\<rparr>"
| "request_command Do_Exit = zero_command\<lparr>sc_type := SPP_CMDTYPE_EXIT\<rparr>"

text \<open>What the decoder accepts in the process m with the management data s.\<close>

definition name_ok :: "string \<Rightarrow> bool" where
  "name_ok nm \<longleftrightarrow> nm \<noteq> [] \<and> CHR '' '' \<notin> set nm \<and> length nm < SPP_CMD_NAME_BUFSZ"

definition iface_ok :: "port_type \<Rightarrow> nat \<Rightarrow> bool" where
  "iface_ok t no \<longleftrightarrow> t \<in> {PHY, RING, VHOST} \<and> int no < 2 ^ 31"

definition port_free :: "'z manage_data_scheme \<Rightarrow> port_type \<Rightarrow> nat \<Rightarrow> spp_port_rxtx \<Rightarrow> bool" where
  "port_free s t no d \<longleftrightarrow> spp_check_used_port s t (int no) d = Some SPP_RET_NG"

definition table_ok ::
  "'z manage_data_scheme \<Rightarrow> spp_command_action \<Rightarrow> int \<Rightarrow> string \<Rightarrow> port_type \<Rightarrow> nat \<Rightarrow> bool" where
  "table_ok s a v mac t no \<longleftrightarrow> word_ok mac \<and> mac \<noteq> SPP_DEFAULT_CLASSIFIED_SPEC_STR \<and> iface_ok t no \<and>
    (case load_port s (Some (t, int no)) of None \<Rightarrow> False
     | Some p \<Rightarrow> iface_type p \<noteq> UNDEF \<and>
        (case spp_change_mac_str_to_int64 mac of None \<Rightarrow> False
         | Some k \<Rightarrow> 0 \<le> k \<and>
            (a = SPP_CMD_ACTION_ADD \<and> mac_addr (class_id p) = 0 \<and> vid (vlantag (class_id p)) = ETH_VLAN_ID_MAX \<or>
             a = SPP_CMD_ACTION_DEL \<and> mac_addr (class_id p) = word_of_int k \<and> vid (vlantag (class_id p)) = v)))"

primrec request_ok :: "secondary_type \<Rightarrow> 'z manage_data_scheme \<Rightarrow> vf_request \<Rightarrow> bool" where
  "request_ok m s (Component_Start nm lc t) \<longleftrightarrow> name_ok nm \<and> spp_get_component_id s nm < 0 \<and>
     lc < length (g_core_info s) \<and> int lc < 2 ^ 32 \<and> t \<noteq> SPP_COMPONENT_UNUSE \<and>
     (m = SECONDARY_TYPE_VF \<and> t \<noteq> SPP_COMPONENT_MIRROR \<or> m = SECONDARY_TYPE_MIRROR \<and> t = SPP_COMPONENT_MIRROR)"
| "request_ok m s (Component_Stop nm) \<longleftrightarrow> name_ok nm"
| "request_ok m s (Port_Op a t no d nm) \<longleftrightarrow> name_ok nm \<and> 0 \<le> spp_get_component_id s nm \<and> iface_ok t no \<and>
     d \<in> {SPP_PORT_RXTX_RX, SPP_PORT_RXTX_TX} \<and> (a = SPP_CMD_ACTION_ADD \<and> port_free s t no d \<or> a = SPP_CMD_ACTION_DEL)"
| "request_ok m s (Port_Add_Tag t no d nm v p) \<longleftrightarrow> name_ok nm \<and> 0 \<le> spp_get_component_id s nm \<and> iface_ok t no \<and>
     d \<in> {SPP_PORT_RXTX_RX, SPP_PORT_RXTX_TX} \<and> int v \<le> ETH_VLAN_ID_MAX \<and> int p \<le> SPP_VLAN_PCP_MAX"
| "request_ok m s (Port_Del_Tag t no d nm) \<longleftrightarrow> name_ok nm \<and> 0 \<le> spp_get_component_id s nm \<and> iface_ok t no \<and>
     d \<in> {SPP_PORT_RXTX_RX, SPP_PORT_RXTX_TX} \<and> port_free s t no d"
| "request_ok m s (Table_Mac a mac t no) \<longleftrightarrow> table_ok s a ETH_VLAN_ID_MAX mac t no"
| "request_ok m s (Table_Vlan a v mac t no) \<longleftrightarrow> int v \<le> ETH_VLAN_ID_MAX \<and> table_ok s a (int v) mac t no"
| "request_ok m s Get_Client_Id \<longleftrightarrow> True"
| "request_ok m s Get_Status \<longleftrightarrow> True"
| "request_ok m s Do_Exit \<longleftrightarrow> True"

definition decoded_request :: "spp_command \<Rightarrow> spp_command_request" where
  "decoded_request c = zero_request\<lparr>num_command := 1, num_valid_command := 1,
     commands := (commands zero_request)[0 := c],
     is_requested_client_id := (if sc_type c = SPP_CMDTYPE_CLIENT_ID then 1 else 0),
     is_requested_status := (if sc_type c = SPP_CMDTYPE_STATUS then 1 else 0),
     is_requested_exit := (if sc_type c = SPP_CMDTYPE_EXIT then 1 else 0)\<rparr>"

lemma array_index [simp]:
  "get_arrary_index ''start'' COMMAND_ACTION_STRINGS = 1" "get_arrary_index ''stop'' COMMAND_ACTION_STRINGS = 2"
  "get_arrary_index ''add'' COMMAND_ACTION_STRINGS = 3" "get_arrary_index ''del'' COMMAND_ACTION_STRINGS = 4"
  "get_arrary_index ''rx'' PORT_RXTX_STRINGS = 1" "get_arrary_index ''tx'' PORT_RXTX_STRINGS = 2"
  "get_arrary_index ''mac'' CLASSIFILER_TYPE_STRINGS = 1" "get_arrary_index ''vlan'' CLASSIFILER_TYPE_STRINGS = 2"
  "get_arrary_index ''add_vlantag'' PORT_ABILITY_STRINGS = 1" "get_arrary_index ''del_vlantag'' PORT_ABILITY_STRINGS = 2"
  by code_simp+

lemma enum_at_index [simp]:
  "enum_at COMMAND_ACTION_STRINGS 1 = Some SPP_CMD_ACTION_START" "enum_at COMMAND_ACTION_STRINGS 2 = Some SPP_CMD_ACTION_STOP"
  "enum_at COMMAND_ACTION_STRINGS 3 = Some SPP_CMD_ACTION_ADD" "enum_at COMMAND_ACTION_STRINGS 4 = Some SPP_CMD_ACTION_DEL"
  "enum_at PORT_RXTX_STRINGS 1 = Some SPP_PORT_RXTX_RX" "enum_at PORT_RXTX_STRINGS 2 = Some SPP_PORT_RXTX_TX"
  "enum_at CLASSIFILER_TYPE_STRINGS 1 = Some SPP_CLASSIFIER_TYPE_MAC" "enum_at CLASSIFILER_TYPE_STRINGS 2 = Some SPP_CLASSIFIER_TYPE_VLAN"
  "enum_at PORT_ABILITY_STRINGS 1 = Some SPP_PORT_ABILITY_OPE_ADD_VLANTAG" "enum_at PORT_ABILITY_STRINGS 2 = Some SPP_PORT_ABILITY_OPE_DEL_VLANTAG"
  by code_simp+

lemma action_value_word [simp]:
  "a \<noteq> SPP_CMD_ACTION_NONE \<Longrightarrow> action_value A (action_word a) = (if a \<in> A then Some a else None)"
  by (cases a) (simp_all add: action_value_def)

lemma action_value_start [simp]:
  "action_value A ''start'' = (if SPP_CMD_ACTION_START \<in> A then Some SPP_CMD_ACTION_START else None)"
  "action_value A ''stop'' = (if SPP_CMD_ACTION_STOP \<in> A then Some SPP_CMD_ACTION_STOP else None)"
  "action_value A ''add'' = (if SPP_CMD_ACTION_ADD \<in> A then Some SPP_CMD_ACTION_ADD else None)"
  "action_value A ''del'' = (if SPP_CMD_ACTION_DEL \<in> A then Some SPP_CMD_ACTION_DEL else None)"
  using action_value_word [of SPP_CMD_ACTION_START A] action_value_word [of SPP_CMD_ACTION_STOP A]
    action_value_word [of SPP_CMD_ACTION_ADD A] action_value_word [of SPP_CMD_ACTION_DEL A] by simp_all

lemma type_word_convert:
  assumes "t \<noteq> SPP_COMPONENT_UNUSE"
    and "m = SECONDARY_TYPE_VF \<and> t \<noteq> SPP_COMPONENT_MIRROR \<or> m = SECONDARY_TYPE_MIRROR \<and> t = SPP_COMPONENT_MIRROR"
  shows "spp_convert_component_type m (type_word t) = t \<and> 0 < component_type_code t"
  using assms by (cases t) (auto simp: spp_convert_component_type_def)

lemma port_word_value:
  assumes "iface_ok t no"
  shows "decode_port_value (port_word t no) = Some (port_index t no)"
proof -
  have "strtol 0 (show_nat no) = (int no, [])"
    using strtol0_show [of no] assms by (simp add: LONG_MAX_def iface_ok_def)
  then show ?thesis using assms
    by (auto simp: port_word_def decode_port_value_def spp_format_port_string_def show_int_def port_index_def
        spp_convert_port_to_iface_def starts_with_def iface_ok_def)
qed

lemma name_value: "name_ok nm \<Longrightarrow> decode_str_value SPP_CMD_NAME_BUFSZ nm = Some (SPP_RET_OK, nm)"
  by (simp add: name_ok_def decode_str_value_def strcpy_buf_def SPP_CMD_NAME_BUFSZ_def SPP_CMD_VALUE_BUFSZ_def)

section \<open>Every accepted request is decoded to its command\<close>

lemma decode_component_start:
  assumes "request_ok m s (Component_Start nm lc t)"
  shows "decode_parameters (parameter_list SPP_CMDTYPE_COMPONENT m s) [''start'', nm, show_nat lc, type_word t] fl
     (zero_command\<lparr>sc_type := SPP_CMDTYPE_COMPONENT\<rparr>) err = Some (SPP_RET_OK, request_command (Component_Start nm lc t), err)"
proof -
  have lc: "decode_core_value (length (g_core_info s)) (show_nat lc) = Some (int lc)"
    using assms by (simp add: decode_core_value_def get_uint_value_show)
  have ty: "spp_convert_component_type m (type_word t) = t" "0 < component_type_code t"
    using assms type_word_convert by auto
  show ?thesis using assms ty lc name_value [of nm]
    by (simp add: decode_component_action_value_def decode_component_name_value_def decode_component_core_value_def
        decode_component_type_value_def zero_command_def Let_def)
qed

lemma decode_component_stop:
  assumes "name_ok nm"
  shows "decode_parameters (parameter_list SPP_CMDTYPE_COMPONENT m s) [''stop'', nm] fl
     (zero_command\<lparr>sc_type := SPP_CMDTYPE_COMPONENT\<rparr>) err = Some (SPP_RET_OK, request_command (Component_Stop nm), err)"
  using name_value [OF assms]
  by (simp add: decode_component_action_value_def decode_component_name_value_def zero_command_def)

lemma port_value_word:
  assumes "wf_mng s" and "iface_ok t no" and "d \<in> {SPP_PORT_RXTX_RX, SPP_PORT_RXTX_TX}"
    and "ov = 0 \<longrightarrow> po_action (sc_port c) = SPP_CMD_ACTION_ADD \<longrightarrow> port_free s t no d"
  shows "decode_port_port_value s c (port_word t no) ov =
    Some (SPP_RET_OK, c\<lparr>sc_port := (sc_port c)\<lparr>po_port := port_index t no\<rparr>\<rparr>)"
proof (cases "ov = 0 \<and> po_action (sc_port c) = SPP_CMD_ACTION_ADD")
  case True
  obtain r where r: "spp_check_used_port s t (int no) SPP_PORT_RXTX_RX = Some r"
    using check_used_port_total [OF assms(1)] .
  then show ?thesis
    using True assms(3,4) port_word_value [OF assms(2)]
    by (auto simp: decode_port_port_value_def port_free_def port_index_def)
qed (use port_word_value [OF assms(2)] in \<open>auto simp: decode_port_port_value_def\<close>)

lemma rxtx_value_word:
  assumes "d \<in> {SPP_PORT_RXTX_RX, SPP_PORT_RXTX_TX}" and "po_port (sc_port c) = port_index t no"
    and "ov = 0 \<longrightarrow> po_action (sc_port c) = SPP_CMD_ACTION_ADD \<longrightarrow> port_free s t no d"
  shows "decode_port_rxtx_value s c (rxtx_word d) ov =
    Some (SPP_RET_OK, c\<lparr>sc_port := (sc_port c)\<lparr>po_rxtx := d\<rparr>\<rparr>)"
  using assms by (auto simp: decode_port_rxtx_value_def rxtx_word_def port_free_def port_index_def)

lemma port_name_value:
  assumes "name_ok nm" and "0 \<le> spp_get_component_id s nm"
  shows "decode_port_name_value s c nm ov = Some (SPP_RET_OK, c\<lparr>sc_port := (sc_port c)\<lparr>po_name := nm\<rparr>\<rparr>)"
  using assms name_value [OF assms(1)] by (simp add: decode_port_name_value_def)

lemma decode_port_front:
  assumes "wf_mng s" and "iface_ok t no" and "d \<in> {SPP_PORT_RXTX_RX, SPP_PORT_RXTX_TX}"
    and "name_ok nm" and "0 \<le> spp_get_component_id s nm" and "a \<in> {SPP_CMD_ACTION_ADD, SPP_CMD_ACTION_DEL}"
    and "ov = 0 \<longrightarrow> a = SPP_CMD_ACTION_ADD \<longrightarrow> port_free s t no d"
  shows "decode_parameters (parameter_list SPP_CMDTYPE_PORT m s)
      (action_word a # port_word t no # rxtx_word d # nm # rest) ov (zero_command\<lparr>sc_type := SPP_CMDTYPE_PORT\<rparr>) err =
    decode_parameters [(''port vlan operation'', decode_port_vlan_operation), (''port vid'', decode_port_vid),
     (''port pcp'', decode_port_pcp)] rest ov (port_command a t no d nm zero_ability) err"
proof -
  define c1 where "c1 = (zero_command\<lparr>sc_type := SPP_CMDTYPE_PORT\<rparr>)
    \<lparr>sc_port := (sc_port zero_command)\<lparr>po_action := a\<rparr>\<rparr>"
  define c2 where "c2 = c1\<lparr>sc_port := (sc_port c1)\<lparr>po_port := port_index t no\<rparr>\<rparr>"
  define c3 where "c3 = c2\<lparr>sc_port := (sc_port c2)\<lparr>po_rxtx := d\<rparr>\<rparr>"
  have 1: "decode_port_action_value (zero_command\<lparr>sc_type := SPP_CMDTYPE_PORT\<rparr>) (action_word a) ov = Some (SPP_RET_OK, c1)"
    using assms(6) by (auto simp: decode_port_action_value_def c1_def)
  have 2: "decode_port_port_value s c1 (port_word t no) ov = Some (SPP_RET_OK, c2)"
    unfolding c2_def by (rule port_value_word [OF assms(1-3)]) (use assms(7) in \<open>simp add: c1_def\<close>)
  have 3: "decode_port_rxtx_value s c2 (rxtx_word d) ov = Some (SPP_RET_OK, c3)"
    unfolding c3_def by (rule rxtx_value_word [OF assms(3)]) (use assms(7) in \<open>simp_all add: c2_def c1_def\<close>)
  have "port_command a t no d nm zero_ability = c3\<lparr>sc_port := (sc_port c3)\<lparr>po_name := nm\<rparr>\<rparr>"
    by (simp add: port_command_def c3_def c2_def c1_def zero_command_def)
  then show ?thesis using 1 2 3 port_name_value [OF assms(4,5), of c3 ov] by simp
qed

lemma vlan_id_value:
  assumes "int v \<le> ETH_VLAN_ID_MAX"
  shows "get_int_value (show_nat v) 0 ETH_VLAN_ID_MAX = Some (int v)"
  by (rule get_int_value_show) (use assms in \<open>simp_all add: ETH_VLAN_ID_MAX_def\<close>)

lemma decode_port_tag:
  assumes "int v \<le> ETH_VLAN_ID_MAX" and "int p \<le> SPP_VLAN_PCP_MAX"
  shows "decode_parameters [(''port vlan operation'', decode_port_vlan_operation), (''port vid'', decode_port_vid),
     (''port pcp'', decode_port_pcp)] [''add_vlantag'', show_nat v, show_nat p] ov
     (port_command a t no d nm zero_ability) err =
    Some (SPP_RET_OK, port_command a t no d nm
     \<lparr>ope = SPP_PORT_ABILITY_OPE_ADD_VLANTAG, rxtx = d, data = \<lparr>vid = int v, pcp = int p, tci = 0\<rparr>\<rparr>, err)"
proof -
  have "get_int_value (show_nat p) 0 SPP_VLAN_PCP_MAX = Some (int p)"
    by (rule get_int_value_show) (use assms(2) in \<open>simp_all add: SPP_VLAN_PCP_MAX_def\<close>)
  then show ?thesis using vlan_id_value [OF assms(1)]
    by (simp add: decode_port_vlan_operation_def decode_port_vid_def decode_port_pcp_def port_command_def
        zero_ability_def zero_vlantag_def)
qed

lemma decode_table_port:
  assumes "table_ok s a v mac t no"
    and "ct_action (sc_table c) = a" and "ct_mac (sc_table c) = mac"
    and "ct_type (sc_table c) = SPP_CLASSIFIER_TYPE_MAC \<and> v = ETH_VLAN_ID_MAX \<or>
      ct_type (sc_table c) = SPP_CLASSIFIER_TYPE_VLAN \<and> ct_vid (sc_table c) = v"
  shows "decode_classifier_port_value s c (port_word t no) ov =
    Some (SPP_RET_OK, c\<lparr>sc_table := (sc_table c)\<lparr>ct_vid := v, ct_port := port_index t no\<rparr>\<rparr>)"
proof -
  have w: "decode_port_value (port_word t no) = Some (port_index t no)"
    using assms(1) port_word_value by (simp add: table_ok_def)
  obtain p k where pk: "load_port s (Some (t, int no)) = Some p" "iface_type p \<noteq> UNDEF"
      "spp_change_mac_str_to_int64 mac = Some k" "0 \<le> k"
      "a = SPP_CMD_ACTION_ADD \<and> mac_addr (class_id p) = 0 \<and> vid (vlantag (class_id p)) = ETH_VLAN_ID_MAX \<or>
       a = SPP_CMD_ACTION_DEL \<and> mac_addr (class_id p) = word_of_int k \<and> vid (vlantag (class_id p)) = v"
    using assms(1) by (auto simp: table_ok_def split: option.splits)
  have g: "get_iface_info t (int no) = Some (t, int no)"
    using assms(1) by (auto simp: table_ok_def iface_ok_def get_iface_info_def)
  show ?thesis using assms(2-4) w g pk
    by (auto simp: decode_classifier_port_value_def spp_check_added_port_def spp_check_classid_used_port_def port_index_def)
qed

lemma mac_value_word:
  assumes "table_ok s a v mac t no"
  shows "decode_mac_addr_str_value c mac ov = Some (SPP_RET_OK, c\<lparr>sc_table := (sc_table c)\<lparr>ct_mac := mac\<rparr>\<rparr>)"
  using assms by (auto simp: table_ok_def decode_mac_addr_str_value_def strcpy_buf_def word_ok_def split: option.splits)

lemma decode_request_words:
  assumes "wf_mng s" and "request_ok m s r"
  shows "\<exists>nm args ty mx. request_words r = nm # args \<and> Suc (length args) \<le> SPP_CMD_MAX_PARAMETERS \<and>
    find_command command_list nm (Suc (length args)) False = Inr (ty, mx) \<and> ty = sc_type (request_command r) \<and>
    decode_command_parameter m s ty (nm # args) mx (zero_command\<lparr>sc_type := ty\<rparr>) err =
      Some (SPP_RET_OK, request_command r, err)"
proof (cases r)
  case (Component_Start nm lc t)
  then show ?thesis using decode_component_start [of m s nm lc t 0 err] assms(2)
    by (simp add: command_list_def decode_command_parameter_def SPP_CMD_MAX_PARAMETERS_def)
next
  case (Component_Stop nm)
  then show ?thesis using decode_component_stop [of nm m s 0 err] assms(2)
    by (simp add: command_list_def decode_command_parameter_def SPP_CMD_MAX_PARAMETERS_def)
next
  case (Port_Op a t no d nm)
  then have "decode_parameters (parameter_list SPP_CMDTYPE_PORT m s) [action_word a, port_word t no, rxtx_word d, nm] 0
      (zero_command\<lparr>sc_type := SPP_CMDTYPE_PORT\<rparr>) err = Some (SPP_RET_OK, request_command r, err)"
    using decode_port_front [OF assms(1), of t no d nm a 0 m "[]" err] assms(2) by auto
  then show ?thesis using Port_Op
    by (simp add: command_list_def decode_command_parameter_def SPP_CMD_MAX_PARAMETERS_def port_command_def)
next
  case (Port_Add_Tag t no d nm v p)
  then have "decode_parameters (parameter_list SPP_CMDTYPE_PORT m s)
      [''add'', port_word t no, rxtx_word d, nm, ''add_vlantag'', show_nat v, show_nat p] 1
      (zero_command\<lparr>sc_type := SPP_CMDTYPE_PORT\<rparr>) err = Some (SPP_RET_OK, request_command r, err)"
    using decode_port_front [OF assms(1), of t no d nm SPP_CMD_ACTION_ADD 1 m "[''add_vlantag'', show_nat v, show_nat p]" err]
      decode_port_tag [of v p 1 SPP_CMD_ACTION_ADD t no d nm err] assms(2) by simp
  then show ?thesis using Port_Add_Tag
    by (simp add: command_list_def decode_command_parameter_def SPP_CMD_MAX_PARAMETERS_def port_command_def)
next
  case (Port_Del_Tag t no d nm)
  then have "decode_parameters (parameter_list SPP_CMDTYPE_PORT m s)
      [''add'', port_word t no, rxtx_word d, nm, ''del_vlantag''] 0
      (zero_command\<lparr>sc_type := SPP_CMDTYPE_PORT\<rparr>) err = Some (SPP_RET_OK, request_command r, err)"
    using decode_port_front [OF assms(1), of t no d nm SPP_CMD_ACTION_ADD 0 m "[''del_vlantag'']" err] assms(2)
    by (simp add: decode_port_vlan_operation_def port_command_def zero_ability_def)
  then show ?thesis using Port_Del_Tag
    by (simp add: command_list_def decode_command_parameter_def SPP_CMD_MAX_PARAMETERS_def port_command_def)
next
  case (Table_Mac a mac t no)
  then have k: "table_ok s a ETH_VLAN_ID_MAX mac t no" "a \<noteq> SPP_CMD_ACTION_NONE" "a \<in> {SPP_CMD_ACTION_ADD, SPP_CMD_ACTION_DEL}"
    using assms(2) by (auto simp: table_ok_def split: option.splits)
  show ?thesis using Table_Mac k decode_table_port [OF k(1)] mac_value_word [OF k(1)]
    by (simp add: command_list_def decode_command_parameter_def SPP_CMD_MAX_PARAMETERS_def table_command_def
        decode_classifier_action_value_def decode_classifier_type_value_def zero_command_def)
next
  case (Table_Vlan a v mac t no)
  then have k: "table_ok s a (int v) mac t no" "a \<noteq> SPP_CMD_ACTION_NONE" "a \<in> {SPP_CMD_ACTION_ADD, SPP_CMD_ACTION_DEL}"
      "int v \<le> ETH_VLAN_ID_MAX"
    using assms(2) by (auto simp: table_ok_def split: option.splits)
  show ?thesis using Table_Vlan k(2,3) decode_table_port [OF k(1)] mac_value_word [OF k(1)] vlan_id_value [OF k(4)]
    by (simp add: command_list_def decode_command_parameter_def SPP_CMD_MAX_PARAMETERS_def table_command_def
        decode_classifier_action_value_def decode_classifier_type_value_def decode_classifier_vid_value_def zero_command_def)
qed (simp_all add: command_list_def decode_command_parameter_def SPP_CMD_MAX_PARAMETERS_def)

lemma length_show_nat: "0 < k \<Longrightarrow> n < 10 ^ k \<Longrightarrow> length (show_nat n) \<le> k"
proof (induction k arbitrary: n)
  case (Suc k)
  show ?case
  proof (cases "n < 10")
    case False
    then have "0 < k" using Suc.prems by (cases k) simp_all
    moreover have "n div 10 < 10 ^ k" using Suc.prems by (simp add: less_mult_imp_div_less mult.commute)
    ultimately show ?thesis using Suc.IH False by (subst show_nat.simps) simp
  qed (subst show_nat.simps, simp)
qed simp

lemma show_nat_word:
  assumes "n < 2 ^ 32"
  shows "CHR '' '' \<notin> set (show_nat n) \<and> length (show_nat n) \<le> 10 \<and> show_nat n \<noteq> []"
proof -
  have "length (show_nat n) \<le> 10" using assms by (intro length_show_nat) simp_all
  moreover have "CHR '' '' \<notin> set (show_nat n)"
  proof
    assume "CHR '' '' \<in> set (show_nat n)"
    then obtain k where "k < 10" "CHR '' '' = digit_char k" using show_nat_digits by blast
    moreover have "ord_of (CHR '' '') = 32" by (simp add: ord_of_def)
    ultimately show False using ord_digit_char [of k] by simp
  qed
  ultimately show ?thesis by simp
qed

lemma words_ok [simp]:
  "name_ok nm \<Longrightarrow> word_ok nm" "word_ok (action_word a)" "word_ok (type_word t)" "word_ok (rxtx_word d)"
  "iface_ok i no \<Longrightarrow> word_ok (port_word i no)" "n < 2 ^ 32 \<Longrightarrow> word_ok (show_nat n)"
proof -
  show "name_ok nm \<Longrightarrow> word_ok nm"
    by (simp add: name_ok_def word_ok_def SPP_CMD_NAME_BUFSZ_def SPP_CMD_VALUE_BUFSZ_def)
  show "word_ok (action_word a)" by (cases a) (simp_all add: word_ok_def SPP_CMD_VALUE_BUFSZ_def)
  show "word_ok (type_word t)" by (cases t) (simp_all add: word_ok_def SPP_CMD_VALUE_BUFSZ_def)
  show "word_ok (rxtx_word d)" by (simp add: word_ok_def SPP_CMD_VALUE_BUFSZ_def rxtx_word_def)
  show "n < 2 ^ 32 \<Longrightarrow> word_ok (show_nat n)"
    using show_nat_word [of n] by (simp add: word_ok_def SPP_CMD_VALUE_BUFSZ_def)
  show "iface_ok i no \<Longrightarrow> word_ok (port_word i no)"
    using show_nat_word [of no] by (auto simp: iface_ok_def word_ok_def SPP_CMD_VALUE_BUFSZ_def port_word_def
        spp_format_port_string_def show_int_def)
qed

lemma request_words_ok:
  assumes "request_ok m s r"
  shows "\<forall>w\<in>set (request_words r). word_ok w"
proof -
  have v: "word_ok ''component''" "word_ok ''port''" "word_ok ''classifier_table''" "word_ok ''start''" "word_ok ''stop''"
    "word_ok ''add''" "word_ok ''add_vlantag''" "word_ok ''del_vlantag''" "word_ok ''mac''" "word_ok ''vlan''"
    "word_ok ''_get_client_id''" "word_ok ''status''" "word_ok ''exit''"
    by (simp_all add: word_ok_def SPP_CMD_VALUE_BUFSZ_def)
  have n: "int k \<le> ETH_VLAN_ID_MAX \<Longrightarrow> word_ok (show_nat k)" "int k \<le> SPP_VLAN_PCP_MAX \<Longrightarrow> word_ok (show_nat k)" for k
    by (intro words_ok(6), simp add: ETH_VLAN_ID_MAX_def SPP_VLAN_PCP_MAX_def)+
  have k: "table_ok s a x mac i no \<Longrightarrow> word_ok mac" "table_ok s a x mac i no \<Longrightarrow> iface_ok i no" for a x mac i no
    by (simp_all add: table_ok_def)
  show ?thesis using assms
  proof (cases r)
    case (Table_Vlan a x mac i no)
    then show ?thesis using assms k [of a "int x" mac i no] n by (simp add: v)
  next
    case (Table_Mac a mac i no)
    then show ?thesis using assms k [of a ETH_VLAN_ID_MAX mac i no] by (simp add: v)
  qed (simp_all add: v n)
qed

text \<open>Every accepted line is decoded to its command.\<close>

lemma decode_request_line:
  assumes "wf_mng s" and "request_ok m s r"
  shows "spp_command_decode_request m s zero_request (join (request_words r)) err =
    Some (SPP_RET_OK, decoded_request (request_command r), err)"
proof -
  let ?q = "zero_request\<lparr>num_command := 1\<rparr>" and ?c = "request_command r"
  obtain nm args ty mx where a: "request_words r = nm # args" "Suc (length args) \<le> SPP_CMD_MAX_PARAMETERS"
    "find_command command_list nm (Suc (length args)) False = Inr (ty, mx)" "ty = sc_type ?c"
    "decode_command_parameter m s ty (nm # args) mx (zero_command\<lparr>sc_type := ty\<rparr>) err = Some (SPP_RET_OK, ?c, err)"
    using decode_request_words [OF assms] by blast
  have z: "rd (commands ?q) 0 = Some zero_command"
    by (simp add: zero_request_def SPP_CMD_MAX_COMMANDS_def rd_def)
  have "decode_command_in_list m s ?q (join (request_words r)) err = Some (SPP_RET_OK, set_command0 ?c ?q, err)"
    using decode_words [of nm args m s ?q err] request_words_ok [OF assms(2)] a z by simp
  moreover have "rd (commands (set_command0 ?c ?q)) 0 = Some ?c"
    by (simp add: set_command0_def zero_request_def SPP_CMD_MAX_COMMANDS_def rd_def)
  ultimately show ?thesis
    by (cases "sc_type ?c") (simp_all add: spp_command_decode_request_def decoded_request_def set_command0_def zero_request_def)
qed


end
