(* ===== verification/Command_Safety.thy ===== *)
theory Command_Safety
  imports Command_Text
begin

text \<open>
  What holds of every line that the decoder accepts or rejects: the ranges of the values of a
  decoded command, the error codes, and the strings that do not fit their buffers.
\<close>

section \<open>Accepted lines\<close>

text \<open>A condition that each parameter establishes for the next.\<close>

lemma decode_parameters_invariant:
  assumes "decode_parameters lst args fl c err = Some (ret, c', err')" and "ret \<noteq> 5" and "P 0 c"
    and "\<And>k c arg r c1. k < length args \<Longrightarrow> k < length lst \<Longrightarrow> P k c \<Longrightarrow>
      snd (lst ! k) c arg fl = Some (r, c1) \<Longrightarrow> 0 \<le> r \<Longrightarrow> P (Suc k) c1"
  shows "P (length args) c' \<and> ret = SPP_RET_OK \<and> err' = err"
  using assms
proof (induction lst args fl c err arbitrary: P rule: decode_parameters.induct)
  case (3 nm f lst arg args fl c err)
  obtain r c1 where f: "f c arg fl = Some (r, c1)"
    using 3(2) by (auto simp: bind_Some_iff)
  have r: "0 \<le> r"
  proof (rule ccontr)
    assume "\<not> 0 \<le> r"
    then have "ret = 5" using 3(2) f
      by (auto simp: set_string_value_decode_error_def set_decode_error_def bind_Some_iff strcpy_buf_def split: if_splits)
    then show False using 3(3) by simp
  qed
  then have "decode_parameters lst args fl c1 err = Some (ret, c', err')" using 3(2) f by simp
  moreover have "P (Suc 0) c1" using 3(5) [of 0 c arg r c1] 3(4) f r by simp
  moreover have "P (Suc (Suc k)) c2" if "k < length args" "k < length lst" "P (Suc k) ca" "snd (lst ! k) ca b fl = Some (q, c2)" "0 \<le> q" for k ca b q c2
    using 3(5) [of "Suc k" ca b q c2] that by simp
  ultimately show ?case
    using 3(1) [OF f refl, where P = "\<lambda>k. P (Suc k)"] r 3(3) by simp
qed simp_all

text \<open>The ranges of the three kinds of commands after k parameters.\<close>

definition component_inv :: "secondary_type \<Rightarrow> 'z manage_data_scheme \<Rightarrow> nat \<Rightarrow> spp_command \<Rightarrow> bool" where
  "component_inv m s k c \<longleftrightarrow> (let co = sc_component c in sc_type c = SPP_CMDTYPE_COMPONENT \<and>
     (1 \<le> k \<longrightarrow> co_action co \<in> {SPP_CMD_ACTION_START, SPP_CMD_ACTION_STOP}) \<and>
     (2 \<le> k \<longrightarrow> length (co_name co) < SPP_CMD_NAME_BUFSZ \<and>
        (co_action co = SPP_CMD_ACTION_START \<longrightarrow> spp_get_component_id s (co_name co) < 0)) \<and>
     0 \<le> co_core co \<and> (co_core co = 0 \<or> co_core co < int (length (g_core_info s))) \<and>
     (4 \<le> k \<longrightarrow> co_action co = SPP_CMD_ACTION_START \<longrightarrow> co_type co \<noteq> SPP_COMPONENT_UNUSE))"

definition port_inv :: "'z manage_data_scheme \<Rightarrow> nat \<Rightarrow> spp_command \<Rightarrow> bool" where
  "port_inv s k c \<longleftrightarrow> (let po = sc_port c; ab = po_ability po in sc_type c = SPP_CMDTYPE_PORT \<and>
     (1 \<le> k \<longrightarrow> po_action po \<in> {SPP_CMD_ACTION_ADD, SPP_CMD_ACTION_DEL}) \<and>
     (2 \<le> k \<longrightarrow> pi_iface_type (po_port po) \<in> {PHY, VHOST, RING}) \<and>
     (3 \<le> k \<longrightarrow> po_rxtx po \<in> {SPP_PORT_RXTX_RX, SPP_PORT_RXTX_TX}) \<and>
     (4 \<le> k \<longrightarrow> length (po_name po) < SPP_CMD_NAME_BUFSZ \<and> 0 \<le> spp_get_component_id s (po_name po)) \<and>
     (if k \<le> 4 then ope ab = SPP_PORT_ABILITY_OPE_NONE
      else ope ab \<noteq> SPP_PORT_ABILITY_OPE_NONE \<and> rxtx ab = po_rxtx po) \<and>
     0 \<le> vid (data ab) \<and> vid (data ab) \<le> ETH_VLAN_ID_MAX \<and>
     - 1 \<le> pcp (data ab) \<and> pcp (data ab) \<le> SPP_VLAN_PCP_MAX \<and>
     (7 \<le> k \<longrightarrow> ope ab = SPP_PORT_ABILITY_OPE_ADD_VLANTAG \<longrightarrow> 0 \<le> pcp (data ab)))"

lemma action_value_in: "action_value A w = Some a \<Longrightarrow> a \<in> A"
  by (auto simp: action_value_def Let_def bind_Some_iff split: if_splits)

lemma str_value_fits: "decode_str_value sz w = Some (r, v) \<Longrightarrow> 0 \<le> r \<Longrightarrow> v = w \<and> length w < sz"
  by (auto simp: decode_str_value_def strcpy_buf_def bind_Some_iff split: if_splits)

lemma convert_type_code: "0 < component_type_code t \<longleftrightarrow> t \<noteq> SPP_COMPONENT_UNUSE"
  by (cases t) simp_all

lemma component_inv_step:
  assumes "k < 4" and "component_inv m s k c"
    and "snd (parameter_list SPP_CMDTYPE_COMPONENT m s ! k) c arg fl = Some (r, c1)" and "0 \<le> r"
  shows "component_inv m s (Suc k) c1"
proof -
  consider "k = 0" | "k = 1" | "k = 2" | "k = 3" using assms(1) by linarith
  then show ?thesis
  proof cases
    case 1
    then obtain a where "action_value {SPP_CMD_ACTION_START, SPP_CMD_ACTION_STOP} arg = Some a"
      "c1 = c\<lparr>sc_component := (sc_component c)\<lparr>co_action := a\<rparr>\<rparr>"
      using assms(3,4) by (auto simp: decode_component_action_value_def split: option.splits)
    then show ?thesis using assms(2) 1 action_value_in by (fastforce simp: component_inv_def Let_def)
  next
    case 2
    then obtain v where "decode_str_value SPP_CMD_NAME_BUFSZ arg = Some (SPP_RET_OK, v)"
      "c1 = c\<lparr>sc_component := (sc_component c)\<lparr>co_name := v\<rparr>\<rparr>"
      "co_action (sc_component c) = SPP_CMD_ACTION_START \<longrightarrow> spp_get_component_id s arg < 0"
      using assms(3,4) by (auto simp: decode_component_name_value_def decode_str_value_def bind_Some_iff split: if_splits)
    then show ?thesis using assms(2) 2 str_value_fits [of _ arg 0 v] by (auto simp: component_inv_def Let_def)
  next
    case 3
    then show ?thesis using assms(2-4)
      by (auto simp: decode_component_core_value_def decode_core_value_def component_inv_def Let_def numeral_2_eq_2
          dest!: get_uint_value_bounds split: if_splits option.splits)
  next
    case 4
    then show ?thesis using assms(2-4)
      by (auto simp: decode_component_type_value_def component_inv_def Let_def convert_type_code numeral_3_eq_3
          not_le split: if_splits)
  qed
qed

lemma port_inv_step:
  assumes "k < 7" and "port_inv s k c"
    and "snd (parameter_list SPP_CMDTYPE_PORT m s ! k) c arg fl = Some (r, c1)" and "0 \<le> r"
  shows "port_inv s (Suc k) c1"
proof -
  consider "k = 0" | "k = 1" | "k = 2" | "k = 3" | "k = 4" | "k = 5" | "k = 6" using assms(1) by linarith
  then show ?thesis
  proof cases
    case 1
    then obtain a where "action_value {SPP_CMD_ACTION_ADD, SPP_CMD_ACTION_DEL} arg = Some a"
      "c1 = c\<lparr>sc_port := (sc_port c)\<lparr>po_action := a\<rparr>\<rparr>"
      using assms(3,4) by (auto simp: decode_port_action_value_def split: option.splits)
    then show ?thesis using assms(2) 1 action_value_in by (fastforce simp: port_inv_def Let_def)
  next
    case 2
    then obtain p where "spp_convert_port_to_iface arg = Some p"
      "c1 = c\<lparr>sc_port := (sc_port c)\<lparr>po_port := p\<rparr>\<rparr>"
      using assms(3,4) by (auto simp: decode_port_port_value_def decode_port_value_def bind_Some_iff split: option.splits if_splits)
    then show ?thesis using assms(2) 2 convert_port_type by (auto simp: port_inv_def Let_def)
  next
    case 3
    then obtain d where d: "enum_at PORT_RXTX_STRINGS (get_arrary_index arg PORT_RXTX_STRINGS) = Some d"
      "0 < get_arrary_index arg PORT_RXTX_STRINGS" "c1 = c\<lparr>sc_port := (sc_port c)\<lparr>po_rxtx := d\<rparr>\<rparr>"
      using assms(3,4) by (auto simp: decode_port_rxtx_value_def numeral_2_eq_2 Let_def bind_Some_iff split: if_splits)
    have "d \<in> {SPP_PORT_RXTX_RX, SPP_PORT_RXTX_TX}"
      using d(1,2) by (auto simp: PORT_RXTX_STRINGS_def get_arrary_index_def enum_at_def rd_def split: if_splits)
    then show ?thesis using assms(2) 3 d(3) by (auto simp: port_inv_def Let_def)
  next
    case 4
    then obtain v where "decode_str_value SPP_CMD_NAME_BUFSZ arg = Some (SPP_RET_OK, v)"
      "c1 = c\<lparr>sc_port := (sc_port c)\<lparr>po_name := v\<rparr>\<rparr>" "0 \<le> spp_get_component_id s arg"
      using assms(3,4) by (auto simp: decode_port_name_value_def decode_str_value_def numeral_3_eq_3 bind_Some_iff split: if_splits)
    then show ?thesis using assms(2) 4 str_value_fits [of _ arg 0 v] by (auto simp: port_inv_def Let_def)
  next
    case 5
    then have n: "ope (po_ability (sc_port c)) = SPP_PORT_ABILITY_OPE_NONE" using assms(2) by (simp add: port_inv_def Let_def)
    then obtain op where d: "enum_at PORT_ABILITY_STRINGS (get_arrary_index arg PORT_ABILITY_STRINGS) = Some op"
      "0 < get_arrary_index arg PORT_ABILITY_STRINGS"
      "c1 = c\<lparr>sc_port := (sc_port c)\<lparr>po_ability := (po_ability (sc_port c))\<lparr>ope := op, rxtx := po_rxtx (sc_port c)\<rparr>\<rparr>\<rparr>"
      using assms(3,4) 5 by (auto simp: decode_port_vlan_operation_def Let_def bind_Some_iff split: if_splits)
    have "op \<noteq> SPP_PORT_ABILITY_OPE_NONE"
      using d(1,2) by (auto simp: PORT_ABILITY_STRINGS_def get_arrary_index_def enum_at_def rd_def split: if_splits)
    then show ?thesis using assms(2) 5 d(3) by (simp add: port_inv_def Let_def)
  next
    case 6
    then show ?thesis using assms(2-4)
      by (auto simp: decode_port_vid_def port_inv_def Let_def SPP_VLAN_PCP_MAX_def dest!: get_int_value_bounds
          split: if_splits option.splits)
  next
    case 7
    then show ?thesis using assms(2-4)
      by (auto simp: decode_port_pcp_def port_inv_def Let_def dest!: get_int_value_bounds
          split: if_splits option.splits)
  qed
qed

text \<open>The classifier commands have their MAC address after parameter mk and their port after
  parameter pk.\<close>

definition mac_valid :: "string \<Rightarrow> bool" where
  "mac_valid w \<longleftrightarrow> (case spp_change_mac_str_to_int64 w of None \<Rightarrow> False | Some v \<Rightarrow> 0 \<le> v)"

definition table_port_ok :: "'z manage_data_scheme \<Rightarrow> spp_command_classifier_table \<Rightarrow> bool" where
  "table_port_ok s ct \<longleftrightarrow> pi_iface_type (ct_port ct) \<in> {PHY, VHOST, RING} \<and>
     (ct_type ct = SPP_CLASSIFIER_TYPE_MAC \<longrightarrow> ct_vid ct = ETH_VLAN_ID_MAX) \<and>
     (case load_port s (get_iface_info (pi_iface_type (ct_port ct)) (pi_iface_no (ct_port ct))) of
        None \<Rightarrow> False
      | Some p \<Rightarrow> iface_type p \<noteq> UNDEF \<and>
          (if ct_action ct = SPP_CMD_ACTION_ADD
           then mac_addr (class_id p) = 0 \<and> vid (vlantag (class_id p)) = ETH_VLAN_ID_MAX
           else map_option word_of_int (spp_change_mac_str_to_int64 (ct_mac ct)) = Some (mac_addr (class_id p)) \<and>
             vid (vlantag (class_id p)) = ct_vid ct))"

definition table_inv :: "spp_command_type \<Rightarrow> 'z manage_data_scheme \<Rightarrow> nat \<Rightarrow> nat \<Rightarrow> nat \<Rightarrow> spp_command \<Rightarrow> bool" where
  "table_inv ty s mk pk k c \<longleftrightarrow> (let ct = sc_table c in sc_type c = ty \<and>
     (1 \<le> k \<longrightarrow> ct_action ct \<in> {SPP_CMD_ACTION_ADD, SPP_CMD_ACTION_DEL}) \<and>
     (2 \<le> k \<longrightarrow> ct_type ct \<in> {SPP_CLASSIFIER_TYPE_MAC, SPP_CLASSIFIER_TYPE_VLAN}) \<and>
     0 \<le> ct_vid ct \<and> ct_vid ct \<le> ETH_VLAN_ID_MAX \<and>
     (mk \<le> k \<longrightarrow> mac_valid (ct_mac ct)) \<and> (pk \<le> k \<longrightarrow> table_port_ok s ct))"

lemma table_inv_action:
  assumes "table_inv ty s mk pk 0 c" and "1 < mk" and "1 < pk"
    and "decode_classifier_action_value c arg fl = Some (r, c1)" and "0 \<le> r"
  shows "table_inv ty s mk pk 1 c1"
proof -
  obtain a where "action_value {SPP_CMD_ACTION_ADD, SPP_CMD_ACTION_DEL} arg = Some a"
    "c1 = c\<lparr>sc_table := (sc_table c)\<lparr>ct_action := a\<rparr>\<rparr>"
    using assms(4,5) by (auto simp: decode_classifier_action_value_def split: option.splits)
  then show ?thesis using assms(1-3) action_value_in by (fastforce simp: table_inv_def Let_def)
qed

lemma table_inv_type:
  assumes "table_inv ty s mk pk 1 c" and "2 < mk" and "2 < pk"
    and "decode_classifier_type_value c arg fl = Some (r, c1)" and "0 \<le> r"
  shows "table_inv ty s mk pk 2 c1"
proof -
  obtain t where d: "enum_at CLASSIFILER_TYPE_STRINGS (get_arrary_index arg CLASSIFILER_TYPE_STRINGS) = Some t"
      "0 < get_arrary_index arg CLASSIFILER_TYPE_STRINGS" "c1 = c\<lparr>sc_table := (sc_table c)\<lparr>ct_type := t\<rparr>\<rparr>"
    using assms(4,5) by (auto simp: decode_classifier_type_value_def Let_def bind_Some_iff split: if_splits)
  have "t \<in> {SPP_CLASSIFIER_TYPE_MAC, SPP_CLASSIFIER_TYPE_VLAN}"
    using d(1,2) by (auto simp: CLASSIFILER_TYPE_STRINGS_def get_arrary_index_def enum_at_def rd_def split: if_splits)
  then show ?thesis using assms(1-3) d(3) by (auto simp: table_inv_def Let_def)
qed

lemma table_inv_mac:
  assumes "table_inv ty s (Suc k) pk k c" and "Suc k < pk" and "2 \<le> k"
    and "decode_mac_addr_str_value c arg fl = Some (r, c1)" and "0 \<le> r"
  shows "table_inv ty s (Suc k) pk (Suc k) c1"
proof -
  obtain v w where "spp_change_mac_str_to_int64 w = Some v" "0 \<le> v" "c1 = c\<lparr>sc_table := (sc_table c)\<lparr>ct_mac := w\<rparr>\<rparr>"
    using assms(4,5) by (auto simp: decode_mac_addr_str_value_def Let_def bind_Some_iff strcpy_buf_def split: if_splits)
  then show ?thesis using assms(1-3) by (auto simp: table_inv_def Let_def mac_valid_def)
qed

lemma table_inv_vid:
  assumes "table_inv ty s 4 5 2 c" and "decode_classifier_vid_value c arg fl = Some (r, c1)" and "0 \<le> r"
  shows "table_inv ty s 4 5 3 c1"
  using assms by (auto simp: decode_classifier_vid_value_def table_inv_def Let_def dest!: get_int_value_bounds split: option.splits)

lemma table_inv_port:
  assumes "table_inv ty s mk (Suc k) k c" and "2 \<le> k" and "mk \<le> k"
    and "decode_classifier_port_value s c arg fl = Some (r, c1)" and "0 \<le> r"
  shows "table_inv ty s mk (Suc k) (Suc k) c1"
proof -
  have inv: "sc_type c = ty" "ct_action (sc_table c) \<in> {SPP_CMD_ACTION_ADD, SPP_CMD_ACTION_DEL}"
    "ct_type (sc_table c) \<in> {SPP_CLASSIFIER_TYPE_MAC, SPP_CLASSIFIER_TYPE_VLAN}" "0 \<le> ct_vid (sc_table c)"
    "ct_vid (sc_table c) \<le> ETH_VLAN_ID_MAX" "mac_valid (ct_mac (sc_table c))"
    using assms(1-3) by (simp_all add: table_inv_def Let_def)
  define t where "t = (if ct_type (sc_table c) = SPP_CLASSIFIER_TYPE_MAC
    then (sc_table c)\<lparr>ct_vid := ETH_VLAN_ID_MAX\<rparr> else sc_table c)"
  have tf: "ct_action t = ct_action (sc_table c)" "ct_type t = ct_type (sc_table c)" "ct_mac t = ct_mac (sc_table c)"
    by (simp_all add: t_def)
  obtain p q where p: "spp_convert_port_to_iface arg = Some p"
      "load_port s (get_iface_info (pi_iface_type p) (pi_iface_no p)) = Some q" "iface_type q \<noteq> UNDEF"
      "c1 = c\<lparr>sc_table := t\<lparr>ct_port := p\<rparr>\<rparr>"
    and ok: "(if ct_action t = SPP_CMD_ACTION_ADD then Some (0 = mac_addr (class_id q) \<and> ETH_VLAN_ID_MAX = vid (vlantag (class_id q)))
      else do {
        mac \<leftarrow> spp_change_mac_str_to_int64 (ct_mac t);
        if mac < 0 then Some False
        else Some (word_of_int mac = mac_addr (class_id q) \<and> ct_vid t = vid (vlantag (class_id q)))
      }) = Some True"
    using assms(4,5) inv(2)
    unfolding decode_classifier_port_value_def decode_port_value_def spp_check_added_port_def
      spp_check_classid_used_port_def Let_def t_def [symmetric]
    by (auto simp: bind_Some_iff tf split: option.splits if_splits)
  have "table_port_ok s (t\<lparr>ct_port := p\<rparr>)"
    using p(2,3) ok convert_port_type [OF p(1)] inv(2)
    by (auto simp: table_port_ok_def bind_Some_iff t_def split: if_splits)
  then show ?thesis using inv p(4) by (auto simp: table_inv_def Let_def t_def ETH_VLAN_ID_MAX_def)
qed

lemma table_mac_step:
  assumes "k < 4" and "table_inv SPP_CMDTYPE_CLASSIFIER_TABLE_MAC s 3 4 k c"
    and "snd (parameter_list SPP_CMDTYPE_CLASSIFIER_TABLE_MAC m s ! k) c arg fl = Some (r, c1)" and "0 \<le> r"
  shows "table_inv SPP_CMDTYPE_CLASSIFIER_TABLE_MAC s 3 4 (Suc k) c1"
proof -
  consider "k = 0" | "k = 1" | "k = 2" | "k = 3" using assms(1) by linarith
  then show ?thesis
  proof cases
    case 1
    then show ?thesis using assms(2-4) table_inv_action [of _ s 3 4 c arg fl r c1] by simp
  next
    case 2
    then show ?thesis using assms(2-4) table_inv_type [of _ s 3 4 c arg fl r c1] by (simp add: numeral_2_eq_2)
  next
    case 3
    then show ?thesis using assms(2-4) table_inv_mac [of _ s 2 4 c arg fl r c1] by (simp add: numeral_eq_Suc)
  next
    case 4
    then show ?thesis using assms(2-4) table_inv_port [of _ s 3 3 c arg fl r c1] by (simp add: numeral_eq_Suc)
  qed
qed

lemma table_vlan_step:
  assumes "k < 5" and "table_inv SPP_CMDTYPE_CLASSIFIER_TABLE_VLAN s 4 5 k c"
    and "snd (parameter_list SPP_CMDTYPE_CLASSIFIER_TABLE_VLAN m s ! k) c arg fl = Some (r, c1)" and "0 \<le> r"
  shows "table_inv SPP_CMDTYPE_CLASSIFIER_TABLE_VLAN s 4 5 (Suc k) c1"
proof -
  consider "k = 0" | "k = 1" | "k = 2" | "k = 3" | "k = 4" using assms(1) by linarith
  then show ?thesis
  proof cases
    case 1
    then show ?thesis using assms(2-4) table_inv_action [of _ s 4 5 c arg fl r c1] by simp
  next
    case 2
    then show ?thesis using assms(2-4) table_inv_type [of _ s 4 5 c arg fl r c1] by (simp add: numeral_2_eq_2)
  next
    case 3
    then show ?thesis using assms(2-4) table_inv_vid [of _ s c arg fl r c1] by (simp add: numeral_eq_Suc)
  next
    case 4
    then show ?thesis using assms(2-4) table_inv_mac [of _ s 3 5 c arg fl r c1] by (simp add: numeral_eq_Suc)
  next
    case 5
    then show ?thesis using assms(2-4) table_inv_port [of _ s 4 4 c arg fl r c1] by (simp add: numeral_eq_Suc)
  qed
qed

definition command_inv :: "secondary_type \<Rightarrow> 'z manage_data_scheme \<Rightarrow> nat \<Rightarrow> spp_command \<Rightarrow> bool" where
  "command_inv m s k c \<longleftrightarrow> (case sc_type c of
     SPP_CMDTYPE_CLASSIFIER_TABLE_MAC \<Rightarrow> k = 4 \<and> table_inv SPP_CMDTYPE_CLASSIFIER_TABLE_MAC s 3 4 k c
   | SPP_CMDTYPE_CLASSIFIER_TABLE_VLAN \<Rightarrow> k = 5 \<and> table_inv SPP_CMDTYPE_CLASSIFIER_TABLE_VLAN s 4 5 k c
   | SPP_CMDTYPE_COMPONENT \<Rightarrow> k \<in> {2..4} \<and> component_inv m s k c
   | SPP_CMDTYPE_PORT \<Rightarrow> k \<in> {4..7} \<and> port_inv s k c
   | _ \<Rightarrow> k = 0)"

lemma find_command_arity:
  assumes "find_command command_list nm n False = Inr (ty, mx)"
  shows "case ty of SPP_CMDTYPE_CLASSIFIER_TABLE_MAC \<Rightarrow> n = 5 | SPP_CMDTYPE_CLASSIFIER_TABLE_VLAN \<Rightarrow> n = 6
    | SPP_CMDTYPE_COMPONENT \<Rightarrow> n \<in> {3..5} | SPP_CMDTYPE_PORT \<Rightarrow> n \<in> {5..8} | _ \<Rightarrow> n = 1"
  using assms by (auto simp: command_list_def split: if_splits)

lemma zero_invs:
  "component_inv m s 0 (zero_command\<lparr>sc_type := SPP_CMDTYPE_COMPONENT\<rparr>)"
  "port_inv s 0 (zero_command\<lparr>sc_type := SPP_CMDTYPE_PORT\<rparr>)"
  by (auto simp: component_inv_def port_inv_def zero_command_def Let_def ETH_VLAN_ID_MAX_def
      SPP_VLAN_PCP_MAX_def zero_ability_def zero_vlantag_def)

lemma length_parameter_list:
  "length (parameter_list ty m s) = (case ty of SPP_CMDTYPE_CLASSIFIER_TABLE_MAC \<Rightarrow> 4
    | SPP_CMDTYPE_CLASSIFIER_TABLE_VLAN \<Rightarrow> 5 | SPP_CMDTYPE_COMPONENT \<Rightarrow> 4 | SPP_CMDTYPE_PORT \<Rightarrow> 7 | _ \<Rightarrow> 0)"
  by (cases ty) simp_all

lemma decode_command_parameter_inv:
  assumes "find_command command_list nm (Suc (length args)) False = Inr (ty, mx)"
    and "decode_command_parameter m s ty (nm # args) mx (zero_command\<lparr>sc_type := ty\<rparr>) err = Some (ret, c, err')"
    and "ret \<noteq> 5"
  shows "command_inv m s (length args) c \<and> sc_type c = ty \<and> ret = SPP_RET_OK \<and> err' = err"
proof -
  define fl where "fl = (if ty = SPP_CMDTYPE_PORT \<and> Suc (length args) = mx then 1 else 0 :: int)"
  have run: "decode_parameters (parameter_list ty m s) args fl (zero_command\<lparr>sc_type := ty\<rparr>) err = Some (ret, c, err')"
    using assms(2) by (simp add: decode_command_parameter_def fl_def)
  note ar = find_command_arity [OF assms(1)]
  note len = length_parameter_list [of ty m s]
  note inv = decode_parameters_invariant [OF run assms(3)]
  show ?thesis
  proof (cases ty)
    case SPP_CMDTYPE_CLASSIFIER_TABLE_MAC
    have "table_inv ty s 3 4 0 (zero_command\<lparr>sc_type := ty\<rparr>)"
      by (simp add: table_inv_def zero_command_def ETH_VLAN_ID_MAX_def)
    then have "table_inv ty s 3 4 (length args) c \<and> ret = SPP_RET_OK \<and> err' = err"
    proof (rule inv)
      show "table_inv ty s 3 4 (Suc k) c1" if "k < length args" "k < length (parameter_list ty m s)" "table_inv ty s 3 4 k c0"
        "snd (parameter_list ty m s ! k) c0 arg fl = Some (r, c1)" "0 \<le> r" for k c0 arg r c1
        using that table_mac_step [of k s c0 m arg fl r c1] len unfolding SPP_CMDTYPE_CLASSIFIER_TABLE_MAC by simp
    qed
    then show ?thesis using ar SPP_CMDTYPE_CLASSIFIER_TABLE_MAC by (auto simp: command_inv_def table_inv_def Let_def)
  next
    case SPP_CMDTYPE_CLASSIFIER_TABLE_VLAN
    have "table_inv ty s 4 5 0 (zero_command\<lparr>sc_type := ty\<rparr>)"
      by (simp add: table_inv_def zero_command_def ETH_VLAN_ID_MAX_def)
    then have "table_inv ty s 4 5 (length args) c \<and> ret = SPP_RET_OK \<and> err' = err"
    proof (rule inv)
      show "table_inv ty s 4 5 (Suc k) c1" if "k < length args" "k < length (parameter_list ty m s)" "table_inv ty s 4 5 k c0"
        "snd (parameter_list ty m s ! k) c0 arg fl = Some (r, c1)" "0 \<le> r" for k c0 arg r c1
        using that table_vlan_step [of k s c0 m arg fl r c1] len unfolding SPP_CMDTYPE_CLASSIFIER_TABLE_VLAN by simp
    qed
    then show ?thesis using ar SPP_CMDTYPE_CLASSIFIER_TABLE_VLAN by (auto simp: command_inv_def table_inv_def Let_def)
  next
    case SPP_CMDTYPE_COMPONENT
    have "component_inv m s 0 (zero_command\<lparr>sc_type := ty\<rparr>)" using zero_invs(1) SPP_CMDTYPE_COMPONENT by simp
    then have "component_inv m s (length args) c \<and> ret = SPP_RET_OK \<and> err' = err"
    proof (rule inv)
      show "component_inv m s (Suc k) c1" if "k < length args" "k < length (parameter_list ty m s)" "component_inv m s k c0"
        "snd (parameter_list ty m s ! k) c0 arg fl = Some (r, c1)" "0 \<le> r" for k c0 arg r c1
        using that component_inv_step [of k m s c0 arg fl r c1] len unfolding SPP_CMDTYPE_COMPONENT by simp
    qed
    then show ?thesis using ar SPP_CMDTYPE_COMPONENT by (auto simp: command_inv_def component_inv_def Let_def)
  next
    case SPP_CMDTYPE_PORT
    have "port_inv s 0 (zero_command\<lparr>sc_type := ty\<rparr>)" using zero_invs(2) SPP_CMDTYPE_PORT by simp
    then have "port_inv s (length args) c \<and> ret = SPP_RET_OK \<and> err' = err"
    proof (rule inv)
      show "port_inv s (Suc k) c1" if "k < length args" "k < length (parameter_list ty m s)" "port_inv s k c0"
        "snd (parameter_list ty m s ! k) c0 arg fl = Some (r, c1)" "0 \<le> r" for k c0 arg r c1
        using that port_inv_step [of k s c0 m arg fl r c1] len unfolding SPP_CMDTYPE_PORT by simp
    qed
    then show ?thesis using ar SPP_CMDTYPE_PORT by (auto simp: command_inv_def port_inv_def Let_def)
  qed (use run ar assms(3) in \<open>auto simp: command_inv_def\<close>)
qed

text \<open>The ways in which the decoder of a line returns.\<close>

lemma string_error:
  "set_string_value_decode_error w nm err = Some (code, err') \<Longrightarrow> code = 5 \<and> de_code err' = 5 \<and> de_value err' = w \<and>
     de_value_name err' = nm \<and> length nm < SPP_CMD_NAME_BUFSZ"
  by (auto simp: set_string_value_decode_error_def set_decode_error_def strcpy_buf_def bind_Some_iff split: if_splits)

lemma decode_in_list_cases:
  assumes "decode_command_in_list m s q line err = Some (ret, q', err')"
  obtains (format) "ret = 1" "de_code err' = 1" "q' = q"
    | (unknown) nm args where "decode_parameter_value line SPP_CMD_MAX_PARAMETERS = Some (nm # args)"
        "set_string_value_decode_error nm ''command'' err = Some (ret, err')" "q' = q"
    | (found) nm args ty mx c0 c where "decode_parameter_value line SPP_CMD_MAX_PARAMETERS = Some (nm # args)"
        "find_command command_list nm (Suc (length args)) False = Inr (ty, mx)" "rd (commands q) 0 = Some c0"
        "decode_command_parameter m s ty (nm # args) mx (c0\<lparr>sc_type := ty\<rparr>) err = Some (ret, c, err')"
        "q' = set_command0 c q"
proof -
  have l: "strcpy_buf (SPP_CMD_MAX_PARAMETERS * SPP_CMD_VALUE_BUFSZ) line = Some line"
    using assms by (auto simp: decode_command_in_list_def strcpy_buf_def bind_Some_iff split: if_splits)
  note run = assms [unfolded decode_command_in_list_def l]
  show ?thesis
  proof (cases "decode_parameter_value line SPP_CMD_MAX_PARAMETERS")
    case None
    then show ?thesis using run by (intro format) (auto simp: set_decode_error_def)
  next
    case (Some ws)
    then obtain nm args where ws: "decode_parameter_value line SPP_CMD_MAX_PARAMETERS = Some (nm # args)"
      using run by (cases ws) auto
    consider (ok) ty mx where "find_command command_list nm (Suc (length args)) False = Inr (ty, mx)"
      | (arity) "find_command command_list nm (Suc (length args)) False = Inl True"
      | (no) "find_command command_list nm (Suc (length args)) False = Inl False"
      by (cases "find_command command_list nm (Suc (length args)) False") auto
    then show ?thesis
    proof cases
      case ok
      then show ?thesis using run ws found [OF ws ok] by (auto simp: bind_Some_iff)
    next
      case arity
      then show ?thesis using run ws by (intro format) (auto simp: set_decode_error_def)
    next
      case no
      then show ?thesis using run ws unknown [OF ws] by (auto simp: bind_Some_iff)
    qed
  qed
qed

text \<open>C13: Every line that is decoded without an error gives one command that is in range: its
  action, direction and interface type are among the allowed ones, a component to start has a
  name that no component has and fits its buffer, and an existing core; a port command names a
  component that exists, a VLAN id of at most 4095 and a priority of at most 7; a classifier
  entry has a valid MAC address, a VLAN id of at most 4095 and a port that was added before,
  which carries no entry when one is added and exactly this entry when it is deleted.\<close>
theorem decoded_command_in_range:
  assumes "spp_command_decode_request m s zero_request line err = Some (SPP_RET_OK, req, err')"
  shows "(\<exists>k. command_inv m s k (commands req ! 0)) \<and> req = decoded_request (commands req ! 0) \<and> err' = err"
proof -
  define q where "q = zero_request\<lparr>num_command := 1\<rparr>"
  have z: "rd (commands q) 0 = Some zero_command" by (simp add: q_def zero_request_def SPP_CMD_MAX_COMMANDS_def rd_def)
  obtain r q1 e1 where d: "decode_command_in_list m s q line err = Some (r, q1, e1)"
    using assms by (auto simp: spp_command_decode_request_def q_def bind_Some_iff)
  then have r: "r = 0" using assms by (auto simp: spp_command_decode_request_def q_def split: if_splits)
  then obtain c0 where c0: "rd (commands q1) 0 = Some c0"
    using assms d by (auto simp: spp_command_decode_request_def q_def bind_Some_iff)
  from d [unfolded r] obtain nm args ty mx c where f: "find_command command_list nm (Suc (length args)) False = Inr (ty, mx)"
      and c: "decode_command_parameter m s ty (nm # args) mx (zero_command\<lparr>sc_type := ty\<rparr>) err = Some (0, c, e1)"
        "q1 = set_command0 c q"
    by (cases rule: decode_in_list_cases) (auto simp: z dest: string_error)
  have inv: "command_inv m s (length args) c" "e1 = err"
    using decode_command_parameter_inv [OF f c(1)] by simp_all
  have "c0 = c" using c0 c(2) by (simp add: set_command0_def q_def zero_request_def SPP_CMD_MAX_COMMANDS_def rd_def)
  then have "req = decoded_request c \<and> err' = e1"
    using assms d r c0 c(2)
    by (cases "sc_type c") (auto simp: spp_command_decode_request_def q_def bind_Some_iff decoded_request_def
        set_command0_def zero_request_def)
  moreover have "commands (decoded_request c) ! 0 = c"
    by (simp add: decoded_request_def zero_request_def SPP_CMD_MAX_COMMANDS_def)
  ultimately show ?thesis using inv by auto
qed

section \<open>Rejected lines\<close>

lemma decode_parameters_error:
  "decode_parameters lst args fl c err = Some (ret, c', err') \<Longrightarrow> ret \<noteq> SPP_RET_OK \<Longrightarrow>
   ret = 5 \<and> de_code err' = 5 \<and> de_value err' \<in> set args \<and> length (de_value_name err') < SPP_CMD_NAME_BUFSZ"
proof (induction lst args fl c err rule: decode_parameters.induct)
  case (3 nm f lst arg args fl c err)
  obtain r c1 where f: "f c arg fl = Some (r, c1)" using 3(2) by (auto simp: bind_Some_iff)
  show ?case
  proof (cases "r < 0")
    case True
    then have "set_string_value_decode_error arg nm err = Some (ret, err')"
      using 3(2) f by (auto simp: bind_Some_iff)
    from string_error [OF this] show ?thesis by simp
  next
    case False
    then show ?thesis using 3(1) [OF f refl] 3(2,3) f by auto
  qed
qed simp_all

lemma word_of_line: "w \<in> set (nm # args) \<Longrightarrow> decode_parameter_value line mx = Some (nm # args) \<Longrightarrow>
    w \<in> set (tokens (\<lambda>c. c = CHR '' '') line)"
  by (simp add: decode_parameter_value_def Let_def split: if_splits)

text \<open>A line that is rejected leaves the request without a valid command and without a query, and
  the error returned is the one recorded: either the format error, or the value error with a
  word of the line as its value and a name that fits its buffer.\<close>

lemma decode_rejects:
  assumes "spp_command_decode_request m s req line err = Some (ret, req', err')" and "ret \<noteq> SPP_RET_OK"
  shows "de_code err' = ret \<and> num_valid_command req' = num_valid_command req \<and>
    is_requested_exit req' = is_requested_exit req \<and> num_command req' = 1 \<and>
    (ret = decode_error_number SPP_CMD_DERR_BAD_FORMAT \<or>
     ret = decode_error_number SPP_CMD_DERR_BAD_VALUE \<and> de_value err' \<in> set (tokens (\<lambda>c. c = CHR '' '') line) \<and>
     length (de_value_name err') < SPP_CMD_NAME_BUFSZ)"
proof -
  define q where "q = req\<lparr>num_command := 1\<rparr>"
  have d: "decode_command_in_list m s q line err = Some (ret, req', err')"
    using assms by (auto simp: spp_command_decode_request_def q_def bind_Some_iff Let_def split: if_splits)
  then show ?thesis
  proof (cases rule: decode_in_list_cases)
    case format
    then show ?thesis by (simp add: q_def)
  next
    case (unknown nm args)
    then show ?thesis using string_error [OF unknown(2)] word_of_line [OF _ unknown(1), of nm] by (simp add: q_def)
  next
    case (found nm args ty mx c0 c)
    have "decode_parameters (parameter_list ty m s) args (if ty = SPP_CMDTYPE_PORT \<and> Suc (length args) = mx then 1 else 0)
        (c0\<lparr>sc_type := ty\<rparr>) err = Some (ret, c, err')"
      using found(4) by (simp add: decode_command_parameter_def)
    from decode_parameters_error [OF this assms(2)] show ?thesis
      using word_of_line [OF _ found(1), of "de_value err'"] found(5) by (simp add: set_command0_def q_def)
  qed
qed

section \<open>Overflow\<close>

text \<open>A component name of 32 to 110 characters passes the length check but is copied into a
  buffer of 32 bytes: the line that starts or stops a component with such a name has no
  defined behaviour.\<close>
theorem component_name_overflow:
  assumes "word_ok nm" and "SPP_CMD_NAME_BUFSZ \<le> length nm" and "spp_get_component_id s nm < 0"
    and "a \<in> {SPP_CMD_ACTION_START, SPP_CMD_ACTION_STOP}"
  shows "spp_command_decode_request m s zero_request (join [''component'', action_word a, nm]) err = None"
proof -
  have v: "\<forall>w\<in>set [''component'', action_word a, nm]. word_ok w"
    using assms(1) by (simp add: word_ok_def [of "''component''"] SPP_CMD_VALUE_BUFSZ_def)
  have n: "decode_str_value SPP_CMD_NAME_BUFSZ nm = None"
    using assms(1,2) by (simp add: decode_str_value_def strcpy_buf_def word_ok_def)
  have "decode_command_parameter m s SPP_CMDTYPE_COMPONENT [''component'', action_word a, nm] 5
      (zero_command\<lparr>sc_type := SPP_CMDTYPE_COMPONENT\<rparr>) err = None"
    using assms(3,4) n by (auto simp: decode_command_parameter_def decode_component_action_value_def decode_component_name_value_def)
  then show ?thesis
    by (simp add: spp_command_decode_request_def decode_words [OF v, simplified] command_list_def SPP_CMD_MAX_PARAMETERS_def
        zero_request_def SPP_CMD_MAX_COMMANDS_def rd_def)
qed

end
