(* ===== verification/Command_Inv.thy ===== *)
theory Command_Inv
  imports Command_Proc Command_Safety
begin

text \<open>
  The invariant that the commands keep of the management data: besides the well-formedness of
  the arrays, the names of the components are unique, each core table lists exactly the
  components of its core, and every component respects the port limits of its type.
\<close>

section \<open>The invariant\<close>

definition used :: "spp_component_info \<Rightarrow> bool" where
  "used c \<longleftrightarrow> comp_type c \<noteq> SPP_COMPONENT_UNUSE"

definition names_ok :: "spp_component_info list \<Rightarrow> bool" where
  "names_ok cs \<longleftrightarrow> (\<forall>c\<in>set cs. used c \<longleftrightarrow> name c \<noteq> []) \<and>
    (\<forall>i<length cs. \<forall>j<length cs. used (cs ! i) \<longrightarrow> name (cs ! i) = name (cs ! j) \<longrightarrow> i = j)"

definition upd_core :: "core_mng_info \<Rightarrow> core_info" where
  "upd_core c = core c ! nat (upd_index c)"

definition in_table :: "core_info \<Rightarrow> int list" where
  "in_table t = take (nat (num t)) (core_ids t)"

definition on_core :: "spp_component_info list \<Rightarrow> int \<Rightarrow> int set" where
  "on_core cs k = int ` {i. i < length cs \<and> used (cs ! i) \<and> lcore_id (cs ! i) = k}"

definition assigned_ok :: "spp_component_info list \<Rightarrow> core_mng_info list \<Rightarrow> bool" where
  "assigned_ok cs cores \<longleftrightarrow> (\<forall>c\<in>set cs. used c \<longrightarrow> 0 \<le> lcore_id c \<and> lcore_id c < int (length cores)) \<and>
    (\<forall>k<length cores. distinct (in_table (upd_core (cores ! k))) \<and>
       set (in_table (upd_core (cores ! k))) = on_core cs (int k))"

definition port_limits :: "spp_component_info \<Rightarrow> bool" where
  "port_limits c \<longleftrightarrow> (case comp_type c of
     SPP_COMPONENT_UNUSE \<Rightarrow> num_rx_port c = 0 \<and> num_tx_port c = 0
   | SPP_COMPONENT_FORWARD \<Rightarrow> num_rx_port c \<le> 1 \<and> num_tx_port c \<le> 1
   | SPP_COMPONENT_MERGE \<Rightarrow> num_tx_port c \<le> 1
   | SPP_COMPONENT_CLASSIFIER_MAC \<Rightarrow> num_rx_port c \<le> 1
   | SPP_COMPONENT_MIRROR \<Rightarrow> num_rx_port c \<le> 1 \<and> num_tx_port c \<le> 2)"

definition tables_distinct :: "spp_component_info \<Rightarrow> bool" where
  "tables_distinct c \<longleftrightarrow> distinct (take (nat (num_rx_port c)) (rx_ports c)) \<and>
     distinct (take (nat (num_tx_port c)) (tx_ports c))"

definition mng_ok :: "'z manage_data_scheme \<Rightarrow> bool" where
  "mng_ok s \<longleftrightarrow> wf_mng s \<and> names_ok (g_component_info s) \<and>
     assigned_ok (g_component_info s) (g_core_info s) \<and>
     (\<forall>c\<in>set (g_component_info s). port_limits c \<and> tables_distinct c)"

section \<open>Ports\<close>

definition ptr_in :: "nat \<Rightarrow> port_ptr \<Rightarrow> bool" where
  "ptr_in n p \<longleftrightarrow> (case p of None \<Rightarrow> False | Some (t, no) \<Rightarrow> t \<in> {PHY, VHOST, RING} \<and> 0 \<le> no \<and> no < int n)"

lemma valid_ptr_iff:
  assumes "length (vhost (g_iface_info s)) = length (nic (g_iface_info s))"
    and "length (ring (g_iface_info s)) = length (nic (g_iface_info s))"
  shows "valid_ptr s p \<longleftrightarrow> ptr_in (length (nic (g_iface_info s))) p"
proof (cases p)
  case (Some tn)
  then show ?thesis using assms
    by (cases tn; cases "fst tn") (auto simp: valid_ptr_def load_port_def ptr_in_def rd_def)
qed (simp add: valid_ptr_def load_port_def ptr_in_def)

lemma wf_mng_ptr: "wf_mng s \<Longrightarrow> valid_ptr s p \<longleftrightarrow> ptr_in (length (nic (g_iface_info s))) p"
  by (rule valid_ptr_iff) (simp_all add: wf_mng_def wf_iface_def)

lemma wf_component_ptr:
  assumes "length (vhost (g_iface_info s)) = length (nic (g_iface_info s))"
    and "length (ring (g_iface_info s)) = length (nic (g_iface_info s))"
    and "length (nic (g_iface_info s)) = n"
  shows "wf_component s i c \<longleftrightarrow> (comp_type c \<noteq> SPP_COMPONENT_UNUSE \<longrightarrow> component_id c = i) \<and>
    0 \<le> num_rx_port c \<and> num_rx_port c \<le> int n \<and> 0 \<le> num_tx_port c \<and> num_tx_port c \<le> int n \<and>
    length (rx_ports c) = n \<and> length (tx_ports c) = n \<and>
    (\<forall>p\<in>set (take (nat (num_rx_port c)) (rx_ports c)). ptr_in n p) \<and>
    (\<forall>p\<in>set (take (nat (num_tx_port c)) (tx_ports c)). ptr_in n p)"
  using valid_ptr_iff [OF assms(1,2)] assms(3) by (auto simp: wf_component_def)

text \<open>The well-formedness as a property of the three lists alone.\<close>

definition wf_comp :: "nat \<Rightarrow> int \<Rightarrow> spp_component_info \<Rightarrow> bool" where
  "wf_comp n i c \<longleftrightarrow> (comp_type c \<noteq> SPP_COMPONENT_UNUSE \<longrightarrow> component_id c = i) \<and>
    0 \<le> num_rx_port c \<and> num_rx_port c \<le> int n \<and> 0 \<le> num_tx_port c \<and> num_tx_port c \<le> int n \<and>
    length (rx_ports c) = n \<and> length (tx_ports c) = n \<and>
    (\<forall>p\<in>set (take (nat (num_rx_port c)) (rx_ports c)). ptr_in n p) \<and>
    (\<forall>p\<in>set (take (nat (num_tx_port c)) (tx_ports c)). ptr_in n p)"

lemma mng_ok_iff:
  "mng_ok s \<longleftrightarrow> wf_dims s \<and> wf_iface (g_iface_info s) \<and>
     (\<forall>c\<in>set (g_core_info s). wf_core (length (g_core_info s)) c) \<and>
     (\<forall>i<length (g_component_info s). wf_comp (length (nic (g_iface_info s))) (int i) (g_component_info s ! i)) \<and>
     names_ok (g_component_info s) \<and> assigned_ok (g_component_info s) (g_core_info s) \<and>
     (\<forall>c\<in>set (g_component_info s). port_limits c \<and> tables_distinct c)"
  using wf_component_ptr [OF _ _ refl, of s] unfolding mng_ok_def wf_mng_def wf_comp_def [symmetric]
  by (auto simp: wf_iface_def)

text \<open>Storing a port.\<close>

lemma wf_iface_update:
  assumes "wf_iface f" and "length (ability v) = SPP_PORT_ABILITY_MAX"
  shows "wf_iface (f\<lparr>nic := (nic f)[k := v]\<rparr>)" "wf_iface (f\<lparr>vhost := (vhost f)[k := v]\<rparr>)"
    "wf_iface (f\<lparr>ring := (ring f)[k := v]\<rparr>)"
proof -
  have up: "\<forall>x\<in>set (xs[k := v]). length (ability x) = SPP_PORT_ABILITY_MAX"
    if "\<forall>x\<in>set xs. length (ability x) = SPP_PORT_ABILITY_MAX" for xs
    using that assms(2) set_update_subset_insert [of xs k v] by blast
  have f: "\<forall>x\<in>set (nic f). length (ability x) = SPP_PORT_ABILITY_MAX"
    "\<forall>x\<in>set (vhost f). length (ability x) = SPP_PORT_ABILITY_MAX"
    "\<forall>x\<in>set (ring f). length (ability x) = SPP_PORT_ABILITY_MAX"
    "length (vhost f) = length (nic f)" "length (ring f) = length (nic f)"
    using assms(1) by (simp_all add: wf_iface_def)
  show "wf_iface (f\<lparr>nic := (nic f)[k := v]\<rparr>)" using f up [OF f(1)] by (simp add: wf_iface_def ball_Un)
  show "wf_iface (f\<lparr>vhost := (vhost f)[k := v]\<rparr>)" using f up [OF f(2)] by (simp add: wf_iface_def ball_Un)
  show "wf_iface (f\<lparr>ring := (ring f)[k := v]\<rparr>)" using f up [OF f(3)] by (simp add: wf_iface_def ball_Un)
qed

lemma store_port_ok:
  assumes "wf_iface (g_iface_info s)" and "ptr_in (length (nic (g_iface_info s))) p"
    and "length (ability v) = SPP_PORT_ABILITY_MAX"
  shows "\<exists>f. store_port p v s = Some (s\<lparr>g_iface_info := f\<rparr>) \<and> wf_iface f \<and>
    length (nic f) = length (nic (g_iface_info s)) \<and>
    load_port (s\<lparr>g_iface_info := f\<rparr>) p = Some v \<and>
    (\<forall>q. q \<noteq> p \<longrightarrow> load_port (s\<lparr>g_iface_info := f\<rparr>) q = load_port s q)"
proof -
  let ?f = "g_iface_info s"
  obtain t no where p: "p = Some (t, no)" "t \<in> {PHY, VHOST, RING}" "0 \<le> no" "no < int (length (nic ?f))"
    using assms(2) by (auto simp: ptr_in_def split: option.splits)
  have len: "length (vhost ?f) = length (nic ?f)" "length (ring ?f) = length (nic ?f)"
    using assms(1) by (simp_all add: wf_iface_def)
  have rd1: "rd (xs[nat no := v]) no = Some v" if "no < int (length xs)" for xs
    using that p(3) by (simp add: rd_def)
  have rd2: "rd (xs[nat no := v]) m = rd xs m" if "m \<noteq> no" for xs m
    using that p(3) by (auto simp: rd_def)
  have oth: "load_port (s\<lparr>g_iface_info := g\<rparr>) q = load_port s q"
    if "q \<noteq> p" "t = PHY \<and> g = ?f\<lparr>nic := (nic ?f)[nat no := v]\<rparr> \<or> t = VHOST \<and> g = ?f\<lparr>vhost := (vhost ?f)[nat no := v]\<rparr> \<or>
      t = RING \<and> g = ?f\<lparr>ring := (ring ?f)[nat no := v]\<rparr>" for q g
  proof (cases q)
    case (Some tn)
    then show ?thesis using that p rd2 by (cases tn; cases "fst tn") (auto simp: load_port_def)
  qed (simp add: load_port_def)
  consider "t = PHY" | "t = VHOST" | "t = RING" using p(2) by blast
  then show ?thesis
  proof cases
    case 1
    let ?g = "?f\<lparr>nic := (nic ?f)[nat no := v]\<rparr>"
    have "store_port p v s = Some (s\<lparr>g_iface_info := ?g\<rparr>)" "load_port (s\<lparr>g_iface_info := ?g\<rparr>) p = Some v"
      using 1 p len rd1 by (simp_all add: store_port_def wr_def load_port_def Let_def)
    moreover have "length (nic ?g) = length (nic ?f)" by simp
    ultimately show ?thesis using 1 oth [of _ ?g] wf_iface_update(1) [OF assms(1,3)] by blast
  next
    case 2
    let ?g = "?f\<lparr>vhost := (vhost ?f)[nat no := v]\<rparr>"
    have "store_port p v s = Some (s\<lparr>g_iface_info := ?g\<rparr>)" "load_port (s\<lparr>g_iface_info := ?g\<rparr>) p = Some v"
      using 2 p len rd1 by (simp_all add: store_port_def wr_def load_port_def Let_def)
    moreover have "length (nic ?g) = length (nic ?f)" by simp
    ultimately show ?thesis using 2 oth [of _ ?g] wf_iface_update(2) [OF assms(1,3)] by blast
  next
    case 3
    let ?g = "?f\<lparr>ring := (ring ?f)[nat no := v]\<rparr>"
    have "store_port p v s = Some (s\<lparr>g_iface_info := ?g\<rparr>)" "load_port (s\<lparr>g_iface_info := ?g\<rparr>) p = Some v"
      using 3 p len rd1 by (simp_all add: store_port_def wr_def load_port_def Let_def)
    moreover have "length (nic ?g) = length (nic ?f)" by simp
    ultimately show ?thesis using 3 oth [of _ ?g] wf_iface_update(3) [OF assms(1,3)] by blast
  qed
qed

lemma load_port_wf:
  assumes "wf_iface (g_iface_info s)" and "ptr_in (length (nic (g_iface_info s))) p"
  obtains v where "load_port s p = Some v" "length (ability v) = SPP_PORT_ABILITY_MAX"
proof -
  let ?f = "g_iface_info s"
  obtain t no where p: "p = Some (t, no)" "t \<in> {PHY, VHOST, RING}" "0 \<le> no" "no < int (length (nic ?f))"
    using assms(2) by (auto simp: ptr_in_def split: option.splits)
  have f: "\<forall>x\<in>set (nic ?f). length (ability x) = SPP_PORT_ABILITY_MAX"
    "\<forall>x\<in>set (vhost ?f). length (ability x) = SPP_PORT_ABILITY_MAX"
    "\<forall>x\<in>set (ring ?f). length (ability x) = SPP_PORT_ABILITY_MAX"
    "length (vhost ?f) = length (nic ?f)" "length (ring ?f) = length (nic ?f)"
    using assms(1) by (simp_all add: wf_iface_def)
  have "\<exists>v. rd xs no = Some v \<and> v \<in> set xs" if "no < int (length xs)" for xs :: "spp_port_info list"
    using that p(3) by (simp add: rd_ok nat_less_iff)
  from this [of "nic ?f"] this [of "vhost ?f"] this [of "ring ?f"]
  show ?thesis using that p f by (auto simp: load_port_def)
qed

section \<open>Components and cores\<close>

lemma names_start:
  assumes "names_ok cs" and "i < length cs" and "\<not> used (cs ! i)" and "used c" and "name c \<noteq> []"
    and "\<forall>x\<in>set cs. name x \<noteq> name c"
  shows "names_ok (cs[i := c])"
  unfolding names_ok_def
proof (intro conjI allI impI ballI)
  fix x assume "x \<in> set (cs[i := c])"
  then have "x = c \<or> x \<in> set cs" using set_update_subset_insert [of cs i c] by blast
  then show "used x \<longleftrightarrow> name x \<noteq> []" using assms(1,4,5) by (auto simp: names_ok_def)
next
  fix a b assume "a < length (cs[i := c])" "b < length (cs[i := c])" "used (cs[i := c] ! a)"
    "name (cs[i := c] ! a) = name (cs[i := c] ! b)"
  then show "a = b" using assms(1,6) unfolding names_ok_def
    by (metis length_list_update nth_list_update_eq nth_list_update_neq nth_mem)
qed

lemma names_stop:
  assumes "names_ok cs" and "i < length cs" and "\<not> used c" and "name c = []"
  shows "names_ok (cs[i := c])"
  unfolding names_ok_def
proof (intro conjI allI impI ballI)
  fix x assume "x \<in> set (cs[i := c])"
  then have "x = c \<or> x \<in> set cs" using set_update_subset_insert [of cs i c] by blast
  then show "used x \<longleftrightarrow> name x \<noteq> []" using assms(1,3,4) by (auto simp: names_ok_def)
next
  fix a b assume ab: "a < length (cs[i := c])" "b < length (cs[i := c])" "used (cs[i := c] ! a)"
    "name (cs[i := c] ! a) = name (cs[i := c] ! b)"
  then have "a \<noteq> i" using assms(3) by auto
  then have a: "a < length cs" "used (cs ! a)" "name (cs ! a) = name (cs[i := c] ! b)" using ab by auto
  then have "name (cs ! a) \<noteq> []" using assms(1) by (auto simp: names_ok_def)
  then have "b \<noteq> i" using a(3) assms(2,4) by auto
  then show "a = b" using a ab(2) assms(1) by (auto simp: names_ok_def)
qed

lemma on_core_update:
  assumes "i < length cs"
  shows "on_core (cs[i := c]) k = on_core cs k - {int i} \<union> (if used c \<and> lcore_id c = k then {int i} else {})"
  using assms by (auto simp: on_core_def nth_list_update split: if_splits)

lemma on_core_index: "int i \<in> on_core cs k \<longleftrightarrow> i < length cs \<and> used (cs ! i) \<and> lcore_id (cs ! i) = k"
  by (auto simp: on_core_def)

lemma assigned_start:
  assumes "assigned_ok cs cores" and "i < length cs" and "\<not> used (cs ! i)" and "used c" and "lcore_id c = int l"
    and "l < length cores" and "in_table (upd_core m) = in_table (upd_core (cores ! l)) @ [int i]"
  shows "assigned_ok (cs[i := c]) (cores[l := m])"
  unfolding assigned_ok_def
proof (intro conjI allI impI ballI)
  fix x assume "x \<in> set (cs[i := c])" "used x"
  then have "x = c \<or> x \<in> set cs" using set_update_subset_insert [of cs i c] by blast
  then show "0 \<le> lcore_id x" "lcore_id x < int (length (cores[l := m]))"
    using assms(1,5,6) \<open>used x\<close> by (auto simp: assigned_ok_def)
next
  fix k assume k: "k < length (cores[l := m])"
  have no: "int i \<notin> on_core cs (int l)" using assms(3) by (simp add: on_core_index)
  have old: "distinct (in_table (upd_core (cores ! k)))" "set (in_table (upd_core (cores ! k))) = on_core cs (int k)"
    using assms(1) k by (simp_all add: assigned_ok_def)
  have no': "int i \<notin> on_core cs (int k)" using assms(3) by (simp add: on_core_index)
  show "distinct (in_table (upd_core (cores[l := m] ! k)))"
    using k old no' assms(6,7) by (cases "k = l") auto
  show "set (in_table (upd_core (cores[l := m] ! k))) = on_core (cs[i := c]) (int k)"
    using k old no' assms(4-7) on_core_update [OF assms(2), of c "int k"] by (cases "k = l") auto
qed

lemma assigned_stop:
  assumes "assigned_ok cs cores" and "i < length cs" and "used (cs ! i)" and "\<not> used c" and "lcore_id (cs ! i) = int l"
    and "l < length cores" and "distinct (in_table (upd_core m))"
    and "set (in_table (upd_core m)) = set (in_table (upd_core (cores ! l))) - {int i}"
  shows "assigned_ok (cs[i := c]) (cores[l := m])"
  unfolding assigned_ok_def
proof (intro conjI allI impI ballI)
  fix x assume "x \<in> set (cs[i := c])" "used x"
  then have "x \<in> set cs" using set_update_subset_insert [of cs i c] assms(4) by blast
  then show "0 \<le> lcore_id x" "lcore_id x < int (length (cores[l := m]))"
    using assms(1) \<open>used x\<close> by (auto simp: assigned_ok_def)
next
  fix k assume k: "k < length (cores[l := m])"
  have old: "distinct (in_table (upd_core (cores ! k)))" "set (in_table (upd_core (cores ! k))) = on_core cs (int k)"
    using assms(1) k by (simp_all add: assigned_ok_def)
  show "distinct (in_table (upd_core (cores[l := m] ! k)))"
    using k old assms(7) by (cases "k = l") auto
  show "set (in_table (upd_core (cores[l := m] ! k))) = on_core (cs[i := c]) (int k)"
  proof (cases "k = l")
    case False
    then have "int i \<notin> on_core cs (int k)" using assms(5) by (simp add: on_core_index)
    then show ?thesis using False old(2) assms(4) on_core_update [OF assms(2), of c "int k"] by simp
  qed (use k old assms(4,6,8) on_core_update [OF assms(2), of c "int k"] in simp)
qed

lemma in_table_append:
  assumes "0 \<le> num k" and "num k < int (length (core_ids k))"
  shows "in_table (k\<lparr>core_ids := (core_ids k)[nat (num k) := x], num := num k + 1\<rparr>) = in_table k @ [x]"
proof -
  have "nat (num k + 1) = Suc (nat (num k))" "nat (num k) < length (core_ids k)" using assms by simp_all
  then show ?thesis by (simp add: in_table_def take_Suc_conv_app_nth)
qed

lemma wf_core_upd:
  assumes "wf_core n c"
  shows "0 \<le> upd_index c" "upd_index c < int (length (core c))" "wf_core_info n (upd_core c)"
    "upd_core (put_core k c) = k" "wf_core_info n k \<Longrightarrow> wf_core n (put_core k c)"
proof -
  show u: "0 \<le> upd_index c" "upd_index c < int (length (core c))"
    using assms by (auto simp: wf_core_def SPP_INFO_AREA_MAX_def)
  then have v: "nat (upd_index c) < length (core c)" by simp
  then show "wf_core_info n (upd_core c)" using assms by (auto simp: wf_core_def upd_core_def)
  show "upd_core (put_core k c) = k" using v by (simp add: upd_core_def put_core_def)
  show "wf_core n (put_core k c)" if "wf_core_info n k"
    using assms that set_update_subset_insert [of "core c" "nat (upd_index c)" k]
    by (auto simp: wf_core_def put_core_def)
qed

lemma put_upd_core_ok:
  assumes "l < length (g_core_info s)" and "wf_core n (g_core_info s ! l)"
  shows "put_upd_core (int l) k s = Some (s\<lparr>g_core_info := (g_core_info s)[l := put_core k (g_core_info s ! l)]\<rparr>)"
  using assms wf_core_upd(1,2) [OF assms(2)]
  by (simp add: put_upd_core_def rd_nat wr_ok put_core_def)

end
