(* ===== verification/Command_Component.thy ===== *)
theory Command_Component
  imports Command_Inv
begin

text \<open>
  Starting and stopping a component: what the commands do to the management data, and that they
  keep its invariant.
\<close>

section \<open>Searching\<close>

lemma first_component_pos: "0 \<le> first_component P s \<Longrightarrow>
    \<exists>i<length (g_component_info s). first_component P s = int i \<and> P (g_component_info s ! i)"
  by (auto simp: first_component_def dest: first_index_SomeD split: option.splits)

lemma first_component_neg: "first_component P s < 0 \<longleftrightarrow> (\<forall>c\<in>set (g_component_info s). \<not> P c)"
proof (cases "first_index P (g_component_info s)")
  case (Some i)
  then show ?thesis using first_index_SomeD [OF Some] nth_mem [of i "g_component_info s"]
    by (auto simp: first_component_def)
next
  case None
  then show ?thesis using first_index_None_iff [of P "g_component_info s"] by (simp add: first_component_def)
qed

lemma component_id_neg: "nm \<noteq> [] \<Longrightarrow> spp_get_component_id s nm < 0 \<longleftrightarrow> (\<forall>c\<in>set (g_component_info s). name c \<noteq> nm)"
  by (auto simp: spp_get_component_id_def first_component_neg)

lemma component_id_eq:
  assumes "names_ok (g_component_info s)" and "i < length (g_component_info s)" and "used (g_component_info s ! i)"
    and "name (g_component_info s ! i) = nm"
  shows "spp_get_component_id s nm = int i"
proof -
  have "nm \<noteq> []" using assms nth_mem [OF assms(2)] by (auto simp: names_ok_def)
  moreover have "first_index (\<lambda>c. nm = name c) (g_component_info s) = Some i"
  proof (rule first_index_unique [OF assms(2)])
    fix j assume "j < i"
    then show "\<not> nm = name (g_component_info s ! j)" using assms unfolding names_ok_def by (metis less_trans nat_neq_iff)
  qed (use assms(4) in simp)
  ultimately show ?thesis by (simp add: spp_get_component_id_def first_component_def)
qed

lemma component_id_pos:
  assumes "names_ok (g_component_info s)" and "0 \<le> spp_get_component_id s nm"
  obtains i where "i < length (g_component_info s)" "spp_get_component_id s nm = int i" "used (g_component_info s ! i)"
    "name (g_component_info s ! i) = nm"
proof -
  have n: "nm \<noteq> []" using assms(2) by (auto simp: spp_get_component_id_def split: if_splits)
  then obtain i where "i < length (g_component_info s)" "spp_get_component_id s nm = int i" "nm = name (g_component_info s ! i)"
    using first_component_pos [of "\<lambda>c. nm = name c" s] assms(2) by (auto simp: spp_get_component_id_def)
  then show ?thesis using that assms(1) n nth_mem [of i "g_component_info s"] by (auto simp: names_ok_def)
qed

section \<open>Starting\<close>

text \<open>The component that a start puts into a free slot.\<close>

definition new_component :: "nat \<Rightarrow> string \<Rightarrow> nat \<Rightarrow> spp_component_type \<Rightarrow> nat \<Rightarrow> spp_component_info" where
  "new_component n nm lcore ty i =
    (zero_component n)\<lparr>name := nm, comp_type := ty, lcore_id := int lcore, component_id := int i\<rparr>"

lemma new_component_ok:
  assumes "ty \<noteq> SPP_COMPONENT_UNUSE"
  shows "wf_comp n (int i) (new_component n nm lc ty i)" "used (new_component n nm lc ty i)"
    "port_limits (new_component n nm lc ty i)" "tables_distinct (new_component n nm lc ty i)"
    "name (new_component n nm lc ty i) = nm" "lcore_id (new_component n nm lc ty i) = int lc"
  using assms by (auto simp: new_component_def zero_component_def wf_comp_def used_def port_limits_def
      tables_distinct_def split: spp_component_type.splits)

lemma zero_component_ok:
  "wf_comp n i (zero_component n)" "\<not> used (zero_component n)" "port_limits (zero_component n)"
  "tables_distinct (zero_component n)" "name (zero_component n) = []"
  by (auto simp: zero_component_def wf_comp_def used_def port_limits_def tables_distinct_def)

text \<open>There is room in every core table as long as a slot is free.\<close>

lemma core_room:
  assumes "mng_ok s" and "l < length (g_core_info s)" and "i < length (g_component_info s)"
    and "\<not> used (g_component_info s ! i)"
  shows "0 \<le> num (upd_core (g_core_info s ! l)) \<and>
    num (upd_core (g_core_info s ! l)) < int (length (core_ids (upd_core (g_core_info s ! l))))"
proof -
  let ?k = "upd_core (g_core_info s ! l)" and ?n = "length (g_core_info s)" and ?cs = "g_component_info s"
  have wf: "wf_core_info ?n ?k"
    using assms(1,2) wf_core_upd(3) by (auto simp: mng_ok_iff)
  have n: "length ?cs = ?n" using assms(1) by (simp add: mng_ok_iff wf_dims_def Let_def)
  have "set (in_table ?k) = on_core ?cs (int l)" "distinct (in_table ?k)"
    using assms(1,2) by (simp_all add: mng_ok_iff assigned_ok_def)
  moreover have "on_core ?cs (int l) \<subseteq> int ` ({..<?n} - {i})" using assms(4) n by (auto simp: on_core_def)
  ultimately have "length (in_table ?k) \<le> card (int ` ({..<?n} - {i}))"
    by (metis card_mono distinct_card finite_imageI finite_lessThan finite_Diff)
  also have "\<dots> = ?n - 1" using assms(3) n by (simp add: card_image)
  finally have "length (in_table ?k) < ?n" using assms(2) by simp
  then show ?thesis using wf by (auto simp: wf_core_info_def in_table_def)
qed

lemma start_component_run:
  assumes ok: "mng_ok s" and l: "l < length (g_core_info s)" and st: "status (g_core_info s ! l) \<noteq> SPP_CORE_UNUSE"
    and nm: "nm \<noteq> []" "length nm < SPP_NAME_STR_LEN" "spp_get_component_id s nm < 0"
    and i: "get_free_component s = int i" "i < length (g_component_info s)"
  defines "k \<equiv> upd_core (g_core_info s ! l)"
  defines "k' \<equiv> k\<lparr>core_ids := (core_ids k)[nat (num k) := int i], num := num k + 1\<rparr>"
  shows "start_component nm (int l) ty s = Some (SPP_RET_OK, s\<lparr>
      g_component_info := (g_component_info s)[i := new_component (length (nic (g_iface_info s))) nm l ty i],
      g_core_info := (g_core_info s)[l := put_core k' (g_core_info s ! l)],
      g_change_component := (g_change_component s)[i := 1], g_change_core := (g_change_core s)[l := 1]\<rparr>)"
proof -
  let ?n = "length (g_core_info s)"
  have wf: "wf_core ?n (g_core_info s ! l)" using ok l by (simp add: mng_ok_iff)
  have len: "length (g_component_info s) = ?n" "length (g_change_core s) = ?n" "length (g_change_component s) = ?n"
    using ok by (simp_all add: mng_ok_iff wf_dims_def Let_def)
  have "\<not> used (g_component_info s ! i)"
    using i first_component_pos [of "\<lambda>c. comp_type c = SPP_COMPONENT_UNUSE" s] by (auto simp: get_free_component_def used_def)
  from core_room [OF ok l i(2) this] have room: "0 \<le> num k" "num k < int (length (core_ids k))" by (simp_all add: k_def)
  have rdk: "rd (core (g_core_info s ! l)) (upd_index (g_core_info s ! l)) = Some k"
    using wf_core_upd(1,2) [OF wf] by (simp add: rd_ok k_def upd_core_def)
  have put: "put_upd_core (int l) k' (s\<lparr>g_component_info := cs\<rparr>) = Some (s\<lparr>g_component_info := cs,
      g_core_info := (g_core_info s)[l := put_core k' (g_core_info s ! l)]\<rparr>)" for cs
    using put_upd_core_ok [of l "s\<lparr>g_component_info := cs\<rparr>" ?n k'] l wf by simp
  show ?thesis
    using l st nm i len room rdk put
    by (simp add: start_component_def rd_nat wr_nat wr_ok strcpy_buf_def mark_change_component_def mark_change_core_def
        k'_def new_component_def Let_def)
qed

lemma mng_ok_update:
  assumes "mng_ok s" and "length cs = length (g_component_info s)" and "length cores = length (g_core_info s)"
    and "length ch = length (g_core_info s)" and "length cc = length (g_core_info s)"
    and "\<forall>c\<in>set cores. wf_core (length (g_core_info s)) c"
    and "\<forall>j<length cs. wf_comp (length (nic (g_iface_info s))) (int j) (cs ! j)"
    and "names_ok cs" and "assigned_ok cs cores" and "\<forall>c\<in>set cs. port_limits c \<and> tables_distinct c"
  shows "mng_ok (s\<lparr>g_component_info := cs, g_core_info := cores, g_change_component := ch, g_change_core := cc\<rparr>)"
  using assms by (simp add: mng_ok_iff wf_dims_def Let_def)

lemma wf_comp_update:
  assumes "\<forall>j<length cs. wf_comp n (int j) (cs ! j)" and "wf_comp n (int i) c"
  shows "\<forall>j<length (cs[i := c]). wf_comp n (int j) (cs[i := c] ! j)"
proof (intro allI impI)
  fix j assume "j < length (cs[i := c])"
  then show "wf_comp n (int j) (cs[i := c] ! j)" using assms by (cases "i = j") simp_all
qed

lemma ball_update: "\<forall>x\<in>set xs. P x \<Longrightarrow> P v \<Longrightarrow> \<forall>x\<in>set (xs[i := v]). P x"
  using set_update_subset_insert [of xs i v] by blast

lemma wf_core_info_append:
  assumes "wf_core_info n k" and "num k < int (length (core_ids k))" and "i < n"
  shows "wf_core_info n (k\<lparr>core_ids := (core_ids k)[nat (num k) := int i], num := num k + 1\<rparr>)"
proof -
  have "in_table (k\<lparr>core_ids := (core_ids k)[nat (num k) := int i], num := num k + 1\<rparr>) = in_table k @ [int i]"
    using assms(1,2) by (intro in_table_append) (simp_all add: wf_core_info_def)
  then show ?thesis using assms unfolding wf_core_info_def in_table_def [symmetric] by auto
qed

lemma component_start_run:
  fixes s :: "('h, 'z) classifier_data_scheme"
  assumes "mng_ok s" and "l < length (g_core_info s)" and "status (g_core_info s ! l) \<noteq> SPP_CORE_UNUSE"
    and "nm \<noteq> []" and "length nm < SPP_NAME_STR_LEN" and "spp_get_component_id s nm < 0"
    and "0 \<le> get_free_component s" and "ty \<noteq> SPP_COMPONENT_UNUSE"
  shows "\<exists>s' i. spp_update_component SPP_CMD_ACTION_START nm (int l) ty s = Some (SPP_RET_OK, s') \<and> mng_ok s' \<and>
    get_free_component s = int i \<and> spp_get_component_id s' nm = int i \<and>
    g_component_info s' = (g_component_info s)[i := new_component (length (nic (g_iface_info s))) nm l ty i] \<and>
    in_table (upd_core (g_core_info s' ! l)) = in_table (upd_core (g_core_info s ! l)) @ [int i] \<and>
    g_change_component s' ! i = 1 \<and> g_change_core s' ! l = 1 \<and>
    (\<forall>j. j \<noteq> l \<longrightarrow> g_core_info s' ! j = g_core_info s ! j) \<and> g_iface_info s' = g_iface_info s \<and>
    g_mng_infos s' = g_mng_infos s \<and> g_forward_info s' = g_forward_info s"
proof -
  let ?N = "length (nic (g_iface_info s))" and ?n = "length (g_core_info s)"
  obtain i where i: "get_free_component s = int i" "i < length (g_component_info s)" "\<not> used (g_component_info s ! i)"
    using first_component_pos [of "\<lambda>c. comp_type c = SPP_COMPONENT_UNUSE" s] assms(7)
    by (auto simp: get_free_component_def used_def)
  define k where "k = upd_core (g_core_info s ! l)"
  define k' where "k' = k\<lparr>core_ids := (core_ids k)[nat (num k) := int i], num := num k + 1\<rparr>"
  define c where "c = new_component ?N nm l ty i"
  define cs where "cs = (g_component_info s)[i := c]"
  define cores where "cores = (g_core_info s)[l := put_core k' (g_core_info s ! l)]"
  define s' where "s' = s\<lparr>g_component_info := cs, g_core_info := cores,
    g_change_component := (g_change_component s)[i := 1], g_change_core := (g_change_core s)[l := 1]\<rparr>"
  note room = core_room [OF assms(1,2) i(2,3), folded k_def]
  have run: "spp_update_component SPP_CMD_ACTION_START nm (int l) ty s = Some (SPP_RET_OK, s')"
    using start_component_run [OF assms(1-6) i(1,2), of ty]
    by (simp add: spp_update_component_def s'_def cs_def cores_def c_def k'_def k_def)
  have wfc: "wf_core ?n (g_core_info s ! l)" using assms(1,2) by (simp add: mng_ok_iff)
  have len: "length (g_component_info s) = ?n" "length (g_change_core s) = ?n" "length (g_change_component s) = ?n"
    using assms(1) by (simp_all add: mng_ok_iff wf_dims_def Let_def)
  have tab: "in_table k' = in_table k @ [int i]" unfolding k'_def using room by (intro in_table_append) simp_all
  have up: "upd_core (put_core k' (g_core_info s ! l)) = k'" by (rule wf_core_upd(4) [OF wfc])
  have wfk: "wf_core_info ?n k'"
    using wf_core_info_append [OF wf_core_upd(3) [OF wfc, folded k_def] _ i(2) [unfolded len(1)]] room by (simp add: k'_def)
  have ok: "mng_ok s'"
    unfolding s'_def
  proof (rule mng_ok_update [OF assms(1)])
    show "\<forall>c\<in>set cores. wf_core ?n c" unfolding cores_def
      by (rule ball_update) (use assms(1) wf_core_upd(5) [OF wfc wfk] in \<open>simp_all add: mng_ok_iff\<close>)
    show "\<forall>j<length cs. wf_comp ?N (int j) (cs ! j)" unfolding cs_def c_def
      by (rule wf_comp_update) (use assms(1) new_component_ok(1) [OF assms(8)] in \<open>simp_all add: mng_ok_iff\<close>)
    show "names_ok cs" unfolding cs_def
      by (rule names_start [OF _ i(2,3)])
        (use assms(1,4,6) component_id_neg [OF assms(4)] new_component_ok [OF assms(8)] in \<open>auto simp: c_def mng_ok_iff\<close>)
    show "assigned_ok cs cores" unfolding cs_def cores_def
      by (rule assigned_start [OF _ i(2,3) _ _ assms(2)])
        (use assms(1) new_component_ok [OF assms(8)] tab up in \<open>auto simp: c_def mng_ok_iff k_def\<close>)
    show "\<forall>c\<in>set cs. port_limits c \<and> tables_distinct c" unfolding cs_def
      by (rule ball_update) (use assms(1) new_component_ok [OF assms(8)] in \<open>simp_all add: c_def mng_ok_iff\<close>)
  qed (simp_all add: cs_def cores_def len)
  moreover have "spp_get_component_id s' nm = int i"
    by (rule component_id_eq)
      (use ok i(2) new_component_ok [OF assms(8)] in \<open>simp_all add: mng_ok_iff s'_def cs_def c_def\<close>)
  moreover have "in_table (upd_core (g_core_info s' ! l)) = in_table (upd_core (g_core_info s ! l)) @ [int i]"
    using tab up assms(2) by (simp add: s'_def cores_def k_def)
  ultimately show ?thesis using run i(1,2) assms(2) len
    by (intro exI [of _ s'] exI [of _ i]) (simp add: s'_def cs_def cores_def c_def)
qed


section \<open>Stopping\<close>

lemma core_table_delete:
  assumes "wf_core_info n k" and "distinct (in_table k)" and "int i \<in> set (in_table k)"
  shows "\<exists>ids. del_component_info (int i) (num k) (core_ids k) = Some (0, ids) \<and>
    wf_core_info n (k\<lparr>core_ids := ids, num := num k - 1\<rparr>) \<and>
    distinct (in_table (k\<lparr>core_ids := ids, num := num k - 1\<rparr>)) \<and>
    set (in_table (k\<lparr>core_ids := ids, num := num k - 1\<rparr>)) = set (in_table k) - {int i}"
proof -
  define m where "m = nat (num k)"
  have m: "num k = int m" "m \<le> length (core_ids k)" "in_table k = take m (core_ids k)"
    using assms(1) by (simp_all add: m_def wf_core_info_def in_table_def nat_le_iff)
  obtain ids where d: "del_component_info (int i) (int m) (core_ids k) = Some (0, ids)"
    using core_table.del_hit [OF m(2)] assms(3) m(3) by fastforce
  note e = core_table.del_elements [OF m(2) d] core_table.del_distinct [OF m(2) _ d]
  let ?k = "k\<lparr>core_ids := ids, num := num k - 1\<rparr>"
  have t: "in_table ?k = take (m - 1) ids" using e(1) by (simp add: in_table_def m(1) nat_diff_distrib)
  have "wf_core_info n ?k"
    using assms(1,2) e m t unfolding wf_core_info_def in_table_def [symmetric] by auto
  then show ?thesis using d e(2) assms(2) m t by auto
qed

lemma stop_component_run:
  fixes s :: "('h, 'z) classifier_data_scheme"
  assumes ok: "mng_ok s" and i: "spp_get_component_id s nm = int i" "i < length (g_component_info s)"
    and u: "used (g_component_info s ! i)" and l: "lcore_id (g_component_info s ! i) = int l"
    and d: "del_component_info (int i) (num k) (core_ids k) = Some (0, ids)" and k: "k = upd_core (g_core_info s ! l)"
  shows "l < length (g_core_info s) \<and> stop_component nm s = Some (SPP_RET_OK, s\<lparr>
      g_component_info := (g_component_info s)[i := zero_component (length (nic (g_iface_info s)))],
      g_core_info := (g_core_info s)[l := put_core (k\<lparr>core_ids := ids, num := num k - 1\<rparr>) (g_core_info s ! l)],
      g_change_component := (g_change_component s)[i := 0], g_change_core := (g_change_core s)[l := 1]\<rparr>)"
proof -
  let ?n = "length (g_core_info s)"
  have len: "length (g_component_info s) = ?n" "length (g_change_core s) = ?n" "length (g_change_component s) = ?n"
    using ok by (simp_all add: mng_ok_iff wf_dims_def Let_def)
  have lc: "l < ?n" using ok i(2) u l nth_mem [OF i(2)] by (fastforce simp: mng_ok_iff assigned_ok_def)
  have wf: "wf_core ?n (g_core_info s ! l)" using ok lc by (simp add: mng_ok_iff)
  have rdk: "rd (core (g_core_info s ! l)) (upd_index (g_core_info s ! l)) = Some k"
    using wf_core_upd(1,2) [OF wf] by (simp add: rd_ok k upd_core_def)
  define k' where "k' = k\<lparr>core_ids := ids, num := num k - 1\<rparr>"
  have put: "put_upd_core (int l) k' (s\<lparr>g_component_info := cs\<rparr>) = Some (s\<lparr>g_component_info := cs,
      g_core_info := (g_core_info s)[l := put_core k' (g_core_info s ! l)]\<rparr>)" for cs
    using put_upd_core_ok [of l "s\<lparr>g_component_info := cs\<rparr>" ?n k'] lc wf by simp
  have z: "comp_type (zero_component n) = SPP_COMPONENT_UNUSE" for n by (simp add: zero_component_def)
  show ?thesis
    using lc i l d len rdk put
    by (simp add: stop_component_def rd_nat wr_nat z mark_change_core_def k'_def [symmetric] Let_def)
qed

lemma component_stop_run:
  fixes s :: "('h, 'z) classifier_data_scheme"
  assumes "mng_ok s" and "0 \<le> spp_get_component_id s nm"
  shows "\<exists>s' i l. spp_update_component SPP_CMD_ACTION_STOP nm lc ty s = Some (SPP_RET_OK, s') \<and> mng_ok s' \<and>
    spp_get_component_id s nm = int i \<and> lcore_id (g_component_info s ! i) = int l \<and>
    spp_get_component_id s' nm < 0 \<and>
    g_component_info s' = (g_component_info s)[i := zero_component (length (nic (g_iface_info s)))] \<and>
    set (in_table (upd_core (g_core_info s' ! l))) = set (in_table (upd_core (g_core_info s ! l))) - {int i} \<and>
    g_change_component s' ! i = 0 \<and> g_change_core s' ! l = 1 \<and>
    (\<forall>j. j \<noteq> l \<longrightarrow> g_core_info s' ! j = g_core_info s ! j) \<and> g_iface_info s' = g_iface_info s \<and>
    g_mng_infos s' = g_mng_infos s"
proof -
  let ?N = "length (nic (g_iface_info s))" and ?n = "length (g_core_info s)"
  have names: "names_ok (g_component_info s)" using assms(1) by (simp add: mng_ok_iff)
  obtain i where i: "i < length (g_component_info s)" "spp_get_component_id s nm = int i" "used (g_component_info s ! i)"
      "name (g_component_info s ! i) = nm"
    using component_id_pos [OF names assms(2)] .
  have "0 \<le> lcore_id (g_component_info s ! i) \<and> lcore_id (g_component_info s ! i) < int ?n"
    using assms(1) i(1,3) nth_mem [OF i(1)] by (auto simp: mng_ok_iff assigned_ok_def)
  then obtain l where l: "lcore_id (g_component_info s ! i) = int l" "l < ?n" using zero_le_imp_eq_int by force
  define k where "k = upd_core (g_core_info s ! l)"
  have wfc: "wf_core ?n (g_core_info s ! l)" using assms(1) l(2) by (simp add: mng_ok_iff)
  have ass: "distinct (in_table k)" "set (in_table k) = on_core (g_component_info s) (int l)"
    using assms(1) l(2) by (simp_all add: mng_ok_iff assigned_ok_def k_def)
  then have mem: "int i \<in> set (in_table k)" using i(1,3) l(1) by (simp add: on_core_index)
  obtain ids where d: "del_component_info (int i) (num k) (core_ids k) = Some (0, ids)"
    and dk: "wf_core_info ?n (k\<lparr>core_ids := ids, num := num k - 1\<rparr>)"
      "distinct (in_table (k\<lparr>core_ids := ids, num := num k - 1\<rparr>))"
      "set (in_table (k\<lparr>core_ids := ids, num := num k - 1\<rparr>)) = set (in_table k) - {int i}"
    using core_table_delete [OF wf_core_upd(3) [OF wfc, folded k_def] ass(1) mem] by blast
  define k' where "k' = k\<lparr>core_ids := ids, num := num k - 1\<rparr>"
  define cs where "cs = (g_component_info s)[i := zero_component ?N]"
  define cores where "cores = (g_core_info s)[l := put_core k' (g_core_info s ! l)]"
  define s' where "s' = s\<lparr>g_component_info := cs, g_core_info := cores,
    g_change_component := (g_change_component s)[i := 0], g_change_core := (g_change_core s)[l := 1]\<rparr>"
  have run: "spp_update_component SPP_CMD_ACTION_STOP nm lc ty s = Some (SPP_RET_OK, s')"
    using stop_component_run [OF assms(1) i(2,1,3) l(1) d k_def]
    by (simp add: spp_update_component_def s'_def cs_def cores_def k'_def)
  have len: "length (g_component_info s) = ?n" "length (g_change_core s) = ?n" "length (g_change_component s) = ?n"
    using assms(1) by (simp_all add: mng_ok_iff wf_dims_def Let_def)
  have up: "upd_core (put_core k' (g_core_info s ! l)) = k'" by (rule wf_core_upd(4) [OF wfc])
  have ok: "mng_ok s'"
    unfolding s'_def
  proof (rule mng_ok_update [OF assms(1)])
    show "\<forall>c\<in>set cores. wf_core ?n c" unfolding cores_def
      by (rule ball_update) (use assms(1) wf_core_upd(5) [OF wfc dk(1)] in \<open>simp_all add: mng_ok_iff k'_def\<close>)
    show "\<forall>j<length cs. wf_comp ?N (int j) (cs ! j)" unfolding cs_def
      by (rule wf_comp_update) (use assms(1) zero_component_ok(1) in \<open>simp_all add: mng_ok_iff\<close>)
    show "names_ok cs" unfolding cs_def
      by (rule names_stop [OF names i(1)]) (simp_all add: zero_component_ok)
    show "assigned_ok cs cores" unfolding cs_def cores_def
      by (rule assigned_stop [OF _ i(1,3) _ l(1,2)])
        (use assms(1) dk(2,3) up in \<open>auto simp: zero_component_ok mng_ok_iff k_def k'_def\<close>)
    show "\<forall>c\<in>set cs. port_limits c \<and> tables_distinct c" unfolding cs_def
      by (rule ball_update) (use assms(1) in \<open>simp_all add: zero_component_ok mng_ok_iff\<close>)
  qed (simp_all add: cs_def cores_def len)
  moreover have "spp_get_component_id s' nm < 0"
  proof (rule ccontr)
    assume "\<not> spp_get_component_id s' nm < 0"
    then obtain j where j: "j < length cs" "used (cs ! j)" "name (cs ! j) = nm"
      using component_id_pos [of s' nm] ok by (auto simp: mng_ok_iff s'_def)
    then have "j \<noteq> i" using zero_component_ok(2) i(1) by (auto simp: cs_def)
    then show False using j i names by (auto simp: cs_def names_ok_def)
  qed
  moreover have "set (in_table (upd_core (g_core_info s' ! l))) = set (in_table k) - {int i}"
    using dk(3) up l(2) by (simp add: s'_def cores_def k'_def)
  ultimately show ?thesis using run i(1,2) l len
    by (intro exI [of _ s'] exI [of _ i] exI [of _ l]) (simp add: s'_def cs_def cores_def k_def)
qed

text \<open>C15: Stopping a component that exists succeeds: its slot is cleared and free again, a lookup
  by its name fails, its index - and only it - disappears from the update table of its core,
  which is marked as changed, and the invariant of the management data is kept.  The
  classifier tables are not touched, not even when the component is a classifier: the type is
  tested after the slot was cleared, so the initialisation of the classifier is never
  reached.\<close>
theorem component_stop_correct:
  fixes s :: "('h, 'z) classifier_data_scheme"
  assumes "mng_ok s" and "0 \<le> spp_get_component_id s nm"
  shows "\<exists>s' i l. spp_update_component SPP_CMD_ACTION_STOP nm lc ty s = Some (SPP_RET_OK, s') \<and> mng_ok s' \<and>
    spp_get_component_id s nm = int i \<and> lcore_id (g_component_info s ! i) = int l \<and>
    spp_get_component_id s' nm < 0 \<and>
    g_component_info s' = (g_component_info s)[i := zero_component (length (nic (g_iface_info s)))] \<and>
    set (in_table (upd_core (g_core_info s' ! l))) = set (in_table (upd_core (g_core_info s ! l))) - {int i} \<and>
    g_change_component s' ! i = 0 \<and> g_change_core s' ! l = 1 \<and>
    (\<forall>j. j \<noteq> l \<longrightarrow> g_core_info s' ! j = g_core_info s ! j) \<and> g_iface_info s' = g_iface_info s \<and>
    g_mng_infos s' = g_mng_infos s"
  using assms by (rule component_stop_run)

end
