(* ===== verification/Command_Port.thy ===== *)
theory Command_Port
  imports Command_Component
begin

text \<open>
  The port command: adding and deleting ports of a component, and the limits of the component
  types.
\<close>

section \<open>Updates of one component\<close>

definition port_table :: "spp_port_rxtx \<Rightarrow> spp_component_info \<Rightarrow> port_ptr list" where
  "port_table d c = take (nat (fst (port_table_of d c))) (snd (port_table_of d c))"

lemma names_same:
  assumes "names_ok cs" and "i < length cs" and "used c = used (cs ! i)" and "name c = name (cs ! i)"
  shows "names_ok (cs[i := c])"
proof -
  have e: "used (cs[i := c] ! j) = used (cs ! j)" "name (cs[i := c] ! j) = name (cs ! j)" if "j < length cs" for j
    using assms(3,4) that by (cases "j = i"; simp)+
  have "used x \<longleftrightarrow> name x \<noteq> []" if "x \<in> set (cs[i := c])" for x
  proof -
    from that obtain j where "j < length (cs[i := c])" "cs[i := c] ! j = x" unfolding in_set_conv_nth by blast
    then show ?thesis using e assms(1) nth_mem [of j cs] by (auto simp: names_ok_def)
  qed
  moreover have "\<forall>a<length cs. \<forall>b<length cs. used (cs[i := c] ! a) \<longrightarrow> name (cs[i := c] ! a) = name (cs[i := c] ! b) \<longrightarrow> a = b"
  proof (intro allI impI)
    fix a b assume ab: "a < length cs" "b < length cs" "used (cs[i := c] ! a)" "name (cs[i := c] ! a) = name (cs[i := c] ! b)"
    then have "used (cs ! a)" "name (cs ! a) = name (cs ! b)" using e by simp_all
    then show "a = b" using assms(1) ab(1,2) unfolding names_ok_def by blast
  qed
  ultimately show ?thesis by (simp add: names_ok_def)
qed

lemma assigned_same:
  assumes "assigned_ok cs cores" and "i < length cs" and "used c = used (cs ! i)" and "lcore_id c = lcore_id (cs ! i)"
  shows "assigned_ok (cs[i := c]) cores"
proof -
  have e: "used (cs[i := c] ! j) = used (cs ! j)" "lcore_id (cs[i := c] ! j) = lcore_id (cs ! j)" if "j < length cs" for j
    using assms(3,4) that by (cases "j = i"; simp)+
  then have "on_core (cs[i := c]) k = on_core cs k" for k by (auto simp: on_core_def)
  moreover have "0 \<le> lcore_id x \<and> lcore_id x < int (length cores)" if "x \<in> set (cs[i := c])" "used x" for x
  proof -
    from that(1) obtain j where "j < length (cs[i := c])" "cs[i := c] ! j = x" unfolding in_set_conv_nth by blast
    then show ?thesis using e that(2) assms(1) nth_mem [of j cs] by (auto simp: assigned_ok_def)
  qed
  ultimately show ?thesis using assms(1) by (simp add: assigned_ok_def)
qed

lemma set_port_table_simps:
  "used (set_port_table d t c) = used c" "name (set_port_table d t c) = name c"
  "lcore_id (set_port_table d t c) = lcore_id c" "comp_type (set_port_table d t c) = comp_type c"
  "component_id (set_port_table d t c) = component_id c"
  "port_table d (set_port_table d t c) = take (nat (fst t)) (snd t)"
  "d \<in> {SPP_PORT_RXTX_RX, SPP_PORT_RXTX_TX} \<Longrightarrow> d' \<in> {SPP_PORT_RXTX_RX, SPP_PORT_RXTX_TX} \<Longrightarrow> d' \<noteq> d \<Longrightarrow>
    port_table d' (set_port_table d t c) = port_table d' c"
  by (auto simp: set_port_table_def used_def port_table_def port_table_of_def)

lemma wf_comp_table:
  assumes "wf_comp n i c"
  shows "0 \<le> fst (port_table_of d c)" "fst (port_table_of d c) \<le> int n" "length (snd (port_table_of d c)) = n"
    "\<forall>p\<in>set (port_table d c). ptr_in n p"
  using assms by (auto simp: wf_comp_def port_table_of_def port_table_def)

lemma wf_comp_set_table:
  assumes "wf_comp n i c" and "0 \<le> fst t" and "fst t \<le> int n" and "length (snd t) = n"
    and "\<forall>p\<in>set (take (nat (fst t)) (snd t)). ptr_in n p"
  shows "wf_comp n i (set_port_table d t c)"
  using assms by (simp add: wf_comp_def set_port_table_def)

lemma tables_distinct_set:
  assumes "tables_distinct c" and "distinct (take (nat (fst t)) (snd t))"
  shows "tables_distinct (set_port_table d t c)"
  using assms by (simp add: tables_distinct_def set_port_table_def)

text \<open>The state after a port command.\<close>

lemma mng_ok_port:
  assumes ok: "mng_ok s" and i: "i < length (g_component_info s)"
    and f: "wf_iface f" "length (nic f) = length (nic (g_iface_info s))"
    and c: "used c = used (g_component_info s ! i)" "name c = name (g_component_info s ! i)"
      "lcore_id c = lcore_id (g_component_info s ! i)"
    and w: "wf_comp (length (nic (g_iface_info s))) (int i) c" "port_limits c" "tables_distinct c"
  shows "mng_ok (s\<lparr>g_iface_info := f, g_component_info := (g_component_info s)[i := c],
    g_change_component := (g_change_component s)[i := x]\<rparr>)"
proof -
  let ?cs = "(g_component_info s)[i := c]" and ?N = "length (nic (g_iface_info s))"
  have "wf_dims (s\<lparr>g_iface_info := f, g_component_info := ?cs, g_change_component := (g_change_component s)[i := x]\<rparr>)"
    using ok f by (simp add: mng_ok_iff wf_dims_def wf_iface_def Let_def)
  moreover have "\<forall>j<length ?cs. wf_comp ?N (int j) (?cs ! j)"
    by (rule wf_comp_update) (use ok w in \<open>simp_all add: mng_ok_iff\<close>)
  moreover have "names_ok ?cs" by (rule names_same) (use ok i c in \<open>simp_all add: mng_ok_iff\<close>)
  moreover have "assigned_ok ?cs (g_core_info s)" by (rule assigned_same) (use ok i c in \<open>simp_all add: mng_ok_iff\<close>)
  moreover have "\<forall>c\<in>set ?cs. port_limits c \<and> tables_distinct c"
    by (rule ball_update) (use ok w in \<open>simp_all add: mng_ok_iff\<close>)
  ultimately show ?thesis using ok f by (simp add: mng_ok_iff)
qed

lemma port_run_state:
  assumes "store_port p v s = Some (s\<lparr>g_iface_info := f\<rparr>)" and "i < length (g_component_info s)"
    and "length (g_change_component s) = length (g_component_info s)"
  shows "store_port p v s \<bind> (\<lambda>s1. put_component (int i) c s1 \<bind> mark_change_component (int i)) =
    Some (s\<lparr>g_iface_info := f, g_component_info := (g_component_info s)[i := c],
      g_change_component := (g_change_component s)[i := 1]\<rparr>)"
  using assms by (simp add: put_component_def mark_change_component_def wr_nat)

lemma port_state_steps:
  assumes "i < length (g_component_info s)" and "length (g_change_component s) = length (g_component_info s)"
  shows "put_component (int i) c (s\<lparr>g_iface_info := f\<rparr>) =
      Some (s\<lparr>g_iface_info := f, g_component_info := (g_component_info s)[i := c]\<rparr>)"
    "mark_change_component (int i) (s\<lparr>g_iface_info := f, g_component_info := cs\<rparr>) =
      Some (s\<lparr>g_iface_info := f, g_component_info := cs, g_change_component := (g_change_component s)[i := 1]\<rparr>)"
  using assms by (simp_all add: put_component_def mark_change_component_def wr_nat)

section \<open>The limits\<close>

lemma check_port_count_limits:
  assumes "check_port_count (comp_type c) d (num_rx_port c) (num_tx_port c) = SPP_RET_OK" and "port_limits c"
    and "fst t = fst (port_table_of d c) + 1"
  shows "port_limits (set_port_table d t c)"
  using assms by (auto simp: check_port_count_def port_limits_def set_port_table_def port_table_of_def Let_def
      split: spp_component_type.splits if_splits)

lemma port_limits_mono:
  assumes "port_limits c" and "fst t \<le> fst (port_table_of d c)" and "used c"
  shows "port_limits (set_port_table d t c)"
  using assms by (auto simp: port_limits_def set_port_table_def port_table_of_def used_def
      split: spp_component_type.splits if_splits)


lemma check_port_element_iff:
  assumes "0 \<le> n" and "n \<le> int (length arr)"
  shows "\<exists>r. check_port_element p n arr = Some r \<and> (0 \<le> r \<longleftrightarrow> p \<in> set (take (nat n) arr))"
proof (cases "p \<in> set (take (nat n) arr)")
  case True
  then obtain k where "find_last_from p arr 0 n (- 1) = Some (int k)"
    using find_last_Some [of "nat n" arr p] assms by (auto simp: nat_le_iff)
  then show ?thesis using True by (simp add: check_port_element_def)
next
  case False
  then have "find_last_from p arr 0 n (- 1) = Some (- 1)"
    using find_last_None [of "nat n" arr p] assms by (simp add: nat_le_iff)
  then show ?thesis using False by (simp add: check_port_element_def)
qed

section \<open>Adding a port\<close>

lemma load_port_cong:
  assumes "g_iface_info s' = g_iface_info s"
  shows "load_port s' p = load_port s p"
  unfolding load_port_def assms ..

lemma put_ability_at_length: "put_ability_at op ab q = Some q' \<Longrightarrow> length (ability q') = length (ability q)"
  by (auto simp: put_ability_at_def)

text \<open>The component and the port that a port command is about.\<close>

definition port_target :: "'z manage_data_scheme \<Rightarrow> string \<Rightarrow> spp_port_index \<Rightarrow> nat \<Rightarrow> port_ptr \<Rightarrow> bool" where
  "port_target s nm port i p \<longleftrightarrow> i < length (g_component_info s) \<and> used (g_component_info s ! i) \<and>
     spp_get_component_id s nm = int i \<and> p = get_iface_info (pi_iface_type port) (pi_iface_no port) \<and>
     ptr_in (length (nic (g_iface_info s))) p"

lemma add_port_new:
  assumes ok: "mng_ok s" and tg: "port_target s nm port i p"
    and cnt: "check_port_count (comp_type c) d (num_rx_port c) (num_tx_port c) = SPP_RET_OK"
    and c: "c = g_component_info s ! i" and new: "p \<notin> set (port_table d c)"
    and room: "fst (port_table_of d c) < int (length (nic (g_iface_info s)))"
    and q: "load_port s p = Some q0" "(if ope ab = SPP_PORT_ABILITY_OPE_NONE then Some q0
      else put_ability_at SPP_PORT_ABILITY_OPE_NONE ab q0) = Some q"
  shows "\<exists>s'. spp_update_port SPP_CMD_ACTION_ADD port d nm ab s = Some (SPP_RET_OK, s') \<and> mng_ok s' \<and>
    (\<exists>c'. g_component_info s' = (g_component_info s)[i := c'] \<and> port_table d c' = port_table d c @ [p] \<and>
      (\<forall>d'\<in>{SPP_PORT_RXTX_RX, SPP_PORT_RXTX_TX}. d \<in> {SPP_PORT_RXTX_RX, SPP_PORT_RXTX_TX} \<longrightarrow> d' \<noteq> d \<longrightarrow> port_table d' c' = port_table d' c)) \<and>
    load_port s' p = Some (q\<lparr>iface_type := pi_iface_type port\<rparr>) \<and>
    (\<forall>r. r \<noteq> p \<longrightarrow> load_port s' r = load_port s r) \<and> g_change_component s' ! i = 1"
proof -
  let ?N = "length (nic (g_iface_info s))" and ?n = "fst (port_table_of d c)" and ?a = "snd (port_table_of d c)"
  have i: "i < length (g_component_info s)" "used c" "spp_get_component_id s nm = int i"
      "p = get_iface_info (pi_iface_type port) (pi_iface_no port)" "ptr_in ?N p"
    using tg by (auto simp: port_target_def c)
  have w: "wf_comp ?N (int i) c" "port_limits c" "tables_distinct c" "wf_iface (g_iface_info s)"
    using ok i(1) nth_mem [OF i(1)] by (simp_all add: mng_ok_iff c)
  note t = wf_comp_table [OF w(1), of d]
  have dis: "distinct (port_table d c)" using w(3) by (simp add: tables_distinct_def port_table_def port_table_of_def)
  obtain r where r: "check_port_element p ?n ?a = Some r" "r < 0"
    using check_port_element_iff [of ?n ?a p] t new by (auto simp: port_table_def not_le)
  have lq: "length (ability (q\<lparr>iface_type := pi_iface_type port\<rparr>)) = SPP_PORT_ABILITY_MAX"
    using q load_port_wf [OF w(4) i(5)] put_ability_at_length [of SPP_PORT_ABILITY_OPE_NONE ab q0 q]
    by (auto split: if_splits)
  obtain f where f: "store_port p (q\<lparr>iface_type := pi_iface_type port\<rparr>) s = Some (s\<lparr>g_iface_info := f\<rparr>)" "wf_iface f"
      "length (nic f) = ?N" "load_port (s\<lparr>g_iface_info := f\<rparr>) p = Some (q\<lparr>iface_type := pi_iface_type port\<rparr>)"
      "\<forall>r. r \<noteq> p \<longrightarrow> load_port (s\<lparr>g_iface_info := f\<rparr>) r = load_port s r"
    using store_port_ok [OF w(4) i(5) lq] by blast
  define a' where "a' = ?a[nat ?n := p]"
  define c' where "c' = set_port_table d (?n + 1, a') c"
  define s' where "s' = s\<lparr>g_iface_info := f, g_component_info := (g_component_info s)[i := c'],
    g_change_component := (g_change_component s)[i := 1]\<rparr>"
  have len: "length (g_change_component s) = length (g_component_info s)"
    using ok by (simp add: mng_ok_iff wf_dims_def Let_def)
  have wr: "wr ?a ?n p = Some a'" using t room by (simp add: wr_ok a'_def)
  have "nat (?n + 1) = Suc (nat ?n)" "nat ?n < length ?a" using t room by simp_all
  then have tab: "take (nat (?n + 1)) a' = port_table d c @ [p]"
    by (simp add: a'_def port_table_def take_Suc_conv_app_nth)
  have run: "spp_update_port SPP_CMD_ACTION_ADD port d nm ab s = Some (SPP_RET_OK, s')"
    using i r cnt t room q f(1) wr port_run_state [OF f(1) i(1) len, of c']
    by (simp add: spp_update_port_def add_port_def c [symmetric] rd_nat Let_def case_prod_beta c'_def s'_def)
      (auto simp: bind_Some_iff)
  have ok': "mng_ok s'" unfolding s'_def
  proof (rule mng_ok_port [OF ok i(1) f(2,3)])
    show "wf_comp ?N (int i) c'" unfolding c'_def
      by (rule wf_comp_set_table [OF w(1)]) (use t room i(5) tab in \<open>auto simp: a'_def\<close>)
    show "port_limits c'" unfolding c'_def by (rule check_port_count_limits [OF cnt w(2)]) simp
    show "tables_distinct c'" unfolding c'_def
      by (rule tables_distinct_set [OF w(3)]) (use tab dis new in simp)
  qed (simp_all add: c'_def set_port_table_simps c)
  have "load_port s' x = load_port (s\<lparr>g_iface_info := f\<rparr>) x" for x by (rule load_port_cong) (simp add: s'_def)
  then show ?thesis using run ok' f(4,5) tab len i(1) set_port_table_simps(6,7)
    by (intro exI [of _ s']) (auto simp: s'_def c'_def intro!: exI [of _ c'])
qed

lemma port_target_facts:
  assumes "mng_ok s" and "port_target s nm port i p" and "c = g_component_info s ! i"
  shows "i < length (g_component_info s)" "used c" "spp_get_component_id s nm = int i"
    "p = get_iface_info (pi_iface_type port) (pi_iface_no port)" "ptr_in (length (nic (g_iface_info s))) p"
    "wf_comp (length (nic (g_iface_info s))) (int i) c" "port_limits c" "tables_distinct c"
    "wf_iface (g_iface_info s)" "length (g_change_component s) = length (g_component_info s)"
    "spp_update_port SPP_CMD_ACTION_ADD port d nm ab s = add_port (int i) p (pi_iface_type port) d ab c s"
    "spp_update_port SPP_CMD_ACTION_DEL port d nm ab s = del_port (int i) p d c s"
  using assms nth_mem [of i "g_component_info s"]
  by (auto simp: port_target_def mng_ok_iff wf_dims_def Let_def spp_update_port_def rd_nat)

lemma add_port_registered:
  assumes ok: "mng_ok s" and tg: "port_target s nm port i p" and c: "c = g_component_info s ! i"
    and reg: "p \<in> set (port_table d c)"
    and cnt: "check_port_count (comp_type c) d (num_rx_port c) (num_tx_port c) = SPP_RET_OK"
  shows "\<exists>ret s'. spp_update_port SPP_CMD_ACTION_ADD port d nm ab s = Some (ret, s') \<and> mng_ok s' \<and>
    (ret = SPP_RET_OK \<or> ret = SPP_RET_NG \<and> s' = s) \<and> g_component_info s' = g_component_info s"
proof -
  note i = port_target_facts [OF ok tg c]
  note t = wf_comp_table [OF i(6), of d]
  obtain r where r: "check_port_element p (fst (port_table_of d c)) (snd (port_table_of d c)) = Some r" "0 \<le> r"
    using check_port_element_iff [of "fst (port_table_of d c)" "snd (port_table_of d c)" p] t reg by (auto simp: port_table_def)
  obtain q0 where q0: "load_port s p = Some q0" "length (ability q0) = SPP_PORT_ABILITY_MAX"
    using load_port_wf [OF i(9,5)] .
  show ?thesis
  proof (cases "ope ab = SPP_PORT_ABILITY_OPE_ADD_VLANTAG \<and> put_ability_at SPP_PORT_ABILITY_OPE_ADD_VLANTAG ab q0 \<noteq> None")
    case False
    then have "\<exists>ret. spp_update_port SPP_CMD_ACTION_ADD port d nm ab s = Some (ret, s) \<and> ret \<in> {SPP_RET_OK, SPP_RET_NG}"
      unfolding i(11) using cnt r q0(1) by (auto simp: add_port_def case_prod_beta Let_def)
    then show ?thesis using ok by auto
  next
    case True
    then obtain q where q: "put_ability_at SPP_PORT_ABILITY_OPE_ADD_VLANTAG ab q0 = Some q" by blast
    have "length (ability q) = SPP_PORT_ABILITY_MAX" using put_ability_at_length [OF q] q0(2) by simp
    from store_port_ok [OF i(9,5) this] obtain f where f: "store_port p q s = Some (s\<lparr>g_iface_info := f\<rparr>)" "wf_iface f"
        "length (nic f) = length (nic (g_iface_info s))" by blast
    have run: "spp_update_port SPP_CMD_ACTION_ADD port d nm ab s = Some (SPP_RET_OK, s\<lparr>g_iface_info := f,
        g_component_info := (g_component_info s)[i := c], g_change_component := (g_change_component s)[i := 1]\<rparr>)"
      unfolding i(11) using cnt r q0(1) q True f(1) i(1,10)
      by (simp add: add_port_def case_prod_beta Let_def mark_change_component_def wr_nat c)
    then show ?thesis using mng_ok_port [OF ok i(1) f(2,3), of c 1] i(6-8) by (simp add: c)
  qed
qed

lemma port_add_run:
  assumes "mng_ok s" and "port_target s nm port i p" and "d \<in> {SPP_PORT_RXTX_RX, SPP_PORT_RXTX_TX}"
  shows "\<exists>ret s'. spp_update_port SPP_CMD_ACTION_ADD port d nm ab s = Some (ret, s') \<and> mng_ok s' \<and>
    (ret = SPP_RET_OK \<or> ret = SPP_RET_NG \<and> s' = s) \<and>
    (ret = SPP_RET_OK \<longrightarrow>
      check_port_count (comp_type (g_component_info s ! i)) d (num_rx_port (g_component_info s ! i))
        (num_tx_port (g_component_info s ! i)) = SPP_RET_OK \<and>
      port_table d (g_component_info s' ! i) = port_table d (g_component_info s ! i) @
        (if p \<in> set (port_table d (g_component_info s ! i)) then [] else [p])) \<and>
    (\<forall>j. j \<noteq> i \<longrightarrow> g_component_info s' ! j = g_component_info s ! j)"
proof -
  define c where "c = g_component_info s ! i"
  note i = port_target_facts [OF assms(1,2) c_def]
  note t = wf_comp_table [OF i(6), of d]
  show ?thesis
  proof (cases "check_port_count (comp_type c) d (num_rx_port c) (num_tx_port c) = SPP_RET_OK")
    case False
    then show ?thesis using assms(1) by (simp add: i(11) add_port_def)
  next
    case cnt: True
    show ?thesis
    proof (cases "p \<in> set (port_table d c)")
      case True
      from add_port_registered [OF assms(1,2) c_def this cnt, of ab] obtain ret s' where
        "spp_update_port SPP_CMD_ACTION_ADD port d nm ab s = Some (ret, s')" "mng_ok s'"
        "ret = SPP_RET_OK \<or> ret = SPP_RET_NG \<and> s' = s" "g_component_info s' = g_component_info s" by blast
      then show ?thesis using True cnt by (intro exI [of _ ret] exI [of _ s']) (auto simp: c_def)
    next
      case new: False
      obtain r where r: "check_port_element p (fst (port_table_of d c)) (snd (port_table_of d c)) = Some r" "r < 0"
        using check_port_element_iff [of "fst (port_table_of d c)" "snd (port_table_of d c)" p] t new
        by (auto simp: port_table_def not_le)
      obtain q0 where q0: "load_port s p = Some q0" using load_port_wf [OF i(9,5)] .
      define qo where "qo = (if ope ab = SPP_PORT_ABILITY_OPE_NONE then Some q0 else put_ability_at SPP_PORT_ABILITY_OPE_NONE ab q0)"
      show ?thesis
      proof (cases "fst (port_table_of d c) < int (length (nic (g_iface_info s))) \<and> qo \<noteq> None")
        case True
        then obtain q where q: "qo = Some q" by blast
        obtain s' c' where s': "spp_update_port SPP_CMD_ACTION_ADD port d nm ab s = Some (SPP_RET_OK, s')" "mng_ok s'"
            "g_component_info s' = (g_component_info s)[i := c']" "port_table d c' = port_table d c @ [p]"
          using add_port_new [OF assms(1,2) cnt c_def new _ q0 q [unfolded qo_def]] True by blast
        then show ?thesis using new cnt i(1) by (intro exI [of _ SPP_RET_OK] exI [of _ s']) (simp add: c_def)
      next
        case False
        then have "spp_update_port SPP_CMD_ACTION_ADD port d nm ab s = Some (SPP_RET_NG, s)"
          unfolding i(11) using cnt r q0 t(3) by (auto simp: add_port_def case_prod_beta Let_def qo_def split: if_splits)
        then show ?thesis using assms(1) by simp
      qed
    qed
  qed
qed

text \<open>C17: Adding a port to a component never breaks the invariant of the management data and never
  fails half way: either the command is refused and nothing at all has changed, or it succeeds
  within the limits of the component type, the port is in the table of its direction - appended
  behind the ports that were there, when it was not registered yet - and every other component
  is as before.\<close>
theorem port_add_correct:
  assumes "mng_ok s" and "port_target s nm port i p" and "d \<in> {SPP_PORT_RXTX_RX, SPP_PORT_RXTX_TX}"
  shows "\<exists>ret s'. spp_update_port SPP_CMD_ACTION_ADD port d nm ab s = Some (ret, s') \<and> mng_ok s' \<and>
    (ret = SPP_RET_OK \<or> ret = SPP_RET_NG \<and> s' = s) \<and>
    (ret = SPP_RET_OK \<longrightarrow>
      check_port_count (comp_type (g_component_info s ! i)) d (num_rx_port (g_component_info s ! i))
        (num_tx_port (g_component_info s ! i)) = SPP_RET_OK \<and>
      port_table d (g_component_info s' ! i) = port_table d (g_component_info s ! i) @
        (if p \<in> set (port_table d (g_component_info s ! i)) then [] else [p])) \<and>
    (\<forall>j. j \<noteq> i \<longrightarrow> g_component_info s' ! j = g_component_info s ! j)"
  using assms by (rule port_add_run)

text \<open>The VLAN tag of a port of a forwarder cannot be changed: although the command that adds a
  registered port again is meant to update its tag, the limit of the component is tested first,
  and the command is refused without any effect.\<close>
theorem vlan_tag_update_refused:
  assumes "mng_ok s" and "port_target s nm port i p" and "comp_type (g_component_info s ! i) = SPP_COMPONENT_FORWARD"
    and "d \<in> {SPP_PORT_RXTX_RX, SPP_PORT_RXTX_TX}" and "p \<in> set (port_table d (g_component_info s ! i))"
  shows "spp_update_port SPP_CMD_ACTION_ADD port d nm ab s = Some (SPP_RET_NG, s)"
proof -
  note i = port_target_facts [OF assms(1,2) refl]
  have "0 < fst (port_table_of d (g_component_info s ! i))"
    using assms(5) by (cases "nat (fst (port_table_of d (g_component_info s ! i)))") (auto simp: port_table_def)
  then show ?thesis
    using assms(3,4) by (auto simp: i(11) add_port_def check_port_count_def port_table_of_def Let_def)
qed

section \<open>Deleting a port\<close>

lemma port_del_run:
  assumes "mng_ok s" and "port_target s nm port i p" and "d \<in> {SPP_PORT_RXTX_RX, SPP_PORT_RXTX_TX}"
  shows "\<exists>s' q. spp_update_port SPP_CMD_ACTION_DEL port d nm ab s = Some (SPP_RET_OK, s') \<and> mng_ok s' \<and>
    load_port s p = Some q \<and> load_port s' p = Some (clear_abilities d q) \<and>
    (\<forall>r. r \<noteq> p \<longrightarrow> load_port s' r = load_port s r) \<and>
    set (port_table d (g_component_info s' ! i)) = set (port_table d (g_component_info s ! i)) - {p} \<and>
    (\<forall>d'\<in>{SPP_PORT_RXTX_RX, SPP_PORT_RXTX_TX}. d' \<noteq> d \<longrightarrow>
      port_table d' (g_component_info s' ! i) = port_table d' (g_component_info s ! i)) \<and>
    (\<forall>j. j \<noteq> i \<longrightarrow> g_component_info s' ! j = g_component_info s ! j)"
proof -
  define c where "c = g_component_info s ! i"
  note i = port_target_facts [OF assms(1,2) c_def]
  note t = wf_comp_table [OF i(6), of d]
  obtain q where q: "load_port s p = Some q" "length (ability q) = SPP_PORT_ABILITY_MAX"
    using load_port_wf [OF i(9,5)] .
  have "length (ability (clear_abilities d q)) = SPP_PORT_ABILITY_MAX" using q(2) by (simp add: clear_abilities_def)
  from store_port_ok [OF i(9,5) this] obtain f where f: "store_port p (clear_abilities d q) s = Some (s\<lparr>g_iface_info := f\<rparr>)"
      "wf_iface f" "length (nic f) = length (nic (g_iface_info s))"
      "load_port (s\<lparr>g_iface_info := f\<rparr>) p = Some (clear_abilities d q)"
      "\<forall>r. r \<noteq> p \<longrightarrow> load_port (s\<lparr>g_iface_info := f\<rparr>) r = load_port s r" by blast
  define n where "n = nat (fst (port_table_of d c))"
  define arr where "arr = snd (port_table_of d c)"
  have n: "fst (port_table_of d c) = int n" "n \<le> length arr" "port_table d c = take n arr" "length arr = length (nic (g_iface_info s))"
    using t by (simp_all add: n_def arr_def port_table_def nat_le_iff)
  have dis: "distinct (take n arr)" using i(8) by (simp add: tables_distinct_def n(3) [symmetric] port_table_def port_table_of_def)
  obtain r arr' where del: "get_del_port_element p (int n) arr = Some (r, arr')" "length arr' = length arr"
      "take (nat (if r = 0 then int n - 1 else int n)) arr' = take (if p \<in> set (take n arr) then n - 1 else n) arr'"
      "distinct (take (if p \<in> set (take n arr) then n - 1 else n) arr')"
      "set (take (if p \<in> set (take n arr) then n - 1 else n) arr') = set (take n arr) - {p}"
      "(if r = 0 then int n - 1 else int n) = int (if p \<in> set (take n arr) then n - 1 else n)"
  proof (cases "p \<in> set (take n arr)")
    case True
    obtain arr' where a: "get_del_port_element p (int n) arr = Some (0, arr')"
      using port_table.del_hit [OF n(2) True] by blast
    then show ?thesis using that [OF a] port_table.del_elements [OF n(2) a] port_table.del_distinct [OF n(2) dis a] True
      by (simp add: nat_diff_distrib of_nat_diff)
  next
    case False
    then show ?thesis using that [OF port_table.del_miss [OF n(2) False]] dis by simp
  qed
  define m where "m = (if r = 0 then int n - 1 else int n)"
  define c' where "c' = set_port_table d (m, arr') c"
  define s' where "s' = s\<lparr>g_iface_info := f, g_component_info := (g_component_info s)[i := c'],
    g_change_component := (g_change_component s)[i := 1]\<rparr>"
  have m: "m \<ge> 0" "m \<le> int n" "take (nat m) arr' = take (if p \<in> set (take n arr) then n - 1 else n) arr'"
    using del(3,6) by (simp_all add: m_def)
  have run: "spp_update_port SPP_CMD_ACTION_DEL port d nm ab s = Some (SPP_RET_OK, s')"
    unfolding i(12) using q(1) f(1) del(1) n(1) port_state_steps [OF i(1,10)]
    by (simp only: del_port_def case_prod_beta Let_def arr_def [symmetric] m_def [symmetric] c'_def s'_def
        bind.bind_lunit fst_conv snd_conv)
  have ok: "mng_ok s'" unfolding s'_def
  proof (rule mng_ok_port [OF assms(1) i(1) f(2,3)])
    show "wf_comp (length (nic (g_iface_info s))) (int i) c'" unfolding c'_def
      by (rule wf_comp_set_table [OF i(6)]) (use m n(2,4) t(4) del(2,5) n(3) in auto)
    show "port_limits c'" unfolding c'_def by (rule port_limits_mono [OF i(7) _ i(2)]) (use m n(1) in simp)
    show "tables_distinct c'" unfolding c'_def by (rule tables_distinct_set [OF i(8)]) (use m del(4) in simp)
  qed (simp_all add: c'_def set_port_table_simps c_def)
  have lp: "load_port s' x = load_port (s\<lparr>g_iface_info := f\<rparr>) x" for x by (rule load_port_cong) (simp add: s'_def)
  have "g_component_info s' ! i = c'" using i(1) by (simp add: s'_def)
  moreover have "set (port_table d c') = set (port_table d c) - {p}"
    using m(3) del(5) by (simp add: c'_def set_port_table_simps n(3))
  moreover have "\<forall>d'\<in>{SPP_PORT_RXTX_RX, SPP_PORT_RXTX_TX}. d' \<noteq> d \<longrightarrow> port_table d' c' = port_table d' c"
    using set_port_table_simps(7) [OF assms(3)] by (simp add: c'_def)
  moreover have "\<forall>j. j \<noteq> i \<longrightarrow> g_component_info s' ! j = g_component_info s ! j" by (simp add: s'_def)
  ultimately show ?thesis using run ok q(1) f(4,5) lp by (intro exI [of _ s'] exI [of _ q]) (simp add: c_def)
qed

text \<open>C18: Deleting a port of a component always succeeds and keeps the invariant: the port
  disappears from the table of its direction, whose other ports and whose opposite direction
  stay as they are, the abilities of this direction are removed from the port, and no other
  port is touched.\<close>
theorem port_del_correct:
  assumes "mng_ok s" and "port_target s nm port i p" and "d \<in> {SPP_PORT_RXTX_RX, SPP_PORT_RXTX_TX}"
  shows "\<exists>s' q. spp_update_port SPP_CMD_ACTION_DEL port d nm ab s = Some (SPP_RET_OK, s') \<and> mng_ok s' \<and>
    load_port s p = Some q \<and> load_port s' p = Some (clear_abilities d q) \<and>
    (\<forall>r. r \<noteq> p \<longrightarrow> load_port s' r = load_port s r) \<and>
    set (port_table d (g_component_info s' ! i)) = set (port_table d (g_component_info s ! i)) - {p} \<and>
    (\<forall>d'\<in>{SPP_PORT_RXTX_RX, SPP_PORT_RXTX_TX}. d' \<noteq> d \<longrightarrow>
      port_table d' (g_component_info s' ! i) = port_table d' (g_component_info s ! i)) \<and>
    (\<forall>j. j \<noteq> i \<longrightarrow> g_component_info s' ! j = g_component_info s ! j)"
  using assms by (rule port_del_run)

end
