(* ===== verification/Command_Table.thy ===== *)
theory Command_Table
  imports Command_Port
begin

text \<open>
  The classifier table command: which component a port belongs to, and the entries that are
  added to and deleted from the ports.
\<close>

section \<open>The component of a port\<close>

lemma scan_ports_spec:
  assumes "0 \<le> i" and "mx \<le> int (length arr)"
  shows "scan_ports arr p i mx = Some (\<exists>j. i \<le> j \<and> j < mx \<and> arr ! nat j = p)"
  using assms
proof (induction arr p i mx rule: scan_ports.induct)
  case (1 arr p i mx)
  show ?case
  proof (cases "i < mx")
    case False
    then show ?thesis by (subst scan_ports.simps) auto
  next
    case True
    have r: "rd arr i = Some (arr ! nat i)" using 1 True by (simp add: rd_ok)
    show ?thesis
    proof (cases "arr ! nat i = p")
      case True
      then show ?thesis using r \<open>i < mx\<close> by (subst scan_ports.simps) auto
    next
      case False
      have "(\<exists>j. i \<le> j \<and> j < mx \<and> arr ! nat j = p) \<longleftrightarrow> (\<exists>j. i + 1 \<le> j \<and> j < mx \<and> arr ! nat j = p)"
        using False by (metis less_le zless_imp_add1_zle zless_add1_eq not_less)
      moreover have "scan_ports arr p (i + 1) mx = Some (\<exists>j. i + 1 \<le> j \<and> j < mx \<and> arr ! nat j = p)"
        using 1 True r False by simp
      ultimately show ?thesis using True r False by (subst scan_ports.simps) simp
    qed
  qed
qed

lemma scan_table:
  assumes "wf_comp n i c" and "d \<in> {SPP_PORT_RXTX_RX, SPP_PORT_RXTX_TX}"
  shows "scan_ports (snd (port_table_of d c)) p 0 (fst (port_table_of d c)) = Some (p \<in> set (port_table d c))"
proof -
  note t = wf_comp_table [OF assms(1), of d]
  have "(\<exists>j. 0 \<le> j \<and> j < fst (port_table_of d c) \<and> snd (port_table_of d c) ! nat j = p) \<longleftrightarrow>
      p \<in> set (port_table d c)" (is "?L \<longleftrightarrow> ?R")
  proof
    assume ?L
    then obtain j where "0 \<le> j" "j < fst (port_table_of d c)" "snd (port_table_of d c) ! nat j = p" by blast
    then show ?R using t nth_mem [of "nat j" "port_table d c"] by (simp add: port_table_def)
  next
    assume ?R
    then obtain j where "j < nat (fst (port_table_of d c))" "snd (port_table_of d c) ! j = p"
      by (auto simp: port_table_def in_set_conv_nth)
    then show ?L by (intro exI [of _ "int j"]) auto
  qed
  then show ?thesis using scan_ports_spec [of 0 "fst (port_table_of d c)" "snd (port_table_of d c)" p] t by simp
qed

definition port_owner :: "spp_port_rxtx \<Rightarrow> port_ptr \<Rightarrow> spp_component_info list \<Rightarrow> nat option" where
  "port_owner d p cs = first_index (\<lambda>c. used c \<and> p \<in> set (port_table d c)) cs"

lemma used_port_from_spec:
  assumes "\<forall>c\<in>set cs. \<exists>i. wf_comp n i c" and "d \<in> {SPP_PORT_RXTX_RX, SPP_PORT_RXTX_TX}"
  shows "used_port_from d p cnt cs =
    Some (case port_owner d p cs of None \<Rightarrow> SPP_RET_NG | Some j \<Rightarrow> int (cnt + j))"
  using assms(1)
proof (induction cs arbitrary: cnt)
  case (Cons c cs)
  obtain i where "wf_comp n i c" using Cons.prems by auto
  from scan_table [OF this assms(2), of p]
  have "(if d = SPP_PORT_RXTX_RX then scan_ports (rx_ports c) p 0 (num_rx_port c)
      else if d = SPP_PORT_RXTX_TX then scan_ports (tx_ports c) p 0 (num_tx_port c) else Some False) =
      Some (p \<in> set (port_table d c))"
    using assms(2) by (auto simp: port_table_of_def)
  moreover have "used_port_from d p (Suc cnt) cs =
      Some (case port_owner d p cs of None \<Rightarrow> SPP_RET_NG | Some j \<Rightarrow> int (Suc cnt + j))"
    using Cons by simp
  ultimately show ?case by (auto simp: port_owner_def used_def split: option.splits)
qed (simp add: port_owner_def)

lemma check_used_port_spec:
  assumes "mng_ok s" and "d \<in> {SPP_PORT_RXTX_RX, SPP_PORT_RXTX_TX}" and "t \<in> {PHY, VHOST, RING}"
  shows "spp_check_used_port s t no d =
    Some (case port_owner d (Some (t, no)) (g_component_info s) of None \<Rightarrow> SPP_RET_NG | Some j \<Rightarrow> int j)"
proof -
  have "\<forall>c\<in>set (g_component_info s). \<exists>i. wf_comp (length (nic (g_iface_info s))) i c"
  proof
    fix c assume "c \<in> set (g_component_info s)"
    then obtain i where "i < length (g_component_info s)" "c = g_component_info s ! i" by (auto simp: in_set_conv_nth)
    then show "\<exists>i. wf_comp (length (nic (g_iface_info s))) i c" using assms(1) unfolding mng_ok_iff by blast
  qed
  from used_port_from_spec [OF this assms(2), of "Some (t, no)" 0] show ?thesis
    using assms(3) by (auto simp: spp_check_used_port_def get_iface_info_def split: option.splits)
qed

section \<open>Entries\<close>

text \<open>The state after a change of the class of a port: the first component that transmits to the
  port is marked.\<close>

definition class_changed :: "port_ptr \<Rightarrow> iface_info \<Rightarrow> 'z manage_data_scheme \<Rightarrow> 'z manage_data_scheme" where
  "class_changed p f s = s\<lparr>g_iface_info := f,
     g_change_component := (case port_owner SPP_PORT_RXTX_TX p (g_component_info s) of
       None \<Rightarrow> g_change_component s | Some j \<Rightarrow> (g_change_component s)[j := 1])\<rparr>"

lemma class_changed_ok:
  assumes "mng_ok s" and "wf_iface f" and "length (nic f) = length (nic (g_iface_info s))"
  shows "mng_ok (class_changed p f s)"
  using assms by (simp add: mng_ok_iff class_changed_def wf_dims_def wf_iface_def Let_def split: option.split)

lemma change_port_run:
  assumes "mng_ok s" and "wf_iface f" and "length (nic f) = length (nic (g_iface_info s))"
    and "load_port (s\<lparr>g_iface_info := f\<rparr>) (Some (t, no)) = Some q" and "iface_type q = t" and "iface_no q = no"
    and "t \<in> {PHY, VHOST, RING}"
  shows "set_component_change_port (Some (t, no)) SPP_PORT_RXTX_TX (s\<lparr>g_iface_info := f\<rparr>) =
    Some (class_changed (Some (t, no)) f s)"
proof -
  let ?s = "s\<lparr>g_iface_info := f\<rparr>" and ?o = "port_owner SPP_PORT_RXTX_TX (Some (t, no)) (g_component_info s)"
  have "mng_ok ?s" using assms(1-3) by (simp add: mng_ok_iff wf_dims_def wf_iface_def Let_def)
  from check_used_port_spec [OF this _ assms(7), of SPP_PORT_RXTX_TX no]
  have u: "spp_check_used_port ?s t no SPP_PORT_RXTX_TX = Some (case ?o of None \<Rightarrow> SPP_RET_NG | Some j \<Rightarrow> int j)" by simp
  have "j < length (g_change_component s)" if "?o = Some j" for j
    using first_index_SomeD [OF that [unfolded port_owner_def]] assms(1) by (simp add: mng_ok_iff wf_dims_def Let_def)
  then show ?thesis using assms(4-6) u
    by (auto simp: set_component_change_port_def class_changed_def mark_change_component_def wr_nat split: option.splits)
qed

text \<open>A classifier table entry can be added to a port that is in use and has none, and deleted
  again: after the first command the port carries exactly the VLAN id and the address of the
  entry, the component that transmits to the port is marked as changed, and no other port is
  touched; after the second the port is as it was before; both keep the invariant of the
  management data.\<close>
theorem classifier_entry_round_trip:
  assumes "mng_ok s" and "ptr_in (length (nic (g_iface_info s))) (Some (t, no))"
    and "load_port s (Some (t, no)) = Some q" and "iface_type q = t" and "iface_no q = no"
    and "class_id q = zero_class_id\<lparr>vlantag := tag\<lparr>vid := ETH_VLAN_ID_MAX\<rparr>\<rparr>"
    and "spp_change_mac_str_to_int64 mac = Some k" and "0 \<le> k"
  shows "\<exists>s1 s2 q1. spp_update_classifier_table SPP_CMD_ACTION_ADD v mac (\<lparr>pi_iface_type = t, pi_iface_no = no\<rparr>) s =
      Some (SPP_RET_OK, s1) \<and> mng_ok s1 \<and>
    load_port s1 (Some (t, no)) = Some q1 \<and> mac_addr (class_id q1) = word_of_int k \<and>
    mac_addr_str (class_id q1) = mac \<and> vid (vlantag (class_id q1)) = v \<and>
    (\<forall>r. r \<noteq> Some (t, no) \<longrightarrow> load_port s1 r = load_port s r) \<and>
    (\<forall>j. port_owner SPP_PORT_RXTX_TX (Some (t, no)) (g_component_info s) = Some j \<longrightarrow> g_change_component s1 ! j = 1) \<and>
    spp_update_classifier_table SPP_CMD_ACTION_DEL v mac (\<lparr>pi_iface_type = t, pi_iface_no = no\<rparr>) s1 =
      Some (SPP_RET_OK, s2) \<and> mng_ok s2 \<and> (\<forall>r. load_port s2 r = load_port s r)"
proof -
  let ?p = "Some (t, no)" and ?N = "length (nic (g_iface_info s))"
  let ?port = "\<lparr>pi_iface_type = t, pi_iface_no = no\<rparr>"
  have wfi: "wf_iface (g_iface_info s)" using assms(1) by (simp add: mng_ok_iff)
  have t: "t \<in> {PHY, VHOST, RING}" using assms(2) by (simp add: ptr_in_def)
  have gi: "get_iface_info t no = ?p" using t by (auto simp: get_iface_info_def)
  have str: "strcpy_buf SPP_MIN_STR_LEN mac = Some mac"
    using assms(7) by (auto simp: spp_change_mac_str_to_int64_def strcpy_buf_def bind_Some_iff split: if_splits)
  have lq: "length (ability q) = SPP_PORT_ABILITY_MAX" using load_port_wf [OF wfi assms(2)] assms(3) by auto
  define q1 where "q1 = q\<lparr>class_id := (class_id q)\<lparr>vlantag := (vlantag (class_id q))\<lparr>vid := v\<rparr>,
      mac_addr := word_of_int k, mac_addr_str := mac\<rparr>\<rparr>"
  have "length (ability q1) = SPP_PORT_ABILITY_MAX" using lq by (simp add: q1_def)
  from store_port_ok [OF wfi assms(2) this] obtain f where f: "store_port ?p q1 s = Some (s\<lparr>g_iface_info := f\<rparr>)"
      "wf_iface f" "length (nic f) = ?N" "load_port (s\<lparr>g_iface_info := f\<rparr>) ?p = Some q1"
      "\<forall>r. r \<noteq> ?p \<longrightarrow> load_port (s\<lparr>g_iface_info := f\<rparr>) r = load_port s r" by blast
  define s1 where "s1 = class_changed ?p f s"
  have c0: "mac_addr (class_id q) = 0" "vid (vlantag (class_id q)) = ETH_VLAN_ID_MAX" "mac_addr_str (class_id q) = []"
    using assms(6) by (simp_all add: zero_class_id_def)
  have tn: "iface_type q \<noteq> UNDEF" using t assms(4) by auto
  have run1: "spp_update_classifier_table SPP_CMD_ACTION_ADD v mac ?port s = Some (SPP_RET_OK, s1)"
    using change_port_run [OF assms(1) f(2-4) _ _ t] assms(3-5,7,8) c0 tn f(1) str gi
    by (simp add: spp_update_classifier_table_def s1_def q1_def)
  have ok1: "mng_ok s1" unfolding s1_def by (rule class_changed_ok [OF assms(1) f(2,3)])
  have g1: "g_iface_info s1 = f" "g_component_info s1 = g_component_info s" by (simp_all add: s1_def class_changed_def)
  have l1: "load_port s1 r = load_port (s\<lparr>g_iface_info := f\<rparr>) r" for r by (rule load_port_cong) (simp add: g1)
  define q2 where "q2 = q1\<lparr>class_id := clear_class_id (class_id q1)\<rparr>"
  have q2: "q2 = q" using c0 by (simp add: q2_def q1_def clear_class_id_def)
  have p1: "ptr_in (length (nic (g_iface_info s1))) ?p" using assms(2) f(3) g1 by simp
  from store_port_ok [OF _ p1, of q2] obtain g where g: "store_port ?p q2 s1 = Some (s1\<lparr>g_iface_info := g\<rparr>)"
      "wf_iface g" "length (nic g) = length (nic (g_iface_info s1))" "load_port (s1\<lparr>g_iface_info := g\<rparr>) ?p = Some q2"
      "\<forall>r. r \<noteq> ?p \<longrightarrow> load_port (s1\<lparr>g_iface_info := g\<rparr>) r = load_port s1 r"
    using f(2) g1 lq q2 by auto
  define s2 where "s2 = class_changed ?p g s1"
  have q1f: "iface_type q1 = t" "iface_no q1 = no" "mac_addr (class_id q1) = word_of_int k" "vid (vlantag (class_id q1)) = v"
      "mac_addr_str (class_id q1) = mac" using assms(4,5) by (simp_all add: q1_def)
  have run2: "spp_update_classifier_table SPP_CMD_ACTION_DEL v mac ?port s1 = Some (SPP_RET_OK, s2)"
    using change_port_run [OF ok1 g(2-4) _ _ t] assms(4,5,7,8) q1f f(4) l1 tn g(1) gi q2
    by (simp add: spp_update_classifier_table_def s2_def q2_def)
  have ok2: "mng_ok s2" unfolding s2_def by (rule class_changed_ok [OF ok1 g(2,3)])
  have l2: "load_port s2 r = load_port (s1\<lparr>g_iface_info := g\<rparr>) r" for r
    by (rule load_port_cong) (simp add: s2_def class_changed_def)
  have "load_port s2 r = load_port s r" for r
    using l2 l1 g(4,5) f(5) q2 assms(3) by (cases "r = ?p") simp_all
  moreover have "g_change_component s1 ! j = 1" if "port_owner SPP_PORT_RXTX_TX ?p (g_component_info s) = Some j" for j
    using first_index_SomeD [OF that [unfolded port_owner_def]] assms(1) that
    by (simp add: s1_def class_changed_def mng_ok_iff wf_dims_def Let_def)
  ultimately show ?thesis using run1 ok1 run2 ok2 l1 f(4,5) q1f
    by (intro exI [of _ s1] exI [of _ s2] exI [of _ q1]) simp
qed

end
