(* ===== verification/Command_Keep.thy ===== *)
theory Command_Keep
  imports Command_Port Command_Table
begin

text \<open>
  Every command keeps the management data well-formed, on every branch.
\<close>

section \<open>Ports\<close>

lemma load_port_in:
  assumes "mng_ok s" and "load_port s p = Some q"
  shows "ptr_in (length (nic (g_iface_info s))) p"
proof -
  have "wf_iface (g_iface_info s)" using assms(1) by (simp add: mng_ok_iff)
  then show ?thesis using assms(2)
    by (cases p) (auto simp: load_port_def ptr_in_def wf_iface_def rd_Some_iff split: port_type.splits)
qed

lemma component_target:
  assumes "mng_ok s" and "0 \<le> spp_get_component_id s nm"
  obtains i where "i < length (g_component_info s)" "spp_get_component_id s nm = int i" "used (g_component_info s ! i)"
    "rd (g_component_info s) (int i) = Some (g_component_info s ! i)"
proof -
  have "names_ok (g_component_info s)" using assms(1) by (simp add: mng_ok_iff)
  from component_id_pos [OF this assms(2)] show ?thesis using that by (metis rd_nat)
qed

text \<open>Without a port the update changes nothing or is undefined.\<close>

lemma add_port_no_port: "load_port s p = None \<Longrightarrow> add_port i p t d ab c s = Some (ret, s') \<Longrightarrow> s' = s"
  by (auto simp: add_port_def bind_Some_iff Let_def split: if_splits prod.splits option.splits)

lemma del_port_no_port: "load_port s p = None \<Longrightarrow> del_port i p d c s = None"
  by (simp add: del_port_def)

lemma update_port_keeps:
  assumes ok: "mng_ok s" and d: "d \<in> {SPP_PORT_RXTX_RX, SPP_PORT_RXTX_TX}"
    and run: "spp_update_port action port d nm ab s = Some (ret, s')"
  shows "mng_ok s'"
proof (cases "spp_get_component_id s nm < 0")
  case True
  then show ?thesis using run ok by (simp add: spp_update_port_def)
next
  case False
  then obtain i where i: "i < length (g_component_info s)" "spp_get_component_id s nm = int i" "used (g_component_info s ! i)"
      "rd (g_component_info s) (int i) = Some (g_component_info s ! i)"
    using component_target [OF ok] by (metis not_le)
  define p where "p = get_iface_info (pi_iface_type port) (pi_iface_no port)"
  show ?thesis
  proof (cases "load_port s p")
    case None
    then have "s' = s" using run i(2,4) add_port_no_port [OF None]
      by (auto simp: spp_update_port_def p_def [symmetric] Let_def del_port_no_port [OF None] split: spp_command_action.splits)
    then show ?thesis using ok by simp
  next
    case (Some q)
    have tg: "port_target s nm port i p" using load_port_in [OF ok Some] i by (simp add: port_target_def p_def)
    consider "action = SPP_CMD_ACTION_ADD" | "action = SPP_CMD_ACTION_DEL" | "action \<notin> {SPP_CMD_ACTION_ADD, SPP_CMD_ACTION_DEL}"
      by blast
    then show ?thesis
    proof cases
      case 1
      then show ?thesis using port_add_run [OF ok tg d, of ab] run by auto
    next
      case 2
      then show ?thesis using port_del_run [OF ok tg d, of ab] run by auto
    next
      case 3
      then show ?thesis using run ok i(2,4) by (cases action) (simp_all add: spp_update_port_def)
    qed
  qed
qed

section \<open>Components\<close>

lemma update_component_keeps:
  fixes s :: "('h, 'z) classifier_data_scheme"
  assumes ok: "mng_ok s" and c: "action = SPP_CMD_ACTION_START \<longrightarrow> nm \<noteq> [] \<and> ty \<noteq> SPP_COMPONENT_UNUSE"
    and run: "spp_update_component action nm lc ty s = Some (ret, s')"
  shows "mng_ok s'"
proof -
  consider "action = SPP_CMD_ACTION_START" | "action = SPP_CMD_ACTION_STOP" | "action \<notin> {SPP_CMD_ACTION_START, SPP_CMD_ACTION_STOP}"
    by blast
  then show ?thesis
  proof cases
    case 1
    then have st: "start_component nm lc ty s = Some (ret, s')" using run by (simp add: spp_update_component_def)
    then obtain info where info: "rd (g_core_info s) lc = Some info" by (auto simp: start_component_def bind_Some_iff)
    then obtain l where l: "lc = int l" "l < length (g_core_info s)" "info = g_core_info s ! l"
      by (metis rd_Some_iff zero_le_imp_eq_int nat_int of_nat_less_iff)
    show ?thesis
    proof (cases "status info = SPP_CORE_UNUSE \<or> 0 \<le> spp_get_component_id s nm \<or> get_free_component s < 0")
      case True
      then have "s' = s" using st info by (auto simp: start_component_def Let_def split: if_splits)
      then show ?thesis using ok by simp
    next
      case False
      then have "length nm < SPP_NAME_STR_LEN"
        using st info by (auto simp: start_component_def bind_Some_iff strcpy_buf_def Let_def split: if_splits)
      then show ?thesis
        using component_start_run [OF ok l(2)] False l run c 1 by fastforce
    qed
  next
    case 2
    then show ?thesis
      using component_stop_run [OF ok, of nm lc ty] run ok
      by (cases "0 \<le> spp_get_component_id s nm") (auto simp: spp_update_component_def stop_component_def Let_def)
  next
    case 3
    then have "mark_change_core 0 s = Some s'" using run by (cases action) (auto simp: spp_update_component_def bind_Some_iff)
    then obtain ch where "s' = s\<lparr>g_change_core := ch\<rparr>" "length ch = length (g_change_core s)"
      by (auto simp: mark_change_core_def bind_Some_iff dest: wr_length)
    then show ?thesis using ok by (simp add: mng_ok_iff wf_dims_def Let_def)
  qed
qed

section \<open>The classifier table\<close>

lemma mark_only:
  assumes "set_component_change_port p d s = Some s'"
  shows "\<exists>ch. s' = s\<lparr>g_change_component := ch\<rparr> \<and> length ch = length (g_change_component s)"
proof -
  have mark: "\<exists>ch. u' = u\<lparr>g_change_component := ch\<rparr> \<and> length ch = length (g_change_component u)"
    if "mark_change_component i u = Some u' \<or> u' = u" for i and u u' :: "'a manage_data_scheme"
    using that
  proof
    assume "mark_change_component i u = Some u'"
    then show ?thesis by (auto simp: mark_change_component_def bind_Some_iff dest: wr_length)
  next
    assume "u' = u"
    then show ?thesis by (intro exI [of _ "g_change_component u"]) simp
  qed
  obtain s1 i j where "mark_change_component i s = Some s1 \<or> s1 = s" "mark_change_component j s1 = Some s' \<or> s' = s1"
    using assms by (auto simp: set_component_change_port_def bind_Some_iff split: if_splits)
  from mark [OF this(1)] mark [OF this(2)] show ?thesis by fastforce
qed

lemma class_keeps:
  assumes ok: "mng_ok s" and q: "load_port s p = Some q" and st: "store_port p (q\<lparr>class_id := c\<rparr>) s = Some s1"
    and ch: "set_component_change_port p d s1 = Some s2"
  shows "mng_ok s2"
proof -
  have wf: "wf_iface (g_iface_info s)" using ok by (simp add: mng_ok_iff)
  have p: "ptr_in (length (nic (g_iface_info s))) p" using ok q by (rule load_port_in)
  have "length (ability q) = SPP_PORT_ABILITY_MAX" using load_port_wf [OF wf p] q by auto
  then have "length (ability (q\<lparr>class_id := c\<rparr>)) = SPP_PORT_ABILITY_MAX" by simp
  from store_port_ok [OF wf p this] obtain f where f: "s1 = s\<lparr>g_iface_info := f\<rparr>" "wf_iface f" "length (nic f) = length (nic (g_iface_info s))"
    using st by auto
  obtain cs where "s2 = s1\<lparr>g_change_component := cs\<rparr>" "length cs = length (g_change_component s1)"
    using mark_only [OF ch] by blast
  then show ?thesis using ok f by (simp add: mng_ok_iff wf_dims_def wf_iface_def Let_def)
qed

lemma mark_keeps: "mng_ok s \<Longrightarrow> set_component_change_port p d s = Some s' \<Longrightarrow> mng_ok s'"
  using mark_only [of p d s s'] by (auto simp: mng_ok_iff wf_dims_def Let_def)

lemma update_table_keeps:
  assumes "mng_ok s" and "spp_update_classifier_table action v mac port s = Some (ret, s')"
  shows "mng_ok s'"
proof -
  have "s' = s \<or> (\<exists>p d. set_component_change_port p d s = Some s') \<or>
      (\<exists>p q c d s1. load_port s p = Some q \<and> store_port p (q\<lparr>class_id := c\<rparr>) s = Some s1 \<and> set_component_change_port p d s1 = Some s')"
    using assms(2) unfolding spp_update_classifier_table_def
    by (auto simp: bind_Some_iff Let_def split: if_splits)
  then show ?thesis using assms(1) class_keeps mark_keeps by blast
qed

section \<open>Commands\<close>

text \<open>What the theorem needs of a command: a start names the component and its type, and the direction of
  a port command is one of the two.\<close>

definition command_complete :: "spp_command \<Rightarrow> bool" where
  "command_complete c \<longleftrightarrow>
    (sc_type c = SPP_CMDTYPE_COMPONENT \<longrightarrow> co_action (sc_component c) = SPP_CMD_ACTION_START \<longrightarrow>
       co_name (sc_component c) \<noteq> [] \<and> co_type (sc_component c) \<noteq> SPP_COMPONENT_UNUSE) \<and>
    (sc_type c = SPP_CMDTYPE_PORT \<longrightarrow> po_rxtx (sc_port c) \<in> {SPP_PORT_RXTX_RX, SPP_PORT_RXTX_TX})"


end
