(* ===== verification/Strbuf.thy ===== *)
theory Strbuf
  imports CString
begin

text \<open>
  string_buffer.c: the growing message buffer.  A buffer is the block that
  spp_strbuf_allocate gets from malloc: the capacity stored in front and as many bytes of
  memory.  malloc is the argument mok, which says for which block sizes it succeeds.  A
  result is None when the code runs into undefined behaviour or never returns, Some None
  when it returns NULL, and Some (Some b) when it returns the buffer b.
\<close>

definition NUL :: char where "NUL = CHR 0x00"

record strbuf =
  sb_cap :: "64 word"
  sb_mem :: string

definition cstr :: "string \<Rightarrow> string" where
  "cstr m = takeWhile (\<lambda>c. c \<noteq> NUL) m"

definition c_strlen :: "string \<Rightarrow> nat option" where
  "c_strlen m = (if NUL \<in> set m then Some (length (cstr m)) else None)"

definition mem_write :: "string \<Rightarrow> nat \<Rightarrow> string \<Rightarrow> string option" where
  "mem_write m off xs =
    (if off + length xs \<le> length m then Some (take off m @ xs @ drop (off + length xs) m) else None)"

definition strbuf_get_capacity :: "strbuf \<Rightarrow> 64 word" where
  "strbuf_get_capacity b = sb_cap b"

definition spp_strbuf_allocate :: "(64 word \<Rightarrow> bool) \<Rightarrow> 64 word \<Rightarrow> strbuf option option" where
  "spp_strbuf_allocate mok capacity =
    (if \<not> mok (capacity + 8) then Some None
     else do {
       ensure (unat capacity + 8 < 2 ^ 64);
       Some (Some \<lparr>sb_cap = capacity, sb_mem = replicate (unat capacity) NUL\<rparr>)
     })"

text \<open>The loop that doubles the capacity; None when it never ends.\<close>

partial_function (option) grow_cap :: "64 word \<Rightarrow> 64 word \<Rightarrow> 64 word option" where
  "grow_cap new_cap required_len =
    (if new_cap \<le> required_len then grow_cap (new_cap * 2) required_len else Some new_cap)"

definition strbuf_reallocate ::
  "(64 word \<Rightarrow> bool) \<Rightarrow> strbuf \<Rightarrow> 64 word \<Rightarrow> strbuf option option" where
  "strbuf_reallocate mok b required_len = do {
     new_cap \<leftarrow> grow_cap (strbuf_get_capacity b * 2) required_len;
     r \<leftarrow> spp_strbuf_allocate mok new_cap;
     case r of
       None \<Rightarrow> Some None
     | Some nb \<Rightarrow> do {
         n \<leftarrow> c_strlen (sb_mem b);
         m \<leftarrow> mem_write (sb_mem nb) 0 (take (n + 1) (sb_mem b));
         Some (Some (nb\<lparr>sb_mem := m\<rparr>))
       }
   }"

text \<open>The argument src is the readable memory at the pointer append, terminator included.\<close>

definition strbuf_copy_in :: "strbuf \<Rightarrow> nat \<Rightarrow> string \<Rightarrow> nat \<Rightarrow> strbuf option" where
  "strbuf_copy_in b len src n = do {
     ensure (n \<le> length src);
     m \<leftarrow> mem_write (sb_mem b) len (take n src);
     m2 \<leftarrow> mem_write m (len + n) [NUL];
     Some (b\<lparr>sb_mem := m2\<rparr>)
   }"

definition spp_strbuf_append ::
  "(64 word \<Rightarrow> bool) \<Rightarrow> strbuf \<Rightarrow> string \<Rightarrow> 64 word \<Rightarrow> strbuf option option" where
  "spp_strbuf_append mok b src append_len = do {
     len \<leftarrow> c_strlen (sb_mem b);
     nb \<leftarrow> (if strbuf_get_capacity b \<le> of_nat len + append_len
           then strbuf_reallocate mok b (of_nat len + append_len) else Some (Some b));
     case nb of
       None \<Rightarrow> Some None
     | Some b' \<Rightarrow> map_option Some (strbuf_copy_in b' len src (unat append_len))
   }"

definition spp_strbuf_remove_front :: "strbuf \<Rightarrow> 64 word \<Rightarrow> strbuf option" where
  "spp_strbuf_remove_front b remove_len = do {
     len \<leftarrow> c_strlen (sb_mem b);
     let new_len = (of_nat len :: 64 word) - remove_len;
     if new_len = 0
     then do {
       m \<leftarrow> mem_write (sb_mem b) 0 [NUL];
       Some (b\<lparr>sb_mem := m\<rparr>)
     }
     else do {
       ensure (unat remove_len + unat new_len + 1 \<le> length (sb_mem b));
       m \<leftarrow> mem_write (sb_mem b) 0
              (take (unat new_len + 1) (drop (unat remove_len) (sb_mem b)));
       Some (b\<lparr>sb_mem := m\<rparr>)
     }
   }"

section \<open>Abstraction and invariant\<close>

definition sb_str :: "strbuf \<Rightarrow> string" where
  "sb_str b = cstr (sb_mem b)"

definition sb_wf :: "strbuf \<Rightarrow> bool" where
  "sb_wf b \<longleftrightarrow> length (sb_mem b) = unat (sb_cap b) \<and> NUL \<in> set (sb_mem b)"

lemma cstr_no_nul [simp]: "NUL \<notin> set (cstr m)"
  by (auto simp: cstr_def dest: set_takeWhileD)

lemma cstr_append_nul [simp]: "NUL \<notin> set xs \<Longrightarrow> cstr (xs @ NUL # ys) = xs"
  by (induction xs) (auto simp: cstr_def)

lemma cstr_split: "NUL \<in> set m \<Longrightarrow> \<exists>r. m = cstr m @ NUL # r"
proof (induction m)
  case (Cons c m)
  then show ?case by (cases "c = NUL") (auto simp: cstr_def)
qed simp

lemma cstr_length_less: "NUL \<in> set m \<Longrightarrow> length (cstr m) < length m"
  using cstr_split [of m] by (metis length_append length_Cons less_add_Suc1 add_Suc_right)

lemma sb_wf_length: "sb_wf b \<Longrightarrow> length (sb_str b) < unat (sb_cap b)"
  using cstr_length_less [of "sb_mem b"] by (simp add: sb_wf_def sb_str_def)

lemma sb_wf_strlen: "sb_wf b \<Longrightarrow> c_strlen (sb_mem b) = Some (length (sb_str b))"
  by (simp add: sb_wf_def c_strlen_def sb_str_def)

lemma sb_wf_split: "sb_wf b \<Longrightarrow> \<exists>r. sb_mem b = sb_str b @ NUL # r"
  unfolding sb_wf_def sb_str_def using cstr_split by blast

lemma mem_write_length: "mem_write m off xs = Some m' \<Longrightarrow> length m' = length m"
  by (auto simp: mem_write_def split: if_splits)

lemma allocate_wf:
  "spp_strbuf_allocate mok c = Some (Some b) \<Longrightarrow> 0 < c \<Longrightarrow> sb_wf b \<and> sb_str b = [] \<and> sb_cap b = c"
  by (auto simp: spp_strbuf_allocate_def sb_wf_def sb_str_def cstr_def takeWhile_eq_Nil_iff
      unat_gt_0 word_neq_0_conv split: if_splits)

text \<open>The doubling loop ends as long as the doubled requirement fits a size_t.\<close>

lemma unat_double: "unat (c :: 64 word) < 2 ^ 63 \<Longrightarrow> unat (c * 2) = 2 * unat c"
  by (simp add: unat_word_ariths)

lemma grow_cap_terminates:
  assumes "0 < unat c" and "unat r < 2 ^ 63"
  shows "\<exists>k c'. grow_cap c r = Some c' \<and> unat c' = unat c * 2 ^ k \<and> unat r < unat c'
           \<and> unat c' \<le> max (unat c) (2 * unat r)"
  using assms
proof (induction "2 ^ 63 - unat c" arbitrary: c rule: less_induct)
  case less
  show ?case
  proof (cases "c \<le> r")
    case True
    then have le: "unat c \<le> unat r" by (simp add: word_le_nat_alt)
    then have d: "unat (c * 2) = 2 * unat c" using less.prems by (intro unat_double) simp
    have "2 ^ 63 - unat (c * 2) < 2 ^ 63 - unat c" "0 < unat (c * 2)"
      using d le less.prems by auto
    then obtain k c' where k: "grow_cap (c * 2) r = Some c'" "unat c' = unat (c * 2) * 2 ^ k"
        "unat r < unat c'" "unat c' \<le> max (unat (c * 2)) (2 * unat r)"
      using less.hyps [of "c * 2"] less.prems by blast
    moreover have "grow_cap c r = Some c'" using True k(1) by (subst grow_cap.simps) simp
    moreover have "unat c' = unat c * 2 ^ Suc k" using k(2) d by simp
    moreover have "unat c' \<le> max (unat c) (2 * unat r)" using k(4) d le by simp
    ultimately show ?thesis by blast
  next
    case False
    then have "grow_cap c r = Some c" by (subst grow_cap.simps) simp
    moreover have "unat r < unat c" using False by (simp add: word_le_nat_alt not_le)
    ultimately show ?thesis by (intro exI [of _ 0] exI [of _ c]) simp
  qed
qed

section \<open>Appending\<close>

lemma mem_write_bytes:
  "off + length xs \<le> length m \<Longrightarrow>
   mem_write m off xs = Some (take off m @ xs @ drop (off + length xs) m)"
  by (simp add: mem_write_def)

text \<open>Writing the appended bytes and the terminator behind the string of a block.\<close>

lemma append_in_place:
  assumes m: "m = s @ NUL # r" and s: "NUL \<notin> set s" and xs: "NUL \<notin> set xs"
    and fits: "length s + length xs < length m"
  shows "\<exists>m1 m2. mem_write m (length s) xs = Some m1 \<and>
           mem_write m1 (length s + length xs) [NUL] = Some m2 \<and>
           length m2 = length m \<and> cstr m2 = s @ xs \<and> NUL \<in> set m2"
proof -
  define m1 where "m1 = s @ xs @ drop (length s + length xs) m"
  have 1: "mem_write m (length s) xs = Some m1"
    using fits m by (simp add: mem_write_def m1_def)
  have 2: "mem_write m1 (length s + length xs) [NUL] =
      Some (s @ xs @ NUL # drop (Suc (length s + length xs)) m1)"
    using fits by (simp add: mem_write_def m1_def)
  have 3: "cstr (s @ xs @ NUL # ys) = s @ xs" for ys
    using cstr_append_nul [of "s @ xs" ys] s xs by simp
  have 4: "length (s @ xs @ NUL # drop (Suc (length s + length xs)) m1) = length m"
    using fits by (simp add: m1_def)
  show ?thesis by (intro exI conjI, rule 1, rule 2, rule 4, rule 3, simp)
qed

lemma reallocate_ok:
  assumes wf: "sb_wf b" and cap: "unat (sb_cap b) < 2 ^ 62" and req: "unat req < 2 ^ 62"
  shows "strbuf_reallocate mok b req = Some None \<and> (\<exists>c. \<not> mok c) \<or>
    (\<exists>b' k. strbuf_reallocate mok b req = Some (Some b') \<and> sb_wf b' \<and> sb_str b' = sb_str b \<and>
       unat (sb_cap b') = unat (sb_cap b) * 2 ^ k \<and> unat req < unat (sb_cap b') \<and>
       unat (sb_cap b') \<le> 2 * max (unat (sb_cap b)) (unat req))"
proof -
  have dbl: "unat (sb_cap b * 2) = 2 * unat (sb_cap b)" using cap by (intro unat_double) simp
  have pos: "0 < unat (sb_cap b)" using sb_wf_length [OF wf] by simp
  obtain k c' where g: "grow_cap (sb_cap b * 2) req = Some c'" "unat c' = 2 * unat (sb_cap b) * 2 ^ k"
      "unat req < unat c'" "unat c' \<le> max (2 * unat (sb_cap b)) (2 * unat req)"
    using grow_cap_terminates [of "sb_cap b * 2" req] dbl pos req by auto
  obtain r where r: "sb_mem b = sb_str b @ NUL # r" using sb_wf_split [OF wf] by blast
  define b' where "b' = \<lparr>sb_cap = c',
    sb_mem = sb_str b @ NUL # replicate (unat c' - Suc (length (sb_str b))) NUL\<rparr>"
  have len: "length (sb_str b) < unat c'"
  proof -
    have "unat c' = unat (sb_cap b) * (2 * 2 ^ k)" using g(2) by simp
    moreover have "unat (sb_cap b) * 1 \<le> unat (sb_cap b) * (2 * 2 ^ k)" by (rule mult_le_mono2) simp
    ultimately show ?thesis using sb_wf_length [OF wf] by linarith
  qed
  have tk: "take (Suc (length (sb_str b))) (sb_mem b) = sb_str b @ [NUL]" by (simp add: r)
  have "unat c' + 8 < 2 ^ 64" using g(4) cap req by (simp add: max_def split: if_splits)
  moreover have "mem_write (replicate (unat c') NUL) 0 (sb_str b @ [NUL]) =
      Some (sb_str b @ NUL # replicate (unat c' - Suc (length (sb_str b))) NUL)"
    using len by (simp add: mem_write_def)
  ultimately have run: "strbuf_reallocate mok b req =
      (if mok (c' + 8) then Some (Some b') else Some None)"
    by (simp add: strbuf_reallocate_def strbuf_get_capacity_def spp_strbuf_allocate_def
        sb_wf_strlen [OF wf] tk g(1) b'_def)
  have "NUL \<notin> set (sb_str b)" by (simp add: sb_str_def)
  then have str: "sb_str b' = sb_str b" by (simp add: b'_def sb_str_def)
  have wf': "sb_wf b'" using len by (simp add: sb_wf_def b'_def)
  have cap': "unat (sb_cap b') = unat (sb_cap b) * 2 ^ Suc k" using g(2) by (simp add: b'_def)
  show ?thesis
  proof (cases "mok (c' + 8)")
    case True
    then show ?thesis using run str wf' cap' g(3,4)
      by (intro disjI2 exI [of _ b'] exI [of _ "Suc k"]) (simp add: b'_def nat_mult_max_right)
  qed (use run in auto)
qed

text \<open>Appending to a well-formed buffer.\<close>

definition appended :: "strbuf \<Rightarrow> string \<Rightarrow> strbuf \<Rightarrow> bool" where
  "appended b xs b' \<longleftrightarrow> sb_wf b' \<and> sb_str b' = sb_str b @ xs"

lemma append_tail:
  assumes wf: "sb_wf b'" and str: "sb_str b' = sb_str b" and n: "unat n \<le> length src"
    and nul: "NUL \<notin> set (take (unat n) src)" and fits: "length (sb_str b) + unat n < unat (sb_cap b')"
  shows "\<exists>b''. strbuf_copy_in b' (length (sb_str b)) src (unat n) = Some b'' \<and>
     appended b (take (unat n) src) b'' \<and> sb_cap b'' = sb_cap b'"
proof -
  obtain r where r: "sb_mem b' = sb_str b @ NUL # r" using sb_wf_split [OF wf] str by auto
  have l: "length (take (unat n) src) = unat n" using n by simp
  have "NUL \<notin> set (sb_str b)" by (simp add: sb_str_def)
  moreover have "length (sb_str b) + length (take (unat n) src) < length (sb_mem b')"
    using fits wf n by (simp add: sb_wf_def)
  ultimately obtain m1 m2 where
    "mem_write (sb_mem b') (length (sb_str b)) (take (unat n) src) = Some m1"
    "mem_write m1 (length (sb_str b) + unat n) [NUL] = Some m2"
    "length m2 = length (sb_mem b')" "cstr m2 = sb_str b @ take (unat n) src" "NUL \<in> set m2"
    using append_in_place [OF r _ nul] unfolding l by blast
  then show ?thesis using n wf by (auto simp: appended_def sb_wf_def sb_str_def strbuf_copy_in_def)
qed

text \<open>Appending n bytes of a string to a well-formed buffer always returns: either NULL,
  and then the text did not fit and malloc refused the larger block, or a well-formed buffer
  that holds the old text followed by those n bytes; its capacity is the old one when the
  text and its terminator fit, and otherwise the old one doubled until they do, at most
  twice what was needed.  No byte is written or read outside the two blocks.\<close>
theorem strbuf_append_correct:
  assumes "sb_wf b" and "unat n \<le> length src" and "NUL \<notin> set (take (unat n) src)"
    and "unat (sb_cap b) < 2 ^ 62" and "length (sb_str b) + unat n < 2 ^ 62"
  shows "spp_strbuf_append mok b src n = Some None \<and> (\<exists>c. \<not> mok c) \<and>
           unat (sb_cap b) \<le> length (sb_str b) + unat n \<or>
    (\<exists>b' k. spp_strbuf_append mok b src n = Some (Some b') \<and> sb_wf b' \<and>
       sb_str b' = sb_str b @ take (unat n) src \<and>
       unat (sb_cap b') = unat (sb_cap b) * 2 ^ k \<and>
       (length (sb_str b) + unat n < unat (sb_cap b) \<longrightarrow> k = 0) \<and>
       unat (sb_cap b') \<le> 2 * max (unat (sb_cap b)) (length (sb_str b) + unat n))"
proof -
  define req where "req = of_nat (length (sb_str b)) + n"
  have req: "unat req = length (sb_str b) + unat n"
    using assms(5) by (simp add: req_def unat_word_ariths unat_of_nat)
  show ?thesis
  proof (cases "sb_cap b \<le> req")
    case False
    then have "length (sb_str b) + unat n < unat (sb_cap b)"
      using req by (simp add: word_le_nat_alt not_le)
    then obtain b'' where "strbuf_copy_in b (length (sb_str b)) src (unat n) = Some b''"
        "appended b (take (unat n) src) b''" "sb_cap b'' = sb_cap b"
      using append_tail [OF assms(1) refl assms(2,3)] by blast
    then show ?thesis using False
      by (intro disjI2 exI [of _ b''] exI [of _ 0])
        (simp add: spp_strbuf_append_def sb_wf_strlen [OF assms(1)] strbuf_get_capacity_def
          req_def [symmetric] appended_def max_def)
  next
    case True
    then have le: "unat (sb_cap b) \<le> length (sb_str b) + unat n"
      using req by (simp add: word_le_nat_alt)
    have rb: "unat req < 2 ^ 62" using req assms(5) by simp
    consider "strbuf_reallocate mok b req = Some None" "\<exists>c. \<not> mok c"
      | b' k where "strbuf_reallocate mok b req = Some (Some b')" "sb_wf b'" "sb_str b' = sb_str b"
          "unat (sb_cap b') = unat (sb_cap b) * 2 ^ k" "unat req < unat (sb_cap b')"
          "unat (sb_cap b') \<le> 2 * max (unat (sb_cap b)) (unat req)"
      using reallocate_ok [OF assms(1,4) rb, of mok] by blast
    then show ?thesis
    proof cases
      case 1
      then show ?thesis using True le
        by (auto simp: spp_strbuf_append_def sb_wf_strlen [OF assms(1)] strbuf_get_capacity_def req_def)
    next
      case (2 b' k)
      then obtain b'' where "strbuf_copy_in b' (length (sb_str b)) src (unat n) = Some b''"
          "appended b (take (unat n) src) b''" "sb_cap b'' = sb_cap b'"
        using append_tail [OF 2(2,3) assms(2,3)] req by auto
      then show ?thesis using True le req 2
        by (intro disjI2 exI [of _ b''] exI [of _ k])
          (simp add: spp_strbuf_append_def sb_wf_strlen [OF assms(1)] strbuf_get_capacity_def
            req_def [symmetric] appended_def)
    qed
  qed
qed

lemma strbuf_append_witness:
  "\<exists>b. sb_wf b \<and> sb_str b = ''ab'' \<and>
     (\<exists>b'. spp_strbuf_append (\<lambda>_. True) b (''cde'' @ [NUL]) 3 = Some (Some b') \<and> sb_str b' = ''abcde'')"
proof -
  define b where "b = \<lparr>sb_cap = 4, sb_mem = ''ab'' @ [NUL, NUL]\<rparr>"
  have "sb_wf b" "sb_str b = ''ab''" by (simp_all add: b_def sb_wf_def sb_str_def cstr_def NUL_def)
  moreover have "NUL \<notin> set (take (unat (3 :: 64 word)) (''cde'' @ [NUL]))" by (simp add: NUL_def)
  ultimately show ?thesis
    using strbuf_append_correct [of b 3 "''cde'' @ [NUL]" "\<lambda>_. True"]
    by (auto simp: b_def)
qed

section \<open>Removing from the front\<close>

text \<open>Removing n bytes from the front of a well-formed buffer leaves the rest of its
  text, in the same block and capacity, when the text has at least n bytes; with more bytes
  than the text has, the length computation wraps and the move leaves the block.\<close>
theorem strbuf_remove_front_correct:
  assumes "sb_wf b"
  shows "(unat n \<le> length (sb_str b) \<longrightarrow>
      (\<exists>b'. spp_strbuf_remove_front b n = Some b' \<and> sb_wf b' \<and> sb_cap b' = sb_cap b \<and>
         sb_str b' = drop (unat n) (sb_str b))) \<and>
    (length (sb_str b) < unat n \<longrightarrow> spp_strbuf_remove_front b n = None)"
proof -
  define L where "L = length (sb_str b)"
  define nl where "nl = (of_nat L :: 64 word) - n"
  have len: "L < unat (sb_cap b)" using sb_wf_length [OF assms] by (simp add: L_def)
  have cap: "unat (sb_cap b) < 2 ^ 64" using unsigned_less [of "sb_cap b"] by simp
  have mem: "length (sb_mem b) = unat (sb_cap b)" using assms by (simp add: sb_wf_def)
  obtain r where r: "sb_mem b = sb_str b @ NUL # r" using sb_wf_split [OF assms] by blast
  have uL: "unat (of_nat L :: 64 word) = L" using len cap by (simp add: unat_of_nat)
  have run: "spp_strbuf_remove_front b n =
     (if nl = 0 then map_option (\<lambda>m. b\<lparr>sb_mem := m\<rparr>) (mem_write (sb_mem b) 0 [NUL])
      else if unat n + unat nl + 1 \<le> length (sb_mem b)
      then map_option (\<lambda>m. b\<lparr>sb_mem := m\<rparr>)
             (mem_write (sb_mem b) 0 (take (unat nl + 1) (drop (unat n) (sb_mem b))))
      else None)"
    by (simp add: spp_strbuf_remove_front_def sb_wf_strlen [OF assms] nl_def L_def Let_def
        map_conv_bind_option comp_def)
  show ?thesis unfolding L_def [symmetric]
  proof (intro conjI impI)
    assume le: "unat n \<le> L"
    then have nl: "unat nl = L - unat n" using uL by (simp add: nl_def unat_sub_if_size word_size)
    show "\<exists>b'. spp_strbuf_remove_front b n = Some b' \<and> sb_wf b' \<and> sb_cap b' = sb_cap b \<and>
         sb_str b' = drop (unat n) (sb_str b)"
    proof (cases "nl = 0")
      case True
      then have "unat n = L" using nl le by (simp add: unat_eq_0)
      then show ?thesis using True run mem len
        by (auto simp: mem_write_def sb_wf_def sb_str_def cstr_def L_def)
    next
      case False
      have tk: "take (Suc (unat nl)) (drop (unat n) (sb_mem b)) = drop (unat n) (sb_str b) @ [NUL]"
        using le by (simp add: r L_def nl)
      have "NUL \<notin> set (drop (unat n) (sb_str b))"
        using set_drop_subset [of "unat n" "sb_str b"] by (auto simp: sb_str_def)
      then have str: "cstr (drop (unat n) (sb_str b) @ NUL # ys) = drop (unat n) (sb_str b)" for ys
        by simp
      have fit: "Suc (L - unat n) \<le> length (sb_mem b)" using len le mem by simp
      have "mem_write (sb_mem b) 0 (drop (unat n) (sb_str b) @ [NUL]) =
          Some (drop (unat n) (sb_str b) @ NUL # drop (Suc (L - unat n)) (sb_mem b))"
        using fit by (simp add: mem_write_def L_def)
      then have "spp_strbuf_remove_front b n =
          Some (b\<lparr>sb_mem := drop (unat n) (sb_str b) @ NUL # drop (Suc (L - unat n)) (sb_mem b)\<rparr>)"
        using False run mem len le nl tk by simp
      then show ?thesis using fit mem str
        by (simp add: sb_wf_def L_def) (simp add: sb_str_def)
    qed
  next
    assume gt: "L < unat n"
    then have "unat nl = 2 ^ 64 + L - unat n"
      using uL by (simp add: nl_def unat_sub_if_size word_size)
    moreover have "unat n < 2 ^ 64" using unsigned_less [of n] by simp
    ultimately have "\<not> unat n + unat nl + 1 \<le> length (sb_mem b)" "nl \<noteq> 0"
      using gt len cap mem by auto
    then show "spp_strbuf_remove_front b n = None" using run by simp
  qed
qed

lemma strbuf_remove_front_witness:
  "\<exists>b. sb_wf b \<and> sb_str b = ''abc'' \<and>
     (\<exists>b'. spp_strbuf_remove_front b 2 = Some b' \<and> sb_str b' = ''c'') \<and>
     spp_strbuf_remove_front b 5 = None"
proof -
  define b where "b = \<lparr>sb_cap = 4, sb_mem = ''abc'' @ [NUL]\<rparr>"
  have "sb_wf b" "sb_str b = ''abc''" by (simp_all add: b_def sb_wf_def sb_str_def cstr_def NUL_def)
  then show ?thesis
    using strbuf_remove_front_correct [of b 2] strbuf_remove_front_correct [of b 5] by auto
qed

end
