(* ===== verification/Command_Json.thy ===== *)
theory Command_Json
  imports Strbuf Command_Proc
begin

text \<open>
  The writers of vf/common/command_proc.c that append JSON text to a growing buffer, and the
  text they produce.

  A writer gets the buffer *output, which is NULL after a failed allocation, and returns its
  code with the new buffer; None is undefined behaviour.  The environment has malloc, which
  says for which block sizes it succeeds, and the bytes that can be read at the address of the
  literal "": to extend a buffer the code appends many bytes of that literal and prints over
  them.  Standard C gives the literal one byte, its terminator; the theorems say which text is
  written when enough bytes can be read, whatever they are.
\<close>

section \<open>JSON values and their text\<close>

datatype json = JStr string | JInt int | JArr "json list" | JObj "(string \<times> json) list"

definition quoted :: "string \<Rightarrow> string" where
  "quoted s = [CHR 0x22] @ s @ [CHR 0x22]"

fun commas :: "string list \<Rightarrow> string" where
  "commas [] = []"
| "commas [x] = x"
| "commas (x # y # xs) = x @ '', '' @ commas (y # xs)"

fun render :: "json \<Rightarrow> string" where
  "render (JStr s) = quoted s"
| "render (JInt i) = show_int i"
| "render (JArr js) = ''[ '' @ commas (map render js) @ '' ]''"
| "render (JObj ms) = ''{ '' @ commas (map (\<lambda>(k, j). quoted k @ '': '' @ render j) ms) @ '' }''"

definition member_text :: "string \<times> json \<Rightarrow> string" where
  "member_text m = quoted (fst m) @ '': '' @ render (snd m)"

section \<open>The writers\<close>

record json_env =
  malloc_ok :: "64 word \<Rightarrow> bool"
  empty_literal :: string

type_synonym outbuf = "strbuf option"

definition CMD_TAG_APPEND_SIZE :: nat where "CMD_TAG_APPEND_SIZE = 16"

definition CMD_RES_BUF_INIT_SIZE :: "64 word" where "CMD_RES_BUF_INIT_SIZE = 2048"

definition JSON_COMMA :: string where "JSON_COMMA = '', ''"

definition JSON_APPEND_COMMA :: "int \<Rightarrow> string" where
  "JSON_APPEND_COMMA flg = (if flg \<noteq> 0 then JSON_COMMA else [])"

definition JSON_APPEND_VALUE :: "string \<Rightarrow> string \<Rightarrow> string \<Rightarrow> string" where
  "JSON_APPEND_VALUE comma nm val = comma @ quoted nm @ '': '' @ val"

definition JSON_APPEND_ARRAY :: "string \<Rightarrow> string \<Rightarrow> string \<Rightarrow> string" where
  "JSON_APPEND_ARRAY comma nm str = comma @ quoted nm @ '': [ '' @ str @ '' ]''"

definition JSON_APPEND_BLOCK :: "string \<Rightarrow> string \<Rightarrow> string \<Rightarrow> string" where
  "JSON_APPEND_BLOCK comma nm str = comma @ quoted nm @ '': { '' @ str @ '' }''"

definition JSON_APPEND_BLOCK_NONAME :: "string \<Rightarrow> string \<Rightarrow> string \<Rightarrow> string" where
  "JSON_APPEND_BLOCK_NONAME comma nm str = comma @ nm @ ''{ '' @ str @ '' }''"

text \<open>The C string in a buffer, and a buffer pointer that becomes NULL when appending fails.\<close>

definition buf_text :: "outbuf \<Rightarrow> string option" where
  "buf_text out = do { b \<leftarrow> out; n \<leftarrow> c_strlen (sb_mem b); Some (take n (sb_mem b)) }"

definition append_out :: "json_env \<Rightarrow> string \<Rightarrow> nat \<Rightarrow> outbuf \<Rightarrow> (int \<times> outbuf) option" where
  "append_out M src n out = do {
     b \<leftarrow> out;
     r \<leftarrow> spp_strbuf_append (malloc_ok M) b src (of_nat n);
     Some (if r = None then (SPP_RET_NG, None) else (SPP_RET_OK, r))
   }"

definition sprintf_at :: "strbuf \<Rightarrow> int \<Rightarrow> string \<Rightarrow> strbuf option" where
  "sprintf_at b len txt = do {
     ensure (0 \<le> len);
     m \<leftarrow> mem_write (sb_mem b) (nat len) (txt @ [NUL]);
     Some (b\<lparr>sb_mem := m\<rparr>)
   }"

text \<open>What the writers share: the length is taken, the buffer is extended by ext bytes of the
  literal, and the text is printed at the old end.\<close>

definition json_extend_print ::
  "json_env \<Rightarrow> nat \<Rightarrow> (string \<Rightarrow> string) \<Rightarrow> outbuf \<Rightarrow> (int \<times> outbuf) option" where
  "json_extend_print M ext fmt out = do {
     b \<leftarrow> out;
     n \<leftarrow> c_strlen (sb_mem b);
     let len = to_int32 (int n);
     (ret, out1) \<leftarrow> append_out M (empty_literal M) ext out;
     case out1 of
       None \<Rightarrow> Some (SPP_RET_NG, None)
     | Some b1 \<Rightarrow> do {
         b2 \<leftarrow> sprintf_at b1 len (fmt (JSON_APPEND_COMMA len));
         Some (SPP_RET_OK, Some b2)
       }
   }"

definition append_json_comma :: "json_env \<Rightarrow> outbuf \<Rightarrow> (int \<times> outbuf) option" where
  "append_json_comma M out = append_out M JSON_COMMA (length JSON_COMMA) out"

definition append_json_uint_value :: "json_env \<Rightarrow> string \<Rightarrow> int \<Rightarrow> outbuf \<Rightarrow> (int \<times> outbuf) option" where
  "append_json_uint_value M nm val out =
    json_extend_print M (length nm + CMD_TAG_APPEND_SIZE * 2) (\<lambda>c. JSON_APPEND_VALUE c nm (show_int val)) out"

definition append_json_int_value :: "json_env \<Rightarrow> string \<Rightarrow> int \<Rightarrow> outbuf \<Rightarrow> (int \<times> outbuf) option" where
  "append_json_int_value M nm val out =
    json_extend_print M (length nm + CMD_TAG_APPEND_SIZE * 2) (\<lambda>c. JSON_APPEND_VALUE c nm (show_int val)) out"

definition append_json_str_value :: "json_env \<Rightarrow> string \<Rightarrow> string \<Rightarrow> outbuf \<Rightarrow> (int \<times> outbuf) option" where
  "append_json_str_value M nm str out =
    json_extend_print M (length nm + length str + CMD_TAG_APPEND_SIZE) (\<lambda>c. JSON_APPEND_VALUE c nm (quoted str)) out"

definition append_json_array_brackets :: "json_env \<Rightarrow> string \<Rightarrow> string \<Rightarrow> outbuf \<Rightarrow> (int \<times> outbuf) option" where
  "append_json_array_brackets M nm str out =
    json_extend_print M (length nm + length str + CMD_TAG_APPEND_SIZE) (\<lambda>c. JSON_APPEND_ARRAY c nm str) out"

definition append_json_block_brackets :: "json_env \<Rightarrow> string \<Rightarrow> string \<Rightarrow> outbuf \<Rightarrow> (int \<times> outbuf) option" where
  "append_json_block_brackets M nm str out =
    json_extend_print M (length nm + length str + CMD_TAG_APPEND_SIZE)
      (\<lambda>c. if nm = [] then JSON_APPEND_BLOCK_NONAME c nm str else JSON_APPEND_BLOCK c nm str) out"

text \<open>The two ways in which the code composes writers: one after the other, leaving at the first
  failure; and writing into a temporary buffer whose text is then appended in brackets.\<close>

definition json_seq ::
  "(outbuf \<Rightarrow> (int \<times> outbuf) option) \<Rightarrow> (outbuf \<Rightarrow> (int \<times> outbuf) option) \<Rightarrow> outbuf \<Rightarrow> (int \<times> outbuf) option" where
  "json_seq f g out = do {
     (ret, out1) \<leftarrow> f out;
     if ret < SPP_RET_OK then Some (SPP_RET_NG, out1) else g out1
   }"

definition in_tmp_buffer ::
  "json_env \<Rightarrow> (outbuf \<Rightarrow> (int \<times> outbuf) option) \<Rightarrow> (string \<Rightarrow> outbuf \<Rightarrow> (int \<times> outbuf) option) \<Rightarrow>
   outbuf \<Rightarrow> (int \<times> outbuf) option" where
  "in_tmp_buffer M body finish out = do {
     tmp \<leftarrow> spp_strbuf_allocate (malloc_ok M) CMD_RES_BUF_INIT_SIZE;
     if tmp = None then Some (SPP_RET_NG, out)
     else do {
       (ret, tmp1) \<leftarrow> body tmp;
       if ret < SPP_RET_OK then Some (SPP_RET_NG, out)
       else do { str \<leftarrow> buf_text tmp1; finish str out }
     }
   }"

section \<open>What the writers append\<close>

text \<open>Items are joined by commas.\<close>

definition add_item :: "string \<Rightarrow> string \<Rightarrow> string" where
  "add_item t x = (if t = [] then x else t @ '', '' @ x)"

definition items :: "string \<Rightarrow> string list \<Rightarrow> string" where
  "items t xs = foldl add_item t xs"

text \<open>A buffer that holds a text, and the sizes for which the writers work: malloc succeeds, the
  text stays below a gigabyte and can be read at the literal.\<close>

definition holds :: "outbuf \<Rightarrow> string \<Rightarrow> bool" where
  "holds out t \<longleftrightarrow> (\<exists>b. out = Some b \<and> sb_wf b \<and> sb_str b = t \<and> unat (sb_cap b) < 2 ^ 32)"

definition room :: "json_env \<Rightarrow> nat \<Rightarrow> bool" where
  "room M n \<longleftrightarrow> (\<forall>c. malloc_ok M c) \<and> n + 64 \<le> length (empty_literal M) \<and> n < 2 ^ 30"

text \<open>The writer appends the items xs.\<close>

definition emits :: "json_env \<Rightarrow> (outbuf \<Rightarrow> (int \<times> outbuf) option) \<Rightarrow> string list \<Rightarrow> bool" where
  "emits M f xs \<longleftrightarrow> (\<forall>out t. holds out t \<longrightarrow> room M (length (items t xs)) \<longrightarrow>
     (\<exists>out'. f out = Some (SPP_RET_OK, out') \<and> holds out' (items t xs)))"

section \<open>Extending and printing\<close>

lemma copy_in_room:
  assumes "sb_wf b" and "sb_str b = t" and "n \<le> length src" and "length t + n < unat (sb_cap b)"
  shows "\<exists>r. strbuf_copy_in b (length t) src n = Some (b\<lparr>sb_mem := t @ take n src @ NUL # r\<rparr>) \<and>
    length t + n + Suc (length r) = unat (sb_cap b)"
proof -
  obtain r where r: "sb_mem b = t @ NUL # r" using sb_wf_split assms(1,2) by blast
  have len: "length (sb_mem b) = unat (sb_cap b)" using assms(1) by (simp add: sb_wf_def)
  show ?thesis
    by (rule exI [of _ "drop (Suc (length t + n)) (sb_mem b)"])
      (use assms len r in \<open>auto simp: strbuf_copy_in_def mem_write_def\<close>)
qed

lemma append_out_room:
  assumes "holds out t" and "\<forall>c. malloc_ok M c" and "n \<le> length src" and "length t + n < 2 ^ 31"
  shows "\<exists>b r. append_out M src n out = Some (SPP_RET_OK, Some b) \<and> sb_mem b = t @ take n src @ NUL # r \<and>
    length (sb_mem b) = unat (sb_cap b) \<and> unat (sb_cap b) < 2 ^ 32"
proof -
  from assms(1) obtain b where b: "out = Some b" "sb_wf b" "sb_str b = t" "unat (sb_cap b) < 2 ^ 32"
    by (auto simp: holds_def)
  define req :: "64 word" where "req = of_nat (length t) + of_nat n"
  have n: "unat (of_nat n :: 64 word) = n" using assms(4) by (simp add: unat_of_nat)
  have req: "unat req = length t + n"
    using assms(4) by (simp add: req_def unat_word_ariths unat_of_nat)
  have "\<exists>b1. (if strbuf_get_capacity b \<le> req then strbuf_reallocate (malloc_ok M) b req else Some (Some b)) = Some (Some b1) \<and>
      sb_wf b1 \<and> sb_str b1 = t \<and> length t + n < unat (sb_cap b1) \<and> unat (sb_cap b1) < 2 ^ 32"
  proof (cases "sb_cap b \<le> req")
    case True
    have c: "unat (sb_cap b) < 2 ^ 62" "unat req < 2 ^ 62" using b(4) req assms(4) by auto
    obtain b' k where "strbuf_reallocate (malloc_ok M) b req = Some (Some b')" "sb_wf b'" "sb_str b' = sb_str b"
        "unat req < unat (sb_cap b')" "unat (sb_cap b') \<le> 2 * max (unat (sb_cap b)) (unat req)"
      using reallocate_ok [OF b(2) c, of "malloc_ok M"] assms(2) by auto
    moreover have "unat (sb_cap b) \<le> unat req" using True by (simp add: word_le_nat_alt)
    ultimately show ?thesis using True b(3) req assms(4) by (simp add: strbuf_get_capacity_def max_def)
  next
    case False
    then have "length t + n < unat (sb_cap b)" using req by (simp add: word_le_nat_alt not_le)
    then show ?thesis using False b by (simp add: strbuf_get_capacity_def)
  qed
  then obtain b1 where b1: "(if strbuf_get_capacity b \<le> req then strbuf_reallocate (malloc_ok M) b req else Some (Some b)) = Some (Some b1)"
      "sb_wf b1" "sb_str b1 = t" "length t + n < unat (sb_cap b1)" "unat (sb_cap b1) < 2 ^ 32" by blast
  obtain r where r: "strbuf_copy_in b1 (length t) src n = Some (b1\<lparr>sb_mem := t @ take n src @ NUL # r\<rparr>)"
      "length t + n + Suc (length r) = unat (sb_cap b1)"
    using copy_in_room [OF b1(2,3) assms(3) b1(4)] by blast
  have "spp_strbuf_append (malloc_ok M) b src (of_nat n) = Some (Some (b1\<lparr>sb_mem := t @ take n src @ NUL # r\<rparr>))"
    unfolding spp_strbuf_append_def sb_wf_strlen [OF b(2)] b(3) n
    by (simp only: bind.bind_lunit req_def [symmetric] b1(1)) (simp add: r(1))
  then show ?thesis using b(1) r(2) b1(5) assms(3)
    by (intro exI [of _ "b1\<lparr>sb_mem := t @ take n src @ NUL # r\<rparr>"] exI [of _ r]) (simp add: append_out_def)
qed

lemma holds_text:
  assumes "sb_mem b = t @ NUL # r" and "NUL \<notin> set t" and "length (sb_mem b) = unat (sb_cap b)" and "unat (sb_cap b) < 2 ^ 32"
  shows "holds (Some b) t"
  using assms cstr_append_nul [OF assms(2), of r] by (simp add: holds_def sb_wf_def sb_str_def)

lemma holds_no_nul: "holds out t \<Longrightarrow> NUL \<notin> set t"
  by (auto simp: holds_def sb_str_def)

lemma append_out_ok:
  assumes "holds out t" and "\<forall>c. malloc_ok M c" and "length t + length xs < 2 ^ 31" and "NUL \<notin> set xs"
  shows "\<exists>out'. append_out M xs (length xs) out = Some (SPP_RET_OK, out') \<and> holds out' (t @ xs)"
proof -
  obtain b r where b: "append_out M xs (length xs) out = Some (SPP_RET_OK, Some b)" "sb_mem b = t @ xs @ NUL # r"
      "length (sb_mem b) = unat (sb_cap b)" "unat (sb_cap b) < 2 ^ 32"
    using append_out_room [OF assms(1,2), of "length xs" xs] assms(3) by auto
  have "holds (Some b) (t @ xs)"
    using b(2) assms(4) holds_no_nul [OF assms(1)] by (intro holds_text [OF _ _ b(3,4), of _ r]) auto
  then show ?thesis using b(1) by blast
qed

lemma json_extend_print_ok:
  assumes h: "holds out t" and m: "\<forall>c. malloc_ok M c" and "ext \<le> length (empty_literal M)" and "length t + ext < 2 ^ 31"
    and "length (fmt (JSON_APPEND_COMMA (int (length t)))) \<le> ext" and "NUL \<notin> set (fmt (JSON_APPEND_COMMA (int (length t))))"
  shows "\<exists>out'. json_extend_print M ext fmt out = Some (SPP_RET_OK, out') \<and>
    holds out' (t @ fmt (JSON_APPEND_COMMA (int (length t))))"
proof -
  define pr where "pr = fmt (JSON_APPEND_COMMA (int (length t)))"
  obtain b r where b: "append_out M (empty_literal M) ext out = Some (SPP_RET_OK, Some b)"
      "sb_mem b = t @ take ext (empty_literal M) @ NUL # r"
      "length (sb_mem b) = unat (sb_cap b)" "unat (sb_cap b) < 2 ^ 32"
    using append_out_room [OF h m assms(3,4)] by blast
  have len: "to_int32 (int (length t)) = int (length t)"
    unfolding to_int32_def using assms(4) by (intro signed_take_bit_int_eq_self) auto
  define m2 where "m2 = t @ pr @ NUL # drop (length t + length pr + 1) (sb_mem b)"
  have w: "mem_write (sb_mem b) (length t) (pr @ [NUL]) = Some m2"
    using assms(3,5) b(2) by (simp add: mem_write_def m2_def pr_def)
  from h obtain b0 where b0: "out = Some b0" "sb_wf b0" "sb_str b0 = t" by (auto simp: holds_def)
  have "json_extend_print M ext fmt out = Some (SPP_RET_OK, Some (b\<lparr>sb_mem := m2\<rparr>))"
    using b0(1) sb_wf_strlen [OF b0(2)] b0(3) b(1) w len
    by (simp add: json_extend_print_def Let_def sprintf_at_def pr_def)
  moreover have "holds (Some (b\<lparr>sb_mem := m2\<rparr>)) (t @ pr)"
    using assms(6) holds_no_nul [OF h] b(3,4) mem_write_length [OF w]
    by (intro holds_text [of _ _ "drop (length t + length pr + 1) (sb_mem b)"]) (auto simp: m2_def pr_def)
  ultimately show ?thesis by (auto simp: pr_def)
qed

section \<open>The items a writer appends\<close>

lemma items_simps [simp]: "items t [] = t" "items t (x # xs) = items (add_item t x) xs"
  by (simp_all add: items_def)

lemma items_append: "items t (xs @ ys) = items (items t xs) ys"
  by (simp add: items_def)

lemma items_length: "length t \<le> length (items t xs)"
proof (induction xs arbitrary: t)
  case (Cons x xs)
  have "length t \<le> length (add_item t x)" by (simp add: add_item_def)
  then show ?case using Cons [of "add_item t x"] by simp
qed simp

lemma add_item_nonempty [simp]: "x \<noteq> [] \<Longrightarrow> add_item t x \<noteq> []"
  by (simp add: add_item_def)

lemma commas_Cons: "xs \<noteq> [] \<Longrightarrow> commas (x # xs) = x @ '', '' @ commas xs"
  by (cases xs) simp_all

lemma items_commas:
  "[] \<notin> set xs \<Longrightarrow> xs \<noteq> [] \<Longrightarrow> items t xs = add_item t (commas xs)"
proof (induction xs arbitrary: t)
  case (Cons x xs)
  then show ?case by (cases "xs = []") (auto simp: commas_Cons add_item_def)
qed simp

lemma items_new: "[] \<notin> set xs \<Longrightarrow> items [] xs = commas xs"
  by (cases "xs = []") (auto simp: items_commas add_item_def)

lemma room_mono: "room M n \<Longrightarrow> m \<le> n \<Longrightarrow> room M m"
  by (simp add: room_def)

lemma commas_eq_Nil: "[] \<notin> set xs \<Longrightarrow> commas xs = [] \<longleftrightarrow> xs = []"
  by (cases xs rule: commas.cases) auto

text \<open>Writing into a new buffer.\<close>

definition emits_new :: "json_env \<Rightarrow> (outbuf \<Rightarrow> (int \<times> outbuf) option) \<Rightarrow> string \<Rightarrow> bool" where
  "emits_new M f t \<longleftrightarrow> (\<forall>out. holds out [] \<longrightarrow> room M (length t) \<longrightarrow>
     (\<exists>out'. f out = Some (SPP_RET_OK, out') \<and> holds out' t))"

lemma emits_emits_new: "emits M f xs \<Longrightarrow> [] \<notin> set xs \<Longrightarrow> emits_new M f (commas xs)"
  unfolding emits_def emits_new_def by (metis items_new)

lemma emits_id: "emits M (\<lambda>out. Some (SPP_RET_OK, out)) []"
  by (simp add: emits_def)

lemma emits_seq:
  assumes "emits M f xs" and "emits M g ys"
  shows "emits M (json_seq f g) (xs @ ys)"
  unfolding emits_def
proof (intro allI impI)
  fix out t
  assume h: "holds out t" and r: "room M (length (items t (xs @ ys)))"
  have "room M (length (items t xs))" using r items_length [of "items t xs" ys] by (auto simp: items_append intro: room_mono)
  then obtain o1 where 1: "f out = Some (SPP_RET_OK, o1)" "holds o1 (items t xs)" using assms(1) h by (auto simp: emits_def)
  then obtain o2 where "g o1 = Some (SPP_RET_OK, o2)" "holds o2 (items (items t xs) ys)"
    using assms(2) r by (auto simp: emits_def items_append)
  then show "\<exists>o2. json_seq f g out = Some (SPP_RET_OK, o2) \<and> holds o2 (items t (xs @ ys))"
    using 1(1) by (simp add: json_seq_def items_append)
qed

lemma holds_buf_text: "holds out t \<Longrightarrow> buf_text out = Some t"
  by (auto simp: holds_def buf_text_def sb_wf_strlen) (metis append_eq_conv_conj sb_wf_split)

lemma allocate_holds:
  assumes "\<forall>c. malloc_ok M c"
  shows "\<exists>b. spp_strbuf_allocate (malloc_ok M) CMD_RES_BUF_INIT_SIZE = Some (Some b) \<and> holds (Some b) []"
proof -
  have "spp_strbuf_allocate (malloc_ok M) 2048 = Some (Some \<lparr>sb_cap = 2048, sb_mem = replicate 2048 NUL\<rparr>)"
    using assms by (simp add: spp_strbuf_allocate_def)
  from this allocate_wf [OF this] show ?thesis by (simp add: holds_def CMD_RES_BUF_INIT_SIZE_def)
qed

lemma emits_tmp:
  assumes "emits_new M body x" and "emits M (finish x) [y]" and "length x \<le> length y"
  shows "emits M (in_tmp_buffer M body finish) [y]"
  unfolding emits_def
proof (intro allI impI)
  fix out t
  assume h: "holds out t" and r: "room M (length (items t [y]))"
  obtain b where b: "spp_strbuf_allocate (malloc_ok M) CMD_RES_BUF_INIT_SIZE = Some (Some b)" "holds (Some b) []"
    using allocate_holds r by (auto simp: room_def)
  have "room M (length x)" by (rule room_mono [OF r]) (use assms(3) in \<open>simp add: add_item_def\<close>)
  then obtain t1 where "body (Some b) = Some (SPP_RET_OK, t1)" "holds t1 x"
    using assms(1) b(2) by (auto simp: emits_new_def)
  moreover from this(2) have "buf_text t1 = Some x" by (rule holds_buf_text)
  moreover obtain o' where "finish x out = Some (SPP_RET_OK, o')" "holds o' (items t [y])"
    using assms(2) h r unfolding emits_def by blast
  ultimately show "\<exists>out'. in_tmp_buffer M body finish out = Some (SPP_RET_OK, out') \<and> holds out' (items t [y])"
    using b(1) by (simp add: in_tmp_buffer_def)
qed

text \<open>A writer built on json_extend_print appends one item.\<close>

lemma emits_print:
  assumes "\<And>c. fmt c = c @ x" and "NUL \<notin> set x" and "length x + 2 \<le> ext" and "ext \<le> length x + 40"
  shows "emits M (json_extend_print M ext fmt) [x]"
  unfolding emits_def
proof (intro allI impI)
  fix out t
  assume h: "holds out t" and r: "room M (length (items t [x]))"
  define c where "c = JSON_APPEND_COMMA (int (length t))"
  have c: "c = (if t = [] then [] else '', '')" by (simp add: c_def JSON_APPEND_COMMA_def JSON_COMMA_def)
  have i: "items t [x] = t @ fmt c" using assms(1) c by (simp add: add_item_def)
  have "length t + length x \<le> length (items t [x])" by (simp add: add_item_def)
  then have "ext \<le> length (empty_literal M)" "length t + ext < 2 ^ 31" "\<forall>c. malloc_ok M c"
    using r assms(4) by (auto simp: room_def)
  moreover have "length (fmt c) \<le> ext" "NUL \<notin> set (fmt c)"
    using assms c by (auto simp: NUL_def)
  ultimately show "\<exists>out'. json_extend_print M ext fmt out = Some (SPP_RET_OK, out') \<and> holds out' (items t [x])"
    using json_extend_print_ok [OF h, of M ext fmt] unfolding i c_def by blast
qed

section \<open>The text of values\<close>

lemma nul_char [simp]:
  "NUL = Char b0 b1 b2 b3 b4 b5 b6 b7 \<longleftrightarrow> \<not> (b0 \<or> b1 \<or> b2 \<or> b3 \<or> b4 \<or> b5 \<or> b6 \<or> b7)"
  "Char b0 b1 b2 b3 b4 b5 b6 b7 = NUL \<longleftrightarrow> \<not> (b0 \<or> b1 \<or> b2 \<or> b3 \<or> b4 \<or> b5 \<or> b6 \<or> b7)"
  by (auto simp: NUL_def)

fun json_ok :: "json \<Rightarrow> bool" where
  "json_ok (JStr s) \<longleftrightarrow> NUL \<notin> set s"
| "json_ok (JInt i) \<longleftrightarrow> - (2 ^ 31) \<le> i \<and> i < 2 ^ 32"
| "json_ok (JArr js) \<longleftrightarrow> (\<forall>j\<in>set js. json_ok j)"
| "json_ok (JObj ms) \<longleftrightarrow> (\<forall>(k, j)\<in>set ms. NUL \<notin> set k \<and> json_ok j)"

lemma show_nat_length: "n < 10 ^ Suc k \<Longrightarrow> length (show_nat n) \<le> Suc k"
proof (induction k arbitrary: n)
  case 0
  then show ?case by (subst show_nat.simps) simp
next
  case (Suc k)
  then have "n div 10 < 10 ^ Suc k" by (simp add: div_less_iff_less_mult)
  from Suc.IH [OF this] show ?case by (subst show_nat.simps) simp
qed

lemma show_int_length: "- (2 ^ 31) \<le> i \<Longrightarrow> i < 2 ^ 32 \<Longrightarrow> length (show_int i) \<le> 11"
  using show_nat_length [of "nat i" 9] show_nat_length [of "nat (- i)" 9] by (auto simp: show_int_def nat_less_iff)

lemma digit_char_not_nul: "k < 10 \<Longrightarrow> digit_char k \<noteq> NUL"
  using ord_digit_char [of k] by (auto simp: NUL_def ord_of_def)

lemma show_nat_no_nul: "NUL \<notin> set (show_nat n)"
  using show_nat_digits digit_char_not_nul by metis

lemma show_int_no_nul [simp]: "NUL \<notin> set (show_int i)"
  by (simp add: show_int_def show_nat_no_nul)

lemma commas_set: "c \<in> set (commas xs) \<Longrightarrow> c \<in> {CHR '','', CHR '' ''} \<or> (\<exists>x\<in>set xs. c \<in> set x)"
  by (induction xs rule: commas.induct) auto

lemma commas_no_nul: "(\<And>x. x \<in> set xs \<Longrightarrow> NUL \<notin> set x) \<Longrightarrow> NUL \<notin> set (commas xs)"
  using commas_set [of NUL xs] by auto

lemma quoted_no_nul [simp]: "NUL \<in> set (quoted s) \<longleftrightarrow> NUL \<in> set s"
  by (auto simp: quoted_def)

lemma render_no_nul: "json_ok j \<Longrightarrow> NUL \<notin> set (render j)"
proof (induction j)
  case (JArr js)
  then have "NUL \<notin> set (commas (map render js))" by (intro commas_no_nul) auto
  then show ?case by auto
next
  case (JObj ms)
  have "NUL \<notin> set (quoted k @ '': '' @ render j)" if "(k, j) \<in> set ms" for k j
    using JObj.IH [OF that, of j] JObj.prems that by auto
  then have "NUL \<notin> set (commas (map (\<lambda>(k, j). quoted k @ '': '' @ render j) ms))" by (intro commas_no_nul) auto
  then show ?case by auto
qed simp_all

lemma render_nonempty [simp]: "render j \<noteq> []"
  by (cases j) (auto simp: quoted_def show_int_def)

lemma member_text_nonempty [simp]: "member_text m \<noteq> []"
  by (simp add: member_text_def quoted_def)

lemma render_members: "render (JObj ms) = ''{ '' @ commas (map member_text ms) @ '' }''"
proof -
  have "(\<lambda>(k, j). quoted k @ '': '' @ render j) = member_text" by (auto simp: member_text_def)
  then show ?thesis by simp
qed

lemma member_no_nul: "NUL \<notin> set (fst m) \<Longrightarrow> json_ok (snd m) \<Longrightarrow> NUL \<notin> set (member_text m)"
  using render_no_nul [of "snd m"] by (auto simp: member_text_def)

section \<open>The writers append members and elements\<close>

lemma emits_str:
  assumes "NUL \<notin> set nm" and "NUL \<notin> set str"
  shows "emits M (append_json_str_value M nm str) [member_text (nm, JStr str)]"
  unfolding append_json_str_value_def
  by (rule emits_print) (use assms in \<open>auto simp: JSON_APPEND_VALUE_def member_text_def quoted_def CMD_TAG_APPEND_SIZE_def\<close>)

lemma emits_int:
  assumes "NUL \<notin> set nm" and "- (2 ^ 31) \<le> v" and "v < 2 ^ 32"
  shows "emits M (append_json_int_value M nm v) [member_text (nm, JInt v)]"
    and "emits M (append_json_uint_value M nm v) [member_text (nm, JInt v)]"
  unfolding append_json_int_value_def append_json_uint_value_def
  by (rule emits_print; use assms show_int_length [OF assms(2,3)] in
      \<open>auto simp: JSON_APPEND_VALUE_def member_text_def quoted_def CMD_TAG_APPEND_SIZE_def\<close>)+

lemma emits_array:
  assumes "NUL \<notin> set nm" and "\<forall>j\<in>set js. json_ok j"
  shows "emits M (append_json_array_brackets M nm (commas (map render js))) [member_text (nm, JArr js)]"
proof -
  have "NUL \<notin> set (commas (map render js))" using assms(2) render_no_nul by (intro commas_no_nul) auto
  then show ?thesis unfolding append_json_array_brackets_def using assms(1)
    by (intro emits_print) (auto simp: JSON_APPEND_ARRAY_def member_text_def quoted_def CMD_TAG_APPEND_SIZE_def)
qed

lemma emits_block:
  assumes "NUL \<notin> set nm" and "\<forall>m\<in>set ms. NUL \<notin> set (fst m) \<and> json_ok (snd m)"
  shows "emits M (append_json_block_brackets M nm (commas (map member_text ms)))
    [if nm = [] then render (JObj ms) else member_text (nm, JObj ms)]"
proof -
  have "NUL \<notin> set (commas (map member_text ms))" using assms(2) member_no_nul by (intro commas_no_nul) auto
  then show ?thesis unfolding append_json_block_brackets_def using assms(1)
    by (intro emits_print)
      (auto simp: JSON_APPEND_BLOCK_NONAME_def JSON_APPEND_BLOCK_def member_text_def [of "(nm, JObj ms)"] render_members
        quoted_def CMD_TAG_APPEND_SIZE_def simp del: render.simps)
qed

end
