(* ===== verification/Command_Conn.thy ===== *)
theory Command_Conn
  imports Strbuf Spp_Types
begin

text \<open>
  vf/common/command_conn.c: the TCP connection to the controller.  The socket interface of the
  operating system is the record net of functions on a world 'w; the number of the socket is -1
  while there is no connection.
\<close>

section \<open>The socket interface\<close>

text \<open>net_recv returns what recv returns, the received bytes, and whether errno is EAGAIN or
  EWOULDBLOCK after a failure.\<close>

record 'w net =
  net_socket :: "'w \<Rightarrow> int \<times> 'w"
  net_connect :: "int \<Rightarrow> string \<Rightarrow> int \<Rightarrow> 'w \<Rightarrow> int \<times> 'w"
  net_set_nonblock :: "int \<Rightarrow> 'w \<Rightarrow> 'w"
  net_usleep :: "nat \<Rightarrow> 'w \<Rightarrow> 'w"
  net_close :: "int \<Rightarrow> 'w \<Rightarrow> 'w"
  net_recv :: "int \<Rightarrow> nat \<Rightarrow> 'w \<Rightarrow> (int \<times> string \<times> bool) \<times> 'w"
  net_send :: "int \<Rightarrow> string \<Rightarrow> 'w \<Rightarrow> int \<times> 'w"

text \<open>recv reports at most as many bytes as the buffer has, and that many are received.\<close>

definition recv_laws :: "'w net \<Rightarrow> bool" where
  "recv_laws N \<longleftrightarrow> (\<forall>sock sz w ret bytes again w'. net_recv N sock sz w = ((ret, bytes, again), w') \<longrightarrow>
     ret \<le> int sz \<and> length bytes = nat ret)"

section \<open>The connection\<close>

definition SPP_CONNERR_TEMPORARY :: int where "SPP_CONNERR_TEMPORARY = - 1"
definition SPP_CONNERR_FATAL :: int where "SPP_CONNERR_FATAL = - 2"
definition CONN_RETRY_USEC :: nat where "CONN_RETRY_USEC = 1000 * 1000"
definition MESSAGE_BUFFER_BLOCK_SIZE :: nat where "MESSAGE_BUFFER_BLOCK_SIZE = 2048"

record conn_data =
  g_controller_ip :: string
  g_controller_port :: int

definition spp_command_conn_init :: "string \<Rightarrow> int \<Rightarrow> (int \<times> conn_data) option" where
  "spp_command_conn_init controller_ip controller_port = do {
     ip \<leftarrow> strcpy_buf 128 controller_ip;
     Some (SPP_RET_OK, \<lparr>g_controller_ip = ip, g_controller_port = controller_port\<rparr>)
   }"

definition spp_connect_to_controller :: "'w net \<Rightarrow> conn_data \<Rightarrow> int \<Rightarrow> 'w \<Rightarrow> int \<times> int \<times> 'w" where
  "spp_connect_to_controller N c sock w =
    (if sock \<ge> 0 then (SPP_RET_OK, sock, w)
     else let (sock1, w1) = net_socket N w in
       if sock1 < 0 then (SPP_CONNERR_TEMPORARY, sock1, w1)
       else let (ret, w2) = net_connect N sock1 (g_controller_ip c) (g_controller_port c) w1 in
         if ret < 0 then (SPP_CONNERR_TEMPORARY, - 1, net_close N sock1 (net_usleep N CONN_RETRY_USEC w2))
         else (SPP_RET_OK, sock1, net_set_nonblock N sock1 w2))"

text \<open>The received bytes are appended to the buffer, which stays as it was when that fails.\<close>

definition spp_receive_message ::
  "(64 word \<Rightarrow> bool) \<Rightarrow> 'w net \<Rightarrow> int \<Rightarrow> strbuf \<Rightarrow> 'w \<Rightarrow> (int \<times> int \<times> strbuf \<times> 'w) option" where
  "spp_receive_message mok N sock buf w =
    (case net_recv N sock MESSAGE_BUFFER_BLOCK_SIZE w of ((ret, bytes, again), w1) \<Rightarrow>
       if ret \<le> 0
       then if ret \<noteq> 0 \<and> again then Some (SPP_RET_OK, sock, buf, w1)
         else Some (SPP_CONNERR_TEMPORARY, - 1, buf, net_close N sock w1)
       else do {
         r \<leftarrow> spp_strbuf_append mok buf bytes (of_int ret);
         case r of
           None \<Rightarrow> Some (SPP_CONNERR_FATAL, sock, buf, w1)
         | Some buf' \<Rightarrow> Some (ret, sock, buf', w1)
       })"

definition spp_send_message :: "'w net \<Rightarrow> int \<Rightarrow> string \<Rightarrow> 'w \<Rightarrow> int \<times> int \<times> 'w" where
  "spp_send_message N sock message w =
    (case net_send N sock message w of (ret, w1) \<Rightarrow>
       if ret = - 1 then (SPP_CONNERR_TEMPORARY, - 1, net_close N sock w1) else (SPP_RET_OK, sock, w1))"

end
