(* ===== verification/Command_Response.thy ===== *)
theory Command_Response
  imports Command_Json Command_Conn
begin

text \<open>
  The responses of vf/common/command_proc.c: the members of a response, built with the writers
  of Command_Json from the results of the commands and, for the status command, from the
  management data, and the message that is sent.

  slaves is what RTE_LCORE_FOREACH_SLAVE enumerates; the record tab_env has what the listing of
  the classifier tables needs: the hash library, a bound on the number of entries of a table,
  and ether_format_addr.
\<close>

section \<open>Names\<close>

definition SECONDARY_PROCESS_TYPE_SRINGS :: "secondary_type \<Rightarrow> string" where
  "SECONDARY_PROCESS_TYPE_SRINGS t =
    (case t of SECONDARY_TYPE_NONE \<Rightarrow> ''none'' | SECONDARY_TYPE_VF \<Rightarrow> ''vf'' | SECONDARY_TYPE_MIRROR \<Rightarrow> ''mirror'')"

definition PORT_ABILITY_STATUS_STRINGS :: "spp_port_ability_ope \<Rightarrow> string" where
  "PORT_ABILITY_STATUS_STRINGS op =
    (case op of SPP_PORT_ABILITY_OPE_NONE \<Rightarrow> ''none'' | SPP_PORT_ABILITY_OPE_ADD_VLANTAG \<Rightarrow> ''add''
     | SPP_PORT_ABILITY_OPE_DEL_VLANTAG \<Rightarrow> ''del'')"

definition CLASSIFILER_TYPE_STATUS_STRINGS :: "spp_classifier_type \<Rightarrow> string" where
  "CLASSIFILER_TYPE_STATUS_STRINGS t =
    (case t of SPP_CLASSIFIER_TYPE_NONE \<Rightarrow> ''none'' | SPP_CLASSIFIER_TYPE_MAC \<Rightarrow> ''mac'' | SPP_CLASSIFIER_TYPE_VLAN \<Rightarrow> ''vlan'')"

section \<open>Command results\<close>

definition append_result_value :: "json_env \<Rightarrow> command_result \<Rightarrow> string \<Rightarrow> outbuf \<Rightarrow> (int \<times> outbuf) option" where
  "append_result_value M r nm out = append_json_str_value M nm (cr_result r) out"

definition append_error_details_value :: "json_env \<Rightarrow> command_result \<Rightarrow> string \<Rightarrow> outbuf \<Rightarrow> (int \<times> outbuf) option" where
  "append_error_details_value M r nm out =
    (if cr_error_message r = [] then Some (SPP_RET_OK, out)
     else in_tmp_buffer M (append_json_str_value M ''message'' (cr_error_message r)) (append_json_block_brackets M nm) out)"

section \<open>Status\<close>

definition append_client_id_value :: "json_env \<Rightarrow> 'z manage_data_scheme \<Rightarrow> string \<Rightarrow> outbuf \<Rightarrow> (int \<times> outbuf) option" where
  "append_client_id_value M s nm out = append_json_int_value M nm (spp_get_client_id s) out"

definition append_process_type_value :: "json_env \<Rightarrow> 'z manage_data_scheme \<Rightarrow> string \<Rightarrow> outbuf \<Rightarrow> (int \<times> outbuf) option" where
  "append_process_type_value M s nm out =
    append_json_str_value M nm (SECONDARY_PROCESS_TYPE_SRINGS (spp_get_process_type s)) out"

text \<open>The interface numbers from i on; port_cnt of them have been written.\<close>

fun interface_array_from ::
  "json_env \<Rightarrow> 'z manage_data_scheme \<Rightarrow> port_type \<Rightarrow> nat \<Rightarrow> nat \<Rightarrow> nat \<Rightarrow> outbuf \<Rightarrow> (int \<times> outbuf) option" where
  "interface_array_from M s t 0 i port_cnt out = Some (SPP_RET_OK, out)"
| "interface_array_from M s t (Suc n) i port_cnt out = do {
     used \<leftarrow> spp_check_flush_port s t (int i);
     if \<not> used then interface_array_from M s t n (Suc i) port_cnt out
     else do {
       tmp_str \<leftarrow> strcpy_buf CMD_TAG_APPEND_SIZE (JSON_APPEND_COMMA (int port_cnt) @ show_int (int i));
       (ret, out1) \<leftarrow> append_out M tmp_str (length tmp_str) out;
       if out1 = None then Some (SPP_RET_NG, None)
       else interface_array_from M s t n (Suc i) (Suc port_cnt) out1
     }
   }"

definition append_interface_array ::
  "json_env \<Rightarrow> 'z manage_data_scheme \<Rightarrow> port_type \<Rightarrow> outbuf \<Rightarrow> (int \<times> outbuf) option" where
  "append_interface_array M s t out = interface_array_from M s t (length (nic (g_iface_info s))) 0 0 out"

definition append_interface_value :: "json_env \<Rightarrow> 'z manage_data_scheme \<Rightarrow> string \<Rightarrow> outbuf \<Rightarrow> (int \<times> outbuf) option" where
  "append_interface_value M s nm out = in_tmp_buffer M
     (\<lambda>tmp. if nm = ''phy'' then append_interface_array M s PHY tmp
        else if nm = ''vhost'' then append_interface_array M s VHOST tmp
        else if nm = ''ring'' then append_interface_array M s RING tmp
        else Some (SPP_RET_NG, tmp))
     (append_json_array_brackets M nm) out"

definition append_vlan_value :: "json_env \<Rightarrow> spp_port_ability_ope \<Rightarrow> int \<Rightarrow> int \<Rightarrow> outbuf \<Rightarrow> (int \<times> outbuf) option" where
  "append_vlan_value M op v p =
    json_seq (append_json_str_value M ''operation'' (PORT_ABILITY_STATUS_STRINGS op))
      (json_seq (append_json_int_value M ''id'' v) (append_json_int_value M ''pcp'' p))"

text \<open>The first VLAN operation of a port, or none.\<close>

fun append_first_vlan :: "json_env \<Rightarrow> spp_port_ability list \<Rightarrow> outbuf \<Rightarrow> (int \<times> outbuf) option" where
  "append_first_vlan M [] out = append_vlan_value M SPP_PORT_ABILITY_OPE_NONE 0 0 out"
| "append_first_vlan M (a # as) out =
    (if ope a = SPP_PORT_ABILITY_OPE_ADD_VLANTAG \<or> ope a = SPP_PORT_ABILITY_OPE_DEL_VLANTAG
     then append_vlan_value M (ope a) (vid (data a)) (pcp (data a)) out
     else append_first_vlan M as out)"

definition append_vlan_block ::
  "json_env \<Rightarrow> 'z port_data_scheme \<Rightarrow> string \<Rightarrow> int \<Rightarrow> spp_port_rxtx \<Rightarrow> outbuf \<Rightarrow> (int \<times> outbuf) option" where
  "append_vlan_block M s nm port_id d out = in_tmp_buffer M
     (\<lambda>tmp. do {
        info \<leftarrow> spp_port_ability_get_info s port_id d;
        ensure (SPP_PORT_ABILITY_MAX \<le> length info);
        append_first_vlan M (take SPP_PORT_ABILITY_MAX info) tmp
      })
     (append_json_block_brackets M nm) out"

text \<open>The string of the port is uninitialised when its type has no name.\<close>

definition append_port_block ::
  "json_env \<Rightarrow> 'z port_data_scheme \<Rightarrow> spp_port_index \<Rightarrow> spp_port_rxtx \<Rightarrow> outbuf \<Rightarrow> (int \<times> outbuf) option" where
  "append_port_block M s port d out = in_tmp_buffer M
     (\<lambda>tmp. do {
        let (fret, fstr) = spp_format_port_string (pi_iface_type port) (pi_iface_no port);
        ensure (fret = SPP_RET_OK);
        port_str \<leftarrow> strcpy_buf CMD_TAG_APPEND_SIZE fstr;
        json_seq (append_json_str_value M ''port'' port_str)
          (\<lambda>tmp1. do {
             dp \<leftarrow> spp_get_dpdk_port s (pi_iface_type port) (pi_iface_no port);
             append_vlan_block M s ''vlan'' dp d tmp1
           }) tmp
      })
     (append_json_block_brackets M []) out"

fun append_port_blocks ::
  "json_env \<Rightarrow> 'z port_data_scheme \<Rightarrow> spp_port_index list \<Rightarrow> spp_port_rxtx \<Rightarrow> outbuf \<Rightarrow> (int \<times> outbuf) option" where
  "append_port_blocks M s [] d out = Some (SPP_RET_OK, out)"
| "append_port_blocks M s (p # ps) d out = json_seq (append_port_block M s p d) (append_port_blocks M s ps d) out"

definition append_port_array ::
  "json_env \<Rightarrow> 'z port_data_scheme \<Rightarrow> string \<Rightarrow> spp_port_index list \<Rightarrow> spp_port_rxtx \<Rightarrow> outbuf \<Rightarrow> (int \<times> outbuf) option" where
  "append_port_array M s nm ports d out =
    in_tmp_buffer M (append_port_blocks M s ports d) (append_json_array_brackets M nm) out"

definition append_core_element_value ::
  "json_env \<Rightarrow> 'z port_data_scheme \<Rightarrow> int \<Rightarrow> string \<Rightarrow> string \<Rightarrow> spp_port_index list \<Rightarrow> spp_port_index list \<Rightarrow>
   outbuf \<Rightarrow> (int \<times> outbuf) option" where
  "append_core_element_value M s lcore nm ty rxs txs out = in_tmp_buffer M
     (if ty = ''unuse''
      then json_seq (append_json_uint_value M ''core'' lcore) (append_json_str_value M ''type'' ty)
      else json_seq (append_json_uint_value M ''core'' lcore) (json_seq (append_json_str_value M ''name'' nm)
        (json_seq (append_json_str_value M ''type'' ty) (json_seq (append_port_array M s ''rx_port'' rxs SPP_PORT_RXTX_RX)
          (append_port_array M s ''tx_port'' txs SPP_PORT_RXTX_TX)))))
     (append_json_block_brackets M []) out"

definition append_core_value ::
  "json_env \<Rightarrow> int list \<Rightarrow> ('h, 'z) classifier_data_scheme \<Rightarrow> string \<Rightarrow> outbuf \<Rightarrow> (int \<times> outbuf) option" where
  "append_core_value M slaves s nm out = in_tmp_buffer M
     (spp_iterate_core_info (append_core_element_value M s) s slaves) (append_json_array_brackets M nm) out"

section \<open>The classifier table\<close>

record 'h tab_env =
  te_hash :: "'h hash_ops"
  te_fuel :: nat
  te_format :: "48 word \<Rightarrow> string"

definition append_classifier_element_value ::
  "json_env \<Rightarrow> spp_classifier_type \<Rightarrow> int \<Rightarrow> string \<Rightarrow> spp_port_index \<Rightarrow> outbuf \<Rightarrow> (int \<times> outbuf) option" where
  "append_classifier_element_value M ty v mac port out = in_tmp_buffer M
     (\<lambda>tmp. do {
        let (fret, fstr) = spp_format_port_string (pi_iface_type port) (pi_iface_no port);
        ensure (fret = SPP_RET_OK);
        port_str \<leftarrow> strcpy_buf CMD_TAG_APPEND_SIZE fstr;
        value_str \<leftarrow> strcpy_buf SPP_MIN_STR_LEN
          (case ty of SPP_CLASSIFIER_TYPE_MAC \<Rightarrow> mac
           | SPP_CLASSIFIER_TYPE_VLAN \<Rightarrow> show_int v @ ''/'' @ mac
           | SPP_CLASSIFIER_TYPE_NONE \<Rightarrow> []);
        json_seq (append_json_str_value M ''type'' (CLASSIFILER_TYPE_STATUS_STRINGS ty))
          (json_seq (append_json_str_value M ''value'' value_str) (append_json_str_value M ''port'' port_str)) tmp
      })
     (append_json_block_brackets M []) out"

definition spp_iterate_classifier_table ::
  "'h tab_env \<Rightarrow> (spp_classifier_type \<Rightarrow> int \<Rightarrow> string \<Rightarrow> spp_port_index \<Rightarrow> 'o \<Rightarrow> (int \<times> 'o) option) \<Rightarrow>
   ('h, 'z) classifier_data_scheme \<Rightarrow> 'o \<Rightarrow> (int \<times> 'o) option" where
  "spp_iterate_classifier_table T element_proc s out = do {
     (ret, out1) \<leftarrow> spp_classifier_mac_iterate_table (te_hash T) (te_fuel T) (te_format T)
       (\<lambda>ty v mac port acc. map_option snd (element_proc ty v mac port acc)) s out;
     if ret \<noteq> 0 then Some (SPP_RET_NG, out1) else Some (SPP_RET_OK, out1)
   }"

definition append_classifier_table_value ::
  "json_env \<Rightarrow> 'h tab_env \<Rightarrow> ('h, 'z) classifier_data_scheme \<Rightarrow> string \<Rightarrow> outbuf \<Rightarrow> (int \<times> outbuf) option" where
  "append_classifier_table_value M T s nm out = in_tmp_buffer M
     (spp_iterate_classifier_table T (append_classifier_element_value M) s) (append_json_array_brackets M nm) out"

section \<open>The members of a response\<close>

type_synonym command_response_list = "(string \<times> (string \<Rightarrow> outbuf \<Rightarrow> (int \<times> outbuf) option)) list"

definition response_result_list :: "json_env \<Rightarrow> command_result \<Rightarrow> command_response_list" where
  "response_result_list M r =
    [(''result'', append_result_value M r), (''error_details'', append_error_details_value M r)]"

definition response_info_list ::
  "json_env \<Rightarrow> 'h tab_env \<Rightarrow> int list \<Rightarrow> ('h, 'z) classifier_data_scheme \<Rightarrow> command_response_list" where
  "response_info_list M T slaves s =
    [(''client-id'', append_client_id_value M s), (''phy'', append_interface_value M s),
     (''vhost'', append_interface_value M s), (''ring'', append_interface_value M s),
     (''core'', append_core_value M slaves s), (''classifier_table'', append_classifier_table_value M T s)]"

text \<open>Every function writes into the same temporary buffer, which is emptied before.\<close>

definition empty_buffer :: "outbuf \<Rightarrow> outbuf option" where
  "empty_buffer tmp = do {
     b \<leftarrow> tmp;
     m \<leftarrow> mem_write (sb_mem b) 0 [NUL];
     Some (Some (b\<lparr>sb_mem := m\<rparr>))
   }"

fun append_responses ::
  "json_env \<Rightarrow> command_response_list \<Rightarrow> outbuf \<Rightarrow> outbuf \<Rightarrow> (int \<times> outbuf) option" where
  "append_responses M [] tmp out = Some (SPP_RET_OK, out)"
| "append_responses M ((tag, func) # fs) tmp out = do {
     tmp1 \<leftarrow> empty_buffer tmp;
     (ret, tmp2) \<leftarrow> func tag tmp1;
     if ret < SPP_RET_OK then Some (SPP_RET_NG, out)
     else do {
       str \<leftarrow> buf_text tmp2;
       if str = [] then append_responses M fs tmp2 out
       else do {
         old \<leftarrow> buf_text out;
         (ret1, out1) \<leftarrow> (if old \<noteq> [] then append_json_comma M out else Some (SPP_RET_OK, out));
         if ret1 < SPP_RET_OK then Some (SPP_RET_NG, out1)
         else do {
           (ret2, out2) \<leftarrow> append_out M str (length str) out1;
           if out2 = None then Some (SPP_RET_NG, None) else append_responses M fs tmp2 out2
         }
       }
     }
   }"

definition append_response_list_value :: "json_env \<Rightarrow> command_response_list \<Rightarrow> outbuf \<Rightarrow> (int \<times> outbuf) option" where
  "append_response_list_value M fs out = do {
     tmp \<leftarrow> spp_strbuf_allocate (malloc_ok M) CMD_RES_BUF_INIT_SIZE;
     if tmp = None then Some (SPP_RET_NG, out) else append_responses M fs tmp out
   }"

text \<open>The loop over the results, with its two temporary buffers.\<close>

fun append_results ::
  "json_env \<Rightarrow> command_result list \<Rightarrow> outbuf \<Rightarrow> outbuf \<Rightarrow> (int \<times> outbuf) option" where
  "append_results M [] tmp1 tmp2 = Some (SPP_RET_OK, tmp2)"
| "append_results M (r # rs) tmp1 tmp2 = do {
     t1 \<leftarrow> empty_buffer tmp1;
     (ret, t2) \<leftarrow> append_response_list_value M (response_result_list M r) t1;
     if ret < SPP_RET_OK then Some (SPP_RET_NG, tmp2)
     else do {
       str \<leftarrow> buf_text t2;
       (ret1, tmp2') \<leftarrow> append_json_block_brackets M [] str tmp2;
       if ret1 < SPP_RET_OK then Some (SPP_RET_NG, tmp2') else append_results M rs t2 tmp2'
     }
   }"

definition append_command_results_value ::
  "json_env \<Rightarrow> string \<Rightarrow> int \<Rightarrow> command_result list \<Rightarrow> outbuf \<Rightarrow> (int \<times> outbuf) option" where
  "append_command_results_value M nm n results out = do {
     tmp1 \<leftarrow> spp_strbuf_allocate (malloc_ok M) CMD_RES_BUF_INIT_SIZE;
     if tmp1 = None then Some (SPP_RET_NG, out)
     else do {
       ensure (n \<le> int (length results));
       in_tmp_buffer M (append_results M (take (nat n) results) tmp1) (append_json_array_brackets M nm) out
     }
   }"

definition append_info_value ::
  "json_env \<Rightarrow> 'h tab_env \<Rightarrow> int list \<Rightarrow> ('h, 'z) classifier_data_scheme \<Rightarrow> string \<Rightarrow> outbuf \<Rightarrow> (int \<times> outbuf) option" where
  "append_info_value M T slaves s nm out = in_tmp_buffer M
     (append_response_list_value M (response_info_list M T slaves s)) (append_json_block_brackets M nm) out"

section \<open>Messages\<close>

text \<open>The message in a block without a name; None when memory runs out and nothing is sent.\<close>

definition response_message :: "json_env \<Rightarrow> outbuf \<Rightarrow> string option option" where
  "response_message M tmp = do {
     msg \<leftarrow> spp_strbuf_allocate (malloc_ok M) CMD_RES_BUF_INIT_SIZE;
     if msg = None then Some None
     else do {
       str \<leftarrow> buf_text tmp;
       (ret, msg1) \<leftarrow> append_json_block_brackets M [] str msg;
       if ret < SPP_RET_OK then Some None else map_option Some (buf_text msg1)
     }
   }"

definition send_decode_error_response ::
  "json_env \<Rightarrow> 'w net \<Rightarrow> spp_command_request \<Rightarrow> command_result list \<Rightarrow> int \<Rightarrow> 'w \<Rightarrow> (int \<times> 'w) option" where
  "send_decode_error_response M N req results sock w = do {
     tmp \<leftarrow> spp_strbuf_allocate (malloc_ok M) CMD_RES_BUF_INIT_SIZE;
     if tmp = None then Some (sock, w)
     else do {
       (ret, tmp1) \<leftarrow> append_command_results_value M ''results'' (num_command req) results tmp;
       if ret < SPP_RET_OK then Some (sock, w)
       else do {
         msg \<leftarrow> response_message M tmp1;
         case msg of
           None \<Rightarrow> Some (sock, w)
         | Some m \<Rightarrow> Some (snd (spp_send_message N sock m w))
       }
     }
   }"

text \<open>The code of the process type is overwritten and not tested.\<close>

definition append_requested_id ::
  "json_env \<Rightarrow> 'z manage_data_scheme \<Rightarrow> outbuf \<Rightarrow> (int \<times> outbuf) option" where
  "append_requested_id M s tmp = do {
     (ret, tmp1) \<leftarrow> append_client_id_value M s ''client_id'' tmp;
     if ret < SPP_RET_OK then Some (SPP_RET_NG, tmp1)
     else do {
       (ret1, tmp2) \<leftarrow> append_process_type_value M s ''process_type'' tmp1;
       Some (SPP_RET_OK, tmp2)
     }
   }"

definition send_command_result_response ::
  "json_env \<Rightarrow> 'h tab_env \<Rightarrow> int list \<Rightarrow> ('h, 'z) classifier_data_scheme \<Rightarrow> 'w net \<Rightarrow> spp_command_request \<Rightarrow>
   command_result list \<Rightarrow> int \<Rightarrow> 'w \<Rightarrow> (int \<times> 'w) option" where
  "send_command_result_response M T slaves s N req results sock w = do {
     tmp \<leftarrow> spp_strbuf_allocate (malloc_ok M) CMD_RES_BUF_INIT_SIZE;
     if tmp = None then Some (sock, w)
     else do {
       (ret, tmp1) \<leftarrow> append_command_results_value M ''results'' (num_command req) results tmp;
       if ret < SPP_RET_OK then Some (sock, w)
       else do {
         (ret1, tmp2) \<leftarrow> (if is_requested_client_id req \<noteq> 0 then append_requested_id M s tmp1 else Some (SPP_RET_OK, tmp1));
         if ret1 < SPP_RET_OK then Some (sock, w)
         else do {
           (ret2, tmp3) \<leftarrow> (if is_requested_status req \<noteq> 0
             then append_info_value M T slaves s ''info'' tmp2 else Some (SPP_RET_OK, tmp2));
           if ret2 < SPP_RET_OK then Some (sock, w)
           else do {
             msg \<leftarrow> response_message M tmp3;
             case msg of
               None \<Rightarrow> Some (sock, w)
             | Some m \<Rightarrow> Some (snd (spp_send_message N sock m w))
           }
         }
       }
     }
   }"

end
