(* ===== verification/Response_Text.thy ===== *)
theory Response_Text
  imports Command_Response
begin

text \<open>
  The responses as JSON values, and the proof that the messages of Command_Response are their
  texts.  The iterations over cores, components and classifier tables are polymorphic in what
  they accumulate: run on lists of JSON values they give the specification, run on buffers the
  code, and the two runs are related element by element.
\<close>

section \<open>The values\<close>

definition result_members :: "command_result \<Rightarrow> (string \<times> json) list" where
  "result_members r = (''result'', JStr (cr_result r)) #
    (if cr_error_message r = [] then []
     else [(''error_details'', JObj [(''message'', JStr (cr_error_message r))])])"

definition vlan_members :: "spp_port_ability_ope \<Rightarrow> int \<Rightarrow> int \<Rightarrow> (string \<times> json) list" where
  "vlan_members op v p =
    [(''operation'', JStr (PORT_ABILITY_STATUS_STRINGS op)), (''id'', JInt v), (''pcp'', JInt p)]"

definition first_vlan :: "spp_port_ability list \<Rightarrow> (string \<times> json) list" where
  "first_vlan as =
    (case find (\<lambda>a. ope a \<noteq> SPP_PORT_ABILITY_OPE_NONE) as of
       None \<Rightarrow> vlan_members SPP_PORT_ABILITY_OPE_NONE 0 0
     | Some a \<Rightarrow> vlan_members (ope a) (vid (data a)) (pcp (data a)))"

definition port_text :: "spp_port_index \<Rightarrow> string option" where
  "port_text p =
    (case spp_format_port_string (pi_iface_type p) (pi_iface_no p) of (ret, str) \<Rightarrow>
       if ret = SPP_RET_OK then strcpy_buf CMD_TAG_APPEND_SIZE str else None)"

definition port_json :: "'z port_data_scheme \<Rightarrow> spp_port_rxtx \<Rightarrow> spp_port_index \<Rightarrow> json option" where
  "port_json s d p = do {
     str \<leftarrow> port_text p;
     dp \<leftarrow> spp_get_dpdk_port s (pi_iface_type p) (pi_iface_no p);
     info \<leftarrow> spp_port_ability_get_info s dp d;
     ensure (SPP_PORT_ABILITY_MAX \<le> length info);
     Some (JObj [(''port'', JStr str), (''vlan'', JObj (first_vlan (take SPP_PORT_ABILITY_MAX info)))])
   }"

fun ports_json :: "'z port_data_scheme \<Rightarrow> spp_port_rxtx \<Rightarrow> spp_port_index list \<Rightarrow> json list option" where
  "ports_json s d [] = Some []"
| "ports_json s d (p # ps) = do { j \<leftarrow> port_json s d p; js \<leftarrow> ports_json s d ps; Some (j # js) }"

definition core_json ::
  "'z port_data_scheme \<Rightarrow> int \<Rightarrow> string \<Rightarrow> string \<Rightarrow> spp_port_index list \<Rightarrow> spp_port_index list \<Rightarrow> json option" where
  "core_json s lcore nm ty rxs txs =
    (if ty = ''unuse'' then Some (JObj [(''core'', JInt lcore), (''type'', JStr ty)])
     else do {
       rx \<leftarrow> ports_json s SPP_PORT_RXTX_RX rxs;
       tx \<leftarrow> ports_json s SPP_PORT_RXTX_TX txs;
       Some (JObj [(''core'', JInt lcore), (''name'', JStr nm), (''type'', JStr ty),
         (''rx_port'', JArr rx), (''tx_port'', JArr tx)])
     })"

definition collect_json :: "json option \<Rightarrow> json list \<Rightarrow> (int \<times> json list) option" where
  "collect_json e acc = map_option (\<lambda>j. (0, acc @ [j])) e"

definition cores_json :: "('h, 'z) classifier_data_scheme \<Rightarrow> int list \<Rightarrow> json list option" where
  "cores_json s slaves = do {
     (ret, js) \<leftarrow> spp_iterate_core_info (\<lambda>l nm ty rxs txs. collect_json (core_json s l nm ty rxs txs)) s slaves [];
     ensure (ret = SPP_RET_OK);
     Some js
   }"

definition entry_json :: "spp_classifier_type \<Rightarrow> int \<Rightarrow> string \<Rightarrow> spp_port_index \<Rightarrow> json option" where
  "entry_json ty v mac port = do {
     str \<leftarrow> port_text port;
     val \<leftarrow> strcpy_buf SPP_MIN_STR_LEN
       (case ty of SPP_CLASSIFIER_TYPE_MAC \<Rightarrow> mac
        | SPP_CLASSIFIER_TYPE_VLAN \<Rightarrow> show_int v @ ''/'' @ mac
        | SPP_CLASSIFIER_TYPE_NONE \<Rightarrow> []);
     Some (JObj [(''type'', JStr (CLASSIFILER_TYPE_STATUS_STRINGS ty)), (''value'', JStr val), (''port'', JStr str)])
   }"

definition table_json :: "'h tab_env \<Rightarrow> ('h, 'z) classifier_data_scheme \<Rightarrow> json list option" where
  "table_json T s = do {
     (ret, js) \<leftarrow> spp_iterate_classifier_table T (\<lambda>ty v mac port. collect_json (entry_json ty v mac port)) s [];
     ensure (ret = SPP_RET_OK);
     Some js
   }"

text \<open>The interface numbers i, ..., i + n - 1 that have a DPDK port.\<close>

fun iface_numbers :: "'z manage_data_scheme \<Rightarrow> port_type \<Rightarrow> nat \<Rightarrow> nat \<Rightarrow> nat list option" where
  "iface_numbers s t 0 i = Some []"
| "iface_numbers s t (Suc n) i = do {
     used \<leftarrow> spp_check_flush_port s t (int i);
     is \<leftarrow> iface_numbers s t n (Suc i);
     Some (if used then i # is else is)
   }"

definition ifaces_json :: "'z manage_data_scheme \<Rightarrow> port_type \<Rightarrow> json option" where
  "ifaces_json s t =
    map_option (\<lambda>is. JArr (map (\<lambda>i. JInt (int i)) is)) (iface_numbers s t (length (nic (g_iface_info s))) 0)"

definition info_members ::
  "'h tab_env \<Rightarrow> int list \<Rightarrow> ('h, 'z) classifier_data_scheme \<Rightarrow> (string \<times> json) list option" where
  "info_members T slaves s = do {
     phy \<leftarrow> ifaces_json s PHY;
     vh \<leftarrow> ifaces_json s VHOST;
     ri \<leftarrow> ifaces_json s RING;
     cores \<leftarrow> cores_json s slaves;
     tab \<leftarrow> table_json T s;
     Some [(''client-id'', JInt (spp_get_client_id s)), (''phy'', phy), (''vhost'', vh), (''ring'', ri),
       (''core'', JArr cores), (''classifier_table'', JArr tab)]
   }"

definition results_json :: "spp_command_request \<Rightarrow> command_result list \<Rightarrow> json" where
  "results_json req results = JArr (map (\<lambda>r. JObj (result_members r)) (take (nat (num_command req)) results))"

definition response_members ::
  "'h tab_env \<Rightarrow> int list \<Rightarrow> ('h, 'z) classifier_data_scheme \<Rightarrow> spp_command_request \<Rightarrow> command_result list \<Rightarrow>
   (string \<times> json) list option" where
  "response_members T slaves s req results = do {
     info \<leftarrow> (if is_requested_status req \<noteq> 0
       then map_option (\<lambda>ms. [(''info'', JObj ms)]) (info_members T slaves s) else Some []);
     Some ((''results'', results_json req results) #
       (if is_requested_client_id req \<noteq> 0
        then [(''client_id'', JInt (spp_get_client_id s)),
              (''process_type'', JStr (SECONDARY_PROCESS_TYPE_SRINGS (spp_get_process_type s)))]
        else []) @ info)
   }"

section \<open>Single elements\<close>

abbreviation members_ok :: "(string \<times> json) list \<Rightarrow> bool" where
  "members_ok ms \<equiv> json_ok (JObj ms)"

lemma members_ok_Cons: "members_ok ((k, j) # ms) \<longleftrightarrow> NUL \<notin> set k \<and> json_ok j \<and> members_ok ms"
  by auto

lemma lits_no_nul [simp]:
  "NUL \<notin> set ''result''" "NUL \<notin> set ''error_details''" "NUL \<notin> set ''message''" "NUL \<notin> set ''operation''"
  "NUL \<notin> set ''id''" "NUL \<notin> set ''pcp''" "NUL \<notin> set ''port''" "NUL \<notin> set ''vlan''" "NUL \<notin> set ''core''"
  "NUL \<notin> set ''name''" "NUL \<notin> set ''type''" "NUL \<notin> set ''rx_port''" "NUL \<notin> set ''tx_port''" "NUL \<notin> set ''value''"
  "NUL \<notin> set ''client-id''" "NUL \<notin> set ''phy''" "NUL \<notin> set ''vhost''" "NUL \<notin> set ''ring''"
  "NUL \<notin> set ''classifier_table''" "NUL \<notin> set ''results''" "NUL \<notin> set ''client_id''" "NUL \<notin> set ''process_type''"
  "NUL \<notin> set ''info''"
  by (simp_all add: NUL_def)

lemma emits_block_tmp:
  assumes "emits M body (map member_text ms)" and "members_ok ms" and "NUL \<notin> set nm"
  shows "emits M (in_tmp_buffer M body (append_json_block_brackets M nm))
    [if nm = [] then render (JObj ms) else member_text (nm, JObj ms)]"
proof (rule emits_tmp)
  show "emits_new M body (commas (map member_text ms))" using assms(1) by (rule emits_emits_new) (auto dest: sym)
  show "emits M (append_json_block_brackets M nm (commas (map member_text ms)))
      [if nm = [] then render (JObj ms) else member_text (nm, JObj ms)]"
    using assms(2,3) by (intro emits_block) auto
qed (simp add: render_members member_text_def [of "(nm, JObj ms)"] del: render.simps)

lemma emits_noname:
  assumes "emits M body xs" and "xs = map member_text ms" and "members_ok ms"
  shows "emits M (in_tmp_buffer M body (append_json_block_brackets M [])) [render (JObj ms)]"
  using emits_block_tmp [of M body ms "[]"] assms by simp

lemma emits_array_tmp:
  assumes "emits M body (map render js)" and "\<forall>j\<in>set js. json_ok j" and "NUL \<notin> set nm"
  shows "emits M (in_tmp_buffer M body (append_json_array_brackets M nm)) [member_text (nm, JArr js)]"
proof (rule emits_tmp)
  show "emits_new M body (commas (map render js))" using assms(1) by (rule emits_emits_new) (auto dest: sym)
  show "emits M (append_json_array_brackets M nm (commas (map render js))) [member_text (nm, JArr js)]"
    using assms(2,3) by (rule_tac emits_array)
qed (simp add: member_text_def)

lemma emits_vlan:
  assumes "members_ok (vlan_members op v p)"
  shows "emits M (append_vlan_value M op v p) (map member_text (vlan_members op v p))"
proof -
  have "emits M (append_vlan_value M op v p)
      ([member_text (''operation'', JStr (PORT_ABILITY_STATUS_STRINGS op))] @
       [member_text (''id'', JInt v)] @ [member_text (''pcp'', JInt p)])"
    unfolding append_vlan_value_def using assms
    by (intro emits_seq emits_str emits_int) (auto simp: vlan_members_def)
  then show ?thesis by (simp add: vlan_members_def)
qed

lemma emits_first_vlan:
  "members_ok (first_vlan as) \<Longrightarrow> emits M (append_first_vlan M as) (map member_text (first_vlan as))"
proof (induction as)
  case Nil
  have "append_first_vlan M [] = append_vlan_value M SPP_PORT_ABILITY_OPE_NONE 0 0" by (rule ext) simp
  then show ?case using Nil emits_vlan by (simp add: first_vlan_def del: json_ok.simps)
next
  case (Cons a as)
  show ?case
  proof (cases "ope a = SPP_PORT_ABILITY_OPE_NONE")
    case True
    then have "first_vlan (a # as) = first_vlan as" "append_first_vlan M (a # as) = append_first_vlan M as"
      by (auto simp: first_vlan_def fun_eq_iff)
    then show ?thesis using Cons by simp
  next
    case False
    then have "ope a = SPP_PORT_ABILITY_OPE_ADD_VLANTAG \<or> ope a = SPP_PORT_ABILITY_OPE_DEL_VLANTAG"
      by (cases "ope a") auto
    then have "append_first_vlan M (a # as) = append_vlan_value M (ope a) (vid (data a)) (pcp (data a))"
      by (auto simp: fun_eq_iff)
    moreover have "first_vlan (a # as) = vlan_members (ope a) (vid (data a)) (pcp (data a))"
      using False by (simp add: first_vlan_def)
    ultimately show ?thesis using emits_vlan Cons.prems by simp
  qed
qed

lemma emits_vlan_block:
  assumes "spp_port_ability_get_info s dp d = Some info" and "SPP_PORT_ABILITY_MAX \<le> length info"
    and "members_ok (first_vlan (take SPP_PORT_ABILITY_MAX info))"
  shows "emits M (append_vlan_block M s ''vlan'' dp d)
    [member_text (''vlan'', JObj (first_vlan (take SPP_PORT_ABILITY_MAX info)))]"
proof -
  have "emits M (in_tmp_buffer M (append_first_vlan M (take SPP_PORT_ABILITY_MAX info)) (append_json_block_brackets M ''vlan''))
      [if ''vlan'' = [] then render (JObj (first_vlan (take SPP_PORT_ABILITY_MAX info)))
       else member_text (''vlan'', JObj (first_vlan (take SPP_PORT_ABILITY_MAX info)))]"
    by (intro emits_block_tmp emits_first_vlan assms(3) lits_no_nul)
  moreover have "append_vlan_block M s ''vlan'' dp d =
      in_tmp_buffer M (append_first_vlan M (take SPP_PORT_ABILITY_MAX info)) (append_json_block_brackets M ''vlan'')"
    using assms(1,2) by (simp add: append_vlan_block_def fun_eq_iff)
  ultimately show ?thesis by simp
qed

lemma emits_port:
  assumes "port_json s d p = Some j" and "json_ok j"
  shows "emits M (append_port_block M s p d) [render j]"
proof -
  obtain str dp info where p: "port_text p = Some str" "spp_get_dpdk_port s (pi_iface_type p) (pi_iface_no p) = Some dp"
      "spp_port_ability_get_info s dp d = Some info" "SPP_PORT_ABILITY_MAX \<le> length info"
    and j: "j = JObj [(''port'', JStr str), (''vlan'', JObj (first_vlan (take SPP_PORT_ABILITY_MAX info)))]"
    using assms(1) by (auto simp: port_json_def bind_Some_iff split: if_splits)
  let ?body = "json_seq (append_json_str_value M ''port'' str) (append_vlan_block M s ''vlan'' dp d)"
  let ?ms = "[(''port'', JStr str), (''vlan'', JObj (first_vlan (take SPP_PORT_ABILITY_MAX info)))]"
  have ok: "members_ok ?ms" using assms(2) j by (simp del: json_ok.simps)
  have "emits M ?body ([member_text (''port'', JStr str)] @
      [member_text (''vlan'', JObj (first_vlan (take SPP_PORT_ABILITY_MAX info)))])"
    using ok by (intro emits_seq emits_str emits_vlan_block [OF p(3,4)]) auto
  then have "emits M (in_tmp_buffer M ?body (append_json_block_brackets M [])) [render (JObj ?ms)]"
    by (rule emits_noname) (use ok in simp_all)
  moreover have "append_port_block M s p d = in_tmp_buffer M ?body (append_json_block_brackets M [])"
    using p by (auto simp: append_port_block_def port_text_def fun_eq_iff split: prod.splits if_splits)
  ultimately show ?thesis using j by simp
qed

lemma emits_ports:
  "ports_json s d ps = Some js \<Longrightarrow> \<forall>j\<in>set js. json_ok j \<Longrightarrow> emits M (append_port_blocks M s ps d) (map render js)"
proof (induction ps arbitrary: js)
  case Nil
  then show ?case using emits_id [of M] by (simp add: emits_def)
next
  case (Cons p ps)
  then obtain j js' where j: "port_json s d p = Some j" "ports_json s d ps = Some js'" "js = j # js'"
    by (auto simp: bind_Some_iff)
  have "emits M (json_seq (append_port_block M s p d) (append_port_blocks M s ps d)) ([render j] @ map render js')"
    using Cons j by (intro emits_seq emits_port) auto
  moreover have "append_port_blocks M s (p # ps) d = json_seq (append_port_block M s p d) (append_port_blocks M s ps d)"
    by (rule ext) simp
  ultimately show ?case using j(3) by simp
qed

lemma emits_port_array:
  assumes "ports_json s d ps = Some js" and "\<forall>j\<in>set js. json_ok j" and "NUL \<notin> set nm"
  shows "emits M (append_port_array M s nm ps d) [member_text (nm, JArr js)]"
proof -
  have "append_port_array M s nm ps d = in_tmp_buffer M (append_port_blocks M s ps d) (append_json_array_brackets M nm)"
    by (rule ext) (simp add: append_port_array_def)
  then show ?thesis using emits_array_tmp [OF emits_ports [OF assms(1,2)] assms(2,3)] by simp
qed

lemma emits_core:
  assumes "core_json s lcore nm ty rxs txs = Some j" and "json_ok j"
  shows "emits M (append_core_element_value M s lcore nm ty rxs txs) [render j]"
proof (cases "ty = ''unuse''")
  case True
  let ?body = "json_seq (append_json_uint_value M ''core'' lcore) (append_json_str_value M ''type'' ty)"
  let ?ms = "[(''core'', JInt lcore), (''type'', JStr ty)]"
  have j: "j = JObj ?ms" using assms(1) True by (simp add: core_json_def)
  have ok: "members_ok ?ms" using assms(2) j by (simp del: json_ok.simps)
  have "emits M ?body ([member_text (''core'', JInt lcore)] @ [member_text (''type'', JStr ty)])"
    using ok by (intro emits_seq emits_str emits_int) auto
  then have "emits M (in_tmp_buffer M ?body (append_json_block_brackets M [])) [render (JObj ?ms)]"
    by (rule emits_noname) (use ok in simp_all)
  moreover have "append_core_element_value M s lcore nm ty rxs txs = in_tmp_buffer M ?body (append_json_block_brackets M [])"
    using True by (auto simp: append_core_element_value_def fun_eq_iff)
  ultimately show ?thesis using j by simp
next
  case False
  then obtain rx tx where r: "ports_json s SPP_PORT_RXTX_RX rxs = Some rx" "ports_json s SPP_PORT_RXTX_TX txs = Some tx"
    and j: "j = JObj [(''core'', JInt lcore), (''name'', JStr nm), (''type'', JStr ty), (''rx_port'', JArr rx), (''tx_port'', JArr tx)]"
    using assms(1) by (auto simp: core_json_def bind_Some_iff)
  let ?ms = "[(''core'', JInt lcore), (''name'', JStr nm), (''type'', JStr ty), (''rx_port'', JArr rx), (''tx_port'', JArr tx)]"
  let ?body = "json_seq (append_json_uint_value M ''core'' lcore) (json_seq (append_json_str_value M ''name'' nm)
        (json_seq (append_json_str_value M ''type'' ty) (json_seq (append_port_array M s ''rx_port'' rxs SPP_PORT_RXTX_RX)
          (append_port_array M s ''tx_port'' txs SPP_PORT_RXTX_TX))))"
  have ok: "members_ok ?ms" using assms(2) j by (simp del: json_ok.simps)
  have "emits M ?body ([member_text (''core'', JInt lcore)] @ [member_text (''name'', JStr nm)] @ [member_text (''type'', JStr ty)] @
      [member_text (''rx_port'', JArr rx)] @ [member_text (''tx_port'', JArr tx)])"
    using ok by (intro emits_seq emits_str emits_int emits_port_array r) auto
  then have "emits M (in_tmp_buffer M ?body (append_json_block_brackets M [])) [render (JObj ?ms)]"
    by (rule emits_noname) (use ok in simp_all)
  moreover have "append_core_element_value M s lcore nm ty rxs txs = in_tmp_buffer M ?body (append_json_block_brackets M [])"
    using False by (auto simp: append_core_element_value_def fun_eq_iff)
  ultimately show ?thesis using j by simp
qed

lemma emits_entry:
  assumes "entry_json ty v mac port = Some j" and "json_ok j"
  shows "emits M (append_classifier_element_value M ty v mac port) [render j]"
proof -
  obtain str val where p: "port_text port = Some str" "strcpy_buf SPP_MIN_STR_LEN
       (case ty of SPP_CLASSIFIER_TYPE_MAC \<Rightarrow> mac | SPP_CLASSIFIER_TYPE_VLAN \<Rightarrow> show_int v @ ''/'' @ mac
        | SPP_CLASSIFIER_TYPE_NONE \<Rightarrow> []) = Some val"
    and j: "j = JObj [(''type'', JStr (CLASSIFILER_TYPE_STATUS_STRINGS ty)), (''value'', JStr val), (''port'', JStr str)]"
    using assms(1) by (auto simp: entry_json_def bind_Some_iff)
  let ?ms = "[(''type'', JStr (CLASSIFILER_TYPE_STATUS_STRINGS ty)), (''value'', JStr val), (''port'', JStr str)]"
  let ?body = "json_seq (append_json_str_value M ''type'' (CLASSIFILER_TYPE_STATUS_STRINGS ty))
    (json_seq (append_json_str_value M ''value'' val) (append_json_str_value M ''port'' str))"
  have ok: "members_ok ?ms" using assms(2) j by (simp del: json_ok.simps)
  have "emits M ?body ([member_text (''type'', JStr (CLASSIFILER_TYPE_STATUS_STRINGS ty))] @
      [member_text (''value'', JStr val)] @ [member_text (''port'', JStr str)])"
    using ok by (intro emits_seq emits_str) auto
  then have "emits M (in_tmp_buffer M ?body (append_json_block_brackets M [])) [render (JObj ?ms)]"
    by (rule emits_noname) (use ok in simp_all)
  moreover have "append_classifier_element_value M ty v mac port = in_tmp_buffer M ?body (append_json_block_brackets M [])"
    using p by (auto simp: append_classifier_element_value_def port_text_def fun_eq_iff split: prod.splits if_splits)
  ultimately show ?thesis using j by simp
qed

section \<open>Iterations\<close>

lemma emits_bind0:
  assumes "emits M f xs" and "emits M g ys"
  shows "emits M (\<lambda>out. do { (ret, out1) \<leftarrow> f out; if ret \<noteq> 0 then Some (SPP_RET_NG, out1) else g out1 }) (xs @ ys)"
  unfolding emits_def
proof (intro allI impI)
  fix out t
  assume h: "holds out t" and r: "room M (length (items t (xs @ ys)))"
  have "room M (length (items t xs))" using r items_length [of "items t xs" ys] by (auto simp: items_append intro: room_mono)
  then obtain o1 where 1: "f out = Some (SPP_RET_OK, o1)" "holds o1 (items t xs)" using assms(1) h by (auto simp: emits_def)
  then obtain o2 where "g o1 = Some (SPP_RET_OK, o2)" "holds o2 (items (items t xs) ys)"
    using assms(2) r by (auto simp: emits_def items_append)
  then show "\<exists>out'. (do { (ret, out1) \<leftarrow> f out; if ret \<noteq> 0 then Some (SPP_RET_NG, out1) else g out1 }) = Some (SPP_RET_OK, out') \<and>
      holds out' (items t (xs @ ys))"
    using 1(1) by (simp add: items_append)
qed

lemma collect_Some: "collect_json e acc = Some (ret, acc') \<longleftrightarrow> ret = 0 \<and> (\<exists>j. e = Some j \<and> acc' = acc @ [j])"
  by (auto simp: collect_json_def)

text \<open>proc writes what elem computes.\<close>

definition writes_elements ::
  "json_env \<Rightarrow> (int \<Rightarrow> string \<Rightarrow> string \<Rightarrow> spp_port_index list \<Rightarrow> spp_port_index list \<Rightarrow> json option) \<Rightarrow>
   outbuf core_element \<Rightarrow> bool" where
  "writes_elements M elem proc \<longleftrightarrow> (\<forall>l nm ty rxs txs j. elem l nm ty rxs txs = Some j \<longrightarrow> json_ok j \<longrightarrow>
     emits M (proc l nm ty rxs txs) [render j])"

text \<open>A function that is polymorphic in the accumulated value, run on lists and on buffers.\<close>

definition lockstep ::
  "json_env \<Rightarrow> (json list \<Rightarrow> (int \<times> json list) option) \<Rightarrow> (outbuf \<Rightarrow> (int \<times> outbuf) option) \<Rightarrow> bool" where
  "lockstep M F G \<longleftrightarrow> (\<forall>acc acc'. F acc = Some (0, acc') \<longrightarrow>
     (\<exists>js. acc' = acc @ js \<and> ((\<forall>j\<in>set js. json_ok j) \<longrightarrow> emits M G (map render js))))"

lemma lockstepD:
  "lockstep M F G \<Longrightarrow> F [] = Some (0, js) \<Longrightarrow> \<forall>j\<in>set js. json_ok j \<Longrightarrow> emits M G (map render js)"
  unfolding lockstep_def by fastforce

lemma emits_first:
  assumes "emits M f [x]" and "holds out []" and "room M (length x)"
  shows "\<exists>out'. f out = Some (SPP_RET_OK, out') \<and> holds out' x"
  using assms(1) [unfolded emits_def, rule_format, of out "[]"] assms(2,3) by (simp add: add_item_def)

lemma lockstep_id: "lockstep M (\<lambda>acc. Some (0, acc)) (\<lambda>out. Some (0, out))"
  using emits_id [of M] by (simp add: lockstep_def)

lemma lockstep_undefined: "lockstep M (\<lambda>acc. None) G" "lockstep M (\<lambda>acc. Some (SPP_RET_NG, f acc)) G"
  by (simp_all add: lockstep_def)

lemma lockstep_value:
  assumes "\<And>x. m = Some x \<Longrightarrow> lockstep M (F x) (G x)"
  shows "lockstep M (\<lambda>acc. m \<bind> (\<lambda>x. F x acc)) (\<lambda>out. m \<bind> (\<lambda>x. G x out))"
  using assms lockstep_undefined(1) by (cases m) auto

lemma lockstep_if:
  assumes "b \<Longrightarrow> lockstep M F G" and "\<not> b \<Longrightarrow> lockstep M F' G'"
  shows "lockstep M (\<lambda>acc. if b then F acc else F' acc) (\<lambda>out. if b then G out else G' out)"
  using assms by (cases b) auto

lemma lockstep_failed: "lockstep M (\<lambda>acc. Some (SPP_RET_NG, acc)) (\<lambda>out. Some (SPP_RET_NG, out))"
  by (rule lockstep_undefined)

lemma lockstep_collect:
  assumes "\<And>j. e = Some j \<Longrightarrow> json_ok j \<Longrightarrow> emits M f [render j]"
  shows "lockstep M (collect_json e) f"
  unfolding lockstep_def collect_Some using assms by auto

lemma lockstep_bind:
  assumes "lockstep M F G" and "lockstep M F' G'"
  shows "lockstep M (\<lambda>acc. do { (ret, acc1) \<leftarrow> F acc; if ret \<noteq> 0 then Some (SPP_RET_NG, acc1) else F' acc1 })
    (\<lambda>out. do { (ret, out1) \<leftarrow> G out; if ret \<noteq> 0 then Some (SPP_RET_NG, out1) else G' out1 })"
  unfolding lockstep_def
proof (intro allI impI)
  fix acc acc'
  assume "(do { (ret, acc1) \<leftarrow> F acc; if ret \<noteq> 0 then Some (SPP_RET_NG, acc1) else F' acc1 }) = Some (0, acc')"
  then obtain acc1 where 1: "F acc = Some (0, acc1)" "F' acc1 = Some (0, acc')"
    by (auto simp: bind_Some_iff split: if_splits)
  obtain js where js: "acc1 = acc @ js" "(\<forall>j\<in>set js. json_ok j) \<longrightarrow> emits M G (map render js)"
    using assms(1) 1(1) unfolding lockstep_def by blast
  obtain js' where js': "acc' = acc1 @ js'" "(\<forall>j\<in>set js'. json_ok j) \<longrightarrow> emits M G' (map render js')"
    using assms(2) 1(2) unfolding lockstep_def by blast
  show "\<exists>js. acc' = acc @ js \<and> ((\<forall>j\<in>set js. json_ok j) \<longrightarrow>
      emits M (\<lambda>out. do { (ret, out1) \<leftarrow> G out; if ret \<noteq> 0 then Some (SPP_RET_NG, out1) else G' out1 }) (map render js))"
    using js js' emits_bind0 by (intro exI [of _ "js @ js'"]) auto
qed

lemmas lockstep_rules = lockstep_value lockstep_if lockstep_failed lockstep_id lockstep_bind

lemma lockstep_status:
  assumes "writes_elements M elem proc"
  shows "lockstep M (spp_forward_get_component_status s lcore i (\<lambda>l nm ty r t. collect_json (elem l nm ty r t)))
      (spp_forward_get_component_status s lcore i proc)"
    and "lockstep M (spp_classifier_get_component_status s' lcore i (\<lambda>l nm ty r t. collect_json (elem l nm ty r t)))
      (spp_classifier_get_component_status s' lcore i proc)"
proof -
  have e: "lockstep M (collect_json (elem l nm ty r t)) (proc l nm ty r t)" for l nm ty r t
    using assms by (intro lockstep_collect) (auto simp: writes_elements_def)
  show "lockstep M (spp_forward_get_component_status s lcore i (\<lambda>l nm ty r t. collect_json (elem l nm ty r t)))
      (spp_forward_get_component_status s lcore i proc)"
    unfolding spp_forward_get_component_status_def [abs_def] Let_def by (intro lockstep_rules e)
  show "lockstep M (spp_classifier_get_component_status s' lcore i (\<lambda>l nm ty r t. collect_json (elem l nm ty r t)))
      (spp_classifier_get_component_status s' lcore i proc)"
    unfolding spp_classifier_get_component_status_def [abs_def] Let_def by (intro lockstep_rules e)
qed

lemma lockstep_components:
  assumes "writes_elements M elem proc"
  shows "lockstep M (iterate_core_components (\<lambda>l nm ty r t. collect_json (elem l nm ty r t)) s lcore is)
    (iterate_core_components proc s lcore is)"
proof (induction "is")
  case Nil
  show ?case unfolding iterate_core_components.simps [abs_def] by (rule lockstep_id)
next
  case (Cons i "is")
  show ?case unfolding iterate_core_components.simps [abs_def]
    by (intro lockstep_rules lockstep_status [OF assms] Cons.IH)
qed

lemma lockstep_cores:
  assumes "writes_elements M elem proc"
  shows "lockstep M (spp_iterate_core_info (\<lambda>l nm ty r t. collect_json (elem l nm ty r t)) s ls)
    (spp_iterate_core_info proc s ls)"
proof (induction ls)
  case Nil
  show ?case unfolding spp_iterate_core_info.simps [abs_def] by (rule lockstep_id)
next
  case (Cons l ls)
  have e: "lockstep M (collect_json (elem l nm ty r t)) (proc l nm ty r t)" for l nm ty r t
    using assms by (intro lockstep_collect) (auto simp: writes_elements_def)
  show ?case unfolding spp_iterate_core_info.simps [abs_def]
    by (intro lockstep_rules lockstep_components [OF assms] Cons.IH e)
qed

text \<open>The same for the listing of the tables, whose steps have no return code.\<close>

definition codeless :: "('o \<Rightarrow> 'o option) \<Rightarrow> 'o \<Rightarrow> (int \<times> 'o) option" where
  "codeless f out = map_option (Pair 0) (f out)"

definition lockstep_opt :: "json_env \<Rightarrow> (json list \<Rightarrow> json list option) \<Rightarrow> (outbuf \<Rightarrow> outbuf option) \<Rightarrow> bool" where
  "lockstep_opt M F G \<longleftrightarrow> lockstep M (codeless F) (codeless G)"

lemma opt_id: "lockstep_opt M Some Some"
  unfolding lockstep_opt_def codeless_def [abs_def] using lockstep_id by simp

lemma opt_value:
  assumes "\<And>x. m = Some x \<Longrightarrow> lockstep_opt M (F x) (G x)"
  shows "lockstep_opt M (\<lambda>acc. m \<bind> (\<lambda>x. F x acc)) (\<lambda>out. m \<bind> (\<lambda>x. G x out))"
  using assms by (cases m) (auto simp: lockstep_opt_def codeless_def [abs_def] lockstep_undefined)

lemma opt_if:
  assumes "b \<Longrightarrow> lockstep_opt M F G" and "\<not> b \<Longrightarrow> lockstep_opt M F' G'"
  shows "lockstep_opt M (\<lambda>acc. if b then F acc else F' acc) (\<lambda>out. if b then G out else G' out)"
  using assms by (cases b) auto

lemma opt_case:
  assumes "lockstep_opt M F G" and "\<And>x. m = Some x \<Longrightarrow> lockstep_opt M (F' x) (G' x)"
  shows "lockstep_opt M (\<lambda>acc. case m of None \<Rightarrow> F acc | Some x \<Rightarrow> F' x acc) (\<lambda>out. case m of None \<Rightarrow> G out | Some x \<Rightarrow> G' x out)"
  using assms by (cases m) auto

lemma opt_bind:
  assumes "lockstep_opt M F G" and "lockstep_opt M F' G'"
  shows "lockstep_opt M (\<lambda>acc. F acc \<bind> F') (\<lambda>out. G out \<bind> G')"
proof -
  have c: "codeless (\<lambda>x. f x \<bind> g) =
      (\<lambda>x. do { (ret, y) \<leftarrow> codeless f x; if ret \<noteq> 0 then Some (SPP_RET_NG, y) else codeless g y })"
    for f g :: "'x \<Rightarrow> 'x option"
    by (rule ext) (simp add: codeless_def split: option.split Option.bind_splits)
  show ?thesis using lockstep_bind assms unfolding lockstep_opt_def c by blast
qed

lemma opt_elem:
  assumes "lockstep M (collect_json e) f"
  shows "lockstep_opt M (\<lambda>acc. map_option snd (collect_json e acc)) (\<lambda>out. map_option snd (f out))"
  unfolding lockstep_opt_def lockstep_def
proof (intro allI impI)
  fix acc acc' assume "codeless (\<lambda>acc. map_option snd (collect_json e acc)) acc = Some (0, acc')"
  then have "collect_json e acc = Some (0, acc')" by (auto simp: codeless_def collect_json_def)
  then obtain js where js: "acc' = acc @ js" "(\<forall>j\<in>set js. json_ok j) \<longrightarrow> emits M f (map render js)"
    using assms unfolding lockstep_def by blast
  have "emits M (codeless (\<lambda>out. map_option snd (f out))) xs" if "emits M f xs" for xs
    using that by (fastforce simp: emits_def codeless_def)
  then show "\<exists>js. acc' = acc @ js \<and> ((\<forall>j\<in>set js. json_ok j) \<longrightarrow>
      emits M (codeless (\<lambda>out. map_option snd (f out))) (map render js))" using js by blast
qed

lemmas opt_rules = opt_value opt_if opt_case opt_id opt_bind

lemma opt_hash:
  assumes "\<And>ty v mac port. lockstep_opt M (P ty v mac port) (Q ty v mac port)"
  shows "lockstep_opt M (iterate_hash H fmt P ty v qs h fuel next) (iterate_hash H fmt Q ty v qs h fuel next)"
proof (induction fuel arbitrary: "next")
  case 0
  show ?case by (simp add: lockstep_opt_def codeless_def [abs_def] lockstep_undefined)
next
  case (Suc fuel)
  show ?case
  proof (cases "rte_hash_iterate H h next")
    case None
    then show ?thesis using opt_id by simp
  next
    case (Some e)
    then obtain key d next' where e: "rte_hash_iterate H h next = Some (key, d, next')" by (cases e) auto
    show ?thesis unfolding iterate_hash.simps e option.case prod.case
      by (intro opt_rules Suc.IH assms)
  qed
qed

lemma opt_tables:
  assumes "\<And>ty v mac port. lockstep_opt M (P ty v mac port) (Q ty v mac port)"
  shows "lockstep_opt M (iterate_components H fuel fmt P mis) (iterate_components H fuel fmt Q mis)"
proof -
  have tab: "lockstep_opt M (mac_classification_iterate_table H fuel fmt P v mc qs)
      (mac_classification_iterate_table H fuel fmt Q v mc qs)" for v mc qs
    unfolding mac_classification_iterate_table_def [abs_def] Let_def by (intro opt_rules opt_hash assms)
  have vids: "lockstep_opt M (iterate_vids H fuel fmt P n mcs qs) (iterate_vids H fuel fmt Q n mcs qs)" for n mcs qs
  proof (induction mcs arbitrary: n)
    case Nil
    show ?case unfolding iterate_vids.simps [abs_def] by (rule opt_id)
  next
    case (Cons mc mcs)
    show ?case unfolding iterate_vids.simps [abs_def] by (intro opt_rules tab Cons.IH)
  qed
  show ?thesis
  proof (induction mis)
    case Nil
    show ?case unfolding iterate_components.simps [abs_def] by (rule opt_id)
  next
    case (Cons mi mis)
    show ?case unfolding iterate_components.simps [abs_def] by (intro opt_rules vids Cons.IH)
  qed
qed

lemma lockstep_table:
  "lockstep M (spp_iterate_classifier_table T (\<lambda>ty v mac port. collect_json (entry_json ty v mac port)) s)
    (spp_iterate_classifier_table T (append_classifier_element_value M) s)"
proof -
  have e: "lockstep_opt M (\<lambda>acc. map_option snd (collect_json (entry_json ty v mac port) acc))
      (\<lambda>out. map_option snd (append_classifier_element_value M ty v mac port out))" for ty v mac port
    by (intro opt_elem lockstep_collect emits_entry)
  have c: "spp_iterate_classifier_table T proc s = codeless (iterate_components (te_hash T) (te_fuel T) (te_format T)
      (\<lambda>ty v mac port acc. map_option snd (proc ty v mac port acc)) (g_mng_infos s))"
    for proc :: "spp_classifier_type \<Rightarrow> int \<Rightarrow> string \<Rightarrow> spp_port_index \<Rightarrow> 'x \<Rightarrow> (int \<times> 'x) option"
    by (rule ext) (simp add: spp_iterate_classifier_table_def spp_classifier_mac_iterate_table_def codeless_def split: Option.bind_splits)
  show ?thesis unfolding c lockstep_opt_def [symmetric] by (rule opt_tables [OF e])
qed

section \<open>Interfaces\<close>

lemma append_item:
  assumes "holds out t" and "room M (length (items t [x]))" and "NUL \<notin> set x"
    and "src = (if t = [] then [] else JSON_COMMA) @ x"
  shows "\<exists>out'. append_out M src (length src) out = Some (SPP_RET_OK, out') \<and> holds out' (items t [x])"
proof -
  have i: "items t [x] = t @ src" using assms(4) by (simp add: add_item_def JSON_COMMA_def)
  then have "length t + length src < 2 ^ 31" "\<forall>c. malloc_ok M c" using assms(2) by (auto simp: room_def)
  moreover have "NUL \<notin> set src" using assms(3,4) by (auto simp: JSON_COMMA_def)
  ultimately show ?thesis using append_out_ok [OF assms(1), of M src] i by simp
qed

lemma show_int_nat [simp]: "show_int (int n) = show_nat n"
  by (simp add: show_int_def)

lemma interface_array_text:
  assumes "iface_numbers s t n i = Some is" and "holds out u" and "u = [] \<longleftrightarrow> cnt = 0"
    and "room M (length (items u (map show_nat is)))" and "i + n < 2 ^ 31"
  shows "\<exists>out'. interface_array_from M s t n i cnt out = Some (SPP_RET_OK, out') \<and> holds out' (items u (map show_nat is))"
  using assms
proof (induction n arbitrary: i "is" out u cnt)
  case (Suc n)
  then obtain used is' where u: "spp_check_flush_port s t (int i) = Some used" "iface_numbers s t n (Suc i) = Some is'"
    "is = (if used then i # is' else is')" by (auto simp: bind_Some_iff)
  show ?case
  proof (cases used)
    case False
    then have "is = is'" using u(3) by simp
    then show ?thesis using u False Suc.IH [OF u(2) Suc.prems(2,3)] Suc.prems(4,5) by simp
  next
    case True
    then have i: "is = i # is'" using u(3) by simp
    define src where "src = (if u = [] then [] else JSON_COMMA) @ show_nat i"
    have r: "room M (length (items u [show_nat i]))"
      by (rule room_mono [OF Suc.prems(4)]) (use items_length [of "add_item u (show_nat i)"] i in simp)
    obtain out1 where o: "append_out M src (length src) out = Some (SPP_RET_OK, out1)" "holds out1 (items u [show_nat i])"
      using append_item [OF Suc.prems(2) r show_nat_no_nul src_def] by blast
    have "length (show_nat i) \<le> 11" using show_int_length [of "int i"] Suc.prems(5) by simp
    then have len: "strcpy_buf CMD_TAG_APPEND_SIZE (JSON_APPEND_COMMA (int cnt) @ show_nat i) = Some src"
      using Suc.prems(3) by (simp add: strcpy_buf_def CMD_TAG_APPEND_SIZE_def JSON_APPEND_COMMA_def JSON_COMMA_def src_def)
    have "add_item u (show_nat i) = [] \<longleftrightarrow> Suc cnt = 0" "Suc i + n < 2 ^ 31" using Suc.prems(5) by auto
    then obtain out' where "interface_array_from M s t n (Suc i) (Suc cnt) out1 = Some (SPP_RET_OK, out')"
        "holds out' (items (add_item u (show_nat i)) (map show_nat is'))"
      using Suc.IH [OF u(2), of out1 "add_item u (show_nat i)" "Suc cnt"] o(2) Suc.prems(4) i by auto
    moreover have "out1 \<noteq> None" using o(2) by (auto simp: holds_def)
    ultimately show ?thesis using u(1) True len o(1) i by simp
  qed
qed simp

lemma emits_interfaces:
  assumes "ifaces_json s t = Some j" and "json_ok j" and "length (nic (g_iface_info s)) < 2 ^ 31"
    and "(nm, t) \<in> {(''phy'', PHY), (''vhost'', VHOST), (''ring'', RING)}"
  shows "emits M (append_interface_value M s nm) [member_text (nm, j)]"
proof -
  obtain "is" where i: "iface_numbers s t (length (nic (g_iface_info s))) 0 = Some is" "j = JArr (map (\<lambda>i. JInt (int i)) is)"
    using assms(1) by (auto simp: ifaces_json_def)
  have r: "map render (map (\<lambda>i. JInt (int i)) is) = map show_nat is" by (simp add: comp_def)
  have "emits_new M (append_interface_array M s t) (commas (map show_nat is))"
    unfolding emits_new_def
  proof (intro allI impI)
    fix out assume h: "holds out []" "room M (length (commas (map show_nat is)))"
    have "[] \<notin> set (map show_nat is)" by (auto dest: sym)
    then have c: "items [] (map show_nat is) = commas (map show_nat is)" by (rule items_new)
    show "\<exists>out'. append_interface_array M s t out = Some (SPP_RET_OK, out') \<and> holds out' (commas (map show_nat is))"
      using interface_array_text [OF i(1) h(1), of 0 M] h(2) assms(3) unfolding c append_interface_array_def by simp
  qed
  then have "emits M (in_tmp_buffer M (append_interface_array M s t) (append_json_array_brackets M nm)) [member_text (nm, j)]"
  proof (rule emits_tmp)
    have "NUL \<notin> set nm" using assms(4) by auto
    then have "emits M (append_json_array_brackets M nm (commas (map render (map (\<lambda>i. JInt (int i)) is)))) [member_text (nm, JArr (map (\<lambda>i. JInt (int i)) is))]"
      by (intro emits_array) (use assms(2) i(2) in auto)
    then show "emits M (append_json_array_brackets M nm (commas (map show_nat is))) [member_text (nm, j)]" unfolding r i(2) .
  qed (use i(2) r in \<open>simp add: member_text_def comp_def\<close>)
  moreover have "append_interface_value M s nm = in_tmp_buffer M (append_interface_array M s t) (append_json_array_brackets M nm)"
    using assms(4) by (auto simp: append_interface_value_def fun_eq_iff)
  ultimately show ?thesis by simp
qed

section \<open>Lists of members\<close>

lemma empty_buffer_holds:
  assumes "holds tmp t"
  shows "\<exists>tmp'. empty_buffer tmp = Some tmp' \<and> holds tmp' []"
proof -
  from assms obtain b where b: "tmp = Some b" "sb_wf b" "unat (sb_cap b) < 2 ^ 32" by (auto simp: holds_def)
  obtain r where r: "sb_mem b = sb_str b @ NUL # r" using sb_wf_split [OF b(2)] by blast
  have "mem_write (sb_mem b) 0 [NUL] = Some (NUL # drop 1 (sb_mem b))" using r by (simp add: mem_write_def)
  moreover have "holds (Some (b\<lparr>sb_mem := NUL # drop 1 (sb_mem b)\<rparr>)) []"
    by (rule holds_text [of _ _ "drop 1 (sb_mem b)"]) (use b r in \<open>auto simp: sb_wf_def\<close>)
  ultimately show ?thesis using b(1) by (auto simp: empty_buffer_def)
qed

text \<open>Every function of a list appends at most one item.\<close>

lemma emits_responses:
  assumes "list_all2 (\<lambda>(tag, f) xs. emits M (f tag) xs \<and> [] \<notin> set xs \<and> length xs \<le> 1) fs xss"
    and "\<forall>xs\<in>set xss. \<forall>x\<in>set xs. NUL \<notin> set x" and "holds tmp u"
  shows "emits M (append_responses M fs tmp) (concat xss)"
  using assms
proof (induction fs xss arbitrary: tmp u rule: list_all2_induct)
  case Nil
  have "append_responses M [] tmp = (\<lambda>out. Some (SPP_RET_OK, out))" by (rule ext) simp
  then show ?case using emits_id by simp
next
  case (Cons e fs xs xss)
  obtain tag f where e: "e = (tag, f)" by (cases e)
  have f: "emits M (f tag) xs" "[] \<notin> set xs" "length xs \<le> 1" using Cons.hyps(1) e by auto
  have nul: "\<forall>x\<in>set xs. NUL \<notin> set x" "\<forall>xs\<in>set xss. \<forall>x\<in>set xs. NUL \<notin> set x" using Cons.prems(1) by auto
  obtain tmp1 where t1: "empty_buffer tmp = Some tmp1" "holds tmp1 []" using empty_buffer_holds [OF Cons.prems(2)] by blast
  show ?case unfolding emits_def
  proof (intro allI impI)
    fix out t
    assume h: "holds out t" and r: "room M (length (items t (concat (xs # xss))))"
    have r1: "room M (length (items t xs))"
      by (rule room_mono [OF r]) (simp add: items_append items_length)
    have cm: "items [] xs = commas xs" by (rule items_new [OF f(2)])
    have "length (commas xs) \<le> length (items t xs)"
      using items_commas [OF f(2), of t] by (cases "xs = []") (auto simp: add_item_def)
    then have "room M (length (items [] xs))" unfolding cm by (rule room_mono [OF r1])
    then obtain tmp2 where t2: "f tag tmp1 = Some (SPP_RET_OK, tmp2)" "holds tmp2 (commas xs)"
      using f(1) t1(2) cm unfolding emits_def by metis
    have rest: "\<exists>out'. append_responses M fs tmp2 o1 = Some (SPP_RET_OK, out') \<and> holds out' (items t (concat (xs # xss)))"
      if "holds o1 (items t xs)" for o1
      using Cons.IH [OF nul(2) t2(2)] that r unfolding emits_def by (auto simp: items_append)
    show "\<exists>out'. append_responses M (e # fs) tmp out = Some (SPP_RET_OK, out') \<and> holds out' (items t (concat (xs # xss)))"
    proof (cases xs)
      case Nil
      then show ?thesis using rest [of out] h t1(1) t2 holds_buf_text [OF t2(2)] e by simp
    next
      case (Cons x ys)
      then have x: "xs = [x]" "x \<noteq> []" "NUL \<notin> set x" using f nul(1) by auto
      have len: "length t + length x + 2 < 2 ^ 31" "\<forall>c. malloc_ok M c"
        using r1 by (auto simp: room_def x(1) add_item_def split: if_splits)
      obtain o1 where o1: "(if t \<noteq> [] then append_json_comma M out else Some (SPP_RET_OK, out)) = Some (SPP_RET_OK, o1)"
          "holds o1 (if t = [] then [] else t @ '', '')"
      proof (cases "t = []")
        case True
        then show thesis using that [of out] h by simp
      next
        case False
        obtain o1 where "append_json_comma M out = Some (SPP_RET_OK, o1)" "holds o1 (t @ '', '')"
          using append_out_ok [OF h len(2), of JSON_COMMA] len(1) by (auto simp: append_json_comma_def JSON_COMMA_def)
        then show thesis using that False by simp
      qed
      obtain o2 where o2: "append_out M x (length x) o1 = Some (SPP_RET_OK, o2)" "holds o2 (items t xs)"
      proof -
        have "(if t = [] then [] else t @ '', '') @ x = items t xs" "length (if t = [] then [] else t @ '', '') + length x < 2 ^ 31"
          using x(1) len(1) by (auto simp: add_item_def)
        then show thesis using append_out_ok [OF o1(2) len(2), of x] x(3) that by auto
      qed
      have "o2 \<noteq> None" using o2(2) by (auto simp: holds_def)
      then show ?thesis using rest [OF o2(2)] t1(1) t2 holds_buf_text [OF t2(2)] holds_buf_text [OF h] x o1(1) o2(1) e by simp
    qed
  qed
qed

lemma emits_response_list:
  assumes "list_all2 (\<lambda>(tag, f) xs. emits M (f tag) xs \<and> [] \<notin> set xs \<and> length xs \<le> 1) fs xss"
    and "\<forall>xs\<in>set xss. \<forall>x\<in>set xs. NUL \<notin> set x"
  shows "emits M (append_response_list_value M fs) (concat xss)"
  unfolding emits_def
proof (intro allI impI)
  fix out t
  assume h: "holds out t" "room M (length (items t (concat xss)))"
  obtain b where b: "spp_strbuf_allocate (malloc_ok M) CMD_RES_BUF_INIT_SIZE = Some (Some b)" "holds (Some b) []"
    using allocate_holds h(2) by (auto simp: room_def)
  then show "\<exists>out'. append_response_list_value M fs out = Some (SPP_RET_OK, out') \<and> holds out' (items t (concat xss))"
    using emits_responses [OF assms b(2)] h by (simp add: append_response_list_value_def emits_def)
qed

lemma emits_result:
  assumes "members_ok (result_members r)"
  shows "emits M (append_response_list_value M (response_result_list M r)) (map member_text (result_members r))"
proof -
  have res: "emits M (append_result_value M r ''result'') [member_text (''result'', JStr (cr_result r))]"
  proof -
    have "append_result_value M r ''result'' = append_json_str_value M ''result'' (cr_result r)"
      by (rule ext) (simp add: append_result_value_def)
    then show ?thesis using assms by (simp add: emits_str result_members_def)
  qed
  let ?d = "map member_text (tl (result_members r))"
  have det: "emits M (append_error_details_value M r ''error_details'') ?d"
  proof (cases "cr_error_message r = []")
    case True
    then have "append_error_details_value M r ''error_details'' = (\<lambda>out. Some (SPP_RET_OK, out))"
      by (intro ext) (simp add: append_error_details_value_def)
    then show ?thesis using True emits_id by (simp add: result_members_def)
  next
    case False
    then have ok: "members_ok [(''message'', JStr (cr_error_message r))]" using assms by (simp add: result_members_def)
    have "emits M (append_json_str_value M ''message'' (cr_error_message r)) (map member_text [(''message'', JStr (cr_error_message r))])"
      using ok by (simp add: emits_str)
    from emits_block_tmp [OF this ok lits_no_nul(2)]
    have "emits M (in_tmp_buffer M (append_json_str_value M ''message'' (cr_error_message r)) (append_json_block_brackets M ''error_details''))
        [member_text (''error_details'', JObj [(''message'', JStr (cr_error_message r))])]" by simp
    moreover have "append_error_details_value M r ''error_details'' =
        in_tmp_buffer M (append_json_str_value M ''message'' (cr_error_message r)) (append_json_block_brackets M ''error_details'')"
      using False by (intro ext) (simp add: append_error_details_value_def)
    ultimately show ?thesis using False by (simp add: result_members_def)
  qed
  have "emits M (append_response_list_value M (response_result_list M r))
      (concat [[member_text (''result'', JStr (cr_result r))], ?d])"
  proof (rule emits_response_list)
    show "list_all2 (\<lambda>(tag, f) xs. emits M (f tag) xs \<and> [] \<notin> set xs \<and> length xs \<le> 1) (response_result_list M r)
        [[member_text (''result'', JStr (cr_result r))], ?d]"
      using res det by (auto simp: response_result_list_def result_members_def dest: sym)
    show "\<forall>xs\<in>set [[member_text (''result'', JStr (cr_result r))], ?d]. \<forall>x\<in>set xs. NUL \<notin> set x"
    proof -
      have "\<forall>m\<in>set (result_members r). NUL \<notin> set (member_text m)" using assms member_no_nul by auto
      then show ?thesis by (auto simp: result_members_def)
    qed
  qed
  then show ?thesis by (simp add: result_members_def)
qed

lemma emits_results:
  assumes "\<forall>r\<in>set rs. members_ok (result_members r)" and "holds tmp1 u"
  shows "emits M (append_results M rs tmp1) (map (\<lambda>r. render (JObj (result_members r))) rs)"
  using assms
proof (induction rs arbitrary: tmp1 u)
  case Nil
  have "append_results M [] tmp1 = (\<lambda>out. Some (SPP_RET_OK, out))" by (rule ext) simp
  then show ?case using emits_id by simp
next
  case (Cons r rs)
  let ?T = "commas (map member_text (result_members r))"
  obtain t1 where t1: "empty_buffer tmp1 = Some t1" "holds t1 []" using empty_buffer_holds [OF Cons.prems(2)] by blast
  have new: "emits_new M (append_response_list_value M (response_result_list M r)) ?T"
    using Cons.prems(1) by (intro emits_emits_new emits_result) (auto dest: sym)
  show ?case unfolding emits_def
  proof (intro allI impI)
    fix out t
    assume h: "holds out t" and r: "room M (length (items t (map (\<lambda>r. render (JObj (result_members r))) (r # rs))))"
    let ?x = "render (JObj (result_members r))"
    have r1: "room M (length (items t [?x]))"
      by (rule room_mono [OF r]) (simp only: items_simps list.map items_length)
    have "room M (length ?T)" by (rule room_mono [OF r1]) (simp add: add_item_def render_members del: render.simps)
    then obtain t2 where t2: "append_response_list_value M (response_result_list M r) t1 = Some (SPP_RET_OK, t2)" "holds t2 ?T"
      using new t1(2) unfolding emits_new_def by blast
    have "emits M (append_json_block_brackets M [] ?T) [if [] = ([]::string) then ?x else member_text ([], JObj (result_members r))]"
      using Cons.prems(1) by (intro emits_block) auto
    then obtain o1 where o1: "append_json_block_brackets M [] ?T out = Some (SPP_RET_OK, o1)" "holds o1 (items t [?x])"
      using h r1 unfolding emits_def by (auto simp del: render.simps)
    obtain o2 where "append_results M rs t2 o1 = Some (SPP_RET_OK, o2)"
        "holds o2 (items (items t [?x]) (map (\<lambda>r. render (JObj (result_members r))) rs))"
    proof -
      have "emits M (append_results M rs t2) (map (\<lambda>r. render (JObj (result_members r))) rs)"
        using Cons.IH [OF _ t2(2)] Cons.prems(1) by simp
      then show thesis using that o1(2) r unfolding emits_def items_simps list.map by blast
    qed
    then show "\<exists>out'. append_results M (r # rs) tmp1 out = Some (SPP_RET_OK, out') \<and>
        holds out' (items t (map (\<lambda>r. render (JObj (result_members r))) (r # rs)))"
      using t1(1) t2 holds_buf_text [OF t2(2)] o1(1) by (simp del: render.simps)
  qed
qed

section \<open>Messages\<close>

lemma emits_command_results:
  assumes "\<forall>r\<in>set (take (nat n) rs). members_ok (result_members r)" and "n \<le> int (length rs)"
  shows "emits M (append_command_results_value M ''results'' n rs)
    [member_text (''results'', JArr (map (\<lambda>r. JObj (result_members r)) (take (nat n) rs)))]"
  unfolding emits_def
proof (intro allI impI)
  let ?js = "map (\<lambda>r. JObj (result_members r)) (take (nat n) rs)"
  fix out t
  assume h: "holds out t" "room M (length (items t [member_text (''results'', JArr ?js)]))"
  obtain b where b: "spp_strbuf_allocate (malloc_ok M) CMD_RES_BUF_INIT_SIZE = Some (Some b)" "holds (Some b) []"
    using allocate_holds h(2) by (auto simp: room_def)
  have "emits M (append_results M (take (nat n) rs) (Some b)) (map render ?js)"
    using emits_results [OF assms(1) b(2)] by (simp add: comp_def)
  then have "emits M (in_tmp_buffer M (append_results M (take (nat n) rs) (Some b)) (append_json_array_brackets M ''results''))
      [member_text (''results'', JArr ?js)]"
    using assms(1) by (intro emits_array_tmp) auto
  then show "\<exists>out'. append_command_results_value M ''results'' n rs out = Some (SPP_RET_OK, out') \<and>
      holds out' (items t [member_text (''results'', JArr ?js)])"
    using h b(1) assms(2) unfolding emits_def by (simp add: append_command_results_value_def)
qed

lemma emits_info:
  assumes "info_members T slaves s = Some ms" and "members_ok ms" and "length (nic (g_iface_info s)) < 2 ^ 31"
  shows "emits M (append_info_value M T slaves s ''info'') [member_text (''info'', JObj ms)]"
proof -
  obtain phy vh ri cores tab where i: "ifaces_json s PHY = Some phy" "ifaces_json s VHOST = Some vh" "ifaces_json s RING = Some ri"
      "cores_json s slaves = Some cores" "table_json T s = Some tab"
    and ms: "ms = [(''client-id'', JInt (spp_get_client_id s)), (''phy'', phy), (''vhost'', vh), (''ring'', ri),
       (''core'', JArr cores), (''classifier_table'', JArr tab)]"
    using assms(1) by (auto simp: info_members_def bind_Some_iff)
  have ok: "json_ok (JInt (spp_get_client_id s))" "json_ok phy" "json_ok vh" "json_ok ri" "\<forall>j\<in>set cores. json_ok j" "\<forall>j\<in>set tab. json_ok j"
    using assms(2) ms by auto
  have id: "emits M (append_client_id_value M s ''client-id'') [member_text (''client-id'', JInt (spp_get_client_id s))]"
    unfolding append_client_id_value_def [abs_def] using ok(1) by (intro emits_int) auto
  have cores: "emits M (append_core_value M slaves s ''core'') [member_text (''core'', JArr cores)]"
  proof -
    have "writes_elements M (core_json s) (append_core_element_value M s)"
      unfolding writes_elements_def using emits_core by blast
    from lockstep_cores [OF this, of s slaves]
    have "emits M (spp_iterate_core_info (append_core_element_value M s) s slaves) (map render cores)"
      by (rule lockstepD) (use i(4) ok(5) in \<open>auto simp: cores_json_def bind_Some_iff split: if_splits\<close>)
    then show ?thesis unfolding append_core_value_def [abs_def] using ok(5) lits_no_nul by (intro emits_array_tmp) auto
  qed
  have tab: "emits M (append_classifier_table_value M T s ''classifier_table'') [member_text (''classifier_table'', JArr tab)]"
  proof -
    have "emits M (spp_iterate_classifier_table T (append_classifier_element_value M) s) (map render tab)"
      by (rule lockstepD [OF lockstep_table]) (use i(5) ok(6) in \<open>auto simp: table_json_def bind_Some_iff split: if_splits\<close>)
    then show ?thesis unfolding append_classifier_table_value_def [abs_def] using ok(6) lits_no_nul by (intro emits_array_tmp) auto
  qed
  have "emits M (append_response_list_value M (response_info_list M T slaves s)) (concat (map (\<lambda>m. [member_text m]) ms))"
  proof (rule emits_response_list)
    show "list_all2 (\<lambda>(tag, f) xs. emits M (f tag) xs \<and> [] \<notin> set xs \<and> length xs \<le> 1) (response_info_list M T slaves s) (map (\<lambda>m. [member_text m]) ms)"
      unfolding ms response_info_list_def using id cores tab
        emits_interfaces [OF i(1) ok(2) assms(3)] emits_interfaces [OF i(2) ok(3) assms(3)] emits_interfaces [OF i(3) ok(4) assms(3)]
      by (auto dest: sym)
    show "\<forall>xs\<in>set (map (\<lambda>m. [member_text m]) ms). \<forall>x\<in>set xs. NUL \<notin> set x"
      using assms(2) member_no_nul by auto
  qed
  moreover have "concat (map (\<lambda>m. [member_text m]) ms) = map member_text ms" by (induction ms) auto
  ultimately have "emits M (in_tmp_buffer M (append_response_list_value M (response_info_list M T slaves s)) (append_json_block_brackets M ''info''))
      [if ''info'' = [] then render (JObj ms) else member_text (''info'', JObj ms)]"
    using assms(2) lits_no_nul by (intro emits_block_tmp) auto
  then show ?thesis unfolding append_info_value_def [abs_def] by simp
qed

lemma response_message_text:
  assumes "holds tmp (commas (map member_text ms))" and "members_ok ms" and "room M (length (render (JObj ms)))"
  shows "response_message M tmp = Some (Some (render (JObj ms)))"
proof -
  obtain b where b: "spp_strbuf_allocate (malloc_ok M) CMD_RES_BUF_INIT_SIZE = Some (Some b)" "holds (Some b) []"
    using allocate_holds assms(3) by (auto simp: room_def)
  have "emits M (append_json_block_brackets M [] (commas (map member_text ms))) [render (JObj ms)]"
  proof -
    have "\<forall>m\<in>set ms. NUL \<notin> set (fst m) \<and> json_ok (snd m)" using assms(2) by auto
    from emits_block [OF _ this, of "[]" M] show ?thesis by (simp del: render.simps)
  qed
  from emits_first [OF this b(2) assms(3)] obtain o1
    where "append_json_block_brackets M [] (commas (map member_text ms)) (Some b) = Some (SPP_RET_OK, o1)"
      "holds o1 (render (JObj ms))" by blast
  then show ?thesis using b(1) holds_buf_text assms(1) by (simp add: response_message_def del: render.simps)
qed

lemma emits_requested_id:
  assumes "json_ok (JInt (spp_get_client_id s))"
  shows "emits M (append_requested_id M s) [member_text (''client_id'', JInt (spp_get_client_id s)),
    member_text (''process_type'', JStr (SECONDARY_PROCESS_TYPE_SRINGS (spp_get_process_type s)))]"
proof -
  let ?t = "SECONDARY_PROCESS_TYPE_SRINGS (spp_get_process_type s)"
  have "NUL \<notin> set ?t" by (cases "spp_get_process_type s") (simp_all add: SECONDARY_PROCESS_TYPE_SRINGS_def)
  then have e: "emits M (append_process_type_value M s ''process_type'') [member_text (''process_type'', JStr ?t)]"
    unfolding append_process_type_value_def [abs_def] by (intro emits_str) auto
  have c: "emits M (append_client_id_value M s ''client_id'') [member_text (''client_id'', JInt (spp_get_client_id s))]"
    unfolding append_client_id_value_def [abs_def] using assms by (intro emits_int) auto
  have u: "emits M (\<lambda>out. do { (ret1, out2) \<leftarrow> append_process_type_value M s ''process_type'' out; Some (SPP_RET_OK, out2) })
      [member_text (''process_type'', JStr ?t)]"
    using e by (fastforce simp: emits_def)
  have "append_requested_id M s = json_seq (append_client_id_value M s ''client_id'')
      (\<lambda>out. do { (ret1, out2) \<leftarrow> append_process_type_value M s ''process_type'' out; Some (SPP_RET_OK, out2) })"
    by (rule ext) (simp add: append_requested_id_def json_seq_def)
  then show ?thesis using emits_seq [OF c u] by simp
qed

text \<open>The part of the response that both messages share.\<close>

lemma emits_optional:
  assumes "b \<Longrightarrow> emits M f xs"
  shows "emits M (\<lambda>out. if b then f out else Some (SPP_RET_OK, out)) (if b then xs else [])"
  using assms emits_id by (cases b) auto

lemma send_response:
  assumes "emits M body (map member_text ms)" and "members_ok ms" and "room M (length (render (JObj ms)))"
  obtains b tmp where "spp_strbuf_allocate (malloc_ok M) CMD_RES_BUF_INIT_SIZE = Some (Some b)"
    and "body (Some b) = Some (SPP_RET_OK, tmp)" and "response_message M tmp = Some (Some (render (JObj ms)))"
proof -
  obtain b where b: "spp_strbuf_allocate (malloc_ok M) CMD_RES_BUF_INIT_SIZE = Some (Some b)" "holds (Some b) []"
    using allocate_holds assms(3) by (auto simp: room_def)
  have "[] \<notin> set (map member_text ms)" by (auto dest: sym)
  from items_new [OF this] have c: "items [] (map member_text ms) = commas (map member_text ms)" .
  have "room M (length (commas (map member_text ms)))"
    by (rule room_mono [OF assms(3)]) (simp add: render_members del: render.simps)
  then obtain tmp where t: "body (Some b) = Some (SPP_RET_OK, tmp)" "holds tmp (commas (map member_text ms))"
    using assms(1) b(2) c unfolding emits_def by metis
  show thesis by (rule that [OF b(1) t(1) response_message_text [OF t(2) assms(2,3)]])
qed

lemma result_text:
  assumes "response_members T slaves s req results = Some ms" and "members_ok ms"
    and "num_command req \<le> int (length results)" and "length (nic (g_iface_info s)) < 2 ^ 31"
    and "room M (length (render (JObj ms)))"
  shows "send_command_result_response M T slaves s N req results sock w =
    Some (snd (spp_send_message N sock (render (JObj ms)) w))"
proof -
  let ?res = "append_command_results_value M ''results'' (num_command req) results"
  let ?id = "\<lambda>out. if is_requested_client_id req \<noteq> 0 then append_requested_id M s out else Some (SPP_RET_OK, out)"
  let ?info = "\<lambda>out. if is_requested_status req \<noteq> 0 then append_info_value M T slaves s ''info'' out else Some (SPP_RET_OK, out)"
  let ?idm = "[(''client_id'', JInt (spp_get_client_id s)),
    (''process_type'', JStr (SECONDARY_PROCESS_TYPE_SRINGS (spp_get_process_type s)))]"
  obtain im where im: "is_requested_status req \<noteq> 0 \<Longrightarrow> info_members T slaves s = Some im"
    and ms: "ms = [(''results'', results_json req results)] @ (if is_requested_client_id req \<noteq> 0 then ?idm else []) @
      (if is_requested_status req \<noteq> 0 then [(''info'', JObj im)] else [])"
    using assms(1) by (auto simp: response_members_def bind_Some_iff split: if_splits)
  have res: "emits M ?res [member_text (''results'', results_json req results)]"
    unfolding results_json_def by (rule emits_command_results) (use assms(2,3) ms in \<open>auto simp: results_json_def\<close>)
  have id: "emits M ?id (if is_requested_client_id req \<noteq> 0 then map member_text ?idm else [])"
    by (rule emits_optional) (use emits_requested_id [of s M] assms(2) ms in simp)
  have info: "emits M ?info (if is_requested_status req \<noteq> 0 then [member_text (''info'', JObj im)] else [])"
    by (rule emits_optional, rule emits_info) (use im assms(2,4) ms in simp_all)
  have "emits M (json_seq ?res (json_seq ?id ?info)) (map member_text ms)"
    using emits_seq [OF res emits_seq [OF id info]] ms by (auto simp del: render.simps)
  from send_response [OF this assms(2,5)] obtain b tmp
    where b: "spp_strbuf_allocate (malloc_ok M) CMD_RES_BUF_INIT_SIZE = Some (Some b)"
      "json_seq ?res (json_seq ?id ?info) (Some b) = Some (SPP_RET_OK, tmp)"
      "response_message M tmp = Some (Some (render (JObj ms)))" by blast
  from b(2) obtain r1 t1 r2 t2 where "?res (Some b) = Some (r1, t1)" "\<not> r1 < 0" "?id t1 = Some (r2, t2)" "\<not> r2 < 0"
      "?info t2 = Some (SPP_RET_OK, tmp)"
    unfolding json_seq_def by (auto simp: bind_Some_iff split: if_splits)
  then show ?thesis unfolding send_command_result_response_def b(1) using b(3)
    by (simp del: render.simps split del: if_split)
qed

text \<open>The message that answers a decoded request is the text of a JSON object: the results of
  the commands, the client id and the process type when they were asked for, and for status the
  ports of each kind that are in use, the components of every core with their ports and VLAN
  operations, and the entries of the classifier tables.  Whatever bytes follow the literal that
  the writers copy, they do not show; the message is sent once and nothing else is.\<close>
theorem result_response_text:
  assumes "response_members T slaves s req results = Some ms" and "members_ok ms"
    and "num_command req \<le> int (length results)" and "length (nic (g_iface_info s)) < 2 ^ 31"
    and "room M (length (render (JObj ms)))"
  shows "send_command_result_response M T slaves s N req results sock w =
    Some (snd (spp_send_message N sock (render (JObj ms)) w))"
  by (rule result_text [OF assms])

text \<open>The message that answers a line the decoder rejects is the text of a JSON object with the
  results alone, whatever bytes follow the literal that the writers copy; it is sent once and
  nothing else is.\<close>
theorem error_response_text:
  assumes "\<forall>r\<in>set (take (nat (num_command req)) results). members_ok (result_members r)"
    and "num_command req \<le> int (length results)"
    and "room M (length (render (JObj [(''results'', results_json req results)])))"
  shows "send_decode_error_response M N req results sock w =
    Some (snd (spp_send_message N sock (render (JObj [(''results'', results_json req results)])) w))"
proof -
  have "emits M (append_command_results_value M ''results'' (num_command req) results)
      (map member_text [(''results'', results_json req results)])"
    using emits_command_results [OF assms(1,2)] by (simp add: results_json_def)
  from send_response [OF this _ assms(3)] obtain b tmp
    where "spp_strbuf_allocate (malloc_ok M) CMD_RES_BUF_INIT_SIZE = Some (Some b)"
      "append_command_results_value M ''results'' (num_command req) results (Some b) = Some (SPP_RET_OK, tmp)"
      "response_message M tmp = Some (Some (render (JObj [(''results'', results_json req results)])))"
    using assms(1) by (auto simp: results_json_def)
  then show ?thesis unfolding send_decode_error_response_def by (simp del: render.simps)
qed

end
