(* ===== verification/Command_Request.thy ===== *)
theory Command_Request
  imports Command_Table
begin

text \<open>
  The processing of a request line from the decoder to the response.
\<close>

section \<open>Results\<close>

lemma set_results:
  assumes "i < length rs"
  shows "set_command_results CRES_SUCCESS m (int i) rs =
      Some (rs[i := (rs ! i)\<lparr>cr_code := CRES_SUCCESS, cr_result := ''success'', cr_error_message := []\<rparr>])"
    "set_command_results CRES_INVALID m (int i) rs =
      Some (rs[i := (rs ! i)\<lparr>cr_code := CRES_INVALID, cr_result := ''invalid'', cr_error_message := []\<rparr>])"
    "length m < CMD_RES_ERR_MSG_SIZE \<Longrightarrow> set_command_results CRES_FAILURE m (int i) rs =
      Some (rs[i := (rs ! i)\<lparr>cr_code := CRES_FAILURE, cr_result := ''error'', cr_error_message := m\<rparr>])"
  using assms by (simp_all add: set_command_results_def rd_nat wr_nat strcpy_buf_def)

definition first_result :: "command_result_code \<Rightarrow> string \<Rightarrow> string \<Rightarrow> command_result list" where
  "first_result code txt msg = (replicate SPP_CMD_MAX_COMMANDS zero_result)
     [0 := \<lparr>cr_code = code, cr_result = txt, cr_error_message = msg\<rparr>]"

lemma first_results:
  "set_command_results CRES_SUCCESS m 0 (replicate SPP_CMD_MAX_COMMANDS zero_result) = Some (first_result CRES_SUCCESS ''success'' [])"
  "length m < CMD_RES_ERR_MSG_SIZE \<Longrightarrow> set_command_results CRES_FAILURE m 0 (replicate SPP_CMD_MAX_COMMANDS zero_result) =
     Some (first_result CRES_FAILURE ''error'' m)"
  "set_command_results CRES_INVALID m 0 (replicate SPP_CMD_MAX_COMMANDS zero_result) = Some (first_result CRES_INVALID ''invalid'' [])"
  "length m < CMD_RES_ERR_MSG_SIZE \<Longrightarrow> set_command_results CRES_FAILURE m 0 (first_result c r t) = Some (first_result CRES_FAILURE ''error'' m)"
  "set_command_results CRES_SUCCESS m 0 (first_result c r t) = Some (first_result CRES_SUCCESS ''success'' [])"
  using set_results [of 0 "replicate SPP_CMD_MAX_COMMANDS zero_result" m] set_results [of 0 "first_result c r t" m]
  by (simp_all add: first_result_def SPP_CMD_MAX_COMMANDS_def zero_result_def)

section \<open>Rejected lines\<close>

text \<open>C20: A line that the decoder rejects has no effect: no command is executed, the management data
  and the devices stay as they are, the connection is kept, and the response reports a single
  failed command with the message for the format, or the one that names the bad value.\<close>
theorem rejected_request_harmless:
  assumes "spp_command_decode_request SECONDARY_TYPE_VF s zero_request line
      \<lparr>de_code = 0, de_value_name = [], de_value = []\<rparr> = Some (ret, req, e)" and "ret \<noteq> SPP_RET_OK"
  shows "process_request E H env slaves sched line s v =
      Some (SPP_RET_OK, Decode_Error_Response req (first_result CRES_FAILURE ''error''
        (if ret = 1 then ''bad message format'' else ''bad value('' @ de_value_name e @ '')'')), sched, s, v)"
proof -
  note d = decode_rejects [OF assms]
  define msg where "msg = (if ret = 1 then ''bad message format'' else ''bad value('' @ de_value_name e @ '')'')"
  have len: "length msg < CMD_RES_ERR_MSG_SIZE"
    using d by (auto simp: msg_def CMD_RES_ERR_MSG_SIZE_def SPP_CMD_NAME_BUFSZ_def)
  have m: "make_decode_error_message e = Some msg"
    using d len by (auto simp: make_decode_error_message_def msg_def strcpy_buf_def)
  have nv: "num_valid_command req = 0" "num_command req = 1" using d by (simp_all add: zero_request_def)
  have one: "nat 1 = Suc 0" by simp
  have r1: "set_results_from CRES_INVALID 0 (nat (num_command req)) (replicate SPP_CMD_MAX_COMMANDS zero_result) =
      Some (first_result CRES_INVALID ''invalid'' [])"
    unfolding nv one by (simp add: first_results)
  have c: "de_code e \<noteq> 0" using d assms(2) by simp
  have r: "set_decode_error_to_results (replicate SPP_CMD_MAX_COMMANDS zero_result) req e = Some (first_result CRES_FAILURE ''error'' msg)"
    using r1 c m nv(1) first_results(4) [OF len] by (simp add: set_decode_error_to_results_def)
  show ?thesis unfolding msg_def [symmetric] using assms r by (auto simp: process_request_def Let_def)
qed

section \<open>Accepted lines\<close>

lemma take_first: "xs \<noteq> [] \<Longrightarrow> take (Suc 0) (xs[0 := c]) = [c]"
  by (cases xs) simp_all

lemma decoded_request_fields:
  "num_command (decoded_request c) = 1" "take (Suc 0) (commands (decoded_request c)) = [c]"
  "length (commands (decoded_request c)) = SPP_CMD_MAX_COMMANDS"
  "is_requested_exit (decoded_request c) \<noteq> 0 \<longleftrightarrow> sc_type c = SPP_CMDTYPE_EXIT"
  by (simp_all add: decoded_request_def zero_request_def SPP_CMD_MAX_COMMANDS_def take_first)

lemma process_line:
  assumes "wf_mng s" and "request_ok SECONDARY_TYPE_VF s r"
  shows "process_request E H env slaves sched (join (request_words r)) s v = do {
    (ret, sched1, s1, v1) \<leftarrow> execute_command E H env slaves sched (request_command r) s v;
    let rs = (if ret = 0 \<or> r = Do_Exit then first_result CRES_SUCCESS ''success'' []
      else first_result CRES_FAILURE ''error'' ''error occur'');
    Some (if r = Do_Exit then SPP_RET_NG else SPP_RET_OK,
      Command_Result_Response (decoded_request (request_command r)) rs, sched1, s1, v1)
  }"
proof -
  let ?c = "request_command r"
  have ex: "sc_type ?c = SPP_CMDTYPE_EXIT \<longleftrightarrow> r = Do_Exit"
    by (cases r) (simp_all add: port_command_def table_command_def)
  have e1: "execute_commands E H env slaves sched 0 [?c] (replicate SPP_CMD_MAX_COMMANDS zero_result) s v = do {
      (ret, sched1, s1, v1) \<leftarrow> execute_command E H env slaves sched ?c s v;
      Some (sched1, if ret = 0 then first_result CRES_SUCCESS ''success'' []
        else first_result CRES_FAILURE ''error'' ''error occur'', s1, v1)
    }"
    by (cases "execute_command E H env slaves sched ?c s v")
      (simp_all add: first_results CMD_RES_ERR_MSG_SIZE_def split: prod.split)
  have le: "1 \<le> int SPP_CMD_MAX_COMMANDS" by (simp add: SPP_CMD_MAX_COMMANDS_def)
  show ?thesis
    unfolding process_request_def Let_def decode_request_line [OF assms]
    using le
    by (cases "execute_command E H env slaves sched ?c s v")
      (auto simp: decoded_request_fields e1 first_results ex CMD_RES_ERR_MSG_SIZE_def split: prod.split if_splits)
qed

lemma process_executed:
  assumes "wf_mng s" and "request_ok SECONDARY_TYPE_VF s r"
  shows "process_request E H env slaves sched (join (request_words r)) s v =
    (if is_query (sc_type (request_command r))
     then Some (if r = Do_Exit then SPP_RET_NG else SPP_RET_OK,
       Command_Result_Response (decoded_request (request_command r)) (first_result CRES_SUCCESS ''success'' []), sched, s, v)
     else case update_for_command (request_command r) s of
       None \<Rightarrow> None
     | Some (ret, s1) \<Rightarrow>
        (if ret \<noteq> 0
         then Some (SPP_RET_OK, Command_Result_Response (decoded_request (request_command r))
           (first_result CRES_FAILURE ''error'' ''error occur''), sched, s1, v)
         else case spp_flush E H env slaves sched s1 v of
           None \<Rightarrow> None
         | Some (fret, sched2, s2, v2) \<Rightarrow> Some (SPP_RET_OK, Command_Result_Response (decoded_request (request_command r))
             (if fret = 0 then first_result CRES_SUCCESS ''success'' []
              else first_result CRES_FAILURE ''error'' ''error occur''), sched2, s2, v2)))"
proof -
  have "r \<noteq> Do_Exit" if "\<not> is_query (sc_type (request_command r))" using that by (auto simp: is_query_def)
  then show ?thesis unfolding process_line [OF assms] execute_command_def
    by (auto split: option.split prod.split)
qed

text \<open>C21: A line that the process accepts is decoded, applied to the management data and flushed, in
  this order, exactly once: when the update or the flush fails the response reports a failed
  command, otherwise a successful one; the update of the data is not undone when the flush
  fails.  The queries neither change nor flush anything, and only exit ends the process.\<close>
theorem request_executed:
  assumes "wf_mng s" and "request_ok SECONDARY_TYPE_VF s r"
  shows "process_request E H env slaves sched (join (request_words r)) s v =
    (if is_query (sc_type (request_command r))
     then Some (if r = Do_Exit then SPP_RET_NG else SPP_RET_OK,
       Command_Result_Response (decoded_request (request_command r)) (first_result CRES_SUCCESS ''success'' []), sched, s, v)
     else case update_for_command (request_command r) s of
       None \<Rightarrow> None
     | Some (ret, s1) \<Rightarrow>
        (if ret \<noteq> 0
         then Some (SPP_RET_OK, Command_Result_Response (decoded_request (request_command r))
           (first_result CRES_FAILURE ''error'' ''error occur''), sched, s1, v)
         else case spp_flush E H env slaves sched s1 v of
           None \<Rightarrow> None
         | Some (fret, sched2, s2, v2) \<Rightarrow> Some (SPP_RET_OK, Command_Result_Response (decoded_request (request_command r))
             (if fret = 0 then first_result CRES_SUCCESS ''success'' []
              else first_result CRES_FAILURE ''error'' ''error occur''), sched2, s2, v2)))"
  by (rule process_executed [OF assms])

section \<open>Incomplete lines\<close>

definition start_command :: "string \<Rightarrow> spp_command" where
  "start_command nm = zero_command\<lparr>sc_type := SPP_CMDTYPE_COMPONENT,
     sc_component := \<lparr>co_action = SPP_CMD_ACTION_START, co_name = nm, co_core = 0, co_type = SPP_COMPONENT_UNUSE\<rparr>\<rparr>"

lemma decode_incomplete_start:
  assumes "name_ok nm" and "spp_get_component_id s nm < 0"
  shows "spp_command_decode_request m s zero_request (join [''component'', ''start'', nm]) err =
    Some (SPP_RET_OK, decoded_request (start_command nm), err)"
proof -
  let ?q = "zero_request\<lparr>num_command := 1\<rparr>"
  have v: "\<forall>w\<in>set [''component'', ''start'', nm]. word_ok w"
    using assms(1) by (simp add: word_ok_def [of "''component''"] word_ok_def [of "''start''"] SPP_CMD_VALUE_BUFSZ_def)
  have c: "decode_command_parameter m s SPP_CMDTYPE_COMPONENT [''component'', ''start'', nm] 5
      (zero_command\<lparr>sc_type := SPP_CMDTYPE_COMPONENT\<rparr>) err = Some (SPP_RET_OK, start_command nm, err)"
    using assms name_value [OF assms(1)]
    by (simp add: decode_command_parameter_def decode_component_action_value_def decode_component_name_value_def
        start_command_def zero_command_def)
  have z: "rd (commands ?q) 0 = Some zero_command" "rd (commands (set_command0 c ?q)) 0 = Some c" for c
    by (simp_all add: set_command0_def zero_request_def SPP_CMD_MAX_COMMANDS_def rd_def)
  have "decode_command_in_list m s ?q (join [''component'', ''start'', nm]) err =
      Some (SPP_RET_OK, set_command0 (start_command nm) ?q, err)"
    using decode_words [OF v, of m s ?q err] c z(1) by (simp add: command_list_def SPP_CMD_MAX_PARAMETERS_def)
  then show ?thesis using z(2) [of "start_command nm"]
    by (simp add: spp_command_decode_request_def decoded_request_def set_command0_def zero_request_def start_command_def)
qed

lemma flush_ifaces_usable: "\<forall>p\<in>set ps. port_usable p \<Longrightarrow> flush_ifaces add ps v = Some (SPP_RET_OK, ps, v)"
  by (induction ps) (auto simp: port_usable_def)

lemma flush_port_usable:
  assumes "\<forall>p\<in>set (vhost (g_iface_info s)) \<union> set (ring (g_iface_info s)). port_usable p"
  shows "flush_port E s v = Some (SPP_RET_OK, s, v)"
proof -
  have "\<forall>p\<in>set (vhost (g_iface_info s)). port_usable p" "\<forall>p\<in>set (ring (g_iface_info s)). port_usable p"
    using assms by auto
  then show ?thesis by (simp add: flush_port_def flush_ifaces_usable)
qed

text \<open>The decoder accepts the line that starts a component without a core and a type, and the
  command thread then hangs: the component goes to core 0 with the type of an unused slot, and
  when core 0 is not a forwarding core - it usually is the main core - the flush waits for ever,
  whatever the workers do.\<close>
theorem incomplete_start_hangs:
  fixes s :: "('h, 'z) classifier_data_scheme"
  assumes "mng_ok s" and "name_ok nm" and "spp_get_component_id s nm < 0" and "0 \<le> get_free_component s"
    and "0 < length (g_core_info s)" and "status (g_core_info s ! 0) \<notin> {SPP_CORE_UNUSE, SPP_CORE_FORWARD}"
    and "\<forall>p\<in>set (vhost (g_iface_info s)) \<union> set (ring (g_iface_info s)). port_usable p"
    and "\<forall>e\<in>set sched. \<exists>j<length (g_core_info s). e = int j"
  shows "process_request E H slave_look slaves sched (join [''component'', ''start'', nm]) s v = None"
proof -
  obtain i where i: "get_free_component s = int i" "i < length (g_component_info s)"
    using first_component_pos [of "\<lambda>c. comp_type c = SPP_COMPONENT_UNUSE" s] assms(4)
    by (auto simp: get_free_component_def)
  have nm: "nm \<noteq> []" "length nm < SPP_NAME_STR_LEN"
    using assms(2) by (auto simp: name_ok_def SPP_CMD_NAME_BUFSZ_def SPP_NAME_STR_LEN_def)
  have st: "status (g_core_info s ! 0) \<noteq> SPP_CORE_UNUSE" using assms(6) by simp
  define k' where "k' = (upd_core (g_core_info s ! 0))\<lparr>core_ids := (core_ids (upd_core (g_core_info s ! 0)))
    [nat (num (upd_core (g_core_info s ! 0))) := int i], num := num (upd_core (g_core_info s ! 0)) + 1\<rparr>"
  define s1 where "s1 = s\<lparr>
      g_component_info := (g_component_info s)[i := new_component (length (nic (g_iface_info s))) nm 0 SPP_COMPONENT_UNUSE i],
      g_core_info := (g_core_info s)[0 := put_core k' (g_core_info s ! 0)],
      g_change_component := (g_change_component s)[i := 1], g_change_core := (g_change_core s)[0 := 1]\<rparr>"
  have up: "update_for_command (start_command nm) s = Some (SPP_RET_OK, s1)"
    using start_component_run [OF assms(1,5) st nm assms(3) i, of SPP_COMPONENT_UNUSE]
    by (simp add: update_for_command_def start_command_def spp_update_component_def s1_def k'_def)
  have len: "length (g_change_core s) = length (g_core_info s)" using assms(1) by (simp add: mng_ok_iff wf_dims_def Let_def)
  have "flush_port E s1 v = Some (SPP_RET_OK, s1, v)"
    by (rule flush_port_usable) (use assms(7) in \<open>simp add: s1_def\<close>)
  moreover have "flush_core slave_look sched s1 = None"
  proof (rule flush_core_stuck [where k = 0])
    show "status (g_core_info s1 ! 0) \<noteq> SPP_CORE_FORWARD" using assms(5,6) by (simp add: s1_def put_core_def)
  qed (use assms(5,8) len in \<open>simp_all add: s1_def\<close>)
  ultimately have "spp_flush E H slave_look slaves sched s1 v = None" by (simp add: spp_flush_def)
  then have "execute_command E H slave_look slaves sched (start_command nm) s v = None"
    using up by (simp add: execute_command_def is_query_def start_command_def)
  then show ?thesis
    unfolding process_request_def Let_def decode_incomplete_start [OF assms(2,3)]
    by (simp add: decoded_request_fields SPP_CMD_MAX_COMMANDS_def)
qed

end
