(* ===== verification/Command_Loop.thy ===== *)
theory Command_Loop
  imports Response_Text Command_Request Vf_Main
begin

text \<open>
  spp_command_proc_do of vf/common/command_proc.c, which connects, receives one message,
  processes it as a request and answers it, and the loop of main in vf/spp_vf.c that calls it
  until the process ends.
\<close>

section \<open>One turn\<close>

text \<open>The static variables of spp_command_proc_do.\<close>

record command_loop =
  lp_sock :: int
  lp_msgbuf :: outbuf

definition first_turn :: command_loop where
  "first_turn = \<lparr>lp_sock = - 1, lp_msgbuf = None\<rparr>"

definition CMD_REQ_BUF_INIT_SIZE :: "64 word" where "CMD_REQ_BUF_INIT_SIZE = 2048"

definition spp_command_proc_init :: "string \<Rightarrow> int \<Rightarrow> (int \<times> conn_data) option" where
  "spp_command_proc_init controller_ip controller_port = spp_command_conn_init controller_ip controller_port"

text \<open>The response that process_request sends before it returns.\<close>

definition respond ::
  "json_env \<Rightarrow> 'h tab_env \<Rightarrow> int list \<Rightarrow> ('h, 'z) classifier_data_scheme \<Rightarrow> 'w net \<Rightarrow> response \<Rightarrow> int \<Rightarrow> 'w \<Rightarrow>
   (int \<times> 'w) option" where
  "respond M T slaves s N resp sock w =
    (case resp of
       Decode_Error_Response req rs \<Rightarrow> send_decode_error_response M N req rs sock w
     | Command_Result_Response req rs \<Rightarrow> send_command_result_response M T slaves s N req rs sock w)"

definition spp_command_proc_do ::
  "json_env \<Rightarrow> 'h tab_env \<Rightarrow> 'w net \<Rightarrow> 'v ethdev \<Rightarrow>
   ('e \<Rightarrow> ('h, 'z) classifier_data_scheme \<Rightarrow> ('h, 'z) classifier_data_scheme option) \<Rightarrow> int list \<Rightarrow> conn_data \<Rightarrow>
   'e list \<Rightarrow> command_loop \<Rightarrow> ('h, 'z) classifier_data_scheme \<Rightarrow> 'v \<Rightarrow> 'w \<Rightarrow>
   (int \<times> 'e list \<times> command_loop \<times> ('h, 'z) classifier_data_scheme \<times> 'v \<times> 'w) option" where
  "spp_command_proc_do M T N E env slaves c sched lp s v w = do {
     mb \<leftarrow> (if lp_msgbuf lp = None then spp_strbuf_allocate (malloc_ok M) CMD_REQ_BUF_INIT_SIZE
       else Some (lp_msgbuf lp));
     case mb of
       None \<Rightarrow> Some (SPP_RET_NG, sched, lp, s, v, w)
     | Some buf \<Rightarrow>
        (case spp_connect_to_controller N c (lp_sock lp) w of (cret, sock, w1) \<Rightarrow>
           if cret \<noteq> SPP_RET_OK then Some (SPP_RET_OK, sched, \<lparr>lp_sock = sock, lp_msgbuf = mb\<rparr>, s, v, w1)
           else do {
             (msg_ret, sock2, buf2, w2) \<leftarrow> spp_receive_message (malloc_ok M) N sock buf w1;
             if msg_ret \<le> 0
             then Some (if msg_ret = 0 \<or> msg_ret = SPP_CONNERR_TEMPORARY then SPP_RET_OK else SPP_RET_NG,
                 sched, \<lparr>lp_sock = sock2, lp_msgbuf = Some buf2\<rparr>, s, v, w2)
             else do {
               line \<leftarrow> buf_text (Some buf2);
               (ret, resp, sched', s', v') \<leftarrow> process_request E (te_hash T) env slaves sched line s v;
               (sock3, w3) \<leftarrow> respond M T slaves s' N resp sock2 w2;
               buf3 \<leftarrow> spp_strbuf_remove_front buf2 (of_int msg_ret);
               Some (ret, sched', \<lparr>lp_sock = sock3, lp_msgbuf = Some buf3\<rparr>, s', v', w3)
             }
           })
   }"

section \<open>The loop of main\<close>

text \<open>At most n turns; None in the result says that the loop goes on.\<close>

fun vf_accept_commands ::
  "nat \<Rightarrow> json_env \<Rightarrow> 'h tab_env \<Rightarrow> 'w net \<Rightarrow> 'v ethdev \<Rightarrow>
   ('e \<Rightarrow> ('h, 'z) classifier_data_scheme \<Rightarrow> ('h, 'z) classifier_data_scheme option) \<Rightarrow> int list \<Rightarrow> conn_data \<Rightarrow>
   'e list \<Rightarrow> command_loop \<Rightarrow> ('h, 'z) classifier_data_scheme \<Rightarrow> 'v \<Rightarrow> 'w \<Rightarrow>
   (int option \<times> 'e list \<times> command_loop \<times> ('h, 'z) classifier_data_scheme \<times> 'v \<times> 'w) option" where
  "vf_accept_commands 0 M T N E env slaves c sched lp s v w = Some (None, sched, lp, s, v, w)"
| "vf_accept_commands (Suc n) M T N E env slaves c sched lp s v w = do {
     m \<leftarrow> rd (g_core_info s) (int (g_main_lcore_id s));
     if status m = SPP_CORE_STOP_REQUEST then Some (Some SPP_RET_OK, sched, lp, s, v, w)
     else do {
       (ret, sched', lp', s', v', w') \<leftarrow> spp_command_proc_do M T N E env slaves c sched lp s v w;
       if ret \<noteq> SPP_RET_OK
       then do {
         s2 \<leftarrow> set_all_core_status slaves SPP_CORE_STOP_REQUEST s';
         Some (Some SPP_RET_NG, sched', lp', s2, v', w')
       }
       else vf_accept_commands n M T N E env slaves c sched' lp' s' v' (net_usleep N 100 w')
     }
   }"

section \<open>The message buffer between two turns\<close>

definition loop_ok :: "command_loop \<Rightarrow> bool" where
  "loop_ok lp \<longleftrightarrow> lp_msgbuf lp = None \<or> holds (lp_msgbuf lp) []"

lemma remove_all:
  assumes "holds (Some b) t" and "n = length t"
  shows "\<exists>b'. spp_strbuf_remove_front b (of_nat n) = Some b' \<and> holds (Some b') []"
proof -
  have b: "sb_wf b" "sb_str b = t" "unat (sb_cap b) < 2 ^ 32" using assms(1) by (auto simp: holds_def)
  have "spp_strbuf_remove_front b (of_nat n) = map_option the (empty_buffer (Some b))"
    using assms(2) sb_wf_strlen [OF b(1)] b(2) by (simp add: spp_strbuf_remove_front_def empty_buffer_def split: Option.bind_splits)
  then show ?thesis using empty_buffer_holds [OF assms(1)] by (auto simp: holds_def)
qed

lemma receive_text:
  fixes M :: json_env
  assumes "holds (Some b) []" and "\<forall>c. malloc_ok M c" and "NUL \<notin> set bytes" and "length bytes < 2 ^ 31"
  shows "\<exists>b'. spp_strbuf_append (malloc_ok M) b bytes (of_nat (length bytes)) = Some (Some b') \<and> holds (Some b') bytes"
  using append_out_ok [OF assms(1,2), of bytes] assms(3,4) by (auto simp: append_out_def holds_def bind_Some_iff split: if_splits)

lemma turn_buffer:
  fixes M :: json_env
  assumes "loop_ok lp" and "\<forall>c. malloc_ok M c"
  obtains b where "(if lp_msgbuf lp = None then spp_strbuf_allocate (malloc_ok M) CMD_REQ_BUF_INIT_SIZE
       else Some (lp_msgbuf lp)) = Some (Some b)" and "holds (Some b) []"
proof (cases "lp_msgbuf lp")
  case None
  then show thesis using that allocate_holds [OF assms(2)] by (auto simp: CMD_REQ_BUF_INIT_SIZE_def CMD_RES_BUF_INIT_SIZE_def)
next
  case (Some b)
  then show thesis using that assms(1) by (auto simp: loop_ok_def)
qed

text \<open>A message without NUL bytes is in the buffer as it was received, and is removed from it.\<close>

lemma message_received:
  fixes M :: json_env
  assumes "loop_ok lp" and "\<forall>c. malloc_ok M c" and "0 \<le> lp_sock lp" and "recv_laws N"
    and "net_recv N (lp_sock lp) MESSAGE_BUFFER_BLOCK_SIZE w = ((ret, bytes, again), w1)" and "0 < ret" and "NUL \<notin> set bytes"
  obtains b b1 b2 where "(if lp_msgbuf lp = None then spp_strbuf_allocate (malloc_ok M) CMD_REQ_BUF_INIT_SIZE
       else Some (lp_msgbuf lp)) = Some (Some b)"
    and "spp_receive_message (malloc_ok M) N (lp_sock lp) b w = Some (ret, lp_sock lp, b1, w1)"
    and "buf_text (Some b1) = Some bytes" and "spp_strbuf_remove_front b1 (of_int ret) = Some b2" and "holds (Some b2) []"
proof -
  obtain b where b: "(if lp_msgbuf lp = None then spp_strbuf_allocate (malloc_ok M) CMD_REQ_BUF_INIT_SIZE
       else Some (lp_msgbuf lp)) = Some (Some b)" "holds (Some b) []" using turn_buffer [OF assms(1,2)] .
  have len: "ret = int (length bytes)" "ret \<le> 2048"
    using assms(4-6) unfolding recv_laws_def MESSAGE_BUFFER_BLOCK_SIZE_def by (fastforce, fastforce)
  have "length bytes < 2 ^ 31" using len by simp
  from receive_text [OF b(2) assms(2,7) this] obtain b1 where
    b1: "spp_strbuf_append (malloc_ok M) b bytes (of_nat (length bytes)) = Some (Some b1)" "holds (Some b1) bytes" by blast
  obtain b2 where b2: "spp_strbuf_remove_front b1 (of_nat (length bytes)) = Some b2" "holds (Some b2) []"
    using remove_all [OF b1(2) refl] by blast
  have "spp_receive_message (malloc_ok M) N (lp_sock lp) b w = Some (ret, lp_sock lp, b1, w1)"
    using assms(5,6) len(1) b1(1) by (simp add: spp_receive_message_def)
  moreover have "spp_strbuf_remove_front b1 (of_int ret) = Some b2" using b2(1) len(1) by simp
  ultimately show thesis using that b(1) holds_buf_text [OF b1(2)] b2(2) by blast
qed

lemma message_processed:
  assumes "loop_ok lp" and "\<forall>c. malloc_ok M c" and "0 \<le> lp_sock lp" and "recv_laws N"
    and "net_recv N (lp_sock lp) MESSAGE_BUFFER_BLOCK_SIZE w = ((ret, bytes, again), w1)" and "0 < ret" and "NUL \<notin> set bytes"
  shows "\<exists>b. holds (Some b) [] \<and> spp_command_proc_do M T N E env slaves c sched lp s v w = do {
      (ret, resp, sched', s', v') \<leftarrow> process_request E (te_hash T) env slaves sched bytes s v;
      (sock, w2) \<leftarrow> respond M T slaves s' N resp (lp_sock lp) w1;
      Some (ret, sched', \<lparr>lp_sock = sock, lp_msgbuf = Some b\<rparr>, s', v', w2)
    }"
proof -
  obtain b b1 b2 where b: "(if lp_msgbuf lp = None then spp_strbuf_allocate (malloc_ok M) CMD_REQ_BUF_INIT_SIZE
       else Some (lp_msgbuf lp)) = Some (Some b)"
      "spp_receive_message (malloc_ok M) N (lp_sock lp) b w = Some (ret, lp_sock lp, b1, w1)"
      "buf_text (Some b1) = Some bytes" "spp_strbuf_remove_front b1 (of_int ret) = Some b2" "holds (Some b2) []"
    by (rule message_received [OF assms])
  show ?thesis unfolding spp_command_proc_do_def b(1)
    using assms(3,6) b(2-5) by (intro exI [of _ b2]) (simp add: spp_connect_to_controller_def)
qed

text \<open>Every message that recv returns is processed as one complete request: its bytes, neither
  more nor less, are the line, the request is answered, and the message buffer is empty again
  before the next turn.  A request that TCP delivers in two parts is therefore processed as
  two.\<close>
theorem message_is_request:
  assumes "loop_ok lp" and "\<forall>c. malloc_ok M c" and "0 \<le> lp_sock lp" and "recv_laws N"
    and "net_recv N (lp_sock lp) MESSAGE_BUFFER_BLOCK_SIZE w = ((ret, bytes, again), w1)" and "0 < ret" and "NUL \<notin> set bytes"
  shows "\<exists>b. holds (Some b) [] \<and> spp_command_proc_do M T N E env slaves c sched lp s v w = do {
      (ret, resp, sched', s', v') \<leftarrow> process_request E (te_hash T) env slaves sched bytes s v;
      (sock, w2) \<leftarrow> respond M T slaves s' N resp (lp_sock lp) w1;
      Some (ret, sched', \<lparr>lp_sock = sock, lp_msgbuf = Some b\<rparr>, s', v', w2)
    }"
  by (rule message_processed [OF assms])

text \<open>A message with a NUL byte brings the process down: the text of the buffer ends at that
  byte, and removing the number of received bytes from the shorter text wraps around and moves
  memory far outside of the buffer, whatever the request was.\<close>
theorem nul_byte_fatal:
  assumes "loop_ok lp" and "\<forall>c. malloc_ok M c" and "0 \<le> lp_sock lp" and "recv_laws N"
    and "net_recv N (lp_sock lp) MESSAGE_BUFFER_BLOCK_SIZE w = ((ret, bytes, again), w1)" and "NUL \<in> set bytes"
  shows "spp_command_proc_do M T N E env slaves c sched lp s v w = None"
proof -
  obtain b where b: "(if lp_msgbuf lp = None then spp_strbuf_allocate (malloc_ok M) CMD_REQ_BUF_INIT_SIZE
       else Some (lp_msgbuf lp)) = Some (Some b)" "holds (Some b) []" using turn_buffer [OF assms(1,2)] .
  have "length bytes = nat ret" "ret \<le> 2048" "0 < length bytes"
    using assms(4-6) unfolding recv_laws_def MESSAGE_BUFFER_BLOCK_SIZE_def by (fastforce, fastforce, auto)
  then have len: "ret = int (length bytes)" "ret \<le> 2048" "0 < ret" by auto
  obtain b1 r where b1: "append_out M bytes (length bytes) (Some b) = Some (SPP_RET_OK, Some b1)" "sb_mem b1 = bytes @ NUL # r"
      "length (sb_mem b1) = unat (sb_cap b1)" "unat (sb_cap b1) < 2 ^ 32"
    using append_out_room [OF b(2) assms(2), of "length bytes" bytes] len by auto
  have a: "spp_strbuf_append (malloc_ok M) b bytes (of_nat (length bytes)) = Some (Some b1)"
    using b1(1) by (auto simp: append_out_def bind_Some_iff split: if_splits)
  have rcv: "spp_receive_message (malloc_ok M) N (lp_sock lp) b w = Some (ret, lp_sock lp, b1, w1)"
    using assms(5) len(1,3) a by (simp add: spp_receive_message_def)
  define t where "t = cstr bytes"
  have "cstr (sb_mem b1) = t" using assms(6) b1(2) by (auto simp: cstr_def t_def takeWhile_append1)
  then have t: "length t < length bytes" "c_strlen (sb_mem b1) = Some (length t)"
    using cstr_length_less [OF assms(6)] b1(2) by (simp_all add: c_strlen_def t_def)
  have sz: "length bytes < 2 ^ 32" using b1(2-4) by simp
  have n: "unat (of_nat (length bytes) :: 64 word) = length bytes" "unat (of_nat (length t) :: 64 word) = length t"
    using sz t(1) by (simp_all add: unat_of_nat)
  have sub: "unat (of_nat (length t) - of_nat (length bytes) :: 64 word) = 2 ^ 64 + length t - length bytes"
    using n t(1) by (simp add: unat_sub_if' word_le_nat_alt)
  have ne: "of_nat (length t) - of_nat (length bytes) \<noteq> (0 :: 64 word)"
    using n t(1) by (metis eq_iff_diff_eq_0 less_irrefl)
  have "\<not> unat (of_nat (length bytes) :: 64 word) + unat (of_nat (length t) - of_nat (length bytes) :: 64 word) + 1 \<le> length (sb_mem b1)"
    unfolding sub n(1) using b1(3,4) sz by simp
  then have "spp_strbuf_remove_front b1 (of_nat (length bytes)) = None"
    using ne by (simp add: spp_strbuf_remove_front_def t(2) Let_def)
  then show ?thesis unfolding spp_command_proc_do_def b(1)
    using assms(3) rcv len(1,3) by (simp add: spp_connect_to_controller_def split: Option.bind_splits prod.splits)
qed

section \<open>From the line to the answer\<close>

definition answer :: "bool \<Rightarrow> json" where
  "answer ok = JObj [(''results'', JArr [JObj (if ok then [(''result'', JStr ''success'')]
     else [(''result'', JStr ''error''), (''error_details'', JObj [(''message'', JStr ''error occur'')])])])]"

lemma answer_text:
  assumes "\<not> is_query (sc_type c)" and "length (nic (g_iface_info s)) < 2 ^ 31" and "room M 120"
  shows "send_command_result_response M T slaves s N (decoded_request c)
      (if ok then first_result CRES_SUCCESS ''success'' [] else first_result CRES_FAILURE ''error'' ''error occur'') sock w =
    Some (snd (spp_send_message N sock (render (answer ok)) w))"
proof -
  let ?rs = "if ok then first_result CRES_SUCCESS ''success'' [] else first_result CRES_FAILURE ''error'' ''error occur''"
  define ms where "ms = [(''results'', JArr [JObj (if ok then [(''result'', JStr ''success'')]
     else [(''result'', JStr ''error''), (''error_details'', JObj [(''message'', JStr ''error occur'')])])])]"
  have r0: "take (Suc 0) ?rs = [if ok then \<lparr>cr_code = CRES_SUCCESS, cr_result = ''success'', cr_error_message = []\<rparr>
      else \<lparr>cr_code = CRES_FAILURE, cr_result = ''error'', cr_error_message = ''error occur''\<rparr>]"
    by (simp add: first_result_def SPP_CMD_MAX_COMMANDS_def numeral_eq_Suc)
  have q: "is_requested_status (decoded_request c) = 0" "is_requested_client_id (decoded_request c) = 0"
    "num_command (decoded_request c) = 1"
    using assms(1) by (auto simp: decoded_request_def is_query_def)
  have "results_json (decoded_request c) ?rs = snd (hd ms)"
    unfolding results_json_def q(3) nat_one_as_int [symmetric] using r0 by (simp add: ms_def result_members_def)
  then have resp: "response_members T slaves s (decoded_request c) ?rs = Some ms"
    by (simp add: response_members_def q(1,2) ms_def)
  have ok: "members_ok ms" by (simp add: ms_def)
  have "length (render (JObj ms)) \<le> 120" by (simp add: ms_def quoted_def)
  from room_mono [OF assms(3) this] have room: "room M (length (render (JObj ms)))" .
  have "num_command (decoded_request c) \<le> int (length ?rs)" by (simp add: q(3) first_result_def SPP_CMD_MAX_COMMANDS_def)
  from result_text [OF resp ok this assms(2) room] show ?thesis by (simp only: answer_def ms_def)
qed


end
