(* ===== verification/Nfv_Ports.thy ===== *)
theory Nfv_Ports
  imports Spp_Forward Add_Port
begin

text \<open>
  nfv/params.h, nfv/init.h, nfv/nfv_utils.h and the loops of nfv/main.c: the ports of the process
  spp_nfv, the patches between them, and the worker that moves packets along the patches.

  The number of every port is an index into two arrays of RTE_MAX_ETHPORTS elements (the lengths
  of the lists): the forward array, with the port a port is patched to, and the port map, with
  the type and number under which the controller knows the port.  The statistics are in shared
  memory and addressed by pointers.
\<close>

section \<open>Data\<close>

datatype cmd_type = STOP | START | FORWARD

record stats =
  st_rx :: "64 word"
  st_rx_drop :: "64 word"
  st_tx :: "64 word"
  st_tx_drop :: "64 word"

text \<open>The statistics a port counts in: those of a physical port or of a client in the shared
  memory, or the default ones in the port map.\<close>

datatype stats_ptr = PortStats int | ClientStats int | DefaultStats int

record port_map_entry =
  map_id :: int
  map_port_type :: port_type
  map_stats :: stats_ptr
  default_stats :: stats

text \<open>The function pointers are NULL (False) until a patch sets them to the burst functions of
  DPDK.\<close>

record nfv_port =
  in_port_id :: int
  out_port_id :: int
  rx_func :: bool
  tx_func :: bool

record nfv =
  ports_fwd_array :: "nfv_port list"
  port_map :: "port_map_entry list"
  port_stats :: "stats list"
  client_stats :: "stats list"
  lcore_id_used :: "int list"
  nfv_client_id :: int
  g_enable_vhost_cli :: int
  nfv_cmd :: cmd_type

definition MAX_CLIENT :: nat where "MAX_CLIENT = 99"

definition zero_stats :: stats where
  "zero_stats = \<lparr>st_rx = 0, st_rx_drop = 0, st_tx = 0, st_tx_drop = 0\<rparr>"

section \<open>Initialisation\<close>

definition forward_array_init_one :: "int \<Rightarrow> nfv \<Rightarrow> nfv option" where
  "forward_array_init_one i s = do {
     p \<leftarrow> rd (ports_fwd_array s) i;
     ps \<leftarrow> wr (ports_fwd_array s) i (p\<lparr>in_port_id := PORT_RESET, out_port_id := PORT_RESET\<rparr>);
     Some (s\<lparr>ports_fwd_array := ps\<rparr>)
   }"

definition port_map_init_one :: "int \<Rightarrow> nfv \<Rightarrow> nfv option" where
  "port_map_init_one i s = do {
     e \<leftarrow> rd (port_map s) i;
     es \<leftarrow> wr (port_map s) i (e\<lparr>map_id := PORT_RESET, map_port_type := UNDEF, map_stats := DefaultStats i\<rparr>);
     Some (s\<lparr>port_map := es\<rparr>)
   }"

fun over_ports :: "(int \<Rightarrow> nfv \<Rightarrow> nfv option) \<Rightarrow> nat list \<Rightarrow> nfv \<Rightarrow> nfv option" where
  "over_ports f [] s = Some s"
| "over_ports f (k # ks) s = do { s' \<leftarrow> f (int k) s; over_ports f ks s' }"

definition forward_array_init :: "nfv \<Rightarrow> nfv option" where
  "forward_array_init s = over_ports forward_array_init_one [0..<length (ports_fwd_array s)] s"

definition port_map_init :: "nfv \<Rightarrow> nfv option" where
  "port_map_init s = over_ports port_map_init_one [0..<length (port_map s)] s"

text \<open>main up to the start of the workers: the valid Ethernet ports are entered as physical
  ports.  valid is rte_eth_dev_is_valid_port, n_avail the number of ports DPDK reports, lcores
  what RTE_LCORE_FOREACH enumerates.\<close>

definition add_phy :: "int \<Rightarrow> nfv \<Rightarrow> nfv option" where
  "add_phy i s = do {
     p \<leftarrow> rd (ports_fwd_array s) i;
     ps \<leftarrow> wr (ports_fwd_array s) i (p\<lparr>in_port_id := i\<rparr>);
     e \<leftarrow> rd (port_map s) i;
     es \<leftarrow> wr (port_map s) i (e\<lparr>map_port_type := PHY, map_id := i, map_stats := PortStats i\<rparr>);
     Some (s\<lparr>ports_fwd_array := ps, port_map := es\<rparr>)
   }"

definition mark_lcore :: "int \<Rightarrow> int list \<Rightarrow> int list option" where
  "mark_lcore l used = wr used l 1"

fun mark_lcores :: "int list \<Rightarrow> int list \<Rightarrow> int list option" where
  "mark_lcores [] used = Some used"
| "mark_lcores (l # ls) used = do { used' \<leftarrow> mark_lcore l used; mark_lcores ls used' }"

definition nfv_init :: "(nat \<Rightarrow> bool) \<Rightarrow> nat \<Rightarrow> int list \<Rightarrow> nfv \<Rightarrow> nfv option" where
  "nfv_init valid n_avail lcores s = do {
     s1 \<leftarrow> forward_array_init s;
     s2 \<leftarrow> port_map_init s1;
     let nb_ports = min n_avail (length (ports_fwd_array s2));
     s3 \<leftarrow> over_ports add_phy [i \<leftarrow> [0..<nb_ports]. valid i] (s2\<lparr>nfv_cmd := STOP\<rparr>);
     used \<leftarrow> mark_lcores lcores (lcore_id_used s3);
     Some (s3\<lparr>lcore_id_used := used\<rparr>)
   }"

section \<open>Ports and patches\<close>

definition is_valid_port :: "nfv \<Rightarrow> int \<Rightarrow> bool option" where
  "is_valid_port s port_id =
    (if port_id > int (length (port_map s)) then Some False
     else do { e \<leftarrow> rd (port_map s) port_id; Some (map_id e \<noteq> PORT_RESET) })"

fun find_from :: "port_map_entry list \<Rightarrow> int \<Rightarrow> int \<Rightarrow> port_type \<Rightarrow> int" where
  "find_from [] i pid ty = PORT_RESET"
| "find_from (e # es) i pid ty =
    (if map_port_type e \<noteq> ty then find_from es (i + 1) pid ty
     else if map_id e = pid then i else find_from es (i + 1) pid ty)"

definition find_port_id :: "nfv \<Rightarrow> int \<Rightarrow> port_type \<Rightarrow> int" where
  "find_port_id s pid ty = find_from (port_map s) 0 pid ty"

definition add_patch :: "int \<Rightarrow> int \<Rightarrow> nfv \<Rightarrow> (int \<times> nfv) option" where
  "add_patch in_port out_port s = do {
     vi \<leftarrow> is_valid_port s in_port;
     if \<not> vi then Some (- 1, s)
     else do {
       vo \<leftarrow> is_valid_port s out_port;
       if \<not> vo then Some (- 1, s)
       else do {
         ps1 \<leftarrow> wr (ports_fwd_array s) in_port
           \<lparr>in_port_id = in_port, out_port_id = out_port, rx_func = True, tx_func = True\<rparr>;
         p \<leftarrow> rd ps1 out_port;
         ps2 \<leftarrow> wr ps1 out_port (p\<lparr>in_port_id := out_port, rx_func := True, tx_func := True\<rparr>);
         Some (0, s\<lparr>ports_fwd_array := ps2\<rparr>)
       }
     }
   }"

definition forward_array_reset :: "nfv \<Rightarrow> nfv" where
  "forward_array_reset s = s\<lparr>ports_fwd_array :=
     List.map (\<lambda>p. if in_port_id p \<noteq> PORT_RESET then p\<lparr>out_port_id := PORT_RESET\<rparr> else p) (ports_fwd_array s)\<rparr>"

text \<open>The loop that takes back a patch to the removed port ends after the first one.\<close>

fun unpatch_first :: "int \<Rightarrow> nfv_port list \<Rightarrow> nfv_port list" where
  "unpatch_first port_id [] = []"
| "unpatch_first port_id (p # ps) =
    (if in_port_id p = PORT_RESET then p # unpatch_first port_id ps
     else if out_port_id p = port_id then p\<lparr>out_port_id := PORT_RESET\<rparr> # ps
     else p # unpatch_first port_id ps)"

definition forward_array_remove :: "int \<Rightarrow> nfv \<Rightarrow> nfv option" where
  "forward_array_remove port_id s = do {
     s1 \<leftarrow> forward_array_init_one port_id s;
     Some (s1\<lparr>ports_fwd_array := unpatch_first port_id (ports_fwd_array s1)\<rparr>)
   }"

text \<open>The type names are compared with the beginning of the string.\<close>

definition portmap :: "(string \<times> port_type) list" where
  "portmap = [(''phy'', PHY), (''ring'', RING), (''vhost'', VHOST), (''pcap'', PCAP), (''nullpmd'', NULLPMD)]"

fun get_port_type_from :: "(string \<times> port_type) list \<Rightarrow> string \<Rightarrow> port_type" where
  "get_port_type_from [] portname = UNDEF"
| "get_port_type_from ((n, t) # es) portname =
    (if starts_with portname n then t else get_port_type_from es portname)"

definition get_port_type :: "string \<Rightarrow> port_type" where
  "get_port_type portname = get_port_type_from portmap portname"

section \<open>Adding and removing ports\<close>

text \<open>The services that stop and detach a device.  eth_dev_flags is the field dev_flags of the data
  of a port, None when the port has no data; eth_dev_device is the name of its device.\<close>

record 'v detach =
  rte_eth_dev_stop :: "int \<Rightarrow> 'v \<Rightarrow> 'v"
  rte_eth_dev_close :: "int \<Rightarrow> 'v \<Rightarrow> 'v"
  eth_dev_flags :: "int \<Rightarrow> 'v \<Rightarrow> 32 word option"
  eth_dev_device :: "int \<Rightarrow> 'v \<Rightarrow> string option"
  rte_bus_find_by_device :: "string \<Rightarrow> 'v \<Rightarrow> string option"
  rte_eal_hotplug_remove :: "string \<Rightarrow> string \<Rightarrow> 'v \<Rightarrow> int \<times> 'v"
  rte_eth_dev_release_port :: "int \<Rightarrow> 'v \<Rightarrow> 'v"

definition RTE_ETH_DEV_BONDED_SLAVE :: "32 word" where "RTE_ETH_DEV_BONDED_SLAVE = 4"

definition dev_detach_by_port_id :: "'v detach \<Rightarrow> int \<Rightarrow> 'v \<Rightarrow> int \<times> 'v" where
  "dev_detach_by_port_id X port_id v =
    (case eth_dev_flags X port_id v of
       None \<Rightarrow> (0, v)
     | Some dev_flags \<Rightarrow>
         if and dev_flags RTE_ETH_DEV_BONDED_SLAVE \<noteq> 0 then (- 95, v)
         else case eth_dev_device X port_id v of
           None \<Rightarrow> (- 22, v)
         | Some dev \<Rightarrow>
             case rte_bus_find_by_device X dev v of
               None \<Rightarrow> (- 2, v)
             | Some bus \<Rightarrow>
                 let (ret, v1) = rte_eal_hotplug_remove X bus dev v in
                 if ret < 0 then (ret, v1) else (0, rte_eth_dev_release_port X port_id v1))"

text \<open>A resource of another type than these four keeps the port number PORT_RESET.\<close>

definition resource_type :: "string \<Rightarrow> port_type" where
  "resource_type p_type =
    (if p_type = ''vhost'' then VHOST else if p_type = ''ring'' then RING
     else if p_type = ''pcap'' then PCAP else if p_type = ''nullpmd'' then NULLPMD else UNDEF)"

definition do_del :: "'v detach \<Rightarrow> string option \<Rightarrow> nfv \<Rightarrow> 'v \<Rightarrow> (int \<times> nfv \<times> 'v) option" where
  "do_del X res_uid s v = do {
     uid \<leftarrow> res_uid;
     (res, r) \<leftarrow> parse_resource_uid uid;
     if res < 0 then Some (- 1, s, v)
     else do {
       (p_type, p_id) \<leftarrow> r;
       let ty = resource_type p_type;
       let port_id = (if ty = UNDEF then PORT_RESET else find_port_id s p_id ty);
       if ty \<noteq> UNDEF \<and> port_id = PORT_RESET then Some (- 1, s, v)
       else do {
         let v1 = (if ty = RING then rte_eth_dev_close X port_id (rte_eth_dev_stop X port_id v)
                   else if ty = PCAP \<or> ty = NULLPMD then snd (dev_detach_by_port_id X port_id v) else v);
         s1 \<leftarrow> forward_array_remove port_id s;
         s2 \<leftarrow> port_map_init_one port_id s1;
         Some (0, s2, v1)
       }
     }
   }"

text \<open>A resource of another type leaves the result 0 of the parser in res.\<close>

definition add_resource :: "'v ethdev \<Rightarrow> int \<Rightarrow> string \<Rightarrow> int \<Rightarrow> 'v \<Rightarrow> (port_type \<times> int \<times> 'v) option" where
  "add_resource E cli p_type p_id v =
    (if p_type = ''vhost'' then do { (r, v1) \<leftarrow> add_vhost_pmd E cli p_id v; Some (VHOST, r, v1) }
     else if p_type = ''ring'' then (let (r, v1) = add_ring_pmd E p_id v in Some (RING, r, v1))
     else if p_type = ''pcap'' then do { (r, v1) \<leftarrow> add_pcap_pmd E p_id v; Some (PCAP, r, v1) }
     else if p_type = ''nullpmd'' then do { (r, v1) \<leftarrow> add_null_pmd E p_id v; Some (NULLPMD, r, v1) }
     else Some (UNDEF, 0, v))"

definition do_add :: "'v ethdev \<Rightarrow> string option \<Rightarrow> nfv \<Rightarrow> 'v \<Rightarrow> (int \<times> nfv \<times> 'v) option" where
  "do_add E res_uid s v = do {
     uid \<leftarrow> res_uid;
     (res, r) \<leftarrow> parse_resource_uid uid;
     if res < 0 then Some (- 1, s, v)
     else do {
       (p_type, p_id) \<leftarrow> r;
       (ty, res1, v1) \<leftarrow> add_resource E (g_enable_vhost_cli s) p_type p_id v;
       if res1 < 0 then Some (- 1, s, v1)
       else do {
         let port_id = to_uint16 res1;
         e \<leftarrow> rd (port_map s) port_id;
         es \<leftarrow> wr (port_map s) port_id (e\<lparr>map_id := p_id, map_port_type := ty, map_stats := ClientStats p_id\<rparr>);
         p \<leftarrow> rd (ports_fwd_array s) port_id;
         ps \<leftarrow> wr (ports_fwd_array s) port_id (p\<lparr>in_port_id := port_id\<rparr>);
         Some (0, s\<lparr>port_map := es, ports_fwd_array := ps\<rparr>, v1)
       }
     }
   }"

section \<open>Forwarding\<close>

definition stats_at :: "nfv \<Rightarrow> stats_ptr \<Rightarrow> stats option" where
  "stats_at s ptr =
    (case ptr of PortStats i \<Rightarrow> rd (port_stats s) i
     | ClientStats i \<Rightarrow> rd (client_stats s) i
     | DefaultStats i \<Rightarrow> map_option default_stats (rd (port_map s) i))"

definition upd_stats :: "stats_ptr \<Rightarrow> (stats \<Rightarrow> stats) \<Rightarrow> nfv \<Rightarrow> nfv option" where
  "upd_stats ptr f s = do {
     t \<leftarrow> stats_at s ptr;
     case ptr of
       PortStats i \<Rightarrow> do { l \<leftarrow> wr (port_stats s) i (f t); Some (s\<lparr>port_stats := l\<rparr>) }
     | ClientStats i \<Rightarrow> do { l \<leftarrow> wr (client_stats s) i (f t); Some (s\<lparr>client_stats := l\<rparr>) }
     | DefaultStats i \<Rightarrow> do {
         e \<leftarrow> rd (port_map s) i;
         l \<leftarrow> wr (port_map s) i (e\<lparr>default_stats := f t\<rparr>);
         Some (s\<lparr>port_map := l\<rparr>)
       }
   }"

definition count_rx :: "nat \<Rightarrow> stats \<Rightarrow> stats" where
  "count_rx n t = t\<lparr>st_rx := st_rx t + of_nat n\<rparr>"

definition count_tx :: "nat \<Rightarrow> stats \<Rightarrow> stats" where
  "count_tx n t = t\<lparr>st_tx := st_tx t + of_nat n\<rparr>"

definition count_tx_drop :: "nat \<Rightarrow> stats \<Rightarrow> stats" where
  "count_tx_drop n t = t\<lparr>st_tx_drop := st_tx_drop t + of_nat n\<rparr>"

definition forward_port :: "'w dpdk \<Rightarrow> int \<Rightarrow> nfv \<Rightarrow> 'w \<Rightarrow> (nfv \<times> 'w) option" where
  "forward_port D in_port s w = do {
     p \<leftarrow> rd (ports_fwd_array s) in_port;
     if in_port_id p = PORT_RESET \<or> out_port_id p = PORT_RESET then Some (s, w)
     else do {
       let out_port = out_port_id p;
       ensure (rx_func p);
       let (bufs, w1) = rte_eth_rx_burst D in_port MAX_PKT_BURST w;
       if bufs = [] then Some (s, w1)
       else do {
         e \<leftarrow> rd (port_map s) in_port;
         s1 \<leftarrow> upd_stats (map_stats e) (count_rx (length bufs)) s;
         q \<leftarrow> rd (ports_fwd_array s1) out_port;
         ensure (tx_func q);
         (nb_tx, w2) \<leftarrow> rte_eth_tx_burst D out_port bufs w1;
         eo \<leftarrow> rd (port_map s1) out_port;
         s2 \<leftarrow> upd_stats (map_stats eo) (count_tx nb_tx) s1;
         if nb_tx < length bufs
         then do {
           s3 \<leftarrow> upd_stats (map_stats eo) (count_tx_drop (length bufs - nb_tx)) s2;
           w3 \<leftarrow> free_packets D (drop nb_tx bufs) w2;
           Some (s3, w3)
         }
         else Some (s2, w2)
       }
     }
   }"

fun forward_ports :: "'w dpdk \<Rightarrow> nat list \<Rightarrow> nfv \<Rightarrow> 'w \<Rightarrow> (nfv \<times> 'w) option" where
  "forward_ports D [] s w = Some (s, w)"
| "forward_ports D (i # is) s w = do {
     (s1, w1) \<leftarrow> forward_port D (int i) s w;
     forward_ports D is s1 w1
   }"

definition nfv_forward :: "'w dpdk \<Rightarrow> nfv \<Rightarrow> 'w \<Rightarrow> (nfv \<times> 'w) option" where
  "nfv_forward D s w = forward_ports D [0..<length (ports_fwd_array s)] s w"

text \<open>One turn of the loop of a worker.\<close>

definition nfv_loop_turn :: "'w dpdk \<Rightarrow> nfv \<Rightarrow> 'w \<Rightarrow> (nfv \<times> 'w) option" where
  "nfv_loop_turn D s w =
    (if nfv_cmd s = STOP then Some (s, w)
     else if nfv_cmd s = FORWARD then nfv_forward D s w else Some (s, w))"

section \<open>The invariant\<close>

definition stats_ptr_ok :: "nfv \<Rightarrow> stats_ptr \<Rightarrow> bool" where
  "stats_ptr_ok s ptr =
    (case ptr of PortStats i \<Rightarrow> 0 \<le> i \<and> i < int (length (port_stats s))
     | ClientStats i \<Rightarrow> 0 \<le> i \<and> i < int (length (client_stats s))
     | DefaultStats i \<Rightarrow> 0 \<le> i \<and> i < int (length (port_map s)))"

definition fwd_ok :: "nfv_port list \<Rightarrow> nat \<Rightarrow> bool" where
  "fwd_ok ps i \<longleftrightarrow> (in_port_id (ps ! i) = PORT_RESET \<or> in_port_id (ps ! i) = int i) \<and>
    (out_port_id (ps ! i) \<noteq> PORT_RESET \<longrightarrow> in_port_id (ps ! i) \<noteq> PORT_RESET \<and> rx_func (ps ! i) \<and>
      0 \<le> out_port_id (ps ! i) \<and> out_port_id (ps ! i) < int (length ps) \<and>
      tx_func (ps ! nat (out_port_id (ps ! i))))"

definition nfv_wf :: "nfv \<Rightarrow> bool" where
  "nfv_wf s \<longleftrightarrow> length (port_map s) = length (ports_fwd_array s) \<and> int (length (port_map s)) < PORT_RESET \<and>
    length (port_stats s) = length (port_map s) \<and> length (client_stats s) = MAX_CLIENT \<and>
    (\<forall>i<length (ports_fwd_array s). fwd_ok (ports_fwd_array s) i) \<and>
    (\<forall>e\<in>set (port_map s). stats_ptr_ok s (map_stats e))"

end
