(* ===== verification/App_Options.thy ===== *)
theory App_Options
  imports Shared_Common Spp_Types Nfv_Ports
begin

text \<open>
  The option loops of spp_vf, spp_mirror and spp_nfv.  The results of getopt_long, with optarg, are
  an argument; None is undefined behaviour.
\<close>

section \<open>spp_vf and spp_mirror\<close>

text \<open>What getopt_long returns for the options of the two processes.\<close>

datatype app_opt = Opt_Client_Id string | Opt_Vhost_Client | Opt_Server string | Opt_Other

definition zero_startup :: startup_param where
  "zero_startup = \<lparr>client_id = 0, server_ip = [], server_port = 0, vhost_client = 0,
     secondary_type = SECONDARY_TYPE_NONE\<rparr>"

text \<open>The options that have been seen, and the parameters so far.\<close>

record app_state =
  ap_param :: startup_param
  ap_proc_flg :: bool
  ap_server_flg :: bool

text \<open>One option; the inner None is the return with SPP_RET_NG.\<close>

definition vf_parse_opt :: "nat \<Rightarrow> nat \<Rightarrow> app_opt \<Rightarrow> app_state \<Rightarrow> app_state option option" where
  "vf_parse_opt n_lcore ip_size opt st =
    (case opt of
       Opt_Client_Id a \<Rightarrow>
         (let (ret, i) = parse_app_client_id n_lcore a in
          Some (if ret \<noteq> 0 then None
            else Some (st\<lparr>ap_param := (ap_param st)\<lparr>client_id := (case i of Some v \<Rightarrow> v | None \<Rightarrow> client_id (ap_param st))\<rparr>,
              ap_proc_flg := True\<rparr>)))
     | Opt_Vhost_Client \<Rightarrow> Some (Some (st\<lparr>ap_param := (ap_param st)\<lparr>vhost_client := 1\<rparr>\<rparr>))
     | Opt_Server a \<Rightarrow> do {
         (ret, r) \<leftarrow> parse_app_server ip_size a;
         Some (if ret \<noteq> 0 then None
           else Some (st\<lparr>ap_param := (case r of
               Some (ip, p) \<Rightarrow> (ap_param st)\<lparr>server_ip := ip, server_port := p\<rparr> | None \<Rightarrow> ap_param st),
             ap_server_flg := True\<rparr>))
       }
     | Opt_Other \<Rightarrow> Some None)"

fun vf_parse_opts :: "nat \<Rightarrow> nat \<Rightarrow> app_opt list \<Rightarrow> app_state \<Rightarrow> app_state option option" where
  "vf_parse_opts n_lcore ip_size [] st = Some (Some st)"
| "vf_parse_opts n_lcore ip_size (opt # opts) st = do {
     r \<leftarrow> vf_parse_opt n_lcore ip_size opt st;
     case r of None \<Rightarrow> Some None | Some st1 \<Rightarrow> vf_parse_opts n_lcore ip_size opts st1
   }"

text \<open>The parameters are cleared first; the client id and the server are mandatory.  The processes
  differ in the type that is stored.\<close>

definition app_args :: "secondary_type \<Rightarrow> nat \<Rightarrow> nat \<Rightarrow> app_opt list \<Rightarrow> startup_param option option" where
  "app_args ty n_lcore ip_size opts = do {
     r \<leftarrow> vf_parse_opts n_lcore ip_size opts \<lparr>ap_param = zero_startup, ap_proc_flg = False, ap_server_flg = False\<rparr>;
     Some (case r of
         None \<Rightarrow> None
       | Some st \<Rightarrow> if \<not> ap_proc_flg st \<or> \<not> ap_server_flg st then None
           else Some ((ap_param st)\<lparr>secondary_type := ty\<rparr>))
   }"

definition vf_parse_app_args :: "nat \<Rightarrow> nat \<Rightarrow> app_opt list \<Rightarrow> startup_param option option" where
  "vf_parse_app_args = app_args SECONDARY_TYPE_VF"

definition mirror_parse_app_args :: "nat \<Rightarrow> nat \<Rightarrow> app_opt list \<Rightarrow> startup_param option option" where
  "mirror_parse_app_args = app_args SECONDARY_TYPE_MIRROR"

section \<open>spp_nfv\<close>

datatype nfv_opt = Nfv_Vhost_Client | Nfv_Client_Id string | Nfv_Server string | Nfv_Other

text \<open>The address stays NULL (None) when the option is missing: no option is mandatory.  The result
  None is the return with -1.\<close>

fun nfv_parse_app_args ::
  "nfv_opt list \<Rightarrow> nfv \<times> string option \<times> int \<Rightarrow> (nfv \<times> string option \<times> int) option" where
  "nfv_parse_app_args [] st = Some st"
| "nfv_parse_app_args (opt # opts) (s, ip, port) =
    (case opt of
       Nfv_Vhost_Client \<Rightarrow> nfv_parse_app_args opts (s\<lparr>g_enable_vhost_cli := 1\<rparr>, ip, port)
     | Nfv_Client_Id a \<Rightarrow>
         (let (ret, n) = parse_num_clients (Some a) (nfv_client_id s) in
          if ret \<noteq> 0 then None else nfv_parse_app_args opts (s\<lparr>nfv_client_id := n\<rparr>, ip, port))
     | Nfv_Server a \<Rightarrow>
         (case parse_server (Some a) of (ret, ip', p) \<Rightarrow>
            if ret \<noteq> 0 then None
            else nfv_parse_app_args opts (s, ip', (case p of None \<Rightarrow> port | Some q \<Rightarrow> q)))
     | Nfv_Other \<Rightarrow> None)"

section \<open>The options as a whole\<close>

text \<open>What the processes promise, without a loop: the last client id, the last server and whether
  the option for vhost clients is there.\<close>

definition id_value :: "nat \<Rightarrow> app_opt \<Rightarrow> int option" where
  "id_value n_lcore opt =
    (case opt of
       Opt_Client_Id a \<Rightarrow>
         (let (v, rest) = strtol 0 a in
          if a = [] \<or> rest \<noteq> [] \<or> int n_lcore \<le> to_int32 v then None else Some (to_int32 v))
     | _ \<Rightarrow> None)"

definition server_value :: "app_opt \<Rightarrow> (string \<times> int) option" where
  "server_value opt =
    (case opt of
       Opt_Server a \<Rightarrow>
         (let ip = takeWhile (\<lambda>c. c \<noteq> CHR '':'') a; port = drop (length ip + 1) a; (v, rest) = strtol 0 port in
          if CHR '':'' \<notin> set a \<or> port = [] \<or> rest \<noteq> [] then None else Some (ip, to_int32 v))
     | _ \<Rightarrow> None)"

definition valid_opt :: "nat \<Rightarrow> app_opt \<Rightarrow> bool" where
  "valid_opt n_lcore opt \<longleftrightarrow> opt = Opt_Vhost_Client \<or> id_value n_lcore opt \<noteq> None \<or> server_value opt \<noteq> None"

definition address_fits :: "nat \<Rightarrow> app_opt \<Rightarrow> bool" where
  "address_fits ip_size opt =
    (case opt of Opt_Server a \<Rightarrow> length (takeWhile (\<lambda>c. c \<noteq> CHR '':'') a) < ip_size | _ \<Rightarrow> True)"

definition options_param :: "nat \<Rightarrow> secondary_type \<Rightarrow> app_opt list \<Rightarrow> startup_param option" where
  "options_param n_lcore ty opts =
    (let ids = List.map_filter (id_value n_lcore) opts; servers = List.map_filter server_value opts in
     if list_all (valid_opt n_lcore) opts \<and> ids \<noteq> [] \<and> servers \<noteq> []
     then Some \<lparr>client_id = last ids, server_ip = fst (last servers), server_port = snd (last servers),
       vhost_client = (if Opt_Vhost_Client \<in> set opts then 1 else 0), secondary_type = ty\<rparr>
     else None)"

lemma client_id_parsed:
  "parse_app_client_id n_lcore a =
    (case id_value n_lcore (Opt_Client_Id a) of None \<Rightarrow> (- 1, None) | Some i \<Rightarrow> (0, Some i))"
  by (auto simp: parse_app_client_id_def id_value_def Let_def split: prod.splits)

lemma prefix_all: "length s \<le> length (takeWhile P s) \<longleftrightarrow> (\<forall>c\<in>set s. P c)"
  by (metis length_takeWhile_le le_antisym takeWhile_eq_all_conv takeWhile_eq_take take_all_iff)

lemma server_parsed:
  assumes "address_fits ip_size (Opt_Server a)"
  shows "parse_app_server ip_size a =
    Some (case server_value (Opt_Server a) of None \<Rightarrow> (- 1, None) | Some r \<Rightarrow> (0, Some r))"
proof -
  have "CHR '':'' \<notin> set a \<longleftrightarrow> length (takeWhile (\<lambda>c. c \<noteq> CHR '':'') a) \<ge> length a"
    unfolding prefix_all by auto
  then show ?thesis using assms
    by (auto simp: parse_app_server_def server_value_def address_fits_def strcpy_buf_def Let_def split: prod.splits)
qed

text \<open>The effect of a valid option.\<close>

definition take_opt :: "nat \<Rightarrow> app_opt \<Rightarrow> app_state \<Rightarrow> app_state" where
  "take_opt n_lcore opt st =
    st\<lparr>ap_param := (ap_param st)\<lparr>client_id := (case id_value n_lcore opt of None \<Rightarrow> client_id (ap_param st) | Some i \<Rightarrow> i),
         server_ip := (case server_value opt of None \<Rightarrow> server_ip (ap_param st) | Some r \<Rightarrow> fst r),
         server_port := (case server_value opt of None \<Rightarrow> server_port (ap_param st) | Some r \<Rightarrow> snd r),
         vhost_client := (if opt = Opt_Vhost_Client then 1 else vhost_client (ap_param st))\<rparr>,
       ap_proc_flg := (ap_proc_flg st \<or> id_value n_lcore opt \<noteq> None),
       ap_server_flg := (ap_server_flg st \<or> server_value opt \<noteq> None)\<rparr>"

lemma opt_parsed:
  assumes "address_fits ip_size opt"
  shows "vf_parse_opt n_lcore ip_size opt st = Some (if valid_opt n_lcore opt then Some (take_opt n_lcore opt st) else None)"
proof (cases opt)
  case (Opt_Client_Id a)
  have "server_value opt = None" by (simp add: Opt_Client_Id server_value_def)
  then show ?thesis using Opt_Client_Id
    by (simp add: vf_parse_opt_def valid_opt_def take_opt_def client_id_parsed split: option.splits)
next
  case (Opt_Server a)
  have "id_value n_lcore opt = None" by (simp add: Opt_Server id_value_def)
  then show ?thesis using Opt_Server server_parsed [of ip_size a] assms
    by (simp add: vf_parse_opt_def valid_opt_def take_opt_def split: option.splits)
qed (simp_all add: vf_parse_opt_def valid_opt_def take_opt_def id_value_def server_value_def)

lemma opts_parsed:
  "list_all (address_fits ip_size) opts \<Longrightarrow>
    vf_parse_opts n_lcore ip_size opts st =
      Some (if list_all (valid_opt n_lcore) opts then Some (fold (take_opt n_lcore) opts st) else None)"
  by (induction opts arbitrary: st) (simp_all add: opt_parsed)

lemma take_opts:
  fixes st :: app_state
  defines "p \<equiv> ap_param st"
  shows "fold (take_opt n_lcore) opts st =
    (let ids = List.map_filter (id_value n_lcore) opts; servers = List.map_filter server_value opts in
     st\<lparr>ap_param := p\<lparr>client_id := last (client_id p # ids),
          server_ip := last (server_ip p # List.map fst servers), server_port := last (server_port p # List.map snd servers),
          vhost_client := (if Opt_Vhost_Client \<in> set opts then 1 else vhost_client p)\<rparr>,
        ap_proc_flg := (ap_proc_flg st \<or> ids \<noteq> []), ap_server_flg := (ap_server_flg st \<or> servers \<noteq> [])\<rparr>)"
  unfolding p_def
proof (induction opts arbitrary: st)
  case Nil
  show ?case by (simp add: map_filter_simps)
next
  case (Cons opt opts)
  show ?case unfolding fold_Cons comp_def Cons.IH [of "take_opt n_lcore opt st"]
    by (auto simp: map_filter_simps take_opt_def Let_def split: option.splits)
qed



end
