(* ===== verification/Vf_Start.thy ===== *)
theory Vf_Start
  imports Command_Keep Command_Loop App_Options
begin

text \<open>
  main of vf/spp_vf.c: from the options to the loop that accepts commands, and the end of the
  process.  rte_eal_init, what the other threads do while main sleeps, and the loop itself with what
  it does when it fails (vf_accept_commands) are arguments.
\<close>

section \<open>main\<close>

text \<open>A worker begins with slave_main.\<close>

definition slave_main_start :: "int \<Rightarrow> 'z manage_data_scheme \<Rightarrow> 'z manage_data_scheme option" where
  "slave_main_start lcore s = set_core_status lcore SPP_CORE_IDLE s"

text \<open>The addresses of the tables are never NULL here.\<close>

definition vf_set_mng_data_addr :: "nat \<Rightarrow> 'z manage_data_scheme \<Rightarrow> int \<times> 'z manage_data_scheme" where
  "vf_set_mng_data_addr main_lcore_id s =
    (if main_lcore_id = 0xffffffff then (SPP_RET_NG, s) else (SPP_RET_OK, s\<lparr>g_main_lcore_id := main_lcore_id\<rparr>))"

text \<open>The second result says whether the static variable g_main_lcore_id has been set.\<close>

definition vf_body ::
  "int \<Rightarrow> startup_param option \<Rightarrow> nat \<Rightarrow>
   (nat \<Rightarrow> ('h, 'z) classifier_data_scheme \<Rightarrow> ('h, 'z) classifier_data_scheme) \<Rightarrow>
   (conn_data \<Rightarrow> ('h, 'z) classifier_data_scheme \<Rightarrow> (int \<times> ('h, 'z) classifier_data_scheme) option) \<Rightarrow>
   int list \<Rightarrow> int \<Rightarrow> ('h, 'z) classifier_data_scheme \<Rightarrow> (int \<times> bool \<times> ('h, 'z) classifier_data_scheme) option" where
  "vf_body ret_dpdk args main_lcore env serve slaves n_avail s =
    (if ret_dpdk < 0 then Some (SPP_RET_NG, False, s)
     else case args of
       None \<Rightarrow> Some (SPP_RET_NG, False, s)
     | Some param \<Rightarrow>
        (let (ret_addr, s0) = vf_set_mng_data_addr main_lcore (s\<lparr>g_startup_param := param\<rparr>) in
         if ret_addr < SPP_RET_OK then Some (SPP_RET_NG, True, s0)
         else do {
           (ret_init, s1) \<leftarrow> vf_init slaves n_avail s0;
           if ret_init \<noteq> SPP_RET_OK then Some (SPP_RET_NG, True, s1)
           else do {
             (ret_command_init, conn) \<leftarrow> spp_command_proc_init (server_ip param) (server_port param);
             if ret_command_init \<noteq> SPP_RET_OK then Some (SPP_RET_NG, True, s1)
             else do {
               (ret_wait, s2) \<leftarrow> vf_start_workers env slaves s1;
               if ret_wait \<noteq> SPP_RET_OK then Some (SPP_RET_NG, True, s2)
               else do { (ret, s3) \<leftarrow> serve conn s2; Some (ret, True, s3) }
             }
           }
         }))"

text \<open>The end of main; the list holds the numbers of the vhost interfaces whose socket files are removed.\<close>

definition vf_finalize ::
  "(nat \<Rightarrow> 'z manage_data_scheme \<Rightarrow> 'z manage_data_scheme) \<Rightarrow> nat \<Rightarrow> int list \<Rightarrow>
   'z manage_data_scheme \<Rightarrow> (nat list \<times> 'z manage_data_scheme) option" where
  "vf_finalize env main_lcore slaves s = do {
     s1 \<leftarrow> set_core_status (int main_lcore) SPP_CORE_STOP s;
     (ret_core_end, s2) \<leftarrow> check_core_status_wait env slaves SPP_CORE_STOP s1;
     Some (del_vhost_sockfile s2 (vhost (g_iface_info s2)), s2)
   }"

definition vf_main ::
  "int \<Rightarrow> startup_param option \<Rightarrow> nat \<Rightarrow>
   (nat \<Rightarrow> ('h, 'z) classifier_data_scheme \<Rightarrow> ('h, 'z) classifier_data_scheme) \<Rightarrow>
   (nat \<Rightarrow> ('h, 'z) classifier_data_scheme \<Rightarrow> ('h, 'z) classifier_data_scheme) \<Rightarrow>
   (conn_data \<Rightarrow> ('h, 'z) classifier_data_scheme \<Rightarrow> (int \<times> ('h, 'z) classifier_data_scheme) option) \<Rightarrow>
   int list \<Rightarrow> int \<Rightarrow> ('h, 'z) classifier_data_scheme \<Rightarrow> (int \<times> nat list \<times> ('h, 'z) classifier_data_scheme) option" where
  "vf_main ret_dpdk args main_lcore env env_end serve slaves n_avail s = do {
     (ret, started, s1) \<leftarrow> vf_body ret_dpdk args main_lcore env serve slaves n_avail s;
     if \<not> started then Some (ret, [], s1)
     else do {
       (files, s2) \<leftarrow> vf_finalize env_end main_lcore slaves s1;
       Some (ret, files, s2)
     }
   }"

section \<open>Core states\<close>

text \<open>A state whose cores have the states f.\<close>

definition statuses :: "(nat \<Rightarrow> spp_core_status) \<Rightarrow> 'z manage_data_scheme \<Rightarrow> 'z manage_data_scheme" where
  "statuses f s = s\<lparr>g_core_info := List.map (\<lambda>j. (g_core_info s ! j)\<lparr>status := f j\<rparr>) [0..<length (g_core_info s)]\<rparr>"

lemma statuses_same: "statuses (\<lambda>j. status (g_core_info s ! j)) s = s"
proof -
  have "List.map (\<lambda>j. (g_core_info s ! j)\<lparr>status := status (g_core_info s ! j)\<rparr>) [0..<length (g_core_info s)] = g_core_info s"
    by (rule nth_equalityI) auto
  then show ?thesis by (simp add: statuses_def)
qed

lemma statuses_set:
  assumes "l < length (g_core_info s)"
  shows "set_core_status (int l) st (statuses f s) = Some (statuses (f(l := st)) s)"
proof -
  have "(List.map (\<lambda>j. (g_core_info s ! j)\<lparr>status := f j\<rparr>) [0..<length (g_core_info s)])[l := (g_core_info s ! l)\<lparr>status := st\<rparr>] =
      List.map (\<lambda>j. (g_core_info s ! j)\<lparr>status := (f(l := st)) j\<rparr>) [0..<length (g_core_info s)]"
    by (rule nth_equalityI) (auto simp: nth_list_update)
  then show ?thesis using assms by (simp add: set_core_status_def statuses_def)
qed

lemma statuses_check:
  "\<forall>l\<in>set ls. l < length (g_core_info s) \<Longrightarrow>
    check_core_status (List.map int ls) st (statuses f s) = Some (if \<forall>l\<in>set ls. f l = st then SPP_RET_OK else SPP_RET_NG)"
  by (induction ls) (auto simp: statuses_def)

lemma statuses_set_all:
  "\<forall>l\<in>set ls. l < length (g_core_info s) \<Longrightarrow>
    set_all_core_status (List.map int ls) st (statuses f s) = Some (statuses (\<lambda>j. if j \<in> set ls then st else f j) s)"
proof (induction ls arbitrary: f)
  case (Cons l ls)
  have "(\<lambda>j. if j \<in> set (l # ls) then st else f j) = (\<lambda>j. if j \<in> set ls then st else (f(l := st)) j)" by auto
  then show ?case using Cons by (simp add: statuses_set)
qed simp

text \<open>While main sleeps for the cnt-th time, the threads of the cores in sched cnt take a step.\<close>

definition threads_step ::
  "(int \<Rightarrow> 's \<Rightarrow> 's option) \<Rightarrow> (nat \<Rightarrow> nat list) \<Rightarrow> nat \<Rightarrow> 's \<Rightarrow> 's" where
  "threads_step step sched cnt s =
    fold (\<lambda>l s. case step (int l) s of None \<Rightarrow> s | Some s' \<Rightarrow> s') (sched cnt) s"

text \<open>Threads whose step sets the state of their core to st, whatever it was, from the states in F.\<close>

definition sets_status :: "(int \<Rightarrow> 'z manage_data_scheme \<Rightarrow> 'z manage_data_scheme option) \<Rightarrow> spp_core_status \<Rightarrow>
    spp_core_status set \<Rightarrow> 'z manage_data_scheme \<Rightarrow> bool" where
  "sets_status step st F s \<longleftrightarrow>
    (\<forall>l f. l < length (g_core_info s) \<longrightarrow> f l \<in> F \<longrightarrow> step (int l) (statuses f s) = Some (statuses (f(l := st)) s))"

lemma statuses_fold:
  assumes "sets_status step st F s" and "st \<in> F"
  shows "\<forall>l\<in>set ls. l < length (g_core_info s) \<and> f l \<in> F \<Longrightarrow>
    fold (\<lambda>l s. case step (int l) s of None \<Rightarrow> s | Some s' \<Rightarrow> s') ls (statuses f s) =
      statuses (\<lambda>j. if j \<in> set ls then st else f j) s"
proof (induction ls arbitrary: f)
  case (Cons l ls)
  have one: "step (int l) (statuses f s) = Some (statuses (f(l := st)) s)"
    using assms(1) Cons.prems by (simp add: sets_status_def)
  have "\<forall>k\<in>set ls. k < length (g_core_info s) \<and> (f(l := st)) k \<in> F" using Cons.prems assms(2) by simp
  from Cons.IH [OF this] have "fold (\<lambda>l s. case step (int l) s of None \<Rightarrow> s | Some s' \<Rightarrow> s') (l # ls) (statuses f s) =
      statuses (\<lambda>j. if j \<in> set ls then st else (f(l := st)) j) s"
    by (simp only: fold_Cons comp_def one option.case)
  moreover have "(\<lambda>j. if j \<in> set ls then st else (f(l := st)) j) = (\<lambda>j. if j \<in> set (l # ls) then st else f j)" by auto
  ultimately show ?case by simp
qed simp

text \<open>The wait succeeds when each worker takes its step before the last look.\<close>

lemma wait_statuses:
  fixes s :: "'z manage_data_scheme"
  assumes step: "sets_status step st F s" "st \<in> F" and r: "\<forall>l\<in>set ls. l < length (g_core_info s)"
    and sub: "\<forall>k. set (sched k) \<subseteq> set ls"
  shows "0 < left \<Longrightarrow> \<forall>l\<in>set ls. f l \<in> F \<Longrightarrow> \<forall>l\<in>set ls. f l = st \<or> (\<exists>k. cnt \<le> k \<and> k < cnt + left \<and> l \<in> set (sched k)) \<Longrightarrow>
    check_core_status_loop (threads_step step sched) (List.map int ls) st cnt left (statuses f s) =
      Some (SPP_RET_OK, statuses (\<lambda>j. if j \<in> set ls then st else f j) s)"
proof (induction left arbitrary: f cnt)
  case (Suc left)
  let ?g = "\<lambda>j. if j \<in> set (sched cnt) then st else f j"
  have "\<forall>l\<in>set (sched cnt). l < length (g_core_info s) \<and> f l \<in> F" using sub r Suc.prems(2) by blast
  from statuses_fold [OF step this] have env: "threads_step step sched cnt (statuses f s) = statuses ?g s"
    by (simp add: threads_step_def)
  show ?case
  proof (cases "\<forall>l\<in>set ls. ?g l = st")
    case True
    have "?g = (\<lambda>j. if j \<in> set ls then st else f j)"
      using True sub by (intro ext) (metis subsetD)
    then show ?thesis using True by (simp add: env statuses_check [OF r] Let_def)
  next
    case False
    have "0 < left"
    proof (rule ccontr)
      assume "\<not> 0 < left"
      then have "\<forall>l\<in>set ls. f l = st \<or> l \<in> set (sched cnt)" using Suc.prems(3) by (metis add.commute add_0 le_antisym less_Suc_eq_le plus_1_eq_Suc neq0_conv)
      then show False using False by auto
    qed
    moreover have "\<forall>l\<in>set ls. ?g l \<in> F" using Suc.prems(2) step(2) by simp
    moreover have "\<forall>l\<in>set ls. ?g l = st \<or> (\<exists>k. Suc cnt \<le> k \<and> k < Suc cnt + left \<and> l \<in> set (sched k))"
    proof
      fix l assume "l \<in> set ls"
      then have "f l = st \<or> (\<exists>k. cnt \<le> k \<and> k < cnt + Suc left \<and> l \<in> set (sched k))" using Suc.prems(3) by blast
      then show "?g l = st \<or> (\<exists>k. Suc cnt \<le> k \<and> k < Suc cnt + left \<and> l \<in> set (sched k))"
      proof
        assume "\<exists>k. cnt \<le> k \<and> k < cnt + Suc left \<and> l \<in> set (sched k)"
        then obtain k where k: "cnt \<le> k" "k < cnt + Suc left" "l \<in> set (sched k)" by blast
        show ?thesis
        proof (cases "k = cnt")
          case False
          then have "Suc cnt \<le> k" "k < Suc cnt + left" using k(1,2) by simp_all
          then show ?thesis using k(3) by blast
        qed (use k(3) in simp)
      qed simp
    qed
    ultimately have "check_core_status_loop (threads_step step sched) (List.map int ls) st (Suc cnt) left (statuses ?g s) =
        Some (SPP_RET_OK, statuses (\<lambda>j. if j \<in> set ls then st else ?g j) s)" by (rule Suc.IH)
    moreover have "(\<lambda>j. if j \<in> set ls then st else ?g j) = (\<lambda>j. if j \<in> set ls then st else f j)"
      by (rule ext) (use sub in auto)
    moreover have "check_core_status (List.map int ls) st (statuses ?g s) = Some SPP_RET_NG"
      using False statuses_check [OF r] by presburger
    then have "check_core_status_loop (threads_step step sched) (List.map int ls) st cnt (Suc left) (statuses f s) =
        check_core_status_loop (threads_step step sched) (List.map int ls) st (Suc cnt) left (statuses ?g s)"
      by (simp add: env Let_def)
    ultimately show ?thesis by simp
  qed
qed simp

section \<open>The workers begin and end\<close>

lemma worker_begins: "sets_status slave_main_start SPP_CORE_IDLE UNIV s"
  by (simp add: sets_status_def slave_main_start_def statuses_set)

text \<open>A worker that is asked to stop ends; one that has ended does nothing.\<close>

definition worker_end ::
  "'w dpdk \<Rightarrow> 'h hash_ops \<Rightarrow> nat \<Rightarrow> nat \<Rightarrow> 'w \<Rightarrow> int \<Rightarrow> ('h, 'z) classifier_data_scheme \<Rightarrow>
   ('h, 'z) classifier_data_scheme option" where
  "worker_end D H hz tsc w lcore s = map_option (fst \<circ> snd) (slave_main_turn D H hz tsc lcore s w)"

lemma worker_ends: "sets_status (worker_end D H hz tsc w) SPP_CORE_STOP {SPP_CORE_STOP_REQUEST, SPP_CORE_STOP} s"
  unfolding sets_status_def
proof (intro allI impI)
  fix l f assume l: "l < length (g_core_info s)" and f: "f l \<in> {SPP_CORE_STOP_REQUEST, SPP_CORE_STOP}"
  have g: "spp_get_core_status (int l) (statuses f s) = Some (f l)" using l by (simp add: spp_get_core_status_def statuses_def)
  show "worker_end D H hz tsc w (int l) (statuses f s) = Some (statuses (f(l := SPP_CORE_STOP)) s)"
  proof (cases "f l = SPP_CORE_STOP")
    case True
    then have "f(l := SPP_CORE_STOP) = f" by auto
    then show ?thesis using g True by (simp add: worker_end_def slave_main_turn_def)
  next
    case False
    then show ?thesis using g f by (simp add: worker_end_def slave_main_turn_def statuses_set [OF l])
  qed
qed

section \<open>The state that is handed to the loop of commands\<close>

lemma mng_ok_statuses: "mng_ok s \<Longrightarrow> mng_ok (statuses f s)"
  by (auto simp: mng_ok_iff statuses_def wf_dims_def wf_core_def assigned_ok_def upd_core_def Let_def)

definition vf_ready :: "startup_param \<Rightarrow> nat \<Rightarrow> nat set \<Rightarrow> ('h, 'z) classifier_data_scheme \<Rightarrow> bool" where
  "vf_ready param main_lcore ws s \<longleftrightarrow> mng_ok s \<and> wf_ports s \<and> g_startup_param s = param \<and> g_main_lcore_id s = main_lcore \<and>
     (\<forall>j<length (g_core_info s). status (g_core_info s ! j) =
        (if j \<in> ws then SPP_CORE_FORWARD else if j = main_lcore then SPP_CORE_IDLE else SPP_CORE_UNUSE)) \<and>
     (\<forall>c\<in>set (g_component_info s). \<not> used c) \<and>
     g_backup_info s = \<lparr>bk_core = g_core_info s, bk_component = g_component_info s, bk_interface = g_iface_info s\<rparr> \<and>
     set (g_change_core s) \<subseteq> {0} \<and> set (g_change_component s) \<subseteq> {0}"

lemma init_mng_ok:
  fixes s :: "('h, 'z) classifier_data_scheme"
  assumes "wf_dims s" and "\<forall>l\<in>set ns. l < length (g_core_info s)" and "0 \<le> n_avail"
  obtains s' where "vf_init (List.map int ns) n_avail s = Some (SPP_RET_OK, s')" "mng_ok s'" "wf_ports s'"
    "length (g_core_info s') = length (g_core_info s)" "g_startup_param s' = g_startup_param s" "g_main_lcore_id s' = g_main_lcore_id s"
    "\<And>j. j < length (g_core_info s) \<Longrightarrow> status (g_core_info s' ! j) = (if j \<in> set ns then SPP_CORE_STOP else SPP_CORE_UNUSE)"
    "\<forall>c\<in>set (g_component_info s'). \<not> used c"
proof -
  let ?n = "length (g_core_info s)" and ?N = "length (nic (g_iface_info s))"
  have "\<forall>l\<in>set (List.map int ns). 0 \<le> l \<and> l < int ?n" using assms(2) by simp
  from vf_init_state [OF assms(1) this assms(3)] obtain s' where
    r: "vf_init (List.map int ns) n_avail s = Some (SPP_RET_OK, s')" "wf_mng s'" "wf_ports s'" "length (g_core_info s') = ?n"
    and j: "\<And>j. j < ?n \<Longrightarrow> status (g_core_info s' ! j) = (if int j \<in> set (List.map int ns) then SPP_CORE_STOP else SPP_CORE_UNUSE) \<and>
       core (g_core_info s' ! j) = replicate SPP_INFO_AREA_MAX (zero_core_info ?n)"
    and c: "g_component_info s' = List.map (\<lambda>cnt. (zero_component ?N)\<lparr>component_id := int cnt\<rparr>) [0..<length (g_component_info s)]"
    and p: "g_startup_param s' = g_startup_param s" "g_main_lcore_id s' = g_main_lcore_id s" by blast
  have z: "\<forall>c\<in>set (g_component_info s'). \<not> used c \<and> name c = [] \<and> port_limits c \<and> tables_distinct c"
    by (auto simp: c zero_component_def used_def port_limits_def tables_distinct_def)
  then have "names_ok (g_component_info s')" by (auto simp: names_ok_def)
  moreover have "assigned_ok (g_component_info s') (g_core_info s')"
  proof -
    have "on_core (g_component_info s') k = {}" for k using z by (auto simp: on_core_def)
    moreover have "in_table (upd_core (g_core_info s' ! k)) = []" if k: "k < length (g_core_info s')" for k
    proof -
      have "wf_core (length (g_core_info s')) (g_core_info s' ! k)" using r(2) k by (simp add: wf_mng_def)
      then have "nat (upd_index (g_core_info s' ! k)) < SPP_INFO_AREA_MAX" by (auto simp: wf_core_def SPP_INFO_AREA_MAX_def)
      then show ?thesis using j k r(4) by (simp add: upd_core_def in_table_def zero_core_info_def)
    qed
    ultimately show ?thesis using z by (simp add: assigned_ok_def)
  qed
  ultimately have "mng_ok s'" using r(2) z by (simp add: mng_ok_def)
  moreover have "status (g_core_info s' ! i) = (if i \<in> set ns then SPP_CORE_STOP else SPP_CORE_UNUSE)" if "i < ?n" for i
    using j [OF that] by (auto simp: image_iff)
  ultimately show ?thesis using that r z p by blast
qed

text \<open>The main thread waits for the workers, lets them forward and takes the backup.\<close>

lemma workers_started:
  fixes s :: "('h, 'z) classifier_data_scheme"
  assumes "mng_ok s" and "\<forall>l\<in>set ns. l < length (g_core_info s)" and "g_main_lcore_id s < length (g_core_info s)"
    and "\<forall>k. set (sched k) \<subseteq> set ns" and "\<forall>l\<in>set ns. \<exists>k<SPP_CORE_STATUS_CHECK_MAX. l \<in> set (sched k)"
  shows "\<exists>s'. vf_start_workers (threads_step slave_main_start sched) (List.map int ns) s = Some (SPP_RET_OK, s') \<and>
    (let f = (\<lambda>j. if j \<in> set ns then SPP_CORE_FORWARD else if j = g_main_lcore_id s then SPP_CORE_IDLE else status (g_core_info s ! j));
         t = statuses f s
     in s' = t\<lparr>g_backup_info := \<lparr>bk_core = g_core_info t, bk_component = g_component_info s, bk_interface = g_iface_info s\<rparr>,
       g_change_core := replicate (length (g_change_core s)) 0, g_change_component := replicate (length (g_change_component s)) 0\<rparr>)"
proof -
  let ?m = "g_main_lcore_id s"
  define f0 where "f0 = (\<lambda>j. status (g_core_info s ! j))(?m := SPP_CORE_IDLE)"
  define f where "f = (\<lambda>j. if j \<in> set ns then SPP_CORE_FORWARD else if j = ?m then SPP_CORE_IDLE else status (g_core_info s ! j))"
  have 1: "set_core_status (int ?m) SPP_CORE_IDLE s = Some (statuses f0 s)"
    using statuses_set [OF assms(3), of SPP_CORE_IDLE "\<lambda>j. status (g_core_info s ! j)"] unfolding statuses_same f0_def .
  have 2: "check_core_status_wait (threads_step slave_main_start sched) (List.map int ns) SPP_CORE_IDLE (statuses f0 s) =
      Some (SPP_RET_OK, statuses (\<lambda>j. if j \<in> set ns then SPP_CORE_IDLE else f0 j) s)"
    unfolding check_core_status_wait_def
    by (rule wait_statuses [OF worker_begins UNIV_I assms(2,4)]) (use assms(5) in \<open>auto simp: SPP_CORE_STATUS_CHECK_MAX_def\<close>)
  have "(\<lambda>j. if j \<in> set ns then SPP_CORE_FORWARD else if j \<in> set ns then SPP_CORE_IDLE else f0 j) = f"
    by (rule ext) (simp add: f_def f0_def)
  then have 3: "set_all_core_status (List.map int ns) SPP_CORE_FORWARD (statuses (\<lambda>j. if j \<in> set ns then SPP_CORE_IDLE else f0 j) s) =
      Some (statuses f s)"
    using statuses_set_all [OF assms(2), of SPP_CORE_FORWARD "\<lambda>j. if j \<in> set ns then SPP_CORE_IDLE else f0 j"] by simp
  show ?thesis
    unfolding vf_start_workers_def f_def [symmetric] Let_def
    by (simp add: 1 2 3 backup_mng_info_def copy_mng_info_def) (simp add: statuses_def)
qed

lemma ready_body:
  fixes s :: "('h, 'z) classifier_data_scheme"
  assumes dims: "wf_dims s" and ns: "\<forall>l\<in>set ns. l < length (g_core_info s)"
    and m: "m < length (g_core_info s)" "m \<notin> set ns" "m \<noteq> 0xffffffff"
    and dev: "0 \<le> n_avail" "0 \<le> ret_dpdk" "length (server_ip param) < 128"
    and begins: "\<forall>k. set (begins k) \<subseteq> set ns" "\<forall>l\<in>set ns. \<exists>k<SPP_CORE_STATUS_CHECK_MAX. l \<in> set (begins k)"
  shows "\<exists>s1. vf_ready param m (set ns) s1 \<and> length (g_core_info s1) = length (g_core_info s) \<and>
    vf_body ret_dpdk (Some param) m (threads_step slave_main_start begins) serve (List.map int ns) n_avail s =
      do { (ret, s2) \<leftarrow> serve \<lparr>g_controller_ip = server_ip param, g_controller_port = server_port param\<rparr> s1; Some (ret, True, s2) }"
proof -
  define s0 where "s0 = s\<lparr>g_startup_param := param, g_main_lcore_id := m\<rparr>"
  have s0: "wf_dims s0" "\<forall>l\<in>set ns. l < length (g_core_info s0)" "length (g_core_info s0) = length (g_core_info s)"
    using dims ns by (simp_all add: s0_def wf_dims_def)
  obtain i where i: "vf_init (List.map int ns) n_avail s0 = Some (SPP_RET_OK, i)" "mng_ok i" "wf_ports i"
      "length (g_core_info i) = length (g_core_info s)" "g_startup_param i = param" "g_main_lcore_id i = m"
      "\<And>j. j < length (g_core_info s) \<Longrightarrow> status (g_core_info i ! j) = (if j \<in> set ns then SPP_CORE_STOP else SPP_CORE_UNUSE)"
      "\<forall>c\<in>set (g_component_info i). \<not> used c"
    using init_mng_ok [OF s0(1,2) dev(1)] unfolding s0(3) by (auto simp: s0_def)
  have ni: "\<forall>l\<in>set ns. l < length (g_core_info i)" "g_main_lcore_id i < length (g_core_info i)" using ns m(1) i(4,6) by simp_all
  obtain s1 where run: "vf_start_workers (threads_step slave_main_start begins) (List.map int ns) i = Some (SPP_RET_OK, s1)"
    and s1: "s1 = (let f = (\<lambda>j. if j \<in> set ns then SPP_CORE_FORWARD else if j = m then SPP_CORE_IDLE else status (g_core_info i ! j));
         t = statuses f i
     in t\<lparr>g_backup_info := \<lparr>bk_core = g_core_info t, bk_component = g_component_info i, bk_interface = g_iface_info i\<rparr>,
       g_change_core := replicate (length (g_change_core i)) 0, g_change_component := replicate (length (g_change_component i)) 0\<rparr>)"
    using workers_started [OF i(2) ni begins] unfolding i(6) Let_def by blast
  define f where "f = (\<lambda>j. if j \<in> set ns then SPP_CORE_FORWARD else if j = m then SPP_CORE_IDLE else status (g_core_info i ! j))"
  have "mng_ok (statuses f i)" by (rule mng_ok_statuses [OF i(2)])
  then have "mng_ok s1" unfolding s1 f_def [symmetric] Let_def
    by (simp add: mng_ok_iff wf_dims_def statuses_def Let_def)
  moreover have "\<forall>j<length (g_core_info s1). status (g_core_info s1 ! j) =
      (if j \<in> set ns then SPP_CORE_FORWARD else if j = m then SPP_CORE_IDLE else SPP_CORE_UNUSE)"
    using i(4,7) by (simp add: s1 Let_def statuses_def)
  moreover have "wf_ports s1" using i(3) by (simp add: s1 Let_def statuses_def wf_ports_def)
  moreover have "g_startup_param s1 = param" "g_main_lcore_id s1 = m" "\<forall>c\<in>set (g_component_info s1). \<not> used c"
    using i(5,6,8) by (simp_all add: s1 Let_def statuses_def)
  moreover have "g_backup_info s1 = \<lparr>bk_core = g_core_info s1, bk_component = g_component_info s1, bk_interface = g_iface_info s1\<rparr>"
    by (simp add: s1 Let_def statuses_def)
  moreover have "set (g_change_core s1) \<subseteq> {0}" "set (g_change_component s1) \<subseteq> {0}"
    by (auto simp: s1 Let_def)
  ultimately have "vf_ready param m (set ns) s1" unfolding vf_ready_def by blast
  moreover have "length (g_core_info s1) = length (g_core_info s)" using i(4) by (simp add: s1 Let_def statuses_def)
  moreover have "vf_body ret_dpdk (Some param) m (threads_step slave_main_start begins) serve (List.map int ns) n_avail s =
      do { (ret, s2) \<leftarrow> serve \<lparr>g_controller_ip = server_ip param, g_controller_port = server_port param\<rparr> s1; Some (ret, True, s2) }"
    using dev(2,3) m(3) i(1) run
    by (simp add: vf_body_def vf_set_mng_data_addr_def s0_def [symmetric] spp_command_proc_init_def spp_command_conn_init_def strcpy_buf_def)
      (simp add: s0_def)?
  ultimately show ?thesis by blast
qed

lemma finalized:
  fixes s :: "('h, 'z) classifier_data_scheme"
  assumes ns: "\<forall>l\<in>set ns. l < length (g_core_info s)" and m: "m < length (g_core_info s)"
    and asked: "\<forall>l\<in>set ns. status (g_core_info s ! l) \<in> {SPP_CORE_STOP_REQUEST, SPP_CORE_STOP}"
    and ends: "\<forall>k. set (ends k) \<subseteq> set ns" "\<forall>l\<in>set ns. \<exists>k<SPP_CORE_STATUS_CHECK_MAX. l \<in> set (ends k)"
  shows "vf_finalize (threads_step (worker_end D H hz tsc w) ends) m (List.map int ns) s =
    Some (del_vhost_sockfile s (vhost (g_iface_info s)),
      statuses (\<lambda>j. if j \<in> set ns \<or> j = m then SPP_CORE_STOP else status (g_core_info s ! j)) s)"
proof -
  define f0 where "f0 = (\<lambda>j. status (g_core_info s ! j))(m := SPP_CORE_STOP)"
  have 1: "set_core_status (int m) SPP_CORE_STOP s = Some (statuses f0 s)"
    using statuses_set [OF m, of SPP_CORE_STOP "\<lambda>j. status (g_core_info s ! j)"] unfolding statuses_same f0_def .
  have 2: "check_core_status_wait (threads_step (worker_end D H hz tsc w) ends) (List.map int ns) SPP_CORE_STOP (statuses f0 s) =
      Some (SPP_RET_OK, statuses (\<lambda>j. if j \<in> set ns then SPP_CORE_STOP else f0 j) s)"
    unfolding check_core_status_wait_def
    by (rule wait_statuses [OF worker_ends _ ns ends(1)]) (use ends(2) asked in \<open>auto simp: f0_def SPP_CORE_STATUS_CHECK_MAX_def\<close>)
  have "(\<lambda>j. if j \<in> set ns then SPP_CORE_STOP else f0 j) =
      (\<lambda>j. if j \<in> set ns \<or> j = m then SPP_CORE_STOP else status (g_core_info s ! j))"
    by (rule ext) (simp add: f0_def)
  then show ?thesis using 1 2 by (simp add: vf_finalize_def) (simp add: statuses_def del_vhost_sockfile_def)
qed

text \<open>C10: main of spp_vf, from the options to the end.  When the workers begin before the fifth look, the
  loop of commands is entered in a state that satisfies the invariants of the commands: the tables
  are well-formed, no component is in use, the workers forward, the main thread is idle, and the backup
  equals the tables.  When the loop comes back with the workers asked to stop, and they end before the
  fifth look, main returns what the loop returned, every worker has stopped, and the socket files
  of the vhost interfaces in use are removed.\<close>
theorem vf_main_correct:
  fixes s :: "('h, 'z) classifier_data_scheme"
  assumes dims: "wf_dims s" and ns: "\<forall>l\<in>set ns. l < length (g_core_info s)"
    and m: "m < length (g_core_info s)" "m \<notin> set ns" "m \<noteq> 0xffffffff"
    and dev: "0 \<le> n_avail" "0 \<le> ret_dpdk" "length (server_ip param) < 128"
    and begins: "\<forall>k. set (begins k) \<subseteq> set ns" "\<forall>l\<in>set ns. \<exists>k<SPP_CORE_STATUS_CHECK_MAX. l \<in> set (begins k)"
    and ends: "\<forall>k. set (ends k) \<subseteq> set ns" "\<forall>l\<in>set ns. \<exists>k<SPP_CORE_STATUS_CHECK_MAX. l \<in> set (ends k)"
    and serve: "\<And>s1. vf_ready param m (set ns) s1 \<Longrightarrow> length (g_core_info s1) = length (g_core_info s) \<Longrightarrow>
      \<exists>ret s2. serve \<lparr>g_controller_ip = server_ip param, g_controller_port = server_port param\<rparr> s1 = Some (ret, s2) \<and>
        length (g_core_info s2) = length (g_core_info s) \<and>
        (\<forall>l\<in>set ns. status (g_core_info s2 ! l) \<in> {SPP_CORE_STOP_REQUEST, SPP_CORE_STOP})"
  shows "\<exists>s1 ret s2. vf_ready param m (set ns) s1 \<and>
    serve \<lparr>g_controller_ip = server_ip param, g_controller_port = server_port param\<rparr> s1 = Some (ret, s2) \<and>
    length (g_core_info s2) = length (g_core_info s) \<and>
    vf_main ret_dpdk (Some param) m (threads_step slave_main_start begins) (threads_step (worker_end D H hz tsc w) ends)
        serve (List.map int ns) n_avail s =
      Some (ret, del_vhost_sockfile s2 (vhost (g_iface_info s2)),
        statuses (\<lambda>j. if j \<in> set ns \<or> j = m then SPP_CORE_STOP else status (g_core_info s2 ! j)) s2)"
proof -
  obtain s1 where s1: "vf_ready param m (set ns) s1" "length (g_core_info s1) = length (g_core_info s)"
    and body: "vf_body ret_dpdk (Some param) m (threads_step slave_main_start begins) serve (List.map int ns) n_avail s =
      do { (ret, s2) \<leftarrow> serve \<lparr>g_controller_ip = server_ip param, g_controller_port = server_port param\<rparr> s1; Some (ret, True, s2) }"
    using ready_body [OF dims ns m dev begins] by blast
  obtain ret s2 where s2: "serve \<lparr>g_controller_ip = server_ip param, g_controller_port = server_port param\<rparr> s1 = Some (ret, s2)"
      "length (g_core_info s2) = length (g_core_info s)"
      "\<forall>l\<in>set ns. status (g_core_info s2 ! l) \<in> {SPP_CORE_STOP_REQUEST, SPP_CORE_STOP}"
    using serve [OF s1] by blast
  have "\<forall>l\<in>set ns. l < length (g_core_info s2)" "m < length (g_core_info s2)" using ns m(1) s2(2) by simp_all
  note fin = finalized [OF this s2(3) ends]
  show ?thesis using s1(1) s2(1,2) by (intro exI [of _ s1] exI [of _ ret] exI [of _ s2]) (simp add: vf_main_def body fin)
qed

end
