(* ===== verification/Demo_Start.thy ===== *)
theory Demo_Start
  imports Demo Vf_Start
begin

text \<open>
  The witness of the theorem about main of spp_vf: the process of Demo with its one worker begins in
  the third wait, is ended by SIGTERM, and its worker ends in the second wait.
\<close>

definition demo_param :: startup_param where
  "demo_param = \<lparr>client_id = 1, server_ip = ''127.0.0.1'', server_port = 6666, vhost_client = 0,
     secondary_type = SECONDARY_TYPE_VF\<rparr>"

definition demo_at :: "nat \<Rightarrow> nat \<Rightarrow> nat list" where
  "demo_at turn k = (if k = turn then [1] else [])"

text \<open>The loop of commands, in which the signal arrives.\<close>

definition demo_serve :: "conn_data \<Rightarrow> assoc classifier_data \<Rightarrow> (int \<times> assoc classifier_data) option" where
  "demo_serve c s = map_option (Pair SPP_RET_OK) (stop_process [1] SIGTERM s)"

lemma demo_signal:
  assumes "vf_ready demo_param 0 {1} s" and "length (g_core_info s) = 2"
  shows "demo_serve c s = Some (SPP_RET_OK, statuses (\<lambda>_. SPP_CORE_STOP_REQUEST) s)"
proof -
  let ?f = "\<lambda>j. status (g_core_info s ! j)"
  have l: "0 < length (g_core_info s)" "\<forall>l\<in>set [1]. l < length (g_core_info s)" using assms(2) by simp_all
  have "set_core_status (int 0) SPP_CORE_STOP_REQUEST s = Some (statuses (?f(0 := SPP_CORE_STOP_REQUEST)) s)"
    using statuses_set [OF l(1), of SPP_CORE_STOP_REQUEST ?f] unfolding statuses_same .
  moreover have "set_all_core_status (List.map int [1]) SPP_CORE_STOP_REQUEST (statuses (?f(0 := SPP_CORE_STOP_REQUEST)) s) =
      Some (statuses (\<lambda>j. if j \<in> set [1] then SPP_CORE_STOP_REQUEST else (?f(0 := SPP_CORE_STOP_REQUEST)) j) s)"
    by (rule statuses_set_all [OF l(2)])
  moreover have "statuses (\<lambda>j. if j \<in> set [1] then SPP_CORE_STOP_REQUEST else (?f(0 := SPP_CORE_STOP_REQUEST)) j) s =
      statuses (\<lambda>_. SPP_CORE_STOP_REQUEST) s"
    unfolding statuses_def assms(2) by (simp add: upt_rec numeral_2_eq_2)
  ultimately show ?thesis using assms(1) by (simp add: demo_serve_def stop_process_def vf_ready_def SIGTERM_def)
qed

lemma vf_main_correct_witness:
  "\<exists>files s'. vf_main 4 (Some demo_param) 0 (threads_step slave_main_start (demo_at 2))
      (threads_step (worker_end demo_dpdk demo_hash 1000 0 demo_world) (demo_at 1)) demo_serve [1] 1 demo =
    Some (SPP_RET_OK, files, s') \<and> status (g_core_info s' ! 1) = SPP_CORE_STOP"
proof -
  let ?conn = "\<lparr>g_controller_ip = server_ip demo_param, g_controller_port = server_port demo_param\<rparr>"
  have g: "length (g_core_info demo) = 2" by (simp add: demo_def demo_manage_def)
  have dims: "wf_dims demo" by (simp add: wf_dims_def demo_def demo_manage_def demo_iface_def)
  have ns: "\<forall>l\<in>set [1]. l < length (g_core_info demo)" and m: "0 < length (g_core_info demo)" by (simp_all add: g)
  have at: "\<forall>k. set (demo_at n k) \<subseteq> set [1]" "n < 5 \<Longrightarrow> \<forall>l\<in>set [1]. \<exists>k<SPP_CORE_STATUS_CHECK_MAX. l \<in> set (demo_at n k)" for n
    by (auto simp: demo_at_def SPP_CORE_STATUS_CHECK_MAX_def)
  have serve: "\<exists>ret s2. demo_serve ?conn s1 = Some (ret, s2) \<and> length (g_core_info s2) = length (g_core_info demo) \<and>
      (\<forall>l\<in>set [1]. status (g_core_info s2 ! l) \<in> {SPP_CORE_STOP_REQUEST, SPP_CORE_STOP})"
    if "vf_ready demo_param 0 (set [1]) s1" "length (g_core_info s1) = length (g_core_info demo)" for s1
    using that demo_signal [of s1 ?conn] by (simp add: g statuses_def)
  have "\<exists>s1 ret s2. vf_ready demo_param 0 (set [1]) s1 \<and> demo_serve ?conn s1 = Some (ret, s2) \<and>
      length (g_core_info s2) = length (g_core_info demo) \<and>
      vf_main 4 (Some demo_param) 0 (threads_step slave_main_start (demo_at 2))
        (threads_step (worker_end demo_dpdk demo_hash 1000 0 demo_world) (demo_at 1)) demo_serve (List.map int [1]) 1 demo =
      Some (ret, del_vhost_sockfile s2 (vhost (g_iface_info s2)),
        statuses (\<lambda>j. if j \<in> set [1] \<or> j = 0 then SPP_CORE_STOP else status (g_core_info s2 ! j)) s2)"
  proof (rule vf_main_correct [OF dims ns m _ _ _ _ _ at(1) at(2) at(1) at(2)])
    fix s1 :: "assoc classifier_data"
    assume "vf_ready demo_param 0 (set [1]) s1" "length (g_core_info s1) = length (g_core_info demo)"
    then show "\<exists>ret s2. demo_serve ?conn s1 = Some (ret, s2) \<and> length (g_core_info s2) = length (g_core_info demo) \<and>
        (\<forall>l\<in>set [1]. status (g_core_info s2 ! l) \<in> {SPP_CORE_STOP_REQUEST, SPP_CORE_STOP})"
      by (rule serve)
  qed (simp_all add: demo_param_def)
  then obtain s1 ret s2 where r: "vf_ready demo_param 0 (set [1]) s1" "demo_serve ?conn s1 = Some (ret, s2)"
      "length (g_core_info s2) = 2"
      "vf_main 4 (Some demo_param) 0 (threads_step slave_main_start (demo_at 2))
        (threads_step (worker_end demo_dpdk demo_hash 1000 0 demo_world) (demo_at 1)) demo_serve (List.map int [1]) 1 demo =
      Some (ret, del_vhost_sockfile s2 (vhost (g_iface_info s2)),
        statuses (\<lambda>j. if j \<in> set [1] \<or> j = 0 then SPP_CORE_STOP else status (g_core_info s2 ! j)) s2)"
    unfolding g by blast
  have "ret = SPP_RET_OK" using r(2) by (auto simp: demo_serve_def)
  moreover have "status (g_core_info (statuses f s2) ! 1) = f 1" for f using r(3) by (simp add: statuses_def)
  moreover have "List.map int [1] = [1]" by simp
  ultimately show ?thesis using r(4) by simp
qed

end
