(* ===== verification/Mac_Text.thy ===== *)
theory Mac_Text
  imports Spp_Proc
begin

text \<open>
  spp_change_mac_str_to_int64 of vf/common/spp_proc.c against a printer of MAC addresses:
  the number is the address read as a little-endian integer, the way the classifier reads
  the destination address of a frame from memory.
\<close>

section \<open>Printing MAC addresses\<close>

definition hex_char :: "nat \<Rightarrow> char" where
  "hex_char n = (if n < 10 then digit_char n else chr_of (87 + n))"

definition hex2 :: "nat \<Rightarrow> string" where
  "hex2 b = [hex_char (b div 16), hex_char (b mod 16)]"

fun mac_text :: "nat list \<Rightarrow> string" where
  "mac_text [] = []"
| "mac_text [b] = hex2 b"
| "mac_text (b # bs) = hex2 b @ CHR '':'' # mac_text bs"

fun mac_value :: "nat list \<Rightarrow> int" where
  "mac_value [] = 0"
| "mac_value (b # bs) = int b + 256 * mac_value bs"

lemma ord_chr: "n < 128 \<Longrightarrow> ord_of (chr_of n) = n"
  by (simp add: ord_of_def chr_of_def)

lemma hex_char_facts:
  assumes "n < 16"
  shows "digit_val (hex_char n) = n" "\<not> is_space (hex_char n)" "is_digit 16 (hex_char n)"
    "hex_char n \<noteq> CHR ''-''" "hex_char n \<noteq> CHR ''+''" "hex_char n \<noteq> CHR '':''"
proof -
  have o: "ord_of (hex_char n) = (if n < 10 then 48 + n else 87 + n)"
    using assms by (simp add: hex_char_def ord_digit_char ord_chr)
  then show "digit_val (hex_char n) = n" using assms by (auto simp: digit_val_def Let_def)
  then show "is_digit 16 (hex_char n)" using assms by (simp add: is_digit_def)
  show "\<not> is_space (hex_char n)" using o assms by (auto simp: is_space_def)
  show "hex_char n \<noteq> CHR ''-''" "hex_char n \<noteq> CHR ''+''" "hex_char n \<noteq> CHR '':''"
    using o assms by (auto simp: ord_of_def split: if_splits)
qed

lemma strtol_hex2:
  assumes "b < 256"
  shows "strtol 16 (hex2 b) = (int b, [])"
proof -
  have d: "b div 16 < 16" "b mod 16 < 16" using assms by auto
  have "b div 16 * 16 + b mod 16 = b" by simp
  then show ?thesis
    using hex_char_facts [OF d(1)] hex_char_facts [OF d(2)] assms
    by (simp add: strtol_def scan_number_def hex2_def split_sign_def split_base_def hex_prefix_def
        digits_val_def Let_def LONG_MAX_def)
qed

lemma hex2_no_colon: "b < 256 \<Longrightarrow> \<forall>c\<in>set (hex2 b). \<not> c = CHR '':''"
  using hex_char_facts(6) [of "b div 16"] hex_char_facts(6) [of "b mod 16"] by (auto simp: hex2_def)

lemma hex2_nonempty: "hex2 b \<noteq> []"
  by (simp add: hex2_def)

lemma tokens_mac_text:
  "\<forall>b\<in>set bs. b < 256 \<Longrightarrow> tokens (\<lambda>c. c = CHR '':'') (mac_text bs) = List.map hex2 bs"
proof (induction bs rule: mac_text.induct)
  case (2 b)
  then show ?case using tokens_single [OF hex2_nonempty hex2_no_colon] by simp
next
  case (3 b b' bs)
  then show ?case using tokens_app [OF hex2_nonempty hex2_no_colon] by simp
qed simp

lemma mac_value_bounds:
  "\<forall>b\<in>set bs. b < 256 \<Longrightarrow> 0 \<le> mac_value bs \<and> mac_value bs < 256 ^ length bs"
  by (induction bs) auto

text \<open>One more byte above the bytes collected so far.\<close>

lemma or_shifted_byte:
  fixes acc :: "64 word"
  assumes "uint acc < 2 ^ n" and "n \<le> 40" and "b < 256"
  shows "uint (or acc (push_bit n (word_of_int (int b)))) = uint acc + int b * 2 ^ n"
    and "uint acc + int b * 2 ^ n < 2 ^ (n + 8)"
proof -
  have b: "uint (word_of_int (int b) :: 64 word) = int b"
    using assms(3) by (simp add: unsigned_of_nat take_bit_nat_eq_self)
  have le: "int b * 2 ^ n + 2 ^ n \<le> 2 ^ (n + 8)"
  proof -
    have "(int b + 1) * 2 ^ n \<le> 256 * 2 ^ n" using assms(3) by (intro mult_right_mono) auto
    then show ?thesis by (simp add: algebra_simps power_add)
  qed
  then show lt: "uint acc + int b * 2 ^ n < 2 ^ (n + 8)" using assms(1) by linarith
  have "(2::int) ^ (n + 8) \<le> 2 ^ 48" using assms(2) by (intro power_increasing) auto
  moreover have "(0::int) < 2 ^ n" "(2::int) ^ 48 < 2 ^ 64" by simp_all
  ultimately have "int b * 2 ^ n < 2 ^ 64" using le by linarith
  then have p: "uint (push_bit n (word_of_int (int b) :: 64 word)) = push_bit n (int b)"
    unfolding unsigned_push_bit_eq b by (simp add: push_bit_eq_mult take_bit_int_eq_self)
  have "uint (or acc (push_bit n (word_of_int (int b)))) = or (uint acc) (push_bit n (int b))"
    unfolding unsigned_or_eq p by (rule refl)
  also have "\<dots> = uint acc + push_bit n (int b)"
  proof (rule disjunctive_add [symmetric])
    fix m
    have "take_bit n (uint acc) = uint acc"
      using assms(1) by (simp add: take_bit_int_eq_self)
    then have "bit (uint acc) m \<Longrightarrow> m < n" by (metis bit_take_bit_iff)
    then show "\<not> bit (uint acc) m \<or> \<not> bit (push_bit n (int b)) m" by (auto simp: bit_push_bit_iff)
  qed
  finally show "uint (or acc (push_bit n (word_of_int (int b)))) = uint acc + int b * 2 ^ n"
    by (simp add: push_bit_eq_mult)
qed

section \<open>The value of an address\<close>

lemma mac_tokens_step:
  assumes "b < 256" and "k < ETHER_ADDR_LEN"
  shows "mac_tokens (hex2 b # toks) k acc =
    mac_tokens toks (Suc k) (or acc (push_bit (k * 8) (word_of_int (int b))))"
  using assms by (simp add: strtol_hex2 hex2_nonempty)

lemma mac_tokens_value:
  assumes "\<forall>b\<in>set bs. b < 256" and "length bs + k \<le> ETHER_ADDR_LEN" and "uint acc < 2 ^ (8 * k)"
  shows "\<exists>acc'. mac_tokens (List.map hex2 bs @ toks) k acc = mac_tokens toks (k + length bs) acc' \<and>
    uint acc' = uint acc + mac_value bs * 2 ^ (8 * k)"
  using assms
proof (induction bs arbitrary: k acc)
  case (Cons b bs)
  define acc1 where "acc1 = or acc (push_bit (k * 8) (word_of_int (int b) :: 64 word))"
  have k: "k < ETHER_ADDR_LEN" using Cons.prems by simp
  then have k5: "8 * k \<le> 40" by (simp add: ETHER_ADDR_LEN_def)
  have b: "b < 256" using Cons.prems by simp
  have u: "uint acc1 = uint acc + int b * 2 ^ (8 * k)" "uint acc1 < 2 ^ (8 * Suc k)"
    using or_shifted_byte [OF Cons.prems(3) k5 b] by (simp_all add: acc1_def mult.commute add.commute)
  obtain acc' where a: "mac_tokens (List.map hex2 bs @ toks) (Suc k) acc1 = mac_tokens toks (Suc k + length bs) acc'"
      "uint acc' = uint acc1 + mac_value bs * 2 ^ (8 * Suc k)"
    using Cons.IH [of "Suc k" acc1] Cons.prems u(2) by auto
  have "mac_tokens (List.map hex2 (b # bs) @ toks) k acc = mac_tokens (List.map hex2 bs @ toks) (Suc k) acc1"
    using mac_tokens_step [OF b k] by (simp add: acc1_def del: mac_tokens.simps)
  moreover have "uint acc' = uint acc + mac_value (b # bs) * 2 ^ (8 * k)"
    using a(2) u(1) by (simp add: algebra_simps power_add)
  ultimately show ?case using a(1) by (auto simp del: mac_tokens.simps)
qed auto

lemma sint_small: "uint (w :: 64 word) < 2 ^ 63 \<Longrightarrow> sint w = uint w"
proof -
  assume lt: "uint w < 2 ^ 63"
  have "- (2 ^ 63) \<le> uint w" by (rule order_trans [of _ 0]) simp_all
  then have "signed_take_bit 63 (uint w) = uint w"
    by (rule signed_take_bit_int_eq_self [OF _ lt])
  then show ?thesis by (simp add: sint_uint)
qed

lemma mac_text_length: "\<forall>b\<in>set bs. b < 256 \<Longrightarrow> length (mac_text bs) \<le> 3 * length bs"
  by (induction bs rule: mac_text.induct) (auto simp: hex2_def)

text \<open>The text of a MAC address of six bytes is converted to the little-endian integer of
  those bytes, a value below 2 ^ 48.\<close>
theorem mac_str_value:
  assumes "length bs = ETHER_ADDR_LEN" and "\<forall>b\<in>set bs. b < 256"
  shows "spp_change_mac_str_to_int64 (mac_text bs) = Some (mac_value bs) \<and>
    0 \<le> mac_value bs \<and> mac_value bs < 2 ^ 48"
proof -
  have bnd: "0 \<le> mac_value bs" "mac_value bs < 2 ^ 48"
    using mac_value_bounds [OF assms(2)] assms(1) by (auto simp: ETHER_ADDR_LEN_def)
  obtain acc' where "mac_tokens (List.map hex2 bs @ []) 0 0 = mac_tokens [] (0 + length bs) acc'"
      "uint acc' = uint (0 :: 64 word) + mac_value bs * 2 ^ (8 * 0)"
    using mac_tokens_value [OF assms(2), of 0 0 "[]"] assms(1) by auto
  then have "mac_tokens (List.map hex2 bs) 0 0 = mac_value bs"
    using bnd by (simp add: sint_small)
  moreover have "length (mac_text bs) < SPP_MIN_STR_LEN"
    using mac_text_length [OF assms(2)] assms(1) by (simp add: SPP_MIN_STR_LEN_def ETHER_ADDR_LEN_def)
  ultimately show ?thesis
    using bnd by (simp add: spp_change_mac_str_to_int64_def strcpy_buf_def tokens_mac_text [OF assms(2)])
qed

lemma mac_str_value_witness:
  "spp_change_mac_str_to_int64 (mac_text [1, 0, 0, 0, 0, 2]) = Some 0x020000000001"
  using mac_str_value [of "[1, 0, 0, 0, 0, 2]"] by (simp add: ETHER_ADDR_LEN_def)

text \<open>A malformed token does not make the conversion fail: when fewer than six well-formed
  bytes are followed by a token that does not start a hexadecimal number, the value of the
  bytes read so far is returned, a non-negative number that its callers take for success.\<close>
theorem mac_str_malformed_accepted:
  assumes "length bs < ETHER_ADDR_LEN" and "\<forall>b\<in>set bs. b < 256" and "bs \<noteq> []"
    and "length bad \<le> 8" and "\<forall>c\<in>set bad. c \<noteq> CHR '':'' \<and> \<not> is_digit 16 c \<and> \<not> is_space c"
    and "bad \<noteq> []" and "hd bad \<noteq> CHR ''-''" and "hd bad \<noteq> CHR ''+''"
  shows "spp_change_mac_str_to_int64 (mac_text bs @ CHR '':'' # bad) = Some (mac_value bs) \<and>
    0 \<le> mac_value bs"
proof -
  obtain c cs where bad: "bad = c # cs" using assms(6) by (cases bad) auto
  have tokbad: "tokens (\<lambda>c. c = CHR '':'') bad = [bad]"
    using assms by (intro tokens_single) auto
  have toks: "tokens (\<lambda>c. c = CHR '':'') (mac_text bs @ CHR '':'' # bad) = List.map hex2 bs @ [bad]"
    using assms(2,3)
  proof (induction bs rule: mac_text.induct)
    case (2 b)
    then show ?case using tokens_app [OF hex2_nonempty hex2_no_colon] tokbad by simp
  next
    case (3 b b' bs)
    then show ?case using tokens_app [OF hex2_nonempty hex2_no_colon] by simp
  qed simp
  have bnd: "0 \<le> mac_value bs" "mac_value bs < 256 ^ length bs"
    using mac_value_bounds [OF assms(2)] by auto
  have "(256::int) ^ length bs \<le> 256 ^ 5"
    using assms(1) by (intro power_increasing) (auto simp: ETHER_ADDR_LEN_def)
  then have small: "mac_value bs < 2 ^ 63" using bnd(2) by simp
  have scan: "strtol 16 bad = (0, bad)"
    using assms(5,7,8) bad
    by (auto simp: strtol_def scan_number_def split_sign_def split_base_def hex_prefix_def Let_def
        LONG_MAX_def is_digit_def digit_val_def ord_of_def split: list.splits)
  obtain acc' where "mac_tokens (List.map hex2 bs @ [bad]) 0 0 = mac_tokens [bad] (0 + length bs) acc'"
      "uint acc' = uint (0 :: 64 word) + mac_value bs * 2 ^ (8 * 0)"
    using mac_tokens_value [OF assms(2), of 0 0 "[bad]"] assms(1) by auto
  then have "mac_tokens (List.map hex2 bs @ [bad]) 0 0 = mac_value bs"
    using scan assms(1) bnd small by (simp add: sint_small)
  moreover have "length (mac_text bs @ CHR '':'' # bad) < SPP_MIN_STR_LEN"
    using mac_text_length [OF assms(2)] assms(1,4) by (simp add: SPP_MIN_STR_LEN_def ETHER_ADDR_LEN_def)
  ultimately show ?thesis
    using bnd by (simp add: spp_change_mac_str_to_int64_def strcpy_buf_def toks)
qed

lemma mac_str_malformed_accepted_witness:
  "spp_change_mac_str_to_int64 (mac_text [18, 52] @ CHR '':'' # ''zz'') = Some 0x3412"
  using mac_str_malformed_accepted [of "[18, 52]" "''zz''"]
  by (simp add: ETHER_ADDR_LEN_def is_digit_def digit_val_def is_space_def ord_of_def)

end
