(* ===== verification/Demo_Commands.thy ===== *)
theory Demo_Commands
  imports Demo Command_Request Mac_Text Command_Keep
begin

text \<open>
  The witnesses of the theorems about commands, on a process with three cores, of which the
  first is the idle main core, and one forwarder on the second that receives from a NIC.
\<close>

definition cmd_port :: "port_type \<Rightarrow> int \<Rightarrow> int \<Rightarrow> spp_port_info" where
  "cmd_port t n d = (demo_port t n d)\<lparr>class_id := zero_class_id\<lparr>vlantag := zero_vlantag\<lparr>vid := ETH_VLAN_ID_MAX\<rparr>\<rparr>\<rparr>"

definition cmd_component :: spp_component_info where
  "cmd_component = \<lparr>name = ''fw1'', comp_type = SPP_COMPONENT_FORWARD, lcore_id = 1, component_id = 0,
     num_rx_port = 1, num_tx_port = 0, rx_ports = [Some (PHY, 0), None], tx_ports = [None, None]\<rparr>"

definition cmd_core :: "spp_core_status \<Rightarrow> int \<Rightarrow> core_mng_info" where
  "cmd_core st n = \<lparr>status = st, ref_index = 0, upd_index = 1,
     core = [\<lparr>num = n, core_ids = [0, 0, 0]\<rparr>, \<lparr>num = n, core_ids = [0, 0, 0]\<rparr>]\<rparr>"

definition cmd_state :: "assoc classifier_data" where
  "cmd_state = demo\<lparr>
     g_iface_info := \<lparr>num_nic = 2, num_vhost = 0, num_ring = 0,
       nic = [cmd_port PHY 0 0, cmd_port PHY 1 1],
       vhost = [cmd_port UNDEF 0 (- 1), cmd_port UNDEF 1 (- 1)],
       ring = [cmd_port UNDEF 0 (- 1), cmd_port UNDEF 1 (- 1)]\<rparr>,
     g_component_info := [cmd_component, zero_component 2, zero_component 2],
     g_core_info := [cmd_core SPP_CORE_IDLE 0, cmd_core SPP_CORE_FORWARD 1, cmd_core SPP_CORE_FORWARD 0],
     g_change_core := [0, 0, 0], g_change_component := [0, 0, 0]\<rparr>"

lemma cmd_fields:
  "g_component_info cmd_state = [cmd_component, zero_component 2, zero_component 2]"
  "g_core_info cmd_state = [cmd_core SPP_CORE_IDLE 0, cmd_core SPP_CORE_FORWARD 1, cmd_core SPP_CORE_FORWARD 0]"
  "g_change_core cmd_state = [0, 0, 0]" "g_change_component cmd_state = [0, 0, 0]"
  "g_iface_info cmd_state = \<lparr>num_nic = 2, num_vhost = 0, num_ring = 0,
       nic = [cmd_port PHY 0 0, cmd_port PHY 1 1],
       vhost = [cmd_port UNDEF 0 (- 1), cmd_port UNDEF 1 (- 1)],
       ring = [cmd_port UNDEF 0 (- 1), cmd_port UNDEF 1 (- 1)]\<rparr>"
  by (simp_all add: cmd_state_def)

lemma cmd_port_fields:
  "iface_type (cmd_port t n d) = t" "iface_no (cmd_port t n d) = n" "dpdk_port (cmd_port t n d) = d"
  "length (ability (cmd_port t n d)) = SPP_PORT_ABILITY_MAX"
  "class_id (cmd_port t n d) = zero_class_id\<lparr>vlantag := zero_vlantag\<lparr>vid := ETH_VLAN_ID_MAX\<rparr>\<rparr>"
  by (simp_all add: cmd_port_def demo_port_def zero_port_def)

lemma on_core_append: "on_core (cs @ [c]) k = on_core cs k \<union> (if used c \<and> lcore_id c = k then {int (length cs)} else {})"
  by (auto simp: on_core_def nth_append less_Suc_eq)

lemma cmd_on_core:
  "on_core (g_component_info cmd_state) 0 = {}" "on_core (g_component_info cmd_state) 1 = {0}"
  "on_core (g_component_info cmd_state) 2 = {}"
  using on_core_append [of "[]" cmd_component] on_core_append [of "[cmd_component]" "zero_component 2"]
    on_core_append [of "[cmd_component, zero_component 2]" "zero_component 2"]
  by (simp_all add: cmd_fields on_core_def cmd_component_def zero_component_def used_def)

lemma cmd_ok: "mng_ok cmd_state"
  unfolding mng_ok_iff
proof (intro conjI)
  show "wf_dims cmd_state" by (simp add: wf_dims_def cmd_fields)
  show "wf_iface (g_iface_info cmd_state)" by (simp add: wf_iface_def cmd_fields cmd_port_fields)
  show "\<forall>c\<in>set (g_core_info cmd_state). wf_core (length (g_core_info cmd_state)) c"
    by (auto simp: cmd_fields wf_core_def cmd_core_def wf_core_info_def SPP_INFO_AREA_MAX_def)
  show "\<forall>i<length (g_component_info cmd_state). wf_comp (length (nic (g_iface_info cmd_state))) (int i) (g_component_info cmd_state ! i)"
    by (auto simp: cmd_fields wf_comp_def cmd_component_def zero_component_def ptr_in_def less_Suc_eq)
  show "names_ok (g_component_info cmd_state)"
    by (auto simp: cmd_fields names_ok_def cmd_component_def zero_component_def used_def less_Suc_eq)
  show "assigned_ok (g_component_info cmd_state) (g_core_info cmd_state)"
    unfolding assigned_ok_def
  proof (intro conjI ballI allI impI)
    fix k assume "k < length (g_core_info cmd_state)"
    then have "k = 0 \<or> k = 1 \<or> k = 2" by (auto simp: cmd_fields)
    then show "distinct (in_table (upd_core (g_core_info cmd_state ! k)))"
      "set (in_table (upd_core (g_core_info cmd_state ! k))) = on_core (g_component_info cmd_state) (int k)"
      using cmd_on_core by (auto simp: cmd_fields cmd_core_def in_table_def upd_core_def)
  qed (auto simp: cmd_fields cmd_component_def zero_component_def used_def)
  show "\<forall>c\<in>set (g_component_info cmd_state). port_limits c \<and> tables_distinct c"
    by (auto simp: cmd_fields cmd_component_def zero_component_def port_limits_def tables_distinct_def)
qed

lemma cmd_wf: "wf_mng cmd_state"
  using cmd_ok by (simp add: mng_ok_def)

lemma cmd_ids:
  "spp_get_component_id cmd_state ''fw1'' = 0" "spp_get_component_id cmd_state ''fw9'' = - 1"
  "spp_get_component_id cmd_state (replicate 40 CHR ''a'') = - 1" "get_free_component cmd_state = 1"
  by (simp_all add: spp_get_component_id_def get_free_component_def first_component_def cmd_fields cmd_component_def
      zero_component_def numeral_eq_Suc)

section \<open>Decoding\<close>

definition no_error :: spp_command_decode_error where
  "no_error = \<lparr>de_code = 0, de_value_name = [], de_value = []\<rparr>"


lemma decoded_command_in_range_witness:
  "\<exists>k. command_inv SECONDARY_TYPE_VF cmd_state k (request_command (Component_Stop ''fw1''))"
proof -
  have "request_ok SECONDARY_TYPE_VF cmd_state (Component_Stop ''fw1'')"
    by (simp add: name_ok_def SPP_CMD_NAME_BUFSZ_def)
  from decode_request_line [OF cmd_wf this]
  have "spp_command_decode_request SECONDARY_TYPE_VF cmd_state zero_request (join (request_words (Component_Stop ''fw1''))) err =
      Some (SPP_RET_OK, decoded_request (request_command (Component_Stop ''fw1'')), err)" for err .
  from decoded_command_in_range [OF this] show ?thesis
    by (simp add: decoded_request_def zero_request_def SPP_CMD_MAX_COMMANDS_def)
qed

lemma component_name_overflow_witness:
  "spp_command_decode_request SECONDARY_TYPE_VF cmd_state zero_request
     (join [''component'', ''start'', replicate 40 CHR ''a'']) no_error = None"
  using component_name_overflow [of "replicate 40 CHR ''a''" cmd_state SPP_CMD_ACTION_START SECONDARY_TYPE_VF no_error] cmd_ids(3)
  by (simp add: word_ok_def SPP_CMD_VALUE_BUFSZ_def SPP_CMD_NAME_BUFSZ_def)

section \<open>Components\<close>


lemma component_stop_correct_witness:
  "\<exists>s'. spp_update_component SPP_CMD_ACTION_STOP ''fw1'' 0 SPP_COMPONENT_UNUSE cmd_state = Some (SPP_RET_OK, s') \<and>
    mng_ok s' \<and> spp_get_component_id s' ''fw1'' < 0"
  using component_stop_correct [OF cmd_ok, of "''fw1''" 0 SPP_COMPONENT_UNUSE] cmd_ids(1) by auto

section \<open>Ports\<close>


lemma cmd_target:
  "port_target cmd_state ''fw1'' \<lparr>pi_iface_type = PHY, pi_iface_no = 0\<rparr> 0 (Some (PHY, 0))"
  "port_target cmd_state ''fw1'' \<lparr>pi_iface_type = PHY, pi_iface_no = 1\<rparr> 0 (Some (PHY, 1))"
  using cmd_ids(1)
  by (simp_all add: port_target_def cmd_fields get_iface_info_def ptr_in_def used_def cmd_component_def)

lemma port_add_correct_witness:
  "\<exists>ret s'. spp_update_port SPP_CMD_ACTION_ADD \<lparr>pi_iface_type = PHY, pi_iface_no = 1\<rparr> SPP_PORT_RXTX_TX ''fw1'' zero_ability cmd_state =
     Some (ret, s') \<and> mng_ok s'"
  using port_add_correct [OF cmd_ok cmd_target(2), of SPP_PORT_RXTX_TX zero_ability] by auto


lemma vlan_tag_update_refused_witness:
  "spp_update_port SPP_CMD_ACTION_ADD \<lparr>pi_iface_type = PHY, pi_iface_no = 0\<rparr> SPP_PORT_RXTX_RX ''fw1'' zero_ability cmd_state =
     Some (SPP_RET_NG, cmd_state)"
  by (rule vlan_tag_update_refused [OF cmd_ok cmd_target(1)])
    (simp_all add: cmd_fields cmd_component_def port_table_def port_table_of_def)

lemma port_del_correct_witness:
  "\<exists>s'. spp_update_port SPP_CMD_ACTION_DEL \<lparr>pi_iface_type = PHY, pi_iface_no = 0\<rparr> SPP_PORT_RXTX_RX ''fw1'' zero_ability cmd_state =
     Some (SPP_RET_OK, s') \<and> mng_ok s' \<and> port_table SPP_PORT_RXTX_RX (g_component_info s' ! 0) = []"
proof -
  have "set (port_table SPP_PORT_RXTX_RX (g_component_info cmd_state ! 0)) = {Some (PHY, 0)}"
    by (simp add: cmd_fields cmd_component_def port_table_def port_table_of_def)
  then show ?thesis using port_del_correct [OF cmd_ok cmd_target(1), of SPP_PORT_RXTX_RX zero_ability] by auto
qed

lemma classifier_entry_round_trip_witness:
  "\<exists>s1. spp_update_classifier_table SPP_CMD_ACTION_ADD 100 ''00:11:22:33:44:55'' \<lparr>pi_iface_type = PHY, pi_iface_no = 1\<rparr> cmd_state =
     Some (SPP_RET_OK, s1) \<and> mng_ok s1"
proof -
  have p: "ptr_in (length (nic (g_iface_info cmd_state))) (Some (PHY, 1))"
    "load_port cmd_state (Some (PHY, 1)) = Some (cmd_port PHY 1 1)"
    by (simp_all add: ptr_in_def cmd_fields load_port_def rd_def)
  have m: "spp_change_mac_str_to_int64 ''00:11:22:33:44:55'' = Some 93751404007680" by code_simp
  show ?thesis
    using classifier_entry_round_trip [OF cmd_ok p cmd_port_fields(1,2,5) m, of 100] by auto
qed

section \<open>Requests\<close>

lemma rejected_request_harmless_witness:
  "\<exists>req. process_request demo_ethdev demo_hash slave_look [1, 2] [] ''foo'' cmd_state [] =
     Some (SPP_RET_OK, Decode_Error_Response req (first_result CRES_FAILURE ''error'' ''bad value(command)''), [], cmd_state, [])"
proof -
  let ?e = "\<lparr>de_code = 0, de_value_name = [], de_value = []\<rparr> :: spp_command_decode_error"
  have w: "\<forall>w\<in>set [''foo'']. word_ok w" by (simp add: word_ok_def SPP_CMD_VALUE_BUFSZ_def)
  have d: "spp_command_decode_request SECONDARY_TYPE_VF cmd_state zero_request ''foo'' ?e =
      Some (5, zero_request\<lparr>num_command := 1\<rparr>, \<lparr>de_code = 5, de_value_name = ''command'', de_value = ''foo''\<rparr>)"
    using decode_words [OF w, of SECONDARY_TYPE_VF cmd_state "zero_request\<lparr>num_command := 1\<rparr>" ?e]
    by (simp add: spp_command_decode_request_def command_list_def SPP_CMD_MAX_PARAMETERS_def
        set_string_value_decode_error_def set_decode_error_def strcpy_buf_def SPP_CMD_NAME_BUFSZ_def SPP_CMD_VALUE_BUFSZ_def)
  show ?thesis using rejected_request_harmless [OF d, of demo_ethdev demo_hash slave_look "[1, 2]" "[]" "[]"] by auto
qed

lemma request_executed_witness:
  "process_request demo_ethdev demo_hash slave_look [1, 2] [] ''status'' cmd_state [] =
     Some (SPP_RET_OK, Command_Result_Response (decoded_request (request_command Get_Status))
       (first_result CRES_SUCCESS ''success'' []), [], cmd_state, [])"
  using request_executed [OF cmd_wf, of Get_Status demo_ethdev demo_hash slave_look "[1, 2]" "[]" "[]"] by (simp add: is_query_def)

lemma incomplete_start_hangs_witness:
  "process_request demo_ethdev demo_hash slave_look [1, 2] [1, 2, 1, 2] (join [''component'', ''start'', ''fw9'']) cmd_state [] = None"
proof (rule incomplete_start_hangs [OF cmd_ok])
  show "\<forall>e\<in>set [1, 2, 1, 2]. \<exists>j<length (g_core_info cmd_state). e = int j"
    by (auto simp: cmd_fields intro: exI [of _ 1] exI [of _ 2])
qed (simp_all add: cmd_ids cmd_fields cmd_core_def cmd_port_fields port_usable_def name_ok_def SPP_CMD_NAME_BUFSZ_def)

end
