(* ===== verification/Demo_Responses.thy ===== *)
theory Demo_Responses
  imports Demo_Commands Command_Loop
begin

text \<open>
  The witnesses of the theorems about responses and about the turn of the main thread: the
  process of Demo_Commands with unused classifiers, an allocator that never fails, and a
  network that delivers one given message and records what is sent.
\<close>

definition resp_state :: "assoc classifier_data" where
  "resp_state = cmd_state\<lparr>g_mng_infos := [zero_mng 2, zero_mng 2]\<rparr>"

definition resp_env :: json_env where
  "resp_env = \<lparr>malloc_ok = (\<lambda>_. True), empty_literal = replicate 4096 NUL\<rparr>"

definition resp_tab :: "assoc tab_env" where
  "resp_tab = \<lparr>te_hash = demo_hash, te_fuel = 8, te_format = (\<lambda>_. ''00:00:00:00:00:00'')\<rparr>"

definition resp_net :: "string \<Rightarrow> (string list) net" where
  "resp_net msg = \<lparr>net_socket = (\<lambda>w. (3, w)), net_connect = (\<lambda>_ _ _ w. (0, w)), net_set_nonblock = (\<lambda>_ w. w),
     net_usleep = (\<lambda>_ w. w), net_close = (\<lambda>_ w. w),
     net_recv = (\<lambda>_ n w. ((int (length (take n msg)), take n msg, False), w)),
     net_send = (\<lambda>_ m w. (int (length m), w @ [m]))\<rparr>"

definition port_members :: "string \<Rightarrow> json" where
  "port_members p = JObj [(''port'', JStr p), (''vlan'', JObj (vlan_members SPP_PORT_ABILITY_OPE_NONE 0 0))]"

definition status_members :: "(string \<times> json) list" where
  "status_members = [(''results'', JArr [JObj [(''result'', JStr ''success'')]]),
     (''info'', JObj [(''client-id'', JInt 1), (''phy'', JArr [JInt 0, JInt 1]), (''vhost'', JArr []), (''ring'', JArr []),
       (''core'', JArr [
          JObj [(''core'', JInt 1), (''name'', JStr ''fw1''), (''type'', JStr ''forward''),
            (''rx_port'', JArr [port_members ''phy:0'']), (''tx_port'', JArr [port_members ''phy:1''])],
          JObj [(''core'', JInt 2), (''type'', JStr ''unuse'')]]),
       (''classifier_table'', JArr [])])]"

lemma resp_fields:
  "nic (g_iface_info resp_state) = [cmd_port PHY 0 0, cmd_port PHY 1 1]"
  "vhost (g_iface_info resp_state) = [cmd_port UNDEF 0 (- 1), cmd_port UNDEF 1 (- 1)]"
  "ring (g_iface_info resp_state) = [cmd_port UNDEF 0 (- 1), cmd_port UNDEF 1 (- 1)]"
  "g_component_info resp_state = [cmd_component, zero_component 2, zero_component 2]"
  "g_core_info resp_state = [cmd_core SPP_CORE_IDLE 0, cmd_core SPP_CORE_FORWARD 1, cmd_core SPP_CORE_FORWARD 0]"
  "g_forward_info resp_state = [demo_forward, demo_forward]" "g_port_mng_info resp_state = demo_ports zero_ability"
  "client_id (g_startup_param resp_state) = 1" "g_mng_infos resp_state = [zero_mng 2, zero_mng 2]"
  by (simp_all add: resp_state_def cmd_state_def demo_def demo_manage_def)

lemma resp_ifaces:
  "ifaces_json resp_state PHY = Some (JArr [JInt 0, JInt 1])"
  "ifaces_json resp_state VHOST = Some (JArr [])" "ifaces_json resp_state RING = Some (JArr [])"
  by (simp_all add: ifaces_json_def resp_fields numeral_eq_Suc spp_check_flush_port_def get_iface_info_def load_port_def
      cmd_port_fields rd_def)

lemma show01: "show_int 0 = ''0''" "show_int 1 = ''1''"
  by code_simp+

lemma resp_port:
  "d \<in> {SPP_PORT_RXTX_RX, SPP_PORT_RXTX_TX} \<Longrightarrow> n \<in> {0, 1} \<Longrightarrow>
   port_json resp_state d \<lparr>pi_iface_type = PHY, pi_iface_no = n\<rparr> = Some (port_members (''phy:'' @ show_int n))"
  by (auto simp: port_json_def port_text_def spp_format_port_string_def strcpy_buf_def CMD_TAG_APPEND_SIZE_def
      spp_get_dpdk_port_def resp_fields cmd_port_fields rd_def spp_port_ability_get_info_def ability_mng_def demo_ports_def
      demo_ability_def zero_ability_def SPP_PORT_ABILITY_MAX_def first_vlan_def port_members_def show01)

lemma resp_cores:
  "cores_json resp_state [1, 2] = Some [
     JObj [(''core'', JInt 1), (''name'', JStr ''fw1''), (''type'', JStr ''forward''),
       (''rx_port'', JArr [port_members ''phy:0'']), (''tx_port'', JArr [port_members ''phy:1''])],
     JObj [(''core'', JInt 2), (''type'', JStr ''unuse'')]]"
  by (simp add: cores_json_def resp_fields spp_get_core_status_def rd_def cmd_core_def get_core_info_def collect_json_def
      core_json_def cmd_component_def spp_forward_get_component_status_def demo_forward_def demo_path_def
      port_index_of_def demo_port_def resp_port zero_port_def show01)

lemma resp_table: "table_json resp_tab resp_state = Some []"
  by (simp add: table_json_def spp_iterate_classifier_table_def spp_classifier_mac_iterate_table_def resp_fields
      zero_mng_def is_used_mng_info_def)

lemma resp_response:
  "response_members resp_tab [1, 2] resp_state (decoded_request (request_command Get_Status)) (first_result CRES_SUCCESS ''success'' []) =
    Some status_members"
  by (simp add: response_members_def info_members_def resp_ifaces resp_cores resp_table decoded_request_def results_json_def
      status_members_def first_result_def result_members_def SPP_CMD_MAX_COMMANDS_def numeral_eq_Suc spp_get_client_id_def resp_fields)

lemma resp_room: "n \<le> 4000 \<Longrightarrow> room resp_env n"
  by (simp add: room_def resp_env_def)

lemma result_response_text_witness:
  "send_command_result_response resp_env resp_tab [1, 2] resp_state (resp_net []) (decoded_request (request_command Get_Status))
     (first_result CRES_SUCCESS ''success'' []) 3 [] = Some (3, [render (JObj status_members)])"
proof -
  have ok: "members_ok status_members"
    by (simp add: status_members_def port_members_def vlan_members_def PORT_ABILITY_STATUS_STRINGS_def)
  have "length (render (JObj status_members)) \<le> 4000" by code_simp
  then have r: "room resp_env (length (render (JObj status_members)))" by (rule resp_room)
  show ?thesis
    using result_response_text [OF resp_response ok _ _ r, of "resp_net []" 3 "[]"]
    by (simp add: decoded_request_def first_result_def SPP_CMD_MAX_COMMANDS_def resp_fields spp_send_message_def resp_net_def
        del: render.simps)
qed

lemma error_response_text_witness:
  "send_decode_error_response resp_env (resp_net []) (zero_request\<lparr>num_command := 1\<rparr>)
     (first_result CRES_FAILURE ''error'' ''bad message format'') 3 [] =
   Some (3, [render (JObj [(''results'', JArr [JObj [(''result'', JStr ''error''),
     (''error_details'', JObj [(''message'', JStr ''bad message format'')])]])])])"
proof -
  let ?rs = "first_result CRES_FAILURE ''error'' ''bad message format''"
  let ?req = "zero_request\<lparr>num_command := 1\<rparr>"
  have t: "take (nat (num_command ?req)) ?rs = [\<lparr>cr_code = CRES_FAILURE, cr_result = ''error'', cr_error_message = ''bad message format''\<rparr>]"
    by (simp add: first_result_def SPP_CMD_MAX_COMMANDS_def numeral_eq_Suc)
  have j: "results_json ?req ?rs = JArr [JObj [(''result'', JStr ''error''),
     (''error_details'', JObj [(''message'', JStr ''bad message format'')])]]"
    unfolding results_json_def t by (simp add: result_members_def)
  have ok: "\<forall>r\<in>set (take (nat (num_command ?req)) ?rs). members_ok (result_members r)"
    unfolding t by (simp add: result_members_def)
  have r: "room resp_env (length (render (JObj [(''results'', results_json ?req ?rs)])))"
    unfolding j by (rule resp_room) (simp add: quoted_def)
  have len: "num_command ?req \<le> int (length ?rs)" by (simp add: first_result_def SPP_CMD_MAX_COMMANDS_def)
  show ?thesis using error_response_text [OF ok len r, of "resp_net []" 3 "[]"]
    unfolding j by (simp add: spp_send_message_def resp_net_def del: render.simps)
qed

section \<open>Turns\<close>

definition resp_conn :: conn_data where
  "resp_conn = \<lparr>g_controller_ip = ''127.0.0.1'', g_controller_port = 6666\<rparr>"

definition resp_loop :: command_loop where
  "resp_loop = \<lparr>lp_sock = 3, lp_msgbuf = None\<rparr>"

lemma resp_loop_ok: "loop_ok resp_loop" "0 \<le> lp_sock resp_loop" "\<forall>c. malloc_ok resp_env c" "recv_laws (resp_net msg)"
  by (simp_all add: loop_ok_def resp_loop_def resp_env_def recv_laws_def resp_net_def)

lemma resp_recv: "length msg \<le> 2048 \<Longrightarrow> net_recv (resp_net msg) (lp_sock resp_loop) MESSAGE_BUFFER_BLOCK_SIZE w = ((int (length msg), msg, False), w)"
  by (simp add: resp_net_def MESSAGE_BUFFER_BLOCK_SIZE_def)

lemma nul_byte_fatal_witness:
  "spp_command_proc_do resp_env resp_tab (resp_net (''status'' @ [NUL])) demo_ethdev slave_look [1, 2] resp_conn [] resp_loop cmd_state [] [] = None"
proof (rule nul_byte_fatal [OF resp_loop_ok(1,3,2,4)])
  show "net_recv (resp_net (''status'' @ [NUL])) (lp_sock resp_loop) MESSAGE_BUFFER_BLOCK_SIZE [] =
      ((int (length (''status'' @ [NUL])), ''status'' @ [NUL], False), [])" by (rule resp_recv) simp
qed simp

lemma message_is_request_witness:
  "\<exists>b. holds (Some b) [] \<and>
    spp_command_proc_do resp_env resp_tab (resp_net ''foo'') demo_ethdev slave_look [1, 2] resp_conn [] resp_loop cmd_state [] [] = do {
      (ret, resp, sched', s', v') \<leftarrow> process_request demo_ethdev demo_hash slave_look [1, 2] [] ''foo'' cmd_state [];
      (sock, w2) \<leftarrow> respond resp_env resp_tab [1, 2] s' (resp_net ''foo'') resp 3 [];
      Some (ret, sched', \<lparr>lp_sock = sock, lp_msgbuf = Some b\<rparr>, s', v', w2)
    }"
  using message_is_request [where T = resp_tab and E = demo_ethdev and env = slave_look and slaves = "[1, 2]" and c = resp_conn
      and sched = "[]" and s = cmd_state and v = "[]", OF resp_loop_ok(1,3,2,4) resp_recv, of "''foo''" "[]"]
  by (simp add: resp_tab_def resp_loop_def)

lemma resp_flush:
  "\<exists>s2. spp_flush demo_ethdev demo_hash slave_look [1, 2] [] cmd_state [] = Some (0, [], s2, []) \<and>
     nic (g_iface_info s2) = nic (g_iface_info cmd_state)"
proof -
  have p: "flush_port demo_ethdev cmd_state [] = Some (0, cmd_state, [])"
    by (simp add: flush_port_def cmd_fields cmd_port_fields)
  have up: "[0..<length (g_core_info cmd_state)] = [0, 1, 2]" "[0..<length (g_component_info cmd_state)] = [0, 1, 2]"
    by (simp_all add: cmd_fields upt_rec)
  have pub: "cmd_state\<lparr>g_core_info := publish_cores (g_change_core cmd_state) (g_core_info cmd_state)\<rparr> = cmd_state"
    by (simp add: publish_cores_def cmd_fields)
  have c: "flush_core slave_look [] cmd_state = Some ([], cmd_state)"
    unfolding flush_core_def up pub by (simp add: cmd_fields rd_def)
  have k: "flush_component demo_hash slave_look [] cmd_state = Some (0, [], cmd_state)"
    unfolding flush_component_def up by (simp add: cmd_fields rd_def)
  show ?thesis
    unfolding spp_flush_def using p c k by (simp add: backup_mng_info_def copy_mng_info_def)
qed


end
