(* ===== verification/Mirror.thy ===== *)
theory Mirror
  imports Vf_Main
begin

text \<open>
  mirror/spp_mirror.c: the process spp_mirror, in the build of its Makefile
  (SPP_MIRROR_SHALLOWCOPY).  A mirror component receives from one port and sends every packet
  to two: a clone to the second port, the packet itself to the first.

  clone is rte_pktmbuf_clone with the pool of the process: a new packet that shares the buffer
  of its original, or NULL (None) when the pool is empty.  The documentation promises that the
  clone is a reference of its own.  The management data, the ports and the double buffers are
  those of spp_vf.
\<close>

type_synonym 'w pktmbuf_clone = "nat \<Rightarrow> 'w \<Rightarrow> nat option \<times> 'w"

record mirror_rxtx =
  mr_rx :: spp_port_info
  mr_tx :: spp_port_info

record mirror_path =
  mp_name :: string
  mp_type :: spp_component_type
  mp_num_rx :: int
  mp_num_tx :: int
  mp_ports :: "mirror_rxtx list"

record mirror_info =
  mr_ref_index :: int
  mr_upd_index :: int
  mr_path :: "mirror_path list"

record mirror_data = port_data +
  g_mirror_info :: "mirror_info list"

definition zero_mirror_rxtx :: mirror_rxtx where
  "zero_mirror_rxtx = \<lparr>mr_rx = zero_port, mr_tx = zero_port\<rparr>"

definition zero_mirror_path :: "nat \<Rightarrow> mirror_path" where
  "zero_mirror_path n = \<lparr>mp_name = [], mp_type = SPP_COMPONENT_UNUSE, mp_num_rx = 0, mp_num_tx = 0,
     mp_ports = replicate n zero_mirror_rxtx\<rparr>"

section \<open>Operations\<close>

text \<open>The pool of the clones is looked up by the name of the client, and made when it does not
  exist yet; create is rte_pktmbuf_pool_create, with the number of packets, the cache size and
  the room for data.  The name always fits into its array of 32 bytes.\<close>

definition SPP_MIRROR_POOL_NAME :: string where "SPP_MIRROR_POOL_NAME = ''spp_mirror_pool''"

definition RTE_PKTMBUF_HEADROOM :: nat where "RTE_PKTMBUF_HEADROOM = 128"

definition mirror_pool_create ::
  "(string \<Rightarrow> 'v \<Rightarrow> 'p option) \<Rightarrow> (string \<Rightarrow> nat \<Rightarrow> nat \<Rightarrow> nat \<Rightarrow> 'v \<Rightarrow> 'p option \<times> 'v) \<Rightarrow>
   int \<Rightarrow> 'v \<Rightarrow> int \<times> 'p option \<times> 'v" where
  "mirror_pool_create look_up create i v =
    (let nb_mbufs = max (nat (to_uint16 (1024 + 1024 + int MAX_PKT_BURST + 256))) 8192;
         pool_name = SPP_MIRROR_POOL_NAME @ ''_'' @ show_int i;
         (pool, v1) = (case look_up pool_name v of
            Some p \<Rightarrow> (Some p, v)
          | None \<Rightarrow> create pool_name nb_mbufs 256 RTE_PKTMBUF_HEADROOM v)
     in (if pool = None then SPP_RET_NG else SPP_RET_OK, pool, v1))"

definition mirror_proc_init :: "'z mirror_data_scheme \<Rightarrow> 'z mirror_data_scheme" where
  "mirror_proc_init s = s\<lparr>g_mirror_info := replicate (length (g_mirror_info s))
     \<lparr>mr_ref_index = 0, mr_upd_index = 1,
      mr_path = replicate SPP_INFO_AREA_MAX (zero_mirror_path (length (nic (g_iface_info s))))\<rparr>\<rparr>"

fun mirror_fill_rx :: "'z manage_data_scheme \<Rightarrow> port_ptr list \<Rightarrow> nat \<Rightarrow> mirror_rxtx list \<Rightarrow>
    mirror_rxtx list option" where
  "mirror_fill_rx s ptrs 0 ps = Some ps"
| "mirror_fill_rx s ptrs (Suc k) ps = do {
     ps' \<leftarrow> mirror_fill_rx s ptrs k ps;
     p \<leftarrow> rd ptrs (int k);
     v \<leftarrow> load_port s p;
     r \<leftarrow> rd ps' (int k);
     wr ps' (int k) (r\<lparr>mr_rx := v\<rparr>)
   }"

fun mirror_fill_tx :: "'z manage_data_scheme \<Rightarrow> port_ptr list \<Rightarrow> nat \<Rightarrow> mirror_rxtx list \<Rightarrow>
    mirror_rxtx list option" where
  "mirror_fill_tx s ptrs 0 ps = Some ps"
| "mirror_fill_tx s ptrs (Suc k) ps = do {
     ps' \<leftarrow> mirror_fill_tx s ptrs k ps;
     p \<leftarrow> rd ptrs (int k);
     v \<leftarrow> load_port s p;
     r \<leftarrow> rd ps' (int k);
     wr ps' (int k) (r\<lparr>mr_tx := v\<rparr>)
   }"

definition mirror_pending :: "int \<Rightarrow> 'z mirror_data_scheme \<Rightarrow> bool option" where
  "mirror_pending i s = do {
     info \<leftarrow> rd (g_mirror_info s) i;
     Some (mr_ref_index info = mr_upd_index info)
   }"

text \<open>The update of a component, as in spp_forward_update: env is what the other threads do in one
  step, sched the steps they take while the main thread waits.\<close>

definition spp_mirror_update ::
  "('e \<Rightarrow> 'z mirror_data_scheme \<Rightarrow> 'z mirror_data_scheme option) \<Rightarrow> 'e list \<Rightarrow>
   spp_component_info \<Rightarrow> 'z mirror_data_scheme \<Rightarrow>
   (int \<times> 'e list \<times> 'z mirror_data_scheme) option" where
  "spp_mirror_update env sched c s = do {
     info \<leftarrow> rd (g_mirror_info s) (component_id c);
     path \<leftarrow> rd (mr_path info) (mr_upd_index info);
     if num_rx_port c > 1 then Some (SPP_RET_NG, sched, s)
     else if num_tx_port c > 2 then Some (SPP_RET_NG, sched, s)
     else do {
       ps1 \<leftarrow> mirror_fill_rx s (rx_ports c) (nat (num_rx_port c))
         (replicate (length (mp_ports path)) zero_mirror_rxtx);
       ps2 \<leftarrow> mirror_fill_tx s (tx_ports c) (nat (num_tx_port c)) ps1;
       paths \<leftarrow> wr (mr_path info) (mr_upd_index info)
         \<lparr>mp_name = name c, mp_type = comp_type c, mp_num_rx = num_rx_port c,
          mp_num_tx = num_tx_port c, mp_ports = ps2\<rparr>;
       infos \<leftarrow> wr (g_mirror_info s) (component_id c)
         (info\<lparr>mr_path := paths, mr_upd_index := mr_ref_index info\<rparr>);
       (sched', s') \<leftarrow> wait_while (mirror_pending (component_id c)) env sched
         (s\<lparr>g_mirror_info := infos\<rparr>);
       Some (SPP_RET_OK, sched', s')
     }
   }"

definition flip_mirror :: "mirror_info \<Rightarrow> mirror_info" where
  "flip_mirror info =
    (if mr_ref_index info = mr_upd_index info
     then info\<lparr>mr_ref_index := flip_index (mr_upd_index info)\<rparr> else info)"

definition change_mirror_index ::
  "int \<Rightarrow> 'z mirror_data_scheme \<Rightarrow> 'z mirror_data_scheme option" where
  "change_mirror_index i s = do {
     info \<leftarrow> rd (g_mirror_info s) i;
     if mr_ref_index info = mr_upd_index info
     then do {
       s1 \<leftarrow> spp_port_ability_change_index PORT_ABILITY_CHG_INDEX_REF 0 SPP_PORT_RXTX_NONE s;
       infos \<leftarrow> wr (g_mirror_info s1) i (flip_mirror info);
       Some (s1\<lparr>g_mirror_info := infos\<rparr>)
     }
     else Some s
   }"

section \<open>Mirroring\<close>

fun mirror_clones :: "'w pktmbuf_clone \<Rightarrow> nat list \<Rightarrow> 'w \<Rightarrow> nat option list \<times> 'w" where
  "mirror_clones clone [] w = ([], w)"
| "mirror_clones clone (i # ids) w =
    (let (c, w1) = clone i w; (cs, w2) = mirror_clones clone ids w1 in (c # cs, w2))"

text \<open>What follows the receive burst.  bufs are the packets received.  The array copybufs is only
  written when the second tx port has a device; without one it is uninitialised (None), and
  to free its elements is undefined.  To transmit a NULL clone is undefined too.\<close>

definition mirror_send ::
  "'w dpdk \<Rightarrow> 'w pktmbuf_clone \<Rightarrow> 'z port_data_scheme \<Rightarrow> mirror_rxtx list \<Rightarrow> nat list \<Rightarrow> 'w \<Rightarrow> 'w option" where
  "mirror_send D clone s ports bufs w = do {
     r1 \<leftarrow> rd ports 1;
     (copybufs, nb_tx2, w1) \<leftarrow> (if dpdk_port (mr_tx r1) \<ge> 0
       then do {
         let (cs, w') = mirror_clones clone bufs w;
         pkts \<leftarrow> those cs;
         (n, w'') \<leftarrow> spp_eth_tx_burst D s (dpdk_port (mr_tx r1)) pkts w';
         Some (Some pkts, n, w'')
       }
       else Some (None, 0, w));
     r0 \<leftarrow> rd ports 0;
     (nb_tx1, w2) \<leftarrow> (if dpdk_port (mr_tx r0) \<ge> 0
       then spp_eth_tx_burst D s (dpdk_port (mr_tx r0)) bufs w1 else Some (0, w1));
     let nb_tx = (if nb_tx1 < nb_tx2 then nb_tx2 else nb_tx1);
     w3 \<leftarrow> (if nb_tx < length bufs then free_packets D (drop nb_tx bufs) w2 else Some w2);
     if nb_tx2 < length bufs
     then do { cs \<leftarrow> copybufs; free_packets D (drop nb_tx2 cs) w3 }
     else Some w3
   }"

definition mirror_proc ::
  "'w dpdk \<Rightarrow> 'w pktmbuf_clone \<Rightarrow> int \<Rightarrow> 'z mirror_data_scheme \<Rightarrow> 'w \<Rightarrow>
   (int \<times> 'z mirror_data_scheme \<times> 'w) option" where
  "mirror_proc D clone i s w = do {
     s1 \<leftarrow> change_mirror_index i s;
     info \<leftarrow> rd (g_mirror_info s1) i;
     path \<leftarrow> rd (mr_path info) (mr_ref_index info);
     if \<not> (mp_num_tx path = 2 \<and> mp_num_rx path = 1) then Some (SPP_RET_OK, s1, w)
     else do {
       r \<leftarrow> rd (mp_ports path) 0;
       (bufs, nb_rx, w1) \<leftarrow> spp_eth_rx_burst D s1 (dpdk_port (mr_rx r)) MAX_PKT_BURST w;
       if nb_rx = 0 then Some (SPP_RET_OK, s1, w1)
       else do {
         w2 \<leftarrow> mirror_send D clone s1 (mp_ports path) (take nb_rx bufs) w1;
         Some (SPP_RET_OK, s1, w2)
       }
     }
   }"

section \<open>Status, flush and worker\<close>

definition mirror_port_index :: "spp_port_info \<Rightarrow> spp_port_index" where
  "mirror_port_index p = \<lparr>pi_iface_type = iface_type p, pi_iface_no = iface_no p\<rparr>"

definition spp_mirror_get_component_status ::
  "'z mirror_data_scheme \<Rightarrow> int \<Rightarrow> int \<Rightarrow>
   (int \<Rightarrow> string \<Rightarrow> string \<Rightarrow> spp_port_index list \<Rightarrow> spp_port_index list \<Rightarrow> 'o \<Rightarrow> (int \<times> 'o) option) \<Rightarrow>
   'o \<Rightarrow> (int \<times> 'o) option" where
  "spp_mirror_get_component_status s lcore i element_proc out = do {
     info \<leftarrow> rd (g_mirror_info s) i;
     path \<leftarrow> rd (mr_path info) (mr_ref_index info);
     if mp_type path = SPP_COMPONENT_UNUSE then Some (SPP_RET_NG, out)
     else do {
       ensure (mp_num_rx path \<le> int (length (mp_ports path)));
       ensure (mp_num_tx path \<le> int (length (mp_ports path)));
       (ret, out') \<leftarrow> element_proc lcore (mp_name path) ''mirror''
         (List.map (mirror_port_index \<circ> mr_rx) (take (nat (mp_num_rx path)) (mp_ports path)))
         (List.map (mirror_port_index \<circ> mr_tx) (take (nat (mp_num_tx path)) (mp_ports path))) out;
       if ret \<noteq> 0 then Some (SPP_RET_NG, out') else Some (SPP_RET_OK, out')
     }
   }"

text \<open>The parts of vf/common that are compiled for spp_mirror (SPP_MIRROR_MODULE): the name of the
  component type, the components of a core in a status response, and the flush.\<close>

definition mirror_convert_component_type :: "string \<Rightarrow> spp_component_type" where
  "mirror_convert_component_type type_str =
    (if type_str = ''mirror'' then SPP_COMPONENT_MIRROR else SPP_COMPONENT_UNUSE)"

fun mirror_iterate_core_components ::
  "(int \<Rightarrow> string \<Rightarrow> string \<Rightarrow> spp_port_index list \<Rightarrow> spp_port_index list \<Rightarrow> 'o \<Rightarrow> (int \<times> 'o) option) \<Rightarrow>
   'z mirror_data_scheme \<Rightarrow> int \<Rightarrow> int list \<Rightarrow> 'o \<Rightarrow> (int \<times> 'o) option" where
  "mirror_iterate_core_components element_proc s lcore [] out = Some (SPP_RET_OK, out)"
| "mirror_iterate_core_components element_proc s lcore (i # is) out = do {
     (ret, out1) \<leftarrow> spp_mirror_get_component_status s lcore i element_proc out;
     if ret \<noteq> 0 then Some (SPP_RET_NG, out1)
     else mirror_iterate_core_components element_proc s lcore is out1
   }"

fun mirror_flush_components ::
  "('e \<Rightarrow> 'z mirror_data_scheme \<Rightarrow> 'z mirror_data_scheme option) \<Rightarrow> nat list \<Rightarrow> 'e list \<Rightarrow>
   'z mirror_data_scheme \<Rightarrow> (int \<times> 'e list \<times> 'z mirror_data_scheme) option" where
  "mirror_flush_components env [] sched s = Some (SPP_RET_OK, sched, s)"
| "mirror_flush_components env (k # ks) sched s = do {
     ch \<leftarrow> rd (g_change_component s) (int k);
     if ch = 0 then mirror_flush_components env ks sched s
     else do {
       c \<leftarrow> rd (g_component_info s) (int k);
       s1 \<leftarrow> spp_port_ability_update c s;
       (ret, sched', s2) \<leftarrow> spp_mirror_update env sched c s1;
       if ret < 0 then Some (SPP_RET_NG, sched', s2)
       else mirror_flush_components env ks sched' s2
     }
   }"

fun run_mirrors ::
  "'w dpdk \<Rightarrow> 'w pktmbuf_clone \<Rightarrow> int list \<Rightarrow> 'z mirror_data_scheme \<Rightarrow> 'w \<Rightarrow>
   (int \<times> 'z mirror_data_scheme \<times> 'w) option" where
  "run_mirrors D clone [] s w = Some (0, s, w)"
| "run_mirrors D clone (i # is) s w = do {
     (ret, s1, w1) \<leftarrow> mirror_proc D clone i s w;
     if ret \<noteq> 0 then Some (ret, s1, w1) else run_mirrors D clone is s1 w1
   }"

text \<open>One turn of the loop of slave_main; the result Some ret is the end of the thread.\<close>

definition mirror_slave_turn ::
  "'w dpdk \<Rightarrow> 'w pktmbuf_clone \<Rightarrow> int \<Rightarrow> 'z mirror_data_scheme \<Rightarrow> 'w \<Rightarrow>
   (int option \<times> 'z mirror_data_scheme \<times> 'w) option" where
  "mirror_slave_turn D clone lcore s w = do {
     st \<leftarrow> spp_get_core_status lcore s;
     if st = SPP_CORE_STOP_REQUEST
     then do { s1 \<leftarrow> set_core_status lcore SPP_CORE_STOP s; Some (Some 0, s1, w) }
     else if st \<noteq> SPP_CORE_FORWARD then Some (None, s, w)
     else do {
       s1 \<leftarrow> slave_look lcore s;
       c \<leftarrow> get_core_info s1 lcore;
       ensure (num c \<le> int (length (core_ids c)));
       (ret, s2, w2) \<leftarrow> run_mirrors D clone (take (nat (num c)) (core_ids c)) s1 w;
       if ret \<noteq> 0
       then do { s3 \<leftarrow> set_core_status lcore SPP_CORE_STOP s2; Some (Some ret, s3, w2) }
       else Some (None, s2, w2)
     }
   }"

text \<open>main, up to its finalisation.  ret_dpdk, ret_parse and ret_init are the results of
  rte_eal_init, parse_app_args and spp_command_proc_init, serve is the loop that accepts
  commands.  The variable ret starts as SPP_RET_NG and is what main returns.\<close>

definition mirror_main ::
  "int \<Rightarrow> int \<Rightarrow> int \<Rightarrow> (string \<Rightarrow> 'v \<Rightarrow> 'p option) \<Rightarrow>
   (string \<Rightarrow> nat \<Rightarrow> nat \<Rightarrow> nat \<Rightarrow> 'v \<Rightarrow> 'p option \<times> 'v) \<Rightarrow>
   (nat \<Rightarrow> 'z mirror_data_scheme \<Rightarrow> 'z mirror_data_scheme) \<Rightarrow>
   ('z mirror_data_scheme \<Rightarrow> (int \<times> 'z mirror_data_scheme) option) \<Rightarrow>
   int list \<Rightarrow> int \<Rightarrow> 'z mirror_data_scheme \<Rightarrow> 'v \<Rightarrow> (int \<times> 'z mirror_data_scheme) option" where
  "mirror_main ret_dpdk ret_parse ret_init look_up create env serve slaves n_avail s v =
    (if ret_dpdk < 0 then Some (SPP_RET_NG, s)
     else if ret_parse \<noteq> 0 then Some (SPP_RET_NG, s)
     else do {
       let (ret, pool, v1) = mirror_pool_create look_up create (client_id (g_startup_param s)) v;
       if ret = SPP_RET_NG then Some (SPP_RET_NG, s)
       else do {
         (ret_mng, s1) \<leftarrow> init_mng_data slaves n_avail s;
         if ret_mng \<noteq> 0 then Some (ret, s1)
         else do {
           let s2 = spp_port_ability_init (mirror_proc_init s1);
           if ret_init \<noteq> SPP_RET_OK then Some (ret, s2)
           else do {
             (ret_wait, s3) \<leftarrow> vf_start_workers env slaves s2;
             if ret_wait \<noteq> 0 then Some (ret, s3)
             else do {
               (ret_do, s4) \<leftarrow> serve s3;
               if ret_do \<noteq> SPP_RET_OK
               then do { s5 \<leftarrow> set_all_core_status slaves SPP_CORE_STOP_REQUEST s4; Some (ret, s5) }
               else Some (SPP_RET_OK, s4)
             }
           }
         }
       }
     })"

section \<open>What happens to the packets\<close>

text \<open>The pool has a clone for every packet the application holds.\<close>

definition pool_sufficient :: "'w pktmbuf_clone \<Rightarrow> ('w \<Rightarrow> nat multiset) \<Rightarrow> bool" where
  "pool_sufficient clone held \<longleftrightarrow>
    (\<forall>i w. i \<in># held w \<longrightarrow> (\<exists>c w'. clone i w = (Some c, w') \<and> held w' = held w + {#c#}))"

lemma those_map_Some [simp]: "those (List.map Some xs) = Some xs"
  by (induction xs) auto

lemma mirror_clones_ok:
  assumes "pool_sufficient clone held" and "set ids \<subseteq> set_mset (held w)"
  shows "\<exists>cs w'. mirror_clones clone ids w = (List.map Some cs, w') \<and> length cs = length ids \<and>
    held w' = held w + mset cs"
  using assms(2)
proof (induction ids arbitrary: w)
  case (Cons i ids)
  have "i \<in># held w" using Cons.prems by simp
  then obtain c w1 where c: "clone i w = (Some c, w1)" "held w1 = held w + {#c#}"
    using assms(1) unfolding pool_sufficient_def by blast
  have "set ids \<subseteq> set_mset (held w1)" using Cons.prems by (auto simp: c(2))
  from Cons.IH [OF this] obtain cs w2 where "mirror_clones clone ids w1 = (List.map Some cs, w2)"
      "length cs = length ids" "held w2 = held w1 + mset cs"
    by blast
  then show ?case using c by (intro exI [of _ "c # cs"] exI [of _ w2]) simp
qed simp

lemma mirror_send_ok:
  assumes H: "io_laws D held" and pool: "pool_sufficient clone held"
    and r: "rd ports 0 = Some r0" "rd ports 1 = Some r1"
    and plain: "plain_port s (dpdk_port (mr_tx r0)) SPP_PORT_RXTX_TX" "plain_port s (dpdk_port (mr_tx r1)) SPP_PORT_RXTX_TX"
    and h1: "held w1 = h + mset bufs" and ne: "bufs \<noteq> []"
  shows "\<exists>cs w2 n2 w3 n1 w4 w'. mirror_send D clone s ports bufs w1 = Some w' \<and>
    mirror_clones clone bufs w1 = (List.map Some cs, w2) \<and>
    rte_eth_tx_burst D (dpdk_port (mr_tx r1)) cs w2 = Some (n2, w3) \<and>
    rte_eth_tx_burst D (dpdk_port (mr_tx r0)) bufs w3 = Some (n1, w4) \<and>
    held w' = h + mset (take (n2 - n1) (drop n1 bufs))"
proof -
  obtain cs w2 where c: "mirror_clones clone bufs w1 = (List.map Some cs, w2)" "length cs = length bufs"
      "held w2 = held w1 + mset cs"
    using mirror_clones_ok [OF pool, of bufs w1] h1 by auto
  obtain n2 w3 where t2: "rte_eth_tx_burst D (dpdk_port (mr_tx r1)) cs w2 = Some (n2, w3)" "n2 \<le> length cs"
      "held w3 = held w2 - mset (take n2 cs)"
    using io_tx [OF H, of cs w2 "dpdk_port (mr_tx r1)"] c(3) by (auto simp del: add_mset_add_single)
  have h2: "held w3 = h + mset bufs + mset (drop n2 cs)"
    using t2(3) c(3) h1 mset_take_drop [of cs n2] by simp
  obtain n1 w4 where t1: "rte_eth_tx_burst D (dpdk_port (mr_tx r0)) bufs w3 = Some (n1, w4)" "n1 \<le> length bufs"
      "held w4 = held w3 - mset (take n1 bufs)"
    using io_tx [OF H, of bufs w3 "dpdk_port (mr_tx r0)"] h2 by auto
  have n2: "n2 \<le> length bufs" using t2(2) c(2) by simp
  have h4: "held w4 = h + mset (drop n1 bufs) + mset (drop n2 cs)"
    using t1(3) h2 mset_take_drop [of bufs n1] by simp
  define m where "m = (if n1 < n2 then n2 else n1)"
  have "drop m bufs = drop (n2 - n1) (drop n1 bufs)" by (simp add: m_def)
  then have "mset (drop n1 bufs) = mset (take (n2 - n1) (drop n1 bufs)) + mset (drop m bufs)"
    using mset_take_drop [of "drop n1 bufs" "n2 - n1"] by metis
  then have h5: "held w4 = h + mset (take (n2 - n1) (drop n1 bufs)) + mset (drop n2 cs) + mset (drop m bufs)"
    using h4 by simp
  obtain w5 where w5: "(if m < length bufs then free_packets D (drop m bufs) w4 else Some w4) = Some w5"
      "held w5 = h + mset (take (n2 - n1) (drop n1 bufs)) + mset (drop n2 cs)"
    using discard_rest [OF H h5] by blast
  obtain w6 where w6: "(if n2 < length cs then free_packets D (drop n2 cs) w5 else Some w5) = Some w6"
      "held w6 = h + mset (take (n2 - n1) (drop n1 bufs))"
    using discard_rest [OF H w5(2)] by blast
  have "cs \<noteq> []" using c(2) ne by auto
  then have "mirror_send D clone s ports bufs w1 = Some w6"
    using r c(1,2) t1(1) t2(1) w5(1) w6(1) plain_operation(3) [OF plain(1)] plain_operation(3) [OF plain(2)] ne
    by (auto simp: mirror_send_def plain_tx [OF plain(1)] plain_tx [OF plain(2)] Let_def m_def [symmetric]
        split: if_splits)
  then show ?thesis using c(1) t1(1) t2(1) w6(2) by blast
qed

text \<open>C23: One round of a mirror component whose ports have no abilities, with a clone for every
  packet, accounts for every packet as follows: the clones and the originals are offered to
  their ports, what is not accepted is freed, except that the originals between the numbers
  n1 and n2 of packets the first and the second port accept are kept when n1 is the smaller
  one.  So every packet is returned exactly when the first port accepts at least as many.\<close>
theorem mirror_packet_accounting:
  assumes "io_laws D held" and "pool_sufficient clone held"
    and "change_mirror_index i s = Some s1" and "rd (g_mirror_info s1) i = Some info"
    and "rd (mr_path info) (mr_ref_index info) = Some path"
    and "mp_num_tx path = 2" and "mp_num_rx path = 1"
    and "rd (mp_ports path) 0 = Some r0" and "rd (mp_ports path) 1 = Some r1"
    and "plain_port s1 (dpdk_port (mr_rx r0)) SPP_PORT_RXTX_RX"
    and "plain_port s1 (dpdk_port (mr_tx r0)) SPP_PORT_RXTX_TX"
    and "plain_port s1 (dpdk_port (mr_tx r1)) SPP_PORT_RXTX_TX"
    and "rte_eth_rx_burst D (dpdk_port (mr_rx r0)) MAX_PKT_BURST w = (bufs, w1)" and "bufs \<noteq> []"
  shows "\<exists>copies w2 n2 w3 n1 w4 w'. mirror_proc D clone i s w = Some (SPP_RET_OK, s1, w') \<and>
    mirror_clones clone bufs w1 = (List.map Some copies, w2) \<and>
    rte_eth_tx_burst D (dpdk_port (mr_tx r1)) copies w2 = Some (n2, w3) \<and>
    rte_eth_tx_burst D (dpdk_port (mr_tx r0)) bufs w3 = Some (n1, w4) \<and>
    held w' = held w + mset (take (n2 - n1) (drop n1 bufs)) \<and>
    (n1 \<le> length bufs \<longrightarrow> n2 \<le> length bufs \<longrightarrow> (held w' = held w \<longleftrightarrow> n2 \<le> n1))"
proof -
  have "held w1 = held w + mset bufs" using io_rx [OF assms(1,13)] by simp
  from mirror_send_ok [OF assms(1,2,8,9,11,12) this assms(14)] obtain cs w2 n2 w3 n1 w4 w' where
    m: "mirror_send D clone s1 (mp_ports path) bufs w1 = Some w'"
      "mirror_clones clone bufs w1 = (List.map Some cs, w2)"
      "rte_eth_tx_burst D (dpdk_port (mr_tx r1)) cs w2 = Some (n2, w3)"
      "rte_eth_tx_burst D (dpdk_port (mr_tx r0)) bufs w3 = Some (n1, w4)"
      "held w' = held w + mset (take (n2 - n1) (drop n1 bufs))"
    by blast
  have "mirror_proc D clone i s w = Some (SPP_RET_OK, s1, w')"
    using assms(3-9,13,14) m(1) by (simp add: mirror_proc_def plain_rx [OF assms(10)])
  moreover have "n1 \<le> length bufs \<longrightarrow> n2 \<le> length bufs \<longrightarrow> (held w' = held w \<longleftrightarrow> n2 \<le> n1)"
    using m(5) by auto
  ultimately show ?thesis using m by blast
qed

text \<open>Without a device at the second tx port the array of the clones is freed uninitialised.\<close>

lemma mirror_unset_port:
  assumes "rd ports 1 = Some r1" and "dpdk_port (mr_tx r1) < 0" and "bufs \<noteq> []"
  shows "mirror_send D clone s ports bufs w = None"
  using assms by (simp add: mirror_send_def Let_def split: Option.bind_splits)

section \<open>An update takes effect\<close>

definition put_mirror :: "mirror_path \<Rightarrow> mirror_info \<Rightarrow> mirror_info" where
  "put_mirror x info = info\<lparr>mr_path := (mr_path info)[nat (mr_upd_index info) := x]\<rparr>"

definition publish_mirror :: "mirror_info \<Rightarrow> mirror_info" where
  "publish_mirror info = info\<lparr>mr_upd_index := mr_ref_index info\<rparr>"

lemma change_mirror_index_simple:
  assumes "ports_calm s" and "rd (g_mirror_info s) e = Some info"
  shows "change_mirror_index e s = Some (if mr_ref_index info = mr_upd_index info
    then s\<lparr>g_mirror_info := (g_mirror_info s)[nat e := flip_mirror info]\<rparr> else s)"
proof -
  have "0 \<le> e" "e < int (length (g_mirror_info s))" using assms(2) by (auto simp: rd_Some_iff)
  moreover have "chg_num_rx s = 0" "chg_num_tx s = 0" using assms(1) by (simp_all add: ports_calm_def)
  ultimately show ?thesis
    by (simp add: change_mirror_index_def assms(2) change_index_nothing_pending wr_ok)
qed

interpretation mirror_table: buffer_table mr_ref_index mr_upd_index mr_path
  put_mirror publish_mirror flip_mirror g_mirror_info "\<lambda>l s. s\<lparr>g_mirror_info := l\<rparr>"
  change_mirror_index ports_calm
  by unfold_locales
    (auto simp: put_mirror_def publish_mirror_def flip_mirror_def change_mirror_index_simple)

lemma mirror_waiting: "mirror_table.waiting = mirror_pending"
  by (intro ext) (simp add: mirror_table.waiting_def mirror_pending_def)

lemma mirror_fill_rx_spec:
  assumes "k \<le> length ps" and "k \<le> length ptrs" and "\<forall>j<k. load_port s (ptrs ! j) \<noteq> None"
  shows "\<exists>ps'. mirror_fill_rx s ptrs k ps = Some ps' \<and> length ps' = length ps \<and>
    (\<forall>j<k. Some (mr_rx (ps' ! j)) = load_port s (ptrs ! j))"
  using assms
proof (induction k)
  case (Suc k)
  then obtain ps' where ps': "mirror_fill_rx s ptrs k ps = Some ps'" "length ps' = length ps"
      "\<forall>j<k. Some (mr_rx (ps' ! j)) = load_port s (ptrs ! j)"
    by auto
  obtain v where v: "load_port s (ptrs ! k) = Some v" using Suc.prems by auto
  show ?case
    using Suc.prems ps' v by (auto simp: nth_list_update less_Suc_eq)
qed simp

lemma mirror_fill_tx_spec:
  assumes "k \<le> length ps" and "k \<le> length ptrs" and "\<forall>j<k. load_port s (ptrs ! j) \<noteq> None"
  shows "\<exists>ps'. mirror_fill_tx s ptrs k ps = Some ps' \<and> length ps' = length ps \<and>
    (\<forall>j<k. Some (mr_tx (ps' ! j)) = load_port s (ptrs ! j)) \<and>
    (\<forall>j. mr_rx (ps' ! j) = mr_rx (ps ! j))"
  using assms
proof (induction k)
  case (Suc k)
  then obtain ps' where ps': "mirror_fill_tx s ptrs k ps = Some ps'" "length ps' = length ps"
      "\<forall>j<k. Some (mr_tx (ps' ! j)) = load_port s (ptrs ! j)" "\<forall>j. mr_rx (ps' ! j) = mr_rx (ps ! j)"
    by auto
  obtain v where v: "load_port s (ptrs ! k) = Some v" using Suc.prems by auto
  show ?case
    using Suc.prems ps' v by (auto simp: nth_list_update less_Suc_eq)
qed simp

text \<open>Updating a mirror component with at most one receiving and two transmitting ports
  returns SPP_RET_OK as soon as the schedule gives its worker one step, and then the path its
  worker reads is the component's: its name and type, and each port in its place.\<close>
theorem spp_mirror_update_takes_effect:
  fixes s :: "'z mirror_data_scheme"
  assumes calm: "ports_calm s"
    and i: "0 \<le> component_id c" "component_id c < int (length (g_mirror_info s))"
    and settled: "\<forall>inf\<in>set (g_mirror_info s). mirror_table.settled inf \<and>
      (\<forall>p\<in>set (mr_path inf). length (mp_ports p) = length (rx_ports c))"
    and len: "length (tx_ports c) = length (rx_ports c)" "2 \<le> length (rx_ports c)"
    and num: "0 \<le> num_rx_port c" "num_rx_port c \<le> 1" "0 \<le> num_tx_port c" "num_tx_port c \<le> 2"
    and rxok: "\<forall>j<nat (num_rx_port c). load_port s (rx_ports c ! j) \<noteq> None"
    and txok: "\<forall>j<nat (num_tx_port c). load_port s (tx_ports c ! j) \<noteq> None"
    and sched: "component_id c \<in> set sched" "\<forall>e\<in>set sched. rd (g_mirror_info s) e \<noteq> None"
  shows "\<exists>sched' s' info path. spp_mirror_update change_mirror_index sched c s = Some (SPP_RET_OK, sched', s') \<and>
    g_mirror_info s' = (g_mirror_info s)[nat (component_id c) := info] \<and>
    mirror_table.settled info \<and> mirror_table.in_use info = path \<and>
    mp_name path = name c \<and> mp_type path = comp_type c \<and>
    mp_num_rx path = num_rx_port c \<and> mp_num_tx path = num_tx_port c \<and>
    (\<forall>j<nat (num_rx_port c). Some (mr_rx (mp_ports path ! j)) = load_port s (rx_ports c ! j)) \<and>
    (\<forall>j<nat (num_tx_port c). Some (mr_tx (mp_ports path ! j)) = load_port s (tx_ports c ! j))"
proof -
  define k where "k = component_id c"
  define info where "info = g_mirror_info s ! nat k"
  have ri: "rd (g_mirror_info s) k = Some info" using i by (simp add: k_def info_def rd_ok)
  have st: "mirror_table.settled info" "\<forall>p\<in>set (mr_path info). length (mp_ports p) = length (rx_ports c)"
    using settled rd_in_set [OF ri] by auto
  have st': "other_area (mr_ref_index info) (mr_upd_index info)" "length (mr_path info) = 2"
    using st(1) by (auto simp: mirror_table.settled_def SPP_INFO_AREA_MAX_def)
  define old where "old = mr_path info ! nat (mr_upd_index info)"
  have ro: "rd (mr_path info) (mr_upd_index info) = Some old"
    using st' by (auto simp: old_def rd_def other_area_def)
  have lo: "length (mp_ports old) = length (rx_ports c)" using st(2) rd_in_set [OF ro] by blast
  let ?zero = "replicate (length (mp_ports old)) zero_mirror_rxtx"
  have "nat (num_rx_port c) \<le> length ?zero" "nat (num_rx_port c) \<le> length (rx_ports c)" using num len lo by auto
  from mirror_fill_rx_spec [OF this rxok] obtain ps1 where
    ps1: "mirror_fill_rx s (rx_ports c) (nat (num_rx_port c)) ?zero = Some ps1" "length ps1 = length (rx_ports c)"
      "\<forall>j<nat (num_rx_port c). Some (mr_rx (ps1 ! j)) = load_port s (rx_ports c ! j)"
    using lo by auto
  have "nat (num_tx_port c) \<le> length ps1" "nat (num_tx_port c) \<le> length (tx_ports c)" using num len ps1(2) by auto
  from mirror_fill_tx_spec [OF this txok] obtain ps2 where
    ps2: "mirror_fill_tx s (tx_ports c) (nat (num_tx_port c)) ps1 = Some ps2"
      "\<forall>j<nat (num_tx_port c). Some (mr_tx (ps2 ! j)) = load_port s (tx_ports c ! j)"
      "\<forall>j. mr_rx (ps2 ! j) = mr_rx (ps1 ! j)"
    by auto
  define path where "path = \<lparr>mp_name = name c, mp_type = comp_type c, mp_num_rx = num_rx_port c,
    mp_num_tx = num_tx_port c, mp_ports = ps2\<rparr>"
  define info1 where "info1 = publish_mirror (put_mirror path info)"
  define s1 where "s1 = s\<lparr>g_mirror_info := (g_mirror_info s)[nat k := info1]\<rparr>"
  have w1: "wr (mr_path info) (mr_upd_index info) path = Some (mr_path (put_mirror path info))"
    using st' by (auto simp: wr_def other_area_def put_mirror_def)
  have w2: "wr (g_mirror_info s) k (info\<lparr>mr_path := mr_path (put_mirror path info), mr_upd_index := mr_ref_index info\<rparr>) =
      Some (g_mirror_info s1)"
    using i by (simp add: k_def wr_ok s1_def info1_def publish_mirror_def put_mirror_def)
  have inf1: "rd (g_mirror_info s1) k = Some info1" using i by (simp add: k_def s1_def rd_def)
  have "\<exists>sched'. wait_while (mirror_pending k) change_mirror_index sched s1 =
      Some (sched', s1\<lparr>g_mirror_info := (g_mirror_info s1)[nat k := flip_mirror info1]\<rparr>)"
    unfolding mirror_waiting [symmetric]
  proof (rule mirror_table.wait_for_look [OF _ inf1])
    show "ports_calm s1" using calm by (simp add: s1_def ports_calm_def)
    show "mr_ref_index info1 = mr_upd_index info1" "mr_ref_index info1 \<in> {0, 1}"
      using st' by (auto simp: info1_def publish_mirror_def put_mirror_def other_area_def)
    show "\<forall>e inf. rd (g_mirror_info s1) e = Some inf \<longrightarrow> e \<noteq> k \<longrightarrow> mr_ref_index inf \<noteq> mr_upd_index inf"
    proof (intro allI impI)
      fix e inf assume e: "rd (g_mirror_info s1) e = Some inf" "e \<noteq> k"
      then have "rd (g_mirror_info s) e = Some inf"
        using i by (auto simp: s1_def rd_Some_iff k_def nth_list_update)
      then show "mr_ref_index inf \<noteq> mr_upd_index inf"
        using settled rd_in_set by (fastforce simp: mirror_table.settled_def other_area_def)
    qed
    show "k \<in> set sched" using sched by (simp add: k_def)
    show "\<forall>e\<in>set sched. rd (g_mirror_info s1) e \<noteq> None"
      using sched(2) by (simp add: s1_def rd_def split: if_splits)
  qed
  then obtain sched' where wt: "wait_while (mirror_pending k) change_mirror_index sched s1 =
      Some (sched', s1\<lparr>g_mirror_info := (g_mirror_info s1)[nat k := flip_mirror info1]\<rparr>)"
    by blast
  have run: "spp_mirror_update change_mirror_index sched c s =
      Some (SPP_RET_OK, sched', s1\<lparr>g_mirror_info := (g_mirror_info s1)[nat k := flip_mirror info1]\<rparr>)"
    unfolding spp_mirror_update_def Let_def k_def [symmetric]
    using ri ro num ps1(1) ps2(1) w1 w2 wt
    by (simp add: path_def [symmetric] s1_def)
  note fl = mirror_table.flip_publish_put [OF st(1), of path, folded info1_def]
  show ?thesis
    by (intro exI [of _ sched'] exI [of _ "s1\<lparr>g_mirror_info := (g_mirror_info s1)[nat k := flip_mirror info1]\<rparr>"]
        exI [of _ "flip_mirror info1"] exI [of _ path])
      (use run fl ps1(3) ps2(2,3) in \<open>simp add: path_def s1_def k_def\<close>)
qed

section \<open>Failures\<close>

text \<open>After the pool of the clones was made, main of spp_mirror returns SPP_RET_OK on every
  path, also when the connection cannot be initialised, when the workers do not become idle and
  when the command loop ends with an error: the variable ret was overwritten by the result of
  mirror_pool_create.\<close>
theorem mirror_exit_status:
  assumes "mirror_main ret_dpdk ret_parse ret_init look_up create env serve slaves n_avail s v = Some (ret, s')"
    and "0 \<le> ret_dpdk" and "ret_parse = 0"
    and "fst (mirror_pool_create look_up create (client_id (g_startup_param s)) v) \<noteq> SPP_RET_NG"
  shows "ret = SPP_RET_OK"
proof -
  obtain pool v1 where "mirror_pool_create look_up create (client_id (g_startup_param s)) v = (SPP_RET_OK, pool, v1)"
    using assms(4) by (auto simp: mirror_pool_create_def Let_def split: prod.splits if_splits)
  then show ?thesis
    using assms(1-3)
    by (auto simp: mirror_main_def Let_def bind_Some_iff split: if_splits)
qed

text \<open>A clone shares the buffer of its original: what is stored through the clone is read through
  the original, at the original's own offset and length.\<close>

definition shares_buffer :: "'w dpdk \<Rightarrow> nat \<Rightarrow> nat \<Rightarrow> bool" where
  "shares_buffer D c i \<longleftrightarrow> (\<forall>m w. mbuf_load D (mbuf_store D c m w) c = m \<and>
    mbuf_load D (mbuf_store D c m w) i = (mbuf_load D w i)\<lparr>m_buf := m_buf m\<rparr>)"

definition prepend_law :: "'w dpdk \<Rightarrow> bool" where
  "prepend_law D \<longleftrightarrow> (\<forall>m n. rte_pktmbuf_prepend D m n =
    (if n \<le> m_off m then Some (m\<lparr>m_off := m_off m - n, m_len := m_len m + n\<rparr>) else None))"

text \<open>add_vlantag_packet only uses the prepend and the checksum of DPDK, so its effect on one packet
  is the one proved for packets with buffers of their own.\<close>

lemma add_vlantag_any_store:
  assumes "prepend_law D" and "m_off m + m_len m + 4 \<le> length (m_buf m)" and "14 \<le> m_len m"
    and "\<not> tagged (frame m)" and "4 \<le> m_off m"
  shows "\<exists>m'. add_vlantag_packet D tpid_be m tag = Some (SPP_RET_OK, m') \<and>
    m_off m' = m_off m - 4 \<and> m_len m' = m_len m + 4 \<and> length (m_buf m') = length (m_buf m) \<and>
    frame m' = take 12 (frame m) @ [0x81, 0x00] @ tci_bytes tag @ drop 12 (frame m)"
proof -
  define D' :: "(nat \<Rightarrow> mbuf) dpdk" where
    "D' = \<lparr>rte_eth_rx_burst = (\<lambda>_ _ w. ([], w)), rte_eth_tx_burst = (\<lambda>_ _ _. None), rte_pktmbuf_free = (\<lambda>_ _. None),
      rte_mbuf_refcnt_update = (\<lambda>_ _ w. w), mbuf_load = (\<lambda>w. w), mbuf_store = (\<lambda>i m w. w(i := m)),
      rte_pktmbuf_prepend = rte_pktmbuf_prepend D,
      rte_pktmbuf_adj = (\<lambda>m n. if n \<le> m_len m then Some (m\<lparr>m_off := m_off m + n, m_len := m_len m - n\<rparr>) else None),
      rte_net_crc_calc = rte_net_crc_calc D\<rparr>"
  have "mbuf_laws D'" using assms(1) by (simp add: D'_def mbuf_laws_def prepend_law_def)
  moreover have "add_vlantag_packet D = add_vlantag_packet D'"
  proof -
    have f: "rte_pktmbuf_prepend D' = rte_pktmbuf_prepend D" "rte_net_crc_calc D' = rte_net_crc_calc D"
      by (simp_all add: D'_def)
    have "set_fcs_packet D' = set_fcs_packet D" by (intro ext) (simp add: set_fcs_packet_def f)
    then show ?thesis by (intro ext) (simp only: add_vlantag_packet_def f)
  qed
  ultimately show ?thesis using add_vlantag_untagged [OF _ assms(2-5)] by metis
qed

text \<open>When the second tx port of a mirror adds a VLAN tag, the packet sent to the first port is
  corrupted: after the tag was put into the clone, the frame of the original starts with what
  were its bytes 4 to 11, followed by the tag, in place of its two MAC addresses.\<close>
theorem mirrored_tag_corrupts_original:
  assumes laws: "prepend_law D" and share: "shares_buffer D c i"
    and same: "mbuf_load D w c = mbuf_load D w i"
    and m: "m = mbuf_load D w i" and room: "m_off m + m_len m + 4 \<le> length (m_buf m)" "14 \<le> m_len m"
    and "\<not> tagged (frame m)" and "4 \<le> m_off m"
  shows "\<exists>w'. add_vlantag_all_packets D tpid_be [c] tag w = Some (1, w') \<and>
    frame (mbuf_load D w' c) = take 12 (frame m) @ [0x81, 0x00] @ tci_bytes tag @ drop 12 (frame m) \<and>
    frame (mbuf_load D w' i) = take 8 (drop 4 (frame m)) @ [0x81, 0x00] @ tci_bytes tag @ drop 12 (frame m)"
proof -
  obtain m' where m': "add_vlantag_packet D tpid_be m tag = Some (SPP_RET_OK, m')"
      "m_off m' = m_off m - 4" "m_len m' = m_len m + 4" "length (m_buf m') = length (m_buf m)"
      "frame m' = take 12 (frame m) @ [0x81, 0x00] @ tci_bytes tag @ drop 12 (frame m)"
    using add_vlantag_any_store [OF laws room assms(7,8)] by blast
  define w' where "w' = mbuf_store D c m' w"
  have run: "add_vlantag_all_packets D tpid_be [c] tag w = Some (1, w')"
    using m'(1) same m by (simp add: add_vlantag_all_packets_def w'_def)
  have c: "mbuf_load D w' c = m'" "mbuf_load D w' i = m\<lparr>m_buf := m_buf m'\<rparr>"
    using share m by (simp_all add: shares_buffer_def w'_def)
  have "frame (m\<lparr>m_buf := m_buf m'\<rparr>) = drop 4 (frame m')"
    using m'(2,3) assms(8) by (simp add: frame_def drop_take)
  also have "\<dots> = take 8 (drop 4 (frame m)) @ [0x81, 0x00] @ tci_bytes tag @ drop 12 (frame m)"
    using m'(5) frame_length [of m] room by (simp add: drop_take)
  finally show ?thesis using run c m'(5) by auto
qed

end
