(* ===== verification/Demo_Mirror.thy ===== *)
theory Demo_Mirror
  imports Demo_Packets Mirror
begin

text \<open>
  The witnesses of the theorems about spp_mirror: the mirror component m1 receives from port 0
  and sends to the ports 0 and 1.
\<close>

definition demo_mirror_path :: mirror_path where
  "demo_mirror_path = \<lparr>mp_name = ''m1'', mp_type = SPP_COMPONENT_MIRROR, mp_num_rx = 1, mp_num_tx = 2,
     mp_ports = [\<lparr>mr_rx = demo_port PHY 0 0, mr_tx = demo_port PHY 0 0\<rparr>,
                 \<lparr>mr_rx = zero_port, mr_tx = demo_port PHY 1 1\<rparr>]\<rparr>"

definition demo_mirror_info :: mirror_info where
  "demo_mirror_info = \<lparr>mr_ref_index = 0, mr_upd_index = 1, mr_path = [demo_mirror_path, zero_mirror_path 2]\<rparr>"

definition demo_mirror_component :: spp_component_info where
  "demo_mirror_component = \<lparr>name = ''m1'', comp_type = SPP_COMPONENT_MIRROR, lcore_id = 1, component_id = 0,
     num_rx_port = 1, num_tx_port = 2,
     rx_ports = [Some (PHY, 0), None], tx_ports = [Some (PHY, 0), Some (PHY, 1)]\<rparr>"

definition demo_mirror :: mirror_data where
  "demo_mirror = \<lparr>
     g_startup_param = \<lparr>client_id = 1, server_ip = ''127.0.0.1'', server_port = 6666,
       vhost_client = 0, secondary_type = SECONDARY_TYPE_MIRROR\<rparr>,
     g_iface_info = demo_iface,
     g_component_info = [demo_mirror_component, zero_component 2],
     g_core_info = [demo_core, demo_core],
     g_change_core = [0, 0], g_change_component = [0, 0],
     g_backup_info = \<lparr>bk_core = [demo_core, demo_core],
       bk_component = [demo_mirror_component, zero_component 2], bk_interface = demo_iface\<rparr>,
     g_main_lcore_id = 0,
     g_vlan_tpid = cpu_to_be_16 ETHER_TYPE_VLAN, g_port_mng_info = demo_ports zero_ability,
     chg_num_rx = 0, chg_rx_list = [0, 0], chg_num_tx = 0, chg_tx_list = [0, 0],
     g_mirror_info = [demo_mirror_info, demo_mirror_info]\<rparr>"

text \<open>A clone of packet i is the packet i + 100.\<close>

definition demo_clone :: "sim pktmbuf_clone" where
  "demo_clone i w = (Some (i + 100), w\<lparr>s_held := s_held w + {#i + 100#}\<rparr>)"

lemma demo_plain:
  "plain_port demo_mirror 0 SPP_PORT_RXTX_RX" "plain_port demo_mirror 0 SPP_PORT_RXTX_TX"
  "plain_port demo_mirror 1 SPP_PORT_RXTX_TX"
  by (simp_all add: plain_port_def spp_port_ability_get_info_def ability_mng_def rd_def demo_mirror_def
      demo_ports_def demo_ability_def zero_ability_def)

lemma mirror_packet_accounting_witness:
  "\<exists>copies w2 n2 w3 n1 w4 w'. mirror_proc demo_dpdk demo_clone 0 demo_mirror demo_world = Some (0, demo_mirror, w') \<and>
    mirror_clones demo_clone [5, 6] (snd (rte_eth_rx_burst demo_dpdk 0 MAX_PKT_BURST demo_world)) =
      (List.map Some copies, w2) \<and>
    rte_eth_tx_burst demo_dpdk 1 copies w2 = Some (n2, w3) \<and> rte_eth_tx_burst demo_dpdk 0 [5, 6] w3 = Some (n1, w4) \<and>
    s_held w' = mset (take (n2 - n1) (drop n1 [5, 6]))"
proof -
  define w1 where "w1 = snd (rte_eth_rx_burst demo_dpdk 0 MAX_PKT_BURST demo_world)"
  have rx: "rte_eth_rx_burst demo_dpdk 0 MAX_PKT_BURST demo_world = ([5, 6], w1)"
    by (simp add: w1_def demo_dpdk_def sim_rx_def Let_def demo_world_def MAX_PKT_BURST_def)
  have chg: "change_mirror_index 0 demo_mirror = Some demo_mirror"
    by (simp add: change_mirror_index_def rd_def demo_mirror_def demo_mirror_info_def)
  have info: "rd (g_mirror_info demo_mirror) 0 = Some demo_mirror_info" by (simp add: rd_def demo_mirror_def)
  have path: "rd (mr_path demo_mirror_info) (mr_ref_index demo_mirror_info) = Some demo_mirror_path"
    by (simp add: rd_def demo_mirror_info_def)
  have num: "mp_num_tx demo_mirror_path = 2" "mp_num_rx demo_mirror_path = 1" by (simp_all add: demo_mirror_path_def)
  define r0 where "r0 = \<lparr>mr_rx = demo_port PHY 0 0, mr_tx = demo_port PHY 0 0\<rparr>"
  define r1 where "r1 = \<lparr>mr_rx = zero_port, mr_tx = demo_port PHY 1 1\<rparr>"
  have r: "rd (mp_ports demo_mirror_path) 0 = Some r0" "rd (mp_ports demo_mirror_path) 1 = Some r1"
    by (simp_all add: rd_def demo_mirror_path_def r0_def r1_def)
  have ports: "dpdk_port (mr_rx r0) = 0" "dpdk_port (mr_tx r0) = 0" "dpdk_port (mr_tx r1) = 1"
    by (simp_all add: r0_def r1_def demo_port_def)
  have pool: "pool_sufficient demo_clone s_held" by (simp add: pool_sufficient_def demo_clone_def)
  have "s_held demo_world = {#}" by (simp add: demo_world_def)
  then show ?thesis
    using mirror_packet_accounting [OF demo_dpdk_laws(2) pool chg info path num r,
        unfolded ports, OF demo_plain rx]
    unfolding w1_def [symmetric] by auto
qed

lemma spp_mirror_update_takes_effect_witness:
  "\<exists>sched' s' info path. spp_mirror_update change_mirror_index [1, 0] demo_mirror_component demo_mirror =
      Some (0, sched', s') \<and>
    g_mirror_info s' = [info, demo_mirror_info] \<and> mirror_table.in_use info = path \<and>
    mp_name path = ''m1'' \<and> mp_num_rx path = 1 \<and> mp_num_tx path = 2 \<and>
    mr_rx (mp_ports path ! 0) = demo_port PHY 0 0 \<and> mr_tx (mp_ports path ! 0) = demo_port PHY 0 0 \<and>
    mr_tx (mp_ports path ! 1) = demo_port PHY 1 1"
proof -
  let ?c = demo_mirror_component and ?s = demo_mirror
  have c: "component_id ?c = 0" "num_rx_port ?c = 1" "num_tx_port ?c = 2" "length (rx_ports ?c) = 2"
      "length (tx_ports ?c) = 2" "name ?c = ''m1''"
    by (simp_all add: demo_mirror_component_def)
  have s: "length (g_mirror_info ?s) = 2" "ports_calm ?s" "g_mirror_info ?s = [demo_mirror_info, demo_mirror_info]"
    by (simp_all add: demo_mirror_def ports_calm_def)
  have settled: "\<forall>inf\<in>set (g_mirror_info ?s). mirror_table.settled inf \<and> (\<forall>p\<in>set (mr_path inf). length (mp_ports p) = length (rx_ports ?c))"
    by (simp add: s(3) c(4) mirror_table.settled_def demo_mirror_info_def demo_mirror_path_def zero_mirror_path_def
        other_area_def SPP_INFO_AREA_MAX_def)
  have lp: "load_port ?s (Some (PHY, 0)) = Some (demo_port PHY 0 0)" "load_port ?s (Some (PHY, 1)) = Some (demo_port PHY 1 1)"
    by (simp_all add: load_port_def rd_def demo_mirror_def demo_iface_def)
  have ports: "rx_ports ?c ! 0 = Some (PHY, 0)" "tx_ports ?c ! 0 = Some (PHY, 0)" "tx_ports ?c ! 1 = Some (PHY, 1)"
    by (simp_all add: demo_mirror_component_def)
  have ok: "\<forall>j<nat (num_rx_port ?c). load_port ?s (rx_ports ?c ! j) \<noteq> None"
      "\<forall>j<nat (num_tx_port ?c). load_port ?s (tx_ports ?c ! j) \<noteq> None"
    using lp ports by (auto simp: c less_2_cases_iff)
  have sched: "component_id ?c \<in> set [1, 0]" "\<forall>e\<in>set [1, 0 :: int]. rd (g_mirror_info ?s) e \<noteq> None"
    by (simp_all add: c s rd_def)
  obtain sched' s' info path where r: "spp_mirror_update change_mirror_index [1, 0] ?c ?s = Some (0, sched', s')"
      "g_mirror_info s' = (g_mirror_info ?s)[nat (component_id ?c) := info]" "mirror_table.in_use info = path"
      "mp_name path = name ?c" "mp_num_rx path = num_rx_port ?c" "mp_num_tx path = num_tx_port ?c"
      "\<forall>j<nat (num_rx_port ?c). Some (mr_rx (mp_ports path ! j)) = load_port ?s (rx_ports ?c ! j)"
      "\<forall>j<nat (num_tx_port ?c). Some (mr_tx (mp_ports path ! j)) = load_port ?s (tx_ports ?c ! j)"
    using spp_mirror_update_takes_effect [OF s(2) _ _ settled _ _ _ _ _ _ ok sched] c s(1) by auto
  have "mr_rx (mp_ports path ! 0) = demo_port PHY 0 0" using r(7) lp ports by (simp add: c)
  moreover have "mr_tx (mp_ports path ! 0) = demo_port PHY 0 0" "mr_tx (mp_ports path ! 1) = demo_port PHY 1 1"
    using r(8) [rule_format, of 0] r(8) [rule_format, of 1] lp ports by (simp_all add: c)
  ultimately show ?thesis using r(1-6) by (simp add: c s(3))
qed

text \<open>A process whose connection to the controller cannot be initialised.\<close>

lemma mirror_exit_status_witness:
  "mirror_main 0 0 (- 1) (\<lambda>_ _. Some (0 :: nat)) (\<lambda>_ _ _ _ v. (None, v)) (\<lambda>_ s. s) (\<lambda>_. None) [1] 2 demo_mirror (0 :: nat) \<noteq> None \<and>
   (\<forall>ret s'. mirror_main 0 0 (- 1) (\<lambda>_ _. Some (0 :: nat)) (\<lambda>_ _ _ _ v. (None, v)) (\<lambda>_ s. s) (\<lambda>_. None) [1] 2 demo_mirror (0 :: nat) =
     Some (ret, s') \<longrightarrow> ret = 0)"
proof -
  have pool: "mirror_pool_create (\<lambda>_ _. Some (0 :: nat)) (\<lambda>_ _ _ _ v. (None, v)) i (0 :: nat) = (0, Some (0 :: nat), 0)" for i
    by (simp add: mirror_pool_create_def Let_def)
  obtain s1 where "init_mng_data [1] 2 demo_mirror = Some (0, s1)"
    by (simp add: init_mng_data_def init_core_info_def set_core_status_def init_iface_info_def Let_def
        set_nic_interface_def demo_mirror_def rd_def wr_def)
  then have "mirror_main 0 0 (- 1) (\<lambda>_ _. Some (0 :: nat)) (\<lambda>_ _ _ _ v. (None, v)) (\<lambda>_ s. s) (\<lambda>_. None) [1] 2 demo_mirror (0 :: nat) \<noteq> None"
    by (simp add: mirror_main_def pool)
  then show ?thesis
    using mirror_exit_status [of 0 0 "- 1" "\<lambda>_ _. Some (0 :: nat)" "\<lambda>_ _ _ _ v. (None, v)" "\<lambda>_ s. s" "\<lambda>_. None" "[1]" 2 demo_mirror "0 :: nat"]
    by (simp add: pool)
qed

text \<open>Packets 5 and 105 share the buffer.\<close>

definition alias_dpdk :: "(nat \<Rightarrow> mbuf) dpdk" where
  "alias_dpdk = \<lparr>rte_eth_rx_burst = (\<lambda>_ _ w. ([], w)), rte_eth_tx_burst = (\<lambda>_ _ _. None), rte_pktmbuf_free = (\<lambda>_ _. None),
     rte_mbuf_refcnt_update = (\<lambda>_ _ w. w), mbuf_load = (\<lambda>w. w),
     mbuf_store = (\<lambda>i m w j. if j = i then m else if {i, j} = {5, 105} then (w j)\<lparr>m_buf := m_buf m\<rparr> else w j),
     rte_pktmbuf_prepend = (\<lambda>m n. if n \<le> m_off m then Some (m\<lparr>m_off := m_off m - n, m_len := m_len m + n\<rparr>) else None),
     rte_pktmbuf_adj = (\<lambda>m n. if n \<le> m_len m then Some (m\<lparr>m_off := m_off m + n, m_len := m_len m - n\<rparr>) else None),
     rte_net_crc_calc = (\<lambda>_. 0)\<rparr>"

lemma mirrored_tag_corrupts_original_witness:
  "\<exists>w'. add_vlantag_all_packets alias_dpdk tpid_be [105] \<lparr>vid = 100, pcp = 0, tci = 0x6400\<rparr> (\<lambda>_. demo_mbuf) = Some (1, w') \<and>
    frame (mbuf_load alias_dpdk w' 5) =
      replicate 8 0 @ [0x81, 0x00] @ tci_bytes \<lparr>vid = 100, pcp = 0, tci = 0x6400\<rparr> @ replicate 48 0"
proof -
  have "prepend_law alias_dpdk" "shares_buffer alias_dpdk 105 5"
    by (simp_all add: prepend_law_def shares_buffer_def alias_dpdk_def insert_commute)
  moreover have "mbuf_load alias_dpdk (\<lambda>_. demo_mbuf) 105 = mbuf_load alias_dpdk (\<lambda>_. demo_mbuf) 5"
      "demo_mbuf = mbuf_load alias_dpdk (\<lambda>_. demo_mbuf) 5"
    by (simp_all add: alias_dpdk_def)
  moreover have "m_off demo_mbuf + m_len demo_mbuf + 4 \<le> length (m_buf demo_mbuf)" "14 \<le> m_len demo_mbuf" "4 \<le> m_off demo_mbuf"
    by (simp_all add: demo_mbuf_def)
  ultimately show ?thesis
    using mirrored_tag_corrupts_original [OF _ _ _ _ _ _ demo_untagged,
        of alias_dpdk 105 5 "\<lambda>_. demo_mbuf" "\<lparr>vid = 100, pcp = 0, tci = 0x6400\<rparr>"]
    by (auto simp: demo_frame)
qed

end
