(* ===== verification/Mirror_Deep.thy ===== *)
theory Mirror_Deep
  imports Mirror
begin

text \<open>
  mirror/spp_mirror.c in the build without SPP_MIRROR_SHALLOWCOPY: the copy of a packet, segment by
  segment.  The memory maps the address of an allocated mbuf to the structure; rte_pktmbuf_alloc and
  rte_pktmbuf_free are arguments with documented laws.  None is undefined behaviour: reading an
  address that is not allocated, or copying past the end of a buffer.
\<close>

section \<open>Segments\<close>

text \<open>The members of struct rte_mbuf that the code reads or writes, with the buffer behind buf_addr.\<close>

record segment =
  sg_data_off :: nat
  sg_data_len :: nat
  sg_port :: nat
  sg_vlan_tci :: "16 word"
  sg_tx_offload :: "64 word"
  sg_hash :: "64 word"
  sg_next :: "nat option"
  sg_pkt_len :: nat
  sg_nb_segs :: nat
  sg_ol_flags :: "64 word"
  sg_packet_type :: "32 word"
  sg_buf :: "8 word list"

type_synonym segments = "nat \<Rightarrow> segment option"

record seg_pool =
  pktmbuf_alloc :: "segments \<Rightarrow> (nat \<times> segment) option"
  pktmbuf_free :: "nat option \<Rightarrow> segments \<Rightarrow> segments"

definition seg_data :: "segment \<Rightarrow> 8 word list" where
  "seg_data s = take (sg_data_len s) (drop (sg_data_off s) (sg_buf s))"

definition rte_memcpy_at :: "8 word list \<Rightarrow> nat \<Rightarrow> 8 word list \<Rightarrow> 8 word list option" where
  "rte_memcpy_at buf off bs =
    (if off + length bs \<le> length buf then Some (take off buf @ bs @ drop (off + length bs) buf) else None)"

definition copy_segment :: "segment \<Rightarrow> segment \<Rightarrow> segment option" where
  "copy_segment org copy = do {
     ensure (sg_data_off org + sg_data_len org \<le> length (sg_buf org));
     buf \<leftarrow> rte_memcpy_at (sg_buf copy) (sg_data_off org) (seg_data org);
     Some (copy\<lparr>sg_data_off := sg_data_off org, sg_data_len := sg_data_len org, sg_port := sg_port org,
       sg_vlan_tci := sg_vlan_tci org, sg_tx_offload := sg_tx_offload org, sg_hash := sg_hash org,
       sg_next := None, sg_pkt_len := sg_pkt_len org, sg_nb_segs := sg_nb_segs org, sg_ol_flags := sg_ol_flags org,
       sg_packet_type := sg_packet_type org, sg_buf := buf\<rparr>)
   }"

text \<open>The do loop.  head is mirror_mbuf; mirror_mbufs points to head itself at first (tail is None)
  and to the member next of the last copy afterwards.\<close>

definition link_segment :: "nat option \<Rightarrow> nat option \<Rightarrow> nat \<Rightarrow> segments \<Rightarrow> (nat option \<times> segments) option" where
  "link_segment head tail c m =
    (case tail of
       None \<Rightarrow> Some (Some c, m)
     | Some t \<Rightarrow> do { s \<leftarrow> m t; Some (head, m(t \<mapsto> s\<lparr>sg_next := Some c\<rparr>)) })"

partial_function (option) deep_copy_loop ::
  "seg_pool \<Rightarrow> nat \<Rightarrow> nat option \<Rightarrow> nat option \<Rightarrow> segments \<Rightarrow> (nat option \<times> segments) option" where
  "deep_copy_loop A org head tail m =
    (case pktmbuf_alloc A m of
       None \<Rightarrow> Some (None, pktmbuf_free A head m)
     | Some (c, s0) \<Rightarrow> do {
         seg \<leftarrow> m org;
         s \<leftarrow> copy_segment seg s0;
         (head1, m1) \<leftarrow> link_segment head tail c (m(c \<mapsto> s));
         seg1 \<leftarrow> m1 org;
         case sg_next seg1 of
           None \<Rightarrow> Some (head1, m1)
         | Some n \<Rightarrow> deep_copy_loop A n head1 (Some c) m1
       })"

definition deep_copy :: "seg_pool \<Rightarrow> nat \<Rightarrow> segments \<Rightarrow> (nat option \<times> segments) option" where
  "deep_copy A org m = deep_copy_loop A org None None m"

text \<open>The loop over the packets of a burst: copybufs, with NULL for a packet that was not copied.\<close>

fun deep_copies :: "seg_pool \<Rightarrow> nat list \<Rightarrow> segments \<Rightarrow> (nat option list \<times> segments) option" where
  "deep_copies A [] m = Some ([], m)"
| "deep_copies A (org # orgs) m = do {
     (c, m1) \<leftarrow> deep_copy A org m;
     (cs, m2) \<leftarrow> deep_copies A orgs m1;
     Some (c # cs, m2)
   }"

section \<open>Chains\<close>

fun seg_path :: "segments \<Rightarrow> nat option \<Rightarrow> nat list \<Rightarrow> nat option \<Rightarrow> bool" where
  "seg_path m p [] q \<longleftrightarrow> p = q"
| "seg_path m p (a # as) q \<longleftrightarrow> p = Some a \<and> (\<exists>s. m a = Some s \<and> seg_path m (sg_next s) as q)"

abbreviation seg_chain :: "segments \<Rightarrow> nat option \<Rightarrow> nat list \<Rightarrow> bool" where
  "seg_chain m p as \<equiv> seg_path m p as None"

lemma seg_path_append: "seg_path m p (as @ bs) q \<longleftrightarrow> (\<exists>r. seg_path m p as r \<and> seg_path m r bs q)"
  by (induction as arbitrary: p) auto

lemma seg_path_cong: "seg_path m p as q \<Longrightarrow> \<forall>a\<in>set as. m' a = m a \<Longrightarrow> seg_path m' p as q"
  by (induction as arbitrary: p) auto

lemma seg_path_dom: "seg_path m p as q \<Longrightarrow> set as \<subseteq> dom m"
  by (induction as arbitrary: p) auto

section \<open>The laws of the pool\<close>

text \<open>A new mbuf is one that was not allocated, with room for data; freeing a chain gives back its
  segments and freeing NULL does nothing.\<close>

definition pool_laws :: "seg_pool \<Rightarrow> nat \<Rightarrow> bool" where
  "pool_laws A room \<longleftrightarrow>
    (\<forall>m a s. pktmbuf_alloc A m = Some (a, s) \<longrightarrow> m a = None \<and> room \<le> length (sg_buf s)) \<and>
    (\<forall>m p as. seg_chain m p as \<longrightarrow> distinct as \<longrightarrow> pktmbuf_free A p m = m |` (- set as))"

text \<open>A segment whose data lies in its buffer and in the room of a new one.\<close>

definition seg_fits :: "nat \<Rightarrow> segment \<Rightarrow> bool" where
  "seg_fits room s \<longleftrightarrow> sg_data_off s + sg_data_len s \<le> min room (length (sg_buf s))"

text \<open>The same segment up to the pointer and the bytes outside the data.\<close>

definition seg_copy :: "segment \<Rightarrow> segment \<Rightarrow> bool" where
  "seg_copy s t \<longleftrightarrow> seg_data t = seg_data s \<and> t = s\<lparr>sg_next := sg_next t, sg_buf := sg_buf t\<rparr>"

lemma memcpy_ok: "off + length bs \<le> length buf \<Longrightarrow>
    \<exists>buf'. rte_memcpy_at buf off bs = Some buf' \<and> take (length bs) (drop off buf') = bs"
  by (simp add: rte_memcpy_at_def)

lemma copy_segment_ok:
  assumes "seg_fits room s" and "room \<le> length (sg_buf s0)"
  shows "\<exists>t. copy_segment s s0 = Some t \<and> sg_next t = None \<and> seg_copy s t"
proof -
  have l: "length (seg_data s) = sg_data_len s" using assms(1) by (auto simp: seg_data_def seg_fits_def)
  then have "sg_data_off s + length (seg_data s) \<le> length (sg_buf s0)" using assms by (simp add: seg_fits_def)
  from memcpy_ok [OF this] obtain buf' where b: "rte_memcpy_at (sg_buf s0) (sg_data_off s) (seg_data s) = Some buf'"
      "take (length (seg_data s)) (drop (sg_data_off s) buf') = seg_data s" by blast
  then show ?thesis using assms(1) l
    by (intro exI [of _ "s\<lparr>sg_next := None, sg_buf := buf'\<rparr>"])
      (simp add: copy_segment_def seg_fits_def seg_copy_def, simp add: seg_data_def)
qed

section \<open>The loop\<close>

text \<open>What the loop has built: a chain of new mbufs, the last of which is the tail, behind memory that
  it has not touched.\<close>

definition built :: "segments \<Rightarrow> nat list \<Rightarrow> nat option \<Rightarrow> nat option \<Rightarrow> segments \<Rightarrow> bool" where
  "built m0 cs head tail m \<longleftrightarrow> seg_chain m head cs \<and> distinct cs \<and> set cs \<inter> dom m0 = {} \<and>
     (\<forall>a. a \<notin> set cs \<longrightarrow> m a = m0 a) \<and> tail = (if cs = [] then None else Some (last cs))"

lemma built_free:
  assumes "built m0 cs head tail m" and "pool_laws A room"
  shows "pktmbuf_free A head m = m0"
proof -
  have "pktmbuf_free A head m = m |` (- set cs)" using assms unfolding built_def pool_laws_def by blast
  also have "\<dots> = m0"
  proof
    fix a
    have "a \<in> set cs \<Longrightarrow> m0 a = None" using assms(1) by (auto simp: built_def)
    then show "(m |` (- set cs)) a = m0 a" using assms(1) by (cases "a \<in> set cs") (simp_all add: built_def)
  qed
  finally show ?thesis .
qed

lemma built_fresh:
  assumes "built m0 cs head tail m" and "m c = None"
  shows "c \<notin> set cs" and "m0 c = None"
proof -
  show c: "c \<notin> set cs" using assms seg_path_dom [of m head cs None] by (auto simp: built_def)
  then show "m0 c = None" using assms by (simp add: built_def)
qed

text \<open>Two memories whose segments differ only in their pointers.\<close>

definition same_but_next :: "nat set \<Rightarrow> segments \<Rightarrow> segments \<Rightarrow> bool" where
  "same_but_next S m m' \<longleftrightarrow> (\<forall>a\<in>S. \<exists>s n. m a = Some s \<and> m' a = Some (s\<lparr>sg_next := n\<rparr>))"

lemma built_link:
  assumes b: "built m0 cs head tail m" and c: "m c = None" and s: "sg_next s = None"
  shows "\<exists>head1 m1. link_segment head tail c (m(c \<mapsto> s)) = Some (head1, m1) \<and> built m0 (cs @ [c]) head1 (Some c) m1 \<and>
    m1 c = Some s \<and> same_but_next (set cs) m m1"
proof (cases cs rule: rev_cases)
  case Nil
  have m: "m = m0" using b by (auto simp: built_def Nil)
  have "built m0 [c] (Some c) (Some c) (m(c \<mapsto> s))"
    using c s by (auto simp: built_def m)
  then show ?thesis using b by (simp add: Nil built_def link_segment_def same_but_next_def)
next
  case (snoc as t)
  have fresh: "c \<notin> set cs" "m0 c = None" using built_fresh [OF b c] by auto
  have d: "distinct as" "t \<notin> set as" "c \<noteq> t" "c \<notin> set as" using b fresh by (auto simp: built_def snoc)
  obtain u where u: "seg_path m head as (Some t)" "m t = Some u" "tail = Some t"
    using b by (auto simp: built_def snoc seg_path_append)
  let ?m1 = "m(c \<mapsto> s, t \<mapsto> u\<lparr>sg_next := Some c\<rparr>)"
  have "seg_path ?m1 head as (Some t)" by (rule seg_path_cong [OF u(1)]) (use d in auto)
  then have "seg_chain ?m1 head (cs @ [c])" using d s by (simp add: snoc seg_path_append)
  moreover have "\<forall>a. a \<notin> set (cs @ [c]) \<longrightarrow> ?m1 a = m0 a" using b by (auto simp: built_def snoc)
  ultimately have "built m0 (cs @ [c]) head (Some c) ?m1" using b fresh by (auto simp: built_def)
  moreover have "same_but_next (set cs) m ?m1"
    unfolding same_but_next_def
  proof
    fix a assume a: "a \<in> set cs"
    then obtain v where v: "m a = Some v" using b seg_path_dom [of m head cs None] by (auto simp: built_def)
    have "?m1 a = Some (v\<lparr>sg_next := if a = t then Some c else sg_next v\<rparr>)" using v u(2) a fresh by auto
    then show "\<exists>s n. m a = Some s \<and> ?m1 a = Some (s\<lparr>sg_next := n\<rparr>)" using v by blast
  qed
  ultimately show ?thesis using u(2,3) d by (auto simp: link_segment_def)
qed

text \<open>The segments copied so far.\<close>

definition copied :: "segments \<Rightarrow> segments \<Rightarrow> nat list \<Rightarrow> nat list \<Rightarrow> bool" where
  "copied m0 m as cs \<longleftrightarrow> list_all2 (\<lambda>a c. seg_copy (the (m0 a)) (the (m c))) as cs"

lemma seg_copy_next: "seg_copy s t \<Longrightarrow> seg_copy s (t\<lparr>sg_next := n\<rparr>)"
  by (cases s; cases t) (auto simp: seg_copy_def seg_data_def)

lemma copied_next:
  assumes "copied m0 m as cs" and "same_but_next (set cs) m m1"
  shows "copied m0 m1 as cs"
  unfolding copied_def
proof (rule list.rel_mono_strong [OF assms(1) [unfolded copied_def]])
  fix a c assume "c \<in> set cs" and s: "seg_copy (the (m0 a)) (the (m c))"
  then obtain u n where "m c = Some u" "m1 c = Some (u\<lparr>sg_next := n\<rparr>)" using assms(2) by (auto simp: same_but_next_def)
  then show "seg_copy (the (m0 a)) (the (m1 c))" using seg_copy_next s by simp
qed

text \<open>One turn: when an mbuf is there, the segment is copied behind the chain.\<close>

lemma copy_turn:
  assumes laws: "pool_laws A room" and b: "built m0 cs head tail m" and cp: "copied m0 m ps cs"
    and a: "m0 org = Some seg" "seg_fits room seg" and al: "pktmbuf_alloc A m = Some (c, s0)"
  shows "\<exists>head1 m1 s. copy_segment seg s0 = Some s \<and> link_segment head tail c (m(c \<mapsto> s)) = Some (head1, m1) \<and>
    m org = Some seg \<and> m1 org = Some seg \<and> built m0 (cs @ [c]) head1 (Some c) m1 \<and> copied m0 m1 (ps @ [org]) (cs @ [c])"
proof -
  have c: "m c = None" "room \<le> length (sg_buf s0)" using laws al by (auto simp: pool_laws_def)
  obtain s where s: "copy_segment seg s0 = Some s" "sg_next s = None" "seg_copy seg s"
    using copy_segment_ok [OF a(2) c(2)] by blast
  obtain head1 m1 where l: "link_segment head tail c (m(c \<mapsto> s)) = Some (head1, m1)" "built m0 (cs @ [c]) head1 (Some c) m1"
      "m1 c = Some s" "same_but_next (set cs) m m1"
    using built_link [OF b c(1) s(2)] by blast
  have "org \<notin> set cs" "org \<noteq> c" using b l(2) a(1) by (auto simp: built_def)
  then have "m org = Some seg" "m1 org = Some seg" using b l(2) a(1) by (auto simp: built_def)
  moreover have "copied m0 m1 (ps @ [org]) (cs @ [c])"
    using copied_next [OF cp l(4)] s(3) a(1) l(3) by (simp add: copied_def list_all2_appendI)
  ultimately show ?thesis using s(1) l(1,2) by blast
qed

lemma deep_copy_loop_ok:
  assumes laws: "pool_laws A room"
  shows "seg_chain m0 (Some org) (org # as) \<Longrightarrow> \<forall>a\<in>set (org # as). seg_fits room (the (m0 a)) \<Longrightarrow>
    built m0 cs head tail m \<Longrightarrow> copied m0 m ps cs \<Longrightarrow>
    \<exists>h m'. deep_copy_loop A org head tail m = Some (h, m') \<and>
      (h = None \<and> m' = m0 \<and> (\<exists>u. pktmbuf_alloc A u = None) \<or>
       (\<exists>ds t. ds \<noteq> [] \<and> built m0 ds h t m' \<and> copied m0 m' (ps @ org # as) ds))"
proof (induction as arbitrary: org cs head tail m ps)
  case (Nil org)
  obtain seg where seg: "m0 org = Some seg" "sg_next seg = None" using Nil.prems(1) by auto
  show ?case
  proof (cases "pktmbuf_alloc A m")
    case None
    then show ?thesis using built_free [OF Nil.prems(3) laws] by (subst deep_copy_loop.simps) auto
  next
    case (Some r)
    then obtain c s0 where al: "pktmbuf_alloc A m = Some (c, s0)" by (cases r) auto
    have fit: "seg_fits room seg" using Nil.prems(2) seg(1) by simp
    from copy_turn [OF laws Nil.prems(3,4) seg(1) fit al] obtain head1 m1 s where
      t: "copy_segment seg s0 = Some s" "link_segment head tail c (m(c \<mapsto> s)) = Some (head1, m1)"
        "m org = Some seg" "m1 org = Some seg" "built m0 (cs @ [c]) head1 (Some c) m1" "copied m0 m1 (ps @ [org]) (cs @ [c])"
      by blast
    have "deep_copy_loop A org head tail m = Some (head1, m1)"
      using al t(1-4) seg(2) by (subst deep_copy_loop.simps) simp
    then show ?thesis using t(5,6) by blast
  qed
next
  case (Cons a as org)
  obtain seg where seg: "m0 org = Some seg" "sg_next seg = Some a" "seg_chain m0 (Some a) (a # as)"
    using Cons.prems(1) by auto
  show ?case
  proof (cases "pktmbuf_alloc A m")
    case None
    then show ?thesis using built_free [OF Cons.prems(3) laws] by (subst deep_copy_loop.simps) auto
  next
    case (Some r)
    then obtain c s0 where al: "pktmbuf_alloc A m = Some (c, s0)" by (cases r) auto
    have fit: "seg_fits room seg" using Cons.prems(2) seg(1) by simp
    from copy_turn [OF laws Cons.prems(3,4) seg(1) fit al] obtain head1 m1 s where
      t: "copy_segment seg s0 = Some s" "link_segment head tail c (m(c \<mapsto> s)) = Some (head1, m1)"
        "m org = Some seg" "m1 org = Some seg" "built m0 (cs @ [c]) head1 (Some c) m1" "copied m0 m1 (ps @ [org]) (cs @ [c])"
      by blast
    have run: "deep_copy_loop A org head tail m = deep_copy_loop A a head1 (Some c) m1"
      using al t(1-4) seg(2) by (subst deep_copy_loop.simps) simp
    have fits: "\<forall>a\<in>set (a # as). seg_fits room (the (m0 a))" using Cons.prems(2) by simp
    show ?thesis using Cons.IH [OF seg(3) fits t(5,6)] unfolding run by simp
  qed
qed

section \<open>A burst\<close>

text \<open>The packet org has been copied to the chain cs that begins at h, or not at all.\<close>

definition copy_of :: "segments \<Rightarrow> segments \<Rightarrow> nat \<Rightarrow> nat option \<Rightarrow> nat list \<Rightarrow> bool" where
  "copy_of m m' org h cs \<longleftrightarrow>
    (if h = None then cs = []
     else seg_chain m' h cs \<and>
       (\<exists>as. seg_chain m (Some org) as \<and> list_all2 (\<lambda>a c. seg_copy (the (m a)) (the (m' c))) as cs))"

definition packet_fits :: "nat \<Rightarrow> segments \<Rightarrow> nat \<Rightarrow> bool" where
  "packet_fits room m org \<longleftrightarrow> (\<exists>as. seg_chain m (Some org) as \<and> (\<forall>a\<in>set as. seg_fits room (the (m a))))"

lemma deep_copy_ok:
  assumes "pool_laws A room" and "packet_fits room m org"
  shows "\<exists>h m' cs. deep_copy A org m = Some (h, m') \<and> distinct cs \<and> set cs \<inter> dom m = {} \<and>
    (\<forall>a. a \<notin> set cs \<longrightarrow> m' a = m a) \<and> copy_of m m' org h cs \<and> (h = None \<longrightarrow> (\<exists>u. pktmbuf_alloc A u = None))"
proof -
  obtain bs where bs: "seg_chain m (Some org) bs" "\<forall>a\<in>set bs. seg_fits room (the (m a))"
    using assms(2) by (auto simp: packet_fits_def)
  obtain as where as: "bs = org # as" using bs(1) by (cases bs) auto
  have b: "built m [] None None m" "copied m m [] []" by (simp_all add: built_def copied_def)
  obtain h m' where run: "deep_copy A org m = Some (h, m')"
    and res: "h = None \<and> m' = m \<and> (\<exists>u. pktmbuf_alloc A u = None) \<or>
      (\<exists>ds t. ds \<noteq> [] \<and> built m ds h t m' \<and> copied m m' bs ds)"
    using deep_copy_loop_ok [OF assms(1) bs [unfolded as] b] unfolding deep_copy_def as append_Nil by blast
  from res show ?thesis
  proof
    assume "h = None \<and> m' = m \<and> (\<exists>u. pktmbuf_alloc A u = None)"
    then show ?thesis using run by (intro exI [of _ h] exI [of _ m'] exI [of _ "[]"]) (simp add: copy_of_def)
  next
    assume "\<exists>ds t. ds \<noteq> [] \<and> built m ds h t m' \<and> copied m m' bs ds"
    then obtain ds t where d: "ds \<noteq> []" "built m ds h t m'" "copied m m' bs ds" by blast
    have "h \<noteq> None" using d(1,2) by (cases ds) (auto simp: built_def)
    moreover have "copy_of m m' org h ds" using d(2,3) bs(1) \<open>h \<noteq> None\<close> by (auto simp: copy_of_def built_def copied_def)
    ultimately show ?thesis using run d(2)
      by (intro exI [of _ h] exI [of _ m'] exI [of _ ds]) (auto simp: built_def)
  qed
qed

text \<open>A copy stays a copy when other memory changes.\<close>

lemma copy_of_mono:
  assumes "copy_of m m' org h cs" and "\<forall>a\<in>set cs. m'' a = m' a"
  shows "copy_of m m'' org h cs"
proof (cases "h = None")
  case True
  then show ?thesis using assms(1) by (simp add: copy_of_def)
next
  case False
  then obtain as where as: "seg_chain m' h cs" "seg_chain m (Some org) as"
      "list_all2 (\<lambda>a c. seg_copy (the (m a)) (the (m' c))) as cs"
    using assms(1) by (auto simp: copy_of_def)
  have "list_all2 (\<lambda>a c. seg_copy (the (m a)) (the (m'' c))) as cs"
    by (rule list.rel_mono_strong [OF as(3)]) (use assms(2) in simp)
  then show ?thesis using False as(2) seg_path_cong [OF as(1) assms(2)] by (auto simp: copy_of_def)
qed

lemma copy_of_source:
  assumes "copy_of m1 m' org h cs" and "seg_chain m (Some org) as" and "\<forall>a\<in>set as. m1 a = m a"
  shows "copy_of m m' org h cs"
proof -
  have u: "seg_chain k p as' \<Longrightarrow> seg_chain k p bs \<Longrightarrow> as' = bs" for k p as' bs
    by (induction as' arbitrary: p bs) (case_tac bs; fastforce)+
  have same: "as' = as" if "seg_chain m1 (Some org) as'" for as'
    by (rule u [OF that]) (rule seg_path_cong [OF assms(2)], use assms(3) in simp)
  have "list_all2 (\<lambda>a c. seg_copy (the (m a)) (the (m' c))) as cs"
    if "list_all2 (\<lambda>a c. seg_copy (the (m1 a)) (the (m' c))) as cs"
    by (rule list.rel_mono_strong [OF that]) (use assms(3) in simp)
  then show ?thesis using assms(1,2) same by (auto simp: copy_of_def split: if_splits)
qed

lemma packet_fits_cong:
  assumes "packet_fits room m org" and "\<forall>a\<in>dom m. m' a = m a"
  shows "packet_fits room m' org"
proof -
  obtain as where as: "seg_chain m (Some org) as" "\<forall>a\<in>set as. seg_fits room (the (m a))"
    using assms(1) by (auto simp: packet_fits_def)
  have "\<forall>a\<in>set as. m' a = m a" using seg_path_dom [OF as(1)] assms(2) by blast
  then show ?thesis using as(2) seg_path_cong [OF as(1), of m'] by (auto simp: packet_fits_def)
qed

text \<open>C24: In the build with deep copies spp_mirror copies every packet of a burst completely or not at
  all: the segments of a copy are new mbufs, not shared with the original or with another copy, with
  the same members and the same data in the same order; the originals are untouched, and when the
  pool is exhausted in the middle of a packet the copies that were made of it are given back, so
  that no mbuf leaks, and the packet has a NULL copy.\<close>
theorem deep_copies_correct:
  assumes "pool_laws A room" and "\<forall>org\<in>set orgs. packet_fits room m org"
  shows "\<exists>hs m' css. deep_copies A orgs m = Some (hs, m') \<and> length hs = length orgs \<and> length css = length orgs \<and>
    distinct (concat css) \<and> set (concat css) \<inter> dom m = {} \<and> (\<forall>a. a \<notin> set (concat css) \<longrightarrow> m' a = m a) \<and>
    (\<forall>i<length orgs. copy_of m m' (orgs ! i) (hs ! i) (css ! i)) \<and>
    (None \<in> set hs \<longrightarrow> (\<exists>u. pktmbuf_alloc A u = None))"
  using assms(2)
proof (induction orgs arbitrary: m)
  case Nil
  show ?case by (intro exI [of _ "[]"] exI [of _ m]) simp
next
  case (Cons org orgs)
  have fit: "packet_fits room m org" using Cons.prems by simp
  obtain h m1 cs where one: "deep_copy A org m = Some (h, m1)" "distinct cs" "set cs \<inter> dom m = {}"
      "\<And>a. a \<notin> set cs \<Longrightarrow> m1 a = m a" "copy_of m m1 org h cs" "h = None \<longrightarrow> (\<exists>u. pktmbuf_alloc A u = None)"
    using deep_copy_ok [OF assms(1) fit] by blast
  have old: "m1 a = m a" if "a \<in> dom m" for a using that one(3,4) by blast
  have "packet_fits room m1 x" if "x \<in> set orgs" for x
    by (rule packet_fits_cong [of _ m]) (use Cons.prems that old in auto)
  then have "\<forall>org\<in>set orgs. packet_fits room m1 org" by blast
  from Cons.IH [OF this] obtain hs m' css where rest: "deep_copies A orgs m1 = Some (hs, m')" "length hs = length orgs"
      "length css = length orgs" "distinct (concat css)" "set (concat css) \<inter> dom m1 = {}"
      "\<And>a. a \<notin> set (concat css) \<Longrightarrow> m' a = m1 a"
      "\<And>i. i < length orgs \<Longrightarrow> copy_of m1 m' (orgs ! i) (hs ! i) (css ! i)"
      "None \<in> set hs \<longrightarrow> (\<exists>u. pktmbuf_alloc A u = None)" by blast
  have "set cs \<subseteq> dom m1" using one(5) seg_path_dom [of m1 h cs None] by (cases "h = None") (auto simp: copy_of_def)
  then have cs: "set cs \<inter> set (concat css) = {}" using rest(5) by blast
  have "copy_of m m' ((org # orgs) ! i) ((h # hs) ! i) ((cs # css) ! i)" if i: "i < length (org # orgs)" for i
  proof (cases i)
    case 0
    have "\<forall>a\<in>set cs. m' a = m1 a" using cs rest(6) by blast
    then show ?thesis using copy_of_mono [OF one(5)] 0 by simp
  next
    case (Suc j)
    then have j: "j < length orgs" using i by simp
    have "packet_fits room m (orgs ! j)" using Cons.prems j by simp
    then obtain as where as: "seg_chain m (Some (orgs ! j)) as" by (auto simp: packet_fits_def)
    have "\<forall>a\<in>set as. m1 a = m a" using seg_path_dom [OF as] old by blast
    then show ?thesis using copy_of_source [OF rest(7) [OF j] as] Suc by simp
  qed
  moreover have "dom m \<subseteq> dom m1" using old by fastforce
  then have "set (concat (cs # css)) \<inter> dom m = {}" using one(3) rest(5) by auto
  moreover have "m' a = m a" if "a \<notin> set (concat (cs # css))" for a using that one(4) rest(6) by simp
  moreover have "None \<in> set (h # hs) \<longrightarrow> (\<exists>u. pktmbuf_alloc A u = None)" using one(6) rest(8) by auto
  moreover have "deep_copies A (org # orgs) m = Some (h # hs, m')" using one(1) rest(1) by simp
  moreover have "distinct (concat (cs # css))" using one(2) rest(4) cs by simp
  moreover have "length (h # hs) = length (org # orgs)" "length (cs # css) = length (org # orgs)" using rest(2,3) by simp_all
  ultimately show ?case by blast
qed

section \<open>A pool with two mbufs\<close>

partial_function (option) free_walk :: "nat option \<Rightarrow> segments \<Rightarrow> segments option" where
  "free_walk p m =
    (case p of
       None \<Rightarrow> Some m
     | Some a \<Rightarrow> (case m a of None \<Rightarrow> Some m | Some s \<Rightarrow> free_walk (sg_next s) (m(a := None))))"

definition demo_segment :: "nat \<Rightarrow> nat option \<Rightarrow> 8 word list \<Rightarrow> segment" where
  "demo_segment len n bs = \<lparr>sg_data_off = 2, sg_data_len = length bs, sg_port = 0, sg_vlan_tci = 0, sg_tx_offload = 0,
     sg_hash = 7, sg_next = n, sg_pkt_len = len, sg_nb_segs = 2, sg_ol_flags = 0, sg_packet_type = 1,
     sg_buf = [0, 0] @ bs @ [9]\<rparr>"

definition empty_segment :: segment where
  "empty_segment = (demo_segment 0 None [])\<lparr>sg_data_off := 0, sg_buf := replicate 6 0\<rparr>"

definition demo_pool :: seg_pool where
  "demo_pool = \<lparr>pktmbuf_alloc = (\<lambda>m. if m 10 = None then Some (10, empty_segment)
       else if m 11 = None then Some (11, empty_segment) else None),
     pktmbuf_free = (\<lambda>p m. case free_walk p m of None \<Rightarrow> m | Some m' \<Rightarrow> m')\<rparr>"

definition demo_segments :: segments where
  "demo_segments = [1 \<mapsto> demo_segment 5 (Some 2) [1, 2, 3], 2 \<mapsto> demo_segment 5 None [4, 5], 3 \<mapsto> demo_segment 1 None [6]]"

lemma free_walk_chain:
  "seg_chain m p as \<Longrightarrow> distinct as \<Longrightarrow> free_walk p m = Some (m |` (- set as))"
proof (induction as arbitrary: m p)
  case Nil
  have "m |` UNIV = m" by (rule ext) simp
  then show ?case using Nil.prems by (subst free_walk.simps) simp
next
  case (Cons a as)
  obtain s where s: "p = Some a" "m a = Some s" "seg_chain m (sg_next s) as" using Cons.prems(1) by auto
  have rest: "seg_chain (m(a := None)) (sg_next s) as" by (rule seg_path_cong [OF s(3)]) (use Cons.prems(2) in auto)
  have "free_walk (sg_next s) (m(a := None)) = Some ((m(a := None)) |` (- set as))"
    by (rule Cons.IH [OF rest]) (use Cons.prems(2) in simp)
  moreover have "(m(a := None)) |` (- set as) = m |` (- set (a # as))" by (rule ext) (auto simp: restrict_map_def)
  ultimately show ?case by (subst free_walk.simps) (simp only: s(1,2) option.case)
qed

lemma demo_pool_laws: "pool_laws demo_pool 6"
  using free_walk_chain by (auto simp: pool_laws_def demo_pool_def empty_segment_def split: if_splits)

lemma demo_packets_fit: "packet_fits 6 demo_segments 1" "packet_fits 6 demo_segments 3"
  unfolding packet_fits_def
  by (rule exI [of _ "[1, 2]"] exI [of _ "[3]"], simp add: demo_segments_def demo_segment_def seg_fits_def)+

declare deep_copy_loop.simps [code] free_walk.simps [code]

lemma demo_heads: "map_option fst (deep_copies demo_pool [1, 3] demo_segments) = Some [Some 10, None]"
  by code_simp

text \<open>The first packet takes both mbufs, the second gets none.\<close>

lemma deep_copies_correct_witness:
  "\<exists>m' cs. deep_copies demo_pool [1, 3] demo_segments = Some ([Some 10, None], m') \<and>
    distinct cs \<and> set cs \<inter> {1, 2, 3} = {} \<and> copy_of demo_segments m' 1 (Some 10) cs \<and> m' 1 = demo_segments 1"
proof -
  have "\<forall>org\<in>set [1, 3]. packet_fits 6 demo_segments org" using demo_packets_fit by simp
  from deep_copies_correct [OF demo_pool_laws this] obtain hs m' css where
    r: "deep_copies demo_pool [1, 3] demo_segments = Some (hs, m')" "length css = 2" "distinct (concat css)"
      "set (concat css) \<inter> dom demo_segments = {}" "\<And>a. a \<notin> set (concat css) \<Longrightarrow> m' a = demo_segments a"
      "\<And>i. i < 2 \<Longrightarrow> copy_of demo_segments m' ([1, 3] ! i) (hs ! i) (css ! i)"
    by (auto simp: numeral_2_eq_2)
  have hs: "hs = [Some 10, None]" using demo_heads r(1) by simp
  obtain cs ds where css: "css = [cs, ds]" using r(2) by (auto simp: length_Suc_conv numeral_2_eq_2)
  have "dom demo_segments = {1, 2, 3}" by (auto simp: demo_segments_def)
  then have "set cs \<inter> {1, 2, 3} = {}" "distinct cs" "m' 1 = demo_segments 1"
    using r(3-5) by (auto simp: css)
  then show ?thesis using r(1) r(6) [of 0] by (intro exI [of _ m'] exI [of _ cs]) (simp add: hs css)
qed

end
