(* ===== verification/Nfv_Forward.thy ===== *)
theory Nfv_Forward
  imports Nfv_Ports
begin

text \<open>
  What the worker of spp_nfv does to packets and statistics, and how the operations on ports and
  patches keep the invariant under which it never reads outside its arrays.
\<close>

section \<open>Statistics\<close>

text \<open>The part of the state that counting does not change.\<close>

definition shape :: "nfv \<Rightarrow> nfv_port list \<times> (int \<times> port_type \<times> stats_ptr) list \<times> nat \<times> nat \<times> int list \<times> int \<times> int \<times> cmd_type" where
  "shape s = (ports_fwd_array s, List.map (\<lambda>e. (map_id e, map_port_type e, map_stats e)) (port_map s),
     length (port_stats s), length (client_stats s), lcore_id_used s, nfv_client_id s, g_enable_vhost_cli s, nfv_cmd s)"

text \<open>A sum over all counters of one kind, modulo 2 to the 64th.\<close>

definition total :: "(stats \<Rightarrow> 64 word) \<Rightarrow> nfv \<Rightarrow> 64 word" where
  "total g s = sum_list (List.map g (port_stats s)) + sum_list (List.map g (client_stats s)) +
    sum_list (List.map (g \<circ> default_stats) (port_map s))"

definition unaccounted :: "nfv \<Rightarrow> 64 word" where
  "unaccounted s = total st_rx s - total st_tx s - total st_tx_drop s"

lemma sum_list_replace:
  fixes g :: "'a \<Rightarrow> 'b::ab_group_add"
  shows "k < length xs \<Longrightarrow> sum_list (List.map g (xs[k := x])) = sum_list (List.map g xs) - g (xs ! k) + g x"
  by (induction xs arbitrary: k) (auto split: nat.splits)

lemma shape_map_eq:
  "shape s' = shape s \<Longrightarrow> length (port_map s') = length (port_map s) \<and>
   (\<forall>i<length (port_map s). map_id (port_map s' ! i) = map_id (port_map s ! i) \<and>
     map_port_type (port_map s' ! i) = map_port_type (port_map s ! i) \<and>
     map_stats (port_map s' ! i) = map_stats (port_map s ! i))"
  by (auto simp: shape_def list_eq_iff_nth_eq)

lemma stats_ptr_ok_shape:
  assumes "shape s' = shape s"
  shows "stats_ptr_ok s' ptr = stats_ptr_ok s ptr"
proof -
  have "length (port_stats s') = length (port_stats s)" "length (client_stats s') = length (client_stats s)"
    using assms by (auto simp: shape_def)
  moreover have "length (port_map s') = length (port_map s)" using shape_map_eq [OF assms] by simp
  ultimately show ?thesis by (cases ptr) (simp_all add: stats_ptr_ok_def)
qed

lemma nfv_wf_shape:
  assumes "shape s' = shape s"
  shows "nfv_wf s' = nfv_wf s"
proof -
  have "ports_fwd_array s' = ports_fwd_array s" "length (port_stats s') = length (port_stats s)"
      "length (client_stats s') = length (client_stats s)"
    using assms by (auto simp: shape_def)
  moreover have "(\<forall>e\<in>set (port_map s'). stats_ptr_ok s' (map_stats e)) = (\<forall>e\<in>set (port_map s). stats_ptr_ok s (map_stats e))"
    using shape_map_eq [OF assms] by (auto simp: all_set_conv_all_nth stats_ptr_ok_shape [OF assms])
  ultimately show ?thesis using shape_map_eq [OF assms] by (simp add: nfv_wf_def)
qed

lemma upd_stats_ok:
  assumes "stats_ptr_ok s ptr"
  shows "\<exists>s' t. upd_stats ptr f s = Some s' \<and> shape s' = shape s \<and>
    (\<forall>g. total g s' = total g s - g t + g (f t))"
proof (cases ptr)
  case (PortStats i)
  have k: "nat i < length (port_stats s)" using assms PortStats by (auto simp: stats_ptr_ok_def nat_less_iff)
  define s' where "s' = s\<lparr>port_stats := (port_stats s)[nat i := f (port_stats s ! nat i)]\<rparr>"
  have "upd_stats ptr f s = Some s'" "shape s' = shape s"
      "\<forall>g. total g s' = total g s - g (port_stats s ! nat i) + g (f (port_stats s ! nat i))"
    using assms PortStats
    by (simp_all add: s'_def upd_stats_def stats_at_def stats_ptr_ok_def rd_ok wr_ok shape_def total_def
        sum_list_replace [OF k])
  then show ?thesis by blast
next
  case (ClientStats i)
  have k: "nat i < length (client_stats s)" using assms ClientStats by (auto simp: stats_ptr_ok_def nat_less_iff)
  define s' where "s' = s\<lparr>client_stats := (client_stats s)[nat i := f (client_stats s ! nat i)]\<rparr>"
  have "upd_stats ptr f s = Some s'" "shape s' = shape s"
      "\<forall>g. total g s' = total g s - g (client_stats s ! nat i) + g (f (client_stats s ! nat i))"
    using assms ClientStats
    by (simp_all add: s'_def upd_stats_def stats_at_def stats_ptr_ok_def rd_ok wr_ok shape_def total_def
        sum_list_replace [OF k])
  then show ?thesis by blast
next
  case (DefaultStats i)
  define e where "e = port_map s ! nat i"
  define s' where "s' = s\<lparr>port_map := (port_map s)[nat i := e\<lparr>default_stats := f (default_stats e)\<rparr>]\<rparr>"
  have i: "0 \<le> i" "nat i < length (port_map s)" using assms DefaultStats by (auto simp: stats_ptr_ok_def nat_less_iff)
  have "upd_stats ptr f s = Some s'"
    using assms DefaultStats by (simp add: s'_def e_def upd_stats_def stats_at_def stats_ptr_ok_def rd_ok wr_ok)
  moreover have "shape s' = shape s"
    using i by (simp add: s'_def e_def shape_def map_update list_update_same_conv)
  moreover have "\<forall>g. total g s' = total g s - g (default_stats e) + g (f (default_stats e))"
    using i by (simp add: s'_def e_def total_def sum_list_replace)
  ultimately show ?thesis by blast
qed

lemma count_fields [simp]:
  "st_rx (count_rx n t) = st_rx t + of_nat n" "st_tx (count_rx n t) = st_tx t" "st_tx_drop (count_rx n t) = st_tx_drop t"
  "st_rx (count_tx n t) = st_rx t" "st_tx (count_tx n t) = st_tx t + of_nat n" "st_tx_drop (count_tx n t) = st_tx_drop t"
  "st_rx (count_tx_drop n t) = st_rx t" "st_tx (count_tx_drop n t) = st_tx t"
  "st_tx_drop (count_tx_drop n t) = st_tx_drop t + of_nat n"
  by (simp_all add: count_rx_def count_tx_def count_tx_drop_def)

lemma count_unaccounted:
  assumes "stats_ptr_ok s ptr"
  shows "\<exists>s'. upd_stats ptr (count_rx n) s = Some s' \<and> shape s' = shape s \<and> unaccounted s' = unaccounted s + of_nat n"
    and "\<exists>s'. upd_stats ptr (count_tx n) s = Some s' \<and> shape s' = shape s \<and> unaccounted s' = unaccounted s - of_nat n"
    and "\<exists>s'. upd_stats ptr (count_tx_drop n) s = Some s' \<and> shape s' = shape s \<and> unaccounted s' = unaccounted s - of_nat n"
  using upd_stats_ok [OF assms, of "count_rx n"] upd_stats_ok [OF assms, of "count_tx n"]
    upd_stats_ok [OF assms, of "count_tx_drop n"]
  by (fastforce simp: unaccounted_def)+

section \<open>Forwarding\<close>

lemma forward_port_ok:
  assumes H: "io_laws D held" and wf: "nfv_wf s" and i: "i < length (ports_fwd_array s)"
  shows "\<exists>s' w'. forward_port D (int i) s w = Some (s', w') \<and> shape s' = shape s \<and>
    held w' = held w \<and> unaccounted s' = unaccounted s"
proof -
  define p where "p = ports_fwd_array s ! i"
  have rp: "rd (ports_fwd_array s) (int i) = Some p" using i by (simp add: p_def)
  obtain bufs w1 where rx: "rte_eth_rx_burst D (int i) MAX_PKT_BURST w = (bufs, w1)" by fastforce
  have h1: "held w1 = held w + mset bufs" using io_rx [OF H rx] by simp
  show ?thesis
  proof (cases "in_port_id p = PORT_RESET \<or> out_port_id p = PORT_RESET")
    case True
    then show ?thesis using rp by (auto simp: forward_port_def)
  next
    case patched: False
    define k where "k = nat (out_port_id p)"
    have "fwd_ok (ports_fwd_array s) i" using wf i by (simp add: nfv_wf_def)
    then have k: "out_port_id p = int k" "k < length (ports_fwd_array s)" "rx_func p" "tx_func (ports_fwd_array s ! k)"
      using patched by (auto simp: fwd_ok_def p_def k_def)
    have kk: "nat (out_port_id p) = k" by (simp add: k_def)
    show ?thesis
    proof (cases "bufs = []")
      case True
      then show ?thesis using rp rx patched k(3) h1 by (auto simp: forward_port_def Let_def)
    next
      case False
      have len: "length (port_map s) = length (ports_fwd_array s)" using wf by (simp add: nfv_wf_def)
      have ptr: "stats_ptr_ok s (map_stats (port_map s ! j))" if "j < length (port_map s)" for j
        using wf that by (simp add: nfv_wf_def)
      obtain s1 where s1: "upd_stats (map_stats (port_map s ! i)) (count_rx (length bufs)) s = Some s1"
          "shape s1 = shape s" "unaccounted s1 = unaccounted s + of_nat (length bufs)"
        using count_unaccounted(1) [OF ptr] i len by metis
      have e1: "map_stats (port_map s1 ! k) = map_stats (port_map s ! k)" "length (port_map s1) = length (port_map s)"
          "ports_fwd_array s1 = ports_fwd_array s"
        using shape_map_eq [OF s1(2)] s1(2) k(2) len by (simp_all add: shape_def)
      obtain n w2 where tx: "rte_eth_tx_burst D (int k) bufs w1 = Some (n, w2)" "n \<le> length bufs"
          "held w2 = held w1 - mset (take n bufs)"
        using io_tx [OF H, of bufs w1 "int k"] h1 by auto
      have h2: "held w2 = held w + mset (drop n bufs)"
        using tx(3) h1 mset_take_drop [of bufs n] by simp
      have ptr1: "stats_ptr_ok s1 (map_stats (port_map s ! k))"
        using ptr k(2) len stats_ptr_ok_shape [OF s1(2)] by simp
      obtain s2 where s2: "upd_stats (map_stats (port_map s ! k)) (count_tx n) s1 = Some s2"
          "shape s2 = shape s1" "unaccounted s2 = unaccounted s1 - of_nat n"
        using count_unaccounted(2) [OF ptr1] by metis
      have rd1: "rd (port_map s) (int i) = Some (port_map s ! i)" "rd (port_map s1) (int k) = Some (port_map s1 ! k)"
          "rd (ports_fwd_array s1) (int k) = Some (ports_fwd_array s ! k)"
        using i k(2) len e1 by simp_all
      show ?thesis
      proof (cases "n < length bufs")
        case True
        have ptr2: "stats_ptr_ok s2 (map_stats (port_map s ! k))"
          using ptr1 stats_ptr_ok_shape [OF s2(2)] by simp
        obtain s3 where s3: "upd_stats (map_stats (port_map s ! k)) (count_tx_drop (length bufs - n)) s2 = Some s3"
            "shape s3 = shape s2" "unaccounted s3 = unaccounted s2 - of_nat (length bufs - n)"
          using count_unaccounted(3) [OF ptr2] by metis
        obtain w3 where w3: "free_packets D (drop n bufs) w2 = Some w3" "held w3 = held w"
          using free_packets_ok [OF H, of "drop n bufs" w2] h2 by auto
        have "unaccounted s3 = unaccounted s"
          using s1(3) s2(3) s3(3) tx(2) by (simp add: of_nat_diff)
        moreover have "forward_port D (int i) s w = Some (s3, w3)"
          using rp rx patched k rd1 e1 s1(1) s2(1) s3(1) w3(1) tx(1) False True
          by (simp add: forward_port_def Let_def)
        ultimately show ?thesis using s1(2) s2(2) s3(2) w3(2) by auto
      next
        case all: False
        then have n: "n = length bufs" using tx(2) by simp
        have "forward_port D (int i) s w = Some (s2, w2)"
          using rp rx patched k rd1 e1 s1(1) s2(1) tx(1) False all by (simp add: forward_port_def Let_def)
        then show ?thesis using s1(2,3) s2(2,3) h2 n by auto
      qed
    qed
  qed
qed

lemma forward_ports_ok:
  assumes H: "io_laws D held" and wf: "nfv_wf s" and "\<forall>i\<in>set is. i < length (ports_fwd_array s)"
  shows "\<exists>s' w'. forward_ports D is s w = Some (s', w') \<and> shape s' = shape s \<and>
    held w' = held w \<and> unaccounted s' = unaccounted s"
  using assms(2,3)
proof (induction "is" arbitrary: s w)
  case (Cons i "is")
  obtain s1 w1 where 1: "forward_port D (int i) s w = Some (s1, w1)" "shape s1 = shape s"
      "held w1 = held w" "unaccounted s1 = unaccounted s"
    using forward_port_ok [OF H Cons.prems(1), of i w] Cons.prems(2) by auto
  have "ports_fwd_array s1 = ports_fwd_array s" using 1(2) by (simp add: shape_def)
  then show ?case
    using Cons.IH [of s1 w1] Cons.prems 1 nfv_wf_shape [OF 1(2)] by auto
qed simp

end
