(* ===== verification/Nfv_Inv.thy ===== *)
theory Nfv_Inv
  imports Nfv_Forward
begin

text \<open>
  The operations of spp_nfv on ports and patches: what they do on the arrays, and that they keep
  the invariant nfv_wf.
\<close>

section \<open>Small steps on the arrays\<close>

lemma nfv_wf_ports:
  assumes "nfv_wf s" and "length ps = length (ports_fwd_array s)" and "\<forall>i<length ps. fwd_ok ps i"
  shows "nfv_wf (s\<lparr>ports_fwd_array := ps\<rparr>)"
proof -
  have "stats_ptr_ok (s\<lparr>ports_fwd_array := ps\<rparr>) ptr = stats_ptr_ok s ptr" for ptr
    by (cases ptr) (simp_all add: stats_ptr_ok_def)
  then show ?thesis using assms by (simp add: nfv_wf_def)
qed

lemma nfv_wf_map:
  assumes "nfv_wf s" and "length es = length (port_map s)" and "\<forall>e\<in>set es. stats_ptr_ok s (map_stats e)"
  shows "nfv_wf (s\<lparr>port_map := es\<rparr>)"
proof -
  have "stats_ptr_ok (s\<lparr>port_map := es\<rparr>) ptr = stats_ptr_ok s ptr" for ptr
    using assms(2) by (cases ptr) (simp_all add: stats_ptr_ok_def)
  then show ?thesis using assms by (simp add: nfv_wf_def)
qed

lemma nfv_wf_set_entry:
  assumes "nfv_wf s" and "k < length (port_map s)" and "stats_ptr_ok s (map_stats e)"
  shows "nfv_wf (s\<lparr>port_map := (port_map s)[k := e]\<rparr>)"
  using assms by (intro nfv_wf_map) (auto simp: nfv_wf_def dest!: set_update_subset_insert [THEN subsetD])

lemma nfv_wf_other [simp]:
  "nfv_wf (s\<lparr>nfv_cmd := c\<rparr>) = nfv_wf s" "nfv_wf (s\<lparr>nfv_client_id := i\<rparr>) = nfv_wf s"
  "nfv_wf (s\<lparr>lcore_id_used := l\<rparr>) = nfv_wf s"
proof -
  have "stats_ptr_ok (s\<lparr>nfv_cmd := c\<rparr>) = stats_ptr_ok s" "stats_ptr_ok (s\<lparr>nfv_client_id := i\<rparr>) = stats_ptr_ok s"
      "stats_ptr_ok (s\<lparr>lcore_id_used := l\<rparr>) = stats_ptr_ok s"
    by (auto simp: stats_ptr_ok_def fun_eq_iff split: stats_ptr.split)
  then show "nfv_wf (s\<lparr>nfv_cmd := c\<rparr>) = nfv_wf s" "nfv_wf (s\<lparr>nfv_client_id := i\<rparr>) = nfv_wf s"
      "nfv_wf (s\<lparr>lcore_id_used := l\<rparr>) = nfv_wf s"
    by (simp_all add: nfv_wf_def)
qed

text \<open>Marking a port as used only sets fields to values the invariant allows.\<close>

lemma fwd_ok_use:
  assumes "\<forall>i<length ps. fwd_ok ps i" and "k < length ps" and "int (length ps) < PORT_RESET"
    and "ps' = ps[k := p]" and "in_port_id p = int k" and "tx_func (ps ! k) \<longrightarrow> tx_func p"
    and "out_port_id p = out_port_id (ps ! k) \<and> (rx_func (ps ! k) \<longrightarrow> rx_func p) \<or>
      out_port_id p = int m \<and> m < length ps \<and> rx_func p \<and> tx_func (ps' ! m)"
  shows "\<forall>i<length ps'. fwd_ok ps' i"
proof (intro allI impI)
  fix i assume i: "i < length ps'"
  have mono: "tx_func (ps ! j) \<Longrightarrow> tx_func (ps' ! j)" for j
    using assms(2,4,6) by (cases "j = k") auto
  have old: "fwd_ok ps i" "fwd_ok ps k" using assms(1,2,4) i by auto
  show "fwd_ok ps' i"
  proof (cases "i = k")
    case True
    then have pi: "ps' ! i = p" using assms(2,4) by simp
    show ?thesis using old(2) mono assms(2-5,7) True unfolding fwd_ok_def pi by auto
  next
    case False
    then have "ps' ! i = ps ! i" using assms(4) by simp
    then show ?thesis using old(1) mono assms(4) unfolding fwd_ok_def by auto
  qed
qed

section \<open>Patches\<close>

lemma valid_portD:
  assumes "is_valid_port s a = Some True"
  obtains i where "a = int i" and "i < length (port_map s)" and "map_id (port_map s ! i) \<noteq> PORT_RESET"
proof -
  have a: "0 \<le> a" "a < int (length (port_map s))" "map_id (port_map s ! nat a) \<noteq> PORT_RESET"
    using assms by (auto simp: is_valid_port_def bind_Some_iff rd_Some_iff split: if_splits)
  then show ?thesis using that [of "nat a"] by (simp add: nat_less_iff)
qed

lemma add_patch_wf:
  assumes "nfv_wf s" and "add_patch a b s = Some (r, s')"
  shows "nfv_wf s'"
proof (cases "r = 0")
  case False
  then show ?thesis using assms by (auto simp: add_patch_def bind_Some_iff split: if_splits)
next
  case True
  have v: "is_valid_port s a = Some True" "is_valid_port s b = Some True"
    using assms(2) True by (auto simp: add_patch_def bind_Some_iff split: if_splits)
  have wf: "length (port_map s) = length (ports_fwd_array s)" "int (length (ports_fwd_array s)) < PORT_RESET"
      "\<forall>i<length (ports_fwd_array s). fwd_ok (ports_fwd_array s) i"
    using assms(1) by (simp_all add: nfv_wf_def)
  obtain i j where i: "a = int i" "i < length (ports_fwd_array s)" and j: "b = int j" "j < length (ports_fwd_array s)"
    using valid_portD [OF v(1)] valid_portD [OF v(2)] wf(1) by metis
  let ?ps = "ports_fwd_array s"
  define ps1 where "ps1 = ?ps[j := (?ps ! j)\<lparr>in_port_id := int j, rx_func := True, tx_func := True\<rparr>]"
  define p where "p = \<lparr>in_port_id = int i, out_port_id = int j, rx_func = True, tx_func = True\<rparr>"
  define ps2 where "ps2 = ps1[i := p]"
  have "\<forall>i<length ps1. fwd_ok ps1 i"
    by (rule fwd_ok_use [OF wf(3) j(2) wf(2) ps1_def]) auto
  moreover have "tx_func (ps2 ! j)" using i j by (auto simp: ps2_def ps1_def p_def nth_list_update)
  ultimately have ok: "\<forall>i<length ps2. fwd_ok ps2 i"
    using fwd_ok_use [of ps1 i ps2 p j] i(2) j(2) wf(2) by (simp add: ps1_def ps2_def p_def)
  have "s' = s\<lparr>ports_fwd_array := ps2\<rparr>"
    using assms(2) v i j by (cases "i = j") (auto simp: add_patch_def ps2_def ps1_def p_def list_update_swap)
  then show ?thesis using nfv_wf_ports [OF assms(1) _ ok] by (simp add: ps2_def ps1_def)
qed

lemma forward_array_reset_wf:
  assumes "nfv_wf s"
  shows "nfv_wf (forward_array_reset s)"
proof -
  let ?f = "\<lambda>p. if in_port_id p \<noteq> PORT_RESET then p\<lparr>out_port_id := PORT_RESET\<rparr> else p"
  have ok: "\<forall>i<length (ports_fwd_array s). fwd_ok (ports_fwd_array s) i" using assms by (simp add: nfv_wf_def)
  have "\<forall>i<length (List.map ?f (ports_fwd_array s)). fwd_ok (List.map ?f (ports_fwd_array s)) i"
  proof (intro allI impI)
    fix i assume "i < length (List.map ?f (ports_fwd_array s))"
    then have i: "i < length (ports_fwd_array s)" by simp
    then have "fwd_ok (ports_fwd_array s) i" using ok by simp
    then show "fwd_ok (List.map ?f (ports_fwd_array s)) i" using i by (auto simp: fwd_ok_def)
  qed
  then show ?thesis unfolding forward_array_reset_def by (intro nfv_wf_ports assms) simp_all
qed

section \<open>Removing and adding ports\<close>

lemma unpatch_first_nth:
  "length (unpatch_first d ps) = length ps \<and>
   (\<forall>i<length ps. unpatch_first d ps ! i = ps ! i \<or>
      unpatch_first d ps ! i = (ps ! i)\<lparr>out_port_id := PORT_RESET\<rparr>)"
proof (induction ps)
  case (Cons p ps)
  have "unpatch_first d (p # ps) ! i = (p # ps) ! i \<or>
      unpatch_first d (p # ps) ! i = ((p # ps) ! i)\<lparr>out_port_id := PORT_RESET\<rparr>" if "i < length (p # ps)" for i
    using that Cons by (cases i) auto
  then show ?case using Cons by auto
qed simp

lemma fwd_ok_unpatch:
  assumes "\<forall>i<length ps. fwd_ok ps i"
  shows "\<forall>i<length (unpatch_first d ps). fwd_ok (unpatch_first d ps) i"
proof (intro allI impI)
  let ?q = "unpatch_first d ps"
  fix i assume "i < length ?q"
  then have i: "i < length ps" using unpatch_first_nth [of d ps] by simp
  have same: "tx_func (?q ! j) = tx_func (ps ! j)" if "j < length ps" for j
    using unpatch_first_nth [of d ps] that by (metis nfv_port.select_convs(4) nfv_port.surjective nfv_port.update_convs(2))
  have c: "?q ! i = ps ! i \<or> ?q ! i = (ps ! i)\<lparr>out_port_id := PORT_RESET\<rparr>" "length ?q = length ps"
    using unpatch_first_nth [of d ps] i by auto
  have "fwd_ok ps i" using assms i by simp
  then show "fwd_ok ?q i"
    using c(1)
  proof (elim disjE)
    assume "?q ! i = ps ! i"
    then show "fwd_ok ?q i" using \<open>fwd_ok ps i\<close> c(2) same by (auto simp: fwd_ok_def nat_less_iff)
  qed (auto simp: fwd_ok_def)
qed

lemma forward_array_init_one_eq:
  "k < length (ports_fwd_array s) \<Longrightarrow> forward_array_init_one (int k) s =
    Some (s\<lparr>ports_fwd_array := (ports_fwd_array s)[k := (ports_fwd_array s ! k)
      \<lparr>in_port_id := PORT_RESET, out_port_id := PORT_RESET\<rparr>]\<rparr>)"
  by (simp add: forward_array_init_one_def)

lemma port_map_init_one_eq:
  "k < length (port_map s) \<Longrightarrow> port_map_init_one (int k) s =
    Some (s\<lparr>port_map := (port_map s)[k := (port_map s ! k)
      \<lparr>map_id := PORT_RESET, map_port_type := UNDEF, map_stats := DefaultStats (int k)\<rparr>]\<rparr>)"
  by (simp add: port_map_init_one_def)

lemma fwd_ok_clear:
  assumes "\<forall>i<length ps. fwd_ok ps i" and "k < length ps"
  shows "\<forall>i<length ps. fwd_ok (ps[k := (ps ! k)\<lparr>in_port_id := PORT_RESET, out_port_id := PORT_RESET\<rparr>]) i"
proof (intro allI impI)
  fix i assume "i < length ps"
  then have "fwd_ok ps i" using assms(1) by simp
  then show "fwd_ok (ps[k := (ps ! k)\<lparr>in_port_id := PORT_RESET, out_port_id := PORT_RESET\<rparr>]) i"
    using assms(2) by (cases "i = k") (auto simp: fwd_ok_def nth_list_update)
qed

definition cleared :: "nat \<Rightarrow> nfv \<Rightarrow> nfv" where
  "cleared k s = s\<lparr>ports_fwd_array := unpatch_first (int k) ((ports_fwd_array s)[k := (ports_fwd_array s ! k)
      \<lparr>in_port_id := PORT_RESET, out_port_id := PORT_RESET\<rparr>]),
     port_map := (port_map s)[k := (port_map s ! k)
      \<lparr>map_id := PORT_RESET, map_port_type := UNDEF, map_stats := DefaultStats (int k)\<rparr>]\<rparr>"

lemma remove_port_eq:
  assumes "nfv_wf s" and "k < length (port_map s)"
  shows "do { s1 \<leftarrow> forward_array_remove (int k) s; port_map_init_one (int k) s1 } = Some (cleared k s)"
    and "nfv_wf (cleared k s)"
proof -
  let ?ps = "(ports_fwd_array s)[k := (ports_fwd_array s ! k)\<lparr>in_port_id := PORT_RESET, out_port_id := PORT_RESET\<rparr>]"
  let ?e = "(port_map s ! k)\<lparr>map_id := PORT_RESET, map_port_type := UNDEF, map_stats := DefaultStats (int k)\<rparr>"
  have k: "k < length (ports_fwd_array s)" and ok: "\<forall>i<length (ports_fwd_array s). fwd_ok (ports_fwd_array s) i"
    using assms by (auto simp: nfv_wf_def)
  define s1 where "s1 = s\<lparr>ports_fwd_array := unpatch_first (int k) ?ps\<rparr>"
  have "\<forall>i<length (unpatch_first (int k) ?ps). fwd_ok (unpatch_first (int k) ?ps) i"
    by (rule fwd_ok_unpatch) (use fwd_ok_clear [OF ok k] in simp)
  then have 1: "nfv_wf s1"
    unfolding s1_def by (intro nfv_wf_ports assms) (simp_all add: unpatch_first_nth)
  have eq: "s1\<lparr>port_map := (port_map s1)[k := ?e]\<rparr> = cleared k s" by (simp add: s1_def cleared_def)
  show "do { s1 \<leftarrow> forward_array_remove (int k) s; port_map_init_one (int k) s1 } = Some (cleared k s)"
    using k assms(2) by (simp add: forward_array_remove_def forward_array_init_one_eq port_map_init_one_eq cleared_def)
  have "nfv_wf (s1\<lparr>port_map := (port_map s1)[k := ?e]\<rparr>)"
    using 1 assms(2) by (intro nfv_wf_set_entry) (simp_all add: s1_def stats_ptr_ok_def)
  then show "nfv_wf (cleared k s)" by (simp only: eq)
qed

lemma find_from_spec:
  "find_from es i pid ty = PORT_RESET \<or>
   (\<exists>k<length es. find_from es i pid ty = i + int k \<and> map_port_type (es ! k) = ty \<and> map_id (es ! k) = pid)"
proof (induction es arbitrary: i)
  case (Cons e es)
  show ?case
  proof (cases "map_port_type e = ty \<and> map_id e = pid")
    case True
    then show ?thesis by auto
  next
    case False
    then have "find_from (e # es) i pid ty = find_from es (i + 1) pid ty" by auto
    then show ?thesis using Cons.IH [of "i + 1"] by fastforce
  qed
qed simp

lemma find_port_idD:
  assumes "find_port_id s pid ty \<noteq> PORT_RESET"
  obtains k where "find_port_id s pid ty = int k" and "k < length (port_map s)"
    and "map_port_type (port_map s ! k) = ty" and "map_id (port_map s ! k) = pid"
  using find_from_spec [of "port_map s" 0 pid ty] assms that by (auto simp: find_port_id_def)

lemma find_from_unique:
  assumes "k < length es" and "map_port_type (es ! k) = ty" and "map_id (es ! k) = pid"
    and "\<forall>j<k. \<not> (map_port_type (es ! j) = ty \<and> map_id (es ! j) = pid)"
  shows "find_from es i pid ty = i + int k"
  using assms
proof (induction es arbitrary: i k)
  case (Cons e es)
  show ?case
  proof (cases k)
    case 0
    then show ?thesis using Cons.prems by simp
  next
    case (Suc m)
    have ne: "\<not> (map_port_type e = ty \<and> map_id e = pid)" using Cons.prems(4) Suc by auto
    have "\<forall>j<m. \<not> (map_port_type (es ! j) = ty \<and> map_id (es ! j) = pid)"
    proof (intro allI impI)
      fix j assume "j < m"
      then show "\<not> (map_port_type (es ! j) = ty \<and> map_id (es ! j) = pid)"
        using Cons.prems(4) [rule_format, of "Suc j"] Suc by simp
    qed
    then have "find_from es (i + 1) pid ty = i + 1 + int m"
      using Cons.IH [of m "i + 1"] Cons.prems Suc by simp
    then show ?thesis using ne Suc by auto
  qed
qed simp

lemma do_del_found:
  assumes "nfv_wf s" and "parse_resource_uid uid = Some (0, Some (t, pid))" and "resource_type t \<noteq> UNDEF"
    and "find_port_id s pid (resource_type t) = int k" and "k < length (port_map s)"
  shows "\<exists>v'. do_del X (Some uid) s v = Some (0, cleared k s, v')"
proof -
  have "int k \<noteq> PORT_RESET" using assms(1,5) by (simp add: nfv_wf_def)
  moreover obtain s1 where "forward_array_remove (int k) s = Some s1" "port_map_init_one (int k) s1 = Some (cleared k s)"
    using remove_port_eq(1) [OF assms(1,5)] by (auto simp: bind_Some_iff)
  ultimately show ?thesis using assms by (simp add: do_del_def Let_def)
qed

lemma do_del_unknown:
  assumes "nfv_wf s" and "parse_resource_uid uid = Some (0, Some (t, pid))" and "resource_type t = UNDEF"
  shows "do_del X (Some uid) s v = None"
proof -
  have "rd (ports_fwd_array s) PORT_RESET = None" using assms(1) by (simp add: rd_None_iff nfv_wf_def)
  then show ?thesis
    using assms by (simp add: do_del_def Let_def forward_array_remove_def forward_array_init_one_def)
qed

lemma do_del_wf:
  assumes "nfv_wf s" and "do_del X uid s v = Some (r, s', v')"
  shows "nfv_wf s'"
proof -
  obtain u res q where u: "uid = Some u" "parse_resource_uid u = Some (res, q)"
    using assms(2) by (auto simp: do_del_def bind_Some_iff)
  show ?thesis
  proof (cases "res < 0")
    case True
    then show ?thesis using assms u by (simp add: do_del_def)
  next
    case ok: False
    have "res = 0" using u(2) ok by (auto simp: parse_resource_uid_def split: if_splits list.splits prod.splits)
    moreover obtain t pid where q: "q = Some (t, pid)"
      using assms(2) u ok by (auto simp: do_del_def bind_Some_iff)
    ultimately have u0: "parse_resource_uid u = Some (0, Some (t, pid))" using u(2) by simp
    show ?thesis
    proof (cases "resource_type t = UNDEF")
      case True
      then show ?thesis using do_del_unknown [OF assms(1) u0, of X v] assms(2) u(1) by simp
    next
      case kn: False
      show ?thesis
      proof (cases "find_port_id s pid (resource_type t) = PORT_RESET")
        case True
        then show ?thesis using assms u(1) u0 kn by (simp add: do_del_def Let_def)
      next
        case False
        then obtain k where k: "find_port_id s pid (resource_type t) = int k" "k < length (port_map s)"
          by (rule find_port_idD)
        obtain v2 where "do_del X (Some u) s v = Some (0, cleared k s, v2)"
          using do_del_found [OF assms(1) u0 kn k, of X v] by blast
        then have "s' = cleared k s" using assms(2) u(1) by simp
        then show ?thesis using remove_port_eq(2) [OF assms(1) k(2)] by simp
      qed
    qed
  qed
qed

text \<open>The devices that DPDK creates have numbers below the size of the arrays.\<close>

definition ports_below :: "'v ethdev \<Rightarrow> int \<Rightarrow> bool" where
  "ports_below E N \<longleftrightarrow> (\<forall>cli t pid v ty r v'. add_resource E cli t pid v = Some (ty, r, v') \<longrightarrow> ty \<noteq> UNDEF \<longrightarrow> r < N)"

definition entered :: "nat \<Rightarrow> int \<Rightarrow> port_type \<Rightarrow> nfv \<Rightarrow> nfv" where
  "entered k pid ty s = s\<lparr>ports_fwd_array := (ports_fwd_array s)[k := (ports_fwd_array s ! k)\<lparr>in_port_id := int k\<rparr>],
     port_map := (port_map s)[k := (port_map s ! k)\<lparr>map_id := pid, map_port_type := ty, map_stats := ClientStats pid\<rparr>]\<rparr>"

lemma entered_wf:
  assumes "nfv_wf s" and "k < length (port_map s)" and "0 \<le> pid" and "pid < int MAX_CLIENT"
  shows "nfv_wf (entered k pid ty s)"
proof -
  let ?e = "(port_map s ! k)\<lparr>map_id := pid, map_port_type := ty, map_stats := ClientStats pid\<rparr>"
  let ?p = "(ports_fwd_array s ! k)\<lparr>in_port_id := int k\<rparr>"
  define s1 where "s1 = s\<lparr>ports_fwd_array := (ports_fwd_array s)[k := ?p]\<rparr>"
  have wf: "length (port_map s) = length (ports_fwd_array s)" "int (length (ports_fwd_array s)) < PORT_RESET"
      "\<forall>i<length (ports_fwd_array s). fwd_ok (ports_fwd_array s) i" "length (client_stats s) = MAX_CLIENT"
    using assms(1) by (simp_all add: nfv_wf_def)
  have k: "k < length (ports_fwd_array s)" using assms(2) wf(1) by simp
  have "\<forall>i<length ((ports_fwd_array s)[k := ?p]). fwd_ok ((ports_fwd_array s)[k := ?p]) i"
    by (rule fwd_ok_use [OF wf(3) k wf(2) refl]) simp_all
  then have "nfv_wf s1" unfolding s1_def by (intro nfv_wf_ports assms) simp_all
  then have "nfv_wf (s1\<lparr>port_map := (port_map s1)[k := ?e]\<rparr>)"
    using assms(2-4) wf(4) by (intro nfv_wf_set_entry) (simp_all add: s1_def stats_ptr_ok_def)
  then show ?thesis by (simp add: entered_def s1_def)
qed

lemma do_add_entered:
  assumes "nfv_wf s" and "parse_resource_uid uid = Some (0, Some (t, pid))"
    and "add_resource E (g_enable_vhost_cli s) t pid v = Some (ty, int k, v')" and "k < length (port_map s)"
  shows "do_add E (Some uid) s v = Some (0, entered k pid ty s, v')"
proof -
  have "int k < PORT_RESET" "length (port_map s) = length (ports_fwd_array s)" using assms(1,4) by (simp_all add: nfv_wf_def)
  then have "to_uint16 (int k) = int k" by (simp add: PORT_RESET_def)
  then show ?thesis
    using assms(2-4) \<open>length (port_map s) = length (ports_fwd_array s)\<close>
    by (simp add: do_add_def entered_def)
qed

lemma do_add_wf:
  assumes wf: "nfv_wf s" and "do_add E uid s v = Some (r, s', v')"
    and E: "ports_below E (int (length (port_map s)))" and N: "0 < length (port_map s)"
    and pid: "\<And>u t i. uid = Some u \<Longrightarrow> parse_resource_uid u = Some (0, Some (t, i)) \<Longrightarrow> 0 \<le> i \<and> i < int MAX_CLIENT"
  shows "nfv_wf s'"
proof -
  obtain u res q where u: "uid = Some u" "parse_resource_uid u = Some (res, q)"
    using assms(2) by (auto simp: do_add_def bind_Some_iff)
  show ?thesis
  proof (cases "res < 0")
    case True
    then show ?thesis using assms(1,2) u by (simp add: do_add_def)
  next
    case ok: False
    have "res = 0" using u(2) ok by (auto simp: parse_resource_uid_def split: if_splits list.splits prod.splits)
    moreover obtain t i where "q = Some (t, i)"
      using assms(2) u ok by (auto simp: do_add_def bind_Some_iff)
    ultimately have u0: "parse_resource_uid u = Some (0, Some (t, i))" using u(2) by simp
    obtain ty r1 v1 where a: "add_resource E (g_enable_vhost_cli s) t i v = Some (ty, r1, v1)"
      using assms(2) u(1) u0 by (auto simp: do_add_def bind_Some_iff)
    show ?thesis
    proof (cases "r1 < 0")
      case True
      then show ?thesis using assms(1,2) u(1) u0 a by (simp add: do_add_def)
    next
      case False
      have "r1 < int (length (port_map s))"
      proof (cases "ty = UNDEF")
        case True
        then have "r1 = 0" using a by (auto simp: add_resource_def bind_Some_iff Let_def split: if_splits prod.splits)
        then show ?thesis using N by simp
      qed (use E a in \<open>unfold ports_below_def, blast\<close>)
      then obtain k where k: "r1 = int k" "k < length (port_map s)" using False by (metis linorder_not_less nat_0_le nat_less_iff)
      have "do_add E (Some u) s v = Some (0, entered k i ty s, v1)"
        by (rule do_add_entered [OF wf u0 a [unfolded k(1)] k(2)])
      then have "s' = entered k i ty s" using assms(2) u(1) by simp
      then show ?thesis using entered_wf [OF wf k(2)] pid [OF u(1) u0] by simp
    qed
  qed
qed

end
