(* ===== verification/Nfv_Command.thy ===== *)
theory Nfv_Command
  imports Nfv_Ports Command_Conn
begin

text \<open>
  nfv/commands.h, nfv/nfv_status.c and the message loop of nfv/main.c: a message of the controller
  is split into tokens and executed, and the same buffer of MSG_SIZE bytes is sent back.  The
  text of the buffer is its content up to the first NUL.
\<close>

definition MSG_SIZE :: nat where "MSG_SIZE = 2048"

text \<open>The number of tokens the array of parse_command has room for.\<close>

definition MAX_PARAMETER :: nat where "MAX_PARAMETER = 48"

section \<open>The status message\<close>

text \<open>sprintf at the end of the text, and over its last character.\<close>

definition put_str :: "string \<Rightarrow> string \<Rightarrow> string option" where
  "put_str str t = strcpy_buf MSG_SIZE (str @ t)"

definition put_last :: "string \<Rightarrow> string \<Rightarrow> string option" where
  "put_last str t = (if str = [] then None else strcpy_buf MSG_SIZE (butlast str @ t))"

definition port_uid :: "port_map_entry \<Rightarrow> string" where
  "port_uid e =
    (case map_port_type e of
       PHY \<Rightarrow> ''phy:'' @ show_unsigned (map_id e)
     | RING \<Rightarrow> ''ring:'' @ show_unsigned (map_id e)
     | VHOST \<Rightarrow> ''vhost:'' @ show_unsigned (map_id e)
     | PCAP \<Rightarrow> ''pcap:'' @ show_unsigned (map_id e)
     | NULLPMD \<Rightarrow> ''nullpmd:'' @ show_unsigned (map_id e)
     | UNDEF \<Rightarrow> ''udf'')"

abbreviation dquote :: string where "dquote \<equiv> [CHR 0x22]"

fun append_lcores :: "nat \<Rightarrow> int list \<Rightarrow> string \<Rightarrow> string option" where
  "append_lcores i [] str = Some str"
| "append_lcores i (u # us) str = do {
     str1 \<leftarrow> (if u = 1 then put_str str (show_nat i @ '','') else Some str);
     append_lcores (Suc i) us str1
   }"

definition append_lcore_info_json :: "int list \<Rightarrow> string \<Rightarrow> string option" where
  "append_lcore_info_json used str = do {
     str1 \<leftarrow> put_str str (dquote @ ''lcores'' @ dquote @ '':['');
     str2 \<leftarrow> append_lcores 0 used str1;
     put_last str2 '']''
   }"

fun append_ports :: "nfv_port list \<Rightarrow> port_map_entry list \<Rightarrow> nat \<Rightarrow> bool \<Rightarrow> string \<Rightarrow> (bool \<times> string) option" where
  "append_ports [] m i has_port str = Some (has_port, str)"
| "append_ports (p # ps) m i has_port str =
    (if in_port_id p = PORT_RESET then append_ports ps m (Suc i) has_port str
     else do {
       e \<leftarrow> rd m (int i);
       str1 \<leftarrow> put_str str (dquote @ port_uid e @ dquote @ '','');
       append_ports ps m (Suc i) True str1
     })"

definition append_port_info_json :: "nfv_port list \<Rightarrow> port_map_entry list \<Rightarrow> string \<Rightarrow> string option" where
  "append_port_info_json ps m str = do {
     str1 \<leftarrow> put_str str (dquote @ ''ports'' @ dquote @ '':['');
     (has_port, str2) \<leftarrow> append_ports ps m 0 False str1;
     if \<not> has_port then put_str str2 '']'' else put_last str2 '']''
   }"

text \<open>A patch is printed into a buffer of 128 bytes first.\<close>

fun append_patches :: "nfv_port list \<Rightarrow> port_map_entry list \<Rightarrow> nat \<Rightarrow> bool \<Rightarrow> string \<Rightarrow> (bool \<times> string) option" where
  "append_patches [] m i has_patch str = Some (has_patch, str)"
| "append_patches (p # ps) m i has_patch str =
    (if in_port_id p = PORT_RESET then append_patches ps m (Suc i) has_patch str
     else do {
       e \<leftarrow> rd m (int i);
       if out_port_id p = PORT_RESET then append_patches ps m (Suc i) has_patch str
       else do {
         d \<leftarrow> rd m (out_port_id p);
         patch_str \<leftarrow> strcpy_buf 128 (''{'' @ dquote @ ''src'' @ dquote @ '':'' @ dquote @ port_uid e @ dquote @
           '','' @ dquote @ ''dst'' @ dquote @ '':'' @ dquote @ port_uid d @ dquote @ ''},'');
         str1 \<leftarrow> put_str str patch_str;
         append_patches ps m (Suc i) True str1
       }
     })"

definition append_patch_info_json :: "nfv_port list \<Rightarrow> port_map_entry list \<Rightarrow> string \<Rightarrow> string option" where
  "append_patch_info_json ps m str = do {
     str1 \<leftarrow> put_str str (dquote @ ''patches'' @ dquote @ '':['');
     (has_patch, str2) \<leftarrow> append_patches ps m 0 False str1;
     if \<not> has_patch then put_str str2 '']'' else put_last str2 '']''
   }"

definition get_sec_stats_json ::
  "int \<Rightarrow> string \<Rightarrow> int list \<Rightarrow> nfv_port list \<Rightarrow> port_map_entry list \<Rightarrow> string option" where
  "get_sec_stats_json client running_stat used ps m = do {
     s1 \<leftarrow> put_str [] (''{'' @ dquote @ ''client-id'' @ dquote @ '':'' @ show_int client @ '','');
     s2 \<leftarrow> put_str s1 (dquote @ ''status'' @ dquote @ '':'');
     s3 \<leftarrow> put_str s2 (dquote @ running_stat @ dquote @ '','');
     s4 \<leftarrow> append_lcore_info_json used s3;
     s5 \<leftarrow> put_str s4 '','';
     s6 \<leftarrow> append_port_info_json ps m s5;
     s7 \<leftarrow> put_str s6 '','';
     s8 \<leftarrow> append_patch_info_json ps m s7;
     put_str s8 ''}''
   }"

section \<open>Commands\<close>

text \<open>The reply to _get_client_id.\<close>

definition client_id_text :: "int \<Rightarrow> string" where
  "client_id_text client = ''{'' @ dquote @ ''results'' @ dquote @ '':[{'' @ dquote @ ''result'' @ dquote @ '':'' @
     dquote @ ''success'' @ dquote @ ''}],'' @ dquote @ ''client_id'' @ dquote @ '':'' @ show_int client @ '','' @
     dquote @ ''process_type'' @ dquote @ '':'' @ dquote @ ''nfv'' @ dquote @ ''}''"

text \<open>The messages for a port that is not found are printed into a buffer of 128 bytes.\<close>

definition quoted_uid :: "string \<Rightarrow> int \<Rightarrow> string" where
  "quoted_uid t i = [CHR 0x27] @ t @ '':'' @ show_int i @ [CHR 0x27]"

definition patch_error :: "int \<Rightarrow> string \<Rightarrow> int \<Rightarrow> int \<Rightarrow> string \<Rightarrow> int \<Rightarrow> string option" where
  "patch_error in_port in_p_type in_p_id out_port out_p_type out_p_id =
    (if in_port = PORT_RESET \<and> out_port = PORT_RESET
     then strcpy_buf 128 (''Patch not found, both of '' @ quoted_uid in_p_type in_p_id @ '' and '' @
       quoted_uid out_p_type out_p_id)
     else if in_port = PORT_RESET
     then strcpy_buf 128 (''Patch not found, in_port '' @ quoted_uid in_p_type in_p_id)
     else if out_port = PORT_RESET
     then strcpy_buf 128 (''Patch not found, out_port '' @ quoted_uid out_p_type out_p_id)
     else Some [])"

text \<open>The types and numbers of the resources are used whether they could be parsed or not; without
  a colon they are not initialised (None).\<close>

definition do_patch :: "string \<Rightarrow> string \<Rightarrow> nfv \<Rightarrow> nfv option" where
  "do_patch src dst s = do {
     (res1, r1) \<leftarrow> parse_resource_uid src;
     (in_p_type, in_p_id) \<leftarrow> r1;
     let in_port = find_port_id s in_p_id (get_port_type in_p_type);
     (res2, r2) \<leftarrow> parse_resource_uid dst;
     (out_p_type, out_p_id) \<leftarrow> r2;
     let out_port = find_port_id s out_p_id (get_port_type out_p_type);
     msg \<leftarrow> patch_error in_port in_p_type in_p_id out_port out_p_type out_p_id;
     (ret, s1) \<leftarrow> add_patch in_port out_port s;
     Some s1
   }"

text \<open>What strtok leaves of the text: it ends after the first token.\<close>

definition strtok_text :: "string \<Rightarrow> string" where
  "strtok_text str = takeWhile (\<lambda>c. c = CHR '' '') str @
    (case tokens (\<lambda>c. c = CHR '' '') str of [] \<Rightarrow> [] | t # _ \<Rightarrow> t)"

definition arg1 :: "string list \<Rightarrow> string option" where
  "arg1 toks = (if length toks \<le> 1 then None else Some (toks ! 1))"

definition parse_command ::
  "'v ethdev \<Rightarrow> 'v detach \<Rightarrow> string \<Rightarrow> nfv \<Rightarrow> 'v \<Rightarrow> (int \<times> nfv \<times> 'v \<times> string) option" where
  "parse_command E X str s v = do {
     let toks = tokens (\<lambda>c. c = CHR '' '') str;
     let reply = strtok_text str;
     ensure (length toks < MAX_PARAMETER);
     if toks = [] then Some (0, s, v, reply)
     else let tok = hd toks in
       if tok = ''status'' then do {
         txt \<leftarrow> get_sec_stats_json (nfv_client_id s)
           (if nfv_cmd s = FORWARD then ''running'' else ''idling'') (lcore_id_used s) (ports_fwd_array s) (port_map s);
         Some (0, s, v, txt)
       }
       else if tok = ''_get_client_id'' then do {
         txt \<leftarrow> strcpy_buf MSG_SIZE (client_id_text (nfv_client_id s));
         Some (0, s, v, txt)
       }
       else if tok = ''_set_client_id'' then do {
         a \<leftarrow> arg1 toks;
         let (ret, i) = spp_atoi a;
         Some (0, if ret \<ge> 0 then s\<lparr>nfv_client_id := to_uint16 i\<rparr> else s, v, reply)
       }
       else if tok = ''exit'' then Some (- 1, s\<lparr>nfv_cmd := STOP\<rparr>, v, reply)
       else if tok = ''stop'' then Some (0, s\<lparr>nfv_cmd := STOP\<rparr>, v, reply)
       else if tok = ''forward'' then Some (0, s\<lparr>nfv_cmd := FORWARD\<rparr>, v, reply)
       else if tok = ''add'' then do {
         (ret, s1, v1) \<leftarrow> do_add E (arg1 toks) s v;
         Some (0, s1, v1, reply)
       }
       else if tok = ''patch'' then
         (if length toks \<le> 1 then Some (0, s, v, reply)
          else if starts_with (toks ! 1) ''reset'' then Some (0, forward_array_reset s, v, reply)
          else if length toks \<le> 2 then Some (0, s, v, reply)
          else do { s1 \<leftarrow> do_patch (toks ! 1) (toks ! 2) s; Some (0, s1, v, reply) })
       else if tok = ''del'' then do {
         (ret, s1, v1) \<leftarrow> do_del X (arg1 toks) (s\<lparr>nfv_cmd := STOP\<rparr>) v;
         Some (0, s1, v1, reply)
       }
       else Some (0, s, v, reply)
   }"

section \<open>The connection to the controller\<close>

record nfv_conn =
  nc_connected :: int
  nc_sock :: int

definition do_connection :: "'w net \<Rightarrow> string \<Rightarrow> int \<Rightarrow> nfv_conn \<Rightarrow> 'w \<Rightarrow> (int \<times> nfv_conn \<times> 'w) option" where
  "do_connection N ip port c w =
    (if nc_connected c = 0
     then do {
       let (sock, w1) = (if nc_sock c < 0 then net_socket N w else (nc_sock c, w));
       ensure (0 \<le> sock);
       let (ret, w2) = net_connect N sock ip port w1;
       if ret < 0 then Some (ret, c\<lparr>nc_sock := sock\<rparr>, w2)
       else Some (ret, \<lparr>nc_connected = 1, nc_sock = sock\<rparr>, w2)
     }
     else Some (0, c, w))"

text \<open>A message that fills the buffer without a NUL leaves it without a terminator.\<close>

definition do_receive :: "'w net \<Rightarrow> nfv_conn \<Rightarrow> 'w \<Rightarrow> (int \<times> string \<times> nfv_conn \<times> 'w) option" where
  "do_receive N c w =
    (case net_recv N (nc_sock c) MSG_SIZE w of ((ret, bytes, again), w1) \<Rightarrow>
       if ret \<le> 0 then Some (- 1, [], \<lparr>nc_connected = 0, nc_sock = - 1\<rparr>, net_close N (nc_sock c) w1)
       else do {
         str \<leftarrow> strcpy_buf MSG_SIZE (takeWhile (\<lambda>c. c \<noteq> NUL) bytes);
         Some (0, str, c, w1)
       })"

definition do_send :: "'w net \<Rightarrow> string \<Rightarrow> nfv_conn \<Rightarrow> 'w \<Rightarrow> int \<times> nfv_conn \<times> 'w" where
  "do_send N str c w =
    (case net_send N (nc_sock c) str w of (ret, w1) \<Rightarrow>
       if ret = - 1 then (- 1, c\<lparr>nc_connected := 0\<rparr>, w1) else (0, c, w1))"

text \<open>One turn of the loop of main; the result True ends the loop.\<close>

definition nfv_main_turn ::
  "'w net \<Rightarrow> string \<Rightarrow> int \<Rightarrow> 'v ethdev \<Rightarrow> 'v detach \<Rightarrow> nfv_conn \<Rightarrow> nfv \<Rightarrow> 'v \<Rightarrow> 'w \<Rightarrow>
   (bool \<times> nfv_conn \<times> nfv \<times> 'v \<times> 'w) option" where
  "nfv_main_turn N ip port E X c s v w = do {
     (ret, c1, w1) \<leftarrow> do_connection N ip port c w;
     if ret < 0 then Some (False, c1, s, v, net_usleep N CONN_RETRY_USEC w1)
     else do {
       (ret_recv, str, c2, w2) \<leftarrow> do_receive N c1 w1;
       if ret_recv < 0 then Some (False, c2, s, v, w2)
       else do {
         (flg_exit, s1, v1, reply) \<leftarrow> parse_command E X str s v;
         let (ret_send, c3, w3) = do_send N reply c2 w2;
         Some (flg_exit < 0, c3, s1, v1, w3)
       }
     }
   }"

end
