(* ===== verification/Nfv_System.thy ===== *)
theory Nfv_System
  imports Nfv_Inv Nfv_Command
begin

text \<open>
  The process spp_nfv as a whole: its initialisation, the commands of the controller as texts, and
  the states that commands and worker rounds can reach.
\<close>

section \<open>Initialisation\<close>

lemma over_ports_append:
  "over_ports f (ks @ ls) s = do { s' \<leftarrow> over_ports f ks s; over_ports f ls s' }"
  by (induction ks arbitrary: s) (auto split: Option.bind_splits)

definition reset_port :: "nfv_port \<Rightarrow> nfv_port" where
  "reset_port p = p\<lparr>in_port_id := PORT_RESET, out_port_id := PORT_RESET\<rparr>"

definition reset_entry :: "nat \<Rightarrow> port_map_entry \<Rightarrow> port_map_entry" where
  "reset_entry i e = e\<lparr>map_id := PORT_RESET, map_port_type := UNDEF, map_stats := DefaultStats (int i)\<rparr>"

lemma init_ports_prefix:
  assumes "n \<le> length (ports_fwd_array s)"
  shows "over_ports forward_array_init_one [0..<n] s = Some (s\<lparr>ports_fwd_array :=
    List.map reset_port (take n (ports_fwd_array s)) @ drop n (ports_fwd_array s)\<rparr>)"
  using assms
proof (induction n)
  case (Suc n)
  let ?ps = "ports_fwd_array s"
  have n: "n < length ?ps" "n \<le> length ?ps" using Suc.prems by simp_all
  have d: "drop n ?ps = ?ps ! n # drop (Suc n) ?ps" using n by (simp add: Cons_nth_drop_Suc)
  show ?case
    using Suc.IH [OF n(2)] n
    by (simp add: over_ports_append forward_array_init_one_def rd_def wr_def nth_append d take_Suc_conv_app_nth
        reset_port_def list_update_append)
qed simp

lemma init_map_prefix:
  assumes "n \<le> length (port_map s)"
  shows "over_ports port_map_init_one [0..<n] s = Some (s\<lparr>port_map :=
    List.map (\<lambda>i. reset_entry i (port_map s ! i)) [0..<n] @ drop n (port_map s)\<rparr>)"
  using assms
proof (induction n)
  case (Suc n)
  let ?m = "port_map s"
  have n: "n < length ?m" "n \<le> length ?m" using Suc.prems by simp_all
  have d: "drop n ?m = ?m ! n # drop (Suc n) ?m" using n by (simp add: Cons_nth_drop_Suc)
  show ?case
    using Suc.IH [OF n(2)] n
    by (simp add: over_ports_append port_map_init_one_def rd_def wr_def nth_append d reset_entry_def list_update_append)
qed simp

definition nfv_dims :: "nfv \<Rightarrow> bool" where
  "nfv_dims s \<longleftrightarrow> length (port_map s) = length (ports_fwd_array s) \<and> int (length (port_map s)) < PORT_RESET \<and>
    length (port_stats s) = length (port_map s) \<and> length (client_stats s) = MAX_CLIENT"

lemma add_phy_wf:
  assumes "nfv_wf s" and "k < length (port_map s)"
  shows "\<exists>s'. add_phy (int k) s = Some s' \<and> nfv_wf s' \<and> length (port_map s') = length (port_map s) \<and>
    lcore_id_used s' = lcore_id_used s"
proof -
  let ?p = "(ports_fwd_array s ! k)\<lparr>in_port_id := int k\<rparr>"
  let ?e = "(port_map s ! k)\<lparr>map_port_type := PHY, map_id := int k, map_stats := PortStats (int k)\<rparr>"
  define s1 where "s1 = s\<lparr>ports_fwd_array := (ports_fwd_array s)[k := ?p]\<rparr>"
  have wf: "length (port_map s) = length (ports_fwd_array s)" "int (length (ports_fwd_array s)) < PORT_RESET"
      "\<forall>i<length (ports_fwd_array s). fwd_ok (ports_fwd_array s) i" "length (port_stats s) = length (port_map s)"
    using assms(1) by (simp_all add: nfv_wf_def)
  have k: "k < length (ports_fwd_array s)" using assms(2) wf(1) by simp
  have "\<forall>i<length ((ports_fwd_array s)[k := ?p]). fwd_ok ((ports_fwd_array s)[k := ?p]) i"
    by (rule fwd_ok_use [OF wf(3) k wf(2) refl]) simp_all
  then have "nfv_wf s1" unfolding s1_def by (intro nfv_wf_ports assms) simp_all
  then have "nfv_wf (s1\<lparr>port_map := (port_map s1)[k := ?e]\<rparr>)"
    using assms(2) wf(4) by (intro nfv_wf_set_entry) (simp_all add: s1_def stats_ptr_ok_def)
  then show ?thesis using k assms(2) by (simp add: add_phy_def s1_def)
qed

lemma add_all_phy_wf:
  assumes "nfv_wf s" and "\<forall>k\<in>set ks. k < length (port_map s)"
  shows "\<exists>s'. over_ports add_phy ks s = Some s' \<and> nfv_wf s' \<and> length (port_map s') = length (port_map s) \<and>
    lcore_id_used s' = lcore_id_used s"
  using assms
proof (induction ks arbitrary: s)
  case (Cons k ks)
  obtain s1 where 1: "add_phy (int k) s = Some s1" "nfv_wf s1" "length (port_map s1) = length (port_map s)"
      "lcore_id_used s1 = lcore_id_used s"
    using add_phy_wf Cons.prems by (metis list.set_intros(1))
  then show ?case using Cons.IH [of s1] Cons.prems by auto
qed auto

lemma mark_lcores_ok:
  assumes "\<forall>l\<in>set ls. 0 \<le> l \<and> l < int (length used)"
  shows "\<exists>used'. mark_lcores ls used = Some used' \<and> length used' = length used"
  using assms
proof (induction ls arbitrary: used)
  case (Cons l ls)
  then show ?case using Cons.IH [of "used[nat l := 1]"] by (auto simp: mark_lcore_def wr_ok)
qed simp

lemma nfv_init_wf:
  assumes "nfv_dims s" and "\<forall>l\<in>set lcores. 0 \<le> l \<and> l < int (length (lcore_id_used s))"
  shows "\<exists>s'. nfv_init valid n_avail lcores s = Some s' \<and> nfv_wf s' \<and> length (port_map s') = length (port_map s)"
proof -
  let ?N = "length (port_map s)"
  define s1 where "s1 = s\<lparr>ports_fwd_array := List.map reset_port (ports_fwd_array s)\<rparr>"
  define s2 where "s2 = s1\<lparr>port_map := List.map (\<lambda>i. reset_entry i (port_map s ! i)) [0..<?N]\<rparr>"
  have i1: "forward_array_init s = Some s1"
    using init_ports_prefix [of "length (ports_fwd_array s)" s] by (simp add: forward_array_init_def s1_def)
  have i2: "port_map_init s1 = Some s2"
    using init_map_prefix [of "length (port_map s1)" s1] by (simp add: port_map_init_def s1_def s2_def)
  have "nfv_wf s2"
    using assms(1)
    by (auto simp: nfv_wf_def nfv_dims_def s2_def s1_def fwd_ok_def reset_port_def reset_entry_def stats_ptr_ok_def)
  then have w: "nfv_wf (s2\<lparr>nfv_cmd := STOP\<rparr>)" by simp
  have l2: "length (port_map s2) = ?N" "length (ports_fwd_array s2) = ?N" "lcore_id_used s2 = lcore_id_used s"
    using assms(1) by (simp_all add: s2_def s1_def nfv_dims_def)
  have "\<forall>k\<in>set [i \<leftarrow> [0..<min n_avail (length (ports_fwd_array s2))]. valid i]. k < length (port_map (s2\<lparr>nfv_cmd := STOP\<rparr>))"
    using l2 by simp
  from add_all_phy_wf [OF w this] obtain s3 where
    s3: "over_ports add_phy [i \<leftarrow> [0..<min n_avail (length (ports_fwd_array s2))]. valid i] (s2\<lparr>nfv_cmd := STOP\<rparr>) = Some s3"
      "nfv_wf s3" "length (port_map s3) = ?N" "lcore_id_used s3 = lcore_id_used s"
    using l2 by auto
  obtain used where "mark_lcores lcores (lcore_id_used s3) = Some used"
    using mark_lcores_ok [of lcores "lcore_id_used s3"] assms(2) s3(4) by auto
  then show ?thesis using i1 i2 s3 by (simp add: nfv_init_def)
qed

section \<open>Reachable states\<close>

text \<open>The arguments of add are resources of the clients that have statistics.\<close>

definition sane_command :: "string \<Rightarrow> bool" where
  "sane_command str \<longleftrightarrow> (\<forall>u t i. arg1 (tokens (\<lambda>c. c = CHR '' '') str) = Some u \<longrightarrow>
    parse_resource_uid u = Some (0, Some (t, i)) \<longrightarrow> 0 \<le> i \<and> i < int MAX_CLIENT)"

text \<open>Commands of the main thread and rounds of the worker, in any order.\<close>

inductive nfv_step :: "'w dpdk \<Rightarrow> 'v ethdev \<Rightarrow> 'v detach \<Rightarrow> nfv \<times> 'v \<times> 'w \<Rightarrow> nfv \<times> 'v \<times> 'w \<Rightarrow> bool"
  for D E X where
  Command: "parse_command E X str s v = Some (r, s', v', reply) \<Longrightarrow> sane_command str \<Longrightarrow>
    nfv_step D E X (s, v, w) (s', v', w)"
| Work: "nfv_loop_turn D s w = Some (s', w') \<Longrightarrow> nfv_step D E X (s, v, w) (s', v, w')"

lemma do_patch_wf: "nfv_wf s \<Longrightarrow> do_patch a b s = Some s' \<Longrightarrow> nfv_wf s'"
  by (auto simp: do_patch_def bind_Some_iff Let_def dest: add_patch_wf)

lemma do_patch_length: "do_patch a b s = Some s' \<Longrightarrow> length (port_map s') = length (port_map s)"
  by (auto simp: do_patch_def add_patch_def bind_Some_iff Let_def split: if_splits)

lemma do_add_length: "do_add E uid s v = Some (r, s', v') \<Longrightarrow> length (port_map s') = length (port_map s)"
  by (auto simp: do_add_def bind_Some_iff Let_def wr_Some_iff split: if_splits)

lemma do_del_length: "do_del X uid s v = Some (r, s', v') \<Longrightarrow> length (port_map s') = length (port_map s)"
  by (auto simp: do_del_def forward_array_remove_def forward_array_init_one_def port_map_init_one_def
      bind_Some_iff Let_def wr_Some_iff split: if_splits)

lemma command_wf:
  assumes "nfv_wf s" and E: "ports_below E (int (length (port_map s)))" and N: "0 < length (port_map s)"
    and run: "parse_command E X str s v = Some (r, s', v', reply)" and sane: "sane_command str"
  shows "nfv_wf s' \<and> length (port_map s') = length (port_map s)"
proof -
  define toks where "toks = tokens (\<lambda>c. c = CHR '' '') str"
  note run' = run [unfolded parse_command_def Let_def toks_def [symmetric]]
  consider (same) "s' = s \<or> (\<exists>i. s' = s\<lparr>nfv_client_id := i\<rparr>) \<or> (\<exists>c. s' = s\<lparr>nfv_cmd := c\<rparr>)"
    | (add) ret where "do_add E (arg1 toks) s v = Some (ret, s', v')"
    | (reset) "s' = forward_array_reset s"
    | (patch) "do_patch (toks ! 1) (toks ! 2) s = Some s'"
    | (del) ret where "do_del X (arg1 toks) (s\<lparr>nfv_cmd := STOP\<rparr>) v = Some (ret, s', v')"
    using run' by (auto simp: bind_Some_iff case_prod_beta split: if_splits)
  then show ?thesis
  proof cases
    case same
    then show ?thesis using assms(1) by auto
  next
    case add
    have "nfv_wf s'"
      by (rule do_add_wf [OF assms(1) add E N]) (use sane in \<open>auto simp: sane_command_def toks_def\<close>)
    then show ?thesis using do_add_length [OF add] by simp
  next
    case reset
    then show ?thesis using forward_array_reset_wf [OF assms(1)] by (simp add: forward_array_reset_def)
  next
    case patch
    then show ?thesis using do_patch_wf [OF assms(1) patch] do_patch_length [OF patch] by simp
  next
    case del
    have "nfv_wf (s\<lparr>nfv_cmd := STOP\<rparr>)" using assms(1) by simp
    then show ?thesis using do_del_wf [OF _ del] do_del_length [OF del] by simp
  qed
qed

lemma loop_turn_ok:
  assumes "io_laws D held" and "nfv_wf s"
  shows "\<exists>s' w'. nfv_loop_turn D s w = Some (s', w') \<and> shape s' = shape s \<and> held w' = held w \<and>
    unaccounted s' = unaccounted s"
  using forward_ports_ok [OF assms, of "[0..<length (ports_fwd_array s)]" w]
  by (auto simp: nfv_loop_turn_def nfv_forward_def)


end
