(* ===== verification/Nfv_Patch.thy ===== *)
theory Nfv_Patch
  imports Nfv_System
begin

text \<open>
  The commands add, del and patch of spp_nfv as the texts the controller sends, with ports named
  by their resource UID such as ring:0.
\<close>

section \<open>Resource UIDs\<close>

definition uid_text :: "string \<Rightarrow> nat \<Rightarrow> string" where
  "uid_text t n = t @ '':'' @ show_nat n"

definition plain_type :: "string \<Rightarrow> bool" where
  "plain_type t \<longleftrightarrow> t \<noteq> [] \<and> CHR '':'' \<notin> set t \<and> CHR '' '' \<notin> set t"

definition type_name :: "port_type \<Rightarrow> string" where
  "type_name ty = (case ty of PHY \<Rightarrow> ''phy'' | RING \<Rightarrow> ''ring'' | VHOST \<Rightarrow> ''vhost'' | PCAP \<Rightarrow> ''pcap''
     | NULLPMD \<Rightarrow> ''nullpmd'' | UNDEF \<Rightarrow> ''udf'')"

lemma plain_type_name: "plain_type (type_name ty)"
  by (cases ty) (simp_all add: type_name_def plain_type_def)

lemma get_port_type_name: "get_port_type (type_name ty) = ty"
  by (cases ty) (simp_all add: type_name_def get_port_type_def portmap_def starts_with_def)

lemma resource_type_name: "resource_type (type_name ty) = (if ty = PHY then UNDEF else ty)"
  by (cases ty) (simp_all add: type_name_def resource_type_def)

lemma digit_not_separator: "c \<in> set (show_nat n) \<Longrightarrow> c \<noteq> CHR '':'' \<and> c \<noteq> CHR '' ''"
proof -
  assume "c \<in> set (show_nat n)"
  then obtain k where k: "k < 10" "c = digit_char k" using show_nat_digits by blast
  have "ord_of c = 48 + k" using k ord_digit_char by simp
  then show ?thesis using k(1) by (auto simp: ord_of_def)
qed

lemma parse_uid:
  assumes "plain_type t" and "int n < 2 ^ 31"
  shows "parse_resource_uid (uid_text t n) = Some (0, Some (t, int n))"
proof -
  have t: "t \<noteq> []" "\<forall>c\<in>set t. \<not> c = CHR '':''" using assms(1) by (auto simp: plain_type_def)
  have n: "\<forall>c\<in>set (show_nat n). \<not> c = CHR '':''" using digit_not_separator by blast
  have "tokens (\<lambda>c. c = CHR '':'') (t @ CHR '':'' # show_nat n) = [t, show_nat n]"
    using tokens_app [OF t, of "CHR '':''" "show_nat n"] tokens_single [OF _ n] by simp
  moreover have "strtol 10 (show_nat n) = (int n, [])"
    using strtol_show_nat [of n 10] assms(2) by (simp add: LONG_MAX_def)
  moreover have "to_int32 (int n) = int n" using assms(2) by (intro to_int32_id) simp_all
  ultimately show ?thesis using assms(1) by (simp add: parse_resource_uid_def uid_text_def)
qed

lemma uid_word: "plain_type t \<Longrightarrow> uid_text t n \<noteq> [] \<and> (\<forall>c\<in>set (uid_text t n). \<not> c = CHR '' '')"
  using digit_not_separator [of _ n] by (auto simp: uid_text_def plain_type_def)

lemma command_words:
  assumes "c \<noteq> []" and "\<forall>x\<in>set c. \<not> x = CHR '' ''" and "a \<noteq> []" and "\<forall>x\<in>set a. \<not> x = CHR '' ''"
  shows "tokens (\<lambda>c. c = CHR '' '') (c @ CHR '' '' # a) = [c, a]"
    and "strtok_text (c @ CHR '' '' # a) = c"
proof -
  show t: "tokens (\<lambda>c. c = CHR '' '') (c @ CHR '' '' # a) = [c, a]"
    using tokens_app [OF assms(1,2), of "CHR '' ''" a] tokens_single [OF assms(3,4)] by simp
  obtain x xs where "c = x # xs" using assms(1) by (cases c) auto
  then show "strtok_text (c @ CHR '' '' # a) = c" using t assms(2) by (simp add: strtok_text_def)
qed

lemma command_words3:
  assumes "c \<noteq> []" and "\<forall>x\<in>set c. \<not> x = CHR '' ''" and "a \<noteq> []" and "\<forall>x\<in>set a. \<not> x = CHR '' ''"
    and "b \<noteq> []" and "\<forall>x\<in>set b. \<not> x = CHR '' ''"
  shows "tokens (\<lambda>c. c = CHR '' '') (c @ CHR '' '' # a @ CHR '' '' # b) = [c, a, b]"
    and "strtok_text (c @ CHR '' '' # a @ CHR '' '' # b) = c"
proof -
  show t: "tokens (\<lambda>c. c = CHR '' '') (c @ CHR '' '' # a @ CHR '' '' # b) = [c, a, b]"
    using tokens_app [OF assms(1,2), of "CHR '' ''" "a @ CHR '' '' # b"] tokens_app [OF assms(3,4), of "CHR '' ''" b]
      tokens_single [OF assms(5,6)] by simp
  obtain x xs where "c = x # xs" using assms(1) by (cases c) auto
  then show "strtok_text (c @ CHR '' '' # a @ CHR '' '' # b) = c" using t assms(2) by (simp add: strtok_text_def)
qed

section \<open>patch\<close>

text \<open>The port with the number k is the one the controller calls type:n.\<close>

definition port_known :: "nfv \<Rightarrow> port_type \<Rightarrow> nat \<Rightarrow> nat \<Rightarrow> bool" where
  "port_known s ty n k \<longleftrightarrow> ty \<noteq> UNDEF \<and> int n < PORT_RESET \<and> k < length (port_map s) \<and>
    map_port_type (port_map s ! k) = ty \<and> map_id (port_map s ! k) = int n \<and>
    (\<forall>j<k. \<not> (map_port_type (port_map s ! j) = ty \<and> map_id (port_map s ! j) = int n))"

lemma find_known: "port_known s ty n k \<Longrightarrow> find_port_id s (int n) ty = int k"
  using find_from_unique [of k "port_map s" ty "int n" 0] by (simp add: find_port_id_def port_known_def)

lemma valid_known: "port_known s ty n k \<Longrightarrow> is_valid_port s (int k) = Some True"
  by (auto simp: port_known_def is_valid_port_def)

definition patched :: "nat \<Rightarrow> nat \<Rightarrow> nfv \<Rightarrow> nfv" where
  "patched i j s = s\<lparr>ports_fwd_array :=
    (let ps1 = (ports_fwd_array s)[i := \<lparr>in_port_id = int i, out_port_id = int j, rx_func = True, tx_func = True\<rparr>]
     in ps1[j := (ps1 ! j)\<lparr>in_port_id := int j, rx_func := True, tx_func := True\<rparr>])\<rparr>"

lemma patch_command:
  assumes "nfv_wf s" and "port_known s ty1 n1 i" and "port_known s ty2 n2 j"
  shows "parse_command E X (''patch '' @ uid_text (type_name ty1) n1 @ '' '' @ uid_text (type_name ty2) n2) s v =
    Some (0, patched i j s, v, ''patch'')"
proof -
  let ?a = "uid_text (type_name ty1) n1" and ?b = "uid_text (type_name ty2) n2"
  have n: "int n1 < 2 ^ 31" "int n2 < 2 ^ 31" using assms(2,3) by (simp_all add: port_known_def PORT_RESET_def)
  have ij: "i < length (ports_fwd_array s)" "j < length (ports_fwd_array s)"
      "int i \<noteq> PORT_RESET" "int j \<noteq> PORT_RESET"
    using assms by (auto simp: port_known_def nfv_wf_def)
  have "do_patch ?a ?b s = Some (patched i j s)"
    using ij
    by (simp add: do_patch_def parse_uid [OF plain_type_name n(1)] parse_uid [OF plain_type_name n(2)] get_port_type_name
        find_known [OF assms(2)] find_known [OF assms(3)] patch_error_def add_patch_def valid_known [OF assms(2)]
        valid_known [OF assms(3)] patched_def Let_def)
  moreover have "\<not> starts_with ?a ''reset''"
    by (cases ty1) (simp_all add: starts_with_def uid_text_def type_name_def)
  moreover note command_words3 [of "''patch''" ?a ?b] uid_word [OF plain_type_name, of ty1 n1] uid_word [OF plain_type_name, of ty2 n2]
  ultimately show ?thesis
    by (simp add: parse_command_def Let_def MAX_PARAMETER_def)
qed

text \<open>C39: The command "patch TYPE1:N1 TYPE2:N2" with the names of two existing ports patches the
  first port to the second: the first one's packets go to the second, both are in use, all other
  patches stay what they were, and nothing but the forward array changes.\<close>
theorem nfv_patch_correct:
  assumes "nfv_wf s" and "port_known s ty1 n1 i" and "port_known s ty2 n2 j"
  shows "\<exists>s'. parse_command E X (''patch '' @ uid_text (type_name ty1) n1 @ '' '' @ uid_text (type_name ty2) n2) s v =
      Some (0, s', v, ''patch'') \<and>
    length (ports_fwd_array s') = length (ports_fwd_array s) \<and>
    in_port_id (ports_fwd_array s' ! i) = int i \<and> in_port_id (ports_fwd_array s' ! j) = int j \<and>
    (\<forall>k<length (ports_fwd_array s). out_port_id (ports_fwd_array s' ! k) =
       (if k = i then int j else out_port_id (ports_fwd_array s ! k)) \<and>
       (k \<noteq> i \<longrightarrow> k \<noteq> j \<longrightarrow> ports_fwd_array s' ! k = ports_fwd_array s ! k)) \<and>
    s'\<lparr>ports_fwd_array := ports_fwd_array s\<rparr> = s"
proof -
  have ij: "i < length (ports_fwd_array s)" "j < length (ports_fwd_array s)"
    using assms by (auto simp: port_known_def nfv_wf_def)
  then show ?thesis
    using patch_command [OF assms, of E X v]
    by (intro exI [of _ "patched i j s"]) (auto simp: patched_def Let_def nth_list_update)
qed

section \<open>del\<close>

lemma unpatch_first_exact:
  "i < length ps \<Longrightarrow> unpatch_first d ps ! i =
    (if in_port_id (ps ! i) \<noteq> PORT_RESET \<and> out_port_id (ps ! i) = d \<and>
        (\<forall>j<i. \<not> (in_port_id (ps ! j) \<noteq> PORT_RESET \<and> out_port_id (ps ! j) = d))
     then (ps ! i)\<lparr>out_port_id := PORT_RESET\<rparr> else ps ! i)"
proof (induction ps arbitrary: i)
  case (Cons p ps)
  show ?case
  proof (cases i)
    case 0
    then show ?thesis by simp
  next
    case (Suc m)
    have all: "(\<forall>j<Suc m. Q ((p # ps) ! j)) \<longleftrightarrow> Q p \<and> (\<forall>j<m. Q (ps ! j))" for Q
      by (auto simp: less_Suc_eq_0_disj)
    show ?thesis
      using Cons.IH [of m] Cons.prems Suc
        all [of "\<lambda>q. \<not> (in_port_id q \<noteq> PORT_RESET \<and> out_port_id q = d)"]
      by (auto split: if_splits)
  qed
qed simp

text \<open>The command "del TYPE:N" for an existing port that is not physical stops forwarding, frees
  the port and forgets its patch, and takes back only the patch to it with the smallest source:
  a second source keeps its patch to the port that no longer exists.\<close>
theorem nfv_del_effect:
  assumes "nfv_wf s" and "port_known s ty n k" and "ty \<noteq> PHY"
  shows "\<exists>s' v'. parse_command E X (''del '' @ uid_text (type_name ty) n) s v = Some (0, s', v', ''del'') \<and>
    nfv_cmd s' = STOP \<and> map_id (port_map s' ! k) = PORT_RESET \<and> map_port_type (port_map s' ! k) = UNDEF \<and>
    in_port_id (ports_fwd_array s' ! k) = PORT_RESET \<and> out_port_id (ports_fwd_array s' ! k) = PORT_RESET \<and>
    (\<forall>i<length (ports_fwd_array s). i \<noteq> k \<longrightarrow>
      in_port_id (ports_fwd_array s' ! i) = in_port_id (ports_fwd_array s ! i) \<and>
      out_port_id (ports_fwd_array s' ! i) =
        (if out_port_id (ports_fwd_array s ! i) = int k \<and>
            (\<forall>j<i. j \<noteq> k \<longrightarrow> out_port_id (ports_fwd_array s ! j) \<noteq> int k)
         then PORT_RESET else out_port_id (ports_fwd_array s ! i)))"
proof -
  let ?u = "uid_text (type_name ty) n" and ?s = "s\<lparr>nfv_cmd := STOP\<rparr>"
  have n: "int n < 2 ^ 31" using assms(2) by (simp add: port_known_def PORT_RESET_def)
  have wf: "nfv_wf ?s" using assms(1) by simp
  have k: "k < length (port_map ?s)" "k < length (ports_fwd_array s)" "int k \<noteq> PORT_RESET"
    using assms(1,2) by (auto simp: port_known_def nfv_wf_def)
  have ty: "resource_type (type_name ty) = ty" "ty \<noteq> UNDEF"
    using assms(2,3) by (simp_all add: resource_type_name port_known_def)
  have "find_port_id ?s (int n) ty = int k"
    using find_known [OF assms(2)] by (simp add: find_port_id_def)
  then obtain v' where "do_del X (Some ?u) ?s v = Some (0, cleared k ?s, v')"
    using do_del_found [OF wf parse_uid [OF plain_type_name n] _ _ k(1), of ty X v] ty by auto
  moreover note command_words [of "''del''" ?u] uid_word [OF plain_type_name, of ty n]
  ultimately have run: "parse_command E X (''del '' @ ?u) s v = Some (0, cleared k ?s, v', ''del'')"
    by (simp add: parse_command_def Let_def MAX_PARAMETER_def arg1_def)
  let ?ps = "(ports_fwd_array s)[k := (ports_fwd_array s ! k)\<lparr>in_port_id := PORT_RESET, out_port_id := PORT_RESET\<rparr>]"
  have fwd: "ports_fwd_array (cleared k ?s) = unpatch_first (int k) ?ps" by (simp add: cleared_def)
  have used: "out_port_id (ports_fwd_array s ! j) = int k \<Longrightarrow> in_port_id (ports_fwd_array s ! j) \<noteq> PORT_RESET"
    if "j < length (ports_fwd_array s)" for j
    using assms(1) that k(3) by (auto simp: nfv_wf_def fwd_ok_def)
  have other: "in_port_id (ports_fwd_array (cleared k ?s) ! i) = in_port_id (ports_fwd_array s ! i) \<and>
      out_port_id (ports_fwd_array (cleared k ?s) ! i) =
        (if out_port_id (ports_fwd_array s ! i) = int k \<and>
            (\<forall>j<i. j \<noteq> k \<longrightarrow> out_port_id (ports_fwd_array s ! j) \<noteq> int k)
         then PORT_RESET else out_port_id (ports_fwd_array s ! i))"
    if i: "i < length (ports_fwd_array s)" "i \<noteq> k" for i
  proof -
    have "(\<forall>j<i. \<not> (in_port_id (?ps ! j) \<noteq> PORT_RESET \<and> out_port_id (?ps ! j) = int k)) \<longleftrightarrow>
        (\<forall>j<i. j \<noteq> k \<longrightarrow> out_port_id (ports_fwd_array s ! j) \<noteq> int k)"
      using k(2) by (auto simp: nth_list_update dest: used [OF less_trans [OF _ i(1)]])
    then show ?thesis
      using unpatch_first_exact [of i ?ps "int k"] i used [OF i(1)] unfolding fwd by auto
  qed
  have self: "unpatch_first (int k) ?ps ! k = ?ps ! k" using unpatch_first_exact [of k ?ps "int k"] k by simp
  show ?thesis
    using run other self k fwd
    by (intro exI [of _ "cleared k ?s"] exI [of _ v']) (simp add: cleared_def)
qed

section \<open>Failures\<close>

text \<open>The types of add and del are not checked.  "add TYPE:N" with a type the process does not
  know (phy for instance) succeeds and makes port 0 an undefined port with the number N; "del
  TYPE:N" with such a type writes outside the forward array.\<close>
theorem nfv_unknown_type:
  assumes "nfv_wf s" and "0 < length (port_map s)" and "plain_type t" and "resource_type t = UNDEF" and "int n < 2 ^ 31"
  shows "(\<exists>s'. parse_command E X (''add '' @ uid_text t n) s v = Some (0, s', v, ''add'') \<and>
      map_port_type (port_map s' ! 0) = UNDEF \<and> map_id (port_map s' ! 0) = int n \<and>
      map_stats (port_map s' ! 0) = ClientStats (int n) \<and> in_port_id (ports_fwd_array s' ! 0) = 0) \<and>
    parse_command E X (''del '' @ uid_text t n) s v = None"
proof -
  let ?u = "uid_text t n"
  note uid = parse_uid [OF assms(3,5)]
  note w = uid_word [OF assms(3), of n]
  have "add_resource E (g_enable_vhost_cli s) t (int n) v = Some (UNDEF, int 0, v)"
    using assms(4) by (auto simp: add_resource_def resource_type_def split: if_splits)
  from do_add_entered [OF assms(1) uid this assms(2)]
  have "do_add E (Some ?u) s v = Some (0, entered 0 (int n) UNDEF s, v)" .
  then have run: "parse_command E X (''add '' @ ?u) s v = Some (0, entered 0 (int n) UNDEF s, v, ''add'')"
    using command_words [of "''add''" ?u] w by (simp add: parse_command_def Let_def MAX_PARAMETER_def arg1_def)
  have "0 < length (ports_fwd_array s)" using assms(1,2) by (simp add: nfv_wf_def)
  then have "\<exists>s'. parse_command E X (''add '' @ uid_text t n) s v = Some (0, s', v, ''add'') \<and>
      map_port_type (port_map s' ! 0) = UNDEF \<and> map_id (port_map s' ! 0) = int n \<and>
      map_stats (port_map s' ! 0) = ClientStats (int n) \<and> in_port_id (ports_fwd_array s' ! 0) = 0"
    using run assms(2) by (intro exI [of _ "entered 0 (int n) UNDEF s"]) (simp add: entered_def)
  moreover have "nfv_wf (s\<lparr>nfv_cmd := STOP\<rparr>)" using assms(1) by simp
  from do_del_unknown [OF this uid assms(4), of X v]
  have "parse_command E X (''del '' @ uid_text t n) s v = None"
    using command_words [of "''del''" ?u] w by (simp add: parse_command_def Let_def MAX_PARAMETER_def arg1_def)
  ultimately show ?thesis by blast
qed

text \<open>A message of 48 tokens overruns the array of parse_command.\<close>

lemma nfv_too_many_tokens:
  "MAX_PARAMETER \<le> length (tokens (\<lambda>c. c = CHR '' '') str) \<Longrightarrow> parse_command E X str s v = None"
  by (simp add: parse_command_def Let_def)

text \<open>A patch between ports that do not exist prints their names into a buffer of 128 bytes.\<close>

lemma patch_message_overflow:
  assumes "128 \<le> length t1"
  shows "patch_error PORT_RESET t1 i1 out t2 i2 = None"
  using assms by (simp add: patch_error_def strcpy_buf_def quoted_uid_def)

section \<open>A race\<close>

text \<open>forward tests the two ids of a port and then reads out_port_id again, for the index of the port
  to send to.\<close>

definition forward_tests :: "nfv \<Rightarrow> int \<Rightarrow> bool option" where
  "forward_tests s i = do {
     p \<leftarrow> rd (ports_fwd_array s) i;
     Some (in_port_id p \<noteq> PORT_RESET \<and> out_port_id p \<noteq> PORT_RESET)
   }"

definition forward_target :: "nfv \<Rightarrow> int \<Rightarrow> nfv_port option" where
  "forward_target s i = do { p \<leftarrow> rd (ports_fwd_array s) i; rd (ports_fwd_array s) (out_port_id p) }"

lemma reset_command: "parse_command E X ''patch reset'' s v = Some (0, forward_array_reset s, v, ''patch'')"
  using command_words [of "''patch''" "''reset''"]
  by (simp add: parse_command_def Let_def MAX_PARAMETER_def starts_with_def)

text \<open>In a state in which the worker may forward from port i, the port it sends to exists as
  long as it reads the id in the same state.  When the main thread executes "patch reset"
  between the test and the second read, which does not stop the worker, the state keeps its
  invariant but the worker uses PORT_RESET as an index, outside of the array.\<close>
theorem nfv_reset_race:
  assumes "nfv_wf s" and "forward_tests s i = Some True"
  shows "forward_target s i \<noteq> None \<and>
    (\<exists>s'. parse_command E X ''patch reset'' s v = Some (0, s', v, ''patch'') \<and> nfv_wf s' \<and>
      nfv_cmd s' = nfv_cmd s \<and> forward_target s' i = None)"
proof -
  obtain k where k: "i = int k" "k < length (ports_fwd_array s)" "in_port_id (ports_fwd_array s ! k) \<noteq> PORT_RESET"
      "out_port_id (ports_fwd_array s ! k) \<noteq> PORT_RESET"
    using assms(2) zero_le_imp_eq_int [of i] by (auto simp: forward_tests_def bind_Some_iff rd_Some_iff)
  have "fwd_ok (ports_fwd_array s) k" using assms(1) k(2) by (simp add: nfv_wf_def)
  then have "forward_target s i \<noteq> None"
    using k by (auto simp: forward_target_def fwd_ok_def rd_None_iff)
  moreover have "int (length (ports_fwd_array s)) \<le> PORT_RESET" using assms(1) by (simp add: nfv_wf_def)
  then have "forward_target (forward_array_reset s) i = None"
    using k by (simp add: forward_target_def forward_array_reset_def rd_None_iff)
  moreover have "nfv_cmd (forward_array_reset s) = nfv_cmd s" by (simp add: forward_array_reset_def)
  ultimately show ?thesis
    using reset_command [of E X s v] forward_array_reset_wf [OF assms(1)] by blast
qed

end
