(* ===== verification/Nfv_Status.thy ===== *)
theory Nfv_Status
  imports Nfv_Patch Command_Json
begin

text \<open>
  The status message of nfv/nfv_status.c against the JSON value it stands for.
\<close>

section \<open>JSON without blanks\<close>

fun tight_commas :: "string list \<Rightarrow> string" where
  "tight_commas [] = []"
| "tight_commas [x] = x"
| "tight_commas (x # y # xs) = x @ '','' @ tight_commas (y # xs)"

fun compact :: "json \<Rightarrow> string" where
  "compact (JStr s) = quoted s"
| "compact (JInt i) = show_int i"
| "compact (JArr js) = ''['' @ tight_commas (List.map compact js) @ '']''"
| "compact (JObj ms) = ''{'' @ tight_commas (List.map (\<lambda>(k, j). quoted k @ '':'' @ compact j) ms) @ ''}''"

definition patch_json :: "port_map_entry list \<Rightarrow> nat \<times> nfv_port \<Rightarrow> json" where
  "patch_json m = (\<lambda>(i, p). JObj [(''src'', JStr (port_uid (m ! i))), (''dst'', JStr (port_uid (m ! nat (out_port_id p))))])"

definition status_json :: "string \<Rightarrow> nfv \<Rightarrow> json" where
  "status_json running s = JObj
     [(''client-id'', JInt (nfv_client_id s)), (''status'', JStr running),
      (''lcores'', JArr [JInt (int l). (l, u) \<leftarrow> enumerate 0 (lcore_id_used s), u = 1]),
      (''ports'', JArr [JStr (port_uid (port_map s ! i)). (i, p) \<leftarrow> enumerate 0 (ports_fwd_array s), in_port_id p \<noteq> PORT_RESET]),
      (''patches'', JArr [patch_json (port_map s) (i, p). (i, p) \<leftarrow> enumerate 0 (ports_fwd_array s),
         in_port_id p \<noteq> PORT_RESET \<and> out_port_id p \<noteq> PORT_RESET])]"

section \<open>Writers\<close>

text \<open>A writer puts t at the end of every text that fits the buffer.\<close>

definition writes :: "(string \<Rightarrow> string option) \<Rightarrow> string \<Rightarrow> bool" where
  "writes f t \<longleftrightarrow> (\<forall>str. length str < MSG_SIZE \<longrightarrow> f str = put_str str t)"

lemma writes_put: "writes (\<lambda>str. put_str str t) t"
  by (simp add: writes_def)

lemma writes_bind:
  assumes "writes f t" and "writes g u"
  shows "writes (\<lambda>str. f str \<bind> g) (t @ u)"
  using assms by (auto simp: writes_def put_str_def strcpy_buf_def)

lemma writes_id: "writes Some []"
  by (simp add: writes_def put_str_def strcpy_buf_def)

text \<open>A list with a comma after every element, and the same list with the last one replaced.\<close>

definition with_commas :: "string list \<Rightarrow> string" where
  "with_commas xs = concat (List.map (\<lambda>x. x @ '','') xs)"

lemma with_commas_tight: "xs \<noteq> [] \<Longrightarrow> with_commas xs = tight_commas xs @ '',''"
  by (induction xs rule: tight_commas.induct) (simp_all add: with_commas_def)

lemma put_list_last:
  assumes "xs \<noteq> []"
  shows "(put_str str (t @ with_commas xs) \<bind> (\<lambda>s. put_last s '']'')) = put_str str (t @ tight_commas xs @ '']'')"
proof -
  have "butlast (str @ t @ tight_commas xs @ '','') = str @ t @ tight_commas xs" by (simp add: butlast_append)
  then show ?thesis
    by (auto simp: put_str_def put_last_def strcpy_buf_def with_commas_tight [OF assms])
qed

lemma append_lcores_writes:
  "writes (append_lcores i us) (with_commas [show_nat l. (l, u) \<leftarrow> enumerate i us, u = 1])"
proof (induction us arbitrary: i)
  case Nil
  then show ?case using writes_id by (simp add: with_commas_def writes_def put_str_def strcpy_buf_def)
next
  case (Cons u us)
  show ?case
  proof (cases "u = 1")
    case True
    have "writes (\<lambda>str. put_str str (show_nat i @ '','') \<bind> append_lcores (Suc i) us)
        ((show_nat i @ '','') @ with_commas [show_nat l. (l, u) \<leftarrow> enumerate (Suc i) us, u = 1])"
      by (rule writes_bind [OF writes_put Cons.IH])
    then show ?thesis using True by (simp add: with_commas_def writes_def)
  qed (use Cons.IH [of "Suc i"] in \<open>simp add: writes_def\<close>)
qed

text \<open>A writer that also reports whether the list was empty.\<close>

definition flag_writes :: "(string \<Rightarrow> (bool \<times> string) option) \<Rightarrow> bool \<Rightarrow> string \<Rightarrow> bool" where
  "flag_writes F b t \<longleftrightarrow> (\<forall>str. length str < MSG_SIZE \<longrightarrow> F str = map_option (Pair b) (put_str str t))"

lemma flag_writes_bind:
  assumes "flag_writes G b u"
  shows "flag_writes (\<lambda>str. put_str str t \<bind> G) b (t @ u)"
  using assms by (auto simp: flag_writes_def put_str_def strcpy_buf_def)

lemma flag_writes_id: "flag_writes (\<lambda>str. Some (b, str)) b []"
  by (simp add: flag_writes_def put_str_def strcpy_buf_def)

text \<open>The brackets around a list that may be empty.\<close>

lemma list_writes:
  assumes "flag_writes F (xs \<noteq> []) (with_commas xs)" and "length str < MSG_SIZE"
  shows "(put_str str t \<bind> (\<lambda>s1. F s1 \<bind> (\<lambda>(b, s2). if \<not> b then put_str s2 '']'' else put_last s2 '']''))) =
    put_str str (t @ tight_commas xs @ '']'')"
proof (cases "put_str str t")
  case None
  then show ?thesis by (simp add: put_str_def strcpy_buf_def split: if_splits)
next
  case (Some s1)
  then have s1: "s1 = str @ t" "length s1 < MSG_SIZE" by (auto simp: put_str_def strcpy_buf_def split: if_splits)
  have F: "F s1 = map_option (Pair (xs \<noteq> [])) (put_str s1 (with_commas xs))"
    using assms(1) s1(2) by (simp add: flag_writes_def)
  show ?thesis
  proof (cases "xs = []")
    case True
    then show ?thesis using F s1 Some by (auto simp: put_str_def strcpy_buf_def with_commas_def)
  next
    case False
    have "(put_str s1 (with_commas xs) \<bind> (\<lambda>s. put_last s '']'')) = put_str s1 (tight_commas xs @ '']'')"
      using put_list_last [OF False, of s1 "[]"] by simp
    then show ?thesis using F False s1(1) Some
      by (cases "put_str s1 (with_commas xs)") (simp_all add: put_str_def)
  qed
qed

lemma append_ports_writes:
  assumes "i + length ps \<le> length m"
  shows "flag_writes (append_ports ps m i has) (has \<or> [quoted (port_uid (m ! j)). (j, p) \<leftarrow> enumerate i ps, in_port_id p \<noteq> PORT_RESET] \<noteq> [])
      (with_commas [quoted (port_uid (m ! j)). (j, p) \<leftarrow> enumerate i ps, in_port_id p \<noteq> PORT_RESET])"
  using assms
proof (induction ps arbitrary: i has)
  case Nil
  then show ?case using flag_writes_id by (simp add: with_commas_def)
next
  case (Cons p ps)
  have l: "Suc i + length ps \<le> length m" using Cons.prems by simp
  show ?case
  proof (cases "in_port_id p = PORT_RESET")
    case True
    then show ?thesis using Cons.IH [OF l, of has] by (simp add: flag_writes_def)
  next
    case False
    have e: "rd m (int i) = Some (m ! i)" using Cons.prems by simp
    show ?thesis
      using flag_writes_bind [OF Cons.IH [OF l, of True], of "quoted (port_uid (m ! i)) @ '',''"] False e
      by (simp add: quoted_def with_commas_def)
  qed
qed

lemma length_show_unsigned: "length (show_unsigned i) \<le> 10"
proof -
  have "nat (i mod 2 ^ 32) \<le> 4294967295" by simp
  then have "length (show_nat (nat (i mod 2 ^ 32))) \<le> length (show_nat 4294967295)" by (rule length_show_nat_mono)
  also have "length (show_nat 4294967295) = 10" by (simp add: show_nat.simps)
  finally show ?thesis by (simp add: show_unsigned_def)
qed

lemma length_port_uid: "length (port_uid e) \<le> 18"
  using length_show_unsigned [of "map_id e"] by (simp add: port_uid_def split: port_type.split)

lemma append_patches_writes:
  assumes "i + length ps \<le> length m"
    and "\<forall>p\<in>set ps. out_port_id p \<noteq> PORT_RESET \<longrightarrow> 0 \<le> out_port_id p \<and> out_port_id p < int (length m)"
  shows "flag_writes (append_patches ps m i has)
      (has \<or> [compact (patch_json m (j, p)). (j, p) \<leftarrow> enumerate i ps, in_port_id p \<noteq> PORT_RESET \<and> out_port_id p \<noteq> PORT_RESET] \<noteq> [])
      (with_commas [compact (patch_json m (j, p)). (j, p) \<leftarrow> enumerate i ps, in_port_id p \<noteq> PORT_RESET \<and> out_port_id p \<noteq> PORT_RESET])"
  using assms
proof (induction ps arbitrary: i has)
  case Nil
  then show ?case using flag_writes_id by (simp add: with_commas_def)
next
  case (Cons p ps)
  have l: "Suc i + length ps \<le> length m" using Cons.prems(1) by simp
  have ok: "\<forall>p\<in>set ps. out_port_id p \<noteq> PORT_RESET \<longrightarrow> 0 \<le> out_port_id p \<and> out_port_id p < int (length m)"
    using Cons.prems(2) by simp
  have e: "rd m (int i) = Some (m ! i)" using Cons.prems(1) by simp
  show ?case
  proof (cases "in_port_id p = PORT_RESET \<or> out_port_id p = PORT_RESET")
    case True
    then show ?thesis using Cons.IH [OF l ok, of has] e by (auto simp: flag_writes_def)
  next
    case False
    define t where "t = compact (patch_json m (i, p)) @ '',''"
    have d: "rd m (out_port_id p) = Some (m ! nat (out_port_id p))"
      using Cons.prems(2) False by (intro rd_ok) auto
    have t: "strcpy_buf 128 (''{'' @ dquote @ ''src'' @ dquote @ '':'' @ dquote @ port_uid (m ! i) @ dquote @
        '','' @ dquote @ ''dst'' @ dquote @ '':'' @ dquote @ port_uid (m ! nat (out_port_id p)) @ dquote @ ''},'') = Some t"
      using length_port_uid [of "m ! i"] length_port_uid [of "m ! nat (out_port_id p)"]
      by (simp add: strcpy_buf_def t_def patch_json_def quoted_def)
    have run: "append_patches (p # ps) m i has str = (put_str str t \<bind> append_patches ps m (Suc i) True)" for str
      using False e d t by simp
    show ?thesis
      unfolding run
      using flag_writes_bind [OF Cons.IH [OF l ok, of True], of t] False
      by (simp add: with_commas_def t_def)
  qed
qed

section \<open>The message\<close>

lemma lcore_info_writes:
  assumes "1 \<in> set used"
  shows "writes (append_lcore_info_json used)
    (quoted ''lcores'' @ '':['' @ tight_commas [show_nat l. (l, u) \<leftarrow> enumerate 0 used, u = 1] @ '']'')"
proof -
  let ?xs = "[show_nat l. (l, u) \<leftarrow> enumerate 0 used, u = 1]"
  obtain l where l: "l < length used" "used ! l = 1" using assms by (auto simp: in_set_conv_nth)
  then have "(l, used ! l) \<in> set (enumerate 0 used)" by (auto simp: in_set_enumerate_eq)
  then have ne: "?xs \<noteq> []" using l(2) by force
  have "writes (\<lambda>str. put_str str (quoted ''lcores'' @ '':['') \<bind> append_lcores 0 used)
      ((quoted ''lcores'' @ '':['') @ with_commas ?xs)"
    by (rule writes_bind [OF writes_put append_lcores_writes])
  moreover have "append_lcore_info_json used str =
      ((put_str str (quoted ''lcores'' @ '':['') \<bind> append_lcores 0 used) \<bind> (\<lambda>s. put_last s '']''))" for str
    unfolding append_lcore_info_json_def quoted_def by (simp only: Option.bind_assoc append_assoc)
  ultimately have "append_lcore_info_json used str =
      (put_str str ((quoted ''lcores'' @ '':['') @ with_commas ?xs) \<bind> (\<lambda>s. put_last s '']''))" if "length str < MSG_SIZE" for str
    using that unfolding writes_def by metis
  then show ?thesis unfolding writes_def put_list_last [OF ne] by simp
qed

lemma port_info_writes:
  assumes "length ps \<le> length m"
  shows "writes (append_port_info_json ps m)
    (quoted ''ports'' @ '':['' @ tight_commas [quoted (port_uid (m ! i)). (i, p) \<leftarrow> enumerate 0 ps, in_port_id p \<noteq> PORT_RESET] @ '']'')"
proof -
  have f: "flag_writes (append_ports ps m 0 False)
      ([quoted (port_uid (m ! i)). (i, p) \<leftarrow> enumerate 0 ps, in_port_id p \<noteq> PORT_RESET] \<noteq> [])
      (with_commas [quoted (port_uid (m ! i)). (i, p) \<leftarrow> enumerate 0 ps, in_port_id p \<noteq> PORT_RESET])"
    using append_ports_writes [of 0 ps m False] assms by simp
  show ?thesis
    using list_writes [OF f] unfolding writes_def append_port_info_json_def by (simp add: quoted_def)
qed

lemma patch_info_writes:
  assumes "length ps \<le> length m"
    and "\<forall>p\<in>set ps. out_port_id p \<noteq> PORT_RESET \<longrightarrow> 0 \<le> out_port_id p \<and> out_port_id p < int (length m)"
  shows "writes (append_patch_info_json ps m)
    (quoted ''patches'' @ '':['' @ tight_commas [compact (patch_json m (i, p)). (i, p) \<leftarrow> enumerate 0 ps,
       in_port_id p \<noteq> PORT_RESET \<and> out_port_id p \<noteq> PORT_RESET] @ '']'')"
proof -
  have f: "flag_writes (append_patches ps m 0 False)
      ([compact (patch_json m (i, p)). (i, p) \<leftarrow> enumerate 0 ps, in_port_id p \<noteq> PORT_RESET \<and> out_port_id p \<noteq> PORT_RESET] \<noteq> [])
      (with_commas [compact (patch_json m (i, p)). (i, p) \<leftarrow> enumerate 0 ps, in_port_id p \<noteq> PORT_RESET \<and> out_port_id p \<noteq> PORT_RESET])"
    using append_patches_writes [of 0 ps m False] assms by simp
  show ?thesis
    using list_writes [OF f] unfolding writes_def append_patch_info_json_def by (simp add: quoted_def)
qed

lemma map_concat_if: "List.map f (concat (List.map (\<lambda>x. if P x then [g x] else []) xs)) =
    concat (List.map (\<lambda>x. if P x then [f (g x)] else []) xs)"
  by (induction xs) auto

lemma compact_number: "show_int (int n) = show_nat n"
  by (simp add: show_int_def)

lemma status_text:
  assumes "nfv_wf s" and "1 \<in> set (lcore_id_used s)"
  shows "get_sec_stats_json (nfv_client_id s) running (lcore_id_used s) (ports_fwd_array s) (port_map s) =
    (let txt = compact (status_json running s) in if length txt < MSG_SIZE then Some txt else None)"
proof -
  let ?ps = "ports_fwd_array s" and ?m = "port_map s"
  have len: "length ?ps \<le> length ?m" using assms(1) by (simp add: nfv_wf_def)
  have out: "\<forall>p\<in>set ?ps. out_port_id p \<noteq> PORT_RESET \<longrightarrow> 0 \<le> out_port_id p \<and> out_port_id p < int (length ?m)"
    using assms(1) by (auto simp: nfv_wf_def fwd_ok_def in_set_conv_nth)
  let ?t1 = "''{'' @ dquote @ ''client-id'' @ dquote @ '':'' @ show_int (nfv_client_id s) @ '',''"
  let ?t2 = "dquote @ ''status'' @ dquote @ '':''" and ?t3 = "dquote @ running @ dquote @ '',''"
  note w = writes_bind [OF writes_put [of ?t1] writes_bind [OF writes_put [of ?t2] writes_bind [OF writes_put [of ?t3]
      writes_bind [OF lcore_info_writes [OF assms(2)] writes_bind [OF writes_put [of "'',''"]
      writes_bind [OF port_info_writes [OF len] writes_bind [OF writes_put [of "'',''"]
      writes_bind [OF patch_info_writes [OF len out] writes_put [of "''}''"]]]]]]]]]
  have l0: "length ([] :: string) < MSG_SIZE" by (simp add: MSG_SIZE_def)
  have "get_sec_stats_json (nfv_client_id s) running (lcore_id_used s) ?ps ?m = put_str [] (compact (status_json running s))"
    unfolding get_sec_stats_json_def w [unfolded writes_def, rule_format, OF l0]
    by (simp add: status_json_def quoted_def map_concat_if split_def comp_def compact_number cong: if_cong)
  then show ?thesis by (simp add: put_str_def strcpy_buf_def Let_def)
qed

text \<open>C40: The answer to the command "status" is the text of the JSON value that lists the client
  number, whether it is forwarding, the cores in use, the ports in use and the patches between
  them, when this text fits the buffer of the message with its terminator; a longer text is
  written past the end of the buffer.\<close>
theorem nfv_status_correct:
  assumes "nfv_wf s" and "1 \<in> set (lcore_id_used s)"
  shows "parse_command E X ''status'' s v =
    (let txt = compact (status_json (if nfv_cmd s = FORWARD then ''running'' else ''idling'') s)
     in if length txt < MSG_SIZE then Some (0, s, v, txt) else None)"
proof -
  have "tokens (\<lambda>c. c = CHR '' '') ''status'' = [''status'']" by (rule tokens_single) simp_all
  then show ?thesis
    using status_text [OF assms, of "if nfv_cmd s = FORWARD then ''running'' else ''idling''"]
    by (simp add: parse_command_def Let_def MAX_PARAMETER_def)
qed

end
