(* ===== verification/Demo_Nfv.thy ===== *)
theory Demo_Nfv
  imports Nfv_Status Demo_Packets
begin

text \<open>
  The witnesses of the theorems about spp_nfv: a process with three ports, of which the first two
  are Ethernet ports and the third is the vhost interface 7.
\<close>

definition nfv_raw :: nfv where
  "nfv_raw = \<lparr>ports_fwd_array = replicate 3 \<lparr>in_port_id = 0, out_port_id = 0, rx_func = False, tx_func = False\<rparr>,
     port_map = replicate 3 \<lparr>map_id = 0, map_port_type = PHY, map_stats = DefaultStats 0, default_stats = zero_stats\<rparr>,
     port_stats = replicate 3 zero_stats, client_stats = replicate MAX_CLIENT zero_stats, lcore_id_used = [0, 0],
     nfv_client_id = 1, g_enable_vhost_cli = 0, nfv_cmd = START\<rparr>"

definition nfv_up :: nfv where
  "nfv_up = nfv_raw\<lparr>ports_fwd_array := [\<lparr>in_port_id = 0, out_port_id = PORT_RESET, rx_func = False, tx_func = False\<rparr>,
       \<lparr>in_port_id = 1, out_port_id = PORT_RESET, rx_func = False, tx_func = False\<rparr>,
       \<lparr>in_port_id = PORT_RESET, out_port_id = PORT_RESET, rx_func = False, tx_func = False\<rparr>],
     port_map := [\<lparr>map_id = 0, map_port_type = PHY, map_stats = PortStats 0, default_stats = zero_stats\<rparr>,
       \<lparr>map_id = 1, map_port_type = PHY, map_stats = PortStats 1, default_stats = zero_stats\<rparr>,
       \<lparr>map_id = PORT_RESET, map_port_type = UNDEF, map_stats = DefaultStats 2, default_stats = zero_stats\<rparr>],
     lcore_id_used := [1, 1], nfv_cmd := STOP\<rparr>"

lemma nfv_up_init: "nfv_init (\<lambda>_. True) 2 [0, 1] nfv_raw = Some nfv_up"
proof -
  have u: "[0..<3] = [0, 1, 2]" "[0..<2] = [0, 1 :: nat]" by (simp_all add: numeral_eq_Suc)
  have r: "replicate 3 x = [x, x, x]" for x :: 'a by (simp add: numeral_eq_Suc)
  show ?thesis
    by (simp add: nfv_init_def forward_array_init_def port_map_init_def forward_array_init_one_def port_map_init_one_def
        add_phy_def mark_lcore_def rd_def wr_def nfv_raw_def nfv_up_def u r Let_def)
qed

lemma nfv_raw_dims: "nfv_dims nfv_raw"
  by (simp add: nfv_dims_def nfv_raw_def PORT_RESET_def)

lemma nfv_up_wf: "nfv_wf nfv_up"
proof -
  have "\<forall>l\<in>set [0, 1]. 0 \<le> l \<and> l < int (length (lcore_id_used nfv_raw))" by (simp add: nfv_raw_def)
  from nfv_init_wf [OF nfv_raw_dims this, of "\<lambda>_. True" 2] show ?thesis using nfv_up_init by simp
qed

lemma nfv_up_known: "port_known nfv_up PHY 0 0" "port_known nfv_up PHY 1 1"
  by (simp_all add: port_known_def nfv_up_def PORT_RESET_def)

text \<open>The devices that are created get the number 2.\<close>

definition nfv_ethdev :: "(string list) ethdev" where
  "nfv_ethdev = demo_ethdev\<lparr>rte_eth_from_ring := (\<lambda>n v. (2, v)), rte_eth_dev_get_port_by_name := (\<lambda>n v. (0, Some 2))\<rparr>"

definition nfv_detach :: "(string list) detach" where
  "nfv_detach = \<lparr>rte_eth_dev_stop = (\<lambda>p v. v @ [''stop'']), rte_eth_dev_close = (\<lambda>p v. v @ [''close'']),
     eth_dev_flags = (\<lambda>p v. Some 0), eth_dev_device = (\<lambda>p v. Some ''dev''), rte_bus_find_by_device = (\<lambda>d v. Some ''vdev''),
     rte_eal_hotplug_remove = (\<lambda>b d v. (0, v @ [''remove''])), rte_eth_dev_release_port = (\<lambda>p v. v @ [''release''])\<rparr>"

lemma nfv_ethdev_below: "ports_below nfv_ethdev 3"
proof -
  have d: "attach_and_setup nfv_ethdev a v = Some (r, v') \<Longrightarrow> r < 3" for a v r v'
    by (auto simp: attach_and_setup_def dev_attach_by_devargs_def nfv_ethdev_def demo_ethdev_def setup_port_def)
  have rg: "add_ring_pmd nfv_ethdev i v = (r, v') \<Longrightarrow> r < 3" for i v r v'
    by (auto simp: add_ring_pmd_def ring_pmd_def Let_def nfv_ethdev_def demo_ethdev_def split: if_splits)
  have vh: "add_vhost_pmd nfv_ethdev c i v = Some (r, v') \<Longrightarrow> r < 3" for c i v r v'
    by (auto simp: add_vhost_pmd_def bind_Some_iff dest: d split: if_splits)
  have pc: "add_pcap_pmd nfv_ethdev i v = Some (r, v') \<Longrightarrow> r < 3" for i v r v'
    by (auto simp: add_pcap_pmd_def bind_Some_iff Let_def dest: d split: if_splits prod.splits)
  have nl: "add_null_pmd nfv_ethdev i v = Some (r, v') \<Longrightarrow> r < 3" for i v r v'
    by (auto simp: add_null_pmd_def bind_Some_iff dest: d split: if_splits)
  show ?thesis
    unfolding ports_below_def
  proof (intro allI impI)
    fix cli t pid v ty r v'
    assume a: "add_resource nfv_ethdev cli t pid v = Some (ty, r, v')" "ty \<noteq> UNDEF"
    consider "t = ''vhost''" | "t = ''ring''" | "t = ''pcap''" | "t = ''nullpmd''"
      using a by (auto simp: add_resource_def split: if_splits)
    then show "r < 3"
    proof cases
      case 1
      then show ?thesis using a(1) vh by (simp add: add_resource_def bind_Some_iff) blast
    next
      case 2
      then show ?thesis using a(1) rg by (cases "add_ring_pmd nfv_ethdev pid v") (simp add: add_resource_def)
    next
      case 3
      then show ?thesis using a(1) pc by (simp add: add_resource_def bind_Some_iff) blast
    next
      case 4
      then show ?thesis using a(1) nl by (simp add: add_resource_def bind_Some_iff) blast
    qed
  qed
qed

lemma demo_patch_command: "''patch '' @ uid_text (type_name PHY) 0 @ '' '' @ uid_text (type_name PHY) 1 = ''patch phy:0 phy:1''"
  by code_simp


lemma nfv_patch_correct_witness:
  "\<exists>s'. parse_command nfv_ethdev nfv_detach ''patch phy:0 phy:1'' nfv_up [] = Some (0, s', [], ''patch'') \<and>
    out_port_id (ports_fwd_array s' ! 0) = 1 \<and> out_port_id (ports_fwd_array s' ! 1) = PORT_RESET \<and>
    in_port_id (ports_fwd_array s' ! 2) = PORT_RESET"
proof -
  obtain s' where s': "parse_command nfv_ethdev nfv_detach ''patch phy:0 phy:1'' nfv_up [] = Some (0, s', [], ''patch'')"
      "\<forall>k<length (ports_fwd_array nfv_up). out_port_id (ports_fwd_array s' ! k) =
         (if k = 0 then int 1 else out_port_id (ports_fwd_array nfv_up ! k)) \<and>
         (k \<noteq> 0 \<longrightarrow> k \<noteq> 1 \<longrightarrow> ports_fwd_array s' ! k = ports_fwd_array nfv_up ! k)"
    using nfv_patch_correct [OF nfv_up_wf nfv_up_known, of nfv_ethdev nfv_detach "[]"] unfolding demo_patch_command by blast
  have l: "length (ports_fwd_array nfv_up) = 3" by (simp add: nfv_up_def)
  show ?thesis
    using s'(1) s'(2) [rule_format, of 0] s'(2) [rule_format, of 1] s'(2) [rule_format, of 2]
    by (simp add: l) (simp add: nfv_up_def)
qed

text \<open>Both Ethernet ports are patched to vhost:7.\<close>

definition nfv_busy :: nfv where
  "nfv_busy = nfv_up\<lparr>ports_fwd_array := [\<lparr>in_port_id = 0, out_port_id = 2, rx_func = True, tx_func = True\<rparr>,
       \<lparr>in_port_id = 1, out_port_id = 2, rx_func = True, tx_func = True\<rparr>,
       \<lparr>in_port_id = 2, out_port_id = PORT_RESET, rx_func = True, tx_func = True\<rparr>],
     port_map := [\<lparr>map_id = 0, map_port_type = PHY, map_stats = PortStats 0, default_stats = zero_stats\<rparr>,
       \<lparr>map_id = 1, map_port_type = PHY, map_stats = PortStats 1, default_stats = zero_stats\<rparr>,
       \<lparr>map_id = 7, map_port_type = VHOST, map_stats = ClientStats 7, default_stats = zero_stats\<rparr>]\<rparr>"

lemma nfv_busy_wf: "nfv_wf nfv_busy"
  by (auto simp: nfv_wf_def fwd_ok_def nfv_busy_def nfv_up_def nfv_raw_def PORT_RESET_def stats_ptr_ok_def MAX_CLIENT_def
      nth_Cons' numeral_3_eq_3 less_Suc_eq)

lemma nfv_del_effect_witness:
  "\<exists>s' v'. parse_command nfv_ethdev nfv_detach (''del '' @ uid_text (type_name VHOST) 7) nfv_busy [] = Some (0, s', v', ''del'') \<and>
    map_id (port_map s' ! 2) = PORT_RESET \<and> out_port_id (ports_fwd_array s' ! 0) = PORT_RESET \<and>
    out_port_id (ports_fwd_array s' ! 1) = 2"
proof -
  have "port_known nfv_busy VHOST 7 2"
    by (auto simp: port_known_def nfv_busy_def nfv_up_def PORT_RESET_def nth_Cons' numeral_2_eq_2 less_Suc_eq)
  moreover have "length (ports_fwd_array nfv_busy) = 3" "ports_fwd_array nfv_busy ! 0 = \<lparr>in_port_id = 0, out_port_id = 2, rx_func = True, tx_func = True\<rparr>"
      "ports_fwd_array nfv_busy ! 1 = \<lparr>in_port_id = 1, out_port_id = 2, rx_func = True, tx_func = True\<rparr>"
    by (simp_all add: nfv_busy_def)
  ultimately show ?thesis
    using nfv_del_effect [OF nfv_busy_wf, of VHOST 7 2 nfv_ethdev nfv_detach "[]"]
    by (auto simp: less_Suc_eq)
qed

lemma nfv_unknown_type_witness:
  "(\<exists>s'. parse_command nfv_ethdev nfv_detach (''add '' @ uid_text ''phy'' 5) nfv_busy [] = Some (0, s', [], ''add'') \<and>
      map_port_type (port_map s' ! 0) = UNDEF \<and> map_id (port_map s' ! 0) = 5) \<and>
   parse_command nfv_ethdev nfv_detach (''del '' @ uid_text ''phy'' 0) nfv_busy [] = None"
proof -
  have h: "0 < length (port_map nfv_busy)" "plain_type ''phy''" "resource_type ''phy'' = UNDEF" "int 5 < 2 ^ 31" "int 0 < 2 ^ 31"
    by (simp_all add: nfv_busy_def plain_type_def resource_type_def)
  show ?thesis
    using nfv_unknown_type [OF nfv_busy_wf h(1-4), of nfv_ethdev nfv_detach "[]"]
      nfv_unknown_type [OF nfv_busy_wf h(1-3) h(5), of nfv_ethdev nfv_detach "[]"] by auto
qed

lemma nfv_status_correct_witness:
  "parse_command nfv_ethdev nfv_detach ''status'' nfv_busy [] = Some (0, nfv_busy, [], compact (status_json ''idling'' nfv_busy))"
proof -
  have "1 \<in> set (lcore_id_used nfv_busy)" "nfv_cmd nfv_busy = STOP" by (simp_all add: nfv_busy_def nfv_up_def)
  moreover have "length (compact (status_json ''idling'' nfv_busy)) < MSG_SIZE"
    by (simp add: status_json_def nfv_busy_def nfv_up_def nfv_raw_def MSG_SIZE_def quoted_def patch_json_def port_uid_def
        show_unsigned_def show_int_def show_nat.simps PORT_RESET_def)
  ultimately show ?thesis
    using nfv_status_correct [OF nfv_busy_wf, of nfv_ethdev nfv_detach "[]"] by (simp add: Let_def)
qed

lemma nfv_reset_race_witness:
  "forward_tests nfv_busy 0 = Some True \<and> forward_target nfv_busy 0 \<noteq> None \<and>
   (\<exists>s'. parse_command nfv_ethdev nfv_detach ''patch reset'' nfv_busy [] = Some (0, s', [], ''patch'') \<and>
      forward_target s' 0 = None)"
proof -
  have "forward_tests nfv_busy 0 = Some True"
    by (simp add: forward_tests_def rd_def nfv_busy_def PORT_RESET_def)
  then show ?thesis
    using nfv_reset_race [OF nfv_busy_wf, of 0 nfv_ethdev nfv_detach "[]"] by blast
qed

end
