(* ===== verification/Pcap_File.thy ===== *)
theory Pcap_File
  imports Spp_Types Pkt Add_Port
begin

text \<open>
  pcap/spp_pcap.c: the capture files of the process spp_pcap.  A writer thread appends the packets
  it takes from the ring to a file in pcap format, compressed by LZ4; a file has a temporary name
  until it is complete, and a new file is begun when the limit of the size is passed.

  The C library.  A host has the files by path, the open streams with their paths, and the blocks
  of malloc.  Every call of the library has a number, and an argument says which calls fail: a
  fwrite that fails has written some bytes, and a fclose that fails has lost some at the end.
  To use a stream that is not open or a block that is not allocated is undefined (None).

  LZ4 is an argument: a compression context is a value of type 'c, and each function returns the
  bytes it puts into the output buffer, or None for an error code, with the new context.
\<close>

section \<open>The C library\<close>

type_synonym byte = "8 word"

record host =
  h_files :: "string \<Rightarrow> byte list option"
  h_streams :: "nat \<Rightarrow> string option"
  h_blocks :: "nat set"
  h_next :: nat
  h_calls :: nat

record 'c lib =
  fault :: "nat \<Rightarrow> nat option"
  malloc_fails :: "nat \<Rightarrow> bool"
  clock_gettime :: "nat \<Rightarrow> int \<times> int"
  LZ4F_compressBound :: "nat \<Rightarrow> nat"
  LZ4F_createCompressionContext :: "nat \<Rightarrow> 'c option"
  LZ4F_compressBegin :: "'c \<Rightarrow> nat \<Rightarrow> byte list option \<times> 'c"
  LZ4F_compressUpdate :: "'c \<Rightarrow> nat \<Rightarrow> byte list \<Rightarrow> byte list option \<times> 'c"
  LZ4F_compressEnd :: "'c \<Rightarrow> nat \<Rightarrow> byte list option \<times> 'c"

definition called :: "host \<Rightarrow> host" where
  "called h = h\<lparr>h_calls := h_calls h + 1\<rparr>"

definition malloc :: "'c lib \<Rightarrow> nat \<Rightarrow> host \<Rightarrow> nat option \<times> host" where
  "malloc L n h =
    (if malloc_fails L (h_calls h) then (None, called h)
     else (Some (h_next h), called h\<lparr>h_blocks := insert (h_next h) (h_blocks h), h_next := h_next h + 1\<rparr>))"

definition free :: "nat option \<Rightarrow> host \<Rightarrow> host option" where
  "free p h =
    (case p of None \<Rightarrow> Some h
     | Some b \<Rightarrow> if b \<in> h_blocks h then Some (h\<lparr>h_blocks := h_blocks h - {b}\<rparr>) else None)"

definition fopen :: "'c lib \<Rightarrow> string \<Rightarrow> host \<Rightarrow> nat option \<times> host" where
  "fopen L path h =
    (if fault L (h_calls h) \<noteq> None then (None, called h)
     else (Some (h_next h), called h
       \<lparr>h_files := (h_files h)(path \<mapsto> []), h_streams := (h_streams h)(h_next h \<mapsto> path),
        h_next := h_next h + 1\<rparr>))"

text \<open>The number of elements fwrite writes, for a call with one element.\<close>

definition fwrite :: "'c lib \<Rightarrow> byte list \<Rightarrow> nat option \<Rightarrow> host \<Rightarrow> (nat \<times> host) option" where
  "fwrite L bs fp h = do {
     f \<leftarrow> fp;
     path \<leftarrow> h_streams h f;
     let old = (case h_files h path of Some d \<Rightarrow> d | None \<Rightarrow> []);
     Some (case fault L (h_calls h) of
       None \<Rightarrow> (1, called h\<lparr>h_files := (h_files h)(path \<mapsto> old @ bs)\<rparr>)
     | Some k \<Rightarrow> (0, called h\<lparr>h_files := (h_files h)(path \<mapsto> old @ take k bs)\<rparr>))
   }"

definition fclose :: "'c lib \<Rightarrow> nat option \<Rightarrow> host \<Rightarrow> host option" where
  "fclose L fp h = do {
     f \<leftarrow> fp;
     path \<leftarrow> h_streams h f;
     let h1 = called h\<lparr>h_streams := (h_streams h)(f := None)\<rparr>;
     Some (case fault L (h_calls h) of
       None \<Rightarrow> h1
     | Some k \<Rightarrow> h1\<lparr>h_files := (h_files h)(path := map_option (\<lambda>d. take (length d - k) d) (h_files h path))\<rparr>)
   }"

definition rename :: "'c lib \<Rightarrow> string \<Rightarrow> string \<Rightarrow> host \<Rightarrow> host" where
  "rename L old new h =
    (case (fault L (h_calls h), h_files h old) of
       (None, Some d) \<Rightarrow> called h\<lparr>h_files := (h_files h)(old := None, new \<mapsto> d)\<rparr>
     | _ \<Rightarrow> called h)"

section \<open>Options and state of a writer\<close>

definition PCAP_FPATH_STRLEN :: nat where "PCAP_FPATH_STRLEN = 128"
definition PCAP_FNAME_STRLEN :: nat where "PCAP_FNAME_STRLEN = 64"
definition PCAP_SNAPLEN_MAX :: nat where "PCAP_SNAPLEN_MAX = 65535"
definition IN_CHUNK_SIZE :: nat where "IN_CHUNK_SIZE = 16 * 1024"

datatype worker_thread_type = PCAP_UNUSE | PCAP_RECEIVE | PCAP_WRITE

datatype comp_file_generate_mode = INIT_MODE | UPDATE_MODE | CLOSE_MODE

datatype spp_capture_status = SPP_CAPTURE_IDLE | SPP_CAPTURE_RUNNING

text \<open>cap_ring says whether the ring was created; start_time is never used.\<close>

record pcap_option =
  fsize_limit :: nat
  compress_file_path :: string
  compress_file_date :: string
  port_cap :: spp_port_info
  cap_ring :: bool

record 'c pcap_mng_info =
  thread_type :: worker_thread_type
  cap_status :: spp_capture_status
  thread_no :: int
  file_no :: int
  compress_file_name :: string
  ctx :: "'c option"
  compress_fp :: "nat option"
  outbuf_capacity :: nat
  outbuff :: "nat option"
  file_size :: nat

text \<open>The size of a file is a uint64_t.\<close>

definition u64 :: "nat \<Rightarrow> nat" where
  "u64 n = n mod 2 ^ 64"

section \<open>Output\<close>

definition output_pcap_file :: "'c lib \<Rightarrow> nat option \<Rightarrow> byte list \<Rightarrow> host \<Rightarrow> (int \<times> host) option" where
  "output_pcap_file L fp bs h =
    (if bs = [] then Some (SPP_RET_OK, h)
     else do {
       (n, h1) \<leftarrow> fwrite L bs fp h;
       Some (if n \<noteq> 1 then SPP_RET_NG else SPP_RET_OK, h1)
     })"

text \<open>The output buffer has to be allocated when LZ4 writes to it.\<close>

definition buffer_ok :: "'c pcap_mng_info \<Rightarrow> host \<Rightarrow> bool" where
  "buffer_ok info h = (case outbuff info of Some b \<Rightarrow> b \<in> h_blocks h | None \<Rightarrow> False)"

definition output_lz4_pcap_file ::
  "'c lib \<Rightarrow> 'c pcap_mng_info \<Rightarrow> byte list \<Rightarrow> host \<Rightarrow> (int \<times> 'c pcap_mng_info \<times> host) option" where
  "output_lz4_pcap_file L info src h = do {
     c \<leftarrow> ctx info;
     ensure (buffer_ok info h);
     let (r, c') = LZ4F_compressUpdate L c (outbuf_capacity info) src;
     let info1 = info\<lparr>ctx := Some c'\<rparr>;
     case r of
       None \<Rightarrow> Some (SPP_RET_NG, info1, h)
     | Some bs \<Rightarrow> do {
         (ret, h1) \<leftarrow> output_pcap_file L (compress_fp info) bs h;
         Some (if ret \<noteq> 0 then SPP_RET_NG else SPP_RET_OK, info1, h1)
       }
   }"

section \<open>Files\<close>

text \<open>The name of the capture file, of its temporary file and of the file that is kept.\<close>

definition capture_file_name :: "pcap_option \<Rightarrow> int \<Rightarrow> int \<Rightarrow> string" where
  "capture_file_name opt thread file = snprintf_buf (PCAP_FNAME_STRLEN - 1)
     (''spp_pcap.'' @ compress_file_date opt @ ''.'' @
      (if iface_type (port_cap opt) = PHY then ''phy'' else ''ring'') @ show_int (iface_no (port_cap opt)) @
      ''.'' @ show_unsigned thread @ ''.'' @ show_unsigned file @ ''.pcap.lz4'')"

definition save_file :: "pcap_option \<Rightarrow> string \<Rightarrow> string" where
  "save_file opt nm = snprintf_buf (PCAP_FPATH_STRLEN + PCAP_FNAME_STRLEN - 1)
     (compress_file_path opt @ ''/'' @ nm)"

definition temp_file :: "pcap_option \<Rightarrow> string \<Rightarrow> string" where
  "temp_file opt nm = snprintf_buf (PCAP_FPATH_STRLEN + PCAP_FNAME_STRLEN - 1)
     (compress_file_path opt @ ''/'' @ nm @ ''.tmp'')"

text \<open>The header of a pcap file as it lies in memory (struct pcap_header).\<close>

definition pcap_file_header :: "byte list" where
  "pcap_file_header = le_bytes32 0xa1b2c3d4 @ le_bytes16 2 @ le_bytes16 4 @ le_bytes32 0 @ le_bytes32 0 @
     le_bytes32 (of_nat PCAP_SNAPLEN_MAX) @ le_bytes32 1"

text \<open>The three steps that every error path takes.\<close>

definition abandon_file ::
  "'c lib \<Rightarrow> 'c pcap_mng_info \<Rightarrow> host \<Rightarrow> (int \<times> 'c pcap_mng_info \<times> host) option" where
  "abandon_file L info h = do {
     h1 \<leftarrow> fclose L (compress_fp info) h;
     h2 \<leftarrow> free (outbuff info) h1;
     Some (SPP_RET_NG, info\<lparr>compress_fp := None\<rparr>, h2)
   }"

text \<open>The common end of the two modes that open a file.\<close>

definition open_capture_file ::
  "'c lib \<Rightarrow> pcap_option \<Rightarrow> 'c pcap_mng_info \<Rightarrow> host \<Rightarrow> (int \<times> 'c pcap_mng_info \<times> host) option" where
  "open_capture_file L opt info h =
    (let (fp, h1) = fopen L (temp_file opt (compress_file_name info)) h;
         info1 = info\<lparr>compress_fp := fp\<rparr> in
     if fp = None
     then do { h2 \<leftarrow> free (outbuff info) h1; Some (SPP_RET_NG, info1, h2) }
     else case LZ4F_createCompressionContext L (h_calls h1) of
       None \<Rightarrow> abandon_file L info1 (called h1)
     | Some c0 \<Rightarrow> do {
         ensure (buffer_ok info1 h1);
         let (r, c1) = LZ4F_compressBegin L c0 (outbuf_capacity info);
         let info2 = info1\<lparr>ctx := Some c1\<rparr>;
         case r of
           None \<Rightarrow> abandon_file L info2 (called h1)
         | Some bs \<Rightarrow> do {
             (ret, h2) \<leftarrow> output_pcap_file L fp bs (called h1);
             if ret \<noteq> 0 then abandon_file L info2 h2
             else do {
               (ret2, info3, h3) \<leftarrow> output_lz4_pcap_file L (info2\<lparr>file_size := length bs\<rparr>) pcap_file_header h2;
               if ret2 \<noteq> SPP_RET_OK then abandon_file L info3 h3
               else Some (SPP_RET_OK, info3, h3)
             }
           }
       })"

definition file_compression_operation ::
  "'c lib \<Rightarrow> pcap_option \<Rightarrow> 'c pcap_mng_info \<Rightarrow> comp_file_generate_mode \<Rightarrow> host \<Rightarrow>
   (int \<times> 'c pcap_mng_info \<times> host) option" where
  "file_compression_operation L opt info mode h =
    (case mode of
       INIT_MODE \<Rightarrow>
         (let cap = LZ4F_compressBound L IN_CHUNK_SIZE; (buf, h1) = malloc L cap h in
          open_capture_file L opt
            (info\<lparr>outbuf_capacity := cap, outbuff := buf, file_size := 0, file_no := 1,
              compress_file_name := capture_file_name opt (thread_no info) 1\<rparr>) h1)
     | UPDATE_MODE \<Rightarrow> do {
         c \<leftarrow> ctx info;
         ensure (buffer_ok info h);
         let (r, c1) = LZ4F_compressEnd L c (outbuf_capacity info);
         let info1 = info\<lparr>ctx := Some c1\<rparr>;
         case r of
           None \<Rightarrow> abandon_file L info1 h
         | Some bs \<Rightarrow> do {
             (ret, h1) \<leftarrow> output_pcap_file L (compress_fp info) bs h;
             if ret \<noteq> SPP_RET_OK then abandon_file L info1 h1
             else do {
               h2 \<leftarrow> fclose L (compress_fp info) h1;
               let h3 = rename L (temp_file opt (compress_file_name info)) (save_file opt (compress_file_name info)) h2;
               open_capture_file L opt
                 (info1\<lparr>compress_fp := None, file_size := 0, file_no := file_no info + 1,
                   compress_file_name := capture_file_name opt (thread_no info) (file_no info + 1)\<rparr>) h3
             }
           }
       }
     | CLOSE_MODE \<Rightarrow>
         if compress_fp info = None then Some (SPP_RET_OK, info, h)
         else do {
           c \<leftarrow> ctx info;
           ensure (buffer_ok info h);
           let (r, c1) = LZ4F_compressEnd L c (outbuf_capacity info);
           let info1 = info\<lparr>ctx := Some c1\<rparr>;
           (info2, h1) \<leftarrow> (case r of
              None \<Rightarrow> Some (info1, h)
            | Some bs \<Rightarrow> do {
                (ret, h') \<leftarrow> output_pcap_file L (compress_fp info) bs h;
                Some (info1\<lparr>file_size := u64 (file_size info + length bs)\<rparr>, h')
              });
           h2 \<leftarrow> fclose L (compress_fp info) h1;
           let h3 = rename L (temp_file opt (compress_file_name info)) (save_file opt (compress_file_name info)) h2;
           h4 \<leftarrow> free (outbuff info) h3;
           Some (SPP_RET_OK, info2\<lparr>compress_fp := None\<rparr>, h4)
         })"

section \<open>Packets\<close>

text \<open>A captured packet is the length in its first mbuf (rte_pktmbuf_pkt_len) and the data of the
  mbufs of its chain.  The header of a packet has the time as two numbers of 32 bits.\<close>

type_synonym cap_pkt = "nat \<times> byte list list"

definition pcap_packet_header :: "int \<times> int \<Rightarrow> nat \<Rightarrow> nat \<Rightarrow> byte list" where
  "pcap_packet_header t write_len packet_len =
    le_bytes32 (of_int (fst t)) @ le_bytes32 (of_int (snd t div 1000)) @
    le_bytes32 (of_nat write_len) @ le_bytes32 (of_nat packet_len)"

definition TRANCATE_SNAPLEN :: "nat \<Rightarrow> nat \<Rightarrow> nat" where
  "TRANCATE_SNAPLEN a b = (if a < b then a else b)"

fun write_segments ::
  "'c lib \<Rightarrow> pcap_option \<Rightarrow> byte list list \<Rightarrow> nat \<Rightarrow> 'c pcap_mng_info \<Rightarrow> host \<Rightarrow>
   (int \<times> 'c pcap_mng_info \<times> host) option" where
  "write_segments L opt [] remaining info h = Some (SPP_RET_OK, info, h)"
| "write_segments L opt (seg # segs) remaining info h =
    (if remaining = 0 then Some (SPP_RET_OK, info, h)
     else do {
       let n = TRANCATE_SNAPLEN (length seg) remaining;
       (ret, info1, h1) \<leftarrow> output_lz4_pcap_file L info (take n seg) h;
       if ret \<noteq> 0
       then do {
         (ret2, info2, h2) \<leftarrow> file_compression_operation L opt info1 CLOSE_MODE h1;
         Some (SPP_RET_NG, info2, h2)
       }
       else write_segments L opt segs (remaining - n)
         (info1\<lparr>file_size := u64 (file_size info1 + n)\<rparr>) h1
     })"

text \<open>The file is exchanged for a new one when it has passed the limit.\<close>

definition roll_file ::
  "'c lib \<Rightarrow> pcap_option \<Rightarrow> 'c pcap_mng_info \<Rightarrow> host \<Rightarrow> (int \<times> 'c pcap_mng_info \<times> host) option" where
  "roll_file L opt info h =
    (if file_size info > fsize_limit opt
     then file_compression_operation L opt info UPDATE_MODE h else Some (SPP_RET_OK, info, h))"

definition compress_file_packet ::
  "'c lib \<Rightarrow> pcap_option \<Rightarrow> 'c pcap_mng_info \<Rightarrow> cap_pkt \<Rightarrow> host \<Rightarrow> (int \<times> 'c pcap_mng_info \<times> host) option" where
  "compress_file_packet L opt info pkt h =
    (if compress_fp info = None then Some (SPP_RET_OK, info, h)
     else do {
       (ret, info1, h1) \<leftarrow> roll_file L opt info h;
       if ret \<noteq> SPP_RET_OK then Some (SPP_RET_NG, info1, h1)
       else do {
         let packet_length = fst pkt;
         let write_packet_length = TRANCATE_SNAPLEN PCAP_SNAPLEN_MAX packet_length;
         (ret2, info2, h2) \<leftarrow> output_lz4_pcap_file L info1
           (pcap_packet_header (clock_gettime L (h_calls h1)) write_packet_length packet_length) (called h1);
         if ret2 \<noteq> SPP_RET_OK
         then do {
           (ret3, info3, h3) \<leftarrow> file_compression_operation L opt info2 CLOSE_MODE h2;
           Some (SPP_RET_NG, info3, h3)
         }
         else write_segments L opt (snd pkt) write_packet_length
           (info2\<lparr>file_size := u64 (file_size info2 + 16)\<rparr>) h2
       }
     })"

text \<open>The loop of pcap_proc_write over a burst.  On an error the file is closed and the thread's status
  is reset; the remaining packets are not written.\<close>

fun write_burst ::
  "'c lib \<Rightarrow> pcap_option \<Rightarrow> cap_pkt list \<Rightarrow> 'c pcap_mng_info \<Rightarrow> host \<Rightarrow> (int \<times> 'c pcap_mng_info \<times> host) option" where
  "write_burst L opt [] info h = Some (SPP_RET_OK, info, h)"
| "write_burst L opt (pkt # pkts) info h = do {
     (ret, info1, h1) \<leftarrow> compress_file_packet L opt info pkt h;
     if ret \<noteq> SPP_RET_OK
     then do {
       (ret2, info2, h2) \<leftarrow> file_compression_operation L opt (info1\<lparr>cap_status := SPP_CAPTURE_IDLE\<rparr>) CLOSE_MODE h1;
       Some (SPP_RET_NG, info2, h2)
     }
     else write_burst L opt pkts info1 h1
   }"

end
