(* ===== verification/Pcap_Safe.thy ===== *)
theory Pcap_Safe
  imports Pcap_File
begin

text \<open>
  The resources of a writer of spp_pcap.  Whatever fails in LZ4 and in the C library (malloc
  apart), every operation on the capture file runs to its end, uses only what is open and
  allocated, and closes the stream and frees the buffer exactly once when it reports an error.
\<close>

text \<open>Nothing at or above h_next is in use.\<close>

definition host_ok :: "host \<Rightarrow> bool" where
  "host_ok h \<longleftrightarrow> (\<forall>n\<ge>h_next h. h_streams h n = None \<and> n \<notin> h_blocks h)"

text \<open>A writer that has closed its file, or has a stream and a buffer of its own, beside the streams
  S and the blocks B of the others.\<close>

definition released :: "(nat \<Rightarrow> string option) \<Rightarrow> nat set \<Rightarrow> 'c pcap_mng_info \<Rightarrow> host \<Rightarrow> bool" where
  "released S B info h \<longleftrightarrow> compress_fp info = None \<and> h_streams h = S \<and> h_blocks h = B \<and> host_ok h"

definition has_file :: "(nat \<Rightarrow> string option) \<Rightarrow> nat set \<Rightarrow> 'c pcap_mng_info \<Rightarrow> host \<Rightarrow> bool" where
  "has_file S B info h \<longleftrightarrow>
    (\<exists>f p b. compress_fp info = Some f \<and> outbuff info = Some b \<and> S f = None \<and> b \<notin> B \<and>
       h_streams h = S(f \<mapsto> p) \<and> h_blocks h = insert b B \<and> host_ok h)"

definition owned :: "(nat \<Rightarrow> string option) \<Rightarrow> nat set \<Rightarrow> 'c pcap_mng_info \<Rightarrow> host \<Rightarrow> bool" where
  "owned S B info h \<longleftrightarrow> released S B info h \<or> has_file S B info h \<and> ctx info \<noteq> None"

text \<open>What the file operations leave alone of a writer.\<close>

definition same_writer :: "'c pcap_mng_info \<Rightarrow> 'c pcap_mng_info \<Rightarrow> bool" where
  "same_writer a b \<longleftrightarrow> thread_type b = thread_type a \<and> cap_status b = cap_status a \<and> thread_no b = thread_no a"

text \<open>The operation returns; after an error the writer has closed its file.\<close>

definition safe ::
  "(nat \<Rightarrow> string option) \<Rightarrow> nat set \<Rightarrow> 'c pcap_mng_info \<Rightarrow> (int \<times> 'c pcap_mng_info \<times> host) option \<Rightarrow> bool" where
  "safe S B info m \<longleftrightarrow>
    (\<exists>ret info' h'. m = Some (ret, info', h') \<and> same_writer info info' \<and> owned S B info' h' \<and>
       (ret = 0 \<or> ret = - 1 \<and> released S B info' h'))"

text \<open>An operation that opens a file: it has one unless it fails.\<close>

definition opens ::
  "(nat \<Rightarrow> string option) \<Rightarrow> nat set \<Rightarrow> 'c pcap_mng_info \<Rightarrow> (int \<times> 'c pcap_mng_info \<times> host) option \<Rightarrow> bool" where
  "opens S B info m \<longleftrightarrow>
    (\<exists>ret info' h'. m = Some (ret, info', h') \<and> same_writer info info' \<and>
       (ret = 0 \<and> has_file S B info' h' \<and> ctx info' \<noteq> None \<or> ret = - 1 \<and> released S B info' h'))"

lemma opens_safe: "opens S B info m \<Longrightarrow> safe S B info m"
  unfolding opens_def safe_def owned_def by blast

lemma opensI: "m = Some (ret, info', h') \<Longrightarrow> same_writer info info' \<Longrightarrow>
    ret = 0 \<and> has_file S B info' h' \<and> ctx info' \<noteq> None \<or> ret = - 1 \<and> released S B info' h' \<Longrightarrow> opens S B info m"
  unfolding opens_def by blast

lemma safeI: "m = Some (ret, info', h') \<Longrightarrow> same_writer info info' \<Longrightarrow> owned S B info' h' \<Longrightarrow>
    ret = 0 \<or> ret = - 1 \<and> released S B info' h' \<Longrightarrow> safe S B info m"
  by (auto simp: safe_def)

lemma same_writer_refl [simp]: "same_writer a a" by (simp add: same_writer_def)

lemma same_writer_trans: "same_writer a b \<Longrightarrow> same_writer b c \<Longrightarrow> same_writer a c"
  by (simp add: same_writer_def)

lemma same_writer_fields [simp]:
  "same_writer a (b\<lparr>ctx := c\<rparr>) = same_writer a b" "same_writer a (b\<lparr>compress_fp := f\<rparr>) = same_writer a b"
  "same_writer a (b\<lparr>file_size := n\<rparr>) = same_writer a b" "same_writer a (b\<lparr>file_no := i\<rparr>) = same_writer a b"
  "same_writer a (b\<lparr>outbuff := f\<rparr>) = same_writer a b" "same_writer a (b\<lparr>outbuf_capacity := n\<rparr>) = same_writer a b"
  "same_writer a (b\<lparr>compress_file_name := nm\<rparr>) = same_writer a b"
  by (simp_all add: same_writer_def)

lemma safe_same: "safe S B info' m \<Longrightarrow> same_writer info info' \<Longrightarrow> safe S B info m"
  unfolding safe_def by (elim exE conjE, intro exI conjI) (assumption | rule same_writer_trans)+

lemma opens_same: "opens S B info' m \<Longrightarrow> same_writer info info' \<Longrightarrow> opens S B info m"
  unfolding opens_def by (elim exE conjE, intro exI conjI) (assumption | rule same_writer_trans)+

lemma same_writer_of: "same_writer a (b\<lparr>ctx := c, file_size := n\<rparr>) = same_writer a b"
  by (simp add: same_writer_def)

text \<open>Resources do not change with the files and the number of calls.\<close>

definition same_host :: "host \<Rightarrow> host \<Rightarrow> bool" where
  "same_host h h' \<longleftrightarrow> h_streams h' = h_streams h \<and> h_blocks h' = h_blocks h \<and> h_next h' = h_next h"

lemma same_host_ok: "same_host h h' \<Longrightarrow> host_ok h' = host_ok h"
  by (simp add: same_host_def host_ok_def)

lemma same_host_refl [simp]: "same_host h h" by (simp add: same_host_def)

lemma same_host_trans: "same_host a b \<Longrightarrow> same_host b c \<Longrightarrow> same_host a c"
  by (simp add: same_host_def)

lemma called_same [simp]: "same_host h (called h)"
  by (simp add: same_host_def called_def)

lemma has_file_same:
  "same_host h h' \<Longrightarrow> has_file S B info h \<Longrightarrow> compress_fp info' = compress_fp info \<Longrightarrow>
   outbuff info' = outbuff info \<Longrightarrow> has_file S B info' h'"
  unfolding has_file_def using same_host_ok [of h h'] by (auto simp: same_host_def)

lemma has_file_moved: "has_file S B info h \<Longrightarrow> same_host h h' \<Longrightarrow> has_file S B info h'"
  by (rule has_file_same) simp_all

lemma released_same: "same_host h h' \<Longrightarrow> released S B info h \<Longrightarrow> released S B info h'"
  unfolding released_def using same_host_ok [of h h'] by (auto simp: same_host_def)

lemma has_file_buffer: "has_file S B info h \<Longrightarrow> buffer_ok info h"
  by (auto simp: has_file_def buffer_ok_def)

section \<open>Output\<close>

lemma output_returns:
  assumes "h_streams h f = Some p"
  obtains ret h' where "output_pcap_file L (Some f) bs h = Some (ret, h')" and "same_host h h'"
    and "ret = 0 \<or> ret = - 1"
  using assms by (fastforce simp: output_pcap_file_def fwrite_def Let_def same_host_def called_def
      split: option.splits if_splits)

lemma output_safe:
  assumes "has_file S B info h"
  obtains ret h' where "output_pcap_file L (compress_fp info) bs h = Some (ret, h')" and "same_host h h'"
    and "ret = 0 \<or> ret = - 1"
proof -
  obtain f p where "compress_fp info = Some f" "h_streams h f = Some p" using assms by (auto simp: has_file_def)
  then show ?thesis using output_returns [of h f p L bs] that by metis
qed

lemma lz4_output_safe:
  assumes "has_file S B info h" and "ctx info = Some c"
  obtains ret c' h' where "output_lz4_pcap_file L info src h = Some (ret, info\<lparr>ctx := Some c'\<rparr>, h')"
    and "same_host h h'" and "ret = 0 \<or> ret = - 1"
proof -
  obtain r c' where u: "LZ4F_compressUpdate L c (outbuf_capacity info) src = (r, c')" by fastforce
  note b = has_file_buffer [OF assms(1)]
  show ?thesis
  proof (cases r)
    case None
    then show ?thesis
      using u b assms(2) that [of "- 1" c' h] by (simp add: output_lz4_pcap_file_def)
  next
    case (Some bs)
    obtain ret h' where o: "output_pcap_file L (compress_fp info) bs h = Some (ret, h')" "same_host h h'"
      using output_safe [OF assms(1)] by metis
    show ?thesis
      using u b assms(2) Some o that [of "if ret \<noteq> 0 then - 1 else 0" c' h']
      by (simp add: output_lz4_pcap_file_def)
  qed
qed

lemma close_stream:
  assumes "has_file S B info h"
  obtains h' where "fclose L (compress_fp info) h = Some h'" and "h_streams h' = S" and
    "h_blocks h' = h_blocks h" and "h_next h' = h_next h" and "host_ok h'"
proof -
  obtain f p where f: "compress_fp info = Some f" "h_streams h = S(f \<mapsto> p)" "S f = None" "host_ok h"
    using assms by (auto simp: has_file_def)
  have s: "(h_streams h)(f := None) = S" using f by (auto simp: fun_eq_iff)
  define h' where "h' = the (fclose L (compress_fp info) h)"
  have "fclose L (compress_fp info) h = Some h' \<and> h_streams h' = S \<and> h_blocks h' = h_blocks h \<and> h_next h' = h_next h"
    unfolding h'_def using f s by (simp add: fclose_def Let_def called_def split: option.splits)
  moreover have "S n = None" if "h_streams h n = None" for n
    using that f(2,3) by (cases "n = f") auto
  ultimately have "fclose L (compress_fp info) h = Some h' \<and> h_streams h' = S \<and> h_blocks h' = h_blocks h \<and>
      h_next h' = h_next h \<and> host_ok h'"
    using f(4) by (simp add: host_ok_def)
  then show ?thesis using that by blast
qed

lemma free_buffer:
  assumes "outbuff info = Some b" and "b \<notin> B" and "h_blocks h = insert b B" and "h_streams h = S" and "host_ok h"
  obtains h' where "free (outbuff info) h = Some h'" and "released S B (info'\<lparr>compress_fp := None\<rparr>) h'"
  using assms that [of "h\<lparr>h_blocks := B\<rparr>"]
  by (auto simp: free_def released_def host_ok_def)

lemma abandon_safe:
  assumes "has_file S B info h"
  shows "opens S B info (abandon_file L info h)"
proof -
  obtain b where b: "outbuff info = Some b" "b \<notin> B" "h_blocks h = insert b B" using assms by (auto simp: has_file_def)
  obtain h1 where h1: "fclose L (compress_fp info) h = Some h1" "h_streams h1 = S" "h_blocks h1 = h_blocks h" "host_ok h1"
    using close_stream [OF assms] by metis
  obtain h2 where h2: "free (outbuff info) h1 = Some h2" "released S B (info\<lparr>compress_fp := None\<rparr>) h2"
    using free_buffer [OF b(1,2) _ h1(2,4)] b(3) h1(3) by metis
  then show ?thesis
    by (intro opensI [where ret = "- 1" and info' = "info\<lparr>compress_fp := None\<rparr>" and h' = h2])
      (auto simp: abandon_file_def h1(1))
qed

section \<open>Opening and closing\<close>

text \<open>A file is opened by a writer that has a buffer and no stream.\<close>

definition has_buffer :: "(nat \<Rightarrow> string option) \<Rightarrow> nat set \<Rightarrow> 'c pcap_mng_info \<Rightarrow> host \<Rightarrow> bool" where
  "has_buffer S B info h \<longleftrightarrow>
    (\<exists>b. outbuff info = Some b \<and> b \<notin> B \<and> h_streams h = S \<and> h_blocks h = insert b B \<and> host_ok h)"

lemma free_only_buffer:
  assumes "has_buffer S B info h" and "same_host h h'"
  obtains h2 where "free (outbuff info) h' = Some h2" and "released S B (info\<lparr>compress_fp := None\<rparr>) h2"
proof -
  obtain b where b: "outbuff info = Some b" "b \<notin> B" "h_streams h = S" "h_blocks h = insert b B" "host_ok h"
    using assms(1) by (auto simp: has_buffer_def)
  note free_buffer [OF b(1,2), of h' S info]
  moreover have "h_blocks h' = insert b B" "h_streams h' = S" "host_ok h'"
    using b assms(2) same_host_ok [OF assms(2)] by (auto simp: same_host_def)
  ultimately show ?thesis using that by blast
qed

lemma fopen_safe:
  assumes "has_buffer S B info h" and "fopen L path h = (Some f, h1)"
  shows "has_file S B (info\<lparr>compress_fp := Some f\<rparr>) h1"
proof -
  obtain b where b: "outbuff info = Some b" "b \<notin> B" "h_streams h = S" "h_blocks h = insert b B" "host_ok h"
    using assms(1) by (auto simp: has_buffer_def)
  have f: "f = h_next h" "h_streams h1 = S(f \<mapsto> path)" "h_blocks h1 = insert b B" "h_next h1 = h_next h + 1"
    using assms(2) by (simp_all add: fopen_def called_def b(3,4) [symmetric] split: if_splits, (elim conjE, hypsubst_thin, simp)+)
  have "S f = None" using b(3,5) f(1) by (simp add: host_ok_def)
  moreover have "b < h_next h" using b(4,5) unfolding host_ok_def by (metis insertI1 not_le)
  then have "host_ok h1" using b(3-5) f by (simp add: host_ok_def)
  ultimately show ?thesis unfolding has_file_def using b(1,2) f(2,3) by (simp, blast)
qed

lemma has_file_fields [simp]:
  "has_file S B (info\<lparr>ctx := c\<rparr>) h = has_file S B info h"
  "has_file S B (info\<lparr>file_size := n\<rparr>) h = has_file S B info h"
  by (simp_all add: has_file_def)

lemma released_fields [simp]:
  "released S B (info\<lparr>ctx := c\<rparr>) h = released S B info h"
  "released S B (info\<lparr>file_size := n\<rparr>) h = released S B info h"
  by (simp_all add: released_def)

lemma owned_open: "has_file S B info h \<Longrightarrow> ctx info = Some c \<Longrightarrow> owned S B info h"
  by (simp add: owned_def)

lemma header_safe:
  assumes "has_file S B info h" and "ctx info = Some c"
  shows "opens S B info (do {
     (ret2, info3, h3) \<leftarrow> output_lz4_pcap_file L (info\<lparr>file_size := n\<rparr>) pcap_file_header h;
     if ret2 \<noteq> SPP_RET_OK then abandon_file L info3 h3 else Some (SPP_RET_OK, info3, h3) })"
proof -
  have f: "has_file S B (info\<lparr>file_size := n\<rparr>) h" "ctx (info\<lparr>file_size := n\<rparr>) = Some c"
    using assms by simp_all
  obtain ret c' h' where o: "output_lz4_pcap_file L (info\<lparr>file_size := n\<rparr>) pcap_file_header h
      = Some (ret, info\<lparr>file_size := n, ctx := Some c'\<rparr>, h')" "same_host h h'"
    using lz4_output_safe [OF f] by metis
  have f': "has_file S B (info\<lparr>file_size := n, ctx := Some c'\<rparr>) h'"
    using has_file_moved [OF assms(1) o(2)] by simp
  show ?thesis
  proof (cases "ret = 0")
    case True
    then show ?thesis using f'
      by (intro opensI [where ret = 0 and info' = "info\<lparr>file_size := n, ctx := Some c'\<rparr>" and h' = h'])
        (auto simp: o(1))
  next
    case False
    then show ?thesis using opens_same [OF abandon_safe [OF f', of L], of info] by (simp add: o(1))
  qed
qed

lemma open_safe:
  assumes "has_buffer S B info h"
  shows "opens S B info (open_capture_file L opt info h)"
proof -
  obtain fp h1 where o: "fopen L (temp_file opt (compress_file_name info)) h = (fp, h1)" by fastforce
  show ?thesis
  proof (cases fp)
    case None
    have "same_host h h1" using o None by (auto simp: fopen_def split: if_splits)
    then obtain h2 where h2: "free (outbuff info) h1 = Some h2" "released S B (info\<lparr>compress_fp := None\<rparr>) h2"
      using free_only_buffer [OF assms] by blast
    then show ?thesis using o None
      by (intro opensI [where ret = "- 1" and info' = "info\<lparr>compress_fp := None\<rparr>" and h' = h2])
        (auto simp: open_capture_file_def)
  next
    case (Some f)
    define i1 where "i1 = info\<lparr>compress_fp := Some f\<rparr>"
    have f1: "has_file S B i1 h1" using fopen_safe [OF assms] o Some by (simp add: i1_def)
    then have f1': "has_file S B i1 (called h1)" by (rule has_file_moved [OF _ called_same])
    have w: "same_writer info i1" by (simp add: i1_def)
    show ?thesis
    proof (cases "LZ4F_createCompressionContext L (h_calls h1)")
      case None
      then show ?thesis using o Some opens_same [OF abandon_safe [OF f1', of L] w]
        by (simp add: open_capture_file_def i1_def)
    next
      case (Some c0)
      obtain r c1 where b: "LZ4F_compressBegin L c0 (outbuf_capacity info) = (r, c1)" by fastforce
      define i2 where "i2 = i1\<lparr>ctx := Some c1\<rparr>"
      have f2: "has_file S B i2 (called h1)" "ctx i2 = Some c1" "same_writer info i2"
        using f1' w by (simp_all add: i2_def)
      note base = o \<open>fp = Some f\<close> Some b has_file_buffer [OF f1]
      show ?thesis
      proof (cases r)
        case None
        then show ?thesis using base opens_same [OF abandon_safe [OF f2(1), of L] f2(3)]
          by (simp add: open_capture_file_def i1_def i2_def)
      next
        case (Some bs)
        obtain ret h2 where w2: "output_pcap_file L (compress_fp i2) bs (called h1) = Some (ret, h2)"
            "same_host (called h1) h2" using output_safe [OF f2(1)] by metis
        have f3: "has_file S B i2 h2" by (rule has_file_moved [OF f2(1) w2(2)])
        show ?thesis
          using base Some w2(1) opens_same [OF abandon_safe [OF f3, of L] f2(3)]
            opens_same [OF header_safe [OF f3 f2(2), of L "length bs"] f2(3)]
          by (cases "ret = 0") (simp_all add: open_capture_file_def i1_def i2_def Let_def)
      qed
    qed
  qed
qed

lemma close_safe:
  assumes "owned S B info h"
  shows "safe S B info (file_compression_operation L opt info CLOSE_MODE h) \<and>
    (\<forall>ret info' h'. file_compression_operation L opt info CLOSE_MODE h = Some (ret, info', h') \<longrightarrow>
       ret = 0 \<and> released S B info' h')"
proof (cases "compress_fp info = None")
  case True
  then have "released S B info h" using assms by (auto simp: owned_def has_file_def)
  then show ?thesis using True assms by (auto simp: file_compression_operation_def safe_def)
next
  case False
  then have f: "has_file S B info h" and "ctx info \<noteq> None" using assms by (auto simp: owned_def released_def)
  then obtain c where c: "ctx info = Some c" by auto
  obtain b where b: "outbuff info = Some b" "b \<notin> B" "h_blocks h = insert b B" using f by (auto simp: has_file_def)
  obtain r c1 where e: "LZ4F_compressEnd L c (outbuf_capacity info) = (r, c1)" by fastforce
  obtain info2 h1 where m: "(case r of None \<Rightarrow> Some (info\<lparr>ctx := Some c1\<rparr>, h)
      | Some bs \<Rightarrow> do {
          (ret, h') \<leftarrow> output_pcap_file L (compress_fp info) bs h;
          Some (info\<lparr>ctx := Some c1, file_size := u64 (file_size info + length bs)\<rparr>, h') }) = Some (info2, h1)"
      and i2: "same_writer info info2" "has_file S B info2 h1" "compress_fp info2 = compress_fp info"
        "outbuff info2 = outbuff info" "same_host h h1"
  proof (cases r)
    case None
    then show ?thesis using that [of "info\<lparr>ctx := Some c1\<rparr>" h] f by simp
  next
    case (Some bs)
    obtain ret h' where o: "output_pcap_file L (compress_fp info) bs h = Some (ret, h')" "same_host h h'"
      using output_safe [OF f] by metis
    then show ?thesis
      using that [of "info\<lparr>ctx := Some c1, file_size := u64 (file_size info + length bs)\<rparr>" h'] Some
        has_file_moved [OF f o(2)] by simp
  qed
  obtain h2 where h2: "fclose L (compress_fp info) h1 = Some h2" "h_streams h2 = S" "h_blocks h2 = h_blocks h1" "host_ok h2"
    using close_stream [OF i2(2)] i2(3) by metis
  define h3 where "h3 = rename L (temp_file opt (compress_file_name info)) (save_file opt (compress_file_name info)) h2"
  have h3: "same_host h2 h3"
    unfolding h3_def rename_def by (auto simp: same_host_def called_def split: option.splits)
  obtain h4 where h4: "free (outbuff info) h3 = Some h4" "released S B (info2\<lparr>compress_fp := None\<rparr>) h4"
    using free_buffer [OF b(1,2), of h3 S info2] h2 h3 b(3) i2(5) same_host_ok [OF h3] by (metis same_host_def)
  have "file_compression_operation L opt info CLOSE_MODE h = Some (0, info2\<lparr>compress_fp := None\<rparr>, h4)"
    using False c e has_file_buffer [OF f] m h2(1) h4(1)
    by (auto simp: file_compression_operation_def h3_def [symmetric])
  then show ?thesis using i2(1) h4(2) by (auto simp: safe_def owned_def)
qed

lemma init_safe:
  assumes "h_streams h = S" and "h_blocks h = B" and "host_ok h" and "\<forall>n. \<not> malloc_fails L n"
  shows "opens S B info (file_compression_operation L opt info INIT_MODE h)"
proof -
  obtain b h1 where m: "malloc L (LZ4F_compressBound L IN_CHUNK_SIZE) h = (Some b, h1)"
      "b = h_next h" "h_streams h1 = S" "h_blocks h1 = insert b B" "h_next h1 = Suc (h_next h)"
    using assms by (simp add: malloc_def called_def)
  define i1 where "i1 = info\<lparr>outbuf_capacity := LZ4F_compressBound L IN_CHUNK_SIZE, outbuff := Some b, file_size := 0,
    file_no := 1, compress_file_name := capture_file_name opt (thread_no info) 1\<rparr>"
  have "b \<notin> B" "host_ok h1" using m assms(1-3) by (auto simp: host_ok_def)
  then have "has_buffer S B i1 h1" using m by (simp add: has_buffer_def i1_def)
  then have "opens S B i1 (open_capture_file L opt i1 h1)" by (rule open_safe)
  moreover have "same_writer info i1" by (simp add: same_writer_def i1_def)
  ultimately show ?thesis
    using opens_same m(1) by (simp add: file_compression_operation_def i1_def [symmetric])
qed

lemma update_safe:
  assumes f: "has_file S B info h" and c: "ctx info = Some c"
  shows "opens S B info (file_compression_operation L opt info UPDATE_MODE h)"
proof -
  obtain b where b: "outbuff info = Some b" "b \<notin> B" "h_blocks h = insert b B" using f by (auto simp: has_file_def)
  obtain r c1 where e: "LZ4F_compressEnd L c (outbuf_capacity info) = (r, c1)" by fastforce
  define i1 where "i1 = info\<lparr>ctx := Some c1\<rparr>"
  have i1: "same_writer info i1" "has_file S B i1 h" "compress_fp i1 = compress_fp info"
    using f by (simp_all add: i1_def)
  note base = c e has_file_buffer [OF f]
  show ?thesis
  proof (cases r)
    case None
    then show ?thesis using base opens_same [OF abandon_safe [OF i1(2), of L] i1(1)]
      by (simp add: file_compression_operation_def i1_def)
  next
    case (Some bs)
    obtain ret h1 where o: "output_pcap_file L (compress_fp info) bs h = Some (ret, h1)" "same_host h h1"
      using output_safe [OF f] by metis
    have f1: "has_file S B i1 h1" by (rule has_file_moved [OF i1(2) o(2)])
    show ?thesis
    proof (cases "ret = 0")
      case False
      then show ?thesis using base Some o(1) opens_same [OF abandon_safe [OF f1, of L] i1(1)]
        by (simp add: file_compression_operation_def i1_def)
    next
      case True
      obtain h2 where h2: "fclose L (compress_fp info) h1 = Some h2" "h_streams h2 = S" "h_blocks h2 = h_blocks h1" "host_ok h2"
        using close_stream [OF f1] i1(3) by metis
      define h3 where "h3 = rename L (temp_file opt (compress_file_name info)) (save_file opt (compress_file_name info)) h2"
      have h3: "same_host h2 h3"
        unfolding h3_def rename_def by (auto simp: same_host_def called_def split: option.splits)
      define i2 where "i2 = i1\<lparr>compress_fp := None, file_size := 0, file_no := file_no info + 1,
        compress_file_name := capture_file_name opt (thread_no info) (file_no info + 1)\<rparr>"
      have "has_buffer S B i2 h3"
        using b h2 h3 o(2) same_host_ok [OF h3] by (simp add: has_buffer_def i2_def i1_def same_host_def)
      then have "opens S B i2 (open_capture_file L opt i2 h3)" by (rule open_safe)
      moreover have "same_writer info i2" using i1(1) by (simp add: i2_def)
      ultimately have "opens S B info (open_capture_file L opt i2 h3)" by (rule opens_same)
      then show ?thesis
        using base Some o(1) True h2(1)
        by (simp add: file_compression_operation_def i2_def i1_def h3_def)
    qed
  qed
qed

section \<open>Packets\<close>

text \<open>An error closes the file.\<close>

lemma close_after_error:
  assumes "has_file S B info h" and "ctx info \<noteq> None" and "same_writer info0 info"
  shows "opens S B info0 (do {
    (ret, info2, h2) \<leftarrow> file_compression_operation L opt info CLOSE_MODE h; Some (SPP_RET_NG, info2, h2) })"
proof -
  have "owned S B info h" using assms by (simp add: owned_def)
  from close_safe [OF this, of L opt]
  obtain ret info2 h2 where "file_compression_operation L opt info CLOSE_MODE h = Some (ret, info2, h2)"
      "same_writer info info2" "released S B info2 h2" unfolding safe_def by blast
  then show ?thesis
    using assms(3) by (intro opensI [where ret = "- 1" and info' = info2 and h' = h2])
      (auto intro: same_writer_trans)
qed

lemma write_segments_opens:
  assumes "has_file S B info h" and "ctx info \<noteq> None" and "same_writer info0 info"
  shows "opens S B info0 (write_segments L opt segs n info h)"
  using assms
proof (induction segs arbitrary: n info h)
  case Nil
  then show ?case by (auto simp: opens_def)
next
  case (Cons seg segs)
  obtain c where c: "ctx info = Some c" using Cons.prems by auto
  show ?case
  proof (cases "n = 0")
    case True
    then show ?thesis using Cons.prems by (auto simp: opens_def)
  next
    case False
    let ?n = "TRANCATE_SNAPLEN (length seg) n"
    obtain ret c' h1 where o: "output_lz4_pcap_file L info (take ?n seg) h = Some (ret, info\<lparr>ctx := Some c'\<rparr>, h1)"
        "same_host h h1" using lz4_output_safe [OF Cons.prems(1) c] by metis
    have f1: "has_file S B (info\<lparr>ctx := Some c'\<rparr>) h1" using has_file_moved [OF Cons.prems(1) o(2)] by simp
    show ?thesis
    proof (cases "ret = 0")
      case True
      have "has_file S B (info\<lparr>ctx := Some c', file_size := u64 (file_size info + ?n)\<rparr>) h1" using f1 by simp
      from Cons.IH [OF this] show ?thesis using False True Cons.prems(3) by (simp add: o(1) Let_def)
    next
      case fail: False
      have "same_writer info0 (info\<lparr>ctx := Some c'\<rparr>)" using Cons.prems(3) by simp
      from close_after_error [OF f1 _ this, of L opt] show ?thesis using False fail by (simp add: o(1) Let_def)
    qed
  qed
qed

lemma roll_safe:
  assumes "has_file S B info h" and "ctx info \<noteq> None"
  shows "opens S B info (roll_file L opt info h)"
  unfolding roll_file_def using assms update_safe [OF assms(1)] by (auto simp: opens_def)

lemma compress_file_packet_opens:
  assumes f: "has_file S B info h" and c: "ctx info \<noteq> None"
  shows "opens S B info (compress_file_packet L opt info pkt h)"
proof -
  have fp: "compress_fp info \<noteq> None" using f by (auto simp: has_file_def)
  from roll_safe [OF f c, of L opt]
  obtain ret info1 h1 where r: "roll_file L opt info h = Some (ret, info1, h1)"
    and s: "same_writer info info1" "ret = 0 \<and> has_file S B info1 h1 \<and> ctx info1 \<noteq> None \<or> ret = - 1 \<and> released S B info1 h1"
    unfolding opens_def by blast
  show ?thesis
  proof (cases "ret = 0")
    case True
    then have f1: "has_file S B info1 h1" "ctx info1 \<noteq> None" using s by auto
    then obtain c where c: "ctx info1 = Some c" by auto
    let ?n = "TRANCATE_SNAPLEN PCAP_SNAPLEN_MAX (fst pkt)"
    let ?hd = "pcap_packet_header (clock_gettime L (h_calls h1)) ?n (fst pkt)"
    obtain ret2 c' h2 where o: "output_lz4_pcap_file L info1 ?hd (called h1) = Some (ret2, info1\<lparr>ctx := Some c'\<rparr>, h2)"
        "same_host (called h1) h2" using lz4_output_safe [OF has_file_moved [OF f1(1) called_same] c] by metis
    have f2: "has_file S B (info1\<lparr>ctx := Some c'\<rparr>) h2"
      using has_file_moved [OF has_file_moved [OF f1(1) called_same] o(2)] by simp
    have f3: "has_file S B (info1\<lparr>ctx := Some c', file_size := u64 (file_size info1 + 16)\<rparr>) h2" using f2 by simp
    have w2: "same_writer info (info1\<lparr>ctx := Some c'\<rparr>)"
        "same_writer info (info1\<lparr>ctx := Some c', file_size := u64 (file_size info1 + 16)\<rparr>)" using s(1) by simp_all
    show ?thesis
      using fp True r close_after_error [OF f2 _ w2(1), of L opt]
        write_segments_opens [OF f3 _ w2(2), of L opt "snd pkt" ?n]
      by (cases "ret2 = 0") (auto simp: compress_file_packet_def o(1) Let_def)
  next
    case fail: False
    then show ?thesis using fp r s
      by (intro opensI [where ret = "- 1" and info' = info1 and h' = h1]) (auto simp: compress_file_packet_def)
  qed
qed

lemma compress_file_packet_safe:
  assumes "owned S B info h"
  shows "safe S B info (compress_file_packet L opt info pkt h)"
proof (cases "compress_fp info = None")
  case True
  then show ?thesis using assms by (auto simp: compress_file_packet_def safe_def)
next
  case False
  then have "has_file S B info h" "ctx info \<noteq> None" using assms by (auto simp: owned_def released_def)
  then show ?thesis by (rule opens_safe [OF compress_file_packet_opens])
qed

text \<open>A burst: after an error the writer is idle and has closed its file.\<close>

lemma status_fields [simp]:
  "has_file S B (info\<lparr>cap_status := st\<rparr>) h = has_file S B info h"
  "released S B (info\<lparr>cap_status := st\<rparr>) h = released S B info h"
  "owned S B (info\<lparr>cap_status := st\<rparr>) h = owned S B info h"
  by (simp_all add: has_file_def released_def owned_def)

lemma write_burst_safe:
  assumes "has_file S B info h" and "ctx info \<noteq> None"
  shows "\<exists>ret info' h'. write_burst L opt pkts info h = Some (ret, info', h') \<and>
    thread_type info' = thread_type info \<and>
    (ret = 0 \<and> cap_status info' = cap_status info \<and> has_file S B info' h' \<and> ctx info' \<noteq> None \<or>
     ret = - 1 \<and> cap_status info' = SPP_CAPTURE_IDLE \<and> released S B info' h')"
  using assms
proof (induction pkts arbitrary: info h)
  case Nil
  then show ?case by simp
next
  case (Cons pkt pkts)
  from compress_file_packet_opens [OF Cons.prems, of L opt pkt]
  obtain ret info1 h1 where r: "compress_file_packet L opt info pkt h = Some (ret, info1, h1)" "same_writer info info1"
      "ret = 0 \<and> has_file S B info1 h1 \<and> ctx info1 \<noteq> None \<or> ret = - 1 \<and> released S B info1 h1"
    unfolding opens_def by blast
  show ?case
  proof (cases "ret = 0")
    case True
    then have "has_file S B info1 h1" "ctx info1 \<noteq> None" using r(3) by auto
    from Cons.IH [OF this] show ?thesis using r(1,2) True by (simp add: same_writer_def)
  next
    case False
    then have "released S B info1 h1" using r(3) by auto
    then have "owned S B (info1\<lparr>cap_status := SPP_CAPTURE_IDLE\<rparr>) h1" by (simp add: owned_def)
    from close_safe [OF this, of L opt] obtain ret2 info2 h2 where
      c: "file_compression_operation L opt (info1\<lparr>cap_status := SPP_CAPTURE_IDLE\<rparr>) CLOSE_MODE h1 = Some (ret2, info2, h2)"
        "same_writer (info1\<lparr>cap_status := SPP_CAPTURE_IDLE\<rparr>) info2" "released S B info2 h2"
      unfolding safe_def by blast
    then show ?thesis using False r(1,2) by (simp add: same_writer_def)
  qed
qed

end
