(* ===== verification/Pcap_Format.thy ===== *)
theory Pcap_Format
  imports Pcap_Safe
begin

text \<open>
  What is in the capture files of spp_pcap.  The specification is a reader of the pcap format; the
  theorem at the end says that the files a writer leaves behind, decompressed and read, are the
  packets it was given, in order, when no call fails.
\<close>

section \<open>Reading the pcap format\<close>

text \<open>A record has the length of its data at offset 8 and the length of the packet at offset 12.  The
  result is the list of the original lengths and the data, None for a damaged file.\<close>

function parse_records :: "byte list \<Rightarrow> (nat \<times> byte list) list option" where
  "parse_records bs =
    (if bs = [] then Some []
     else if length bs < 16 then None
     else let incl = unat (le_word (take 4 (drop 8 bs)) :: 32 word);
              orig = unat (le_word (take 4 (drop 12 bs)) :: 32 word);
              rest = drop 16 bs in
       if length rest < incl then None
       else map_option ((#) (orig, take incl rest)) (parse_records (drop incl rest)))"
  by pat_completeness auto
termination by (relation "measure length") auto

declare parse_records.simps [simp del]

definition parse_pcap :: "byte list \<Rightarrow> (nat \<times> byte list) list option" where
  "parse_pcap bs =
    (if length bs < 24 \<or> (le_word (take 4 bs) :: 32 word) \<noteq> 0xa1b2c3d4 then None else parse_records (drop 24 bs))"

text \<open>What has to be in the file of a packet: its length and its first bytes.\<close>

definition captured :: "cap_pkt \<Rightarrow> nat \<times> byte list" where
  "captured pkt = (fst pkt, take PCAP_SNAPLEN_MAX (concat (snd pkt)))"

definition pkt_ok :: "cap_pkt \<Rightarrow> bool" where
  "pkt_ok pkt \<longleftrightarrow> fst pkt = length (concat (snd pkt)) \<and> fst pkt < 2 ^ 32"

section \<open>The bytes of a file\<close>

definition record_bytes :: "int \<times> int \<Rightarrow> cap_pkt \<Rightarrow> byte list" where
  "record_bytes t pkt =
    (let n = TRANCATE_SNAPLEN PCAP_SNAPLEN_MAX (fst pkt) in
     pcap_packet_header t n (fst pkt) @ take n (concat (snd pkt)))"

definition file_bytes :: "((int \<times> int) \<times> cap_pkt) list \<Rightarrow> byte list" where
  "file_bytes tps = pcap_file_header @ concat (List.map (\<lambda>(t, p). record_bytes t p) tps)"

lemma le_word_le_bytes32: "le_word (le_bytes32 w) = w"
proof (rule bit_word_eqI)
  fix n :: nat assume "n < LENGTH(32)"
  then have "n = n mod 8 \<or> n = n mod 8 + 8 \<or> n = n mod 8 + 16 \<or> n = n mod 8 + 24" by simp presburger
  moreover have "n mod 8 < 8" by simp
  ultimately obtain m where m: "m < 8" and "n = m \<or> n = m + 8 \<or> n = m + 16 \<or> n = m + 24" by metis
  then show "bit (le_word (le_bytes32 w) :: 32 word) n = bit w n"
    by (elim disjE) (simp_all add: le_bytes32_def bit_simps add.commute)
qed

lemma parse_record:
  assumes "pkt_ok pkt"
  shows "parse_records (record_bytes t pkt @ rest) = map_option ((#) (captured pkt)) (parse_records rest)"
proof -
  let ?n = "TRANCATE_SNAPLEN PCAP_SNAPLEN_MAX (fst pkt)"
  let ?d = "take ?n (concat (snd pkt))"
  have le: "?n \<le> fst pkt" "?n < 2 ^ 32" by (simp_all add: TRANCATE_SNAPLEN_def PCAP_SNAPLEN_MAX_def)
  have len: "length (concat (snd pkt)) = fst pkt" and small: "fst pkt < 2 ^ 32" using assms by (simp_all add: pkt_ok_def)
  have "length ?d = ?n" unfolding length_take len using le(1) by simp
  note l = this le(2) small
  have d: "?d = snd (captured pkt)" "fst (captured pkt) = fst pkt"
    using assms by (auto simp: pkt_ok_def TRANCATE_SNAPLEN_def captured_def)
  let ?bs = "record_bytes t pkt @ rest"
  have b: "?bs = le_bytes32 (of_int (fst t)) @ le_bytes32 (of_int (snd t div 1000)) @
      le_bytes32 (of_nat ?n) @ le_bytes32 (of_nat (fst pkt)) @ ?d @ rest"
    by (simp add: record_bytes_def pcap_packet_header_def Let_def)
  have p: "length ?bs = 16 + ?n + length rest" "take 4 (drop 8 ?bs) = le_bytes32 (of_nat ?n)"
      "take 4 (drop 12 ?bs) = le_bytes32 (of_nat (fst pkt))" "drop 16 ?bs = ?d @ rest"
    unfolding b by (simp_all add: len min_absorb2 [OF le(1)])
  have u: "unat (of_nat ?n :: 32 word) = ?n" "unat (of_nat (fst pkt) :: 32 word) = fst pkt"
    using l(2,3) by (simp_all add: unsigned_of_nat take_bit_nat_eq_self)
  have "take ?n (?d @ rest) = ?d" "drop ?n (?d @ rest) = rest" using l(1) by auto
  moreover have "?bs \<noteq> []" "\<not> length ?bs < 16" using p(1) by auto
  moreover have "(fst pkt, ?d) = captured pkt" using d by (simp add: prod_eq_iff)
  ultimately show ?thesis
    using l(1) by (subst parse_records.simps) (simp only: p(2-4) u le_word_le_bytes32 Let_def if_False length_append not_add_less1)
qed

lemma parse_file: "\<forall>(t, p) \<in> set tps. pkt_ok p \<Longrightarrow> parse_pcap (file_bytes tps) = Some (List.map (captured \<circ> snd) tps)"
proof -
  assume ok: "\<forall>(t, p) \<in> set tps. pkt_ok p"
  have "parse_records (concat (List.map (\<lambda>(t, p). record_bytes t p) tps)) = Some (List.map (captured \<circ> snd) tps)"
    using ok
  proof (induction tps)
    case Nil
    show ?case by (simp add: parse_records.simps)
  next
    case (Cons tp tps)
    then show ?case by (cases tp) (simp add: parse_record)
  qed
  moreover have "length pcap_file_header = 24" by (simp add: pcap_file_header_def)
  moreover have "take 4 pcap_file_header = le_bytes32 0xa1b2c3d4" by (simp add: pcap_file_header_def)
  ultimately show ?thesis by (simp add: parse_pcap_def file_bytes_def le_word_le_bytes32)
qed

section \<open>Names\<close>

text \<open>The names of the files of a capture are never cut off, and differ by the number of the file.\<close>

definition names_ok :: "pcap_option \<Rightarrow> int \<Rightarrow> bool" where
  "names_ok opt thread \<longleftrightarrow> length (compress_file_path opt) < PCAP_FPATH_STRLEN - 4 \<and>
     length (compress_file_date opt) \<le> 14 \<and> 0 \<le> iface_no (port_cap opt) \<and> iface_no (port_cap opt) < 10 ^ 10 \<and>
     0 \<le> thread \<and> thread < 1000"

lemma show_nat_10: "n < 10 ^ 10 \<Longrightarrow> length (show_nat n) \<le> 10"
  using length_show_nat_mono [of n 9999999999] by (simp add: show_nat.simps)

lemma show_nat_3: "n < 1000 \<Longrightarrow> length (show_nat n) \<le> 3"
  using length_show_nat_mono [of n 999] by (simp add: show_nat.simps)

definition full_name :: "pcap_option \<Rightarrow> int \<Rightarrow> int \<Rightarrow> string" where
  "full_name opt thread file = ''spp_pcap.'' @ compress_file_date opt @ ''.'' @
      (if iface_type (port_cap opt) = PHY then ''phy'' else ''ring'') @ show_int (iface_no (port_cap opt)) @
      ''.'' @ show_unsigned thread @ ''.'' @ show_unsigned file @ ''.pcap.lz4''"

lemma full_name_length: 
  assumes "names_ok opt thread" and "0 \<le> file" and "file < 2 ^ 32"
  shows "length (full_name opt thread file) \<le> 62"
proof -
  have "length (show_nat (nat (file mod 2 ^ 32))) \<le> 10" using assms(2,3) by (intro show_nat_10) simp
  moreover have "length (show_nat (nat (thread mod 2 ^ 32))) \<le> 3" using assms(1) by (intro show_nat_3) (simp add: names_ok_def nat_less_iff)
  moreover have "length (show_nat (nat (iface_no (port_cap opt)))) \<le> 10"
    using assms(1) by (intro show_nat_10) (simp add: names_ok_def nat_less_iff)
  ultimately show ?thesis using assms(1) by (simp add: full_name_def names_ok_def show_unsigned_def show_int_def)
qed

lemma names_fit:
  assumes "names_ok opt thread" and "0 \<le> file" and "file < 2 ^ 32"
  shows "capture_file_name opt thread file = full_name opt thread file"
    and "save_file opt (capture_file_name opt thread file) = compress_file_path opt @ ''/'' @ full_name opt thread file"
    and "temp_file opt (capture_file_name opt thread file) =
      compress_file_path opt @ ''/'' @ full_name opt thread file @ ''.tmp''"
proof -
  note l = full_name_length [OF assms]
  show c: "capture_file_name opt thread file = full_name opt thread file"
    using l unfolding capture_file_name_def full_name_def [symmetric] by (simp add: snprintf_buf_def PCAP_FNAME_STRLEN_def)
  have "length (compress_file_path opt) < 124" using assms(1) by (simp add: names_ok_def PCAP_FPATH_STRLEN_def)
  then show "save_file opt (capture_file_name opt thread file) = compress_file_path opt @ ''/'' @ full_name opt thread file"
    and "temp_file opt (capture_file_name opt thread file) = compress_file_path opt @ ''/'' @ full_name opt thread file @ ''.tmp''"
    using l by (simp_all add: c save_file_def temp_file_def snprintf_buf_def PCAP_FPATH_STRLEN_def PCAP_FNAME_STRLEN_def)
qed

lemma file_names_inj:
  assumes "0 \<le> i" and "i < 2 ^ 32" and "0 \<le> j" and "j < 2 ^ 32" and "full_name opt thread i = full_name opt thread j"
  shows "i = j"
proof -
  have "show_nat (nat i) = show_nat (nat j)" using assms by (simp add: full_name_def show_unsigned_def)
  then have "nat i = nat j" by (simp add: show_nat_inj)
  then show ?thesis using assms by simp
qed

lemma temp_not_saved: "x @ full_name opt thread i @ ''.tmp'' \<noteq> x @ full_name opt thread j"
proof
  assume "x @ full_name opt thread i @ ''.tmp'' = x @ full_name opt thread j"
  then have "last (full_name opt thread i @ ''.tmp'') = last (full_name opt thread j)" by simp
  then show False by (simp add: full_name_def)
qed

section \<open>LZ4\<close>

text \<open>The documented behaviour of the LZ4 frame functions: fed c are the bytes that a context was
  given since LZ4F_compressBegin, produced c the bytes it has put out, and decode is the
  decompression of a complete frame.\<close>

definition lz4_laws :: "'c lib \<Rightarrow> ('c \<Rightarrow> byte list) \<Rightarrow> ('c \<Rightarrow> byte list) \<Rightarrow> (byte list \<Rightarrow> byte list option) \<Rightarrow> bool" where
  "lz4_laws L fed produced decode \<longleftrightarrow>
    (\<forall>c n bs c'. LZ4F_compressBegin L c n = (Some bs, c') \<longrightarrow> fed c' = [] \<and> produced c' = bs) \<and>
    (\<forall>c n src bs c'. LZ4F_compressUpdate L c n src = (Some bs, c') \<longrightarrow>
       fed c' = fed c @ src \<and> produced c' = produced c @ bs) \<and>
    (\<forall>c n bs c'. LZ4F_compressEnd L c n = (Some bs, c') \<longrightarrow> decode (produced c @ bs) = Some (fed c))"

text \<open>No call fails.\<close>

definition no_failure :: "'c lib \<Rightarrow> bool" where
  "no_failure L \<longleftrightarrow> (\<forall>n. fault L n = None \<and> \<not> malloc_fails L n \<and> LZ4F_createCompressionContext L n \<noteq> None) \<and>
    (\<forall>c n. fst (LZ4F_compressBegin L c n) \<noteq> None) \<and>
    (\<forall>c n src. fst (LZ4F_compressUpdate L c n src) \<noteq> None) \<and> (\<forall>c n. fst (LZ4F_compressEnd L c n) \<noteq> None)"

lemma no_faults [simp]: "no_failure L \<Longrightarrow> fault L n = None" "no_failure L \<Longrightarrow> \<not> malloc_fails L n"
  by (simp_all add: no_failure_def)

lemma lz4_create: "no_failure L \<Longrightarrow> \<exists>c. LZ4F_createCompressionContext L n = Some c"
  unfolding no_failure_def by blast

lemma lz4_begin:
  assumes "no_failure L" and "lz4_laws L fed produced decode"
  obtains bs c' where "LZ4F_compressBegin L c n = (Some bs, c')" and "fed c' = []" and "produced c' = bs"
  using assms unfolding no_failure_def lz4_laws_def by (metis option.exhaust prod.exhaust_sel)

lemma lz4_update:
  assumes "no_failure L" and "lz4_laws L fed produced decode"
  obtains bs c' where "LZ4F_compressUpdate L c n src = (Some bs, c')" and "fed c' = fed c @ src"
    and "produced c' = produced c @ bs"
  using assms unfolding no_failure_def lz4_laws_def by (metis option.exhaust prod.exhaust_sel)

lemma lz4_end:
  assumes "no_failure L" and "lz4_laws L fed produced decode"
  obtains bs c' where "LZ4F_compressEnd L c n = (Some bs, c')" and "decode (produced c @ bs) = Some (fed c)"
  using assms unfolding no_failure_def lz4_laws_def by (metis option.exhaust prod.exhaust_sel)

section \<open>Writing\<close>

text \<open>The stream of a writer is open on the path p, and p has what the context c has produced.\<close>

definition writing ::
  "('c \<Rightarrow> byte list) \<Rightarrow> 'c pcap_mng_info \<Rightarrow> host \<Rightarrow> string \<Rightarrow> 'c \<Rightarrow> bool" where
  "writing produced info h p c \<longleftrightarrow> ctx info = Some c \<and> buffer_ok info h \<and>
    (\<exists>f. compress_fp info = Some f \<and> h_streams h f = Some p) \<and> h_files h p = Some (produced c)"

lemma map_upd_same: "m x = Some y \<Longrightarrow> m(x \<mapsto> y) = m"
  by auto

lemma buffer_blocks: "h_blocks h' = h_blocks h \<Longrightarrow> buffer_ok info h' = buffer_ok info h"
  by (cases "outbuff info") (simp_all add: buffer_ok_def)

lemma buffer_moved: "same_host h h' \<Longrightarrow> buffer_ok info h' = buffer_ok info h"
  by (rule buffer_blocks) (simp add: same_host_def)

lemma buffer_fields [simp]:
  "buffer_ok (info\<lparr>ctx := c\<rparr>) h = buffer_ok info h" "buffer_ok (info\<lparr>file_size := n\<rparr>) h = buffer_ok info h"
  "buffer_ok (info\<lparr>compress_fp := f\<rparr>) h = buffer_ok info h"
  by (simp_all add: buffer_ok_def)

lemma output_writes:
  assumes "no_failure L" and "h_streams h f = Some p" and "h_files h p = Some d"
  obtains h' where "output_pcap_file L (Some f) bs h = Some (0, h')" and "same_host h h'"
    and "h_files h' = (h_files h)(p \<mapsto> d @ bs)"
  using assms that [of h] that [of "called h\<lparr>h_files := (h_files h)(p \<mapsto> d @ bs)\<rparr>"]
  by (cases "bs = []") (auto simp: output_pcap_file_def fwrite_def called_def same_host_def map_upd_same)

lemma lz4_output_writes:
  assumes L: "no_failure L" "lz4_laws L fed produced decode" and w: "writing produced info h p c"
  obtains c' h' where "output_lz4_pcap_file L info src h = Some (0, info\<lparr>ctx := Some c'\<rparr>, h')"
    and "same_host h h'" and "fed c' = fed c @ src" and "writing produced (info\<lparr>ctx := Some c'\<rparr>) h' p c'"
    and "h_files h' = (h_files h)(p \<mapsto> produced c')"
proof -
  obtain bs c' where u: "LZ4F_compressUpdate L c (outbuf_capacity info) src = (Some bs, c')"
      "fed c' = fed c @ src" "produced c' = produced c @ bs" using lz4_update [OF L] by metis
  obtain f where f: "compress_fp info = Some f" "h_streams h f = Some p" "h_files h p = Some (produced c)"
    using w by (auto simp: writing_def)
  obtain h' where o: "output_pcap_file L (Some f) bs h = Some (0, h')" "same_host h h'"
      "h_files h' = (h_files h)(p \<mapsto> produced c @ bs)" using output_writes [OF L(1) f(2,3)] by metis
  have "writing produced (info\<lparr>ctx := Some c'\<rparr>) h' p c'"
    using w o(2,3) u(3) f buffer_moved [OF o(2), of info] by (auto simp: writing_def same_host_def)
  then show ?thesis
    using that [of c' h'] w u f(1) o by (simp add: output_lz4_pcap_file_def writing_def)
qed

lemma writing_size [simp]: "writing produced (info\<lparr>file_size := n\<rparr>) h p c = writing produced info h p c"
  by (simp add: writing_def)

text \<open>Only the context and the size of the file change.\<close>

definition resized :: "'c pcap_mng_info \<Rightarrow> 'c pcap_mng_info \<Rightarrow> bool" where
  "resized info info' \<longleftrightarrow> (\<exists>c z. info' = info\<lparr>ctx := c, file_size := z\<rparr>)"

lemma resized_refl [simp]: "resized info info"
  unfolding resized_def by (rule exI [of _ "ctx info"], rule exI [of _ "file_size info"]) simp

lemma resized_fields [simp]: "resized info (info\<lparr>ctx := c\<rparr>)" "resized info (info\<lparr>ctx := c, file_size := z\<rparr>)"
  unfolding resized_def by (rule exI [of _ c], rule exI [of _ "file_size info"], simp) blast

lemma resized_trans: assumes "resized a b" and "resized b c" shows "resized a c"
proof -
  obtain x y where b: "b = a\<lparr>ctx := x, file_size := y\<rparr>" using assms(1) by (auto simp: resized_def)
  obtain x' y' where "c = b\<lparr>ctx := x', file_size := y'\<rparr>" using assms(2) by (auto simp: resized_def)
  then have "c = a\<lparr>ctx := x', file_size := y'\<rparr>" by (simp add: b)
  then show ?thesis unfolding resized_def by blast
qed

lemma write_segments_writes:
  assumes L: "no_failure L" "lz4_laws L fed produced decode"
  shows "writing produced info h p c \<Longrightarrow> \<exists>c' info' h'.
    write_segments L opt segs n info h = Some (0, info', h') \<and> same_host h h' \<and> resized info info' \<and>
    fed c' = fed c @ take n (concat segs) \<and> writing produced info' h' p c' \<and>
    h_files h' = (h_files h)(p \<mapsto> produced c')"
proof (induction segs arbitrary: n info h c)
  case Nil
  then show ?case
    by (intro exI [of _ c] exI [of _ info] exI [of _ h]) (simp add: writing_def map_upd_same)
next
  case (Cons seg segs)
  show ?case
  proof (cases "n = 0")
    case True
    then show ?thesis using Cons.prems
      by (intro exI [of _ c] exI [of _ info] exI [of _ h]) (simp add: writing_def map_upd_same)
  next
    case False
    let ?k = "TRANCATE_SNAPLEN (length seg) n"
    obtain c1 h1 where o: "output_lz4_pcap_file L info (take ?k seg) h = Some (0, info\<lparr>ctx := Some c1\<rparr>, h1)"
        "same_host h h1" "fed c1 = fed c @ take ?k seg" "writing produced (info\<lparr>ctx := Some c1\<rparr>) h1 p c1"
        "h_files h1 = (h_files h)(p \<mapsto> produced c1)"
      using lz4_output_writes [OF L Cons.prems] by metis
    have "writing produced (info\<lparr>ctx := Some c1, file_size := u64 (file_size info + ?k)\<rparr>) h1 p c1" using o(4) by simp
    from Cons.IH [OF this, of "n - ?k"] obtain c' info' h' where
      r: "write_segments L opt segs (n - ?k) (info\<lparr>ctx := Some c1, file_size := u64 (file_size info + ?k)\<rparr>) h1 =
          Some (0, info', h')"
        "same_host h1 h'" "resized (info\<lparr>ctx := Some c1, file_size := u64 (file_size info + ?k)\<rparr>) info'"
        "fed c' = fed c1 @ take (n - ?k) (concat segs)"
        "writing produced info' h' p c'" "h_files h' = (h_files h1)(p \<mapsto> produced c')"
      by blast
    have "take n (seg @ concat segs) = take ?k seg @ take (n - ?k) (concat segs)"
      by (simp add: TRANCATE_SNAPLEN_def)
    then show ?thesis using False r o same_host_trans [OF o(2) r(2)] resized_trans [OF _ r(3), of info]
      by (intro exI [of _ c'] exI [of _ info'] exI [of _ h']) (simp add: Let_def)
  qed
qed

end
