(* ===== verification/Pcap_Round.thy ===== *)
theory Pcap_Round
  imports Pcap_Format
begin

text \<open>
  The round trip of a capture of spp_pcap: what INIT_MODE, any number of packets and CLOSE_MODE leave in
  the file system reads as the packets.
\<close>

section \<open>Opening a file\<close>

text \<open>The fields that opening a file sets.\<close>

definition reopened :: "'c pcap_mng_info \<Rightarrow> 'c pcap_mng_info \<Rightarrow> bool" where
  "reopened info info' \<longleftrightarrow> (\<exists>f c z. info' = info\<lparr>compress_fp := f, ctx := c, file_size := z\<rparr>)"

lemma reopened_names: "reopened info info' \<Longrightarrow> compress_file_name info' = compress_file_name info \<and>
    file_no info' = file_no info \<and> thread_no info' = thread_no info"
  by (auto simp: reopened_def)

lemma resized_names: "resized info info' \<Longrightarrow> compress_file_name info' = compress_file_name info \<and>
    file_no info' = file_no info \<and> thread_no info' = thread_no info \<and> compress_fp info' = compress_fp info"
  by (auto simp: resized_def)

lemma open_writes:
  fixes opt :: pcap_option
  assumes L: "no_failure L" "lz4_laws L fed produced decode" and b: "buffer_ok info h"
  defines "p \<equiv> temp_file opt (compress_file_name info)"
  obtains c info' h' where "open_capture_file L opt info h = Some (0, info', h')" and "reopened info info'"
    and "fed c = pcap_file_header" and "writing produced info' h' p c" and "h_files h' = (h_files h)(p \<mapsto> produced c)"
proof -
  define h1 where "h1 = called h\<lparr>h_files := (h_files h)(p \<mapsto> []), h_streams := (h_streams h)(h_next h \<mapsto> p),
    h_next := h_next h + 1\<rparr>"
  have o: "fopen L p h = (Some (h_next h), h1)" using L(1) by (simp add: fopen_def h1_def called_def)
  define i1 where "i1 = info\<lparr>compress_fp := Some (h_next h)\<rparr>"
  have "h_blocks h1 = h_blocks h" by (simp add: h1_def called_def)
  from buffer_blocks [OF this, of info] b have "buffer_ok info h1" by (rule iffD2)
  then have b1: "buffer_ok i1 h1" unfolding i1_def buffer_fields .
  obtain c0 where c0: "LZ4F_createCompressionContext L (h_calls h1) = Some c0" using lz4_create [OF L(1)] by blast
  obtain bs c1 where c1: "LZ4F_compressBegin L c0 (outbuf_capacity info) = (Some bs, c1)" "fed c1 = []" "produced c1 = bs"
    using lz4_begin [OF L] by metis
  define i2 where "i2 = i1\<lparr>ctx := Some c1\<rparr>"
  have "h_streams (called h1) (h_next h) = Some p" "h_files (called h1) p = Some []"
    by (simp_all add: h1_def called_def)
  from output_writes [OF L(1) this, of bs]
  obtain h2 where h2: "output_pcap_file L (Some (h_next h)) bs (called h1) = Some (0, h2)" "same_host (called h1) h2"
      "h_files h2 = (h_files (called h1))(p \<mapsto> bs)" by auto
  have "writing produced (i2\<lparr>file_size := length bs\<rparr>) h2 p c1"
    using b1 h2(2,3) c1(3) buffer_moved [OF same_host_trans [OF called_same h2(2)], of i1]
    by (auto simp: writing_def i2_def i1_def same_host_def h1_def called_def)
  from lz4_output_writes [OF L this, of pcap_file_header]
  obtain c' h' where r: "output_lz4_pcap_file L (i2\<lparr>file_size := length bs\<rparr>) pcap_file_header h2 =
        Some (0, i2\<lparr>file_size := length bs, ctx := Some c'\<rparr>, h')"
      "fed c' = fed c1 @ pcap_file_header" "writing produced (i2\<lparr>file_size := length bs, ctx := Some c'\<rparr>) h' p c'"
      "h_files h' = (h_files h2)(p \<mapsto> produced c')" by blast
  have "open_capture_file L opt info h = Some (0, i2\<lparr>file_size := length bs, ctx := Some c'\<rparr>, h')"
    using o c0 c1(1) b1 h2(1) r(1) by (simp add: open_capture_file_def p_def i2_def i1_def)
  moreover have "reopened info (i2\<lparr>file_size := length bs, ctx := Some c'\<rparr>)"
    unfolding reopened_def i2_def i1_def
    by (intro exI [of _ "Some (h_next h)"] exI [of _ "Some c'"] exI [of _ "length bs"]) simp
  moreover have "h_files h' = (h_files h)(p \<mapsto> produced c')"
    using r(4) h2(3) by (simp add: h1_def called_def)
  ultimately show ?thesis using that c1(2) r(2,3) by (metis append_Nil)
qed

section \<open>A capture\<close>

text \<open>The files that are complete: the k-th has the packets of the k-th part.\<close>

definition saved ::
  "pcap_option \<Rightarrow> int \<Rightarrow> (byte list \<Rightarrow> byte list option) \<Rightarrow> host \<Rightarrow> cap_pkt list list \<Rightarrow> bool" where
  "saved opt thread decode h parts \<longleftrightarrow>
    (\<forall>k<length parts. \<exists>d bs. h_files h (save_file opt (capture_file_name opt thread (int k + 1))) = Some d \<and>
       decode d = Some bs \<and> parse_pcap bs = Some (List.map captured (parts ! k)))"

definition capturing ::
  "pcap_option \<Rightarrow> ('c \<Rightarrow> byte list) \<Rightarrow> ('c \<Rightarrow> byte list) \<Rightarrow> (byte list \<Rightarrow> byte list option) \<Rightarrow>
   'c pcap_mng_info \<Rightarrow> host \<Rightarrow> cap_pkt list list \<Rightarrow> ((int \<times> int) \<times> cap_pkt) list \<Rightarrow> bool" where
  "capturing opt fed produced decode info h full cur \<longleftrightarrow>
    (\<exists>c. writing produced info h (temp_file opt (compress_file_name info)) c \<and> fed c = file_bytes cur) \<and>
    file_no info = int (length full) + 1 \<and>
    compress_file_name info = capture_file_name opt (thread_no info) (file_no info) \<and>
    saved opt (thread_no info) decode h full \<and> (\<forall>(t, p) \<in> set cur. pkt_ok p)"

lemma saved_moved:
  assumes "saved opt thread decode h parts"
    and "\<And>k. k < length parts \<Longrightarrow>
      h_files h' (save_file opt (capture_file_name opt thread (int k + 1))) =
      h_files h (save_file opt (capture_file_name opt thread (int k + 1)))"
  shows "saved opt thread decode h' parts"
  using assms by (simp add: saved_def)

lemma saved_snoc:
  assumes "saved opt thread decode h parts"
    and "h_files h (save_file opt (capture_file_name opt thread (int (length parts) + 1))) = Some d"
    and "decode d = Some bs" and "parse_pcap bs = Some (List.map captured part)"
  shows "saved opt thread decode h (parts @ [part])"
  using assms by (auto simp: saved_def nth_append less_Suc_eq)

text \<open>A temporary file is none of the files that are kept, and these are different.\<close>

lemma temp_save_differ:
  assumes "names_ok opt thread" and "0 \<le> i" and "i < 2 ^ 32" and "0 \<le> j" and "j < 2 ^ 32"
  shows "save_file opt (capture_file_name opt thread i) \<noteq> temp_file opt (capture_file_name opt thread j)"
  using names_fit(2) [OF assms(1-3)] names_fit(3) [OF assms(1,4,5)]
    temp_not_saved [of "compress_file_path opt @ ''/''" opt thread j i] by simp

lemma saves_differ:
  assumes "names_ok opt thread" and "0 \<le> i" and "i < 2 ^ 32" and "0 \<le> j" and "j < 2 ^ 32" and "i \<noteq> j"
  shows "save_file opt (capture_file_name opt thread i) \<noteq> save_file opt (capture_file_name opt thread j)"
  using names_fit(2) [OF assms(1-3)] names_fit(2) [OF assms(1,4,5)] file_names_inj [OF assms(2-5)] assms(6) by auto

text \<open>The file is ended: its temporary file gets its final name.\<close>

lemma end_file:
  assumes L: "no_failure L" "lz4_laws L fed produced decode" and w: "writing produced info h p c"
    and ne: "s \<noteq> p"
  obtains bs c' h1 h2 where "LZ4F_compressEnd L c (outbuf_capacity info) = (Some bs, c')"
    and "output_pcap_file L (compress_fp info) bs h = Some (0, h1)" and "fclose L (compress_fp info) h1 = Some h2"
    and "h_files (rename L p s h2) = (h_files h)(p := None, s \<mapsto> produced c @ bs)"
    and "decode (produced c @ bs) = Some (fed c)" and "h_blocks (rename L p s h2) = h_blocks h"
proof -
  obtain bs c' where e: "LZ4F_compressEnd L c (outbuf_capacity info) = (Some bs, c')"
      "decode (produced c @ bs) = Some (fed c)" using lz4_end [OF L] by metis
  obtain f where f: "compress_fp info = Some f" "h_streams h f = Some p" "h_files h p = Some (produced c)"
    using w by (auto simp: writing_def)
  obtain h1 where h1: "output_pcap_file L (Some f) bs h = Some (0, h1)" "same_host h h1"
      "h_files h1 = (h_files h)(p \<mapsto> produced c @ bs)" using output_writes [OF L(1) f(2,3)] by metis
  define h2 where "h2 = called h1\<lparr>h_streams := (h_streams h1)(f := None)\<rparr>"
  have "fclose L (Some f) h1 = Some h2"
    using f(2) h1(2) L(1) by (simp add: fclose_def h2_def Let_def same_host_def)
  moreover have "h_files (rename L p s h2) = (h_files h)(p := None, s \<mapsto> produced c @ bs)"
      "h_blocks (rename L p s h2) = h_blocks h"
    using L(1) h1(2,3) ne by (auto simp: rename_def h2_def called_def same_host_def)
  ultimately show ?thesis using that e f(1) h1(1) by metis
qed

text \<open>The complete files after the current one was renamed; a later file only touches its temporary path.\<close>

lemma saved_after_rename:
  assumes N: "names_ok opt thread" and n: "int (length full) + 1 < 2 ^ 32"
    and s: "saved opt thread decode h full" and d: "decode d = Some (file_bytes cur)"
    and cur: "\<forall>(t, p) \<in> set cur. pkt_ok p"
    and files: "h_files h' = (h_files h)(temp_file opt (capture_file_name opt thread (int (length full) + 1)) := None,
      save_file opt (capture_file_name opt thread (int (length full) + 1)) \<mapsto> d)"
  shows "saved opt thread decode h' (full @ [List.map snd cur])"
proof (rule saved_snoc)
  show "saved opt thread decode h' full"
  proof (rule saved_moved [OF s])
    fix k assume k: "k < length full"
    show "h_files h' (save_file opt (capture_file_name opt thread (int k + 1))) =
        h_files h (save_file opt (capture_file_name opt thread (int k + 1)))"
      using temp_save_differ [OF N, of "int k + 1" "int (length full) + 1"]
        saves_differ [OF N, of "int k + 1" "int (length full) + 1"] k n by (simp add: files)
  qed
  show "h_files h' (save_file opt (capture_file_name opt thread (int (length full) + 1))) = Some d"
    by (simp add: files)
  show "parse_pcap (file_bytes cur) = Some (List.map captured (List.map snd cur))"
    using parse_file [OF cur] by simp
qed (rule d)

lemma saved_temp:
  assumes "names_ok opt thread" and "saved opt thread decode h parts" and "int (length parts) < 2 ^ 32"
    and "0 \<le> j" and "j < 2 ^ 32"
    and "h_files h' = (h_files h)(temp_file opt (capture_file_name opt thread j) \<mapsto> d)"
  shows "saved opt thread decode h' parts"
proof (rule saved_moved [OF assms(2)])
  fix k assume "k < length parts"
  then show "h_files h' (save_file opt (capture_file_name opt thread (int k + 1))) =
      h_files h (save_file opt (capture_file_name opt thread (int k + 1)))"
    using temp_save_differ [OF assms(1), of "int k + 1" j] assms(3-6) by simp
qed

text \<open>Beginning a capture.\<close>

lemma capture_begins:
  assumes L: "no_failure L" "lz4_laws L fed produced decode"
  obtains info' h' where "file_compression_operation L opt info INIT_MODE h = Some (0, info', h')"
    and "capturing opt fed produced decode info' h' [] []" and "thread_no info' = thread_no info"
proof -
  obtain b h1 where m: "malloc L (LZ4F_compressBound L IN_CHUNK_SIZE) h = (Some b, h1)" "b \<in> h_blocks h1"
    using L(1) by (simp add: malloc_def called_def)
  define i1 where "i1 = info\<lparr>outbuf_capacity := LZ4F_compressBound L IN_CHUNK_SIZE, outbuff := Some b, file_size := 0,
    file_no := 1, compress_file_name := capture_file_name opt (thread_no info) 1\<rparr>"
  have "buffer_ok i1 h1" using m(2) by (simp add: buffer_ok_def i1_def)
  from open_writes [OF L this, of opt]
  obtain c info' h' where o: "open_capture_file L opt i1 h1 = Some (0, info', h')" "reopened i1 info'"
      "fed c = pcap_file_header" "writing produced info' h' (temp_file opt (compress_file_name i1)) c" by metis
  have n: "thread_no info' = thread_no info" "file_no info' = 1"
      "compress_file_name info' = capture_file_name opt (thread_no info) 1" "compress_file_name i1 = compress_file_name info'"
    using reopened_names [OF o(2)] by (simp_all add: i1_def)
  have "capturing opt fed produced decode info' h' [] []"
    unfolding capturing_def using o(3,4) n by (auto simp: saved_def file_bytes_def)
  moreover have "file_compression_operation L opt info INIT_MODE h = Some (0, info', h')"
    using m(1) o(1) by (simp add: file_compression_operation_def i1_def)
  ultimately show ?thesis using that n(1) by blast
qed

text \<open>The exchange of the file.\<close>

lemma capture_rolls:
  assumes L: "no_failure L" "lz4_laws L fed produced decode" and N: "names_ok opt (thread_no info)"
    and c: "capturing opt fed produced decode info h full cur" and n: "int (length full) + 2 < 2 ^ 32"
  obtains info' h' where "file_compression_operation L opt info UPDATE_MODE h = Some (0, info', h')"
    and "capturing opt fed produced decode info' h' (full @ [List.map snd cur]) []"
    and "thread_no info' = thread_no info"
proof -
  let ?nm = "capture_file_name opt (thread_no info) (int (length full) + 1)"
  let ?nm2 = "capture_file_name opt (thread_no info) (int (length full) + 2)"
  obtain c0 where w: "writing produced info h (temp_file opt ?nm) c0" "fed c0 = file_bytes cur"
    and i: "file_no info = int (length full) + 1" "compress_file_name info = ?nm"
    and s: "saved opt (thread_no info) decode h full" and ok: "\<forall>(t, p) \<in> set cur. pkt_ok p"
    using c by (auto simp: capturing_def)
  have ne: "save_file opt ?nm \<noteq> temp_file opt ?nm"
    using temp_save_differ [OF N, of "int (length full) + 1" "int (length full) + 1"] n by simp
  obtain bs c1 h1 h2 where e: "LZ4F_compressEnd L c0 (outbuf_capacity info) = (Some bs, c1)"
      "output_pcap_file L (compress_fp info) bs h = Some (0, h1)" "fclose L (compress_fp info) h1 = Some h2"
      "h_files (rename L (temp_file opt ?nm) (save_file opt ?nm) h2) =
        (h_files h)(temp_file opt ?nm := None, save_file opt ?nm \<mapsto> produced c0 @ bs)"
      "decode (produced c0 @ bs) = Some (fed c0)"
      "h_blocks (rename L (temp_file opt ?nm) (save_file opt ?nm) h2) = h_blocks h"
    by (rule end_file [OF L w(1) ne])
  define h3 where "h3 = rename L (temp_file opt ?nm) (save_file opt ?nm) h2"
  define i2 where "i2 = info\<lparr>ctx := Some c1, compress_fp := None, file_size := 0, file_no := file_no info + 1,
    compress_file_name := capture_file_name opt (thread_no info) (file_no info + 1)\<rparr>"
  have b: "buffer_ok info h" and cx: "ctx info = Some c0" using w(1) by (simp_all add: writing_def)
  have "buffer_ok info h3" using buffer_blocks [OF e(6), of info] b by (simp add: h3_def)
  then have "buffer_ok i2 h3" by (simp add: buffer_ok_def i2_def)
  from open_writes [OF L this, of opt]
  obtain c2 info' h' where o: "open_capture_file L opt i2 h3 = Some (0, info', h')" "reopened i2 info'"
      "fed c2 = pcap_file_header" "writing produced info' h' (temp_file opt (compress_file_name i2)) c2"
      "h_files h' = (h_files h3)(temp_file opt (compress_file_name i2) \<mapsto> produced c2)" by metis
  have nm: "thread_no info' = thread_no info" "file_no info' = int (length full) + 2"
      "compress_file_name info' = ?nm2" "compress_file_name i2 = ?nm2"
    using reopened_names [OF o(2)] i(1) by (simp_all add: i2_def add.assoc)
  have "saved opt (thread_no info) decode h3 (full @ [List.map snd cur])"
    using e(4,5) n by (intro saved_after_rename [OF N _ s _ ok]) (simp_all add: w(2) h3_def)
  from saved_temp [OF N this, of "int (length full) + 2" h' "produced c2"]
  have "saved opt (thread_no info) decode h' (full @ [List.map snd cur])"
    using o(5) n by (simp add: nm(4))
  then have "capturing opt fed produced decode info' h' (full @ [List.map snd cur]) []"
    unfolding capturing_def using o(3,4) nm by (auto simp: file_bytes_def)
  moreover have "file_compression_operation L opt info UPDATE_MODE h = Some (0, info', h')"
    using cx b e(1-3) o(1) i(2) by (simp add: file_compression_operation_def h3_def i2_def)
  ultimately show ?thesis using that nm(1) by blast
qed

text \<open>A packet.\<close>

lemma capture_adds:
  assumes L: "no_failure L" "lz4_laws L fed produced decode" and N: "names_ok opt (thread_no info)"
    and c: "capturing opt fed produced decode info h full cur" and n: "int (length full) + 1 < 2 ^ 32"
    and ok: "pkt_ok pkt"
  obtains t info2 h2 info' h' where
    "output_lz4_pcap_file L info (pcap_packet_header (clock_gettime L (h_calls h))
       (TRANCATE_SNAPLEN PCAP_SNAPLEN_MAX (fst pkt)) (fst pkt)) (called h) = Some (0, info2, h2)"
    and "write_segments L opt (snd pkt) (TRANCATE_SNAPLEN PCAP_SNAPLEN_MAX (fst pkt))
       (info2\<lparr>file_size := u64 (file_size info2 + 16)\<rparr>) h2 = Some (0, info', h')"
    and "capturing opt fed produced decode info' h' full (cur @ [(t, pkt)])" and "thread_no info' = thread_no info"
proof -
  let ?p = "temp_file opt (compress_file_name info)"
  let ?n = "TRANCATE_SNAPLEN PCAP_SNAPLEN_MAX (fst pkt)"
  let ?t = "clock_gettime L (h_calls h)"
  obtain c0 where w: "writing produced info h ?p c0" "fed c0 = file_bytes cur"
    and i: "file_no info = int (length full) + 1" "compress_file_name info = capture_file_name opt (thread_no info) (file_no info)"
    and s: "saved opt (thread_no info) decode h full" and cur: "\<forall>(t, p) \<in> set cur. pkt_ok p"
    using c by (auto simp: capturing_def)
  have "writing produced info (called h) ?p c0"
    using w(1) buffer_moved [OF called_same [of h], of info] by (simp add: writing_def called_def)
  from lz4_output_writes [OF L this, of "pcap_packet_header ?t ?n (fst pkt)"]
  obtain c1 h2 where o: "output_lz4_pcap_file L info (pcap_packet_header ?t ?n (fst pkt)) (called h) =
        Some (0, info\<lparr>ctx := Some c1\<rparr>, h2)" "fed c1 = fed c0 @ pcap_packet_header ?t ?n (fst pkt)"
      "writing produced (info\<lparr>ctx := Some c1\<rparr>) h2 ?p c1" "h_files h2 = (h_files (called h))(?p \<mapsto> produced c1)"
    by blast
  let ?i2 = "info\<lparr>ctx := Some c1, file_size := u64 (file_size info + 16)\<rparr>"
  have "writing produced ?i2 h2 ?p c1" using o(3) by simp
  from write_segments_writes [OF L this, of opt "snd pkt" ?n]
  obtain c2 info' h' where r: "write_segments L opt (snd pkt) ?n ?i2 h2 = Some (0, info', h')" "resized ?i2 info'"
      "fed c2 = fed c1 @ take ?n (concat (snd pkt))" "writing produced info' h' ?p c2"
      "h_files h' = (h_files h2)(?p \<mapsto> produced c2)" by blast
  have nm: "compress_file_name info' = compress_file_name info" "file_no info' = file_no info"
      "thread_no info' = thread_no info" using resized_names [OF r(2)] by simp_all
  have "h_files h' = (h_files h)(?p \<mapsto> produced c2)" using r(5) o(4) by (simp add: called_def)
  from saved_temp [OF N s, of "file_no info" h' "produced c2"] this
  have "saved opt (thread_no info) decode h' full" using i n by simp
  moreover have "fed c2 = file_bytes (cur @ [(?t, pkt)])"
    using r(3) o(2) w(2) by (simp add: file_bytes_def record_bytes_def Let_def)
  ultimately have "capturing opt fed produced decode info' h' full (cur @ [(?t, pkt)])"
    unfolding capturing_def using r(4) nm i cur ok by auto
  then show ?thesis using that o(1) r(1) nm(3) by simp
qed

lemma capture_packet:
  assumes L: "no_failure L" "lz4_laws L fed produced decode" and N: "names_ok opt (thread_no info)"
    and c: "capturing opt fed produced decode info h full cur" and n: "int (length full) + 2 < 2 ^ 32"
    and ok: "pkt_ok pkt"
  shows "\<exists>info' h' full' cur'. compress_file_packet L opt info pkt h = Some (0, info', h') \<and>
    capturing opt fed produced decode info' h' full' cur' \<and> thread_no info' = thread_no info \<and>
    length full' \<le> length full + 1 \<and>
    concat full' @ List.map snd cur' = concat full @ List.map snd cur @ [pkt]"
proof -
  obtain info1 h1 full1 cur1 where r: "roll_file L opt info h = Some (0, info1, h1)"
      "capturing opt fed produced decode info1 h1 full1 cur1" "thread_no info1 = thread_no info"
      "length full1 \<le> length full + 1" "concat full1 @ List.map snd cur1 = concat full @ List.map snd cur"
  proof (cases "file_size info > fsize_limit opt")
    case True
    obtain info' h' where "file_compression_operation L opt info UPDATE_MODE h = Some (0, info', h')"
        "capturing opt fed produced decode info' h' (full @ [List.map snd cur]) []" "thread_no info' = thread_no info"
      by (rule capture_rolls [OF L N c n])
    then show ?thesis using True that [of info' h' "full @ [List.map snd cur]" "[]"] by (simp add: roll_file_def)
  next
    case False
    then show ?thesis using that [of info h full cur] c by (simp add: roll_file_def)
  qed
  have fp: "compress_fp info \<noteq> None" using c by (auto simp: capturing_def writing_def)
  have "names_ok opt (thread_no info1)" "int (length full1) + 1 < 2 ^ 32" using N r(3,4) n by simp_all
  from capture_adds [OF L this(1) r(2) this(2) ok]
  obtain t info2 h2 info' h' where
    a: "output_lz4_pcap_file L info1 (pcap_packet_header (clock_gettime L (h_calls h1))
         (TRANCATE_SNAPLEN PCAP_SNAPLEN_MAX (fst pkt)) (fst pkt)) (called h1) = Some (0, info2, h2)"
      "write_segments L opt (snd pkt) (TRANCATE_SNAPLEN PCAP_SNAPLEN_MAX (fst pkt))
         (info2\<lparr>file_size := u64 (file_size info2 + 16)\<rparr>) h2 = Some (0, info', h')"
      "capturing opt fed produced decode info' h' full1 (cur1 @ [(t, pkt)])" "thread_no info' = thread_no info1"
    by metis
  have "compress_file_packet L opt info pkt h = Some (0, info', h')"
    using fp r(1) a(1,2) by (auto simp: compress_file_packet_def Let_def)
  moreover have "concat full1 @ List.map snd (cur1 @ [(t, pkt)]) = concat full @ List.map snd cur @ [pkt]"
    using r(5) by simp
  ultimately show ?thesis using a(3,4) r(3,4) by metis
qed

lemma capture_burst:
  assumes L: "no_failure L" "lz4_laws L fed produced decode"
  shows "names_ok opt (thread_no info) \<Longrightarrow> capturing opt fed produced decode info h full cur \<Longrightarrow>
    int (length full + length pkts) + 1 < 2 ^ 32 \<Longrightarrow> \<forall>p\<in>set pkts. pkt_ok p \<Longrightarrow>
    \<exists>info' h' full' cur'. write_burst L opt pkts info h = Some (0, info', h') \<and>
      capturing opt fed produced decode info' h' full' cur' \<and> thread_no info' = thread_no info \<and>
      length full' \<le> length full + length pkts \<and>
      concat full' @ List.map snd cur' = concat full @ List.map snd cur @ pkts"
proof (induction pkts arbitrary: info h full cur)
  case Nil
  then show ?case by auto
next
  case (Cons pkt pkts)
  have "int (length full) + 2 < 2 ^ 32" "pkt_ok pkt" using Cons.prems(3,4) by simp_all
  from capture_packet [OF L Cons.prems(1,2) this]
  obtain info1 h1 full1 cur1 where p: "compress_file_packet L opt info pkt h = Some (0, info1, h1)"
      "capturing opt fed produced decode info1 h1 full1 cur1" "thread_no info1 = thread_no info"
      "length full1 \<le> length full + 1" "concat full1 @ List.map snd cur1 = concat full @ List.map snd cur @ [pkt]" by blast
  from Cons.IH [OF _ p(2)] Cons.prems p(3,4)
  obtain info' h' full' cur' where q: "write_burst L opt pkts info1 h1 = Some (0, info', h')"
      "capturing opt fed produced decode info' h' full' cur'" "thread_no info' = thread_no info"
      "length full' \<le> length full1 + length pkts"
      "concat full' @ List.map snd cur' = concat full1 @ List.map snd cur1 @ pkts" by auto
  have "concat full' @ List.map snd cur' = concat full @ List.map snd cur @ pkt # pkts"
    using q(5) p(5) by (metis append.assoc append_Cons append_Nil)
  then show ?case using p(1,4) q(1-4) by fastforce
qed

text \<open>The end of a capture.\<close>

lemma capture_ends:
  assumes L: "no_failure L" "lz4_laws L fed produced decode" and N: "names_ok opt (thread_no info)"
    and c: "capturing opt fed produced decode info h full cur" and n: "int (length full) + 1 < 2 ^ 32"
  obtains info' h' where "file_compression_operation L opt info CLOSE_MODE h = Some (0, info', h')"
    and "saved opt (thread_no info) decode h' (full @ [List.map snd cur])" and "compress_fp info' = None"
    and "file_no info' = int (length full) + 1"
proof -
  let ?nm = "capture_file_name opt (thread_no info) (int (length full) + 1)"
  obtain c0 where w: "writing produced info h (temp_file opt ?nm) c0" "fed c0 = file_bytes cur"
    and i: "file_no info = int (length full) + 1" "compress_file_name info = ?nm"
    and s: "saved opt (thread_no info) decode h full" and ok: "\<forall>(t, p) \<in> set cur. pkt_ok p"
    using c by (auto simp: capturing_def)
  have ne: "save_file opt ?nm \<noteq> temp_file opt ?nm"
    using temp_save_differ [OF N, of "int (length full) + 1" "int (length full) + 1"] n by simp
  obtain bs c1 h1 h2 where e: "LZ4F_compressEnd L c0 (outbuf_capacity info) = (Some bs, c1)"
      "output_pcap_file L (compress_fp info) bs h = Some (0, h1)" "fclose L (compress_fp info) h1 = Some h2"
      "h_files (rename L (temp_file opt ?nm) (save_file opt ?nm) h2) =
        (h_files h)(temp_file opt ?nm := None, save_file opt ?nm \<mapsto> produced c0 @ bs)"
      "decode (produced c0 @ bs) = Some (fed c0)"
      "h_blocks (rename L (temp_file opt ?nm) (save_file opt ?nm) h2) = h_blocks h"
    by (rule end_file [OF L w(1) ne])
  define h3 where "h3 = rename L (temp_file opt ?nm) (save_file opt ?nm) h2"
  have b: "buffer_ok info h" and cx: "ctx info = Some c0" and fp: "compress_fp info \<noteq> None"
    using w(1) by (auto simp: writing_def)
  then obtain a where a: "outbuff info = Some a" "a \<in> h_blocks h3"
    using e(6) by (auto simp: buffer_ok_def h3_def split: option.splits)
  define h4 where "h4 = h3\<lparr>h_blocks := h_blocks h3 - {a}\<rparr>"
  have "file_compression_operation L opt info CLOSE_MODE h =
      Some (0, info\<lparr>ctx := Some c1, file_size := u64 (file_size info + length bs), compress_fp := None\<rparr>, h4)"
    using fp cx b e(1-3) a i(2) by (auto simp: file_compression_operation_def h3_def h4_def free_def Let_def)
  moreover have "saved opt (thread_no info) decode h4 (full @ [List.map snd cur])"
    using e(4,5) n by (intro saved_after_rename [OF N _ s _ ok]) (simp_all add: w(2) h3_def h4_def)
  ultimately show ?thesis using that i(1) by simp
qed

section \<open>The round trip\<close>

text \<open>C25: A capture loses nothing: when no call fails, a writer that begins a capture, is given any
  packets and ends it leaves one file for each file number; each of these, decompressed, is a
  pcap file, and reading the files in the order of their numbers gives all packets in order, each
  with its length and its first 65535 bytes, wherever the size limit has split them.\<close>
theorem capture_round_trip:
  assumes "no_failure L" and "lz4_laws L fed produced decode" and "names_ok opt (thread_no info)"
    and "\<forall>p\<in>set pkts. pkt_ok p" and "length pkts < 2 ^ 31"
  shows "\<exists>info1 h1 info2 h2 info3 h3 parts.
    file_compression_operation L opt info INIT_MODE h = Some (0, info1, h1) \<and>
    write_burst L opt pkts info1 h1 = Some (0, info2, h2) \<and>
    file_compression_operation L opt info2 CLOSE_MODE h2 = Some (0, info3, h3) \<and>
    concat parts = pkts \<and> file_no info3 = int (length parts) \<and>
    (\<forall>k<length parts. \<exists>d bs.
       h_files h3 (save_file opt (capture_file_name opt (thread_no info) (int k + 1))) = Some d \<and>
       decode d = Some bs \<and> parse_pcap bs = Some (List.map captured (parts ! k)))"
proof -
  note L = assms(1,2)
  obtain info1 h1 where b: "file_compression_operation L opt info INIT_MODE h = Some (0, info1, h1)"
      "capturing opt fed produced decode info1 h1 [] []" "thread_no info1 = thread_no info"
    by (rule capture_begins [OF L])
  have "names_ok opt (thread_no info1)" using assms(3) b(3) by simp
  from capture_burst [OF L this b(2), of pkts] assms(4,5)
  obtain info2 h2 full cur where w: "write_burst L opt pkts info1 h1 = Some (0, info2, h2)"
      "capturing opt fed produced decode info2 h2 full cur" "thread_no info2 = thread_no info"
      "length full \<le> length pkts" "concat full @ List.map snd cur = pkts" by (auto simp: b(3))
  have "names_ok opt (thread_no info2)" "int (length full) + 1 < 2 ^ 32" using assms(3,5) w(3,4) by simp_all
  from capture_ends [OF L this(1) w(2) this(2)]
  obtain info3 h3 where e: "file_compression_operation L opt info2 CLOSE_MODE h2 = Some (0, info3, h3)"
      "saved opt (thread_no info2) decode h3 (full @ [List.map snd cur])" "file_no info3 = int (length full) + 1" by metis
  have "concat (full @ [List.map snd cur]) = pkts" using w(5) by simp
  then show ?thesis
    using b(1) w(1,3) e unfolding saved_def
    by (intro exI [of _ info1] exI [of _ h1] exI [of _ info2] exI [of _ h2] exI [of _ info3] exI [of _ h3]
        exI [of _ "full @ [List.map snd cur]"]) simp
qed

end
