(* ===== verification/Pcap_Capture.thy ===== *)
theory Pcap_Capture
  imports Pcap_File Spp_Port
begin

text \<open>
  pcap/spp_pcap.c and pcap/spp_proc.c: the worker threads of spp_pcap.  One thread receives packets
  from the captured port and puts them into a ring, the others take them from the ring and write
  them to their files.  They communicate by the request and the status of the capture and by the
  count of the threads that have started.

  The ring of DPDK and the chains of mbufs are the argument R, beside the calls on packets (D) and
  the C library (L).  A thread is modelled by the iterations of its loop: one iteration is one step.
\<close>

section \<open>State\<close>

record 'w ring_ops =
  rte_ring_enqueue_burst :: "nat list \<Rightarrow> 'w \<Rightarrow> nat \<times> 'w"
  rte_ring_mc_dequeue_burst :: "nat \<Rightarrow> 'w \<Rightarrow> nat list \<times> 'w"
  rte_pktmbuf_pkt_len :: "'w \<Rightarrow> nat \<Rightarrow> nat"
  mbuf_chain :: "'w \<Rightarrow> nat \<Rightarrow> nat list"

definition MAX_PCAP_BURST :: nat where "MAX_PCAP_BURST = 256"

record pcap_startup =
  pst_client_id :: int
  pst_server_ip :: string
  pst_server_port :: int

record pcap_iface =
  pif_num_nic :: int
  pif_num_ring :: int
  pif_nic :: "spp_port_info list"
  pif_ring :: "spp_port_info list"

record 'c pcap_data =
  g_pcap_startup :: pcap_startup
  g_pcap_iface :: pcap_iface
  g_pcap_core :: "spp_core_status list"
  g_capture_request :: spp_capture_status
  g_capture_status :: spp_capture_status
  thread_cnt :: int
  start_up_cnt :: int
  g_pcap_option :: pcap_option
  g_pcap_info :: "'c pcap_mng_info list"
  total_rx :: int
  total_drop :: int
  g_total_write :: "int list"
  pc_host :: host

text \<open>A packet as the writer sees it: the length in its first mbuf and the data of the chain.\<close>

definition pkt_of :: "'w dpdk \<Rightarrow> 'w ring_ops \<Rightarrow> 'w \<Rightarrow> nat \<Rightarrow> cap_pkt" where
  "pkt_of D R w i = (rte_pktmbuf_pkt_len R w i, List.map (\<lambda>j. frame (mbuf_load D w j)) (mbuf_chain R w i))"

definition put_info :: "int \<Rightarrow> 'c pcap_mng_info \<Rightarrow> 'c pcap_data \<Rightarrow> 'c pcap_data option" where
  "put_info lcore info s = do { infos \<leftarrow> wr (g_pcap_info s) lcore info; Some (s\<lparr>g_pcap_info := infos\<rparr>) }"

text \<open>The guarded decrement of the count of started threads.\<close>

definition one_less :: "'c pcap_data \<Rightarrow> 'c pcap_data" where
  "one_less s = (if start_up_cnt s \<noteq> 0 then s\<lparr>start_up_cnt := start_up_cnt s - 1\<rparr> else s)"

section \<open>The receiver\<close>

text \<open>stamp is the local time in the format of the file names (localtime_r and strftime).\<close>

definition pcap_proc_receive ::
  "'w dpdk \<Rightarrow> 'w ring_ops \<Rightarrow> 'z port_data_scheme \<Rightarrow> 'c lib \<Rightarrow> (int \<times> int \<Rightarrow> string) \<Rightarrow> int \<Rightarrow>
   'c pcap_data \<Rightarrow> 'w \<Rightarrow> (int \<times> 'c pcap_data \<times> 'w) option" where
  "pcap_proc_receive D R P L stamp lcore s w = do {
     info \<leftarrow> rd (g_pcap_info s) lcore;
     if g_capture_request s = SPP_CAPTURE_IDLE
     then (if cap_status info = SPP_CAPTURE_RUNNING
       then do {
         s1 \<leftarrow> put_info lcore (info\<lparr>cap_status := SPP_CAPTURE_IDLE\<rparr>) s;
         Some (SPP_RET_OK, one_less (s1\<lparr>g_capture_status := SPP_CAPTURE_IDLE\<rparr>), w)
       }
       else Some (SPP_RET_OK, s, w))
     else do {
       s1 \<leftarrow> (if cap_status info = SPP_CAPTURE_IDLE
         then do {
           s' \<leftarrow> put_info lcore (info\<lparr>cap_status := SPP_CAPTURE_RUNNING\<rparr>) s;
           Some (s'\<lparr>g_pcap_option := (g_pcap_option s)
               \<lparr>compress_file_date := stamp (clock_gettime L (h_calls (pc_host s)))\<rparr>,
             pc_host := called (pc_host s), g_capture_status := SPP_CAPTURE_RUNNING,
             start_up_cnt := start_up_cnt s + 1, total_rx := 0, total_drop := 0\<rparr>)
         }
         else Some s);
       if thread_cnt s1 > start_up_cnt s1 then Some (SPP_RET_OK, s1, w)
       else do {
         (bufs, nb_rx, w1) \<leftarrow> spp_eth_rx_burst D P (dpdk_port (port_cap (g_pcap_option s1))) MAX_PCAP_BURST w;
         if nb_rx = 0 then Some (SPP_RET_OK, s1, w1)
         else do {
           let (nb_tx, w2) = rte_ring_enqueue_burst R (take nb_rx bufs) w1;
           w3 \<leftarrow> free_packets D (drop nb_tx (take nb_rx bufs)) w2;
           Some (SPP_RET_OK, s1\<lparr>total_rx := total_rx s1 + int nb_rx,
             total_drop := total_drop s1 + (int nb_rx - int nb_tx)\<rparr>, w3)
         }
       }
     }
   }"

section \<open>A writer\<close>

text \<open>The start of a writer when a capture runs.\<close>

definition pcap_write_start ::
  "'c lib \<Rightarrow> int \<Rightarrow> 'c pcap_data \<Rightarrow> (int \<times> 'c pcap_data) option" where
  "pcap_write_start L lcore s = do {
     info \<leftarrow> rd (g_pcap_info s) lcore;
     if cap_status info = SPP_CAPTURE_IDLE
     then do {
       (ret, info1, h) \<leftarrow> file_compression_operation L (g_pcap_option s)
         (info\<lparr>cap_status := SPP_CAPTURE_RUNNING\<rparr>) INIT_MODE (pc_host s);
       if ret \<noteq> SPP_RET_OK
       then do {
         s1 \<leftarrow> put_info lcore (info1\<lparr>cap_status := SPP_CAPTURE_IDLE\<rparr>) s;
         Some (SPP_RET_NG, s1\<lparr>pc_host := h\<rparr>)
       }
       else do {
         s1 \<leftarrow> put_info lcore info1 s;
         totals \<leftarrow> wr (g_total_write s) lcore 0;
         Some (SPP_RET_OK, s1\<lparr>pc_host := h, start_up_cnt := start_up_cnt s + 1, g_total_write := totals\<rparr>)
       }
     }
     else Some (SPP_RET_OK, s)
   }"

text \<open>The end of a writer that finds the ring empty when the capture is over.\<close>

definition pcap_write_stop ::
  "'c lib \<Rightarrow> int \<Rightarrow> 'c pcap_data \<Rightarrow> (int \<times> 'c pcap_data) option" where
  "pcap_write_stop L lcore s = do {
     info \<leftarrow> rd (g_pcap_info s) lcore;
     (ret, info1, h) \<leftarrow> file_compression_operation L (g_pcap_option s)
       (info\<lparr>cap_status := SPP_CAPTURE_IDLE\<rparr>) CLOSE_MODE (pc_host s);
     s1 \<leftarrow> put_info lcore info1 s;
     Some (if ret \<noteq> SPP_RET_OK then SPP_RET_NG else SPP_RET_OK, one_less (s1\<lparr>pc_host := h\<rparr>))
   }"

definition pcap_proc_write ::
  "'w dpdk \<Rightarrow> 'w ring_ops \<Rightarrow> 'c lib \<Rightarrow> int \<Rightarrow> 'c pcap_data \<Rightarrow> 'w \<Rightarrow> (int \<times> 'c pcap_data \<times> 'w) option" where
  "pcap_proc_write D R L lcore s w = do {
     info \<leftarrow> rd (g_pcap_info s) lcore;
     if g_capture_status s = SPP_CAPTURE_IDLE \<and> cap_status info = SPP_CAPTURE_IDLE then Some (SPP_RET_OK, s, w)
     else do {
       (ret, s1) \<leftarrow> pcap_write_start L lcore s;
       if ret \<noteq> SPP_RET_OK then Some (SPP_RET_NG, s1, w)
       else do {
         let (bufs, w1) = rte_ring_mc_dequeue_burst R MAX_PCAP_BURST w;
         if bufs = []
         then (if g_capture_status s1 = SPP_CAPTURE_IDLE
           then do { (ret2, s2) \<leftarrow> pcap_write_stop L lcore s1; Some (ret2, s2, w1) }
           else Some (SPP_RET_OK, s1, w1))
         else do {
           info1 \<leftarrow> rd (g_pcap_info s1) lcore;
           (ret2, info2, h) \<leftarrow> write_burst L (g_pcap_option s1) (List.map (pkt_of D R w1) bufs) info1 (pc_host s1);
           s2 \<leftarrow> put_info lcore info2 s1;
           w2 \<leftarrow> free_packets D bufs w1;
           total \<leftarrow> rd (g_total_write s1) lcore;
           totals \<leftarrow> wr (g_total_write s1) lcore (total + int (length bufs));
           Some (ret2, s2\<lparr>pc_host := h, g_total_write := totals\<rparr>, w2)
         }
       }
     }
   }"

section \<open>The loop of a thread\<close>

definition set_pcap_core :: "int \<Rightarrow> spp_core_status \<Rightarrow> 'c pcap_data \<Rightarrow> 'c pcap_data option" where
  "set_pcap_core lcore st s = do { cs \<leftarrow> wr (g_pcap_core s) lcore st; Some (s\<lparr>g_pcap_core := cs\<rparr>) }"

text \<open>What slave_main does before its loop: the thread with number 0 receives.\<close>

definition pcap_slave_start :: "int \<Rightarrow> 'c pcap_data \<Rightarrow> 'c pcap_data option" where
  "pcap_slave_start lcore s = do {
     info \<leftarrow> rd (g_pcap_info s) lcore;
     s1 \<leftarrow> put_info lcore (info\<lparr>thread_type := if thread_no info = 0 then PCAP_RECEIVE else PCAP_WRITE\<rparr>) s;
     set_pcap_core lcore SPP_CORE_IDLE s1
   }"

text \<open>One iteration; the result Some ret is the end of the thread.\<close>

definition pcap_slave_turn ::
  "'w dpdk \<Rightarrow> 'w ring_ops \<Rightarrow> 'z port_data_scheme \<Rightarrow> 'c lib \<Rightarrow> (int \<times> int \<Rightarrow> string) \<Rightarrow> int \<Rightarrow>
   'c pcap_data \<Rightarrow> 'w \<Rightarrow> (int option \<times> 'c pcap_data \<times> 'w) option" where
  "pcap_slave_turn D R P L stamp lcore s w = do {
     st \<leftarrow> rd (g_pcap_core s) lcore;
     info \<leftarrow> rd (g_pcap_info s) lcore;
     if st = SPP_CORE_STOP_REQUEST \<and> cap_status info = SPP_CAPTURE_IDLE
     then do { s1 \<leftarrow> set_pcap_core lcore SPP_CORE_STOP s; Some (Some SPP_RET_OK, s1, w) }
     else do {
       let s0 = (if st = SPP_CORE_STOP_REQUEST \<and> thread_type info = PCAP_RECEIVE
         then s\<lparr>g_capture_request := SPP_CAPTURE_IDLE\<rparr> else s);
       (ret, s1, w1) \<leftarrow> (if thread_type info = PCAP_RECEIVE then pcap_proc_receive D R P L stamp lcore s0 w
         else pcap_proc_write D R L lcore s0 w);
       if ret \<noteq> SPP_RET_OK
       then do { s2 \<leftarrow> set_pcap_core lcore SPP_CORE_STOP s1; Some (Some ret, s2, w1) }
       else Some (None, s1, w1)
     }
   }"

text \<open>A signal, or the end of the loop of the main thread: every worker and the main thread are asked
  to stop.\<close>

fun set_all_pcap_cores :: "int list \<Rightarrow> spp_core_status \<Rightarrow> 'c pcap_data \<Rightarrow> 'c pcap_data option" where
  "set_all_pcap_cores [] st s = Some s"
| "set_all_pcap_cores (l # ls) st s = do { s1 \<leftarrow> set_pcap_core l st s; set_all_pcap_cores ls st s1 }"

definition pcap_stop_process :: "int \<Rightarrow> int list \<Rightarrow> bool \<Rightarrow> 'c pcap_data \<Rightarrow> 'c pcap_data option" where
  "pcap_stop_process main_lcore slaves is_term_or_int s =
    (if \<not> is_term_or_int then Some s
     else do {
       s1 \<leftarrow> set_pcap_core main_lcore SPP_CORE_STOP_REQUEST s;
       set_all_pcap_cores slaves SPP_CORE_STOP_REQUEST s1
     })"

section \<open>Status of a core\<close>

text \<open>The string of the role and the name of the file are uninitialised for a thread that has not
  started (None).  A writer has the path of its open file, without the suffix of the temporary.\<close>

definition spp_pcap_get_core_status ::
  "'c pcap_data \<Rightarrow> int \<Rightarrow> (int \<Rightarrow> string \<Rightarrow> string \<Rightarrow> spp_port_index list \<Rightarrow> 'o \<Rightarrow> (int \<times> 'o) option) \<Rightarrow>
   'o \<Rightarrow> (int \<times> 'o) option" where
  "spp_pcap_get_core_status s lcore element_proc out = do {
     info \<leftarrow> rd (g_pcap_info s) lcore;
     let opt = g_pcap_option s;
     (nm, role, ports) \<leftarrow> (case thread_type info of
        PCAP_RECEIVE \<Rightarrow> Some ([], ''receive'',
          [\<lparr>pi_iface_type = iface_type (port_cap opt), pi_iface_no = iface_no (port_cap opt)\<rparr>])
      | PCAP_WRITE \<Rightarrow> Some (if compress_fp info \<noteq> None
          then snprintf_buf (PCAP_FPATH_STRLEN + 16 - 1) (compress_file_path opt @ ''/'' @ compress_file_name info)
          else [], ''write'', [])
      | PCAP_UNUSE \<Rightarrow> None);
     (ret, out') \<leftarrow> element_proc lcore nm role ports out;
     Some (if ret \<noteq> 0 then SPP_RET_NG else SPP_RET_OK, out')
   }"

end
