(* ===== verification/Pcap_Inv.thy ===== *)
theory Pcap_Inv
  imports Pcap_Safe Pcap_Capture
begin

text \<open>
  The invariant of the threads of spp_pcap: who owns which stream, buffer and packet, what the
  count of started threads counts, and why nothing is left in the ring when a capture is over.
\<close>

section \<open>Assumptions\<close>

text \<open>The ring is a queue, queued w has the packets in it; they stay references of the application.
  The other calls on packets do not touch it.\<close>

definition ring_laws ::
  "'w dpdk \<Rightarrow> 'w ring_ops \<Rightarrow> ('w \<Rightarrow> nat multiset) \<Rightarrow> ('w \<Rightarrow> nat list) \<Rightarrow> bool" where
  "ring_laws D R held queued \<longleftrightarrow>
    (\<forall>ids w k w'. rte_ring_enqueue_burst R ids w = (k, w') \<longrightarrow>
       k \<le> length ids \<and> queued w' = queued w @ take k ids \<and> held w' = held w) \<and>
    (\<forall>n w ids w'. rte_ring_mc_dequeue_burst R n w = (ids, w') \<longrightarrow>
       ids = take n (queued w) \<and> queued w' = drop n (queued w) \<and> held w' = held w) \<and>
    (\<forall>p n w. queued (snd (rte_eth_rx_burst D p n w)) = queued w) \<and>
    (\<forall>i w w'. rte_pktmbuf_free D i w = Some w' \<longrightarrow> queued w' = queued w)"

lemma ring_enqueue: "ring_laws D R held queued \<Longrightarrow> rte_ring_enqueue_burst R ids w = (k, w') \<Longrightarrow>
    k \<le> length ids \<and> queued w' = queued w @ take k ids \<and> held w' = held w"
  unfolding ring_laws_def by blast

lemma ring_dequeue: "ring_laws D R held queued \<Longrightarrow> rte_ring_mc_dequeue_burst R n w = (ids, w') \<Longrightarrow>
    ids = take n (queued w) \<and> queued w' = drop n (queued w) \<and> held w' = held w"
  unfolding ring_laws_def by blast

lemma ring_rx: "ring_laws D R held queued \<Longrightarrow> rte_eth_rx_burst D p n w = (ids, w') \<Longrightarrow> queued w' = queued w"
  unfolding ring_laws_def by (metis snd_conv)

lemma ring_free: "ring_laws D R held queued \<Longrightarrow> free_packets D ids w = Some w' \<Longrightarrow> queued w' = queued w"
proof (induction ids arbitrary: w)
  case (Cons i ids)
  then obtain w1 where w1: "rte_pktmbuf_free D i w = Some w1" "free_packets D ids w1 = Some w'"
    by (auto simp: bind_Some_iff)
  have "queued w1 = queued w" using Cons.prems(1) w1(1) unfolding ring_laws_def by blast
  then show ?case using Cons.IH [OF Cons.prems(1) w1(2)] by simp
qed simp

section \<open>The files of several writers\<close>

text \<open>The streams and the blocks of the writers in M.\<close>

definition fps :: "nat set \<Rightarrow> (nat \<Rightarrow> 'c pcap_mng_info) \<Rightarrow> nat set" where
  "fps M I = {f. \<exists>l\<in>M. compress_fp (I l) = Some f}"

definition bufs_of :: "nat set \<Rightarrow> (nat \<Rightarrow> 'c pcap_mng_info) \<Rightarrow> nat set" where
  "bufs_of M I = {b. \<exists>l\<in>M. compress_fp (I l) \<noteq> None \<and> outbuff (I l) = Some b}"

text \<open>Every open stream and every allocated block belongs to exactly one writer.\<close>

definition writers_ok :: "nat set \<Rightarrow> (nat \<Rightarrow> 'c pcap_mng_info) \<Rightarrow> host \<Rightarrow> bool" where
  "writers_ok W I h \<longleftrightarrow> host_ok h \<and> dom (h_streams h) = fps W I \<and> h_blocks h = bufs_of W I \<and>
    (\<forall>l\<in>W. compress_fp (I l) \<noteq> None \<longrightarrow> outbuff (I l) \<noteq> None \<and> ctx (I l) \<noteq> None) \<and>
    (\<forall>l\<in>W. \<forall>m\<in>W. l \<noteq> m \<longrightarrow> compress_fp (I l) \<noteq> None \<longrightarrow> compress_fp (I m) \<noteq> None \<longrightarrow>
       compress_fp (I l) \<noteq> compress_fp (I m) \<and> outbuff (I l) \<noteq> outbuff (I m))"

lemma writers_distinct: "writers_ok W I h \<Longrightarrow> l \<in> W \<Longrightarrow> m \<in> W \<Longrightarrow> l \<noteq> m \<Longrightarrow>
    compress_fp (I l) \<noteq> None \<Longrightarrow> compress_fp (I m) \<noteq> None \<Longrightarrow>
    compress_fp (I l) \<noteq> compress_fp (I m) \<and> outbuff (I l) \<noteq> outbuff (I m)"
  unfolding writers_ok_def by (elim conjE) simp

definition other_streams :: "nat set \<Rightarrow> (nat \<Rightarrow> 'c pcap_mng_info) \<Rightarrow> host \<Rightarrow> nat \<Rightarrow> nat \<Rightarrow> string option" where
  "other_streams W I h l f = (if f \<in> fps (W - {l}) I then h_streams h f else None)"

lemma writer_owns:
  assumes ok: "writers_ok W I h" and l: "l \<in> W"
  shows "owned (other_streams W I h l) (bufs_of (W - {l}) I) (I l) h"
proof -
  have W: "fps W I = fps (W - {l}) I \<union> {f. compress_fp (I l) = Some f}"
      "bufs_of W I = bufs_of (W - {l}) I \<union> {b. compress_fp (I l) \<noteq> None \<and> outbuff (I l) = Some b}"
    using l by (auto simp: fps_def bufs_of_def)
  have d: "dom (h_streams h) = fps W I" "h_blocks h = bufs_of W I" "host_ok h" using ok by (simp_all add: writers_ok_def)
  show ?thesis
  proof (cases "compress_fp (I l)")
    case None
    have "h_streams h = other_streams W I h l"
      using d(1) W(1) None by (auto simp: other_streams_def fun_eq_iff domIff)
    then show ?thesis using None d W(2) by (simp add: owned_def released_def)
  next
    case (Some f)
    then obtain b c where b: "outbuff (I l) = Some b" "ctx (I l) = Some c"
      using ok l by (auto simp: writers_ok_def)
    have inj: "compress_fp (I m) \<noteq> Some f \<and> (compress_fp (I m) \<noteq> None \<longrightarrow> outbuff (I m) \<noteq> Some b)" if "m \<in> W - {l}" for m
    proof (cases "compress_fp (I m)")
      case (Some g)
      have "compress_fp (I l) \<noteq> compress_fp (I m) \<and> outbuff (I l) \<noteq> outbuff (I m)"
        using that \<open>compress_fp (I l) = Some f\<close> Some by (intro writers_distinct [OF ok l]) auto
      then show ?thesis using \<open>compress_fp (I l) = Some f\<close> b(1) by auto
    qed simp
    then have f: "f \<notin> fps (W - {l}) I" "b \<notin> bufs_of (W - {l}) I" by (auto simp: fps_def bufs_of_def)
    obtain p where p: "h_streams h f = Some p" using d(1) W(1) Some by blast
    have "h_streams h g = ((other_streams W I h l)(f \<mapsto> p)) g" for g
    proof (cases "g = f \<or> g \<in> fps (W - {l}) I")
      case True
      then show ?thesis using p f(1) by (auto simp: other_streams_def)
    next
      case False
      then have "g \<notin> dom (h_streams h)" unfolding d(1) W(1) using Some by simp
      then show ?thesis using False by (simp add: other_streams_def domIff)
    qed
    then have "h_streams h = (other_streams W I h l)(f \<mapsto> p)" by blast
    moreover have "h_blocks h = insert b (bufs_of (W - {l}) I)" using d(2) W(2) Some b(1) by auto
    ultimately have "has_file (other_streams W I h l) (bufs_of (W - {l}) I) (I l) h"
      unfolding has_file_def using Some b(1) f d(3) by (auto simp: other_streams_def)
    then show ?thesis using b(2) by (simp add: owned_def)
  qed
qed

lemma writer_steps:
  assumes ok: "writers_ok W I h" and l: "l \<in> W"
    and o: "owned (other_streams W I h l) (bufs_of (W - {l}) I) info' h'"
  shows "writers_ok W (I(l := info')) h'"
proof -
  let ?I = "I(l := info')"
  let ?S = "other_streams W I h l" and ?B = "bufs_of (W - {l}) I"
  have same: "fps (W - {l}) ?I = fps (W - {l}) I" "bufs_of (W - {l}) ?I = ?B"
    by (auto simp: fps_def bufs_of_def)
  have W: "fps W ?I = fps (W - {l}) I \<union> {f. compress_fp info' = Some f}"
      "bufs_of W ?I = ?B \<union> {b. compress_fp info' \<noteq> None \<and> outbuff info' = Some b}"
    using l by (auto simp: fps_def bufs_of_def)
  have "dom (h_streams h) = fps W I" using ok by (simp add: writers_ok_def)
  then have "dom ?S = fps (W - {l}) I"
    by (auto simp: other_streams_def dom_def fps_def split: if_splits)
  note dS = this
  have hk: "host_ok h'" using o by (auto simp: owned_def released_def has_file_def)
  have old: "compress_fp (?I m) \<noteq> None \<longrightarrow> outbuff (?I m) \<noteq> None \<and> ctx (?I m) \<noteq> None" if "m \<in> W" "m \<noteq> l" for m
    using ok that unfolding writers_ok_def by simp
  have oldinj: "compress_fp (?I m) \<noteq> compress_fp (?I n) \<and> outbuff (?I m) \<noteq> outbuff (?I n)"
    if "m \<in> W" "n \<in> W" "m \<noteq> n" "m \<noteq> l" "n \<noteq> l" "compress_fp (?I m) \<noteq> None" "compress_fp (?I n) \<noteq> None" for m n
    using writers_distinct [OF ok that(1-3)] that(4-) by simp
  show ?thesis
  proof (cases "compress_fp info'")
    case None
    then have r: "h_streams h' = ?S" "h_blocks h' = ?B" using o by (auto simp: owned_def released_def has_file_def)
    show ?thesis unfolding writers_ok_def
    proof (intro conjI ballI impI)
      show "dom (h_streams h') = fps W ?I" "h_blocks h' = bufs_of W ?I" using r dS W None by auto
      show "host_ok h'" by (rule hk)
    next
      fix m assume "m \<in> W" "compress_fp (?I m) \<noteq> None"
      then show "outbuff (?I m) \<noteq> None" "ctx (?I m) \<noteq> None" using old [of m] None by (cases "m = l"; simp)+
    next
      fix m n assume mn: "m \<in> W" "n \<in> W" "m \<noteq> n" "compress_fp (?I m) \<noteq> None" "compress_fp (?I n) \<noteq> None"
      then have "m \<noteq> l" "n \<noteq> l" using None by auto
      then show "compress_fp (?I m) \<noteq> compress_fp (?I n)" "outbuff (?I m) \<noteq> outbuff (?I n)"
        using oldinj [of m n] mn by blast+
    qed
  next
    case (Some f)
    then obtain p b where r: "outbuff info' = Some b" "?S f = None" "b \<notin> ?B" "h_streams h' = ?S(f \<mapsto> p)"
        "h_blocks h' = insert b ?B" "ctx info' \<noteq> None" using o by (auto simp: owned_def released_def has_file_def)
    have new: "compress_fp (?I m) \<noteq> Some f \<and> outbuff (?I m) \<noteq> Some b" if "m \<in> W" "m \<noteq> l" "compress_fp (?I m) \<noteq> None" for m
    proof
      show "compress_fp (?I m) \<noteq> Some f" using r(2) dS that(1,2) by (force simp: fps_def)
      show "outbuff (?I m) \<noteq> Some b"
      proof
        assume "outbuff (?I m) = Some b"
        then have "b \<in> ?B" unfolding bufs_of_def using that by (intro CollectI bexI [of _ m]) simp_all
        then show False using r(3) by simp
      qed
    qed
    show ?thesis unfolding writers_ok_def
    proof (intro conjI ballI impI)
      show "dom (h_streams h') = fps W ?I" "h_blocks h' = bufs_of W ?I" using r dS W Some by auto
      show "host_ok h'" by (rule hk)
    next
      fix m assume "m \<in> W" "compress_fp (?I m) \<noteq> None"
      then show "outbuff (?I m) \<noteq> None" "ctx (?I m) \<noteq> None" using old [of m] r by (cases "m = l"; simp)+
    next
      fix m n assume mn: "m \<in> W" "n \<in> W" "m \<noteq> n" "compress_fp (?I m) \<noteq> None" "compress_fp (?I n) \<noteq> None"
      have "compress_fp (?I m) \<noteq> compress_fp (?I n) \<and> outbuff (?I m) \<noteq> outbuff (?I n)"
      proof (cases "m = l \<or> n = l")
        case True
        then show ?thesis using mn new [of m] new [of n] Some r(1) by auto
      next
        case False
        then show ?thesis using mn oldinj [of m n] by blast
      qed
      then show "compress_fp (?I m) \<noteq> compress_fp (?I n)" "outbuff (?I m) \<noteq> outbuff (?I n)" by blast+
    qed
  qed
qed

end
