(* ===== verification/Pcap_System.thy ===== *)
theory Pcap_System
  imports Pcap_Inv
begin

text \<open>
  The threads of spp_pcap together: the invariant of their shared state, that every iteration of every
  thread keeps it, and the step relation of the process.
\<close>

section \<open>The invariant\<close>

abbreviation info_at :: "'c pcap_data \<Rightarrow> nat \<Rightarrow> 'c pcap_mng_info" where
  "info_at s l \<equiv> g_pcap_info s ! l"

definition running :: "'c pcap_data \<Rightarrow> nat \<Rightarrow> bool" where
  "running s l \<longleftrightarrow> cap_status (info_at s l) = SPP_CAPTURE_RUNNING"

text \<open>r is the core of the receiver, W the cores of the writers.  The shape of the tables and the
  roles of the threads never change.\<close>

definition pcap_shape :: "nat \<Rightarrow> nat set \<Rightarrow> 'c pcap_data \<Rightarrow> bool" where
  "pcap_shape r W s \<longleftrightarrow> finite W \<and> r \<notin> W \<and>
     (\<forall>l\<in>insert r W. l < length (g_pcap_info s) \<and> l < length (g_pcap_core s) \<and> l < length (g_total_write s)) \<and>
     thread_type (info_at s r) = PCAP_RECEIVE \<and> (\<forall>l\<in>W. thread_type (info_at s l) = PCAP_WRITE) \<and>
     thread_cnt s = int (card (insert r W))"

text \<open>start_up_cnt counts the running threads and the writers that ended while they ran (F); the writers
  in X ended before they were counted.\<close>

definition count_ok :: "nat \<Rightarrow> nat set \<Rightarrow> nat set \<Rightarrow> nat set \<Rightarrow> 'c pcap_data \<Rightarrow> bool" where
  "count_ok r W X alive s \<longleftrightarrow>
    (\<exists>F. F \<subseteq> W - alive - X \<and> start_up_cnt s = int (card ({l \<in> insert r W. running s l} \<union> F)))"

definition pcap_inv ::
  "('w \<Rightarrow> nat multiset) \<Rightarrow> ('w \<Rightarrow> nat list) \<Rightarrow> 'z port_data_scheme \<Rightarrow> nat \<Rightarrow> nat set \<Rightarrow> nat set \<Rightarrow>
   'c pcap_data \<Rightarrow> 'w \<Rightarrow> nat set \<Rightarrow> bool" where
  "pcap_inv held queued P r W X s w alive \<longleftrightarrow>
    pcap_shape r W s \<and> alive \<subseteq> insert r W \<and> X \<inter> alive = {} \<and>
    writers_ok W (info_at s) (pc_host s) \<and>
    (\<forall>l\<in>W. running s l \<longleftrightarrow> compress_fp (info_at s l) \<noteq> None) \<and>
    (\<forall>l\<in>insert r W. running s l \<longrightarrow> l \<in> alive) \<and>
    g_capture_status s = cap_status (info_at s r) \<and>
    count_ok r W X alive s \<and>
    plain_port P (dpdk_port (port_cap (g_pcap_option s))) SPP_PORT_RXTX_RX \<and>
    held w = mset (queued w) \<and> (queued w \<noteq> [] \<longrightarrow> (\<forall>l\<in>W \<inter> alive. running s l))"

lemma pcap_invD:
  assumes "pcap_inv held queued P r W X s w alive"
  shows "pcap_shape r W s" and "alive \<subseteq> insert r W" and "X \<inter> alive = {}"
    and "writers_ok W (info_at s) (pc_host s)"
    and "\<forall>l\<in>W. running s l \<longleftrightarrow> compress_fp (info_at s l) \<noteq> None"
    and "\<forall>l\<in>insert r W. running s l \<longrightarrow> l \<in> alive"
    and "g_capture_status s = cap_status (info_at s r)" and "count_ok r W X alive s"
    and "plain_port P (dpdk_port (port_cap (g_pcap_option s))) SPP_PORT_RXTX_RX"
    and "held w = mset (queued w)" and "queued w \<noteq> [] \<longrightarrow> (\<forall>l\<in>W \<inter> alive. running s l)"
  using assms unfolding pcap_inv_def by - (elim conjE, assumption)+

lemma pcap_invI:
  assumes "pcap_shape r W s" and "alive \<subseteq> insert r W" and "X \<inter> alive = {}"
    and "writers_ok W (info_at s) (pc_host s)"
    and "\<forall>l\<in>W. running s l \<longleftrightarrow> compress_fp (info_at s l) \<noteq> None"
    and "\<forall>l\<in>insert r W. running s l \<longrightarrow> l \<in> alive"
    and "g_capture_status s = cap_status (info_at s r)" and "count_ok r W X alive s"
    and "plain_port P (dpdk_port (port_cap (g_pcap_option s))) SPP_PORT_RXTX_RX"
    and "held w = mset (queued w)" and "queued w \<noteq> [] \<longrightarrow> (\<forall>l\<in>W \<inter> alive. running s l)"
  shows "pcap_inv held queued P r W X s w alive"
  unfolding pcap_inv_def by (intro conjI assms)

text \<open>Changes of what the invariant does not speak about.\<close>

lemma pcap_inv_cong:
  assumes "pcap_inv held queued P r W X s w alive"
    and "g_pcap_info s' = g_pcap_info s" "length (g_pcap_core s') = length (g_pcap_core s)"
      "length (g_total_write s') = length (g_total_write s)" "thread_cnt s' = thread_cnt s"
      "start_up_cnt s' = start_up_cnt s" "pc_host s' = pc_host s" "g_capture_status s' = g_capture_status s"
      "g_pcap_option s' = g_pcap_option s"
  shows "pcap_inv held queued P r W X s' w alive"
  using assms unfolding pcap_inv_def pcap_shape_def count_ok_def running_def by simp

text \<open>A thread that has nothing open or running may end.\<close>

lemma count_ok_less:
  assumes "count_ok r W X alive s" and "alive' \<subseteq> alive"
  shows "count_ok r W X alive' s"
proof -
  obtain F where F: "F \<subseteq> W - alive - X" "start_up_cnt s = int (card ({l \<in> insert r W. running s l} \<union> F))"
    using assms(1) by (auto simp: count_ok_def)
  have "F \<subseteq> W - alive' - X" using F(1) assms(2) by blast
  then show ?thesis unfolding count_ok_def by (intro exI [of _ F] conjI F(2))
qed

lemma pcap_inv_end:
  assumes i: "pcap_inv held queued P r W X s w alive" and "\<not> running s l"
  shows "pcap_inv held queued P r W X s w (alive - {l})"
proof (rule pcap_invI)
  show "count_ok r W X (alive - {l}) s" by (rule count_ok_less [OF pcap_invD(8) [OF i]]) blast
  show "\<forall>m\<in>insert r W. running s m \<longrightarrow> m \<in> alive - {l}" using pcap_invD(6) [OF i] assms(2) by blast
  show "queued w \<noteq> [] \<longrightarrow> (\<forall>m\<in>W \<inter> (alive - {l}). running s m)" using pcap_invD(11) [OF i] by blast
qed (use pcap_invD [OF i] in blast)+

section \<open>The count\<close>

text \<open>Changing the status of one thread changes the running set by that thread.\<close>

lemma running_update:
  assumes "l < length (g_pcap_info s)" and "g_pcap_info s' = (g_pcap_info s)[l := info]"
  shows "running s' m = (if m = l then cap_status info = SPP_CAPTURE_RUNNING else running s m)"
  using assms by (simp add: running_def nth_list_update)

text \<open>With a full count nobody is missing.\<close>

lemma count_full:
  assumes c: "count_ok r W X alive s" and fin: "finite W" and full: "\<not> int (card (insert r W)) > start_up_cnt s"
    and al: "alive \<subseteq> insert r W" and r: "r \<notin> W"
  shows "\<forall>l\<in>alive. running s l" and "running s r" and "X \<inter> W \<subseteq> {l. running s l}"
proof -
  obtain F where F: "F \<subseteq> W - alive - X" "start_up_cnt s = int (card ({l \<in> insert r W. running s l} \<union> F))"
    using c by (auto simp: count_ok_def)
  let ?A = "{l \<in> insert r W. running s l} \<union> F"
  have "?A \<subseteq> insert r W" using F(1) by auto
  moreover have "card (insert r W) \<le> card ?A" using full F(2) by simp
  ultimately have eq: "?A = insert r W" using fin by (intro card_seteq) simp_all
  show "\<forall>l\<in>alive. running s l" using eq al F(1) by blast
  show "running s r" using eq F(1) r by blast
  show "X \<inter> W \<subseteq> {l. running s l}" using eq F(1) by blast
qed

lemma count_start:
  assumes c: "count_ok r W X alive s" and fin: "finite W" and l: "l \<in> alive" "l \<in> insert r W" "\<not> running s l"
    and run: "\<And>m. running s' m = (if m = l then True else running s m)" and n: "start_up_cnt s' = start_up_cnt s + 1"
    and r: "r \<notin> W"
  shows "count_ok r W X alive s'"
proof -
  obtain F where F: "F \<subseteq> W - alive - X" "start_up_cnt s = int (card ({l \<in> insert r W. running s l} \<union> F))"
    using c by (auto simp: count_ok_def)
  have "finite ({l \<in> insert r W. running s l} \<union> F)" using fin F(1) finite_subset [of F W] by auto
  moreover have "l \<notin> {l \<in> insert r W. running s l} \<union> F" using l F(1) by auto
  moreover have "{m \<in> insert r W. running s' m} \<union> F = insert l ({m \<in> insert r W. running s m} \<union> F)"
    using l(2) by (auto simp: run)
  ultimately show ?thesis using F n unfolding count_ok_def by (intro exI [of _ F]) simp
qed

text \<open>A thread that stops is taken off the count, which is not zero.\<close>

lemma count_stop:
  assumes c: "count_ok r W X alive s" and fin: "finite W" and l: "l \<in> alive" "l \<in> insert r W" "running s l"
    and run: "\<And>m. running s' m = (if m = l then False else running s m)"
    and n: "start_up_cnt s' = (if start_up_cnt s \<noteq> 0 then start_up_cnt s - 1 else start_up_cnt s)"
  shows "count_ok r W X alive s'"
proof -
  obtain F where F: "F \<subseteq> W - alive - X" "start_up_cnt s = int (card ({l \<in> insert r W. running s l} \<union> F))"
    using c by (auto simp: count_ok_def)
  let ?A = "{m \<in> insert r W. running s m} \<union> F"
  have fA: "finite ?A" using fin F(1) finite_subset [of F W] by auto
  have A: "l \<in> ?A" using l by simp
  have "{m \<in> insert r W. running s' m} \<union> F = ?A - {l}" using l F(1) by (auto simp: run)
  moreover have "card ?A \<noteq> 0" using A fA by auto
  moreover have "card (?A - {l}) = card ?A - 1" using A by (rule card_Diff_singleton)
  ultimately show ?thesis using F n unfolding count_ok_def by (intro exI [of _ F]) auto
qed

text \<open>A writer that fails while it runs stays on the count.\<close>

lemma count_fail:
  assumes c: "count_ok r W X alive s" and l: "l \<in> alive" "l \<in> W" "running s l" and X: "X \<inter> alive = {}"
    and run: "\<And>m. running s' m = (if m = l then False else running s m)" and n: "start_up_cnt s' = start_up_cnt s"
  shows "count_ok r W X (alive - {l}) s'"
proof -
  obtain F where F: "F \<subseteq> W - alive - X" "start_up_cnt s = int (card ({l \<in> insert r W. running s l} \<union> F))"
    using c by (auto simp: count_ok_def)
  have "{m \<in> insert r W. running s' m} \<union> insert l F = {m \<in> insert r W. running s m} \<union> F"
    using l by (auto simp: run)
  moreover have "insert l F \<subseteq> W - (alive - {l}) - X" using F(1) l X by auto
  ultimately show ?thesis using F(2) n unfolding count_ok_def by (intro exI [of _ "insert l F"]) simp
qed

section \<open>The receiver keeps the invariant\<close>

text \<open>What the receiver does with packets: those it takes from the port go into the ring or are freed.\<close>

lemma receive_packets:
  assumes D: "io_laws D held" and R: "ring_laws D R held queued" and p: "plain_port P p SPP_PORT_RXTX_RX"
    and h: "held w = mset (queued w)"
  obtains bufs nb_rx w1 where "spp_eth_rx_burst D P p n w = Some (bufs, nb_rx, w1)" and "nb_rx = length bufs"
    and "held w1 = held w + mset bufs" and "queued w1 = queued w"
proof -
  obtain ids w1 where rx: "rte_eth_rx_burst D p n w = (ids, w1)" by fastforce
  then show ?thesis
    using that [of ids "length ids" w1] plain_rx [OF p, of D n w] io_rx [OF D rx] ring_rx [OF R rx] by simp
qed

lemma enqueue_packets:
  assumes D: "io_laws D held" and R: "ring_laws D R held queued" and e: "rte_ring_enqueue_burst R ids w = (k, w2)"
    and h: "held w = mset (queued w) + mset ids"
  obtains w3 where "free_packets D (drop k ids) w2 = Some w3" and "held w3 = mset (queued w3)"
    and "queued w3 = queued w @ take k ids"
proof -
  have q: "k \<le> length ids" "queued w2 = queued w @ take k ids" "held w2 = held w" using ring_enqueue [OF R e] by auto
  have "held w2 = mset (queued w) + mset (take k ids) + mset (drop k ids)"
    using h q(3) mset_take_drop [of ids k] by (simp add: union_assoc)
  moreover then have "mset (drop k ids) \<subseteq># held w2" by simp
  then obtain w3 where w3: "free_packets D (drop k ids) w2 = Some w3" "held w3 = held w2 - mset (drop k ids)"
    using free_packets_ok [OF D] by blast
  moreover have "queued w3 = queued w2" using ring_free [OF R w3(1)] by simp
  ultimately show ?thesis using that q(2) by simp
qed

lemma put_info_ok: "l < length (g_pcap_info s) \<Longrightarrow>
    put_info (int l) info s = Some (s\<lparr>g_pcap_info := (g_pcap_info s)[l := info]\<rparr>)"
  by (simp add: put_info_def)

text \<open>A new status of the receiver.\<close>

lemma pcap_shape_status:
  assumes "pcap_shape r W s" and "l \<in> insert r W" and "thread_type info = thread_type (info_at s l)"
    and "g_pcap_info s' = (g_pcap_info s)[l := info]" "g_pcap_core s' = g_pcap_core s"
      "length (g_total_write s') = length (g_total_write s)" "thread_cnt s' = thread_cnt s"
  shows "pcap_shape r W s'"
  using assms unfolding pcap_shape_def by (auto simp: nth_list_update)

lemma receiver_status:
  assumes i: "pcap_inv held queued P r W X s w alive"
    and s': "g_pcap_info s' = (g_pcap_info s)[r := (info_at s r)\<lparr>cap_status := st\<rparr>]" "g_pcap_core s' = g_pcap_core s"
      "g_total_write s' = g_total_write s" "thread_cnt s' = thread_cnt s" "g_capture_status s' = st"
      "h_streams (pc_host s') = h_streams (pc_host s)" "h_blocks (pc_host s') = h_blocks (pc_host s)"
      "h_next (pc_host s') = h_next (pc_host s)" "port_cap (g_pcap_option s') = port_cap (g_pcap_option s)"
    and c: "count_ok r W X alive s'" and r: "r \<in> alive"
  shows "pcap_inv held queued P r W X s' w alive"
proof -
  have sh: "pcap_shape r W s" and lr: "r < length (g_pcap_info s)" and rW: "r \<notin> W"
    using i by (auto simp: pcap_inv_def pcap_shape_def)
  have same: "info_at s' l = info_at s l" "running s' l = running s l" if "l \<in> W" for l
  proof -
    have "l \<noteq> r" using that rW by auto
    then show "info_at s' l = info_at s l" by (simp add: s'(1))
    then show "running s' l = running s l" by (simp add: running_def)
  qed
  have "fps W (info_at s') = fps W (info_at s)" "bufs_of W (info_at s') = bufs_of W (info_at s)"
    using same(1) by (auto simp: fps_def bufs_of_def)
  moreover have "host_ok (pc_host s') = host_ok (pc_host s)" by (simp add: host_ok_def s'(6-8))
  ultimately have "writers_ok W (info_at s') (pc_host s') = writers_ok W (info_at s) (pc_host s)"
    unfolding writers_ok_def s'(6,7) using same(1) by simp
  moreover have "pcap_shape r W s'"
    by (rule pcap_shape_status [OF sh, where l = r and info = "(info_at s r)\<lparr>cap_status := st\<rparr>"]) (simp_all add: s')
  moreover have "cap_status (info_at s' r) = st" using lr by (simp add: s'(1))
  ultimately show ?thesis
  proof (intro pcap_invI)
    show "\<forall>l\<in>W. running s' l \<longleftrightarrow> compress_fp (info_at s' l) \<noteq> None" using pcap_invD(5) [OF i] same by simp
    show "\<forall>l\<in>insert r W. running s' l \<longrightarrow> l \<in> alive" using pcap_invD(6) [OF i] same(2) r by auto
    show "queued w \<noteq> [] \<longrightarrow> (\<forall>l\<in>W \<inter> alive. running s' l)" using pcap_invD(11) [OF i] same(2) by auto
  qed (use pcap_invD [OF i] c in \<open>simp_all add: s'(5,9)\<close>)
qed

lemma status_idle: "cap_status (info_at s l) = SPP_CAPTURE_IDLE \<longleftrightarrow> \<not> running s l"
  by (cases "cap_status (info_at s l)") (simp_all add: running_def)

lemma status_running: "cap_status (info_at s l) = SPP_CAPTURE_RUNNING \<longleftrightarrow> running s l"
  by (simp add: running_def)

lemma receive_ok:
  assumes D: "io_laws D held" and R: "ring_laws D R held queued"
    and i: "pcap_inv held queued P r W X s w alive" and r: "r \<in> alive"
  shows "\<exists>s' w'. pcap_proc_receive D R P L stamp (int r) s w = Some (0, s', w') \<and>
    pcap_inv held queued P r W X s' w' alive \<and> (X \<inter> W \<noteq> {} \<longrightarrow> w' = w)"
proof -
  have lr: "r < length (g_pcap_info s)" and rW: "r \<notin> W" and fin: "finite W"
    using pcap_invD(1) [OF i] by (auto simp: pcap_shape_def)
  note put = put_info_ok [OF lr]
  note run = status_running [of s r] status_idle [of s r]
  show ?thesis
  proof (cases "g_capture_request s")
    case SPP_CAPTURE_IDLE
    show ?thesis
    proof (cases "running s r")
      case False
      then show ?thesis using SPP_CAPTURE_IDLE i lr by (simp add: pcap_proc_receive_def run)
    next
      case True
      define s1 where "s1 = one_less (s\<lparr>g_pcap_info := (g_pcap_info s)[r := (info_at s r)\<lparr>cap_status := SPP_CAPTURE_IDLE\<rparr>],
        g_capture_status := SPP_CAPTURE_IDLE\<rparr>)"
      have f: "g_pcap_info s1 = (g_pcap_info s)[r := (info_at s r)\<lparr>cap_status := SPP_CAPTURE_IDLE\<rparr>]"
          "start_up_cnt s1 = (if start_up_cnt s \<noteq> 0 then start_up_cnt s - 1 else start_up_cnt s)"
        by (simp_all add: s1_def one_less_def)
      have "count_ok r W X alive s1"
        by (rule count_stop [OF pcap_invD(8) [OF i] fin r _ True _ f(2)]) (simp_all add: running_update [OF lr f(1)])
      then have "pcap_inv held queued P r W X s1 w alive"
        by (intro receiver_status [OF i f(1) _ _ _ _ _ _ _ _ _ r]) (simp_all add: s1_def one_less_def)
      then show ?thesis using SPP_CAPTURE_IDLE True put lr by (simp add: pcap_proc_receive_def s1_def run)
    qed
  next
    case SPP_CAPTURE_RUNNING
    define s1 where "s1 = (if running s r then s else s
      \<lparr>g_pcap_info := (g_pcap_info s)[r := (info_at s r)\<lparr>cap_status := SPP_CAPTURE_RUNNING\<rparr>],
       g_pcap_option := (g_pcap_option s)\<lparr>compress_file_date := stamp (clock_gettime L (h_calls (pc_host s)))\<rparr>,
       pc_host := called (pc_host s), g_capture_status := SPP_CAPTURE_RUNNING,
       start_up_cnt := start_up_cnt s + 1, total_rx := 0, total_drop := 0\<rparr>)"
    have i1: "pcap_inv held queued P r W X s1 w alive"
    proof (cases "running s r")
      case True
      then show ?thesis using i by (simp add: s1_def)
    next
      case False
      have f: "g_pcap_info s1 = (g_pcap_info s)[r := (info_at s r)\<lparr>cap_status := SPP_CAPTURE_RUNNING\<rparr>]"
          "start_up_cnt s1 = start_up_cnt s + 1" using False by (simp_all add: s1_def)
      have "count_ok r W X alive s1"
        by (rule count_start [OF pcap_invD(8) [OF i] fin r _ False _ f(2) rW]) (simp_all add: running_update [OF lr f(1)])
      then show ?thesis
        by (intro receiver_status [OF i f(1) _ _ _ _ _ _ _ _ _ r]) (simp_all add: s1_def False called_def)
    qed
    show ?thesis
    proof (cases "thread_cnt s1 > start_up_cnt s1")
      case True
      then show ?thesis using SPP_CAPTURE_RUNNING i1 lr put
        by (cases "running s r") (auto simp: pcap_proc_receive_def s1_def run)
    next
      case False
      have n: "thread_cnt s1 = int (card (insert r W))" using pcap_invD(1) [OF i1] by (simp add: pcap_shape_def)
      note full = count_full [OF pcap_invD(8) [OF i1] fin False [unfolded n] pcap_invD(2) [OF i1] rW]
      have "X \<inter> W = {}" using full(3) pcap_invD(3,6) [OF i1] by blast
      let ?p = "dpdk_port (port_cap (g_pcap_option s1))"
      obtain bufs nb_rx w1 where rx: "spp_eth_rx_burst D P ?p MAX_PCAP_BURST w = Some (bufs, nb_rx, w1)" "nb_rx = length bufs"
          "held w1 = held w + mset bufs" "queued w1 = queued w"
        by (rule receive_packets [OF D R pcap_invD(9,10) [OF i1]])
      have held: "held w1 = mset (queued w1) + mset bufs" using rx(3,4) pcap_invD(10) [OF i1] by simp
      obtain nb_tx w2 where e: "rte_ring_enqueue_burst R bufs w1 = (nb_tx, w2)" by fastforce
      obtain w3 where w3: "free_packets D (drop nb_tx bufs) w2 = Some w3" "held w3 = mset (queued w3)"
        by (rule enqueue_packets [OF D R e held])
      define s2 where "s2 = s1\<lparr>total_rx := total_rx s1 + int (length bufs),
        total_drop := total_drop s1 + (int (length bufs) - int nb_tx)\<rparr>"
      have all: "\<forall>l\<in>W \<inter> alive. running s1 l" using full(1) by blast
      have inv: "pcap_inv held queued P r W X s1 w' alive" if "held w' = mset (queued w')" for w'
        by (intro pcap_invI pcap_invD(1-9) [OF i1] that impI all)
      have "pcap_inv held queued P r W X s2 w3 alive"
        by (rule pcap_inv_cong [OF inv [OF w3(2)]]) (simp_all add: s2_def)
      moreover have "pcap_inv held queued P r W X s1 w1 alive" if "bufs = []"
        using inv [of w1] held that by simp
      moreover have "pcap_proc_receive D R P L stamp (int r) s w =
          (if bufs = [] then Some (0, s1, w1) else Some (0, s2, w3))"
        using SPP_CAPTURE_RUNNING False lr put rx(1,2) e w3(1)
        by (cases "running s r") (auto simp: pcap_proc_receive_def s1_def s2_def run)
      ultimately show ?thesis using \<open>X \<inter> W = {}\<close> by (cases "bufs = []") auto
    qed
  qed
qed

section \<open>The writers keep the invariant\<close>

text \<open>A change of what a writer owns and of its status.\<close>

lemma writer_changes:
  assumes i: "pcap_inv held queued P r W X s w alive" and l: "l \<in> W"
    and o: "owned (other_streams W (info_at s) (pc_host s) l) (bufs_of (W - {l}) (info_at s)) info' (pc_host s')"
    and t: "thread_type info' = thread_type (info_at s l)"
    and st: "cap_status info' = SPP_CAPTURE_RUNNING \<longleftrightarrow> compress_fp info' \<noteq> None"
    and s': "g_pcap_info s' = (g_pcap_info s)[l := info']" "g_pcap_core s' = g_pcap_core s"
      "length (g_total_write s') = length (g_total_write s)" "thread_cnt s' = thread_cnt s"
      "g_capture_status s' = g_capture_status s" "g_pcap_option s' = g_pcap_option s"
    and a: "alive' \<subseteq> alive" "\<forall>m\<in>alive - alive'. m = l" "cap_status info' = SPP_CAPTURE_RUNNING \<Longrightarrow> l \<in> alive'"
    and c: "count_ok r W X' alive' s'" "X' \<inter> alive' = {}"
    and q: "held w' = mset (queued w')" "queued w' \<noteq> [] \<longrightarrow> (\<forall>m\<in>W \<inter> alive'. running s' m)"
  shows "pcap_inv held queued P r W X' s' w' alive'"
proof -
  have sh: "pcap_shape r W s" and ll: "l < length (g_pcap_info s)" and lr: "l \<noteq> r"
    using pcap_invD(1) [OF i] l by (auto simp: pcap_shape_def)
  have at: "info_at s' m = ((info_at s)(l := info')) m" for m using ll by (simp add: s'(1) nth_list_update)
  have run: "running s' m = (if m = l then cap_status info' = SPP_CAPTURE_RUNNING else running s m)" for m
    by (rule running_update [OF ll s'(1)])
  show ?thesis
  proof (intro pcap_invI c q)
    show "pcap_shape r W s'" by (rule pcap_shape_status [OF sh _ t s'(1-4)]) (simp add: l)
    show "alive' \<subseteq> insert r W" using a(1) pcap_invD(2) [OF i] by blast
    have "writers_ok W ((info_at s)(l := info')) (pc_host s')" by (rule writer_steps [OF pcap_invD(4) [OF i] l o])
    moreover have "info_at s' = (info_at s)(l := info')" using at by blast
    ultimately show "writers_ok W (info_at s') (pc_host s')" by (simp only:)
    show "\<forall>m\<in>W. running s' m \<longleftrightarrow> compress_fp (info_at s' m) \<noteq> None"
      using pcap_invD(5) [OF i] st by (simp add: run at)
    show "\<forall>m\<in>insert r W. running s' m \<longrightarrow> m \<in> alive'"
    proof (intro ballI impI)
      fix m assume "m \<in> insert r W" "running s' m"
      then show "m \<in> alive'" using pcap_invD(6) [OF i] a(2,3) by (cases "m = l") (auto simp: run)
    qed
    show "g_capture_status s' = cap_status (info_at s' r)" using pcap_invD(7) [OF i] lr by (simp add: s'(5) at)
    show "plain_port P (dpdk_port (port_cap (g_pcap_option s'))) SPP_PORT_RXTX_RX"
      using pcap_invD(9) [OF i] by (simp add: s'(6))
  qed
qed

lemma pcap_inv_world:
  assumes i: "pcap_inv held queued P r W X s w alive" and "held w' = mset (queued w')"
    and "queued w' \<noteq> [] \<Longrightarrow> queued w \<noteq> []"
  shows "pcap_inv held queued P r W X s w' alive"
proof -
  have "queued w' \<noteq> [] \<longrightarrow> (\<forall>l\<in>W \<inter> alive. running s l)" using pcap_invD(11) [OF i] assms(3) by blast
  then show ?thesis by (intro pcap_invI pcap_invD(1-9) [OF i] assms(2))
qed

text \<open>Fewer excluded writers.\<close>

lemma pcap_inv_forget:
  assumes i: "pcap_inv held queued P r W X' s w alive" and "X \<subseteq> X'"
  shows "pcap_inv held queued P r W X s w alive"
proof -
  obtain F where F: "F \<subseteq> W - alive - X'" "start_up_cnt s = int (card ({l \<in> insert r W. running s l} \<union> F))"
    using pcap_invD(8) [OF i] by (auto simp: count_ok_def)
  have "F \<subseteq> W - alive - X" using F(1) assms(2) by blast
  then have "count_ok r W X alive s" unfolding count_ok_def by (intro exI [of _ F] conjI F(2))
  moreover have "X \<inter> alive = {}" using pcap_invD(3) [OF i] assms(2) by blast
  ultimately show ?thesis by (intro pcap_invI pcap_invD(1,2,4-7,9-11) [OF i])
qed

text \<open>The start of a writer: it runs with an open file, or it ends without having been counted.\<close>

lemma write_start_ok:
  assumes M: "\<forall>n. \<not> malloc_fails L n"
    and i: "pcap_inv held queued P r W X s w alive" and l: "l \<in> W" "l \<in> alive"
  shows "\<exists>ret s1. pcap_write_start L (int l) s = Some (ret, s1) \<and> g_capture_status s1 = g_capture_status s \<and>
    g_pcap_core s1 = g_pcap_core s \<and>
    (ret = 0 \<and> pcap_inv held queued P r W X s1 w alive \<and> running s1 l \<or>
     ret = - 1 \<and> pcap_inv held queued P r W (insert l X) s1 w (alive - {l}) \<and> \<not> running s l \<and>
       (\<forall>m. running s1 m = running s m))"
proof -
  have ll: "l < length (g_pcap_info s)" "l < length (g_total_write s)" and fin: "finite W" and rW: "r \<notin> W"
    using pcap_invD(1) [OF i] l by (auto simp: pcap_shape_def)
  show ?thesis
  proof (cases "running s l")
    case True
    then show ?thesis using i ll by (simp add: pcap_write_start_def status_idle)
  next
    case False
    let ?i = "(info_at s l)\<lparr>cap_status := SPP_CAPTURE_RUNNING\<rparr>"
    let ?S = "other_streams W (info_at s) (pc_host s) l" and ?B = "bufs_of (W - {l}) (info_at s)"
    have "compress_fp (info_at s l) = None" using pcap_invD(5) [OF i] l(1) False by blast
    with writer_owns [OF pcap_invD(4) [OF i] l(1)]
    have h: "h_streams (pc_host s) = ?S" "h_blocks (pc_host s) = ?B" "host_ok (pc_host s)"
      by (auto simp: owned_def released_def has_file_def)
    from init_safe [OF h M, of ?i "g_pcap_option s"]
    obtain ret info1 h1 where r: "file_compression_operation L (g_pcap_option s) ?i INIT_MODE (pc_host s) = Some (ret, info1, h1)"
        "same_writer ?i info1" "ret = 0 \<and> has_file ?S ?B info1 h1 \<and> ctx info1 \<noteq> None \<or> ret = - 1 \<and> released ?S ?B info1 h1"
      unfolding opens_def by blast
    have t: "thread_type info1 = thread_type (info_at s l)" "cap_status info1 = SPP_CAPTURE_RUNNING"
      using r(2) by (simp_all add: same_writer_def)
    show ?thesis
    proof (cases "ret = 0")
      case True
      define s1 where "s1 = s\<lparr>g_pcap_info := (g_pcap_info s)[l := info1], pc_host := h1,
        start_up_cnt := start_up_cnt s + 1, g_total_write := (g_total_write s)[l := 0]\<rparr>"
      have f: "g_pcap_info s1 = (g_pcap_info s)[l := info1]" "start_up_cnt s1 = start_up_cnt s + 1" by (simp_all add: s1_def)
      have o: "has_file ?S ?B info1 h1" "ctx info1 \<noteq> None" using r(3) True by auto
      have run: "running s1 m = (if m = l then True else running s m)" for m
        by (simp add: running_update [OF ll(1) f(1)] t(2))
      have c: "count_ok r W X alive s1"
        by (rule count_start [OF pcap_invD(8) [OF i] fin l(2) _ False run f(2) rW]) (simp add: l(1))
      have "pcap_inv held queued P r W X s1 w alive"
      proof (rule writer_changes [OF i l(1) _ t(1) _ f(1)])
        show "owned ?S ?B info1 (pc_host s1)" using o by (simp add: owned_def s1_def)
        show "cap_status info1 = SPP_CAPTURE_RUNNING \<longleftrightarrow> compress_fp info1 \<noteq> None" using o(1) t(2) by (auto simp: has_file_def)
        show "queued w \<noteq> [] \<longrightarrow> (\<forall>m\<in>W \<inter> alive. running s1 m)" using pcap_invD(11) [OF i] by (simp add: run)
      qed (use c l(2) pcap_invD(3,10) [OF i] in \<open>simp_all add: s1_def\<close>)
      moreover have "pcap_write_start L (int l) s = Some (0, s1)"
        using False True r(1) ll by (simp add: pcap_write_start_def status_idle put_info_ok s1_def)
      moreover have "running s1 l" by (simp add: run)
      ultimately show ?thesis by (intro exI [of _ 0] exI [of _ s1]) (simp add: s1_def)
    next
      case fail: False
      let ?j = "info1\<lparr>cap_status := SPP_CAPTURE_IDLE\<rparr>"
      define s1 where "s1 = s\<lparr>g_pcap_info := (g_pcap_info s)[l := ?j], pc_host := h1\<rparr>"
      have f: "g_pcap_info s1 = (g_pcap_info s)[l := ?j]" by (simp add: s1_def)
      have o: "released ?S ?B info1 h1" "ret = - 1" using r(3) fail by auto
      have run: "running s1 m = running s m" for m using False by (simp add: running_update [OF ll(1) f])
      obtain F where F: "F \<subseteq> W - alive - X" "start_up_cnt s = int (card ({l \<in> insert r W. running s l} \<union> F))"
        using pcap_invD(8) [OF i] by (auto simp: count_ok_def)
      have "F \<subseteq> W - (alive - {l}) - insert l X" using F(1) l(2) by blast
      moreover have "start_up_cnt s1 = int (card ({l \<in> insert r W. running s1 l} \<union> F))" using F(2) unfolding run by (simp add: s1_def)
      ultimately have c: "count_ok r W (insert l X) (alive - {l}) s1" unfolding count_ok_def by (intro exI [of _ F] conjI)
      have "pcap_inv held queued P r W (insert l X) s1 w (alive - {l})"
      proof (rule writer_changes [OF i l(1) _ _ _ f])
        show "owned ?S ?B ?j (pc_host s1)" using o(1) by (simp add: owned_def s1_def)
        show "cap_status ?j = SPP_CAPTURE_RUNNING \<longleftrightarrow> compress_fp ?j \<noteq> None" using o(1) by (simp add: released_def)
        show "queued w \<noteq> [] \<longrightarrow> (\<forall>m\<in>W \<inter> (alive - {l}). running s1 m)" using pcap_invD(11) [OF i] by (simp add: run)
        show "insert l X \<inter> (alive - {l}) = {}" using pcap_invD(3) [OF i] by auto
      qed (use c t(1) pcap_invD(10) [OF i] in \<open>auto simp: s1_def\<close>)
      moreover have "pcap_write_start L (int l) s = Some (- 1, s1)"
        using False fail r(1) ll by (simp add: pcap_write_start_def status_idle put_info_ok s1_def)
      ultimately show ?thesis using False by (intro exI [of _ "- 1"] exI [of _ s1]) (simp add: s1_def run [unfolded s1_def])
    qed
  qed
qed

text \<open>The work that is left when a capture ends: the packets in the ring and the running writers.\<close>

definition backlog :: "('w \<Rightarrow> nat list) \<Rightarrow> nat set \<Rightarrow> 'c pcap_data \<Rightarrow> 'w \<Rightarrow> nat" where
  "backlog queued W s w = length (queued w) + card {l \<in> W. running s l}"

text \<open>A running writer that finds the ring empty after the capture closes its file.\<close>

lemma write_stop_ok:
  assumes i: "pcap_inv held queued P r W X s w alive" and l: "l \<in> W" "l \<in> alive" "running s l"
    and q: "queued w = []"
  shows "\<exists>s2. pcap_write_stop L (int l) s = Some (0, s2) \<and> pcap_inv held queued P r W X s2 w alive \<and>
    g_pcap_core s2 = g_pcap_core s \<and> g_capture_status s2 = g_capture_status s \<and>
    (\<forall>m. running s2 m \<longleftrightarrow> m \<noteq> l \<and> running s m)"
proof -
  have ll: "l < length (g_pcap_info s)" and fin: "finite W" using pcap_invD(1) [OF i] l by (auto simp: pcap_shape_def)
  let ?i = "(info_at s l)\<lparr>cap_status := SPP_CAPTURE_IDLE\<rparr>"
  let ?S = "other_streams W (info_at s) (pc_host s) l" and ?B = "bufs_of (W - {l}) (info_at s)"
  have "owned ?S ?B ?i (pc_host s)" using writer_owns [OF pcap_invD(4) [OF i] l(1)] by simp
  from close_safe [OF this, of L "g_pcap_option s"]
  obtain ret info1 h1 where "file_compression_operation L (g_pcap_option s) ?i CLOSE_MODE (pc_host s) = Some (ret, info1, h1)"
      "ret = 0" "same_writer ?i info1" "released ?S ?B info1 h1" unfolding safe_def by blast
  then have c: "file_compression_operation L (g_pcap_option s) ?i CLOSE_MODE (pc_host s) = Some (0, info1, h1)"
      "same_writer ?i info1" "released ?S ?B info1 h1" by simp_all
  define s2 where "s2 = one_less (s\<lparr>g_pcap_info := (g_pcap_info s)[l := info1], pc_host := h1\<rparr>)"
  have f: "g_pcap_info s2 = (g_pcap_info s)[l := info1]"
      "start_up_cnt s2 = (if start_up_cnt s \<noteq> 0 then start_up_cnt s - 1 else start_up_cnt s)"
    by (simp_all add: s2_def one_less_def)
  have t: "thread_type info1 = thread_type (info_at s l)" "cap_status info1 = SPP_CAPTURE_IDLE"
    using c(2) by (simp_all add: same_writer_def)
  have run: "running s2 m = (if m = l then False else running s m)" for m
    by (simp add: running_update [OF ll f(1)] t(2))
  have "count_ok r W X alive s2"
    by (rule count_stop [OF pcap_invD(8) [OF i] fin l(2) _ l(3) run f(2)]) (simp add: l(1))
  then have "pcap_inv held queued P r W X s2 w alive"
  proof (intro writer_changes [OF i l(1) _ t(1) _ f(1)])
    show "owned ?S ?B info1 (pc_host s2)" using c(3) by (simp add: owned_def s2_def one_less_def)
    show "cap_status info1 = SPP_CAPTURE_RUNNING \<longleftrightarrow> compress_fp info1 \<noteq> None" using c(3) t(2) by (simp add: released_def)
  qed (use l(2) q pcap_invD(3,10) [OF i] in \<open>simp_all add: s2_def one_less_def\<close>)
  moreover have "pcap_write_stop L (int l) s = Some (0, s2)"
    using c(1) ll by (simp add: pcap_write_stop_def put_info_ok s2_def)
  moreover have "g_pcap_core s2 = g_pcap_core s" "g_capture_status s2 = g_capture_status s"
    by (simp_all add: s2_def one_less_def)
  ultimately show ?thesis by (intro exI [of _ s2]) (simp add: run)
qed

text \<open>A running writer that takes a burst from the ring.\<close>

lemma write_packets_ok:
  assumes D: "io_laws D held" and R: "ring_laws D R held queued"
    and i: "pcap_inv held queued P r W X s w alive" and l: "l \<in> W" "l \<in> alive" "running s l"
    and d: "rte_ring_mc_dequeue_burst R n w = (bufs, w1)"
  shows "\<exists>ret info2 h s2 w2. write_burst L (g_pcap_option s) pkts (info_at s l) (pc_host s) = Some (ret, info2, h) \<and>
    free_packets D bufs w1 = Some w2 \<and> queued w2 = drop n (queued w) \<and>
    s2 = s\<lparr>g_pcap_info := (g_pcap_info s)[l := info2], pc_host := h, g_total_write := (g_total_write s)[l := k]\<rparr> \<and>
    (\<forall>m. running s2 m \<longrightarrow> running s m) \<and>
    (ret = 0 \<and> pcap_inv held queued P r W X s2 w2 alive \<or>
     ret = - 1 \<and> pcap_inv held queued P r W X s2 w2 (alive - {l}))"
proof -
  have ll: "l < length (g_pcap_info s)" and fin: "finite W" using pcap_invD(1) [OF i] l by (auto simp: pcap_shape_def)
  let ?i = "info_at s l"
  let ?S = "other_streams W (info_at s) (pc_host s) l" and ?B = "bufs_of (W - {l}) (info_at s)"
  have q: "bufs = take n (queued w)" "queued w1 = drop n (queued w)" "held w1 = held w" using ring_dequeue [OF R d] by auto
  have "held w1 = mset bufs + mset (queued w1)"
    using q pcap_invD(10) [OF i] mset_take_drop [of "queued w" n] by simp
  moreover then have "mset bufs \<subseteq># held w1" by simp
  then obtain w2 where w2: "free_packets D bufs w1 = Some w2" "held w2 = held w1 - mset bufs"
    using free_packets_ok [OF D] by blast
  moreover have q2: "queued w2 = queued w1" using ring_free [OF R w2(1)] by simp
  ultimately have held2: "held w2 = mset (queued w2)" by simp
  have "compress_fp ?i \<noteq> None" using pcap_invD(5) [OF i] l(1,3) by blast
  with writer_owns [OF pcap_invD(4) [OF i] l(1)]
  have "has_file ?S ?B ?i (pc_host s)" "ctx ?i \<noteq> None" by (auto simp: owned_def released_def)
  from write_burst_safe [OF this, of L "g_pcap_option s" pkts]
  obtain ret info2 h where b: "write_burst L (g_pcap_option s) pkts ?i (pc_host s) = Some (ret, info2, h)"
      "thread_type info2 = thread_type ?i"
      "ret = 0 \<and> cap_status info2 = cap_status ?i \<and> has_file ?S ?B info2 h \<and> ctx info2 \<noteq> None \<or>
       ret = - 1 \<and> cap_status info2 = SPP_CAPTURE_IDLE \<and> released ?S ?B info2 h" by blast
  define s2 where "s2 = s\<lparr>g_pcap_info := (g_pcap_info s)[l := info2], pc_host := h, g_total_write := (g_total_write s)[l := k]\<rparr>"
  have f: "g_pcap_info s2 = (g_pcap_info s)[l := info2]" "start_up_cnt s2 = start_up_cnt s" by (simp_all add: s2_def)
  have run: "running s2 m = (if m = l then cap_status info2 = SPP_CAPTURE_RUNNING else running s m)" for m
    by (rule running_update [OF ll f(1)])
  have all: "running s m" if "queued w2 \<noteq> []" "m \<in> W \<inter> alive" for m
    using pcap_invD(11) [OF i] that q(2) q2 by auto
  have inv: "ret = 0 \<and> pcap_inv held queued P r W X s2 w2 alive \<or>
      ret = - 1 \<and> pcap_inv held queued P r W X s2 w2 (alive - {l})"
  proof (cases "ret = 0")
    case True
    then have o: "has_file ?S ?B info2 h" "ctx info2 \<noteq> None" "cap_status info2 = SPP_CAPTURE_RUNNING"
      using b(3) l(3) by (auto simp: running_def)
    have run0: "running s2 m = running s m" for m using o(3) l(3) by (simp add: run)
    have "count_ok r W X alive s2"
      using pcap_invD(8) [OF i] unfolding count_ok_def run0 f(2) .
    then have "pcap_inv held queued P r W X s2 w2 alive"
    proof (intro writer_changes [OF i l(1) _ b(2) _ f(1)])
      show "owned ?S ?B info2 (pc_host s2)" using o(1,2) by (simp add: owned_def s2_def)
      show "cap_status info2 = SPP_CAPTURE_RUNNING \<longleftrightarrow> compress_fp info2 \<noteq> None" using o(1,3) by (auto simp: has_file_def)
      show "queued w2 \<noteq> [] \<longrightarrow> (\<forall>m\<in>W \<inter> alive. running s2 m)" using all by (simp add: run0)
    qed (use l(2) held2 pcap_invD(3) [OF i] in \<open>simp_all add: s2_def\<close>)
    then show ?thesis using True by simp
  next
    case False
    then have o: "ret = - 1" "released ?S ?B info2 h" "cap_status info2 = SPP_CAPTURE_IDLE" using b(3) by auto
    have run0: "running s2 m = (if m = l then False else running s m)" for m using o(3) by (simp add: run)
    have "count_ok r W X (alive - {l}) s2"
      by (rule count_fail [OF pcap_invD(8) [OF i] l(2,1,3) pcap_invD(3) [OF i] run0 f(2)])
    then have "pcap_inv held queued P r W X s2 w2 (alive - {l})"
    proof (intro writer_changes [OF i l(1) _ b(2) _ f(1)])
      show "owned ?S ?B info2 (pc_host s2)" using o(2) by (simp add: owned_def s2_def)
      show "cap_status info2 = SPP_CAPTURE_RUNNING \<longleftrightarrow> compress_fp info2 \<noteq> None" using o(2,3) by (simp add: released_def)
      show "queued w2 \<noteq> [] \<longrightarrow> (\<forall>m\<in>W \<inter> (alive - {l}). running s2 m)" using all by (simp add: run0)
      show "X \<inter> (alive - {l}) = {}" using pcap_invD(3) [OF i] by blast
    qed (use held2 o(3) in \<open>auto simp: s2_def\<close>)
    then show ?thesis using o(1) by simp
  qed
  have "running s m" if "running s2 m" for m using that l(3) by (auto simp: run split: if_splits)
  then show ?thesis using b(1) w2(1) q2 q(2) inv
    by (intro exI [of _ ret] exI [of _ info2] exI [of _ h] exI [of _ s2] exI [of _ w2]) (simp add: s2_def)
qed

lemma backlog_less:
  assumes "finite W" and "l \<in> W" and "running s l"
    and "\<And>m. running s' m \<Longrightarrow> running s m" and "length (queued w') < length (queued w) \<or>
      length (queued w') = length (queued w) \<and> \<not> running s' l"
  shows "backlog queued W s' w' < backlog queued W s w"
proof -
  have f: "finite {m \<in> W. running s m}" and sub: "{m \<in> W. running s' m} \<subseteq> {m \<in> W. running s m}"
    using assms(1,4) by auto
  then have le: "card {m \<in> W. running s' m} \<le> card {m \<in> W. running s m}" by (rule card_mono)
  show ?thesis
  proof (cases "running s' l")
    case True
    then show ?thesis using le assms(5) by (simp add: backlog_def)
  next
    case False
    then have "{m \<in> W. running s' m} \<subset> {m \<in> W. running s m}" using sub assms(2,3) by blast
    then have "card {m \<in> W. running s' m} < card {m \<in> W. running s m}" by (rule psubset_card_mono [OF f])
    then show ?thesis using assms(5) by (auto simp: backlog_def)
  qed
qed

lemma write_ok:
  assumes D: "io_laws D held" and R: "ring_laws D R held queued" and M: "\<forall>n. \<not> malloc_fails L n"
    and i: "pcap_inv held queued P r W X s w alive" and l: "l \<in> W" "l \<in> alive"
  shows "\<exists>ret s' w'. pcap_proc_write D R L (int l) s w = Some (ret, s', w') \<and>
    (ret = 0 \<and> pcap_inv held queued P r W X s' w' alive \<or>
     ret = - 1 \<and> pcap_inv held queued P r W X s' w' (alive - {l})) \<and>
    (g_capture_status s = SPP_CAPTURE_IDLE \<and> running s l \<longrightarrow> backlog queued W s' w' < backlog queued W s w)"
proof -
  have ll: "l < length (g_pcap_info s)" "l < length (g_total_write s)" and fin: "finite W"
    using pcap_invD(1) [OF i] l by (auto simp: pcap_shape_def)
  show ?thesis
  proof (cases "g_capture_status s = SPP_CAPTURE_IDLE \<and> \<not> running s l")
    case True
    then show ?thesis using i ll by (simp add: pcap_proc_write_def status_idle)
  next
    case go: False
    obtain ret s1 where st: "pcap_write_start L (int l) s = Some (ret, s1)" "g_capture_status s1 = g_capture_status s"
      and cases: "ret = 0 \<and> pcap_inv held queued P r W X s1 w alive \<and> running s1 l \<or>
       ret = - 1 \<and> pcap_inv held queued P r W (insert l X) s1 w (alive - {l}) \<and> \<not> running s l"
      using write_start_ok [OF M i l] by blast
    note base = go ll st
    show ?thesis
    proof (cases "ret = 0")
      case False
      then have "pcap_inv held queued P r W X s1 w (alive - {l})" "\<not> running s l"
        using cases pcap_inv_forget [of held queued P r W "insert l X" s1 w "alive - {l}" X] by auto
      then show ?thesis using False base by (simp add: pcap_proc_write_def status_idle)
    next
      case True
      then have i1: "pcap_inv held queued P r W X s1 w alive" and run1: "running s1 l" using cases by auto
      have ll1: "l < length (g_pcap_info s1)" "l < length (g_total_write s1)"
        using pcap_invD(1) [OF i1] l by (auto simp: pcap_shape_def)
      have s1: "s1 = s" if "running s l" using st(1) that ll by (simp add: pcap_write_start_def status_idle)
      obtain bufs w1 where d: "rte_ring_mc_dequeue_burst R MAX_PCAP_BURST w = (bufs, w1)" by fastforce
      note q = ring_dequeue [OF R d]
      show ?thesis
      proof (cases "bufs = []")
        case empty: True
        then have qe: "queued w = []" using q by (simp add: MAX_PCAP_BURST_def)
        have iw: "pcap_inv held queued P r W X s1 w1 alive"
          by (rule pcap_inv_world [OF i1]) (use q qe pcap_invD(10) [OF i1] in simp_all)
        show ?thesis
        proof (cases "g_capture_status s = SPP_CAPTURE_IDLE")
          case idle: True
          have qe1: "queued w1 = []" using q qe by simp
          obtain s2 where s2: "pcap_write_stop L (int l) s1 = Some (0, s2)" "pcap_inv held queued P r W X s2 w1 alive"
              "\<forall>m. running s2 m \<longleftrightarrow> m \<noteq> l \<and> running s1 m" using write_stop_ok [OF iw l run1 qe1, of L] by blast
          have "running s l" using go idle by blast
          then have "backlog queued W s2 w1 < backlog queued W s w"
            using s1 s2(3) qe qe1 by (intro backlog_less [OF fin l(1)]) auto
          then show ?thesis using base True d empty idle s2(1,2) by (simp add: pcap_proc_write_def status_idle)
        next
          case False
          then show ?thesis using base True d empty iw by (simp add: pcap_proc_write_def status_idle)
        qed
      next
        case some: False
        let ?k = "g_total_write s1 ! l + int (length bufs)"
        obtain ret2 info2 h s2 w2 where b:
            "write_burst L (g_pcap_option s1) (List.map (pkt_of D R w1) bufs) (info_at s1 l) (pc_host s1) = Some (ret2, info2, h)"
            "free_packets D bufs w1 = Some w2" "queued w2 = drop MAX_PCAP_BURST (queued w)"
            "s2 = s1\<lparr>g_pcap_info := (g_pcap_info s1)[l := info2], pc_host := h, g_total_write := (g_total_write s1)[l := ?k]\<rparr>"
            "\<forall>m. running s2 m \<longrightarrow> running s1 m"
            "ret2 = 0 \<and> pcap_inv held queued P r W X s2 w2 alive \<or> ret2 = - 1 \<and> pcap_inv held queued P r W X s2 w2 (alive - {l})"
          using write_packets_ok [OF D R i1 l run1 d, of L "List.map (pkt_of D R w1) bufs" ?k] by blast
        have "queued w \<noteq> []" using some q by auto
        then have less: "length (queued w2) < length (queued w)" by (simp add: b(3) MAX_PCAP_BURST_def)
        have "backlog queued W s2 w2 < backlog queued W s w" if "running s l"
          using s1 [OF that] b(5) less that by (intro backlog_less [OF fin l(1)]) auto
        moreover have "pcap_proc_write D R L (int l) s w = Some (ret2, s2, w2)"
          using base True d some ll1 b(1,2) by (auto simp: pcap_proc_write_def status_idle put_info_ok b(4))
        ultimately show ?thesis using b(6) by blast
      qed
    qed
  qed
qed

end
