(* ===== verification/Pcap_Run.thy ===== *)
theory Pcap_Run
  imports Pcap_System
begin

text \<open>
  The runs of spp_pcap: the step relation of the process, whose steps are the iterations of its threads,
  the requests of the main thread and the signals; what holds in every reachable state, and how a
  capture ends.
\<close>

section \<open>Steps\<close>

type_synonym ('c, 'w) pcap_state = "'c pcap_data \<times> 'w \<times> nat set"

inductive pcap_step ::
  "'w dpdk \<Rightarrow> 'w ring_ops \<Rightarrow> 'z port_data_scheme \<Rightarrow> 'c lib \<Rightarrow> (int \<times> int \<Rightarrow> string) \<Rightarrow>
   ('c, 'w) pcap_state \<Rightarrow> ('c, 'w) pcap_state \<Rightarrow> bool"
  for D :: "'w dpdk" and R :: "'w ring_ops" and P :: "'z port_data_scheme" and L :: "'c lib"
    and stamp :: "int \<times> int \<Rightarrow> string"
where
  turn: "l \<in> alive \<Longrightarrow> pcap_slave_turn D R P L stamp (int l) s w = Some (None, s', w') \<Longrightarrow>
    pcap_step D R P L stamp (s, w, alive) (s', w', alive)"
| finish: "l \<in> alive \<Longrightarrow> pcap_slave_turn D R P L stamp (int l) s w = Some (Some ret, s', w') \<Longrightarrow>
    pcap_step D R P L stamp (s, w, alive) (s', w', alive - {l})"
| request: "pcap_step D R P L stamp (s, w, alive) (s\<lparr>g_capture_request := q\<rparr>, w, alive)"
| signal: "pcap_stop_process main_lcore slaves b s = Some s' \<Longrightarrow>
    pcap_step D R P L stamp (s, w, alive) (s', w, alive)"

inductive_cases pcap_stepE: "pcap_step D R P L stamp (s, w, alive) (s', w', alive')"

abbreviation pcap_reach where
  "pcap_reach D R P L stamp \<equiv> (pcap_step D R P L stamp)\<^sup>*\<^sup>*"

text \<open>The state in which the threads begin their loops: nothing runs, is open, allocated or counted.\<close>

definition pcap_ready ::
  "('w \<Rightarrow> nat multiset) \<Rightarrow> ('w \<Rightarrow> nat list) \<Rightarrow> 'z port_data_scheme \<Rightarrow> nat \<Rightarrow> nat set \<Rightarrow> 'c pcap_data \<Rightarrow> 'w \<Rightarrow> bool" where
  "pcap_ready held queued P r W s w \<longleftrightarrow> pcap_shape r W s \<and>
     (\<forall>l\<in>insert r W. \<not> running s l \<and> compress_fp (info_at s l) = None) \<and>
     h_streams (pc_host s) = Map.empty \<and> h_blocks (pc_host s) = {} \<and>
     g_capture_status s = SPP_CAPTURE_IDLE \<and> start_up_cnt s = 0 \<and>
     plain_port P (dpdk_port (port_cap (g_pcap_option s))) SPP_PORT_RXTX_RX \<and>
     queued w = [] \<and> held w = {#}"

lemma ready_inv: "pcap_ready held queued P r W s w \<Longrightarrow> pcap_inv held queued P r W {} s w (insert r W)"
proof (rule pcap_invI)
  assume R: "pcap_ready held queued P r W s w"
  then show "pcap_shape r W s" by (simp add: pcap_ready_def)
  have "fps W (info_at s) = {}" "bufs_of W (info_at s) = {}" using R by (auto simp: pcap_ready_def fps_def bufs_of_def)
  then show "writers_ok W (info_at s) (pc_host s)" using R by (simp add: pcap_ready_def writers_ok_def host_ok_def)
  have no: "\<not> running s l" if "l \<in> insert r W" for l using R that by (auto simp: pcap_ready_def)
  then have e: "{l \<in> insert r W. running s l} \<union> {} = {}" by blast
  show "count_ok r W {} (insert r W) s"
    unfolding count_ok_def by (intro exI [of _ "{}"], unfold e) (use R in \<open>simp add: pcap_ready_def\<close>)
  show "\<forall>l\<in>W. running s l = (compress_fp (info_at s l) \<noteq> None)" using R by (simp add: pcap_ready_def)
  show "\<forall>l\<in>insert r W. running s l \<longrightarrow> l \<in> insert r W" by blast
  show "g_capture_status s = cap_status (info_at s r)" using R status_idle [of s r] by (simp add: pcap_ready_def)
qed (simp_all add: pcap_ready_def)

section \<open>Every step keeps the invariant\<close>

lemma set_core_ok: "l < length (g_pcap_core s) \<Longrightarrow>
    set_pcap_core (int l) st s = Some (s\<lparr>g_pcap_core := (g_pcap_core s)[l := st]\<rparr>)"
  by (simp add: set_pcap_core_def)

lemma core_inv: "pcap_inv held queued P r W X s w alive \<Longrightarrow>
    pcap_inv held queued P r W X (s\<lparr>g_pcap_core := (g_pcap_core s)[l := st]\<rparr>) w alive"
  by (rule pcap_inv_cong) simp_all

lemma request_inv: "pcap_inv held queued P r W X s w alive \<Longrightarrow>
    pcap_inv held queued P r W X (s\<lparr>g_capture_request := q\<rparr>) w alive"
  by (rule pcap_inv_cong) simp_all

text \<open>The iteration of a thread, given that of its body.\<close>

definition turn_request :: "int \<Rightarrow> 'c pcap_data \<Rightarrow> 'c pcap_data" where
  "turn_request lcore s =
    (if g_pcap_core s ! nat lcore = SPP_CORE_STOP_REQUEST \<and> thread_type (g_pcap_info s ! nat lcore) = PCAP_RECEIVE
     then s\<lparr>g_capture_request := SPP_CAPTURE_IDLE\<rparr> else s)"

lemma turn_request_inv: "pcap_inv held queued P r W X s w alive \<Longrightarrow>
    pcap_inv held queued P r W X (turn_request l s) w alive"
  by (simp add: turn_request_def request_inv)

lemma turn_request_simps [simp]: "g_pcap_core (turn_request l s) = g_pcap_core s"
    "g_capture_status (turn_request l s) = g_capture_status s" "running (turn_request l s) = running s"
    "backlog queued W (turn_request l s) w = backlog queued W s w"
  by (auto simp: turn_request_def running_def fun_eq_iff backlog_def)

lemma slave_turn_body:
  assumes "l < length (g_pcap_core s)" and "l < length (g_pcap_info s)"
    and "g_pcap_core s ! l \<noteq> SPP_CORE_STOP_REQUEST \<or> running s l"
  shows "pcap_slave_turn D R P L stamp (int l) s w = do {
    (ret, s1, w1) \<leftarrow> (if thread_type (info_at s l) = PCAP_RECEIVE
      then pcap_proc_receive D R P L stamp (int l) (turn_request (int l) s) w
      else pcap_proc_write D R L (int l) (turn_request (int l) s) w);
    if ret \<noteq> 0 then do { s2 \<leftarrow> set_pcap_core (int l) SPP_CORE_STOP s1; Some (Some ret, s2, w1) }
    else Some (None, s1, w1) }"
  using assms by (auto simp: pcap_slave_turn_def status_idle turn_request_def Let_def)

lemma slave_turn_stop:
  assumes "l < length (g_pcap_core s)" and "l < length (g_pcap_info s)"
    and "g_pcap_core s ! l = SPP_CORE_STOP_REQUEST" and "\<not> running s l"
  shows "pcap_slave_turn D R P L stamp (int l) s w =
    Some (Some 0, s\<lparr>g_pcap_core := (g_pcap_core s)[l := SPP_CORE_STOP]\<rparr>, w)"
  using assms by (simp add: pcap_slave_turn_def status_idle set_core_ok)

lemma turn_ok:
  assumes D: "io_laws D held" and R: "ring_laws D R held queued" and M: "\<forall>n. \<not> malloc_fails L n"
    and i: "pcap_inv held queued P r W X s w alive" and l: "l \<in> alive"
  shows "\<exists>res s' w'. pcap_slave_turn D R P L stamp (int l) s w = Some (res, s', w') \<and>
    pcap_inv held queued P r W X s' w' (if res = None then alive else alive - {l}) \<and>
    (l = r \<and> X \<inter> W \<noteq> {} \<longrightarrow> w' = w) \<and>
    (l \<in> W \<and> g_capture_status s = SPP_CAPTURE_IDLE \<and> running s l \<longrightarrow> backlog queued W s' w' < backlog queued W s w)"
proof -
  have lW: "l \<in> insert r W" using pcap_invD(2) [OF i] l by blast
  then have ll: "l < length (g_pcap_core s)" "l < length (g_pcap_info s)"
    and types: "thread_type (info_at s r) = PCAP_RECEIVE" "\<And>m. m \<in> W \<Longrightarrow> thread_type (info_at s m) = PCAP_WRITE"
      "r \<notin> W"
    using pcap_invD(1) [OF i] by (auto simp: pcap_shape_def)
  show ?thesis
  proof (cases "g_pcap_core s ! l = SPP_CORE_STOP_REQUEST \<and> \<not> running s l")
    case True
    then show ?thesis using slave_turn_stop [OF ll, of D R P L stamp w] core_inv [OF pcap_inv_end [OF i, of l]]
      by (intro exI [of _ "Some 0"] exI [of _ "s\<lparr>g_pcap_core := (g_pcap_core s)[l := SPP_CORE_STOP]\<rparr>"] exI [of _ w]) simp
  next
    case False
    then have body: "g_pcap_core s ! l \<noteq> SPP_CORE_STOP_REQUEST \<or> running s l" by blast
    note step = slave_turn_body [OF ll this, of D R P L stamp w]
    let ?s = "turn_request (int l) s"
    note i0 = turn_request_inv [OF i, of "int l"]
    show ?thesis
    proof (cases "l = r")
      case True
      then obtain s1 w1 where "pcap_proc_receive D R P L stamp (int r) ?s w = Some (0, s1, w1)"
          "pcap_inv held queued P r W X s1 w1 alive" "X \<inter> W \<noteq> {} \<longrightarrow> w1 = w"
        using receive_ok [OF D R i0] l by blast
      then show ?thesis using step True types by auto
    next
      case False
      then have w: "l \<in> W" using lW by blast
      from write_ok [OF D R M i0 w l]
      obtain ret s1 w1 where b: "pcap_proc_write D R L (int l) ?s w = Some (ret, s1, w1)"
          "ret = 0 \<and> pcap_inv held queued P r W X s1 w1 alive \<or> ret = - 1 \<and> pcap_inv held queued P r W X s1 w1 (alive - {l})"
          "g_capture_status s = SPP_CAPTURE_IDLE \<and> running s l \<longrightarrow> backlog queued W s1 w1 < backlog queued W s w"
        by auto
      show ?thesis
      proof (cases "ret = 0")
        case True
        then show ?thesis using step False b w types(2) by simp
      next
        case fail: False
        then have i1: "pcap_inv held queued P r W X s1 w1 (alive - {l})" using b(2) by blast
        then have l1: "l < length (g_pcap_core s1)" using pcap_invD(1) [OF i1] w by (auto simp: pcap_shape_def)
        have "backlog queued W (s1\<lparr>g_pcap_core := (g_pcap_core s1)[l := SPP_CORE_STOP]\<rparr>) w1 = backlog queued W s1 w1"
          by (simp add: backlog_def running_def)
        then show ?thesis using step fail False b(1,3) w types(2) core_inv [OF i1] set_core_ok [OF l1] by simp
      qed
    qed
  qed
qed

lemma cores_inv: "pcap_inv held queued P r W X s w alive \<Longrightarrow> set_all_pcap_cores ls st s = Some s' \<Longrightarrow>
    pcap_inv held queued P r W X s' w alive"
proof (induction ls arbitrary: s)
  case (Cons l ls)
  then obtain s1 cs where "wr (g_pcap_core s) l st = Some cs" "s1 = s\<lparr>g_pcap_core := cs\<rparr>" "set_all_pcap_cores ls st s1 = Some s'"
    by (auto simp: bind_Some_iff set_pcap_core_def)
  then show ?case using Cons.IH [of s1] Cons.prems(1) by (auto simp: wr_Some_iff core_inv)
qed simp

lemma stop_inv:
  assumes "pcap_stop_process m slaves b s = Some s'" and i: "pcap_inv held queued P r W X s w alive"
  shows "pcap_inv held queued P r W X s' w alive"
proof (cases b)
  case True
  then obtain cs where "wr (g_pcap_core s) m SPP_CORE_STOP_REQUEST = Some cs"
      "set_all_pcap_cores slaves SPP_CORE_STOP_REQUEST (s\<lparr>g_pcap_core := cs\<rparr>) = Some s'"
    using assms(1) by (auto simp: pcap_stop_process_def bind_Some_iff set_pcap_core_def)
  then show ?thesis using cores_inv [OF core_inv [OF i]] by (auto simp: wr_Some_iff)
next
  case False
  then show ?thesis using assms by (simp add: pcap_stop_process_def)
qed

lemma step_inv:
  assumes E: "io_laws D held" "ring_laws D R held queued" "\<forall>n. \<not> malloc_fails L n"
    and st: "pcap_step D R P L stamp (s, w, alive) (s', w', alive')" and i: "pcap_inv held queued P r W X s w alive"
  shows "pcap_inv held queued P r W X s' w' alive'"
proof -
  have t: "pcap_inv held queued P r W X s2 w2 (if res = None then alive else alive - {l})"
    if "l \<in> alive" "pcap_slave_turn D R P L stamp (int l) s w = Some (res, s2, w2)" for l res s2 w2
    using turn_ok [OF E i that(1), of stamp] that(2) by auto
  show ?thesis using st t request_inv [OF i] stop_inv [OF _ i] by (elim pcap_stepE) fastforce+
qed

lemma reach_inv:
  assumes E: "io_laws D held" "ring_laws D R held queued" "\<forall>n. \<not> malloc_fails L n"
    and "pcap_reach D R P L stamp (s, w, alive) (s', w', alive')" and i: "pcap_inv held queued P r W X s w alive"
  shows "pcap_inv held queued P r W X s' w' alive'"
proof -
  have "case \<sigma> of (s', w', alive') \<Rightarrow> pcap_inv held queued P r W X s' w' alive'"
    if "pcap_reach D R P L stamp (s, w, alive) \<sigma>" for \<sigma>
    using that
  proof (induction rule: rtranclp_induct)
    case base
    show ?case using i by simp
  next
    case (step \<sigma>1 \<sigma>2)
    then show ?case using step_inv [OF E] by (cases \<sigma>1; cases \<sigma>2) blast
  qed
  from this [OF assms(4)] show ?thesis by simp
qed

section \<open>Safety\<close>

text \<open>C26: In every state that spp_pcap reaches, with any interleaving of the iterations of its threads,
  of commands and of signals, and whatever fails in the file system and in LZ4, the next iteration
  of every thread runs without undefined behaviour (no stream is closed or written when it is not open,
  no buffer is freed twice or used after it was freed, no packet is freed twice); the packets that
  the process holds are exactly those in the ring, and the open streams and allocated buffers
  are exactly those of the running writers.\<close>
theorem pcap_threads_safe:
  assumes "io_laws D held" and "ring_laws D R held queued" and "\<forall>n. \<not> malloc_fails L n"
    and "pcap_ready held queued P r W s0 w0" and "pcap_reach D R P L stamp (s0, w0, insert r W) (s, w, alive)"
  shows "(\<forall>l\<in>alive. pcap_slave_turn D R P L stamp (int l) s w \<noteq> None) \<and> held w = mset (queued w) \<and>
    dom (h_streams (pc_host s)) = {f. \<exists>l\<in>W. running s l \<and> compress_fp (info_at s l) = Some f} \<and>
    h_blocks (pc_host s) = {b. \<exists>l\<in>W. running s l \<and> outbuff (info_at s l) = Some b}"
proof -
  have i: "pcap_inv held queued P r W {} s w alive"
    by (rule reach_inv [OF assms(1-3,5) ready_inv [OF assms(4)]])
  have "fps W (info_at s) = {f. \<exists>l\<in>W. running s l \<and> compress_fp (info_at s l) = Some f}"
      "bufs_of W (info_at s) = {b. \<exists>l\<in>W. running s l \<and> outbuff (info_at s l) = Some b}"
    using pcap_invD(5) [OF i] by (auto simp: fps_def bufs_of_def)
  moreover have "dom (h_streams (pc_host s)) = fps W (info_at s) \<and> h_blocks (pc_host s) = bufs_of W (info_at s)"
    using pcap_invD(4) [OF i] by (simp add: writers_ok_def)
  moreover have "\<forall>l\<in>alive. pcap_slave_turn D R P L stamp (int l) s w \<noteq> None"
    using turn_ok [OF assms(1-3) i, of _ stamp] by fastforce
  ultimately show ?thesis using pcap_invD(10) [OF i] by simp
qed

section \<open>The end of a capture\<close>


text \<open>The iterations of running writers after the capture.\<close>

inductive drain_step ::
  "'w dpdk \<Rightarrow> 'w ring_ops \<Rightarrow> 'z port_data_scheme \<Rightarrow> 'c lib \<Rightarrow> (int \<times> int \<Rightarrow> string) \<Rightarrow> nat set \<Rightarrow>
   ('c, 'w) pcap_state \<Rightarrow> ('c, 'w) pcap_state \<Rightarrow> bool"
  for D :: "'w dpdk" and R :: "'w ring_ops" and P :: "'z port_data_scheme" and L :: "'c lib"
    and stamp :: "int \<times> int \<Rightarrow> string" and W :: "nat set"
where
  drain: "l \<in> W \<Longrightarrow> l \<in> alive \<Longrightarrow> running s l \<Longrightarrow> g_capture_status s = SPP_CAPTURE_IDLE \<Longrightarrow>
    pcap_slave_turn D R P L stamp (int l) s w = Some (res, s', w') \<Longrightarrow>
    drain_step D R P L stamp W (s, w, alive) (s', w', if res = None then alive else alive - {l})"

lemma drain_pcap_step: "drain_step D R P L stamp W \<sigma> \<sigma>' \<Longrightarrow> pcap_step D R P L stamp \<sigma> \<sigma>'"
proof (induction rule: drain_step.induct)
  case (drain l alive s w res s' w')
  show ?case
  proof (cases res)
    case None
    then show ?thesis using pcap_step.turn [OF drain(2)] drain(5) by simp
  next
    case (Some ret)
    then show ?thesis using pcap_step.finish [OF drain(2)] drain(5) by simp
  qed
qed

lemma drain_less:
  assumes "io_laws D held" and "ring_laws D R held queued" and "\<forall>n. \<not> malloc_fails L n"
    and "drain_step D R P L stamp W (s, w, alive) (s', w', alive')" and "pcap_inv held queued P r W X s w alive"
  shows "backlog queued W s' w' < backlog queued W s w"
  using assms(4)
proof (cases rule: drain_step.cases)
  case (drain l res)
  then show ?thesis using turn_ok [OF assms(1-3,5), of l stamp] by auto
qed

lemma drain_bound:
  assumes E: "io_laws D held" "ring_laws D R held queued" "\<forall>n. \<not> malloc_fails L n"
  shows "(drain_step D R P L stamp W ^^ n) (s, w, alive) (s', w', alive') \<Longrightarrow> pcap_inv held queued P r W X s w alive \<Longrightarrow>
    n + backlog queued W s' w' \<le> backlog queued W s w \<and> pcap_inv held queued P r W X s' w' alive'"
proof (induction n arbitrary: s w alive)
  case (Suc n)
  then obtain s1 w1 a1 where st: "drain_step D R P L stamp W (s, w, alive) (s1, w1, a1)"
      "(drain_step D R P L stamp W ^^ n) (s1, w1, a1) (s', w', alive')"
    by (metis relpowp_Suc_E2 prod_cases3)
  have "pcap_inv held queued P r W X s1 w1 a1"
    by (rule step_inv [OF E drain_pcap_step [OF st(1)] Suc.prems(2)])
  from Suc.IH [OF st(2) this] drain_less [OF E st(1) Suc.prems(2)] show ?case by linarith
qed simp

text \<open>C28: A capture ends: after it has been stopped the iterations of the running writers are at most
  as many as there are packets in the ring and running writers, however they are interleaved and
  whatever fails; and as long as a writer still runs there is such an iteration.\<close>
theorem drain_terminates:
  assumes "io_laws D held" and "ring_laws D R held queued" and "\<forall>n. \<not> malloc_fails L n"
    and "pcap_ready held queued P r W s0 w0" and "pcap_reach D R P L stamp (s0, w0, insert r W) (s, w, alive)"
    and "(drain_step D R P L stamp W ^^ n) (s, w, alive) (s', w', alive')"
  shows "n \<le> length (queued w) + card {l \<in> W. running s l} \<and>
    (g_capture_status s' = SPP_CAPTURE_IDLE \<and> (\<exists>l\<in>W. running s' l) \<longrightarrow>
      (\<exists>\<sigma>. drain_step D R P L stamp W (s', w', alive') \<sigma>))"
proof -
  have i: "pcap_inv held queued P r W {} s w alive"
    by (rule reach_inv [OF assms(1-3,5) ready_inv [OF assms(4)]])
  from drain_bound [OF assms(1-3,6) i]
  have b: "n \<le> backlog queued W s w" and i': "pcap_inv held queued P r W {} s' w' alive'" by auto
  have "\<exists>\<sigma>. drain_step D R P L stamp W (s', w', alive') \<sigma>"
    if "l \<in> W" "running s' l" "g_capture_status s' = SPP_CAPTURE_IDLE" for l
  proof -
    have a: "l \<in> alive'" using pcap_invD(6) [OF i'] that(1,2) by blast
    obtain res s2 w2 where "pcap_slave_turn D R P L stamp (int l) s' w' = Some (res, s2, w2)"
      using turn_ok [OF assms(1-3) i' a, of stamp] by blast
    from drain_step.drain [OF that(1) a that(2,3) this] show ?thesis by (rule exI)
  qed
  then show ?thesis using b by (auto simp: backlog_def)
qed

section \<open>A writer that cannot start\<close>

text \<open>C29: One writer that cannot begin its file stops every later capture silently: its thread ends, and
  in all states that are reached from then on the receiver takes no packet from the port, although
  the status of the capture is running, because the count of started threads never reaches the
  number of threads.\<close>
theorem writer_failure_blocks:
  assumes E: "io_laws D held" "ring_laws D R held queued" "\<forall>n. \<not> malloc_fails L n"
    and "pcap_ready held queued P r W s0 w0" and "pcap_reach D R P L stamp (s0, w0, insert r W) (s, w, alive)"
    and l: "l \<in> W" "l \<in> alive" and "g_capture_status s = SPP_CAPTURE_RUNNING"
    and "g_pcap_core s ! l \<noteq> SPP_CORE_STOP_REQUEST" and "pcap_write_start L (int l) s = Some (- 1, s1)"
  shows "\<exists>s2. pcap_slave_turn D R P L stamp (int l) s w = Some (Some (- 1), s2, w) \<and>
    (\<forall>s3 w3 alive3. pcap_reach D R P L stamp (s2, w, alive - {l}) (s3, w3, alive3) \<and> r \<in> alive3 \<longrightarrow>
      (\<exists>s4. pcap_slave_turn D R P L stamp (int r) s3 w3 = Some (None, s4, w3) \<or>
        pcap_slave_turn D R P L stamp (int r) s3 w3 = Some (Some 0, s4, w3)))"
proof -
  have i: "pcap_inv held queued P r W {} s w alive"
    by (rule reach_inv [OF E assms(5) ready_inv [OF assms(4)]])
  then have i1: "pcap_inv held queued P r W {l} s1 w (alive - {l})"
    using write_start_ok [OF E(3) i l] assms(10) by auto
  have ll: "l < length (g_pcap_core s)" "l < length (g_pcap_info s)" and t: "thread_type (info_at s l) = PCAP_WRITE"
    and l1: "l < length (g_pcap_core s1)"
    using pcap_invD(1) [OF i] pcap_invD(1) [OF i1] l(1) by (auto simp: pcap_shape_def)
  define s2 where "s2 = s1\<lparr>g_pcap_core := (g_pcap_core s1)[l := SPP_CORE_STOP]\<rparr>"
  have i2: "pcap_inv held queued P r W {l} s2 w (alive - {l})" using core_inv [OF i1] by (simp add: s2_def)
  have "pcap_slave_turn D R P L stamp (int l) s w = Some (Some (- 1), s2, w)"
    using slave_turn_body [OF ll, of D R P L stamp w] assms(8-10) t ll set_core_ok [OF l1]
    by (simp add: turn_request_def pcap_proc_write_def s2_def)
  moreover have "\<exists>s4. pcap_slave_turn D R P L stamp (int r) s3 w3 = Some (None, s4, w3) \<or>
      pcap_slave_turn D R P L stamp (int r) s3 w3 = Some (Some 0, s4, w3)"
    if "pcap_reach D R P L stamp (s2, w, alive - {l}) (s3, w3, alive3)" "r \<in> alive3" for s3 w3 alive3
  proof -
    have i3: "pcap_inv held queued P r W {l} s3 w3 alive3" by (rule reach_inv [OF E that(1) i2])
    note up = that(2)
    have lr: "r < length (g_pcap_core s3)" "r < length (g_pcap_info s3)" "thread_type (info_at s3 r) = PCAP_RECEIVE"
      using pcap_invD(1) [OF i3] by (auto simp: pcap_shape_def)
    show ?thesis
    proof (cases "g_pcap_core s3 ! r = SPP_CORE_STOP_REQUEST \<and> \<not> running s3 r")
      case True
      then show ?thesis using slave_turn_stop [OF lr(1,2), of D R P L stamp w3] by simp
    next
      case False
      obtain s4 where "pcap_proc_receive D R P L stamp (int r) (turn_request (int r) s3) w3 = Some (0, s4, w3)"
        using receive_ok [OF E(1,2) turn_request_inv [OF i3] up, of L stamp "int r"] l(1) by blast
      then show ?thesis using slave_turn_body [OF lr(1,2), of D R P L stamp w3] False lr(3) by auto
    qed
  qed
  ultimately show ?thesis by blast
qed

end
