(* ===== verification/Demo_Pcap.thy ===== *)
theory Demo_Pcap
  imports Demo_Packets Pcap_Round Pcap_Run
begin

text \<open>
  The witnesses of the theorems about spp_pcap: core 1 receives from port 0, core 2 writes.  A run is
  a list of events, the requests of the main thread and the iterations of the cores; the runs here
  are evaluated.
\<close>

section \<open>The environment\<close>

record pcap_world =
  pw_in :: "nat list"
  pw_held :: "nat list"
  pw_ring :: "nat list"

definition pcap_dpdk :: "pcap_world dpdk" where
  "pcap_dpdk = \<lparr>
     rte_eth_rx_burst = (\<lambda>p n w. (take n (pw_in w), w\<lparr>pw_in := drop n (pw_in w), pw_held := take n (pw_in w) @ pw_held w\<rparr>)),
     rte_eth_tx_burst = (\<lambda>p ids w. Some (0, w)),
     rte_pktmbuf_free = (\<lambda>i w. if i \<in> set (pw_held w) then Some (w\<lparr>pw_held := remove1 i (pw_held w)\<rparr>) else None),
     rte_mbuf_refcnt_update = (\<lambda>i k w. w\<lparr>pw_held := replicate (nat k) i @ pw_held w\<rparr>),
     mbuf_load = (\<lambda>w i. \<lparr>m_buf = [of_nat i, 0], m_off = 0, m_len = 2\<rparr>),
     mbuf_store = (\<lambda>i m w. w),
     rte_pktmbuf_prepend = (\<lambda>m n. None),
     rte_pktmbuf_adj = (\<lambda>m n. None),
     rte_net_crc_calc = (\<lambda>bs. 0)\<rparr>"

text \<open>The ring has room for one packet.\<close>

definition pcap_ring :: "pcap_world ring_ops" where
  "pcap_ring = \<lparr>
     rte_ring_enqueue_burst = (\<lambda>ids w. let k = min (length ids) (1 - length (pw_ring w)) in
        (k, w\<lparr>pw_ring := pw_ring w @ take k ids\<rparr>)),
     rte_ring_mc_dequeue_burst = (\<lambda>n w. (take n (pw_ring w), w\<lparr>pw_ring := drop n (pw_ring w)\<rparr>)),
     rte_pktmbuf_pkt_len = (\<lambda>w i. 2),
     mbuf_chain = (\<lambda>w i. [i])\<rparr>"

abbreviation demo_held :: "pcap_world \<Rightarrow> nat multiset" where
  "demo_held w \<equiv> mset (pw_held w)"

lemma demo_pcap_laws: "io_laws pcap_dpdk demo_held" "ring_laws pcap_dpdk pcap_ring demo_held pw_ring"
  by (auto simp: io_laws_def ring_laws_def pcap_dpdk_def pcap_ring_def Let_def)

text \<open>A frame of this LZ4 is the data between two marks; all calls succeed, or every fopen fails.\<close>

definition demo_lib :: "byte list lib" where
  "demo_lib = \<lparr>fault = (\<lambda>_. None), malloc_fails = (\<lambda>_. False), clock_gettime = (\<lambda>n. (int n, 5000)),
     LZ4F_compressBound = (\<lambda>n. n + 8), LZ4F_createCompressionContext = (\<lambda>_. Some []),
     LZ4F_compressBegin = (\<lambda>_ _. (Some [4], [])), LZ4F_compressUpdate = (\<lambda>c _ src. (Some src, c @ src)),
     LZ4F_compressEnd = (\<lambda>c _. (Some [0], c))\<rparr>"

definition demo_decode :: "byte list \<Rightarrow> byte list option" where
  "demo_decode d = Some (butlast (tl d))"

lemma demo_lib_ok: "no_failure demo_lib" "lz4_laws demo_lib (\<lambda>c. c) ((#) 4) demo_decode" "\<forall>n. \<not> malloc_fails demo_lib n"
  by (simp_all add: no_failure_def lz4_laws_def demo_lib_def demo_decode_def)

definition full_lib :: "byte list lib" where
  "full_lib = demo_lib\<lparr>fault := (\<lambda>_. Some 0)\<rparr>"

definition demo_option :: pcap_option where
  "demo_option = \<lparr>fsize_limit = 30, compress_file_path = ''/tmp'', compress_file_date = ''20190101120000'',
     port_cap = demo_port PHY 0 0, cap_ring = True\<rparr>"

definition demo_writer :: "byte list pcap_mng_info" where
  "demo_writer = \<lparr>thread_type = PCAP_WRITE, cap_status = SPP_CAPTURE_IDLE, thread_no = 1, file_no = 0,
     compress_file_name = [], ctx = None, compress_fp = None, outbuf_capacity = 0, outbuff = None, file_size = 0\<rparr>"

definition empty_host :: host where
  "empty_host = \<lparr>h_files = Map.empty, h_streams = Map.empty, h_blocks = {}, h_next = 3, h_calls = 0\<rparr>"

definition demo_pcap :: "byte list pcap_data" where
  "demo_pcap = \<lparr>
     g_pcap_startup = \<lparr>pst_client_id = 1, pst_server_ip = ''127.0.0.1'', pst_server_port = 6666\<rparr>,
     g_pcap_iface = \<lparr>pif_num_nic = 1, pif_num_ring = 0, pif_nic = [demo_port PHY 0 0], pif_ring = [demo_port UNDEF 0 (- 1)]\<rparr>, g_pcap_core = [SPP_CORE_IDLE, SPP_CORE_IDLE, SPP_CORE_IDLE],
     g_capture_request = SPP_CAPTURE_IDLE, g_capture_status = SPP_CAPTURE_IDLE, thread_cnt = 2, start_up_cnt = 0,
     g_pcap_option = demo_option,
     g_pcap_info = [demo_writer\<lparr>thread_type := PCAP_UNUSE\<rparr>, demo_writer\<lparr>thread_type := PCAP_RECEIVE, thread_no := 0\<rparr>, demo_writer],
     total_rx = 0, total_drop = 0, g_total_write = [0, 0, 0], pc_host = empty_host\<rparr>"

definition demo_pcap_world :: pcap_world where
  "demo_pcap_world = \<lparr>pw_in = [5, 6], pw_held = [], pw_ring = []\<rparr>"

lemma demo_pcap_ready: "pcap_ready demo_held pw_ring demo 1 {2} demo_pcap demo_pcap_world"
proof -
  have "plain_port demo 0 SPP_PORT_RXTX_RX"
    by (simp add: plain_port_def spp_port_ability_get_info_def ability_mng_def rd_def demo_defs)
  then show ?thesis
    by (simp add: pcap_ready_def pcap_shape_def running_def demo_pcap_def demo_pcap_world_def demo_writer_def
        empty_host_def demo_option_def demo_port_def)
qed

section \<open>Runs\<close>

datatype event = Request spp_capture_status | Turn nat

fun demo_run :: "byte list lib \<Rightarrow> event list \<Rightarrow> (byte list, pcap_world) pcap_state \<Rightarrow>
    (byte list, pcap_world) pcap_state option" where
  "demo_run L [] \<sigma> = Some \<sigma>"
| "demo_run L (Request q # es) (s, w, alive) = demo_run L es (s\<lparr>g_capture_request := q\<rparr>, w, alive)"
| "demo_run L (Turn l # es) (s, w, alive) =
    (if l \<in> alive then do {
       (res, s', w') \<leftarrow> pcap_slave_turn pcap_dpdk pcap_ring demo L (\<lambda>_. ''20190101120000'') (int l) s w;
       demo_run L es (s', w', if res = None then alive else alive - {l})
     } else None)"

abbreviation demo_reach :: "byte list lib \<Rightarrow> (byte list, pcap_world) pcap_state \<Rightarrow> (byte list, pcap_world) pcap_state \<Rightarrow> bool" where
  "demo_reach L \<equiv> pcap_reach pcap_dpdk pcap_ring demo L (\<lambda>_. ''20190101120000'')"

lemma demo_run_reach: "demo_run L es \<sigma> = Some \<sigma>' \<Longrightarrow> demo_reach L \<sigma> \<sigma>'"
proof (induction L es \<sigma> rule: demo_run.induct)
  case (2 L q es s w alive)
  then show ?case by (auto intro: converse_rtranclp_into_rtranclp pcap_step.request)
next
  case (3 L l es s w alive)
  then obtain res s' w' where t: "l \<in> alive"
      "pcap_slave_turn pcap_dpdk pcap_ring demo L (\<lambda>_. ''20190101120000'') (int l) s w = Some (res, s', w')"
      "demo_run L es (s', w', if res = None then alive else alive - {l}) = Some \<sigma>'"
    by (auto simp: bind_Some_iff split: if_splits)
  have "pcap_step pcap_dpdk pcap_ring demo L (\<lambda>_. ''20190101120000'') (s, w, alive)
      (s', w', if res = None then alive else alive - {l})"
    using t(1,2) pcap_step.turn pcap_step.finish by (cases res) fastforce+
  moreover have "demo_reach L (s', w', if res = None then alive else alive - {l}) \<sigma>'"
    using "3.IH" [OF t(1,2)] t(3) by auto
  ultimately show ?case by (rule converse_rtranclp_into_rtranclp)
qed simp

definition demo_start :: "(byte list, pcap_world) pcap_state" where
  "demo_start = (demo_pcap, demo_pcap_world, {1, 2})"

text \<open>A capture of two packets, of which the ring takes one; and how it ends.\<close>

definition demo_capture :: "event list" where
  "demo_capture = [Request SPP_CAPTURE_RUNNING, Turn 1, Turn 2, Turn 1]"

definition demo_end :: "event list" where
  "demo_end = demo_capture @ [Request SPP_CAPTURE_IDLE, Turn 1]"


lemma demo_rx: "spp_eth_rx_burst pcap_dpdk demo 0 n w =
    Some (take n (pw_in w), length (take n (pw_in w)), w\<lparr>pw_in := drop n (pw_in w), pw_held := take n (pw_in w) @ pw_held w\<rparr>)"
proof -
  have "plain_port demo 0 SPP_PORT_RXTX_RX"
    by (simp add: plain_port_def spp_port_ability_get_info_def ability_mng_def rd_def demo_defs)
  then show ?thesis by (subst plain_rx) (simp_all add: pcap_dpdk_def)
qed

text \<open>The calls, evaluated.\<close>

lemma demo_lib_simps [simp]: "fault demo_lib n = None" "malloc_fails demo_lib n = False" "clock_gettime demo_lib n = (int n, 5000)"
  "LZ4F_compressBound demo_lib n = n + 8" "LZ4F_createCompressionContext demo_lib n = Some []"
  "LZ4F_compressBegin demo_lib c n = (Some [4], [])" "LZ4F_compressUpdate demo_lib c n src = (Some src, c @ src)"
  "LZ4F_compressEnd demo_lib c n = (Some [0], c)"
  by (simp_all add: demo_lib_def)

lemma full_lib_simps [simp]: "fault full_lib n = Some 0" "malloc_fails full_lib n = False" "clock_gettime full_lib n = (int n, 5000)"
  "LZ4F_compressBound full_lib n = n + 8"
  by (simp_all add: full_lib_def)

lemma header_some [simp]: "pcap_file_header \<noteq> []" "pcap_packet_header t m n \<noteq> []"
  by (simp_all add: pcap_file_header_def pcap_packet_header_def le_bytes32_def)

lemma demo_fwrite [simp]: "f \<in> dom (h_streams h) \<Longrightarrow> fwrite demo_lib bs (Some f) h =
    Some (1, called h\<lparr>h_files := (h_files h)(the (h_streams h f) \<mapsto>
      (case h_files h (the (h_streams h f)) of Some d \<Rightarrow> d | None \<Rightarrow> []) @ bs)\<rparr>)"
  by (auto simp: fwrite_def Let_def)

lemmas demo_calls = put_info_def set_pcap_core_def one_less_def malloc_def fopen_def fclose_def free_def rename_def
  output_pcap_file_def output_lz4_pcap_file_def buffer_ok_def abandon_file_def open_capture_file_def
  file_compression_operation_def roll_file_def compress_file_packet_def called_def Let_def rd_def wr_def

lemmas demo_turn = pcap_slave_turn_def pcap_proc_receive_def pcap_proc_write_def pcap_write_start_def pcap_write_stop_def
  pkt_of_def TRANCATE_SNAPLEN_def PCAP_SNAPLEN_MAX_def

lemmas demo_state = demo_start_def demo_pcap_def demo_writer_def demo_option_def demo_port_def empty_host_def demo_pcap_world_def

lemma demo_free [simp]: "rte_pktmbuf_free pcap_dpdk i w =
    (if i \<in> set (pw_held w) then Some (w\<lparr>pw_held := remove1 i (pw_held w)\<rparr>) else None)"
  by (simp add: pcap_dpdk_def)

lemma demo_ring [simp]: 
  "rte_ring_mc_dequeue_burst pcap_ring n w = (take n (pw_ring w), w\<lparr>pw_ring := drop n (pw_ring w)\<rparr>)"
  "rte_ring_enqueue_burst pcap_ring ids w = (min (length ids) (1 - length (pw_ring w)),
     w\<lparr>pw_ring := pw_ring w @ take (min (length ids) (1 - length (pw_ring w))) ids\<rparr>)"
  "rte_pktmbuf_pkt_len pcap_ring w i = 2" "mbuf_chain pcap_ring w i = [i]"
  by (simp_all add: pcap_ring_def Let_def)

lemma demo_load [simp]: "length (frame (mbuf_load pcap_dpdk w i)) = 2"
  by (simp add: pcap_dpdk_def frame_def)

text \<open>The state in the middle of the capture.\<close>

lemma capture_state: "\<exists>s w. demo_run demo_lib demo_capture demo_start = Some (s, w, {1, 2}) \<and>
    pw_ring w = [5] \<and> running s 2 \<and> total_rx s = 2 \<and> total_drop s = 1"
  by (simp add: demo_capture_def demo_state demo_turn demo_calls MAX_PCAP_BURST_def demo_rx running_def)

lemma end_state: "\<exists>s w. demo_run demo_lib (demo_end @ [Turn 2, Turn 2]) demo_start = Some (s, w, {1, 2}) \<and>
    g_capture_status s = SPP_CAPTURE_IDLE \<and> \<not> running s 2 \<and> g_total_write s ! 2 = 1"
  by (simp add: demo_end_def demo_capture_def demo_state demo_turn demo_calls MAX_PCAP_BURST_def demo_rx running_def)

text \<open>The state after the capture was stopped, and the next iteration of the writer.\<close>

abbreviation demo_turn_of where
  "demo_turn_of L l s w \<equiv> pcap_slave_turn pcap_dpdk pcap_ring demo L (\<lambda>_. ''20190101120000'') (int l) s w"

lemma drain_state: "\<exists>s w s' w'. demo_run demo_lib demo_end demo_start = Some (s, w, {1, 2}) \<and>
    g_capture_status s = SPP_CAPTURE_IDLE \<and> running s 2 \<and> \<not> running s 1 \<and> pw_ring w = [5] \<and>
    demo_turn_of demo_lib 2 s w = Some (None, s', w') \<and> running s' 2 \<and> g_capture_status s' = SPP_CAPTURE_IDLE"
  by (simp add: demo_end_def demo_capture_def demo_state demo_turn demo_calls MAX_PCAP_BURST_def demo_rx running_def)

text \<open>The state in which the writer cannot open its file.\<close>

lemma full_state: "\<exists>s w s1. demo_run full_lib [Request SPP_CAPTURE_RUNNING, Turn 1] demo_start = Some (s, w, {1, 2}) \<and>
    g_capture_status s = SPP_CAPTURE_RUNNING \<and> g_pcap_core s ! 2 = SPP_CORE_IDLE \<and>
    pcap_write_start full_lib (int 2) s = Some (- 1, s1)"
  by (simp add: demo_state demo_turn demo_calls)

section \<open>Witnesses\<close>

lemma demo_reached: "demo_run L es demo_start = Some (s, w, {1, 2}) \<Longrightarrow>
    demo_reach L (demo_pcap, demo_pcap_world, insert 1 {2}) (s, w, {1, 2})"
  using demo_run_reach [of L es demo_start] by (simp add: demo_start_def)

lemma pcap_threads_safe_witness:
  "\<exists>s w. demo_run demo_lib demo_capture demo_start = Some (s, w, {1, 2}) \<and>
    (\<forall>l\<in>{1, 2}. demo_turn_of demo_lib l s w \<noteq> None) \<and> demo_held w = {#5#} \<and>
    dom (h_streams (pc_host s)) = {f. compress_fp (info_at s 2) = Some f} \<and>
    h_blocks (pc_host s) = {b. outbuff (info_at s 2) = Some b}"
proof -
  obtain s w where c: "demo_run demo_lib demo_capture demo_start = Some (s, w, {1, 2})" "pw_ring w = [5]" "running s 2"
    using capture_state by blast
  show ?thesis
    using pcap_threads_safe [OF demo_pcap_laws demo_lib_ok(3) demo_pcap_ready demo_reached [OF c(1)]] c by auto
qed


lemma drain_terminates_witness:
  "\<exists>s w s' w'. demo_run demo_lib demo_end demo_start = Some (s, w, {1, 2}) \<and> pw_ring w = [5] \<and> {l \<in> {2}. running s l} = {2} \<and>
    (drain_step pcap_dpdk pcap_ring demo demo_lib (\<lambda>_. ''20190101120000'') {2} ^^ 1) (s, w, {1, 2}) (s', w', {1, 2}) \<and>
    (1::nat) \<le> length (pw_ring w) + card {l \<in> {2}. running s l} \<and>
    (\<exists>\<sigma>. drain_step pcap_dpdk pcap_ring demo demo_lib (\<lambda>_. ''20190101120000'') {2} (s', w', {1, 2}) \<sigma>)"
proof -
  obtain s w s' w' where c: "demo_run demo_lib demo_end demo_start = Some (s, w, {1, 2})"
      "g_capture_status s = SPP_CAPTURE_IDLE" "running s 2" "pw_ring w = [5]"
      "demo_turn_of demo_lib 2 s w = Some (None, s', w')" "running s' 2" "g_capture_status s' = SPP_CAPTURE_IDLE"
    using drain_state by blast
  have "drain_step pcap_dpdk pcap_ring demo demo_lib (\<lambda>_. ''20190101120000'') {2} (s, w, {1, 2})
      (s', w', if None = (None :: int option) then {1, 2} else {1, 2} - {2})"
    by (rule drain_step.drain [OF _ _ c(3,2,5)]) simp_all
  then have d: "(drain_step pcap_dpdk pcap_ring demo demo_lib (\<lambda>_. ''20190101120000'') {2} ^^ 1) (s, w, {1, 2}) (s', w', {1, 2})"
    by (simp only: relpowp_1 if_True refl)
  have r: "{l \<in> {2}. running s l} = {2}" using c(3) by auto
  have e: "\<exists>l\<in>{2}. running s' l" using c(6) by blast
  show ?thesis
    using drain_terminates [OF demo_pcap_laws demo_lib_ok(3) demo_pcap_ready demo_reached [OF c(1)] d] c(1,4,7) e d r by blast
qed

lemma writer_failure_blocks_witness:
  "\<exists>s w s2. demo_run full_lib [Request SPP_CAPTURE_RUNNING, Turn 1] demo_start = Some (s, w, {1, 2}) \<and>
    g_capture_status s = SPP_CAPTURE_RUNNING \<and> demo_turn_of full_lib 2 s w = Some (Some (- 1), s2, w) \<and>
    (\<forall>s3 w3 alive3. demo_reach full_lib (s2, w, {1}) (s3, w3, alive3) \<and> 1 \<in> alive3 \<longrightarrow>
      (\<exists>s4. demo_turn_of full_lib 1 s3 w3 = Some (None, s4, w3) \<or> demo_turn_of full_lib 1 s3 w3 = Some (Some 0, s4, w3)))"
proof -
  obtain s w s1 where c: "demo_run full_lib [Request SPP_CAPTURE_RUNNING, Turn 1] demo_start = Some (s, w, {1, 2})"
      "g_capture_status s = SPP_CAPTURE_RUNNING" "g_pcap_core s ! 2 = SPP_CORE_IDLE"
      "pcap_write_start full_lib (int 2) s = Some (- 1, s1)"
    using full_state by blast
  have m: "\<forall>n. \<not> malloc_fails full_lib n" and a: "{1, 2} - {2} = {1 :: nat}" by auto
  have "2 \<in> {2 :: nat}" "2 \<in> {1, 2 :: nat}" "g_pcap_core s ! 2 \<noteq> SPP_CORE_STOP_REQUEST" using c(3) by simp_all
  from writer_failure_blocks [OF demo_pcap_laws m demo_pcap_ready demo_reached [OF c(1)] this(1,2) c(2) this(3) c(4)]
  show ?thesis unfolding a using c(1,2) by blast
qed

text \<open>Two packets, the first in two mbufs; the second packet begins a new file.\<close>

definition demo_packets :: "cap_pkt list" where
  "demo_packets = [(3, [[1, 2], [3]]), (2, [[7, 8]])]"

lemma capture_round_trip_witness:
  "\<exists>info1 h1 info2 h2 info3 h3 parts.
    file_compression_operation demo_lib demo_option demo_writer INIT_MODE empty_host = Some (0, info1, h1) \<and>
    write_burst demo_lib demo_option demo_packets info1 h1 = Some (0, info2, h2) \<and>
    file_compression_operation demo_lib demo_option info2 CLOSE_MODE h2 = Some (0, info3, h3) \<and>
    concat parts = demo_packets \<and> file_no info3 = int (length parts) \<and>
    (\<forall>k<length parts. \<exists>d bs.
       h_files h3 (save_file demo_option (capture_file_name demo_option 1 (int k + 1))) = Some d \<and>
       demo_decode d = Some bs \<and> parse_pcap bs = Some (List.map captured (parts ! k)))"
proof -
  have t: "thread_no demo_writer = 1" by (simp add: demo_writer_def)
  have "names_ok demo_option (thread_no demo_writer)"
    by (simp add: t names_ok_def demo_option_def demo_port_def PCAP_FPATH_STRLEN_def)
  moreover have "\<forall>p\<in>set demo_packets. pkt_ok p" by (simp add: demo_packets_def pkt_ok_def)
  moreover have "length demo_packets < 2 ^ 31" by (simp add: demo_packets_def)
  ultimately show ?thesis using capture_round_trip [OF demo_lib_ok(1,2), of demo_option demo_writer demo_packets empty_host] unfolding t by blast
qed

end
