(* ===== verification/Pcap_Dec.thy ===== *)
theory Pcap_Dec
  imports Command_Dec
begin

text \<open>
  pcap/command_dec.c: the decoder of the commands of spp_pcap.  None is undefined behaviour: a
  string that does not fit the buffer it is copied into, or a request without a word, whose
  argv[0] is NULL.  The record of an error has the same members as that of spp_vf.
\<close>

section \<open>Data\<close>

datatype parse_error_code = BAD_FORMAT | UNKNOWN_COMMAND | NO_PARAM | BAD_TYPE | BAD_VALUE

primrec parse_error_number :: "parse_error_code \<Rightarrow> int" where
  "parse_error_number BAD_FORMAT = 1"
| "parse_error_number UNKNOWN_COMMAND = 2"
| "parse_error_number NO_PARAM = 3"
| "parse_error_number BAD_TYPE = 4"
| "parse_error_number BAD_VALUE = 5"

datatype pcap_command_type = CMD_CLIENT_ID | CMD_STATUS | CMD_EXIT | CMD_START | CMD_STOP

record pcap_request =
  pr_num_command :: int
  pr_num_valid_command :: int
  pr_commands :: "pcap_command_type list"
  pr_client_id :: int
  pr_status :: int
  pr_exit :: int
  pr_start :: int
  pr_stop :: int

text \<open>The values that memset leaves.\<close>

definition zero_pcap_request :: pcap_request where
  "zero_pcap_request = \<lparr>pr_num_command = 0, pr_num_valid_command = 0,
     pr_commands = replicate SPP_CMD_MAX_COMMANDS CMD_CLIENT_ID,
     pr_client_id = 0, pr_status = 0, pr_exit = 0, pr_start = 0, pr_stop = 0\<rparr>"

definition zero_parse_error :: spp_command_decode_error where
  "zero_parse_error = \<lparr>de_code = 0, de_value_name = [], de_value = []\<rparr>"

section \<open>Parsing\<close>

definition set_parse_error ::
  "spp_command_decode_error \<Rightarrow> parse_error_code \<Rightarrow> string option \<Rightarrow> (int \<times> spp_command_decode_error) option" where
  "set_parse_error err code error_name = do {
     let err1 = err\<lparr>de_code := parse_error_number code\<rparr>;
     err2 \<leftarrow> (case error_name of None \<Rightarrow> Some err1
        | Some x \<Rightarrow> map_option (\<lambda>v. err1\<lparr>de_value_name := v\<rparr>) (strcpy_buf SPP_CMD_NAME_BUFSZ x));
     Some (de_code err2, err2)
   }"

definition set_string_value_parse_error ::
  "spp_command_decode_error \<Rightarrow> string \<Rightarrow> string \<Rightarrow> (int \<times> spp_command_decode_error) option" where
  "set_string_value_parse_error err value error_name = do {
     v \<leftarrow> strcpy_buf SPP_CMD_VALUE_BUFSZ value;
     set_parse_error (err\<lparr>de_value := v\<rparr>) BAD_VALUE (Some error_name)
   }"

text \<open>The words of the line; None when there are more than mx.\<close>

definition parse_parameter_value :: "string \<Rightarrow> nat \<Rightarrow> string list option" where
  "parse_parameter_value str mx =
    (let argv = tokens (\<lambda>c. c = CHR '' '') str in if length argv > mx then None else Some argv)"

definition command_list_pcap :: "(string \<times> nat \<times> nat \<times> pcap_command_type) list" where
  "command_list_pcap =
    [(''_get_client_id'', 1, 1, CMD_CLIENT_ID),
     (''status'', 1, 1, CMD_STATUS),
     (''exit'', 1, 1, CMD_EXIT),
     (''start'', 1, 1, CMD_START),
     (''stop'', 1, 1, CMD_STOP)]"

text \<open>The search of the list; Inl says whether the name was there, with another number of words.\<close>

fun search_command ::
  "(string \<times> nat \<times> nat \<times> pcap_command_type) list \<Rightarrow> string \<Rightarrow> nat \<Rightarrow> bool \<Rightarrow> bool + pcap_command_type" where
  "search_command [] nm argc command_name_check = Inl command_name_check"
| "search_command ((x, mn, mx, ty) # lst) nm argc command_name_check =
    (if nm \<noteq> x then search_command lst nm argc command_name_check
     else if argc < mn \<or> mx < argc then search_command lst nm argc True
     else Inr ty)"

text \<open>No command of the list has a handler (func is NULL).\<close>

definition parse_command_in_list ::
  "pcap_request \<Rightarrow> string \<Rightarrow> spp_command_decode_error \<Rightarrow> (int \<times> pcap_request \<times> spp_command_decode_error) option" where
  "parse_command_in_list req request_str err = do {
     tmp_str \<leftarrow> strcpy_buf (SPP_CMD_MAX_PARAMETERS * SPP_CMD_VALUE_BUFSZ) request_str;
     case parse_parameter_value tmp_str SPP_CMD_MAX_PARAMETERS of
       None \<Rightarrow> do { (code, err1) \<leftarrow> set_parse_error err BAD_FORMAT None; Some (code, req, err1) }
     | Some [] \<Rightarrow> None
     | Some (nm # args) \<Rightarrow>
         (case search_command command_list_pcap nm (Suc (length args)) False of
            Inr ty \<Rightarrow> Some (SPP_RET_OK, req\<lparr>pr_commands := (pr_commands req)[0 := ty]\<rparr>, err)
          | Inl True \<Rightarrow> do { (code, err1) \<leftarrow> set_parse_error err BAD_FORMAT None; Some (code, req, err1) }
          | Inl False \<Rightarrow> do { (code, err1) \<leftarrow> set_string_value_parse_error err nm ''command''; Some (code, req, err1) })
   }"

definition check_getter :: "pcap_command_type \<Rightarrow> pcap_request \<Rightarrow> pcap_request" where
  "check_getter ty req =
    (case ty of
       CMD_CLIENT_ID \<Rightarrow> req\<lparr>pr_client_id := 1\<rparr>
     | CMD_STATUS \<Rightarrow> req\<lparr>pr_status := 1\<rparr>
     | CMD_EXIT \<Rightarrow> req\<lparr>pr_exit := 1\<rparr>
     | CMD_START \<Rightarrow> req\<lparr>pr_start := 1\<rparr>
     | CMD_STOP \<Rightarrow> req\<lparr>pr_stop := 1\<rparr>)"

definition spp_command_parse_request ::
  "pcap_request \<Rightarrow> string \<Rightarrow> spp_command_decode_error \<Rightarrow> (int \<times> pcap_request \<times> spp_command_decode_error) option" where
  "spp_command_parse_request req request_str err = do {
     (ret, req1, err1) \<leftarrow> parse_command_in_list (req\<lparr>pr_num_command := 1\<rparr>) request_str err;
     if ret \<noteq> SPP_RET_OK then Some (ret, req1, err1)
     else do {
       let req2 = req1\<lparr>pr_num_valid_command := 1\<rparr>;
       Some (ret, fold check_getter (take (nat (pr_num_valid_command req2)) (pr_commands req2)) req2, err1)
     }
   }"

section \<open>Which lines are parsed\<close>

fun command_word :: "pcap_command_type \<Rightarrow> string" where
  "command_word CMD_CLIENT_ID = ''_get_client_id''"
| "command_word CMD_STATUS = ''status''"
| "command_word CMD_EXIT = ''exit''"
| "command_word CMD_START = ''start''"
| "command_word CMD_STOP = ''stop''"

abbreviation words_of :: "string \<Rightarrow> string list" where
  "words_of \<equiv> tokens (\<lambda>c. c = CHR '' '')"

lemma search_word: "search_command command_list_pcap (command_word ty) argc False = (if argc = 1 then Inr ty else Inl True)"
  by (cases ty) (auto simp: command_list_pcap_def)

lemma search_other: "nm \<notin> range command_word \<Longrightarrow> search_command command_list_pcap nm argc False = Inl False"
proof -
  assume "nm \<notin> range command_word"
  then have "nm \<noteq> command_word ty" for ty by blast
  from this [of CMD_CLIENT_ID] this [of CMD_STATUS] this [of CMD_EXIT] this [of CMD_START] this [of CMD_STOP]
  show ?thesis by (simp add: command_list_pcap_def)
qed

lemma parse_error_format [simp]: "set_parse_error err BAD_FORMAT None = Some (1, err\<lparr>de_code := 1\<rparr>)"
  by (simp add: set_parse_error_def)

lemma parse_error_command:
  "set_string_value_parse_error err nm ''command'' =
    (if length nm < SPP_CMD_VALUE_BUFSZ then Some (5, err\<lparr>de_value := nm, de_code := 5, de_value_name := ''command''\<rparr>) else None)"
  by (simp add: set_string_value_parse_error_def set_parse_error_def strcpy_buf_def SPP_CMD_NAME_BUFSZ_def)

lemmas parse_defs = parse_command_in_list_def parse_parameter_value_def strcpy_buf_def Let_def

text \<open>The outcomes of the parser, by the number of words.\<close>

lemma parse_many_words:
  "length line < 888 \<Longrightarrow> length (words_of line) > 8 \<Longrightarrow>
    parse_command_in_list req line err = Some (1, req, err\<lparr>de_code := 1\<rparr>)"
  by (simp add: parse_defs SPP_CMD_MAX_PARAMETERS_def SPP_CMD_VALUE_BUFSZ_def)

lemma parse_known_word:
  "length line < 888 \<Longrightarrow> words_of line = command_word ty # args \<Longrightarrow> length args < 8 \<Longrightarrow>
    parse_command_in_list req line err =
      (if args = [] then Some (0, req\<lparr>pr_commands := (pr_commands req)[0 := ty]\<rparr>, err) else Some (1, req, err\<lparr>de_code := 1\<rparr>))"
  by (simp add: parse_defs SPP_CMD_MAX_PARAMETERS_def SPP_CMD_VALUE_BUFSZ_def search_word)

lemma parse_unknown_word:
  "length line < 888 \<Longrightarrow> words_of line = nm # args \<Longrightarrow> nm \<notin> range command_word \<Longrightarrow> length args < 8 \<Longrightarrow>
    parse_command_in_list req line err =
      (if length nm < 111 then Some (5, req, err\<lparr>de_value := nm, de_code := 5, de_value_name := ''command''\<rparr>) else None)"
  by (simp add: parse_defs SPP_CMD_MAX_PARAMETERS_def SPP_CMD_VALUE_BUFSZ_def search_other parse_error_command)

lemma parse_no_word: "words_of line = [] \<Longrightarrow> parse_command_in_list req line err = None"
  by (simp add: parse_defs)

lemma parse_long_line: "888 \<le> length line \<Longrightarrow> parse_command_in_list req line err = None"
  by (simp add: parse_defs SPP_CMD_MAX_PARAMETERS_def SPP_CMD_VALUE_BUFSZ_def)

lemma pcap_request_None: "spp_command_parse_request req line err = None \<longleftrightarrow>
    parse_command_in_list (req\<lparr>pr_num_command := 1\<rparr>) line err = None"
  by (cases "parse_command_in_list (req\<lparr>pr_num_command := 1\<rparr>) line err")
    (auto simp: spp_command_parse_request_def Let_def)

lemma parse_request_defined:
  "spp_command_parse_request req line err \<noteq> None \<longleftrightarrow>
    length line \<le> 887 \<and> words_of line \<noteq> [] \<and>
    (length (words_of line) > 8 \<or> hd (words_of line) \<in> range command_word \<or> length (hd (words_of line)) \<le> 110)"
proof (cases "length line < 888")
  case len: True
  show ?thesis
  proof (cases "words_of line")
    case Nil
    then show ?thesis unfolding pcap_request_None by (simp add: parse_no_word)
  next
    case (Cons nm args)
    show ?thesis
    proof (cases "length args < 8")
      case few: True
      show ?thesis
      proof (cases "nm \<in> range command_word")
        case True
        then obtain ty where "nm = command_word ty" by blast
        with Cons have "words_of line = command_word ty # args" by simp
        then show ?thesis using len few unfolding pcap_request_None by (simp add: parse_known_word)
      next
        case False
        then show ?thesis using len few Cons unfolding pcap_request_None by (auto simp: parse_unknown_word)
      qed
    next
      case False
      then show ?thesis using len Cons unfolding pcap_request_None by (simp add: parse_many_words)
    qed
  qed
next
  case False
  then show ?thesis unfolding pcap_request_None by (simp add: parse_long_line)
qed

text \<open>C33: which requests spp_pcap survives: the parser is defined exactly for the lines of at most 887 bytes
  that have a word, and whose first word is a command or has at most 110 bytes unless there are
  more than eight words.  A longer line overruns the copy of the line, an empty one is compared
  as a NULL pointer, and a long unknown word overruns the error value, whatever was parsed before.\<close>

theorem pcap_request_defined:
  "spp_command_parse_request req line err \<noteq> None \<longleftrightarrow>
    length line \<le> 887 \<and> words_of line \<noteq> [] \<and>
    (length (words_of line) > 8 \<or> hd (words_of line) \<in> range command_word \<or> length (hd (words_of line)) \<le> 110)"
  by (rule parse_request_defined)

end
