(* ===== verification/Pcap_Command.thy ===== *)
theory Pcap_Command
  imports Pcap_Dec Pcap_Capture Command_Loop
begin

text \<open>
  pcap/command_proc.c: the commands of spp_pcap and their responses.  The writers of JSON text, the
  results of the commands and the connection are in the code textual copies of, or the same files
  as, those of spp_vf, and the definitions of Command_Json, Command_Proc and Command_Conn are used
  for them; what differs is here.
\<close>

section \<open>Status\<close>

definition CAPTURE_STATUS_STRINGS :: "spp_capture_status \<Rightarrow> string" where
  "CAPTURE_STATUS_STRINGS st = (case st of SPP_CAPTURE_IDLE \<Rightarrow> ''idle'' | SPP_CAPTURE_RUNNING \<Rightarrow> ''running'')"

definition pcap_get_client_id :: "'c pcap_data \<Rightarrow> int" where
  "pcap_get_client_id s = pst_client_id (g_pcap_startup s)"

text \<open>slaves is what RTE_LCORE_FOREACH_SLAVE enumerates.\<close>

fun pcap_iterate_core_info ::
  "(int \<Rightarrow> string \<Rightarrow> string \<Rightarrow> spp_port_index list \<Rightarrow> 'o \<Rightarrow> (int \<times> 'o) option) \<Rightarrow> 'c pcap_data \<Rightarrow> int list \<Rightarrow>
   'o \<Rightarrow> (int \<times> 'o) option" where
  "pcap_iterate_core_info element_proc s [] out = Some (SPP_RET_OK, out)"
| "pcap_iterate_core_info element_proc s (l # ls) out = do {
     st \<leftarrow> rd (g_pcap_core s) l;
     if st = SPP_CORE_UNUSE then pcap_iterate_core_info element_proc s ls out
     else do {
       (ret, out1) \<leftarrow> spp_pcap_get_core_status s l element_proc out;
       if ret \<noteq> 0 then Some (SPP_RET_NG, out1) else pcap_iterate_core_info element_proc s ls out1
     }
   }"

text \<open>pcap/spp_proc.c: spp_format_port_string knows two types.\<close>

definition pcap_format_port_string :: "port_type \<Rightarrow> int \<Rightarrow> int \<times> string" where
  "pcap_format_port_string t no =
    (case t of
       PHY \<Rightarrow> (SPP_RET_OK, ''phy'' @ '':'' @ show_int no)
     | RING \<Rightarrow> (SPP_RET_OK, ''ring'' @ '':'' @ show_int no)
     | _ \<Rightarrow> (SPP_RET_NG, []))"

definition append_capture_status_value :: "json_env \<Rightarrow> 'c pcap_data \<Rightarrow> string \<Rightarrow> outbuf \<Rightarrow> (int \<times> outbuf) option" where
  "append_capture_status_value M s nm out = append_json_str_value M nm (CAPTURE_STATUS_STRINGS (g_capture_status s)) out"

definition pcap_append_client_id :: "json_env \<Rightarrow> 'c pcap_data \<Rightarrow> string \<Rightarrow> outbuf \<Rightarrow> (int \<times> outbuf) option" where
  "pcap_append_client_id M s nm out = append_json_int_value M nm (pcap_get_client_id s) out"

definition pcap_append_process_type :: "json_env \<Rightarrow> string \<Rightarrow> outbuf \<Rightarrow> (int \<times> outbuf) option" where
  "pcap_append_process_type M nm out = append_json_str_value M nm ''pcap'' out"

text \<open>The string of the port is uninitialised when its type has no name.\<close>

definition append_port_entry :: "json_env \<Rightarrow> spp_port_index \<Rightarrow> outbuf \<Rightarrow> (int \<times> outbuf) option" where
  "append_port_entry M port out = in_tmp_buffer M
     (\<lambda>tmp. do {
        let (fret, fstr) = pcap_format_port_string (pi_iface_type port) (pi_iface_no port);
        ensure (fret = SPP_RET_OK);
        port_str \<leftarrow> strcpy_buf CMD_TAG_APPEND_SIZE fstr;
        append_json_str_value M ''port'' port_str tmp
      })
     (append_json_block_brackets M []) out"

fun append_port_entries :: "json_env \<Rightarrow> spp_port_index list \<Rightarrow> outbuf \<Rightarrow> (int \<times> outbuf) option" where
  "append_port_entries M [] out = Some (SPP_RET_OK, out)"
| "append_port_entries M (p # ps) out = json_seq (append_port_entry M p) (append_port_entries M ps) out"

definition pcap_append_port_array :: "json_env \<Rightarrow> string \<Rightarrow> spp_port_index list \<Rightarrow> outbuf \<Rightarrow> (int \<times> outbuf) option" where
  "pcap_append_port_array M nm ports out =
    in_tmp_buffer M (append_port_entries M ports) (append_json_array_brackets M nm) out"

definition append_pcap_core_element_value ::
  "json_env \<Rightarrow> int \<Rightarrow> string \<Rightarrow> string \<Rightarrow> spp_port_index list \<Rightarrow> outbuf \<Rightarrow> (int \<times> outbuf) option" where
  "append_pcap_core_element_value M lcore nm ty rxs out =
    (if ty = ''unuse'' then Some (SPP_RET_OK, out)
     else in_tmp_buffer M
       (json_seq (append_json_uint_value M ''core'' lcore) (json_seq (append_json_str_value M ''role'' ty)
         (if rxs \<noteq> [] then pcap_append_port_array M ''rx_port'' rxs
          else append_json_str_value M ''filename'' nm)))
       (append_json_block_brackets M []) out)"

definition pcap_append_core_value ::
  "json_env \<Rightarrow> int list \<Rightarrow> 'c pcap_data \<Rightarrow> string \<Rightarrow> outbuf \<Rightarrow> (int \<times> outbuf) option" where
  "pcap_append_core_value M slaves s nm out = in_tmp_buffer M
     (pcap_iterate_core_info (append_pcap_core_element_value M) s slaves) (append_json_array_brackets M nm) out"

definition pcap_response_info_list :: "json_env \<Rightarrow> int list \<Rightarrow> 'c pcap_data \<Rightarrow> command_response_list" where
  "pcap_response_info_list M slaves s =
    [(''client-id'', pcap_append_client_id M s), (''status'', append_capture_status_value M s),
     (''core'', pcap_append_core_value M slaves s)]"

definition pcap_append_info_value ::
  "json_env \<Rightarrow> int list \<Rightarrow> 'c pcap_data \<Rightarrow> string \<Rightarrow> outbuf \<Rightarrow> (int \<times> outbuf) option" where
  "pcap_append_info_value M slaves s nm out = in_tmp_buffer M
     (append_response_list_value M (pcap_response_info_list M slaves s)) (append_json_block_brackets M nm) out"

section \<open>Errors\<close>

definition parse_error_message :: "spp_command_decode_error \<Rightarrow> string option" where
  "parse_error_message e =
    strcpy_buf CMD_RES_ERR_MSG_SIZE
      (if de_code e = parse_error_number BAD_FORMAT then ''bad message format''
       else if de_code e = parse_error_number UNKNOWN_COMMAND then ''unknown command('' @ de_value e @ '')''
       else if de_code e = parse_error_number NO_PARAM then ''not enough parameter('' @ de_value_name e @ '')''
       else if de_code e = parse_error_number BAD_TYPE then ''bad value type('' @ de_value_name e @ '')''
       else if de_code e = parse_error_number BAD_VALUE then ''bad value('' @ de_value_name e @ '')''
       else ''error occur'')"

definition set_parse_error_to_results ::
  "command_result list \<Rightarrow> pcap_request \<Rightarrow> spp_command_decode_error \<Rightarrow> command_result list option" where
  "set_parse_error_to_results rs req e = do {
     rs1 \<leftarrow> set_results_from (if de_code e = 0 then CRES_SUCCESS else CRES_INVALID) 0 (nat (pr_num_command req)) rs;
     if de_code e = 0 then Some rs1
     else do {
       m \<leftarrow> parse_error_message e;
       set_command_results CRES_FAILURE m (pr_num_valid_command req) rs1
     }
   }"

section \<open>Messages\<close>

definition send_parse_error_response ::
  "json_env \<Rightarrow> 'w net \<Rightarrow> pcap_request \<Rightarrow> command_result list \<Rightarrow> int \<Rightarrow> 'w \<Rightarrow> (int \<times> 'w) option" where
  "send_parse_error_response M N req results sock w = do {
     tmp \<leftarrow> spp_strbuf_allocate (malloc_ok M) CMD_RES_BUF_INIT_SIZE;
     if tmp = None then Some (sock, w)
     else do {
       (ret, tmp1) \<leftarrow> append_command_results_value M ''results'' (pr_num_command req) results tmp;
       if ret < SPP_RET_OK then Some (sock, w)
       else do {
         msg \<leftarrow> response_message M tmp1;
         case msg of
           None \<Rightarrow> Some (sock, w)
         | Some m \<Rightarrow> Some (snd (spp_send_message N sock m w))
       }
     }
   }"

text \<open>The code of the process type is not tested before the next member is written.\<close>

definition pcap_append_requested_id :: "json_env \<Rightarrow> 'c pcap_data \<Rightarrow> outbuf \<Rightarrow> (int \<times> outbuf) option" where
  "pcap_append_requested_id M s tmp = do {
     (ret, tmp1) \<leftarrow> pcap_append_client_id M s ''client_id'' tmp;
     if ret < SPP_RET_OK then Some (SPP_RET_NG, tmp1)
     else do {
       (ret1, tmp2) \<leftarrow> pcap_append_process_type M ''process_type'' tmp1;
       Some (SPP_RET_OK, tmp2)
     }
   }"

text \<open>The request to start or to stop the capture is made while the response is built, after its
  members: it is not made when one of them cannot be written.\<close>

definition request_capture :: "pcap_request \<Rightarrow> 'c pcap_data \<Rightarrow> 'c pcap_data" where
  "request_capture req s =
    (let s1 = (if pr_start req \<noteq> 0 then s\<lparr>g_capture_request := SPP_CAPTURE_RUNNING\<rparr> else s) in
     if pr_stop req \<noteq> 0 then s1\<lparr>g_capture_request := SPP_CAPTURE_IDLE\<rparr> else s1)"

definition pcap_send_command_result_response ::
  "json_env \<Rightarrow> int list \<Rightarrow> 'w net \<Rightarrow> pcap_request \<Rightarrow> command_result list \<Rightarrow> int \<Rightarrow> 'c pcap_data \<Rightarrow> 'w \<Rightarrow>
   (int \<times> 'c pcap_data \<times> 'w) option" where
  "pcap_send_command_result_response M slaves N req results sock s w = do {
     tmp \<leftarrow> spp_strbuf_allocate (malloc_ok M) CMD_RES_BUF_INIT_SIZE;
     if tmp = None then Some (sock, s, w)
     else do {
       (ret, tmp1) \<leftarrow> append_command_results_value M ''results'' (pr_num_command req) results tmp;
       if ret < SPP_RET_OK then Some (sock, s, w)
       else do {
         (ret1, tmp2) \<leftarrow> (if pr_client_id req \<noteq> 0 then pcap_append_requested_id M s tmp1 else Some (SPP_RET_OK, tmp1));
         if ret1 < SPP_RET_OK then Some (sock, s, w)
         else do {
           (ret2, tmp3) \<leftarrow> (if pr_status req \<noteq> 0
             then pcap_append_info_value M slaves s ''info'' tmp2 else Some (SPP_RET_OK, tmp2));
           if ret2 < SPP_RET_OK then Some (sock, s, w)
           else do {
             let s1 = request_capture req s;
             msg \<leftarrow> response_message M tmp3;
             case msg of
               None \<Rightarrow> Some (sock, s1, w)
             | Some m \<Rightarrow> (case spp_send_message N sock m w of (ret3, sock1, w1) \<Rightarrow> Some (sock1, s1, w1))
           }
         }
       }
     }
   }"

section \<open>Requests\<close>

text \<open>To execute a command writes a log message and succeeds.\<close>

definition pcap_execute_command :: "pcap_command_type \<Rightarrow> int" where
  "pcap_execute_command ty = SPP_RET_OK"

fun pcap_execute_commands ::
  "pcap_command_type list \<Rightarrow> nat \<Rightarrow> command_result list \<Rightarrow> command_result list option" where
  "pcap_execute_commands [] i rs = Some rs"
| "pcap_execute_commands (c # cs) i rs =
    (if pcap_execute_command c \<noteq> SPP_RET_OK
     then do {
       rs1 \<leftarrow> set_command_results CRES_FAILURE ''error occur'' (int i) rs;
       set_results_from CRES_INVALID (Suc i) (length cs) rs1
     }
     else do {
       rs1 \<leftarrow> set_command_results CRES_SUCCESS [] (int i) rs;
       pcap_execute_commands cs (Suc i) rs1
     })"

definition pcap_process_request ::
  "json_env \<Rightarrow> int list \<Rightarrow> 'w net \<Rightarrow> string \<Rightarrow> int \<Rightarrow> 'c pcap_data \<Rightarrow> 'w \<Rightarrow>
   (int \<times> int \<times> 'c pcap_data \<times> 'w) option" where
  "pcap_process_request M slaves N request_str sock s w = do {
     (ret, req, err) \<leftarrow> spp_command_parse_request zero_pcap_request request_str zero_parse_error;
     let rs = replicate SPP_CMD_MAX_COMMANDS zero_result;
     if ret \<noteq> SPP_RET_OK
     then do {
       rs1 \<leftarrow> set_parse_error_to_results rs req err;
       (sock1, w1) \<leftarrow> send_parse_error_response M N req rs1 sock w;
       Some (SPP_RET_OK, sock1, s, w1)
     }
     else do {
       rs1 \<leftarrow> pcap_execute_commands (take (nat (pr_num_command req)) (pr_commands req)) 0 rs;
       if pr_exit req \<noteq> 0
       then do {
         rs2 \<leftarrow> set_command_results CRES_SUCCESS [] 0 rs1;
         (sock1, s1, w1) \<leftarrow> pcap_send_command_result_response M slaves N req rs2 sock s w;
         Some (SPP_RET_NG, sock1, s1, w1)
       }
       else do {
         (sock1, s1, w1) \<leftarrow> pcap_send_command_result_response M slaves N req rs1 sock s w;
         Some (SPP_RET_OK, sock1, s1, w1)
       }
     }
   }"

section \<open>One turn of the main loop\<close>

definition pcap_command_proc_do ::
  "json_env \<Rightarrow> 'w net \<Rightarrow> int list \<Rightarrow> conn_data \<Rightarrow> command_loop \<Rightarrow> 'c pcap_data \<Rightarrow> 'w \<Rightarrow>
   (int \<times> command_loop \<times> 'c pcap_data \<times> 'w) option" where
  "pcap_command_proc_do M N slaves c lp s w = do {
     mb \<leftarrow> (if lp_msgbuf lp = None then spp_strbuf_allocate (malloc_ok M) CMD_REQ_BUF_INIT_SIZE
       else Some (lp_msgbuf lp));
     case mb of
       None \<Rightarrow> Some (SPP_RET_NG, lp, s, w)
     | Some buf \<Rightarrow>
        (case spp_connect_to_controller N c (lp_sock lp) w of (cret, sock, w1) \<Rightarrow>
           if cret \<noteq> SPP_RET_OK then Some (SPP_RET_OK, \<lparr>lp_sock = sock, lp_msgbuf = mb\<rparr>, s, w1)
           else do {
             (msg_ret, sock2, buf2, w2) \<leftarrow> spp_receive_message (malloc_ok M) N sock buf w1;
             if msg_ret \<le> 0
             then Some (if msg_ret = 0 \<or> msg_ret = SPP_CONNERR_TEMPORARY then SPP_RET_OK else SPP_RET_NG,
                 \<lparr>lp_sock = sock2, lp_msgbuf = Some buf2\<rparr>, s, w2)
             else do {
               line \<leftarrow> buf_text (Some buf2);
               (ret, sock3, s', w3) \<leftarrow> pcap_process_request M slaves N line sock2 s w2;
               buf3 \<leftarrow> spp_strbuf_remove_front buf2 (of_int msg_ret);
               Some (ret, \<lparr>lp_sock = sock3, lp_msgbuf = Some buf3\<rparr>, s', w3)
             }
           })
   }"

text \<open>The loop of main, at most n turns; None in the result says that the loop goes on.\<close>

fun pcap_accept_commands ::
  "nat \<Rightarrow> json_env \<Rightarrow> 'w net \<Rightarrow> int \<Rightarrow> int list \<Rightarrow> conn_data \<Rightarrow> command_loop \<Rightarrow> 'c pcap_data \<Rightarrow> 'w \<Rightarrow>
   (int option \<times> command_loop \<times> 'c pcap_data \<times> 'w) option" where
  "pcap_accept_commands 0 M N main_lcore slaves c lp s w = Some (None, lp, s, w)"
| "pcap_accept_commands (Suc n) M N main_lcore slaves c lp s w = do {
     st \<leftarrow> rd (g_pcap_core s) main_lcore;
     if st = SPP_CORE_STOP_REQUEST then Some (Some SPP_RET_OK, lp, s, w)
     else do {
       (ret, lp', s', w') \<leftarrow> pcap_command_proc_do M N slaves c lp s w;
       if ret \<noteq> SPP_RET_OK
       then do { s2 \<leftarrow> set_all_pcap_cores slaves SPP_CORE_STOP_REQUEST s'; Some (Some SPP_RET_NG, lp', s2, w') }
       else pcap_accept_commands n M N main_lcore slaves c lp' s' (net_usleep N 100 w')
     }
   }"

end
