(* ===== verification/Pcap_Answer.thy ===== *)
theory Pcap_Answer
  imports Pcap_Command
begin

text \<open>
  What spp_pcap answers: the responses as JSON values, written out over the state of the threads, and
  the proof that the commands do what they say and the messages are their texts.
\<close>

section \<open>The values\<close>

definition pcap_port_text :: "spp_port_index \<Rightarrow> string" where
  "pcap_port_text p = snd (pcap_format_port_string (pi_iface_type p) (pi_iface_no p))"

definition captured_port :: "'c pcap_data \<Rightarrow> spp_port_index" where
  "captured_port s = \<lparr>pi_iface_type = iface_type (port_cap (g_pcap_option s)), pi_iface_no = iface_no (port_cap (g_pcap_option s))\<rparr>"

text \<open>The receiver shows its port, a writer the path of the file it writes.\<close>

definition file_shown :: "'c pcap_data \<Rightarrow> int \<Rightarrow> string" where
  "file_shown s l = (let info = g_pcap_info s ! nat l in
     if compress_fp info = None then []
     else take 142 (compress_file_path (g_pcap_option s) @ ''/'' @ compress_file_name info))"

definition thread_members :: "'c pcap_data \<Rightarrow> int \<Rightarrow> (string \<times> json) list" where
  "thread_members s l =
    (if thread_type (g_pcap_info s ! nat l) = PCAP_RECEIVE
     then [(''core'', JInt l), (''role'', JStr ''receive''),
       (''rx_port'', JArr [JObj [(''port'', JStr (pcap_port_text (captured_port s)))]])]
     else [(''core'', JInt l), (''role'', JStr ''write''), (''filename'', JStr (file_shown s l))])"

definition pcap_status_members :: "int list \<Rightarrow> 'c pcap_data \<Rightarrow> (string \<times> json) list" where
  "pcap_status_members slaves s =
    [(''client-id'', JInt (pst_client_id (g_pcap_startup s))),
     (''status'', JStr (CAPTURE_STATUS_STRINGS (g_capture_status s))),
     (''core'', JArr (map (\<lambda>l. JObj (thread_members s l)) (filter (\<lambda>l. g_pcap_core s ! nat l \<noteq> SPP_CORE_UNUSE) slaves)))]"

definition pcap_answer :: "int list \<Rightarrow> 'c pcap_data \<Rightarrow> pcap_command_type \<Rightarrow> (string \<times> json) list" where
  "pcap_answer slaves s ty = (''results'', JArr [JObj [(''result'', JStr ''success'')]]) #
    (case ty of
       CMD_CLIENT_ID \<Rightarrow> [(''client_id'', JInt (pst_client_id (g_pcap_startup s))), (''process_type'', JStr ''pcap'')]
     | CMD_STATUS \<Rightarrow> [(''info'', JObj (pcap_status_members slaves s))]
     | _ \<Rightarrow> [])"

text \<open>The state of the threads when the controller can ask: every worker has its role, the port
  has a type and a number, and the strings are C strings.\<close>

definition status_ready :: "int list \<Rightarrow> 'c pcap_data \<Rightarrow> bool" where
  "status_ready slaves s \<longleftrightarrow>
    (\<forall>l\<in>set slaves. 0 \<le> l \<and> l < 2 ^ 31 \<and> nat l < length (g_pcap_core s) \<and> nat l < length (g_pcap_info s) \<and>
       thread_type (g_pcap_info s ! nat l) \<noteq> PCAP_UNUSE \<and> NUL \<notin> set (compress_file_name (g_pcap_info s ! nat l))) \<and>
    iface_type (port_cap (g_pcap_option s)) \<in> {PHY, RING} \<and>
    0 \<le> iface_no (port_cap (g_pcap_option s)) \<and> iface_no (port_cap (g_pcap_option s)) < 2 ^ 31 \<and>
    NUL \<notin> set (compress_file_path (g_pcap_option s)) \<and>
    - (2 ^ 31) \<le> pst_client_id (g_pcap_startup s) \<and> pst_client_id (g_pcap_startup s) < 2 ^ 31"

section \<open>The writers\<close>

lemma pcap_lits [simp]: "NUL \<notin> set ''role''" "NUL \<notin> set ''filename''" "NUL \<notin> set ''receive''" "NUL \<notin> set ''write''"
  "NUL \<notin> set ''status''" "NUL \<notin> set ''pcap''" "NUL \<notin> set ''success''" "NUL \<notin> set ''idle''" "NUL \<notin> set ''running''"
  by (simp_all add: NUL_def)

lemma port_shown:
  assumes "status_ready slaves s"
  shows "NUL \<notin> set (pcap_port_text (captured_port s))"
    and "pcap_format_port_string (pi_iface_type (captured_port s)) (pi_iface_no (captured_port s)) =
      (SPP_RET_OK, pcap_port_text (captured_port s))"
    and "strcpy_buf CMD_TAG_APPEND_SIZE (pcap_port_text (captured_port s)) = Some (pcap_port_text (captured_port s))"
proof -
  let ?n = "iface_no (port_cap (g_pcap_option s))"
  have t: "iface_type (port_cap (g_pcap_option s)) = PHY \<or> iface_type (port_cap (g_pcap_option s)) = RING"
    and n: "0 \<le> ?n" "?n < 2 ^ 31" using assms by (auto simp: status_ready_def)
  have "nat ?n < 10 ^ Suc 9" using n by simp
  then have "length (show_nat (nat ?n)) \<le> 10" using show_nat_length [of "nat ?n" 9] by simp
  then have "length (show_int ?n) \<le> 10" using n(1) by (simp add: show_int_def)
  then show "NUL \<notin> set (pcap_port_text (captured_port s))"
    and "pcap_format_port_string (pi_iface_type (captured_port s)) (pi_iface_no (captured_port s)) =
      (SPP_RET_OK, pcap_port_text (captured_port s))"
    and "strcpy_buf CMD_TAG_APPEND_SIZE (pcap_port_text (captured_port s)) = Some (pcap_port_text (captured_port s))"
    using t show_int_no_nul [of ?n]
    by (auto simp: pcap_port_text_def captured_port_def pcap_format_port_string_def strcpy_buf_def CMD_TAG_APPEND_SIZE_def)
qed

lemma emits_port_entry:
  assumes "pcap_format_port_string (pi_iface_type p) (pi_iface_no p) = (SPP_RET_OK, x)"
    and "strcpy_buf CMD_TAG_APPEND_SIZE x = Some x" and "NUL \<notin> set x"
  shows "emits M (append_port_entry M p) [render (JObj [(''port'', JStr x)])]"
proof -
  have "append_port_entry M p = in_tmp_buffer M (append_json_str_value M ''port'' x) (append_json_block_brackets M [])"
    using assms(1,2) by (intro ext) (simp add: append_port_entry_def)
  moreover have "emits M (append_json_str_value M ''port'' x) [member_text (''port'', JStr x)]"
    using assms(3) by (intro emits_str) auto
  ultimately show ?thesis using emits_noname [of M _ _ "[(''port'', JStr x)]"] assms(3) by simp
qed

lemma file_shown_no_nul: "status_ready slaves s \<Longrightarrow> l \<in> set slaves \<Longrightarrow> NUL \<notin> set (file_shown s l)"
  by (auto simp: file_shown_def status_ready_def Let_def NUL_def dest!: in_set_takeD)

lemma thread_members_ok: "status_ready slaves s \<Longrightarrow> l \<in> set slaves \<Longrightarrow> members_ok (thread_members s l)"
  using port_shown(1) [of slaves s] file_shown_no_nul [of slaves s l]
  by (auto simp: thread_members_def status_ready_def)

lemma emits_thread:
  assumes ready: "status_ready slaves s" and l: "l \<in> set slaves"
  shows "emits M (spp_pcap_get_core_status s l (append_pcap_core_element_value M)) [render (JObj (thread_members s l))]"
proof -
  let ?info = "g_pcap_info s ! nat l"
  note ok = thread_members_ok [OF ready l]
  have rd: "rd (g_pcap_info s) l = Some ?info" "0 \<le> l" "l < 2 ^ 31" and ty: "thread_type ?info \<noteq> PCAP_UNUSE"
    using ready l by (auto simp: status_ready_def rd_def)
  have core: "emits M (append_json_uint_value M ''core'' l) [member_text (''core'', JInt l)]"
    using rd(2,3) by (intro emits_int) auto
  have role: "emits M (append_json_str_value M ''role'' r) [member_text (''role'', JStr r)]"
    if "r = ''receive'' \<or> r = ''write''" for r using that by (intro emits_str) auto
  have wrap: "emits M (\<lambda>out. do { (ret, out') \<leftarrow> f out; Some (if ret \<noteq> 0 then SPP_RET_NG else SPP_RET_OK, out') }) [x]"
    if "emits M f [x]" for f x using that by (fastforce simp: emits_def)
  show ?thesis
  proof (cases "thread_type ?info = PCAP_RECEIVE")
    case True
    let ?x = "pcap_port_text (captured_port s)"
    have "append_port_entries M [captured_port s] =
        json_seq (append_port_entry M (captured_port s)) (\<lambda>out. Some (SPP_RET_OK, out))"
      by (rule ext) (simp add: json_seq_def cong: if_cong)
    then have "emits M (append_port_entries M [captured_port s]) (map render [JObj [(''port'', JStr ?x)]])"
      using emits_seq [OF emits_port_entry [OF port_shown(2,3,1) [OF ready]] emits_id] by simp
    then have "emits M (in_tmp_buffer M (append_port_entries M [captured_port s]) (append_json_array_brackets M ''rx_port''))
        [member_text (''rx_port'', JArr [JObj [(''port'', JStr ?x)]])]"
      by (rule emits_array_tmp) (use port_shown(1) [OF ready] in auto)
    then have "emits M (pcap_append_port_array M ''rx_port'' [captured_port s])
        [member_text (''rx_port'', JArr [JObj [(''port'', JStr ?x)]])]"
      unfolding pcap_append_port_array_def [abs_def] .
    from emits_seq [OF core emits_seq [OF role [of "''receive''"] this]]
    have "emits M (in_tmp_buffer M (json_seq (append_json_uint_value M ''core'' l) (json_seq (append_json_str_value M ''role'' ''receive'')
        (pcap_append_port_array M ''rx_port'' [captured_port s]))) (append_json_block_brackets M [])) [render (JObj (thread_members s l))]"
      using True ok by (intro emits_noname) (auto simp: thread_members_def)
    from wrap [OF this] show ?thesis using True rd(1)
      by (simp add: spp_pcap_get_core_status_def [abs_def] append_pcap_core_element_value_def captured_port_def Let_def del: render.simps)
  next
    case False
    then have w: "thread_type ?info = PCAP_WRITE" using ty by (cases "thread_type ?info") auto
    have "emits M (append_json_str_value M ''filename'' (file_shown s l)) [member_text (''filename'', JStr (file_shown s l))]"
      using file_shown_no_nul [OF ready l] by (intro emits_str) auto
    from emits_seq [OF core emits_seq [OF role [of "''write''"] this]]
    have "emits M (in_tmp_buffer M (json_seq (append_json_uint_value M ''core'' l) (json_seq (append_json_str_value M ''role'' ''write'')
        (append_json_str_value M ''filename'' (file_shown s l)))) (append_json_block_brackets M [])) [render (JObj (thread_members s l))]"
      using False ok by (intro emits_noname) (auto simp: thread_members_def)
    from wrap [OF this] show ?thesis using w rd(1)
      by (cases "compress_fp ?info")
        (simp_all add: spp_pcap_get_core_status_def [abs_def] append_pcap_core_element_value_def file_shown_def snprintf_buf_def
          PCAP_FPATH_STRLEN_def Let_def del: render.simps)
  qed
qed

lemma emits_threads:
  assumes "status_ready slaves s"
  shows "set ls \<subseteq> set slaves \<Longrightarrow> emits M (pcap_iterate_core_info (append_pcap_core_element_value M) s ls)
    (map render (map (\<lambda>l. JObj (thread_members s l)) (filter (\<lambda>l. g_pcap_core s ! nat l \<noteq> SPP_CORE_UNUSE) ls)))"
proof (induction ls)
  case Nil
  have "pcap_iterate_core_info (append_pcap_core_element_value M) s [] = (\<lambda>out. Some (SPP_RET_OK, out))" by (rule ext) simp
  then show ?case using emits_id by simp
next
  case (Cons l ls)
  have rd: "rd (g_pcap_core s) l = Some (g_pcap_core s ! nat l)" using assms Cons.prems by (auto simp: status_ready_def rd_def)
  show ?case
  proof (cases "g_pcap_core s ! nat l = SPP_CORE_UNUSE")
    case True
    then have "pcap_iterate_core_info (append_pcap_core_element_value M) s (l # ls) =
        pcap_iterate_core_info (append_pcap_core_element_value M) s ls" using rd by (intro ext) simp
    then show ?thesis using Cons True by simp
  next
    case False
    have eq: "pcap_iterate_core_info (append_pcap_core_element_value M) s (l # ls) = (\<lambda>out. do {
        (ret, out1) \<leftarrow> spp_pcap_get_core_status s l (append_pcap_core_element_value M) out;
        if ret \<noteq> 0 then Some (SPP_RET_NG, out1) else pcap_iterate_core_info (append_pcap_core_element_value M) s ls out1 })"
      using rd False by (intro ext) simp
    show ?thesis unfolding eq
      using emits_bind0 [OF emits_thread [OF assms, of l] Cons.IH] Cons.prems False by (simp del: render.simps)
  qed
qed

lemma emits_pcap_client: "status_ready slaves s \<Longrightarrow> NUL \<notin> set nm \<Longrightarrow>
    emits M (pcap_append_client_id M s nm) [member_text (nm, JInt (pst_client_id (g_pcap_startup s)))]"
  unfolding pcap_append_client_id_def [abs_def] pcap_get_client_id_def by (intro emits_int) (auto simp: status_ready_def)

lemma emits_pcap_info:
  assumes ready: "status_ready slaves s"
  shows "emits M (pcap_append_info_value M slaves s ''info'') [member_text (''info'', JObj (pcap_status_members slaves s))]"
proof -
  let ?st = "CAPTURE_STATUS_STRINGS (g_capture_status s)"
  let ?cores = "map (\<lambda>l. JObj (thread_members s l)) (filter (\<lambda>l. g_pcap_core s ! nat l \<noteq> SPP_CORE_UNUSE) slaves)"
  let ?ms = "pcap_status_members slaves s"
  have st: "NUL \<notin> set ?st" by (cases "g_capture_status s") (simp_all add: CAPTURE_STATUS_STRINGS_def)
  have cores: "\<forall>j\<in>set ?cores. json_ok j" using thread_members_ok [OF ready] by auto
  have ok: "members_ok ?ms" using st cores ready by (auto simp: pcap_status_members_def status_ready_def)
  have id: "emits M (pcap_append_client_id M s ''client-id'') [member_text (''client-id'', JInt (pst_client_id (g_pcap_startup s)))]"
    by (rule emits_pcap_client [OF ready lits_no_nul(15)])
  have status: "emits M (append_capture_status_value M s ''status'') [member_text (''status'', JStr ?st)]"
    unfolding append_capture_status_value_def [abs_def] using st by (intro emits_str) auto
  have core: "emits M (pcap_append_core_value M slaves s ''core'') [member_text (''core'', JArr ?cores)]"
    unfolding pcap_append_core_value_def [abs_def] using cores emits_threads [OF ready order_refl, of M]
    by (intro emits_array_tmp) auto
  have "emits M (append_response_list_value M (pcap_response_info_list M slaves s)) (concat (map (\<lambda>m. [member_text m]) ?ms))"
  proof (rule emits_response_list)
    show "list_all2 (\<lambda>(tag, f) xs. emits M (f tag) xs \<and> [] \<notin> set xs \<and> length xs \<le> 1)
        (pcap_response_info_list M slaves s) (map (\<lambda>m. [member_text m]) ?ms)"
      unfolding pcap_status_members_def pcap_response_info_list_def using id status core by (auto dest: sym)
    show "\<forall>xs\<in>set (map (\<lambda>m. [member_text m]) ?ms). \<forall>x\<in>set xs. NUL \<notin> set x" using ok member_no_nul by auto
  qed
  moreover have "concat (map (\<lambda>m. [member_text m]) ?ms) = map member_text ?ms" by (simp add: pcap_status_members_def)
  ultimately have "emits M (in_tmp_buffer M (append_response_list_value M (pcap_response_info_list M slaves s)) (append_json_block_brackets M ''info''))
      [if ''info'' = [] then render (JObj ?ms) else member_text (''info'', JObj ?ms)]"
    using ok lits_no_nul by (intro emits_block_tmp) auto
  then show ?thesis unfolding pcap_append_info_value_def [abs_def] by simp
qed

lemma emits_pcap_id:
  assumes ready: "status_ready slaves s"
  shows "emits M (pcap_append_requested_id M s)
    [member_text (''client_id'', JInt (pst_client_id (g_pcap_startup s))), member_text (''process_type'', JStr ''pcap'')]"
proof -
  have c: "emits M (pcap_append_client_id M s ''client_id'') [member_text (''client_id'', JInt (pst_client_id (g_pcap_startup s)))]"
    by (rule emits_pcap_client [OF ready lits_no_nul(21)])
  have e: "emits M (pcap_append_process_type M ''process_type'') [member_text (''process_type'', JStr ''pcap'')]"
    unfolding pcap_append_process_type_def [abs_def] by (intro emits_str) auto
  have u: "emits M (\<lambda>out. do { (ret1, out2) \<leftarrow> pcap_append_process_type M ''process_type'' out; Some (SPP_RET_OK, out2) })
      [member_text (''process_type'', JStr ''pcap'')]" using e by (fastforce simp: emits_def)
  have "pcap_append_requested_id M s = json_seq (pcap_append_client_id M s ''client_id'')
      (\<lambda>out. do { (ret1, out2) \<leftarrow> pcap_append_process_type M ''process_type'' out; Some (SPP_RET_OK, out2) })"
    by (rule ext) (simp add: pcap_append_requested_id_def json_seq_def)
  then show ?thesis using emits_seq [OF c u] by simp
qed

section \<open>Commands\<close>

text \<open>What a command does to the state.\<close>

definition pcap_requested :: "pcap_command_type \<Rightarrow> 'c pcap_data \<Rightarrow> 'c pcap_data" where
  "pcap_requested ty s = (case ty of
     CMD_START \<Rightarrow> s\<lparr>g_capture_request := SPP_CAPTURE_RUNNING\<rparr>
   | CMD_STOP \<Rightarrow> s\<lparr>g_capture_request := SPP_CAPTURE_IDLE\<rparr>
   | _ \<Rightarrow> s)"

text \<open>The request that the parser makes of a command.\<close>

definition pcap_parsed :: "pcap_command_type \<Rightarrow> pcap_request" where
  "pcap_parsed ty = check_getter ty (zero_pcap_request\<lparr>pr_num_command := 1, pr_num_valid_command := 1,
     pr_commands := (pr_commands zero_pcap_request)[0 := ty]\<rparr>)"

lemma pcap_parsed_fields [simp]:
  "pr_num_command (pcap_parsed ty) = 1" "pr_num_valid_command (pcap_parsed ty) = 1"
  "take (Suc 0) (pr_commands (pcap_parsed ty)) = [ty]" "length (pr_commands (pcap_parsed ty)) = SPP_CMD_MAX_COMMANDS"
  "pr_client_id (pcap_parsed ty) = (if ty = CMD_CLIENT_ID then 1 else 0)" "pr_status (pcap_parsed ty) = (if ty = CMD_STATUS then 1 else 0)"
  "pr_exit (pcap_parsed ty) = (if ty = CMD_EXIT then 1 else 0)"
  "request_capture (pcap_parsed ty) s = pcap_requested ty s"
  by (cases ty; simp add: pcap_parsed_def check_getter_def zero_pcap_request_def SPP_CMD_MAX_COMMANDS_def take_first
      request_capture_def pcap_requested_def Let_def)+

lemma parse_command_line:
  assumes "length line \<le> 887" and "words_of line = [command_word ty]"
  shows "spp_command_parse_request zero_pcap_request line err = Some (0, pcap_parsed ty, err)"
proof -
  have "length line < 888" using assms(1) by simp
  note p = parse_known_word [OF this assms(2), of "zero_pcap_request\<lparr>pr_num_command := 1\<rparr>" err]
  have one: "nat 1 = Suc 0" by simp
  have "take (Suc 0) ((pr_commands zero_pcap_request)[0 := ty]) = [ty]"
    by (rule take_first) (simp add: zero_pcap_request_def SPP_CMD_MAX_COMMANDS_def)
  then show ?thesis
    using p by (simp add: spp_command_parse_request_def pcap_parsed_def Let_def one zero_pcap_request_def)
qed

lemma pcap_executed:
  "pcap_execute_commands [ty] 0 (replicate SPP_CMD_MAX_COMMANDS zero_result) = Some (first_result CRES_SUCCESS ''success'' [])"
  by (simp add: pcap_execute_command_def first_results)

lemma pcap_results:
  "emits M (append_command_results_value M ''results'' 1 (first_result CRES_SUCCESS ''success'' []))
    [member_text (''results'', JArr [JObj [(''result'', JStr ''success'')]])]"
proof -
  let ?rs = "first_result CRES_SUCCESS ''success'' []"
  have one: "nat 1 = Suc 0" by simp
  have r: "take (Suc 0) ?rs = [\<lparr>cr_code = CRES_SUCCESS, cr_result = ''success'', cr_error_message = []\<rparr>]"
    by (simp add: first_result_def SPP_CMD_MAX_COMMANDS_def numeral_eq_Suc)
  have "1 \<le> int (length ?rs)" by (simp add: first_result_def SPP_CMD_MAX_COMMANDS_def)
  from emits_command_results [OF _ this, of M, unfolded one r] show ?thesis by (simp add: result_members_def)
qed

lemma pcap_response:
  assumes ready: "status_ready slaves s" and room: "room M (length (render (JObj (pcap_answer slaves s ty))))"
  shows "pcap_send_command_result_response M slaves N (pcap_parsed ty) (first_result CRES_SUCCESS ''success'' []) sock s w =
    (case spp_send_message N sock (render (JObj (pcap_answer slaves s ty))) w of (r, sock1, w1) \<Rightarrow>
       Some (sock1, pcap_requested ty s, w1))"
proof -
  let ?res = "append_command_results_value M ''results'' 1 (first_result CRES_SUCCESS ''success'' [])"
  let ?id = "\<lambda>out. if pr_client_id (pcap_parsed ty) \<noteq> 0 then pcap_append_requested_id M s out else Some (SPP_RET_OK, out)"
  let ?info = "\<lambda>out. if pr_status (pcap_parsed ty) \<noteq> 0 then pcap_append_info_value M slaves s ''info'' out else Some (SPP_RET_OK, out)"
  let ?ms = "pcap_answer slaves s ty"
  have id: "emits M ?id (if pr_client_id (pcap_parsed ty) \<noteq> 0
      then [member_text (''client_id'', JInt (pst_client_id (g_pcap_startup s))), member_text (''process_type'', JStr ''pcap'')] else [])"
    by (rule emits_optional) (rule emits_pcap_id [OF ready])
  have info: "emits M ?info (if pr_status (pcap_parsed ty) \<noteq> 0 then [member_text (''info'', JObj (pcap_status_members slaves s))] else [])"
    by (rule emits_optional) (rule emits_pcap_info [OF ready])
  have "\<forall>l\<in>set slaves. members_ok (thread_members s l)" using thread_members_ok [OF ready] by blast
  moreover have "NUL \<notin> set (CAPTURE_STATUS_STRINGS (g_capture_status s))"
    by (cases "g_capture_status s") (simp_all add: CAPTURE_STATUS_STRINGS_def)
  ultimately have ok: "members_ok ?ms" using ready
    by (cases ty) (auto simp: pcap_answer_def pcap_status_members_def status_ready_def)
  have "emits M (json_seq ?res (json_seq ?id ?info)) (map member_text ?ms)"
    using emits_seq [OF pcap_results emits_seq [OF id info]] by (cases ty) (simp_all add: pcap_answer_def del: render.simps)
  from send_response [OF this ok room] obtain b tmp
    where b: "spp_strbuf_allocate (malloc_ok M) CMD_RES_BUF_INIT_SIZE = Some (Some b)"
      "json_seq ?res (json_seq ?id ?info) (Some b) = Some (SPP_RET_OK, tmp)"
      "response_message M tmp = Some (Some (render (JObj ?ms)))" by blast
  from b(2) obtain r1 t1 r2 t2 where "?res (Some b) = Some (r1, t1)" "\<not> r1 < 0" "?id t1 = Some (r2, t2)" "\<not> r2 < 0"
      "?info t2 = Some (SPP_RET_OK, tmp)"
    unfolding json_seq_def by (auto simp: bind_Some_iff split: if_splits)
  then show ?thesis unfolding pcap_send_command_result_response_def b(1) using b(3)
    by (simp del: render.simps pcap_parsed_fields(5,6) split del: if_split)
qed

lemma pcap_command_processed:
  assumes "length line \<le> 887" and "words_of line = [command_word ty]"
    and "status_ready slaves s" and "room M (length (render (JObj (pcap_answer slaves s ty))))"
  shows "pcap_process_request M slaves N line sock s w =
    (case spp_send_message N sock (render (JObj (pcap_answer slaves s ty))) w of (r, sock1, w1) \<Rightarrow>
       Some (if ty = CMD_EXIT then SPP_RET_NG else SPP_RET_OK, sock1, pcap_requested ty s, w1))"
proof -
  have one: "nat 1 = Suc 0" by simp
  show ?thesis
    unfolding pcap_process_request_def parse_command_line [OF assms(1,2)]
    by (cases "spp_send_message N sock (render (JObj (pcap_answer slaves s ty))) w")
      (simp add: Let_def one pcap_executed [simplified] first_results pcap_response [OF assms(3,4)] del: render.simps)
qed

section \<open>Lines that are no command\<close>

definition pcap_rejection :: "string \<Rightarrow> string" where
  "pcap_rejection line =
    (if length (words_of line) > 8 \<or> hd (words_of line) \<in> range command_word then ''bad message format''
     else ''bad value(command)'')"

definition rejection_answer :: "string \<Rightarrow> json" where
  "rejection_answer line = JObj [(''results'', JArr [JObj [(''result'', JStr ''error''),
     (''error_details'', JObj [(''message'', JStr (pcap_rejection line))])]])]"

lemma parse_other_line:
  assumes def: "spp_command_parse_request zero_pcap_request line zero_parse_error \<noteq> None"
    and no: "\<forall>ty. words_of line \<noteq> [command_word ty]"
  obtains code e where "spp_command_parse_request zero_pcap_request line zero_parse_error =
      Some (code, zero_pcap_request\<lparr>pr_num_command := 1\<rparr>, e)" and "code \<noteq> 0" and "de_code e \<noteq> 0"
    and "parse_error_message e = Some (pcap_rejection line)"
proof -
  let ?req = "zero_pcap_request\<lparr>pr_num_command := 1\<rparr>"
  have len: "length line < 888" and ne: "words_of line \<noteq> []" using def unfolding parse_request_defined by auto
  then obtain nm args where w: "words_of line = nm # args" by (cases "words_of line") auto
  have "\<exists>code e. parse_command_in_list ?req line zero_parse_error = Some (code, ?req, e) \<and> code \<noteq> 0 \<and> de_code e \<noteq> 0 \<and>
      parse_error_message e = Some (pcap_rejection line)"
  proof (cases "length args < 8")
    case few: True
    show ?thesis
    proof (cases "nm \<in> range command_word")
      case True
      then obtain ty where ty: "nm = command_word ty" by blast
      then have "args \<noteq> []" using no w by auto
      then show ?thesis using parse_known_word [OF len w [unfolded ty] few] True w
        by (simp add: zero_parse_error_def parse_error_message_def pcap_rejection_def strcpy_buf_def CMD_RES_ERR_MSG_SIZE_def)
    next
      case False
      then have "length nm < 111" using def w few unfolding parse_request_defined by auto
      then show ?thesis using parse_unknown_word [OF len w False few] False w few
        by (simp add: zero_parse_error_def parse_error_message_def pcap_rejection_def strcpy_buf_def CMD_RES_ERR_MSG_SIZE_def)
    qed
  next
    case False
    then show ?thesis using parse_many_words [OF len] w
      by (simp add: zero_parse_error_def parse_error_message_def pcap_rejection_def strcpy_buf_def CMD_RES_ERR_MSG_SIZE_def)
  qed
  then show thesis using that by (auto simp: spp_command_parse_request_def)
qed

lemma rejection_sent:
  assumes "room M 200"
  shows "send_parse_error_response M N (zero_pcap_request\<lparr>pr_num_command := 1\<rparr>)
      (first_result CRES_FAILURE ''error'' (pcap_rejection line)) sock w =
    Some (snd (spp_send_message N sock (render (rejection_answer line)) w))"
proof -
  let ?rs = "first_result CRES_FAILURE ''error'' (pcap_rejection line)"
  let ?ms = "[(''results'', JArr [JObj [(''result'', JStr ''error''), (''error_details'', JObj [(''message'', JStr (pcap_rejection line))])]])]"
  have one: "nat 1 = Suc 0" by simp
  have r: "take (Suc 0) ?rs = [\<lparr>cr_code = CRES_FAILURE, cr_result = ''error'', cr_error_message = pcap_rejection line\<rparr>]"
    by (simp add: first_result_def SPP_CMD_MAX_COMMANDS_def numeral_eq_Suc)
  have "1 \<le> int (length ?rs)" by (simp add: first_result_def SPP_CMD_MAX_COMMANDS_def)
  moreover have "NUL \<notin> set (pcap_rejection line)" "pcap_rejection line \<noteq> []" by (auto simp: pcap_rejection_def NUL_def)
  moreover have ok: "members_ok ?ms" using calculation(2) by (auto simp: NUL_def)
  ultimately have e: "emits M (append_command_results_value M ''results'' 1 ?rs) (map member_text ?ms)"
    using emits_command_results [of 1 ?rs M, unfolded one r] by (simp add: result_members_def)
  have "length (render (JObj ?ms)) \<le> 200" by (simp add: quoted_def pcap_rejection_def)
  from send_response [OF e ok room_mono [OF assms this]] obtain b tmp
    where "spp_strbuf_allocate (malloc_ok M) CMD_RES_BUF_INIT_SIZE = Some (Some b)"
      "append_command_results_value M ''results'' 1 ?rs (Some b) = Some (SPP_RET_OK, tmp)"
      "response_message M tmp = Some (Some (render (JObj ?ms)))" by blast
  then show ?thesis unfolding send_parse_error_response_def rejection_answer_def by (simp del: render.simps)
qed

section \<open>The answer to every request\<close>

text \<open>C32: A line that is no command does no harm: whenever the parser is defined on it, it is answered
  with one failed result, whose message is about the format or about the command word, neither
  the state nor the request for a capture changes, and the process goes on.\<close>
theorem pcap_bad_request_answered:
  assumes "spp_command_parse_request zero_pcap_request line zero_parse_error \<noteq> None"
    and "\<forall>ty. words_of line \<noteq> [command_word ty]" and "room M 200"
  shows "pcap_process_request M slaves N line sock s w =
    (case spp_send_message N sock (render (rejection_answer line)) w of (r, sock1, w1) \<Rightarrow> Some (SPP_RET_OK, sock1, s, w1))"
proof -
  obtain code e where p: "spp_command_parse_request zero_pcap_request line zero_parse_error =
      Some (code, zero_pcap_request\<lparr>pr_num_command := 1\<rparr>, e)" "code \<noteq> 0" "de_code e \<noteq> 0"
      "parse_error_message e = Some (pcap_rejection line)"
    by (rule parse_other_line [OF assms(1,2)])
  have one: "nat 1 = Suc 0" by simp
  have len: "length (pcap_rejection line) < CMD_RES_ERR_MSG_SIZE" by (simp add: pcap_rejection_def CMD_RES_ERR_MSG_SIZE_def)
  have "set_parse_error_to_results (replicate SPP_CMD_MAX_COMMANDS zero_result) (zero_pcap_request\<lparr>pr_num_command := 1\<rparr>) e =
      Some (first_result CRES_FAILURE ''error'' (pcap_rejection line))"
    using p(3,4) first_results(4) [OF len]
    by (simp add: set_parse_error_to_results_def one first_results zero_pcap_request_def)
  then show ?thesis unfolding pcap_process_request_def p(1)
    using p(2) rejection_sent [OF assms(3), of N line sock w]
    by (cases "spp_send_message N sock (render (rejection_answer line)) w") (simp add: Let_def del: render.simps)
qed

text \<open>C31: A command that the controller sends is executed and answered in one turn: start and stop set
  the request that the receiver looks at and nothing else changes, exit ends the main loop, and
  the message is the text of a JSON object with the result, the client id and the process type for
  _get_client_id, and for status the state of the capture and the role of every running worker
  with its port or the path of the file it writes.\<close>
theorem pcap_command_answered:
  assumes "loop_ok lp" and "0 \<le> lp_sock lp" and "recv_laws N"
    and recv: "net_recv N (lp_sock lp) MESSAGE_BUFFER_BLOCK_SIZE w = ((ret, line, again), w1)" and "0 < ret"
    and "NUL \<notin> set line" and "length line \<le> 887" and "words_of line = [command_word ty]"
    and "status_ready slaves s" and room: "room M (length (render (JObj (pcap_answer slaves s ty))))"
  shows "\<exists>b. holds (Some b) [] \<and> pcap_command_proc_do M N slaves c lp s w =
    (case spp_send_message N (lp_sock lp) (render (JObj (pcap_answer slaves s ty))) w1 of (_, sock, w2) \<Rightarrow>
       Some (if ty = CMD_EXIT then SPP_RET_NG else SPP_RET_OK, \<lparr>lp_sock = sock, lp_msgbuf = Some b\<rparr>, pcap_requested ty s, w2))"
proof -
  have m: "\<forall>c. malloc_ok M c" using room by (simp add: room_def)
  obtain b b1 b2 where b: "(if lp_msgbuf lp = None then spp_strbuf_allocate (malloc_ok M) CMD_REQ_BUF_INIT_SIZE
       else Some (lp_msgbuf lp)) = Some (Some b)"
      "spp_receive_message (malloc_ok M) N (lp_sock lp) b w = Some (ret, lp_sock lp, b1, w1)"
      "buf_text (Some b1) = Some line" "spp_strbuf_remove_front b1 (of_int ret) = Some b2" "holds (Some b2) []"
    by (rule message_received [OF assms(1) m assms(2,3) recv assms(5,6)])
  note p = pcap_command_processed [OF assms(7-9) room, of N "lp_sock lp" w1]
  show ?thesis unfolding pcap_command_proc_do_def b(1)
    using assms(2,5) b(2-5) p
    by (cases "spp_send_message N (lp_sock lp) (render (JObj (pcap_answer slaves s ty))) w1")
      (auto simp: spp_connect_to_controller_def simp del: render.simps)
qed

end
