(* ===== verification/Pcap_Main.thy ===== *)
theory Pcap_Main
  imports Pcap_Command
begin

text \<open>
  The start of spp_pcap: the options (pcap/spp_pcap.c), the initialisation of the tables and the lookup
  of the captured port (pcap/spp_proc.c), and main.  getopt_long, stat, the environment of DPDK, the
  creation of a ring and what the other threads do while main sleeps are arguments; None is
  undefined behaviour.
\<close>

section \<open>Options\<close>

definition client_id_toi :: "nat \<Rightarrow> string \<Rightarrow> int option" where
  "client_id_toi n_lcore client_id_str =
    (let (v, rest) = strtol 0 client_id_str; id = to_int32 v in
     if length rest = length client_id_str \<or> rest \<noteq> [] then None
     else if id \<ge> int n_lcore then None
     else Some id)"

definition INET_ADDRSTRLEN :: nat where "INET_ADDRSTRLEN = 16"

text \<open>The outer option is undefined behaviour, the inner one the return code.\<close>

definition parse_server_ip :: "string \<Rightarrow> (string \<times> int) option option" where
  "parse_server_ip server_str =
    (let ip = takeWhile (\<lambda>c. c \<noteq> CHR '':'') server_str; pos = length ip in
     if pos \<ge> length server_str then Some None
     else let port_str = drop (pos + 1) server_str; (v, rest) = strtol 0 port_str in
       if length rest = length port_str \<or> rest \<noteq> [] then Some None
       else do {
         server_ip \<leftarrow> strcpy_buf INET_ADDRSTRLEN ip;
         Some (Some (server_ip, to_int32 v))
       })"

definition parse_fsize :: "string \<Rightarrow> nat option" where
  "parse_fsize fsize_str =
    (let (fs, rest) = strtoul 10 fsize_str in
     if length rest = length fsize_str \<or> rest \<noteq> [] then None else Some (nat fs))"

definition parse_captured_port :: "string \<Rightarrow> (port_type \<times> int) option" where
  "parse_captured_port port_str = do {
     (type, no_str) \<leftarrow>
       (if starts_with port_str ''phy:'' then Some (PHY, drop 4 port_str)
        else if starts_with port_str ''ring:'' then Some (RING, drop 5 port_str)
        else None);
     let (v, rest) = strtol 0 no_str;
     if length rest = length no_str \<or> rest \<noteq> [] then None else Some (type, to_int32 v)
   }"

text \<open>What getopt_long returns, with optarg.\<close>

datatype pcap_opt = Client_Id string | Out_Dir string | File_Size string | Cap_Port string | Server string | Other_Opt

definition PORT_STR_SIZE :: nat where "PORT_STR_SIZE = 16"
definition DEFAULT_OUTPUT_DIR :: string where "DEFAULT_OUTPUT_DIR = ''/tmp''"
definition DEFAULT_FILE_LIMIT :: nat where "DEFAULT_FILE_LIMIT = 1073741824"

record opt_state =
  os_startup :: pcap_startup
  os_option :: pcap_option
  proc_flg :: bool
  server_flg :: bool
  port_flg :: bool

text \<open>One option; the inner None is the return with SPP_RET_NG.\<close>

definition parse_opt :: "nat \<Rightarrow> (string \<Rightarrow> bool) \<Rightarrow> pcap_opt \<Rightarrow> opt_state \<Rightarrow> opt_state option option" where
  "parse_opt n_lcore stat_ok opt st =
    (case opt of
       Client_Id a \<Rightarrow> Some (case client_id_toi n_lcore a of
           None \<Rightarrow> None
         | Some i \<Rightarrow> Some (st\<lparr>os_startup := (os_startup st)\<lparr>pst_client_id := i\<rparr>, proc_flg := True\<rparr>))
     | Out_Dir a \<Rightarrow> do {
         dir \<leftarrow> strcpy_buf PCAP_FPATH_STRLEN a;
         Some (if dir = [] \<or> \<not> stat_ok a then None
           else Some (st\<lparr>os_option := (os_option st)\<lparr>compress_file_path := dir\<rparr>\<rparr>))
       }
     | File_Size a \<Rightarrow> Some (case parse_fsize a of
           None \<Rightarrow> None
         | Some n \<Rightarrow> Some (st\<lparr>os_option := (os_option st)\<lparr>fsize_limit := n\<rparr>\<rparr>))
     | Cap_Port a \<Rightarrow> do {
         port_str \<leftarrow> strcpy_buf PORT_STR_SIZE a;
         Some (case parse_captured_port a of
             None \<Rightarrow> None
           | Some (t, no) \<Rightarrow> Some (st\<lparr>os_option := (os_option st)
               \<lparr>port_cap := (port_cap (os_option st))\<lparr>iface_type := t, iface_no := no\<rparr>\<rparr>, port_flg := True\<rparr>))
       }
     | Server a \<Rightarrow> do {
         r \<leftarrow> parse_server_ip a;
         Some (case r of
             None \<Rightarrow> None
           | Some (ip, p) \<Rightarrow> Some (st\<lparr>os_startup := (os_startup st)\<lparr>pst_server_ip := ip, pst_server_port := p\<rparr>,
               server_flg := True\<rparr>))
       }
     | Other_Opt \<Rightarrow> Some None)"

fun parse_opts :: "nat \<Rightarrow> (string \<Rightarrow> bool) \<Rightarrow> pcap_opt list \<Rightarrow> opt_state \<Rightarrow> opt_state option option" where
  "parse_opts n_lcore stat_ok [] st = Some (Some st)"
| "parse_opts n_lcore stat_ok (opt # opts) st = do {
     r \<leftarrow> parse_opt n_lcore stat_ok opt st;
     case r of None \<Rightarrow> Some None | Some st1 \<Rightarrow> parse_opts n_lcore stat_ok opts st1
   }"

definition first_opts :: opt_state where
  "first_opts = \<lparr>os_startup = \<lparr>pst_client_id = 0, pst_server_ip = [], pst_server_port = 0\<rparr>,
     os_option = \<lparr>fsize_limit = DEFAULT_FILE_LIMIT, compress_file_path = DEFAULT_OUTPUT_DIR,
       compress_file_date = [], port_cap = zero_port, cap_ring = False\<rparr>,
     proc_flg = False, server_flg = False, port_flg = False\<rparr>"

definition parse_args ::
  "nat \<Rightarrow> (string \<Rightarrow> bool) \<Rightarrow> pcap_opt list \<Rightarrow> (pcap_startup \<times> pcap_option) option option" where
  "parse_args n_lcore stat_ok opts = do {
     r \<leftarrow> parse_opts n_lcore stat_ok opts first_opts;
     Some (case r of
         None \<Rightarrow> None
       | Some st \<Rightarrow> if \<not> proc_flg st \<or> \<not> server_flg st \<or> \<not> port_flg st then None
           else Some (os_startup st, os_option st))
   }"

section \<open>Tables\<close>

fun pcap_check_core_status :: "int list \<Rightarrow> spp_core_status \<Rightarrow> 'c pcap_data \<Rightarrow> int option" where
  "pcap_check_core_status [] st s = Some SPP_RET_OK"
| "pcap_check_core_status (l # ls) st s = do {
     c \<leftarrow> rd (g_pcap_core s) l;
     if c \<noteq> st then Some SPP_RET_NG else pcap_check_core_status ls st s
   }"

text \<open>env cnt is what the other threads do while main sleeps for the cnt-th time.\<close>

fun pcap_check_loop ::
  "(nat \<Rightarrow> 'c pcap_data \<Rightarrow> 'c pcap_data) \<Rightarrow> int list \<Rightarrow> spp_core_status \<Rightarrow> nat \<Rightarrow> nat \<Rightarrow> 'c pcap_data \<Rightarrow>
   (int \<times> 'c pcap_data) option" where
  "pcap_check_loop env slaves st cnt 0 s = Some (SPP_RET_NG, s)"
| "pcap_check_loop env slaves st cnt (Suc left) s = (let s' = env cnt s in do {
     r \<leftarrow> pcap_check_core_status slaves st s';
     if r = 0 then Some (SPP_RET_OK, s') else pcap_check_loop env slaves st (Suc cnt) left s'
   })"

definition pcap_check_core_status_wait ::
  "(nat \<Rightarrow> 'c pcap_data \<Rightarrow> 'c pcap_data) \<Rightarrow> int list \<Rightarrow> spp_core_status \<Rightarrow> 'c pcap_data \<Rightarrow>
   (int \<times> 'c pcap_data) option" where
  "pcap_check_core_status_wait env slaves st s = pcap_check_loop env slaves st 0 SPP_CORE_STATUS_CHECK_MAX s"

definition pcap_init_iface_info :: "'c pcap_data \<Rightarrow> 'c pcap_data" where
  "pcap_init_iface_info s = (let f = g_pcap_iface s in
     s\<lparr>g_pcap_iface := \<lparr>pif_num_nic = 0, pif_num_ring = 0,
        pif_nic = List.map init_port [0..<length (pif_nic f)],
        pif_ring = List.map init_port [0..<length (pif_ring f)]\<rparr>\<rparr>)"

definition pcap_init_core_info :: "int list \<Rightarrow> 'c pcap_data \<Rightarrow> 'c pcap_data option" where
  "pcap_init_core_info slaves s = do {
     s1 \<leftarrow> set_all_pcap_cores slaves SPP_CORE_STOP
       (s\<lparr>g_pcap_core := replicate (length (g_pcap_core s)) SPP_CORE_UNUSE\<rparr>);
     Some (s1\<lparr>g_capture_request := SPP_CAPTURE_IDLE, g_capture_status := SPP_CAPTURE_IDLE\<rparr>)
   }"

text \<open>The number of Ethernet devices that DPDK reports is the argument n_avail.\<close>

definition pcap_set_nic_interface :: "int \<Rightarrow> 'c pcap_data \<Rightarrow> int \<times> 'c pcap_data" where
  "pcap_set_nic_interface n_avail s =
    (let f = g_pcap_iface s; n = min n_avail (int (length (pif_nic f))) in
     (SPP_RET_OK, s\<lparr>g_pcap_iface := f\<lparr>pif_num_nic := n,
        pif_nic := List.map (\<lambda>(i, p). if int i < n then p\<lparr>iface_type := PHY, dpdk_port := int i\<rparr> else p)
          (List.zip [0..<length (pif_nic f)] (pif_nic f))\<rparr>\<rparr>))"

definition pcap_init_mng_data :: "int list \<Rightarrow> int \<Rightarrow> 'c pcap_data \<Rightarrow> (int \<times> 'c pcap_data) option" where
  "pcap_init_mng_data slaves n_avail s = do {
     s1 \<leftarrow> pcap_init_core_info slaves (pcap_init_iface_info s);
     let (ret_nic, s2) = pcap_set_nic_interface n_avail s1;
     if ret_nic \<noteq> SPP_RET_OK then Some (SPP_RET_NG, s2) else Some (SPP_RET_OK, s2)
   }"

text \<open>The entry of an interface, with Some None for NULL.  A number outside of the table gives a pointer
  outside of the table.\<close>

definition pcap_get_iface_info :: "'c pcap_data \<Rightarrow> port_type \<Rightarrow> int \<Rightarrow> spp_port_info option option" where
  "pcap_get_iface_info s t no =
    (case t of
       PHY \<Rightarrow> map_option Some (rd (pif_nic (g_pcap_iface s)) no)
     | RING \<Rightarrow> map_option Some (rd (pif_ring (g_pcap_iface s)) no)
     | _ \<Rightarrow> Some None)"

section \<open>The captured port\<close>

definition pcap_add_ring_pmd :: "'v ethdev \<Rightarrow> int \<Rightarrow> 'v \<Rightarrow> int \<times> 'v" where
  "pcap_add_ring_pmd E ring_id v =
    (case rte_ring_lookup E (get_rx_queue_name ring_id) v of
       None \<Rightarrow> (SPP_RET_NG, v)
     | Some ring_name \<Rightarrow> ring_pmd E ring_name v)"

definition set_cap_port :: "int \<Rightarrow> 'c pcap_data \<Rightarrow> 'c pcap_data" where
  "set_cap_port p s = s\<lparr>g_pcap_option := (g_pcap_option s)\<lparr>port_cap := (port_cap (g_pcap_option s))\<lparr>dpdk_port := p\<rparr>\<rparr>\<rparr>"

text \<open>Whether main goes on, and its variable ret, which gets the number of a ring port.\<close>

definition setup_capture_port ::
  "'v ethdev \<Rightarrow> int \<Rightarrow> 'c pcap_data \<Rightarrow> 'v \<Rightarrow> (bool \<times> int \<times> 'c pcap_data \<times> 'v) option" where
  "setup_capture_port E ret s v = do {
     let cap = port_cap (g_pcap_option s);
     info \<leftarrow> pcap_get_iface_info s (iface_type cap) (iface_no cap);
     Some (case info of
         None \<Rightarrow> (False, ret, s, v)
       | Some p \<Rightarrow>
           if iface_type cap = PHY
           then (if iface_type p \<noteq> UNDEF then (True, ret, set_cap_port (dpdk_port p) s, v) else (False, ret, s, v))
           else if iface_type p = UNDEF
           then (let (ret1, v1) = pcap_add_ring_pmd E (iface_no p) v in
             if ret1 = SPP_RET_NG then (False, ret1, s, v1) else (True, ret1, set_cap_port ret1 s, v1))
           else (False, ret, s, v))
   }"

section \<open>Main\<close>

text \<open>The addresses are those of static variables; only the number of the core can be invalid.\<close>

definition spp_set_mng_data_addr :: "int \<Rightarrow> int" where
  "spp_set_mng_data_addr main_lcore_id = (if main_lcore_id = 0xffffffff then SPP_RET_NG else SPP_RET_OK)"

text \<open>From the tables to the ring.  ring_create says whether rte_ring_create succeeds.  In between
  spp_port_ability_init resets the table of the port abilities.\<close>

definition pcap_prepare ::
  "'v ethdev \<Rightarrow> (string \<Rightarrow> 'v \<Rightarrow> bool \<times> 'v) \<Rightarrow> int list \<Rightarrow> int \<Rightarrow> 'c pcap_data \<Rightarrow> 'v \<Rightarrow>
   (bool \<times> int \<times> conn_data option \<times> 'c pcap_data \<times> 'v) option" where
  "pcap_prepare E ring_create slaves n_avail s v = do {
     (ret_mng, s1) \<leftarrow> pcap_init_mng_data slaves n_avail s;
     if ret_mng \<noteq> 0 then Some (False, SPP_RET_NG, None, s1, v)
     else do {
       (ret_init, conn) \<leftarrow> spp_command_conn_init (pst_server_ip (g_pcap_startup s1)) (pst_server_port (g_pcap_startup s1));
       if ret_init \<noteq> SPP_RET_OK then Some (False, SPP_RET_NG, None, s1, v)
       else do {
         (ok, ret, s2, v1) \<leftarrow> setup_capture_port E SPP_RET_NG s1 v;
         if \<not> ok then Some (False, ret, Some conn, s2, v1)
         else do {
           let (created, v2) = ring_create (snprintf_buf PORT_STR_SIZE
             (''cap_ring_'' @ show_int (pst_client_id (g_pcap_startup s2)))) v1;
           Some (created, ret, Some conn, s2\<lparr>g_pcap_option := (g_pcap_option s2)\<lparr>cap_ring := created\<rparr>\<rparr>, v2)
         }
       }
     }
   }"

text \<open>The numbers of the threads, in the order of the cores.\<close>

fun launch_threads :: "int list \<Rightarrow> int \<Rightarrow> 'c pcap_data \<Rightarrow> 'c pcap_data option" where
  "launch_threads [] no s = Some s"
| "launch_threads (l # ls) no s = do {
     info \<leftarrow> rd (g_pcap_info s) l;
     s1 \<leftarrow> put_info l (info\<lparr>thread_no := no\<rparr>) (s\<lparr>thread_cnt := thread_cnt s + 1\<rparr>);
     launch_threads ls (no + 1) s1
   }"

text \<open>serve is the loop that accepts commands.  started says that g_main_lcore_id has been set.\<close>

definition pcap_body ::
  "int \<Rightarrow> (pcap_startup \<times> pcap_option) option \<Rightarrow> int \<Rightarrow> 'v ethdev \<Rightarrow> (string \<Rightarrow> 'v \<Rightarrow> bool \<times> 'v) \<Rightarrow>
   (nat \<Rightarrow> 'c pcap_data \<Rightarrow> 'c pcap_data) \<Rightarrow> (conn_data \<Rightarrow> 'c pcap_data \<Rightarrow> (int \<times> 'c pcap_data) option) \<Rightarrow>
   int list \<Rightarrow> int \<Rightarrow> 'c pcap_data \<Rightarrow> 'v \<Rightarrow> (int \<times> bool \<times> 'c pcap_data) option" where
  "pcap_body ret_eal args main_lcore E ring_create env serve slaves n_avail s v =
    (if ret_eal < 0 then Some (SPP_RET_NG, False, s)
     else case args of
       None \<Rightarrow> Some (SPP_RET_NG, False, s)
     | Some (startup, opt) \<Rightarrow>
        (let s0 = s\<lparr>g_pcap_startup := startup, g_pcap_option := opt\<rparr> in
         if spp_set_mng_data_addr main_lcore < 0 then Some (SPP_RET_NG, True, s0)
         else do {
           (ok, ret, conn, s1, v1) \<leftarrow> pcap_prepare E ring_create slaves n_avail s0 v;
           if \<not> ok then Some (ret, True, s1)
           else do {
             s2 \<leftarrow> launch_threads slaves 0 (s1\<lparr>thread_cnt := 0, start_up_cnt := 0\<rparr>);
             s3 \<leftarrow> set_pcap_core main_lcore SPP_CORE_IDLE s2;
             (ret_wait, s4) \<leftarrow> pcap_check_core_status_wait env slaves SPP_CORE_IDLE s3;
             if ret_wait \<noteq> 0 then Some (ret, True, s4)
             else do {
               s5 \<leftarrow> set_all_pcap_cores slaves SPP_CORE_FORWARD s4;
               c \<leftarrow> conn;
               (ret_do, s6) \<leftarrow> serve c s5;
               if ret_do \<noteq> SPP_RET_OK
               then do { s7 \<leftarrow> set_all_pcap_cores slaves SPP_CORE_STOP_REQUEST s6; Some (ret, True, s7) }
               else Some (SPP_RET_OK, True, s6)
             }
           }
         }))"

definition pcap_main ::
  "int \<Rightarrow> (pcap_startup \<times> pcap_option) option \<Rightarrow> int \<Rightarrow> 'v ethdev \<Rightarrow> (string \<Rightarrow> 'v \<Rightarrow> bool \<times> 'v) \<Rightarrow>
   (nat \<Rightarrow> 'c pcap_data \<Rightarrow> 'c pcap_data) \<Rightarrow> (nat \<Rightarrow> 'c pcap_data \<Rightarrow> 'c pcap_data) \<Rightarrow>
   (conn_data \<Rightarrow> 'c pcap_data \<Rightarrow> (int \<times> 'c pcap_data) option) \<Rightarrow>
   int list \<Rightarrow> int \<Rightarrow> 'c pcap_data \<Rightarrow> 'v \<Rightarrow> (int \<times> 'c pcap_data) option" where
  "pcap_main ret_eal args main_lcore E ring_create env env_end serve slaves n_avail s v = do {
     (ret, started, s1) \<leftarrow> pcap_body ret_eal args main_lcore E ring_create env serve slaves n_avail s v;
     if \<not> started then Some (ret, s1)
     else do {
       s2 \<leftarrow> set_pcap_core main_lcore SPP_CORE_STOP s1;
       (ret_core_end, s3) \<leftarrow> pcap_check_core_status_wait env_end slaves SPP_CORE_STOP s2;
       Some (ret, s3)
     }
   }"

end
