(* ===== verification/Pcap_Start.thy ===== *)
theory Pcap_Start
  imports Pcap_Main Pcap_Run
begin

text \<open>
  The start of spp_pcap establishes what the theorems about its runs assume, and what main returns.
\<close>

section \<open>What the start leaves alone\<close>

definition same_capture :: "'c pcap_data \<Rightarrow> 'c pcap_data \<Rightarrow> bool" where
  "same_capture s s' \<longleftrightarrow> g_pcap_info s' = g_pcap_info s \<and> pc_host s' = pc_host s \<and> g_total_write s' = g_total_write s \<and>
     length (g_pcap_core s') = length (g_pcap_core s)"

lemma set_cores_same: "set_all_pcap_cores ls st s = Some s' \<Longrightarrow> same_capture s s' \<and> g_capture_status s' = g_capture_status s"
proof (induction ls arbitrary: s)
  case (Cons l ls)
  then obtain s1 where s1: "set_pcap_core l st s = Some s1" "set_all_pcap_cores ls st s1 = Some s'" by (auto simp: bind_Some_iff)
  have "same_capture s s1 \<and> g_capture_status s1 = g_capture_status s"
    using s1(1) by (auto simp: set_pcap_core_def bind_Some_iff same_capture_def wr_Some_iff)
  then show ?case using Cons.IH [OF s1(2)] by (auto simp: same_capture_def)
qed (simp add: same_capture_def)

lemma init_same:
  assumes "pcap_init_mng_data slaves n_avail s = Some (ret, s')"
  shows "same_capture s s' \<and> g_capture_status s' = SPP_CAPTURE_IDLE"
proof -
  obtain s1 where s1: "set_all_pcap_cores slaves SPP_CORE_STOP
      ((pcap_init_iface_info s)\<lparr>g_pcap_core := replicate (length (g_pcap_core s)) SPP_CORE_UNUSE\<rparr>) = Some s1"
    "s' = snd (pcap_set_nic_interface n_avail (s1\<lparr>g_capture_request := SPP_CAPTURE_IDLE, g_capture_status := SPP_CAPTURE_IDLE\<rparr>))"
    using assms by (auto simp: pcap_init_mng_data_def pcap_init_core_info_def bind_Some_iff pcap_init_iface_info_def
        pcap_set_nic_interface_def Let_def split: if_splits)
  show ?thesis using set_cores_same [OF s1(1)] unfolding s1(2)
    by (simp add: same_capture_def pcap_set_nic_interface_def Let_def pcap_init_iface_info_def)
qed

lemma set_cap_port_same: "same_capture s (set_cap_port p s) \<and> g_capture_status (set_cap_port p s) = g_capture_status s"
  by (simp add: set_cap_port_def same_capture_def)

lemma setup_same:
  assumes "setup_capture_port E ret s v = Some (ok, ret', s', v')"
  shows "same_capture s s' \<and> g_capture_status s' = g_capture_status s"
proof -
  have "s' = s \<or> (\<exists>p. s' = set_cap_port p s)"
  proof (cases "pcap_get_iface_info s (iface_type (port_cap (g_pcap_option s))) (iface_no (port_cap (g_pcap_option s)))")
    case None
    then show ?thesis using assms by (simp add: setup_capture_port_def)
  next
    case (Some info)
    then show ?thesis using assms
      by (cases info) (auto simp: setup_capture_port_def Let_def split: if_splits prod.splits)
  qed
  then show ?thesis using set_cap_port_same by (auto simp: same_capture_def)
qed

lemma prepare_same:
  assumes "pcap_prepare E ring_create slaves n_avail s v = Some (True, ret, conn, s', v')"
  shows "same_capture s s' \<and> g_capture_status s' = SPP_CAPTURE_IDLE"
proof -
  obtain r1 s1 where s1: "pcap_init_mng_data slaves n_avail s = Some (r1, s1)"
    using assms by (auto simp: pcap_prepare_def bind_Some_iff)
  obtain r2 s2 v2 where s2: "setup_capture_port E SPP_RET_NG s1 v = Some (True, r2, s2, v2)"
      "same_capture s2 s'" "g_capture_status s' = g_capture_status s2"
    using assms s1 by (auto simp: pcap_prepare_def bind_Some_iff same_capture_def Let_def split: if_splits prod.splits)
  show ?thesis using init_same [OF s1] setup_same [OF s2(1)] s2(2,3) by (simp add: same_capture_def)
qed

section \<open>The threads\<close>

abbreviation slaves_ok :: "nat list \<Rightarrow> 'c pcap_data \<Rightarrow> bool" where
  "slaves_ok ns s \<equiv> \<forall>n\<in>set ns. n < length (g_pcap_info s) \<and> n < length (g_pcap_core s)"

lemma launch_ok:
  "distinct ns \<Longrightarrow> slaves_ok ns s \<Longrightarrow>
    \<exists>infos. launch_threads (List.map int ns) no s =
        Some (s\<lparr>g_pcap_info := infos, thread_cnt := thread_cnt s + int (length ns)\<rparr>) \<and>
      length infos = length (g_pcap_info s) \<and>
      (\<forall>i\<in>set ns. \<exists>k. infos ! i = (g_pcap_info s ! i)\<lparr>thread_no := k\<rparr> \<and> no \<le> k \<and> (k = no \<longleftrightarrow> i = hd ns)) \<and>
      (\<forall>i. i \<notin> set ns \<longrightarrow> infos ! i = g_pcap_info s ! i)"
proof (induction ns arbitrary: no s)
  case Nil
  show ?case by (intro exI [of _ "g_pcap_info s"]) simp
next
  case (Cons n ns)
  let ?new = "(g_pcap_info s ! n)\<lparr>thread_no := no\<rparr>"
  define s1 where "s1 = s\<lparr>thread_cnt := thread_cnt s + 1, g_pcap_info := (g_pcap_info s)[n := ?new]\<rparr>"
  have n: "n < length (g_pcap_info s)" using Cons.prems(2) by simp
  have one: "launch_threads (List.map int (n # ns)) no s = launch_threads (List.map int ns) (no + 1) s1"
    using n by (simp add: put_info_def s1_def)
  have "distinct ns" "slaves_ok ns s1" using Cons.prems by (auto simp: s1_def)
  from Cons.IH [OF this, of "no + 1"] obtain infos where i: "launch_threads (List.map int ns) (no + 1) s1 =
        Some (s1\<lparr>g_pcap_info := infos, thread_cnt := thread_cnt s1 + int (length ns)\<rparr>)"
      "length infos = length (g_pcap_info s1)"
      "\<And>i. i \<in> set ns \<Longrightarrow> \<exists>k. infos ! i = (g_pcap_info s1 ! i)\<lparr>thread_no := k\<rparr> \<and> no + 1 \<le> k"
      "\<And>i. i \<notin> set ns \<Longrightarrow> infos ! i = g_pcap_info s1 ! i" by blast
  have new: "g_pcap_info s1 ! i = (if i = n then ?new else g_pcap_info s ! i)" for i
    using n by (simp add: s1_def nth_list_update)
  have n_out: "n \<notin> set ns" using Cons.prems(1) by simp
  have ins: "\<exists>k. infos ! i = (g_pcap_info s ! i)\<lparr>thread_no := k\<rparr> \<and> no \<le> k \<and> (k = no \<longleftrightarrow> i = n)"
    if "i \<in> set (n # ns)" for i
  proof (cases "i = n")
    case True
    then show ?thesis using i(4) [OF n_out] new [of n] by (intro exI [of _ no]) simp
  next
    case False
    then have "i \<in> set ns" using that by simp
    then obtain k where "infos ! i = (g_pcap_info s1 ! i)\<lparr>thread_no := k\<rparr>" "no + 1 \<le> k" using i(3) by blast
    then show ?thesis using False new [of i] by (intro exI [of _ k]) simp
  qed
  have out: "infos ! i = g_pcap_info s ! i" if "i \<notin> set (n # ns)" for i using that i(4) [of i] new [of i] by simp
  show ?case
    by (rule exI [of _ infos]) (use one i(1,2) out ins in \<open>simp add: s1_def\<close>)
qed

text \<open>The workers begin in any order.\<close>

fun start_threads :: "int list \<Rightarrow> 'c pcap_data \<Rightarrow> 'c pcap_data option" where
  "start_threads [] s = Some s"
| "start_threads (l # ls) s = do { s1 \<leftarrow> pcap_slave_start l s; start_threads ls s1 }"

definition role_of :: "'c pcap_mng_info \<Rightarrow> 'c pcap_mng_info" where
  "role_of info = info\<lparr>thread_type := if thread_no info = 0 then PCAP_RECEIVE else PCAP_WRITE\<rparr>"

lemma role_of_fields [simp]: "thread_no (role_of info) = thread_no info" "cap_status (role_of info) = cap_status info"
  "compress_fp (role_of info) = compress_fp info" "role_of (role_of info) = role_of info"
  by (simp_all add: role_of_def)

lemma start_ok:
  "slaves_ok ns s \<Longrightarrow>
    \<exists>infos cores. start_threads (List.map int ns) s = Some (s\<lparr>g_pcap_info := infos, g_pcap_core := cores\<rparr>) \<and>
      length infos = length (g_pcap_info s) \<and> length cores = length (g_pcap_core s) \<and>
      (\<forall>i. infos ! i = (if i \<in> set ns then role_of (g_pcap_info s ! i) else g_pcap_info s ! i))"
proof (induction ns arbitrary: s)
  case Nil
  show ?case by (intro exI [of _ "g_pcap_info s"] exI [of _ "g_pcap_core s"]) simp
next
  case (Cons n ns)
  define s1 where "s1 = s\<lparr>g_pcap_info := (g_pcap_info s)[n := role_of (g_pcap_info s ! n)],
      g_pcap_core := (g_pcap_core s)[n := SPP_CORE_IDLE]\<rparr>"
  have n: "n < length (g_pcap_info s)" "n < length (g_pcap_core s)" using Cons.prems by auto
  have one: "start_threads (List.map int (n # ns)) s = start_threads (List.map int ns) s1"
    using n by (simp add: pcap_slave_start_def put_info_def set_pcap_core_def s1_def role_of_def)
  have "slaves_ok ns s1" using Cons.prems by (auto simp: s1_def)
  from Cons.IH [OF this] obtain infos cores where i:
      "start_threads (List.map int ns) s1 = Some (s1\<lparr>g_pcap_info := infos, g_pcap_core := cores\<rparr>)"
      "length infos = length (g_pcap_info s1)" "length cores = length (g_pcap_core s1)"
      "\<And>i. infos ! i = (if i \<in> set ns then role_of (g_pcap_info s1 ! i) else g_pcap_info s1 ! i)" by blast
  have new: "g_pcap_info s1 ! i = (if i = n then role_of (g_pcap_info s ! i) else g_pcap_info s ! i)" for i
    using n by (simp add: s1_def nth_list_update)
  show ?case
    by (intro exI [of _ infos] exI [of _ cores]) (use one i new in \<open>simp add: s1_def\<close>)
qed

section \<open>The state in which the threads begin\<close>

text \<open>The static variables at the start of the process: no thread has done anything.\<close>

definition fresh_process :: "nat list \<Rightarrow> 'c pcap_data \<Rightarrow> bool" where
  "fresh_process ns s \<longleftrightarrow> slaves_ok ns s \<and> (\<forall>n\<in>set ns. n < length (g_total_write s)) \<and>
     (\<forall>info\<in>set (g_pcap_info s). cap_status info = SPP_CAPTURE_IDLE \<and> compress_fp info = None) \<and>
     h_streams (pc_host s) = Map.empty \<and> h_blocks (pc_host s) = {}"

lemma fresh_idle: "fresh_process ns s \<Longrightarrow> n < length (g_pcap_info s) \<Longrightarrow>
    cap_status (g_pcap_info s ! n) = SPP_CAPTURE_IDLE \<and> compress_fp (g_pcap_info s ! n) = None"
  by (simp add: fresh_process_def)

lemma fresh_same: "fresh_process ns s \<Longrightarrow> same_capture s s' \<Longrightarrow> fresh_process ns s'"
  by (simp add: fresh_process_def same_capture_def)

definition valid_port :: "'z port_data_scheme \<Rightarrow> int \<Rightarrow> bool" where
  "valid_port P p \<longleftrightarrow> 0 \<le> p \<and> p < 2 ^ 16 \<and> p < int (length (g_port_mng_info P))"

lemma fresh_port_plain:
  assumes "valid_port P p"
  shows "plain_port (spp_port_ability_init P) p SPP_PORT_RXTX_RX"
proof -
  have r: "rd (g_port_mng_info (spp_port_ability_init P)) p = Some \<lparr>pm_iface_type = PHY, pm_iface_no = 0,
      pm_rx = zero_ability_mng\<lparr>pa_ref_index := 0, pa_upd_index := 1\<rparr>, pm_tx = zero_ability_mng\<lparr>pa_ref_index := 0, pa_upd_index := 1\<rparr>\<rparr>"
    using assms by (simp add: spp_port_ability_init_def rd_def Let_def valid_port_def nat_less_iff)
  have "spp_port_ability_get_info (spp_port_ability_init P) p SPP_PORT_RXTX_RX = Some (replicate SPP_PORT_ABILITY_MAX zero_ability)"
    unfolding spp_port_ability_get_info_def ability_mng_def r
    by (simp add: zero_ability_mng_def rd_def SPP_INFO_AREA_MAX_def)
  then show ?thesis using assms by (simp add: plain_port_def valid_port_def SPP_PORT_ABILITY_MAX_def zero_ability_def numeral_eq_Suc)
qed

lemma threads_ready:
  assumes fresh: "fresh_process (r # ns) s" and d: "distinct (r # ns)"
    and z: "thread_cnt s = 0" "start_up_cnt s = 0" "g_capture_status s = SPP_CAPTURE_IDLE"
    and p: "plain_port P (dpdk_port (port_cap (g_pcap_option s))) SPP_PORT_RXTX_RX"
    and w: "queued w = []" "held w = {#}" and ms: "set ms = set (r # ns)"
  shows "\<exists>s2 s3. launch_threads (List.map int (r # ns)) 0 s = Some s2 \<and> start_threads (List.map int ms) s2 = Some s3 \<and>
    pcap_ready held queued P r (set ns) s3 w"
proof -
  have ok: "slaves_ok (r # ns) s" using fresh by (simp add: fresh_process_def)
  obtain infos where l: "launch_threads (List.map int (r # ns)) 0 s =
        Some (s\<lparr>g_pcap_info := infos, thread_cnt := thread_cnt s + int (length (r # ns))\<rparr>)"
      "length infos = length (g_pcap_info s)"
      "\<And>i. i \<in> set (r # ns) \<Longrightarrow> \<exists>k. infos ! i = (g_pcap_info s ! i)\<lparr>thread_no := k\<rparr> \<and> 0 \<le> k \<and> (k = 0 \<longleftrightarrow> i = hd (r # ns))"
    using launch_ok [OF d ok, of 0] by blast
  let ?s2 = "s\<lparr>g_pcap_info := infos, thread_cnt := thread_cnt s + int (length (r # ns))\<rparr>"
  have "slaves_ok ms ?s2" unfolding ms using ok l(2) by simp
  from start_ok [OF this] obtain infos' cores where t:
      "start_threads (List.map int ms) ?s2 = Some (?s2\<lparr>g_pcap_info := infos', g_pcap_core := cores\<rparr>)"
      "length infos' = length infos" "length cores = length (g_pcap_core s)"
      "\<And>i. infos' ! i = (if i \<in> set (r # ns) then role_of (infos ! i) else infos ! i)" unfolding ms by auto
  let ?s3 = "?s2\<lparr>g_pcap_info := infos', g_pcap_core := cores\<rparr>"
  have thread: "cap_status (info_at ?s3 i) = SPP_CAPTURE_IDLE \<and> compress_fp (info_at ?s3 i) = None \<and>
      thread_type (info_at ?s3 i) = (if i = r then PCAP_RECEIVE else PCAP_WRITE)" if i: "i \<in> set (r # ns)" for i
    using l(3) [OF i] fresh_idle [OF fresh, of i] ok i t(4) [of i] by (auto simp: role_of_def)
  have "int (card (insert r (set ns))) = thread_cnt ?s3" using d z(1) by (simp add: distinct_card)
  moreover have "\<forall>n\<in>insert r (set ns). n < length infos' \<and> n < length cores \<and> n < length (g_total_write s)"
    using fresh t(2,3) l(2) by (auto simp: fresh_process_def)
  ultimately have "pcap_shape r (set ns) ?s3" using d thread by (auto simp: pcap_shape_def)
  then have "pcap_ready held queued P r (set ns) ?s3 w"
    using thread z p w fresh unfolding pcap_ready_def running_def by (simp add: fresh_process_def)
  then show ?thesis using l(1) t(1) by blast
qed

text \<open>C30: the start of spp_pcap establishes what the theorems about its threads assume.  When the process
  is fresh, the cores of the workers are distinct and main comes past the creation of the ring with a
  port that the table of the port abilities has, then every thread can be launched, and whatever the
  order in which they begin, the first core receives, the others write, their number is the count
  that the threads wait for, nothing runs and nothing is open.\<close>

theorem pcap_start_ready:
  assumes "fresh_process (r # ns) s" and "distinct (r # ns)"
    and "pcap_prepare E ring_create (List.map int (r # ns)) n_avail s v = Some (True, ret, conn, s1, v1)"
    and "valid_port P (dpdk_port (port_cap (g_pcap_option s1)))"
    and "queued w = []" and "held w = {#}" and "set ms = set (r # ns)"
  shows "\<exists>s2 s3. launch_threads (List.map int (r # ns)) 0 (s1\<lparr>thread_cnt := 0, start_up_cnt := 0\<rparr>) = Some s2 \<and>
    start_threads (List.map int ms) s2 = Some s3 \<and>
    pcap_ready held queued (spp_port_ability_init P) r (set ns) s3 w"
proof -
  let ?s = "s1\<lparr>thread_cnt := 0, start_up_cnt := 0\<rparr>"
  have same: "same_capture s s1" "g_capture_status s1 = SPP_CAPTURE_IDLE" using prepare_same [OF assms(3)] by simp_all
  then have "fresh_process (r # ns) ?s" by (intro fresh_same [OF assms(1)]) (simp add: same_capture_def)
  moreover have "plain_port (spp_port_ability_init P) (dpdk_port (port_cap (g_pcap_option ?s))) SPP_PORT_RXTX_RX"
    using fresh_port_plain [OF assms(4)] by simp
  ultimately show ?thesis
    using threads_ready [of r ns ?s "spp_port_ability_init P" queued w held ms] assms(2,5-7) same(2) by simp
qed

end
