(* ===== verification/Demo_Pcap_Command.thy ===== *)
theory Demo_Pcap_Command
  imports Demo_Pcap Demo_Responses Pcap_Answer Pcap_Start
begin

text \<open>The witnesses of the theorems about the commands of spp_pcap.\<close>

lemma demo_status_ready: "status_ready [1, 2] demo_pcap"
  by (auto simp: status_ready_def demo_pcap_def demo_writer_def demo_option_def demo_port_def zero_port_def NUL_def)

lemma demo_unknown_line: "words_of ''launch'' = [''launch'']" "''launch'' \<notin> range command_word"
proof -
  show "words_of ''launch'' = [''launch'']" by simp
  have "command_word ty \<noteq> ''launch''" for ty by (cases ty) simp_all
  then show "''launch'' \<notin> range command_word" by (metis rangeE)
qed

lemma pcap_bad_request_answered_witness:
  "pcap_process_request resp_env [1, 2] (resp_net []) ''launch'' 3 demo_pcap [] =
    Some (0, 3, demo_pcap, [render (JObj [(''results'', JArr [JObj [(''result'', JStr ''error''),
     (''error_details'', JObj [(''message'', JStr ''bad value(command)'')])]])])])"
proof -
  have "spp_command_parse_request zero_pcap_request ''launch'' zero_parse_error \<noteq> None"
    unfolding parse_request_defined using demo_unknown_line(1) by simp
  moreover have "\<forall>ty. words_of ''launch'' \<noteq> [command_word ty]" using demo_unknown_line by (metis list.inject rangeI)
  moreover have "room resp_env 200" by (rule resp_room) simp
  ultimately have "pcap_process_request resp_env [1, 2] (resp_net []) ''launch'' 3 demo_pcap [] =
      (case spp_send_message (resp_net []) 3 (render (rejection_answer ''launch'')) [] of (r, sock1, w1) \<Rightarrow>
        Some (SPP_RET_OK, sock1, demo_pcap, w1))"
    by (rule pcap_bad_request_answered)
  moreover have "pcap_rejection ''launch'' = ''bad value(command)''"
    unfolding pcap_rejection_def using demo_unknown_line by simp
  ultimately show ?thesis by (simp add: rejection_answer_def spp_send_message_def resp_net_def del: render.simps)
qed

lemma pcap_command_answered_witness:
  "\<exists>b. holds (Some b) [] \<and> pcap_command_proc_do resp_env (resp_net ''status'') [1, 2] resp_conn resp_loop demo_pcap [] =
    Some (0, \<lparr>lp_sock = 3, lp_msgbuf = Some b\<rparr>, demo_pcap,
      [render (JObj [(''results'', JArr [JObj [(''result'', JStr ''success'')]]),
        (''info'', JObj [(''client-id'', JInt 1), (''status'', JStr ''idle''), (''core'', JArr
          [JObj [(''core'', JInt 1), (''role'', JStr ''receive''), (''rx_port'', JArr [JObj [(''port'', JStr ''phy:0'')]])],
           JObj [(''core'', JInt 2), (''role'', JStr ''write''), (''filename'', JStr [])]])])])])"
proof -
  have w: "words_of ''status'' = [command_word CMD_STATUS]" by simp
  have a: "pcap_answer [1, 2] demo_pcap CMD_STATUS = [(''results'', JArr [JObj [(''result'', JStr ''success'')]]),
        (''info'', JObj [(''client-id'', JInt 1), (''status'', JStr ''idle''), (''core'', JArr
          [JObj [(''core'', JInt 1), (''role'', JStr ''receive''), (''rx_port'', JArr [JObj [(''port'', JStr ''phy:0'')]])],
           JObj [(''core'', JInt 2), (''role'', JStr ''write''), (''filename'', JStr [])]])])]"
    by (simp add: pcap_answer_def pcap_status_members_def thread_members_def demo_pcap_def demo_writer_def file_shown_def
        pcap_port_text_def pcap_format_port_string_def captured_port_def demo_option_def demo_port_def
        CAPTURE_STATUS_STRINGS_def show01)
  have room: "room resp_env (length (render (JObj (pcap_answer [1, 2] demo_pcap CMD_STATUS))))"
    unfolding a by (rule resp_room) (simp add: quoted_def show_int_def show_nat.simps)
  have recv: "net_recv (resp_net ''status'') (lp_sock resp_loop) MESSAGE_BUFFER_BLOCK_SIZE [] = ((6, ''status'', False), [])"
    using resp_recv [of "''status''" "[]"] by simp
  have "pcap_requested CMD_STATUS demo_pcap = demo_pcap" by (simp add: pcap_requested_def)
  then show ?thesis
    using pcap_command_answered [OF resp_loop_ok(1,2,4) recv _ _ _ w demo_status_ready room, of resp_conn] unfolding a
    by (simp add: spp_send_message_def resp_net_def resp_loop_def NUL_def del: render.simps)
qed

text \<open>The process has two workers, the cores 2 and 1, and captures from the first NIC.\<close>

definition fresh_pcap :: "byte list pcap_data" where
  "fresh_pcap = demo_pcap\<lparr>g_pcap_iface := \<lparr>pif_num_nic = 0, pif_num_ring = 0, pif_nic = [zero_port], pif_ring = [zero_port]\<rparr>,
     g_pcap_core := replicate 3 SPP_CORE_UNUSE, g_pcap_info := replicate 3 (demo_writer\<lparr>thread_type := PCAP_UNUSE\<rparr>),
     g_pcap_option := demo_option\<lparr>port_cap := (demo_port PHY 0 7)\<rparr>\<rparr>"

lemma fresh_init: "pcap_init_mng_data [2, 1] 1 fresh_pcap = Some (0, fresh_pcap\<lparr>
     g_pcap_iface := \<lparr>pif_num_nic = 1, pif_num_ring = 0, pif_nic = [(init_port 0)\<lparr>iface_type := PHY, dpdk_port := 0\<rparr>],
       pif_ring = [init_port 0]\<rparr>,
     g_pcap_core := [SPP_CORE_UNUSE, SPP_CORE_STOP, SPP_CORE_STOP],
     g_capture_request := SPP_CAPTURE_IDLE, g_capture_status := SPP_CAPTURE_IDLE\<rparr>)"
  by (simp add: pcap_init_mng_data_def pcap_init_core_info_def pcap_init_iface_info_def pcap_set_nic_interface_def
      set_pcap_core_def fresh_pcap_def wr_def numeral_eq_Suc Let_def)

lemma pcap_start_ready_witness:
  "\<exists>ret conn s1 v1 s2 s3.
    pcap_prepare demo_ethdev (\<lambda>nm v. (True, v @ [nm])) [2, 1] 1 fresh_pcap [] = Some (True, ret, conn, s1, v1) \<and>
    v1 = [''cap_ring_1''] \<and>
    launch_threads [2, 1] 0 (s1\<lparr>thread_cnt := 0, start_up_cnt := 0\<rparr>) = Some s2 \<and>
    start_threads [1, 2] s2 = Some s3 \<and>
    pcap_ready demo_held pw_ring (spp_port_ability_init demo) 2 {1} s3 demo_pcap_world"
proof -
  have prep: "\<exists>ret conn s1. pcap_prepare demo_ethdev (\<lambda>nm v. (True, v @ [nm])) (List.map int [2, 1]) 1 fresh_pcap [] =
      Some (True, ret, conn, s1, [''cap_ring_1'']) \<and> dpdk_port (port_cap (g_pcap_option s1)) = 0"
    by (simp add: pcap_prepare_def fresh_init, simp add: spp_command_conn_init_def strcpy_buf_def NUL_def setup_capture_port_def
        pcap_get_iface_info_def fresh_pcap_def demo_pcap_def demo_option_def demo_port_def set_cap_port_def rd_def
        Let_def PORT_STR_SIZE_def snprintf_buf_def show01)
  then obtain ret conn s1 where p: "pcap_prepare demo_ethdev (\<lambda>nm v. (True, v @ [nm])) (List.map int [2, 1]) 1 fresh_pcap [] =
      Some (True, ret, conn, s1, [''cap_ring_1''])" "dpdk_port (port_cap (g_pcap_option s1)) = 0" by blast
  have fresh: "fresh_process [2, 1] fresh_pcap"
    by (simp add: fresh_process_def fresh_pcap_def demo_pcap_def demo_writer_def empty_host_def)
  have "valid_port demo (dpdk_port (port_cap (g_pcap_option s1)))" unfolding p(2) by (simp add: valid_port_def demo_defs)
  from pcap_start_ready [OF fresh _ p(1) this, of pw_ring demo_pcap_world demo_held "[1, 2]"]
  show ?thesis using p(1) by (auto simp: demo_pcap_world_def)
qed

end
