(* ===== verification/Primary.thy ===== *)
theory Primary
  imports Nfv_Command Shared_Common Mac_Text
begin

text \<open>
  The process spp_primary: its options (primary/args.c), the initialisation of ports, memory pool and
  rings (primary/init.c), the status message, the launch of secondary processes and the message loop
  (primary/main.c).  The structures of shared/common.h and the connection are those of spp_nfv, whose
  functions are textually the same.  None is undefined behaviour.
\<close>

section \<open>Data\<close>

text \<open>The structure in shared memory; the lists have the declared sizes.\<close>

record port_info =
  pp_num_ports :: int
  pp_id :: "int list"
  pp_port_stats :: "stats list"
  pp_client_stats :: "stats list"

record primary =
  pri_ports :: port_info
  num_rings :: int
  pri_server_ip :: "string option"
  pri_server_port :: int
  pri_lcore_used :: "int list"
  mac_addresses :: "string list"

definition clear_stats :: "primary \<Rightarrow> primary" where
  "clear_stats s = s\<lparr>pri_ports := (pri_ports s)
     \<lparr>pp_port_stats := replicate (length (pp_port_stats (pri_ports s))) zero_stats,
      pp_client_stats := replicate (length (pp_client_stats (pri_ports s))) zero_stats\<rparr>\<rparr>"

section \<open>Options\<close>

text \<open>The result is the return code with the changed structure; pm is an unsigned long.\<close>

fun mark_ports :: "int \<Rightarrow> nat \<Rightarrow> int \<Rightarrow> port_info \<Rightarrow> port_info option" where
  "mark_ports max_ports pm cnt p =
    (if pm = 0 then Some p
     else do {
       p1 \<leftarrow> (if pm mod 2 = 1 \<and> cnt < max_ports
         then do {
           ids \<leftarrow> wr (pp_id p) (pp_num_ports p) cnt;
           Some (p\<lparr>pp_id := ids, pp_num_ports := to_uint16 (pp_num_ports p + 1)\<rparr>)
         }
         else Some p);
       mark_ports max_ports (pm div 2) (to_uint16 (cnt + 1)) p1
     })"

declare mark_ports.simps [simp del]

definition parse_portmask :: "int \<Rightarrow> string \<Rightarrow> port_info \<Rightarrow> (int \<times> port_info) option" where
  "parse_portmask max_ports portmask p =
    (if portmask = [] then Some (- 1, p)
     else let (pm, rest) = strtoul 16 portmask in
       if rest \<noteq> [] \<or> pm = 0 then Some (- 1, p)
       else do { p1 \<leftarrow> mark_ports max_ports (nat pm) 0 p; Some (0, p1) })"

text \<open>What getopt_long returns, with optarg.\<close>

datatype primary_opt = Port_Mask string | Num_Clients string | Server_Addr string | Unknown_Opt

text \<open>One option; the inner None is the return with -1.\<close>

definition parse_app_opt :: "int \<Rightarrow> primary_opt \<Rightarrow> primary \<Rightarrow> primary option option" where
  "parse_app_opt max_ports opt s =
    (case opt of
       Port_Mask a \<Rightarrow> do {
         (ret, p) \<leftarrow> parse_portmask max_ports a (pri_ports s);
         Some (if ret \<noteq> 0 then None else Some (s\<lparr>pri_ports := p\<rparr>))
       }
     | Num_Clients a \<Rightarrow>
         (let (ret, n) = parse_num_clients (Some a) (num_rings s) in
          Some (if ret \<noteq> 0 then None else Some (s\<lparr>num_rings := n\<rparr>)))
     | Server_Addr a \<Rightarrow>
         (case parse_server (Some a) of (ret, ip, port) \<Rightarrow>
            Some (if ret \<noteq> 0 then None
              else Some (s\<lparr>pri_server_ip := ip, pri_server_port := (case port of None \<Rightarrow> pri_server_port s | Some q \<Rightarrow> q)\<rparr>)))
     | Unknown_Opt \<Rightarrow> Some None)"

fun parse_app_opts :: "int \<Rightarrow> primary_opt list \<Rightarrow> primary \<Rightarrow> primary option option" where
  "parse_app_opts max_ports [] s = Some (Some s)"
| "parse_app_opts max_ports (opt # opts) s = do {
     r \<leftarrow> parse_app_opt max_ports opt s;
     case r of None \<Rightarrow> Some None | Some s1 \<Rightarrow> parse_app_opts max_ports opts s1
   }"

definition parse_app_args :: "int \<Rightarrow> primary_opt list \<Rightarrow> primary \<Rightarrow> primary option option" where
  "parse_app_args max_ports opts s = do {
     r \<leftarrow> parse_app_opts max_ports opts s;
     Some (case r of
         None \<Rightarrow> None
       | Some s1 \<Rightarrow> if pp_num_ports (pri_ports s1) = 0 \<or> num_rings s1 = 0 then None else Some s1)
   }"

section \<open>Initialisation\<close>

text \<open>The calls of the initialisation that the other processes do not make.  is_secondary says
  whether rte_eal_process_type gives RTE_PROC_SECONDARY.\<close>

record 'v pri_dev =
  is_secondary :: bool
  rte_mempool_create :: "nat \<Rightarrow> 'v \<Rightarrow> bool \<times> 'v"
  rte_ring_create :: "string \<Rightarrow> 'v \<Rightarrow> bool \<times> 'v"
  rte_eth_promiscuous_enable :: "int \<Rightarrow> 'v \<Rightarrow> 'v"
  eth_link_status :: "int \<Rightarrow> 'v \<Rightarrow> bool"
  rte_delay_ms :: "nat \<Rightarrow> 'v \<Rightarrow> 'v"

definition MBUFS_PER_CLIENT :: nat where "MBUFS_PER_CLIENT = 1536"
definition MBUFS_PER_PORT :: nat where "MBUFS_PER_PORT = 1536"

definition init_mbuf_pools :: "'v ethdev \<Rightarrow> 'v pri_dev \<Rightarrow> primary \<Rightarrow> 'v \<Rightarrow> bool \<times> 'v" where
  "init_mbuf_pools E D s v =
    (let num_mbufs = nat (num_rings s) * MBUFS_PER_CLIENT + nat (pp_num_ports (pri_ports s)) * MBUFS_PER_PORT in
     if is_secondary D then (rte_mempool_lookup E PKTMBUF_POOL_NAME v, v)
     else rte_mempool_create D num_mbufs v)"

definition pri_init_port :: "'v ethdev \<Rightarrow> 'v pri_dev \<Rightarrow> int \<Rightarrow> 'v \<Rightarrow> int \<times> 'v" where
  "pri_init_port E D port_num v =
    (let (r1, v1) = rte_eth_dev_configure E port_num v in
     if r1 \<noteq> 0 then (r1, v1)
     else let (r2, v2) = rte_eth_rx_queue_setup E port_num 0 v1 in
     if r2 < 0 then (r2, v2)
     else let (r3, v3) = rte_eth_tx_queue_setup E port_num 0 v2 in
     if r3 < 0 then (r3, v3)
     else let (r4, v4) = rte_eth_dev_start E port_num (rte_eth_promiscuous_enable D port_num v3) in
     if r4 < 0 then (r4, v4) else (0, v4))"

text \<open>False when a port cannot be initialised, which ends the process.\<close>

fun init_ports :: "'v ethdev \<Rightarrow> 'v pri_dev \<Rightarrow> int list \<Rightarrow> nat \<Rightarrow> nat \<Rightarrow> 'v \<Rightarrow> (bool \<times> 'v) option" where
  "init_ports E D ids 0 cnt v = Some (True, v)"
| "init_ports E D ids (Suc left) cnt v = do {
     port \<leftarrow> rd ids (int cnt);
     let (ret, v1) = pri_init_port E D port v;
     if ret \<noteq> 0 then Some (False, v1) else init_ports E D ids left (Suc cnt) v1
   }"

definition CHECK_INTERVAL :: nat where "CHECK_INTERVAL = 100"
definition MAX_CHECK_TIME :: nat where "MAX_CHECK_TIME = 90"

text \<open>Whether no selected port is down; the mask is shifted by the number of the port, which has to be
  less than 32.\<close>

fun all_ports_up :: "'v pri_dev \<Rightarrow> int list \<Rightarrow> nat \<Rightarrow> nat \<Rightarrow> 'v \<Rightarrow> bool option" where
  "all_ports_up D ids 0 portid v = Some True"
| "all_ports_up D ids (Suc left) portid v = do {
     port \<leftarrow> rd ids (int portid);
     ensure (port < 32);
     if eth_link_status D port v then all_ports_up D ids left (Suc portid) v else Some False
   }"

fun wait_links :: "'v pri_dev \<Rightarrow> int list \<Rightarrow> nat \<Rightarrow> nat \<Rightarrow> 'v \<Rightarrow> 'v option" where
  "wait_links D ids n 0 v = Some v"
| "wait_links D ids n (Suc left) v = do {
     up \<leftarrow> all_ports_up D ids n 0 v;
     if up then Some v else wait_links D ids n left (rte_delay_ms D CHECK_INTERVAL v)
   }"

definition check_all_ports_link_status :: "'v pri_dev \<Rightarrow> int list \<Rightarrow> int \<Rightarrow> 'v \<Rightarrow> 'v option" where
  "check_all_ports_link_status D ids port_num v = wait_links D ids (nat port_num) (Suc MAX_CHECK_TIME) v"

fun init_shm_rings :: "'v ethdev \<Rightarrow> 'v pri_dev \<Rightarrow> nat \<Rightarrow> nat \<Rightarrow> 'v \<Rightarrow> bool \<times> 'v" where
  "init_shm_rings E D 0 i v = (True, v)"
| "init_shm_rings E D (Suc left) i v =
    (let q_name = get_rx_queue_name (int i);
         (ok, v1) = (if is_secondary D then (rte_ring_lookup E q_name v \<noteq> None, v) else rte_ring_create D q_name v) in
     if \<not> ok then (False, v1) else init_shm_rings E D left (Suc i) v1)"

text \<open>The inner None is the end of the process by rte_exit or a negative result.  zone says whether
  the memory zone is there; a primary process clears it.\<close>

definition primary_init ::
  "'v ethdev \<Rightarrow> 'v pri_dev \<Rightarrow> int \<Rightarrow> int \<Rightarrow> bool \<Rightarrow> primary_opt list \<Rightarrow> int list \<Rightarrow> primary \<Rightarrow> 'v \<Rightarrow>
   (primary \<times> 'v) option option" where
  "primary_init E D ret_eal total_ports zone opts lcores s v =
    (if ret_eal < 0 \<or> \<not> zone then Some None
     else do {
       let s0 = (if is_secondary D then s
         else clear_stats (s\<lparr>pri_ports := (pri_ports s)\<lparr>pp_num_ports := 0,
           pp_id := replicate (length (pp_id (pri_ports s))) 0\<rparr>\<rparr>));
       r \<leftarrow> parse_app_args total_ports opts s0;
       case r of
         None \<Rightarrow> Some None
       | Some s1 \<Rightarrow> do {
           let (pool, v1) = init_mbuf_pools E D s1 v;
           if \<not> pool then Some None
           else do {
             let p = pri_ports s1;
             (ok, v2) \<leftarrow> (if is_secondary D then Some (True, v1) else init_ports E D (pp_id p) (nat (pp_num_ports p)) 0 v1);
             if \<not> ok then Some None
             else do {
               v3 \<leftarrow> check_all_ports_link_status D (pp_id p) (pp_num_ports p) v2;
               let (rings, v4) = init_shm_rings E D (nat (num_rings s1)) 0 v3;
               if \<not> rings then Some None
               else do {
                 used \<leftarrow> mark_lcores lcores (pri_lcore_used s1);
                 Some (Some (s1\<lparr>pri_lcore_used := used\<rparr>, v4))
               }
             }
           }
         }
     })"

end
