(* ===== verification/Primary_Command.thy ===== *)
theory Primary_Command
  imports Primary Command_Json
begin

text \<open>
  primary/main.c: the status message, the launch of a secondary process, the commands and the turn
  of the main loop.
\<close>

section \<open>The status message\<close>

definition PRI_BUF_SIZE_LCORE :: nat where "PRI_BUF_SIZE_LCORE = 128"
definition PRI_BUF_SIZE_PHY :: nat where "PRI_BUF_SIZE_PHY = 512"
definition PRI_BUF_SIZE_RING :: nat where "PRI_BUF_SIZE_RING = MSG_SIZE - PRI_BUF_SIZE_LCORE - PRI_BUF_SIZE_PHY"

text \<open>The address of a port is asked for once and kept in a table of 18 bytes per port; the newline
  does not fit.\<close>

definition get_printable_mac_addr :: "(int \<Rightarrow> 8 word list) \<Rightarrow> int \<Rightarrow> string list \<Rightarrow> (string \<times> string list) option" where
  "get_printable_mac_addr macaddr port addresses =
    (if port \<ge> int (length addresses) then Some (''00:00:00:00:00:00'', addresses)
     else do {
       a \<leftarrow> rd addresses port;
       if a = [] then do {
         let txt = snprintf_buf 18 (mac_text (List.map unat (macaddr port)) @ [CHR 0x0A]);
         addresses' \<leftarrow> wr addresses port txt;
         Some (txt, addresses')
       }
       else Some (a, addresses)
     })"

fun append_used :: "nat \<Rightarrow> int list \<Rightarrow> string \<Rightarrow> string option" where
  "append_used i [] str = Some str"
| "append_used i (u # us) str = do {
     str1 \<leftarrow> (if u = 1 then strcpy_buf 108 (str @ show_nat i @ '','') else Some str);
     append_used (Suc i) us str1
   }"

definition member_u64 :: "string \<Rightarrow> 64 word \<Rightarrow> string" where
  "member_u64 nm x = quoted nm @ '': '' @ show_nat (unat x)"

text \<open>One element of phy_ports and of ring_ports, in a buffer of 256 bytes.\<close>

definition phy_port_text :: "(int \<Rightarrow> 8 word list) \<Rightarrow> port_info \<Rightarrow> nat \<Rightarrow> string list \<Rightarrow> (string \<times> string list) option" where
  "phy_port_text macaddr p i addresses = do {
     port \<leftarrow> rd (pp_id p) (int i);
     (mac, addresses') \<leftarrow> get_printable_mac_addr macaddr port addresses;
     st \<leftarrow> rd (pp_port_stats p) (int i);
     cl \<leftarrow> rd (pp_client_stats p) (int i);
     txt \<leftarrow> strcpy_buf 256 (''{'' @ quoted ''id'' @ '': '' @ show_unsigned port @ '', '' @ quoted ''eth'' @ '': '' @ quoted mac @
       '', '' @ member_u64 ''rx'' (st_rx st) @ '', '' @ member_u64 ''tx'' (st_tx st) @
       '', '' @ member_u64 ''tx_drop'' (st_tx_drop cl) @ ''}'');
     Some (txt, addresses')
   }"

definition ring_port_text :: "port_info \<Rightarrow> nat \<Rightarrow> 'a \<Rightarrow> (string \<times> 'a) option" where
  "ring_port_text p i a = do {
     cl \<leftarrow> rd (pp_client_stats p) (int i);
     txt \<leftarrow> strcpy_buf 256 (''{'' @ quoted ''id'' @ '': '' @ show_nat i @ '', '' @ member_u64 ''rx'' (st_rx cl) @
       '', '' @ member_u64 ''rx_drop'' (st_rx_drop cl) @ '', '' @ member_u64 ''tx'' (st_tx cl) @
       '', '' @ member_u64 ''tx_drop'' (st_tx_drop cl) @ ''}'');
     Some (txt, a)
   }"

text \<open>The loop over the n elements, which the code has twice; a is the table of the addresses.  An
  element that does not fit ends the list, and the comma before it is removed.  self_comma is what
  sprintf(buf, "%s,", buf) leaves in buf: the standard does not define a copy onto itself.\<close>

fun append_entries ::
  "(string \<Rightarrow> string) \<Rightarrow> nat \<Rightarrow> (nat \<Rightarrow> 'a \<Rightarrow> (string \<times> 'a) option) \<Rightarrow> nat \<Rightarrow> nat \<Rightarrow> string \<Rightarrow> 'a \<Rightarrow>
   (string \<times> 'a) option" where
  "append_entries self_comma sz entry i 0 buf a = Some (buf, a)"
| "append_entries self_comma sz entry i (Suc left) buf a = do {
     (t, a1) \<leftarrow> entry i a;
     if length buf + length t > sz - 1
     then (if buf = [] then None else Some (butlast buf, a1))
     else do {
       buf1 \<leftarrow> strcpy_buf sz (buf @ t);
       buf2 \<leftarrow> (if left > 0 then strcpy_buf sz (self_comma buf1) else Some buf1);
       append_entries self_comma sz entry (Suc i) left buf2 a1
     }
   }"

definition status_text :: "string \<Rightarrow> string \<Rightarrow> string \<Rightarrow> string" where
  "status_text lcore_ids phy_ports ring_ports =
    ''{'' @ lcore_ids @ '', '' @ quoted ''phy_ports'' @ '': ['' @ phy_ports @ ''], '' @ quoted ''ring_ports'' @ '': ['' @
    ring_ports @ '']}''"

definition get_status_json ::
  "(string \<Rightarrow> string) \<Rightarrow> (int \<Rightarrow> 8 word list) \<Rightarrow> primary \<Rightarrow> (int \<times> string \<times> primary) option" where
  "get_status_json self_comma macaddr s = do {
     let p = pri_ports s;
     lcore_id \<leftarrow> append_used 0 (pri_lcore_used s) [];
     ensure (lcore_id \<noteq> []);
     lcore_ids \<leftarrow> strcpy_buf PRI_BUF_SIZE_LCORE (quoted ''lcores'' @ '':['' @ butlast lcore_id @ '']'');
     (phy_ports, addresses) \<leftarrow> append_entries self_comma PRI_BUF_SIZE_PHY (phy_port_text macaddr p) 0
       (nat (pp_num_ports p)) [] (mac_addresses s);
     (ring_ports, _) \<leftarrow> append_entries self_comma PRI_BUF_SIZE_RING (ring_port_text p) 0 (nat (num_rings s)) [] ();
     str \<leftarrow> strcpy_buf MSG_SIZE (status_text lcore_ids phy_ports ring_ports);
     Some (0, str, s\<lparr>mac_addresses := addresses\<rparr>)
   }"

section \<open>Launching a secondary process\<close>

definition SPP_PATH_LEN :: nat where "SPP_PATH_LEN = 1024"
definition NOF_TOKENS :: nat where "NOF_TOKENS = 48"
definition LAUNCH_CMD :: string where "LAUNCH_CMD = ''python''"
definition LAUNCHER_NAME :: string where "LAUNCHER_NAME = ''sec_launcher.py''"

text \<open>readlink gives the bytes of the path without a NUL, or None for -1; stack is the text that the
  uninitialised buffer has behind them.  fork_pid is the result of fork in the parent.\<close>

record launch_env =
  readlink_exe :: "string option"
  stack_text :: string
  fork_pid :: int
  strtod_int :: "string \<Rightarrow> int option"

text \<open>What the child runs, with the file its output goes to.  Without an argument the child prints
  NULL before it runs the command.\<close>

datatype child = No_Child | Child_Undefined | Child_Exec "string list" string

definition launch_sec_proc :: "launch_env \<Rightarrow> string \<Rightarrow> int \<Rightarrow> string list \<Rightarrow> (int \<times> child) option" where
  "launch_sec_proc e sec_name sec_id sec_args =
    (case readlink_exe e of
       None \<Rightarrow> Some (0, No_Child)
     | Some path \<Rightarrow> do {
         path_spp_pri \<leftarrow> strcpy_buf SPP_PATH_LEN (path @ stack_text e);
         let token_list = tokens (\<lambda>c. c = CHR ''/'') path_spp_pri;
         let num_token = length token_list;
         ensure (3 < num_token \<and> num_token < NOF_TOKENS);
         src \<leftarrow> strcpy_buf SPP_PATH_LEN (''/'' @ concat (List.map (\<lambda>t. t @ ''/'') (take (num_token - 3) token_list)));
         path_spp_log \<leftarrow> strcpy_buf SPP_PATH_LEN (src @ ''../log/'' @ sec_name @ ''-'' @ show_int sec_id @ ''.log'');
         path_launcher \<leftarrow> strcpy_buf SPP_PATH_LEN (src @ ''../tools/helpers/'' @ LAUNCHER_NAME);
         let sec_dirname = snd (get_sec_dir sec_name []);
         ensure (sec_dirname \<noteq> []);
         path_spp_sec \<leftarrow> strcpy_buf SPP_PATH_LEN (src @ sec_dirname @ ''/'' @ token_list ! (num_token - 2) @ ''/'' @ sec_name);
         Some (0, if fork_pid e < 0 then No_Child
           else if sec_args = [] then Child_Undefined
           else Child_Exec ([LAUNCH_CMD, path_launcher, path_spp_sec] @ sec_args) path_spp_log)
       })"

section \<open>Commands\<close>

text \<open>The tokens are in an array of MAX_PARAMETER pointers whose last used one is NULL, the third is
  copied into 16 bytes.  The result has the text that is sent back and what a child runs.\<close>

definition primary_command ::
  "(string \<Rightarrow> string) \<Rightarrow> (int \<Rightarrow> 8 word list) \<Rightarrow> launch_env \<Rightarrow> string \<Rightarrow> primary \<Rightarrow>
   (int \<times> string \<times> child \<times> primary) option" where
  "primary_command self_comma macaddr e str s = do {
     let token_list = tokens (\<lambda>c. c = CHR '' '') str;
     let reply = strtok_text str;
     ensure (length token_list < MAX_PARAMETER);
     sec_name \<leftarrow> (if length token_list > 2 then strcpy_buf 16 (token_list ! 2) else Some []);
     let sec_args = drop 3 token_list;
     ensure (token_list \<noteq> []);
     let tok = hd token_list;
     if tok = ''status'' then do {
       (ret, txt, s1) \<leftarrow> get_status_json self_comma macaddr s;
       Some (ret, txt, No_Child, s1)
     }
     else if tok = ''launch'' then do {
       ensure (length token_list > 1);
       sec_id \<leftarrow> strtod_int e (token_list ! 1);
       (ret, ch) \<leftarrow> launch_sec_proc e sec_name sec_id sec_args;
       Some (ret, reply, ch, s)
     }
     else if tok = ''exit'' then Some (- 1, reply, No_Child, s)
     else if tok = ''clear'' then
       Some (0, ''{'' @ quoted ''status'' @ '': '' @ quoted ''cleared'' @ ''}'', No_Child, clear_stats s)
     else Some (0, reply, No_Child, s)
   }"

section \<open>The main loop\<close>

text \<open>poll waits for a message; do_connection, do_send and the rest of do_receive are as in spp_nfv.\<close>

definition POLL_TIMEOUT_MS :: nat where "POLL_TIMEOUT_MS = 100"

definition primary_receive ::
  "'w net \<Rightarrow> (int \<Rightarrow> nat \<Rightarrow> 'w \<Rightarrow> int \<times> 'w) \<Rightarrow> nfv_conn \<Rightarrow> 'w \<Rightarrow> (int \<times> string \<times> nfv_conn \<times> 'w) option" where
  "primary_receive N poll c w =
    (let (ret, w1) = poll (nc_sock c) POLL_TIMEOUT_MS w in
     if ret \<le> 0
     then (if ret < 0 then Some (- 1, [], \<lparr>nc_connected = 0, nc_sock = - 1\<rparr>, net_close N (nc_sock c) w1)
       else Some (- 1, [], c, w1))
     else do_receive N c w1)"

text \<open>One turn of the loop; the result True ends it.\<close>

definition primary_turn ::
  "'w net \<Rightarrow> (int \<Rightarrow> nat \<Rightarrow> 'w \<Rightarrow> int \<times> 'w) \<Rightarrow> (string \<Rightarrow> string) \<Rightarrow> (int \<Rightarrow> 8 word list) \<Rightarrow> launch_env \<Rightarrow>
   nfv_conn \<Rightarrow> primary \<Rightarrow> 'w \<Rightarrow> (bool \<times> nfv_conn \<times> child \<times> primary \<times> 'w) option" where
  "primary_turn N poll self_comma macaddr e c s w = do {
     ip \<leftarrow> pri_server_ip s;
     (ret, c1, w1) \<leftarrow> do_connection N ip (pri_server_port s) c w;
     if ret < 0 then Some (False, c1, No_Child, s, net_usleep N CONN_RETRY_USEC w1)
     else do {
       (ret_recv, str, c2, w2) \<leftarrow> primary_receive N poll c1 w1;
       if ret_recv < 0 then Some (False, c2, No_Child, s, w2)
       else do {
         (flg_exit, reply, ch, s1) \<leftarrow> primary_command self_comma macaddr e str s;
         let (ret_send, c3, w3) = do_send N reply c2 w2;
         Some (flg_exit < 0, c3, ch, s1, w3)
       }
     }
   }"

end
