(* ===== verification/Primary_Status.thy ===== *)
theory Primary_Status
  imports Primary_Command Nfv_Status
begin

text \<open>
  The status message of spp_primary against the JSON value it stands for.
\<close>

section \<open>Texts without the blanks between tokens\<close>

text \<open>q says whether the position is in a string.\<close>

fun squeeze :: "bool \<Rightarrow> string \<Rightarrow> string" where
  "squeeze q [] = []"
| "squeeze q (c # cs) =
    (if c = CHR 0x22 then c # squeeze (\<not> q) cs
     else if \<not> q \<and> c = CHR '' '' then squeeze q cs
     else c # squeeze q cs)"

fun in_string :: "bool \<Rightarrow> string \<Rightarrow> bool" where
  "in_string q [] = q"
| "in_string q (c # cs) = in_string (if c = CHR 0x22 then \<not> q else q) cs"

lemma squeeze_append: "squeeze q (t @ u) = squeeze q t @ squeeze (in_string q t) u"
  by (induction q t rule: squeeze.induct) auto

lemma in_string_append: "in_string q (t @ u) = in_string (in_string q t) u"
  by (induction q t rule: in_string.induct) auto

lemma squeeze_inside: "CHR 0x22 \<notin> set t \<Longrightarrow> squeeze True t = t \<and> in_string q t = q"
  by (induction t) auto

lemma squeeze_plain: "CHR 0x22 \<notin> set t \<Longrightarrow> CHR '' '' \<notin> set t \<Longrightarrow> squeeze False t = t"
  by (induction t) auto

definition neat :: "string \<Rightarrow> string \<Rightarrow> bool" where
  "neat t u \<longleftrightarrow> squeeze False t = u \<and> \<not> in_string False t"

lemma neat_append: "neat t u \<Longrightarrow> neat t' u' \<Longrightarrow> neat (t @ t') (u @ u')"
  by (simp add: neat_def squeeze_append in_string_append)

lemma neat_plain: "CHR 0x22 \<notin> set t \<Longrightarrow> CHR '' '' \<notin> set t \<Longrightarrow> neat t t"
  using squeeze_inside [of t False] squeeze_plain [of t] by (simp add: neat_def)

lemma neat_quoted: "CHR 0x22 \<notin> set t \<Longrightarrow> neat (quoted t) (quoted t)"
  using squeeze_inside [of t True] by (simp add: neat_def quoted_def squeeze_append in_string_append)

lemma neat_nat: "neat (show_nat n) (show_nat n)"
  using all_digits_show_nat [of n] by (intro neat_plain) (auto simp: is_digit_def digit_val_def ord_of_def)

lemma neat_commas: "list_all2 neat ts us \<Longrightarrow> neat (tight_commas ts) (tight_commas us)"
proof (induction ts arbitrary: us rule: tight_commas.induct)
  case 1
  then show ?case by (simp add: neat_def)
next
  case (2 t)
  then show ?case by (auto simp: list_all2_Cons1)
next
  case (3 t t' ts)
  then obtain u u' us' where us: "us = u # u' # us'" "neat t u" "list_all2 neat (t' # ts) (u' # us')"
    by (auto simp: list_all2_Cons1)
  have "neat '','' '',''" by (rule neat_plain) simp_all
  from neat_append [OF us(2) neat_append [OF this "3.IH" [OF us(3)]]] show ?case using us(1) by simp
qed

section \<open>The lists of ports\<close>

text \<open>How many texts of the given lengths a buffer of sz bytes takes, with a comma after each, and
  that no text but the last fills it to the last byte, because then there is no room for the comma.\<close>

fun shown :: "nat \<Rightarrow> nat \<Rightarrow> nat list \<Rightarrow> nat" where
  "shown sz used [] = 0"
| "shown sz used (l # ls) = (if used + l > sz - 1 then 0 else Suc (shown sz (used + l + 1) ls))"

fun comma_room :: "nat \<Rightarrow> nat \<Rightarrow> nat list \<Rightarrow> bool" where
  "comma_room sz used (l # l' # ls) \<longleftrightarrow> used + l \<noteq> sz - 1 \<and> comma_room sz (used + l + 1) (l' # ls)"
| "comma_room sz used ls \<longleftrightarrow> True"

lemma shown_le: "shown sz used ls \<le> length ls"
  by (induction sz used ls rule: shown.induct) auto

lemma with_commas_snoc: "with_commas (xs @ [t]) = with_commas xs @ t @ '',''" "tight_commas (xs @ [t]) = with_commas xs @ t"
  by (simp_all add: with_commas_def) (induction xs rule: tight_commas.induct, simp_all add: with_commas_def)

lemma append_entries_loop:
  assumes entry: "\<And>j a. j < i + Suc left \<Longrightarrow> ok a \<Longrightarrow> \<exists>a'. entry j a = Some (T j, a') \<and> ok a'"
    and self: "\<And>t. self_comma t = t @ '',''"
    and "ok a" and "length (with_commas xs) < sz"
    and "comma_room sz (length (with_commas xs)) (List.map (length \<circ> T) [i..<i + Suc left])"
    and "xs = [] \<longrightarrow> length (T i) < sz"
  shows "\<exists>a'. ok a' \<and> append_entries self_comma sz entry i (Suc left) (with_commas xs) a =
    Some (tight_commas (xs @ List.map T [i..<i + shown sz (length (with_commas xs)) (List.map (length \<circ> T) [i..<i + Suc left])]), a')"
  using assms(1,3-)
proof (induction left arbitrary: i xs a)
  case 0
  obtain a1 where a1: "entry i a = Some (T i, a1)" "ok a1" using "0.prems"(1) [of i a] "0.prems"(2) by auto
  show ?case
  proof (cases "length (with_commas xs) + length (T i) > sz - 1")
    case True
    then have "xs \<noteq> []" using "0.prems"(5) by (auto simp: with_commas_def)
    then show ?thesis using True a1 by (simp add: with_commas_tight butlast_append)
  next
    case False
    then show ?thesis using a1 "0.prems"(3) by (simp add: strcpy_buf_def with_commas_snoc)
  qed
next
  case (Suc left)
  obtain a1 where a1: "entry i a = Some (T i, a1)" "ok a1" using Suc.prems(1) [of i a] Suc.prems(2) by auto
  have up: "[i..<i + Suc (Suc left)] = i # [Suc i..<Suc i + Suc left]" by (simp add: upt_conv_Cons)
  show ?case
  proof (cases "length (with_commas xs) + length (T i) > sz - 1")
    case True
    then have "xs \<noteq> []" using Suc.prems(5) by (auto simp: with_commas_def)
    then show ?thesis using True a1 unfolding up by (simp add: with_commas_tight butlast_append)
  next
    case False
    let ?xs = "xs @ [T i]"
    have room: "length (with_commas xs) + length (T i) \<noteq> sz - 1"
        "comma_room sz (length (with_commas ?xs)) (List.map (length \<circ> T) [Suc i..<Suc i + Suc left])"
      using Suc.prems(4) unfolding up by (simp_all add: upt_conv_Cons with_commas_snoc comp_def del: upt_Suc)
    have len: "length (with_commas ?xs) < sz" using False room(1) Suc.prems(3) by (simp add: with_commas_snoc)
    define k where "k = shown sz (length (with_commas ?xs)) (List.map (length \<circ> T) [Suc i..<Suc i + Suc left])"
    have "\<exists>a'. ok a' \<and> append_entries self_comma sz entry (Suc i) (Suc left) (with_commas ?xs) a1 =
        Some (tight_commas (?xs @ List.map T [Suc i..<Suc i + k]), a')"
      unfolding k_def by (rule Suc.IH [OF _ a1(2) len room(2)]) (use Suc.prems(1) in auto)
    moreover have "append_entries self_comma sz entry i (Suc (Suc left)) (with_commas xs) a =
        append_entries self_comma sz entry (Suc i) (Suc left) (with_commas ?xs) a1"
      using False a1(1) len self by (simp add: strcpy_buf_def with_commas_snoc)
    moreover have sh: "shown sz (length (with_commas xs)) (List.map (length \<circ> T) [i..<i + Suc (Suc left)]) = Suc k"
      unfolding up k_def using False by (simp add: with_commas_snoc del: upt_Suc)
    moreover have "xs @ List.map T [i..<i + Suc k] = ?xs @ List.map T [Suc i..<Suc i + k]"
      by (simp add: upt_conv_Cons del: upt_Suc)
    ultimately show ?thesis by (simp only:)
  qed
qed

lemma append_entries_all:
  assumes "\<And>j a. j < n \<Longrightarrow> ok a \<Longrightarrow> \<exists>a'. entry j a = Some (T j, a') \<and> ok a'"
    and "\<And>t. self_comma t = t @ '',''" and "ok a"
    and "comma_room sz 0 (List.map (length \<circ> T) [0..<n])" and "\<And>j. j < n \<Longrightarrow> length (T j) < sz" and "0 < sz"
  shows "\<exists>a'. ok a' \<and> append_entries self_comma sz entry 0 n [] a =
    Some (tight_commas (List.map T [0..<shown sz 0 (List.map (length \<circ> T) [0..<n])]), a')"
proof (cases n)
  case 0
  then show ?thesis using assms(3) by simp
next
  case (Suc m)
  then show ?thesis
    using append_entries_loop [of 0 m ok entry T self_comma a "[]" sz] assms by (auto simp: with_commas_def)
qed

section \<open>The entries\<close>

definition mac_of :: "(int \<Rightarrow> 8 word list) \<Rightarrow> int \<Rightarrow> string" where
  "mac_of macaddr port = mac_text (List.map unat (macaddr port))"

text \<open>A device has an address of six bytes, and the table has it when it has been asked for.\<close>

definition macs_ok :: "(int \<Rightarrow> 8 word list) \<Rightarrow> nat \<Rightarrow> string list \<Rightarrow> bool" where
  "macs_ok macaddr n addresses \<longleftrightarrow> length addresses = n \<and> (\<forall>port. length (macaddr port) = 6) \<and>
     (\<forall>i<n. addresses ! i = [] \<or> addresses ! i = mac_of macaddr (int i))"

definition primary_ok :: "(int \<Rightarrow> 8 word list) \<Rightarrow> primary \<Rightarrow> bool" where
  "primary_ok macaddr s \<longleftrightarrow> (let p = pri_ports s; n = length (mac_addresses s) in
     macs_ok macaddr n (mac_addresses s) \<and> 0 \<le> pp_num_ports p \<and> 0 \<le> num_rings s \<and> num_rings s < 2 ^ 16 \<and>
     nat (pp_num_ports p) \<le> length (pp_id p) \<and> nat (pp_num_ports p) \<le> length (pp_port_stats p) \<and>
     nat (pp_num_ports p) \<le> length (pp_client_stats p) \<and> nat (num_rings s) \<le> length (pp_client_stats p) \<and>
     (\<forall>i<nat (pp_num_ports p). 0 \<le> pp_id p ! i \<and> pp_id p ! i < int n))"

lemma length_mac_text: "bs \<noteq> [] \<Longrightarrow> Suc (length (mac_text bs)) = 3 * length bs"
  by (induction bs rule: mac_text.induct) (simp_all add: hex2_def)

lemma length_mac_of: "length (macaddr port) = 6 \<Longrightarrow> length (mac_of macaddr port) = 17"
  using length_mac_text [of "List.map unat (macaddr port)"] by (cases "macaddr port") (auto simp: mac_of_def)

lemma hex_char_quote: "n < 16 \<Longrightarrow> hex_char n \<noteq> CHR 0x22"
  using hex_char_facts(3) [of n] by (auto simp: is_digit_def digit_val_def ord_of_def)

lemma mac_no_quote: "CHR 0x22 \<notin> set (mac_of macaddr port)"
proof -
  have "CHR 0x22 \<notin> set (hex2 (unat b))" for b :: "8 word"
  proof -
    have "unat b < 2 ^ LENGTH(8)" by (rule unsigned_less)
    then have "unat b div 16 < 16" by (simp add: less_mult_imp_div_less)
    then show ?thesis using hex_char_quote [of "unat b div 16"] hex_char_quote [of "unat b mod 16"] by (auto simp: hex2_def)
  qed
  then have "CHR 0x22 \<notin> set (mac_text (List.map unat bs))" for bs :: "8 word list"
  proof (induction bs)
    case (Cons b bs)
    then show ?case by (cases bs) auto
  qed simp
  then show ?thesis by (simp add: mac_of_def)
qed

lemma printable_mac:
  assumes "macs_ok macaddr n addresses" and "0 \<le> port" and "port < int n"
  shows "\<exists>addresses'. get_printable_mac_addr macaddr port addresses = Some (mac_of macaddr port, addresses') \<and>
    macs_ok macaddr n addresses'"
proof -
  have n: "length addresses = n" "length (macaddr port) = 6" using assms(1) by (simp_all add: macs_ok_def)
  have "nat port < n" using assms(2,3) by simp
  then have "addresses ! nat port = [] \<or> addresses ! nat port = mac_of macaddr (int (nat port))"
    using assms(1) unfolding macs_ok_def by blast
  then have old: "addresses ! nat port = [] \<or> addresses ! nat port = mac_of macaddr port" using assms(2) by simp
  have rd: "rd addresses port = Some (addresses ! nat port)" using assms n by (intro rd_ok) simp_all
  have "length (mac_of macaddr port) = 17" using n(2) by (rule length_mac_of)
  then have shown: "snprintf_buf 18 (mac_text (List.map unat (macaddr port)) @ [CHR 0x0A]) = mac_of macaddr port"
    by (simp add: snprintf_buf_def mac_of_def)
  show ?thesis
  proof (cases "addresses ! nat port = []")
    case True
    have wr: "wr addresses port (mac_of macaddr port) = Some (addresses[nat port := mac_of macaddr port])"
      using assms n by (intro wr_ok) simp_all
    have "macs_ok macaddr n (addresses[nat port := mac_of macaddr port])"
      using assms by (auto simp: macs_ok_def nth_list_update)
    then show ?thesis using True rd wr shown assms(3) n by (simp add: get_printable_mac_addr_def Let_def)
  next
    case False
    then show ?thesis using old rd assms(1,3) n by (simp add: get_printable_mac_addr_def)
  qed
qed

definition u64_member :: "string \<Rightarrow> 64 word \<Rightarrow> string \<times> json" where
  "u64_member nm x = (nm, JInt (int (unat x)))"

definition phy_json :: "(int \<Rightarrow> 8 word list) \<Rightarrow> port_info \<Rightarrow> nat \<Rightarrow> json" where
  "phy_json macaddr p i = JObj [(''id'', JInt (pp_id p ! i mod 2 ^ 32)), (''eth'', JStr (mac_of macaddr (pp_id p ! i))),
     u64_member ''rx'' (st_rx (pp_port_stats p ! i)), u64_member ''tx'' (st_tx (pp_port_stats p ! i)),
     u64_member ''tx_drop'' (st_tx_drop (pp_client_stats p ! i))]"

definition ring_json :: "port_info \<Rightarrow> nat \<Rightarrow> json" where
  "ring_json p i = JObj [(''id'', JInt (int i)), u64_member ''rx'' (st_rx (pp_client_stats p ! i)),
     u64_member ''rx_drop'' (st_rx_drop (pp_client_stats p ! i)), u64_member ''tx'' (st_tx (pp_client_stats p ! i)),
     u64_member ''tx_drop'' (st_tx_drop (pp_client_stats p ! i))]"

text \<open>The texts with one blank behind every colon and comma.\<close>

fun spaced :: "json \<Rightarrow> string" where
  "spaced (JStr s) = quoted s"
| "spaced (JInt i) = show_int i"
| "spaced (JArr js) = ''['' @ commas (List.map spaced js) @ '']''"
| "spaced (JObj ms) = ''{'' @ commas (List.map (\<lambda>(k, j). quoted k @ '': '' @ spaced j) ms) @ ''}''"

lemma neat_comma_blank: "list_all2 neat ts us \<Longrightarrow> neat (commas ts) (tight_commas us)"
proof (induction ts arbitrary: us rule: commas.induct)
  case 1
  then show ?case by (simp add: neat_def)
next
  case (2 t)
  then show ?case by (auto simp: list_all2_Cons1)
next
  case (3 t t' ts)
  then obtain u u' us' where us: "us = u # u' # us'" "neat t u" "list_all2 neat (t' # ts) (u' # us')"
    by (auto simp: list_all2_Cons1)
  have "neat '', '' '',''" by (simp add: neat_def)
  from neat_append [OF us(2) neat_append [OF this "3.IH" [OF us(3)]]] show ?case using us(1) by simp
qed

lemma neat_member: "CHR 0x22 \<notin> set k \<Longrightarrow> neat t u \<Longrightarrow> neat (quoted k @ '': '' @ t) (quoted k @ '':'' @ u)"
  by (intro neat_append neat_quoted) (simp_all add: neat_def)

lemma neat_braces: "neat t u \<Longrightarrow> neat (''{'' @ t @ ''}'') (''{'' @ u @ ''}'')" "neat t u \<Longrightarrow> neat (''['' @ t @ '']'') (''['' @ u @ '']'')"
  by (intro neat_append; simp add: neat_def)+

lemma neat_object:
  assumes "\<And>k j. (k, j) \<in> set ms \<Longrightarrow> CHR 0x22 \<notin> set k \<and> neat (spaced j) (compact j)"
  shows "neat (spaced (JObj ms)) (compact (JObj ms))"
  unfolding spaced.simps compact.simps
  by (intro neat_braces neat_comma_blank)
    (use assms in \<open>auto simp: list_all2_map1 list_all2_map2 list_all2_same intro!: neat_member [simplified]\<close>)

lemma neat_number: "0 \<le> n \<Longrightarrow> neat (show_int n) (show_int n)"
  by (simp add: show_int_def neat_nat)

lemma neat_entries: "neat (spaced (phy_json macaddr p i)) (compact (phy_json macaddr p i))"
    "neat (spaced (ring_json p i)) (compact (ring_json p i))"
proof -
  show "neat (spaced (phy_json macaddr p i)) (compact (phy_json macaddr p i))"
    unfolding phy_json_def
    by (rule neat_object) (auto simp: u64_member_def intro!: neat_number neat_quoted mac_no_quote)
  show "neat (spaced (ring_json p i)) (compact (ring_json p i))"
    unfolding ring_json_def by (rule neat_object) (auto simp: u64_member_def intro!: neat_number)
qed

lemma show_u64: "length (show_nat (unat (x :: 64 word))) \<le> 20"
proof -
  have "unat x < 2 ^ LENGTH(64)" by (rule unsigned_less)
  then have "length (show_nat (unat x)) \<le> length (show_nat 18446744073709551615)" by (intro length_show_nat_mono) simp
  also have "length (show_nat 18446744073709551615) = 20" by (simp add: show_nat.simps)
  finally show ?thesis .
qed

lemma show_number: "0 \<le> n \<Longrightarrow> show_int n = show_nat (nat n)" "show_unsigned n = show_int (n mod 2 ^ 32)"
  by (simp_all add: show_int_def show_unsigned_def)

lemma entry_length: "phy_port_text macaddr p i A = Some (t, A') \<Longrightarrow> length t < 256"
    "ring_port_text p i a = Some (t, a') \<Longrightarrow> length t < 256"
  by (auto simp: phy_port_text_def ring_port_text_def bind_Some_iff strcpy_buf_def split: if_splits)

lemma phy_entry:
  assumes ok: "primary_ok macaddr s" and i: "i < nat (pp_num_ports (pri_ports s))"
    and A: "macs_ok macaddr (length (mac_addresses s)) A"
  shows "\<exists>A'. phy_port_text macaddr (pri_ports s) i A = Some (spaced (phy_json macaddr (pri_ports s) i), A') \<and>
    macs_ok macaddr (length (mac_addresses s)) A'"
proof -
  let ?p = "pri_ports s"
  have r: "rd (pp_id ?p) (int i) = Some (pp_id ?p ! i)" "rd (pp_port_stats ?p) (int i) = Some (pp_port_stats ?p ! i)"
      "rd (pp_client_stats ?p) (int i) = Some (pp_client_stats ?p ! i)"
    using ok i by (simp_all add: primary_ok_def Let_def)
  have port: "0 \<le> pp_id ?p ! i" "pp_id ?p ! i < int (length (mac_addresses s))"
    using ok i by (simp_all add: primary_ok_def Let_def)
  from printable_mac [OF A port] obtain A' where
    A': "get_printable_mac_addr macaddr (pp_id ?p ! i) A = Some (mac_of macaddr (pp_id ?p ! i), A')"
      "macs_ok macaddr (length (mac_addresses s)) A'" by blast
  have mac: "length (mac_of macaddr (pp_id ?p ! i)) = 17" using A by (intro length_mac_of) (simp add: macs_ok_def)
  have "length (spaced (phy_json macaddr ?p i)) < 256"
    using mac show_u64 [of "st_rx (pp_port_stats ?p ! i)"] show_u64 [of "st_tx (pp_port_stats ?p ! i)"]
      show_u64 [of "st_tx_drop (pp_client_stats ?p ! i)"] length_show_unsigned [of "pp_id ?p ! i"]
    by (simp add: phy_json_def u64_member_def quoted_def show_number)
  then show ?thesis using r A'
    by (simp add: phy_port_text_def phy_json_def u64_member_def member_u64_def strcpy_buf_def show_number)
qed

lemma ring_entry:
  assumes ok: "primary_ok macaddr s" and i: "i < nat (num_rings s)"
  shows "ring_port_text (pri_ports s) i a = Some (spaced (ring_json (pri_ports s) i), a)"
proof -
  let ?p = "pri_ports s"
  have r: "rd (pp_client_stats ?p) (int i) = Some (pp_client_stats ?p ! i)"
    using ok i by (simp add: primary_ok_def Let_def)
  have "num_rings s < 65536" using ok by (simp add: primary_ok_def Let_def)
  then have "i \<le> 65535" using i by linarith
  then have "length (show_nat i) \<le> length (show_nat 65535)" by (rule length_show_nat_mono)
  also have "length (show_nat 65535) = 5" by (simp add: show_nat.simps)
  finally have "length (show_nat i) \<le> 5" .
  then have "length (spaced (ring_json ?p i)) < 256"
    using show_u64 [of "st_rx (pp_client_stats ?p ! i)"] show_u64 [of "st_tx (pp_client_stats ?p ! i)"]
      show_u64 [of "st_tx_drop (pp_client_stats ?p ! i)"] show_u64 [of "st_rx_drop (pp_client_stats ?p ! i)"]
    by (simp add: ring_json_def u64_member_def quoted_def show_number)
  then show ?thesis using r
    by (simp add: ring_port_text_def ring_json_def u64_member_def member_u64_def strcpy_buf_def show_number)
qed

section \<open>The message\<close>

definition used_texts :: "nat \<Rightarrow> int list \<Rightarrow> string list" where
  "used_texts i us = [show_nat l. (l, u) \<leftarrow> enumerate i us, u = 1]"

lemma append_used_text:
  "length str < 108 \<Longrightarrow> append_used i us str =
    (if length (str @ with_commas (used_texts i us)) < 108 then Some (str @ with_commas (used_texts i us)) else None)"
proof (induction us arbitrary: i str)
  case (Cons u us)
  show ?case
  proof (cases "u = 1")
    case True
    then show ?thesis using Cons.IH [of "str @ show_nat i @ '',''" "Suc i"] Cons.prems
      by (simp add: used_texts_def with_commas_def strcpy_buf_def)
  qed (use Cons in \<open>simp add: used_texts_def\<close>)
qed (simp add: used_texts_def with_commas_def)

lemma used_neat: "list_all2 neat (used_texts i us) (List.map compact [JInt (int l). (l, u) \<leftarrow> enumerate i us, u = 1])"
proof (induction us arbitrary: i)
  case (Cons u us)
  then show ?case using neat_number [of "int i"] by (auto simp: used_texts_def show_number)
qed (simp add: used_texts_def)

text \<open>The lengths of the elements, how many are shown, the JSON value, and the message.\<close>

definition phy_lengths :: "(int \<Rightarrow> 8 word list) \<Rightarrow> primary \<Rightarrow> nat list" where
  "phy_lengths macaddr s =
    List.map (length \<circ> (\<lambda>i. spaced (phy_json macaddr (pri_ports s) i))) [0..<nat (pp_num_ports (pri_ports s))]"

definition ring_lengths :: "primary \<Rightarrow> nat list" where
  "ring_lengths s = List.map (length \<circ> (\<lambda>i. spaced (ring_json (pri_ports s) i))) [0..<nat (num_rings s)]"

definition phy_shown :: "(int \<Rightarrow> 8 word list) \<Rightarrow> primary \<Rightarrow> nat" where
  "phy_shown macaddr s = shown PRI_BUF_SIZE_PHY 0 (phy_lengths macaddr s)"

definition ring_shown :: "primary \<Rightarrow> nat" where
  "ring_shown s = shown PRI_BUF_SIZE_RING 0 (ring_lengths s)"

definition primary_json :: "(int \<Rightarrow> 8 word list) \<Rightarrow> primary \<Rightarrow> json" where
  "primary_json macaddr s = JObj
     [(''lcores'', JArr [JInt (int l). (l, u) \<leftarrow> enumerate 0 (pri_lcore_used s), u = 1]),
      (''phy_ports'', JArr (List.map (phy_json macaddr (pri_ports s)) [0..<phy_shown macaddr s])),
      (''ring_ports'', JArr (List.map (ring_json (pri_ports s)) [0..<ring_shown s]))]"

definition primary_message :: "(int \<Rightarrow> 8 word list) \<Rightarrow> primary \<Rightarrow> string" where
  "primary_message macaddr s =
    status_text (quoted ''lcores'' @ '':['' @ tight_commas (used_texts 0 (pri_lcore_used s)) @ '']'')
      (tight_commas (List.map (\<lambda>i. spaced (phy_json macaddr (pri_ports s) i)) [0..<phy_shown macaddr s]))
      (tight_commas (List.map (\<lambda>i. spaced (ring_json (pri_ports s) i)) [0..<ring_shown s]))"

lemma message_neat: "squeeze False (primary_message macaddr s) = compact (primary_json macaddr s)"
proof -
  have list: "neat (tight_commas (List.map (spaced \<circ> J) [0..<k])) (tight_commas (List.map compact (List.map J [0..<k])))"
    if "\<And>i. neat (spaced (J i)) (compact (J i))" for J and k :: nat
    by (rule neat_commas) (use that in \<open>simp add: list_all2_map1 list_all2_map2 list_all2_same\<close>)
  have lit: "neat '', '' '',''" "neat '': '' '':''" "neat '':'' '':''" by (simp_all add: neat_def)
  have lc: "neat (quoted ''lcores'' @ '':['' @ tight_commas (used_texts 0 (pri_lcore_used s)) @ '']'')
      (quoted ''lcores'' @ '':'' @ compact (JArr [JInt (int l). (l, u) \<leftarrow> enumerate 0 (pri_lcore_used s), u = 1]))"
    using neat_append [OF neat_quoted neat_append [OF lit(3) neat_braces(2) [OF neat_commas [OF used_neat]]], of "''lcores''"]
    by simp
  have phy: "neat (quoted ''phy_ports'' @ '': '' @ ''['' @ tight_commas (List.map (spaced \<circ> phy_json macaddr (pri_ports s)) [0..<phy_shown macaddr s]) @ '']'')
      (quoted ''phy_ports'' @ '':'' @ compact (JArr (List.map (phy_json macaddr (pri_ports s)) [0..<phy_shown macaddr s])))"
    using neat_member [OF _ neat_braces(2) [OF list [of "phy_json macaddr (pri_ports s)"]], of "''phy_ports''"] neat_entries(1) by simp
  have ring: "neat (quoted ''ring_ports'' @ '': '' @ ''['' @ tight_commas (List.map (spaced \<circ> ring_json (pri_ports s)) [0..<ring_shown s]) @ '']'')
      (quoted ''ring_ports'' @ '':'' @ compact (JArr (List.map (ring_json (pri_ports s)) [0..<ring_shown s])))"
    using neat_member [OF _ neat_braces(2) [OF list [of "ring_json (pri_ports s)"]], of "''ring_ports''"] neat_entries(2) by simp
  have "neat (primary_message macaddr s) (compact (primary_json macaddr s))"
    using neat_braces(1) [OF neat_append [OF lc neat_append [OF lit(1) neat_append [OF phy neat_append [OF lit(1) ring]]]]]
    by (simp add: primary_message_def status_text_def primary_json_def comp_def)
  then show ?thesis by (simp add: neat_def)
qed

text \<open>What the message needs to be written: a core in use, room for the numbers of the cores, for the
  commas and for the whole message.\<close>

definition message_fits :: "(int \<Rightarrow> 8 word list) \<Rightarrow> primary \<Rightarrow> bool" where
  "message_fits macaddr s \<longleftrightarrow> 1 \<in> set (pri_lcore_used s) \<and>
     length (with_commas (used_texts 0 (pri_lcore_used s))) < 108 \<and>
     comma_room PRI_BUF_SIZE_PHY 0 (phy_lengths macaddr s) \<and> comma_room PRI_BUF_SIZE_RING 0 (ring_lengths s) \<and>
     length (primary_message macaddr s) < MSG_SIZE"

lemma used_texts_nonempty: "1 \<in> set us \<Longrightarrow> used_texts i us \<noteq> []"
proof (induction us arbitrary: i)
  case (Cons u us)
  then show ?case by (cases "u = 1") (simp_all add: used_texts_def)
qed simp

lemma status_written:
  assumes ok: "primary_ok macaddr s" and fits: "message_fits macaddr s" and self: "\<And>t. self_comma t = t @ '',''"
  shows "\<exists>A. get_status_json self_comma macaddr s = Some (0, primary_message macaddr s, s\<lparr>mac_addresses := A\<rparr>)"
proof -
  let ?p = "pri_ports s" and ?us = "used_texts 0 (pri_lcore_used s)"
  have us: "?us \<noteq> []" "length (with_commas ?us) < 108" using fits used_texts_nonempty by (simp_all add: message_fits_def)
  then have lc: "append_used 0 (pri_lcore_used s) [] = Some (with_commas ?us)" "with_commas ?us \<noteq> []"
      "butlast (with_commas ?us) = tight_commas ?us" "length (tight_commas ?us) < 107"
    using append_used_text [of "[]"] by (simp_all add: with_commas_tight butlast_append)
  have A0: "macs_ok macaddr (length (mac_addresses s)) (mac_addresses s)" using ok by (simp add: primary_ok_def Let_def)
  have "length (spaced (phy_json macaddr ?p j)) < PRI_BUF_SIZE_PHY" if "j < nat (pp_num_ports ?p)" for j
    using phy_entry [OF ok that A0] entry_length(1) by (fastforce simp: PRI_BUF_SIZE_PHY_def)
  then obtain A where phy: "append_entries self_comma PRI_BUF_SIZE_PHY (phy_port_text macaddr ?p) 0 (nat (pp_num_ports ?p)) [] (mac_addresses s) =
      Some (tight_commas (List.map (\<lambda>i. spaced (phy_json macaddr ?p i)) [0..<phy_shown macaddr s]), A)"
    using append_entries_all [where ok = "macs_ok macaddr (length (mac_addresses s))" and entry = "phy_port_text macaddr ?p"
        and T = "\<lambda>i. spaced (phy_json macaddr ?p i)" and sz = PRI_BUF_SIZE_PHY and n = "nat (pp_num_ports ?p)", OF phy_entry [OF ok] self A0] fits
    by (auto simp: message_fits_def phy_shown_def phy_lengths_def PRI_BUF_SIZE_PHY_def)
  have "length (spaced (ring_json ?p j)) < PRI_BUF_SIZE_RING" if "j < nat (num_rings s)" for j
    using entry_length(2) [OF ring_entry [OF ok that, of "()"]]
    by (simp add: PRI_BUF_SIZE_RING_def PRI_BUF_SIZE_PHY_def PRI_BUF_SIZE_LCORE_def MSG_SIZE_def)
  moreover have "ring_port_text ?p j () = Some (spaced (ring_json ?p j), ())" if "j < nat (num_rings s)" for j
    by (rule ring_entry [OF ok that])
  ultimately have ring: "append_entries self_comma PRI_BUF_SIZE_RING (ring_port_text ?p) 0 (nat (num_rings s)) [] () =
      Some (tight_commas (List.map (\<lambda>i. spaced (ring_json ?p i)) [0..<ring_shown s]), ())"
    using append_entries_all [where ok = "\<lambda>_. True" and entry = "ring_port_text ?p"
        and T = "\<lambda>i. spaced (ring_json ?p i)" and sz = PRI_BUF_SIZE_RING and n = "nat (num_rings s)" and a = "()" and self_comma = self_comma]
      self fits
    by (auto simp: message_fits_def ring_shown_def ring_lengths_def PRI_BUF_SIZE_RING_def PRI_BUF_SIZE_PHY_def PRI_BUF_SIZE_LCORE_def MSG_SIZE_def)
  show ?thesis
    by (rule exI [of _ A]) (use fits us lc phy ring in
      \<open>simp add: get_status_json_def Let_def strcpy_buf_def PRI_BUF_SIZE_LCORE_def quoted_def message_fits_def primary_message_def\<close>)
qed


end
