(* ===== verification/Primary_Rules.thy ===== *)
theory Primary_Rules
  imports Primary_Command
begin

text \<open>
  What the port mask selects, and what the command launch of spp_primary runs.
\<close>

section \<open>The port mask\<close>

text \<open>The list new written from the index n on.\<close>

definition placed :: "nat \<Rightarrow> int list \<Rightarrow> int list \<Rightarrow> int list" where
  "placed n new ids = take n ids @ new @ drop (n + length new) ids"

lemma placed_Nil [simp]: "placed n [] ids = ids"
  by (simp add: placed_def)

lemma placed_Cons: "n < length ids \<Longrightarrow> placed (Suc n) new (ids[n := x]) = placed n (x # new) ids"
  by (simp add: placed_def take_Suc_conv_app_nth)

text \<open>The ports below max_ports whose bit is set, starting with the bit 0 for the port c.\<close>

definition masked :: "int \<Rightarrow> nat \<Rightarrow> nat \<Rightarrow> nat \<Rightarrow> int list" where
  "masked max_ports pm c n = List.map int (filter (\<lambda>k. bit pm (k - c) \<and> int k < max_ports) [c..<c + n])"

lemma masked_Suc: "masked max_ports pm c (Suc n) =
    (if pm mod 2 = 1 \<and> int c < max_ports then [int c] else []) @ masked max_ports (pm div 2) (Suc c) n"
proof -
  have up: "[c..<c + Suc n] = c # [Suc c..<Suc c + n]" by (simp add: upt_conv_Cons)
  have rest: "filter (\<lambda>k. bit pm (k - c) \<and> int k < max_ports) [Suc c..<Suc c + n] =
      filter (\<lambda>k. bit (pm div 2) (k - Suc c) \<and> int k < max_ports) [Suc c..<Suc c + n]"
  proof (rule filter_cong [OF refl])
    fix k assume "k \<in> set [Suc c..<Suc c + n]"
    then have "k - c = Suc (k - Suc c)" by auto
    then show "(bit pm (k - c) \<and> int k < max_ports) \<longleftrightarrow> (bit (pm div 2) (k - Suc c) \<and> int k < max_ports)"
      by (simp add: bit_Suc)
  qed
  show ?thesis unfolding masked_def up filter.simps rest by (auto simp: bit_0 odd_iff_mod_2_eq_one)
qed

lemma masked_zero: "masked max_ports 0 c n = []"
  by (simp add: masked_def)

lemma mark_ports_correct:
  assumes "pm < 2 ^ n" and "c + n \<le> 64" and "pp_num_ports p = int m" and "m + n < 2 ^ 16"
  shows "mark_ports max_ports pm (int c) p =
    (let new = masked max_ports pm c n in
     if new = [] \<or> m + length new \<le> length (pp_id p)
     then Some (p\<lparr>pp_id := placed m new (pp_id p), pp_num_ports := int (m + length new)\<rparr>) else None)"
  using assms
proof (induction n arbitrary: pm c p m)
  case 0
  then show ?case by (simp add: mark_ports.simps masked_def)
next
  case (Suc n)
  show ?case
  proof (cases "pm = 0")
    case True
    then show ?thesis using Suc.prems(3) by (simp add: mark_ports.simps masked_zero)
  next
    case False
    have half: "pm div 2 < 2 ^ n" "Suc c + n \<le> 64" using Suc.prems by auto
    have c1: "to_uint16 (int c + 1) = int (Suc c)" using Suc.prems(2) by (simp add: to_uint16_def)
    show ?thesis
    proof (cases "pm mod 2 = 1 \<and> int c < max_ports")
      case False
      then have "mark_ports max_ports pm (int c) p = mark_ports max_ports (pm div 2) (int (Suc c)) p"
        using \<open>pm \<noteq> 0\<close> c1 by (subst mark_ports.simps) auto
      moreover have "masked max_ports pm c (Suc n) = masked max_ports (pm div 2) (Suc c) n"
        using False by (auto simp: masked_Suc)
      ultimately show ?thesis using Suc.IH [OF half Suc.prems(3)] Suc.prems(4) by simp
    next
      case True
      let ?new = "masked max_ports (pm div 2) (Suc c) n"
      have new: "masked max_ports pm c (Suc n) = int c # ?new" using True by (simp add: masked_Suc)
      show ?thesis
      proof (cases "m < length (pp_id p)")
        case False
        then have "wr (pp_id p) (pp_num_ports p) (int c) = None" by (simp add: wr_None_iff Suc.prems(3))
        then show ?thesis using \<open>pm \<noteq> 0\<close> True False new
          by (subst mark_ports.simps) (simp add: Suc.prems(3))
      next
        case room: True
        let ?p = "p\<lparr>pp_id := (pp_id p)[m := int c], pp_num_ports := int (Suc m)\<rparr>"
        have "to_uint16 (int m + 1) = int (Suc m)" using Suc.prems(4) by (simp add: to_uint16_def)
        then have step: "mark_ports max_ports pm (int c) p = mark_ports max_ports (pm div 2) (int (Suc c)) ?p"
          using \<open>pm \<noteq> 0\<close> True room c1 by (subst mark_ports.simps) (simp add: Suc.prems(3))
        have IH: "mark_ports max_ports (pm div 2) (int (Suc c)) ?p =
            (if ?new = [] \<or> Suc m + length ?new \<le> length (pp_id ?p)
             then Some (?p\<lparr>pp_id := placed (Suc m) ?new (pp_id ?p), pp_num_ports := int (Suc m + length ?new)\<rparr>) else None)"
          using Suc.IH [OF half, of ?p "Suc m"] Suc.prems(4) by (simp add: Let_def del: of_nat_Suc)
        show ?thesis unfolding step IH new using room by (auto simp: placed_Cons)
      qed
    qed
  qed
qed

lemma strtoul_range: "fst (strtoul b str) = pm \<Longrightarrow> 0 \<le> pm \<and> pm < 2 ^ 64"
  by (auto simp: strtoul_def ULONG_MAX_def split: prod.splits if_splits)

text \<open>C35: -p with a hexadecimal number selects, behind the ports that are selected already, the ports
  whose bit is set and that exist, in ascending order, and no others; so the order of the ports and
  their number are those of the mask.  A second -p selects again, and when the array of ports is
  full then, the next number is written behind it (None).\<close>

theorem parse_portmask_correct:
  assumes "strtoul 16 portmask = (pm, [])" and "portmask \<noteq> []" and "pm \<noteq> 0"
    and "0 \<le> pp_num_ports p" and "pp_num_ports p < 2 ^ 15"
  shows "parse_portmask max_ports portmask p =
    (let new = List.map int (filter (\<lambda>k. bit (nat pm) k \<and> int k < max_ports) [0..<64]); num = nat (pp_num_ports p) in
     if new = [] \<or> num + length new \<le> length (pp_id p)
     then Some (0, p\<lparr>pp_id := take num (pp_id p) @ new @ drop (num + length new) (pp_id p),
       pp_num_ports := int (num + length new)\<rparr>)
     else None)"
proof -
  have pm: "0 \<le> pm" "pm < 2 ^ 64" using strtoul_range [of 16 portmask pm] assms(1) by simp_all
  then have "nat pm < 2 ^ 64" by (simp add: nat_less_iff)
  from mark_ports_correct [OF this, of 0 p "nat (pp_num_ports p)" max_ports] show ?thesis
    using assms by (simp add: parse_portmask_def masked_def placed_def Let_def)
qed

section \<open>The launch of a process\<close>

definition path_of :: "string list \<Rightarrow> string" where
  "path_of ds = concat (List.map (\<lambda>d. CHR ''/'' # d) ds)"

definition dir_ok :: "string \<Rightarrow> bool" where
  "dir_ok d \<longleftrightarrow> d \<noteq> [] \<and> CHR ''/'' \<notin> set d"

lemma tokens_path: "\<forall>d\<in>set ds. dir_ok d \<Longrightarrow> tokens (\<lambda>c. c = CHR ''/'') (path_of ds) = ds"
proof (induction ds)
  case (Cons d ds)
  have d: "d \<noteq> []" "\<forall>c\<in>set d. \<not> c = CHR ''/''" using Cons.prems by (auto simp: dir_ok_def)
  have IH: "tokens (\<lambda>c. c = CHR ''/'') (path_of ds) = ds" using Cons by simp
  show ?case
  proof (cases ds)
    case Nil
    then show ?thesis using tokens_single [OF d] by (simp add: path_of_def)
  next
    case (Cons d' ds')
    have "path_of ds = CHR ''/'' # d' @ path_of ds'" by (simp add: path_of_def Cons)
    then show ?thesis using tokens_app [OF d, of "CHR ''/''" "d' @ path_of ds'"] IH by (simp add: path_of_def)
  qed
qed (simp add: path_of_def)

lemma path_slash: "CHR ''/'' # concat (List.map (\<lambda>t. t @ ''/'') ds) = path_of ds @ ''/''"
  by (induction ds) (auto simp: path_of_def)


end
