(* ===== verification/Demo_Primary.thy ===== *)
theory Demo_Primary
  imports Primary_Status Primary_Rules
begin

text \<open>The witnesses of the theorems about spp_primary: two ports, one ring, the cores 0 and 2 in use.\<close>

definition demo_macs :: "int \<Rightarrow> 8 word list" where
  "demo_macs port = [0x56, 0x48, 0x4f, 0x53, 0x54, 0x10]"

definition demo_stats :: stats where
  "demo_stats = \<lparr>st_rx = 7, st_rx_drop = 0, st_tx = 5, st_tx_drop = 2\<rparr>"

definition demo_primary :: primary where
  "demo_primary = \<lparr>pri_ports = \<lparr>pp_num_ports = 2, pp_id = [0, 1], pp_port_stats = [demo_stats, zero_stats],
       pp_client_stats = [demo_stats, zero_stats]\<rparr>,
     num_rings = 1, pri_server_ip = Some ''127.0.0.1'', pri_server_port = 5555, pri_lcore_used = [1, 0, 1],
     mac_addresses = [[], []]\<rparr>"

lemma demo_mac: "mac_of demo_macs port = ''56:48:4f:53:54:10''"
  unfolding mac_of_def demo_macs_def by code_simp

lemma demo_ports: "phy_json demo_macs (pri_ports demo_primary) 0 = JObj [(''id'', JInt 0), (''eth'', JStr ''56:48:4f:53:54:10''),
     (''rx'', JInt 7), (''tx'', JInt 5), (''tx_drop'', JInt 2)]"
    "phy_json demo_macs (pri_ports demo_primary) (Suc 0) = JObj [(''id'', JInt 1), (''eth'', JStr ''56:48:4f:53:54:10''),
     (''rx'', JInt 0), (''tx'', JInt 0), (''tx_drop'', JInt 0)]"
    "ring_json (pri_ports demo_primary) 0 = JObj [(''id'', JInt 0), (''rx'', JInt 7), (''rx_drop'', JInt 0), (''tx'', JInt 5), (''tx_drop'', JInt 2)]"
  by (simp_all add: phy_json_def ring_json_def demo_mac u64_member_def demo_primary_def demo_stats_def zero_stats_def)

lemma demo_texts: "spaced (phy_json demo_macs (pri_ports demo_primary) 0) =
      ''{'' @ quoted ''id'' @ '': 0, '' @ quoted ''eth'' @ '': '' @ quoted ''56:48:4f:53:54:10'' @ '', '' @ quoted ''rx'' @ '': 7, '' @
        quoted ''tx'' @ '': 5, '' @ quoted ''tx_drop'' @ '': 2}''"
    "spaced (phy_json demo_macs (pri_ports demo_primary) (Suc 0)) =
      ''{'' @ quoted ''id'' @ '': 1, '' @ quoted ''eth'' @ '': '' @ quoted ''56:48:4f:53:54:10'' @ '', '' @ quoted ''rx'' @ '': 0, '' @
        quoted ''tx'' @ '': 0, '' @ quoted ''tx_drop'' @ '': 0}''"
    "spaced (ring_json (pri_ports demo_primary) 0) =
      ''{'' @ quoted ''id'' @ '': 0, '' @ quoted ''rx'' @ '': 7, '' @ quoted ''rx_drop'' @ '': 0, '' @
        quoted ''tx'' @ '': 5, '' @ quoted ''tx_drop'' @ '': 2}''"
  unfolding demo_ports by code_simp+

lemma demo_counts: "[0..<nat (pp_num_ports (pri_ports demo_primary))] = [0, Suc 0]" "[0..<nat (num_rings demo_primary)] = [0]"
  by (simp_all add: demo_primary_def upt_rec)

lemma demo_lengths: "phy_lengths demo_macs demo_primary = [69, 69]" "ring_lengths demo_primary = [55]"
  by (simp_all add: phy_lengths_def ring_lengths_def demo_counts demo_texts quoted_def del: upt_Suc)

lemma demo_shown: "[0..<phy_shown demo_macs demo_primary] = [0, Suc 0]" "[0..<ring_shown demo_primary] = [0]"
  by (simp_all add: phy_shown_def ring_shown_def demo_lengths PRI_BUF_SIZE_PHY_def PRI_BUF_SIZE_RING_def PRI_BUF_SIZE_LCORE_def
      MSG_SIZE_def upt_rec)

lemma demo_used: "used_texts 0 (pri_lcore_used demo_primary) = [''0'', ''2'']"
  unfolding demo_primary_def used_texts_def by code_simp

lemma demo_primary_ok: "primary_ok demo_macs demo_primary" "message_fits demo_macs demo_primary"
proof -
  show "primary_ok demo_macs demo_primary"
    by (auto simp: primary_ok_def macs_ok_def demo_primary_def demo_macs_def nth_Cons')
  show "message_fits demo_macs demo_primary"
    by (simp add: message_fits_def demo_lengths demo_used with_commas_def primary_message_def demo_shown demo_texts status_text_def
        quoted_def PRI_BUF_SIZE_PHY_def PRI_BUF_SIZE_RING_def PRI_BUF_SIZE_LCORE_def MSG_SIZE_def del: upt_Suc)
      (simp add: demo_primary_def)?
qed

definition demo_launch :: launch_env where
  "demo_launch = \<lparr>readlink_exe = Some ''/home/spp/src/primary/x86/spp_primary'', stack_text = [], fork_pid = 77,
     strtod_int = (\<lambda>_. Some 1)\<rparr>"


text \<open>The mask d selects the ports 0, 2 and 3, of which there are three, behind the port that is there.\<close>

lemma parse_portmask_correct_witness:
  "parse_portmask 3 ''d'' \<lparr>pp_num_ports = 1, pp_id = [5, 0, 0, 0], pp_port_stats = [], pp_client_stats = []\<rparr> =
    Some (0, \<lparr>pp_num_ports = 3, pp_id = [5, 0, 2, 0], pp_port_stats = [], pp_client_stats = []\<rparr>)"
proof -
  have s: "strtoul 16 ''d'' = (13, [])" by code_simp
  have "[0..<64] = [0..<3] @ [3..<64 :: nat]" using upt_add_eq_append [of 0 3 61] by simp
  moreover have "filter (\<lambda>k. bit (nat 13) k \<and> int k < 3) [3..<64] = []" by (simp add: filter_empty_conv)
  moreover have "[0..<3] = [0, 1, 2 :: nat]" by (simp add: upt_rec)
  moreover have "bit (nat 13) (0 :: nat)" "\<not> bit (nat 13) (1 :: nat)" "bit (nat 13) (2 :: nat)" by (simp_all add: bit_iff_odd)
  ultimately have "filter (\<lambda>k. bit (nat 13) k \<and> int k < 3) [0..<64] = [0, 2]" by simp
  then show ?thesis
    using parse_portmask_correct [OF s, of "\<lparr>pp_num_ports = 1, pp_id = [5, 0, 0, 0], pp_port_stats = [], pp_client_stats = []\<rparr>" 3]
    by simp
qed

lemma show_nat1: "show_int 1 = ''1''"
  by code_simp


end
