(* ===== verification/Ring_Latency.thy ===== *)
theory Ring_Latency
  imports CString "HOL-Library.Word" "HOL-Library.Log_Nat"
begin

text \<open>
  vf/common/ringlatencystats.c, which is compiled with SPP_RINGLATENCYSTATS_ENABLE: packets get a time
  stamp now and then when they enter a ring, and when they leave it the latency is counted in a
  histogram of nanoseconds.  A packet is its time stamp, 0 for none; tsc gives the readings of the
  time stamp counter and hz is its frequency.  None is undefined behaviour.
\<close>

section \<open>Data\<close>

definition SLOT_COUNT :: nat where "SLOT_COUNT = 101"

record latency_info =
  timer_tsc :: "64 word"
  prev_tsc :: "64 word"
  slots :: "64 word list"

text \<open>The memory of the statistics; after it is freed the pointer stays.\<close>

datatype latency_ptr = Null_Info | Freed_Info | Live_Info "latency_info list"

record latency_state =
  g_stats_info :: latency_ptr
  g_samp_intvl :: "64 word"
  g_stats_count :: nat

definition zero_latency_info :: latency_info where
  "zero_latency_info = \<lparr>timer_tsc = 0, prev_tsc = 0, slots = replicate SLOT_COUNT 0\<rparr>"

text \<open>The frequency divided by 1E9; the quotient of doubles is converted to an integer, which is exact
  for frequencies below 2 to the 50th.\<close>

definition cycles_per_ns :: "nat \<Rightarrow> nat" where
  "cycles_per_ns hz = hz div 1000000000"

section \<open>Start and end\<close>

text \<open>rte_zmalloc succeeds or not.\<close>

definition spp_ringlatencystats_init :: "nat \<Rightarrow> bool \<Rightarrow> 64 word \<Rightarrow> nat \<Rightarrow> latency_state \<Rightarrow> int \<times> latency_state" where
  "spp_ringlatencystats_init hz alloc samp_intvl stats_count s =
    (if \<not> alloc then (- 1, s\<lparr>g_stats_info := Null_Info\<rparr>)
     else (0, \<lparr>g_stats_info = Live_Info (replicate stats_count zero_latency_info),
       g_samp_intvl = samp_intvl * of_nat (cycles_per_ns hz), g_stats_count = stats_count\<rparr>))"

definition spp_ringlatencystats_uninit :: "latency_state \<Rightarrow> latency_state option" where
  "spp_ringlatencystats_uninit s =
    (case g_stats_info s of
       Null_Info \<Rightarrow> Some s
     | Freed_Info \<Rightarrow> None
     | Live_Info _ \<Rightarrow> Some (s\<lparr>g_stats_info := Freed_Info, g_stats_count := 0\<rparr>))"

definition info_of :: "latency_state \<Rightarrow> int \<Rightarrow> latency_info option" where
  "info_of s ring_id = (case g_stats_info s of Live_Info xs \<Rightarrow> rd xs ring_id | _ \<Rightarrow> None)"

definition put_latency :: "int \<Rightarrow> latency_info \<Rightarrow> latency_state \<Rightarrow> latency_state option" where
  "put_latency ring_id info s =
    (case g_stats_info s of
       Live_Info xs \<Rightarrow> do { xs' \<leftarrow> wr xs ring_id info; Some (s\<lparr>g_stats_info := Live_Info xs'\<rparr>) }
     | _ \<Rightarrow> None)"

section \<open>Time stamps\<close>

fun stamp_packets ::
  "64 word \<Rightarrow> (nat \<Rightarrow> 64 word) \<Rightarrow> nat \<Rightarrow> latency_info \<Rightarrow> 64 word list \<Rightarrow> latency_info \<times> 64 word list" where
  "stamp_packets intvl tsc i info [] = (info, [])"
| "stamp_packets intvl tsc i info (p # ps) =
    (let now = tsc i;
         timer = timer_tsc info + (now - prev_tsc info);
         (p', timer') = (if timer \<ge> intvl then (now, 0) else (p, timer));
         (info', ps') = stamp_packets intvl tsc (Suc i) (info\<lparr>timer_tsc := timer', prev_tsc := now\<rparr>) ps
     in (info', p' # ps'))"

definition spp_ringlatencystats_add_time_stamp ::
  "(nat \<Rightarrow> 64 word) \<Rightarrow> int \<Rightarrow> 64 word list \<Rightarrow> latency_state \<Rightarrow> (64 word list \<times> latency_state) option" where
  "spp_ringlatencystats_add_time_stamp tsc ring_id pkts s = do {
     info \<leftarrow> info_of s ring_id;
     let (info', pkts') = stamp_packets (g_samp_intvl s) tsc 0 info pkts;
     s' \<leftarrow> put_latency ring_id info' s;
     Some (pkts', s')
   }"

section \<open>Latencies\<close>

text \<open>floor takes a double: the integer is rounded to the nearest one with 53 significant bits, ties to
  even.\<close>

definition to_double :: "nat \<Rightarrow> nat" where
  "to_double q =
    (if q < 2 ^ 53 then q
     else let k = 2 ^ (floorlog 2 q - 53); r = q div k; up = 2 * (q mod k) > k \<or> 2 * (q mod k) = k \<and> odd r in
       (if up then r + 1 else r) * k)"

text \<open>The slot of a latency, which is converted from uint64_t to int64_t and then used as an index.\<close>

definition latency_slot :: "nat \<Rightarrow> 64 word \<Rightarrow> 64 word \<Rightarrow> nat option" where
  "latency_slot cpns now stamp = do {
     ensure (cpns \<noteq> 0);
     let latency = to_double (unat (now - stamp) div cpns);
     ensure (latency < 2 ^ 63);
     Some (if latency < SLOT_COUNT - 1 then latency else SLOT_COUNT - 1)
   }"

fun count_latencies :: "nat \<Rightarrow> 64 word \<Rightarrow> 64 word list \<Rightarrow> 64 word list \<Rightarrow> 64 word list option" where
  "count_latencies cpns now [] sl = Some sl"
| "count_latencies cpns now (p # ps) sl =
    (if p = 0 then count_latencies cpns now ps sl
     else do {
       k \<leftarrow> latency_slot cpns now p;
       x \<leftarrow> rd sl (int k);
       sl' \<leftarrow> wr sl (int k) (x + 1);
       count_latencies cpns now ps sl'
     })"

definition spp_ringlatencystats_calculate_latency ::
  "nat \<Rightarrow> 64 word \<Rightarrow> int \<Rightarrow> 64 word list \<Rightarrow> latency_state \<Rightarrow> latency_state option" where
  "spp_ringlatencystats_calculate_latency hz now ring_id pkts s = do {
     info \<leftarrow> info_of s ring_id;
     sl \<leftarrow> count_latencies (cycles_per_ns hz) now pkts (slots info);
     put_latency ring_id (info\<lparr>slots := sl\<rparr>) s
   }"

definition spp_ringlatencystats_get_count :: "latency_state \<Rightarrow> nat" where
  "spp_ringlatencystats_get_count s = g_stats_count s"

definition spp_ringlatencystats_get_stats :: "latency_state \<Rightarrow> int \<Rightarrow> 64 word list option" where
  "spp_ringlatencystats_get_stats s ring_id = do { info \<leftarrow> info_of s ring_id; Some (slots info) }"

section \<open>What is counted\<close>

lemma latency_slot_ok:
  assumes "0 < cpns" and "unat (now - stamp) < 2 ^ 53"
  shows "latency_slot cpns now stamp = Some (min (unat (now - stamp) div cpns) 100)"
proof -
  have "unat (now - stamp) div cpns < 2 ^ 53" using assms(2) by (meson div_le_dividend le_less_trans)
  then show ?thesis using assms(1) by (auto simp: latency_slot_def to_double_def SLOT_COUNT_def min_def Let_def)
qed

definition hits :: "nat \<Rightarrow> 64 word \<Rightarrow> 64 word list \<Rightarrow> nat \<Rightarrow> nat" where
  "hits cpns now pkts k = length (filter (\<lambda>p. p \<noteq> 0 \<and> min (unat (now - p) div cpns) 100 = k) pkts)"

lemma count_latencies_ok:
  assumes "0 < cpns" and "\<forall>p\<in>set pkts. p \<noteq> 0 \<longrightarrow> unat (now - p) < 2 ^ 53" and "length sl = 101"
  shows "\<exists>sl'. count_latencies cpns now pkts sl = Some sl' \<and> length sl' = 101 \<and>
    (\<forall>k<101. sl' ! k = sl ! k + of_nat (hits cpns now pkts k))"
  using assms
proof (induction pkts arbitrary: sl)
  case (Cons p ps)
  show ?case
  proof (cases "p = 0")
    case True
    then show ?thesis using Cons by (auto simp: hits_def)
  next
    case False
    define k where "k = min (unat (now - p) div cpns) 100"
    have k: "latency_slot cpns now p = Some k" "k < 101"
      using latency_slot_ok [of cpns now p] Cons.prems(1,2) False by (auto simp: k_def)
    have "\<exists>sl'. count_latencies cpns now ps (sl[k := sl ! k + 1]) = Some sl' \<and> length sl' = 101 \<and>
        (\<forall>j<101. sl' ! j = sl[k := sl ! k + 1] ! j + of_nat (hits cpns now ps j))"
      using Cons.prems by (intro Cons.IH) auto
    then obtain sl' where sl': "count_latencies cpns now ps (sl[k := sl ! k + 1]) = Some sl'" "length sl' = 101"
        "\<And>j. j < 101 \<Longrightarrow> sl' ! j = sl[k := sl ! k + 1] ! j + of_nat (hits cpns now ps j)" by blast
    have "hits cpns now (p # ps) j = (if j = k then 1 else 0) + hits cpns now ps j" for j
      using False by (auto simp: hits_def k_def)
    then have "sl' ! j = sl ! j + of_nat (hits cpns now (p # ps) j)" if "j < 101" for j
      using sl'(3) [OF that] k(2) Cons.prems(3) that by (simp add: nth_list_update)
    then show ?thesis using False k sl'(1,2) Cons.prems(3) by auto
  qed
qed (simp add: hits_def)


text \<open>With a slower counter the first packet with a stamp divides by zero.\<close>

lemma slow_clock_undefined:
  assumes "hz < 1000000000" and "p \<noteq> 0"
  shows "spp_ringlatencystats_calculate_latency hz now ring_id (p # ps) s = None"
  using assms by (simp add: spp_ringlatencystats_calculate_latency_def cycles_per_ns_def latency_slot_def Option.bind_eq_None_conv)


end
