(* ===== verification/Spec2Isabelle.thy ===== *)
theory Spec2Isabelle
  imports Demo_Packets Demo_Control Demo_Start Demo_Responses Demo_Mirror Mirror_Deep Demo_Nfv Demo_Pcap_Command Demo_Primary Ring_Latency Strbuf Mac_Text
begin

text \<open>
  Soft Patch Panel connects DPDK ports, rings and vhost interfaces by processes that forward,
  merge, mirror, classify or capture packets.  This development models the five processes,
  each with its data plane, its management data and its command interface to the controller:
  spp_vf (src/src/vf), spp_mirror (src/src/mirror), spp_nfv (src/src/nfv), spp_pcap
  (src/src/pcap) and the primary process (src/src/primary), with the code they share (src/src/shared, src/src/vf/common).  What is left
  out is listed under Not modelled.

  The parts of spp_vf and how they interact.  The main thread receives a line of text from the
  controller (Command_Conn: vf/common/command_conn.c; Strbuf: vf/common/string_buffer.c), decodes
  it to a command (Command_Dec: vf/common/command_dec.c), updates the management data and flushes
  it to the workers (Command_Proc: vf/common/command_proc.c; Spp_Flush: the flush functions of
  vf/common/spp_proc.c), and answers with a JSON text (Command_Json, Command_Response:
  command_proc.c).  The flush creates missing ports (Add_Port: shared/secondary/add_port.c) and
  hands the new tables of cores, components and port abilities to the workers by flipping the
  index of a double buffer (Double_Buffer).  A worker (Vf_Main: slave_main of vf/spp_vf.c) looks
  for a flip and then runs the components of its core: a forwarder or merger (Spp_Forward:
  vf/spp_forward.c) or a classifier (Classifier: vf/classifier_mac.c), which receive and send
  through the functions of Spp_Port (vf/common/spp_port.c) that add and delete VLAN tags.
  App_Options has the option loops of spp_vf, spp_mirror and spp_nfv, Vf_Start main of spp_vf from
  the options to the end of the workers.

  spp_mirror.  Mirror has the pool, the update, the round that sends every packet and a clone of
  it, and main (mirror/spp_mirror.c); Mirror_Deep the copy of a packet segment by segment in the
  build without SPP_MIRROR_SHALLOWCOPY.  The commands are those of spp_vf, from the same sources;
  Mirror has what is compiled differently.

  spp_nfv.  Nfv_Ports has the ports, patches and the forwarding worker (nfv/main.c,
  nfv/nfv_utils.h), Nfv_Command the commands (nfv/commands.h), Nfv_Patch what they do to the
  patches, Nfv_Status the status text (nfv/nfv_status.c), and Nfv_System the process: commands of
  the main thread and turns of the worker in any order.

  spp_pcap.  Pcap_File writes compressed capture files (pcap/spp_pcap.c) on a model of the C
  library: a host has files, streams, blocks of the heap and a count of calls, and the record lib
  says which calls fail.  Pcap_Capture has the receiver and the writers, which share a ring and
  the counters of started threads; one iteration of the loop of a thread is one step.  Pcap_Dec
  and Pcap_Command have the parser and the answers (pcap/command_dec.c, pcap/command_proc.c),
  Pcap_Main the options, the tables and main.  The JSON writers, the string buffer and the
  connection of spp_pcap are textual copies of those of spp_vf, so their definitions are used.

  spp_primary.  Primary has the options and the initialisation of the memory pool, the ports and the
  rings that all processes share (primary/args.c, primary/init.c), Primary_Command the status
  message, the launch of other processes, the commands and the loop (primary/main.c); the
  connection is that of spp_nfv.  Ring_Latency is the measurement of the time packets spend in
  rings (vf/common/ringlatencystats.c), which is compiled on request; the burst functions are
  modelled without it.

  Data.  Spp_Types has the structs and enums of spp_proc.h and command_dec.h as records and
  datatypes, and the record manage_data with the tables of the process; the records of the
  other components extend it (port_data, forward_data, classifier_data, mirror_data), so that one
  state has all global variables; spp_nfv, spp_pcap and
  spp_primary have states of their own.  A C array is a
  list of its declared size; a pointer to a port is an interface type with a number, NULL is
  None.  Pkt has the packets: an mbuf has the bytes of its buffer, the headroom and the length,
  and the DPDK calls on packets are the record dpdk with a world 'w.  Machine words are kept
  where they matter (48- and 64-bit addresses, 16-bit fields of a frame, size_t); other C
  integers are integers with the conversions written out (to_int32, to_uint16, u64).

  Effects.  Every function that can run into undefined behaviour of C (an index out of bounds,
  NULL, a copy past the end of a buffer) returns an option, and None is exactly that, or an
  endless loop; return codes are integers inside it.  Waiting for another thread consumes a
  schedule: a list of events, each of which is a step of another thread given by the argument
  env; when the schedule ends while the condition still holds the wait has not returned (None).
  Strings are without their NUL, and copies carry the size of the destination.

  Parameters.  Code outside src is an argument: dpdk (io_laws, mbuf_laws and mem_laws state the
  documented behaviour of the burst functions and of the mbuf functions), hash_ops (rte_hash,
  hash_laws), ethdev (Ethernet device library), net (sockets, recv_laws), json_env (malloc and
  the bytes readable at a literal), tab_env (ether_format_addr and a bound on the entries of a
  hash table), ring_ops (rte_ring, ring_laws), lib (faults of the C library, the clock, and LZ4
  with lz4_laws), seg_pool (allocation and release of mbufs, pool_laws), pri_dev (creation of pools and rings, link status), launch_env
  (readlink, fork, strtod) and what sprintf leaves when it prints a buffer onto itself.  Pkt has an instance that satisfies the laws, Demo one of the hash table,
  Demo_Pcap one of the ring and of LZ4, and the witnesses of the theorems run on them.

  Lemmas.  Counted_Array shows that the deletions from arrays with a count keep the order of the
  others and return what the callers test.  Double_Buffer states the contract of the double
  buffer as a locale, which Spp_Forward, Classifier_Run, Spp_Flush and Port_Ability interpret on
  the code's tables, and proves for the protocol of the two threads that a worker never reads an
  area while it is written.  Spp_Port and Port_Ability: tagging and untagging are inverse and
  keep all other bytes, and abilities are published.  Spp_Forward and Classifier_Run: every
  packet is sent, kept in a queue or freed exactly once, and an update takes effect.
  Classifier_Table: the tables that are built decide as the specification by entries does.
  Spp_Flush: what the flush publishes and when it blocks.  Vf_Main and Vf_Start: the start
  establishes the invariants and hands them to the loop of commands, and main ends when the workers
  have stopped.  App_Options: what the options mean as a whole.  Mac_Text and Shared_Common: text conversions.  Command_Text: the decoder
  inverts the command language; Command_Safety: decoded commands are in range.  Command_Inv has
  the invariant mng_ok of the management data; Command_Component, Command_Port and Command_Table
  show what the commands do, Command_Keep that every branch of them keeps the invariant, Command_Request composes them to lines.
  Command_Json proves that a writer appends the text of a JSON value, Response_Text that the
  responses are the texts of values that are computed from the same iterations, and
  Command_Loop composes all of it: a message that is received is executed and answered in one
  turn of the main thread.  Mirror: which packets are sent, freed and lost, and that an update
  takes effect.  Mirror_Deep: a packet is copied completely or not at all, and no mbuf leaks.  Nfv_System: commands and turns in any order keep the tables well-formed and
  never fail; Nfv_Patch and Nfv_Status: what the commands do and print.  Pcap_Format: an
  independent reader of the capture format, which Pcap_Round shows to invert what a writer
  writes, over all its files.  Pcap_Safe and Pcap_Inv: who owns which stream, block and packet;
  Pcap_System and Pcap_Run: every step of every thread keeps this, a capture that is over has
  written every packet that it took, and the writers come to an end.  Pcap_Start: the start of
  the process establishes what these theorems assume.  Pcap_Answer: a request line is answered
  by the text of a JSON value computed from the state.  Primary_Status: the status of
  spp_primary is the text of a JSON value up to blanks; Primary_Rules: which ports a mask selects
  and what is launched.  Ring_Latency: every stamped packet is counted once.  The theories Demo* have the concrete
  states and the witnesses.

  Bounds and fuel.  The loops of the code are structural recursions over the lists they scan, or
  functions with a measure.  The growth loop of the string buffer is a partial function, proved
  to return below 2^62 bytes.  iterate_hash takes the number of entries as fuel.  The drain of a
  capture is bounded by the number of packets in the ring.  The loop over the segments of a packet is
  a partial function, proved to return for every chain that ends.

  Not modelled.  Logging and usage texts; rte_eal_init, signal registration and getopt_long (its
  results are an argument of the option parsers); the statistics that spp_primary
  displays on a terminal; memory that is not released
  at the end of a process; the Python controller and web service.
\<close>

end
